(* ===== verification/Prelude.thy ===== *)
theory Prelude
  imports Main "HOL-Library.Word" "HOL-Library.While_Combinator"
begin

text \<open>
  Types, arithmetic idioms of the C sources and generic lemmas shared by every theory of
  the development.

  \<^item> \<open>u8\<close>, \<open>u16\<close>, \<open>u32\<close>: the unsigned C types at their width. \<open>int\<close> of the sources is
    HOL \<open>int\<close>; where a value could leave the 32-bit range, a bound is proved.
  \<^item> \<open>LC3_MIN\<close>, \<open>LC3_MAX\<close>, \<open>LC3_CLIP\<close>, \<open>LC3_ABS\<close>: the macros of \<^verbatim>\<open>common.h\<close>.
  \<^item> \<open>be_val\<close>: the number read from the first bytes of a buffer, most significant first
    (the arithmetic coder's side); \<open>le_val\<close>: the number read from the end of the buffer
    backwards, least significant first (the plain bits' side).
\<close>

unbundle bit_operations_syntax

type_synonym u8 = "8 word"
type_synonym u16 = "16 word"
type_synonym u32 = "32 word"

named_theorems bits_model \<open>definitions of the bitstream operations, unfolded together\<close>
named_theorems op_specs \<open>what each put or get of a component does on the bitstream\<close>

section \<open>The macros of common.h\<close>

definition LC3_MIN :: "int \<Rightarrow> int \<Rightarrow> int" where
  "LC3_MIN a b = (if a < b then a else b)"

definition LC3_MAX :: "int \<Rightarrow> int \<Rightarrow> int" where
  "LC3_MAX a b = (if a > b then a else b)"

definition LC3_CLIP :: "int \<Rightarrow> int \<Rightarrow> int \<Rightarrow> int" where
  "LC3_CLIP v mn mx = LC3_MIN (LC3_MAX v mn) mx"

definition LC3_ABS :: "int \<Rightarrow> int" where
  "LC3_ABS v = (if v < 0 then - v else v)"

definition LC3_SAT16 :: "int \<Rightarrow> int" where
  "LC3_SAT16 v = LC3_CLIP v (- (2 ^ 15)) (2 ^ 15 - 1)"

definition LC3_SAT24 :: "int \<Rightarrow> int" where
  "LC3_SAT24 v = LC3_CLIP v (- (2 ^ 23)) (2 ^ 23 - 1)"

lemma LC3_MIN_min [simp]: "LC3_MIN a b = min a b"
  by (simp add: LC3_MIN_def min_def)

lemma LC3_MAX_max [simp]: "LC3_MAX a b = max a b"
  by (auto simp: LC3_MAX_def max_def)

lemma LC3_ABS_abs [simp]: "LC3_ABS a = \<bar>a\<bar>"
  by (simp add: LC3_ABS_def)

lemma LC3_CLIP_bounds:
  "mn \<le> mx \<Longrightarrow> mn \<le> LC3_CLIP v mn mx \<and> LC3_CLIP v mn mx \<le> mx"
  by (auto simp: LC3_CLIP_def)

text \<open>
  Division of C \<open>int\<close>s truncates towards zero; \<open>cdiv\<close> and \<open>cmod\<close> are C's \<^verbatim>\<open>/\<close> and
  \<^verbatim>\<open>%\<close>. The arithmetic shift \<^verbatim>\<open>>>\<close> of an \<open>int\<close> is \<open>drop_bit\<close>.
\<close>

definition cdiv :: "int \<Rightarrow> int \<Rightarrow> int" where
  "cdiv a b = sgn a * sgn b * (\<bar>a\<bar> div \<bar>b\<bar>)"

definition cmod :: "int \<Rightarrow> int \<Rightarrow> int" where
  "cmod a b = a - b * cdiv a b"

lemma cdiv_nonneg: "0 \<le> a \<Longrightarrow> 0 < b \<Longrightarrow> cdiv a b = a div b"
  by (cases "a = 0") (auto simp: cdiv_def sgn_if)

lemma cmod_nonneg: "0 \<le> a \<Longrightarrow> 0 < b \<Longrightarrow> cmod a b = a mod b"
  by (simp add: cmod_def cdiv_nonneg minus_mult_div_eq_mod)

section \<open>Loops\<close>

text \<open>
  A \<^verbatim>\<open>for\<close> loop whose body may fail to return: the body runs on each element in turn,
  and threads the state.
\<close>

fun for_each :: "('a \<Rightarrow> 's \<Rightarrow> 's option) \<Rightarrow> 'a list \<Rightarrow> 's \<Rightarrow> 's option" where
  "for_each f [] s = Some s"
| "for_each f (x # xs) s = Option.bind (f x s) (for_each f xs)"

lemma for_each_append: "for_each f (xs @ ys) s = Option.bind (for_each f xs s) (for_each f ys)"
  by (induction xs arbitrary: s) (auto split: bind_split)

lemma for_each_invariant:
  assumes "\<And>x s. x \<in> set xs \<Longrightarrow> I s \<Longrightarrow> \<exists>s'. f x s = Some s' \<and> I s'" and "I s"
  obtains s' where "for_each f xs s = Some s'" "I s'"
  using assms
proof (induction xs arbitrary: s thesis)
  case (Cons x xs)
  obtain s1 where 1: "f x s = Some s1" "I s1" using Cons.prems(2) [of x s] Cons.prems(3) by auto
  obtain s2 where "for_each f xs s1 = Some s2" "I s2"
    by (rule Cons.IH [of s1]) (use Cons.prems(2) 1(2) in auto)
  with 1(1) show ?case by (intro Cons.prems(1)) simp_all
qed auto

lemma upt_small [simp]: "[0 ..< Suc 0] = [0]" "[0 ..< 2] = [0, 1 :: nat]"
  by (simp_all add: numeral_2_eq_2)

section \<open>Reading a byte buffer as a number\<close>

text \<open>\<open>byte_at xs i\<close>: the byte at offset \<open>i\<close>, 0 beyond the end of the buffer.\<close>

definition byte_at :: "u8 list \<Rightarrow> nat \<Rightarrow> int" where
  "byte_at xs i = (if i < length xs then uint (xs ! i) else 0)"

lemma byte_at_bounds [simp]: "0 \<le> byte_at xs i" "byte_at xs i < 256"
proof -
  show "0 \<le> byte_at xs i" by (simp add: byte_at_def)
  have "uint (xs ! i) < 2 ^ LENGTH(8)" by (rule uint_bounded)
  then show "byte_at xs i < 256" by (simp add: byte_at_def)
qed

text \<open>\<open>be_val xs k\<close>: the first \<open>k\<close> bytes as a big-endian number.\<close>

fun be_val :: "u8 list \<Rightarrow> nat \<Rightarrow> int" where
  "be_val xs 0 = 0"
| "be_val xs (Suc k) = 256 * be_val xs k + byte_at xs k"

lemma be_val_nonneg [simp]: "0 \<le> be_val xs k"
  by (induction k) auto

lemma be_val_less: "be_val xs k < 256 ^ k"
proof (induction k)
  case (Suc k)
  then have "be_val xs k + 1 \<le> 256 ^ k" by simp
  then have "256 * be_val xs k + 256 \<le> 256 * 256 ^ k" by simp
  with byte_at_bounds(2) [of xs k] have "256 * be_val xs k + byte_at xs k < 256 * 256 ^ k"
    by linarith
  then show ?case by simp
qed simp

lemma be_val_cong: "(\<And>i. i < k \<Longrightarrow> byte_at xs i = byte_at ys i) \<Longrightarrow> be_val xs k = be_val ys k"
  by (induction k) auto

lemma be_val_add: "be_val xs (k + n) div 256 ^ n = be_val xs k"
proof (induction n)
  case (Suc n)
  have "be_val xs (k + Suc n) div 256 ^ Suc n
      = (256 * be_val xs (k + n) + byte_at xs (k + n)) div 256 div 256 ^ n"
    by (simp add: zdiv_zmult2_eq)
  also have "(256 * be_val xs (k + n) + byte_at xs (k + n)) div 256 = be_val xs (k + n)"
    using byte_at_bounds [of xs "k + n"] by (simp add: div_add1_eq div_pos_pos_trivial)
  finally show ?case using Suc by simp
qed simp

lemma byte_at_update:
  "byte_at (xs[i := v]) j = (if i = j \<and> i < length xs then uint v else byte_at xs j)"
  by (auto simp: byte_at_def)

lemma be_val_update_beyond: "k \<le> i \<Longrightarrow> be_val (xs[i := v]) k = be_val xs k"
  by (rule be_val_cong) (auto simp: byte_at_update)

text \<open>\<open>le_val xs k\<close>: the last \<open>k\<close> bytes, the last one least significant.\<close>

definition rbyte_at :: "u8 list \<Rightarrow> nat \<Rightarrow> int" where
  "rbyte_at xs j = (if j < length xs then uint (xs ! (length xs - 1 - j)) else 0)"

lemma rbyte_at_bounds [simp]: "0 \<le> rbyte_at xs j" "rbyte_at xs j < 256"
proof -
  show "0 \<le> rbyte_at xs j" by (simp add: rbyte_at_def)
  have "uint (xs ! (length xs - 1 - j)) < 2 ^ LENGTH(8)" by (rule uint_bounded)
  then show "rbyte_at xs j < 256" by (simp add: rbyte_at_def)
qed

lemma rbyte_at_byte_at: "j < length xs \<Longrightarrow> rbyte_at xs j = byte_at xs (length xs - 1 - j)"
  by (auto simp: rbyte_at_def byte_at_def)

fun le_val :: "u8 list \<Rightarrow> nat \<Rightarrow> int" where
  "le_val xs 0 = 0"
| "le_val xs (Suc k) = le_val xs k + rbyte_at xs k * 256 ^ k"

lemma le_val_nonneg [simp]: "0 \<le> le_val xs k"
  by (induction k) auto

lemma le_val_less: "le_val xs k < 256 ^ k"
proof (induction k)
  case (Suc k)
  have "rbyte_at xs k + 1 \<le> 256" using rbyte_at_bounds(2) [of xs k] by linarith
  then have "(rbyte_at xs k + 1) * 256 ^ k \<le> 256 * 256 ^ k"
    by (rule mult_right_mono) simp
  then have "rbyte_at xs k * 256 ^ k + 256 ^ k \<le> 256 ^ Suc k"
    by (simp add: distrib_right)
  with Suc show ?case unfolding le_val.simps by linarith
qed simp

lemma le_val_cong: "(\<And>j. j < k \<Longrightarrow> rbyte_at xs j = rbyte_at ys j) \<Longrightarrow> le_val xs k = le_val ys k"
  by (induction k) auto

lemma le_val_mod: "k \<le> m \<Longrightarrow> le_val xs m mod 256 ^ k = le_val xs k"
proof (induction m)
  case (Suc m)
  show ?case
  proof (cases "k = Suc m")
    case True
    then show ?thesis using le_val_less [of xs "Suc m"] by simp
  next
    case False
    with Suc have le: "k \<le> m" by simp
    then have "(256::int) ^ m = 256 ^ k * 256 ^ (m - k)" by (simp flip: power_add)
    then have "rbyte_at xs m * 256 ^ m = 256 ^ k * (rbyte_at xs m * 256 ^ (m - k))" by simp
    then have "(le_val xs m + rbyte_at xs m * 256 ^ m) mod 256 ^ k = le_val xs m mod 256 ^ k"
      by (simp only: mod_mult_self2)
    with le Suc show ?thesis by simp
  qed
qed simp

section \<open>Words as numbers\<close>

named_theorems uint_simps \<open>reading 32-bit results as integers\<close>

lemma uint_drop_bit32 [uint_simps]: "uint (drop_bit n (w :: u32)) = uint w div 2 ^ n"
  proof -
  have "uint (drop_bit n w) = drop_bit n (uint w)"
    by (rule bit_eqI) (auto simp: bit_simps dest: bit_imp_le_length)
  then show ?thesis by (simp only: drop_bit_eq_div)
qed

lemma and_24 [uint_simps]: "uint (w AND 0xffffff :: u32) = uint w mod 16777216"
proof -
  have "w AND 0xffffff = take_bit 24 w"
    by (simp add: take_bit_eq_mask mask_eq_exp_minus_1)
  then have "uint (w AND 0xffffff) = take_bit 24 (uint w)"
    by (simp only: unsigned_take_bit_eq)
  then show ?thesis by (simp add: take_bit_eq_mod)
qed

lemma and_8 [uint_simps]: "uint (w AND 0xff :: u32) = uint w mod 2 ^ 8"
proof -
  have "w AND 0xff = take_bit 8 w"
    by (simp add: take_bit_eq_mask mask_eq_exp_minus_1)
  then have "uint (w AND 0xff) = take_bit 8 (uint w)"
    by (simp only: unsigned_take_bit_eq)
  then show ?thesis by (simp only: take_bit_eq_mod)
qed

lemma uint_bound32: "0 \<le> uint (w :: u32)" "uint (w :: u32) < 4294967296"
  using uint_bounded [of w] by simp_all

lemma uint_bound16: "0 \<le> uint (w :: u16)" "uint (w :: u16) < 65536"
  using uint_bounded [of w] by simp_all

lemma uint_ucast16 [uint_simps]: "uint (ucast (w :: u16) :: u32) = uint w"
  by (simp add: unsigned_ucast_eq take_bit_int_eq_self_iff order_less_trans [OF uint_bound16(2)])

lemma uint_mult32: "uint (a :: u32) * uint b < 4294967296 \<Longrightarrow> uint (a * b) = uint a * uint b"
  using uint_bound32 [of a] uint_bound32 [of b] by (simp add: uint_word_ariths)

lemma uint_add32: "uint (a :: u32) + uint b < 4294967296 \<Longrightarrow> uint (a + b) = uint a + uint b"
  using uint_bound32 [of a] uint_bound32 [of b] by (simp add: uint_word_ariths)

lemma uint_sub32: "uint b \<le> uint (a :: u32) \<Longrightarrow> uint (a - b) = uint a - uint b"
  by (simp add: uint_sub_if')

lemma uint_push_bit32: "uint (push_bit n (w :: u32)) = uint w * 2 ^ n mod 2 ^ 32"
proof -
  have "uint (push_bit n w) = take_bit LENGTH(32) (push_bit n (uint w))"
    by (rule unsigned_push_bit_eq)
  then show ?thesis by (simp add: take_bit_eq_mod push_bit_eq_mult)
qed

lemma shift8_24: "uint (push_bit 8 w AND 0xffffff :: u32) = uint w * 256 mod 16777216"
proof -
  have "uint w * 256 mod 4294967296 mod 16777216 = uint w * 256 mod (16777216 :: int)"
    by (rule mod_mod_cancel) simp
  then show ?thesis using uint_push_bit32 [of 8 w] by (simp only: and_24) simp
qed

lemma word_less_uint: "a < b \<longleftrightarrow> uint (a :: u32) < uint b"
  by (rule word_less_def)

lemma uint_eq_0_iff32: "(w :: u32) = 0 \<longleftrightarrow> uint w = 0"
  by (simp add: uint_0_iff)

lemma mod_cases_24:
  assumes "0 \<le> x" "x < 2 * 16777216"
  shows "x mod 16777216 = (if x < 16777216 then x else x - (16777216::int))"
    and "x div 16777216 = (if x < 16777216 then 0 else (1::int))"
  using assms by (auto simp: div_pos_pos_trivial intro: int_div_pos_eq int_mod_pos_eq)

end
