(* ===== verification/Float32.thy ===== *)
theory Float32
  imports Prelude
begin

text \<open>
  The C type \<^verbatim>\<open>float\<close>: IEEE 754 binary32, rounding to nearest, ties to even, every
  operation rounded once (no contraction, no excess precision). A finite value is
  \<open>FFin s m e\<close>, the number \<open>(-1)^s * m * 2^e\<close>, with \<open>m < 2^24\<close>, \<open>e \<ge> -149\<close>, and
  \<open>m \<ge> 2^23\<close> unless \<open>e = -149\<close>; both zeros are \<open>FFin s 0 (-149)\<close>.

  Conversions of a value that does not fit the target integer type are undefined in C;
  \<open>f32_to_int\<close> gives the truncated number whatever its size, and 0 for the values that are
  not finite.
\<close>

datatype f32 = FNan | FInf bool | FFin bool int int

function bit_length :: "int \<Rightarrow> int" where
  "bit_length n = (if n \<le> 0 then 0 else 1 + bit_length (n div 2))"
  by pat_completeness auto
termination
  by (relation "measure nat") auto

declare bit_length.simps [simp del]

lemma bit_length_0 [simp]: "bit_length 0 = 0"
  by (simp add: bit_length.simps)

lemma bit_length_nonneg [simp]: "0 \<le> bit_length n"
proof (induction n rule: bit_length.induct)
  case (1 n)
  then show ?case by (cases "n \<le> 0") (simp_all add: bit_length.simps [of n])
qed

lemma nat_bit_length: "0 < n \<Longrightarrow> nat (bit_length n) = Suc (nat (bit_length (n div 2)))"
  by (simp add: bit_length.simps [of n] nat_add_distrib)

lemma bit_length_less: "0 \<le> n \<Longrightarrow> n < 2 ^ nat (bit_length n)"
proof (induction n rule: bit_length.induct)
  case (1 n)
  show ?case
  proof (cases "n \<le> 0")
    case False
    with 1 have "n div 2 < 2 ^ nat (bit_length (n div 2))" by simp
    then have "n < 2 * 2 ^ nat (bit_length (n div 2))" by linarith
    with False show ?thesis by (simp add: nat_bit_length)
  qed (use 1 in simp)
qed

lemma bit_length_ge: "0 < n \<Longrightarrow> 2 ^ nat (bit_length n) \<le> 2 * n"
proof (induction n rule: bit_length.induct)
  case (1 n)
  show ?case
  proof (cases "n div 2 = 0")
    case True
    with 1 have "n = 1" by simp
    then show ?thesis by (simp add: bit_length.simps [of 1])
  next
    case False
    with 1 have "2 ^ nat (bit_length (n div 2)) \<le> 2 * (n div 2)" by simp
    with 1 show ?thesis by (simp add: nat_bit_length)
  qed
qed

lemma bit_length_le: "0 \<le> n \<Longrightarrow> n < 2 ^ k \<Longrightarrow> bit_length n \<le> int k"
proof -
  assume a: "0 \<le> n" "n < 2 ^ k"
  show ?thesis
  proof (cases "n = 0")
    case False
    then have "(2::int) ^ nat (bit_length n) < 2 * 2 ^ k" using bit_length_ge [of n] a by simp
    then have "(2::int) ^ nat (bit_length n) < 2 ^ Suc k" by simp
    then have "nat (bit_length n) < Suc k" by (rule power_less_imp_less_exp [rotated]) simp
    then show ?thesis by simp
  qed simp
qed

text \<open>
  Rounding \<open>m * 2^e\<close>, plus something below the last place when \<open>sticky\<close>, to \<open>p\<close> bits with an
  exponent of at least \<open>emin\<close>.
\<close>

definition round_mant :: "int \<Rightarrow> int \<Rightarrow> int \<Rightarrow> int \<Rightarrow> bool \<Rightarrow> int \<times> int" where
  "round_mant p emin m e sticky =
     (if m = 0 then (0, emin) else
      let e' = max (e + bit_length m - p) emin; d = e' - e in
      if d \<le> 0 then (m * 2 ^ nat (- d), e')
      else (let q = m div 2 ^ nat d; r = m mod 2 ^ nat d; h = 2 ^ (nat d - 1);
                q = (if r > h \<or> (r = h \<and> (sticky \<or> odd q)) then q + 1 else q)
            in if q = 2 ^ nat p then (2 ^ nat (p - 1), e' + 1) else (q, e')))"

definition f32_round :: "bool \<Rightarrow> int \<Rightarrow> int \<Rightarrow> bool \<Rightarrow> f32" where
  "f32_round s m e sticky =
     (case round_mant 24 (-149) m e sticky of (q, e') \<Rightarrow> if e' > 104 then FInf s else FFin s q e')"

section \<open>Arithmetic\<close>

fun f32_neg :: "f32 \<Rightarrow> f32" where
  "f32_neg FNan = FNan"
| "f32_neg (FInf s) = FInf (\<not> s)"
| "f32_neg (FFin s m e) = FFin (\<not> s) m e"

fun f32_abs :: "f32 \<Rightarrow> f32" where
  "f32_abs FNan = FNan"
| "f32_abs (FInf s) = FInf False"
| "f32_abs (FFin s m e) = FFin False m e"

definition signed :: "bool \<Rightarrow> int \<Rightarrow> int" where
  "signed s m = (if s then - m else m)"

fun f32_add :: "f32 \<Rightarrow> f32 \<Rightarrow> f32" where
  "f32_add (FFin s1 m1 e1) (FFin s2 m2 e2) =
     (let e = min e1 e2;
          v = signed s1 m1 * 2 ^ nat (e1 - e) + signed s2 m2 * 2 ^ nat (e2 - e)
      in if v = 0 then FFin (s1 \<and> s2) 0 (-149) else f32_round (v < 0) \<bar>v\<bar> e False)"
| "f32_add (FInf s1) (FInf s2) = (if s1 = s2 then FInf s1 else FNan)"
| "f32_add FNan y = FNan"
| "f32_add x FNan = FNan"
| "f32_add (FInf s) (FFin s2 m2 e2) = FInf s"
| "f32_add (FFin s1 m1 e1) (FInf s) = FInf s"

definition f32_sub :: "f32 \<Rightarrow> f32 \<Rightarrow> f32" where
  "f32_sub x y = f32_add x (f32_neg y)"

fun f32_mul :: "f32 \<Rightarrow> f32 \<Rightarrow> f32" where
  "f32_mul (FFin s1 m1 e1) (FFin s2 m2 e2) = f32_round (s1 \<noteq> s2) (m1 * m2) (e1 + e2) False"
| "f32_mul FNan y = FNan"
| "f32_mul x FNan = FNan"
| "f32_mul (FInf s1) (FInf s2) = FInf (s1 \<noteq> s2)"
| "f32_mul (FInf s1) (FFin s2 m2 e2) = (if m2 = 0 then FNan else FInf (s1 \<noteq> s2))"
| "f32_mul (FFin s1 m1 e1) (FInf s2) = (if m1 = 0 then FNan else FInf (s1 \<noteq> s2))"

fun f32_div :: "f32 \<Rightarrow> f32 \<Rightarrow> f32" where
  "f32_div (FFin s1 m1 e1) (FFin s2 m2 e2) =
     (if m2 = 0 then (if m1 = 0 then FNan else FInf (s1 \<noteq> s2))
      else f32_round (s1 \<noteq> s2) (m1 * 2 ^ 50 div m2) (e1 - e2 - 50) (m1 * 2 ^ 50 mod m2 \<noteq> 0))"
| "f32_div FNan y = FNan"
| "f32_div x FNan = FNan"
| "f32_div (FInf s1) (FInf s2) = FNan"
| "f32_div (FInf s1) (FFin s2 m2 e2) = FInf (s1 \<noteq> s2)"
| "f32_div (FFin s1 m1 e1) (FInf s2) = FFin (s1 \<noteq> s2) 0 (-149)"

section \<open>Comparison\<close>

text \<open>Comparisons with a NaN are false; the two zeros are equal.\<close>

fun f32_lt :: "f32 \<Rightarrow> f32 \<Rightarrow> bool" where
  "f32_lt (FFin s1 m1 e1) (FFin s2 m2 e2) =
     (let e = min e1 e2
      in signed s1 m1 * 2 ^ nat (e1 - e) < signed s2 m2 * 2 ^ nat (e2 - e))"
| "f32_lt FNan y = False"
| "f32_lt x FNan = False"
| "f32_lt (FInf s1) (FInf s2) = (s1 \<and> \<not> s2)"
| "f32_lt (FInf s1) (FFin s2 m2 e2) = s1"
| "f32_lt (FFin s1 m1 e1) (FInf s2) = (\<not> s2)"

fun f32_eq :: "f32 \<Rightarrow> f32 \<Rightarrow> bool" where
  "f32_eq (FFin s1 m1 e1) (FFin s2 m2 e2) =
     (let e = min e1 e2
      in signed s1 m1 * 2 ^ nat (e1 - e) = signed s2 m2 * 2 ^ nat (e2 - e))"
| "f32_eq (FInf s1) (FInf s2) = (s1 = s2)"
| "f32_eq x y = False"

definition f32_le :: "f32 \<Rightarrow> f32 \<Rightarrow> bool" where
  "f32_le x y = (f32_lt x y \<or> f32_eq x y)"

abbreviation f32_gt :: "f32 \<Rightarrow> f32 \<Rightarrow> bool" where "f32_gt x y \<equiv> f32_lt y x"
abbreviation f32_ge :: "f32 \<Rightarrow> f32 \<Rightarrow> bool" where "f32_ge x y \<equiv> f32_le y x"

section \<open>Conversions\<close>

definition f32_of_int :: "int \<Rightarrow> f32" where
  "f32_of_int i = f32_round (i < 0) \<bar>i\<bar> 0 False"

fun f32_to_int :: "f32 \<Rightarrow> int" where
  "f32_to_int (FFin s m e) = (if e \<ge> 0 then signed s (m * 2 ^ nat e) else signed s (m div 2 ^ nat (- e)))"
| "f32_to_int x = 0"

fun f32_ldexp :: "f32 \<Rightarrow> int \<Rightarrow> f32" where
  "f32_ldexp (FFin s m e) n = f32_round s m (e + n) False"
| "f32_ldexp x n = x"

text \<open>
  \<open>f32_dec d k\<close>: the literal \<open>d * 10^k\<close>. A literal without suffix is a \<^verbatim>\<open>double\<close> that is
  converted; \<open>f32_lit d k\<close> is the literal with the suffix \<^verbatim>\<open>f\<close>, rounded once.
\<close>

definition decimal :: "int \<Rightarrow> int \<Rightarrow> int \<times> int \<times> bool" where
  "decimal d k =
     (if k \<ge> 0 then (\<bar>d\<bar> * 10 ^ nat k, 0, False)
      else let den = 10 ^ nat (- k); n = \<bar>d\<bar> * 2 ^ (4 * nat (- k) + 64)
           in (n div den, - (4 * (- k) + 64), n mod den \<noteq> 0))"

definition f32_lit :: "int \<Rightarrow> int \<Rightarrow> f32" where
  "f32_lit d k = (case decimal d k of (m, e, sticky) \<Rightarrow> f32_round (d < 0) m e sticky)"

definition f32_dec :: "int \<Rightarrow> int \<Rightarrow> f32" where
  "f32_dec d k = (case decimal d k of (m, e, sticky) \<Rightarrow>
     case round_mant 53 (-1074) m e sticky of (m, e) \<Rightarrow> f32_round (d < 0) m e False)"

text \<open>A table of literals.\<close>

definition f32_tab :: "(int \<times> int) list \<Rightarrow> f32 list" where
  "f32_tab t = map (\<lambda>(d, k). f32_dec d k) t"

text \<open>The bits of a value, as a union with a \<^verbatim>\<open>uint32_t\<close> reads them; one quiet NaN.\<close>

fun f32_bits :: "f32 \<Rightarrow> int" where
  "f32_bits FNan = 0x7fc00000"
| "f32_bits (FInf s) = of_bool s * 2 ^ 31 + 0x7f800000"
| "f32_bits (FFin s m e) = of_bool s * 2 ^ 31 + (if m < 2 ^ 23 then m else (e + 149) * 2 ^ 23 + m)"

abbreviation f32_0 :: f32 where "f32_0 \<equiv> FFin False 0 (-149)"
abbreviation f32_1 :: f32 where "f32_1 \<equiv> FFin False 8388608 (-23)"

section \<open>Values that are exact\<close>

text \<open>A number of at most 24 bits is not rounded.\<close>

lemma round_mant_exact:
  assumes m: "0 < m" "m < 2 ^ 24" and e: "emin \<le> e + bit_length m - 24"
  shows "round_mant 24 emin m e st = (m * 2 ^ nat (24 - bit_length m), e + bit_length m - 24)"
proof -
  have "bit_length m \<le> int 24" by (rule bit_length_le) (use m in simp_all)
  then show ?thesis using m e by (simp add: round_mant_def Let_def max_def)
qed

lemma f32_round_exact:
  assumes m: "0 < m" "m < 2 ^ 24" and e: "-126 \<le> e" "e \<le> 104"
  shows "f32_round s m e st = FFin s (m * 2 ^ nat (24 - bit_length m)) (e + bit_length m - 24)"
proof -
  have "bit_length m \<le> int 24" by (rule bit_length_le) (use m in simp_all)
  moreover have "1 \<le> bit_length m" using m by (simp add: bit_length.simps [of m])
  ultimately show ?thesis
    using round_mant_exact [OF m, of "-149" e st] e by (simp add: f32_round_def)
qed

lemma f32_of_int_exact:
  assumes "i \<noteq> 0" "\<bar>i\<bar> < 2 ^ 24"
  shows "f32_of_int i = FFin (i < 0) (\<bar>i\<bar> * 2 ^ nat (24 - bit_length \<bar>i\<bar>)) (bit_length \<bar>i\<bar> - 24)"
  unfolding f32_of_int_def using assms by (subst f32_round_exact) auto

lemma f32_of_int_0: "f32_of_int 0 = f32_0"
  by (simp add: f32_of_int_def f32_round_def round_mant_def)

text \<open>Small integers are added exactly.\<close>

lemma bit_length_double: "0 < n \<Longrightarrow> bit_length (n * 2) = bit_length n + 1"
  by (subst bit_length.simps) simp

lemma bit_length_scale: "0 < n \<Longrightarrow> bit_length (n * 2 ^ k) = bit_length n + int k"
proof (induction k)
  case (Suc k)
  have "n * 2 ^ Suc k = n * 2 ^ k * 2" by simp
  with Suc bit_length_double [of "n * 2 ^ k"] show ?case by (simp only: zero_less_mult_iff) simp
qed simp

lemma f32_round_scaled:
  assumes m: "0 < m" "m < 2 ^ 24" and k: "k \<le> 24"
  shows "f32_round s (m * 2 ^ k) (- int k) False = f32_round s m 0 False"
proof -
  define b where "b = bit_length m"
  have b: "1 \<le> b" "b \<le> 24"
    using m bit_length_le [of m 24] by (simp_all add: b_def bit_length.simps [of m])
  have M: "0 < m * 2 ^ k" using m by simp
  have bl: "bit_length (m * 2 ^ k) = b + int k" using bit_length_scale [OF m(1)] by (simp add: b_def)
  define q where "q = m * 2 ^ nat (24 - b)"
  have "round_mant 24 (- 149) (m * 2 ^ k) (- int k) False = (q, b - 24)"
  proof (cases "b - 24 + int k \<le> 0")
    case True
    have "(2 :: int) ^ k * 2 ^ nat (24 - b - int k) = 2 ^ nat (24 - b)"
    proof -
      have "k + nat (24 - b - int k) = nat (24 - b)" using True by linarith
      then show ?thesis by (simp only: power_add [symmetric])
    qed
    then have "m * 2 ^ k * 2 ^ nat (- (b - 24 + int k)) = q"
      by (simp add: q_def mult.assoc algebra_simps)
    then show ?thesis using True m b unfolding round_mant_def Let_def bl by (simp add: max_def algebra_simps)
  next
    case False
    define d where "d = nat (b - 24 + int k)"
    have d: "int d = b - 24 + int k" "0 < d" using False by (simp_all add: d_def)
    then have "k = nat (24 - b) + d" using b by linarith
    then have "m * 2 ^ k = q * 2 ^ d" by (simp only: power_add q_def mult.assoc)
    then have "m * 2 ^ k div 2 ^ d = q" "m * 2 ^ k mod 2 ^ d = 0" by simp_all
    moreover have "q \<noteq> 2 ^ 24"
    proof -
      have "m < 2 ^ nat b" using m bit_length_less [of m] by (simp add: b_def)
      then have "q < 2 ^ nat b * 2 ^ nat (24 - b)" by (simp add: q_def)
      also have "\<dots> = 2 ^ 24" using b by (simp add: power_add [symmetric] nat_add_distrib [symmetric])
      finally show ?thesis by simp
    qed
    moreover have E: "max (- int k + bit_length (m * 2 ^ k) - 24) (- 149) = b - 24"
      using b by (simp add: bl)
    moreover have D: "b - 24 - - int k = int d" using d by simp
    ultimately show ?thesis
      using m d(2) unfolding round_mant_def Let_def E D nat_int by simp
  qed
  moreover have "round_mant 24 (- 149) m 0 False = (q, b - 24)"
    using round_mant_exact [OF m, of "- 149" 0 False] b by (simp add: q_def b_def)
  ultimately show ?thesis by (simp add: f32_round_def)
qed

lemma f32_add_of_int:
  assumes m: "m \<noteq> 0" "\<bar>m\<bar> < 2 ^ 24" and n: "n \<noteq> 0" "\<bar>n\<bar> < 2 ^ 24" and s: "m + n \<noteq> 0" "\<bar>m + n\<bar> < 2 ^ 24"
  shows "f32_add (f32_of_int m) (f32_of_int n) = f32_of_int (m + n)"
proof -
  define p q e where "p = bit_length \<bar>m\<bar>" and "q = bit_length \<bar>n\<bar>" and "e = min p q"
  have pq: "1 \<le> p" "p \<le> 24" "1 \<le> q" "q \<le> 24"
    using m n bit_length_le [of "\<bar>m\<bar>" 24] bit_length_le [of "\<bar>n\<bar>" 24]
    by (simp_all add: p_def q_def bit_length.simps [of "\<bar>m\<bar>"] bit_length.simps [of "\<bar>n\<bar>"])
  define k where "k = nat (24 - e)"
  have sg: "signed (x < 0) (\<bar>x\<bar> * 2 ^ nat (24 - r)) * 2 ^ nat (r - e) = x * 2 ^ k"
    if "e \<le> r" "r \<le> 24" for x r
  proof -
    have "nat (24 - r) + nat (r - e) = k" using that by (simp add: k_def)
    then have "(2 :: int) ^ nat (24 - r) * 2 ^ nat (r - e) = 2 ^ k" by (simp only: power_add [symmetric])
    then have "signed (x < 0) (\<bar>x\<bar> * 2 ^ nat (24 - r)) * 2 ^ nat (r - e) = signed (x < 0) \<bar>x\<bar> * 2 ^ k"
      by (simp add: signed_def mult.assoc)
    then show ?thesis by (simp add: signed_def)
  qed
  have e: "e \<le> p" "e \<le> q" "1 \<le> e" using pq by (simp_all add: e_def)
  have mn: "min (p - 24) (q - 24) = e - 24" by (simp add: e_def)
  have "f32_add (f32_of_int m) (f32_of_int n) = f32_round (m + n < 0) (\<bar>m + n\<bar> * 2 ^ k) (- int k) False"
    using s(1) e pq m n
    by (simp add: f32_of_int_exact p_def [symmetric] q_def [symmetric] Let_def mn sg abs_mult
        distrib_right [symmetric] mult_less_0_iff) (simp add: k_def)
  also have "\<dots> = f32_of_int (m + n)"
    unfolding f32_of_int_def using s pq e by (intro f32_round_scaled) (simp_all add: k_def)
  finally show ?thesis .
qed

lemma f32_eq_of_int_0: "\<bar>i\<bar> < 2 ^ 24 \<Longrightarrow> f32_eq (f32_of_int i) f32_0 \<longleftrightarrow> i = 0"
  by (cases "i = 0") (simp_all add: f32_of_int_0 f32_of_int_exact Let_def signed_def)

lemma f32_lt_of_int_0: "\<bar>i\<bar> < 2 ^ 24 \<Longrightarrow> f32_lt (f32_of_int i) f32_0 \<longleftrightarrow> i < 0"
  by (cases "i = 0") (auto simp: f32_of_int_0 f32_of_int_exact Let_def signed_def mult_less_0_iff zero_less_mult_iff)

lemma f32_abs_of_int: "\<bar>i\<bar> < 2 ^ 24 \<Longrightarrow> f32_abs (f32_of_int i) = f32_of_int \<bar>i\<bar>"
  by (cases "i = 0") (simp_all add: f32_of_int_0 f32_of_int_exact)

text \<open>Their order is that of the integers.\<close>

lemma f32_lt_of_int:
  assumes m: "\<bar>m\<bar> < 2 ^ 24" and n: "\<bar>n\<bar> < 2 ^ 24"
  shows "f32_lt (f32_of_int m) (f32_of_int n) \<longleftrightarrow> m < n"
proof -
  define val where "val x = (if x = 0 then - 149 else bit_length \<bar>x\<bar> - 24)" for x :: int
  have e: "\<exists>M. f32_of_int x = FFin (x < 0) M (val x) \<and> (\<exists>j. signed (x < 0) M = x * 2 ^ j \<and> int j = - val x \<or> x = 0 \<and> M = 0)"
    if "\<bar>x\<bar> < 2 ^ 24" for x
  proof (cases "x = 0")
    case False
    have "bit_length \<bar>x\<bar> \<le> 24" using bit_length_le [of "\<bar>x\<bar>" 24] that by simp
    then show ?thesis
      using f32_of_int_exact [OF False that] False
      by (intro exI [of _ "\<bar>x\<bar> * 2 ^ nat (24 - bit_length \<bar>x\<bar>)"] conjI exI [of _ "nat (24 - bit_length \<bar>x\<bar>)"])
        (simp_all add: val_def signed_def)
  qed (simp add: f32_of_int_0 val_def)
  obtain M N where M: "f32_of_int m = FFin (m < 0) M (val m)" "\<exists>j. signed (m < 0) M = m * 2 ^ j \<and> int j = - val m \<or> m = 0 \<and> M = 0"
    and N: "f32_of_int n = FFin (n < 0) N (val n)" "\<exists>j. signed (n < 0) N = n * 2 ^ j \<and> int j = - val n \<or> n = 0 \<and> N = 0"
    using e [OF m] e [OF n] by blast
  define E where "E = min (val m) (val n)"
  have sc: "signed (x < 0) X * 2 ^ nat (val x - E) = x * 2 ^ nat (- E)"
    if "\<exists>j. signed (x < 0) X = x * 2 ^ j \<and> int j = - val x \<or> x = 0 \<and> X = 0" "E \<le> val x" for x X
    using that(1)
  proof (elim exE disjE conjE)
    fix j assume j: "signed (x < 0) X = x * 2 ^ j" "int j = - val x"
    then have "j + nat (val x - E) = nat (- E)" using that(2) by linarith
    then show ?thesis using j by (simp add: mult.assoc power_add [symmetric])
  qed (simp add: signed_def)
  have "E \<le> val m" "E \<le> val n" by (simp_all add: E_def)
  then show ?thesis
    using sc [OF M(2)] sc [OF N(2)] unfolding M(1) N(1) by (simp add: Let_def E_def)
qed

end
