(* ===== verification/Fastmath.thy ===== *)
theory Fastmath
  imports Float32
begin

text \<open>
  The approximations of \<^verbatim>\<open>fastmath.h\<close>, and the functions of \<^verbatim>\<open>math.h\<close> that are exact or
  correctly rounded (\<^verbatim>\<open>frexpf\<close>, \<^verbatim>\<open>floorf\<close>, \<^verbatim>\<open>ceilf\<close>, \<^verbatim>\<open>sqrtf\<close>, \<^verbatim>\<open>fmaxf\<close>, \<^verbatim>\<open>fminf\<close>).
  The logarithm of the library is not one of them: \<open>log10f\<close> is an argument of what uses it.
\<close>

section \<open>Functions of the library\<close>

definition f32_fmax :: "f32 \<Rightarrow> f32 \<Rightarrow> f32" where
  "f32_fmax x y = (if x = FNan then y else if f32_lt x y then y else x)"

definition f32_fmin :: "f32 \<Rightarrow> f32 \<Rightarrow> f32" where
  "f32_fmin x y = (if x = FNan then y else if f32_lt y x then y else x)"

text \<open>The fraction in \<open>[1/2, 1)\<close> and the exponent; a zero and what is not finite are their
  own fraction.\<close>

fun f32_frexp :: "f32 \<Rightarrow> f32 \<times> int" where
  "f32_frexp (FFin s m e) =
     (if m = 0 then (FFin s m e, 0)
      else let k = e + bit_length m in (f32_round s m (- bit_length m) False, k))"
| "f32_frexp x = (x, 0)"

text \<open>Rounding to an integer value, down and up.\<close>

fun f32_floor :: "f32 \<Rightarrow> f32" where
  "f32_floor (FFin s m e) =
     (if e \<ge> 0 then FFin s m e
      else let v = signed s m div 2 ^ nat (- e) in if v = 0 then FFin s 0 (-149) else f32_of_int v)"
| "f32_floor x = x"

definition f32_ceil :: "f32 \<Rightarrow> f32" where
  "f32_ceil x = f32_neg (f32_floor (f32_neg x))"

text \<open>The integer square root, two bits at a time.\<close>

function isqrt :: "int \<Rightarrow> int" where
  "isqrt n = (if n \<le> 0 then 0 else let r = 2 * isqrt (n div 4) in if (r + 1) * (r + 1) \<le> n then r + 1 else r)"
  by pat_completeness auto
termination
  by (relation "measure nat") auto

declare isqrt.simps [simp del]

lemma isqrt_bounds: "0 \<le> n \<Longrightarrow> 0 \<le> isqrt n \<and> isqrt n * isqrt n \<le> n \<and> n < (isqrt n + 1) * (isqrt n + 1)"
proof (induction n rule: isqrt.induct)
  case (1 n)
  show ?case
  proof (cases "n \<le> 0")
    case True
    with 1(2) show ?thesis by (simp add: isqrt.simps)
  next
    case False
    define q where "q = isqrt (n div 4)"
    have q: "0 \<le> q" "q * q \<le> n div 4" "n div 4 < (q + 1) * (q + 1)"
      using 1(1) [OF False] False by (simp_all add: q_def)
    have lo: "(2 * q) * (2 * q) \<le> n" using q(2) by simp
    have "n div 4 + 1 \<le> (q + 1) * (q + 1)" using q(3) by simp
    then have "n < 4 * ((q + 1) * (q + 1))" by linarith
    then have "n < (2 * q + 1 + 1) * (2 * q + 1 + 1)" by (simp add: algebra_simps)
    then show ?thesis
      using False q(1) lo by (subst (1 2 3 4 5) isqrt.simps) (auto simp: q_def [symmetric] Let_def)
  qed
qed

text \<open>The square root is rounded once: 30 bits of it and whether something is left.\<close>

fun f32_sqrt :: "f32 \<Rightarrow> f32" where
  "f32_sqrt (FFin s m e) =
     (if m = 0 then FFin s m e
      else if s then FNan
      else let k = 60 - bit_length m; k = (if even (e - k) then k else k + 1);
               v = m * 2 ^ nat k; r = isqrt v
           in f32_round False r ((e - k) div 2) (r * r \<noteq> v))"
| "f32_sqrt FNan = FNan"
| "f32_sqrt (FInf s) = (if s then FNan else FInf s)"

section \<open>Approximations\<close>

definition fast_exp2f :: "f32 \<Rightarrow> f32" where
  "fast_exp2f x =
     (let c0 = f32_dec 127191277 (-17); c1 = f32_dec 147415221 (-15); c2 = f32_dec 135510312 (-13);
          c3 = f32_dec 938375815 (-12); c4 = f32_dec 433216946 (-10);
          y = f32_mul c0 x;
          y = f32_mul (f32_add y c1) x;
          y = f32_mul (f32_add y c2) x;
          y = f32_mul (f32_add y c3) x;
          y = f32_mul (f32_add y c4) x;
          y = f32_add y f32_1;
          y = f32_mul y y; y = f32_mul y y; y = f32_mul y y; y = f32_mul y y
      in y)"

definition fast_log2f :: "f32 \<Rightarrow> f32" where
  "fast_log2f x =
     (let c0 = f32_dec (-129479677) (-8); c1 = f32_dec 511769018 (-8); c2 = f32_dec (-842295281) (-8);
          c3 = f32_dec 810557963 (-8); c4 = f32_dec (-350567360) (-8);
          (x, e) = f32_frexp x;
          y = f32_mul c0 x;
          y = f32_mul (f32_add y c1) x;
          y = f32_mul (f32_add y c2) x;
          y = f32_mul (f32_add y c3) x;
          y = f32_add y c4
      in f32_add (f32_of_int e) y)"

definition fast_log10f :: "(f32 \<Rightarrow> f32) \<Rightarrow> f32 \<Rightarrow> f32" where
  "fast_log10f log10f x = f32_mul (log10f (f32_of_int 2)) (fast_log2f x)"

definition db_table :: "(int \<times> int) list" where
  "db_table =
     [(0, 4379), (4379, 4248), (8627, 4125), (12753, 4009),
      (16762, 3899), (20661, 3795), (24456, 3697), (28153, 3603),
      (31755, 3514), (35269, 3429), (38699, 3349), (42047, 3272),
      (45319, 3198), (48517, 3128), (51645, 3061), (54705, 2996),
      (8381, 2934), (11315, 2875), (14190, 2818), (17008, 2763),
      (19772, 2711), (22482, 2660), (25142, 2611), (27754, 2564),
      (30318, 2519), (32837, 2475), (35312, 2433), (37744, 2392),
      (40136, 2352), (42489, 2314), (44803, 2277), (47080, 2241)]"

text \<open>From the bits of the square of the operand.\<close>

definition db_of_bits :: "int \<Rightarrow> int" where
  "db_of_bits u =
     (let e2 = drop_bit 22 u - 2 * 127;
          hi = nat (drop_bit 18 u AND 0x1f);
          lo = drop_bit 2 u AND 0xffff
      in e2 * 49321 + fst (db_table ! hi) + drop_bit 16 (snd (db_table ! hi) * lo))"

definition fast_db_q16 :: "f32 \<Rightarrow> int" where
  "fast_db_q16 x = db_of_bits (f32_bits (f32_mul x x))"

section \<open>The decibels grow with the energy\<close>

lemma db_table_props:
  "length db_table = 32"
  "\<forall>i < 32. 0 \<le> fst (db_table ! i) \<and> fst (db_table ! i) \<le> 54705 \<and> 2241 \<le> snd (db_table ! i) \<and> snd (db_table ! i) \<le> 4379"
  "\<forall>i < 31. i \<noteq> 15 \<longrightarrow> fst (db_table ! i) + snd (db_table ! i) \<le> fst (db_table ! (i + 1)) + 1"
proof -
  show "length db_table = 32" by (simp add: db_table_def)
  have "list_all (\<lambda>p. 0 \<le> fst p \<and> fst p \<le> 54705 \<and> 2241 \<le> snd p \<and> snd p \<le> 4379) db_table"
    by (simp add: db_table_def)
  then show "\<forall>i < 32. 0 \<le> fst (db_table ! i) \<and> fst (db_table ! i) \<le> 54705 \<and> 2241 \<le> snd (db_table ! i) \<and> snd (db_table ! i) \<le> 4379"
    by (simp add: list_all_length \<open>length db_table = 32\<close>)
  have z: "list_all (\<lambda>(p, q). fst p + snd p \<le> fst q + 1) (zip (take 15 db_table) (tl db_table))"
    "list_all (\<lambda>(p, q). fst p + snd p \<le> fst q + 1) (zip (drop 16 db_table) (drop 17 db_table))"
    by (simp_all add: db_table_def)
  show "\<forall>i < 31. i \<noteq> 15 \<longrightarrow> fst (db_table ! i) + snd (db_table ! i) \<le> fst (db_table ! (i + 1)) + 1"
  proof (intro allI impI)
    fix i :: nat assume i: "i < 31" "i \<noteq> 15"
    show "fst (db_table ! i) + snd (db_table ! i) \<le> fst (db_table ! (i + 1)) + 1"
    proof (cases "i < 15")
      case True
      then show ?thesis using z(1) \<open>length db_table = 32\<close> by (auto simp: list_all_length nth_tl)
    next
      case False
      then show ?thesis
        using z(2) i \<open>length db_table = 32\<close> unfolding list_all_length
        by (auto dest!: spec [of _ "i - 16"])
    qed
  qed
qed

text \<open>The same, from the parts of the word: \<open>h\<close> its bits from the 18th up.\<close>

definition db_part :: "int \<Rightarrow> int \<Rightarrow> int" where
  "db_part h lo = (h div 16 - 254) * 49321 + fst (db_table ! nat (h mod 32)) + snd (db_table ! nat (h mod 32)) * lo div 65536"

lemma db_of_bits_part:
  assumes "0 \<le> u"
  shows "db_of_bits u = db_part (u div 2 ^ 18) (u div 4 mod 65536)"
proof -
  have hi: "drop_bit 18 u AND 0x1f = u div 2 ^ 18 mod 32"
    using take_bit_eq_mask [of 5 "drop_bit 18 u"] by (simp add: take_bit_eq_mod drop_bit_eq_div mask_eq_exp_minus_1)
  have lo: "drop_bit 2 u AND 0xffff = u div 4 mod 65536"
    using take_bit_eq_mask [of 16 "drop_bit 2 u"] by (simp add: take_bit_eq_mod drop_bit_eq_div mask_eq_exp_minus_1)
  have e: "drop_bit 22 u = u div 2 ^ 18 div 16"
    using zdiv_zmult2_eq [of 16 u "2 ^ 18"] by (simp add: drop_bit_eq_div)
  have d: "drop_bit 16 v = v div 65536" for v :: int by (simp add: drop_bit_eq_div)
  show ?thesis unfolding db_of_bits_def Let_def hi lo e d db_part_def by simp
qed

lemma db_part_bounds:
  assumes "0 \<le> h" "0 \<le> lo" "lo < 65536"
  shows "(h div 16 - 254) * 49321 + fst (db_table ! nat (h mod 32)) \<le> db_part h lo"
    and "db_part h lo < (h div 16 - 254) * 49321 + fst (db_table ! nat (h mod 32)) + snd (db_table ! nat (h mod 32))"
proof -
  let ?d = "snd (db_table ! nat (h mod 32))"
  have d: "2241 \<le> ?d" using db_table_props(2) by (auto simp: nat_less_iff)
  then have "0 \<le> ?d * lo" using assms by simp
  moreover have "?d * lo < ?d * 65536" using d assms by (intro mult_strict_left_mono) simp_all
  moreover have "?d * lo div 65536 * 65536 \<le> ?d * lo" by simp
  ultimately have "?d * lo div 65536 < ?d" by linarith
  moreover have "0 \<le> ?d * lo div 65536" using \<open>0 \<le> ?d * lo\<close> by (intro pos_imp_zdiv_nonneg_iff [THEN iffD2]) simp_all
  ultimately show "(h div 16 - 254) * 49321 + fst (db_table ! nat (h mod 32)) \<le> db_part h lo"
    "db_part h lo < (h div 16 - 254) * 49321 + fst (db_table ! nat (h mod 32)) + ?d"
    by (simp_all add: db_part_def)
qed

lemma int_chain: "x < a \<Longrightarrow> a \<le> b + 1 \<Longrightarrow> b \<le> y \<Longrightarrow> x \<le> (y :: int)"
  by linarith

lemma next_quotient:
  fixes a c k r s :: int
  assumes "a * 65536 + r = k" "c * 65536 + s = k + 1" "0 \<le> r" "r < 65536" "0 \<le> s" "s < 65536"
  shows "c = a \<and> r \<le> s \<or> c = a + 1"
  using assms by linarith

lemma db_part_Suc:
  assumes "0 \<le> h" "0 \<le> lo" "lo < 65536" "0 \<le> lo'" "lo' < 65536"
  shows "db_part h lo \<le> db_part (h + 1) lo'"
proof -
  let ?i = "nat (h mod 32)" and ?j = "nat ((h + 1) mod 32)"
  let ?b = "(h div 16 - 254) * 49321" and ?b' = "((h + 1) div 16 - 254) * 49321"
  have i: "?i < 32" by (simp add: nat_less_iff)
  have "?b + fst (db_table ! ?i) + snd (db_table ! ?i) \<le> ?b' + fst (db_table ! ?j) + 1"
  proof -
    define q r where "q = h div 32" and "r = h mod 32"
    have h: "h = 32 * q + r" and r: "0 \<le> r" "r < 32" by (simp_all add: q_def r_def)
    have d16: "(32 * q + x) div 16 = 2 * q + (if x < 16 then 0 else 1)" if "0 \<le> x" "x < 32" for x
    proof (cases "x < 16")
      case True
      then show ?thesis using that by (intro int_div_pos_eq [where r = x]) simp_all
    next
      case False
      then show ?thesis using that by (intro int_div_pos_eq [where r = "x - 16"]) simp_all
    qed
    have m32: "(32 * q + x) mod 32 = x" if "0 \<le> x" "x < 32" for x using that by (simp add: mod_pos_pos_trivial)
    consider "r = 15" | "r = 31" | "r \<noteq> 15" "r < 31" using r by linarith
    then show ?thesis
    proof cases
      case 1
      then show ?thesis using d16 [of 15] d16 [of 16] m32 [of 15] m32 [of 16] unfolding h by (simp add: db_table_def)
    next
      case 2
      then have "h + 1 = 32 * (q + 1)" using h by simp
      then have "(h + 1) div 16 = 2 * q + 2" "(h + 1) mod 32 = 0" by simp_all
      then show ?thesis using 2 d16 [of 31] m32 [of 31] h by (simp add: db_table_def)
    next
      case 3
      have "(h + 1) div 16 = h div 16"
        using 3 r d16 [of r] d16 [of "r + 1"] h by (simp add: add.assoc split: if_splits)
      moreover have "nat ((h + 1) mod 32) = nat (h mod 32) + 1"
        using 3 r m32 [of r] m32 [of "r + 1"] h by (simp add: add.assoc nat_add_distrib)
      moreover have "nat (h mod 32) < 31" "nat (h mod 32) \<noteq> 15" using 3 r by (simp_all add: r_def)
      ultimately show ?thesis using db_table_props(3) [rule_format, of "nat (h mod 32)"] by simp
    qed
  qed
  moreover have "0 \<le> h + 1" using assms(1) by simp
  ultimately show ?thesis
    using int_chain [OF db_part_bounds(2) [OF assms(1-3)] _ db_part_bounds(1) [OF _ assms(4,5)]] by blast
qed

lemma db_part_mono:
  assumes "0 \<le> h" "0 \<le> lo" "lo \<le> lo'"
  shows "db_part h lo \<le> db_part h lo'"
proof -
  have "0 \<le> snd (db_table ! nat (h mod 32))" using db_table_props(2) by (auto simp: nat_less_iff intro: order_trans [of 0 2241])
  then have "snd (db_table ! nat (h mod 32)) * lo \<le> snd (db_table ! nat (h mod 32)) * lo'"
    using assms(3) by (rule mult_left_mono [rotated])
  then show ?thesis by (simp add: db_part_def zdiv_mono1)
qed

lemma db_of_bits_mono:
  assumes "0 \<le> u" "u \<le> v"
  shows "db_of_bits u \<le> db_of_bits v"
proof -
  have step: "db_of_bits w \<le> db_of_bits (w + 1)" if "0 \<le> w" for w
  proof -
    let ?h = "w div 2 ^ 18" and ?lo = "w div 4 mod 65536"
    have h0: "0 \<le> ?h" using that by simp
    have cases: "(w + 1) div 2 ^ 18 = ?h \<and> ?lo \<le> (w + 1) div 4 mod 65536 \<or> (w + 1) div 2 ^ 18 = ?h + 1"
    proof -
      have e: "x div 2 ^ 18 = x div 4 div 65536" for x :: int using zdiv_zmult2_eq [of 65536 x 4] by simp
      have q: "(w + 1) div 4 = w div 4 \<or> (w + 1) div 4 = w div 4 + 1" by presburger
      have "(k + 1) div 65536 = k div 65536 \<and> k mod 65536 \<le> (k + 1) mod 65536 \<or> (k + 1) div 65536 = k div 65536 + 1" for k :: int
        by (rule next_quotient) (rule div_mult_mod_eq pos_mod_bound pos_mod_sign; simp)+
      note k = this [of "w div 4"]
      from q show ?thesis
      proof
        assume a: "(w + 1) div 4 = w div 4"
        show ?thesis unfolding e a by blast
      next
        assume a: "(w + 1) div 4 = w div 4 + 1"
        show ?thesis unfolding e a using k by blast
      qed
    qed
    have "0 \<le> w + 1" using that by simp
    from cases show ?thesis
    proof (elim disjE conjE)
      assume a: "(w + 1) div 2 ^ 18 = ?h" "?lo \<le> (w + 1) div 4 mod 65536"
      show ?thesis
        unfolding db_of_bits_part [OF that] db_of_bits_part [OF \<open>0 \<le> w + 1\<close>] a(1)
        by (rule db_part_mono [OF h0 pos_mod_sign a(2)]) simp
    next
      assume a: "(w + 1) div 2 ^ 18 = ?h + 1"
      show ?thesis
        unfolding db_of_bits_part [OF that] db_of_bits_part [OF \<open>0 \<le> w + 1\<close>] a
        by (rule db_part_Suc [OF h0 pos_mod_sign pos_mod_bound pos_mod_sign pos_mod_bound]) simp_all
    qed
  qed
  have "db_of_bits u \<le> db_of_bits (u + int n)" for n
  proof (induction n)
    case (Suc n)
    have e: "u + int (Suc n) = u + int n + 1" by simp
    have "db_of_bits (u + int n) \<le> db_of_bits (u + int n + 1)" by (rule step) (use assms(1) in simp)
    with Suc show ?case unfolding e by (rule order_trans)
  qed simp
  from this [of "nat (v - u)"] show ?thesis using assms by simp
qed

text \<open>The products that the interpolation makes fit an \<open>int\<close>, and so does the result.\<close>

lemma db_of_bits_bounds:
  assumes "0 \<le> u" "u < 2 ^ 32"
  shows "- 12527534 \<le> db_of_bits u" and "db_of_bits u \<le> 38086580"
proof -
  let ?h = "u div 2 ^ 18"
  have h: "0 \<le> ?h" "?h div 16 \<le> 1023" "0 \<le> ?h div 16"
    using assms zdiv_zmult2_eq [of 16 u "2 ^ 18"] by auto
  have t: "0 \<le> fst (db_table ! nat (?h mod 32))" "fst (db_table ! nat (?h mod 32)) \<le> 54705"
    "snd (db_table ! nat (?h mod 32)) \<le> 4379"
    using db_table_props(2) by (auto simp: nat_less_iff)
  define a b c where "a = ?h div 16" and "b = fst (db_table ! nat (?h mod 32))" and "c = snd (db_table ! nat (?h mod 32))"
  have "(a - 254) * 49321 + b \<le> db_of_bits u" "db_of_bits u < (a - 254) * 49321 + b + c"
    unfolding db_of_bits_part [OF assms(1)] a_def b_def c_def
    by (rule db_part_bounds [OF h(1) pos_mod_sign pos_mod_bound]; rule zero_less_numeral)+
  moreover have "0 \<le> a" "a \<le> 1023" "0 \<le> b" "b \<le> 54705" "c \<le> 4379" using h t by (simp_all only: a_def b_def c_def)
  moreover have "(a - 254) * 49321 = 49321 * a - 12527534" by simp
  ultimately show "- 12527534 \<le> db_of_bits u" "db_of_bits u \<le> 38086580" by - (simp, simp)
qed

end
