(* ===== verification/FloatWf.thy ===== *)
theory FloatWf
  imports Fastmath
begin

text \<open>
  Well-formed floats: the mantissa of a finite value is not negative. The operations keep it
  so.
\<close>

fun f32_wf :: "f32 \<Rightarrow> bool" where
  "f32_wf (FFin s m e) = (0 \<le> m)"
| "f32_wf x = True"

lemma round_mant_nonneg: "0 \<le> m \<Longrightarrow> 0 \<le> fst (round_mant p emin m e st)"
proof -
  assume m: "0 \<le> m"
  then have "0 \<le> m div 2 ^ k" for k :: nat by (simp add: pos_imp_zdiv_nonneg_iff)
  then have "0 \<le> m div 2 ^ k + 1" "0 \<le> m div 2 ^ k" for k :: nat by (simp_all add: add_nonneg_nonneg)
  then show ?thesis using m unfolding round_mant_def by (auto simp: Let_def)
qed

lemma f32_round_wf: "0 \<le> m \<Longrightarrow> f32_wf (f32_round s m e st)"
  using round_mant_nonneg [of m 24 "-149" e st]
  by (cases "round_mant 24 (-149) m e st") (simp add: f32_round_def)

lemma f32_round_finite:
  assumes "0 \<le> m" "f32_round s m e st \<noteq> FInf s"
  obtains q e' where "f32_round s m e st = FFin s q e'" "0 \<le> q"
  using assms(2) round_mant_nonneg [OF assms(1), of 24 "-149" e st] that
  by (cases "round_mant 24 (-149) m e st") (auto simp: f32_round_def split: if_splits)

lemma f32_mul_wf: "f32_wf x \<Longrightarrow> f32_wf y \<Longrightarrow> f32_wf (f32_mul x y)"
  by (cases x; cases y) (simp_all add: f32_round_wf)

lemma f32_div_wf: "f32_wf x \<Longrightarrow> f32_wf y \<Longrightarrow> f32_wf (f32_div x y)"
proof (cases x; cases y)
  fix s1 m1 e1 s2 m2 e2
  assume a: "f32_wf x" "f32_wf y" "x = FFin s1 m1 e1" "y = FFin s2 m2 e2"
  then have "0 \<le> m1 * 2 ^ 50 div m2" by (intro div_int_pos_iff [THEN iffD2]) simp
  then show "f32_wf (f32_div x y)" using a(3,4) f32_round_wf by simp
qed simp_all

lemma f32_of_int_wf [simp]: "f32_wf (f32_of_int i)"
  by (simp add: f32_of_int_def f32_round_wf)

lemma f32_dec_wf: "f32_wf (f32_dec d k)"
proof -
  obtain m e st where d: "decimal d k = (m, e, st)" by (cases "decimal d k" rule: prod_cases3)
  have "0 \<le> m" using d by (auto simp: decimal_def Let_def pos_imp_zdiv_nonneg_iff split: if_splits)
  then have "0 \<le> fst (round_mant 53 (-1074) m e st)" by (rule round_mant_nonneg)
  then show ?thesis by (cases "round_mant 53 (-1074) m e st") (simp add: f32_dec_def d f32_round_wf)
qed

lemma f32_neg_wf [simp]: "f32_wf (f32_neg x) = f32_wf x" and f32_abs_wf [simp]: "f32_wf (f32_abs x) = f32_wf x"
  by (cases x; simp)+

lemma f32_add_wf: "f32_wf x \<Longrightarrow> f32_wf y \<Longrightarrow> f32_wf (f32_add x y)"
  by (cases x; cases y) (simp_all add: Let_def f32_round_wf)

lemma f32_sub_wf: "f32_wf x \<Longrightarrow> f32_wf y \<Longrightarrow> f32_wf (f32_sub x y)"
  by (simp add: f32_sub_def f32_add_wf)

lemma f32_lit_wf: "f32_wf (f32_lit d k)"
proof -
  obtain m e st where d: "decimal d k = (m, e, st)" by (cases "decimal d k" rule: prod_cases3)
  have "0 \<le> m" using d by (auto simp: decimal_def Let_def pos_imp_zdiv_nonneg_iff split: if_splits)
  then show ?thesis by (simp add: f32_lit_def d f32_round_wf)
qed

lemmas f32_op_wf = f32_add_wf f32_sub_wf f32_mul_wf f32_div_wf f32_lit_wf f32_dec_wf

end
