(* ===== verification/FloatOrder.thy ===== *)
theory FloatOrder
  imports Complex_Main FloatWf
begin

text \<open>
  The values of floats as real numbers. Rounding is monotone: what is between two numbers of the
  format stays between them, which bounds the result of a chain of operations without any
  account of its errors.
\<close>

fun f32_val :: "f32 \<Rightarrow> real" where
  "f32_val (FFin s m e) = real_of_int (signed s m) * 2 powi e"
| "f32_val _ = 0"

fun f32_fin :: "f32 \<Rightarrow> bool" where
  "f32_fin (FFin s m e) = (0 \<le> m)"
| "f32_fin _ = False"

text \<open>A number of \<open>p\<close> bits with an exponent of at least \<open>emin\<close>.\<close>

definition on_grid :: "int \<Rightarrow> int \<Rightarrow> real \<Rightarrow> bool" where
  "on_grid p emin b \<longleftrightarrow> (\<exists>k j. b = real_of_int k * 2 powi j \<and> 0 \<le> k \<and> k \<le> 2 ^ nat p \<and> emin \<le> j)"

lemma powi_split: "0 \<le> d \<Longrightarrow> (2::real) powi (e + d) = 2 powi e * 2 ^ nat d"
  by (simp add: power_int_add) (metis nat_0_le power_int_of_nat)

lemma powi_pos [simp]: "0 < (2::real) powi e" and powi_not_le [simp]: "\<not> (2::real) powi e \<le> 0"
  by (simp_all add: not_le)

lemma bit_length_bounds: "0 < m \<Longrightarrow> 2 ^ nat (bit_length m - 1) \<le> m \<and> m < 2 ^ nat (bit_length m) \<and> 1 \<le> bit_length m"
proof -
  assume m: "0 < m"
  have b: "1 \<le> bit_length m" using m by (simp add: bit_length.simps [of m])
  then have "(2::int) ^ nat (bit_length m) = 2 * 2 ^ nat (bit_length m - 1)"
    by (simp flip: power_Suc add: Suc_nat_eq_nat_zadd1)
  then show ?thesis using m b bit_length_ge [of m] bit_length_less [of m] by simp
qed

lemma round_mant_cases:
  assumes m: "0 < m" and r: "round_mant p emin m e st = (q, e')" and p: "0 < p"
  obtains E Q where "E = max (e + bit_length m - p) emin" "real_of_int q * 2 powi e' = real_of_int Q * 2 powi E"
    "E \<le> e \<Longrightarrow> real_of_int Q * 2 powi E = real_of_int m * 2 powi e"
    "e < E \<Longrightarrow> Q = m div 2 ^ nat (E - e) \<or> Q = m div 2 ^ nat (E - e) + 1"
    "e < E \<Longrightarrow> m mod 2 ^ nat (E - e) = 0 \<Longrightarrow> Q = m div 2 ^ nat (E - e)"
    "0 \<le> q" "e' = E \<or> e' = E + 1 \<and> Q = 2 ^ nat p"
proof -
  define E where "E = max (e + bit_length m - p) emin"
  define d where "d = E - e"
  show thesis
  proof (cases "d \<le> 0")
    case True
    have q: "q = m * 2 ^ nat (- d)" "e' = E" using r m True
      unfolding round_mant_def Let_def E_def [symmetric] d_def [symmetric] by simp_all
    have "(2::real) powi e = 2 powi E * 2 ^ nat (- d)" using powi_split [of "- d" E] True by (simp add: d_def)
    then show thesis using that [of E q] q m True by (simp add: E_def [symmetric] d_def)
  next
    case False
    define Q where "Q = (if m mod 2 ^ nat d > 2 ^ (nat d - 1) \<or> m mod 2 ^ nat d = 2 ^ (nat d - 1) \<and> (st \<or> odd (m div 2 ^ nat d))
      then m div 2 ^ nat d + 1 else m div 2 ^ nat d)"
    have r': "(q, e') = (if Q = 2 ^ nat p then (2 ^ nat (p - 1), E + 1) else (Q, E))"
      using r m False unfolding round_mant_def Let_def E_def [symmetric] d_def [symmetric] Q_def by auto
    have pp: "(2::int) ^ nat p = 2 * 2 ^ nat (p - 1)" using p by (simp flip: power_Suc add: Suc_nat_eq_nat_zadd1)
    have "real_of_int q * 2 powi e' = real_of_int Q * 2 powi E"
      using r' pp powi_split [of 1 E] by (auto split: if_splits)
    moreover have "0 \<le> m div 2 ^ nat d" using m by (simp add: pos_imp_zdiv_nonneg_iff)
    then have "0 \<le> q" using r' by (auto simp: Q_def split: if_splits)
    moreover have "e' = E \<or> e' = E + 1 \<and> Q = 2 ^ nat p" using r' by (simp split: if_splits)
    moreover have "Q = m div 2 ^ nat d \<or> Q = m div 2 ^ nat d + 1" unfolding Q_def by simp
    moreover have "m mod 2 ^ nat d = 0 \<Longrightarrow> Q = m div 2 ^ nat d" unfolding Q_def using False by (auto elim!: evenE)
    ultimately show thesis using that [of E Q] False unfolding d_def E_def [symmetric] by simp
  qed
qed

lemma grid_multiple:
  assumes m: "0 < m" and p: "0 < p" and E: "E = max (e + bit_length m - p) emin" and b: "on_grid p emin b"
    and c: "real_of_int m * 2 powi e \<le> b"
  obtains K where "b = real_of_int K * 2 powi E"
proof -
  obtain k j where k: "b = real_of_int k * 2 powi j" "0 \<le> k" "k \<le> 2 ^ nat p" "emin \<le> j" using b by (auto simp: on_grid_def)
  show thesis
  proof (cases "E \<le> j")
    case True
    then show thesis using that [of "k * 2 ^ nat (j - E)"] powi_split [of "j - E" E] k(1) by simp
  next
    case False
    then have E': "E = e + bit_length m - p" "j + 1 \<le> E" using E k(4) by auto
    have "b \<le> 2 ^ nat p * 2 powi j" unfolding k(1)
      by (rule mult_right_mono) (use k(3) of_int_le_iff [of k "2 ^ nat p", where 'a = real] in simp_all)
    also have "\<dots> = 2 powi (j + p)" using powi_split [of p j] p by simp
    also have "\<dots> \<le> 2 powi (E - 1 + p)" using E' by (intro power_int_increasing) simp_all
    finally have up: "b \<le> 2 powi (e + (bit_length m - 1))" using E' by (simp add: algebra_simps)
    have "2 powi (e + (bit_length m - 1)) = 2 powi e * (2 ^ nat (bit_length m - 1) :: real)"
      using bit_length_bounds [OF m] by (intro powi_split) simp
    also have "\<dots> \<le> real_of_int m * 2 powi e"
      using bit_length_bounds [OF m] of_int_le_iff [of "2 ^ nat (bit_length m - 1)" m, where 'a = real]
      by (simp add: mult.commute)
    finally have "b = 2 powi (E + (p - 1))" using up c E' by (simp add: algebra_simps)
    then show thesis using that [of "2 ^ nat (p - 1)"] powi_split [of "p - 1" E] p by (simp add: mult.commute)
  qed
qed

lemma grid_top:
  assumes m: "0 < m" and p: "0 < p" and E: "E = e + bit_length m - p"
  shows "2 ^ nat (p - 1) * 2 powi E \<le> real_of_int m * 2 powi e"
proof -
  have "2 ^ nat (p - 1) * (2::real) powi E = 2 powi (E + (p - 1))" using powi_split [of "p - 1" E] p by (simp add: mult.commute)
  also have "\<dots> = 2 powi (e + (bit_length m - 1))" by (simp add: E algebra_simps)
  also have "\<dots> = 2 powi e * 2 ^ nat (bit_length m - 1)" using bit_length_bounds [OF m] by (intro powi_split) simp
  also have "\<dots> \<le> real_of_int m * 2 powi e"
    using bit_length_bounds [OF m] of_int_le_iff [of "2 ^ nat (bit_length m - 1)" m, where 'a = real]
    by (simp add: mult.commute)
  finally show ?thesis .
qed

lemma powi_scale: "0 \<le> d \<Longrightarrow> real_of_int K * 2 powi (e + d) = real_of_int (K * 2 ^ nat d) * 2 powi e"
  by (simp add: powi_split)

lemma scaled_le: "0 \<le> d \<Longrightarrow> real_of_int m * 2 powi e \<le> real_of_int K * 2 powi (e + d) \<longleftrightarrow> m \<le> K * 2 ^ nat d"
  unfolding powi_scale mult_le_cancel_right_pos [OF powi_pos] of_int_le_iff ..

lemma scaled_ge: "0 \<le> d \<Longrightarrow> real_of_int K * 2 powi (e + d) \<le> real_of_int m * 2 powi e \<longleftrightarrow> K * 2 ^ nat d \<le> m"
  unfolding powi_scale mult_le_cancel_right_pos [OF powi_pos] of_int_le_iff ..

lemma round_mant_le:
  assumes m: "0 \<le> m" and p: "0 < p" and b: "on_grid p emin b" and le: "real_of_int m * 2 powi e \<le> b"
    and r: "round_mant p emin m e st = (q, e')"
  shows "real_of_int q * 2 powi e' \<le> b"
proof (cases "m = 0")
  case True
  have "0 \<le> b" using b by (auto simp: on_grid_def)
  then show ?thesis using r True by (simp add: round_mant_def)
next
  case False
  then have m: "0 < m" using m by simp
  obtain E Q where c: "E = max (e + bit_length m - p) emin" "real_of_int q * 2 powi e' = real_of_int Q * 2 powi E"
    "E \<le> e \<Longrightarrow> real_of_int Q * 2 powi E = real_of_int m * 2 powi e"
    "e < E \<Longrightarrow> Q = m div 2 ^ nat (E - e) \<or> Q = m div 2 ^ nat (E - e) + 1"
    "e < E \<Longrightarrow> m mod 2 ^ nat (E - e) = 0 \<Longrightarrow> Q = m div 2 ^ nat (E - e)"
    by (rule round_mant_cases [OF m r p]) blast
  show ?thesis
  proof (cases "E \<le> e")
    case True
    then show ?thesis using c(2,3) le by simp
  next
    case False
    define D :: int where "D = 2 ^ nat (E - e)"
    have D: "0 < D" by (simp add: D_def)
    obtain K where K: "b = real_of_int K * 2 powi E" by (rule grid_multiple [OF m p c(1) b le])
    then have mK: "m \<le> K * D" using le scaled_le [of "E - e" m e K] False by (simp add: D_def)
    have "Q \<le> K"
    proof (cases "m mod D = 0")
      case True
      then show ?thesis using c(5) False mK D zdiv_mono1 [OF mK D] by (simp add: D_def [symmetric])
    next
      case nz: False
      have "m div D * D + m mod D = m" by (rule div_mult_mod_eq)
      moreover have "0 < m mod D" using nz D by (simp add: order_less_le)
      ultimately have "m div D * D < K * D" using mK by linarith
      then have "m div D < K" using D by (simp add: mult_less_cancel_right_pos)
      then show ?thesis using c(4) False by (auto simp: D_def [symmetric])
    qed
    then show ?thesis unfolding c(2) K by (intro mult_right_mono) simp_all
  qed
qed

lemma round_mant_ge:
  assumes m: "0 \<le> m" and p: "0 < p" and b: "on_grid p emin b" and ge: "b \<le> real_of_int m * 2 powi e"
    and r: "round_mant p emin m e st = (q, e')"
  shows "b \<le> real_of_int q * 2 powi e'"
proof (cases "m = 0")
  case True
  then show ?thesis using r ge by (simp add: round_mant_def)
next
  case False
  then have m: "0 < m" using m by simp
  obtain E Q where c: "E = max (e + bit_length m - p) emin" "real_of_int q * 2 powi e' = real_of_int Q * 2 powi E"
    "E \<le> e \<Longrightarrow> real_of_int Q * 2 powi E = real_of_int m * 2 powi e"
    "e < E \<Longrightarrow> Q = m div 2 ^ nat (E - e) \<or> Q = m div 2 ^ nat (E - e) + 1"
    by (rule round_mant_cases [OF m r p]) blast
  show ?thesis
  proof (cases "E \<le> e")
    case True
    then show ?thesis using c(2,3) ge by simp
  next
    case False
    define D :: int where "D = 2 ^ nat (E - e)"
    have D: "0 < D" by (simp add: D_def)
    have step: "real_of_int K * 2 powi E \<le> real_of_int Q * 2 powi E" if "real_of_int K * 2 powi E \<le> real_of_int m * 2 powi e" for K
    proof -
      have "K * D \<le> m" using that scaled_ge [of "E - e" K e m] False by (simp add: D_def)
      then have "K \<le> m div D" using D zdiv_mono1 [of "K * D" m D] by simp
      then have "K \<le> Q" using c(4) False by (auto simp: D_def [symmetric])
      then show ?thesis by (intro mult_right_mono) simp_all
    qed
    obtain k j where k: "b = real_of_int k * 2 powi j" "0 \<le> k" "k \<le> 2 ^ nat p" "emin \<le> j" using b by (auto simp: on_grid_def)
    show ?thesis
    proof (cases "E \<le> j")
      case True
      then have "b = real_of_int (k * 2 ^ nat (j - E)) * 2 powi E" using powi_split [of "j - E" E] k(1) by simp
      then show ?thesis using step ge c(2) by metis
    next
      case False
      then have E': "E = e + bit_length m - p" "j + 1 \<le> E" using c(1) k(4) by auto
      have "b \<le> 2 ^ nat p * 2 powi j" unfolding k(1)
        by (rule mult_right_mono) (use k(3) of_int_le_iff [of k "2 ^ nat p", where 'a = real] in simp_all)
      also have "\<dots> = 2 powi (j + p)" using powi_split [of p j] p by simp
      also have "\<dots> \<le> 2 powi (E + (p - 1))" using E' by (intro power_int_increasing) simp_all
      also have "\<dots> = real_of_int (2 ^ nat (p - 1)) * 2 powi E" using powi_split [of "p - 1" E] p by (simp add: mult.commute)
      also have "\<dots> \<le> real_of_int Q * 2 powi E" using grid_top [OF m p E'(1)] by (intro step) simp
      finally show ?thesis by (simp add: c(2))
    qed
  qed
qed

section \<open>Bounds of the operations\<close>

text \<open>An interval that holds a finite value.\<close>

definition f32_in :: "real \<Rightarrow> real \<Rightarrow> f32 \<Rightarrow> bool" where
  "f32_in a b x \<longleftrightarrow> f32_fin x \<and> a \<le> f32_val x \<and> f32_val x \<le> b"

lemma f32_in_fin: "f32_in a b x \<Longrightarrow> f32_fin x"
  and f32_in_ge: "f32_in a b x \<Longrightarrow> a \<le> f32_val x"
  and f32_in_le: "f32_in a b x \<Longrightarrow> f32_val x \<le> b"
  by (simp_all add: f32_in_def)

lemma f32_fin_wf: "f32_fin x \<Longrightarrow> f32_wf x"
  by (cases x) simp_all

lemma f32_in_wf: "f32_in a b x \<Longrightarrow> f32_wf x"
  by (simp add: f32_in_def f32_fin_wf)

lemma f32_in_mono: "f32_in a b x \<Longrightarrow> c \<le> a \<Longrightarrow> b \<le> d \<Longrightarrow> f32_in c d x"
  by (auto simp: f32_in_def)

lemma f32_in_self: "f32_fin x \<Longrightarrow> f32_in (f32_val x) (f32_val x) x"
  by (simp add: f32_in_def)

lemma f32_fin_cases: "f32_fin x \<Longrightarrow> (\<And>s m e. x = FFin s m e \<Longrightarrow> 0 \<le> m \<Longrightarrow> thesis) \<Longrightarrow> thesis"
  by (cases x) simp_all

lemma signed_abs [simp]: "signed (v < 0) \<bar>v\<bar> = v"
  by (simp add: signed_def)

lemma round_mant_up:
  assumes m: "0 \<le> m" and p: "0 < p" and b: "on_grid p emin b" "b < 2 powi huge" and le: "real_of_int m * 2 powi e \<le> b"
    and t: "emin + p \<le> huge" and r: "round_mant p emin m e st = (q, e')"
  shows "0 \<le> q \<and> e' \<le> huge - p \<and> real_of_int q * 2 powi e' \<le> b"
proof -
  have le': "real_of_int q * 2 powi e' \<le> b" by (rule round_mant_le [OF m p b(1) le r])
  have "0 \<le> q \<and> e' \<le> huge - p"
  proof (cases "m = 0")
    case True
    then show ?thesis using r t by (auto simp: round_mant_def)
  next
    case False
    then have m: "0 < m" using m by simp
    obtain E Q where c: "E = max (e + bit_length m - p) emin" "real_of_int q * 2 powi e' = real_of_int Q * 2 powi E"
      "0 \<le> q" "e' = E \<or> e' = E + 1 \<and> Q = 2 ^ nat p"
      by (rule round_mant_cases [OF m r p]) blast
    have small: "k < huge" if "2 powi k \<le> b" for k
    proof (rule ccontr)
      assume "\<not> k < huge"
      then have "(2::real) powi huge \<le> 2 powi k" by (intro power_int_increasing) simp_all
      then show False using that b(2) by simp
    qed
    have "2 powi (e + (bit_length m - 1)) = 2 powi e * (2 ^ nat (bit_length m - 1) :: real)"
      using bit_length_bounds [OF m] by (intro powi_split) simp
    also have "\<dots> \<le> real_of_int m * 2 powi e"
      using bit_length_bounds [OF m] of_int_le_iff [of "2 ^ nat (bit_length m - 1)" m, where 'a = real]
      by (simp add: mult.commute)
    finally have "e + (bit_length m - 1) < huge" using small le by fastforce
    then have E: "E \<le> huge - p" using c(1) t by simp
    have "E < huge - p" if "Q = 2 ^ nat p"
    proof -
      have "2 powi (E + p) = real_of_int Q * 2 powi E" using that powi_split [of p E] p by simp
      then show ?thesis using small [of "E + p"] le' c(2) by simp
    qed
    then show ?thesis using c(3,4) E by auto
  qed
  then show ?thesis using le' by simp
qed

text \<open>What the two formats have in common.\<close>

locale float_format =
  fixes p emin huge :: int
    and rnd :: "bool \<Rightarrow> int \<Rightarrow> int \<Rightarrow> bool \<Rightarrow> f32"
    and add mul :: "f32 \<Rightarrow> f32 \<Rightarrow> f32"
  assumes p_pos: "0 < p" and emin_huge: "emin + p \<le> huge"
    and emin_0: "emin \<le> 0" and huge_p: "p < huge"
    and rnd: "rnd s m e st = (case round_mant p emin m e st of (q, e') \<Rightarrow> if e' > huge - p then FInf s else FFin s q e')"
    and add: "add (FFin s1 m1 e1) (FFin s2 m2 e2) =
     (let e = min e1 e2; v = signed s1 m1 * 2 ^ nat (e1 - e) + signed s2 m2 * 2 ^ nat (e2 - e)
      in if v = 0 then FFin (s1 \<and> s2) 0 emin else rnd (v < 0) \<bar>v\<bar> e False)"
    and mul: "mul (FFin s1 m1 e1) (FFin s2 m2 e2) = rnd (s1 \<noteq> s2) (m1 * m2) (e1 + e2) False"
begin

text \<open>A number of the format, of either sign.\<close>

definition bound :: "real \<Rightarrow> bool" where
  "bound b \<longleftrightarrow> on_grid p emin \<bar>b\<bar> \<and> \<bar>b\<bar> < 2 powi huge"

lemma boundI:
  assumes b: "b = real_of_int k / 2 ^ n" and k: "\<bar>k\<bar> \<le> 2 ^ nat p" and n: "int n \<le> - emin"
  shows "bound b"
proof -
  have b': "\<bar>b\<bar> = real_of_int \<bar>k\<bar> * 2 powi (- int n)" by (simp add: b power_int_minus divide_inverse abs_mult)
  have "(2::real) powi (- int n) \<le> 1" by (simp add: power_int_minus inverse_le_1_iff)
  moreover have kp: "real_of_int \<bar>k\<bar> \<le> 2 powi p"
    using k of_int_le_iff [of "\<bar>k\<bar>" "2 ^ nat p", where 'a = real] powi_split [of p 0] p_pos by simp
  ultimately have "\<bar>b\<bar> \<le> 2 powi p * 1" unfolding b' by (intro mult_mono) simp_all
  also have "\<dots> < 2 powi huge" using huge_p by (simp add: power_int_strict_increasing)
  finally show ?thesis unfolding bound_def on_grid_def
    using b' k n by (intro conjI exI [of _ "\<bar>k\<bar>"] exI [of _ "- int n"]) simp_all
qed

lemma bound_int: "\<bar>k\<bar> \<le> 2 ^ nat p \<Longrightarrow> bound (real_of_int k)"
  using emin_0 by (intro boundI [of _ k 0]) simp_all

lemma bound_0 [simp]: "bound 0" and bound_1 [simp]: "bound 1" and bound_minus [simp]: "bound (- b) = bound b"
  using bound_int [of 0] bound_int [of 1] by (simp_all add: bound_def)

lemma rnd_in:
  assumes m: "0 \<le> m" and a: "bound a" "a \<le> real_of_int (signed s m) * 2 powi e"
    and b: "bound b" "real_of_int (signed s m) * 2 powi e \<le> b"
  shows "f32_in a b (rnd s m e st)"
proof -
  have pos: "0 \<le> real_of_int m * 2 powi e" using m by simp
  define u where "u = (if s then - a else b)"
  define l where "l = (if s then - b else a)"
  have u: "on_grid p emin u" "u < 2 powi huge" "real_of_int m * 2 powi e \<le> u"
    and l: "bound l" "l \<le> real_of_int m * 2 powi e"
    using a b pos by (auto simp: u_def l_def signed_def bound_def split: if_splits)
  obtain q e' where r: "round_mant p emin m e st = (q, e')" by fastforce
  have q: "0 \<le> q" "e' \<le> huge - p" "real_of_int q * 2 powi e' \<le> u"
    using round_mant_up [OF m p_pos u emin_huge r] by simp_all
  have "l \<le> real_of_int q * 2 powi e'"
  proof (cases "0 \<le> l")
    case True
    then have "on_grid p emin l" using l(1) by (simp add: bound_def)
    then show ?thesis using round_mant_ge [OF m p_pos _ l(2) r] by simp
  next
    case False
    moreover have "0 \<le> real_of_int q * 2 powi e'" using q(1) by simp
    ultimately show ?thesis by linarith
  qed
  then show ?thesis using q by (auto simp: rnd r f32_in_def u_def l_def signed_def split: if_splits)
qed

lemma add_in:
  assumes x: "f32_fin x" and y: "f32_fin y" and a: "bound a" "a \<le> f32_val x + f32_val y"
    and b: "bound b" "f32_val x + f32_val y \<le> b"
  shows "f32_in a b (add x y)"
proof -
  obtain s1 m1 e1 where x1: "x = FFin s1 m1 e1" by (rule f32_fin_cases [OF x])
  obtain s2 m2 e2 where y1: "y = FFin s2 m2 e2" by (rule f32_fin_cases [OF y])
  define e where "e = min e1 e2"
  define v where "v = signed s1 m1 * 2 ^ nat (e1 - e) + signed s2 m2 * 2 ^ nat (e2 - e)"
  have "f32_val x = real_of_int (signed s1 m1 * 2 ^ nat (e1 - e)) * 2 powi e"
    "f32_val y = real_of_int (signed s2 m2 * 2 ^ nat (e2 - e)) * 2 powi e"
    using powi_scale [of "e1 - e" "signed s1 m1" e] powi_scale [of "e2 - e" "signed s2 m2" e] by (simp_all add: x1 y1 e_def)
  then have v: "f32_val x + f32_val y = real_of_int v * 2 powi e" by (simp add: v_def algebra_simps)
  have add: "add x y = (if v = 0 then FFin (s1 \<and> s2) 0 emin else rnd (v < 0) \<bar>v\<bar> e False)"
    unfolding x1 y1 add Let_def e_def [symmetric] v_def [symmetric] ..
  show ?thesis
  proof (cases "v = 0")
    case True
    then show ?thesis using add a b v by (simp add: f32_in_def signed_def)
  next
    case False
    then show ?thesis unfolding add using a b v by (auto intro!: rnd_in)
  qed
qed

lemma mul_in:
  assumes x: "f32_fin x" and y: "f32_fin y" and a: "bound a" "a \<le> f32_val x * f32_val y"
    and b: "bound b" "f32_val x * f32_val y \<le> b"
  shows "f32_in a b (mul x y)"
proof -
  obtain s1 m1 e1 where x1: "x = FFin s1 m1 e1" "0 \<le> m1" by (rule f32_fin_cases [OF x])
  obtain s2 m2 e2 where y1: "y = FFin s2 m2 e2" "0 \<le> m2" by (rule f32_fin_cases [OF y])
  have v: "f32_val x * f32_val y = real_of_int (signed (s1 \<noteq> s2) (m1 * m2)) * 2 powi (e1 + e2)"
    by (simp add: x1 y1 signed_def power_int_add)
  show ?thesis unfolding x1(1) y1(1) mul by (rule rnd_in) (use v a b x1 y1 in simp_all)
qed

end

interpretation f32: float_format 24 "-149" 128 f32_round f32_add f32_mul
  by unfold_locales (simp_all add: f32_round_def)

lemma f32_of_int_in: "f32.bound a \<Longrightarrow> a \<le> real_of_int i \<Longrightarrow> f32.bound b \<Longrightarrow> real_of_int i \<le> b \<Longrightarrow> f32_in a b (f32_of_int i)"
  unfolding f32_of_int_def by (rule f32.rnd_in) simp_all

lemma f32_neg_val [simp]: "f32_val (f32_neg x) = - f32_val x" and f32_neg_fin [simp]: "f32_fin (f32_neg x) = f32_fin x"
  by (cases x; simp add: signed_def)+

lemma f32_abs_val: "f32_fin x \<Longrightarrow> f32_val (f32_abs x) = \<bar>f32_val x\<bar>" and f32_abs_fin [simp]: "f32_fin (f32_abs x) = f32_fin x"
  by (cases x; simp add: signed_def abs_mult)+

lemma f32_sub_in:
  assumes x: "f32_fin x" and y: "f32_fin y" and a: "f32.bound a" "a \<le> f32_val x - f32_val y"
    and b: "f32.bound b" "f32_val x - f32_val y \<le> b"
  shows "f32_in a b (f32_sub x y)"
  unfolding f32_sub_def by (rule f32.add_in) (use assms in simp_all)

lemma f32_lt_val: "f32_fin x \<Longrightarrow> f32_fin y \<Longrightarrow> f32_lt x y \<longleftrightarrow> f32_val x < f32_val y"
  and f32_eq_val: "f32_fin x \<Longrightarrow> f32_fin y \<Longrightarrow> f32_eq x y \<longleftrightarrow> f32_val x = f32_val y"
proof -
  assume x: "f32_fin x" and y: "f32_fin y"
  obtain s1 m1 e1 where x1: "x = FFin s1 m1 e1" by (rule f32_fin_cases [OF x])
  obtain s2 m2 e2 where y1: "y = FFin s2 m2 e2" by (rule f32_fin_cases [OF y])
  define e where "e = min e1 e2"
  have v: "f32_val x = real_of_int (signed s1 m1 * 2 ^ nat (e1 - e)) * 2 powi e"
    "f32_val y = real_of_int (signed s2 m2 * 2 ^ nat (e2 - e)) * 2 powi e"
    using powi_scale [of "e1 - e" "signed s1 m1" e] powi_scale [of "e2 - e" "signed s2 m2" e] by (simp_all add: x1 y1 e_def)
  show "f32_lt x y \<longleftrightarrow> f32_val x < f32_val y" unfolding v mult_less_cancel_right_pos [OF powi_pos] of_int_less_iff
    unfolding x1 y1 f32_lt.simps Let_def e_def [symmetric] ..
  have nz: "(2::real) powi e \<noteq> 0" by simp
  show "f32_eq x y \<longleftrightarrow> f32_val x = f32_val y" unfolding v mult_right_cancel [OF nz] of_int_eq_iff
    unfolding x1 y1 f32_eq.simps Let_def e_def [symmetric] ..
qed

lemma f32_le_val: "f32_fin x \<Longrightarrow> f32_fin y \<Longrightarrow> f32_le x y \<longleftrightarrow> f32_val x \<le> f32_val y"
  by (auto simp: f32_le_def f32_lt_val f32_eq_val)

text \<open>The conversion to an integer truncates.\<close>

lemma f32_to_int_val:
  assumes x: "f32_fin x" and p: "0 \<le> f32_val x"
  shows "f32_to_int x = \<lfloor>f32_val x\<rfloor>"
proof -
  obtain s m e where x1: "x = FFin s m e" "0 \<le> m" by (rule f32_fin_cases [OF x])
  have sm: "signed s m = m" "s \<longrightarrow> m = 0" using p x1 by (auto simp: signed_def zero_le_mult_iff)
  show ?thesis
  proof (cases "0 \<le> e")
    case True
    then have "f32_val x = real_of_int (signed s m * 2 ^ nat e)" using powi_split [of e 0] by (simp add: x1)
    then have fl: "\<lfloor>f32_val x\<rfloor> = signed s m * 2 ^ nat e" by (simp only: floor_of_int)
    have "f32_to_int x = signed s m * 2 ^ nat e" using True by (simp add: x1(1) signed_def)
    then show ?thesis unfolding fl .
  next
    case False
    then have "(2::real) powi e = inverse (2 ^ nat (- e))" by (simp only: power_int_def if_False power_inverse)
    then have eq: "f32_val x = real_of_int m / real_of_int (2 ^ nat (- e))"
      unfolding x1(1) f32_val.simps sm(1) by (simp add: divide_inverse)
    have fl: "\<lfloor>f32_val x\<rfloor> = m div 2 ^ nat (- e)" unfolding eq by (rule floor_divide_of_int_eq)
    have "f32_to_int x = m div 2 ^ nat (- e)" using False sm(2) by (auto simp: x1(1) signed_def)
    then show ?thesis unfolding fl .
  qed
qed

end
