(* ===== verification/Float64.thy ===== *)
theory Float64
  imports FloatOrder
begin

text \<open>
  The C type \<^verbatim>\<open>double\<close>: IEEE 754 binary64, every operation rounded once to nearest, ties to
  even. The values are those of \<open>f32\<close>'s datatype with \<open>m < 2^53\<close> and \<open>e \<ge> -1074\<close>, so the
  comparisons, the sign and the conversion to an integer are the same functions. An expression
  that mixes the two types converts the \<^verbatim>\<open>float\<close> with \<open>f64_of_f32\<close>, and an assignment to a
  \<^verbatim>\<open>float\<close> is \<open>f32_of_f64\<close>.
\<close>

type_synonym f64 = f32

definition f64_round :: "bool \<Rightarrow> int \<Rightarrow> int \<Rightarrow> bool \<Rightarrow> f64" where
  "f64_round s m e sticky =
     (case round_mant 53 (-1074) m e sticky of (q, e') \<Rightarrow> if e' > 971 then FInf s else FFin s q e')"

fun f64_of_f32 :: "f32 \<Rightarrow> f64" where
  "f64_of_f32 (FFin s m e) = f64_round s m e False"
| "f64_of_f32 x = x"

fun f32_of_f64 :: "f64 \<Rightarrow> f32" where
  "f32_of_f64 (FFin s m e) = f32_round s m e False"
| "f32_of_f64 x = x"

definition f64_of_int :: "int \<Rightarrow> f64" where
  "f64_of_int i = f64_round (i < 0) \<bar>i\<bar> 0 False"

text \<open>A literal of type \<^verbatim>\<open>double\<close>.\<close>

definition f64_dec :: "int \<Rightarrow> int \<Rightarrow> f64" where
  "f64_dec d k = (case decimal d k of (m, e, sticky) \<Rightarrow> f64_round (d < 0) m e sticky)"

fun f64_add :: "f64 \<Rightarrow> f64 \<Rightarrow> f64" where
  "f64_add (FFin s1 m1 e1) (FFin s2 m2 e2) =
     (let e = min e1 e2;
          v = signed s1 m1 * 2 ^ nat (e1 - e) + signed s2 m2 * 2 ^ nat (e2 - e)
      in if v = 0 then FFin (s1 \<and> s2) 0 (-1074) else f64_round (v < 0) \<bar>v\<bar> e False)"
| "f64_add x y = f32_add x y"

definition f64_sub :: "f64 \<Rightarrow> f64 \<Rightarrow> f64" where
  "f64_sub x y = f64_add x (f32_neg y)"

fun f64_mul :: "f64 \<Rightarrow> f64 \<Rightarrow> f64" where
  "f64_mul (FFin s1 m1 e1) (FFin s2 m2 e2) = f64_round (s1 \<noteq> s2) (m1 * m2) (e1 + e2) False"
| "f64_mul x y = f32_mul x y"

fun f64_div :: "f64 \<Rightarrow> f64 \<Rightarrow> f64" where
  "f64_div (FFin s1 m1 e1) (FFin s2 m2 e2) =
     (if m2 = 0 then (if m1 = 0 then FNan else FInf (s1 \<noteq> s2))
      else f64_round (s1 \<noteq> s2) (m1 * 2 ^ 110 div m2) (e1 - e2 - 110) (m1 * 2 ^ 110 mod m2 \<noteq> 0))"
| "f64_div (FFin s1 m1 e1) (FInf s2) = FFin (s1 \<noteq> s2) 0 (-1074)"
| "f64_div x y = f32_div x y"

fun f64_sqrt :: "f64 \<Rightarrow> f64" where
  "f64_sqrt (FFin s m e) =
     (if m = 0 then FFin s m e
      else if s then FNan
      else let k = 120 - bit_length m; k = (if even (e - k) then k else k + 1);
               v = m * 2 ^ nat k; r = isqrt v
           in f64_round False r ((e - k) div 2) (r * r \<noteq> v))"
| "f64_sqrt x = f32_sqrt x"

text \<open>A macro such as \<^verbatim>\<open>MAX16\<close> compares and copies.\<close>

definition fmax_macro :: "f32 \<Rightarrow> f32 \<Rightarrow> f32" where
  "fmax_macro x y = (if f32_gt x y then x else y)"

definition fmin_macro :: "f32 \<Rightarrow> f32 \<Rightarrow> f32" where
  "fmin_macro x y = (if f32_lt x y then x else y)"

interpretation f64: float_format 53 "-1074" 1024 f64_round f64_add f64_mul
  by unfold_locales (simp_all add: f64_round_def)

lemma f64_of_f32_in: "f32_in a b x \<Longrightarrow> f64.bound a \<Longrightarrow> f64.bound b \<Longrightarrow> f32_in a b (f64_of_f32 x)"
  by (cases x) (simp_all add: f32_in_def f64.rnd_in [unfolded f32_in_def])

lemma f32_of_f64_in: "f32_in a b x \<Longrightarrow> f32.bound a \<Longrightarrow> f32.bound b \<Longrightarrow> f32_in a b (f32_of_f64 x)"
  by (cases x) (simp_all add: f32_in_def f32.rnd_in [unfolded f32_in_def])

lemma f64_sub_in:
  assumes x: "f32_fin x" and y: "f32_fin y" and a: "f64.bound a" "a \<le> f32_val x - f32_val y"
    and b: "f64.bound b" "f32_val x - f32_val y \<le> b"
  shows "f32_in a b (f64_sub x y)"
  unfolding f64_sub_def by (rule f64.add_in) (use assms in simp_all)

lemma fmax_macro_in: "f32_in a b x \<Longrightarrow> f32_in a b y \<Longrightarrow> f32_in a b (fmax_macro x y)"
  and fmin_macro_in: "f32_in a b x \<Longrightarrow> f32_in a b y \<Longrightarrow> f32_in a b (fmin_macro x y)"
  by (simp_all add: fmax_macro_def fmin_macro_def)

lemma f64_round_wf: "0 \<le> m \<Longrightarrow> f32_wf (f64_round s m e st)"
  using round_mant_nonneg [of m 53 "-1074" e st]
  by (cases "round_mant 53 (-1074) m e st") (simp add: f64_round_def)

lemma f64_of_f32_wf: "f32_wf x \<Longrightarrow> f32_wf (f64_of_f32 x)" and f32_of_f64_wf: "f32_wf x \<Longrightarrow> f32_wf (f32_of_f64 x)"
  by (cases x; simp add: f32_round_wf f64_round_wf)+

lemma f64_of_int_wf: "f32_wf (f64_of_int i)"
  by (simp add: f64_of_int_def f64_round_wf)

lemma f64_dec_wf: "f32_wf (f64_dec d k)"
proof -
  obtain m e st where d: "decimal d k = (m, e, st)" by (cases "decimal d k" rule: prod_cases3)
  have "0 \<le> m" using d by (auto simp: decimal_def Let_def pos_imp_zdiv_nonneg_iff split: if_splits)
  then show ?thesis by (simp add: f64_dec_def d f64_round_wf)
qed

lemma f64_add_wf: "f32_wf x \<Longrightarrow> f32_wf y \<Longrightarrow> f32_wf (f64_add x y)"
  by (cases x; cases y) (simp_all add: Let_def f64_round_wf)

lemma f64_sub_wf: "f32_wf x \<Longrightarrow> f32_wf y \<Longrightarrow> f32_wf (f64_sub x y)"
  by (simp add: f64_sub_def f64_add_wf)

lemma f64_mul_wf: "f32_wf x \<Longrightarrow> f32_wf y \<Longrightarrow> f32_wf (f64_mul x y)"
  by (cases x; cases y) (simp_all add: f64_round_wf)

lemma f64_div_wf: "f32_wf x \<Longrightarrow> f32_wf y \<Longrightarrow> f32_wf (f64_div x y)"
proof (cases x; cases y)
  fix s1 m1 e1 s2 m2 e2
  assume a: "f32_wf x" "f32_wf y" "x = FFin s1 m1 e1" "y = FFin s2 m2 e2"
  then have "0 \<le> m1 * 2 ^ 110 div m2" by (intro div_int_pos_iff [THEN iffD2]) simp
  then show "f32_wf (f64_div x y)" using a(3,4) f64_round_wf by simp
qed simp_all

lemma fmax_macro_wf: "f32_wf x \<Longrightarrow> f32_wf y \<Longrightarrow> f32_wf (fmax_macro x y)"
  and fmin_macro_wf: "f32_wf x \<Longrightarrow> f32_wf y \<Longrightarrow> f32_wf (fmin_macro x y)"
  by (simp_all add: fmax_macro_def fmin_macro_def)

lemma isqrt_nonneg: "0 \<le> n \<Longrightarrow> 0 \<le> isqrt n"
  using isqrt_bounds by blast

lemma f32_sqrt_wf: "f32_wf x \<Longrightarrow> f32_wf (f32_sqrt x)"
  by (cases x) (simp_all add: Let_def f32_round_wf isqrt_nonneg)

lemma f64_sqrt_wf: "f32_wf x \<Longrightarrow> f32_wf (f64_sqrt x)"
  by (cases x) (simp_all add: Let_def f64_round_wf isqrt_nonneg)

lemmas float_op_wf = f32_op_wf f64_of_f32_wf f32_of_f64_wf f64_of_int_wf f64_dec_wf f64_add_wf f64_sub_wf f64_mul_wf
  f64_div_wf fmax_macro_wf fmin_macro_wf f32_sqrt_wf f64_sqrt_wf

lemma f64_examples:
  "f64_add (f64_dec 1 (-1)) (f64_dec 2 (-1)) = FFin False 0x13333333333334 (-54)"
  "f64_sqrt (f64_dec 2 0) = FFin False 0x16A09E667F3BCD (-52)"
  "f64_div (f64_of_int 1) (f64_of_int 3) = FFin False 0x15555555555555 (-54)"
  "f64_of_f32 (f32_dec 1 (-1)) = FFin False 0x199999A0000000 (-56)"
  by code_simp+

end
