(* ===== verification/RnnArrays.thy ===== *)
theory RnnArrays
  imports Float64 "HOL-Library.Monad_Syntax"
begin

text \<open>
  The arrays of the denoiser: a list holds what has been written, a read outside it is \<open>None\<close>.
  A pointer into the middle of an array is the array and an offset.
\<close>

definition rd :: "'a list \<Rightarrow> int \<Rightarrow> 'a option" where
  "rd xs i = (if 0 \<le> i \<and> i < int (length xs) then Some (xs ! nat i) else None)"

text \<open>The \<open>n\<close> elements from \<open>off\<close> on, as a loop of \<open>n\<close> steps reads them.\<close>

definition slice :: "'a list \<Rightarrow> int \<Rightarrow> int \<Rightarrow> 'a list option" where
  "slice xs off n =
     (if n \<le> 0 then Some []
      else if 0 \<le> off \<and> off + n \<le> int (length xs) then Some (take (nat n) (drop (nat off) xs)) else None)"

text \<open>A loop that computes one element of a new array at a time.\<close>

definition opt_map :: "('a \<Rightarrow> 'b option) \<Rightarrow> 'a list \<Rightarrow> 'b list option" where
  "opt_map f xs = those (map f xs)"

lemma opt_map_simps [simp]:
  "opt_map f [] = Some []"
  "opt_map f (x # xs) = (do { y \<leftarrow> f x; ys \<leftarrow> opt_map f xs; Some (y # ys) })"
  by (simp_all add: opt_map_def map_option_case split: option.split)

lemma opt_map_Some: "(\<And>x. x \<in> set xs \<Longrightarrow> f x = Some (g x)) \<Longrightarrow> opt_map f xs = Some (map g xs)"
  by (induction xs) simp_all

lemma opt_map_ex:
  assumes "\<And>x. x \<in> set xs \<Longrightarrow> \<exists>y. f x = Some y \<and> P y"
  obtains ys where "opt_map f xs = Some ys" "length ys = length xs" "\<forall>y\<in>set ys. P y"
  using assms
proof (induction xs arbitrary: thesis)
  case (Cons x xs)
  obtain y where y: "f x = Some y" "P y" using Cons.prems(2) [of x] by auto
  obtain ys where "opt_map f xs = Some ys" "length ys = length xs" "\<forall>y\<in>set ys. P y"
    by (rule Cons.IH) (use Cons.prems(2) in auto)
  with y show ?case by (intro Cons.prems(1) [of "y # ys"]) simp_all
qed simp

lemma opt_map_length: "opt_map f xs = Some ys \<Longrightarrow> length ys = length xs"
  by (induction xs arbitrary: ys) (auto split: bind_splits)

lemma opt_map_nth: "opt_map f xs = Some ys \<Longrightarrow> i < length xs \<Longrightarrow> f (xs ! i) = Some (ys ! i)"
  by (induction xs arbitrary: ys i) (auto split: bind_splits simp: less_Suc_eq_0_disj)

lemma opt_map_cong: "(\<And>x. x \<in> set xs \<Longrightarrow> f x = g x) \<Longrightarrow> opt_map f xs = opt_map g xs"
  by (induction xs) simp_all

lemma rd_Some: "0 \<le> i \<Longrightarrow> i < int (length xs) \<Longrightarrow> rd xs i = Some (xs ! nat i)"
  by (simp add: rd_def)

lemma rd_int [simp]: "i < length xs \<Longrightarrow> rd xs (int i) = Some (xs ! i)"
  by (simp add: rd_def)

lemma slice_Some: "0 \<le> off \<Longrightarrow> 0 \<le> n \<Longrightarrow> off + n \<le> int (length xs) \<Longrightarrow> slice xs off n = Some (take (nat n) (drop (nat off) xs))"
  by (simp add: slice_def)

lemma slice_ex:
  assumes "0 \<le> off" "0 \<le> n" "off + n \<le> int (length xs)"
  obtains ys where "slice xs off n = Some ys" "length ys = nat n" "set ys \<subseteq> set xs"
  using assms that [of "take (nat n) (drop (nat off) xs)"] slice_Some [OF assms]
  by (auto dest: in_set_takeD in_set_dropD)

lemma slice_length: "slice xs off n = Some ys \<Longrightarrow> length ys = nat n"
  by (auto simp: slice_def split: if_splits)

lemma slice_nth: "slice xs off n = Some ys \<Longrightarrow> i < nat n \<Longrightarrow> ys ! i = xs ! nat (off + int i)"
  by (auto simp: slice_def nat_add_distrib split: if_splits)

lemma slice_all: "slice xs 0 (int (length xs)) = Some xs"
  by (simp add: slice_def)

end
