(* ===== verification/KissFft.thy ===== *)
theory KissFft
  imports RnnArrays Prelude
begin

text \<open>
  The mixed-radix Fourier transform of the denoiser, \<^verbatim>\<open>kiss_fft.c\<close>. The source leaves the
  type of a sample to a macro, \<^verbatim>\<open>kiss_fft_scalar\<close>; here it is a type variable, and its
  operations a record: \<open>f32_ops\<close> is the build of this repository. Complex numbers are pairs.
\<close>

record 'a scalar_ops =
  so_add :: "'a \<Rightarrow> 'a \<Rightarrow> 'a"
  so_sub :: "'a \<Rightarrow> 'a \<Rightarrow> 'a"
  so_mul :: "'a \<Rightarrow> 'a \<Rightarrow> 'a"
  so_neg :: "'a \<Rightarrow> 'a"
  so_half :: "'a \<Rightarrow> 'a"
  so_sqrt_half :: 'a
  so_zero :: 'a

definition f32_ops :: "f32 scalar_ops" where
  "f32_ops = \<lparr>so_add = f32_add, so_sub = f32_sub, so_mul = f32_mul, so_neg = f32_neg,
     so_half = (\<lambda>x. f32_mul x (f32_lit 5 (-1))), so_sqrt_half = f32_lit 7071067812 (-10), so_zero = f32_0\<rparr>"

type_synonym 'a cpx = "'a \<times> 'a"

definition C_MUL :: "'a scalar_ops \<Rightarrow> 'a cpx \<Rightarrow> 'a cpx \<Rightarrow> 'a cpx" where
  "C_MUL A a b = (so_sub A (so_mul A (fst a) (fst b)) (so_mul A (snd a) (snd b)),
                  so_add A (so_mul A (fst a) (snd b)) (so_mul A (snd a) (fst b)))"

definition C_ADD :: "'a scalar_ops \<Rightarrow> 'a cpx \<Rightarrow> 'a cpx \<Rightarrow> 'a cpx" where
  "C_ADD A a b = (so_add A (fst a) (fst b), so_add A (snd a) (snd b))"

definition C_SUB :: "'a scalar_ops \<Rightarrow> 'a cpx \<Rightarrow> 'a cpx \<Rightarrow> 'a cpx" where
  "C_SUB A a b = (so_sub A (fst a) (fst b), so_sub A (snd a) (snd b))"

definition C_MULBYSCALAR :: "'a scalar_ops \<Rightarrow> 'a cpx \<Rightarrow> 'a \<Rightarrow> 'a cpx" where
  "C_MULBYSCALAR A c s = (so_mul A (fst c) s, so_mul A (snd c) s)"

section \<open>Butterflies\<close>

text \<open>The cells of one butterfly: what the code reads and writes through its pointers, by value.\<close>

definition bfly2_cell :: "'a scalar_ops \<Rightarrow> 'a cpx \<Rightarrow> 'a cpx \<Rightarrow> 'a cpx \<times> 'a cpx" where
  "bfly2_cell A f0 t = (C_ADD A f0 t, C_SUB A f0 t)"

definition bfly4_one :: "'a scalar_ops \<Rightarrow> 'a cpx list \<Rightarrow> 'a cpx list" where
  "bfly4_one A f =
     (let s0 = C_SUB A (f ! 0) (f ! 2);
          f0 = C_ADD A (f ! 0) (f ! 2);
          s1 = C_ADD A (f ! 1) (f ! 3);
          f2 = C_SUB A f0 s1;
          f0 = C_ADD A f0 s1;
          s1 = C_SUB A (f ! 1) (f ! 3)
      in [f0, (so_add A (fst s0) (snd s1), so_sub A (snd s0) (fst s1)), f2,
          (so_sub A (fst s0) (snd s1), so_add A (snd s0) (fst s1))])"

definition bfly4_cell :: "'a scalar_ops \<Rightarrow> 'a cpx \<Rightarrow> 'a cpx \<Rightarrow> 'a cpx \<Rightarrow> 'a cpx list \<Rightarrow> 'a cpx list" where
  "bfly4_cell A tw1 tw2 tw3 f =
     (let s0 = C_MUL A (f ! 1) tw1;
          s1 = C_MUL A (f ! 2) tw2;
          s2 = C_MUL A (f ! 3) tw3;
          s5 = C_SUB A (f ! 0) s1;
          f0 = C_ADD A (f ! 0) s1;
          s3 = C_ADD A s0 s2;
          s4 = C_SUB A s0 s2;
          f2 = C_SUB A f0 s3;
          f0 = C_ADD A f0 s3
      in [f0, (so_add A (fst s5) (snd s4), so_sub A (snd s5) (fst s4)), f2,
          (so_sub A (fst s5) (snd s4), so_add A (snd s5) (fst s4))])"

definition bfly3_cell :: "'a scalar_ops \<Rightarrow> 'a cpx \<Rightarrow> 'a cpx \<Rightarrow> 'a cpx \<Rightarrow> 'a cpx list \<Rightarrow> 'a cpx list" where
  "bfly3_cell A epi3 tw1 tw2 f =
     (let s1 = C_MUL A (f ! 1) tw1;
          s2 = C_MUL A (f ! 2) tw2;
          s3 = C_ADD A s1 s2;
          s0 = C_SUB A s1 s2;
          fm = (so_sub A (fst (f ! 0)) (so_half A (fst s3)), so_sub A (snd (f ! 0)) (so_half A (snd s3)));
          s0 = C_MULBYSCALAR A s0 (snd epi3);
          f0 = C_ADD A (f ! 0) s3
      in [f0, (so_sub A (fst fm) (snd s0), so_add A (snd fm) (fst s0)),
          (so_add A (fst fm) (snd s0), so_sub A (snd fm) (fst s0))])"

definition bfly5_cell ::
    "'a scalar_ops \<Rightarrow> 'a cpx \<Rightarrow> 'a cpx \<Rightarrow> 'a cpx \<Rightarrow> 'a cpx \<Rightarrow> 'a cpx \<Rightarrow> 'a cpx \<Rightarrow> 'a cpx list \<Rightarrow> 'a cpx list" where
  "bfly5_cell A ya yb tw1 tw2 tw3 tw4 f =
     (let add = so_add A; sub = so_sub A; mul = so_mul A;
          s0 = f ! 0;
          s1 = C_MUL A (f ! 1) tw1;
          s2 = C_MUL A (f ! 2) tw2;
          s3 = C_MUL A (f ! 3) tw3;
          s4 = C_MUL A (f ! 4) tw4;
          s7 = C_ADD A s1 s4;
          s10 = C_SUB A s1 s4;
          s8 = C_ADD A s2 s3;
          s9 = C_SUB A s2 s3;
          f0 = (add (fst s0) (add (fst s7) (fst s8)), add (snd s0) (add (snd s7) (snd s8)));
          s5 = (add (fst s0) (add (mul (fst s7) (fst ya)) (mul (fst s8) (fst yb))),
                add (snd s0) (add (mul (snd s7) (fst ya)) (mul (snd s8) (fst yb))));
          s6 = (add (mul (snd s10) (snd ya)) (mul (snd s9) (snd yb)),
                so_neg A (add (mul (fst s10) (snd ya)) (mul (fst s9) (snd yb))));
          s11 = (add (fst s0) (add (mul (fst s7) (fst yb)) (mul (fst s8) (fst ya))),
                 add (snd s0) (add (mul (snd s7) (fst yb)) (mul (snd s8) (fst ya))));
          s12 = (sub (mul (snd s9) (snd ya)) (mul (snd s10) (snd yb)),
                 sub (mul (fst s10) (snd yb)) (mul (fst s9) (snd ya)))
      in [f0, C_SUB A s5 s6, C_ADD A s11 s12, C_SUB A s11 s12, C_ADD A s5 s6])"

text \<open>A loop whose body may leave the arrays, and the write of one element.\<close>

primrec opt_foldl :: "('s \<Rightarrow> 'x \<Rightarrow> 's option) \<Rightarrow> 's \<Rightarrow> 'x list \<Rightarrow> 's option" where
  "opt_foldl f s [] = Some s"
| "opt_foldl f s (x # xs) = Option.bind (f s x) (\<lambda>s. opt_foldl f s xs)"

lemma opt_foldl_cong [fundef_cong]:
  "s = t \<Longrightarrow> xs = ys \<Longrightarrow> (\<And>a x. x \<in> set ys \<Longrightarrow> f a x = g a x) \<Longrightarrow> opt_foldl f s xs = opt_foldl g t ys"
  by (induction ys arbitrary: s t xs) (auto split: bind_splits)

definition wr :: "'a list \<Rightarrow> int \<Rightarrow> 'a \<Rightarrow> 'a list option" where
  "wr xs i v = (if 0 \<le> i \<and> i < int (length xs) then Some (xs[nat i := v]) else None)"

text \<open>The cells \<open>b\<close>, \<open>b + m\<close>, ..., \<open>b + (p - 1)*m\<close> of the array, replaced by what \<open>g\<close> makes of them.\<close>

definition on_cells :: "int \<Rightarrow> int \<Rightarrow> int \<Rightarrow> ('a list \<Rightarrow> 'a list) \<Rightarrow> 'a list \<Rightarrow> 'a list option" where
  "on_cells p m b g fout = do {
     xs \<leftarrow> opt_map (\<lambda>k. rd fout (b + k * m)) [0 .. p - 1];
     let vs = g xs;
     opt_foldl (\<lambda>fout k. wr fout (b + k * m) (vs ! nat k)) fout [0 .. p - 1]
   }"

text \<open>\<open>N\<close> groups \<open>mm\<close> apart, in each the cells \<open>u = 0 .. m - 1\<close>; \<open>g u\<close> reads the twiddle factors.\<close>

definition butterflies :: "int \<Rightarrow> int \<Rightarrow> int \<Rightarrow> int \<Rightarrow> (int \<Rightarrow> ('a list \<Rightarrow> 'a list) option) \<Rightarrow> 'a list \<Rightarrow> 'a list option" where
  "butterflies p m N mm g fout =
     opt_foldl (\<lambda>fout i. opt_foldl (\<lambda>fout u. do { f \<leftarrow> g u; on_cells p m (i * mm + u) f fout }) fout [0 .. m - 1])
       fout [0 .. N - 1]"

text \<open>The butterflies take the length \<open>m\<close> and the number \<open>N\<close> as the \<^verbatim>\<open>int\<close>s of the code; a read
  or a write outside the arrays is \<open>None\<close>.\<close>

definition kf_bfly2 :: "'a scalar_ops \<Rightarrow> int \<Rightarrow> int \<Rightarrow> 'a cpx list \<Rightarrow> 'a cpx list option" where
  "kf_bfly2 A m N fout =
     (if m = 1 then butterflies 2 1 N 2 (\<lambda>u. Some (\<lambda>f. let (a, b) = bfly2_cell A (f ! 0) (f ! 1) in [a, b])) fout
      else butterflies 2 4 N 8 (\<lambda>u. Some (\<lambda>f.
        let x = f ! 1; tw = so_sqrt_half A;
            t = (if u = 0 then x
                 else if u = 1 then (so_mul A (so_add A (fst x) (snd x)) tw, so_mul A (so_sub A (snd x) (fst x)) tw)
                 else if u = 2 then (snd x, so_neg A (fst x))
                 else (so_mul A (so_sub A (snd x) (fst x)) tw, so_mul A (so_neg A (so_add A (snd x) (fst x))) tw));
            (a, b) = bfly2_cell A (f ! 0) t
        in [a, b])) fout)"

definition kf_bfly4 :: "'a scalar_ops \<Rightarrow> int \<Rightarrow> 'a cpx list \<Rightarrow> int \<Rightarrow> int \<Rightarrow> int \<Rightarrow> 'a cpx list \<Rightarrow> 'a cpx list option" where
  "kf_bfly4 A fstride tw m N mm fout =
     (if m = 1 then butterflies 4 1 N 4 (\<lambda>u. Some (bfly4_one A)) fout
      else butterflies 4 m N mm (\<lambda>u. do {
        tw1 \<leftarrow> rd tw (u * fstride);
        tw2 \<leftarrow> rd tw (u * (fstride * 2));
        tw3 \<leftarrow> rd tw (u * (fstride * 3));
        Some (bfly4_cell A tw1 tw2 tw3)
      }) fout)"

text \<open>The inner loop of radix 3 counts down to 0 after its first turn: with no positive \<open>m\<close> it
  runs out of the array.\<close>

definition kf_bfly3 :: "'a scalar_ops \<Rightarrow> int \<Rightarrow> 'a cpx list \<Rightarrow> int \<Rightarrow> int \<Rightarrow> int \<Rightarrow> 'a cpx list \<Rightarrow> 'a cpx list option" where
  "kf_bfly3 A fstride tw m N mm fout =
     (if m \<le> 0 \<and> 0 < N then None else do {
        epi3 \<leftarrow> rd tw (fstride * m);
        butterflies 3 m N mm (\<lambda>u. do {
          tw1 \<leftarrow> rd tw (u * fstride);
          tw2 \<leftarrow> rd tw (u * (fstride * 2));
          Some (bfly3_cell A epi3 tw1 tw2)
        }) fout
      })"

definition kf_bfly5 :: "'a scalar_ops \<Rightarrow> int \<Rightarrow> 'a cpx list \<Rightarrow> int \<Rightarrow> int \<Rightarrow> int \<Rightarrow> 'a cpx list \<Rightarrow> 'a cpx list option" where
  "kf_bfly5 A fstride tw m N mm fout = do {
     ya \<leftarrow> rd tw (fstride * m);
     yb \<leftarrow> rd tw (fstride * 2 * m);
     butterflies 5 m N mm (\<lambda>u. do {
       tw1 \<leftarrow> rd tw (u * fstride);
       tw2 \<leftarrow> rd tw (2 * u * fstride);
       tw3 \<leftarrow> rd tw (3 * u * fstride);
       tw4 \<leftarrow> rd tw (4 * u * fstride);
       Some (bfly5_cell A ya yb tw1 tw2 tw3 tw4)
     }) fout
   }"

section \<open>The plan of a transform\<close>

abbreviation (input) MAXFACTORS :: nat where "MAXFACTORS \<equiv> 8"

text \<open>The conversion to \<^verbatim>\<open>opus_int16\<close> keeps 16 bits.\<close>

definition opus_int16 :: "int \<Rightarrow> int" where
  "opus_int16 x = signed_take_bit 15 x"

text \<open>The factors are pairs of a radix and the length that is left, as far as they are written.
  An entry of the table of positions that was not written is \<open>None\<close>.\<close>

record 'a fft_state =
  ff_nfft :: nat
  ff_scale :: 'a
  ff_shift :: int
  ff_factors :: "(int \<times> int) list"
  ff_bitrev :: "int option list"
  ff_twiddles :: "'a cpx list"

text \<open>The next factor that is tried after \<open>p\<close>, until one divides \<open>n\<close>.\<close>

function next_factor :: "nat \<Rightarrow> nat \<Rightarrow> nat" where
  "next_factor n p =
     (if n mod p = 0 then p
      else let q = (if p = 4 then 2 else if p = 2 then 3 else p + 2);
               q = (if q > 32000 \<or> q * q > n then n else q)
           in next_factor n q)"
  by pat_completeness auto
termination
proof (relation "measure (\<lambda>(n, p). if p = n then 0 else if p = 0 then n + 4 else if p = 4 then n + 3 else if p = 2 then n + 2 else Suc (n - p))")
  fix n p q q' :: nat
  assume n: "n mod p \<noteq> 0" and q: "q = (if p = 4 then 2 else if p = 2 then 3 else p + 2)"
    and q': "q' = (if q > 32000 \<or> q * q > n then n else q)"
  have pn: "p \<noteq> n" using n by auto
  have "q \<le> q * q" by simp
  then have "q' = n \<or> q' = q \<and> q \<le> n" unfolding q' by (metis not_le order_trans)
  then show "((n, q'), n, p) \<in> measure (\<lambda>(n, p). if p = n then 0 else if p = 0 then n + 4 else if p = 4 then n + 3 else if p = 2 then n + 2 else Suc (n - p))"
    using pn q by (auto split: if_splits)
qed simp

declare next_factor.simps [simp del]

text \<open>
  The radices in the order found, one more stage at a time. A radix above 5 is refused, the
  result is \<open>(False, _)\<close>. The array has place for 8 stages, and nothing looks whether there are
  more: the write of a ninth is \<open>None\<close>.
\<close>

function find_radices :: "nat \<Rightarrow> nat \<Rightarrow> nat list \<Rightarrow> (bool \<times> nat list) option" where
  "find_radices n p fac =
     (let p = next_factor n p; n = n div p; stages = length fac in
      if p > 5 then Some (False, fac)
      else if stages \<ge> MAXFACTORS then None
      else let fac = (if p = 2 \<and> stages > 1 then fac[1 := 2] @ [4] else fac @ [p])
           in if n > 1 then find_radices n p fac else Some (True, fac))"
  by pat_completeness auto
termination
  by (relation "measure (\<lambda>(n, p, fac). 8 - length fac)") (auto simp: Let_def)

declare find_radices.simps [simp del]

text \<open>The radices reversed, each with what is left of the length, cut to 16 bits.\<close>

fun with_rest :: "nat \<Rightarrow> nat list \<Rightarrow> (int \<times> int) list" where
  "with_rest n [] = []"
| "with_rest n (p # ps) = (int p, opus_int16 (int (n div p))) # with_rest (n div p) ps"

definition kf_factor :: "nat \<Rightarrow> (bool \<times> (int \<times> int) list) option" where
  "kf_factor n = do {
     (ok, fac) \<leftarrow> find_radices n 4 [];
     Some (if ok then (True, with_rest n (rev fac)) else (False, []))
   }"

text \<open>Where each input goes: \<open>off\<close> is the position of the pointer \<open>f\<close>. The entries are cut to 16
  bits; past the written factors and outside the table the result is \<open>None\<close>.\<close>

fun compute_bitrev_table ::
    "int \<Rightarrow> nat \<Rightarrow> nat \<Rightarrow> nat \<Rightarrow> (int \<times> int) list \<Rightarrow> int option list \<Rightarrow> int option list option" where
  "compute_bitrev_table Fout off fstride in_stride [] f = None"
| "compute_bitrev_table Fout off fstride in_stride ((p, m) # factors) f =
     (if m = 1 then opt_foldl (\<lambda>f j. wr f (int (off + j * (fstride * in_stride))) (Some (opus_int16 (Fout + int j)))) f [0 ..< nat p]
      else opt_foldl (\<lambda>f j. compute_bitrev_table (Fout + int j * m) (off + j * (fstride * in_stride)) (fstride * nat p) in_stride factors f)
        f [0 ..< nat p])"

text \<open>The twiddle factors, with \<^verbatim>\<open>cos\<close> and \<^verbatim>\<open>sin\<close> of the mathematical library.\<close>

definition compute_twiddles :: "(f64 \<Rightarrow> f64) \<Rightarrow> (f64 \<Rightarrow> f64) \<Rightarrow> nat \<Rightarrow> f32 cpx list" where
  "compute_twiddles cosd sind nfft =
     (let pi = f64_dec 314159265358979323846264338327 (-29);
          step = f64_div (f64_mul (f64_of_int (-2)) pi) (f64_of_int (int nfft))
      in map (\<lambda>i. let phase = f64_mul step (f64_of_int (int i)) in (f32_of_f64 (cosd phase), f32_of_f64 (sind phase)))
        [0 ..< nfft])"

text \<open>The state for a length; with a base its twiddle factors are shared, and \<open>shift\<close> says by what
  power of two its length is greater.\<close>

definition base_shift :: "nat \<Rightarrow> nat \<Rightarrow> nat option" where
  "base_shift nfft base_nfft = List.find (\<lambda>s. nfft * 2 ^ s = base_nfft) [0 ..< 32]"

text \<open>
  The answers of the three allocations, of the state, the twiddle factors and the table. The
  result \<open>Some None\<close> is the null pointer that the code returns when it gives up; the answer for
  the twiddle factors is not looked at.
\<close>

definition opus_fft_alloc_twiddles ::
    "(f64 \<Rightarrow> f64) \<Rightarrow> (f64 \<Rightarrow> f64) \<Rightarrow> bool \<times> bool \<times> bool \<Rightarrow> nat \<Rightarrow> f32 fft_state option \<Rightarrow> f32 fft_state option option" where
  "opus_fft_alloc_twiddles cosd sind allocs nfft base = (case allocs of (a_state, a_twiddles, a_bitrev) \<Rightarrow>
     if \<not> a_state then Some None else do {
       shared \<leftarrow> (case base of
           Some b \<Rightarrow> Some (map_option (\<lambda>s. (int s, ff_twiddles b)) (base_shift nfft (ff_nfft b)))
         | None \<Rightarrow> if a_twiddles then Some (Some (-1, compute_twiddles cosd sind nfft)) else None);
       (case shared of None \<Rightarrow> Some None
        | Some (shift, twiddles) \<Rightarrow> do {
            (ok, factors) \<leftarrow> kf_factor nfft;
            if \<not> ok \<or> \<not> a_bitrev then Some None else do {
              bitrev \<leftarrow> compute_bitrev_table 0 0 1 1 factors (replicate nfft None);
              Some (Some \<lparr>ff_nfft = nfft, ff_scale = f32_div (f32_of_int 1) (f32_of_int (int nfft)), ff_shift = shift,
                ff_factors = factors, ff_bitrev = bitrev, ff_twiddles = twiddles\<rparr>)
            }
          })
     })"

section \<open>The transform\<close>

text \<open>
  The strides, the products of the radices before; \<open>l\<close> of them are there already. The code
  writes the stride after the last stage too, so that with 8 stages it is outside the array.
\<close>

fun strides :: "nat \<Rightarrow> int \<Rightarrow> (int \<times> int) list \<Rightarrow> int list option" where
  "strides l s [] = None"
| "strides l s ((p, m) # fs) =
     (if l + 1 \<ge> MAXFACTORS then None
      else if m = 1 then Some [s]
      else map_option (Cons s) (strides (l + 1) (s * p) fs))"

text \<open>One stage: \<open>m\<close> is the length below the stage, \<open>m2\<close> the one above it.\<close>

definition fft_stage :: "'a scalar_ops \<Rightarrow> 'a fft_state \<Rightarrow> int \<Rightarrow> int \<Rightarrow> int \<Rightarrow> int \<Rightarrow> 'a cpx list \<Rightarrow> 'a cpx list option" where
  "fft_stage A st p m m2 fstride fout =
     (let shift = nat (if ff_shift st > 0 then ff_shift st else 0) in
      if p = 2 then kf_bfly2 A m fstride fout
      else if p = 4 then kf_bfly4 A (fstride * 2 ^ shift) (ff_twiddles st) m fstride m2 fout
      else if p = 3 then kf_bfly3 A (fstride * 2 ^ shift) (ff_twiddles st) m fstride m2 fout
      else if p = 5 then kf_bfly5 A (fstride * 2 ^ shift) (ff_twiddles st) m fstride m2 fout
      else Some fout)"

text \<open>The stages, the last one first.\<close>

definition opus_fft_impl :: "'a scalar_ops \<Rightarrow> 'a fft_state \<Rightarrow> 'a cpx list \<Rightarrow> 'a cpx list option" where
  "opus_fft_impl A st fout =
     (let fs = ff_factors st in do {
        ss \<leftarrow> strides 0 1 fs;
        opt_foldl (\<lambda>fout i. fft_stage A st (fst (fs ! i)) (snd (fs ! i)) (if i \<noteq> 0 then snd (fs ! (i - 1)) else 1) (ss ! i) fout)
          fout (rev [0 ..< length ss])
      })"

text \<open>The input goes where the table says; an entry that was not written is undefined.\<close>

definition bitrev_copy :: "'a fft_state \<Rightarrow> (nat \<Rightarrow> 'a cpx) \<Rightarrow> 'a cpx list \<Rightarrow> 'a cpx list option" where
  "bitrev_copy st x fout = opt_foldl (\<lambda>fout i. do {
     e \<leftarrow> rd (ff_bitrev st) (int i);
     k \<leftarrow> e;
     wr fout k (x i)
   }) fout [0 ..< ff_nfft st]"

definition opus_fft :: "'a scalar_ops \<Rightarrow> 'a fft_state \<Rightarrow> 'a cpx list \<Rightarrow> 'a cpx list option" where
  "opus_fft A st fin =
     (if length fin < ff_nfft st then None
      else let scale = ff_scale st in do {
        fout \<leftarrow> bitrev_copy st (\<lambda>i. (so_mul A scale (fst (fin ! i)), so_mul A scale (snd (fin ! i))))
                 (replicate (ff_nfft st) (so_zero A, so_zero A));
        opus_fft_impl A st fout
      })"

definition opus_ifft :: "'a scalar_ops \<Rightarrow> 'a fft_state \<Rightarrow> 'a cpx list \<Rightarrow> 'a cpx list option" where
  "opus_ifft A st fin =
     (if length fin < ff_nfft st then None
      else do {
        fout \<leftarrow> bitrev_copy st (\<lambda>i. fin ! i) (replicate (ff_nfft st) (so_zero A, so_zero A));
        fout \<leftarrow> opus_fft_impl A st (map (\<lambda>(r, i). (r, so_neg A i)) fout);
        Some (map (\<lambda>(r, i). (r, so_neg A i)) fout)
      })"

lemma kf_factor_960: "kf_factor 960 = Some (True, [(5, 192), (3, 64), (4, 16), (4, 4), (4, 1)])"
  by (simp add: kf_factor_def find_radices.simps next_factor.simps Let_def opus_int16_def)

text \<open>What nothing looks at: with \<open>3 ^ 9\<close> the planner writes past its array, with \<open>3 ^ 8\<close> the
  transform does.\<close>

lemma kf_factor_overrun: "kf_factor (3 ^ 9) = None"
  by (simp add: kf_factor_def find_radices.simps next_factor.simps Let_def)

lemma fft_impl_overrun: "kf_factor (3 ^ 8) = Some (True, ff_factors st) \<Longrightarrow> opus_fft_impl A st fout = None"
proof -
  have "kf_factor (3 ^ 8) = Some (True, [(3, 2187), (3, 729), (3, 243), (3, 81), (3, 27), (3, 9), (3, 3), (3, 1)])"
    by (simp add: kf_factor_def find_radices.simps next_factor.simps Let_def opus_int16_def)
  moreover assume "kf_factor (3 ^ 8) = Some (True, ff_factors st)"
  ultimately have "ff_factors st = [(3, 2187), (3, 729), (3, 243), (3, 81), (3, 27), (3, 9), (3, 3), (3, 1)]" by (metis option.inject prod.inject)
  then show ?thesis by (simp add: opus_fft_impl_def)
qed

end
