(* ===== verification/KissProps.thy ===== *)
theory KissProps
  imports KissFft
begin

text \<open>
  The transform over natural numbers, with all its accesses inside the arrays: a stage as a
  function of lists (theory \<open>KissTable\<close> shows that the code of \<open>KissFft\<close> computes it). The cells of
  a stage are disjoint and cover the array, so a stage is its butterflies side by side.
\<close>

section \<open>The stages as functions\<close>

text \<open>The cells \<open>b\<close>, \<open>b + m\<close>, ..., \<open>b + (p - 1)*m\<close> of the array, replaced by what \<open>g\<close> makes of them.\<close>

definition ref_cells :: "nat \<Rightarrow> nat \<Rightarrow> nat \<Rightarrow> ('a list \<Rightarrow> 'a list) \<Rightarrow> 'a list \<Rightarrow> 'a list" where
  "ref_cells p m b g fout =
     (let vs = g (map (\<lambda>k. fout ! (b + k * m)) [0 ..< p])
      in foldl (\<lambda>fout k. fout[b + k * m := vs ! k]) fout [0 ..< p])"

text \<open>\<open>N\<close> groups \<open>mm\<close> apart, in each the cells \<open>u = 0 .. m - 1\<close>.\<close>

definition ref_butterflies :: "nat \<Rightarrow> nat \<Rightarrow> nat \<Rightarrow> nat \<Rightarrow> (nat \<Rightarrow> 'a list \<Rightarrow> 'a list) \<Rightarrow> 'a list \<Rightarrow> 'a list" where
  "ref_butterflies p m N mm g fout =
     foldl (\<lambda>fout i. foldl (\<lambda>fout u. ref_cells p m (i * mm + u) (g u) fout) fout [0 ..< m]) fout [0 ..< N]"

definition ref_bfly2 :: "'a scalar_ops \<Rightarrow> nat \<Rightarrow> nat \<Rightarrow> 'a cpx list \<Rightarrow> 'a cpx list" where
  "ref_bfly2 A m N fout =
     (if m = 1 then ref_butterflies 2 1 N 2 (\<lambda>u f. let (a, b) = bfly2_cell A (f ! 0) (f ! 1) in [a, b]) fout
      else ref_butterflies 2 4 N 8 (\<lambda>u f.
        let x = f ! 1; tw = so_sqrt_half A;
            t = (if u = 0 then x
                 else if u = 1 then (so_mul A (so_add A (fst x) (snd x)) tw, so_mul A (so_sub A (snd x) (fst x)) tw)
                 else if u = 2 then (snd x, so_neg A (fst x))
                 else (so_mul A (so_sub A (snd x) (fst x)) tw, so_mul A (so_neg A (so_add A (snd x) (fst x))) tw));
            (a, b) = bfly2_cell A (f ! 0) t
        in [a, b]) fout)"

definition ref_bfly4 :: "'a scalar_ops \<Rightarrow> nat \<Rightarrow> 'a cpx list \<Rightarrow> nat \<Rightarrow> nat \<Rightarrow> nat \<Rightarrow> 'a cpx list \<Rightarrow> 'a cpx list" where
  "ref_bfly4 A fstride tw m N mm fout =
     (if m = 1 then ref_butterflies 4 1 N 4 (\<lambda>u. bfly4_one A) fout
      else ref_butterflies 4 m N mm (\<lambda>u. bfly4_cell A (tw ! (u * fstride)) (tw ! (u * (fstride * 2))) (tw ! (u * (fstride * 3)))) fout)"

definition ref_bfly3 :: "'a scalar_ops \<Rightarrow> nat \<Rightarrow> 'a cpx list \<Rightarrow> nat \<Rightarrow> nat \<Rightarrow> nat \<Rightarrow> 'a cpx list \<Rightarrow> 'a cpx list" where
  "ref_bfly3 A fstride tw m N mm fout =
     ref_butterflies 3 m N mm (\<lambda>u. bfly3_cell A (tw ! (fstride * m)) (tw ! (u * fstride)) (tw ! (u * (fstride * 2)))) fout"

definition ref_bfly5 :: "'a scalar_ops \<Rightarrow> nat \<Rightarrow> 'a cpx list \<Rightarrow> nat \<Rightarrow> nat \<Rightarrow> nat \<Rightarrow> 'a cpx list \<Rightarrow> 'a cpx list" where
  "ref_bfly5 A fstride tw m N mm fout =
     ref_butterflies 5 m N mm (\<lambda>u. bfly5_cell A (tw ! (fstride * m)) (tw ! (fstride * 2 * m)) (tw ! (u * fstride))
       (tw ! (2 * u * fstride)) (tw ! (3 * u * fstride)) (tw ! (4 * u * fstride))) fout"

definition ref_stage :: "'a scalar_ops \<Rightarrow> 'a fft_state \<Rightarrow> nat \<Rightarrow> nat \<Rightarrow> nat \<Rightarrow> nat \<Rightarrow> 'a cpx list \<Rightarrow> 'a cpx list" where
  "ref_stage A st p m m2 fstride fout =
     (let shift = nat (if ff_shift st > 0 then ff_shift st else 0) in
      if p = 2 then ref_bfly2 A m fstride fout
      else if p = 4 then ref_bfly4 A (fstride * 2 ^ shift) (ff_twiddles st) m fstride m2 fout
      else if p = 3 then ref_bfly3 A (fstride * 2 ^ shift) (ff_twiddles st) m fstride m2 fout
      else if p = 5 then ref_bfly5 A (fstride * 2 ^ shift) (ff_twiddles st) m fstride m2 fout
      else fout)"


section \<open>One butterfly\<close>

lemma foldl_update_nth:
  assumes "\<And>k k'. k < n \<Longrightarrow> k' < n \<Longrightarrow> h k = h k' \<Longrightarrow> k = k'" "\<And>k. k < n \<Longrightarrow> h k < length xs"
  shows "length (foldl (\<lambda>xs k. xs[h k := v k]) xs [0 ..< n]) = length xs"
    and "k < n \<Longrightarrow> foldl (\<lambda>xs k. xs[h k := v k]) xs [0 ..< n] ! h k = v k"
    and "(\<And>k. k < n \<Longrightarrow> x \<noteq> h k) \<Longrightarrow> foldl (\<lambda>xs k. xs[h k := v k]) xs [0 ..< n] ! x = xs ! x"
proof -
  have "length (foldl (\<lambda>xs k. xs[h k := v k]) xs [0 ..< n]) = length xs \<and>
    (\<forall>k<n. foldl (\<lambda>xs k. xs[h k := v k]) xs [0 ..< n] ! h k = v k) \<and>
    (\<forall>x. (\<forall>k<n. x \<noteq> h k) \<longrightarrow> foldl (\<lambda>xs k. xs[h k := v k]) xs [0 ..< n] ! x = xs ! x)"
    using assms
  proof (induction n)
    case (Suc n)
    note IH = Suc.IH [OF Suc.prems(1) [OF less_SucI less_SucI] Suc.prems(2) [OF less_SucI]]
    define F where "F = foldl (\<lambda>xs k. xs[h k := v k]) xs [0 ..< n]"
    have F: "length F = length xs" "\<And>k. k < n \<Longrightarrow> F ! h k = v k" "\<And>x. \<forall>k<n. x \<noteq> h k \<Longrightarrow> F ! x = xs ! x"
      using IH unfolding F_def by blast+
    have step: "foldl (\<lambda>xs k. xs[h k := v k]) xs [0 ..< Suc n] = F[h n := v n]" by (simp add: F_def)
    have ne: "h n \<noteq> h k" if "k < n" for k using Suc.prems(1) [of n k] that by auto
    have hn: "h n < length F" using Suc.prems(2) [of n] F(1) by simp
    show ?case unfolding step
    proof (intro conjI allI impI)
      show "length (F[h n := v n]) = length xs" by (simp add: F(1))
      show "F[h n := v n] ! h k = v k" if "k < Suc n" for k
        using that hn ne F(2) by (cases "k = n") simp_all
      show "F[h n := v n] ! x = xs ! x" if "\<forall>k<Suc n. x \<noteq> h k" for x
      proof -
        have "x \<noteq> h n" "\<forall>k<n. x \<noteq> h k" using that by simp_all
        then show ?thesis using F(3) [of x] by simp
      qed
    qed
  qed simp
  then show "length (foldl (\<lambda>xs k. xs[h k := v k]) xs [0 ..< n]) = length xs"
    and "k < n \<Longrightarrow> foldl (\<lambda>xs k. xs[h k := v k]) xs [0 ..< n] ! h k = v k"
    and "(\<And>k. k < n \<Longrightarrow> x \<noteq> h k) \<Longrightarrow> foldl (\<lambda>xs k. xs[h k := v k]) xs [0 ..< n] ! x = xs ! x"
    by blast+
qed

definition cells :: "nat \<Rightarrow> nat \<Rightarrow> nat \<Rightarrow> 'a list \<Rightarrow> 'a list" where
  "cells p m b fout = map (\<lambda>k. fout ! (b + k * m)) [0 ..< p]"

lemma cells_length [simp]: "length (cells p m b fout) = p"
  by (simp add: cells_def)

lemma cells_nth [simp]: "k < p \<Longrightarrow> cells p m b fout ! k = fout ! (b + k * m)"
  by (simp add: cells_def)

lemma ref_cells_nth:
  assumes m: "0 < m" and b: "\<And>k. k < p \<Longrightarrow> b + k * m < length fout"
  shows "length (ref_cells p m b g fout) = length fout"
    and "k < p \<Longrightarrow> ref_cells p m b g fout ! (b + k * m) = g (cells p m b fout) ! k"
    and "(\<And>k. k < p \<Longrightarrow> x \<noteq> b + k * m) \<Longrightarrow> ref_cells p m b g fout ! x = fout ! x"
proof -
  have inj: "\<And>k k'. k < p \<Longrightarrow> k' < p \<Longrightarrow> b + k * m = b + k' * m \<Longrightarrow> k = k'" using m by simp
  have e: "ref_cells p m b g fout = foldl (\<lambda>f k. f[b + k * m := g (cells p m b fout) ! k]) fout [0 ..< p]"
    by (simp add: ref_cells_def cells_def Let_def)
  show "length (ref_cells p m b g fout) = length fout" unfolding e by (rule foldl_update_nth(1) [OF inj b])
  show "k < p \<Longrightarrow> ref_cells p m b g fout ! (b + k * m) = g (cells p m b fout) ! k"
    unfolding e by (rule foldl_update_nth(2) [OF inj b])
  show "(\<And>k. k < p \<Longrightarrow> x \<noteq> b + k * m) \<Longrightarrow> ref_cells p m b g fout ! x = fout ! x"
    unfolding e by (rule foldl_update_nth(3) [OF inj b])
qed

section \<open>All butterflies of a stage\<close>

text \<open>A position is in one group, at one place of one butterfly.\<close>

lemma cell_unique:
  fixes i u k p m :: nat
  assumes "u < m" "k < p"
  shows "(i * (p * m) + u + k * m) div (p * m) = i" "(i * (p * m) + u + k * m) mod (p * m) div m = k"
    "(i * (p * m) + u + k * m) mod m = u" "i < N \<Longrightarrow> i * (p * m) + u + k * m < N * (p * m)"
proof -
  have "u + k * m < (k + 1) * m" using assms by simp
  also have "\<dots> \<le> p * m" using assms by (intro mult_right_mono) simp_all
  finally have l: "u + k * m < p * m" .
  have e: "i * (p * m) + u + k * m = i * (p * m) + (u + k * m)" by simp
  have c: "p * m \<noteq> 0" using l by linarith
  show d: "(i * (p * m) + u + k * m) div (p * m) = i" unfolding e div_mult_self3 [OF c] using l by (simp only: div_less)
  have "(i * (p * m) + u + k * m) mod (p * m) = u + k * m" unfolding e mod_mult_self3 using l by (simp only: mod_less)
  then show "(i * (p * m) + u + k * m) mod (p * m) div m = k" using assms by simp
  have "(i * (p * m) + u + k * m) mod m = (u + (i * p + k) * m) mod m" by (simp add: algebra_simps)
  then show "(i * (p * m) + u + k * m) mod m = u" using assms by simp
  assume "i < N"
  then have "(i + 1) * (p * m) \<le> N * (p * m)" by (intro mult_right_mono) simp_all
  then show "i * (p * m) + u + k * m < N * (p * m)" using l by simp
qed

lemma foldl_nested:
  "foldl (\<lambda>s i. foldl (\<lambda>s u. h i u s) s [0 ..< m]) s [0 ..< N] =
   foldl (\<lambda>s (i, u). h i u s) s (concat (map (\<lambda>i. map (Pair i) [0 ..< m]) [0 ..< N]))"
  by (induction N) (simp_all add: foldl_map)

text \<open>A list of butterflies on disjoint cells.\<close>

lemma foldl_cells:
  assumes m: "0 < m" and c: "\<And>x k. x \<in> set xs \<Longrightarrow> k < p \<Longrightarrow> b x + k * m < length fout"
    and d: "distinct xs"
    and dis: "\<And>x y k l. x \<in> set xs \<Longrightarrow> y \<in> set xs \<Longrightarrow> k < p \<Longrightarrow> l < p \<Longrightarrow> b x + k * m = b y + l * m \<Longrightarrow> x = y"
  shows "length (foldl (\<lambda>f x. ref_cells p m (b x) (g x) f) fout xs) = length fout"
    and "x \<in> set xs \<Longrightarrow> k < p \<Longrightarrow> foldl (\<lambda>f x. ref_cells p m (b x) (g x) f) fout xs ! (b x + k * m) = g x (cells p m (b x) fout) ! k"
    and "(\<And>x k. x \<in> set xs \<Longrightarrow> k < p \<Longrightarrow> z \<noteq> b x + k * m) \<Longrightarrow> foldl (\<lambda>f x. ref_cells p m (b x) (g x) f) fout xs ! z = fout ! z"
proof -
  have "length (foldl (\<lambda>f x. ref_cells p m (b x) (g x) f) fout xs) = length fout \<and>
    (\<forall>x\<in>set xs. \<forall>k<p. foldl (\<lambda>f x. ref_cells p m (b x) (g x) f) fout xs ! (b x + k * m) = g x (cells p m (b x) fout) ! k) \<and>
    (\<forall>z. (\<forall>x\<in>set xs. \<forall>k<p. z \<noteq> b x + k * m) \<longrightarrow> foldl (\<lambda>f x. ref_cells p m (b x) (g x) f) fout xs ! z = fout ! z)"
    using c d dis
  proof (induction xs rule: rev_induct)
    case (snoc y xs)
    define F where "F = foldl (\<lambda>f x. ref_cells p m (b x) (g x) f) fout xs"
    have IH: "length F = length fout" "\<And>x k. x \<in> set xs \<Longrightarrow> k < p \<Longrightarrow> F ! (b x + k * m) = g x (cells p m (b x) fout) ! k"
      "\<And>z. (\<And>x k. x \<in> set xs \<Longrightarrow> k < p \<Longrightarrow> z \<noteq> b x + k * m) \<Longrightarrow> F ! z = fout ! z"
      using snoc by (auto simp: F_def)
    have yb: "\<And>k. k < p \<Longrightarrow> b y + k * m < length F" using snoc.prems(1) [of y] IH(1) by simp
    have ne: "b y + k * m \<noteq> b x + l * m" if "x \<in> set xs" "k < p" "l < p" for x k l
      using snoc.prems(2) snoc.prems(3) [of y x k l] that by auto
    have cy: "cells p m (b y) F = cells p m (b y) fout"
      unfolding cells_def using IH(3) ne by (intro map_cong) auto
    have step: "foldl (\<lambda>f x. ref_cells p m (b x) (g x) f) fout (xs @ [y]) = ref_cells p m (b y) (g y) F"
      by (simp add: F_def)
    have new: "length (ref_cells p m (b y) (g y) F) = length fout"
      "\<And>k. k < p \<Longrightarrow> ref_cells p m (b y) (g y) F ! (b y + k * m) = g y (cells p m (b y) fout) ! k"
      "\<And>z. (\<And>k. k < p \<Longrightarrow> z \<noteq> b y + k * m) \<Longrightarrow> ref_cells p m (b y) (g y) F ! z = F ! z"
      using ref_cells_nth [OF m yb, where g = "g y"] IH(1) cy by auto
    have old: "ref_cells p m (b y) (g y) F ! (b x + k * m) = g x (cells p m (b x) fout) ! k" if "x \<in> set xs" "k < p" for x k
      using new(3) [of "b x + k * m"] ne [OF that(1) _ that(2)] IH(2) [OF that] by fastforce
    show ?case unfolding step using new old IH(3) by auto
  qed simp
  then show "length (foldl (\<lambda>f x. ref_cells p m (b x) (g x) f) fout xs) = length fout"
    and "x \<in> set xs \<Longrightarrow> k < p \<Longrightarrow> foldl (\<lambda>f x. ref_cells p m (b x) (g x) f) fout xs ! (b x + k * m) = g x (cells p m (b x) fout) ! k"
    and "(\<And>x k. x \<in> set xs \<Longrightarrow> k < p \<Longrightarrow> z \<noteq> b x + k * m) \<Longrightarrow> foldl (\<lambda>f x. ref_cells p m (b x) (g x) f) fout xs ! z = fout ! z"
    by blast+
qed

lemma ref_butterflies_nth:
  assumes m: "0 < m" and mm: "N = 1 \<or> mm = p * m" and len: "N * (p * m) \<le> length fout"
  shows "length (ref_butterflies p m N mm g fout) = length fout"
    and "i < N \<Longrightarrow> u < m \<Longrightarrow> k < p \<Longrightarrow>
      ref_butterflies p m N mm g fout ! (i * (p * m) + u + k * m) = g u (cells p m (i * (p * m) + u) fout) ! k"
proof -
  define xs where "xs = concat (map (\<lambda>i. map (Pair i) [0 ..< m]) [0 ..< N])"
  define b where "b = (\<lambda>(i, u). i * (p * m) + u :: nat)"
  have xs: "(i, u) \<in> set xs \<longleftrightarrow> i < N \<and> u < m" for i u by (auto simp: xs_def image_iff)
  have d: "distinct xs"
    unfolding xs_def using m by (auto simp: distinct_map inj_on_def intro!: distinct_concat)
  have e: "ref_butterflies p m N mm g fout = foldl (\<lambda>f x. ref_cells p m (b x) (g (snd x)) f) fout xs"
  proof -
    have im: "i * mm = i * (p * m)" if "i < N" for i using mm that by auto
    have "foldl (\<lambda>s (i, u). ref_cells p m (i * mm + u) (g u) s) fout xs = foldl (\<lambda>f x. ref_cells p m (b x) (g (snd x)) f) fout xs"
      by (intro foldl_cong) (auto simp: xs b_def im)
    then show ?thesis unfolding ref_butterflies_def foldl_nested xs_def [symmetric] .
  qed
  have c: "b x + k * m < length fout" if "x \<in> set xs" "k < p" for x k
  proof -
    obtain i u where x: "x = (i, u)" by (cases x)
    then have "i < N" "u < m" using that(1) xs by auto
    then show ?thesis using cell_unique(4) [of u m k p i N] that(2) len by (simp add: b_def x)
  qed
  have dis: "x = y" if "x \<in> set xs" "y \<in> set xs" "k < p" "l < p" "b x + k * m = b y + l * m" for x y k l
  proof -
    obtain i u j v where xy: "x = (i, u)" "y = (j, v)" by (cases x, cases y)
    have uv: "u < m" "v < m" using that xs xy by auto
    have eq: "i * (p * m) + u + k * m = j * (p * m) + v + l * m" using that(5) by (simp add: b_def xy)
    have "i = j" using cell_unique(1) [OF uv(1) that(3), of i] cell_unique(1) [OF uv(2) that(4), of j] eq by simp
    moreover have "u = v" using cell_unique(3) [OF uv(1) that(3), of i] cell_unique(3) [OF uv(2) that(4), of j] eq by simp
    ultimately show ?thesis by (simp add: xy)
  qed
  show "length (ref_butterflies p m N mm g fout) = length fout"
    unfolding e by (rule foldl_cells(1) [OF m c d dis])
  assume a: "i < N" "u < m" "k < p"
  then have "(i, u) \<in> set xs" by (simp add: xs)
  then have "foldl (\<lambda>f x. ref_cells p m (b x) (g (snd x)) f) fout xs ! (b (i, u) + k * m) =
      g (snd (i, u)) (cells p m (b (i, u)) fout) ! k"
    by (rule foldl_cells(2) [OF m c d dis _ a(3), rotated -1])
  then show "ref_butterflies p m N mm g fout ! (i * (p * m) + u + k * m) = g u (cells p m (i * (p * m) + u) fout) ! k"
    unfolding e by (simp add: b_def)
qed

text \<open>Every position is one of them.\<close>

lemma cell_exists:
  fixes x N p m :: nat
  assumes "0 < m" "x < N * (p * m)"
  obtains i u k where "x = i * (p * m) + u + k * m" "i < N" "u < m" "k < p"
proof
  have p: "0 < p * m"
  proof (rule ccontr)
    assume "\<not> 0 < p * m"
    then have "p * m = 0" by simp
    then show False using assms(2) by (simp only: mult_0_right not_less_zero)
  qed
  define r where "r = x mod (p * m)"
  have r: "r < p * m" using p by (simp add: r_def)
  show "x = x div (p * m) * (p * m) + r mod m + r div m * m"
    using div_mult_mod_eq [of x "p * m"] div_mult_mod_eq [of r m] by (simp add: r_def)
  show "x div (p * m) < N" using assms(2) by (simp add: less_mult_imp_div_less)
  show "r mod m < m" using assms(1) by simp
  show "r div m < p" using r by (simp add: less_mult_imp_div_less)
qed

section \<open>Plans\<close>

lemma foldl_update_length: "length (foldl (\<lambda>xs k. xs[h k := v k]) xs ks) = length xs"
  by (induction ks arbitrary: xs) simp_all

text \<open>The radices that the code has a butterfly for; radix 2 is at the end, or just above a radix 4.\<close>

definition radix_ok :: "nat \<Rightarrow> nat \<Rightarrow> bool" where
  "radix_ok p m \<longleftrightarrow> 0 < m \<and> (p = 3 \<or> p = 4 \<or> p = 5 \<or> p = 2 \<and> (m = 1 \<or> m = 4))"

text \<open>A plan of length \<open>n\<close>.\<close>

fun plan_ok :: "nat \<Rightarrow> (nat \<times> nat) list \<Rightarrow> bool" where
  "plan_ok n [] \<longleftrightarrow> n = 1"
| "plan_ok n ((p, m) # fs) \<longleftrightarrow> n = p * m \<and> radix_ok p m \<and> plan_ok m fs"

text \<open>The stages by recursion on the plan; \<open>s\<close> is the stride of a stage, \<open>mm\<close> the length above it.\<close>

fun run_stages :: "'a scalar_ops \<Rightarrow> 'a fft_state \<Rightarrow> nat \<Rightarrow> nat \<Rightarrow> (nat \<times> nat) list \<Rightarrow> 'a cpx list \<Rightarrow> 'a cpx list" where
  "run_stages A st s mm [] fout = fout"
| "run_stages A st s mm ((p, m) # fs) fout = ref_stage A st p m mm s (run_stages A st (s * p) m fs fout)"

lemma plan_ok_960: "plan_ok 960 [(5, 192), (3, 64), (4, 16), (4, 4), (4, 1)]"
  by (simp add: radix_ok_def)

section \<open>What the operations keep\<close>

text \<open>A property of numbers that the operations keep holds for the whole transform.\<close>

definition ops_closed :: "'a scalar_ops \<Rightarrow> ('a \<Rightarrow> bool) \<Rightarrow> bool" where
  "ops_closed A Q \<longleftrightarrow> (\<forall>x y. Q x \<longrightarrow> Q y \<longrightarrow> Q (so_add A x y) \<and> Q (so_sub A x y) \<and> Q (so_mul A x y)) \<and>
     (\<forall>x. Q x \<longrightarrow> Q (so_neg A x) \<and> Q (so_half A x)) \<and> Q (so_sqrt_half A) \<and> Q (so_zero A)"

definition both :: "('a \<Rightarrow> bool) \<Rightarrow> 'a cpx \<Rightarrow> bool" where
  "both Q c \<longleftrightarrow> Q (fst c) \<and> Q (snd c)"

lemma ops_closedD:
  assumes "ops_closed A Q"
  shows "both Q a \<Longrightarrow> both Q b \<Longrightarrow> both Q (C_MUL A a b)" "both Q a \<Longrightarrow> both Q b \<Longrightarrow> both Q (C_ADD A a b)"
    "both Q a \<Longrightarrow> both Q b \<Longrightarrow> both Q (C_SUB A a b)" "both Q a \<Longrightarrow> Q x \<Longrightarrow> both Q (C_MULBYSCALAR A a x)"
  using assms by (simp_all add: ops_closed_def both_def C_MUL_def C_ADD_def C_SUB_def C_MULBYSCALAR_def)

lemma ops_closed_ops:
  assumes "ops_closed A Q"
  shows "Q x \<Longrightarrow> Q y \<Longrightarrow> Q (so_add A x y)" "Q x \<Longrightarrow> Q y \<Longrightarrow> Q (so_sub A x y)" "Q x \<Longrightarrow> Q y \<Longrightarrow> Q (so_mul A x y)"
    "Q x \<Longrightarrow> Q (so_neg A x)" "Q x \<Longrightarrow> Q (so_half A x)" "Q (so_sqrt_half A)" "Q (so_zero A)"
  using assms by (simp_all add: ops_closed_def)

lemma bothD: "both Q c \<Longrightarrow> Q (fst c)" "both Q c \<Longrightarrow> Q (snd c)" and bothI: "Q a \<Longrightarrow> Q b \<Longrightarrow> both Q (a, b)"
  by (simp_all add: both_def)

text \<open>The values of the cells; through a local definition of the code.\<close>

definition cells_ok :: "('a \<Rightarrow> bool) \<Rightarrow> nat \<Rightarrow> 'a cpx list \<Rightarrow> bool" where
  "cells_ok Q p v \<longleftrightarrow> list_all (both Q) v \<and> length v = p"

lemma cells_ok_let: "both Q a \<Longrightarrow> (\<And>x. both Q x \<Longrightarrow> cells_ok Q p (h x)) \<Longrightarrow> cells_ok Q p (let x = a in h x)"
  by (simp add: Let_def)

lemma cells_ok_let_op: "cells_ok Q p (h a) \<Longrightarrow> cells_ok Q p (let x = a in h x)"
  by (simp add: Let_def)

lemma cells_ok_list:
  "both Q c0 \<Longrightarrow> both Q c1 \<Longrightarrow> both Q c2 \<Longrightarrow> cells_ok Q 3 [c0, c1, c2]"
  "both Q c0 \<Longrightarrow> both Q c1 \<Longrightarrow> both Q c2 \<Longrightarrow> both Q c3 \<Longrightarrow> cells_ok Q 4 [c0, c1, c2, c3]"
  "both Q c0 \<Longrightarrow> both Q c1 \<Longrightarrow> both Q c2 \<Longrightarrow> both Q c3 \<Longrightarrow> both Q c4 \<Longrightarrow> cells_ok Q 5 [c0, c1, c2, c3, c4]"
  by (simp_all add: cells_ok_def)

lemma bfly4_closed:
  assumes c: "ops_closed A Q" and f: "\<And>k. k < 4 \<Longrightarrow> both Q (f ! k)"
  shows "cells_ok Q 4 (bfly4_one A f)"
    and "both Q tw1 \<Longrightarrow> both Q tw2 \<Longrightarrow> both Q tw3 \<Longrightarrow> cells_ok Q 4 (bfly4_cell A tw1 tw2 tw3 f)"
proof -
  have f4: "both Q (f ! 0)" "both Q (f ! 1)" "both Q (f ! 2)" "both Q (f ! 3)" using f by simp_all
  note cl = ops_closedD [OF c] ops_closed_ops [OF c] bothI [where Q = Q] bothD [where Q = Q] f4
  show "cells_ok Q 4 (bfly4_one A f)"
    unfolding bfly4_one_def by (intro cells_ok_let cells_ok_list cl; assumption)
  assume tw: "both Q tw1" "both Q tw2" "both Q tw3"
  show "cells_ok Q 4 (bfly4_cell A tw1 tw2 tw3 f)"
    unfolding bfly4_cell_def by (intro cells_ok_let cells_ok_list cl tw; assumption)
qed

lemma bfly3_closed:
  assumes c: "ops_closed A Q" and f: "\<And>k. k < 3 \<Longrightarrow> both Q (f ! k)" and tw: "both Q e" "both Q tw1" "both Q tw2"
  shows "cells_ok Q 3 (bfly3_cell A e tw1 tw2 f)"
proof -
  have f3: "both Q (f ! 0)" "both Q (f ! 1)" "both Q (f ! 2)" using f by simp_all
  note cl = ops_closedD [OF c] ops_closed_ops [OF c] bothI [where Q = Q] bothD [where Q = Q] f3 tw
  show ?thesis
    unfolding bfly3_cell_def by (intro cells_ok_let cells_ok_list cl; assumption)
qed

lemma bfly5_closed:
  assumes c: "ops_closed A Q" and f: "\<And>k. k < 5 \<Longrightarrow> both Q (f ! k)"
    and tw: "both Q ya" "both Q yb" "both Q tw1" "both Q tw2" "both Q tw3" "both Q tw4"
  shows "cells_ok Q 5 (bfly5_cell A ya yb tw1 tw2 tw3 tw4 f)"
proof -
  have f5: "both Q (f ! 0)" "both Q (f ! 1)" "both Q (f ! 2)" "both Q (f ! 3)" "both Q (f ! 4)" using f by simp_all
  note cl = ops_closedD [OF c] ops_closed_ops [OF c] bothI [where Q = Q] bothD [where Q = Q] f5 tw
  show ?thesis
    unfolding bfly5_cell_def
    by (rule cells_ok_let_op, rule cells_ok_let_op, rule cells_ok_let_op) (intro cells_ok_let cells_ok_list cl; assumption)
qed

lemma list_all_upd: "list_all P xs \<Longrightarrow> P v \<Longrightarrow> list_all P (xs[i := v])"
  by (auto simp: list_all_iff dest: subsetD [OF set_update_subset_insert])

text \<open>A fold keeps what each of its steps keeps.\<close>

lemma foldl_keeps: "P s \<Longrightarrow> (\<And>s x. x \<in> set xs \<Longrightarrow> P s \<Longrightarrow> P (h s x)) \<Longrightarrow> P (foldl h s xs)"
  by (induction xs arbitrary: s) auto

lemma ref_cells_keeps:
  assumes P: "list_all P fout" and b: "\<And>k. k < p \<Longrightarrow> b + k * m < length fout"
    and g: "\<And>f. (\<And>k. k < p \<Longrightarrow> P (f ! k)) \<Longrightarrow> list_all P (g f) \<and> length (g f) = p"
  shows "list_all P (ref_cells p m b g fout)"
proof -
  have v: "list_all P (g (cells p m b fout)) \<and> length (g (cells p m b fout)) = p"
    using P b by (intro g) (simp add: list_all_length)
  have "list_all P (foldl (\<lambda>f k. f[b + k * m := g (cells p m b fout) ! k]) fout [0 ..< p])"
    by (rule foldl_keeps [where P = "list_all P"]) (use P v in \<open>auto simp: list_all_length [of P "g (cells p m b fout)"] intro!: list_all_upd\<close>)
  then show ?thesis by (simp add: ref_cells_def cells_def Let_def)
qed

lemma ref_butterflies_keeps:
  assumes mm: "N = 1 \<or> mm = p * m" and len: "length fout = N * (p * m)" and P: "list_all P fout"
    and g: "\<And>u f. u < m \<Longrightarrow> (\<And>k. k < p \<Longrightarrow> P (f ! k)) \<Longrightarrow> list_all P (g u f) \<and> length (g u f) = p"
  shows "list_all P (ref_butterflies p m N mm g fout) \<and> length (ref_butterflies p m N mm g fout) = N * (p * m)"
proof -
  let ?I = "\<lambda>f. list_all P f \<and> length f = N * (p * m)"
  have "?I (ref_cells p m (i * mm + u) (g u) f)" if "i < N" "u < m" "?I f" for i u f
  proof
    have im: "i * mm = i * (p * m)" using mm that(1) by auto
    have m: "0 < m" using that(2) by simp
    have b: "i * mm + u + k * m < length f" if "k < p" for k
      unfolding im using cell_unique(4) [OF \<open>u < m\<close> that \<open>i < N\<close>] \<open>?I f\<close> by simp
    show "list_all P (ref_cells p m (i * mm + u) (g u) f)"
      using that(3) g [OF that(2)] by (intro ref_cells_keeps b) auto
    show "length (ref_cells p m (i * mm + u) (g u) f) = N * (p * m)"
      using ref_cells_nth(1) [OF m b] that(3) by simp
  qed
  then show ?thesis
    unfolding ref_butterflies_def using len P by (intro foldl_keeps [where P = ?I]) auto
qed

text \<open>A stage on well-formed numbers; its length is a multiple of what is left to transform.\<close>

lemma twiddle_at: "list_all (both Q) tw \<Longrightarrow> i < length tw \<Longrightarrow> both Q (tw ! i)"
  by (simp add: list_all_length)

lemma ref_stage_keeps:
  assumes c: "ops_closed A Q" and r: "radix_ok p m" and sh: "ff_shift st \<le> 0"
    and tw: "list_all (both Q) (ff_twiddles st)" "length (ff_twiddles st) = s * (p * m)"
    and mm: "s = 1 \<or> mm = p * m" and f: "list_all (both Q) fout" "length fout = s * (p * m)"
  shows "list_all (both Q) (ref_stage A st p m mm s fout) \<and> length (ref_stage A st p m mm s fout) = s * (p * m)"
proof (cases "s = 0")
  case True
  then show ?thesis using f r
    by (auto simp: ref_stage_def ref_bfly2_def ref_bfly3_def ref_bfly4_def ref_bfly5_def ref_butterflies_def radix_ok_def)
next
  case False
  then have s: "0 < s" by simp
  have sh0: "nat (if 0 < ff_shift st then ff_shift st else 0) = 0" using sh by simp
  have T: "both Q (ff_twiddles st ! (j * (s * u)))" if "u < m" "j < p" for j u
  proof (rule twiddle_at [OF tw(1)])
    have "j * u \<le> j * m" "j * m < p * m" using that by simp_all
    then have "j * u < p * m" by linarith
    then have "s * (j * u) < s * (p * m)" using s by simp
    then show "j * (s * u) < length (ff_twiddles st)" by (simp add: tw(2) algebra_simps)
  qed
  have M: "both Q (ff_twiddles st ! (j * (s * m)))" if "j < p" "0 < m" for j
  proof (rule twiddle_at [OF tw(1)])
    have "s * (j * m) < s * (p * m)" using s that by simp
    then show "j * (s * m) < length (ff_twiddles st)" by (simp add: tw(2) algebra_simps)
  qed
  have m: "0 < m" using r by (simp add: radix_ok_def)
  have B: "list_all (both Q) (ref_butterflies p m s mm g fout) \<and> length (ref_butterflies p m s mm g fout) = s * (p * m)"
    if "s = 1 \<or> mm = p * m" "\<And>u f. u < m \<Longrightarrow> (\<And>k. k < p \<Longrightarrow> both Q (f ! k)) \<Longrightarrow> cells_ok Q p (g u f)" for g mm
    using ref_butterflies_keeps [of s mm p m fout "both Q" g] that f unfolding cells_ok_def by blast
  consider "p = 2" "m = 1" | "p = 2" "m = 4" | "p = 4" "m = 1" | "p = 4" "m \<noteq> 1" | "p = 3" | "p = 5"
    using r by (auto simp: radix_ok_def)
  then show ?thesis
  proof cases
    case 1
    define g where "g = (\<lambda>(u :: nat) f. let (a, b) = bfly2_cell A (f ! 0) (f ! 1) in [a, b])"
    have e: "ref_stage A st p m mm s fout = ref_butterflies p m s (p * m) g fout"
      by (simp add: ref_stage_def ref_bfly2_def 1 g_def)
    have "cells_ok Q p (g u f)" if "\<And>k. k < p \<Longrightarrow> both Q (f ! k)" for u f
      using that [of 0] that [of 1] 1 by (simp add: g_def Let_def bfly2_cell_def cells_ok_def ops_closedD [OF c])
    then show ?thesis unfolding e by (intro B) simp_all
  next
    case 2
    define t where "t = (\<lambda>(u :: nat) x. let tw = so_sqrt_half A in
        if u = 0 then x
        else if u = 1 then (so_mul A (so_add A (fst x) (snd x)) tw, so_mul A (so_sub A (snd x) (fst x)) tw)
        else if u = 2 then (snd x, so_neg A (fst x))
        else (so_mul A (so_sub A (snd x) (fst x)) tw, so_mul A (so_neg A (so_add A (snd x) (fst x))) tw))"
    define g where "g = (\<lambda>u f. let (a, b) = bfly2_cell A (f ! 0) (t u (f ! 1)) in [a, b])"
    have e: "ref_stage A st p m mm s fout = ref_butterflies p m s (p * m) g fout"
      by (simp add: ref_stage_def ref_bfly2_def 2 g_def t_def Let_def)
    have t: "both Q (t u x)" if "both Q x" for u x
      using that unfolding t_def both_def Let_def by (simp add: ops_closed_ops [OF c])
    have "cells_ok Q p (g u f)" if "\<And>k. k < p \<Longrightarrow> both Q (f ! k)" for u f
      using that [of 0] t [OF that [of 1]] 2 by (simp add: g_def Let_def bfly2_cell_def cells_ok_def ops_closedD [OF c])
    then show ?thesis unfolding e by (intro B) simp_all
  next
    case 3
    have e: "ref_stage A st p m mm s fout = ref_butterflies p m s (p * m) (\<lambda>u. bfly4_one A) fout"
      by (simp add: ref_stage_def ref_bfly4_def 3)
    show ?thesis unfolding e using bfly4_closed(1) [OF c] 3 by (intro B) simp_all
  next
    case 4
    have e: "ref_stage A st p m mm s fout = ref_butterflies p m s mm (\<lambda>u. bfly4_cell A (ff_twiddles st ! (u * s))
        (ff_twiddles st ! (u * (s * 2))) (ff_twiddles st ! (u * (s * 3)))) fout"
      unfolding ref_stage_def Let_def sh0 by (simp add: ref_bfly4_def 4(1) 4(2) [simplified])
    show ?thesis unfolding e unfolding 4(1)
    proof (intro B [unfolded 4(1)] bfly4_closed(2) [OF c])
      fix u assume u: "u < m"
      show "both Q (ff_twiddles st ! (u * s))" "both Q (ff_twiddles st ! (u * (s * 2)))" "both Q (ff_twiddles st ! (u * (s * 3)))"
        using T [OF u, of 1] T [OF u, of 2] T [OF u, of 3] 4(1) by (simp_all add: algebra_simps)
    qed (use mm 4 in simp_all)
  next
    case 5
    have e: "ref_stage A st p m mm s fout = ref_butterflies p m s mm (\<lambda>u. bfly3_cell A (ff_twiddles st ! (s * m))
        (ff_twiddles st ! (u * s)) (ff_twiddles st ! (u * (s * 2)))) fout"
      unfolding ref_stage_def Let_def sh0 by (simp add: ref_bfly3_def 5)
    show ?thesis unfolding e unfolding 5
    proof (intro B [unfolded 5] bfly3_closed [OF c])
      fix u assume u: "u < m"
      show "both Q (ff_twiddles st ! (s * m))" "both Q (ff_twiddles st ! (u * s))" "both Q (ff_twiddles st ! (u * (s * 2)))"
        using T [OF u, of 1] T [OF u, of 2] M [of 1] m 5 by (simp_all add: algebra_simps)
    qed (use mm 5 in simp_all)
  next
    case 6
    have e: "ref_stage A st p m mm s fout = ref_butterflies p m s mm (\<lambda>u. bfly5_cell A (ff_twiddles st ! (s * m))
        (ff_twiddles st ! (s * 2 * m)) (ff_twiddles st ! (u * s)) (ff_twiddles st ! (2 * u * s))
        (ff_twiddles st ! (3 * u * s)) (ff_twiddles st ! (4 * u * s))) fout"
      unfolding ref_stage_def Let_def sh0 by (simp add: ref_bfly5_def 6)
    show ?thesis unfolding e unfolding 6
    proof (intro B [unfolded 6] bfly5_closed [OF c])
      fix u assume u: "u < m"
      show "both Q (ff_twiddles st ! (s * m))" "both Q (ff_twiddles st ! (s * 2 * m))" "both Q (ff_twiddles st ! (u * s))"
        "both Q (ff_twiddles st ! (2 * u * s))" "both Q (ff_twiddles st ! (3 * u * s))" "both Q (ff_twiddles st ! (4 * u * s))"
        using T [OF u, of 1] T [OF u, of 2] T [OF u, of 3] T [OF u, of 4] M [of 1] M [of 2] m 6 by (simp_all add: algebra_simps)
    qed (use mm 6 in simp_all)
  qed
qed

lemma run_stages_keeps:
  assumes c: "ops_closed A Q" and sh: "ff_shift st \<le> 0" and tw: "list_all (both Q) (ff_twiddles st)"
  shows "plan_ok n fs \<Longrightarrow> length (ff_twiddles st) = s * n \<Longrightarrow> s = 1 \<or> mm = n \<Longrightarrow>
    list_all (both Q) fout \<Longrightarrow> length fout = s * n \<Longrightarrow>
    list_all (both Q) (run_stages A st s mm fs fout) \<and> length (run_stages A st s mm fs fout) = s * n"
proof (induction fs arbitrary: n s mm)
  case (Cons pm fs)
  obtain p m where pm: "pm = (p, m)" by (cases pm)
  have n: "n = p * m" "radix_ok p m" "plan_ok m fs" using Cons.prems(1) by (simp_all add: pm)
  have IH: "list_all (both Q) (run_stages A st (s * p) m fs fout) \<and> length (run_stages A st (s * p) m fs fout) = s * p * m"
    using Cons.prems n by (intro Cons.IH [of m "s * p" m]) (simp_all add: algebra_simps)
  show ?case unfolding pm run_stages.simps n(1)
    using IH Cons.prems n(1) by (intro ref_stage_keeps [OF c n(2) sh tw]) (simp_all add: algebra_simps)
qed simp

end
