(* ===== verification/KissTable.thy ===== *)
theory KissTable
  imports KissProps
begin

text \<open>
  The code of the transform on the plan of a length: no access is outside the arrays, the table
  of positions is a permutation, and the stages are those of \<open>KissProps\<close>.
\<close>

section \<open>The table of positions\<close>

text \<open>The input that position \<open>t\<close> of a block holds.\<close>

fun input_of :: "(nat \<times> nat) list \<Rightarrow> nat \<Rightarrow> nat" where
  "input_of [] t = 0"
| "input_of ((p, m) # fs) t = t div m + p * input_of fs (t mod m)"

lemma plan_ok_pos: "plan_ok n fs \<Longrightarrow> 0 < n"
  by (cases fs) (auto simp: radix_ok_def)

text \<open>The table as a function, where every write is inside it and fits 16 bits.\<close>

fun ref_bitrev :: "nat \<Rightarrow> nat \<Rightarrow> nat \<Rightarrow> nat \<Rightarrow> (nat \<times> nat) list \<Rightarrow> int option list \<Rightarrow> int option list" where
  "ref_bitrev Fout off fstride in_stride [] f = f"
| "ref_bitrev Fout off fstride in_stride ((p, m) # factors) f =
     (if m = 1 then foldl (\<lambda>f j. f[off + j * (fstride * in_stride) := Some (int (Fout + j))]) f [0 ..< p]
      else foldl (\<lambda>f j. ref_bitrev (Fout + j * m) (off + j * (fstride * in_stride)) (fstride * p) in_stride factors f)
        f [0 ..< p])"


lemma input_of_less: "plan_ok n fs \<Longrightarrow> t < n \<Longrightarrow> input_of fs t < n"
proof (induction fs arbitrary: n t)
  case (Cons pm fs)
  obtain p m where pm: "pm = (p, m)" by (cases pm)
  have n: "n = p * m" and plan: "plan_ok m fs" and pos: "0 < m" "0 < p" using Cons.prems(1) by (auto simp: pm radix_ok_def)
  have "t mod m < m" using pos by simp
  then have i: "input_of fs (t mod m) < m" by (rule Cons.IH [OF plan])
  have "t div m < p" using Cons.prems(2) by (simp add: n less_mult_imp_div_less)
  moreover have "(input_of fs (t mod m) + 1) * p \<le> m * p" using i by (intro mult_right_mono) simp_all
  ultimately show ?case by (simp add: pm n algebra_simps)
qed simp

lemma input_of_surj: "plan_ok n fs \<Longrightarrow> i < n \<Longrightarrow> \<exists>t<n. input_of fs t = i"
proof (induction fs arbitrary: n i)
  case (Cons pm fs)
  obtain p m where pm: "pm = (p, m)" by (cases pm)
  have n: "n = p * m" and plan: "plan_ok m fs" and pos: "0 < m" "0 < p" using Cons.prems(1) by (auto simp: pm radix_ok_def)
  have "i div p < m" using Cons.prems(2) by (simp add: n less_mult_imp_div_less mult.commute)
  then obtain t where t: "t < m" "input_of fs t = i div p" using Cons.IH [OF plan] by blast
  have j: "i mod p < p" using pos by simp
  then have "(i mod p + 1) * m \<le> p * m" by (intro mult_right_mono) simp_all
  then have "i mod p * m + t < n" using t(1) by (simp add: n)
  moreover have "input_of (pm # fs) (i mod p * m + t) = i" using t pos by (simp add: pm)
  ultimately show ?case by blast
qed simp

definition written :: "nat \<Rightarrow> nat \<Rightarrow> nat \<Rightarrow> (nat \<Rightarrow> nat) \<Rightarrow> nat \<Rightarrow> int option list \<Rightarrow> int option list \<Rightarrow> bool" where
  "written Fout off s inp n f g \<longleftrightarrow> length g = length f \<and> (\<forall>t<n. g ! (off + s * inp t) = Some (int (Fout + t))) \<and>
     (\<forall>z. (\<forall>i<n. z \<noteq> off + s * i) \<longrightarrow> g ! z = f ! z)"

text \<open>The \<open>p\<close> parts of a level are written one after the other, each to its own positions.\<close>

lemma written_parts:
  assumes part: "\<And>j f. j < p \<Longrightarrow> length f = len \<Longrightarrow> written (Fout + j * m) (off + j * s) (s * p) inp m f (G j f)"
    and inp: "\<And>t. t < m \<Longrightarrow> inp t < m" and s: "0 < s" and p: "0 < p" and m: "0 < m" and f: "length f = len"
  shows "written Fout off s (\<lambda>t. t div m + p * inp (t mod m)) (p * m) f (foldl (\<lambda>f j. G j f) f [0 ..< p])"
proof -
  define R where "R q = foldl (\<lambda>f j. G j f) f [0 ..< q]" for q
  have "length (R q) = length f \<and> (\<forall>j<q. \<forall>t<m. R q ! (off + s * (j + p * inp t)) = Some (int (Fout + (j * m + t)))) \<and>
      (\<forall>z. (\<forall>j<q. \<forall>i<m. z \<noteq> off + s * (j + p * i)) \<longrightarrow> R q ! z = f ! z)" if "q \<le> p" for q
    using that
  proof (induction q)
    case 0
    then show ?case by (simp add: R_def)
  next
    case (Suc q)
    then have q: "q < p" by simp
    have step: "R (Suc q) = G q (R q)" by (simp add: R_def)
    have IH: "length (R q) = length f" "\<And>j t. j < q \<Longrightarrow> t < m \<Longrightarrow> R q ! (off + s * (j + p * inp t)) = Some (int (Fout + (j * m + t)))"
      "\<And>z. (\<And>j i. j < q \<Longrightarrow> i < m \<Longrightarrow> z \<noteq> off + s * (j + p * i)) \<Longrightarrow> R q ! z = f ! z"
      using Suc.IH q by auto
    have W: "written (Fout + q * m) (off + q * s) (s * p) inp m (R q) (R (Suc q))"
      unfolding step by (rule part [OF q]) (simp add: IH(1) f)
    note W = W [unfolded written_def]
    have e: "off + q * s + s * p * i = off + s * (q + p * i)" for i by (simp add: algebra_simps)
    have ne: "off + s * (j + p * a) \<noteq> off + s * (q + p * i)" if "j < q" for j a i
    proof
      assume "off + s * (j + p * a) = off + s * (q + p * i)"
      then have "j + p * a = q + p * i" using s by simp
      then have "(j + p * a) mod p = (q + p * i) mod p" by simp
      then show False using that q by simp
    qed
    have new: "R (Suc q) ! (off + s * (j + p * inp t)) = Some (int (Fout + (j * m + t)))" if "j < Suc q" "t < m" for j t
    proof (cases "j = q")
      case True
      have "R (Suc q) ! (off + s * (q + p * inp t)) = Some (int (Fout + q * m + t))" using W that(2) unfolding e by blast
      then show ?thesis using True by simp
    next
      case False
      then have j: "j < q" using that by simp
      then have "R (Suc q) ! (off + s * (j + p * inp t)) = R q ! (off + s * (j + p * inp t))"
        using W ne [OF j] unfolding e by blast
      then show ?thesis using IH(2) [OF j that(2)] by simp
    qed
    have old: "R (Suc q) ! z = f ! z" if "\<forall>j<Suc q. \<forall>i<m. z \<noteq> off + s * (j + p * i)" for z
    proof -
      have "R (Suc q) ! z = R q ! z" using W that unfolding e by blast
      also have "\<dots> = f ! z" using that by (intro IH(3)) simp
      finally show ?thesis .
    qed
    show ?case using W IH(1) new old by simp
  qed
  from this [of p] have R: "length (R p) = length f" "\<And>j t. j < p \<Longrightarrow> t < m \<Longrightarrow> R p ! (off + s * (j + p * inp t)) = Some (int (Fout + (j * m + t)))"
    "\<And>z. (\<And>j i. j < p \<Longrightarrow> i < m \<Longrightarrow> z \<noteq> off + s * (j + p * i)) \<Longrightarrow> R p ! z = f ! z"
    by auto
  have "R p ! (off + s * (t div m + p * inp (t mod m))) = Some (int (Fout + t))" if "t < p * m" for t
    using R(2) [of "t div m" "t mod m"] that m by (simp add: less_mult_imp_div_less)
  moreover have "R p ! z = f ! z" if "\<forall>i<p * m. z \<noteq> off + s * i" for z
  proof (rule R(3))
    fix j i assume "j < p" "i < m"
    then have "(i + 1) * p \<le> m * p" by (intro mult_right_mono) simp_all
    then have "j + p * i < p * m" using \<open>j < p\<close> by (simp add: algebra_simps)
    then show "z \<noteq> off + s * (j + p * i)" using that by blast
  qed
  ultimately show ?thesis using R(1) by (simp add: written_def R_def)
qed

lemma ref_bitrev_written:
  "plan_ok n fs \<Longrightarrow> fs \<noteq> [] \<Longrightarrow> 0 < s \<Longrightarrow> off + s * (n - 1) < length f \<Longrightarrow>
    written Fout off s (input_of fs) n f (ref_bitrev Fout off s 1 fs f)"
proof (induction fs arbitrary: n Fout off s f)
  case (Cons pm fs)
  obtain p m where pm: "pm = (p, m)" by (cases pm)
  have n: "n = p * m" and plan: "plan_ok m fs" and pos: "0 < m" "0 < p" using Cons.prems(1) by (auto simp: pm radix_ok_def)
  show ?case
  proof (cases "m = 1")
    case True
    have inp: "input_of fs 0 = 0" using input_of_less [OF plan, of 0] True by simp
    have inj: "\<And>k k'. k < p \<Longrightarrow> k' < p \<Longrightarrow> off + k * (s * 1) = off + k' * (s * 1) \<Longrightarrow> k = k'" using Cons.prems(3) by simp
    have lt: "off + k * (s * 1) < length f" if "k < p" for k
    proof -
      have "s * k \<le> s * (p - 1)" using that by (intro mult_left_mono) simp_all
      moreover have "off + s * (p - 1) < length f" using Cons.prems(4) True by (simp add: n)
      moreover have "k * (s * 1) = s * k" by simp
      ultimately show ?thesis by linarith
    qed
    note U = foldl_update_nth [where h = "\<lambda>k. off + k * (s * 1)" and v = "\<lambda>k. Some (int (Fout + k))", OF inj lt]
    show ?thesis using U inp pos by (auto simp: written_def pm n True mult.commute)
  next
    case False
    have ne: "fs \<noteq> []" using plan False by auto
    define G where "G j f = ref_bitrev (Fout + j * m) (off + j * s) (s * p) 1 fs f" for j f
    have "written Fout off s (\<lambda>t. t div m + p * input_of fs (t mod m)) (p * m) f (foldl (\<lambda>f j. G j f) f [0 ..< p])"
    proof (rule written_parts [where len = "length f" and inp = "input_of fs" and G = G])
      fix j and f' :: "int option list" assume a: "j < p" "length f' = length f"
      have "s * (j + p * (m - 1)) \<le> s * (p * m - 1)"
      proof (rule mult_left_mono)
        have "j + p * (m - 1) + 1 \<le> p * m" using a(1) pos by (cases m) simp_all
        then show "j + p * (m - 1) \<le> p * m - 1" by linarith
      qed simp
      then have "off + j * s + s * p * (m - 1) < length f'"
        using Cons.prems(4) a(2) by (simp add: n algebra_simps)
      then show "written (Fout + j * m) (off + j * s) (s * p) (input_of fs) m f' (G j f')"
        unfolding G_def by (intro Cons.IH plan ne) (use Cons.prems(3) pos in simp_all)
    qed (use pos Cons.prems input_of_less [OF plan] in simp_all)
    then show ?thesis using False by (simp add: pm n G_def [abs_def])
  qed
qed simp

section \<open>Loops that stay inside\<close>

lemma opt_foldl_Some:
  assumes "I s" "\<And>x t. x \<in> set xs \<Longrightarrow> I t \<Longrightarrow> f t x = Some (g t x) \<and> I (g t x)"
  shows "opt_foldl f s xs = Some (foldl g s xs) \<and> I (foldl g s xs)"
  using assms by (induction xs arbitrary: s) simp_all

lemma opt_foldl_append: "opt_foldl f s (xs @ ys) = Option.bind (opt_foldl f s xs) (\<lambda>s. opt_foldl f s ys)"
  by (induction xs arbitrary: s) simp_all

lemma opt_foldl_map: "opt_foldl f s (map h xs) = opt_foldl (\<lambda>s x. f s (h x)) s xs"
  by (induction xs arbitrary: s) simp_all

lemma upto_int: "[0 .. int n - 1] = map int [0 ..< n]"
proof (induction n)
  case (Suc n)
  have "[0 .. int (Suc n) - 1] = [0 .. int n - 1] @ [int n]" using upto_rec2 [of 0 "int n"] by simp
  then show ?case using Suc by simp
qed simp

lemma wr_int [simp]: "i < length xs \<Longrightarrow> wr xs (int i) v = Some (xs[i := v])"
  by (simp add: wr_def)

section \<open>The table of the code\<close>

text \<open>The factors as the code holds them.\<close>

definition code_plan :: "(nat \<times> nat) list \<Rightarrow> (int \<times> int) list" where
  "code_plan fs = map (\<lambda>(p, m). (int p, int m)) fs"

lemma code_plan_simps [simp]: "code_plan [] = []" "code_plan ((p, m) # fs) = (int p, int m) # code_plan fs"
  "length (code_plan fs) = length fs"
  by (simp_all add: code_plan_def)

lemma plan_ok_1: "plan_ok (Suc 0) fs \<Longrightarrow> fs = []"
  by (cases fs) (auto simp: radix_ok_def)

lemma opus_int16_id: "0 \<le> x \<Longrightarrow> x < 32768 \<Longrightarrow> opus_int16 x = x"
  by (simp add: opus_int16_def signed_take_bit_int_eq_self)

lemma ref_bitrev_length [simp]: "length (ref_bitrev Fout off s i fs f) = length f"
proof (induction Fout off s i fs f rule: ref_bitrev.induct)
  case (2 Fout off s i p m fs f)
  have fl: "length (foldl h f xs) = length f" if "\<And>f x. x \<in> set xs \<Longrightarrow> length (h f x) = length f"
    for h :: "int option list \<Rightarrow> nat \<Rightarrow> int option list" and xs
    using that by (induction xs arbitrary: f) simp_all
  show ?case by (cases "m = 1") (auto simp: foldl_update_length intro!: fl 2)
qed simp

lemma compute_bitrev_table_ref:
  "plan_ok n fs \<Longrightarrow> fs \<noteq> [] \<Longrightarrow> 0 < s \<Longrightarrow> off + s * (n - 1) < length f \<Longrightarrow> Fout + n \<le> 32768 \<Longrightarrow>
    compute_bitrev_table (int Fout) off s 1 (code_plan fs) f = Some (ref_bitrev Fout off s 1 fs f)"
proof (induction fs arbitrary: n Fout off s f)
  case (Cons pm fs)
  obtain p m where pm: "pm = (p, m)" by (cases pm)
  have n: "n = p * m" and plan: "plan_ok m fs" and pos: "0 < m" "0 < p" using Cons.prems(1) by (auto simp: pm radix_ok_def)
  let ?I = "\<lambda>g :: int option list. length g = length f"
  show ?case
  proof (cases "m = 1")
    case True
    have lt: "off + j * s < length f" if "j < p" for j
    proof -
      have "s * j \<le> s * (p - 1)" using that by (intro mult_left_mono) simp_all
      moreover have "off + s * (p - 1) < length f" using Cons.prems(4) True by (simp add: n)
      moreover have "j * s = s * j" by simp
      ultimately show ?thesis by linarith
    qed
    have "opt_foldl (\<lambda>f j. wr f (int (off + j * (s * 1))) (Some (opus_int16 (int Fout + int j)))) f [0 ..< nat (int p)] =
        Some (foldl (\<lambda>f j. f[off + j * (s * 1) := Some (int (Fout + j))]) f [0 ..< p]) \<and>
        ?I (foldl (\<lambda>f j. f[off + j * (s * 1) := Some (int (Fout + j))]) f [0 ..< p])"
      unfolding nat_int
    proof (rule opt_foldl_Some [where I = ?I])
      fix j g assume j: "j \<in> set [0 ..< p]" and g: "?I g"
      have "off + j * s < length g" using lt [of j] j g by simp
      moreover have "opus_int16 (int Fout + int j) = int (Fout + j)" using j Cons.prems(5) n True by (subst opus_int16_id) simp_all
      ultimately show "wr g (int (off + j * (s * 1))) (Some (opus_int16 (int Fout + int j))) = Some (g[off + j * (s * 1) := Some (int (Fout + j))]) \<and>
          ?I (g[off + j * (s * 1) := Some (int (Fout + j))])" using g by (simp del: of_nat_add of_nat_mult)
    qed simp
    then show ?thesis using True by (simp add: pm)
  next
    case False
    have ne: "fs \<noteq> []" using plan False by auto
    have "opt_foldl (\<lambda>f j. compute_bitrev_table (int Fout + int j * int m) (off + j * (s * 1)) (s * nat (int p)) 1 (code_plan fs) f) f [0 ..< nat (int p)] =
        Some (foldl (\<lambda>f j. ref_bitrev (Fout + j * m) (off + j * (s * 1)) (s * p) 1 fs f) f [0 ..< p]) \<and>
        ?I (foldl (\<lambda>f j. ref_bitrev (Fout + j * m) (off + j * (s * 1)) (s * p) 1 fs f) f [0 ..< p])"
      unfolding nat_int
    proof (rule opt_foldl_Some [where I = ?I])
      fix j g assume "j \<in> set [0 ..< p]" and g: "?I g"
      then have j: "j < p" by simp
      have "s * (j + p * (m - 1)) \<le> s * (p * m - 1)"
      proof (rule mult_left_mono)
        have "j + p * (m - 1) + 1 \<le> p * m" using j pos by (cases m) simp_all
        then show "j + p * (m - 1) \<le> p * m - 1" by linarith
      qed simp
      then have lt: "off + j * s + s * p * (m - 1) < length g" using Cons.prems(4) g by (simp add: n algebra_simps)
      have "(j + 1) * m \<le> p * m" using j by (intro mult_right_mono) simp_all
      then have F: "Fout + j * m + m \<le> 32768" using Cons.prems(5) by (simp add: n)
      have "compute_bitrev_table (int (Fout + j * m)) (off + j * s) (s * p) 1 (code_plan fs) g =
          Some (ref_bitrev (Fout + j * m) (off + j * s) (s * p) 1 fs g)"
        using lt F Cons.prems(3) pos by (intro Cons.IH [OF plan ne]) simp_all
      then show "compute_bitrev_table (int Fout + int j * int m) (off + j * (s * 1)) (s * p) 1 (code_plan fs) g =
          Some (ref_bitrev (Fout + j * m) (off + j * (s * 1)) (s * p) 1 fs g) \<and> ?I (ref_bitrev (Fout + j * m) (off + j * (s * 1)) (s * p) 1 fs g)"
        using g by simp
    qed simp
    then show ?thesis using False by (simp add: pm)
  qed
qed simp

section \<open>The stages of the code\<close>

lemma on_cells_ref:
  fixes fout :: "'a list"
  assumes b: "\<And>k. k < p \<Longrightarrow> b + k * m < length fout"
  shows "on_cells (int p) (int m) (int b) g fout = Some (ref_cells p m b g fout)"
proof -
  have xs: "opt_map (\<lambda>k. rd fout (int b + k * int m)) (map int [0 ..< p]) = Some (map (\<lambda>k. fout ! (b + k * m)) [0 ..< p])"
  proof -
    have "opt_map (\<lambda>k. rd fout (int b + k * int m)) (map int [0 ..< p]) =
        Some (map (\<lambda>k. fout ! nat (int b + k * int m)) (map int [0 ..< p]))"
    proof (rule opt_map_Some)
      fix k assume "k \<in> set (map int [0 ..< p])"
      then obtain j where j: "k = int j" "j < p" by auto
      then have "int b + k * int m = int (b + j * m)" by simp
      then show "rd fout (int b + k * int m) = Some (fout ! nat (int b + k * int m))" using b [OF j(2)] by (simp only: rd_int nat_int)
    qed
    moreover have "nat (int b + int j * int m) = b + j * m" for j by (simp add: nat_add_distrib nat_mult_distrib)
    ultimately show ?thesis by (simp add: comp_def)
  qed
  define vs where "vs = g (map (\<lambda>k. fout ! (b + k * m)) [0 ..< p])"
  have "opt_foldl (\<lambda>f k. wr f (int b + int k * int m) (vs ! nat (int k))) fout [0 ..< p] =
      Some (foldl (\<lambda>f k. f[b + k * m := vs ! k]) fout [0 ..< p]) \<and> length (foldl (\<lambda>f k. f[b + k * m := vs ! k]) fout [0 ..< p]) = length fout"
  proof (rule opt_foldl_Some [where I = "\<lambda>f. length f = length fout"])
    fix k and f :: "'a list"
    assume "k \<in> set [0 ..< p]" "length f = length fout"
    then show "wr f (int b + int k * int m) (vs ! nat (int k)) = Some (f[b + k * m := vs ! k]) \<and> length (f[b + k * m := vs ! k]) = length fout"
      using wr_int [of "b + k * m" f] b [of k] by simp
  qed simp
  then show ?thesis
    unfolding on_cells_def ref_cells_def upto_int Let_def xs by (simp add: opt_foldl_map vs_def)
qed

lemma butterflies_ref:
  assumes mm: "N = 1 \<or> mm = p * m" and len: "N * (p * m) \<le> length fout"
    and g: "\<And>u. u < m \<Longrightarrow> 0 < N \<Longrightarrow> g (int u) = Some (g' u)"
  shows "butterflies (int p) (int m) (int N) (int mm) g fout = Some (ref_butterflies p m N mm g' fout)"
proof -
  let ?I = "\<lambda>f. length f = length fout"
  have cell: "on_cells (int p) (int m) (int i * int mm + int u) (g' u) f = Some (ref_cells p m (i * mm + u) (g' u) f) \<and>
      ?I (ref_cells p m (i * mm + u) (g' u) f)" if "i < N" "u < m" "?I f" for i u f
  proof -
    have im: "i * mm = i * (p * m)" using mm that(1) by auto
    have m: "0 < m" using that(2) by simp
    have b: "i * mm + u + k * m < length f" if "k < p" for k
      unfolding im using cell_unique(4) [OF \<open>u < m\<close> that \<open>i < N\<close>] \<open>?I f\<close> len by simp
    show ?thesis using on_cells_ref [OF b] ref_cells_nth(1) [OF m b] that(3) by simp
  qed
  have inner: "opt_foldl (\<lambda>f u. do { h \<leftarrow> g (int u); on_cells (int p) (int m) (int i * int mm + int u) h f }) f [0 ..< m] =
      Some (foldl (\<lambda>f u. ref_cells p m (i * mm + u) (g' u) f) f [0 ..< m]) \<and>
      ?I (foldl (\<lambda>f u. ref_cells p m (i * mm + u) (g' u) f) f [0 ..< m])" if "i < N" "?I f" for i f
    by (rule opt_foldl_Some [where I = ?I]) (use that g cell in auto)
  have "opt_foldl (\<lambda>f i. opt_foldl (\<lambda>f u. do { h \<leftarrow> g (int u); on_cells (int p) (int m) (int i * int mm + int u) h f }) f [0 ..< m]) fout [0 ..< N] =
      Some (ref_butterflies p m N mm g' fout) \<and> ?I (ref_butterflies p m N mm g' fout)"
    unfolding ref_butterflies_def by (rule opt_foldl_Some [where I = ?I]) (use inner in auto)
  then show ?thesis unfolding butterflies_def upto_int opt_foldl_map by simp
qed

lemma rd_at: "i = int k \<Longrightarrow> k < length xs \<Longrightarrow> rd xs i = Some (xs ! k)"
  by simp

lemma fft_stage_ref:
  assumes r: "radix_ok p m" and mm: "s = 1 \<or> mm = p * m" and len: "length fout = s * (p * m)" and s: "0 < s"
    and sh: "sh = nat (if ff_shift st > 0 then ff_shift st else 0)" and tw: "s * (p * m) * 2 ^ sh \<le> length (ff_twiddles st)"
  shows "fft_stage A st (int p) (int m) (int mm) (int s) fout = Some (ref_stage A st p m mm s fout)"
proof -
  let ?T = "ff_twiddles st" and ?s = "s * 2 ^ sh"
  have m: "0 < m" using r by (simp add: radix_ok_def)
  have T: "j * (u * ?s) < length ?T" if "j < p" "u \<le> m" "u < m \<or> 0 < j" for j u
  proof -
    have "j * u < p * m"
    proof (cases "u = 0")
      case True
      then show ?thesis using that m by simp
    next
      case False
      have "j * u \<le> j * m" "j * m < p * m" using that m by simp_all
      then show ?thesis by linarith
    qed
    then have "j * u * (s * 2 ^ sh) < p * m * (s * 2 ^ sh)" using s by simp
    moreover have "p * m * (s * 2 ^ sh) \<le> length ?T" using tw by (simp only: ac_simps)
    ultimately have "j * u * (s * 2 ^ sh) < length ?T" by (rule less_le_trans)
    then show ?thesis by (simp only: mult.assoc)
  qed
  have R: "rd ?T i = Some (?T ! k)" if "i = int k" "k = j * (u * ?s)" "j < p" "u \<le> m" "u < m \<or> 0 < j" for i k j u
  proof -
    have "k < length ?T" unfolding that(2) by (rule T [OF that(3-5)])
    then show ?thesis unfolding that(1) by (rule rd_int)
  qed
  note B = butterflies_ref [where N = s and fout = fout]
  consider "p = 2" "m = 1" | "p = 2" "m = 4" | "p = 4" "m = 1" | "p = 4" "m \<noteq> 1" | "p = 3" | "p = 5"
    using r by (auto simp: radix_ok_def)
  then show ?thesis
  proof cases
    case 1
    have "butterflies (int 2) (int 1) (int s) (int 2) (\<lambda>u. Some (\<lambda>f. let (a, b) = bfly2_cell A (f ! 0) (f ! 1) in [a, b])) fout =
        Some (ref_butterflies 2 1 s 2 (\<lambda>u f. let (a, b) = bfly2_cell A (f ! 0) (f ! 1) in [a, b]) fout)"
      by (rule B) (use 1 len in simp_all)
    then show ?thesis using 1
      by (simp add: fft_stage_def ref_stage_def kf_bfly2_def ref_bfly2_def)
  next
    case 2
    define t where "t v x = (let tw = so_sqrt_half A in
        if v = 0 then x
        else if v = 1 then (so_mul A (so_add A (fst x) (snd x)) tw, so_mul A (so_sub A (snd x) (fst x)) tw)
        else if v = 2 then (snd x, so_neg A (fst x))
        else (so_mul A (so_sub A (snd x) (fst x)) tw, so_mul A (so_neg A (so_add A (snd x) (fst x))) tw))" for v :: int and x
    define t' where "t' v x = (let tw = so_sqrt_half A in
        if v = 0 then x
        else if v = 1 then (so_mul A (so_add A (fst x) (snd x)) tw, so_mul A (so_sub A (snd x) (fst x)) tw)
        else if v = 2 then (snd x, so_neg A (fst x))
        else (so_mul A (so_sub A (snd x) (fst x)) tw, so_mul A (so_neg A (so_add A (snd x) (fst x))) tw))" for v :: nat and x
    have t: "t (int u) x = t' u x" for u x
      unfolding t_def t'_def by (cases "u = 0"; cases "u = 1"; cases "u = 2") simp_all
    have "butterflies (int 2) (int 4) (int s) (int 8) (\<lambda>u. Some (\<lambda>f. let (a, b) = bfly2_cell A (f ! 0) (t u (f ! 1)) in [a, b])) fout =
        Some (ref_butterflies 2 4 s 8 (\<lambda>u f. let (a, b) = bfly2_cell A (f ! 0) (t' u (f ! 1)) in [a, b]) fout)"
      by (rule B) (use 2 len t in simp_all)
    then show ?thesis using 2
      by (simp add: fft_stage_def ref_stage_def kf_bfly2_def ref_bfly2_def t_def t'_def Let_def)
  next
    case 3
    have "butterflies (int 4) (int 1) (int s) (int 4) (\<lambda>u. Some (bfly4_one A)) fout =
        Some (ref_butterflies 4 1 s 4 (\<lambda>u. bfly4_one A) fout)"
      by (rule B) (use 3 len in simp_all)
    then show ?thesis using 3
      by (simp add: fft_stage_def ref_stage_def kf_bfly4_def ref_bfly4_def)
  next
    case 4
    have "butterflies (int 4) (int m) (int s) (int mm) (\<lambda>u. do { tw1 \<leftarrow> rd ?T (u * int ?s); tw2 \<leftarrow> rd ?T (u * (int ?s * 2));
        tw3 \<leftarrow> rd ?T (u * (int ?s * 3)); Some (bfly4_cell A tw1 tw2 tw3) }) fout =
      Some (ref_butterflies 4 m s mm (\<lambda>u. bfly4_cell A (?T ! (u * ?s)) (?T ! (u * (?s * 2))) (?T ! (u * (?s * 3)))) fout)"
    proof (rule B)
      fix u assume u: "u < m"
      show "do { tw1 \<leftarrow> rd ?T (int u * int ?s); tw2 \<leftarrow> rd ?T (int u * (int ?s * 2)); tw3 \<leftarrow> rd ?T (int u * (int ?s * 3)); Some (bfly4_cell A tw1 tw2 tw3) } =
          Some (bfly4_cell A (?T ! (u * ?s)) (?T ! (u * (?s * 2))) (?T ! (u * (?s * 3))))"
        using R [of "int u * int ?s" "u * ?s" 1 u] R [of "int u * (int ?s * 2)" "u * (?s * 2)" 2 u]
          R [of "int u * (int ?s * 3)" "u * (?s * 3)" 3 u] u 4 by simp
    qed (use mm len 4 in simp_all)
    then show ?thesis using 4
      by (simp add: fft_stage_def ref_stage_def kf_bfly4_def ref_bfly4_def sh [symmetric])
  next
    case 5
    have e: "rd ?T (int ?s * int m) = Some (?T ! (?s * m))" by (rule R [where j = 1 and u = m]) (use 5 m in simp_all)
    have "butterflies (int 3) (int m) (int s) (int mm) (\<lambda>u. do { tw1 \<leftarrow> rd ?T (u * int ?s); tw2 \<leftarrow> rd ?T (u * (int ?s * 2));
        Some (bfly3_cell A (?T ! (?s * m)) tw1 tw2) }) fout =
      Some (ref_butterflies 3 m s mm (\<lambda>u. bfly3_cell A (?T ! (?s * m)) (?T ! (u * ?s)) (?T ! (u * (?s * 2)))) fout)"
    proof (rule B)
      fix u assume u: "u < m"
      show "do { tw1 \<leftarrow> rd ?T (int u * int ?s); tw2 \<leftarrow> rd ?T (int u * (int ?s * 2)); Some (bfly3_cell A (?T ! (?s * m)) tw1 tw2) } =
          Some (bfly3_cell A (?T ! (?s * m)) (?T ! (u * ?s)) (?T ! (u * (?s * 2))))"
        using R [of "int u * int ?s" "u * ?s" 1 u] R [of "int u * (int ?s * 2)" "u * (?s * 2)" 2 u] u 5 by simp
    qed (use mm len 5 in simp_all)
    then show ?thesis using 5 e m
      by (simp add: fft_stage_def ref_stage_def kf_bfly3_def ref_bfly3_def sh [symmetric])
  next
    case 6
    have e1: "rd ?T (int ?s * int m) = Some (?T ! (?s * m))" by (rule R [where j = 1 and u = m]) (use 6 m in simp_all)
    have e2: "rd ?T (int ?s * 2 * int m) = Some (?T ! (?s * 2 * m))" by (rule R [where j = 2 and u = m]) (use 6 m in simp_all)
    have "butterflies (int 5) (int m) (int s) (int mm) (\<lambda>u. do { tw1 \<leftarrow> rd ?T (u * int ?s); tw2 \<leftarrow> rd ?T (2 * u * int ?s);
        tw3 \<leftarrow> rd ?T (3 * u * int ?s); tw4 \<leftarrow> rd ?T (4 * u * int ?s);
        Some (bfly5_cell A (?T ! (?s * m)) (?T ! (?s * 2 * m)) tw1 tw2 tw3 tw4) }) fout =
      Some (ref_butterflies 5 m s mm (\<lambda>u. bfly5_cell A (?T ! (?s * m)) (?T ! (?s * 2 * m)) (?T ! (u * ?s)) (?T ! (2 * u * ?s))
        (?T ! (3 * u * ?s)) (?T ! (4 * u * ?s))) fout)"
    proof (rule B)
      fix u assume u: "u < m"
      show "do { tw1 \<leftarrow> rd ?T (int u * int ?s); tw2 \<leftarrow> rd ?T (2 * int u * int ?s); tw3 \<leftarrow> rd ?T (3 * int u * int ?s);
          tw4 \<leftarrow> rd ?T (4 * int u * int ?s); Some (bfly5_cell A (?T ! (?s * m)) (?T ! (?s * 2 * m)) tw1 tw2 tw3 tw4) } =
        Some (bfly5_cell A (?T ! (?s * m)) (?T ! (?s * 2 * m)) (?T ! (u * ?s)) (?T ! (2 * u * ?s)) (?T ! (3 * u * ?s)) (?T ! (4 * u * ?s)))"
        using R [of "int u * int ?s" "u * ?s" 1 u] R [of "2 * int u * int ?s" "2 * u * ?s" 2 u]
          R [of "3 * int u * int ?s" "3 * u * ?s" 3 u] R [of "4 * int u * int ?s" "4 * u * ?s" 4 u] u 6 by simp
    qed (use mm len 6 in simp_all)
    then show ?thesis using 6 e1 e2
      by (simp add: fft_stage_def ref_stage_def kf_bfly5_def ref_bfly5_def sh [symmetric])
  qed
qed

section \<open>The transform of the code\<close>

lemma strides_plan:
  "plan_ok n fs \<Longrightarrow> fs \<noteq> [] \<Longrightarrow> l + length fs \<le> 7 \<Longrightarrow>
    \<exists>ss. strides l (int s) (code_plan fs) = Some ss \<and> length ss = length fs"
proof (induction fs arbitrary: n l s)
  case (Cons pm fs)
  obtain p m where pm: "pm = (p, m)" by (cases pm)
  have plan: "plan_ok m fs" using Cons.prems(1) by (simp add: pm)
  show ?case
  proof (cases "m = 1")
    case True
    then show ?thesis using plan_ok_1 [of fs] plan Cons.prems(3) by (simp add: pm)
  next
    case False
    then have "fs \<noteq> []" using plan by auto
    then show ?thesis using Cons.IH [OF plan, of "l + 1" "s * p"] Cons.prems(3) False by (auto simp: pm)
  qed
qed simp

lemma ref_stage_length:
  assumes r: "radix_ok p m" and mm: "s = 1 \<or> mm = p * m" and len: "length fout = s * (p * m)"
  shows "length (ref_stage A st p m mm s fout) = s * (p * m)"
proof -
  have B: "length (ref_butterflies p' m' s q g fout) = s * (p' * m')" if "0 < m'" "s = 1 \<or> q = p' * m'" "length fout = s * (p' * m')" for p' m' q g
    using ref_butterflies_nth(1) [OF that(1,2), of fout g] that(3) by simp
  consider "p = 2" "m = 1" | "p = 2" "m = 4" | "p = 4" "m = 1" | "p = 4" "m \<noteq> 1" | "p = 3" | "p = 5"
    using r by (auto simp: radix_ok_def)
  then show ?thesis using mm len r
    by cases (simp_all add: ref_stage_def ref_bfly2_def ref_bfly3_def ref_bfly4_def ref_bfly5_def Let_def radix_ok_def B)
qed

lemma run_stages_length:
  "plan_ok n fs \<Longrightarrow> s = 1 \<or> mm = n \<Longrightarrow> length fout = s * n \<Longrightarrow> length (run_stages A st s mm fs fout) = s * n"
proof (induction fs arbitrary: n s mm)
  case (Cons pm fs)
  obtain p m where pm: "pm = (p, m)" by (cases pm)
  have n: "n = p * m" "radix_ok p m" "plan_ok m fs" using Cons.prems(1) by (simp_all add: pm)
  have "length (run_stages A st (s * p) m fs fout) = s * p * m"
    using Cons.prems n by (intro Cons.IH [of m "s * p" m]) (simp_all add: mult.assoc)
  then show ?case unfolding pm run_stages.simps n(1) using Cons.prems(2) n by (intro ref_stage_length) (simp_all add: mult.assoc)
qed simp

text \<open>The body of the loop of the code at the stage \<open>i\<close>; \<open>mm\<close> is the length above the first.\<close>

definition stage_at :: "'a scalar_ops \<Rightarrow> 'a fft_state \<Rightarrow> int \<Rightarrow> (int \<times> int) list \<Rightarrow> int list \<Rightarrow> 'a cpx list \<Rightarrow> nat \<Rightarrow> 'a cpx list option" where
  "stage_at A st mm fs ss fout i =
     fft_stage A st (fst (fs ! i)) (snd (fs ! i)) (if i \<noteq> 0 then snd (fs ! (i - 1)) else mm) (ss ! i) fout"

lemma stages_ref:
  assumes sh: "sh = nat (if ff_shift st > 0 then ff_shift st else 0)"
  shows "plan_ok n fs \<Longrightarrow> fs \<noteq> [] \<Longrightarrow> l + length fs \<le> 7 \<Longrightarrow> strides l (int s) (code_plan fs) = Some ss \<Longrightarrow>
    length fout = s * n \<Longrightarrow> 0 < s \<Longrightarrow> s = 1 \<or> mm = n \<Longrightarrow> s * n * 2 ^ sh \<le> length (ff_twiddles st) \<Longrightarrow>
    opt_foldl (stage_at A st (int mm) (code_plan fs) ss) fout (rev [0 ..< length ss]) = Some (run_stages A st s mm fs fout)"
proof (induction fs arbitrary: n l s ss mm)
  case (Cons pm fs)
  obtain p m where pm: "pm = (p, m)" by (cases pm)
  have n: "n = p * m" and r: "radix_ok p m" and plan: "plan_ok m fs" using Cons.prems(1) by (simp_all add: pm)
  have p: "0 < p" using r by (auto simp: radix_ok_def)
  define F where "F = run_stages A st (s * p) m fs fout"
  have lF: "length F = s * (p * m)"
    using run_stages_length [OF plan, of "s * p" m fout A st] Cons.prems(5) by (simp add: n F_def mult.assoc)
  obtain ss' where ss: "ss = int s # ss'" "opt_foldl (stage_at A st (int m) (code_plan fs) ss') fout (rev [0 ..< length ss']) = Some F"
  proof (cases "m = 1")
    case True
    then have e: "fs = []" using plan_ok_1 plan by simp
    show thesis by (rule that [of "[]"]) (use Cons.prems(3,4) True e in \<open>simp_all add: pm F_def\<close>)
  next
    case False
    then have ne: "fs \<noteq> []" using plan by auto
    obtain ss' where ss': "strides (l + 1) (int (s * p)) (code_plan fs) = Some ss'" "ss = int s # ss'"
      using Cons.prems(3,4) False by (auto simp: pm)
    have "opt_foldl (stage_at A st (int m) (code_plan fs) ss') fout (rev [0 ..< length ss']) = Some F" unfolding F_def
      by (rule Cons.IH [OF plan ne _ ss'(1)]) (use Cons.prems(3,5,6,8) p n in \<open>simp_all add: mult.assoc\<close>)
    then show thesis by (rule that [OF ss'(2)])
  qed
  have u: "rev [0 ..< length ss] = map Suc (rev [0 ..< length ss']) @ [0]"
    by (simp add: ss(1) upt_conv_Cons rev_map [symmetric] map_Suc_upt del: upt_Suc)
  have later: "stage_at A st (int mm) (code_plan (pm # fs)) ss f (Suc i) = stage_at A st (int m) (code_plan fs) ss' f i" for f i
    by (cases i) (simp_all add: stage_at_def pm ss(1))
  have "stage_at A st (int mm) (code_plan (pm # fs)) ss F 0 = Some (ref_stage A st p m mm s F)"
    using fft_stage_ref [OF r _ lF Cons.prems(6) sh, where mm = mm and A = A] Cons.prems(7,8) n
    by (simp add: stage_at_def pm ss(1) mult.assoc)
  then show ?case
    unfolding u opt_foldl_append opt_foldl_map later ss(2) by (simp add: pm F_def)
qed simp

text \<open>A state whose factors, table and twiddle factors are those of a length.\<close>

definition plan_of :: "'a fft_state \<Rightarrow> (nat \<times> nat) list" where
  "plan_of st = map (\<lambda>(p, m). (nat p, nat m)) (ff_factors st)"

lemma plan_of_code: "ff_factors st = code_plan fs \<Longrightarrow> plan_of st = fs"
  by (simp add: plan_of_def code_plan_def comp_def case_prod_beta)

definition fft_tables :: "'a fft_state \<Rightarrow> bool" where
  "fft_tables st \<longleftrightarrow> ff_factors st = code_plan (plan_of st) \<and> plan_ok (ff_nfft st) (plan_of st) \<and> plan_of st \<noteq> [] \<and>
     length (plan_of st) \<le> 7 \<and> length (ff_bitrev st) = ff_nfft st \<and>
     (\<forall>t<ff_nfft st. ff_bitrev st ! input_of (plan_of st) t = Some (int t)) \<and>
     ff_nfft st * 2 ^ nat (if ff_shift st > 0 then ff_shift st else 0) \<le> length (ff_twiddles st)"

lemma bitrev_table_plan:
  assumes "plan_ok n fs" "fs \<noteq> []" "n \<le> 32768"
  obtains table where "compute_bitrev_table 0 0 1 1 (code_plan fs) (replicate n None) = Some table" "length table = n"
    "\<And>t. t < n \<Longrightarrow> table ! input_of fs t = Some (int t)"
proof -
  have n: "0 < n" using plan_ok_pos assms(1) .
  have "written 0 0 1 (input_of fs) n (replicate n None) (ref_bitrev 0 0 1 1 fs (replicate n None))"
    using assms n by (intro ref_bitrev_written) simp_all
  moreover have "compute_bitrev_table (int 0) 0 1 1 (code_plan fs) (replicate n None) = Some (ref_bitrev 0 0 1 1 fs (replicate n None))"
    using assms n by (intro compute_bitrev_table_ref) simp_all
  ultimately show thesis using that by (auto simp: written_def)
qed

lemma bitrev_copy_plan:
  fixes fout :: "'a cpx list"
  assumes st: "fft_tables st" and len: "length fout = ff_nfft st"
  shows "bitrev_copy st x fout = Some (map (\<lambda>t. x (input_of (plan_of st) t)) [0 ..< ff_nfft st])"
proof -
  let ?n = "ff_nfft st" and ?fs = "plan_of st"
  have pl: "plan_ok ?n ?fs" and lb: "length (ff_bitrev st) = ?n" and B: "\<And>t. t < ?n \<Longrightarrow> ff_bitrev st ! input_of ?fs t = Some (int t)"
    using st by (simp_all add: fft_tables_def)
  define h where "h i = nat (the (ff_bitrev st ! i))" for i
  have h: "ff_bitrev st ! i = Some (int (h i))" "h i < ?n" "input_of ?fs (h i) = i" if i: "i < ?n" for i
  proof -
    obtain t where t: "t < ?n" "input_of ?fs t = i" using input_of_surj [OF pl i] by blast
    then show "ff_bitrev st ! i = Some (int (h i))" "h i < ?n" "input_of ?fs (h i) = i" using B [OF t(1)] by (simp_all add: h_def)
  qed
  have hi: "h (input_of ?fs t) = t" if "t < ?n" for t using B [OF that] by (simp add: h_def)
  define F where "F = foldl (\<lambda>f i. f[h i := x i]) fout [0 ..< ?n]"
  have "bitrev_copy st x fout = Some F"
  proof -
    have "opt_foldl (\<lambda>f i. do { e \<leftarrow> rd (ff_bitrev st) (int i); k \<leftarrow> e; wr f k (x i) }) fout [0 ..< ?n] = Some F \<and> length F = ?n"
      unfolding F_def
    proof (rule opt_foldl_Some [where I = "\<lambda>f. length f = ?n"])
      fix i and f :: "'a cpx list"
      assume "i \<in> set [0 ..< ?n]" "length f = ?n"
      then show "do { e \<leftarrow> rd (ff_bitrev st) (int i); k \<leftarrow> e; wr f k (x i) } = Some (f[h i := x i]) \<and> length (f[h i := x i]) = ?n"
        using h(1,2) [of i] lb by simp
    qed (rule len)
    then show ?thesis by (simp add: bitrev_copy_def)
  qed
  moreover have "F = map (\<lambda>t. x (input_of ?fs t)) [0 ..< ?n]"
  proof (rule nth_equalityI)
    have inj: "k = k'" if "k < ?n" "k' < ?n" "h k = h k'" for k k' using that h(3) by metis
    have lt: "h k < length fout" if "k < ?n" for k using h(2) [OF that] len by simp
    note U = foldl_update_nth [where h = h and v = x, OF inj lt]
    show lF: "length F = length (map (\<lambda>t. x (input_of ?fs t)) [0 ..< ?n])" by (simp add: F_def foldl_update_length len)
    fix t assume "t < length F"
    then have t: "t < ?n" using lF by simp
    have "F ! h (input_of ?fs t) = x (input_of ?fs t)" unfolding F_def by (rule U(2)) (use input_of_less [OF pl t] in simp_all)
    then show "F ! t = map (\<lambda>t. x (input_of ?fs t)) [0 ..< ?n] ! t" using hi [OF t] t by simp
  qed
  ultimately show ?thesis by simp
qed

lemma opus_fft_impl_plan:
  assumes st: "fft_tables st" and len: "length fout = ff_nfft st"
  shows "opus_fft_impl A st fout = Some (run_stages A st 1 1 (plan_of st) fout)"
proof -
  have t: "ff_factors st = code_plan (plan_of st)" "plan_ok (ff_nfft st) (plan_of st)" "plan_of st \<noteq> []" "length (plan_of st) \<le> 7"
    "ff_nfft st * 2 ^ nat (if ff_shift st > 0 then ff_shift st else 0) \<le> length (ff_twiddles st)"
    using st unfolding fft_tables_def by blast+
  obtain ss where ss: "strides 0 (int 1) (code_plan (plan_of st)) = Some ss" using strides_plan [OF t(2,3), of 0 1] t(4) by auto
  have "opt_foldl (stage_at A st (int 1) (code_plan (plan_of st)) ss) fout (rev [0 ..< length ss]) =
      Some (run_stages A st 1 1 (plan_of st) fout)"
    by (rule stages_ref [OF refl t(2,3) _ ss]) (use t(4,5) len in simp_all)
  then show ?thesis using ss unfolding opus_fft_impl_def t(1) [symmetric] stage_at_def of_nat_1 by (simp add: Let_def)
qed

lemma opus_fft_plan:
  assumes st: "fft_tables st" and len: "ff_nfft st \<le> length fin"
  shows "opus_fft A st fin = Some (run_stages A st 1 1 (plan_of st) (map (\<lambda>t.
    let i = input_of (plan_of st) t
    in (so_mul A (ff_scale st) (fst (fin ! i)), so_mul A (ff_scale st) (snd (fin ! i)))) [0 ..< ff_nfft st]))"
  using len by (simp add: opus_fft_def Let_def bitrev_copy_plan [OF st] opus_fft_impl_plan [OF st])

section \<open>What the transform keeps\<close>

definition fft_ok :: "'a scalar_ops \<Rightarrow> ('a \<Rightarrow> bool) \<Rightarrow> 'a fft_state \<Rightarrow> bool" where
  "fft_ok A Q st \<longleftrightarrow> fft_tables st \<and> ff_shift st \<le> 0 \<and> Q (ff_scale st) \<and>
     list_all (both Q) (ff_twiddles st) \<and> length (ff_twiddles st) = ff_nfft st"

lemma opus_fft_ex:
  assumes c: "ops_closed A Q" and st: "fft_ok A Q st" and x: "list_all (both Q) x" "length x = ff_nfft st"
  obtains y where "opus_fft A st x = Some y" "list_all (both Q) y" "length y = ff_nfft st"
proof -
  let ?n = "ff_nfft st" and ?fs = "plan_of st"
  define F where "F = map (\<lambda>t. let i = input_of ?fs t in (so_mul A (ff_scale st) (fst (x ! i)), so_mul A (ff_scale st) (snd (x ! i)))) [0 ..< ?n]"
  have T: "fft_tables st" "Q (ff_scale st)" "plan_ok ?n ?fs" using st by (simp_all add: fft_ok_def fft_tables_def)
  have "both Q (so_mul A (ff_scale st) (fst (x ! i)), so_mul A (ff_scale st) (snd (x ! i)))" if "i < ?n" for i
    using x that T(2) by (auto simp: list_all_length both_def ops_closed_ops [OF c])
  then have F: "list_all (both Q) F" "length F = ?n" using input_of_less [OF T(3)] by (simp_all add: F_def list_all_length Let_def)
  have "list_all (both Q) (run_stages A st 1 1 ?fs F) \<and> length (run_stages A st 1 1 ?fs F) = 1 * ?n"
    using st F T(3) by (intro run_stages_keeps [OF c]) (simp_all add: fft_ok_def)
  moreover have "opus_fft A st x = Some (run_stages A st 1 1 ?fs F)"
    using opus_fft_plan [OF T(1), of x A] x by (simp add: F_def)
  ultimately show thesis using that by simp
qed

end
