(* ===== verification/KissDft.thy ===== *)
theory KissDft
  imports KissTable Complex_Main
begin

text \<open>
  The transform over the real numbers is the discrete Fourier transform. The code is the one of
  \<open>KissFft\<close>, with the exact operations in place of the floating-point ones: what is shown is
  that the plan, the table of positions, the twiddle factors and the ref_butterflies of radix 2 to
  5 compute the defining sum.
\<close>

definition real_ops :: "real scalar_ops" where
  "real_ops = \<lparr>so_add = (+), so_sub = (-), so_mul = (*), so_neg = uminus, so_half = (\<lambda>x. x / 2),
     so_sqrt_half = sqrt (1 / 2), so_zero = 0\<rparr>"

lemma real_ops_simps [simp]:
  "so_add real_ops = (+)" "so_sub real_ops = (-)" "so_mul real_ops = (*)" "so_neg real_ops = uminus"
  "so_half real_ops = (\<lambda>x. x / 2)" "so_sqrt_half real_ops = sqrt (1 / 2)" "so_zero real_ops = 0"
  by (simp_all add: real_ops_def)

definition cx :: "real cpx \<Rightarrow> complex" where
  "cx a = Complex (fst a) (snd a)"

lemma cx_ops [simp]:
  "cx (C_MUL real_ops a b) = cx a * cx b" "cx (C_ADD real_ops a b) = cx a + cx b" "cx (C_SUB real_ops a b) = cx a - cx b"
  "cx (C_MULBYSCALAR real_ops a s) = of_real s * cx a"
  by (simp_all add: cx_def C_MUL_def C_ADD_def C_SUB_def C_MULBYSCALAR_def complex_eq_iff algebra_simps)

lemma Re_cx [simp]: "Re (cx a) = fst a" and Im_cx [simp]: "Im (cx a) = snd a"
  by (simp_all add: cx_def)

section \<open>Roots of unity\<close>

definition unit_root :: "nat \<Rightarrow> nat \<Rightarrow> complex" where
  "unit_root n k = cis (- (2 * pi) * (real k / real n))"

lemma root_0 [simp]: "unit_root n 0 = 1"
  by (simp add: unit_root_def)

lemma root_add: "unit_root n (a + b) = unit_root n a * unit_root n b"
  by (simp add: unit_root_def cis_mult add_divide_distrib distrib_left)

lemma root_scale: "0 < p \<Longrightarrow> unit_root (p * n) (p * k) = unit_root n k"
  by (simp add: unit_root_def)

lemma root_full: "0 < n \<Longrightarrow> unit_root n (n * k) = 1"
proof -
  assume "0 < n"
  then have "unit_root n (n * k) = cis (2 * pi * (- real k))" by (simp add: unit_root_def)
  also have "\<dots> = cis (2 * pi * of_int (- int k))" by simp
  also have "\<dots> = 1" by (simp only: cis_multiple_2pi Ints_of_int)
  finally show ?thesis .
qed

lemma root_mod: "0 < n \<Longrightarrow> unit_root n (a mod n) = unit_root n a"
proof -
  assume n: "0 < n"
  have "unit_root n a = unit_root n (n * (a div n) + a mod n)" by simp
  also have "\<dots> = unit_root n (a mod n)" unfolding root_add root_full [OF n] by simp
  finally show ?thesis ..
qed

section \<open>Butterflies\<close>

text \<open>What a butterfly of radix \<open>p\<close> at place \<open>u\<close> of \<open>m\<close> has to compute.\<close>

definition bfly_spec :: "nat \<Rightarrow> nat \<Rightarrow> nat \<Rightarrow> real cpx list \<Rightarrow> nat \<Rightarrow> complex" where
  "bfly_spec p m u f k = (\<Sum>j<p. unit_root (p * m) (j * u) * unit_root p (j * k) * cx (f ! j))"

lemma sum3: "(\<Sum>j<3::nat. g j) = g 0 + g 1 + (g 2 :: complex)" and sum4: "(\<Sum>j<4::nat. g j) = g 0 + g 1 + g 2 + (g 3 :: complex)"
  and sum5: "(\<Sum>j<5::nat. g j) = g 0 + g 1 + g 2 + g 3 + (g 4 :: complex)" and sum2: "(\<Sum>j<2::nat. g j) = g 0 + (g 1 :: complex)"
  by (simp_all add: eval_nat_numeral)

lemma root_2: "unit_root 2 1 = -1"
  by (simp add: unit_root_def complex_eq_iff)

lemma root_4: "unit_root 4 1 = - \<i>" "unit_root 4 2 = - 1" "unit_root 4 3 = \<i>"
proof -
  have a: "unit_root 4 1 = - \<i>" by (simp add: unit_root_def complex_eq_iff cos_pi_half)
  show "unit_root 4 1 = - \<i>" by fact
  show b: "unit_root 4 2 = - 1" using root_add [of 4 1 1] a by (simp add: numeral_2_eq_2)
  show "unit_root 4 3 = \<i>" using root_add [of 4 1 2] a b by (simp add: eval_nat_numeral)
qed

lemma root_cnj: "0 < n \<Longrightarrow> a + b = n \<Longrightarrow> unit_root n b = cnj (unit_root n a)"
proof -
  assume n: "0 < n" "a + b = n"
  have "unit_root n a * unit_root n b = 1" using root_add [of n a b] root_full [of n 1] n by simp
  moreover have "unit_root n a * cnj (unit_root n a) = 1" by (simp add: unit_root_def cis_cnj cis_mult)
  moreover have "unit_root n a \<noteq> 0" by (simp add: unit_root_def)
  ultimately show ?thesis by (metis mult_left_cancel)
qed

lemma root_3: "Re (unit_root 3 1) = - 1 / 2"
  by (simp add: unit_root_def cos_120)

lemma nat_below_2: "k < 2 \<Longrightarrow> k = 0 \<or> k = (1 :: nat)" and nat_below_3: "k < 3 \<Longrightarrow> k = 0 \<or> k = 1 \<or> k = (2 :: nat)"
  and nat_below_4: "k < 4 \<Longrightarrow> k = 0 \<or> k = 1 \<or> k = 2 \<or> k = (3 :: nat)"
  and nat_below_5: "k < 5 \<Longrightarrow> k = 0 \<or> k = 1 \<or> k = 2 \<or> k = 3 \<or> k = (4 :: nat)"
  by auto

lemma root_reduce: "0 < n \<Longrightarrow> unit_root n (n + a) = unit_root n a"
  using root_add [of n n a] root_full [of n 1] by simp

lemma roots_4: "unit_root 4 (Suc 0) = - \<i>" "unit_root 4 2 = - 1" "unit_root 4 3 = \<i>" "unit_root 4 4 = 1"
  "unit_root 4 6 = - 1" "unit_root 4 9 = - \<i>" "unit_root 4 (Suc (Suc 0)) = - 1"
  using root_4 root_reduce [of 4 0] root_reduce [of 4 2] root_reduce [of 4 5] root_reduce [of 4 1] by (simp_all add: numeral_2_eq_2)

lemma cx_turn: "cx (fst a + snd b, snd a - fst b) = cx a - \<i> * cx b" "cx (fst a - snd b, snd a + fst b) = cx a + \<i> * cx b"
  by (simp_all add: complex_eq_iff)

lemma bfly2_spec:
  assumes "cx t = unit_root (2 * m) u * cx (f ! 1)" "k < 2"
  shows "cx ((let (a, b) = bfly2_cell real_ops (f ! 0) t in [a, b]) ! k) = bfly_spec 2 m u f k"
proof -
  have r: "unit_root 2 (Suc 0) = - 1" using root_2 by simp
  show ?thesis using nat_below_2 [OF assms(2)] assms(1)
    by (elim disjE) (simp_all add: bfly2_cell_def bfly_spec_def sum2 r)
qed

lemma bfly_lengths: "length (bfly4_cell A tw1 tw2 tw3 f) = 4" "length (bfly4_one A f) = 4"
  "length (bfly3_cell A e tw1 tw2 f) = 3" "length (bfly5_cell A ya yb tw1 tw2 tw3 tw4 f) = 5"
  by (simp_all add: bfly4_cell_def bfly4_one_def bfly3_cell_def bfly5_cell_def Let_def)

lemma bfly4_spec:
  assumes "cx tw1 = unit_root (4 * m) u" "cx tw2 = unit_root (4 * m) (2 * u)" "cx tw3 = unit_root (4 * m) (3 * u)" "k < 4"
  shows "cx (bfly4_cell real_ops tw1 tw2 tw3 f ! k) = bfly_spec 4 m u f k"
proof -
  define a where "a = cx (f ! 0)"
  define b where "b = cx (f ! 1) * unit_root (4 * m) u"
  define c where "c = cx (f ! 2) * unit_root (4 * m) (2 * u)"
  define d where "d = cx (f ! 3) * unit_root (4 * m) (3 * u)"
  have spec: "bfly_spec 4 m u f k = a + b * unit_root 4 k + c * unit_root 4 (2 * k) + d * unit_root 4 (3 * k)" for k
    by (simp add: bfly_spec_def sum4 a_def b_def c_def d_def mult_ac)
  have cell: "map cx (bfly4_cell real_ops tw1 tw2 tw3 f) = [a + c + (b + d), a - c - \<i> * (b - d), a + c - (b + d), a - c + \<i> * (b - d)]"
    by (simp add: bfly4_cell_def Let_def cx_turn assms(1-3) a_def b_def c_def d_def)
  have "cx (bfly4_cell real_ops tw1 tw2 tw3 f ! k) = map cx (bfly4_cell real_ops tw1 tw2 tw3 f) ! k"
    using assms(4) by (simp only: nth_map bfly_lengths)
  then show ?thesis unfolding cell spec using nat_below_4 [OF assms(4)]
    by (elim disjE) (simp_all add: roots_4 algebra_simps)
qed

lemma bfly4_one_spec:
  assumes "k < 4"
  shows "cx (bfly4_one real_ops f ! k) = bfly_spec 4 1 0 f k"
proof -
  define a where "a = cx (f ! 0)"
  define b where "b = cx (f ! 1)"
  define c where "c = cx (f ! 2)"
  define d where "d = cx (f ! 3)"
  have spec: "bfly_spec 4 1 0 f k = a + b * unit_root 4 k + c * unit_root 4 (2 * k) + d * unit_root 4 (3 * k)" for k
    by (simp add: bfly_spec_def sum4 a_def b_def c_def d_def mult_ac)
  have cell: "map cx (bfly4_one real_ops f) = [a + c + (b + d), a - c - \<i> * (b - d), a + c - (b + d), a - c + \<i> * (b - d)]"
    by (simp add: bfly4_one_def Let_def cx_turn a_def b_def c_def d_def)
  have "cx (bfly4_one real_ops f ! k) = map cx (bfly4_one real_ops f) ! k"
    using assms by (simp only: nth_map bfly_lengths)
  then show ?thesis unfolding cell spec using nat_below_4 [OF assms]
    by (elim disjE) (simp_all add: roots_4 algebra_simps)
qed

lemma bfly3_spec:
  assumes "cx epi3 = unit_root 3 1" "cx tw1 = unit_root (3 * m) u" "cx tw2 = unit_root (3 * m) (2 * u)" "k < 3"
  shows "cx (bfly3_cell real_ops epi3 tw1 tw2 f ! k) = bfly_spec 3 m u f k"
proof -
  define a where "a = cx (f ! 0)"
  define b where "b = cx (f ! 1) * unit_root (3 * m) u"
  define c where "c = cx (f ! 2) * unit_root (3 * m) (2 * u)"
  define w where "w = unit_root 3 1"
  define v where "v = Im w"
  have spec: "bfly_spec 3 m u f k = a + b * unit_root 3 k + c * unit_root 3 (2 * k)" for k
    by (simp add: bfly_spec_def sum3 a_def b_def c_def mult_ac)
  have e: "snd epi3 = v" using assms(1) by (metis Im_cx w_def v_def)
  have pair: "cx (fst x - fst y / 2 - v * snd z, snd x - snd y / 2 + v * fst z) = cx x - cx y / 2 + \<i> * of_real v * cx z"
    "cx (fst x - fst y / 2 + v * snd z, snd x - snd y / 2 - v * fst z) = cx x - cx y / 2 - \<i> * of_real v * cx z" for x y z
    by (simp_all add: complex_eq_iff)
  define B where "B = C_MUL real_ops (f ! 1) tw1"
  define C where "C = C_MUL real_ops (f ! 2) tw2"
  have BC: "cx B = b" "cx C = c" by (simp_all add: B_def C_def assms b_def c_def)
  have cell: "map cx (bfly3_cell real_ops epi3 tw1 tw2 f) =
      [a + (b + c), a - (b + c) / 2 + \<i> * of_real v * (b - c), a - (b + c) / 2 - \<i> * of_real v * (b - c)]"
    unfolding bfly3_cell_def Let_def B_def [symmetric] C_def [symmetric] e
    by (simp add: C_MULBYSCALAR_def mult.commute [of _ v] pair BC a_def)
  have w: "w = - 1 / 2 + \<i> * of_real v" using root_3 by (simp add: complex_eq_iff w_def v_def)
  have w2: "unit_root 3 2 = - 1 / 2 - \<i> * of_real v"
  proof -
    have "unit_root 3 2 = cnj w" unfolding w_def by (rule root_cnj) simp_all
    moreover have "Re w = - 1 / 2" unfolding w_def by (rule root_3)
    ultimately show ?thesis by (simp add: complex_eq_iff v_def)
  qed
  have r: "unit_root 3 (Suc 0) = - 1 / 2 + \<i> * of_real v" "unit_root 3 4 = - 1 / 2 + \<i> * of_real v"
    "unit_root 3 (Suc (Suc 0)) = unit_root 3 2"
    using root_reduce [of 3 1] w by (simp_all add: w_def numeral_2_eq_2)
  have "cx (bfly3_cell real_ops epi3 tw1 tw2 f ! k) = map cx (bfly3_cell real_ops epi3 tw1 tw2 f) ! k"
    using assms(4) by (simp only: nth_map bfly_lengths)
  then show ?thesis unfolding cell spec using nat_below_3 [OF assms(4)]
    by (elim disjE) (simp_all add: r w2 algebra_simps add_divide_distrib)
qed

text \<open>Radix 5: the two pairs of conjugate roots.\<close>

lemma bfly5_core:
  fixes x0 x1 x2 x3 x4 ya yb :: "real cpx"
  defines "s7 \<equiv> C_ADD real_ops x1 x4" and "s10 \<equiv> C_SUB real_ops x1 x4" and "s8 \<equiv> C_ADD real_ops x2 x3" and "s9 \<equiv> C_SUB real_ops x2 x3"
  shows "cx (C_SUB real_ops
      (fst x0 + (fst s7 * fst ya + fst s8 * fst yb), snd x0 + (snd s7 * fst ya + snd s8 * fst yb))
      (snd s10 * snd ya + snd s9 * snd yb, - (fst s10 * snd ya + fst s9 * snd yb)))
    = cx x0 + cx x1 * cx ya + cx x2 * cx yb + cx x3 * cnj (cx yb) + cx x4 * cnj (cx ya)"
    "cx (C_ADD real_ops
      (fst x0 + (fst s7 * fst ya + fst s8 * fst yb), snd x0 + (snd s7 * fst ya + snd s8 * fst yb))
      (snd s10 * snd ya + snd s9 * snd yb, - (fst s10 * snd ya + fst s9 * snd yb)))
    = cx x0 + cx x1 * cnj (cx ya) + cx x2 * cnj (cx yb) + cx x3 * cx yb + cx x4 * cx ya"
    "cx (C_ADD real_ops
      (fst x0 + (fst s7 * fst yb + fst s8 * fst ya), snd x0 + (snd s7 * fst yb + snd s8 * fst ya))
      (snd s9 * snd ya - snd s10 * snd yb, fst s10 * snd yb - fst s9 * snd ya))
    = cx x0 + cx x1 * cx yb + cx x2 * cnj (cx ya) + cx x3 * cx ya + cx x4 * cnj (cx yb)"
    "cx (C_SUB real_ops
      (fst x0 + (fst s7 * fst yb + fst s8 * fst ya), snd x0 + (snd s7 * fst yb + snd s8 * fst ya))
      (snd s9 * snd ya - snd s10 * snd yb, fst s10 * snd yb - fst s9 * snd ya))
    = cx x0 + cx x1 * cnj (cx yb) + cx x2 * cx ya + cx x3 * cnj (cx ya) + cx x4 * cx yb"
  unfolding s7_def s8_def s9_def s10_def
  by (simp_all add: complex_eq_iff C_ADD_def C_SUB_def algebra_simps)

lemma bfly5_spec:
  assumes "cx ya = unit_root 5 1" "cx yb = unit_root 5 2" "cx tw1 = unit_root (5 * m) u" "cx tw2 = unit_root (5 * m) (2 * u)"
    "cx tw3 = unit_root (5 * m) (3 * u)" "cx tw4 = unit_root (5 * m) (4 * u)" "k < 5"
  shows "cx (bfly5_cell real_ops ya yb tw1 tw2 tw3 tw4 f ! k) = bfly_spec 5 m u f k"
proof -
  define x1 where "x1 = C_MUL real_ops (f ! 1) tw1"
  define x2 where "x2 = C_MUL real_ops (f ! 2) tw2"
  define x3 where "x3 = C_MUL real_ops (f ! 3) tw3"
  define x4 where "x4 = C_MUL real_ops (f ! 4) tw4"
  define a where "a = cx (f ! 0)"
  define w where "w = unit_root 5 1"
  define v where "v = unit_root 5 2"
  have spec: "bfly_spec 5 m u f k = a + cx x1 * unit_root 5 k + cx x2 * unit_root 5 (2 * k) + cx x3 * unit_root 5 (3 * k) + cx x4 * unit_root 5 (4 * k)" for k
    by (simp add: bfly_spec_def sum5 a_def x1_def x2_def x3_def x4_def assms mult_ac)
  have cell: "map cx (bfly5_cell real_ops ya yb tw1 tw2 tw3 tw4 f) =
      [a + (cx x1 + cx x4 + (cx x2 + cx x3)),
       a + cx x1 * w + cx x2 * v + cx x3 * cnj v + cx x4 * cnj w,
       a + cx x1 * v + cx x2 * cnj w + cx x3 * w + cx x4 * cnj v,
       a + cx x1 * cnj v + cx x2 * w + cx x3 * cnj w + cx x4 * v,
       a + cx x1 * cnj w + cx x2 * cnj v + cx x3 * v + cx x4 * w]"
    unfolding bfly5_cell_def Let_def x1_def [symmetric] x2_def [symmetric] x3_def [symmetric] x4_def [symmetric] list.map real_ops_simps
      bfly5_core assms(1,2) a_def w_def [symmetric] v_def [symmetric]
    by (simp add: complex_eq_iff C_ADD_def)
  have c: "unit_root 5 3 = cnj v" "unit_root 5 4 = cnj w"
    unfolding w_def v_def by (rule root_cnj; simp)+
  have r: "unit_root 5 (Suc 0) = w" "unit_root 5 (Suc (Suc 0)) = v" "unit_root 5 2 = v" "unit_root 5 6 = w" "unit_root 5 8 = cnj v"
    "unit_root 5 9 = cnj w" "unit_root 5 12 = v" "unit_root 5 16 = w"
    using root_reduce [of 5 1] root_reduce [of 5 3] root_reduce [of 5 4] root_reduce [of 5 7] root_reduce [of 5 2]
      root_reduce [of 5 11] root_reduce [of 5 6] c
    by (simp_all add: w_def v_def numeral_2_eq_2)
  have "cx (bfly5_cell real_ops ya yb tw1 tw2 tw3 tw4 f ! k) = map cx (bfly5_cell real_ops ya yb tw1 tw2 tw3 tw4 f) ! k"
    using assms(7) by (simp only: nth_map bfly_lengths)
  then show ?thesis unfolding cell spec using nat_below_5 [OF assms(7)]
    by (elim disjE) (simp_all add: r c)
qed

section \<open>Stages\<close>

definition twiddles_ok :: "real fft_state \<Rightarrow> bool" where
  "twiddles_ok st \<longleftrightarrow>
     (\<forall>k<ff_nfft st. cx (ff_twiddles st ! (k * 2 ^ nat (if ff_shift st > 0 then ff_shift st else 0))) = unit_root (ff_nfft st) k)"

lemma root_8: "unit_root 8 1 = of_real (sqrt (1 / 2)) * (1 - \<i>)" "unit_root 8 2 = - \<i>" "unit_root 8 3 = of_real (sqrt (1 / 2)) * (- 1 - \<i>)"
proof -
  have h: "sqrt 2 / 2 = sqrt (1 / 2)" by (simp add: real_sqrt_divide real_div_sqrt field_simps)
  show a: "unit_root 8 1 = of_real (sqrt (1 / 2)) * (1 - \<i>)"
    using cos_45 sin_45 h by (simp add: unit_root_def complex_eq_iff)
  show b: "unit_root 8 2 = - \<i>" using root_scale [of 2 4 1] root_4(1) by simp
  show "unit_root 8 3 = of_real (sqrt (1 / 2)) * (- 1 - \<i>)"
  proof -
    have "unit_root 8 3 = unit_root 8 (1 + 2)" by (simp add: numeral_3_eq_3)
    also have "\<dots> = of_real (sqrt (1 / 2)) * (1 - \<i>) * (- \<i>)" unfolding root_add a b ..
    also have "\<dots> = of_real (sqrt (1 / 2)) * (- 1 - \<i>)" by (simp add: algebra_simps)
    finally show ?thesis .
  qed
qed

text \<open>The turn of radix 2 by an eighth of the circle at a time.\<close>

lemma eighth_turn:
  assumes "u < 4"
  shows "cx (if u = 0 then x
     else if u = 1 then ((fst x + snd x) * sqrt (1 / 2), (snd x - fst x) * sqrt (1 / 2))
     else if u = 2 then (snd x, - fst x)
     else ((snd x - fst x) * sqrt (1 / 2), - (snd x + fst x) * sqrt (1 / 2))) = unit_root 8 u * cx x"
  using nat_below_4 [OF assms] root_8
  by (elim disjE) (simp_all add: complex_eq_iff algebra_simps)

lemma stage_nth:
  assumes st: "twiddles_ok st" and n: "ff_nfft st = N * (p * m)" and r: "radix_ok p m"
    and mm: "N = 1 \<or> mm = p * m" and len: "N * (p * m) = length fout"
  shows "length (ref_stage real_ops st p m mm N fout) = length fout"
    and "i < N \<Longrightarrow> u < m \<Longrightarrow> k < p \<Longrightarrow>
      cx (ref_stage real_ops st p m mm N fout ! (i * (p * m) + u + k * m)) = bfly_spec p m u (cells p m (i * (p * m) + u) fout) k"
proof -
  define sh where "sh = nat (if ff_shift st > 0 then ff_shift st else 0)"
  have m: "0 < m" "0 < p" using r by (auto simp: radix_ok_def)
  have tw: "cx (ff_twiddles st ! (j * u * (N * 2 ^ sh))) = unit_root (p * m) (j * u)" if "u < m" "j < p" "0 < N" for j u
  proof -
    have "j * u < p * m" using that m mult_strict_mono [of j p u m] by (cases "u = 0") simp_all
    then have "N * (j * u) < ff_nfft st" using that n by simp
    then have "cx (ff_twiddles st ! (N * (j * u) * 2 ^ sh)) = unit_root (N * (p * m)) (N * (j * u))"
      using st n by (simp add: twiddles_ok_def sh_def)
    also have "\<dots> = unit_root (p * m) (j * u)" using that by (intro root_scale)
    finally show ?thesis by (simp add: ac_simps)
  qed
  have tw_m: "cx (ff_twiddles st ! (N * 2 ^ sh * (j * m))) = unit_root p j" if "j < p" "0 < N" for j
  proof -
    have "N * (j * m) < ff_nfft st" using that m n by simp
    then have "cx (ff_twiddles st ! (N * (j * m) * 2 ^ sh)) = unit_root (N * (p * m)) (N * (j * m))"
      using st n by (simp add: twiddles_ok_def sh_def)
    also have "\<dots> = unit_root (m * p) (m * j)" using that by (simp add: root_scale mult.commute)
    also have "\<dots> = unit_root p j" using m by (intro root_scale)
    finally show ?thesis by (simp add: ac_simps)
  qed
  have stage: "\<exists>g q. ref_stage real_ops st p m mm N fout = ref_butterflies p m N q g fout \<and> (N = 1 \<or> q = p * m) \<and>
      (\<forall>f u k. u < m \<longrightarrow> k < p \<longrightarrow> 0 < N \<longrightarrow> cx (g u f ! k) = bfly_spec p m u f k)"
    using r unfolding radix_ok_def
  proof (elim conjE disjE)
    assume p: "p = 3"
    show ?thesis
      by (rule exI [of _ "\<lambda>u. bfly3_cell real_ops (ff_twiddles st ! (N * 2 ^ sh * m)) (ff_twiddles st ! (u * (N * 2 ^ sh)))
            (ff_twiddles st ! (u * (N * 2 ^ sh * 2)))"], rule exI [of _ mm])
        (use p mm tw [where j = 1] tw [where j = 2] tw_m [of 1] in
          \<open>auto simp: ref_stage_def ref_bfly3_def Let_def sh_def [symmetric] ac_simps intro!: bfly3_spec\<close>)
  next
    assume p: "p = 4"
    show ?thesis
    proof (cases "m = 1")
      case True
      then show ?thesis using p
        by (intro exI [of _ "\<lambda>u. bfly4_one real_ops"] exI [of _ 4])
          (auto simp: ref_stage_def ref_bfly4_def Let_def intro!: bfly4_one_spec [unfolded One_nat_def])
    next
      case False
      then show ?thesis
        by (intro exI [of _ "\<lambda>u. bfly4_cell real_ops (ff_twiddles st ! (u * (N * 2 ^ sh))) (ff_twiddles st ! (u * (N * 2 ^ sh * 2)))
              (ff_twiddles st ! (u * (N * 2 ^ sh * 3)))"] exI [of _ mm])
          (use p mm tw [where j = 1] tw [where j = 2] tw [where j = 3] in
            \<open>auto simp: ref_stage_def ref_bfly4_def Let_def sh_def [symmetric] ac_simps intro!: bfly4_spec\<close>)
    qed
  next
    assume p: "p = 5"
    show ?thesis
      by (intro exI [of _ "\<lambda>u. bfly5_cell real_ops (ff_twiddles st ! (N * 2 ^ sh * m)) (ff_twiddles st ! (N * 2 ^ sh * 2 * m))
            (ff_twiddles st ! (u * (N * 2 ^ sh))) (ff_twiddles st ! (2 * u * (N * 2 ^ sh))) (ff_twiddles st ! (3 * u * (N * 2 ^ sh)))
            (ff_twiddles st ! (4 * u * (N * 2 ^ sh)))"] exI [of _ mm])
        (use p mm tw [where j = 1] tw [where j = 2] tw [where j = 3] tw [where j = 4] tw_m [of 1] tw_m [of 2] in
          \<open>auto simp: ref_stage_def ref_bfly5_def Let_def sh_def [symmetric] ac_simps intro!: bfly5_spec\<close>)
  next
    assume p: "p = 2" "m = 1"
    have "cx ((let (a, b) = bfly2_cell real_ops (f ! 0) (f ! 1) in [a, b]) ! k) = bfly_spec 2 1 0 f k" if "k < 2" for f k
      by (rule bfly2_spec) (use that in simp_all)
    then show ?thesis
      by (intro exI [of _ "\<lambda>u f. let (a, b) = bfly2_cell real_ops (f ! 0) (f ! 1) in [a, b]"] exI [of _ 2])
        (use p in \<open>auto simp: ref_stage_def ref_bfly2_def\<close>)
  next
    assume p: "p = 2" "m = 4"
    define t where "t u x = (if u = 0 then x
     else if u = 1 then ((fst x + snd x) * sqrt (1 / 2), (snd x - fst x) * sqrt (1 / 2))
     else if u = 2 then (snd x, - fst x)
     else ((snd x - fst x) * sqrt (1 / 2), - (snd x + fst x) * sqrt (1 / 2)))" for u :: nat and x :: "real cpx"
    have t: "cx (t u x) = unit_root (2 * 4) u * cx x" if "u < 4" for u x
      using eighth_turn [OF that, of x] by (simp add: t_def)
    define g where "g u f = (let (a, b) = bfly2_cell real_ops (f ! 0) (t u (f ! 1)) in [a, b])" for u f
    have "cx (g u f ! k) = bfly_spec 2 4 u f k" if "u < 4" "k < 2" for u f k
      unfolding g_def by (rule bfly2_spec [OF t that(2)]) (rule that(1))
    moreover have "ref_stage real_ops st p m mm N fout = ref_butterflies 2 4 N 8 g fout"
      unfolding p ref_stage_def ref_bfly2_def g_def t_def Let_def real_ops_simps by simp
    ultimately show ?thesis using p by (intro exI [of _ g] exI [of _ 8]) simp
  qed
  then obtain g q where g: "ref_stage real_ops st p m mm N fout = ref_butterflies p m N q g fout" "N = 1 \<or> q = p * m"
    "\<And>f u k. u < m \<Longrightarrow> k < p \<Longrightarrow> 0 < N \<Longrightarrow> cx (g u f ! k) = bfly_spec p m u f k" by blast
  show "length (ref_stage real_ops st p m mm N fout) = length fout"
    unfolding g(1) by (rule ref_butterflies_nth(1) [OF m(1) g(2)]) (simp add: len)
  assume a: "i < N" "u < m" "k < p"
  have "ref_stage real_ops st p m mm N fout ! (i * (p * m) + u + k * m) = g u (cells p m (i * (p * m) + u) fout) ! k"
    unfolding g(1) by (rule ref_butterflies_nth(2) [OF m(1) g(2) _ a]) (simp add: len)
  then show "cx (ref_stage real_ops st p m mm N fout ! (i * (p * m) + u + k * m)) = bfly_spec p m u (cells p m (i * (p * m) + u) fout) k"
    using g(3) a by simp
qed

section \<open>The stages together\<close>

text \<open>The sum of the transform, split by the remainder of the input's position.\<close>

lemma dft_split:
  fixes x :: "nat \<Rightarrow> complex"
  assumes "0 < p" "0 < m"
  shows "(\<Sum>k<p * m. unit_root (p * m) ((u + q * m) * k) * x k) =
    (\<Sum>j<p. unit_root (p * m) (j * u) * unit_root p (j * q) * (\<Sum>l<m. unit_root m (u * l) * x (j + p * l)))"
proof -
  have tm: "unit_root (p * m) ((u + q * m) * (j + p * l)) = unit_root (p * m) (j * u) * unit_root p (j * q) * unit_root m (u * l)" for j l
  proof -
    have e: "(u + q * m) * (j + p * l) = j * u + m * (j * q) + (p * (u * l) + (p * m) * (q * l))" by (simp add: algebra_simps)
    have "unit_root (p * m) (m * (j * q)) = unit_root p (j * q)" using root_scale [of m p "j * q"] assms by (simp add: mult.commute)
    then show ?thesis unfolding e root_add using root_scale [of p m "u * l"] root_full [of "p * m" "q * l"] assms by simp
  qed
  define g where "g k = unit_root (p * m) ((u + q * m) * k) * x k" for k
  have group: "sum g {l * p ..< l * p + p} = (\<Sum>j<p. g (j + p * l))" for l
    using sum.shift_bounds_nat_ivl [of g 0 "l * p" p] by (simp add: atLeast0LessThan ac_simps)
  have "(\<Sum>k<p * m. g k) = (\<Sum>l<m. \<Sum>j<p. g (j + p * l))"
    using sum.nat_group [of g p m] unfolding group by (simp add: mult.commute)
  then have "(\<Sum>k<p * m. unit_root (p * m) ((u + q * m) * k) * x k) =
      (\<Sum>l<m. \<Sum>j<p. unit_root (p * m) ((u + q * m) * (j + p * l)) * x (j + p * l))"
    unfolding g_def .
  also have "\<dots> = (\<Sum>j<p. \<Sum>l<m. unit_root (p * m) ((u + q * m) * (j + p * l)) * x (j + p * l))"
    by (rule sum.swap)
  also have "\<dots> = (\<Sum>j<p. unit_root (p * m) (j * u) * unit_root p (j * q) * (\<Sum>l<m. unit_root m (u * l) * x (j + p * l)))"
    unfolding tm sum_distrib_left by (simp add: mult.assoc)
  finally show ?thesis .
qed

lemma stage_dft:
  assumes st: "twiddles_ok st" and n: "ff_nfft st = s * (p * m)" and r: "radix_ok p m" and mm: "s = 1 \<or> mm = p * m"
    and len: "length F = s * (p * m)"
    and F: "\<And>b u. b < s * p \<Longrightarrow> u < m \<Longrightarrow> cx (F ! (b * m + u)) = (\<Sum>l<m. unit_root m (u * l) * x (off (b div p) + s * (b mod p) + s * p * l))"
    and b: "b < s" "q < p * m"
  shows "cx (ref_stage real_ops st p m mm s F ! (b * (p * m) + q)) = (\<Sum>k<p * m. unit_root (p * m) (q * k) * x (off b + s * k))"
proof -
  have pm: "0 < m" "0 < p" using r by (auto simp: radix_ok_def)
  define u where "u = q mod m"
  define k where "k = q div m"
  have uk: "u < m" "k < p" "q = u + k * m" using b pm by (simp_all add: u_def k_def less_mult_imp_div_less)
  have cell: "cx (cells p m (b * (p * m) + u) F ! j) = (\<Sum>l<m. unit_root m (u * l) * x (off b + s * (j + p * l)))" if "j < p" for j
  proof -
    have e: "b * (p * m) + u + j * m = (b * p + j) * m + u" by (simp add: algebra_simps)
    have "(b + 1) * p \<le> s * p" using b by (intro mult_right_mono) simp_all
    then have lt: "b * p + j < s * p" using that by simp
    have dm: "(b * p + j) div p = b" "(b * p + j) mod p = j" using that pm by simp_all
    show ?thesis using F [OF lt uk(1)] that unfolding dm by (simp add: e algebra_simps)
  qed
  have "cx (ref_stage real_ops st p m mm s F ! (b * (p * m) + u + k * m)) = bfly_spec p m u (cells p m (b * (p * m) + u) F) k"
    by (rule stage_nth(2) [OF st n r mm _ b(1) uk(1,2)]) (simp add: len)
  also have "\<dots> = (\<Sum>j<p. unit_root (p * m) (j * u) * unit_root p (j * k) * (\<Sum>l<m. unit_root m (u * l) * x (off b + s * (j + p * l))))"
    unfolding bfly_spec_def by (rule sum.cong) (simp_all add: cell del: cells_nth)
  also have "\<dots> = (\<Sum>i<p * m. unit_root (p * m) ((u + k * m) * i) * x (off b + s * i))"
    by (rule dft_split [OF pm(2,1), symmetric])
  finally show ?thesis by (simp add: uk(3) add.assoc)
qed

lemma run_stages_dft:
  assumes "twiddles_ok st" "plan_ok n fs" "ff_nfft st = s * n" "length fout = s * n" "0 < s" "s = 1 \<or> mm = n"
    and "\<And>b t. b < s \<Longrightarrow> t < n \<Longrightarrow> cx (fout ! (b * n + t)) = x (off b + s * input_of fs t)"
  shows "length (run_stages real_ops st s mm fs fout) = length fout \<and>
    (\<forall>b < s. \<forall>q<n. cx (run_stages real_ops st s mm fs fout ! (b * n + q)) = (\<Sum>k<n. unit_root n (q * k) * x (off b + s * k)))"
  using assms(2-7)
proof (induction fs arbitrary: n s mm off)
  case Nil
  then show ?case by simp
next
  case (Cons pm fs)
  obtain p m where pm: "pm = (p, m)" by (cases pm)
  have n: "n = p * m" and r: "radix_ok p m" and plan: "plan_ok m fs" using Cons.prems(1) by (simp_all add: pm)
  have pos: "0 < m" "0 < p" using r by (auto simp: radix_ok_def)
  define F where "F = run_stages real_ops st (s * p) m fs fout"
  have leaf: "cx (fout ! (b * m + t)) = x (off (b div p) + s * (b mod p) + s * p * input_of fs t)" if "b < s * p" "t < m" for b t
  proof -
    have bd: "b div p < s" using that(1) by (simp add: less_mult_imp_div_less)
    have "b mod p < p" using pos by simp
    then have "(b mod p + 1) * m \<le> p * m" by (intro mult_right_mono) simp_all
    then have tm: "b mod p * m + t < n" using that(2) by (simp add: n)
    have "b = b div p * p + b mod p" by simp
    then have "b * m + t = (b div p * p + b mod p) * m + t" by (rule arg_cong)
    also have "\<dots> = b div p * n + (b mod p * m + t)" by (simp only: n distrib_right mult.assoc add.assoc)
    finally have e: "b * m + t = b div p * n + (b mod p * m + t)" .
    have "input_of ((p, m) # fs) (b mod p * m + t) = b mod p + p * input_of fs t" using that(2) pos by simp
    then show ?thesis unfolding e using Cons.prems(6) [OF bd tm] by (simp add: pm algebra_simps)
  qed
  have IH: "length F = length fout \<and> (\<forall>b < s * p. \<forall>q<m. cx (F ! (b * m + q)) =
      (\<Sum>k<m. unit_root m (q * k) * x (off (b div p) + s * (b mod p) + s * p * k)))"
    unfolding F_def by (rule Cons.IH) (use plan Cons.prems pos leaf n in \<open>simp_all add: mult.assoc\<close>)
  have len: "length F = s * (p * m)" using IH Cons.prems(3) n by simp
  have nf: "ff_nfft st = s * (p * m)" and mm: "s = 1 \<or> mm = p * m" using Cons.prems n by simp_all
  have "length (ref_stage real_ops st p m mm s F) = length fout"
    using stage_nth(1) [OF assms(1) nf r mm, of F] len IH by simp
  moreover have "cx (ref_stage real_ops st p m mm s F ! (b * n + q)) = (\<Sum>k<n. unit_root n (q * k) * x (off b + s * k))"
    if "b < s" "q < n" for b q
    unfolding n by (rule stage_dft [OF assms(1) nf r mm len]) (use IH that n in auto)
  ultimately show ?case by (simp add: pm F_def)
qed

section \<open>The transform\<close>

lemma opus_fft_sum:
  assumes st: "fft_tables st" "twiddles_ok st" and len: "ff_nfft st \<le> length fin"
  obtains out where "opus_fft real_ops st fin = Some out" "length out = ff_nfft st"
    "\<And>q. q < ff_nfft st \<Longrightarrow> cx (out ! q) = of_real (ff_scale st) * (\<Sum>k<ff_nfft st. unit_root (ff_nfft st) (q * k) * cx (fin ! k))"
proof -
  define n where "n = ff_nfft st"
  define y where "y i = (ff_scale st * fst (fin ! i), ff_scale st * snd (fin ! i))" for i
  define fout where "fout = map (\<lambda>t. y (input_of (plan_of st) t)) [0 ..< n]"
  have cy: "cx (y i) = of_real (ff_scale st) * cx (fin ! i)" for i by (simp add: y_def complex_eq_iff)
  have F: "length fout = n" "\<And>t. t < n \<Longrightarrow> fout ! t = y (input_of (plan_of st) t)" by (simp_all add: fout_def)
  have out: "opus_fft real_ops st fin = Some (run_stages real_ops st 1 1 (plan_of st) fout)"
    using opus_fft_plan [OF st(1) len, of real_ops] by (simp add: fout_def y_def n_def Let_def)
  have R: "length (run_stages real_ops st 1 1 (plan_of st) fout) = length fout \<and>
    (\<forall>b<1. \<forall>q<n. cx (run_stages real_ops st 1 1 (plan_of st) fout ! (b * n + q)) =
      (\<Sum>k<n. unit_root n (q * k) * (\<lambda>i. of_real (ff_scale st) * cx (fin ! i)) ((\<lambda>b. 0) b + 1 * k)))"
    by (rule run_stages_dft) (use st F cy in \<open>simp_all add: fft_tables_def n_def\<close>)
  show thesis
  proof (rule that [OF out])
    show "length (run_stages real_ops st 1 1 (plan_of st) fout) = ff_nfft st" using R F(1) by (simp add: n_def)
    fix q assume "q < ff_nfft st"
    then have "cx (run_stages real_ops st 1 1 (plan_of st) fout ! q) = (\<Sum>k<n. unit_root n (q * k) * (of_real (ff_scale st) * cx (fin ! k)))"
      using R by (simp add: n_def)
    also have "\<dots> = of_real (ff_scale st) * (\<Sum>k<n. unit_root n (q * k) * cx (fin ! k))"
      unfolding sum_distrib_left by (rule sum.cong) simp_all
    finally show "cx (run_stages real_ops st 1 1 (plan_of st) fout ! q) =
        of_real (ff_scale st) * (\<Sum>k<ff_nfft st. unit_root (ff_nfft st) (q * k) * cx (fin ! k))" by (simp add: n_def)
  qed
qed

end
