(* ===== verification/KissPlan.thy ===== *)
theory KissPlan
  imports KissDft
begin

text \<open>
  The planner of the transform gives a plan for every length it accepts; on it, where its factors
  fit the array and its positions 16 bits, the transform of the code is the discrete Fourier
  transform.
\<close>

section \<open>The plan of every length\<close>

text \<open>The factor found divides the length; an even length gives a 4 or a 2 first.\<close>

lemma next_factor_dvd:
  assumes "2 \<le> n" "2 \<le> p"
  shows "next_factor n p dvd n \<and> 2 \<le> next_factor n p"
  using assms
proof (induction n p rule: next_factor.induct)
  case (1 n p)
  show ?case
  proof (cases "n mod p = 0")
    case True
    then show ?thesis using "1.prems" by (simp add: next_factor.simps [of n p] mod_eq_0_iff_dvd)
  next
    case False
    define q where "q = (if p = 4 then 2 else if p = 2 then 3 else p + 2)"
    define q' where "q' = (if q > 32000 \<or> q * q > n then n else q)"
    have "2 \<le> q'" using "1.prems" by (auto simp: q_def q'_def)
    moreover have "next_factor n p = next_factor n q'" using False by (simp add: next_factor.simps [of n p] Let_def q_def q'_def)
    ultimately show ?thesis using "1.IH" [OF False q_def q'_def "1.prems"(1)] by simp
  qed
qed

lemma next_factor_even:
  assumes "2 \<le> n" "even n"
  shows "n mod 4 = 0 \<Longrightarrow> next_factor n 4 = 4" and "n mod 4 \<noteq> 0 \<Longrightarrow> next_factor n 4 = 2"
proof -
  show "n mod 4 = 0 \<Longrightarrow> next_factor n 4 = 4" by (simp add: next_factor.simps)
  assume a: "n mod 4 \<noteq> 0"
  have "next_factor n 2 = 2" using assms(2) by (simp add: next_factor.simps even_iff_mod_2_eq_zero)
  moreover have "n < 4 \<Longrightarrow> n = 2" using assms by presburger
  ultimately show "next_factor n 4 = 2" using a by (auto simp: next_factor.simps [of n 4] Let_def)
qed

text \<open>The radices found so far: 4 first, then at most one 2, that the code moves to the second
  place, then odd ones.\<close>

definition radices_ok :: "nat list \<Rightarrow> bool" where
  "radices_ok fac \<longleftrightarrow> set fac \<subseteq> {2, 3, 4, 5} \<and> (\<forall>i<length fac. fac ! i = 2 \<longrightarrow> i = 0 \<or> i = 1 \<and> fac ! 0 = 4)"

lemma radices_ok_snoc: "radices_ok fac \<Longrightarrow> p \<in> {3, 4, 5} \<Longrightarrow> radices_ok (fac @ [p])"
  by (auto simp: radices_ok_def nth_append less_Suc_eq)

lemma radices_ok_two:
  assumes "set fac \<subseteq> {4}"
  shows "1 < length fac \<Longrightarrow> radices_ok (fac[1 := 2] @ [4])" and "\<not> 1 < length fac \<Longrightarrow> radices_ok (fac @ [2])"
proof -
  have f: "fac ! i = 4" if "i < length fac" for i using assms that nth_mem by blast
  have "set (fac[1 := 2] @ [4]) \<subseteq> {2, 4}" using assms set_update_subset_insert [of fac 1 2] by auto
  then show "1 < length fac \<Longrightarrow> radices_ok (fac[1 := 2] @ [4])" using f
    by (auto simp: radices_ok_def nth_append nth_list_update less_Suc_eq split: if_splits)
  assume "\<not> 1 < length fac"
  then have "fac = [] \<or> fac = [4]" using f [of 0] by (cases fac) auto
  then show "radices_ok (fac @ [2])" by (auto simp: radices_ok_def less_Suc_eq)
qed

lemma prod_two: "set fac \<subseteq> {4} \<Longrightarrow> length fac > 1 \<Longrightarrow> prod_list (fac[1 := 2] @ [4]) = prod_list fac * (2 :: nat)"
  by (cases fac; cases "tl fac") auto

lemma find_radices_ok:
  assumes "find_radices n p fac = Some (True, fac')" "2 \<le> n" "p \<in> {2, 3, 4, 5}" "radices_ok fac"
    and "p = 4 \<and> set fac \<subseteq> {4} \<or> odd n"
  shows "radices_ok fac' \<and> prod_list fac' = prod_list fac * n"
  using assms
proof (induction n p fac rule: find_radices.induct)
  case (1 n p fac)
  define r where "r = next_factor n p"
  define m where "m = n div r"
  have r: "r dvd n" "2 \<le> r" using next_factor_dvd [of n p] "1.prems"(2,3) by (auto simp: r_def)
  have nm: "n = r * m" using r by (simp add: m_def)
  have r5: "r \<le> 5" "length fac < 8" using "1.prems"(1) by (auto simp: find_radices.simps [of n p fac] Let_def r_def split: if_splits)
  have even4: "r = 4 \<or> r = 2" "r = 2 \<Longrightarrow> odd m" "p = 4" "set fac \<subseteq> {4}" if "even n"
  proof -
    show p4: "p = 4" "set fac \<subseteq> {4}" using "1.prems"(5) that by auto
    show r24: "r = 4 \<or> r = 2" using next_factor_even [OF "1.prems"(2) that] p4 by (auto simp: r_def)
    assume "r = 2"
    then have "n mod 4 \<noteq> 0" using next_factor_even(1) [OF "1.prems"(2) that] p4 by (auto simp: r_def)
    then show "odd m" using nm \<open>r = 2\<close> by (auto elim!: evenE)
  qed
  have odd_r: "r = 3 \<or> r = 5" "odd m" if "odd n"
  proof -
    have "odd r" "odd m" using that nm by simp_all
    moreover have "r \<in> {2, 3, 4, 5}" using r r5 by auto
    ultimately show "r = 3 \<or> r = 5" "odd m" by auto
  qed
  define fac1 where "fac1 = (if r = 2 \<and> length fac > 1 then fac[1 := 2] @ [4] else fac @ [r])"
  have step: "find_radices n p fac = (if m > 1 then find_radices m r fac1 else Some (True, fac1))"
    using r5 by (simp add: find_radices.simps [of n p fac] Let_def r_def [symmetric] m_def [symmetric] fac1_def)
  have f1: "radices_ok fac1 \<and> prod_list fac1 = prod_list fac * r"
  proof (cases "r = 2")
    case True
    then have "even n" using nm by simp
    note e = even4 [OF this]
    show ?thesis using True radices_ok_two [OF e(4)] prod_two [OF e(4)] by (cases "1 < length fac") (simp_all add: fac1_def)
  next
    case False
    then have "r \<in> {3, 4, 5}" using r r5 by auto
    then show ?thesis using False radices_ok_snoc [OF "1.prems"(4)] by (simp add: fac1_def)
  qed
  show ?case
  proof (cases "m > 1")
    case True
    have "r = 4 \<and> set fac1 \<subseteq> {4} \<or> odd m" using even4 odd_r by (cases "even n") (auto simp: fac1_def)
    moreover have "r \<in> {2, 3, 4, 5}" using r r5 by auto
    ultimately have "radices_ok fac' \<and> prod_list fac' = prod_list fac1 * m"
      using "1.prems"(1) True f1 step r5
      by (intro "1.IH" [OF r_def m_def refl _ _ fac1_def]) simp_all
    then show ?thesis using f1 nm by simp
  next
    case False
    then have "m = 1" using nm "1.prems"(2) by (cases m) auto
    then show ?thesis using f1 nm step "1.prems"(1) by simp
  qed
qed

text \<open>The lengths that are left, uncut.\<close>

fun plan_rest :: "nat \<Rightarrow> nat list \<Rightarrow> (nat \<times> nat) list" where
  "plan_rest n [] = []"
| "plan_rest n (p # ps) = (p, n div p) # plan_rest (n div p) ps"

lemma plan_rest_ok:
  "radices_ok fac \<Longrightarrow> plan_ok (prod_list fac) (plan_rest (prod_list fac) (rev fac))"
proof (induction fac rule: rev_induct)
  case (snoc p fac)
  have f: "radices_ok fac" "p \<in> {2, 3, 4, 5}" using snoc.prems by (auto simp: radices_ok_def nth_append split: if_splits)
  have "set fac \<subseteq> {2, 3, 4, 5}" using f by (simp add: radices_ok_def)
  then have pos: "0 < prod_list fac" by (induction fac) auto
  have "p = 2 \<Longrightarrow> length fac = 0 \<or> length fac = 1 \<and> fac ! 0 = 4"
    using snoc.prems unfolding radices_ok_def by (auto simp: nth_append dest!: spec [of _ "length fac"])
  then have "p = 2 \<Longrightarrow> prod_list fac = 1 \<or> prod_list fac = 4" by (auto simp: length_Suc_conv)
  then have "radix_ok p (prod_list fac)" using pos f(2) by (auto simp: radix_ok_def)
  then show ?case using snoc.IH [OF f(1)] f(2) by (auto simp: mult.commute)
qed simp

text \<open>Below \<open>2 ^ 16\<close> nothing is cut: the first length that is left is half of it at most.\<close>

lemma with_rest_code:
  assumes "\<forall>p\<in>set ps. 2 \<le> p" "n < 65536"
  shows "with_rest n ps = code_plan (plan_rest n ps)"
  using assms
proof (induction ps arbitrary: n)
  case (Cons p ps)
  have "n div p \<le> n div 2" using Cons.prems(1) by (intro div_le_mono2) simp_all
  then have "n div p < 32768" using Cons.prems(2) by linarith
  moreover from this have "with_rest (n div p) ps = code_plan (plan_rest (n div p) ps)" using Cons by simp
  ultimately show ?case using opus_int16_id [of "int (n div p)"] by (simp del: of_nat_div)
qed simp

lemma kf_factor_plan:
  assumes "kf_factor n = Some (True, fs)" "2 \<le> n" "n < 65536"
  obtains plan where "fs = code_plan plan" "plan_ok n plan" "plan \<noteq> []"
proof -
  obtain fac where f: "find_radices n 4 [] = Some (True, fac)" "fs = with_rest n (rev fac)"
    using assms(1) by (auto simp: kf_factor_def bind_eq_Some_conv split: if_splits)
  have ok: "radices_ok fac \<and> prod_list fac = prod_list [] * n"
    by (rule find_radices_ok [OF f(1) assms(2)]) (simp_all add: radices_ok_def)
  then have "plan_ok n (plan_rest n (rev fac))" using plan_rest_ok [of fac] by simp
  moreover have "fs = code_plan (plan_rest n (rev fac))"
    unfolding f(2) using ok assms(3) by (intro with_rest_code) (auto simp: radices_ok_def)
  moreover have "plan_rest n (rev fac) \<noteq> []" using calculation(1) assms(2) by auto
  ultimately show thesis using that by blast
qed

section \<open>The transform\<close>

text \<open>The state of the transform of length \<open>n\<close> over the real numbers, with the factors and the
  table that \<^verbatim>\<open>opus_fft_alloc\<close> fills in, and exact cosines and sines.\<close>

definition exact_state :: "nat \<Rightarrow> (int \<times> int) list \<Rightarrow> int option list \<Rightarrow> real fft_state" where
  "exact_state n fs table = \<lparr>ff_nfft = n, ff_scale = 1 / real n, ff_shift = - 1, ff_factors = fs, ff_bitrev = table,
     ff_twiddles = map (\<lambda>i. (cos (2 * pi * (real i / real n)), - sin (2 * pi * (real i / real n)))) [0 ..< n]\<rparr>"

lemma exact_state_twiddles: "twiddles_ok (exact_state n fs table)"
  by (simp add: exact_state_def twiddles_ok_def unit_root_def cx_def complex_eq_iff)

text \<open>
  C4. For every length up to 32768 that the planner accepts with 7 factors at most, the table of
  positions is filled in, no access of the transform is outside the arrays, and the stages with
  their butterflies and twiddle factors compute the discrete Fourier transform, scaled by the
  length: this is the algorithm in exact arithmetic, rounding apart. The bounds are those of the
  code: beyond 32768 the 16-bit table wraps, with 8 factors \<^verbatim>\<open>opus_fft_impl\<close> writes past its
  array of strides, with more \<^verbatim>\<open>kf_factor\<close> past its array of factors.
\<close>

theorem fft_is_dft:
  assumes "kf_factor n = Some (True, fs)" "2 \<le> n" "n \<le> 32768" "length fs \<le> 7" "n \<le> length fin"
  shows "\<exists>table out. compute_bitrev_table 0 0 1 1 fs (replicate n None) = Some table \<and>
    opus_fft real_ops (exact_state n fs table) fin = Some out \<and> length out = n \<and>
    (\<forall>q<n. cx (out ! q) = of_real (1 / real n) * (\<Sum>k<n. cis (- (2 * pi) * (real (q * k) / real n)) * cx (fin ! k)))"
proof -
  obtain plan where p: "fs = code_plan plan" "plan_ok n plan" "plan \<noteq> []"
    using kf_factor_plan [OF assms(1,2)] assms(3) by auto
  obtain table where t: "compute_bitrev_table 0 0 1 1 (code_plan plan) (replicate n None) = Some table" "length table = n"
    "\<And>t. t < n \<Longrightarrow> table ! input_of plan t = Some (int t)"
    by (rule bitrev_table_plan [OF p(2,3) assms(3)]) blast
  define st where "st = exact_state n fs table"
  have s: "ff_nfft st = n" "ff_scale st = 1 / real n" by (simp_all add: st_def exact_state_def)
  have "plan_of st = plan" by (rule plan_of_code) (simp add: st_def exact_state_def p(1))
  then have "fft_tables st" using p t assms(4) by (simp add: fft_tables_def st_def exact_state_def)
  moreover have "ff_nfft st \<le> length fin" using assms(5) s by simp
  moreover have "twiddles_ok st" by (simp add: st_def exact_state_twiddles)
  ultimately obtain out where "opus_fft real_ops st fin = Some out" "length out = ff_nfft st"
    "\<And>q. q < ff_nfft st \<Longrightarrow> cx (out ! q) = of_real (ff_scale st) * (\<Sum>k<ff_nfft st. unit_root (ff_nfft st) (q * k) * cx (fin ! k))"
    using opus_fft_sum by blast
  then show ?thesis using t(1) unfolding s unit_root_def p(1) [symmetric] unfolding st_def by blast
qed

theorem fft_is_dft_witness:
  "\<exists>table out. compute_bitrev_table 0 0 1 1 [(5, 192), (3, 64), (4, 16), (4, 4), (4, 1)] (replicate 960 None) = Some table \<and>
    opus_fft real_ops (exact_state 960 [(5, 192), (3, 64), (4, 16), (4, 4), (4, 1)] table) (replicate 960 (1, 0)) = Some out \<and>
    length out = 960 \<and> (\<forall>q<960. cx (out ! q) = of_real (1 / real 960) *
      (\<Sum>k<960. cis (- (2 * pi) * (real (q * k) / real 960)) * cx (replicate 960 (1, 0) ! k)))"
  by (rule fft_is_dft [OF kf_factor_960]) simp_all

end
