(* ===== verification/Common.thy ===== *)
theory Common
  imports Prelude
begin

text \<open>
  The constants and the frame geometry of \<^verbatim>\<open>lc3.h\<close>, \<^verbatim>\<open>lc3_private.h\<close> and
  \<^verbatim>\<open>common.h\<close>. The enumerations are datatypes with the value that C gives to each
  constant; the bandwidth is an \<open>int\<close>, since its value comes from the bitstream before it is
  checked.
\<close>

datatype lc3_dt = LC3_DT_7M5 | LC3_DT_10M | LC3_NUM_DT

fun dt_int :: "lc3_dt \<Rightarrow> int" where
  "dt_int LC3_DT_7M5 = 0"
| "dt_int LC3_DT_10M = 1"
| "dt_int LC3_NUM_DT = 2"

datatype lc3_srate = LC3_SRATE_8K | LC3_SRATE_16K | LC3_SRATE_24K | LC3_SRATE_32K
  | LC3_SRATE_48K | LC3_NUM_SRATE

fun sr_int :: "lc3_srate \<Rightarrow> int" where
  "sr_int LC3_SRATE_8K = 0"
| "sr_int LC3_SRATE_16K = 1"
| "sr_int LC3_SRATE_24K = 2"
| "sr_int LC3_SRATE_32K = 3"
| "sr_int LC3_SRATE_48K = 4"
| "sr_int LC3_NUM_SRATE = 5"

text \<open>The code compares the constants of an enumeration: they are linearly ordered.\<close>

lemma dt_int_inject: "dt_int a = dt_int b \<Longrightarrow> a = b"
  by (cases a; cases b) auto

lemma sr_int_inject: "sr_int a = sr_int b \<Longrightarrow> a = b"
  by (cases a; cases b) auto

instantiation lc3_dt :: linorder
begin

definition less_eq_lc3_dt :: "lc3_dt \<Rightarrow> lc3_dt \<Rightarrow> bool" where
  "less_eq_lc3_dt a b \<longleftrightarrow> dt_int a \<le> dt_int b"

definition less_lc3_dt :: "lc3_dt \<Rightarrow> lc3_dt \<Rightarrow> bool" where
  "less_lc3_dt a b \<longleftrightarrow> dt_int a < dt_int b"

instance
  by standard (auto simp: less_eq_lc3_dt_def less_lc3_dt_def dt_int_inject)

end

instantiation lc3_srate :: linorder
begin

definition less_eq_lc3_srate :: "lc3_srate \<Rightarrow> lc3_srate \<Rightarrow> bool" where
  "less_eq_lc3_srate a b \<longleftrightarrow> sr_int a \<le> sr_int b"

definition less_lc3_srate :: "lc3_srate \<Rightarrow> lc3_srate \<Rightarrow> bool" where
  "less_lc3_srate a b \<longleftrightarrow> sr_int a < sr_int b"

instance
  by standard (auto simp: less_eq_lc3_srate_def less_lc3_srate_def sr_int_inject)

end

lemmas enum_order = less_eq_lc3_dt_def less_lc3_dt_def less_eq_lc3_srate_def less_lc3_srate_def

type_synonym lc3_bandwidth = int

definition LC3_BANDWIDTH_NB :: lc3_bandwidth where "LC3_BANDWIDTH_NB = sr_int LC3_SRATE_8K"
definition LC3_BANDWIDTH_WB :: lc3_bandwidth where "LC3_BANDWIDTH_WB = sr_int LC3_SRATE_16K"
definition LC3_BANDWIDTH_SSWB :: lc3_bandwidth where "LC3_BANDWIDTH_SSWB = sr_int LC3_SRATE_24K"
definition LC3_BANDWIDTH_SWB :: lc3_bandwidth where "LC3_BANDWIDTH_SWB = sr_int LC3_SRATE_32K"
definition LC3_BANDWIDTH_FB :: lc3_bandwidth where "LC3_BANDWIDTH_FB = sr_int LC3_SRATE_48K"

lemmas bandwidth_defs = LC3_BANDWIDTH_NB_def LC3_BANDWIDTH_WB_def LC3_BANDWIDTH_SSWB_def
  LC3_BANDWIDTH_SWB_def LC3_BANDWIDTH_FB_def

definition LC3_MIN_BITRATE :: int where "LC3_MIN_BITRATE = 16000"
definition LC3_MAX_BITRATE :: int where "LC3_MAX_BITRATE = 320000"
definition LC3_MIN_FRAME_BYTES :: int where "LC3_MIN_FRAME_BYTES = 20"
definition LC3_MAX_FRAME_BYTES :: int where "LC3_MAX_FRAME_BYTES = 400"

lemmas limit_defs = LC3_MIN_BITRATE_def LC3_MAX_BITRATE_def LC3_MIN_FRAME_BYTES_def
  LC3_MAX_FRAME_BYTES_def

section \<open>Geometry of a frame\<close>

text \<open>The macros of \<^verbatim>\<open>common.h\<close>, on the values of the enumerations.\<close>

definition LC3_SRATE_KHZ :: "lc3_srate \<Rightarrow> int" where
  "LC3_SRATE_KHZ sr = (1 + sr_int sr + of_bool (sr = LC3_SRATE_48K)) * 8"

definition LC3_DT_US :: "lc3_dt \<Rightarrow> int" where
  "LC3_DT_US dt = (3 + dt_int dt) * 2500"

definition LC3_NS :: "lc3_dt \<Rightarrow> lc3_srate \<Rightarrow> int" where
  "LC3_NS dt sr = 20 * (3 + dt_int dt) * (1 + sr_int sr + of_bool (sr = LC3_SRATE_48K))"

definition LC3_ND :: "lc3_dt \<Rightarrow> lc3_srate \<Rightarrow> int" where
  "LC3_ND dt sr = (if dt = LC3_DT_7M5 then cdiv (23 * LC3_NS dt sr) 30 else cdiv (5 * LC3_NS dt sr) 8)"

definition LC3_NE :: "lc3_dt \<Rightarrow> int \<Rightarrow> int" where
  "LC3_NE dt sr = 20 * (3 + dt_int dt) * (1 + sr)"

text \<open>\<^verbatim>\<open>LC3_NT(sr_hz)\<close> does not use its parameter: it reads the variable \<^verbatim>\<open>sr\<close> of the caller.\<close>

definition LC3_NT :: "lc3_srate \<Rightarrow> int" where
  "LC3_NT sr = cdiv (5 * LC3_SRATE_KHZ sr) 4"

definition LC3_NH :: "lc3_dt \<Rightarrow> lc3_srate \<Rightarrow> int" where
  "LC3_NH dt sr = ((3 - dt_int dt) + 1) * LC3_NS dt sr"

text \<open>The macros of \<^verbatim>\<open>lc3_private.h\<close>, in microseconds and Hz, which size the buffers.\<close>

definition PRIV_NS :: "int \<Rightarrow> int \<Rightarrow> int" where
  "PRIV_NS dt_us sr_hz = cdiv (cdiv (dt_us * sr_hz) 1000) 1000"

definition PRIV_ND :: "int \<Rightarrow> int \<Rightarrow> int" where
  "PRIV_ND dt_us sr_hz =
     (if dt_us = 7500 then cdiv (23 * PRIV_NS dt_us sr_hz) 30 else cdiv (5 * PRIV_NS dt_us sr_hz) 8)"

definition PRIV_NT :: "int \<Rightarrow> int" where
  "PRIV_NT sr_hz = cdiv (5 * sr_hz) 4000"

definition PRIV_NH :: "int \<Rightarrow> int \<Rightarrow> int" where
  "PRIV_NH dt_us sr_hz = ((3 - of_bool (dt_us \<ge> 10000)) + 1) * PRIV_NS dt_us sr_hz"

definition LC3_ENCODER_BUFFER_COUNT :: "int \<Rightarrow> int \<Rightarrow> int" where
  "LC3_ENCODER_BUFFER_COUNT dt_us sr_hz =
     cdiv (PRIV_NS dt_us sr_hz + PRIV_NT sr_hz) 2 + PRIV_NS dt_us sr_hz + PRIV_ND dt_us sr_hz"

definition LC3_DECODER_BUFFER_COUNT :: "int \<Rightarrow> int \<Rightarrow> int" where
  "LC3_DECODER_BUFFER_COUNT dt_us sr_hz =
     PRIV_NH dt_us sr_hz + PRIV_ND dt_us sr_hz + PRIV_NS dt_us sr_hz"

section \<open>Conversions to the integer types\<close>

definition s16 :: "int \<Rightarrow> int" where "s16 v = (v + 32768) mod 65536 - 32768"
definition s32 :: "int \<Rightarrow> int" where "s32 v = (v + 2 ^ 31) mod 2 ^ 32 - 2 ^ 31"

lemma s16_id: "-32768 \<le> v \<Longrightarrow> v < 32768 \<Longrightarrow> s16 v = v"
  by (simp add: s16_def)

lemma s16_bounds: "-32768 \<le> s16 v" "s16 v \<le> 32767"
  using pos_mod_bound [of 65536 "v + 32768"] pos_mod_sign [of 65536 "v + 32768"] by (auto simp: s16_def)

definition is_s16 :: "int \<Rightarrow> bool" where
  "is_s16 v \<longleftrightarrow> -32768 \<le> v \<and> v \<le> 32767"

lemma s32_id: "- (2 ^ 31) \<le> v \<Longrightarrow> v < 2 ^ 31 \<Longrightarrow> s32 v = v"
  by (simp add: s32_def)

text \<open>The enumerations that are parameters of a stream: their last constant is not one.\<close>

definition valid_dt :: "lc3_dt \<Rightarrow> bool" where "valid_dt dt \<longleftrightarrow> dt < LC3_NUM_DT"
definition valid_sr :: "lc3_srate \<Rightarrow> bool" where "valid_sr sr \<longleftrightarrow> sr < LC3_NUM_SRATE"

lemma valid_dt_cases: "valid_dt dt \<Longrightarrow> dt = LC3_DT_7M5 \<or> dt = LC3_DT_10M"
  by (cases dt) (auto simp: valid_dt_def enum_order)

lemma valid_sr_cases: "valid_sr sr \<Longrightarrow>
  sr = LC3_SRATE_8K \<or> sr = LC3_SRATE_16K \<or> sr = LC3_SRATE_24K \<or> sr = LC3_SRATE_32K \<or> sr = LC3_SRATE_48K"
  by (cases sr) (auto simp: valid_sr_def enum_order)

lemma valid_dtE [elim]:
  assumes "valid_dt dt"
  obtains "dt = LC3_DT_7M5" | "dt = LC3_DT_10M"
  using valid_dt_cases [OF assms] by blast

lemma valid_srE [elim]:
  assumes "valid_sr sr"
  obtains "sr = LC3_SRATE_8K" | "sr = LC3_SRATE_16K" | "sr = LC3_SRATE_24K" | "sr = LC3_SRATE_32K"
    | "sr = LC3_SRATE_48K"
  using valid_sr_cases [OF assms] by blast

section \<open>Limits of the bands\<close>

text \<open>The first coefficient of each of the 64 bands, and the end of the last one.\<close>

definition LC3_NUM_BANDS :: nat where "LC3_NUM_BANDS = 64"

definition lc3_band_lim_7m5 :: "nat list list" where
  "lc3_band_lim_7m5 =
    [[0, 1, 2, 3, 4, 5, 6, 7, 8, 9, 10, 11, 12, 13, 14, 15, 16, 17, 18, 19, 20, 21, 22, 23, 24,
      25, 26, 27, 28, 29, 30, 31, 32, 33, 34, 35, 36, 37, 38, 39, 40, 41, 42, 43, 44, 45, 46,
      47, 48, 49, 50, 51, 52, 53, 54, 55, 56, 57, 58, 59, 60, 60, 60, 60, 60],
     [0, 1, 2, 3, 4, 5, 6, 7, 8, 9, 10, 11, 12, 13, 14, 15, 16, 17, 18, 19, 20, 21, 22, 23, 24,
      25, 26, 27, 28, 29, 30, 31, 32, 33, 34, 36, 38, 40, 42, 44, 46, 48, 50, 52, 54, 56, 58,
      60, 62, 65, 68, 71, 74, 77, 80, 83, 86, 90, 94, 98, 102, 106, 110, 115, 120],
     [0, 1, 2, 3, 4, 5, 6, 7, 8, 9, 10, 11, 12, 13, 14, 15, 16, 17, 18, 19, 20, 21, 22, 23, 24,
      25, 26, 27, 29, 31, 33, 35, 37, 39, 41, 43, 45, 47, 49, 52, 55, 58, 61, 64, 67, 70, 74,
      78, 82, 86, 90, 95, 100, 105, 110, 115, 121, 127, 134, 141, 148, 155, 163, 171, 180],
     [0, 1, 2, 3, 4, 5, 6, 7, 8, 9, 10, 11, 12, 13, 14, 15, 16, 17, 18, 19, 20, 21, 22, 23, 24,
      26, 28, 30, 32, 34, 36, 38, 40, 42, 45, 48, 51, 54, 57, 60, 63, 67, 71, 75, 79, 84, 89,
      94, 99, 105, 111, 117, 124, 131, 138, 146, 154, 163, 172, 182, 192, 203, 215, 227, 240],
     [0, 1, 2, 3, 4, 5, 6, 7, 8, 9, 10, 11, 12, 13, 14, 15, 16, 17, 18, 19, 20, 21, 22, 24, 26,
      28, 30, 32, 34, 36, 38, 40, 43, 46, 49, 52, 55, 59, 63, 67, 71, 75, 80, 85, 90, 96, 102,
      108, 115, 122, 129, 137, 146, 155, 165, 175, 186, 197, 209, 222, 236, 251, 266, 283, 300]]"

definition lc3_band_lim_10m :: "nat list list" where
  "lc3_band_lim_10m =
    [[0, 1, 2, 3, 4, 5, 6, 7, 8, 9, 10, 11, 12, 13, 14, 15, 16, 17, 18, 19, 20, 21, 22, 23, 24,
      25, 26, 27, 28, 29, 30, 31, 32, 33, 34, 35, 36, 37, 38, 39, 40, 41, 42, 43, 44, 45, 46,
      47, 48, 49, 51, 53, 55, 57, 59, 61, 63, 65, 67, 69, 71, 73, 75, 77, 80],
     [0, 1, 2, 3, 4, 5, 6, 7, 8, 9, 10, 11, 12, 13, 14, 15, 16, 17, 18, 19, 20, 21, 22, 23, 24,
      25, 26, 27, 28, 30, 32, 34, 36, 38, 40, 42, 44, 46, 48, 50, 52, 55, 58, 61, 64, 67, 70,
      73, 76, 80, 84, 88, 92, 96, 101, 106, 111, 116, 121, 127, 133, 139, 146, 153, 160],
     [0, 1, 2, 3, 4, 5, 6, 7, 8, 9, 10, 11, 12, 13, 14, 15, 16, 17, 18, 19, 20, 21, 22, 23, 25,
      27, 29, 31, 33, 35, 37, 39, 41, 43, 46, 49, 52, 55, 58, 61, 64, 68, 72, 76, 80, 85, 90,
      95, 100, 106, 112, 118, 125, 132, 139, 147, 155, 164, 173, 183, 193, 204, 215, 227, 240],
     [0, 1, 2, 3, 4, 5, 6, 7, 8, 9, 10, 11, 12, 13, 14, 15, 16, 17, 18, 19, 20, 22, 24, 26, 28,
      30, 32, 34, 36, 38, 41, 44, 47, 50, 53, 56, 60, 64, 68, 72, 76, 81, 86, 91, 97, 103, 109,
      116, 123, 131, 139, 148, 157, 166, 176, 187, 199, 211, 224, 238, 252, 268, 284, 302, 320],
     [0, 1, 2, 3, 4, 5, 6, 7, 8, 9, 10, 11, 12, 13, 14, 15, 16, 17, 18, 20, 22, 24, 26, 28, 30,
      32, 34, 36, 39, 42, 45, 48, 51, 55, 59, 63, 67, 71, 76, 81, 86, 92, 98, 105, 112, 119,
      127, 135, 144, 154, 164, 175, 186, 198, 211, 225, 240, 256, 273, 291, 310, 330, 352, 375,
      400]]"

definition lc3_band_lim :: "lc3_dt \<Rightarrow> lc3_srate \<Rightarrow> nat list" where
  "lc3_band_lim dt sr = (if dt = LC3_DT_7M5 then lc3_band_lim_7m5 else lc3_band_lim_10m) ! nat (sr_int sr)"

section \<open>Facts of the geometry\<close>

lemma LC3_NE_le_NS: "valid_sr sr \<Longrightarrow> LC3_NE dt (sr_int sr) \<le> LC3_NS dt sr"
  by (elim valid_srE) (simp_all add: LC3_NE_def LC3_NS_def, cases dt, simp_all)

end
