(* ===== verification/CodecParams.thy ===== *)
theory CodecParams
  imports Common Float32
begin

text \<open>
  The parameters of a stream: the general functions of \<^verbatim>\<open>lc3.c\<close>, and the formats of the PCM
  samples. The size of a structure depends on the platform: it is an argument.
\<close>

definition resolve_dt :: "int \<Rightarrow> lc3_dt" where
  "resolve_dt us = (if us = 7500 then LC3_DT_7M5 else if us = 10000 then LC3_DT_10M else LC3_NUM_DT)"

definition resolve_sr :: "int \<Rightarrow> lc3_srate" where
  "resolve_sr hz =
     (if hz = 8000 then LC3_SRATE_8K else if hz = 16000 then LC3_SRATE_16K
      else if hz = 24000 then LC3_SRATE_24K else if hz = 32000 then LC3_SRATE_32K
      else if hz = 48000 then LC3_SRATE_48K else LC3_NUM_SRATE)"

definition lc3_frame_samples :: "int \<Rightarrow> int \<Rightarrow> int" where
  "lc3_frame_samples dt_us sr_hz =
     (let dt = resolve_dt dt_us; sr = resolve_sr sr_hz
      in if dt \<ge> LC3_NUM_DT \<or> sr \<ge> LC3_NUM_SRATE then -1 else LC3_NS dt sr)"

text \<open>The products are of \<^verbatim>\<open>unsigned\<close>, on 32 bits.\<close>

definition lc3_frame_bytes :: "int \<Rightarrow> int \<Rightarrow> int" where
  "lc3_frame_bytes dt_us bitrate =
     (if resolve_dt dt_us \<ge> LC3_NUM_DT then -1
      else if bitrate < LC3_MIN_BITRATE then LC3_MIN_FRAME_BYTES
      else if bitrate > LC3_MAX_BITRATE then LC3_MAX_FRAME_BYTES
      else let nbytes = uint (word_of_int bitrate * word_of_int dt_us div (word_of_int (1000 * 1000 * 8)) :: u32)
           in LC3_CLIP nbytes LC3_MIN_FRAME_BYTES LC3_MAX_FRAME_BYTES)"

definition lc3_resolve_bitrate :: "int \<Rightarrow> int \<Rightarrow> int" where
  "lc3_resolve_bitrate dt_us nbytes =
     (if resolve_dt dt_us \<ge> LC3_NUM_DT then -1
      else if nbytes < LC3_MIN_FRAME_BYTES then LC3_MIN_BITRATE
      else if nbytes > LC3_MAX_FRAME_BYTES then LC3_MAX_BITRATE
      else let bitrate = uint ((word_of_int nbytes * word_of_int (1000 * 1000 * 8) + word_of_int (cdiv dt_us 2))
                           div word_of_int dt_us :: u32)
           in LC3_CLIP bitrate LC3_MIN_BITRATE LC3_MAX_BITRATE)"

definition lc3_delay_samples :: "int \<Rightarrow> int \<Rightarrow> int" where
  "lc3_delay_samples dt_us sr_hz =
     (let dt = resolve_dt dt_us; sr = resolve_sr sr_hz
      in if dt \<ge> LC3_NUM_DT \<or> sr \<ge> LC3_NUM_SRATE then -1
         else (if dt = LC3_DT_7M5 then 8 else 5) * cdiv (LC3_SRATE_KHZ sr) 2)"

definition lc3_encoder_size :: "int \<Rightarrow> int \<Rightarrow> int \<Rightarrow> int" where
  "lc3_encoder_size sizeof_encoder dt_us sr_hz =
     (if resolve_dt dt_us \<ge> LC3_NUM_DT \<or> resolve_sr sr_hz \<ge> LC3_NUM_SRATE then 0
      else sizeof_encoder + LC3_ENCODER_BUFFER_COUNT dt_us sr_hz * 4)"

definition lc3_decoder_size :: "int \<Rightarrow> int \<Rightarrow> int \<Rightarrow> int" where
  "lc3_decoder_size sizeof_decoder dt_us sr_hz =
     (if resolve_dt dt_us \<ge> LC3_NUM_DT \<or> resolve_sr sr_hz \<ge> LC3_NUM_SRATE then 0
      else sizeof_decoder + LC3_DECODER_BUFFER_COUNT dt_us sr_hz * 4)"

text \<open>The PCM buffers, with their format.\<close>

datatype lc3_pcm =
    LC3_PCM_FORMAT_S16 "int list"
  | LC3_PCM_FORMAT_S24 "int list"
  | LC3_PCM_FORMAT_S24_3LE "u8 list"
  | LC3_PCM_FORMAT_FLOAT "f32 list"

end
