(* ===== verification/ParamProps.thy ===== *)
theory ParamProps
  imports CodecParams
begin

text \<open>
  The sizes of the frames and the bitrates, \<^verbatim>\<open>lc3.c\<close>: the products of unsigned integers do not
  wrap, and how the two conversions compose.
\<close>

lemma uint_small: "0 \<le> n \<Longrightarrow> n < 4294967296 \<Longrightarrow> uint (word_of_int n :: u32) = n"
  by (simp add: uint_word_of_int)

lemma uint_mult_add_div:
  assumes "0 \<le> a" "0 \<le> b" "a * b + c < 4294967296" "0 \<le> c" "0 < d" "d < 4294967296"
    and "a < 4294967296" "b < 4294967296"
  shows "uint ((word_of_int a * word_of_int b + word_of_int c) div word_of_int d :: u32) = (a * b + c) div d"
proof -
  have ab: "0 \<le> a * b" using assms(1,2) by simp
  have u: "uint (word_of_int c :: u32) = c" using assms(3,4) ab by (intro uint_small) linarith+
  have m: "uint (word_of_int a * word_of_int b :: u32) = a * b"
    using assms ab by (subst uint_mult32) (simp_all add: uint_small)
  then have "uint (word_of_int a * word_of_int b + word_of_int c :: u32) = a * b + c"
    using assms(3) ab by (subst uint_add32) (simp_all add: u)
  then show ?thesis using assms by (simp add: uint_div uint_small)
qed

section \<open>Properties\<close>

lemma frame_bytes_value:
  assumes dt: "dt_us = 7500 \<or> dt_us = 10000" and b: "16000 \<le> bitrate" "bitrate \<le> 320000"
  shows "lc3_frame_bytes dt_us bitrate = max (bitrate * dt_us div 8000000) 20"
proof -
  have v: "\<not> resolve_dt dt_us \<ge> LC3_NUM_DT" using dt by (auto simp: resolve_dt_def enum_order)
  have d: "7500 \<le> dt_us" "dt_us \<le> 10000" using dt by auto
  have p: "0 \<le> bitrate * dt_us" "bitrate * dt_us \<le> 320000 * 10000" using b d by - (rule mult_nonneg_nonneg mult_mono; linarith)+
  have "uint (word_of_int bitrate * word_of_int dt_us div word_of_int 8000000 :: u32) = bitrate * dt_us div 8000000"
    using uint_mult_add_div [of bitrate dt_us 0 8000000] b d p by simp
  moreover have "bitrate * dt_us div 8000000 \<le> 400" using p(2) by linarith
  ultimately show ?thesis using b v by (simp add: lc3_frame_bytes_def limit_defs LC3_CLIP_def)
qed

lemma resolve_bitrate_value:
  assumes dt: "dt_us = 7500 \<or> dt_us = 10000" and n: "20 \<le> nbytes" "nbytes \<le> 400"
  shows "lc3_resolve_bitrate dt_us nbytes = min ((nbytes * 8000000 + dt_us div 2) div dt_us) 320000"
proof -
  have v: "\<not> resolve_dt dt_us \<ge> LC3_NUM_DT" using dt by (auto simp: resolve_dt_def enum_order)
  have d: "7500 \<le> dt_us" "dt_us \<le> 10000" using dt by auto
  define q where "q = (nbytes * 8000000 + dt_us div 2) div dt_us"
  have h: "cdiv dt_us 2 = dt_us div 2" "0 \<le> dt_us div 2" "dt_us div 2 \<le> 5000" using d by (simp_all add: cdiv_nonneg)
  have "uint ((word_of_int nbytes * word_of_int 8000000 + word_of_int (dt_us div 2)) div word_of_int dt_us :: u32) = q"
    unfolding q_def using n d h by (intro uint_mult_add_div) linarith+
  moreover have "16000 \<le> q"
  proof -
    have "16000 * dt_us \<le> nbytes * 8000000 + dt_us div 2" using n d h by linarith
    then have "16000 * dt_us div dt_us \<le> q" unfolding q_def using d by (intro zdiv_mono1) linarith+
    then show ?thesis using d by simp
  qed
  ultimately have "lc3_resolve_bitrate dt_us nbytes = min q 320000"
    using n v by (simp add: lc3_resolve_bitrate_def limit_defs LC3_CLIP_def h(1))
  then show ?thesis by (simp add: q_def)
qed

text \<open>
  C32. For frames of 7.5 or 10 ms, on the bitrates of 16000 to 320000 and the sizes of 20 to 400
  bytes, no 32-bit product wraps: \<open>lc3_frame_bytes\<close> is the floor of the exact quotient, at least
  the size of the smallest frame, and \<open>lc3_resolve_bitrate\<close> the exact quotient rounded to the
  nearest integer, at most the greatest bitrate.
\<close>

theorem frame_bytes_exact:
  assumes dt: "dt_us = 7500 \<or> dt_us = 10000" and b: "16000 \<le> bitrate" "bitrate \<le> 320000" and n: "20 \<le> nbytes" "nbytes \<le> 400"
  shows "lc3_frame_bytes dt_us bitrate = max (bitrate * dt_us div 8000000) 20 \<and>
    lc3_resolve_bitrate dt_us nbytes = min ((nbytes * 8000000 + dt_us div 2) div dt_us) 320000"
  using frame_bytes_value [OF dt b] resolve_bitrate_value [OF dt n] ..

theorem frame_bytes_exact_witness: "lc3_frame_bytes 7500 96000 = 90 \<and> lc3_resolve_bitrate 7500 90 = 96000"
  using frame_bytes_exact [of 7500 96000 90] by simp

text \<open>
  C38. The size of a frame is the one its bitrate gives back: exactly with frames of 10 ms and
  20 to 400 bytes, and exactly or one byte below with frames of 7.5 ms and 20 to 300 bytes, whose
  bitrate is not limited.
\<close>

theorem bitrate_roundtrip:
  assumes n: "20 \<le> n" "n \<le> 400"
  shows "lc3_frame_bytes 10000 (lc3_resolve_bitrate 10000 n) = n \<and>
    (n \<le> 300 \<longrightarrow> lc3_frame_bytes 7500 (lc3_resolve_bitrate 7500 n) \<in> {n - 1, n})"
proof
  have r: "lc3_resolve_bitrate 10000 n = 800 * n" "16000 \<le> 800 * n" "800 * n \<le> 320000"
    using resolve_bitrate_value [of 10000 n] n by simp_all
  then show "lc3_frame_bytes 10000 (lc3_resolve_bitrate 10000 n) = n"
    using frame_bytes_value [of 10000 "800 * n"] n by simp
  show "n \<le> 300 \<longrightarrow> lc3_frame_bytes 7500 (lc3_resolve_bitrate 7500 n) \<in> {n - 1, n}"
  proof
    assume n3: "n \<le> 300"
    define q where "q = (n * 8000000 + 3750) div 7500"
    have q: "7500 * q \<le> n * 8000000 + 3750" "n * 8000000 + 3750 < 7500 * q + 7500" unfolding q_def by linarith+
    then have b: "16000 \<le> q" "q \<le> 320000" using n n3 by linarith+
    have "lc3_resolve_bitrate 7500 n = q" using resolve_bitrate_value [of 7500 n] n b(2) by (simp add: q_def)
    moreover have "lc3_frame_bytes 7500 q = max (q * 7500 div 8000000) 20"
      using frame_bytes_value [of 7500 q] n b by simp
    moreover have "n - 1 \<le> q * 7500 div 8000000" "q * 7500 div 8000000 \<le> n" using q by linarith+
    ultimately show "lc3_frame_bytes 7500 (lc3_resolve_bitrate 7500 n) \<in> {n - 1, n}" using n by auto
  qed
qed

theorem bitrate_roundtrip_witness:
  "lc3_frame_bytes 10000 (lc3_resolve_bitrate 10000 155) = 155 \<and> lc3_frame_bytes 7500 (lc3_resolve_bitrate 7500 23) \<in> {22, 23}"
  using bitrate_roundtrip [of 155] bitrate_roundtrip [of 23] by simp

text \<open>The byte is lost at 23 bytes, and above the greatest bitrate the size is no longer a floor.\<close>

lemma frame_bytes_7m5: "lc3_frame_bytes 7500 (lc3_resolve_bitrate 7500 23) = 22"
  "lc3_frame_bytes 7500 320000 = 300" "lc3_frame_bytes 7500 320001 = 400"
  by (simp_all add: lc3_frame_bytes_def lc3_resolve_bitrate_def resolve_dt_def enum_order limit_defs LC3_CLIP_def cdiv_def)

end
