(* ===== verification/RnnNet.thy ===== *)
theory RnnNet
  imports RnnArrays
begin

text \<open>
  The network of the denoiser, \<^verbatim>\<open>rnn.c\<close> and \<^verbatim>\<open>rnn.h\<close>: the approximated activation
  functions, the dense and the gated recurrent layer and the six layers in a row. Weights are
  signed bytes. The weights of the built-in model, 87000 numbers that a Keras script wrote to
  \<^verbatim>\<open>rnn_data.c\<close>, are arguments; its layers, sizes and activations are here. Results are
  \<open>None\<close> where the code would read outside an array or what was never written, or write
  outside one.
\<close>

definition tansig_table :: "f32 list" where
  "tansig_table = map (\<lambda>d. f32_lit d (-6))
   [0, 39979, 79830, 119427, 158649, 197375, 235496, 272905, 309507, 345214, 379949, 413644,
    446244, 477700, 507977, 537050, 564900, 591519, 616909, 641077, 664037, 685809, 706419,
    725897, 744277, 761594, 777888, 793199, 807569, 821040, 833655, 845456, 856485, 866784,
    876393, 885352, 893698, 901468, 908698, 915420, 921669, 927473, 932862, 937863, 942503,
    946806, 950795, 954492, 957917, 961090, 964028, 966747, 969265, 971594, 973749, 975743,
    977587, 979293, 980869, 982327, 983675, 984921, 986072, 987136, 988119, 989027, 989867,
    990642, 991359, 992020, 992631, 993196, 993718, 994199, 994644, 995055, 995434, 995784,
    996108, 996407, 996682, 996937, 997172, 997389, 997590, 997775, 997946, 998104, 998249,
    998384, 998508, 998623, 998728, 998826, 998916, 999000, 999076, 999147, 999213, 999273,
    999329, 999381, 999428, 999472, 999513, 999550, 999585, 999617, 999646, 999673, 999699,
    999722, 999743, 999763, 999781, 999798, 999813, 999828, 999841, 999853, 999865, 999875,
    999885, 999893, 999902, 999909, 999916, 999923, 999929, 999934, 999939, 999944, 999948,
    999952, 999956, 999959, 999962, 999965, 999968, 999970, 999973, 999975, 999977, 999978,
    999980, 999982, 999983, 999984, 999986, 999987, 999988, 999989, 999990, 999990, 999991,
    999992, 999992, 999993, 999994, 999994, 999994, 999995, 999995, 999996, 999996, 999996,
    999997, 999997, 999997, 999997, 999997, 999998, 999998, 999998, 999998, 999998, 999998,
    999999, 999999, 999999, 999999, 999999, 999999, 999999, 999999, 999999, 999999, 999999,
    999999, 999999, 1000000, 1000000, 1000000, 1000000, 1000000, 1000000, 1000000, 1000000,
    1000000, 1000000, 1000000]"

abbreviation f32_half :: f32 where "f32_half \<equiv> f32_lit 5 (-1)"

definition tansig_approx :: "f32 \<Rightarrow> f32 option" where
  "tansig_approx x =
     (if \<not> f32_lt x (f32_of_int 8) then Some (f32_of_int 1)
      else if \<not> f32_gt x (f32_of_int (-8)) then Some (f32_of_int (-1))
      else if x = FNan then Some f32_0
      else
        let neg = f32_lt x f32_0;
            x = (if neg then f32_neg x else x);
            sign = (if neg then f32_of_int (-1) else f32_of_int 1);
            i = f32_to_int (f32_floor (f32_add f32_half (f32_mul (f32_of_int 25) x)));
            x = f32_sub x (f32_mul (f32_lit 4 (-2)) (f32_of_int i))
        in do {
          y \<leftarrow> rd tansig_table i;
          let dy = f32_sub (f32_of_int 1) (f32_mul y y);
          let y = f32_add y (f32_mul (f32_mul x dy) (f32_sub (f32_of_int 1) (f32_mul y x)));
          Some (f32_mul sign y)
        })"

text \<open>The constants of \<open>sigmoid_approx\<close> are doubles: the argument and the result are rounded
  to a \<^verbatim>\<open>float\<close> at the call and the return.\<close>

definition sigmoid_approx :: "f32 \<Rightarrow> f32 option" where
  "sigmoid_approx x = do {
     t \<leftarrow> tansig_approx (f32_of_f64 (f64_mul (f64_dec 5 (-1)) (f64_of_f32 x)));
     Some (f32_of_f64 (f64_add (f64_dec 5 (-1)) (f64_mul (f64_dec 5 (-1)) (f64_of_f32 t))))
   }"

definition relu :: "f32 \<Rightarrow> f32" where
  "relu x = (if f32_lt x f32_0 then f32_0 else x)"

section \<open>Layers\<close>

abbreviation (input) ACTIVATION_TANH :: int where "ACTIVATION_TANH \<equiv> 0"
abbreviation (input) ACTIVATION_SIGMOID :: int where "ACTIVATION_SIGMOID \<equiv> 1"
abbreviation (input) ACTIVATION_RELU :: int where "ACTIVATION_RELU \<equiv> 2"
abbreviation (input) MAX_NEURONS :: int where "MAX_NEURONS \<equiv> 128"
abbreviation (input) INPUT_SIZE :: int where "INPUT_SIZE \<equiv> 42"

definition WEIGHTS_SCALE :: f32 where
  "WEIGHTS_SCALE = f32_div (f32_of_int 1) (f32_of_int 256)"

record dense_layer =
  dl_bias :: "int list"
  dl_input_weights :: "int list"
  dl_nb_inputs :: int
  dl_nb_neurons :: int
  dl_activation :: int

record gru_layer =
  gl_bias :: "int list"
  gl_input_weights :: "int list"
  gl_recurrent_weights :: "int list"
  gl_nb_inputs :: int
  gl_nb_neurons :: int
  gl_activation :: int

text \<open>\<open>column w off stride m\<close>: the weights \<open>w[off + j*stride]\<close> for \<open>j\<close> from 0 to \<open>m - 1\<close>.\<close>

definition column :: "int list \<Rightarrow> int \<Rightarrow> int \<Rightarrow> int \<Rightarrow> int list option" where
  "column w off stride m = opt_map (\<lambda>j. rd w (off + j * stride)) [0 .. m - 1]"

text \<open>\<^verbatim>\<open>sum += weight*x\<close> along the two arrays.\<close>

definition weighted_sum :: "f32 \<Rightarrow> int list \<Rightarrow> f32 list \<Rightarrow> f32" where
  "weighted_sum s ws xs = foldl (\<lambda>s (w, x). f32_add s (f32_mul (f32_of_int w) x)) s (zip ws xs)"

definition dense_activation :: "int \<Rightarrow> f32 \<Rightarrow> f32 option" where
  "dense_activation act x =
     (if act = ACTIVATION_SIGMOID then sigmoid_approx x
      else if act = ACTIVATION_TANH then tansig_approx x
      else if act = ACTIVATION_RELU then Some (relu x)
      else Some f32_0)"

text \<open>\<open>compute_dense layer cap input\<close>: the \<open>nb_neurons\<close> outputs, written to an array of \<open>cap\<close>
  elements.\<close>

definition compute_dense :: "dense_layer \<Rightarrow> int \<Rightarrow> f32 list \<Rightarrow> f32 list option" where
  "compute_dense layer cap input =
     (let M = dl_nb_inputs layer; N = dl_nb_neurons layer; stride = N in
      if N > cap then None else do {
        output \<leftarrow> opt_map (\<lambda>i. do {
          b \<leftarrow> rd (dl_bias layer) i;
          ws \<leftarrow> column (dl_input_weights layer) i stride M;
          xs \<leftarrow> slice input 0 M;
          Some (f32_mul WEIGHTS_SCALE (weighted_sum (f32_of_int b) ws xs))
        }) [0 .. N - 1];
        opt_map (dense_activation (dl_activation layer)) output
      })"

text \<open>The sum of a gate: the bias, the inputs, the state.\<close>

definition gru_sum :: "gru_layer \<Rightarrow> int \<Rightarrow> int \<Rightarrow> f32 list \<Rightarrow> f32 list \<Rightarrow> f32 option" where
  "gru_sum gru gate i state input =
     (let M = gl_nb_inputs gru; N = gl_nb_neurons gru; stride = 3 * N in do {
        b \<leftarrow> rd (gl_bias gru) (gate * N + i);
        ws \<leftarrow> column (gl_input_weights gru) (gate * N + i) stride M;
        xs \<leftarrow> slice input 0 M;
        us \<leftarrow> column (gl_recurrent_weights gru) (gate * N + i) stride N;
        ss \<leftarrow> slice state 0 N;
        Some (weighted_sum (weighted_sum (f32_of_int b) ws xs) us ss)
      })"

text \<open>The sum of the output gate multiplies every recurrent term by the reset gate.\<close>

definition gru_output_sum :: "gru_layer \<Rightarrow> int \<Rightarrow> f32 list \<Rightarrow> f32 list \<Rightarrow> f32 list \<Rightarrow> f32 option" where
  "gru_output_sum gru i state r input =
     (let M = gl_nb_inputs gru; N = gl_nb_neurons gru; stride = 3 * N in do {
        b \<leftarrow> rd (gl_bias gru) (2 * N + i);
        ws \<leftarrow> column (gl_input_weights gru) (2 * N + i) stride M;
        xs \<leftarrow> slice input 0 M;
        us \<leftarrow> column (gl_recurrent_weights gru) (2 * N + i) stride N;
        ss \<leftarrow> slice state 0 N;
        Some (foldl (\<lambda>s (u, x, y). f32_add s (f32_mul (f32_mul (f32_of_int u) x) y))
          (weighted_sum (f32_of_int b) ws xs) (zip us (zip ss r)))
      })"

definition gru_activation :: "int \<Rightarrow> f32 \<Rightarrow> f32 option" where
  "gru_activation act x =
     (if act = ACTIVATION_SIGMOID then sigmoid_approx (f32_mul WEIGHTS_SCALE x)
      else if act = ACTIVATION_TANH then tansig_approx (f32_mul WEIGHTS_SCALE x)
      else if act = ACTIVATION_RELU then Some (relu (f32_mul WEIGHTS_SCALE x))
      else Some f32_0)"

text \<open>The new state. The gates are kept in arrays of \<open>MAX_NEURONS\<close> elements.\<close>

definition compute_gru :: "gru_layer \<Rightarrow> f32 list \<Rightarrow> f32 list \<Rightarrow> f32 list option" where
  "compute_gru gru state input =
     (let N = gl_nb_neurons gru in
      if N > MAX_NEURONS then None else do {
        z \<leftarrow> opt_map (\<lambda>i. do { s \<leftarrow> gru_sum gru 0 i state input; sigmoid_approx (f32_mul WEIGHTS_SCALE s) }) [0 .. N - 1];
        r \<leftarrow> opt_map (\<lambda>i. do { s \<leftarrow> gru_sum gru 1 i state input; sigmoid_approx (f32_mul WEIGHTS_SCALE s) }) [0 .. N - 1];
        h \<leftarrow> opt_map (\<lambda>i. do {
          s \<leftarrow> gru_output_sum gru i state r input;
          a \<leftarrow> gru_activation (gl_activation gru) s;
          zi \<leftarrow> rd z i;
          si \<leftarrow> rd state i;
          Some (f32_add (f32_mul zi si) (f32_mul (f32_sub (f32_of_int 1) zi) a))
        }) [0 .. N - 1];
        Some (h @ drop (length h) state)
      })"

section \<open>The model and its state\<close>

record rnn_model =
  m_input_dense_size :: int
  m_input_dense :: dense_layer
  m_vad_gru_size :: int
  m_vad_gru :: gru_layer
  m_noise_gru_size :: int
  m_noise_gru :: gru_layer
  m_denoise_gru_size :: int
  m_denoise_gru :: gru_layer
  m_denoise_output_size :: int
  m_denoise_output :: dense_layer
  m_vad_output_size :: int
  m_vad_output :: dense_layer

record rnn_state =
  r_model :: rnn_model
  r_vad_gru_state :: "f32 list"
  r_noise_gru_state :: "f32 list"
  r_denoise_gru_state :: "f32 list"

text \<open>What is written to an array of \<open>cap\<close> elements.\<close>

definition fill :: "int \<Rightarrow> 'a list \<Rightarrow> 'a list option" where
  "fill cap xs = (if int (length xs) \<le> cap then Some xs else None)"

text \<open>\<open>gains\<close> has \<open>gcap\<close> elements and \<open>vad\<close> one.\<close>

definition compute_rnn :: "rnn_state \<Rightarrow> int \<Rightarrow> f32 list \<Rightarrow> (rnn_state \<times> f32 list \<times> f32 list) option" where
  "compute_rnn rnn gcap input =
     (let m = r_model rnn in do {
        dense_out \<leftarrow> compute_dense (m_input_dense m) MAX_NEURONS input;
        vad_state \<leftarrow> compute_gru (m_vad_gru m) (r_vad_gru_state rnn) dense_out;
        vad \<leftarrow> compute_dense (m_vad_output m) 1 vad_state;
        d \<leftarrow> slice dense_out 0 (m_input_dense_size m);
        v \<leftarrow> slice vad_state 0 (m_vad_gru_size m);
        x \<leftarrow> slice input 0 INPUT_SIZE;
        noise_input \<leftarrow> fill (3 * MAX_NEURONS) (d @ v @ x);
        noise_state \<leftarrow> compute_gru (m_noise_gru m) (r_noise_gru_state rnn) noise_input;
        n \<leftarrow> slice noise_state 0 (m_noise_gru_size m);
        denoise_input \<leftarrow> fill (3 * MAX_NEURONS) (v @ n @ x);
        denoise_state \<leftarrow> compute_gru (m_denoise_gru m) (r_denoise_gru_state rnn) denoise_input;
        gains \<leftarrow> compute_dense (m_denoise_output m) gcap denoise_state;
        Some (rnn\<lparr>r_vad_gru_state := vad_state, r_noise_gru_state := noise_state,
                  r_denoise_gru_state := denoise_state\<rparr>, gains, vad)
      })"

text \<open>
  The built-in model of \<^verbatim>\<open>rnn_data.c\<close>: \<open>w\<close> gives the arrays of weights in the order of the
  file: input dense (weights, bias), vad, noise and denoise layer (input weights, recurrent
  weights, bias), denoise output and vad output (weights, bias).
\<close>

definition rnnoise_model_orig :: "(nat \<Rightarrow> int list) \<Rightarrow> rnn_model" where
  "rnnoise_model_orig w = \<lparr>
     m_input_dense_size = 24,
     m_input_dense = \<lparr>dl_bias = w 1, dl_input_weights = w 0, dl_nb_inputs = 42, dl_nb_neurons = 24,
       dl_activation = ACTIVATION_TANH\<rparr>,
     m_vad_gru_size = 24,
     m_vad_gru = \<lparr>gl_bias = w 4, gl_input_weights = w 2, gl_recurrent_weights = w 3, gl_nb_inputs = 24,
       gl_nb_neurons = 24, gl_activation = ACTIVATION_RELU\<rparr>,
     m_noise_gru_size = 48,
     m_noise_gru = \<lparr>gl_bias = w 7, gl_input_weights = w 5, gl_recurrent_weights = w 6, gl_nb_inputs = 90,
       gl_nb_neurons = 48, gl_activation = ACTIVATION_RELU\<rparr>,
     m_denoise_gru_size = 96,
     m_denoise_gru = \<lparr>gl_bias = w 10, gl_input_weights = w 8, gl_recurrent_weights = w 9, gl_nb_inputs = 114,
       gl_nb_neurons = 96, gl_activation = ACTIVATION_RELU\<rparr>,
     m_denoise_output_size = 22,
     m_denoise_output = \<lparr>dl_bias = w 12, dl_input_weights = w 11, dl_nb_inputs = 96, dl_nb_neurons = 22,
       dl_activation = ACTIVATION_SIGMOID\<rparr>,
     m_vad_output_size = 1,
     m_vad_output = \<lparr>dl_bias = w 14, dl_input_weights = w 13, dl_nb_inputs = 24, dl_nb_neurons = 1,
       dl_activation = ACTIVATION_SIGMOID\<rparr>\<rparr>"

text \<open>The lengths the file declares.\<close>

definition orig_weights :: "(nat \<Rightarrow> int list) \<Rightarrow> bool" where
  "orig_weights w \<longleftrightarrow>
     length (w 0) = 1008 \<and> length (w 1) = 24 \<and> length (w 2) = 1728 \<and> length (w 3) = 1728 \<and>
     length (w 4) = 72 \<and> length (w 5) = 12960 \<and> length (w 6) = 6912 \<and> length (w 7) = 144 \<and>
     length (w 8) = 32832 \<and> length (w 9) = 27648 \<and> length (w 10) = 288 \<and> length (w 11) = 2112 \<and>
     length (w 12) = 22 \<and> length (w 13) = 24 \<and> length (w 14) = 1"

end
