(* ===== verification/CeltLpc.thy ===== *)
theory CeltLpc
  imports RnnArrays Prelude
begin

text \<open>
  The correlations and the linear prediction of \<^verbatim>\<open>pitch.h\<close>, \<^verbatim>\<open>pitch.c\<close> and
  \<^verbatim>\<open>celt_lpc.c\<close>, the floating-point build. An array argument is the array and the offset
  of the pointer. The kernel that computes four correlations at a time and keeps the samples in
  variables is related to the plain loop that \<^verbatim>\<open>pitch.c\<close> keeps under \<^verbatim>\<open>#if 0\<close>.
\<close>

section \<open>Correlations\<close>

text \<open>\<^verbatim>\<open>MAC16_16\<close>: a product that is rounded, then a sum that is rounded.\<close>

definition MAC :: "f32 \<Rightarrow> f32 \<Rightarrow> f32 \<Rightarrow> f32" where
  "MAC c a b = f32_add c (f32_mul a b)"

definition mac_sum :: "f32 \<Rightarrow> f32 list \<Rightarrow> f32 list \<Rightarrow> f32" where
  "mac_sum s xs ys = foldl (\<lambda>s (a, b). MAC s a b) s (zip xs ys)"

definition celt_inner_prod :: "f32 list \<Rightarrow> int \<Rightarrow> f32 list \<Rightarrow> int \<Rightarrow> int \<Rightarrow> f32 option" where
  "celt_inner_prod x xo y yo N = do {
     xs \<leftarrow> slice x xo N;
     ys \<leftarrow> slice y yo N;
     Some (mac_sum f32_0 xs ys)
   }"

definition dual_inner_prod ::
    "f32 list \<Rightarrow> int \<Rightarrow> f32 list \<Rightarrow> int \<Rightarrow> f32 list \<Rightarrow> int \<Rightarrow> int \<Rightarrow> (f32 \<times> f32) option" where
  "dual_inner_prod x xo y01 o1 y02 o2 N = do {
     xs \<leftarrow> slice x xo N;
     y1 \<leftarrow> slice y01 o1 N;
     y2 \<leftarrow> slice y02 o2 N;
     Some (mac_sum f32_0 xs y1, mac_sum f32_0 xs y2)
   }"

type_synonym sum4 = "f32 \<times> f32 \<times> f32 \<times> f32"

fun mac4 :: "sum4 \<Rightarrow> f32 \<Rightarrow> sum4 \<Rightarrow> sum4" where
  "mac4 (s0, s1, s2, s3) t (a, b, c, d) = (MAC s0 t a, MAC s1 t b, MAC s2 t c, MAC s3 t d)"

text \<open>One turn of the main loop: four samples of each array, the variables \<open>y_0\<close> to \<open>y_3\<close> used in
  rotation. The state is \<open>y_0\<close>, \<open>y_1\<close>, \<open>y_2\<close>, \<open>y_3\<close> and the sums.\<close>

type_synonym kernel_state = "f32 \<times> f32 \<times> f32 \<times> f32 \<times> sum4"

definition xcorr_turn :: "f32 list \<Rightarrow> int \<Rightarrow> f32 list \<Rightarrow> int \<Rightarrow> int \<Rightarrow> kernel_state \<Rightarrow> kernel_state option" where
  "xcorr_turn x xo y yo j st = (case st of (y0, y1, y2, y3, s) \<Rightarrow> do {
     t \<leftarrow> rd x (xo + j); y3 \<leftarrow> rd y (yo + j + 3);
     let s = mac4 s t (y0, y1, y2, y3);
     t \<leftarrow> rd x (xo + j + 1); y0 \<leftarrow> rd y (yo + j + 4);
     let s = mac4 s t (y1, y2, y3, y0);
     t \<leftarrow> rd x (xo + j + 2); y1 \<leftarrow> rd y (yo + j + 5);
     let s = mac4 s t (y2, y3, y0, y1);
     t \<leftarrow> rd x (xo + j + 3); y2 \<leftarrow> rd y (yo + j + 6);
     let s = mac4 s t (y3, y0, y1, y2);
     Some (y0, y1, y2, y3, s)
   })"

text \<open>The turns are those of \<open>j = 0, 4, ...\<close> below \<open>len - 3\<close>; up to three samples are left.\<close>

definition xcorr_kernel :: "f32 list \<Rightarrow> int \<Rightarrow> f32 list \<Rightarrow> int \<Rightarrow> sum4 \<Rightarrow> int \<Rightarrow> sum4 option" where
  "xcorr_kernel x xo y yo s len = do {
     y0 \<leftarrow> rd y yo; y1 \<leftarrow> rd y (yo + 1); y2 \<leftarrow> rd y (yo + 2);
     (y0, y1, y2, y3, s) \<leftarrow> for_each (xcorr_turn x xo y yo) (map (\<lambda>i. 4 * int i) [0 ..< nat len div 4]) (y0, y1, y2, f32_0, s);
     let j = 4 * (len div 4);
     (y3, s) \<leftarrow> (if j < len then do {
         t \<leftarrow> rd x (xo + j); y3 \<leftarrow> rd y (yo + j + 3); Some (y3, mac4 s t (y0, y1, y2, y3)) } else Some (y3, s));
     (y0, s) \<leftarrow> (if j + 1 < len then do {
         t \<leftarrow> rd x (xo + j + 1); y0 \<leftarrow> rd y (yo + j + 4); Some (y0, mac4 s t (y1, y2, y3, y0)) } else Some (y0, s));
     (if j + 2 < len then do {
         t \<leftarrow> rd x (xo + j + 2); y1 \<leftarrow> rd y (yo + j + 5); Some (mac4 s t (y2, y3, y0, y1)) } else Some s)
   }"

text \<open>Four lags at a time, then one at a time.\<close>

definition celt_pitch_xcorr :: "f32 list \<Rightarrow> f32 list \<Rightarrow> int \<Rightarrow> int \<Rightarrow> f32 list option" where
  "celt_pitch_xcorr x y len max_pitch =
     (let n4 = nat max_pitch div 4 in do {
        blocks \<leftarrow> opt_map (\<lambda>k. do {
          (a, b, c, d) \<leftarrow> xcorr_kernel x 0 y (4 * int k) (f32_0, f32_0, f32_0, f32_0) len;
          Some [a, b, c, d]
        }) [0 ..< n4];
        tail \<leftarrow> opt_map (\<lambda>i. celt_inner_prod x 0 y (int i) len) [4 * n4 ..< nat max_pitch];
        Some (concat blocks @ tail)
      })"

text \<open>The version under \<^verbatim>\<open>#if 0\<close>.\<close>

definition celt_pitch_xcorr_simple :: "f32 list \<Rightarrow> f32 list \<Rightarrow> int \<Rightarrow> int \<Rightarrow> f32 list option" where
  "celt_pitch_xcorr_simple x y len max_pitch =
     opt_map (\<lambda>i. do {
       xs \<leftarrow> slice x 0 len;
       ys \<leftarrow> slice y (int i) len;
       Some (mac_sum f32_0 xs ys)
     }) [0 ..< nat max_pitch]"

section \<open>Linear prediction\<close>

text \<open>The update of the coefficients for the reflection coefficient \<open>r\<close>: \<open>j\<close> below \<open>(i + 1) >> 1\<close>.\<close>

definition lpc_update :: "nat \<Rightarrow> f32 \<Rightarrow> f32 list \<Rightarrow> f32 list" where
  "lpc_update i r lpc = foldl (\<lambda>lpc j.
     let tmp1 = lpc ! j; tmp2 = lpc ! (i - 1 - j)
     in lpc[j := f32_add tmp1 (f32_mul r tmp2), i - 1 - j := f32_add tmp2 (f32_mul r tmp1)])
   lpc [0 ..< (i + 1) div 2]"

text \<open>The steps \<open>i\<close>, \<open>i + 1\<close>, ... of the recursion, \<open>n\<close> of them unless the error gets small.\<close>

fun lpc_steps :: "f32 list \<Rightarrow> nat \<Rightarrow> nat \<Rightarrow> f32 list \<Rightarrow> f32 \<Rightarrow> f32 list" where
  "lpc_steps ac i 0 lpc error = lpc"
| "lpc_steps ac i (Suc n) lpc error =
     (let rr = foldl (\<lambda>rr j. f32_add rr (f32_mul (lpc ! j) (ac ! (i - j)))) f32_0 [0 ..< i];
          rr = f32_add rr (ac ! (i + 1));
          r = f32_div (f32_neg rr) error;
          lpc = lpc_update i r (lpc[i := r]);
          error = f32_sub error (f32_mul (f32_mul r r) error)
      in if f32_lt error (f32_mul (f32_lit 1 (-3)) (ac ! 0)) then lpc
         else lpc_steps ac (i + 1) n lpc error)"

definition celt_lpc :: "f32 list \<Rightarrow> nat \<Rightarrow> f32 list option" where
  "celt_lpc ac p =
     (if length ac \<le> p then None
      else Some (let lpc = replicate p f32_0
                 in if f32_eq (ac ! 0) f32_0 then lpc else lpc_steps ac 0 p lpc (ac ! 0)))"

text \<open>The autocorrelation of \<open>n\<close> samples for the lags 0 to \<open>lag\<close>, after a window on the first and
  the last \<open>overlap\<close> samples.\<close>

definition celt_autocorr :: "f32 list \<Rightarrow> f32 list \<Rightarrow> int \<Rightarrow> int \<Rightarrow> int \<Rightarrow> f32 list option" where
  "celt_autocorr x window overlap lag n =
     (let fastN = n - lag in do {
        x \<leftarrow> slice x 0 n;
        w \<leftarrow> slice window 0 overlap;
        xptr \<leftarrow> (if overlap = 0 then Some x
                 else if overlap > n then None
                 else Some (foldl (\<lambda>xx i. xx[i := f32_mul (x ! i) (w ! i),
                     nat n - i - 1 := f32_mul (x ! (nat n - i - 1)) (w ! i)]) x [0 ..< nat overlap]));
        ac \<leftarrow> celt_pitch_xcorr xptr xptr fastN (lag + 1);
        opt_map (\<lambda>k. do {
          xs \<leftarrow> slice xptr (int k + fastN) (n - int k - fastN);
          ys \<leftarrow> slice xptr fastN (n - int k - fastN);
          Some (f32_add (ac ! k) (mac_sum f32_0 xs ys))
        }) [0 ..< nat lag + 1]
      })"

section \<open>Filters\<close>

text \<open>\<open>x\<close> starts \<open>ord\<close> samples before the first one that is filtered.\<close>

definition celt_fir :: "f32 list \<Rightarrow> f32 list \<Rightarrow> int \<Rightarrow> int \<Rightarrow> f32 list option" where
  "celt_fir x num N ord =
     (let n4 = nat N div 4 in do {
        num \<leftarrow> slice num 0 ord;
        let rnum = rev num;
        blocks \<leftarrow> opt_map (\<lambda>k. do {
          xs \<leftarrow> slice x (4 * int k + ord) 4;
          (a, b, c, d) \<leftarrow> xcorr_kernel rnum 0 x (4 * int k) (xs ! 0, xs ! 1, xs ! 2, xs ! 3) ord;
          Some [a, b, c, d]
        }) [0 ..< n4];
        tail \<leftarrow> opt_map (\<lambda>i. do {
          v \<leftarrow> rd x (int i + ord);
          xs \<leftarrow> slice x (int i) ord;
          Some (mac_sum v rnum xs)
        }) [4 * n4 ..< nat N];
        Some (concat blocks @ tail)
      })"

text \<open>
  The recursive filter. \<open>y\<close> holds the negated outputs, the memory first; the kernel gives the
  part of four outputs that comes from before them, and each of the four is then completed with
  the ones before it. The loop for the last outputs subtracts the products with \<open>y\<close> and stores
  the output without the sign.
\<close>

definition iir_turn :: "f32 list \<Rightarrow> f32 list \<Rightarrow> f32 list \<Rightarrow> int \<Rightarrow> nat \<Rightarrow> f32 list \<times> f32 list \<Rightarrow> (f32 list \<times> f32 list) option" where
  "iir_turn x den rden ord k st = (case st of (y, out) \<Rightarrow> do {
     let i = 4 * k;
     let o1 = nat ord;
     xs \<leftarrow> slice x (int i) 4;
     (s0, s1, s2, s3) \<leftarrow> xcorr_kernel rden 0 y (int i) (xs ! 0, xs ! 1, xs ! 2, xs ! 3) ord;
     let y = y[i + o1 := f32_neg s0];
     let s1 = MAC s1 (y ! (i + o1)) (den ! 0);
     let y = y[i + o1 + 1 := f32_neg s1];
     let s2 = MAC s2 (y ! (i + o1 + 1)) (den ! 0);
     let s2 = MAC s2 (y ! (i + o1)) (den ! 1);
     let y = y[i + o1 + 2 := f32_neg s2];
     let s3 = MAC s3 (y ! (i + o1 + 2)) (den ! 0);
     let s3 = MAC s3 (y ! (i + o1 + 1)) (den ! 1);
     let s3 = MAC s3 (y ! (i + o1)) (den ! 2);
     let y = y[i + o1 + 3 := f32_neg s3];
     Some (y, out @ [s0, s1, s2, s3])
   })"

definition iir_tail :: "f32 list \<Rightarrow> f32 list \<Rightarrow> int \<Rightarrow> nat \<Rightarrow> f32 list \<times> f32 list \<Rightarrow> (f32 list \<times> f32 list) option" where
  "iir_tail x rden ord i st = (case st of (y, out) \<Rightarrow> do {
     v \<leftarrow> rd x (int i);
     ys \<leftarrow> slice y (int i) ord;
     let s = foldl (\<lambda>s (a, b). f32_sub s (f32_mul a b)) v (zip rden ys);
     Some (y[i + nat ord := s], out @ [s])
   })"

definition celt_iir :: "f32 list \<Rightarrow> f32 list \<Rightarrow> int \<Rightarrow> int \<Rightarrow> f32 list \<Rightarrow> (f32 list \<times> f32 list) option" where
  "celt_iir x den N ord mem = do {
     den \<leftarrow> slice den 0 ord;
     m \<leftarrow> slice mem 0 ord;
     let rden = rev den;
     let y = map f32_neg (rev m) @ replicate (nat N) f32_0;
     let n4 = nat N div 4;
     (y, out) \<leftarrow> (if n4 > 0 \<and> ord < 3 then None else for_each (iir_turn x den rden ord) [0 ..< n4] (y, []));
     (y, out) \<leftarrow> for_each (iir_tail x rden ord) [4 * n4 ..< nat N] (y, out);
     if int (length out) < ord then None
     else Some (out, map (\<lambda>i. out ! (nat N - i - 1)) [0 ..< nat ord])
   }"

text \<open>The version for \<^verbatim>\<open>SMALL_FOOTPRINT\<close>: the memory is shifted for every output.\<close>

definition celt_iir_small :: "f32 list \<Rightarrow> f32 list \<Rightarrow> int \<Rightarrow> int \<Rightarrow> f32 list \<Rightarrow> (f32 list \<times> f32 list) option" where
  "celt_iir_small x den N ord mem = do {
     den \<leftarrow> slice den 0 ord;
     m \<leftarrow> slice mem 0 ord;
     for_each (\<lambda>i (out, m). do {
       v \<leftarrow> rd x (int i);
       let s = foldl (\<lambda>s (a, b). f32_sub s (f32_mul a b)) v (zip den m);
       Some (out @ [s], take (length m) (s # m))
     }) [0 ..< nat N] ([], m)
   }"

section \<open>The kernel and the plain loop\<close>

text \<open>\<open>ip s k n\<close>: \<open>n\<close> products with the second array \<open>k\<close> samples further.\<close>

definition ip :: "f32 list \<Rightarrow> nat \<Rightarrow> f32 list \<Rightarrow> nat \<Rightarrow> f32 \<Rightarrow> nat \<Rightarrow> nat \<Rightarrow> f32" where
  "ip x xo y yo s k n = foldl (\<lambda>s j. MAC s (x ! (xo + j)) (y ! (yo + j + k))) s [0 ..< n]"

lemma ip_0 [simp]: "ip x xo y yo s k 0 = s"
  by (simp add: ip_def)

lemma ip_Suc: "ip x xo y yo s k (Suc n) = MAC (ip x xo y yo s k n) (x ! (xo + n)) (y ! (yo + n + k))"
  by (simp add: ip_def)

lemma mac_sum_ip:
  assumes "xo + n \<le> length x" "yo + k + n \<le> length y"
  shows "mac_sum s (take n (drop xo x)) (take n (drop (yo + k) y)) = ip x xo y yo s k n"
proof -
  have "zip (take n (drop xo x)) (take n (drop (yo + k) y)) = map (\<lambda>j. (x ! (xo + j), y ! (yo + j + k))) [0 ..< n]"
    using assms by (intro nth_equalityI) (simp_all add: ac_simps)
  then show ?thesis by (simp add: mac_sum_def ip_def foldl_map)
qed

lemma celt_inner_prod_ip:
  assumes "xo + n \<le> length x" "yo + n \<le> length y"
  shows "celt_inner_prod x (int xo) y (int yo) (int n) = Some (ip x xo y yo f32_0 0 n)"
  using assms mac_sum_ip [of xo n x yo 0 y f32_0] by (simp add: celt_inner_prod_def slice_Some)

lemma rd_nat: "i = int n \<Longrightarrow> n < length xs \<Longrightarrow> rd xs i = Some (xs ! n)"
  by simp

definition ip4 :: "f32 list \<Rightarrow> nat \<Rightarrow> f32 list \<Rightarrow> nat \<Rightarrow> sum4 \<Rightarrow> nat \<Rightarrow> sum4" where
  "ip4 x xo y yo s n = (case s of (s0, s1, s2, s3) \<Rightarrow>
     (ip x xo y yo s0 0 n, ip x xo y yo s1 1 n, ip x xo y yo s2 2 n, ip x xo y yo s3 3 n))"

lemma ip4_Suc: "ip4 x xo y yo s (Suc n) = mac4 (ip4 x xo y yo s n) (x ! (xo + n))
    (y ! (yo + n), y ! (yo + n + 1), y ! (yo + n + 2), y ! (yo + n + 3))"
  by (cases s rule: prod_cases4) (simp add: ip4_def ip_Suc)

text \<open>After \<open>n\<close> turns the variables hold the three samples that come next.\<close>

lemma xcorr_turns:
  assumes "xo + 4 * n \<le> length x" "yo + 4 * n + 3 \<le> length y"
  shows "\<exists>y3. for_each (xcorr_turn x (int xo) y (int yo)) (map (\<lambda>i. 4 * int i) [0 ..< n])
      (y ! yo, y ! (yo + 1), y ! (yo + 2), f32_0, s) =
    Some (y ! (yo + 4 * n), y ! (yo + 4 * n + 1), y ! (yo + 4 * n + 2), y3, ip4 x xo y yo s (4 * n))"
  using assms
proof (induction n)
  case 0
  then show ?case by (cases s rule: prod_cases4) (simp add: ip4_def)
next
  case (Suc n)
  then obtain y3 where IH: "for_each (xcorr_turn x (int xo) y (int yo)) (map (\<lambda>i. 4 * int i) [0 ..< n])
      (y ! yo, y ! (yo + 1), y ! (yo + 2), f32_0, s) =
    Some (y ! (yo + 4 * n), y ! (yo + 4 * n + 1), y ! (yo + 4 * n + 2), y3, ip4 x xo y yo s (4 * n))"
    by auto
  have rx: "rd x (int xo + 4 * int n) = Some (x ! (xo + 4 * n))" "rd x (int xo + 4 * int n + 1) = Some (x ! (xo + 4 * n + 1))"
    "rd x (int xo + 4 * int n + 2) = Some (x ! (xo + 4 * n + 2))" "rd x (int xo + 4 * int n + 3) = Some (x ! (xo + 4 * n + 3))"
    by (rule rd_nat; use Suc.prems in simp)+
  have ry: "rd y (int yo + 4 * int n + 3) = Some (y ! (yo + 4 * n + 3))" "rd y (int yo + 4 * int n + 4) = Some (y ! (yo + 4 * n + 4))"
    "rd y (int yo + 4 * int n + 5) = Some (y ! (yo + 4 * n + 5))" "rd y (int yo + 4 * int n + 6) = Some (y ! (yo + 4 * n + 6))"
    by (rule rd_nat; use Suc.prems in simp)+
  have four: "4 * Suc n = Suc (Suc (Suc (Suc (4 * n))))" by simp
  show ?case unfolding upt_Suc_append [OF le0] map_append for_each_append IH four ip4_Suc
    by (simp add: xcorr_turn_def rx ry eval_nat_numeral)
qed

lemma xcorr_kernel_ip:
  assumes "xo + len \<le> length x" "yo + len + 3 \<le> length y"
  shows "xcorr_kernel x (int xo) y (int yo) s (int len) = Some (ip4 x xo y yo s len)"
proof -
  define n where "n = len div 4"
  define k where "k = len mod 4"
  have len: "len = 4 * n + k" "k < 4" by (simp_all add: n_def k_def)
  obtain y3 where turns: "for_each (xcorr_turn x (int xo) y (int yo)) (map (\<lambda>i. 4 * int i) [0 ..< n])
      (y ! yo, y ! (yo + 1), y ! (yo + 2), f32_0, s) =
    Some (y ! (yo + 4 * n), y ! (yo + 4 * n + 1), y ! (yo + 4 * n + 2), y3, ip4 x xo y yo s (4 * n))"
    using xcorr_turns [of xo n x yo y s] assms len by auto
  have start: "rd y (int yo) = Some (y ! yo)" "rd y (int yo + 1) = Some (y ! (yo + 1))" "rd y (int yo + 2) = Some (y ! (yo + 2))"
    by (rule rd_nat; use assms in simp)+
  have j: "nat (int len) div 4 = n" "4 * (int len div 4) = 4 * int n"
    by (simp_all add: n_def zdiv_int)
  have rx: "rd x (int xo + 4 * int n + int d) = Some (x ! (xo + 4 * n + d))" if "d < k" for d
    by (rule rd_nat) (use assms len that in simp_all)
  have ry: "rd y (int yo + 4 * int n + int d) = Some (y ! (yo + 4 * n + d))" if "d < k + 3" for d
    by (rule rd_nat) (use assms len that in simp_all)
  have "k = 0 \<or> k = 1 \<or> k = 2 \<or> k = 3" using len(2) by auto
  then show ?thesis
  proof (elim disjE)
    assume k: "k = 0"
    have c: "\<not> 4 * int n < int len" "\<not> 4 * int n + 1 < int len" "\<not> 4 * int n + 2 < int len"
      and four: "4 * n = len" using len k by simp_all
    show ?thesis using turns by (simp add: xcorr_kernel_def start j c four n_def [symmetric])
  next
    assume k: "k = 1"
    have c: "4 * int n < int len" "\<not> 4 * int n + 1 < int len" "\<not> 4 * int n + 2 < int len"
      and four: "len = Suc (4 * n)" using len k by simp_all
    have e: "ip4 x xo y yo s len = ip4 x xo y yo s (Suc (4 * n))" unfolding four ..
    have r: "rd x (int xo + 4 * int n) = Some (x ! (xo + 4 * n))"
      "rd y (int yo + 4 * int n + 3) = Some (y ! (yo + 4 * n + 3))"
      using k rx [of 0] ry [of 3] by simp_all
    have E: "xcorr_kernel x (int xo) y (int yo) s (int len) = Some (mac4 (ip4 x xo y yo s (4 * n)) (x ! (xo + 4 * n))
        (y ! (yo + 4 * n), y ! (yo + 4 * n + 1), y ! (yo + 4 * n + 2), y ! (yo + 4 * n + 3)))"
      using turns by (simp add: xcorr_kernel_def start j c r n_def [symmetric])
    show ?thesis unfolding E e ip4_Suc by (simp add: eval_nat_numeral)
  next
    assume k: "k = 2"
    have c: "4 * int n < int len" "4 * int n + 1 < int len" "\<not> 4 * int n + 2 < int len"
      and four: "len = Suc (Suc (4 * n))" using len k by simp_all
    have e: "ip4 x xo y yo s len = ip4 x xo y yo s (Suc (Suc (4 * n)))" unfolding four ..
    have r: "rd x (int xo + 4 * int n) = Some (x ! (xo + 4 * n))" "rd x (int xo + 4 * int n + 1) = Some (x ! (xo + 4 * n + 1))"
      "rd y (int yo + 4 * int n + 3) = Some (y ! (yo + 4 * n + 3))" "rd y (int yo + 4 * int n + 4) = Some (y ! (yo + 4 * n + 4))"
      using k rx [of 0] ry [of 3] rx [of 1] ry [of 4] by simp_all
    have E: "xcorr_kernel x (int xo) y (int yo) s (int len) = Some (mac4 (mac4 (ip4 x xo y yo s (4 * n)) (x ! (xo + 4 * n))
        (y ! (yo + 4 * n), y ! (yo + 4 * n + 1), y ! (yo + 4 * n + 2), y ! (yo + 4 * n + 3))) (x ! (xo + 4 * n + 1))
        (y ! (yo + 4 * n + 1), y ! (yo + 4 * n + 2), y ! (yo + 4 * n + 3), y ! (yo + 4 * n + 4)))"
      using turns by (simp add: xcorr_kernel_def start j c r n_def [symmetric])
    show ?thesis unfolding E e ip4_Suc by (simp add: eval_nat_numeral)
  next
    assume k: "k = 3"
    have c: "4 * int n < int len" "4 * int n + 1 < int len" "4 * int n + 2 < int len"
      and four: "len = Suc (Suc (Suc (4 * n)))" using len k by simp_all
    have e: "ip4 x xo y yo s len = ip4 x xo y yo s (Suc (Suc (Suc (4 * n))))" unfolding four ..
    have r: "rd x (int xo + 4 * int n) = Some (x ! (xo + 4 * n))" "rd x (int xo + 4 * int n + 1) = Some (x ! (xo + 4 * n + 1))" "rd x (int xo + 4 * int n + 2) = Some (x ! (xo + 4 * n + 2))"
      "rd y (int yo + 4 * int n + 3) = Some (y ! (yo + 4 * n + 3))" "rd y (int yo + 4 * int n + 4) = Some (y ! (yo + 4 * n + 4))" "rd y (int yo + 4 * int n + 5) = Some (y ! (yo + 4 * n + 5))"
      using k rx [of 0] ry [of 3] rx [of 1] ry [of 4] rx [of 2] ry [of 5] by simp_all
    have E: "xcorr_kernel x (int xo) y (int yo) s (int len) = Some (mac4 (mac4 (mac4 (ip4 x xo y yo s (4 * n)) (x ! (xo + 4 * n))
        (y ! (yo + 4 * n), y ! (yo + 4 * n + 1), y ! (yo + 4 * n + 2), y ! (yo + 4 * n + 3))) (x ! (xo + 4 * n + 1))
        (y ! (yo + 4 * n + 1), y ! (yo + 4 * n + 2), y ! (yo + 4 * n + 3), y ! (yo + 4 * n + 4))) (x ! (xo + 4 * n + 2))
        (y ! (yo + 4 * n + 2), y ! (yo + 4 * n + 3), y ! (yo + 4 * n + 4), y ! (yo + 4 * n + 5)))"
      using turns by (simp add: xcorr_kernel_def start j c r n_def [symmetric])
    show ?thesis unfolding E e ip4_Suc by (simp add: eval_nat_numeral)
  qed
qed

lemma celt_pitch_xcorr_simple_ip:
  assumes "len \<le> length x" "len + max_pitch \<le> length y + 1"
  shows "celt_pitch_xcorr_simple x y (int len) (int max_pitch) =
    Some (map (\<lambda>i. ip x 0 y i f32_0 0 len) [0 ..< max_pitch])"
  unfolding celt_pitch_xcorr_simple_def nat_int
proof (rule opt_map_Some)
  fix i assume "i \<in> set [0 ..< max_pitch]"
  then show "do { xs \<leftarrow> slice x 0 (int len); ys \<leftarrow> slice y (int i) (int len); Some (mac_sum f32_0 xs ys) } =
      Some (ip x 0 y i f32_0 0 len)"
    using assms mac_sum_ip [of 0 len x i 0 y f32_0] by (simp add: slice_Some)
qed

lemma ip_shift: "ip x xo y yo s k n = ip x xo y (yo + k) s 0 n"
  by (simp add: ip_def ac_simps)

lemma concat_blocks: "concat (map (\<lambda>k. [f (4 * k), f (4 * k + 1), f (4 * k + 2), f (4 * k + 3)]) [0 ..< n]) = map f [0 ..< 4 * n]"
proof (induction n)
  case (Suc n)
  have four: "4 * Suc n = Suc (Suc (Suc (Suc (4 * n))))" by simp
  have "[0 ..< 4 * Suc n] = [0 ..< 4 * n] @ [4 * n, 4 * n + 1, 4 * n + 2, 4 * n + 3]"
    unfolding four by (simp add: eval_nat_numeral)
  with Suc show ?case by simp
qed simp

text \<open>The blocks of four read no further than the plain loop, except when \<open>len\<close> is 0.\<close>

lemma celt_pitch_xcorr_ip:
  assumes "0 < len" "len \<le> length x" "len + max_pitch \<le> length y + 1"
  shows "celt_pitch_xcorr x y (int len) (int max_pitch) = Some (map (\<lambda>i. ip x 0 y i f32_0 0 len) [0 ..< max_pitch])"
proof -
  define n4 where "n4 = max_pitch div 4"
  have n4: "4 * n4 \<le> max_pitch" by (simp add: n4_def)
  define f where "f i = ip x 0 y i f32_0 0 len" for i
  have blocks: "opt_map (\<lambda>k. do { (a, b, c, d) \<leftarrow> xcorr_kernel x 0 y (4 * int k) (f32_0, f32_0, f32_0, f32_0) (int len); Some [a, b, c, d] })
      [0 ..< n4] = Some (map (\<lambda>k. [f (4 * k), f (4 * k + 1), f (4 * k + 2), f (4 * k + 3)]) [0 ..< n4])"
  proof (rule opt_map_Some)
    fix k assume "k \<in> set [0 ..< n4]"
    then have "4 * k + 4 \<le> max_pitch" using n4 by auto
    then show "do { (a, b, c, d) \<leftarrow> xcorr_kernel x 0 y (4 * int k) (f32_0, f32_0, f32_0, f32_0) (int len); Some [a, b, c, d] } =
        Some [f (4 * k), f (4 * k + 1), f (4 * k + 2), f (4 * k + 3)]"
      using xcorr_kernel_ip [of 0 len x "4 * k" y "(f32_0, f32_0, f32_0, f32_0)"] assms
        ip_shift [of x 0 y "4 * k" f32_0 1 len] ip_shift [of x 0 y "4 * k" f32_0 2 len] ip_shift [of x 0 y "4 * k" f32_0 3 len]
      by (simp add: ip4_def f_def)
  qed
  have tail: "opt_map (\<lambda>i. celt_inner_prod x 0 y (int i) (int len)) [4 * n4 ..< max_pitch] = Some (map f [4 * n4 ..< max_pitch])"
    by (rule opt_map_Some) (use celt_inner_prod_ip [of 0 len x _ y] assms in \<open>auto simp: f_def\<close>)
  have split: "map f [0 ..< 4 * n4] @ map f [4 * n4 ..< max_pitch] = map f [0 ..< max_pitch]"
    using n4 upt_add_eq_append [of 0 "4 * n4" "max_pitch - 4 * n4"] by (simp flip: map_append)
  show ?thesis unfolding celt_pitch_xcorr_def Let_def nat_int n4_def [symmetric] blocks
    by (simp only: tail bind.bind_lunit concat_blocks split f_def [symmetric])
qed

section \<open>The recursive filter's last outputs\<close>

text \<open>With a single coefficient 1 the output alternates. The fifth output is the first of the loop
  for what is left after the blocks of four: its sign is wrong.\<close>

lemma celt_iir_tail_sign:
  "map_option fst (celt_iir (replicate 5 f32_0) [f32_of_int 1, f32_0, f32_0, f32_0] 5 4 [f32_of_int 1, f32_0, f32_0, f32_0])
    = Some (map f32_of_int [-1, 1, -1, 1, 1])"
  "map_option fst (celt_iir_small (replicate 5 f32_0) [f32_of_int 1, f32_0, f32_0, f32_0] 5 4 [f32_of_int 1, f32_0, f32_0, f32_0])
    = Some (map f32_of_int [-1, 1, -1, 1, -1])"
  by code_simp+

section \<open>The properties\<close>

text \<open>
  C18. The unrolled cross-correlation, four lags at a time with four products each and the rest
  one by one, gives the same floats as the plain loop over the lags: the products of a lag are
  added in the same order.
\<close>

theorem pitch_xcorr_unrolled:
  assumes "0 < len" "len \<le> length x" "len + max_pitch \<le> length y + 1"
  shows "celt_pitch_xcorr x y (int len) (int max_pitch) = celt_pitch_xcorr_simple x y (int len) (int max_pitch)"
  using celt_pitch_xcorr_ip [OF assms] celt_pitch_xcorr_simple_ip [OF assms(2,3)] by simp

theorem pitch_xcorr_unrolled_witness:
  "celt_pitch_xcorr (map f32_of_int [1, 2, 3, 4, 5]) (map f32_of_int [5, 0, -1, 2, 7, 3, 1, 0, 2, 4]) (int 5) (int 6) =
   celt_pitch_xcorr_simple (map f32_of_int [1, 2, 3, 4, 5]) (map f32_of_int [5, 0, -1, 2, 7, 3, 1, 0, 2, 4]) (int 5) (int 6)"
  by (rule pitch_xcorr_unrolled) simp_all

end
