(* ===== verification/Pitch.thy ===== *)
theory Pitch
  imports CeltLpc
begin

text \<open>
  The pitch analysis of the denoiser, \<^verbatim>\<open>pitch.c\<close>, the floating-point build: the signal at
  half the rate, whitened, the search for the lag of the greatest correlation and the check for
  a period that is a fraction of it. A period of 60 to 767 samples comes out, whatever the
  samples are.
\<close>

section \<open>The two best lags\<close>

record best =
  b_num0 :: f32
  b_num1 :: f32
  b_den0 :: f32
  b_den1 :: f32
  b_pitch0 :: int
  b_pitch1 :: int

definition best_start :: best where
  "best_start = \<lparr>b_num0 = f32_of_int (-1), b_num1 = f32_of_int (-1), b_den0 = f32_0, b_den1 = f32_0,
    b_pitch0 = 0, b_pitch1 = 1\<rparr>"

text \<open>A correlation that beats the second, and perhaps the first.\<close>

definition best_insert :: "int \<Rightarrow> f32 \<Rightarrow> f32 \<Rightarrow> best \<Rightarrow> best" where
  "best_insert i corr Syy b =
     (let xcorr16 = f32_mul corr (f32_lit 1 (-12)); num = f32_mul xcorr16 xcorr16 in
      if f32_gt (f32_mul num (b_den1 b)) (f32_mul (b_num1 b) Syy)
      then (if f32_gt (f32_mul num (b_den0 b)) (f32_mul (b_num0 b) Syy)
            then b\<lparr>b_num1 := b_num0 b, b_den1 := b_den0 b, b_pitch1 := b_pitch0 b,
                   b_num0 := num, b_den0 := Syy, b_pitch0 := i\<rparr>
            else b\<lparr>b_num1 := num, b_den1 := Syy, b_pitch1 := i\<rparr>)
      else b)"

definition find_best_pitch :: "f32 list \<Rightarrow> f32 list \<Rightarrow> int \<Rightarrow> int \<Rightarrow> best option" where
  "find_best_pitch xcorr y len max_pitch = do {
     ys \<leftarrow> slice y 0 len;
     let Syy = mac_sum (f32_of_int 1) ys ys;
     (b, _) \<leftarrow> for_each (\<lambda>i (b, Syy). do {
       c \<leftarrow> rd xcorr i;
       let b = (if f32_gt c f32_0 then best_insert i c Syy b else b);
       u \<leftarrow> rd y (i + len);
       v \<leftarrow> rd y i;
       let Syy = f32_add Syy (f32_sub (f32_mul u u) (f32_mul v v));
       Some (b, fmax_macro (f32_of_int 1) Syy)
     }) [0 .. max_pitch - 1] (best_start, Syy);
     Some b
   }"

section \<open>The signal at half the rate\<close>

type_synonym fir5_mem = "f32 \<times> f32 \<times> f32 \<times> f32 \<times> f32"

fun celt_fir5 :: "f32 list \<Rightarrow> f32 list \<Rightarrow> fir5_mem \<Rightarrow> f32 list" where
  "celt_fir5 [] num mem = []"
| "celt_fir5 (x # xs) num (m0, m1, m2, m3, m4) =
     MAC (MAC (MAC (MAC (MAC x (num ! 0) m0) (num ! 1) m1) (num ! 2) m2) (num ! 3) m3) (num ! 4) m4
     # celt_fir5 xs num (x, m0, m1, m2, m3)"

definition half32 :: "f32 \<Rightarrow> f32" where
  "half32 x = f32_mul (f32_lit 5 (-1)) x"

definition halve_rate :: "f32 list \<Rightarrow> int \<Rightarrow> f32 list option" where
  "halve_rate x len =
     opt_map (\<lambda>i. if i = 0 then do {
         b \<leftarrow> rd x 1; a \<leftarrow> rd x 0; Some (half32 (f32_add (half32 b) a)) }
       else do {
         a \<leftarrow> rd x (2 * i - 1); b \<leftarrow> rd x (2 * i + 1); c \<leftarrow> rd x (2 * i);
         Some (half32 (f32_add (half32 (f32_add a b)) c)) })
     [0 .. drop_bit 1 len - 1]"

text \<open>The noise floor and the window on the lags; the coefficients shrunk, and a zero added.\<close>

definition pitch_lag_window :: "f32 list \<Rightarrow> f32 list" where
  "pitch_lag_window ac = foldl (\<lambda>ac i. let t = f32_mul (f32_lit 8 (-3)) (f32_of_int (int i))
     in ac[i := f32_sub (ac ! i) (f32_mul (f32_mul (ac ! i) t) t)])
   (ac[0 := f32_mul (ac ! 0) (f32_lit 10001 (-4))]) [1 ..< 5]"

definition whitening_filter :: "f32 list \<Rightarrow> f32 list" where
  "whitening_filter lpc =
     (let (lpc, _) = foldl (\<lambda>(lpc, tmp) i. let tmp = f32_mul (f32_lit 9 (-1)) tmp
            in (lpc[i := f32_mul (lpc ! i) tmp], tmp)) (lpc, f32_of_int 1) [0 ..< 4];
          c1 = f32_lit 8 (-1)
      in [f32_add (lpc ! 0) (f32_lit 8 (-1)), f32_add (lpc ! 1) (f32_mul c1 (lpc ! 0)),
          f32_add (lpc ! 2) (f32_mul c1 (lpc ! 1)), f32_add (lpc ! 3) (f32_mul c1 (lpc ! 2)), f32_mul c1 (lpc ! 3)])"

text \<open>\<open>x\<close> holds the channels, the second one for \<^verbatim>\<open>C == 2\<close>.\<close>

definition pitch_downsample :: "f32 list list \<Rightarrow> int \<Rightarrow> int \<Rightarrow> f32 list option" where
  "pitch_downsample x len C = do {
     x0 \<leftarrow> rd x 0;
     x_lp \<leftarrow> halve_rate x0 len;
     x_lp \<leftarrow> (if C = 2 then do {
         x1 \<leftarrow> rd x 1;
         z \<leftarrow> halve_rate x1 len;
         Some (map2 f32_add x_lp z) }
       else Some x_lp);
     ac \<leftarrow> celt_autocorr x_lp [] 0 4 (drop_bit 1 len);
     lpc \<leftarrow> celt_lpc (pitch_lag_window ac) 4;
     Some (celt_fir5 x_lp (whitening_filter lpc) (f32_0, f32_0, f32_0, f32_0, f32_0))
   }"

section \<open>The search\<close>

text \<open>Where the greatest of three neighbours is: which side is more than 0.7 of the middle's height.\<close>

definition pseudo_interp :: "f32 \<Rightarrow> f32 \<Rightarrow> f32 \<Rightarrow> int" where
  "pseudo_interp a b c =
     (if f32_gt (f32_sub c a) (f32_mul (f32_lit 7 (-1)) (f32_sub b a)) then 1
      else if f32_gt (f32_sub a c) (f32_mul (f32_lit 7 (-1)) (f32_sub b c)) then -1
      else 0)"

definition pitch_search :: "f32 list \<Rightarrow> int \<Rightarrow> f32 list \<Rightarrow> int \<Rightarrow> int \<Rightarrow> int option" where
  "pitch_search x_lp xo y len max_pitch =
     (let lag = len + max_pitch in do {
        x_lp4 \<leftarrow> opt_map (\<lambda>j. rd x_lp (xo + 2 * j)) [0 .. drop_bit 2 len - 1];
        y_lp4 \<leftarrow> opt_map (\<lambda>j. rd y (2 * j)) [0 .. drop_bit 2 lag - 1];
        xcorr \<leftarrow> celt_pitch_xcorr x_lp4 y_lp4 (drop_bit 2 len) (drop_bit 2 max_pitch);
        b \<leftarrow> find_best_pitch xcorr y_lp4 (drop_bit 2 len) (drop_bit 2 max_pitch);
        xcorr \<leftarrow> opt_map (\<lambda>i.
          if \<bar>i - 2 * b_pitch0 b\<bar> > 2 \<and> \<bar>i - 2 * b_pitch1 b\<bar> > 2 then Some f32_0
          else do {
            sum \<leftarrow> celt_inner_prod x_lp xo y i (drop_bit 1 len);
            Some (fmax_macro (f32_of_int (-1)) sum)
          }) [0 .. drop_bit 1 max_pitch - 1];
        b \<leftarrow> find_best_pitch xcorr y (drop_bit 1 len) (drop_bit 1 max_pitch);
        offset \<leftarrow> (if b_pitch0 b > 0 \<and> b_pitch0 b < drop_bit 1 max_pitch - 1
          then do {
            a1 \<leftarrow> rd xcorr (b_pitch0 b - 1);
            b1 \<leftarrow> rd xcorr (b_pitch0 b);
            c1 \<leftarrow> rd xcorr (b_pitch0 b + 1);
            Some (pseudo_interp a1 b1 c1)
          } else Some 0);
        Some (2 * b_pitch0 b - offset)
      })"

section \<open>Periods that are a fraction of the one found\<close>

text \<open>\<^verbatim>\<open>sqrt\<close> is the one of doubles.\<close>

definition compute_pitch_gain :: "f32 \<Rightarrow> f32 \<Rightarrow> f32 \<Rightarrow> f32" where
  "compute_pitch_gain xy xx yy =
     f32_of_f64 (f64_div (f64_of_f32 xy) (f64_sqrt (f64_of_f32 (f32_add (f32_of_int 1) (f32_mul xx yy)))))"

definition second_check :: "int list" where
  "second_check = [0, 0, 3, 2, 3, 2, 5, 2, 3, 2, 3, 2, 5, 2, 3, 2]"

record doubling =
  d_best_xy :: f32
  d_best_yy :: f32
  d_T :: int
  d_g :: f32

text \<open>What the loop over the divisors \<open>k\<close> reads; the periods are at half the rate.\<close>

record doubling_env =
  e_x :: "f32 list"
  e_xo :: int
  e_maxperiod :: int
  e_minperiod :: int
  e_N :: int
  e_T0 :: int
  e_prev_period :: int
  e_prev_gain :: f32
  e_xx :: f32
  e_g0 :: f32
  e_yy_lookup :: "f32 list"

definition doubling_thresh :: "doubling_env \<Rightarrow> int \<Rightarrow> int \<Rightarrow> f32" where
  "doubling_thresh e k T1 =
     (let d = \<bar>T1 - e_prev_period e\<bar>;
          cont = (if d \<le> 1 then e_prev_gain e
                  else if d \<le> 2 \<and> 5 * k * k < e_T0 e then half32 (e_prev_gain e)
                  else f32_0);
          thresh = fmax_macro (f32_lit 3 (-1)) (f32_sub (f32_mul (f32_lit 7 (-1)) (e_g0 e)) cont)
      in if T1 < 3 * e_minperiod e
         then fmax_macro (f32_lit 4 (-1)) (f32_sub (f32_mul (f32_lit 85 (-2)) (e_g0 e)) cont)
         else if T1 < 2 * e_minperiod e
         then fmax_macro (f32_lit 5 (-1)) (f32_sub (f32_mul (f32_lit 9 (-1)) (e_g0 e)) cont)
         else thresh)"

text \<open>The second period that is checked along with \<open>T1\<close>.\<close>

definition second_period :: "doubling_env \<Rightarrow> int \<Rightarrow> int \<Rightarrow> int" where
  "second_period e k T1 =
     (if k = 2 then (if T1 + e_T0 e > e_maxperiod e then e_T0 e else e_T0 e + T1)
      else cdiv (2 * (second_check ! nat k) * e_T0 e + k) (2 * k))"

definition doubling_turn :: "doubling_env \<Rightarrow> int \<Rightarrow> int \<Rightarrow> doubling \<Rightarrow> doubling option" where
  "doubling_turn e k T1 d =
     (let T1b = second_period e k T1 in do {
        (xy, xy2) \<leftarrow> dual_inner_prod (e_x e) (e_xo e) (e_x e) (e_xo e - T1) (e_x e) (e_xo e - T1b) (e_N e);
        let xy = half32 (f32_add xy xy2);
        y1 \<leftarrow> rd (e_yy_lookup e) T1;
        y2 \<leftarrow> rd (e_yy_lookup e) T1b;
        let yy = half32 (f32_add y1 y2);
        let g1 = compute_pitch_gain xy (e_xx e) yy;
        Some (if f32_gt g1 (doubling_thresh e k T1)
              then \<lparr>d_best_xy = xy, d_best_yy = yy, d_T = T1, d_g = g1\<rparr> else d)
      })"

fun doubling_loop :: "doubling_env \<Rightarrow> int list \<Rightarrow> doubling \<Rightarrow> doubling option" where
  "doubling_loop e [] d = Some d"
| "doubling_loop e (k # ks) d =
     (let T1 = cdiv (2 * e_T0 e + k) (2 * k) in
      if T1 < e_minperiod e then Some d
      else Option.bind (doubling_turn e k T1 d) (doubling_loop e ks))"

text \<open>The energies of the signal delayed by \<open>i\<close>, from the one before.\<close>

definition energy_lookup :: "f32 list \<Rightarrow> int \<Rightarrow> int \<Rightarrow> int \<Rightarrow> f32 \<Rightarrow> f32 list option" where
  "energy_lookup x xo maxperiod N xx = do {
     (_, l) \<leftarrow> for_each (\<lambda>i (yy, l). do {
       a \<leftarrow> rd x (xo - i);
       b \<leftarrow> rd x (xo + N - i);
       let yy = f32_sub (f32_add yy (f32_mul a a)) (f32_mul b b);
       Some (yy, l @ [fmax_macro f32_0 yy])
     }) [1 .. maxperiod] (xx, [xx]);
     Some l
   }"

text \<open>The result is the period and its gain.\<close>

definition remove_doubling ::
    "f32 list \<Rightarrow> int \<Rightarrow> int \<Rightarrow> int \<Rightarrow> int \<Rightarrow> int \<Rightarrow> f32 \<Rightarrow> (int \<times> f32) option" where
  "remove_doubling x maxperiod0 minperiod0 N0 T0 prev_period prev_gain =
     (let maxperiod = cdiv maxperiod0 2;
          minperiod = cdiv minperiod0 2;
          T0 = cdiv T0 2;
          prev_period = cdiv prev_period 2;
          N = cdiv N0 2;
          xo = maxperiod;
          T0 = (if T0 \<ge> maxperiod then maxperiod - 1 else T0)
      in do {
        (xx, xy) \<leftarrow> dual_inner_prod x xo x xo x (xo - T0) N;
        yy_lookup \<leftarrow> energy_lookup x xo maxperiod N xx;
        yy \<leftarrow> rd yy_lookup T0;
        let g0 = compute_pitch_gain xy xx yy;
        let e = \<lparr>e_x = x, e_xo = xo, e_maxperiod = maxperiod, e_minperiod = minperiod, e_N = N, e_T0 = T0,
          e_prev_period = prev_period, e_prev_gain = prev_gain, e_xx = xx, e_g0 = g0, e_yy_lookup = yy_lookup\<rparr>;
        d \<leftarrow> doubling_loop e [2 .. 15] \<lparr>d_best_xy = xy, d_best_yy = yy, d_T = T0, d_g = g0\<rparr>;
        let best_xy = fmax_macro f32_0 (d_best_xy d);
        let pg = (if f32_le (d_best_yy d) best_xy then f32_of_int 1
                  else f32_div best_xy (f32_add (d_best_yy d) (f32_of_int 1)));
        a \<leftarrow> celt_inner_prod x xo x (xo - (d_T d - 1)) N;
        b \<leftarrow> celt_inner_prod x xo x (xo - d_T d) N;
        c \<leftarrow> celt_inner_prod x xo x (xo - (d_T d + 1)) N;
        let offset = pseudo_interp a b c;
        let pg = (if f32_gt pg (d_g d) then d_g d else pg);
        let T = 2 * d_T d + offset;
        Some (if T < minperiod0 then minperiod0 else T, pg)
      })"

end
