(* ===== verification/Denoise.thy ===== *)
theory Denoise
  imports RnnNet Pitch KissFft
begin

text \<open>
  The denoiser, \<^verbatim>\<open>denoise.c\<close>: a frame of 480 samples is windowed and transformed together with
  the one before, its band energies, cepstrum and pitch are the features of the network, the
  gains of the network are applied to the spectrum, and the frame is put together again. The
  functions \<^verbatim>\<open>sin\<close>, \<^verbatim>\<open>cos\<close> and \<^verbatim>\<open>log10\<close> of the mathematical library are arguments.
\<close>

abbreviation (input) FRAME_SIZE :: nat where "FRAME_SIZE \<equiv> 480"
abbreviation (input) WINDOW_SIZE :: nat where "WINDOW_SIZE \<equiv> 960"
abbreviation (input) FREQ_SIZE :: nat where "FREQ_SIZE \<equiv> 481"
abbreviation (input) PITCH_MIN_PERIOD :: int where "PITCH_MIN_PERIOD \<equiv> 60"
abbreviation (input) PITCH_MAX_PERIOD :: int where "PITCH_MAX_PERIOD \<equiv> 768"
abbreviation (input) PITCH_FRAME_SIZE :: int where "PITCH_FRAME_SIZE \<equiv> 960"
abbreviation (input) PITCH_BUF_SIZE :: nat where "PITCH_BUF_SIZE \<equiv> 1728"
abbreviation (input) NB_BANDS :: nat where "NB_BANDS \<equiv> 22"
abbreviation (input) CEPS_MEM :: nat where "CEPS_MEM \<equiv> 8"
abbreviation (input) NB_DELTA_CEPS :: nat where "NB_DELTA_CEPS \<equiv> 6"
abbreviation (input) NB_FEATURES :: nat where "NB_FEATURES \<equiv> 42"

definition eband5ms :: "nat list" where
  "eband5ms = [0, 1, 2, 3, 4, 5, 6, 7, 8, 10, 12, 14, 16, 20, 24, 28, 34, 40, 48, 60, 78, 100]"

record common_state =
  c_kfft :: "f32 fft_state"
  c_half_window :: "f32 list"
  c_dct_table :: "f32 list"

text \<open>The structure \<^verbatim>\<open>DenoiseState\<close>: its member \<^verbatim>\<open>rnn\<close> holds pointers to the three states of
  the network in memory (theory \<open>RnnHeap\<close>), and the states themselves in what a frame computes on.\<close>

record 'r denoise_struct =
  analysis_mem :: "f32 list"
  cepstral_mem :: "f32 list list"
  memid :: nat
  synthesis_mem :: "f32 list"
  pitch_buf :: "f32 list"
  last_gain :: f32
  last_period :: int
  mem_hp_x :: "f32 \<times> f32"
  lastg :: "f32 list"
  rnn :: 'r

type_synonym denoise_state = "rnn_state denoise_struct"

definition map_rnn :: "('r \<Rightarrow> 's) \<Rightarrow> 'r denoise_struct \<Rightarrow> 's denoise_struct" where
  "map_rnn f st =
     \<lparr>analysis_mem = analysis_mem st, cepstral_mem = cepstral_mem st, memid = memid st, synthesis_mem = synthesis_mem st,
      pitch_buf = pitch_buf st, last_gain = last_gain st, last_period = last_period st, mem_hp_x = mem_hp_x st,
      lastg = lastg st, rnn = f (rnn st)\<rparr>"

section \<open>Bands\<close>

text \<open>The bins of band \<open>i\<close>, with the fraction of the way to the next band: \<open>(i, bin, frac)\<close>.\<close>

definition band_bins :: "(nat \<times> nat \<times> f32) list" where
  "band_bins = concat (map (\<lambda>i.
     let band_size = (eband5ms ! (i + 1) - eband5ms ! i) * 4
     in map (\<lambda>j. (i, eband5ms ! i * 4 + j, f32_div (f32_of_int (int j)) (f32_of_int (int band_size)))) [0 ..< band_size])
   [0 ..< NB_BANDS - 1])"

text \<open>Triangular bands: \<open>tmp\<close> of a bin is shared between a band and the next.\<close>

definition band_sums :: "(nat \<Rightarrow> f32) \<Rightarrow> f32 list" where
  "band_sums tmp =
     (let acc = foldl (\<lambda>acc (i, k, frac).
            let t = tmp k;
                acc = acc[i := f32_add (acc ! i) (f32_mul (f32_sub (f32_of_int 1) frac) t)]
            in acc[i + 1 := f32_add (acc ! (i + 1)) (f32_mul frac t)]) (replicate NB_BANDS f32_0) band_bins;
          acc = acc[0 := f32_mul (acc ! 0) (f32_of_int 2)]
      in acc[NB_BANDS - 1 := f32_mul (acc ! (NB_BANDS - 1)) (f32_of_int 2)])"

definition compute_band_energy :: "f32 cpx list \<Rightarrow> f32 list" where
  "compute_band_energy X = band_sums (\<lambda>k.
     f32_add (f32_mul (fst (X ! k)) (fst (X ! k))) (f32_mul (snd (X ! k)) (snd (X ! k))))"

definition compute_band_corr :: "f32 cpx list \<Rightarrow> f32 cpx list \<Rightarrow> f32 list" where
  "compute_band_corr X P = band_sums (\<lambda>k.
     f32_add (f32_mul (fst (X ! k)) (fst (P ! k))) (f32_mul (snd (X ! k)) (snd (P ! k))))"

text \<open>
  \<^verbatim>\<open>memset(g, 0, FREQ_SIZE)\<close> counts bytes: the first 120 elements are cleared, and a byte of the
  next one. All of them are written again; the elements from 400 on are those of the caller.
\<close>

definition interp_band_gain :: "f32 list \<Rightarrow> f32 list \<Rightarrow> f32 list" where
  "interp_band_gain g bandE =
     foldl (\<lambda>g (i, k, frac). g[k := f32_add (f32_mul (f32_sub (f32_of_int 1) frac) (bandE ! i)) (f32_mul frac (bandE ! (i + 1)))])
       (replicate (FREQ_SIZE div 4) f32_0 @ drop (FREQ_SIZE div 4) g) band_bins"

section \<open>Transforms\<close>

text \<open>The tables, filled at the first call, where the allocations for the transform succeed; a
  null pointer, which the code does not look for, would be undefined.\<close>

definition M_PI :: f64 where "M_PI = f64_dec 314159265358979323846 (-20)"

definition check_init :: "(f64 \<Rightarrow> f64) \<Rightarrow> (f64 \<Rightarrow> f64) \<Rightarrow> common_state option" where
  "check_init cosd sind = do {
     kfft \<leftarrow> opus_fft_alloc_twiddles cosd sind (True, True, True) (2 * FRAME_SIZE) None;
     kfft \<leftarrow> kfft;
     let half = f64_dec 5 (-1);
     let half_window = map (\<lambda>i.
       let a = f64_div (f64_mul (f64_mul half M_PI) (f64_add (f64_of_int (int i)) half)) (f64_of_int (int FRAME_SIZE))
       in f32_of_f64 (sind (f64_mul (f64_mul (f64_mul half M_PI) (sind a)) (sind a)))) [0 ..< FRAME_SIZE];
     let dct_table = concat (map (\<lambda>i. map (\<lambda>j.
       let t = f32_of_f64 (cosd (f64_div (f64_mul (f64_mul (f64_add (f64_of_int (int i)) half) (f64_of_int (int j))) M_PI)
                 (f64_of_int (int NB_BANDS))))
       in if j = 0 then f32_of_f64 (f64_mul (f64_of_f32 t) (f64_sqrt half)) else t)
       [0 ..< NB_BANDS]) [0 ..< NB_BANDS]);
     Some \<lparr>c_kfft = kfft, c_half_window = half_window, c_dct_table = dct_table\<rparr>
   }"

definition dct :: "common_state \<Rightarrow> f32 list \<Rightarrow> f32 list" where
  "dct c inp = map (\<lambda>i.
     let sum = foldl (\<lambda>s j. f32_add s (f32_mul (inp ! j) (c_dct_table c ! (j * NB_BANDS + i)))) f32_0 [0 ..< NB_BANDS]
     in f32_of_f64 (f64_mul (f64_of_f32 sum) (f64_sqrt (f64_div (f64_of_int 2) (f64_of_int 22))))) [0 ..< NB_BANDS]"

definition forward_transform :: "common_state \<Rightarrow> f32 list \<Rightarrow> f32 cpx list option" where
  "forward_transform c inp = do {
     xs \<leftarrow> slice inp 0 (int WINDOW_SIZE);
     y \<leftarrow> opus_fft f32_ops (c_kfft c) (map (\<lambda>x. (x, f32_0)) xs);
     Some (take FREQ_SIZE y)
   }"

definition inverse_transform :: "common_state \<Rightarrow> f32 cpx list \<Rightarrow> f32 list option" where
  "inverse_transform c inp = do {
     xs \<leftarrow> slice inp 0 (int FREQ_SIZE);
     let x = xs @ map (\<lambda>i. (fst (xs ! (WINDOW_SIZE - i)), f32_neg (snd (xs ! (WINDOW_SIZE - i))))) [FREQ_SIZE ..< WINDOW_SIZE];
     y \<leftarrow> opus_fft f32_ops (c_kfft c) x;
     Some (map (\<lambda>i. f32_mul (f32_of_int (int WINDOW_SIZE)) (fst (y ! (if i = 0 then 0 else WINDOW_SIZE - i)))) [0 ..< WINDOW_SIZE])
   }"

definition apply_window :: "common_state \<Rightarrow> f32 list \<Rightarrow> f32 list" where
  "apply_window c x = foldl (\<lambda>x i.
     let x = x[i := f32_mul (x ! i) (c_half_window c ! i)]
     in x[WINDOW_SIZE - 1 - i := f32_mul (x ! (WINDOW_SIZE - 1 - i)) (c_half_window c ! i)]) x [0 ..< FRAME_SIZE]"

section \<open>Creation\<close>

text \<open>A structure of zeros, but for the member \<open>rnn\<close>.\<close>

definition zero_struct :: "'r \<Rightarrow> 'r denoise_struct" where
  "zero_struct r =
     \<lparr>analysis_mem = replicate FRAME_SIZE f32_0, cepstral_mem = replicate CEPS_MEM (replicate NB_BANDS f32_0), memid = 0,
      synthesis_mem = replicate FRAME_SIZE f32_0, pitch_buf = replicate PITCH_BUF_SIZE f32_0, last_gain = f32_0,
      last_period = 0, mem_hp_x = (f32_0, f32_0), lastg = replicate NB_BANDS f32_0, rnn = r\<rparr>"

section \<open>Analysis\<close>

definition frame_analysis ::
    "common_state \<Rightarrow> denoise_state \<Rightarrow> f32 list \<Rightarrow> (denoise_state \<times> f32 cpx list \<times> f32 list) option" where
  "frame_analysis c st inp = do {
     frame \<leftarrow> slice inp 0 (int FRAME_SIZE);
     let x = analysis_mem st @ frame;
     X \<leftarrow> forward_transform c (apply_window c x);
     Some (st\<lparr>analysis_mem := frame\<rparr>, X, compute_band_energy X)
   }"

text \<open>The logarithms of the energies, not far below the loudest and the one before, and the sum of
  the energies.\<close>

definition band_logs :: "(f64 \<Rightarrow> f64) \<Rightarrow> f32 list \<Rightarrow> f32 list \<times> f32" where
  "band_logs log10d eX =
     (let (Ly, _, _, E) = foldl (\<lambda>(Ly, logMax, follow, E) e.
            let y = f32_of_f64 (log10d (f64_add (f64_dec 1 (-2)) (f64_of_f32 e)));
                below = f64_sub (f64_of_f32 follow) (f64_dec 15 (-1));
                y = f32_of_f64 (fmax_macro (f64_of_f32 (f32_sub logMax (f32_of_int 7))) (fmax_macro below (f64_of_f32 y)))
            in (Ly @ [y], fmax_macro logMax y, f32_of_f64 (fmax_macro below (f64_of_f32 y)), f32_add E e))
          ([], f32_of_int (-2), f32_of_int (-2), f32_0) eX
      in (Ly, E))"

text \<open>The distance of each cepstrum in the memory to the nearest other one, summed.\<close>

definition ceps_dist :: "f32 list \<Rightarrow> f32 list \<Rightarrow> f32" where
  "ceps_dist a b = foldl (\<lambda>d (x, y). let t = f32_sub x y in f32_add d (f32_mul t t)) f32_0 (zip a b)"

definition spec_variability :: "f32 list list \<Rightarrow> f32" where
  "spec_variability mem = foldl (\<lambda>s i.
     f32_add s (foldl (\<lambda>mindist j.
       let dist = ceps_dist (mem ! i) (mem ! j) in if j \<noteq> i then fmin_macro mindist dist else mindist)
       (f32_lit 1 15) [0 ..< CEPS_MEM])) f32_0 [0 ..< CEPS_MEM]"

text \<open>The cepstrum of the frame goes to the ring; the features are it, its first and its second
  difference along the last three, the cepstrum of the pitch correlation, the period and the
  variability.\<close>

definition cepstral_features :: "denoise_state \<Rightarrow> f32 list \<Rightarrow> f32 list \<Rightarrow> int \<Rightarrow> (denoise_state \<times> f32 list) option" where
  "cepstral_features st ceps tmp pitch_index =
     (if memid st \<ge> length (cepstral_mem st) \<or> length (cepstral_mem st) < CEPS_MEM then None else
      let mem = (cepstral_mem st)[memid st := ceps];
          c0 = mem ! memid st;
          c1 = mem ! (if memid st < 1 then CEPS_MEM + memid st - 1 else memid st - 1);
          c2 = mem ! (if memid st < 2 then CEPS_MEM + memid st - 2 else memid st - 2);
          next = memid st + 1;
          sum3 = map (\<lambda>i. f32_add (f32_add (c0 ! i) (c1 ! i)) (c2 ! i)) [0 ..< NB_DELTA_CEPS];
          diff1 = map (\<lambda>i. f32_sub (c0 ! i) (c2 ! i)) [0 ..< NB_DELTA_CEPS];
          diff2 = map (\<lambda>i. f32_add (f32_sub (c0 ! i) (f32_mul (f32_of_int 2) (c1 ! i))) (c2 ! i)) [0 ..< NB_DELTA_CEPS];
          p0 = f32_of_f64 (f64_sub (f64_of_f32 (tmp ! 0)) (f64_dec 13 (-1)));
          p1 = f32_of_f64 (f64_sub (f64_of_f32 (tmp ! 1)) (f64_dec 9 (-1)));
          period = f32_of_f64 (f64_mul (f64_dec 1 (-2)) (f64_of_int (pitch_index - 300)));
          var = f32_of_f64 (f64_sub (f64_of_f32 (f32_div (spec_variability mem) (f32_of_int 8))) (f64_dec 21 (-1)))
      in Some (st\<lparr>cepstral_mem := mem, memid := (if next = CEPS_MEM then 0 else next)\<rparr>,
           sum3 @ drop NB_DELTA_CEPS ceps @ diff1 @ diff2 @ [p0, p1] @ take (NB_DELTA_CEPS - 2) (drop 2 tmp) @ [period, var]))"

record frame_features =
  f_X :: "f32 cpx list"
  f_P :: "f32 cpx list"
  f_Ex :: "f32 list"
  f_Ep :: "f32 list"
  f_Exp :: "f32 list"
  f_features :: "f32 list"
  f_silence :: bool

definition compute_frame_features ::
    "(f64 \<Rightarrow> f64) \<Rightarrow> common_state \<Rightarrow> denoise_state \<Rightarrow> f32 list \<Rightarrow> (denoise_state \<times> frame_features) option" where
  "compute_frame_features log10d c st inp = do {
     (st, X, eX) \<leftarrow> frame_analysis c st inp;
     frame \<leftarrow> slice inp 0 (int FRAME_SIZE);
     let buf = drop FRAME_SIZE (pitch_buf st) @ frame;
     let st = st\<lparr>pitch_buf := buf\<rparr>;
     lp \<leftarrow> pitch_downsample [buf] (int PITCH_BUF_SIZE) 1;
     p \<leftarrow> pitch_search lp (drop_bit 1 PITCH_MAX_PERIOD) lp PITCH_FRAME_SIZE (PITCH_MAX_PERIOD - 3 * PITCH_MIN_PERIOD);
     let pitch_index = PITCH_MAX_PERIOD - p;
     (pitch_index, gain) \<leftarrow> remove_doubling lp PITCH_MAX_PERIOD PITCH_MIN_PERIOD PITCH_FRAME_SIZE pitch_index
       (last_period st) (last_gain st);
     let st = st\<lparr>last_period := pitch_index, last_gain := gain\<rparr>;
     w \<leftarrow> slice buf (int PITCH_BUF_SIZE - int WINDOW_SIZE - pitch_index) (int WINDOW_SIZE);
     P \<leftarrow> forward_transform c (apply_window c w);
     let eP = compute_band_energy P;
     let eXP = map (\<lambda>(x, e, q). f32_of_f64 (f64_div (f64_of_f32 x)
         (f64_sqrt (f64_add (f64_dec 1 (-3)) (f64_of_f32 (f32_mul e q)))))) (zip (compute_band_corr X P) (zip eX eP));
     let tmp = dct c eXP;
     let (Ly, E) = band_logs log10d eX;
     if f32_lt (f64_of_f32 E) (f64_dec 4 (-2))
     then Some (st, \<lparr>f_X = X, f_P = P, f_Ex = eX, f_Ep = eP, f_Exp = eXP, f_features = replicate NB_FEATURES f32_0, f_silence = True\<rparr>)
     else do {
       let ceps = dct c Ly;
       let ceps = ceps[0 := f32_sub (ceps ! 0) (f32_of_int 12), 1 := f32_sub (ceps ! 1) (f32_of_int 4)];
       (st, features) \<leftarrow> cepstral_features st ceps tmp pitch_index;
       Some (st, \<lparr>f_X = X, f_P = P, f_Ex = eX, f_Ep = eP, f_Exp = eXP, f_features = features, f_silence = False\<rparr>)
     }
   }"

section \<open>Synthesis\<close>

definition frame_synthesis :: "common_state \<Rightarrow> denoise_state \<Rightarrow> f32 cpx list \<Rightarrow> (denoise_state \<times> f32 list) option" where
  "frame_synthesis c st y = do {
     x \<leftarrow> inverse_transform c y;
     let x = apply_window c x;
     let out = map2 f32_add (take FRAME_SIZE x) (synthesis_mem st);
     Some (st\<lparr>synthesis_mem := drop FRAME_SIZE x\<rparr>, out)
   }"

text \<open>The recursive filter in front; the products and the sums are doubles.\<close>

fun biquad :: "f32 \<times> f32 \<Rightarrow> f32 \<times> f32 \<Rightarrow> f32 \<times> f32 \<Rightarrow> f32 list \<Rightarrow> (f32 \<times> f32) \<times> f32 list" where
  "biquad b a mem [] = (mem, [])"
| "biquad b a mem (x # xs) =
     (let d = f64_of_f32; y = f32_add x (fst mem);
          m0 = f32_of_f64 (f64_add (d (snd mem)) (f64_sub (f64_mul (d (fst b)) (d x)) (f64_mul (d (fst a)) (d y))));
          m1 = f32_of_f64 (f64_sub (f64_mul (d (snd b)) (d x)) (f64_mul (d (snd a)) (d y)));
          (mem, ys) = biquad b a (m0, m1) xs
      in (mem, y # ys))"

definition pitch_gain :: "f32 \<Rightarrow> f32 \<Rightarrow> f32 \<Rightarrow> f32 \<Rightarrow> f32" where
  "pitch_gain eX eP eXP g =
     (let r = (if f32_gt eXP g then f32_of_int 1
               else let sq = \<lambda>x. f32_mul x x; one_less = \<lambda>x. f32_sub (f32_of_int 1) x
                    in f32_of_f64 (f64_div (f64_of_f32 (f32_mul (sq eXP) (one_less (sq g))))
                         (f64_add (f64_dec 1 (-3)) (f64_of_f32 (f32_mul (sq g) (one_less (sq eXP)))))));
          r = f32_of_f64 (f64_sqrt (f64_of_f32 (fmin_macro (f32_of_int 1) (fmax_macro f32_0 r))))
      in f32_of_f64 (f64_mul (f64_of_f32 r) (f64_sqrt (f64_div (f64_of_f32 eX) (f64_add (f64_dec 1 (-8)) (f64_of_f32 eP))))))"

definition energy_ratio :: "f32 \<Rightarrow> f32 \<Rightarrow> f32" where
  "energy_ratio eX newE = f32_of_f64 (f64_sqrt (f64_div (f64_of_f32 eX) (f64_add (f64_dec 1 (-8)) (f64_of_f32 newE))))"

definition scale_bins :: "f32 list \<Rightarrow> f32 cpx list \<Rightarrow> f32 cpx list" where
  "scale_bins gf X = map (\<lambda>(g, x). (f32_mul (fst x) g, f32_mul (snd x) g)) (zip gf X)"

definition pitch_filter :: "frame_features \<Rightarrow> f32 list \<Rightarrow> f32 cpx list" where
  "pitch_filter f g =
     (let r = map (\<lambda>i. pitch_gain (f_Ex f ! i) (f_Ep f ! i) (f_Exp f ! i) (g ! i)) [0 ..< NB_BANDS];
          rf = interp_band_gain (replicate FREQ_SIZE f32_0) r;
          X = map (\<lambda>(q, x, p). (f32_add (fst x) (f32_mul q (fst p)), f32_add (snd x) (f32_mul q (snd p))))
                (zip rf (zip (f_X f) (f_P f)));
          newE = compute_band_energy X;
          norm = map (\<lambda>i. energy_ratio (f_Ex f ! i) (newE ! i)) [0 ..< NB_BANDS];
          normf = interp_band_gain (replicate FREQ_SIZE f32_0) norm
      in scale_bins normf X)"

text \<open>A gain falls to 0.6 of the one of the frame before at most.\<close>

definition smooth_gains :: "f32 list \<Rightarrow> f32 list \<Rightarrow> f32 list" where
  "smooth_gains g prev = map (\<lambda>(x, l). fmax_macro x (f32_mul (f32_lit 6 (-1)) l)) (zip g prev)"

definition rnnoise_process_frame ::
    "(f64 \<Rightarrow> f64) \<Rightarrow> common_state \<Rightarrow> denoise_state \<Rightarrow> f32 list \<Rightarrow> (denoise_state \<times> f32 list \<times> f32) option" where
  "rnnoise_process_frame log10d c st inp = do {
     frame \<leftarrow> slice inp 0 (int FRAME_SIZE);
     let (mem, x) = biquad (f32_of_int (-2), f32_of_int 1) (f32_dec (-199599) (-5), f32_dec 99600 (-5)) (mem_hp_x st) frame;
     (st, f) \<leftarrow> compute_frame_features log10d c (st\<lparr>mem_hp_x := mem\<rparr>) x;
     (st, X, vad_prob) \<leftarrow> (if f_silence f then Some (st, f_X f, f32_0)
       else do {
         (r, g, vad) \<leftarrow> compute_rnn (rnn st) (int NB_BANDS) (f_features f);
         if length g < NB_BANDS then None else do {
           let X = pitch_filter f g;
           let g = smooth_gains g (lastg st);
           let gf = interp_band_gain (f32_of_int 1 # replicate (FREQ_SIZE - 1) f32_0) g;
           Some (st\<lparr>rnn := r, lastg := g\<rparr>, scale_bins gf X, (if vad = [] then f32_0 else vad ! 0))
         }
       });
     (st, out) \<leftarrow> frame_synthesis c st X;
     Some (st, out, vad_prob)
   }"

end
