(* ===== verification/PitchProps.thy ===== *)
theory PitchProps
  imports Pitch
begin

text \<open>
  The pitch analysis reads inside its buffers and gives a period of 60 to 767 samples, for
  every signal and every state of the denoiser.
\<close>

lemma drop_bit_half: "drop_bit 1 (n :: int) = n div 2" and drop_bit_quarter: "drop_bit 2 (n :: int) = n div 4"
  by (simp_all add: drop_bit_eq_div)

lemma best_insert_pitch0: "b_pitch0 (best_insert i c Syy b) = b_pitch0 b \<or> b_pitch0 (best_insert i c Syy b) = i"
  by (simp add: best_insert_def Let_def)

lemma find_best_pitch_ex:
  assumes "0 \<le> len" "len + max_pitch \<le> int (length y)" "max_pitch \<le> int (length xcorr)" "0 \<le> max_pitch"
  obtains b where "find_best_pitch xcorr y len max_pitch = Some b" "0 \<le> b_pitch0 b" "b_pitch0 b \<le> max 0 (max_pitch - 1)"
proof -
  obtain ys where ys: "slice y 0 len = Some ys" by (rule slice_ex [of 0 len y]) (use assms in simp_all)
  define I :: "best \<times> f32 \<Rightarrow> bool" where "I = (\<lambda>(b, _). 0 \<le> b_pitch0 b \<and> b_pitch0 b \<le> max 0 (max_pitch - 1))"
  define f where "f i = (\<lambda>(b, Syy). do {
       c \<leftarrow> rd xcorr i;
       let b = (if f32_gt c f32_0 then best_insert i c Syy b else b);
       u \<leftarrow> rd y (i + len);
       v \<leftarrow> rd y i;
       let Syy = f32_add Syy (f32_sub (f32_mul u u) (f32_mul v v));
       Some (b, fmax_macro (f32_of_int 1) Syy)
     })" for i
  obtain s where s: "for_each f [0 .. max_pitch - 1] (best_start, mac_sum (f32_of_int 1) ys ys) = Some s" "I s"
  proof (rule for_each_invariant [of "[0 .. max_pitch - 1]" I f "(best_start, mac_sum (f32_of_int 1) ys ys)"])
    fix i s assume i: "i \<in> set [0 .. max_pitch - 1]" and I: "I s"
    obtain b Syy where s: "s = (b, Syy)" by (cases s)
    have "rd xcorr i = Some (xcorr ! nat i)" "rd y (i + len) = Some (y ! nat (i + len))" "rd y i = Some (y ! nat i)"
      using i assms by (auto intro!: rd_Some)
    then show "\<exists>s'. f i s = Some s' \<and> I s'"
      using I i best_insert_pitch0 [of i "xcorr ! nat i" Syy b] by (auto simp: f_def s I_def Let_def)
  qed (auto simp: I_def best_start_def)
  obtain b S where b: "s = (b, S)" by (cases s)
  have "find_best_pitch xcorr y len max_pitch = Some b"
    using s(1) unfolding find_best_pitch_def ys f_def [symmetric] by (simp add: b)
  then show thesis using s(2) by (intro that [of b]) (simp_all add: I_def b)
qed

lemma opt_map_rd:
  assumes "\<And>i. i \<in> set is \<Longrightarrow> 0 \<le> g i \<and> g i < int (length xs)"
  obtains ys where "opt_map (\<lambda>i. rd xs (g i)) is = Some ys" "length ys = length is"
proof -
  have "opt_map (\<lambda>i. rd xs (g i)) is = Some (map (\<lambda>i. xs ! nat (g i)) is)"
    by (rule opt_map_Some) (use assms in \<open>simp add: rd_def\<close>)
  then show thesis by (rule that) simp
qed

lemma celt_inner_prod_ex: "0 \<le> xo \<Longrightarrow> 0 \<le> yo \<Longrightarrow> 0 \<le> N \<Longrightarrow> xo + N \<le> int (length x) \<Longrightarrow> yo + N \<le> int (length y) \<Longrightarrow>
    \<exists>s. celt_inner_prod x xo y yo N = Some s"
  by (simp add: celt_inner_prod_def slice_Some)

lemma pitch_search_ex:
  assumes x: "int (length x) = 864"
  obtains p where "pitch_search x 384 x 960 588 = Some p" "0 \<le> p" "p \<le> 586"
proof -
  obtain x4 where x4: "opt_map (\<lambda>j. rd x (384 + 2 * j)) [0 .. 239] = Some x4" "length x4 = 240"
    by (rule opt_map_rd [of "[0 .. 239]" "\<lambda>j. 384 + 2 * j" x]) (use x in auto)
  obtain y4 where y4: "opt_map (\<lambda>j. rd x (2 * j)) [0 .. 386] = Some y4" "length y4 = 387"
    by (rule opt_map_rd [of "[0 .. 386]" "\<lambda>j. 2 * j" x]) (use x in auto)
  obtain xc where xc: "celt_pitch_xcorr x4 y4 240 147 = Some xc" "length xc = 147"
    using celt_pitch_xcorr_ip [of 240 x4 147 y4] x4(2) y4(2) by simp
  obtain b where b: "find_best_pitch xc y4 240 147 = Some b"
    by (rule find_best_pitch_ex [of 240 147 y4 xc]) (use xc(2) y4(2) in simp_all)
  define f where "f i = (if \<bar>i - 2 * b_pitch0 b\<bar> > 2 \<and> \<bar>i - 2 * b_pitch1 b\<bar> > 2 then Some f32_0
    else do { sum \<leftarrow> celt_inner_prod x 384 x i 480; Some (fmax_macro (f32_of_int (-1)) sum) })" for i
  have "\<exists>y. f i = Some y \<and> True" if "i \<in> set [0 .. 293]" for i
    using celt_inner_prod_ex [of 384 i 480 x x] that x by (auto simp: f_def)
  then obtain xd where xd: "opt_map f [0 .. 293] = Some xd" "length xd = length [0 .. 293 :: int]"
    by (rule opt_map_ex)
  obtain b2 where b2: "find_best_pitch xd x 480 294 = Some b2" "0 \<le> b_pitch0 b2" "b_pitch0 b2 \<le> 293"
    by (rule find_best_pitch_ex [of 480 294 x xd]) (use xd(2) x in simp_all)
  define offs where "offs = (if b_pitch0 b2 > 0 \<and> b_pitch0 b2 < 293
    then do { a1 \<leftarrow> rd xd (b_pitch0 b2 - 1); b1 \<leftarrow> rd xd (b_pitch0 b2); c1 \<leftarrow> rd xd (b_pitch0 b2 + 1); Some (pseudo_interp a1 b1 c1) }
    else Some 0)"
  have "\<exists>k. offs = Some k \<and> 0 \<le> 2 * b_pitch0 b2 - k \<and> 2 * b_pitch0 b2 - k \<le> 586"
    using b2 xd(2) by (auto simp: offs_def rd_def pseudo_interp_def)
  then obtain k where k: "offs = Some k" "0 \<le> 2 * b_pitch0 b2 - k" "2 * b_pitch0 b2 - k \<le> 586" by blast
  have n: "drop_bit 2 (960 :: int) - 1 = 239" "drop_bit 2 (960 + 588 :: int) - 1 = 386" "drop_bit 2 (960 :: int) = 240"
    "drop_bit 2 (588 :: int) = 147" "drop_bit 1 (588 :: int) - 1 = 293" "drop_bit 1 (588 :: int) = 294" "drop_bit 1 (960 :: int) = 480"
    by (simp_all add: drop_bit_eq_div)
  have "pitch_search x 384 x 960 588 = Some (2 * b_pitch0 b2 - k)"
    unfolding pitch_search_def Let_def n
    by (simp add: x4(1) y4(1) xc(1) b f_def [symmetric] xd(1) b2(1) offs_def [symmetric] k(1))
  then show thesis using k by (intro that)
qed

lemma dual_inner_prod_ex: "0 \<le> xo \<Longrightarrow> 0 \<le> o1 \<Longrightarrow> 0 \<le> o2 \<Longrightarrow> 0 \<le> N \<Longrightarrow> xo + N \<le> int (length x) \<Longrightarrow>
    o1 + N \<le> int (length y1) \<Longrightarrow> o2 + N \<le> int (length y2) \<Longrightarrow>
    \<exists>a b. dual_inner_prod x xo y1 o1 y2 o2 N = Some (a, b)"
  by (simp add: dual_inner_prod_def slice_Some)

lemma energy_lookup_ex:
  assumes "0 \<le> maxperiod" "maxperiod \<le> xo" "0 \<le> N" "xo + N \<le> int (length x)"
  obtains l where "energy_lookup x xo maxperiod N xx = Some l" "int (length l) = maxperiod + 1"
proof -
  define f where "f i = (\<lambda>(yy, l). do {
       a \<leftarrow> rd x (xo - i);
       b \<leftarrow> rd x (xo + N - i);
       let yy = f32_sub (f32_add yy (f32_mul a a)) (f32_mul b b);
       Some (yy, l @ [fmax_macro f32_0 yy])
     })" for i
  have "\<exists>yy l. for_each f [1 .. int n] (xx, [xx]) = Some (yy, l) \<and> length l = n + 1" if "int n \<le> maxperiod" for n
    using that
  proof (induction n)
    case (Suc n)
    then obtain yy l where IH: "for_each f [1 .. int n] (xx, [xx]) = Some (yy, l)" "length l = n + 1" by auto
    have "[1 .. int (Suc n)] = [1 .. int n] @ [int (Suc n)]" by (simp add: upto_rec2 ac_simps)
    moreover have "rd x (xo - (1 + int n)) = Some (x ! nat (xo - (1 + int n)))"
      "rd x (xo + N - (1 + int n)) = Some (x ! nat (xo + N - (1 + int n)))"
      using Suc.prems assms by (auto intro!: rd_Some)
    then have "\<exists>yy' l'. f (int (Suc n)) (yy, l) = Some (yy', l') \<and> length l' = Suc n + 1"
      using IH(2) by (simp add: f_def Let_def)
    ultimately show ?case using IH(1) by (auto simp: for_each_append simp del: of_nat_Suc)
  qed simp
  from this [of "nat maxperiod"] obtain yy l where "for_each f [1 .. maxperiod] (xx, [xx]) = Some (yy, l)"
    "length l = nat maxperiod + 1" using assms by auto
  then show thesis using assms by (intro that [of l]) (simp_all add: energy_lookup_def f_def [symmetric])
qed

lemma div_less_mult: "0 < c \<Longrightarrow> a < b * c \<Longrightarrow> a div c < (b :: int)"
proof -
  assume a: "0 < c" "a < b * c"
  have "0 \<le> a mod c" using a(1) by (rule pos_mod_sign)
  then have "a div c * c < b * c" using div_mult_mod_eq [of a c] a(2) by linarith
  then show ?thesis using a(1) by simp
qed

lemma second_check_bounds: "3 \<le> k \<Longrightarrow> k \<le> 15 \<Longrightarrow> 0 \<le> second_check ! nat k \<and> second_check ! nat k \<le> k"
proof -
  assume "3 \<le> k" "k \<le> 15"
  then have "k \<in> set [3 .. 15]" by (simp only: set_upto atLeastAtMost_iff)
  moreover have "list_all (\<lambda>k. 0 \<le> second_check ! nat k \<and> second_check ! nat k \<le> k) [3 .. 15]" by code_simp
  ultimately show ?thesis by (auto simp: list_all_iff)
qed

text \<open>A period multiplied by a fraction of at most 1, rounded.\<close>

lemma scaled_period:
  assumes "0 \<le> c" "c \<le> k" "0 < k" "0 \<le> T"
  shows "0 \<le> cdiv (2 * c * T + k) (2 * k)" "cdiv (2 * c * T + k) (2 * k) \<le> T"
proof -
  have cd: "cdiv (2 * c * T + k) (2 * k) = (2 * c * T + k) div (2 * k)"
    using assms by (intro cdiv_nonneg) simp_all
  show "0 \<le> cdiv (2 * c * T + k) (2 * k)" unfolding cd using assms by (simp add: pos_imp_zdiv_nonneg_iff)
  have "c * T \<le> k * T" using assms by (intro mult_right_mono) simp_all
  then have "2 * c * T + k < (T + 1) * (2 * k)" using assms by (simp add: algebra_simps)
  then have "(2 * c * T + k) div (2 * k) < T + 1" using assms by (intro div_less_mult) simp_all
  then show "cdiv (2 * c * T + k) (2 * k) \<le> T" unfolding cd by simp
qed

definition doubling_env_ok :: "doubling_env \<Rightarrow> bool" where
  "doubling_env_ok e \<longleftrightarrow> int (length (e_x e)) = 864 \<and> e_xo e = 384 \<and> e_maxperiod e = 384 \<and> e_minperiod e = 30 \<and> e_N e = 480 \<and>
     30 \<le> e_T0 e \<and> e_T0 e \<le> 383 \<and> int (length (e_yy_lookup e)) = 385"

lemma doubling_loop_ex:
  assumes e: "doubling_env_ok e" and ks: "\<forall>k\<in>set ks. 2 \<le> k \<and> k \<le> 15" and d: "30 \<le> d_T d" "d_T d \<le> 383"
  shows "\<exists>d'. doubling_loop e ks d = Some d' \<and> 30 \<le> d_T d' \<and> d_T d' \<le> 383"
  using ks d
proof (induction ks arbitrary: d)
  case (Cons k ks)
  note E = e [unfolded doubling_env_ok_def]
  have k: "2 \<le> k" "k \<le> 15" using Cons.prems(1) by auto
  define T1 where "T1 = cdiv (2 * e_T0 e + k) (2 * k)"
  have T1: "0 \<le> T1" "T1 \<le> e_T0 e" using scaled_period [of 1 k "e_T0 e"] k E by (simp_all add: T1_def)
  define T1b where "T1b = second_period e k T1"
  have T1b: "0 \<le> T1b" "T1b \<le> 384"
  proof -
    have "3 \<le> k \<Longrightarrow> 0 \<le> T1b \<and> T1b \<le> e_T0 e"
      using second_check_bounds [of k] scaled_period [of "second_check ! nat k" k "e_T0 e"] k E
      by (simp add: T1b_def second_period_def)
    moreover have "k = 2 \<Longrightarrow> 0 \<le> T1b \<and> T1b \<le> 384" using T1 E by (simp add: T1b_def second_period_def)
    ultimately show "0 \<le> T1b" "T1b \<le> 384" using k E by (cases "k = 2"; force)+
  qed
  obtain xy xy2 where "dual_inner_prod (e_x e) (e_xo e) (e_x e) (e_xo e - T1) (e_x e) (e_xo e - T1b) (e_N e) = Some (xy, xy2)"
    using dual_inner_prod_ex [of "e_xo e" "e_xo e - T1" "e_xo e - T1b" "e_N e" "e_x e" "e_x e" "e_x e"] E T1 T1b by auto
  moreover have "rd (e_yy_lookup e) T1 = Some (e_yy_lookup e ! nat T1)" "rd (e_yy_lookup e) T1b = Some (e_yy_lookup e ! nat T1b)"
    using E T1 T1b by (auto intro!: rd_Some)
  ultimately obtain d1 where d1: "doubling_turn e k T1 d = Some d1" "d_T d1 = T1 \<or> d_T d1 = d_T d"
    by (auto simp: doubling_turn_def Let_def T1b_def [symmetric])
  show ?case
  proof (cases "T1 < e_minperiod e")
    case True
    then show ?thesis using Cons.prems by (simp add: T1_def Let_def)
  next
    case False
    then have "30 \<le> d_T d1" "d_T d1 \<le> 383" using d1(2) T1 E Cons.prems by auto
    then obtain d' where "doubling_loop e ks d1 = Some d'" "30 \<le> d_T d'" "d_T d' \<le> 383"
      using Cons.IH [of d1] Cons.prems(1) by auto
    then show ?thesis using False d1(1) by (simp add: T1_def [symmetric] Let_def)
  qed
qed simp

lemma remove_doubling_ex:
  assumes x: "int (length x) = 864" and T0: "60 \<le> T0" "T0 \<le> 768"
  obtains T g where "remove_doubling x 768 60 960 T0 pp pg = Some (T, g)" "60 \<le> T" "T \<le> 767"
proof -
  define h where "h = (if cdiv T0 2 \<ge> 384 then 384 - 1 else cdiv T0 2)"
  have "cdiv T0 2 = T0 div 2" using T0 by (intro cdiv_nonneg) simp_all
  then have h: "30 \<le> h" "h \<le> 383" using T0 by (auto simp: h_def)
  have n: "cdiv 768 2 = 384" "cdiv 60 2 = 30" "cdiv 960 2 = 480" by (simp_all add: cdiv_def)
  obtain xx xy where dual: "dual_inner_prod x 384 x 384 x (384 - h) 480 = Some (xx, xy)"
    using dual_inner_prod_ex [of 384 384 "384 - h" 480 x x x] x h by auto
  obtain l where l: "energy_lookup x 384 384 480 xx = Some l" "int (length l) = 385"
    by (rule energy_lookup_ex [of 384 384 480 x xx]) (use x in simp_all)
  have yy: "rd l h = Some (l ! nat h)" using l h by (auto intro!: rd_Some)
  define g0 where "g0 = compute_pitch_gain xy xx (l ! nat h)"
  define e where "e = \<lparr>e_x = x, e_xo = 384, e_maxperiod = 384, e_minperiod = 30, e_N = 480, e_T0 = h,
    e_prev_period = cdiv pp 2, e_prev_gain = pg, e_xx = xx, e_g0 = g0, e_yy_lookup = l\<rparr>"
  define d0 where "d0 = \<lparr>d_best_xy = xy, d_best_yy = l ! nat h, d_T = h, d_g = g0\<rparr>"
  have "doubling_env_ok e" using x h l by (simp add: doubling_env_ok_def e_def)
  moreover have "\<forall>k\<in>set [2 .. 15]. 2 \<le> k \<and> k \<le> (15 :: int)" by auto
  ultimately obtain d where d: "doubling_loop e [2 .. 15] d0 = Some d" "30 \<le> d_T d" "d_T d \<le> 383"
    using doubling_loop_ex [of e "[2 .. 15]" d0] h by (auto simp: d0_def)
  have ip: "\<exists>s. celt_inner_prod x 384 x (384 - t) 480 = Some s" if "0 \<le> t" "t \<le> 384" for t
    using that x by (intro celt_inner_prod_ex) simp_all
  obtain a where a: "celt_inner_prod x 384 x (384 - (d_T d - 1)) 480 = Some a" using ip [of "d_T d - 1"] d by auto
  obtain b where b: "celt_inner_prod x 384 x (384 - d_T d) 480 = Some b" using ip [of "d_T d"] d by auto
  obtain c where c: "celt_inner_prod x 384 x (384 - (d_T d + 1)) 480 = Some c" using ip [of "d_T d + 1"] d by auto
  note abc = a b c
  have po: "- 1 \<le> pseudo_interp a b c" "pseudo_interp a b c \<le> 1" by (simp_all add: pseudo_interp_def)
  define T where "T = 2 * d_T d + pseudo_interp a b c"
  have "\<exists>g. remove_doubling x 768 60 960 T0 pp pg = Some (if T < 60 then 60 else T, g)"
    unfolding remove_doubling_def n Let_def h_def [symmetric] dual bind.bind_lunit split l(1) yy g0_def [symmetric]
      e_def [symmetric] d0_def [symmetric] d(1) abc T_def [symmetric] by blast
  moreover have "60 \<le> (if T < 60 then 60 else T)" "(if T < 60 then 60 else T) \<le> 767" using po d by (auto simp: T_def)
  ultimately show thesis using that by blast
qed

section \<open>The signal at half the rate\<close>

lemma halve_rate_ex:
  assumes "2 \<le> len" "len \<le> int (length x)"
  obtains z where "halve_rate x len = Some z" "int (length z) = len div 2"
proof -
  define f where "f i = (if i = 0 then do { b \<leftarrow> rd x 1; a \<leftarrow> rd x 0; Some (half32 (f32_add (half32 b) a)) }
       else do { a \<leftarrow> rd x (2 * i - 1); b \<leftarrow> rd x (2 * i + 1); c \<leftarrow> rd x (2 * i);
         Some (half32 (f32_add (half32 (f32_add a b)) c)) })" for i
  have "\<exists>y. f i = Some y \<and> True" if "i \<in> set [0 .. len div 2 - 1]" for i
    using that assms by (auto simp: f_def rd_def)
  then obtain z where "opt_map f [0 .. len div 2 - 1] = Some z" "length z = length [0 .. len div 2 - 1]" by (rule opt_map_ex)
  then have "halve_rate x len = Some z" unfolding halve_rate_def drop_bit_half f_def [symmetric] by simp
  then show thesis using assms \<open>length z = _\<close> by (intro that [of z]) simp_all
qed

lemma celt_fir5_length: "length (celt_fir5 x num mem) = length x"
  by (induction x num mem rule: celt_fir5.induct) simp_all

lemma celt_autocorr_ex:
  assumes "int (length x) = n" "0 \<le> lag" "lag < n"
  obtains ac where "celt_autocorr x [] 0 lag n = Some ac" "int (length ac) = lag + 1"
proof -
  define F where "F = nat (n - lag)"
  define L where "L = nat lag + 1"
  have F: "int F = n - lag" "0 < F" "F \<le> length x" "F + L \<le> length x + 1" and L: "int L = lag + 1"
    using assms by (simp_all add: F_def L_def)
  define ac where "ac = map (\<lambda>i. ip x 0 x i f32_0 0 F) [0 ..< L]"
  have ac: "celt_pitch_xcorr x x (n - lag) (lag + 1) = Some ac"
    using celt_pitch_xcorr_ip [OF F(2,3,4)] unfolding F(1) L ac_def .
  define f where "f k = do {
          xs \<leftarrow> slice x (int k + (n - lag)) (n - int k - (n - lag));
          ys \<leftarrow> slice x (n - lag) (n - int k - (n - lag));
          Some (f32_add (ac ! k) (mac_sum f32_0 xs ys))
        }" for k
  have "\<exists>y. f k = Some y \<and> True" if "k \<in> set [0 ..< nat lag + 1]" for k
    using that assms by (auto simp: f_def slice_Some)
  then obtain z where z: "opt_map f [0 ..< nat lag + 1] = Some z" "length z = length [0 ..< nat lag + 1]" by (rule opt_map_ex)
  have s: "slice x 0 n = Some x" "slice [] 0 0 = Some ([] :: f32 list)"
    using slice_all [of x] assms(1) by (simp_all add: slice_def)
  have "celt_autocorr x [] 0 lag n = Some z"
    unfolding celt_autocorr_def Let_def s bind.bind_lunit using ac z(1) by (simp add: f_def [abs_def])
  then show thesis using z(2) assms(2) by (intro that [of z]) simp_all
qed

lemma pitch_downsample_ex:
  assumes x: "int (length x) = 1728"
  obtains z where "pitch_downsample [x] 1728 1 = Some z" "int (length z) = 864"
proof -
  obtain h where h: "halve_rate x 1728 = Some h" "int (length h) = 864"
    by (rule halve_rate_ex [of 1728 x]) (use x in simp_all)
  obtain ac where ac: "celt_autocorr h [] 0 4 864 = Some ac" "int (length ac) = 5"
    by (rule celt_autocorr_ex [of h 864 4]) (use h in simp_all)
  have "length (foldl (\<lambda>ac i. let t = f32_mul (f32_lit 8 (-3)) (f32_of_int (int i))
       in ac[i := f32_sub (ac ! i) (f32_mul (f32_mul (ac ! i) t) t)]) a is) = length a" for a "is"
    by (induction "is" arbitrary: a) (simp_all add: Let_def)
  then have "length (pitch_lag_window ac) = 5" using ac(2) by (simp add: pitch_lag_window_def)
  then obtain lpc where lpc: "celt_lpc (pitch_lag_window ac) 4 = Some lpc" by (simp add: celt_lpc_def)
  have n: "drop_bit 1 (1728 :: int) = 864" by (simp add: drop_bit_eq_div)
  have "pitch_downsample [x] 1728 1 = Some (celt_fir5 h (whitening_filter lpc) (f32_0, f32_0, f32_0, f32_0, f32_0))"
    unfolding pitch_downsample_def n by (simp add: rd_def h(1) ac(1) lpc)
  then show thesis by (rule that) (simp add: celt_fir5_length h(2))
qed

end
