(* ===== verification/RnnProps.thy ===== *)
theory RnnProps
  imports RnnNet
begin

text \<open>
  The range of the activation functions, and the network on a model whose arrays have the
  lengths its sizes ask for: nothing is read or written outside an array, and what the sigmoid
  layers give is between 0 and 1.
\<close>

section \<open>The table of the hyperbolic tangent\<close>

lemma f32_of_int_val:
  assumes "\<bar>i\<bar> \<le> 2 ^ 24"
  shows "f32_fin (f32_of_int i)" "f32_val (f32_of_int i) = real_of_int i"
proof -
  have "f32_in (real_of_int i) (real_of_int i) (f32_of_int i)"
    by (rule f32_of_int_in) (use assms in \<open>simp_all add: f32.bound_int\<close>)
  then show "f32_fin (f32_of_int i)" "f32_val (f32_of_int i) = real_of_int i" by (simp_all add: f32_in_def)
qed

lemma f32_of_int_numeral [simp]:
  "f32_fin (f32_of_int 1)" "f32_val (f32_of_int 1) = 1" "f32_fin (f32_of_int (- 1))" "f32_val (f32_of_int (- 1)) = - 1"
  "f32_fin (f32_of_int 8)" "f32_val (f32_of_int 8) = 8" "f32_fin (f32_of_int (- 8))" "f32_val (f32_of_int (- 8)) = - 8"
  "f32_fin (f32_of_int 25)" "f32_val (f32_of_int 25) = 25"
  by (simp_all add: f32_of_int_val)

lemma f32_floor_val:
  assumes x: "f32_fin x" and p: "0 \<le> f32_val x" "f32_val x \<le> 2 ^ 24"
  shows "f32_to_int (f32_floor x) = \<lfloor>f32_val x\<rfloor>"
proof -
  obtain s m e where x1: "x = FFin s m e" "0 \<le> m" by (rule f32_fin_cases [OF x])
  show ?thesis
  proof (cases "0 \<le> e")
    case True
    then have "f32_floor x = x" by (simp add: x1)
    then show ?thesis using f32_to_int_val [OF x p(1)] by simp
  next
    case False
    have sm: "signed s m = m" using p x1 by (auto simp: signed_def zero_le_mult_iff)
    have "(2::real) powi e = inverse (2 ^ nat (- e))" using False by (simp only: power_int_def if_False power_inverse)
    then have eq: "f32_val x = real_of_int m / real_of_int (2 ^ nat (- e))"
      unfolding x1(1) f32_val.simps sm by (simp add: divide_inverse)
    define v where "v = m div 2 ^ nat (- e)"
    have v: "\<lfloor>f32_val x\<rfloor> = v" unfolding eq v_def by (rule floor_divide_of_int_eq)
    have "v \<le> 2 ^ 24" "0 \<le> v" using p unfolding v [symmetric] by (simp_all add: floor_le_iff)
    moreover have "f32_floor x = (if v = 0 then FFin s 0 (-149) else f32_of_int v)"
      using False sm by (simp add: x1 v_def Let_def)
    moreover have "f32_to_int (f32_of_int v) = v"
      using f32_to_int_val [of "f32_of_int v"] f32_of_int_val [of v] \<open>v \<le> 2 ^ 24\<close> \<open>0 \<le> v\<close> by simp
    moreover have "f32_to_int (FFin s 0 (-149)) = 0" by (simp add: signed_def)
    ultimately show ?thesis unfolding v by simp
  qed
qed

lemma f32_lit_in:
  assumes d: "0 \<le> d" and b: "f32.bound b" "real_of_int d / 10 ^ n \<le> b"
  shows "f32_in 0 b (f32_lit d (- int n))"
proof (cases "n = 0")
  case True
  then show ?thesis using d b by (auto simp: f32_lit_def decimal_def signed_def intro!: f32.rnd_in)
next
  case False
  define c :: int where "c = 2 ^ (4 * n + 64)"
  have dec: "decimal d (- int n) = (d * c div 10 ^ n, - int (4 * n + 64), d * c mod 10 ^ n \<noteq> 0)"
    using d False by (simp add: decimal_def c_def Let_def)
  have m: "0 \<le> d * c div 10 ^ n" using d by (simp add: c_def pos_imp_zdiv_nonneg_iff)
  have p: "(2::real) powi (- int (4 * n + 64)) = inverse (real_of_int c)" by (simp add: c_def power_int_minus del: of_nat_add)
  have "d * c div 10 ^ n * 10 ^ n \<le> d * c" 
  proof -
    have "0 \<le> d * c mod 10 ^ n" by (rule pos_mod_sign) simp
    then show ?thesis using div_mult_mod_eq [of "d * c" "10 ^ n"] by linarith
  qed
  then have "real_of_int (d * c div 10 ^ n * 10 ^ n) \<le> real_of_int (d * c)" by (simp only: of_int_le_iff)
  then have "real_of_int (d * c div 10 ^ n) * inverse (real_of_int c) \<le> real_of_int d / 10 ^ n"
    by (simp add: c_def field_simps)
  then have "real_of_int (d * c div 10 ^ n) * 2 powi (- int (4 * n + 64)) \<le> b" unfolding p using b(2) by linarith
  moreover have "0 \<le> real_of_int (d * c div 10 ^ n) * 2 powi (- int (4 * n + 64))" using m by simp
  moreover have "\<not> d < 0" using d by simp
  ultimately show ?thesis unfolding f32_lit_def dec using m b(1)
    by (simp only: prod.case) (intro f32.rnd_in, simp_all only: signed_def if_False f32.bound_0 simp_thms)
qed

text \<open>An entry of the table is 1 or not more than \<open>1 - 2^-20\<close>.\<close>

definition tansig_entry :: "f32 \<Rightarrow> bool" where
  "tansig_entry y \<longleftrightarrow> f32_in 0 (1 - 1 / 2 ^ 20) y \<or> f32_fin y \<and> f32_val y = 1"

lemma tansig_table_length: "length tansig_table = 201"
  by (simp add: tansig_table_def)

lemma tansig_entry: "y \<in> set tansig_table \<Longrightarrow> tansig_entry y"
proof -
  assume "y \<in> set tansig_table"
  moreover have "list_all (\<lambda>d. 0 \<le> d \<and> d \<le> 999999 \<or> d = 1000000) ds \<Longrightarrow> y \<in> set (map (\<lambda>d. f32_lit d (-6)) ds) \<Longrightarrow>
    \<exists>d. y = f32_lit d (-6) \<and> (0 \<le> d \<and> d \<le> 999999 \<or> d = 1000000)" for ds
    by (auto simp: list_all_iff)
  ultimately obtain d where d: "y = f32_lit d (-6)" "0 \<le> d \<and> d \<le> 999999 \<or> d = 1000000"
    unfolding tansig_table_def by fastforce
  have "f32.bound (1 - 1 / 2 ^ 20)" by (rule f32.boundI [of _ "2 ^ 20 - 1" 20]) (simp_all add: field_simps)
  then have "f32_in 0 (1 - 1 / 2 ^ 20) y" if "0 \<le> d \<and> d \<le> 999999"
    using f32_lit_in [of d "1 - 1 / 2 ^ 20" 6] that d(1) by (simp add: field_simps)
  moreover have "f32_lit 1000000 (-6) = FFin False 8388608 (-23)" by code_simp
  then have "f32_fin y \<and> f32_val y = 1" if "d = 1000000"
    using that d(1) by (simp add: signed_def power_int_minus)
  ultimately show ?thesis using d(2) by (auto simp: tansig_entry_def)
qed

section \<open>The range of the activation functions\<close>

text \<open>A real number is next to a multiple of \<open>2^-20\<close>.\<close>

lemma grid20:
  assumes "\<bar>r\<bar> \<le> 15"
  obtains a b where "f32.bound a" "f32.bound b" "a \<le> r" "r \<le> b" "r - 1 / 2 ^ 20 \<le> a" "b \<le> r + 1 / 2 ^ 20"
proof -
  define k where "k = \<lfloor>r * 2 ^ 20\<rfloor>"
  have k: "real_of_int k \<le> r * 2 ^ 20" "r * 2 ^ 20 < real_of_int k + 1"
    by (simp_all add: k_def)
  have "\<bar>r * 2 ^ 20\<bar> \<le> 15 * 2 ^ 20" using assms by (simp add: abs_mult)
  then have "- 16000000 < real_of_int k" "real_of_int k < 16000000" using k by auto
  then have kb: "- 16000000 < k" "k < 16000000" by linarith+
  show thesis
  proof (rule that [of "real_of_int k / 2 ^ 20" "real_of_int (k + 1) / 2 ^ 20"])
    show "f32.bound (real_of_int k / 2 ^ 20)" by (rule f32.boundI [OF refl]) (use kb in simp_all)
    show "f32.bound (real_of_int (k + 1) / 2 ^ 20)" by (rule f32.boundI [OF refl]) (use kb in simp_all)
  qed (use k in \<open>simp_all add: field_simps\<close>)
qed

lemma dy_bound:
  assumes y: "tansig_entry y"
  defines "dy \<equiv> f32_sub (f32_of_int 1) (f32_mul y y)"
  shows "f32_in 0 1 dy" "f32_val dy \<le> 4 * (1 - f32_val y)" "f32_fin y" "0 \<le> f32_val y" "f32_val y \<le> 1"
proof -
  have b: "f32.bound (1 - 1 / 2 ^ 20)" by (rule f32.boundI [of _ "2 ^ 20 - 1" 20]) (simp_all add: field_simps)
  show yf: "f32_fin y" "0 \<le> f32_val y" "f32_val y \<le> 1"
    using y by (auto simp: tansig_entry_def f32_in_def)
  have yy: "f32_in 0 1 (f32_mul y y)"
    by (rule f32.mul_in) (use yf in \<open>auto simp: mult_le_one\<close>)
  show "f32_in 0 1 dy" unfolding dy_def
    by (rule f32_sub_in) (use yy in \<open>auto simp: f32_in_def\<close>)
  show "f32_val dy \<le> 4 * (1 - f32_val y)"
  proof (cases "f32_val y = 1")
    case True
    have "f32_in 1 1 (f32_mul y y)" by (rule f32.mul_in) (use yf True in simp_all)
    then have "f32_in 0 0 dy" unfolding dy_def by (intro f32_sub_in) (auto simp: f32_in_def)
    then show ?thesis using True by (simp add: f32_in_def)
  next
    case False
    then have le: "f32_val y \<le> 1 - 1 / 2 ^ 20" using y by (auto simp: tansig_entry_def f32_in_def)
    define g where "g = 2 * f32_val y - 1"
    have "\<bar>g\<bar> \<le> 15" using yf by (simp add: g_def)
    then obtain a b where ab: "f32.bound a" "a \<le> g" "g - 1 / 2 ^ 20 \<le> a" by (rule grid20) blast
    have "0 \<le> (f32_val y - 1) * (f32_val y - 1)" by simp
    then have "g \<le> f32_val y * f32_val y" by (simp add: g_def algebra_simps)
    then have m: "f32_in a 1 (f32_mul y y)" using ab yf by (intro f32.mul_in) (auto simp: mult_le_one)
    have "\<bar>1 - a\<bar> \<le> 15" using ab yf by (simp add: g_def)
    then obtain c d where d: "f32.bound d" "1 - a \<le> d" "d \<le> 1 - a + 1 / 2 ^ 20" by (rule grid20) blast
    have "f32_in 0 d dy" unfolding dy_def by (rule f32_sub_in) (use m d in \<open>auto simp: f32_in_def\<close>)
    then have "f32_val dy \<le> 2 * (1 - f32_val y) + 2 / 2 ^ 20" using d ab by (simp add: f32_in_def g_def)
    then show ?thesis using le by simp
  qed
qed

text \<open>The index is the nearest one: between two neighbours the rounding is monotone.\<close>

lemma tansig_index:
  assumes x: "f32_fin x" "0 \<le> f32_val x" "f32_val x < 8"
  defines "i \<equiv> f32_to_int (f32_floor (f32_add f32_half (f32_mul (f32_of_int 25) x)))"
  shows "0 \<le> i" "i \<le> 200" "\<bar>f32_val x - real_of_int i / 25\<bar> \<le> 1 / 50 + 1 / 2 ^ 15"
proof -
  define u where "u = f32_mul (f32_of_int 25) x"
  define v where "v = f32_add f32_half u"
  have "f32_half = FFin False 8388608 (-24)" by code_simp
  then have h: "f32_fin f32_half" "f32_val f32_half = 1 / 2" by (simp_all add: signed_def power_int_minus)
  have bn: "f32.bound (real_of_int k / 2)" "f32.bound (real_of_int k / 2 ^ 16)" if "\<bar>k\<bar> \<le> 2 ^ 24" for k
    using f32.boundI [of "real_of_int k / 2" k 1] f32.boundI [of "real_of_int k / 2 ^ 16" k 16] that by simp_all
  have u: "f32_in 0 200 u" unfolding u_def
    by (rule f32.mul_in) (use x bn [of 400] in simp_all)
  have v: "f32_in 0 (401 / 2) v" unfolding v_def
    by (rule f32.add_in) (use h u bn [of 401] in \<open>auto simp: f32_in_def\<close>)
  have i: "i = \<lfloor>f32_val v\<rfloor>" unfolding i_def u_def [symmetric] v_def [symmetric]
    by (rule f32_floor_val) (use v in \<open>auto simp: f32_in_def\<close>)
  then have iv: "real_of_int i \<le> f32_val v" "f32_val v < real_of_int i + 1" by simp_all
  show "0 \<le> i" using v i by (simp add: f32_in_def)
  have "f32_val v < 201" using v by (simp add: f32_in_def)
  then show i2: "i \<le> 200" using i by (simp add: floor_le_iff)
  have up: "f32_val v \<le> b" if "f32.bound b" "0 \<le> b" "1 / 2 + f32_val u \<le> b" for b
    using f32.add_in [of f32_half u 0 b] h u that by (auto simp: f32_in_def v_def)
  have lo: "b \<le> f32_val v" if "f32.bound b" "b \<le> 1 / 2 + f32_val u" for b
    using f32.add_in [of f32_half u b "401 / 2"] h u that bn [of 401] by (auto simp: f32_in_def v_def)
  have up': "f32_val u \<le> b" if "f32.bound b" "0 \<le> b" "25 * f32_val x \<le> b" for b
    using f32.mul_in [of "f32_of_int 25" x 0 b] x that by (auto simp: f32_in_def u_def)
  have lo': "b \<le> f32_val u" if "f32.bound b" "b \<le> 25 * f32_val x" for b
    using f32.mul_in [of "f32_of_int 25" x b 200] x that bn [of 400] by (auto simp: f32_in_def u_def)
  have e1: "real_of_int i - 1 / 2 ^ 15 - 1 / 2 \<le> 25 * f32_val x"
  proof (rule ccontr)
    assume c: "\<not> ?thesis"
    define b where "b = real_of_int (i * 2 ^ 16 - 2 - 2 ^ 15) / 2 ^ 16"
    define b' where "b' = real_of_int (i * 2 ^ 16 - 2) / 2 ^ 16"
    have bb: "f32.bound b" "f32.bound b'" unfolding b_def b'_def by (rule bn(2), use i2 \<open>0 \<le> i\<close> in simp)+
    have "25 * f32_val x \<le> b" using c by (simp add: b_def field_simps)
    moreover from this have "0 \<le> b" using x by simp
    ultimately have "f32_val u \<le> b" using up' bb by simp
    then have "1 / 2 + f32_val u \<le> b'" by (simp add: b_def b'_def field_simps)
    then have "f32_val v \<le> b'" using up bb \<open>0 \<le> b\<close> u by (simp add: f32_in_def)
    then show False using iv by (simp add: b'_def field_simps)
  qed
  have e2: "25 * f32_val x < real_of_int i + 1 / 2"
  proof (rule ccontr)
    assume c: "\<not> ?thesis"
    have "f32.bound (real_of_int i + 1 / 2)" using bn(1) [of "2 * i + 1"] i2 \<open>0 \<le> i\<close> by (simp add: field_simps)
    then have "real_of_int i + 1 / 2 \<le> f32_val u" using lo' c by simp
    then have "real_of_int (i + 1) \<le> f32_val v" using i2 \<open>0 \<le> i\<close> by (intro lo f32.bound_int) simp_all
    then show False using iv by simp
  qed
  show "\<bar>f32_val x - real_of_int i / 25\<bar> \<le> 1 / 50 + 1 / 2 ^ 15" using e1 e2 unfolding abs_le_iff by (auto simp: field_simps)
qed

lemma tansig_argument:
  assumes x: "f32_fin x" and i: "0 \<le> i" "i \<le> 200" and c: "\<bar>f32_val x - real_of_int i / 25\<bar> \<le> 1 / 50 + 1 / 2 ^ 15"
  shows "f32_in (- (1 / 32)) (1 / 32) (f32_sub x (f32_mul (f32_lit 4 (-2)) (f32_of_int i)))"
proof -
  have "f32_lit 4 (-2) = FFin False 10737418 (-28)" by code_simp
  then have q: "f32_fin (f32_lit 4 (-2))" "f32_val (f32_lit 4 (-2)) = 10737418 / 2 ^ 28"
    by (simp_all add: signed_def power_int_minus)
  have fi: "f32_fin (f32_of_int i)" "f32_val (f32_of_int i) = real_of_int i" using i by (simp_all add: f32_of_int_val)
  define p where "p = f32_val (f32_lit 4 (-2)) * f32_val (f32_of_int i)"
  have p: "\<bar>p - real_of_int i / 25\<bar> \<le> 1 / 2 ^ 15" "\<bar>p\<bar> \<le> 15"
    using i unfolding p_def q fi by (auto simp: abs_le_iff field_simps)
  obtain a b where ab: "f32.bound a" "f32.bound b" "a \<le> p" "p \<le> b" "p - 1 / 2 ^ 20 \<le> a" "b \<le> p + 1 / 2 ^ 20"
    by (rule grid20 [OF p(2)]) blast
  have "f32_in a b (f32_mul (f32_lit 4 (-2)) (f32_of_int i))"
    by (rule f32.mul_in) (simp_all only: q(1) fi(1) ab p_def [symmetric])
  then have m: "f32_fin (f32_mul (f32_lit 4 (-2)) (f32_of_int i))"
    "\<bar>f32_val x - f32_val (f32_mul (f32_lit 4 (-2)) (f32_of_int i))\<bar> \<le> 1 / 32"
    using ab p(1) c unfolding f32_in_def abs_le_iff by auto
  have "f32.bound (1 / 32)" by (rule f32.boundI [of _ 1 5]) simp_all
  then show ?thesis using x m unfolding abs_le_iff by (intro f32_sub_in) auto
qed

text \<open>The correction of the table's value stays below the distance to 1.\<close>

lemma power_below: "1 / 2 ^ n \<le> r \<Longrightarrow> r \<le> (1::real) \<Longrightarrow> \<exists>j\<le>n. 1 / 2 ^ j \<le> r \<and> r \<le> 2 / 2 ^ j"
proof (induction n)
  case (Suc n)
  show ?case
  proof (cases "1 / 2 ^ n \<le> r")
    case True
    then obtain j where "j \<le> n" "1 / 2 ^ j \<le> r" "r \<le> 2 / 2 ^ j" using Suc by blast
    then show ?thesis by (intro exI [of _ j]) simp
  next
    case False
    then show ?thesis using Suc.prems by (intro exI [of _ "Suc n"]) simp
  qed
qed auto

lemma tansig_value:
  assumes y: "tansig_entry y" and x: "f32_in (- (1 / 32)) (1 / 32) x"
  shows "f32_in (- 1) 1 (f32_add y (f32_mul (f32_mul x (f32_sub (f32_of_int 1) (f32_mul y y)))
    (f32_sub (f32_of_int 1) (f32_mul y x))))"
proof -
  define dy where "dy = f32_sub (f32_of_int 1) (f32_mul y y)"
  note D = dy_bound [OF y, folded dy_def]
  define w where "w = f32_sub (f32_of_int 1) (f32_mul y x)"
  have b: "f32.bound (1 / 32)" "f32.bound (33 / 32)" by (rule f32.boundI [of _ 1 5] f32.boundI [of _ 33 5]; simp)+
  have xa: "f32_fin x" "\<bar>f32_val x\<bar> \<le> 1 / 32" using x by (auto simp: f32_in_def abs_le_iff)
  have "\<bar>f32_val y * f32_val x\<bar> \<le> 1 * (1 / 32)" unfolding abs_mult using D xa by (intro mult_mono) simp_all
  then have "f32_in (- (1 / 32)) (1 / 32) (f32_mul y x)"
    using D xa b by (intro f32.mul_in) (auto simp: abs_le_iff)
  then have w: "f32_in 0 (33 / 32) w" unfolding w_def
    by (intro f32_sub_in) (use b in \<open>auto simp: f32_in_def\<close>)
  have key: "f32_in (- 1) 1 (f32_add y (f32_mul (f32_mul x dy) w))"
    if c: "f32.bound c" "f32.bound (2 * c)" "0 \<le> c" "f32_val dy / 32 \<le> c" "f32_val y + 2 * c \<le> 1" for c
  proof -
    have "\<bar>f32_val x * f32_val dy\<bar> \<le> 1 / 32 * f32_val dy"
      unfolding abs_mult using D xa by (intro mult_mono) (auto simp: f32_in_def)
    then have p: "f32_in (- c) c (f32_mul x dy)"
      using D xa c by (intro f32.mul_in) (auto simp: abs_le_iff f32_in_def)
    then have "\<bar>f32_val (f32_mul x dy) * f32_val w\<bar> \<le> c * 2"
      unfolding abs_mult using w c by (intro mult_mono) (auto simp: f32_in_def abs_le_iff)
    then have "f32_in (- (2 * c)) (2 * c) (f32_mul (f32_mul x dy) w)"
      using p w c by (intro f32.mul_in) (auto simp: f32_in_def abs_le_iff)
    then show ?thesis using D c by (intro f32.add_in) (auto simp: f32_in_def)
  qed
  have "f32_in (- 1) 1 (f32_add y (f32_mul (f32_mul x dy) w))"
  proof (cases "f32_val y = 1")
    case True
    then show ?thesis using D by (intro key [of 0]) (auto simp: f32_in_def)
  next
    case False
    then have "1 / 2 ^ 20 \<le> 1 - f32_val y" "1 - f32_val y \<le> 1" using y by (auto simp: tansig_entry_def f32_in_def)
    then obtain j where j: "j \<le> 20" "1 / 2 ^ j \<le> 1 - f32_val y" "1 - f32_val y \<le> 2 / 2 ^ j"
      using power_below by blast
    have "f32_val dy \<le> 8 / 2 ^ j" using D(2) j(3) by simp
    then have "f32_val dy / 32 \<le> 1 / 2 ^ (j + 2)" by (simp add: field_simps)
    have "f32.bound (1 / 2 ^ (j + 2))" by (rule f32.boundI [of _ 1 "j + 2"]) (use j in simp_all)
    moreover have "f32.bound (2 * (1 / 2 ^ (j + 2)))" by (rule f32.boundI [of _ 1 "j + 1"]) (use j in simp_all)
    ultimately show ?thesis using j \<open>f32_val dy / 32 \<le> 1 / 2 ^ (j + 2)\<close>
      by (intro key [of "1 / 2 ^ (j + 2)"]) (assumption | simp add: field_simps)+
  qed
  then show ?thesis unfolding dy_def w_def .
qed

lemma tansig_approx_in:
  assumes x: "f32_wf x"
  obtains y where "tansig_approx x = Some y" "f32_in (- 1) 1 y"
proof (cases "f32_lt x (f32_of_int 8) \<and> f32_lt (f32_of_int (- 8)) x")
  case False
  then have "tansig_approx x = Some (f32_of_int 1) \<or> tansig_approx x = Some (f32_of_int (- 1))"
    unfolding tansig_approx_def by auto
  then show ?thesis using that [of "f32_of_int 1"] that [of "f32_of_int (- 1)"] by (auto simp: f32_in_def)
next
  case True
  have e8: "f32_of_int 8 = FFin False 8388608 (-20)" "f32_of_int (- 8) = FFin True 8388608 (-20)" by code_simp+
  have fin: "f32_fin x" using x True by (cases x) (auto simp: e8)
  then have v: "f32_val x < 8" "- 8 < f32_val x" using True by (simp_all add: f32_lt_val)
  define neg where "neg = f32_lt x f32_0"
  define x1 where "x1 = (if neg then f32_neg x else x)"
  have "f32_fin f32_0" "f32_val f32_0 = 0" by (simp_all add: signed_def)
  then have x1: "f32_fin x1" "0 \<le> f32_val x1" "f32_val x1 < 8"
    using fin v by (simp_all add: x1_def neg_def f32_lt_val)
  define i where "i = f32_to_int (f32_floor (f32_add f32_half (f32_mul (f32_of_int 25) x1)))"
  define x2 where "x2 = f32_sub x1 (f32_mul (f32_lit 4 (-2)) (f32_of_int i))"
  note I = tansig_index [OF x1, folded i_def]
  have x2: "f32_in (- (1 / 32)) (1 / 32) x2" unfolding x2_def by (rule tansig_argument) (use x1 I in simp_all)
  define y where "y = tansig_table ! nat i"
  have y: "rd tansig_table i = Some y" using I by (simp add: rd_def tansig_table_length y_def)
  have "tansig_entry y" unfolding y_def using I by (intro tansig_entry nth_mem) (simp add: tansig_table_length)
  note V = tansig_value [OF this x2]
  define z where "z = f32_add y (f32_mul (f32_mul x2 (f32_sub (f32_of_int 1) (f32_mul y y))) (f32_sub (f32_of_int 1) (f32_mul y x2)))"
  define sg where "sg = (if neg then f32_of_int (-1) else f32_of_int 1)"
  have "f32_in (- 1) 1 (f32_mul sg z)"
    by (rule f32.mul_in) (use V in \<open>auto simp: z_def [symmetric] sg_def f32_in_def\<close>)
  moreover have "tansig_approx x = Some (f32_mul sg z)"
    using True fin y unfolding tansig_approx_def Let_def neg_def [symmetric] x1_def [symmetric] i_def [symmetric]
      x2_def [symmetric] sg_def [symmetric] z_def by (cases x) simp_all
  ultimately show ?thesis by (rule that [rotated])
qed

lemma f64_half: "f32_fin (f64_dec 5 (-1))" "f32_val (f64_dec 5 (-1)) = 1 / 2"
proof -
  have "f64_dec 5 (-1) = FFin False 4503599627370496 (-53)" by code_simp
  then show "f32_fin (f64_dec 5 (-1))" "f32_val (f64_dec 5 (-1)) = 1 / 2"
    by (simp_all add: signed_def power_int_minus)
qed

lemma sigmoid_approx_in:
  assumes x: "f32_wf x"
  obtains y where "sigmoid_approx x = Some y" "f32_in 0 1 y"
proof -
  have "f32_wf (f32_of_f64 (f64_mul (f64_dec 5 (-1)) (f64_of_f32 x)))" using x by (simp add: float_op_wf)
  then obtain t where t: "tansig_approx (f32_of_f64 (f64_mul (f64_dec 5 (-1)) (f64_of_f32 x))) = Some t" "f32_in (- 1) 1 t"
    by (rule tansig_approx_in)
  have b: "f64.bound (1 / 2)" by (rule f64.boundI [of _ 1 1]) simp_all
  have "f32_in (- 1) 1 (f64_of_f32 t)" using t(2) by (rule f64_of_f32_in) simp_all
  then have "f32_in (- (1 / 2)) (1 / 2) (f64_mul (f64_dec 5 (-1)) (f64_of_f32 t))"
    unfolding f32_in_def using b by (intro f64.mul_in [unfolded f32_in_def]) (simp_all add: f64_half)
  then have "f32_in 0 1 (f64_add (f64_dec 5 (-1)) (f64_mul (f64_dec 5 (-1)) (f64_of_f32 t)))"
    using f64_half by (intro f64.add_in) (auto simp: f32_in_def)
  then have "f32_in 0 1 (f32_of_f64 (f64_add (f64_dec 5 (-1)) (f64_mul (f64_dec 5 (-1)) (f64_of_f32 t))))"
    by (rule f32_of_f64_in) simp_all
  then show ?thesis using t(1) that by (simp add: sigmoid_approx_def)
qed

section \<open>The layers\<close>

definition dense_ok :: "dense_layer \<Rightarrow> bool" where
  "dense_ok l \<longleftrightarrow> 0 \<le> dl_nb_inputs l \<and> 0 \<le> dl_nb_neurons l \<and> int (length (dl_bias l)) = dl_nb_neurons l \<and>
     int (length (dl_input_weights l)) = dl_nb_inputs l * dl_nb_neurons l"

definition gru_ok :: "gru_layer \<Rightarrow> bool" where
  "gru_ok g \<longleftrightarrow> 0 \<le> gl_nb_inputs g \<and> 0 \<le> gl_nb_neurons g \<and> gl_nb_neurons g \<le> MAX_NEURONS \<and>
     int (length (gl_bias g)) = gl_nb_neurons g * 3 \<and>
     int (length (gl_input_weights g)) = gl_nb_inputs g * gl_nb_neurons g * 3 \<and>
     int (length (gl_recurrent_weights g)) = gl_nb_neurons g * gl_nb_neurons g * 3"

lemma column_ex:
  assumes "0 \<le> off" "off < stride" "m * stride \<le> int (length w)"
  obtains ws where "column w off stride m = Some ws" "length ws = nat m"
proof -
  have "\<exists>y. rd w (off + j * stride) = Some y \<and> True" if "j \<in> set [0 .. m - 1]" for j
  proof -
    have j: "0 \<le> j" "j + 1 \<le> m" using that by auto
    have "(j + 1) * stride \<le> m * stride" using j assms by (intro mult_right_mono) simp_all
    then have "off + j * stride < int (length w)" using assms by (simp add: distrib_right)
    moreover have "0 \<le> j * stride" using j assms by simp
    ultimately show ?thesis using assms by (simp add: rd_def)
  qed
  then obtain ys where "opt_map (\<lambda>j. rd w (off + j * stride)) [0 .. m - 1] = Some ys" "length ys = length [0 .. m - 1]"
    by (rule opt_map_ex)
  then show thesis by (intro that [of ys]) (simp_all add: column_def)
qed

lemma weighted_sum_wf:
  assumes "f32_wf s" "list_all f32_wf xs"
  shows "f32_wf (weighted_sum s ws xs)"
proof -
  have "f32_wf (foldl (\<lambda>s (w, x). f32_add s (f32_mul (f32_of_int w) x)) s zs)" if "f32_wf s" "\<forall>z\<in>set zs. f32_wf (snd z)" for s zs
    using that by (induction zs arbitrary: s) (auto simp: f32_op_wf)
  moreover have "\<forall>z\<in>set (zip ws xs). f32_wf (snd z)" using assms(2) by (auto simp: list_all_iff dest: set_zip_rightD)
  ultimately show ?thesis using assms(1) by (simp add: weighted_sum_def)
qed

lemma slice_list_all:
  assumes "list_all P xs" "0 \<le> n" "n \<le> int (length xs)"
  obtains ys where "slice xs 0 n = Some ys" "length ys = nat n" "list_all P ys"
proof -
  obtain ys where "slice xs 0 n = Some ys" "length ys = nat n" "set ys \<subseteq> set xs"
    by (rule slice_ex [of 0 n xs]) (use assms in simp_all)
  then show thesis using assms(1) by (intro that [of ys]) (auto simp: list_all_iff)
qed

lemma WEIGHTS_SCALE_wf: "f32_wf WEIGHTS_SCALE"
  by (simp add: WEIGHTS_SCALE_def f32_op_wf)

lemma dense_activation_ex:
  assumes "f32_wf x"
  shows "\<exists>y. dense_activation act x = Some y \<and> f32_wf y \<and> (act = ACTIVATION_SIGMOID \<longrightarrow> f32_in 0 1 y)"
proof -
  obtain s where "sigmoid_approx x = Some s" "f32_in 0 1 s" using assms by (rule sigmoid_approx_in)
  moreover obtain t where "tansig_approx x = Some t" "f32_in (- 1) 1 t" using assms by (rule tansig_approx_in)
  moreover have "f32_wf (relu x)" using assms by (simp add: relu_def)
  ultimately show ?thesis unfolding dense_activation_def by (auto dest: f32_in_wf)
qed

lemma compute_dense_ex:
  assumes l: "dense_ok l" "dl_nb_neurons l \<le> cap" "dl_nb_inputs l \<le> int (length input)" and x: "list_all f32_wf input"
  obtains out where "compute_dense l cap input = Some out" "int (length out) = dl_nb_neurons l" "list_all f32_wf out"
    "dl_activation l = ACTIVATION_SIGMOID \<longrightarrow> list_all (f32_in 0 1) out"
proof -
  define M where "M = dl_nb_inputs l"
  define N where "N = dl_nb_neurons l"
  have l': "0 \<le> M" "0 \<le> N" "int (length (dl_bias l)) = N" "int (length (dl_input_weights l)) = M * N"
    using l(1) by (simp_all add: dense_ok_def M_def N_def)
  obtain xs where xs: "slice input 0 M = Some xs" "list_all f32_wf xs"
    by (rule slice_list_all [OF x l'(1)]) (use l(3) in \<open>simp_all add: M_def\<close>)
  define f where "f i = do { b \<leftarrow> rd (dl_bias l) i; ws \<leftarrow> column (dl_input_weights l) i N M; xs \<leftarrow> slice input 0 M;
    Some (f32_mul WEIGHTS_SCALE (weighted_sum (f32_of_int b) ws xs)) }" for i
  have "\<exists>y. f i = Some y \<and> f32_wf y" if "i \<in> set [0 .. N - 1]" for i
  proof -
    have i: "0 \<le> i" "i < N" using that by auto
    have "M * N \<le> int (length (dl_input_weights l))" unfolding l'(4) ..
    then obtain ws where "column (dl_input_weights l) i N M = Some ws" by (rule column_ex [OF i])
    then show ?thesis using xs i l' by (simp add: f_def rd_def f32_op_wf weighted_sum_wf WEIGHTS_SCALE_wf)
  qed
  then obtain os where os: "opt_map f [0 .. N - 1] = Some os" "length os = length [0 .. N - 1]" "\<forall>y\<in>set os. f32_wf y"
    by (rule opt_map_ex)
  have "\<exists>z. dense_activation (dl_activation l) y = Some z \<and> f32_wf z \<and> (dl_activation l = ACTIVATION_SIGMOID \<longrightarrow> f32_in 0 1 z)"
    if "y \<in> set os" for y
    using os(3) that by (intro dense_activation_ex) simp
  then obtain out where out: "opt_map (dense_activation (dl_activation l)) os = Some out" "length out = length os"
    "\<forall>z\<in>set out. f32_wf z \<and> (dl_activation l = ACTIVATION_SIGMOID \<longrightarrow> f32_in 0 1 z)"
    by (rule opt_map_ex)
  have "compute_dense l cap input = Some out"
    unfolding compute_dense_def Let_def M_def [symmetric] N_def [symmetric] f_def [symmetric]
    using os(1) out(1) l(2) by (simp add: N_def [symmetric])
  then show thesis by (rule that) (use out os l' in \<open>auto simp: N_def [symmetric] list_all_iff\<close>)
qed

lemma gru_activation_ex: "f32_wf x \<Longrightarrow> \<exists>y. gru_activation act x = Some y \<and> f32_wf y"
  using dense_activation_ex [of "f32_mul WEIGHTS_SCALE x" act]
  by (auto simp: gru_activation_def dense_activation_def WEIGHTS_SCALE_wf f32_op_wf)

text \<open>The inputs of a gate: rows of weights and what they are multiplied with.\<close>

lemma gru_row:
  assumes g: "gru_ok g" and gate: "0 \<le> gate" "gate < 3" and i: "0 \<le> i" "i < gl_nb_neurons g"
  obtains b ws us where "rd (gl_bias g) (gate * gl_nb_neurons g + i) = Some b"
    "column (gl_input_weights g) (gate * gl_nb_neurons g + i) (3 * gl_nb_neurons g) (gl_nb_inputs g) = Some ws"
    "column (gl_recurrent_weights g) (gate * gl_nb_neurons g + i) (3 * gl_nb_neurons g) (gl_nb_neurons g) = Some us"
proof -
  define N where "N = gl_nb_neurons g"
  have n: "0 \<le> gate * N + i" "gate * N + i < 3 * N"
  proof -
    show "0 \<le> gate * N + i" using gate i by (simp add: N_def)
    have "gate * N \<le> 2 * N" using gate i by (intro mult_right_mono) (simp_all add: N_def)
    then show "gate * N + i < 3 * N" using i unfolding N_def [symmetric] by linarith
  qed
  have len: "int (length (gl_bias g)) = N * 3" "gl_nb_inputs g * (3 * N) \<le> int (length (gl_input_weights g))"
    "N * (3 * N) \<le> int (length (gl_recurrent_weights g))"
    using g by (simp_all add: gru_ok_def N_def)
  obtain ws where ws: "column (gl_input_weights g) (gate * N + i) (3 * N) (gl_nb_inputs g) = Some ws"
    by (rule column_ex [OF n len(2)])
  obtain us where us: "column (gl_recurrent_weights g) (gate * N + i) (3 * N) N = Some us"
    by (rule column_ex [OF n len(3)])
  have "rd (gl_bias g) (gate * N + i) = Some (gl_bias g ! nat (gate * N + i))" using n len by (simp add: rd_Some)
  then show thesis using ws us unfolding N_def by (rule that)
qed

lemma compute_gru_ex:
  assumes g: "gru_ok g" "gl_nb_inputs g \<le> int (length input)" and st: "int (length st) = gl_nb_neurons g" "list_all f32_wf st"
    and x: "list_all f32_wf input"
  obtains h where "compute_gru g st input = Some h" "int (length h) = gl_nb_neurons g" "list_all f32_wf h"
proof -
  define M where "M = gl_nb_inputs g"
  define N where "N = gl_nb_neurons g"
  have g': "0 \<le> M" "0 \<le> N" "N \<le> 128" using g(1) by (simp_all add: gru_ok_def M_def N_def)
  obtain xs where xs: "slice input 0 M = Some xs" "list_all f32_wf xs"
    by (rule slice_list_all [OF x g'(1)]) (use g(2) in \<open>simp_all add: M_def\<close>)
  have ss: "slice st 0 N = Some st" using st slice_all [of st] by (simp add: N_def)
  have gate: "\<exists>y. gru_sum g k i st input = Some y \<and> f32_wf y" if "0 \<le> k" "k < 3" "i \<in> set [0 .. N - 1]" for k i
  proof -
    have "0 \<le> i" "i < gl_nb_neurons g" using that(3) by (auto simp: N_def)
    then show ?thesis by (rule gru_row [OF g(1) that(1,2)])
      (use xs ss st in \<open>simp add: gru_sum_def Let_def M_def [symmetric] N_def [symmetric] weighted_sum_wf\<close>)
  qed
  define sg where "sg k i = do { s \<leftarrow> gru_sum g k i st input; sigmoid_approx (f32_mul WEIGHTS_SCALE s) }" for k i
  have "\<exists>y. sg k i = Some y \<and> f32_wf y" if k: "0 \<le> k" "k < 3" and i: "i \<in> set [0 .. N - 1]" for k i
  proof -
    obtain s where s: "gru_sum g k i st input = Some s" "f32_wf s" using gate [OF k i] by blast
    have "f32_wf (f32_mul WEIGHTS_SCALE s)" using s by (simp add: WEIGHTS_SCALE_wf f32_op_wf)
    then obtain y where "sigmoid_approx (f32_mul WEIGHTS_SCALE s) = Some y" "f32_in 0 1 y" by (rule sigmoid_approx_in)
    then show ?thesis using s by (auto simp: sg_def dest: f32_in_wf)
  qed
  note sgx = this
  have sg: "\<exists>zs. opt_map (sg k) [0 .. N - 1] = Some zs \<and> length zs = nat N \<and> (\<forall>z\<in>set zs. f32_wf z)"
    if k: "0 \<le> k" "k < 3" for k
  proof -
    obtain zs where "opt_map (sg k) [0 .. N - 1] = Some zs" "length zs = length [0 .. N - 1]" "\<forall>z\<in>set zs. f32_wf z"
      by (rule opt_map_ex [OF sgx [OF k]])
    then show ?thesis by simp
  qed
  obtain z where z: "opt_map (sg 0) [0 .. N - 1] = Some z" "length z = nat N" "\<forall>z\<in>set z. f32_wf z" using sg [of 0] by auto
  obtain r where r: "opt_map (sg 1) [0 .. N - 1] = Some r" "length r = nat N" "\<forall>z\<in>set r. f32_wf z" using sg [of 1] by auto
  have fold_wf: "f32_wf (foldl (\<lambda>s (u, x, y). f32_add s (f32_mul (f32_mul (f32_of_int u) x) y)) s zs)"
    if "f32_wf s" "\<forall>(u, x, y)\<in>set zs. f32_wf x \<and> f32_wf y" for s zs
    using that by (induction zs arbitrary: s) (auto simp: f32_op_wf)
  define hh where "hh i = do { s \<leftarrow> gru_output_sum g i st r input; a \<leftarrow> gru_activation (gl_activation g) s; zi \<leftarrow> rd z i;
    si \<leftarrow> rd st i; Some (f32_add (f32_mul zi si) (f32_mul (f32_sub (f32_of_int 1) zi) a)) }" for i
  have "\<exists>y. hh i = Some y \<and> f32_wf y" if "i \<in> set [0 .. N - 1]" for i
  proof -
    have i: "0 \<le> i" "i < gl_nb_neurons g" using that by (auto simp: N_def)
    have pair: "\<forall>(u, x, y)\<in>set (zip us (zip st r)). f32_wf x \<and> f32_wf y" for us :: "int list"
    proof (clarify)
      fix u x y assume "(u, x, y) \<in> set (zip us (zip st r))"
      then have "(x, y) \<in> set (zip st r)" by (rule set_zip_rightD)
      then have "x \<in> set st" "y \<in> set r" by (auto dest: set_zip_leftD set_zip_rightD)
      then show "f32_wf x \<and> f32_wf y" using st(2) r(3) by (simp add: list_all_iff)
    qed
    have "\<exists>s. gru_output_sum g i st r input = Some s \<and> f32_wf s"
      by (rule gru_row [OF g(1) _ _ i, of 2])
        (use xs ss pair in \<open>simp_all add: gru_output_sum_def Let_def M_def [symmetric] N_def [symmetric] weighted_sum_wf fold_wf\<close>)
    then obtain s a where "gru_output_sum g i st r input = Some s" "gru_activation (gl_activation g) s = Some a" "f32_wf a"
      using gru_activation_ex by blast
    moreover have "rd z i = Some (z ! nat i)" "f32_wf (z ! nat i)" "rd st i = Some (st ! nat i)" "f32_wf (st ! nat i)"
      using i z st by (simp_all add: rd_def N_def list_all_length)
    ultimately show ?thesis by (simp add: hh_def f32_op_wf)
  qed
  then obtain h where h: "opt_map hh [0 .. N - 1] = Some h" "length h = length [0 .. N - 1]" "\<forall>y\<in>set h. f32_wf y"
    by (rule opt_map_ex)
  have "compute_gru g st input = Some (h @ drop (length h) st)"
    unfolding compute_gru_def Let_def N_def [symmetric] sg_def [symmetric]
    using z(1) r(1) h(1) g'(3) unfolding hh_def by (simp add: sg_def [symmetric])
  then show thesis by (rule that) (use h g' st in \<open>auto simp: N_def [symmetric] list_all_iff\<close>)
qed

section \<open>The network\<close>

text \<open>The sizes of a model fit each other: every layer reads what the ones before it wrote.\<close>

definition model_ok :: "rnn_model \<Rightarrow> bool" where
  "model_ok m \<longleftrightarrow>
     dense_ok (m_input_dense m) \<and> gru_ok (m_vad_gru m) \<and> gru_ok (m_noise_gru m) \<and> gru_ok (m_denoise_gru m) \<and>
     dense_ok (m_denoise_output m) \<and> dense_ok (m_vad_output m) \<and>
     m_input_dense_size m = dl_nb_neurons (m_input_dense m) \<and> m_vad_gru_size m = gl_nb_neurons (m_vad_gru m) \<and>
     m_noise_gru_size m = gl_nb_neurons (m_noise_gru m) \<and> m_denoise_gru_size m = gl_nb_neurons (m_denoise_gru m) \<and>
     dl_nb_inputs (m_input_dense m) \<le> INPUT_SIZE \<and> m_input_dense_size m \<le> MAX_NEURONS \<and>
     gl_nb_inputs (m_vad_gru m) \<le> m_input_dense_size m \<and>
     dl_nb_inputs (m_vad_output m) \<le> m_vad_gru_size m \<and> dl_nb_neurons (m_vad_output m) \<le> 1 \<and>
     gl_nb_inputs (m_noise_gru m) \<le> m_input_dense_size m + m_vad_gru_size m + INPUT_SIZE \<and>
     gl_nb_inputs (m_denoise_gru m) \<le> m_vad_gru_size m + m_noise_gru_size m + INPUT_SIZE \<and>
     dl_nb_inputs (m_denoise_output m) \<le> m_denoise_gru_size m"

definition rnn_state_ok :: "rnn_state \<Rightarrow> bool" where
  "rnn_state_ok r \<longleftrightarrow> model_ok (r_model r) \<and>
     int (length (r_vad_gru_state r)) = m_vad_gru_size (r_model r) \<and> list_all f32_wf (r_vad_gru_state r) \<and>
     int (length (r_noise_gru_state r)) = m_noise_gru_size (r_model r) \<and> list_all f32_wf (r_noise_gru_state r) \<and>
     int (length (r_denoise_gru_state r)) = m_denoise_gru_size (r_model r) \<and> list_all f32_wf (r_denoise_gru_state r)"

definition sigmoid_bounds :: "dense_layer \<Rightarrow> f32 list \<Rightarrow> bool" where
  "sigmoid_bounds l out \<longleftrightarrow> int (length out) = dl_nb_neurons l \<and> list_all f32_wf out \<and>
     (dl_activation l = ACTIVATION_SIGMOID \<longrightarrow> list_all (f32_in 0 1) out)"

lemma compute_rnn_ex:
  assumes r: "rnn_state_ok r" and out: "dl_nb_neurons (m_denoise_output (r_model r)) \<le> gcap"
    and x: "length input = 42" "list_all f32_wf input"
  obtains r' gains vad where "compute_rnn r gcap input = Some (r', gains, vad)" "rnn_state_ok r'" "r_model r' = r_model r"
    "sigmoid_bounds (m_denoise_output (r_model r)) gains" "sigmoid_bounds (m_vad_output (r_model r)) vad"
proof -
  define m where "m = r_model r"
  have m: "model_ok m" using r by (simp add: rnn_state_ok_def m_def)
  note M = m [unfolded model_ok_def]
  note st = r [unfolded rnn_state_ok_def, folded m_def]
  obtain d where d: "compute_dense (m_input_dense m) 128 input = Some d" "int (length d) = m_input_dense_size m" "list_all f32_wf d"
    by (rule compute_dense_ex [of "m_input_dense m" 128 input]) (use M x in auto)
  obtain v where v: "compute_gru (m_vad_gru m) (r_vad_gru_state r) d = Some v" "int (length v) = m_vad_gru_size m" "list_all f32_wf v"
    by (rule compute_gru_ex [of "m_vad_gru m" d "r_vad_gru_state r"]) (use M st d in auto)
  obtain vad where vad: "compute_dense (m_vad_output m) 1 v = Some vad" "sigmoid_bounds (m_vad_output m) vad"
    by (rule compute_dense_ex [of "m_vad_output m" 1 v]) (use M v in \<open>auto simp: sigmoid_bounds_def\<close>)
  have sl: "slice d 0 (m_input_dense_size m) = Some d" "slice v 0 (m_vad_gru_size m) = Some v" "slice input 0 42 = Some input"
    using slice_all [of d] slice_all [of v] slice_all [of input] d(2) v(2) x(1) by simp_all
  have small: "int (length v) \<le> 128" "int (length d) \<le> 128" using M d(2) v(2) by (simp_all add: gru_ok_def)
  obtain n where n: "compute_gru (m_noise_gru m) (r_noise_gru_state r) (d @ v @ input) = Some n"
    "int (length n) = m_noise_gru_size m" "list_all f32_wf n"
    by (rule compute_gru_ex [of "m_noise_gru m" "d @ v @ input" "r_noise_gru_state r"]) (use M st d v x in auto)
  have sn: "slice n 0 (m_noise_gru_size m) = Some n" "int (length n) \<le> 128"
    using slice_all [of n] n(2) M by (simp_all add: gru_ok_def)
  obtain h where h: "compute_gru (m_denoise_gru m) (r_denoise_gru_state r) (v @ n @ input) = Some h"
    "int (length h) = m_denoise_gru_size m" "list_all f32_wf h"
    by (rule compute_gru_ex [of "m_denoise_gru m" "v @ n @ input" "r_denoise_gru_state r"]) (use M st n v x in auto)
  obtain g where g: "compute_dense (m_denoise_output m) gcap h = Some g" "sigmoid_bounds (m_denoise_output m) g"
    by (rule compute_dense_ex [of "m_denoise_output m" gcap h]) (use M h out in \<open>auto simp: sigmoid_bounds_def m_def\<close>)
  have f: "fill 384 (d @ v @ input) = Some (d @ v @ input)" "fill 384 (v @ n @ input) = Some (v @ n @ input)"
    using small sn x by (simp_all add: fill_def)
  define r' where "r' = r\<lparr>r_vad_gru_state := v, r_noise_gru_state := n, r_denoise_gru_state := h\<rparr>"
  have "compute_rnn r gcap input = Some (r', g, vad)"
    unfolding compute_rnn_def Let_def m_def [symmetric] r'_def
    by (simp add: d(1) v(1) vad(1) sl n(1) sn h(1) g(1) f)
  moreover have "rnn_state_ok r'" using m v n h by (simp add: rnn_state_ok_def r'_def m_def)
  ultimately show thesis using that g(2) vad(2) by (simp add: m_def r'_def)
qed

lemma orig_model_ok: "orig_weights w \<Longrightarrow> model_ok (rnnoise_model_orig w)"
  by (simp add: orig_weights_def model_ok_def rnnoise_model_orig_def dense_ok_def gru_ok_def)

section \<open>The properties\<close>

text \<open>
  C19. The activation functions return on every float, with infinite values and NaN among them:
  the index of the table stays inside it, the hyperbolic tangent is between -1 and 1 and the
  sigmoid between 0 and 1, with all the roundings of the code.
\<close>

theorem activation_bounds:
  assumes "f32_wf x"
  shows "(\<exists>y. tansig_approx x = Some y \<and> f32_in (- 1) 1 y) \<and> (\<exists>y. sigmoid_approx x = Some y \<and> f32_in 0 1 y)"
proof
  obtain y where "tansig_approx x = Some y" "f32_in (- 1) 1 y" using assms by (rule tansig_approx_in)
  then show "\<exists>y. tansig_approx x = Some y \<and> f32_in (- 1) 1 y" by blast
  obtain z where "sigmoid_approx x = Some z" "f32_in 0 1 z" using assms by (rule sigmoid_approx_in)
  then show "\<exists>y. sigmoid_approx x = Some y \<and> f32_in 0 1 y" by blast
qed

theorem activation_bounds_witness:
  "(\<exists>y. tansig_approx (FFin False 8388608 (-25)) = Some y \<and> f32_in (- 1) 1 y) \<and>
   (\<exists>y. sigmoid_approx (FFin False 8388608 (-25)) = Some y \<and> f32_in 0 1 y)"
  by (rule activation_bounds) simp

text \<open>
  C7. The network returns on 42 features for every state whose arrays have the lengths of its
  model: no layer reads or writes outside an array, the state keeps its lengths, and the gains
  and the probability of voice of a model with sigmoid outputs, such as the built-in one, are
  between 0 and 1.
\<close>

theorem network_safe:
  assumes "rnn_state_ok r" "length input = 42" "list_all f32_wf input"
    and "dl_nb_neurons (m_denoise_output (r_model r)) \<le> gcap"
    and "dl_activation (m_denoise_output (r_model r)) = ACTIVATION_SIGMOID" "dl_activation (m_vad_output (r_model r)) = ACTIVATION_SIGMOID"
  shows "\<exists>r' gains vad. compute_rnn r gcap input = Some (r', gains, vad) \<and> rnn_state_ok r' \<and> r_model r' = r_model r \<and>
    int (length gains) = dl_nb_neurons (m_denoise_output (r_model r)) \<and> list_all (f32_in 0 1) gains \<and>
    int (length vad) = dl_nb_neurons (m_vad_output (r_model r)) \<and> list_all (f32_in 0 1) vad"
proof -
  obtain r' gains vad where "compute_rnn r gcap input = Some (r', gains, vad)" "rnn_state_ok r'" "r_model r' = r_model r"
    "sigmoid_bounds (m_denoise_output (r_model r)) gains" "sigmoid_bounds (m_vad_output (r_model r)) vad"
    using assms(1,4,2,3) by (rule compute_rnn_ex)
  then show ?thesis using assms(5,6) by (auto simp: sigmoid_bounds_def)
qed

text \<open>Weights of the lengths of the built-in model.\<close>

definition zero_weights :: "nat \<Rightarrow> int list" where
  "zero_weights k = replicate ([1008, 24, 1728, 1728, 72, 12960, 6912, 144, 32832, 27648, 288, 2112, 22, 24, 1] ! k) 0"

definition zero_net :: rnn_state where
  "zero_net = \<lparr>r_model = rnnoise_model_orig zero_weights, r_vad_gru_state = replicate 24 f32_0,
     r_noise_gru_state = replicate 48 f32_0, r_denoise_gru_state = replicate 96 f32_0\<rparr>"

lemma zero_weights_orig: "orig_weights zero_weights"
  by (simp add: orig_weights_def zero_weights_def)

lemma zero_net_ok: "rnn_state_ok zero_net"
  using orig_model_ok [OF zero_weights_orig]
  by (simp add: rnn_state_ok_def zero_net_def list_all_iff) (simp add: rnnoise_model_orig_def)

theorem network_safe_witness:
  "\<exists>r' gains vad. compute_rnn zero_net 22 (replicate 42 f32_0) = Some (r', gains, vad) \<and> rnn_state_ok r' \<and>
    r_model r' = r_model zero_net \<and> int (length gains) = 22 \<and> list_all (f32_in 0 1) gains \<and>
    int (length vad) = 1 \<and> list_all (f32_in 0 1) vad"
  using network_safe [of zero_net "replicate 42 f32_0" 22] zero_net_ok
  by (simp add: zero_net_def rnnoise_model_orig_def list_all_iff)

end
