(* ===== verification/DenoiseProps.thy ===== *)
theory DenoiseProps
  imports Denoise PitchProps RnnProps KissTable
begin

text \<open>
  The denoiser keeps its state in shape: every array keeps its length and holds well-formed
  floats, the ring index stays inside the ring, the period is one that the pitch buffer holds,
  and the gains stay between 0 and 1. So no frame makes the code read or write outside an array.
\<close>

declare upt_rec_numeral [simp del]

section \<open>Arrays of floats\<close>

definition floats :: "nat \<Rightarrow> f32 list \<Rightarrow> bool" where
  "floats n xs \<longleftrightarrow> length xs = n \<and> list_all f32_wf xs"

definition cfloats :: "nat \<Rightarrow> f32 cpx list \<Rightarrow> bool" where
  "cfloats n xs \<longleftrightarrow> length xs = n \<and> list_all (both f32_wf) xs"

lemma floats_length: "floats n xs \<Longrightarrow> length xs = n" and cfloats_length: "cfloats n X \<Longrightarrow> length X = n"
  by (simp_all add: floats_def cfloats_def)

lemma floats_nth: "floats n xs \<Longrightarrow> i < n \<Longrightarrow> f32_wf (xs ! i)"
  by (simp add: floats_def list_all_length)

lemma cfloats_nth: "cfloats n X \<Longrightarrow> i < n \<Longrightarrow> f32_wf (fst (X ! i)) \<and> f32_wf (snd (X ! i))"
  by (auto simp: cfloats_def list_all_length both_def)

lemma floats_upd: "floats n xs \<Longrightarrow> f32_wf v \<Longrightarrow> floats n (xs[i := v])"
  by (simp add: floats_def list_all_upd)

lemma floats_append: "floats m xs \<Longrightarrow> floats n ys \<Longrightarrow> floats (m + n) (xs @ ys)"
  by (simp add: floats_def)

lemma floats_drop: "floats n xs \<Longrightarrow> floats (n - k) (drop k xs)" and floats_take: "floats n xs \<Longrightarrow> k \<le> n \<Longrightarrow> floats k (take k xs)"
  by (auto simp: floats_def list_all_iff dest: in_set_dropD in_set_takeD)

lemma floats_replicate: "f32_wf v \<Longrightarrow> floats n (replicate n v)"
  by (simp add: floats_def list_all_iff)

lemma floats_mapI: "length js = n \<Longrightarrow> (\<And>i. i \<in> set js \<Longrightarrow> f32_wf (f i)) \<Longrightarrow> floats n (map f js)"
  by (simp add: floats_def list_all_iff)

lemma cfloats_mapI: "length js = n \<Longrightarrow> (\<And>i. i \<in> set js \<Longrightarrow> f32_wf (fst (f i)) \<and> f32_wf (snd (f i))) \<Longrightarrow> cfloats n (map f js)"
  by (simp add: cfloats_def list_all_iff both_def)

lemma f32_0_wf: "f32_wf f32_0"
  by simp

lemma zip2E:
  assumes "i \<in> set (zip xs ys)"
  obtains a b where "i = (a, b)" "a \<in> set xs" "b \<in> set ys"
  using assms by (metis surj_pair set_zip_leftD set_zip_rightD)

lemma floats_mem: "floats n xs \<Longrightarrow> x \<in> set xs \<Longrightarrow> f32_wf x"
  by (simp add: floats_def list_all_iff)

lemma cfloats_mem: "cfloats n X \<Longrightarrow> x \<in> set X \<Longrightarrow> f32_wf (fst x) \<and> f32_wf (snd x)"
  by (simp add: cfloats_def list_all_iff both_def)

lemma zip_both: "(x, y) \<in> set (zip xs ys) \<Longrightarrow> x \<in> set xs \<and> y \<in> set ys"
  by (auto dest: set_zip_leftD set_zip_rightD)

lemma floats_slice:
  assumes "floats n xs" "0 \<le> off" "off + int k \<le> int n"
  obtains ys where "slice xs off (int k) = Some ys" "floats k ys"
proof -
  obtain ys where "slice xs off (int k) = Some ys" "length ys = nat (int k)" "set ys \<subseteq> set xs"
    by (rule slice_ex [of off "int k" xs]) (use assms in \<open>simp_all add: floats_def\<close>)
  then show thesis using assms(1) by (intro that [of ys]) (auto simp: floats_def list_all_iff)
qed

lemma cfloats_slice:
  assumes "cfloats n xs"
  shows "slice xs 0 (int n) = Some xs"
  using slice_all [of xs] assms by (simp add: cfloats_def)

lemma f32_ops_closed: "ops_closed f32_ops f32_wf"
  by (simp add: ops_closed_def f32_ops_def float_op_wf)

section \<open>The tables\<close>

definition common_ok :: "common_state \<Rightarrow> bool" where
  "common_ok c \<longleftrightarrow> fft_ok f32_ops f32_wf (c_kfft c) \<and> ff_nfft (c_kfft c) = WINDOW_SIZE \<and>
     floats FRAME_SIZE (c_half_window c) \<and> floats (NB_BANDS * NB_BANDS) (c_dct_table c)"

lemma M_PI_wf: "f32_wf M_PI"
  by (simp add: M_PI_def float_op_wf)

lemma floats_concat:
  "(\<And>i. i \<in> set js \<Longrightarrow> floats n (f i)) \<Longrightarrow> floats (length js * n) (concat (map f js))"
  by (induction js) (simp_all add: floats_append, simp add: floats_def)

lemma check_init_ex:
  assumes "\<And>x. f32_wf x \<Longrightarrow> f32_wf (cosd x)" "\<And>x. f32_wf x \<Longrightarrow> f32_wf (sind x)"
  obtains c where "check_init cosd sind = Some c" "common_ok c"
proof -
  define fs :: "(nat \<times> nat) list" where "fs = [(5, 192), (3, 64), (4, 16), (4, 4), (4, 1)]"
  have plan: "plan_ok 960 fs" "fs \<noteq> []" using plan_ok_960 by (simp_all add: fs_def)
  obtain table where t: "compute_bitrev_table 0 0 1 1 (code_plan fs) (replicate 960 None) = Some table" "length table = 960"
    "\<And>t. t < 960 \<Longrightarrow> table ! input_of fs t = Some (int t)"
    by (rule bitrev_table_plan [OF plan]) (simp, blast)
  have k: "kf_factor 960 = Some (True, code_plan fs)" by (simp add: kf_factor_960 fs_def)
  define st where "st = \<lparr>ff_nfft = 960, ff_scale = f32_div (f32_of_int 1) (f32_of_int (int 960)), ff_shift = - 1,
    ff_factors = code_plan fs, ff_bitrev = table, ff_twiddles = compute_twiddles cosd sind 960\<rparr>"
  have st: "ff_nfft st = 960" "ff_shift st = - 1" "ff_factors st = code_plan fs" "ff_bitrev st = table"
    "ff_scale st = f32_div (f32_of_int 1) (f32_of_int (int 960))" "ff_twiddles st = compute_twiddles cosd sind 960"
    by (simp_all add: st_def)
  have alloc: "opus_fft_alloc_twiddles cosd sind (True, True, True) 960 None = Some (Some st)"
    by (simp add: opus_fft_alloc_twiddles_def k t(1) [unfolded One_nat_def] st_def)
  have tw: "list_all (both f32_wf) (compute_twiddles cosd sind 960)" "length (compute_twiddles cosd sind 960) = 960"
    by (simp_all add: compute_twiddles_def Let_def list_all_iff both_def float_op_wf assms)
  have "fft_tables st" using plan t(2,3) plan_of_code [OF st(3)] tw by (simp add: fft_tables_def st) (simp add: fs_def)
  then have fft: "fft_ok f32_ops f32_wf st" using tw by (simp add: fft_ok_def st float_op_wf)
  define w where "w i = (let a = f64_div (f64_mul (f64_mul (f64_dec 5 (-1)) M_PI) (f64_add (f64_of_int (int i)) (f64_dec 5 (-1))))
      (f64_of_int (int FRAME_SIZE))
    in f32_of_f64 (sind (f64_mul (f64_mul (f64_mul (f64_dec 5 (-1)) M_PI) (sind a)) (sind a))))" for i
  define d where "d i j = (let t = f32_of_f64 (cosd (f64_div (f64_mul (f64_mul (f64_add (f64_of_int (int i)) (f64_dec 5 (-1)))
      (f64_of_int (int j))) M_PI) (f64_of_int (int NB_BANDS))))
    in if j = 0 then f32_of_f64 (f64_mul (f64_of_f32 t) (f64_sqrt (f64_dec 5 (-1)))) else t)" for i j
  define c where "c = \<lparr>c_kfft = st, c_half_window = map w [0 ..< 480], c_dct_table = concat (map (\<lambda>i. map (d i) [0 ..< 22]) [0 ..< 22])\<rparr>"
  have "floats 480 (map w [0 ..< 480])"
    by (rule floats_mapI) (simp_all add: w_def Let_def float_op_wf assms M_PI_wf)
  moreover have "floats (length [0 ..< 22] * 22) (concat (map (\<lambda>i. map (d i) [0 ..< 22]) [0 ..< 22]))"
    by (intro floats_concat floats_mapI) (simp_all add: d_def Let_def float_op_wf assms M_PI_wf)
  ultimately have "common_ok c" using fft st(1) by (simp add: common_ok_def c_def)
  moreover have "check_init cosd sind = Some c"
    unfolding check_init_def using alloc unfolding Let_def w_def [abs_def] d_def [abs_def] c_def by simp
  ultimately show thesis using that by blast
qed

section \<open>Bands\<close>

text \<open>Every bin of a band is one of the 400 first of the spectrum, and every band has a next one.\<close>

lemma eband_step: "i < 21 \<Longrightarrow> eband5ms ! i < eband5ms ! (i + 1) \<and> eband5ms ! (i + 1) \<le> 100"
proof -
  assume "i < 21"
  then have "i \<in> set [0 ..< 21]" by simp
  moreover have "list_all (\<lambda>i. eband5ms ! i < eband5ms ! (i + 1) \<and> eband5ms ! (i + 1) \<le> 100) [0 ..< 21]" by code_simp
  ultimately show ?thesis by (auto simp: list_all_iff)
qed

lemma band_bins_in:
  assumes "(i, k, fr) \<in> set band_bins"
  shows "i < 21" "k < 400" "f32_wf fr"
proof -
  obtain j where j: "i < 21" "j < (eband5ms ! (i + 1) - eband5ms ! i) * 4" "k = eband5ms ! i * 4 + j"
    "fr = f32_div (f32_of_int (int j)) (f32_of_int (int ((eband5ms ! (i + 1) - eband5ms ! i) * 4)))"
    using assms unfolding band_bins_def Let_def by auto
  show "i < 21" by (rule j)
  show "k < 400" using j eband_step [OF j(1)] by linarith
  show "f32_wf fr" by (simp add: j float_op_wf)
qed

lemma band_sums_floats:
  assumes "\<And>k. k < 400 \<Longrightarrow> f32_wf (t k)"
  shows "floats 22 (band_sums t)"
proof -
  define F where "F = foldl (\<lambda>acc (i, k, frac).
            let t = t k;
                acc = acc[i := f32_add (acc ! i) (f32_mul (f32_sub (f32_of_int 1) frac) t)]
            in acc[i + 1 := f32_add (acc ! (i + 1)) (f32_mul frac t)]) (replicate NB_BANDS f32_0) band_bins"
  have "floats 22 F" unfolding F_def
  proof (rule foldl_keeps)
    fix acc x assume x: "x \<in> set band_bins" and a: "floats 22 acc"
    obtain i k fr where e: "x = (i, k, fr)" by (cases x)
    note b = band_bins_in [OF x [unfolded e]]
    define a' where "a' = acc[i := f32_add (acc ! i) (f32_mul (f32_sub (f32_of_int 1) fr) (t k))]"
    have a': "floats 22 a'" unfolding a'_def
      using b assms by (intro floats_upd a) (simp add: float_op_wf floats_nth [OF a])
    have "floats 22 (a'[i + 1 := f32_add (a' ! (i + 1)) (f32_mul fr (t k))])"
      using b assms by (intro floats_upd a') (simp add: float_op_wf floats_nth [OF a'])
    then show "floats 22 (case x of (i, k, fr) \<Rightarrow>
        let t = t k; acc = acc[i := f32_add (acc ! i) (f32_mul (f32_sub (f32_of_int 1) fr) t)]
        in acc[i + 1 := f32_add (acc ! (i + 1)) (f32_mul fr t)])"
      by (simp add: e a'_def Let_def)
  qed (simp add: floats_replicate)
  then have G: "floats 22 (F[0 := f32_mul (F ! 0) (f32_of_int 2)])" (is "floats 22 ?G")
    by (intro floats_upd) (simp_all add: float_op_wf floats_nth)
  have "band_sums t = ?G[22 - 1 := f32_mul (?G ! (22 - 1)) (f32_of_int 2)]"
    unfolding band_sums_def F_def Let_def by (rule refl)
  then show ?thesis using floats_upd [OF G, of "f32_mul (?G ! 21) (f32_of_int 2)" 21] floats_nth [OF G, of 21]
    by (simp add: float_op_wf)
qed

lemma compute_band_energy_floats: "cfloats 481 X \<Longrightarrow> floats 22 (compute_band_energy X)"
  unfolding compute_band_energy_def by (rule band_sums_floats) (simp add: float_op_wf cfloats_nth)

lemma compute_band_corr_floats: "cfloats 481 X \<Longrightarrow> cfloats 481 P \<Longrightarrow> floats 22 (compute_band_corr X P)"
  unfolding compute_band_corr_def by (rule band_sums_floats) (simp add: float_op_wf cfloats_nth)

lemma interp_band_gain_floats:
  assumes g: "floats 481 g" and e: "floats 22 e"
  shows "floats 481 (interp_band_gain g e)"
  unfolding interp_band_gain_def
proof (rule foldl_keeps)
  fix g x assume x: "x \<in> set band_bins" and g: "floats 481 g"
  obtain i k fr where ix: "x = (i, k, fr)" by (cases x)
  note b = band_bins_in [OF x [unfolded ix]]
  have "f32_wf (f32_add (f32_mul (f32_sub (f32_of_int 1) fr) (e ! i)) (f32_mul fr (e ! (i + 1))))"
    using b floats_nth [OF e] by (simp add: float_op_wf)
  then show "floats 481 (case x of (i, k, fr) \<Rightarrow>
      g[k := f32_add (f32_mul (f32_sub (f32_of_int 1) fr) (e ! i)) (f32_mul fr (e ! (i + 1)))])"
    by (simp add: ix floats_upd [OF g])
next
  have "floats (120 + (481 - 120)) (replicate 120 f32_0 @ drop 120 g)"
    by (intro floats_append floats_drop g floats_replicate f32_0_wf)
  then show "floats 481 (replicate (481 div 4) f32_0 @ drop (481 div 4) g)" by simp
qed

section \<open>Transforms\<close>

lemma fft_common:
  assumes c: "common_ok c" and x: "cfloats 960 x"
  obtains y where "opus_fft f32_ops (c_kfft c) x = Some y" "cfloats 960 y"
proof -
  have st: "fft_ok f32_ops f32_wf (c_kfft c)" and n: "ff_nfft (c_kfft c) = 960" using c by (simp_all add: common_ok_def)
  obtain y where "opus_fft f32_ops (c_kfft c) x = Some y" "list_all (both f32_wf) y" "length y = ff_nfft (c_kfft c)"
    using opus_fft_ex [OF f32_ops_closed st _ _, of x] x n unfolding cfloats_def by metis
  then show thesis by (intro that [of y]) (simp_all add: cfloats_def n)
qed

lemma forward_transform_ex:
  assumes c: "common_ok c" and x: "floats 960 x"
  obtains X where "forward_transform c x = Some X" "cfloats 481 X"
proof -
  have "cfloats 960 (map (\<lambda>x. (x, f32_0)) x)" using x by (auto simp: cfloats_def floats_def list_all_iff both_def)
  then obtain y where y: "opus_fft f32_ops (c_kfft c) (map (\<lambda>x. (x, f32_0)) x) = Some y" "cfloats 960 y"
    by (rule fft_common [OF c])
  have "slice x 0 960 = Some x" using slice_all [of x] floats_length [OF x] by simp
  then have "forward_transform c x = Some (take 481 y)" by (simp add: forward_transform_def y(1))
  moreover have "cfloats 481 (take 481 y)" using y(2) by (auto simp: cfloats_def list_all_iff dest: in_set_takeD)
  ultimately show thesis by (rule that)
qed

lemma inverse_transform_ex:
  assumes c: "common_ok c" and X: "cfloats 481 X"
  obtains x where "inverse_transform c X = Some x" "floats 960 x"
proof -
  define Z where "Z = X @ map (\<lambda>i. (fst (X ! (960 - i)), f32_neg (snd (X ! (960 - i))))) [481 ..< 960]"
  have "cfloats 479 (map (\<lambda>i. (fst (X ! (960 - i)), f32_neg (snd (X ! (960 - i))))) [481 ..< 960])"
    by (rule cfloats_mapI) (use cfloats_nth [OF X] in auto)
  then have "cfloats 960 Z" using X by (simp add: Z_def cfloats_def)
  then obtain y where y: "opus_fft f32_ops (c_kfft c) Z = Some y" "cfloats 960 y" by (rule fft_common [OF c])
  define o' where "o' = map (\<lambda>i. f32_mul (f32_of_int (int 960)) (fst (y ! (if i = 0 then 0 else 960 - i)))) [0 ..< 960]"
  have "floats 960 o'" unfolding o'_def by (rule floats_mapI) (use cfloats_nth [OF y(2)] in \<open>auto simp: float_op_wf\<close>)
  moreover have "inverse_transform c X = Some o'"
    unfolding inverse_transform_def cfloats_slice [OF X] Let_def bind.bind_lunit Z_def [symmetric] y(1) o'_def by (rule refl)
  ultimately show thesis by (rule that [rotated])
qed

lemma apply_window_floats:
  assumes c: "common_ok c" and x: "floats 960 x"
  shows "floats 960 (apply_window c x)"
  unfolding apply_window_def
proof (rule foldl_keeps [where P = "floats 960", OF x])
  fix x i assume i: "i \<in> set [0 ..< 480]" and x: "floats 960 x"
  have w: "f32_wf (c_half_window c ! i)" using c i floats_nth [of 480 "c_half_window c" i] by (simp add: common_ok_def)
  define x' where "x' = x[i := f32_mul (x ! i) (c_half_window c ! i)]"
  have x': "floats 960 x'" unfolding x'_def using i w floats_nth [OF x] by (intro floats_upd x) (simp add: float_op_wf)
  have "floats 960 (x'[960 - 1 - i := f32_mul (x' ! (960 - 1 - i)) (c_half_window c ! i)])"
    using i w floats_nth [OF x'] by (intro floats_upd x') (simp add: float_op_wf)
  then show "floats 960 (let x = x[i := f32_mul (x ! i) (c_half_window c ! i)]
      in x[960 - 1 - i := f32_mul (x ! (960 - 1 - i)) (c_half_window c ! i)])"
    by (simp add: Let_def x'_def)
qed

lemma dct_floats:
  assumes c: "common_ok c" and x: "floats 22 x"
  shows "floats 22 (dct c x)"
  unfolding dct_def
proof (rule floats_mapI)
  fix i assume i: "i \<in> set [0 ..< 22]"
  have t: "f32_wf (c_dct_table c ! (j * 22 + i))" if "j < 22" for j
    using c i that floats_nth [of "22 * 22" "c_dct_table c" "j * 22 + i"] by (simp add: common_ok_def)
  have "f32_wf (foldl (\<lambda>s j. f32_add s (f32_mul (x ! j) (c_dct_table c ! (j * 22 + i)))) f32_0 [0 ..< 22])"
    by (rule foldl_keeps [where P = f32_wf]) (use t floats_nth [OF x] in \<open>auto simp: float_op_wf\<close>)
  then show "f32_wf (let s = foldl (\<lambda>s j. f32_add s (f32_mul (x ! j) (c_dct_table c ! (j * 22 + i)))) f32_0 [0 ..< 22]
      in f32_of_f64 (f64_mul (f64_of_f32 s) (f64_sqrt (f64_div (f64_of_int 2) (f64_of_int 22)))))"
    by (simp add: Let_def float_op_wf)
qed simp

section \<open>The state\<close>

text \<open>A period is one of the analysis, or 0 before the first frame; a gain is between 0 and 1.\<close>

definition net_ok :: "rnn_model \<Rightarrow> bool" where
  "net_ok m \<longleftrightarrow> model_ok m \<and> dl_nb_neurons (m_denoise_output m) = 22 \<and> dl_nb_neurons (m_vad_output m) = 1 \<and>
     dl_activation (m_denoise_output m) = 1 \<and> dl_activation (m_vad_output m) = 1"

definition denoise_ok :: "denoise_state \<Rightarrow> bool" where
  "denoise_ok st \<longleftrightarrow>
     floats FRAME_SIZE (analysis_mem st) \<and> floats FRAME_SIZE (synthesis_mem st) \<and> floats PITCH_BUF_SIZE (pitch_buf st) \<and>
     length (cepstral_mem st) = CEPS_MEM \<and> list_all (floats NB_BANDS) (cepstral_mem st) \<and> memid st < CEPS_MEM \<and>
     (last_period st = 0 \<or> PITCH_MIN_PERIOD \<le> last_period st \<and> last_period st < PITCH_MAX_PERIOD) \<and>
     f32_wf (fst (mem_hp_x st)) \<and> f32_wf (snd (mem_hp_x st)) \<and>
     length (lastg st) = NB_BANDS \<and> list_all (f32_in 0 1) (lastg st) \<and>
     rnn_state_ok (rnn st) \<and> net_ok (r_model (rnn st))"

lemma f32_0_in: "f32_in 0 1 f32_0"
  by (simp add: f32_in_def signed_def)

text \<open>The state that a model starts from.\<close>

definition fresh_rnn :: "rnn_model \<Rightarrow> rnn_state" where
  "fresh_rnn m = \<lparr>r_model = m, r_vad_gru_state = replicate (nat (m_vad_gru_size m)) f32_0,
     r_noise_gru_state = replicate (nat (m_noise_gru_size m)) f32_0,
     r_denoise_gru_state = replicate (nat (m_denoise_gru_size m)) f32_0\<rparr>"

definition fresh_state :: "rnn_model \<Rightarrow> denoise_state" where
  "fresh_state m = zero_struct (fresh_rnn m)"

lemma fresh_state_ok:
  assumes "net_ok m"
  shows "denoise_ok (fresh_state m)"
proof -
  have z: "list_all f32_wf (replicate n f32_0)" for n by (simp add: list_all_iff)
  have n: "0 \<le> m_vad_gru_size m \<and> 0 \<le> m_noise_gru_size m \<and> 0 \<le> m_denoise_gru_size m" if "model_ok m" for m
    using that by (simp add: model_ok_def gru_ok_def)
  show ?thesis using assms n
    by (simp add: fresh_state_def fresh_rnn_def zero_struct_def denoise_ok_def floats_def z f32_0_in list_all_iff rnn_state_ok_def net_ok_def)
qed

section \<open>A frame\<close>

lemma frame_analysis_ex:
  assumes c: "common_ok c" and st: "denoise_ok st" and x: "floats 480 x"
  obtains X where "frame_analysis c st x = Some (st\<lparr>analysis_mem := x\<rparr>, X, compute_band_energy X)" "cfloats 481 X"
proof -
  have a: "floats 960 (analysis_mem st @ x)"
    using floats_append [of 480 "analysis_mem st" 480 x] st x by (simp add: denoise_ok_def)
  obtain X where X: "forward_transform c (apply_window c (analysis_mem st @ x)) = Some X" "cfloats 481 X"
    by (rule forward_transform_ex [OF c apply_window_floats [OF c a]])
  have "slice x 0 480 = Some x" using slice_all [of x] floats_length [OF x] by simp
  then have "frame_analysis c st x = Some (st\<lparr>analysis_mem := x\<rparr>, X, compute_band_energy X)"
    by (simp add: frame_analysis_def X(1))
  then show thesis using X(2) by (rule that)
qed

lemma band_logs_floats:
  assumes l: "\<And>x. f32_wf x \<Longrightarrow> f32_wf (log10d x)" and e: "floats n e"
  shows "floats n (fst (band_logs log10d e))"
proof -
  define h where "h = (\<lambda>(Ly, logMax, follow, E) e.
            let y = f32_of_f64 (log10d (f64_add (f64_dec 1 (-2)) (f64_of_f32 e)));
                below = f64_sub (f64_of_f32 follow) (f64_dec 15 (-1));
                y = f32_of_f64 (fmax_macro (f64_of_f32 (f32_sub logMax (f32_of_int 7))) (fmax_macro below (f64_of_f32 y)))
            in (Ly @ [y], fmax_macro logMax y, f32_of_f64 (fmax_macro below (f64_of_f32 y)), f32_add E e))"
  have "case foldl h (Ly, a, b, E) e of (Ly', _) \<Rightarrow> floats (length Ly + length e) Ly'"
    if "floats (length Ly) Ly" "f32_wf a" "f32_wf b" "list_all f32_wf e" for Ly a b E e
    using that
  proof (induction e arbitrary: Ly a b E)
    case (Cons x e)
    obtain y a' b' where s: "h (Ly, a, b, E) x = (Ly @ [y], a', b', f32_add E x)" "f32_wf y" "f32_wf a'" "f32_wf b'"
      using Cons.prems by (simp add: h_def Let_def float_op_wf l)
    have "floats (length (Ly @ [y])) (Ly @ [y])" using Cons.prems(1) s(2) by (simp add: floats_def)
    from Cons.IH [OF this s(3,4)] show ?case using Cons.prems(4) s(1) by simp
  qed simp
  from this [of "[]" "f32_of_int (-2)" "f32_of_int (-2)" e f32_0]
  have "case foldl h ([], f32_of_int (-2), f32_of_int (-2), f32_0) e of (Ly', _) \<Rightarrow> floats n Ly'"
    using e by (simp add: floats_def)
  then show ?thesis unfolding band_logs_def h_def [symmetric] by (auto split: prod.splits)
qed

lemma ceps_dist_wf: "floats n a \<Longrightarrow> floats n b \<Longrightarrow> f32_wf (ceps_dist a b)"
  unfolding ceps_dist_def
  by (rule foldl_keeps [where P = f32_wf])
    (auto simp: Let_def floats_def list_all_iff intro!: float_op_wf dest!: zip_both)

lemma spec_variability_wf:
  assumes m: "length mem = 8" "list_all (floats 22) mem"
  shows "f32_wf (spec_variability mem)"
  unfolding spec_variability_def
proof (rule foldl_keeps [where P = f32_wf])
  fix s i assume i: "i \<in> set [0 ..< 8]" and s: "f32_wf s"
  have "f32_wf (foldl (\<lambda>mindist j. let dist = ceps_dist (mem ! i) (mem ! j) in if j \<noteq> i then fmin_macro mindist dist else mindist)
       (f32_lit 1 15) [0 ..< 8])"
    by (rule foldl_keeps [where P = f32_wf]) (use m i in \<open>auto simp: Let_def list_all_length f32_lit_wf intro!: fmin_macro_wf ceps_dist_wf\<close>)
  then show "f32_wf (f32_add s (foldl (\<lambda>mindist j. let dist = ceps_dist (mem ! i) (mem ! j) in if j \<noteq> i then fmin_macro mindist dist else mindist)
       (f32_lit 1 15) [0 ..< 8]))"
    using s by (simp add: float_op_wf)
qed simp

lemma cepstral_features_ex:
  assumes st: "denoise_ok st" and ceps: "floats 22 ceps" and tmp: "floats 22 tmp"
  obtains st' f where "cepstral_features st ceps tmp p = Some (st', f)" "floats 42 f" "denoise_ok st'"
    "last_period st' = last_period st"
proof -
  define mem where "mem = (cepstral_mem st)[memid st := ceps]"
  have mem: "length mem = 8" "list_all (floats 22) mem"
    using st ceps by (simp_all add: mem_def denoise_ok_def list_all_upd)
  have i: "memid st < 8" using st by (simp add: denoise_ok_def)
  define c0 where "c0 = mem ! memid st"
  define c1 where "c1 = mem ! (if memid st < 1 then 8 + memid st - 1 else memid st - 1)"
  define c2 where "c2 = mem ! (if memid st < 2 then 8 + memid st - 2 else memid st - 2)"
  have c: "floats 22 c0" "floats 22 c1" "floats 22 c2"
    using mem i by (auto simp: c0_def c1_def c2_def list_all_length)
  define f where "f = map (\<lambda>i. f32_add (f32_add (c0 ! i) (c1 ! i)) (c2 ! i)) [0 ..< 6] @ drop 6 ceps @
    map (\<lambda>i. f32_sub (c0 ! i) (c2 ! i)) [0 ..< 6] @
    map (\<lambda>i. f32_add (f32_sub (c0 ! i) (f32_mul (f32_of_int 2) (c1 ! i))) (c2 ! i)) [0 ..< 6] @
    [f32_of_f64 (f64_sub (f64_of_f32 (tmp ! 0)) (f64_dec 13 (-1))), f32_of_f64 (f64_sub (f64_of_f32 (tmp ! 1)) (f64_dec 9 (-1)))] @
    take (6 - 2) (drop 2 tmp) @
    [f32_of_f64 (f64_mul (f64_dec 1 (-2)) (f64_of_int (p - 300))),
     f32_of_f64 (f64_sub (f64_of_f32 (f32_div (spec_variability mem) (f32_of_int 8))) (f64_dec 21 (-1)))]"
  have p: "floats 16 (drop 6 ceps)" "floats 4 (take (6 - 2) (drop 2 tmp))"
    using floats_drop [OF ceps, of 6] floats_take [OF floats_drop [OF tmp, of 2], of 4] by simp_all
  have m: "floats 6 (map (\<lambda>i. f32_add (f32_add (c0 ! i) (c1 ! i)) (c2 ! i)) [0 ..< 6])"
    "floats 6 (map (\<lambda>i. f32_sub (c0 ! i) (c2 ! i)) [0 ..< 6])"
    "floats 6 (map (\<lambda>i. f32_add (f32_sub (c0 ! i) (f32_mul (f32_of_int 2) (c1 ! i))) (c2 ! i)) [0 ..< 6])"
    by (intro floats_mapI; simp add: float_op_wf floats_nth [OF c(1)] floats_nth [OF c(2)] floats_nth [OF c(3)])+
  have t: "f32_wf (tmp ! 0)" "f32_wf (tmp ! 1)" by (rule floats_nth [OF tmp]; simp)+
  have "floats 2 [f32_of_f64 (f64_sub (f64_of_f32 (tmp ! 0)) (f64_dec 13 (-1))), f32_of_f64 (f64_sub (f64_of_f32 (tmp ! 1)) (f64_dec 9 (-1)))]"
    "floats 2 [f32_of_f64 (f64_mul (f64_dec 1 (-2)) (f64_of_int (p - 300))),
     f32_of_f64 (f64_sub (f64_of_f32 (f32_div (spec_variability mem) (f32_of_int 8))) (f64_dec 21 (-1)))]"
    using t spec_variability_wf [OF mem] by (simp_all add: floats_def float_op_wf)
  then have "floats (6 + (16 + (6 + (6 + (2 + (4 + 2)))))) f"
    unfolding f_def by (intro floats_append m p)
  then have f: "floats 42 f" by simp
  define st' where "st' = st\<lparr>cepstral_mem := mem, memid := (if memid st + 1 = 8 then 0 else memid st + 1)\<rparr>"
  have "denoise_ok st'" using st mem i by (auto simp: denoise_ok_def st'_def)
  moreover have "\<not> (length (cepstral_mem st) \<le> memid st \<or> length (cepstral_mem st) < 8)" using st by (simp add: denoise_ok_def)
  then have "cepstral_features st ceps tmp p = Some (st', f)"
    unfolding cepstral_features_def Let_def mem_def [symmetric] c0_def [symmetric] c1_def [symmetric] c2_def [symmetric] f_def st'_def
    by simp
  ultimately show thesis using f by (intro that [of st' f]) (simp_all add: st'_def)
qed

definition features_ok :: "frame_features \<Rightarrow> bool" where
  "features_ok f \<longleftrightarrow> cfloats FREQ_SIZE (f_X f) \<and> cfloats FREQ_SIZE (f_P f) \<and> floats NB_BANDS (f_Ex f) \<and>
     floats NB_BANDS (f_Ep f) \<and> floats NB_BANDS (f_Exp f) \<and> floats NB_FEATURES (f_features f)"

lemma compute_frame_features_ex:
  assumes l: "\<And>x. f32_wf x \<Longrightarrow> f32_wf (log10d x)" and c: "common_ok c" and st: "denoise_ok st" and x: "floats 480 x"
  obtains st' f where "compute_frame_features log10d c st x = Some (st', f)" "features_ok f" "denoise_ok st'"
    "60 \<le> last_period st'"
proof -
  obtain X where X: "frame_analysis c st x = Some (st\<lparr>analysis_mem := x\<rparr>, X, compute_band_energy X)" "cfloats 481 X"
    by (rule frame_analysis_ex [OF c st x])
  define eX where "eX = compute_band_energy X"
  define buf where "buf = drop 480 (pitch_buf st) @ x"
  have buf: "floats 1728 buf"
    unfolding buf_def using floats_append [OF floats_drop [of 1728 "pitch_buf st" 480] x] st by (simp add: denoise_ok_def)
  obtain lp where lp: "pitch_downsample [buf] 1728 1 = Some lp" "int (length lp) = 864"
    by (rule pitch_downsample_ex [of buf]) (simp add: floats_length [OF buf])
  obtain q where q: "pitch_search lp 384 lp 960 588 = Some q" "0 \<le> q" "q \<le> 586" by (rule pitch_search_ex [OF lp(2)])
  obtain T g where T: "remove_doubling lp 768 60 960 (768 - q) (last_period st) (last_gain st) = Some (T, g)" "60 \<le> T" "T \<le> 767"
    by (rule remove_doubling_ex [OF lp(2), of "768 - q"]) (use q in simp_all)
  obtain w where w: "slice buf (768 - T) (int 960) = Some w" "floats 960 w"
    by (rule floats_slice [OF buf, of "768 - T" 960]) (use T in simp_all)
  obtain P where P: "forward_transform c (apply_window c w) = Some P" "cfloats 481 P"
    by (rule forward_transform_ex [OF c apply_window_floats [OF c w(2)]])
  define eP where "eP = compute_band_energy P"
  define eXP where "eXP = map (\<lambda>(x, e, q). f32_of_f64 (f64_div (f64_of_f32 x)
         (f64_sqrt (f64_add (f64_dec 1 (-3)) (f64_of_f32 (f32_mul e q)))))) (zip (compute_band_corr X P) (zip eX eP))"
  define tmp where "tmp = dct c eXP"
  have e: "floats 22 eX" "floats 22 eP" "floats 22 (compute_band_corr X P)"
    unfolding eX_def eP_def using X(2) P(2) by (simp_all add: compute_band_energy_floats compute_band_corr_floats)
  have eXP: "floats 22 eXP" unfolding eXP_def
  proof (rule floats_mapI)
    show "length (zip (compute_band_corr X P) (zip eX eP)) = 22" using e by (simp add: floats_def)
    fix i assume i: "i \<in> set (zip (compute_band_corr X P) (zip eX eP))"
    obtain a b d where abd: "i = (a, b, d)" by (cases i)
    have "a \<in> set (compute_band_corr X P)" "b \<in> set eX" "d \<in> set eP"
      using i unfolding abd by (auto dest!: zip_both)
    then have "f32_wf a" "f32_wf b" "f32_wf d" using e by (auto simp: floats_def list_all_iff)
    then show "f32_wf (case i of (x, e, q) \<Rightarrow> f32_of_f64 (f64_div (f64_of_f32 x)
         (f64_sqrt (f64_add (f64_dec 1 (-3)) (f64_of_f32 (f32_mul e q))))))"
      by (simp add: abd float_op_wf)
  qed
  have tmp: "floats 22 tmp" unfolding tmp_def by (rule dct_floats [OF c eXP])
  obtain Ly E where Ly: "band_logs log10d eX = (Ly, E)" by (cases "band_logs log10d eX")
  have "floats 22 Ly" using band_logs_floats [of log10d, OF l e(1)] Ly by simp
  then have d: "floats 22 (dct c Ly)" by (rule dct_floats [OF c])
  define ceps where "ceps = (dct c Ly)[0 := f32_sub (dct c Ly ! 0) (f32_of_int 12), 1 := f32_sub (dct c Ly ! 1) (f32_of_int 4)]"
  have ceps: "floats 22 ceps" unfolding ceps_def
    by (intro floats_upd d) (simp_all add: float_op_wf floats_nth [OF d])
  define st1 where "st1 = st\<lparr>analysis_mem := x, pitch_buf := buf, last_period := T, last_gain := g\<rparr>"
  have st1: "denoise_ok st1" "60 \<le> last_period st1" using st x buf T by (simp_all add: denoise_ok_def st1_def)
  have n: "drop_bit 1 (768 :: int) = 384" "(768 :: int) - 3 * 60 = 588" "int 1728 = 1728" "(1728 :: int) - int 960 - T = 768 - T"
    by (simp_all add: drop_bit_eq_div)
  have s0: "slice x 0 (int 480) = Some x" using slice_all [of x] floats_length [OF x] by simp
  define F where "F fs sil = \<lparr>f_X = X, f_P = P, f_Ex = eX, f_Ep = eP, f_Exp = eXP, f_features = fs, f_silence = sil\<rparr>" for fs sil
  have F: "features_ok (F fs sil)" if "floats 42 fs" for fs sil
    using that X(2) P(2) e eXP by (simp add: features_ok_def F_def)
  obtain st2 fs where cf: "cepstral_features st1 ceps tmp T = Some (st2, fs)" "floats 42 fs" "denoise_ok st2"
    "last_period st2 = last_period st1"
    by (rule cepstral_features_ex [OF st1(1) ceps tmp])
  have "compute_frame_features log10d c st x =
      (if f32_lt (f64_of_f32 E) (f64_dec 4 (-2)) then Some (st1, F (replicate 42 f32_0) True) else Some (st2, F fs False))"
  proof -
    have upd: "pitch_buf (st\<lparr>analysis_mem := x\<rparr>) = pitch_buf st" "last_period (st\<lparr>analysis_mem := x, pitch_buf := buf\<rparr>) = last_period st"
      "last_gain (st\<lparr>analysis_mem := x, pitch_buf := buf\<rparr>) = last_gain st"
      "st\<lparr>analysis_mem := x, pitch_buf := buf, last_period := T, last_gain := g\<rparr> = st1" by (simp_all add: st1_def)
    show ?thesis
      unfolding compute_frame_features_def X(1) bind.bind_lunit prod.case s0 Let_def upd buf_def [symmetric] n lp(1) q(1) T(1)
        w(1) P(1) eX_def [symmetric] eP_def [symmetric] eXP_def [symmetric] tmp_def [symmetric] Ly ceps_def [symmetric] cf(1) F_def
      by (rule refl)
  qed
  moreover have "floats 42 (replicate 42 f32_0)" by (rule floats_replicate) simp
  ultimately show thesis using F cf st1 that by (cases "f32_lt (f64_of_f32 E) (f64_dec 4 (-2))") auto
qed

lemma biquad_floats:
  assumes "f32_wf (fst a)" "f32_wf (snd a)" "f32_wf (fst b)" "f32_wf (snd b)"
  shows "floats n xs \<Longrightarrow> f32_wf (fst mem) \<Longrightarrow> f32_wf (snd mem) \<Longrightarrow>
    \<exists>m0 m1 ys. biquad b a mem xs = ((m0, m1), ys) \<and> f32_wf m0 \<and> f32_wf m1 \<and> floats n ys"
proof (induction xs arbitrary: n mem)
  case (Cons x xs)
  have n: "n = Suc (length xs)" "floats (length xs) xs" "f32_wf x" using Cons.prems(1) by (auto simp: floats_def)
  define y where "y = f32_add x (fst mem)"
  define m0 where "m0 = f32_of_f64 (f64_add (f64_of_f32 (snd mem)) (f64_sub (f64_mul (f64_of_f32 (fst b)) (f64_of_f32 x)) (f64_mul (f64_of_f32 (fst a)) (f64_of_f32 y))))"
  define m1 where "m1 = f32_of_f64 (f64_sub (f64_mul (f64_of_f32 (snd b)) (f64_of_f32 x)) (f64_mul (f64_of_f32 (snd a)) (f64_of_f32 y)))"
  have wf: "f32_wf y" "f32_wf m0" "f32_wf m1" using assms n Cons.prems by (simp_all add: y_def m0_def m1_def float_op_wf)
  obtain k0 k1 ys where "biquad b a (m0, m1) xs = ((k0, k1), ys)" "f32_wf k0" "f32_wf k1" "floats (length xs) ys"
    using Cons.IH [OF n(2), of "(m0, m1)"] wf by auto
  then show ?case using wf(1) n(1) by (simp add: Let_def y_def [symmetric] m0_def [symmetric] m1_def [symmetric] floats_def)
next
  case Nil
  then show ?case by (cases mem) simp
qed

lemma pitch_gain_wf: "f32_wf x \<Longrightarrow> f32_wf p \<Longrightarrow> f32_wf xp \<Longrightarrow> f32_wf g \<Longrightarrow> f32_wf (pitch_gain x p xp g)"
  and energy_ratio_wf: "f32_wf x \<Longrightarrow> f32_wf e \<Longrightarrow> f32_wf (energy_ratio x e)"
  by (simp_all add: pitch_gain_def energy_ratio_def Let_def float_op_wf)

lemma scale_bins_floats:
  assumes g: "floats 481 g" and X: "cfloats 481 X"
  shows "cfloats 481 (scale_bins g X)"
  unfolding scale_bins_def
proof (rule cfloats_mapI)
  show "length (zip g X) = 481" using g X by (simp add: floats_def cfloats_def)
  fix i assume "i \<in> set (zip g X)"
  then obtain a x where "i = (a, x)" "f32_wf a" "f32_wf (fst x) \<and> f32_wf (snd x)"
    by (rule zip2E) (use floats_mem [OF g] cfloats_mem [OF X] in blast)
  then show "f32_wf (fst (case i of (g, x) \<Rightarrow> (f32_mul (fst x) g, f32_mul (snd x) g))) \<and>
      f32_wf (snd (case i of (g, x) \<Rightarrow> (f32_mul (fst x) g, f32_mul (snd x) g)))"
    by (simp add: float_op_wf)
qed

lemma pitch_filter_floats:
  assumes f: "features_ok f" and g: "floats 22 g"
  shows "cfloats 481 (pitch_filter f g)"
proof -
  note F = f [unfolded features_ok_def]
  define r where "r = map (\<lambda>i. pitch_gain (f_Ex f ! i) (f_Ep f ! i) (f_Exp f ! i) (g ! i)) [0 ..< 22]"
  have r: "floats 22 r" unfolding r_def
    by (rule floats_mapI) (use F g in \<open>auto intro!: pitch_gain_wf floats_nth [where n = 22]\<close>)
  define rf where "rf = interp_band_gain (replicate 481 f32_0) r"
  have rf: "floats 481 rf" unfolding rf_def by (intro interp_band_gain_floats floats_replicate f32_0_wf r)
  define X where "X = map (\<lambda>(q, x, p). (f32_add (fst x) (f32_mul q (fst p)), f32_add (snd x) (f32_mul q (snd p))))
                (zip rf (zip (f_X f) (f_P f)))"
  have X: "cfloats 481 X" unfolding X_def
  proof (rule cfloats_mapI)
    show "length (zip rf (zip (f_X f) (f_P f))) = 481" using rf F by (simp add: floats_def cfloats_def)
    fix i assume "i \<in> set (zip rf (zip (f_X f) (f_P f)))"
    then obtain a x y where "i = (a, x, y)" "f32_wf a" "f32_wf (fst x) \<and> f32_wf (snd x)" "f32_wf (fst y) \<and> f32_wf (snd y)"
      by (elim zip2E) (use floats_mem [OF rf] cfloats_mem [of 481 "f_X f"] cfloats_mem [of 481 "f_P f"] F in blast)
    then show "f32_wf (fst (case i of (q, x, p) \<Rightarrow> (f32_add (fst x) (f32_mul q (fst p)), f32_add (snd x) (f32_mul q (snd p))))) \<and>
        f32_wf (snd (case i of (q, x, p) \<Rightarrow> (f32_add (fst x) (f32_mul q (fst p)), f32_add (snd x) (f32_mul q (snd p)))))"
      by (simp add: float_op_wf)
  qed
  note nE = compute_band_energy_floats [OF X]
  have "floats 22 (map (\<lambda>i. energy_ratio (f_Ex f ! i) (compute_band_energy X ! i)) [0 ..< 22])"
    by (rule floats_mapI) (use F nE in \<open>auto intro!: energy_ratio_wf floats_nth [where n = 22]\<close>)
  then have "cfloats 481 (scale_bins (interp_band_gain (replicate 481 f32_0)
      (map (\<lambda>i. energy_ratio (f_Ex f ! i) (compute_band_energy X ! i)) [0 ..< 22])) X)"
    by (intro scale_bins_floats X interp_band_gain_floats floats_replicate f32_0_wf)
  then show ?thesis unfolding pitch_filter_def Let_def r_def [symmetric] rf_def [symmetric] X_def [symmetric] .
qed

lemma smooth_gains_in:
  assumes g: "length g = 22" "list_all (f32_in 0 1) g" and l: "length l = 22" "list_all (f32_in 0 1) l"
  shows "length (smooth_gains g l) = 22" "list_all (f32_in 0 1) (smooth_gains g l)"
proof -
  show "length (smooth_gains g l) = 22" by (simp add: smooth_gains_def g l)
  have "f32_lit 6 (-1) = FFin False 10066330 (-24)" by code_simp
  then have six: "f32_fin (f32_lit 6 (-1))" "0 \<le> f32_val (f32_lit 6 (-1))" "f32_val (f32_lit 6 (-1)) \<le> 1"
    by (simp_all add: signed_def power_int_minus)
  have "f32_in 0 1 (f32_mul (f32_lit 6 (-1)) y)" if "f32_in 0 1 y" for y
    using six that by (intro f32.mul_in) (auto simp: f32_in_def mult_le_one)
  then show "list_all (f32_in 0 1) (smooth_gains g l)"
    using g l by (auto simp: smooth_gains_def list_all_iff intro!: fmax_macro_in dest!: zip_both)
qed

lemma interp_gain_ones: "floats 481 (f32_of_int 1 # replicate (481 - 1) f32_0)"
  by (simp add: floats_def list_all_iff)

lemma frame_synthesis_ex:
  assumes c: "common_ok c" and st: "denoise_ok st" and X: "cfloats 481 X"
  obtains st' out where "frame_synthesis c st X = Some (st', out)" "denoise_ok st'" "floats 480 out" "last_period st' = last_period st"
proof -
  obtain x where x: "inverse_transform c X = Some x" "floats 960 x" by (rule inverse_transform_ex [OF c X])
  define w where "w = apply_window c x"
  have w: "floats 960 w" unfolding w_def by (rule apply_window_floats [OF c x(2)])
  define out where "out = map2 f32_add (take 480 w) (synthesis_mem st)"
  have s: "floats 480 (take 480 w)" "floats 480 (synthesis_mem st)" "floats 480 (drop 480 w)"
    using floats_take [OF w, of 480] floats_drop [OF w, of 480] st by (simp_all add: denoise_ok_def)
  have "floats 480 out" unfolding out_def
  proof (rule floats_mapI)
    show "length (zip (take 480 w) (synthesis_mem st)) = 480" using s by (simp add: floats_def)
    fix i assume "i \<in> set (zip (take 480 w) (synthesis_mem st))"
    then obtain a b where "i = (a, b)" "f32_wf a" "f32_wf b"
      by (rule zip2E) (use floats_mem [OF s(1)] floats_mem [OF s(2)] in blast)
    then show "f32_wf (case i of (x, y) \<Rightarrow> f32_add x y)" by (simp add: float_op_wf)
  qed
  moreover have "denoise_ok (st\<lparr>synthesis_mem := drop 480 w\<rparr>)" using st s by (simp add: denoise_ok_def)
  moreover have "frame_synthesis c st X = Some (st\<lparr>synthesis_mem := drop 480 w\<rparr>, out)"
    by (simp add: frame_synthesis_def x(1) w_def out_def Let_def)
  ultimately show thesis by (intro that [of "st\<lparr>synthesis_mem := drop 480 w\<rparr>" out]) simp_all
qed

text \<open>The gains of the network on the spectrum.\<close>

lemma gains_ex:
  assumes st: "denoise_ok st" and f: "features_ok f"
  obtains r g vad where "compute_rnn (rnn st) 22 (f_features f) = Some (r, g, [vad])" "f32_in 0 1 vad"
    "length g = 22" "list_all (f32_in 0 1) g" "floats 22 g" "rnn_state_ok r" "r_model r = r_model (rnn st)"
proof -
  have N: "net_ok (r_model (rnn st))" "rnn_state_ok (rnn st)" using st by (simp_all add: denoise_ok_def)
  obtain r g v where r: "compute_rnn (rnn st) 22 (f_features f) = Some (r, g, v)" "rnn_state_ok r" "r_model r = r_model (rnn st)"
    "sigmoid_bounds (m_denoise_output (r_model (rnn st))) g" "sigmoid_bounds (m_vad_output (r_model (rnn st))) v"
    by (rule compute_rnn_ex [OF N(2), of 22 "f_features f"]) (use N f in \<open>auto simp: net_ok_def features_ok_def floats_def\<close>)
  have "length v = 1" "list_all (f32_in 0 1) v" using r(5) N by (simp_all add: sigmoid_bounds_def net_ok_def)
  then obtain vad where v: "v = [vad]" "f32_in 0 1 vad" by (cases v) auto
  have "length g = 22" "list_all (f32_in 0 1) g" "floats 22 g" using r(4) N by (simp_all add: sigmoid_bounds_def net_ok_def floats_def)
  then show thesis using r v by (intro that [of r g vad]) simp_all
qed

lemma process_frame_ex:
  assumes l: "\<And>x. f32_wf x \<Longrightarrow> f32_wf (log10d x)" and c: "common_ok c" and st: "denoise_ok st" and x: "floats 480 x"
  obtains st' out vad where "rnnoise_process_frame log10d c st x = Some (st', out, vad)" "denoise_ok st'" "floats 480 out"
    "f32_in 0 1 vad" "60 \<le> last_period st'"
proof -
  have s0: "slice x 0 (int 480) = Some x" using slice_all [of x] floats_length [OF x] by simp
  define b where "b = (f32_of_int (-2), f32_of_int 1)"
  define a where "a = (f32_dec (-199599) (-5), f32_dec 99600 (-5))"
  have "\<exists>m0 m1 ys. biquad b a (mem_hp_x st) x = ((m0, m1), ys) \<and> f32_wf m0 \<and> f32_wf m1 \<and> floats 480 ys"
    using st by (intro biquad_floats x) (simp_all add: a_def b_def f32_dec_wf denoise_ok_def)
  then obtain m0 m1 y where y: "biquad b a (mem_hp_x st) x = ((m0, m1), y)" "f32_wf m0" "f32_wf m1" "floats 480 y" by blast
  have st1: "denoise_ok (st\<lparr>mem_hp_x := (m0, m1)\<rparr>)" using st y by (simp add: denoise_ok_def)
  obtain st2 f where f: "compute_frame_features log10d c (st\<lparr>mem_hp_x := (m0, m1)\<rparr>) y = Some (st2, f)" "features_ok f"
    "denoise_ok st2" "60 \<le> last_period st2"
    by (rule compute_frame_features_ex [OF l c st1 y(4)])
  define net where "net = (if f_silence f then Some (st2, f_X f, f32_0)
       else do {
         (r, g, vad) \<leftarrow> compute_rnn (rnn st2) (int 22) (f_features f);
         if length g < 22 then None else do {
           let X = pitch_filter f g;
           let g = smooth_gains g (lastg st2);
           let gf = interp_band_gain (f32_of_int 1 # replicate (481 - 1) f32_0) g;
           Some (st2\<lparr>rnn := r, lastg := g\<rparr>, scale_bins gf X, (if vad = [] then f32_0 else vad ! 0))
         }
       })"
  have "\<exists>st3 X vad. net = Some (st3, X, vad) \<and> denoise_ok st3 \<and> cfloats 481 X \<and> f32_in 0 1 vad \<and> last_period st3 = last_period st2"
  proof (cases "f_silence f")
    case True
    then show ?thesis using f by (simp add: net_def features_ok_def f32_0_in)
  next
    case False
    obtain r g vad where g: "compute_rnn (rnn st2) 22 (f_features f) = Some (r, g, [vad])" "f32_in 0 1 vad"
      "length g = 22" "list_all (f32_in 0 1) g" "floats 22 g" "rnn_state_ok r" "r_model r = r_model (rnn st2)"
      by (rule gains_ex [OF f(3,2)])
    have lg: "length (smooth_gains g (lastg st2)) = 22" "list_all (f32_in 0 1) (smooth_gains g (lastg st2))"
      using smooth_gains_in [OF g(3,4), of "lastg st2"] f(3) by (simp_all add: denoise_ok_def)
    have "floats 22 (smooth_gains g (lastg st2))" using lg by (auto simp: floats_def list_all_iff f32_in_wf)
    then have "cfloats 481 (scale_bins (interp_band_gain (f32_of_int 1 # replicate (481 - 1) f32_0) (smooth_gains g (lastg st2)))
        (pitch_filter f g))"
      by (intro scale_bins_floats interp_band_gain_floats interp_gain_ones pitch_filter_floats f(2) g(5))
    moreover have "denoise_ok (st2\<lparr>rnn := r, lastg := smooth_gains g (lastg st2)\<rparr>)" using f(3) g lg by (simp add: denoise_ok_def)
    ultimately show ?thesis using False g by (simp add: net_def Let_def)
  qed
  then obtain st3 X vad where n: "net = Some (st3, X, vad)" "denoise_ok st3" "cfloats 481 X" "f32_in 0 1 vad"
    "last_period st3 = last_period st2" by blast
  obtain st4 out where o: "frame_synthesis c st3 X = Some (st4, out)" "denoise_ok st4" "floats 480 out" "last_period st4 = last_period st3"
    by (rule frame_synthesis_ex [OF c n(2,3)])
  have "rnnoise_process_frame log10d c st x = Some (st4, out, vad)"
    unfolding rnnoise_process_frame_def s0 bind.bind_lunit a_def [symmetric] b_def [symmetric] y(1) Let_def prod.case f(1)
      net_def [unfolded Let_def, symmetric] n(1) o(1) by (rule refl)
  then show thesis using o n f by (intro that [of st4 out vad]) simp_all
qed

section \<open>The property\<close>

text \<open>
  C3. Whatever the signal, \<^verbatim>\<open>rnnoise_process_frame\<close> on a state of the invariant returns: the
  pitch period it settles on is 60 to 767 samples, so that the frame it takes a period earlier is
  inside the pitch buffer, the ring of cepstra, the buffers and the states of the network keep
  their lengths, 480 samples come out, and the probability of voice and the gains kept for the
  next frame are between 0 and 1. Of the mathematical library only this is used, that
  \<^verbatim>\<open>sin\<close>, \<^verbatim>\<open>cos\<close> and \<^verbatim>\<open>log10\<close> give floating-point numbers.
\<close>

theorem denoise_frame_safe:
  assumes "\<And>x. f32_wf x \<Longrightarrow> f32_wf (cosd x)" "\<And>x. f32_wf x \<Longrightarrow> f32_wf (sind x)" "\<And>x. f32_wf x \<Longrightarrow> f32_wf (log10d x)"
    and "denoise_ok st" "length inp = 480" "list_all f32_wf inp"
  shows "\<exists>c st' out vad. check_init cosd sind = Some c \<and> rnnoise_process_frame log10d c st inp = Some (st', out, vad) \<and>
    denoise_ok st' \<and> 60 \<le> last_period st' \<and> last_period st' \<le> 767 \<and> memid st' < length (cepstral_mem st') \<and>
    list_all (f32_in 0 1) (lastg st') \<and> length out = 480 \<and> list_all f32_wf out \<and> f32_in 0 1 vad"
proof -
  obtain c where c: "check_init cosd sind = Some c" "common_ok c" using assms(1,2) by (rule check_init_ex)
  have i: "floats 480 inp" using assms(5,6) by (simp add: floats_def)
  obtain st' out vad where r: "rnnoise_process_frame log10d c st inp = Some (st', out, vad)" "denoise_ok st'" "floats 480 out"
    "f32_in 0 1 vad" "60 \<le> last_period st'"
    by (rule process_frame_ex [OF assms(3) c(2) assms(4) i])
  moreover have "last_period st' \<le> 767" "memid st' < length (cepstral_mem st')" "list_all (f32_in 0 1) (lastg st')"
    using r(2,5) by (auto simp: denoise_ok_def)
  ultimately show ?thesis using c(1) by (auto simp: floats_def)
qed

lemma orig_net_ok: "orig_weights w \<Longrightarrow> net_ok (rnnoise_model_orig w)"
  using orig_model_ok by (simp add: net_ok_def) (simp add: rnnoise_model_orig_def)

lemma init_orig_ok: "orig_weights w \<Longrightarrow> denoise_ok (fresh_state (rnnoise_model_orig w))"
  by (rule fresh_state_ok) (simp add: orig_net_ok)

theorem denoise_frame_safe_witness:
  "\<exists>c st' out vad. check_init (\<lambda>x. x) (\<lambda>x. x) = Some c \<and>
    rnnoise_process_frame (\<lambda>x. x) c (fresh_state (rnnoise_model_orig zero_weights)) (replicate 480 f32_0) = Some (st', out, vad) \<and>
    denoise_ok st' \<and> 60 \<le> last_period st' \<and> last_period st' \<le> 767 \<and> memid st' < length (cepstral_mem st') \<and>
    list_all (f32_in 0 1) (lastg st') \<and> length out = 480 \<and> list_all f32_wf out \<and> f32_in 0 1 vad"
  by (rule denoise_frame_safe) (simp_all add: init_orig_ok zero_weights_orig list_all_iff)

end
