(* ===== verification/RnnHeap.thy ===== *)
theory RnnHeap
  imports Denoise
begin

text \<open>
  The memory of the denoiser: \<^verbatim>\<open>rnnoise_init\<close>, \<^verbatim>\<open>rnnoise_create\<close> and
  \<^verbatim>\<open>rnnoise_destroy\<close> of \<^verbatim>\<open>denoise.c\<close>, and a frame on a state in memory. A state is four
  blocks of the C heap: the structure and the arrays of the three recurrent layers it points to.
  Address 0 is the null pointer. What the allocator answers is an argument; \<open>None\<close> is undefined
  behaviour.
\<close>

section \<open>Blocks\<close>

text \<open>The structure \<^verbatim>\<open>RNNState\<close> of \<^verbatim>\<open>rnn.h\<close> as it is in memory.\<close>

record rnn_pointers =
  p_model :: rnn_model
  p_vad_gru_state :: int
  p_noise_gru_state :: int
  p_denoise_gru_state :: int

datatype rnn_block = State "rnn_pointers denoise_struct" | Floats "f32 list"

type_synonym rnn_heap = "int \<Rightarrow> rnn_block option"

text \<open>\<^verbatim>\<open>calloc (sizeof (float), n)\<close>, where the allocator answers \<open>addr\<close>. A negative \<open>n\<close> is a size
  that no memory has.\<close>

definition calloc_floats :: "int \<Rightarrow> int \<Rightarrow> rnn_heap \<Rightarrow> rnn_heap \<times> int" where
  "calloc_floats addr n h =
     (if addr = 0 \<or> n < 0 then (h, 0) else (h(addr \<mapsto> Floats (replicate (nat n) f32_0)), addr))"

text \<open>\<^verbatim>\<open>free\<close>: nothing for the null pointer, undefined for an address that was not allocated.\<close>

definition c_free :: "int \<Rightarrow> rnn_heap \<Rightarrow> rnn_heap option" where
  "c_free p h = (if p = 0 then Some h else case h p of None \<Rightarrow> None | Some _ \<Rightarrow> Some (h(p := None)))"

definition deref_state :: "int \<Rightarrow> rnn_heap \<Rightarrow> rnn_pointers denoise_struct option" where
  "deref_state p h = (if p = 0 then None else case h p of Some (State m) \<Rightarrow> Some m | _ \<Rightarrow> None)"

section \<open>Creation and destruction\<close>

text \<open>The answers of the three calls of \<^verbatim>\<open>calloc\<close>, which the code does not look at. The caller
  gives the block of \<open>st\<close>, whose content is overwritten.\<close>

definition rnnoise_init :: "int \<times> int \<times> int \<Rightarrow> int \<Rightarrow> rnn_model option \<Rightarrow> rnn_model \<Rightarrow> rnn_heap \<Rightarrow> rnn_heap option" where
  "rnnoise_init answers st model orig h = (case answers of (a1, a2, a3) \<Rightarrow>
     if st = 0 then None
     else let m = (case model of Some m \<Rightarrow> m | None \<Rightarrow> orig);
              (h, vad) = calloc_floats a1 (m_vad_gru_size m) h;
              (h, noise) = calloc_floats a2 (m_noise_gru_size m) h;
              (h, denoise) = calloc_floats a3 (m_denoise_gru_size m) h
          in Some (h(st \<mapsto> State (zero_struct \<lparr>p_model = m, p_vad_gru_state = vad, p_noise_gru_state = noise,
                p_denoise_gru_state = denoise\<rparr>))))"

text \<open>\<open>addr\<close> is the answer of \<^verbatim>\<open>malloc\<close>, which the code does not look at either.\<close>

definition rnnoise_create :: "int \<times> int \<times> int \<times> int \<Rightarrow> rnn_model option \<Rightarrow> rnn_model \<Rightarrow> rnn_heap \<Rightarrow> (rnn_heap \<times> int) option" where
  "rnnoise_create answers model orig h = (case answers of (addr, rest) \<Rightarrow> do {
     h \<leftarrow> rnnoise_init rest addr model orig h;
     Some (h, addr)
   })"

definition rnnoise_destroy :: "int \<Rightarrow> rnn_heap \<Rightarrow> rnn_heap option" where
  "rnnoise_destroy st h = do {
     m \<leftarrow> deref_state st h;
     h \<leftarrow> c_free (p_vad_gru_state (rnn m)) h;
     h \<leftarrow> c_free (p_noise_gru_state (rnn m)) h;
     h \<leftarrow> c_free (p_denoise_gru_state (rnn m)) h;
     c_free st h
   }"

section \<open>A frame on a state in memory\<close>

text \<open>The array at a pointer; there is no element at the null pointer, so that an access to one
  is undefined, and no access is not.\<close>

definition load_floats :: "int \<Rightarrow> rnn_heap \<Rightarrow> f32 list option" where
  "load_floats p h = (if p = 0 then Some [] else case h p of Some (Floats xs) \<Rightarrow> Some xs | _ \<Rightarrow> None)"

definition store_floats :: "int \<Rightarrow> f32 list \<Rightarrow> rnn_heap \<Rightarrow> rnn_heap" where
  "store_floats p xs h = (if p = 0 then h else h(p \<mapsto> Floats xs))"

definition load_state :: "int \<Rightarrow> rnn_heap \<Rightarrow> denoise_state option" where
  "load_state st h = do {
     m \<leftarrow> deref_state st h;
     vad \<leftarrow> load_floats (p_vad_gru_state (rnn m)) h;
     noise \<leftarrow> load_floats (p_noise_gru_state (rnn m)) h;
     denoise \<leftarrow> load_floats (p_denoise_gru_state (rnn m)) h;
     Some (map_rnn (\<lambda>p. \<lparr>r_model = p_model p, r_vad_gru_state = vad, r_noise_gru_state = noise, r_denoise_gru_state = denoise\<rparr>) m)
   }"

text \<open>The pointers of the structure stay.\<close>

definition store_state :: "int \<Rightarrow> denoise_state \<Rightarrow> rnn_heap \<Rightarrow> rnn_heap option" where
  "store_state st v h = do {
     m \<leftarrow> deref_state st h;
     let p = rnn m;
     let h = store_floats (p_vad_gru_state p) (r_vad_gru_state (rnn v)) h;
     let h = store_floats (p_noise_gru_state p) (r_noise_gru_state (rnn v)) h;
     let h = store_floats (p_denoise_gru_state p) (r_denoise_gru_state (rnn v)) h;
     Some (h(st \<mapsto> State (map_rnn (\<lambda>_. p) v)))
   }"

definition process_frame_at ::
    "(f64 \<Rightarrow> f64) \<Rightarrow> common_state \<Rightarrow> int \<Rightarrow> f32 list \<Rightarrow> rnn_heap \<Rightarrow> (rnn_heap \<times> f32 list \<times> f32) option" where
  "process_frame_at log10d c st inp h = do {
     v \<leftarrow> load_state st h;
     (v, out, vad) \<leftarrow> rnnoise_process_frame log10d c v inp;
     h \<leftarrow> store_state st v h;
     Some (h, out, vad)
   }"

section \<open>A frame keeps the model\<close>

lemma frame_analysis_rnn: "frame_analysis c st x = Some (st', X, e) \<Longrightarrow> rnn st' = rnn st"
  by (auto simp: frame_analysis_def bind_eq_Some_conv Let_def)

lemma cepstral_features_rnn: "cepstral_features st ceps tmp p = Some (st', f) \<Longrightarrow> rnn st' = rnn st"
  by (auto simp: cepstral_features_def Let_def split: if_split_asm)

lemma compute_frame_features_rnn: "compute_frame_features log10d c st x = Some (st', f) \<Longrightarrow> rnn st' = rnn st"
  by (auto simp: compute_frame_features_def bind_eq_Some_conv Let_def case_prod_beta split: if_splits
      dest!: frame_analysis_rnn cepstral_features_rnn)

lemma frame_synthesis_rnn: "frame_synthesis c st y = Some (st', out) \<Longrightarrow> rnn st' = rnn st"
  by (auto simp: frame_synthesis_def bind_eq_Some_conv Let_def)

lemma compute_rnn_model: "compute_rnn r cap x = Some (r', g, v) \<Longrightarrow> r_model r' = r_model r"
  by (auto simp: compute_rnn_def bind_eq_Some_conv Let_def)

lemma bind_SomeE: "Option.bind m f = Some y \<Longrightarrow> (\<And>x. m = Some x \<Longrightarrow> f x = Some y \<Longrightarrow> P) \<Longrightarrow> P"
  by (cases m) simp_all

text \<open>The same of the pairs they return.\<close>

lemmas keeps_rnn =
  compute_frame_features_rnn [where st' = "fst r" and f = "snd r" for r, unfolded prod.collapse]
  frame_synthesis_rnn [where st' = "fst r" and out = "snd r" for r, unfolded prod.collapse]
  compute_rnn_model [where r' = "fst p" and g = "fst (snd p)" and v = "snd (snd p)" for p, unfolded prod.collapse]

lemma process_frame_model:
  "rnnoise_process_frame log10d c st x = Some (st', out, vad) \<Longrightarrow> r_model (rnn st') = r_model (rnn st)"
  unfolding rnnoise_process_frame_def Let_def case_prod_beta
  by (elim bind_SomeE; (split if_split_asm)?; (elim bind_SomeE)?; (split if_split_asm)?) (auto dest!: keeps_rnn)

section \<open>A state in memory\<close>

text \<open>The four blocks of a state at the addresses \<open>as\<close>, the first of them that of the structure.\<close>

fun blocks_ok :: "int \<times> int \<times> int \<times> int \<Rightarrow> bool" where
  "blocks_ok (st, a1, a2, a3) = (distinct [st, a1, a2, a3] \<and> 0 \<notin> {st, a1, a2, a3})"

fun blocks :: "int \<times> int \<times> int \<times> int \<Rightarrow> int set" where
  "blocks (st, a1, a2, a3) = {st, a1, a2, a3}"

fun pointers :: "int \<times> int \<times> int \<times> int \<Rightarrow> rnn_state \<Rightarrow> rnn_pointers" where
  "pointers (st, a1, a2, a3) r = \<lparr>p_model = r_model r, p_vad_gru_state = a1, p_noise_gru_state = a2, p_denoise_gru_state = a3\<rparr>"

fun put_state :: "int \<times> int \<times> int \<times> int \<Rightarrow> denoise_state \<Rightarrow> rnn_heap \<Rightarrow> rnn_heap" where
  "put_state (st, a1, a2, a3) v h = h(a1 \<mapsto> Floats (r_vad_gru_state (rnn v)), a2 \<mapsto> Floats (r_noise_gru_state (rnn v)),
     a3 \<mapsto> Floats (r_denoise_gru_state (rnn v)), st \<mapsto> State (map_rnn (pointers (st, a1, a2, a3)) v))"

lemma rnn_map [simp]: "rnn (map_rnn f v) = f (rnn v)" and map_rnn_map [simp]: "map_rnn k (map_rnn g w) = map_rnn (k \<circ> g) w"
  by (simp_all add: map_rnn_def)

lemma map_rnn_id: "f (rnn v) = rnn v \<Longrightarrow> map_rnn f v = v"
  by (simp add: map_rnn_def)

lemma map_rnn_cong: "f (rnn v) = g (rnn v) \<Longrightarrow> map_rnn f v = map_rnn g v"
  by (simp add: map_rnn_def)

lemma load_put:
  assumes "blocks_ok as"
  shows "load_state (fst as) (put_state as v h) = Some v"
proof -
  obtain st a1 a2 a3 where as: "as = (st, a1, a2, a3)" by (rule prod_cases4)
  show ?thesis using assms by (auto simp: as load_state_def deref_state_def load_floats_def intro!: map_rnn_id)
qed

lemma store_put:
  assumes "blocks_ok as" "r_model (rnn v') = r_model (rnn v)"
  shows "store_state (fst as) v' (put_state as v h) = Some (put_state as v' h)"
proof -
  obtain st a1 a2 a3 where as: "as = (st, a1, a2, a3)" by (rule prod_cases4)
  show ?thesis using assms
    by (auto simp: as store_state_def deref_state_def store_floats_def Let_def fun_eq_iff intro!: map_rnn_cong)
qed

text \<open>Destruction gives back every block, and no other.\<close>

lemma destroy_put:
  assumes "blocks_ok as" "\<And>a. a \<in> blocks as \<Longrightarrow> h a = None"
  shows "rnnoise_destroy (fst as) (put_state as v h) = Some h"
proof -
  obtain st a1 a2 a3 where as: "as = (st, a1, a2, a3)" by (rule prod_cases4)
  let ?H = "put_state as v h"
  have d: "st \<noteq> a1" "st \<noteq> a2" "st \<noteq> a3" "a1 \<noteq> a2" "a1 \<noteq> a3" "a2 \<noteq> a3" "st \<noteq> 0" "a1 \<noteq> 0" "a2 \<noteq> 0" "a3 \<noteq> 0"
    using assms(1) by (simp_all add: as)
  have n: "h st = None" "h a1 = None" "h a2 = None" "h a3 = None" using assms(2) by (simp_all add: as)
  have "rnnoise_destroy st ?H = Some (?H(a1 := None, a2 := None, a3 := None, st := None))"
    unfolding rnnoise_destroy_def deref_state_def c_free_def using d d [symmetric] by (simp add: as)
  moreover have "?H(a1 := None, a2 := None, a3 := None, st := None) = h"
    by (rule ext) (simp add: as n)
  ultimately show ?thesis by (simp add: as)
qed

text \<open>Creation where every allocation succeeds.\<close>

lemma create_put:
  assumes "blocks_ok as" "0 \<le> m_vad_gru_size m" "0 \<le> m_noise_gru_size m" "0 \<le> m_denoise_gru_size m"
  shows "rnnoise_create as None m h = Some (put_state as (zero_struct \<lparr>r_model = m,
      r_vad_gru_state = replicate (nat (m_vad_gru_size m)) f32_0, r_noise_gru_state = replicate (nat (m_noise_gru_size m)) f32_0,
      r_denoise_gru_state = replicate (nat (m_denoise_gru_size m)) f32_0\<rparr>) h, fst as)"
proof -
  obtain st a1 a2 a3 where as: "as = (st, a1, a2, a3)" by (rule prod_cases4)
  show ?thesis using assms
    by (auto simp: as rnnoise_create_def rnnoise_init_def calloc_floats_def Let_def map_rnn_def zero_struct_def)
qed

text \<open>A \<^verbatim>\<open>calloc\<close> that fails goes unseen: the state is created with a null array.\<close>

lemma create_unchecked:
  "st \<noteq> 0 \<Longrightarrow> \<exists>h'. rnnoise_create (st, 0, 0, 0) model orig h = Some (h', st) \<and>
    (\<exists>m. deref_state st h' = Some m \<and> p_vad_gru_state (rnn m) = 0)"
  by (simp add: rnnoise_create_def rnnoise_init_def calloc_floats_def Let_def deref_state_def zero_struct_def)

end
