(* ===== verification/RnnApp.thy ===== *)
theory RnnApp
  imports DenoiseProps RnnHeap
begin





section \<open>A session\<close>







end
