(* ===== verification/RnnReader.thy ===== *)
theory RnnReader
  imports RnnProps "HOL-Library.Char_ord"
begin

text \<open>
  The reader of model files, \<^verbatim>\<open>rnn_reader.c\<close>: a file is the text that is left to read, and
  \<^verbatim>\<open>fscanf\<close> is the one of the C library. Allocations are numbered, and the argument
  \<open>alloc\<close> says which of them succeed. A result \<open>Some (Inl ())\<close> is the null pointer the
  code returns; \<open>None\<close> is undefined behaviour, a number that does not fit an \<^verbatim>\<open>int\<close>.
\<close>

section \<open>The scanner of the C library\<close>

definition is_space :: "char \<Rightarrow> bool" where
  "is_space c \<longleftrightarrow> of_char c = (32 :: nat) \<or> 9 \<le> (of_char c :: nat) \<and> of_char c \<le> (13 :: nat)"

definition is_digit :: "char \<Rightarrow> bool" where
  "is_digit c \<longleftrightarrow> 48 \<le> (of_char c :: nat) \<and> of_char c \<le> (57 :: nat)"

definition digits_value :: "string \<Rightarrow> int" where
  "digits_value ds = foldl (\<lambda>n c. 10 * n + (of_char c - 48)) 0 ds"

text \<open>The conversion \<^verbatim>\<open>%d\<close>; \<open>None\<close> when there is no number.\<close>

definition scan_int :: "string \<Rightarrow> (int \<times> string) option" where
  "scan_int s =
     (let s = dropWhile is_space s;
          neg = (s \<noteq> [] \<and> hd s = CHR ''-'');
          s = (if s \<noteq> [] \<and> (hd s = CHR ''-'' \<or> hd s = CHR ''+'') then tl s else s);
          ds = takeWhile is_digit s
      in if ds = [] then None
         else Some (if neg then - digits_value ds else digits_value ds, dropWhile is_digit s))"

text \<open>A format with white space, other characters and \<^verbatim>\<open>%d\<close>: the numbers read, and the rest.\<close>

fun scan_format :: "string \<Rightarrow> string \<Rightarrow> int list \<Rightarrow> int list \<times> string" where
  "scan_format [] s vs = (vs, s)"
| "scan_format (c # f) s vs =
     (if is_space c then scan_format f (dropWhile is_space s) vs
      else if c = CHR ''%'' \<and> f \<noteq> [] \<and> hd f = CHR ''d''
      then (case scan_int s of None \<Rightarrow> (vs, s) | Some (v, s) \<Rightarrow> scan_format (tl f) s (vs @ [v]))
      else if s \<noteq> [] \<and> hd s = c then scan_format f (tl s) vs
      else (vs, s))"

definition int_range :: "int \<Rightarrow> bool" where
  "int_range v \<longleftrightarrow> - (2 ^ 31) \<le> v \<and> v < 2 ^ 31"

section \<open>The reader\<close>

text \<open>The number of the next allocation and the text.\<close>

type_synonym 'a reader = "nat \<times> string \<Rightarrow> (unit + 'a \<times> nat \<times> string) option"

definition read_done :: "'a \<Rightarrow> 'a reader" where
  "read_done a st = Some (Inr (a, st))"

definition refuse :: "'a reader" where
  "refuse st = Some (Inl ())"

definition read_then :: "'a reader \<Rightarrow> ('a \<Rightarrow> 'b reader) \<Rightarrow> 'b reader" where
  "read_then r g st = (case r st of
       None \<Rightarrow> None
     | Some (Inl u) \<Rightarrow> Some (Inl u)
     | Some (Inr (a, st)) \<Rightarrow> g a st)"

definition allocate :: "(nat \<Rightarrow> bool) \<Rightarrow> unit reader" where
  "allocate alloc st = (if alloc (fst st) then Some (Inr ((), fst st + 1, snd st)) else Some (Inl ()))"

definition read_int :: "int reader" where
  "read_int st = (case scan_int (snd st) of
       None \<Rightarrow> Some (Inl ())
     | Some (v, s) \<Rightarrow> if int_range v then Some (Inr (v, fst st, s)) else None)"

definition INPUT_VAL :: "int reader" where
  "INPUT_VAL = read_then read_int (\<lambda>v. if v < 0 \<or> v > 128 then refuse else read_done v)"

definition INPUT_ACTIVATION :: "int reader" where
  "INPUT_ACTIVATION = read_then INPUT_VAL (\<lambda>activation.
     read_done (if activation = 1 then ACTIVATION_SIGMOID else if activation = 2 then ACTIVATION_RELU else ACTIVATION_TANH))"

text \<open>A number stored in a \<^verbatim>\<open>signed char\<close>.\<close>

definition weight_of :: "int \<Rightarrow> int" where
  "weight_of v = (v + 128) mod 256 - 128"

fun read_values :: "nat \<Rightarrow> int list reader" where
  "read_values 0 = read_done []"
| "read_values (Suc n) = read_then read_int (\<lambda>v. read_then (read_values n) (\<lambda>vs. read_done (weight_of v # vs)))"

definition INPUT_ARRAY :: "(nat \<Rightarrow> bool) \<Rightarrow> int \<Rightarrow> int list reader" where
  "INPUT_ARRAY alloc len = read_then (allocate alloc) (\<lambda>_. read_values (nat len))"

definition INPUT_DENSE :: "(nat \<Rightarrow> bool) \<Rightarrow> dense_layer reader" where
  "INPUT_DENSE alloc =
     read_then INPUT_VAL (\<lambda>nb_inputs.
     read_then INPUT_VAL (\<lambda>nb_neurons.
     read_then INPUT_ACTIVATION (\<lambda>activation.
     read_then (INPUT_ARRAY alloc (nb_inputs * nb_neurons)) (\<lambda>input_weights.
     read_then (INPUT_ARRAY alloc nb_neurons) (\<lambda>bias.
     read_done \<lparr>dl_bias = bias, dl_input_weights = input_weights, dl_nb_inputs = nb_inputs, dl_nb_neurons = nb_neurons,
       dl_activation = activation\<rparr>)))))"

definition INPUT_GRU :: "(nat \<Rightarrow> bool) \<Rightarrow> gru_layer reader" where
  "INPUT_GRU alloc =
     read_then INPUT_VAL (\<lambda>nb_inputs.
     read_then INPUT_VAL (\<lambda>nb_neurons.
     read_then INPUT_ACTIVATION (\<lambda>activation.
     read_then (INPUT_ARRAY alloc (nb_inputs * nb_neurons * 3)) (\<lambda>input_weights.
     read_then (INPUT_ARRAY alloc (nb_neurons * nb_neurons * 3)) (\<lambda>recurrent_weights.
     read_then (INPUT_ARRAY alloc (nb_neurons * 3)) (\<lambda>bias.
     read_done \<lparr>gl_bias = bias, gl_input_weights = input_weights, gl_recurrent_weights = recurrent_weights,
       gl_nb_inputs = nb_inputs, gl_nb_neurons = nb_neurons, gl_activation = activation\<rparr>))))))"

text \<open>The six layers after the allocations of the model and of their structures.\<close>

definition read_layers :: "(nat \<Rightarrow> bool) \<Rightarrow> rnn_model reader" where
  "read_layers alloc =
     read_then (INPUT_DENSE alloc) (\<lambda>input_dense.
     read_then (INPUT_GRU alloc) (\<lambda>vad_gru.
     read_then (INPUT_GRU alloc) (\<lambda>noise_gru.
     read_then (INPUT_GRU alloc) (\<lambda>denoise_gru.
     read_then (INPUT_DENSE alloc) (\<lambda>denoise_output.
     read_then (INPUT_DENSE alloc) (\<lambda>vad_output.
     read_done \<lparr>m_input_dense_size = dl_nb_neurons input_dense, m_input_dense = input_dense,
       m_vad_gru_size = gl_nb_neurons vad_gru, m_vad_gru = vad_gru,
       m_noise_gru_size = gl_nb_neurons noise_gru, m_noise_gru = noise_gru,
       m_denoise_gru_size = gl_nb_neurons denoise_gru, m_denoise_gru = denoise_gru,
       m_denoise_output_size = dl_nb_neurons denoise_output, m_denoise_output = denoise_output,
       m_vad_output_size = dl_nb_neurons vad_output, m_vad_output = vad_output\<rparr>))))))"

fun allocate_all :: "(nat \<Rightarrow> bool) \<Rightarrow> nat \<Rightarrow> unit reader" where
  "allocate_all alloc 0 = read_done ()"
| "allocate_all alloc (Suc n) = read_then (allocate alloc) (\<lambda>_. allocate_all alloc n)"

definition rnnoise_model_from_file :: "(nat \<Rightarrow> bool) \<Rightarrow> string \<Rightarrow> (unit + rnn_model) option" where
  "rnnoise_model_from_file alloc file =
     (case scan_format ''rnnoise-nu model file version %d\<newline>'' file [] of (vs, s) \<Rightarrow>
        if vs \<noteq> [] \<and> \<not> int_range (hd vs) then None
        else if length vs \<noteq> 1 \<or> hd vs \<noteq> 1 then Some (Inl ())
        else map_option (map_sum id fst) (read_then (allocate_all alloc 7) (\<lambda>_. read_layers alloc) (0, s)))"

section \<open>A printer\<close>

fun show_nat :: "nat \<Rightarrow> string" where
  "show_nat n = (if n < 10 then [char_of (48 + n)] else show_nat (n div 10) @ [char_of (48 + n mod 10)])"

declare show_nat.simps [simp del]

definition show_int :: "int \<Rightarrow> string" where
  "show_int i = (if i < 0 then CHR ''-'' # show_nat (nat (- i)) else show_nat (nat i))"

definition print_ints :: "int list \<Rightarrow> string" where
  "print_ints vs = concat (map (\<lambda>v. CHR '' '' # show_int v) vs)"

definition dense_ints :: "dense_layer \<Rightarrow> int list" where
  "dense_ints l = [dl_nb_inputs l, dl_nb_neurons l, dl_activation l] @ dl_input_weights l @ dl_bias l"

definition gru_ints :: "gru_layer \<Rightarrow> int list" where
  "gru_ints g = [gl_nb_inputs g, gl_nb_neurons g, gl_activation g] @ gl_input_weights g @ gl_recurrent_weights g @ gl_bias g"

definition print_model :: "rnn_model \<Rightarrow> string" where
  "print_model m = ''rnnoise-nu model file version 1'' @
     print_ints (dense_ints (m_input_dense m) @ gru_ints (m_vad_gru m) @ gru_ints (m_noise_gru m) @ gru_ints (m_denoise_gru m) @
       dense_ints (m_denoise_output m) @ dense_ints (m_vad_output m))"

text \<open>What a file can hold.\<close>

definition byte_weights :: "int \<Rightarrow> int list \<Rightarrow> bool" where
  "byte_weights n ws \<longleftrightarrow> int (length ws) = n \<and> list_all (\<lambda>w. - 128 \<le> w \<and> w \<le> 127) ws"

definition layer_sizes :: "int \<Rightarrow> int \<Rightarrow> int \<Rightarrow> bool" where
  "layer_sizes nb_inputs nb_neurons activation \<longleftrightarrow> 0 \<le> nb_inputs \<and> nb_inputs \<le> 128 \<and> 0 \<le> nb_neurons \<and> nb_neurons \<le> 128 \<and>
     activation \<in> {ACTIVATION_TANH, ACTIVATION_SIGMOID, ACTIVATION_RELU}"

definition dense_file :: "dense_layer \<Rightarrow> bool" where
  "dense_file l \<longleftrightarrow> layer_sizes (dl_nb_inputs l) (dl_nb_neurons l) (dl_activation l) \<and>
     byte_weights (dl_nb_inputs l * dl_nb_neurons l) (dl_input_weights l) \<and> byte_weights (dl_nb_neurons l) (dl_bias l)"

definition gru_file :: "gru_layer \<Rightarrow> bool" where
  "gru_file g \<longleftrightarrow> layer_sizes (gl_nb_inputs g) (gl_nb_neurons g) (gl_activation g) \<and>
     byte_weights (gl_nb_inputs g * gl_nb_neurons g * 3) (gl_input_weights g) \<and>
     byte_weights (gl_nb_neurons g * gl_nb_neurons g * 3) (gl_recurrent_weights g) \<and> byte_weights (gl_nb_neurons g * 3) (gl_bias g)"

definition model_file :: "rnn_model \<Rightarrow> bool" where
  "model_file m \<longleftrightarrow>
     dense_file (m_input_dense m) \<and> gru_file (m_vad_gru m) \<and> gru_file (m_noise_gru m) \<and> gru_file (m_denoise_gru m) \<and>
     dense_file (m_denoise_output m) \<and> dense_file (m_vad_output m) \<and>
     m_input_dense_size m = dl_nb_neurons (m_input_dense m) \<and> m_vad_gru_size m = gl_nb_neurons (m_vad_gru m) \<and>
     m_noise_gru_size m = gl_nb_neurons (m_noise_gru m) \<and> m_denoise_gru_size m = gl_nb_neurons (m_denoise_gru m) \<and>
     m_denoise_output_size m = dl_nb_neurons (m_denoise_output m) \<and> m_vad_output_size m = dl_nb_neurons (m_vad_output m)"

section \<open>Numbers\<close>

lemma digit_char: "d < 10 \<Longrightarrow> is_digit (char_of (48 + d)) \<and> (of_char (char_of (48 + d) :: char) :: int) = 48 + int d"
proof
  assume d: "d < 10"
  have n: "(of_char (char_of (48 + d) :: char) :: nat) = 48 + d" using d by simp
  show "is_digit (char_of (48 + d))" using n d by (simp add: is_digit_def)
  have "(of_char (char_of (48 + d) :: char) :: int) = int (of_char (char_of (48 + d) :: char))"
    by (simp only: of_nat_of_char)
  then show "(of_char (char_of (48 + d) :: char) :: int) = 48 + int d" unfolding n by simp
qed

lemma digits_value_snoc: "digits_value (ds @ [c]) = 10 * digits_value ds + (of_char c - 48)"
  by (simp add: digits_value_def)

lemma show_nat_digits: "list_all is_digit (show_nat n) \<and> show_nat n \<noteq> [] \<and> digits_value (show_nat n) = int n"
proof (induction n rule: show_nat.induct)
  case (1 n)
  show ?case
  proof (cases "n < 10")
    case True
    then show ?thesis using digit_char [OF True] by (simp add: show_nat.simps [of n] digits_value_def)
  next
    case False
    have "n mod 10 < 10" by simp
    note d = digit_char [OF this]
    have "10 * (int n div 10) + int n mod 10 = int n" by simp
    then show ?thesis using "1.IH" [OF False] d False
      by (simp add: show_nat.simps [of n] digits_value_snoc zdiv_int zmod_int)
  qed
qed

lemma not_digit: "\<not> is_digit (CHR '' '')" "\<not> is_digit (CHR ''-'')" "is_space (CHR '' '')" "\<not> is_space (CHR ''-'')"
  and digit_not_space: "is_digit c \<Longrightarrow> \<not> is_space c" and digit_not_sign: "is_digit c \<Longrightarrow> c \<noteq> CHR ''-'' \<and> c \<noteq> CHR ''+''"
  by (auto simp: is_digit_def is_space_def)

lemma takeWhile_digits:
  assumes "list_all is_digit ds" "rest = [] \<or> hd rest = CHR '' ''"
  shows "takeWhile is_digit (ds @ rest) = ds" "dropWhile is_digit (ds @ rest) = rest"
proof -
  have r: "takeWhile is_digit rest = [] \<and> dropWhile is_digit rest = rest" using assms(2) not_digit(1) by (cases rest) auto
  show "takeWhile is_digit (ds @ rest) = ds" "dropWhile is_digit (ds @ rest) = rest"
    using assms(1) r by (simp_all add: list_all_iff takeWhile_append2 dropWhile_append2)
qed

lemma scan_digits:
  assumes ds: "list_all is_digit ds" "ds \<noteq> []" and rest: "rest = [] \<or> hd rest = CHR '' ''"
  shows "scan_int (CHR '' '' # ds @ rest) = Some (digits_value ds, rest)"
    and "scan_int (CHR '' '' # CHR ''-'' # ds @ rest) = Some (- digits_value ds, rest)"
proof -
  obtain c cs where c: "ds = c # cs" "is_digit c" using ds by (cases ds) auto
  have sp: "dropWhile is_space (CHR '' '' # ds @ rest) = ds @ rest"
    "dropWhile is_space (CHR '' '' # CHR ''-'' # ds @ rest) = CHR ''-'' # ds @ rest"
    using c digit_not_space not_digit by simp_all
  have sg: "hd (ds @ rest) \<noteq> CHR ''-''" "hd (ds @ rest) \<noteq> CHR ''+''" "ds @ rest \<noteq> []" using c digit_not_sign by simp_all
  note t = takeWhile_digits [OF ds(1) rest]
  show "scan_int (CHR '' '' # ds @ rest) = Some (digits_value ds, rest)"
    unfolding scan_int_def sp Let_def using sg t ds(2) by simp
  show "scan_int (CHR '' '' # CHR ''-'' # ds @ rest) = Some (- digits_value ds, rest)"
    unfolding scan_int_def sp Let_def using t ds(2) by simp
qed

lemma scan_show:
  assumes "rest = [] \<or> hd rest = CHR '' ''"
  shows "scan_int (CHR '' '' # show_int i @ rest) = Some (i, rest)"
  using scan_digits [OF _ _ assms, of "show_nat (nat i)"] scan_digits [OF _ _ assms, of "show_nat (nat (- i))"]
    show_nat_digits [of "nat i"] show_nat_digits [of "nat (- i)"]
  by (auto simp: show_int_def)

lemma print_ints_Cons: "print_ints (v # vs) = CHR '' '' # show_int v @ print_ints vs"
  by (simp add: print_ints_def)

lemma print_ints_start: "print_ints vs = [] \<or> hd (print_ints vs) = CHR '' ''"
  by (cases vs) (simp_all add: print_ints_def)

lemma read_int_print: "int_range v \<Longrightarrow> read_int (k, print_ints (v # vs)) = Some (Inr (v, k, print_ints vs))"
  by (simp add: read_int_def print_ints_Cons scan_show [OF print_ints_start])

lemma INPUT_VAL_print: "0 \<le> v \<Longrightarrow> v \<le> 128 \<Longrightarrow> INPUT_VAL (k, print_ints (v # vs)) = Some (Inr (v, k, print_ints vs))"
  by (simp add: INPUT_VAL_def read_then_def read_int_print int_range_def read_done_def)

lemma INPUT_ACTIVATION_print:
  "v \<in> {0, 1, 2} \<Longrightarrow> INPUT_ACTIVATION (k, print_ints (v # vs)) = Some (Inr (v, k, print_ints vs))"
  by (auto simp: INPUT_ACTIVATION_def read_then_def INPUT_VAL_print read_done_def)

lemma read_values_print:
  "list_all (\<lambda>w. - 128 \<le> w \<and> w \<le> 127) ws \<Longrightarrow> read_values (length ws) (k, print_ints (ws @ vs)) = Some (Inr (ws, k, print_ints vs))"
proof (induction ws)
  case (Cons w ws)
  then have "weight_of w = w" "int_range w" by (simp_all add: weight_of_def int_range_def)
  then show ?case using Cons by (simp add: read_then_def read_int_print read_done_def)
qed (simp add: read_done_def)

lemma INPUT_ARRAY_print:
  "alloc k \<Longrightarrow> byte_weights n ws \<Longrightarrow> INPUT_ARRAY alloc n (k, print_ints (ws @ vs)) = Some (Inr (ws, k + 1, print_ints vs))"
  using read_values_print [of ws "k + 1" vs]
  by (auto simp: INPUT_ARRAY_def read_then_def allocate_def byte_weights_def)

section \<open>What is printed is read\<close>

lemma INPUT_DENSE_print:
  assumes a: "\<forall>k. alloc k" and l: "dense_file l"
  shows "INPUT_DENSE alloc (k, print_ints (dense_ints l @ vs)) = Some (Inr (l, k + 2, print_ints vs))"
proof -
  note L = l [unfolded dense_file_def layer_sizes_def]
  show ?thesis
    unfolding INPUT_DENSE_def dense_ints_def append.simps append_assoc read_then_def
    using L by (simp add: INPUT_VAL_print INPUT_ACTIVATION_print INPUT_ARRAY_print a read_done_def)
qed

lemma INPUT_GRU_print:
  assumes a: "\<forall>k. alloc k" and g: "gru_file g"
  shows "INPUT_GRU alloc (k, print_ints (gru_ints g @ vs)) = Some (Inr (g, k + 3, print_ints vs))"
proof -
  note G = g [unfolded gru_file_def layer_sizes_def]
  show ?thesis
    unfolding INPUT_GRU_def gru_ints_def append.simps append_assoc read_then_def
    using G by (simp add: INPUT_VAL_print INPUT_ACTIVATION_print INPUT_ARRAY_print a read_done_def)
qed

lemma allocate_all_ok: "\<forall>k. alloc k \<Longrightarrow> allocate_all alloc n (k, s) = Some (Inr ((), k + n, s))"
  by (induction n arbitrary: k) (simp_all add: read_done_def read_then_def allocate_def)

lemma read_layers_print:
  assumes a: "\<forall>k. alloc k" and m: "model_file m"
  shows "\<exists>st. read_layers alloc (k, print_ints (dense_ints (m_input_dense m) @ gru_ints (m_vad_gru m) @ gru_ints (m_noise_gru m) @
      gru_ints (m_denoise_gru m) @ dense_ints (m_denoise_output m) @ dense_ints (m_vad_output m))) = Some (Inr (m, st))"
proof -
  note M = m [unfolded model_file_def]
  have d: "\<And>k. INPUT_DENSE alloc (k, print_ints (dense_ints (m_vad_output m))) = Some (Inr (m_vad_output m, k + 2, print_ints []))"
    using INPUT_DENSE_print [OF a, where l = "m_vad_output m" and vs = "[]"] M by simp
  show ?thesis
    unfolding read_layers_def read_then_def
    using M by (simp add: INPUT_DENSE_print [OF a] INPUT_GRU_print [OF a] d read_done_def)
qed

text \<open>The format of the first line ends with white space; what it takes the next number would skip.\<close>

lemma scan_int_skip: "scan_int (dropWhile is_space s) = scan_int s"
proof -
  have "dropWhile is_space (dropWhile is_space s) = dropWhile is_space s" by (induction s) simp_all
  then show ?thesis by (simp add: scan_int_def)
qed

lemma read_int_skip: "read_int (k, dropWhile is_space s) = read_int (k, s)"
  by (simp add: read_int_def scan_int_skip split: option.split)

lemma read_layers_skip: "read_layers alloc (k, dropWhile is_space s) = read_layers alloc (k, s)"
  by (simp add: read_layers_def INPUT_DENSE_def INPUT_VAL_def read_then_def read_int_skip)

lemma header_print:
  assumes "s = [] \<or> hd s = CHR '' ''"
  shows "scan_format ''rnnoise-nu model file version %d\<newline>'' (''rnnoise-nu model file version 1'' @ s) [] = ([1], dropWhile is_space s)"
proof -
  have one: "scan_int (CHR ''1'' # s) = Some (1, s)"
    using takeWhile_digits [OF _ assms, of "[CHR ''1'']"]
    by (simp add: scan_int_def is_space_def is_digit_def digits_value_def)
  show ?thesis by (simp add: is_space_def one [unfolded is_space_def])
qed

lemma model_printed:
  assumes a: "\<forall>k. alloc k" and m: "model_file m"
  shows "rnnoise_model_from_file alloc (print_model m) = Some (Inr m)"
proof -
  define s where "s = print_ints (dense_ints (m_input_dense m) @ gru_ints (m_vad_gru m) @ gru_ints (m_noise_gru m) @
      gru_ints (m_denoise_gru m) @ dense_ints (m_denoise_output m) @ dense_ints (m_vad_output m))"
  obtain st where "read_layers alloc (7, s) = Some (Inr (m, st))" using read_layers_print [OF a m] unfolding s_def by blast
  then have "read_then (allocate_all alloc 7) (\<lambda>_. read_layers alloc) (0, dropWhile is_space s) = Some (Inr (m, st))"
    by (simp only: read_then_def allocate_all_ok [OF a] option.case sum.case prod.case add_0 read_layers_skip)
  moreover have "scan_format ''rnnoise-nu model file version %d\<newline>'' (print_model m) [] = ([1], dropWhile is_space s)"
    unfolding print_model_def s_def by (rule header_print [OF print_ints_start])
  ultimately show ?thesis by (simp add: rnnoise_model_from_file_def int_range_def)
qed

section \<open>What is accepted\<close>

lemma read_thenE:
  assumes "read_then r g st = Some (Inr (b, st'))"
  obtains a st1 where "r st = Some (Inr (a, st1))" "g a st1 = Some (Inr (b, st'))"
  using assms by (auto simp: read_then_def split: option.splits sum.splits prod.splits)

lemma INPUT_VAL_bounds: "INPUT_VAL st = Some (Inr (v, st')) \<Longrightarrow> 0 \<le> v \<and> v \<le> 128"
  unfolding INPUT_VAL_def by (elim read_thenE) (auto simp: refuse_def read_done_def split: if_splits)

lemma INPUT_ACTIVATION_bounds: "INPUT_ACTIVATION st = Some (Inr (v, st')) \<Longrightarrow> v \<in> {0, 1, 2}"
  unfolding INPUT_ACTIVATION_def by (elim read_thenE) (auto simp: read_done_def split: if_splits)

lemma read_values_bytes:
  "read_values n st = Some (Inr (ws, st')) \<Longrightarrow> length ws = n \<and> list_all (\<lambda>w. - 128 \<le> w \<and> w \<le> 127) ws"
proof (induction n arbitrary: st st' ws)
  case (Suc n)
  have b: "- 128 \<le> weight_of v \<and> weight_of v \<le> 127" for v
  proof -
    have "0 \<le> (v + 128) mod 256" "(v + 128) mod 256 < 256" by simp_all
    then show ?thesis unfolding weight_of_def by linarith
  qed
  obtain v st1 where "read_then (read_values n) (\<lambda>vs. read_done (weight_of v # vs)) st1 = Some (Inr (ws, st'))"
    using Suc.prems unfolding read_values.simps by (rule read_thenE)
  then obtain vs st2 where v: "read_values n st1 = Some (Inr (vs, st2))" "read_done (weight_of v # vs) st2 = Some (Inr (ws, st'))"
    by (rule read_thenE)
  then show ?case using Suc.IH [OF v(1)] b by (auto simp: read_done_def)
qed (simp add: read_done_def)

lemma INPUT_ARRAY_bytes: "0 \<le> n \<Longrightarrow> INPUT_ARRAY alloc n st = Some (Inr (ws, st')) \<Longrightarrow> byte_weights n ws"
  unfolding INPUT_ARRAY_def by (elim read_thenE) (auto simp: byte_weights_def dest: read_values_bytes)

lemma INPUT_DENSE_file: "INPUT_DENSE alloc st = Some (Inr (l, st')) \<Longrightarrow> dense_file l"
  unfolding INPUT_DENSE_def
  by (elim read_thenE) (auto simp: read_done_def dense_file_def layer_sizes_def
    dest!: INPUT_VAL_bounds INPUT_ACTIVATION_bounds INPUT_ARRAY_bytes [rotated])

lemma INPUT_GRU_file: "INPUT_GRU alloc st = Some (Inr (g, st')) \<Longrightarrow> gru_file g"
  unfolding INPUT_GRU_def
  by (elim read_thenE) (auto simp: read_done_def gru_file_def layer_sizes_def
    dest!: INPUT_VAL_bounds INPUT_ACTIVATION_bounds INPUT_ARRAY_bytes [rotated])

lemma read_layers_file: "read_layers alloc st = Some (Inr (m, st')) \<Longrightarrow> model_file m"
  unfolding read_layers_def
  by (elim read_thenE) (auto simp: read_done_def model_file_def dest!: INPUT_DENSE_file INPUT_GRU_file)

lemma model_accepted:
  assumes "rnnoise_model_from_file alloc file = Some (Inr m)"
  shows "model_file m"
proof -
  obtain vs s where f: "scan_format ''rnnoise-nu model file version %d\<newline>'' file [] = (vs, s)" by fastforce
  define X where "X = read_then (allocate_all alloc 7) (\<lambda>_. read_layers alloc) (0, s)"
  have "map_option (map_sum id fst) X = Some (Inr m)"
    using assms unfolding rnnoise_model_from_file_def f prod.case X_def by (simp split: if_splits)
  then obtain r where "X = Some (Inr (m, r))" by (cases X; cases "the X") auto
  then show ?thesis unfolding X_def by (elim read_thenE) (rule read_layers_file)
qed

section \<open>The properties\<close>

text \<open>
  C13. The models that a file can give are exactly those whose layers have at most 128 inputs and
  neurons, byte weights in the numbers the sizes ask for and a known activation: such a model is
  read back from its printed file, and every model that is read is one.
\<close>

theorem model_file_roundtrip:
  assumes "\<forall>k. alloc k"
  shows "(model_file m \<longrightarrow> rnnoise_model_from_file alloc (print_model m) = Some (Inr m)) \<and>
    (\<forall>file. rnnoise_model_from_file alloc file = Some (Inr m) \<longrightarrow> model_file m)"
  using model_printed [OF assms] model_accepted by blast

lemma orig_model_file: "model_file (rnnoise_model_orig zero_weights)"
  by (simp add: model_file_def rnnoise_model_orig_def dense_file_def gru_file_def layer_sizes_def byte_weights_def
    zero_weights_def list_all_iff)

theorem model_file_roundtrip_witness:
  "rnnoise_model_from_file (\<lambda>_. True) (print_model (rnnoise_model_orig zero_weights)) = Some (Inr (rnnoise_model_orig zero_weights))"
  using model_file_roundtrip [of "\<lambda>_. True" "rnnoise_model_orig zero_weights"] orig_model_file by simp

text \<open>The reader does not compare the sizes of a layer with those of its neighbours, nor with the
  arrays that take its outputs: an accepted model with two outputs for the probability of voice
  makes \<^verbatim>\<open>compute_rnn\<close> write past the one variable of its caller.\<close>

definition wide_vad_model :: rnn_model where
  "wide_vad_model =
     (let d = \<lparr>dl_bias = [], dl_input_weights = [], dl_nb_inputs = 0, dl_nb_neurons = 0, dl_activation = 0\<rparr>;
          g = \<lparr>gl_bias = [], gl_input_weights = [], gl_recurrent_weights = [], gl_nb_inputs = 0, gl_nb_neurons = 0, gl_activation = 0\<rparr>
      in \<lparr>m_input_dense_size = 0, m_input_dense = d, m_vad_gru_size = 0, m_vad_gru = g, m_noise_gru_size = 0, m_noise_gru = g,
        m_denoise_gru_size = 0, m_denoise_gru = g, m_denoise_output_size = 0, m_denoise_output = d,
        m_vad_output_size = 2, m_vad_output = d\<lparr>dl_bias := [0, 0], dl_nb_neurons := 2\<rparr>\<rparr>)"

lemma wide_vad_overrun:
  "rnnoise_model_from_file (\<lambda>_. True) (print_model wide_vad_model) = Some (Inr wide_vad_model)"
  "compute_rnn \<lparr>r_model = wide_vad_model, r_vad_gru_state = [], r_noise_gru_state = [], r_denoise_gru_state = []\<rparr> 22
    (replicate 42 f32_0) = None"
proof -
  have "model_file wide_vad_model"
    by (simp add: model_file_def wide_vad_model_def dense_file_def gru_file_def layer_sizes_def byte_weights_def Let_def)
  then show "rnnoise_model_from_file (\<lambda>_. True) (print_model wide_vad_model) = Some (Inr wide_vad_model)"
    by (intro model_printed) simp_all
  show "compute_rnn \<lparr>r_model = wide_vad_model, r_vad_gru_state = [], r_noise_gru_state = [], r_denoise_gru_state = []\<rparr> 22
    (replicate 42 f32_0) = None"
    by (simp add: compute_rnn_def wide_vad_model_def compute_dense_def compute_gru_def Let_def slice_def)
qed

end
