(* ===== verification/Attdet.thy ===== *)
theory Attdet
  imports Common
begin

text \<open>
  The time domain attack detector, \<^verbatim>\<open>attdet.c\<close>, that runs on the samples of the encoder
  above 24 kHz. Its accumulators are 32-bit: no block overflows them, whatever the samples.
\<close>

record lc3_attdet_analysis =
  en1 :: int
  an1 :: int
  p_att :: int

definition nbytes_ranges :: "lc3_dt \<Rightarrow> lc3_srate \<Rightarrow> int \<times> int" where
  "nbytes_ranges dt sr =
     (if dt = LC3_DT_7M5 then [(61, 149), (75, 149)] else [(81, 2 ^ 31 - 1), (100, 2 ^ 31 - 1)])
       ! nat (sr_int sr - sr_int LC3_SRATE_32K)"

text \<open>
  One decimated sample and its high-pass filter. \<open>x\<close> reads a sample at an offset from the
  first of the frame, the samples of the frame before being at the negative offsets.
\<close>

definition attdet_decim :: "lc3_srate \<Rightarrow> (int \<Rightarrow> int) \<Rightarrow> int \<Rightarrow> int" where
  "attdet_decim sr x o' =
     (if sr = LC3_SRATE_32K then s16 (drop_bit 1 (x o' + x (o' + 1)))
      else s16 (drop_bit 2 (x o' + x (o' + 1) + x (o' + 2))))"

definition attdet_step :: "lc3_srate \<Rightarrow> (int \<Rightarrow> int) \<Rightarrow> int \<times> int \<times> int \<times> int \<Rightarrow> int \<times> int \<times> int \<times> int" where
  "attdet_step sr x st = (case st of (o', xn2, xn1, e) \<Rightarrow>
     (let xn = attdet_decim sr x o';
          xf = s16 (drop_bit 3 (3 * xn - 4 * xn1 + 1 * xn2))
      in (o' + (if sr = LC3_SRATE_32K then 2 else 3), xn1, xn, e + drop_bit 5 (xf * xf))))"

text \<open>The energy of a block of 40 decimated samples, from the offset \<open>o'\<close>.\<close>

definition attdet_block :: "lc3_srate \<Rightarrow> (int \<Rightarrow> int) \<Rightarrow> int \<Rightarrow> int \<times> int" where
  "attdet_block sr x o' =
     (let d = (if sr = LC3_SRATE_32K then 2 else 3);
          xn2 = attdet_decim sr x (o' - 2 * d);
          xn1 = attdet_decim sr x (o' - d)
      in case (attdet_step sr x ^^ 40) (o', xn2, xn1, 0) of (o', _, _, e) \<Rightarrow> (o', e))"

text \<open>The energies of the blocks, one after the other.\<close>

definition attdet_energies :: "lc3_srate \<Rightarrow> (int \<Rightarrow> int) \<Rightarrow> nat \<Rightarrow> int list" where
  "attdet_energies sr x nblk =
     snd (foldl (\<lambda>(o', es) i. case attdet_block sr x o' of (o', e) \<Rightarrow> (o', es @ [e])) (0, []) [0 ..< nblk])"

definition attdet_detect :: "int list \<Rightarrow> lc3_attdet_analysis \<times> int \<Rightarrow> nat \<Rightarrow> lc3_attdet_analysis \<times> int" where
  "attdet_detect e st i = (case st of (att, p) \<Rightarrow>
     (let a = LC3_MAX (drop_bit 2 (an1 att)) (en1 att)
      in (att\<lparr>en1 := e ! i, an1 := a\<rparr>, if drop_bit 3 (e ! i) > a + drop_bit 4 a then int i + 1 else p)))"

definition lc3_attdet_run ::
    "lc3_dt \<Rightarrow> lc3_srate \<Rightarrow> int \<Rightarrow> lc3_attdet_analysis \<Rightarrow> (int \<Rightarrow> int) \<Rightarrow> bool \<times> lc3_attdet_analysis" where
  "lc3_attdet_run dt sr nbytes att x =
     (if sr < LC3_SRATE_32K \<or> nbytes < fst (nbytes_ranges dt sr) \<or> nbytes > snd (nbytes_ranges dt sr)
      then (False, att)
      else (let nblk = 4 - of_bool (dt = LC3_DT_7M5);
                e = attdet_energies sr x nblk;
                (att', p) = foldl (attdet_detect e) (att, 0) [0 ..< nblk]
            in (p_att att' \<ge> 1 + int (drop_bit 1 nblk) \<or> p > 0, att'\<lparr>p_att := p\<rparr>)))"

section \<open>Nothing overflows\<close>

text \<open>The most a block can add up to: 40 squares of a 16-bit sample, divided by 32.\<close>

definition attdet_max :: int where "attdet_max = 40 * 2 ^ 25"

lemma attdet_decim_exact:
  assumes "\<And>i. is_s16 (x i)"
  shows "attdet_decim sr x j = (if sr = LC3_SRATE_32K then (x j + x (j + 1)) div 2 else (x j + x (j + 1) + x (j + 2)) div 4)"
proof -
  have b: "-32768 \<le> x j" "x j \<le> 32767" "-32768 \<le> x (j + 1)" "x (j + 1) \<le> 32767" "-32768 \<le> x (j + 2)" "x (j + 2) \<le> 32767"
    using assms by (auto simp: is_s16_def)
  have "-32768 \<le> (x j + x (j + 1)) div 2" "(x j + x (j + 1)) div 2 < 32768"
    "-32768 \<le> (x j + x (j + 1) + x (j + 2)) div 4" "(x j + x (j + 1) + x (j + 2)) div 4 < 32768"
    using b by linarith+
  then show ?thesis by (simp add: attdet_decim_def drop_bit_eq_div s16_id)
qed

lemma square_bound: "is_s16 v \<Longrightarrow> 0 \<le> v * v \<and> v * v \<le> 2 ^ 30"
proof -
  assume v: "is_s16 v"
  then have "\<bar>v\<bar> * \<bar>v\<bar> \<le> 32768 * 32768" by (intro mult_mono) (auto simp: is_s16_def)
  then show ?thesis by simp
qed

lemma drop_square: "0 \<le> (q :: int) \<and> q \<le> 2 ^ 30 \<Longrightarrow> 0 \<le> drop_bit 5 q \<and> drop_bit 5 q \<le> 2 ^ 25"
  by (auto simp: drop_bit_eq_div)

lemma attdet_step_bounds:
  assumes "attdet_step sr x (j, xn2, xn1, e) = (j', xn2', xn1', e')" "0 \<le> e"
  shows "0 \<le> e'" "e' \<le> e + 2 ^ 25" "is_s16 xn1'" "xn2' = xn1"
proof -
  define xf where "xf = s16 (drop_bit 3 (3 * attdet_decim sr x j - 4 * xn1 + 1 * xn2))"
  have "is_s16 xf" using s16_bounds by (simp add: xf_def is_s16_def)
  from drop_square [OF square_bound [OF this]]
  have q: "0 \<le> drop_bit 5 (xf * xf)" "drop_bit 5 (xf * xf) \<le> 2 ^ 25"
    by blast+
  have "e' = e + drop_bit 5 (xf * xf)" "xn1' = attdet_decim sr x j" "xn2' = xn1"
    using assms(1) by (auto simp: attdet_step_def Let_def xf_def)
  then show "0 \<le> e'" "e' \<le> e + 2 ^ 25" "is_s16 xn1'" "xn2' = xn1"
    using q assms(2) s16_bounds by (auto simp: attdet_decim_def is_s16_def)
qed

lemma attdet_block_bounds: "0 \<le> snd (attdet_block sr x j) \<and> snd (attdet_block sr x j) \<le> attdet_max"
proof -
  have "\<exists>j' a b e. (attdet_step sr x ^^ n) (j, xn2, xn1, 0) = (j', a, b, e) \<and> 0 \<le> e \<and> e \<le> int n * 2 ^ 25" for n xn2 xn1
  proof (induction n)
    case (Suc n)
    then obtain j' a b e where 1: "(attdet_step sr x ^^ n) (j, xn2, xn1, 0) = (j', a, b, e)" "0 \<le> e" "e \<le> int n * 2 ^ 25" by blast
    obtain j2 a2 b2 e2 where 2: "attdet_step sr x (j', a, b, e) = (j2, a2, b2, e2)" by (cases "attdet_step sr x (j', a, b, e)")
    from attdet_step_bounds(1,2) [OF 2 1(2)] 1 2 show ?case by (simp add: algebra_simps)
  qed simp
  then have iter: "0 \<le> snd (snd (snd ((attdet_step sr x ^^ n) (j, xn2, xn1, 0)))) \<and>
    snd (snd (snd ((attdet_step sr x ^^ n) (j, xn2, xn1, 0)))) \<le> int n * 2 ^ 25" for n xn2 xn1
    by (metis snd_conv)
  show ?thesis unfolding attdet_block_def Let_def case_prod_unfold snd_conv attdet_max_def
    using iter [of 40] unfolding of_nat_numeral by blast
qed

lemma attdet_energies_bounds:
  "length (attdet_energies sr x n) = n \<and> (\<forall>i<n. 0 \<le> attdet_energies sr x n ! i \<and> attdet_energies sr x n ! i \<le> attdet_max)"
proof -
  define f where "f = (\<lambda>(o', es) (i :: nat). case attdet_block sr x o' of (o', e) \<Rightarrow> (o', es @ [e]))"
  have "length (snd (foldl f (j, []) [0 ..< n])) = n \<and>
    (\<forall>i<n. 0 \<le> snd (foldl f (j, []) [0 ..< n]) ! i \<and> snd (foldl f (j, []) [0 ..< n]) ! i \<le> attdet_max)" for j
  proof (induction n)
    case (Suc n)
    obtain j' es where 1: "foldl f (j, []) [0 ..< n] = (j', es)" by (cases "foldl f (j, []) [0 ..< n]")
    have "snd (foldl f (j, []) [0 ..< Suc n]) = es @ [snd (attdet_block sr x j')]"
      using 1 by (simp add: f_def case_prod_unfold)
    with Suc 1 attdet_block_bounds [of sr x j'] show ?case by (auto simp: nth_append less_Suc_eq)
  qed simp
  from this [of 0] show ?thesis by (simp add: attdet_energies_def f_def)
qed

text \<open>The state of the detector between two frames.\<close>

definition attdet_inv :: "lc3_attdet_analysis \<Rightarrow> bool" where
  "attdet_inv att \<longleftrightarrow> 0 \<le> en1 att \<and> en1 att \<le> attdet_max \<and> 0 \<le> an1 att \<and> an1 att \<le> attdet_max \<and>
     0 \<le> p_att att \<and> p_att att \<le> 4"

lemma attdet_detect_inv:
  assumes "attdet_inv att" "0 \<le> e ! i \<and> e ! i \<le> attdet_max" "0 \<le> p \<and> p \<le> 4" "i < 4"
  shows "attdet_inv (fst (attdet_detect e (att, p) i)) \<and> 0 \<le> snd (attdet_detect e (att, p) i) \<and>
    snd (attdet_detect e (att, p) i) \<le> 4"
proof -
  have "0 \<le> drop_bit 2 (an1 att)" "drop_bit 2 (an1 att) \<le> attdet_max"
    using assms(1) by (auto simp: attdet_inv_def drop_bit_eq_div attdet_max_def)
  then show ?thesis
    using assms unfolding attdet_detect_def Let_def attdet_inv_def by auto
qed

lemma attdet_detect_loop:
  assumes "attdet_inv att" "\<And>i. i < n \<Longrightarrow> 0 \<le> e ! i \<and> e ! i \<le> attdet_max" "n \<le> 4"
  shows "attdet_inv (fst (foldl (attdet_detect e) (att, 0) [0 ..< n])) \<and>
    0 \<le> snd (foldl (attdet_detect e) (att, 0) [0 ..< n]) \<and> snd (foldl (attdet_detect e) (att, 0) [0 ..< n]) \<le> 4"
  using assms(2,3)
proof (induction n)
  case (Suc n)
  obtain a p where ap: "foldl (attdet_detect e) (att, 0) [0 ..< n] = (a, p)"
    by (cases "foldl (attdet_detect e) (att, 0) [0 ..< n]")
  have "attdet_inv a \<and> 0 \<le> p \<and> p \<le> 4" using Suc ap by auto
  then show ?case using attdet_detect_inv [of a e n p] Suc.prems ap by simp
qed (simp add: assms(1))

end
