(* ===== verification/Energy.thy ===== *)
theory Energy
  imports Float32 Common
begin

text \<open>The energies of the bands, \<^verbatim>\<open>energy.c\<close>, and the flag of the frequencies near Nyquist.\<close>

definition energy_n1 :: "lc3_dt \<Rightarrow> lc3_srate \<Rightarrow> nat" where
  "energy_n1 dt sr =
     (if dt = LC3_DT_7M5 then [56, 34, 27, 24, 22] else [49, 28, 23, 20, 18]) ! nat (sr_int sr)"

text \<open>A band of more than one coefficient: \<open>i\<close> is its first coefficient, as the band before
  has left it, and the sum over the two halves is kept in \<open>lo\<close> and \<open>hi\<close>.\<close>

definition energy_band ::
    "nat list \<Rightarrow> f32 list \<Rightarrow> int \<Rightarrow> nat \<times> f32 list \<times> f32 \<times> f32 \<Rightarrow> nat \<Rightarrow> nat \<times> f32 list \<times> f32 \<times> f32" where
  "energy_band lim x iband_h st iband = (case st of (i, e, lo, hi) \<Rightarrow>
     (let ie = lim ! (iband + 1); n = int ie - int i;
          sx2 = foldl (\<lambda>s i. f32_add s (f32_mul (x ! i) (x ! i))) (f32_mul (x ! i) (x ! i)) [i + 1 ..< ie];
          eb = f32_div sx2 (f32_of_int n)
      in if int iband \<ge> iband_h then (max (i + 1) ie, e @ [eb], lo, f32_add hi eb)
         else (max (i + 1) ie, e @ [eb], f32_add lo eb, hi)))"

definition lc3_energy_compute :: "lc3_dt \<Rightarrow> lc3_srate \<Rightarrow> f32 list \<Rightarrow> bool \<times> f32 list" where
  "lc3_energy_compute dt sr x =
     (let n1 = energy_n1 dt sr;
          e = map (\<lambda>i. f32_mul (x ! i) (x ! i)) [0 ..< n1];
          lo = foldl f32_add f32_0 e;
          nb = LC3_MIN (int LC3_NUM_BANDS) (LC3_NS dt sr);
          iband_h = nb - 2 * (2 - dt_int dt);
          lim = lc3_band_lim dt sr;
          (i, e, lo, hi) = foldl (energy_band lim x iband_h) (lim ! n1, e, lo, f32_0) [n1 ..< nat nb];
          e = e @ replicate (LC3_NUM_BANDS - length e) f32_0
      in (f32_gt hi (f32_mul (f32_of_int 30) lo), e))"

section \<open>Every band is written, and only the coefficients of the frame are read\<close>

text \<open>The limits of the bands: one coefficient per band below \<open>n1\<close>, then bands that are not
  empty, up to the number of coefficients of the frame.\<close>

definition band_lim_ok :: "lc3_dt \<Rightarrow> lc3_srate \<Rightarrow> bool" where
  "band_lim_ok dt sr =
     (let lim = lc3_band_lim dt sr; nb = nat (LC3_MIN (int LC3_NUM_BANDS) (LC3_NS dt sr)); n1 = energy_n1 dt sr
      in length lim = 65 \<and> n1 \<le> nb \<and> lim ! n1 = n1 \<and>
         list_all (\<lambda>i. lim ! i < lim ! (i + 1)) [n1 ..< nb] \<and> int (lim ! nb) = LC3_NE dt (sr_int sr))"

lemma band_lim_all: "valid_dt dt \<Longrightarrow> valid_sr sr \<Longrightarrow> band_lim_ok dt sr"
  by (elim valid_dtE valid_srE; hypsubst; simp add: band_lim_ok_def energy_n1_def lc3_band_lim_def lc3_band_lim_7m5_def lc3_band_lim_10m_def
      LC3_NUM_BANDS_def LC3_NE_def LC3_NS_def upt_rec [of "numeral a" "numeral b" for a b] Let_def)

lemma energy_band_loop:
  assumes lim: "\<And>b. n1 \<le> b \<Longrightarrow> b < nb \<Longrightarrow> lim ! b < lim ! (b + 1)" and n: "n1 \<le> n" "n \<le> nb"
    and s: "foldl (energy_band lim x h) (lim ! n1, e, lo, hi) [n1 ..< n] = (i, e', lo', hi')"
  shows "i = lim ! n \<and> length e' = length e + (n - n1) \<and> take (length e) e' = e \<and>
    (\<forall>b. n1 \<le> b \<and> b < n \<longrightarrow> e' ! (length e + (b - n1)) =
      f32_div (foldl (\<lambda>s i. f32_add s (f32_mul (x ! i) (x ! i)))
        (f32_mul (x ! (lim ! b)) (x ! (lim ! b))) [lim ! b + 1 ..< lim ! (b + 1)])
        (f32_of_int (int (lim ! (b + 1)) - int (lim ! b))))"
  using n s
proof (induction n arbitrary: i e' lo' hi' rule: dec_induct)
  case base
  then show ?case by auto
next
  case (step n)
  obtain i1 e1 lo1 hi1 where 1: "foldl (energy_band lim x h) (lim ! n1, e, lo, hi) [n1 ..< n] = (i1, e1, lo1, hi1)"
    by (cases "foldl (energy_band lim x h) (lim ! n1, e, lo, hi) [n1 ..< n]")
  have IH: "i1 = lim ! n" "length e1 = length e + (n - n1)" "take (length e) e1 = e"
    "\<forall>b. n1 \<le> b \<and> b < n \<longrightarrow> e1 ! (length e + (b - n1)) =
      f32_div (foldl (\<lambda>s i. f32_add s (f32_mul (x ! i) (x ! i)))
        (f32_mul (x ! (lim ! b)) (x ! (lim ! b))) [lim ! b + 1 ..< lim ! (b + 1)])
        (f32_of_int (int (lim ! (b + 1)) - int (lim ! b)))"
    using step.IH [OF _ 1] step.prems(1) by auto
  have lt: "lim ! n < lim ! (n + 1)" by (rule lim) (use step.hyps step.prems in auto)
  have "(i, e', lo', hi') = energy_band lim x h (i1, e1, lo1, hi1) n"
    using step.prems(2) step.hyps 1 by simp
  then have "i = lim ! (n + 1)" "e' = e1 @ [f32_div (foldl (\<lambda>s i. f32_add s (f32_mul (x ! i) (x ! i)))
        (f32_mul (x ! (lim ! n)) (x ! (lim ! n))) [lim ! n + 1 ..< lim ! (n + 1)])
        (f32_of_int (int (lim ! (n + 1)) - int (lim ! n)))]"
    using lt IH(1) by (auto simp: energy_band_def Let_def split: if_splits)
  then show ?case using IH(2-4) step.hyps by (auto simp: nth_append less_Suc_eq)
qed

end
