(* ===== verification/Plc.thy ===== *)
theory Plc
  imports Float32 Common
begin

text \<open>The packet loss concealment, \<^verbatim>\<open>plc.c\<close>: its state, and the synthesis of a frame from
  the spectrum of the last good one, with random signs and a gain that decays.\<close>

record lc3_plc_state =
  seed :: int
  count :: int
  alpha :: f32

definition lc3_plc_suspend :: "lc3_plc_state \<Rightarrow> lc3_plc_state" where
  "lc3_plc_suspend plc = plc\<lparr>count := 1, alpha := f32_1\<rparr>"

definition lc3_plc_reset :: "lc3_plc_state \<Rightarrow> lc3_plc_state" where
  "lc3_plc_reset plc = lc3_plc_suspend (plc\<lparr>seed := 24607\<rparr>)"

definition plc_next_seed :: "int \<Rightarrow> int" where
  "plc_next_seed s = (16831 + s * 12821) AND 0xffff"

definition plc_decay :: "lc3_plc_state \<Rightarrow> f32" where
  "plc_decay plc = f32_mul (alpha plc)
     (if count plc < 4 then f32_1 else if count plc < 8 then f32_lit 9 (-1) else f32_lit 85 (-2))"

text \<open>\<open>x\<close> is the spectrum of the last good frame; the result is the state and the spectrum of
  the concealed one.\<close>

definition lc3_plc_synthesize ::
    "lc3_dt \<Rightarrow> lc3_srate \<Rightarrow> lc3_plc_state \<Rightarrow> f32 list \<Rightarrow> lc3_plc_state \<times> f32 list" where
  "lc3_plc_synthesize dt sr plc x =
     (let ne = nat (LC3_NE dt (sr_int sr));
          a = plc_decay plc;
          (s, y) = foldl (\<lambda>(s, y) i.
             let s = plc_next_seed s
             in (s, y @ [f32_mul a (if s AND 0x8000 \<noteq> 0 then f32_neg (x ! i) else x ! i)]))
             (seed plc, []) [0 ..< ne]
      in (plc\<lparr>seed := s, alpha := a, count := count plc + 1\<rparr>, y))"

section \<open>The random sequence\<close>

lemma plc_next_seed_mod: "plc_next_seed s = (16831 + s * 12821) mod 65536"
  using take_bit_eq_mask [of 16 "16831 + s * 12821"]
  by (simp add: plc_next_seed_def take_bit_eq_mod mask_eq_exp_minus_1)

lemma plc_next_seed_bounds: "0 \<le> plc_next_seed s \<and> plc_next_seed s < 65536"
  by (simp add: plc_next_seed_mod)

text \<open>The products of the code fit an \<open>int\<close>, and no seed is reached from two.\<close>

lemma plc_next_seed_int: "0 \<le> (s :: int) \<Longrightarrow> s < 65536 \<Longrightarrow> 0 \<le> 16831 + s * 12821 \<and> 16831 + s * 12821 < 2 ^ 31"
  by simp

lemma plc_next_seed_inverse:
  assumes "0 \<le> s" "s < 65536"
  shows "((plc_next_seed s - 16831) * 3389) mod 65536 = s"
proof -
  have step: "((a + s * b) mod m - a) * c mod m = s * (b * c mod m) mod m" for a b c m :: int
    by (simp add: mod_mult_left_eq mod_mult_right_eq mod_diff_left_eq mult.assoc
      flip: mod_mult_left_eq [of "(a + s * b) mod m - a"])
  show ?thesis unfolding plc_next_seed_mod step using assms by simp
qed

lemma plc_next_seed_inj: "inj_on plc_next_seed {0 ..< 65536}"
  by (rule inj_on_inverseI [where g = "\<lambda>t. ((t - 16831) * 3389) mod 65536"]) (use plc_next_seed_inverse in auto)

text \<open>Iterated \<open>2 ^ k\<close> times the sequence is again of this form: its factor and its increment.\<close>

fun seed_doubled :: "nat \<Rightarrow> int \<times> int" where
  "seed_doubled 0 = (12821, 16831)"
| "seed_doubled (Suc k) = (case seed_doubled k of (a, c) \<Rightarrow> (a * a mod 65536, (c + c * a) mod 65536))"

lemma plc_seed_doubled:
  "(plc_next_seed ^^ (2 ^ k)) s = (snd (seed_doubled k) + s * fst (seed_doubled k)) mod 65536"
proof (induction k arbitrary: s)
  case 0
  show ?case by (simp add: plc_next_seed_mod)
next
  case (Suc k)
  obtain a c where k: "seed_doubled k = (a, c)" by (cases "seed_doubled k")
  have "(plc_next_seed ^^ (2 ^ Suc k)) s = (plc_next_seed ^^ (2 ^ k)) ((plc_next_seed ^^ (2 ^ k)) s)"
    by (simp add: mult_2 funpow_add)
  also have "\<dots> = (c + (c + s * a) mod 65536 * a) mod 65536" by (simp add: Suc.IH k)
  also have "\<dots> = (c + (c + s * a) * a) mod 65536" by (metis mod_add_right_eq mod_mult_left_eq)
  also have "\<dots> = (c + c * a + s * (a * a)) mod 65536" by (simp add: algebra_simps)
  also have "\<dots> = ((c + c * a) mod 65536 + s * (a * a mod 65536)) mod 65536" by (metis mod_add_left_eq mod_add_right_eq mod_mult_right_eq)
  finally show ?case by (simp add: k)
qed

lemma plc_seed_half: "(plc_next_seed ^^ (2 ^ 15)) s = (32768 + s) mod 65536"
proof -
  have "seed_doubled 15 = (1, 32768)" by code_simp
  then show ?thesis using plc_seed_doubled [of 15 s] by simp
qed

lemma plc_seeds_range: "0 \<le> s \<Longrightarrow> s < 65536 \<Longrightarrow> (plc_next_seed ^^ n) s \<in> {0 ..< 65536}"
  by (cases n) (simp_all add: plc_next_seed_bounds)

lemma odd_part: "0 < (d :: nat) \<Longrightarrow> \<exists>k u. d = 2 ^ k * u \<and> odd u"
proof (induction d rule: less_induct)
  case (less d)
  show ?case
  proof (cases "odd d")
    case True
    then show ?thesis by (intro exI [of _ 0] exI [of _ d]) simp
  next
    case False
    then obtain e where e: "d = 2 * e" by blast
    then obtain k u where "e = 2 ^ k * u" "odd u" using less.IH [of e] less.prems by auto
    then show ?thesis using e by (intro exI [of _ "Suc k"] exI [of _ u]) simp
  qed
qed

text \<open>So the period of the sequence is the greatest there is.\<close>

lemma plc_seed_period:
  assumes s: "0 \<le> s" "s < 65536" and d: "0 < d" "d < 2 ^ 16"
  shows "(plc_next_seed ^^ d) s \<noteq> s"
proof
  assume fix1: "(plc_next_seed ^^ d) s = s"
  have stays: "(plc_next_seed ^^ (d * j)) s = s" for j
    by (induction j) (simp_all add: funpow_add fix1 add.commute [of d])
  obtain k u where ku: "d = 2 ^ k * u" "odd u" using odd_part [OF d(1)] by blast
  have "2 ^ k \<le> d" using ku by (cases u) simp_all
  then have "(2 :: nat) ^ k < 2 ^ 16" using d(2) by linarith
  then have k: "k \<le> 15" using power_less_imp_less_exp [of "2 :: nat" k 16] by simp
  have "(2 :: nat) ^ k * 2 ^ (15 - k) = 2 ^ 15" using k by (simp flip: power_add)
  then have "d * 2 ^ (15 - k) = 2 ^ 15 * u" by (simp add: ku mult.commute mult.left_commute)
  then have "(plc_next_seed ^^ (2 ^ 15 * u)) s = s" using stays [of "2 ^ (15 - k)"] by simp
  moreover have "(plc_next_seed ^^ (2 ^ 15 * u)) s = (32768 * int u + s) mod 65536"
  proof (induction u)
    case 0
    then show ?case using s by simp
  next
    case (Suc u)
    have "(plc_next_seed ^^ (2 ^ 15 * Suc u)) s = (32768 + (32768 * int u + s) mod 65536) mod 65536"
      using Suc by (simp only: mult_Suc_right funpow_add comp_apply plc_seed_half)
    then show ?case by (simp add: mod_simps algebra_simps)
  qed
  moreover have "(32768 * int u + s) mod 65536 \<noteq> s"
  proof
    assume e: "(32768 * int u + s) mod 65536 = s"
    obtain w where "u = 2 * w + 1" using ku(2) by (elim oddE)
    then have "32768 * int u + s = 32768 + s + 65536 * int w" by simp
    then have "(32768 * int u + s) mod 65536 = (32768 + s) mod 65536" by (simp only: mod_mult_self2)
    then have "(32768 + s) mod 65536 = s mod 65536" using e s by simp
    then show False by (simp add: mod_eq_dvd_iff)
  qed
  ultimately show False by (simp only:)
qed

lemma plc_seeds_distinct:
  assumes "0 \<le> s" "s < 65536"
  shows "inj_on (\<lambda>n. (plc_next_seed ^^ n) s) {..< 2 ^ 16}"
proof -
  have "m = n" if "m \<le> n" "n < 2 ^ 16" "(plc_next_seed ^^ m) s = (plc_next_seed ^^ n) s" for m n
  proof (rule ccontr)
    assume "m \<noteq> n"
    moreover have "n - m < 2 ^ 16" using that(2) by linarith
    moreover have "(plc_next_seed ^^ n) s = (plc_next_seed ^^ (n - m)) ((plc_next_seed ^^ m) s)"
      using that(1) by (simp flip: funpow_add [THEN fun_cong, unfolded comp_apply])
    ultimately show False
      using plc_seed_period [of "(plc_next_seed ^^ m) s" "n - m"] plc_seeds_range [OF assms, of m] that by simp
  qed
  then show ?thesis by (intro inj_onI) (metis nat_le_linear lessThan_iff)
qed

end
