(* ===== verification/Bits.thy ===== *)
theory Bits
  imports Prelude
begin

text \<open>
  The bitstream of \<^verbatim>\<open>liblc3/bits.h\<close> and \<^verbatim>\<open>liblc3/bits.c\<close>: an arithmetic coder that
  writes (reads) bytes from the start of a buffer forwards, and an accumulator of plain
  bits that writes (reads) bytes from the end of the same buffer backwards.

  The buffer is a byte list; \<^verbatim>\<open>start\<close> is offset 0, \<^verbatim>\<open>end\<close> is its length, and the
  pointers \<^verbatim>\<open>p_fw\<close> and \<^verbatim>\<open>p_bw\<close> are offsets into it. The \<^verbatim>\<open>unsigned\<close> fields of the
  contexts are 32-bit words, so shifts and additions wrap as they do in C. The
  renormalisation loops do not stop on a null range: they are \<open>while_option\<close>, and
  \<open>None\<close> is a loop that never returns.

  The C expression \<^verbatim>\<open>1u << n\<close> is undefined for \<^verbatim>\<open>n = 32\<close>; no caller of the reading
  functions asks for more than 25 bits.
\<close>

section \<open>The bitstream context\<close>

datatype lc3_bits_mode = LC3_BITS_MODE_READ | LC3_BITS_MODE_WRITE

datatype lc3_ac_symbol = AcSymbol (sym_low: u16) (sym_range: u16)

type_synonym lc3_ac_model = "lc3_ac_symbol list"

record lc3_bits_accu =
  accu_v :: u32
  accu_n :: int
  accu_nover :: int

record lc3_bits_ac =
  ac_low :: u32
  ac_range :: u32
  ac_cache :: int
  ac_carry :: int
  ac_carry_count :: int
  ac_error :: bool

record lc3_bits_buffer =
  buf :: "u8 list"
  p_fw :: nat
  p_bw :: nat

record lc3_bits =
  mode :: lc3_bits_mode
  ac :: lc3_bits_ac
  accu :: lc3_bits_accu
  buffer :: lc3_bits_buffer

definition LC3_ACCU_BITS :: int where "LC3_ACCU_BITS = 32"
definition LC3_AC_BITS :: int where "LC3_AC_BITS = 24"

section \<open>Common\<close>

function ac_range_bits_loop :: "u32 \<Rightarrow> int \<Rightarrow> int" where
  "ac_range_bits_loop r nbits = (if r = 0 then nbits else ac_range_bits_loop (drop_bit 1 r) (nbits + 1))"
  by pat_completeness auto
termination
proof (relation "measure (\<lambda>(r, nbits). unat r)")
  fix r :: u32 and nbits :: int
  assume "r \<noteq> 0"
  then have "unat r > 0" by (simp add: unat_gt_0)
  then show "((drop_bit 1 r, nbits + 1), (r, nbits)) \<in> measure (\<lambda>(r, nbits). unat r)"
    by (simp add: unat_div drop_bit_Suc)
qed simp

declare ac_range_bits_loop.simps [simp del]

definition ac_get_range_bits :: "lc3_bits_ac \<Rightarrow> int" where
  "ac_get_range_bits a = ac_range_bits_loop (ac_range a) 0"

definition ac_get_pending_bits :: "lc3_bits_ac \<Rightarrow> int" where
  "ac_get_pending_bits a =
     26 - ac_get_range_bits a + (of_bool (ac_cache a \<ge> 0) + ac_carry_count a) * 8"

definition get_bits_left :: "lc3_bits \<Rightarrow> int" where
  "get_bits_left bits =
     (let b = buffer bits; u = accu bits;
          b_end = int (p_bw b) + (if mode bits = LC3_BITS_MODE_READ then LC3_ACCU_BITS div 8 else 0);
          b_start = int (p_fw b) - (if mode bits = LC3_BITS_MODE_READ then LC3_AC_BITS div 8 else 0);
          n = (if b_end > b_start then b_end - b_start else - (b_start - b_end))
      in 8 * n - (accu_n u + accu_nover u + ac_get_pending_bits (ac bits)))"

definition lc3_get_bits_left :: "lc3_bits \<Rightarrow> int" where
  "lc3_get_bits_left bits = LC3_MAX (get_bits_left bits) 0"

definition lc3_check_bits :: "lc3_bits \<Rightarrow> int" where
  "lc3_check_bits bits = - of_bool (get_bits_left bits < 0 \<or> ac_error (ac bits))"

section \<open>Writing\<close>

fun accu_flush_loop :: "nat \<Rightarrow> u32 \<Rightarrow> lc3_bits_buffer \<Rightarrow> u32 \<times> lc3_bits_buffer" where
  "accu_flush_loop 0 v b = (v, b)"
| "accu_flush_loop (Suc nbytes) v b =
     accu_flush_loop nbytes (drop_bit 8 v)
       (b\<lparr>p_bw := p_bw b - 1, buf := (buf b)[p_bw b - 1 := ucast (v AND 0xff)]\<rparr>)"

definition accu_flush :: "lc3_bits_accu \<Rightarrow> lc3_bits_buffer \<Rightarrow> lc3_bits_accu \<times> lc3_bits_buffer" where
  "accu_flush u b =
     (let nbytes = LC3_MIN (drop_bit 3 (accu_n u)) (LC3_MAX (int (p_bw b) - int (p_fw b)) 0);
          n = accu_n u - 8 * nbytes;
          (v, b') = accu_flush_loop (nat nbytes) (accu_v u) b
      in (u\<lparr>accu_v := v, accu_n := (if n \<ge> 8 then 0 else n)\<rparr>, b'))"

definition ac_put :: "lc3_bits_buffer \<Rightarrow> int \<Rightarrow> lc3_bits_buffer" where
  "ac_put b byte =
     (if p_fw b < length (buf b)
      then b\<lparr>buf := (buf b)[p_fw b := word_of_int byte], p_fw := p_fw b + 1\<rparr> else b)"

text \<open>\<open>ac_put_run k byte b\<close>: the loop that puts the byte held back by the carry \<open>k\<close> times.\<close>

fun ac_put_run :: "nat \<Rightarrow> int \<Rightarrow> lc3_bits_buffer \<Rightarrow> lc3_bits_buffer" where
  "ac_put_run 0 byte b = b"
| "ac_put_run (Suc k) byte b = ac_put_run k byte (ac_put b byte)"

definition ac_shift :: "lc3_bits_ac \<times> lc3_bits_buffer \<Rightarrow> lc3_bits_ac \<times> lc3_bits_buffer" where
  "ac_shift ab = (case ab of (a, b) \<Rightarrow>
     (let (a', b') =
        (if ac_low a < 0xff0000 \<or> ac_carry a \<noteq> 0 then
           (let b1 = (if ac_cache a \<ge> 0 then ac_put b (ac_cache a + ac_carry a) else b);
                b2 = ac_put_run (nat (ac_carry_count a)) (if ac_carry a \<noteq> 0 then 0x00 else 0xff) b1
            in (a\<lparr>ac_carry_count := LC3_MIN (ac_carry_count a) 0,
                  ac_cache := uint (drop_bit 16 (ac_low a)), ac_carry := 0\<rparr>, b2))
         else (a\<lparr>ac_carry_count := ac_carry_count a + 1\<rparr>, b))
      in (a'\<lparr>ac_low := push_bit 8 (ac_low a) AND 0xffffff\<rparr>, b')))"

function ac_terminate_loop ::
    "int \<Rightarrow> lc3_bits_ac \<times> lc3_bits_buffer \<Rightarrow> int \<times> lc3_bits_ac \<times> lc3_bits_buffer" where
  "ac_terminate_loop nbits ab =
     (if nbits > 8 then ac_terminate_loop (nbits - 8) (ac_shift ab) else (nbits, ab))"
  by pat_completeness auto
termination
  by (relation "measure (\<lambda>(nbits, ab). nat nbits)") auto

declare ac_terminate_loop.simps [simp del]

text \<open>The end value: \<open>ac_terminate_val\<close> gives the number of bits kept and the new context.\<close>

definition ac_terminate_val :: "lc3_bits_ac \<Rightarrow> int \<times> lc3_bits_ac" where
  "ac_terminate_val a =
     (let nbits = 25 - ac_get_range_bits a;
          mask = drop_bit (nat nbits) (0xffffff :: u32);
          val = ac_low a + mask;
          high = ac_low a + ac_range a;
          over_val = (drop_bit 24 val \<noteq> 0);
          over_high = (drop_bit 24 high \<noteq> 0);
          val = (val AND 0xffffff) AND NOT mask;
          high = high AND 0xffffff
      in if over_val = over_high then
           (let (nbits, val) =
              (if val + mask \<ge> high then
                 (let mask = drop_bit 1 mask
                  in (nbits + 1, ((ac_low a + mask) AND 0xffffff) AND NOT mask))
               else (nbits, val))
            in (nbits, a\<lparr>ac_carry := ac_carry a OR of_bool (val < ac_low a), ac_low := val\<rparr>))
         else (nbits, a\<lparr>ac_low := val\<rparr>))"

definition ac_terminate :: "lc3_bits_ac \<Rightarrow> lc3_bits_buffer \<Rightarrow> lc3_bits_ac \<times> lc3_bits_buffer" where
  "ac_terminate a b =
     (let (nbits, a) = ac_terminate_val a;
          (nbits, ab) = ac_terminate_loop nbits (a, b);
          (a, b) = ac_shift ab;
          end_val = drop_bit (nat (8 - nbits)) (ac_cache a);
          (a, b, end_val) =
            (if ac_carry_count a \<noteq> 0 then
               (a\<lparr>ac_carry_count := LC3_MIN (ac_carry_count a) 1\<rparr>,
                ac_put_run (nat (ac_carry_count a - 1)) 0xff (ac_put b (ac_cache a)),
                if nbits < 8 then 0 else 0xff)
             else (a, b, end_val))
      in if p_fw b < length (buf b) then
           (let byte = buf b ! p_fw b AND drop_bit (nat nbits) 0xff;
                byte = byte OR word_of_int (push_bit (nat (8 - nbits)) end_val)
            in (a, b\<lparr>buf := (buf b)[p_fw b := byte]\<rparr>))
         else (a, b))"

definition lc3_put_bits_generic :: "lc3_bits \<Rightarrow> u32 \<Rightarrow> int \<Rightarrow> lc3_bits" where
  "lc3_put_bits_generic bits v n =
     (let u = accu bits;
          n1 = LC3_MIN (LC3_ACCU_BITS - accu_n u) n;
          u = (if n1 \<noteq> 0
               then u\<lparr>accu_v := accu_v u OR push_bit (nat (accu_n u)) v, accu_n := LC3_ACCU_BITS\<rparr>
               else u);
          (u, b) = accu_flush u (buffer bits)
      in bits\<lparr>accu := u\<lparr>accu_v := drop_bit (nat n1) v, accu_n := n - n1\<rparr>, buffer := b\<rparr>)"

definition lc3_put_bits :: "lc3_bits \<Rightarrow> u32 \<Rightarrow> int \<Rightarrow> lc3_bits" where
  "lc3_put_bits bits v n =
     (let u = accu bits in
      if accu_n u + n \<le> LC3_ACCU_BITS then
        bits\<lparr>accu := u\<lparr>accu_v := accu_v u OR push_bit (nat (accu_n u)) v, accu_n := accu_n u + n\<rparr>\<rparr>
      else lc3_put_bits_generic bits v n)"

definition lc3_put_bit :: "lc3_bits \<Rightarrow> int \<Rightarrow> lc3_bits" where
  "lc3_put_bit bits v = lc3_put_bits bits (word_of_int v) 1"

text \<open>The renormalisation loop: \<open>None\<close> when it never stops (a null range).\<close>

definition lc3_ac_write_renorm :: "lc3_bits \<Rightarrow> lc3_bits option" where
  "lc3_ac_write_renorm bits =
     map_option (\<lambda>(a, b). bits\<lparr>ac := a, buffer := b\<rparr>)
       (while_option (\<lambda>(a, b). ac_range a < 0x10000)
          (\<lambda>ab. case ac_shift ab of (a, b) \<Rightarrow> (a\<lparr>ac_range := push_bit 8 (ac_range a)\<rparr>, b))
          (ac bits, buffer bits))"

definition lc3_put_symbol :: "lc3_bits \<Rightarrow> lc3_ac_model \<Rightarrow> nat \<Rightarrow> lc3_bits option" where
  "lc3_put_symbol bits model s =
     (let a = ac bits;
          rng = drop_bit 10 (ac_range a);
          low = ac_low a + rng * ucast (sym_low (model ! s));
          rng = rng * ucast (sym_range (model ! s));
          carry = ac_carry a OR uint (drop_bit 24 low);
          low = low AND 0xffffff;
          bits = bits\<lparr>ac := a\<lparr>ac_low := low, ac_range := rng, ac_carry := carry\<rparr>\<rparr>
      in if rng < 0x10000 then lc3_ac_write_renorm bits else Some bits)"

text \<open>The padding loop of the flush: \<open>n\<close> null bits, at most 32 at a time.\<close>

function lc3_flush_pad :: "int \<Rightarrow> lc3_bits \<Rightarrow> lc3_bits" where
  "lc3_flush_pad n bits =
     (if n > 0 then lc3_flush_pad (n - 32) (lc3_put_bits bits 0 (LC3_MIN n 32)) else bits)"
  by pat_completeness auto
termination
  by (relation "measure (\<lambda>(n, bits). nat n)") auto

declare lc3_flush_pad.simps [simp del]

definition lc3_flush_bits :: "lc3_bits \<Rightarrow> lc3_bits" where
  "lc3_flush_bits bits =
     (let nleft = int (p_bw (buffer bits)) - int (p_fw (buffer bits));
          bits = lc3_flush_pad (8 * nleft - accu_n (accu bits)) bits;
          (u, b) = accu_flush (accu bits) (buffer bits);
          (a, b) = ac_terminate (ac bits) b
      in bits\<lparr>accu := u, buffer := b, ac := a\<rparr>)"

section \<open>Reading\<close>

definition ac_get :: "lc3_bits_buffer \<Rightarrow> int \<times> lc3_bits_buffer" where
  "ac_get b = (if p_fw b < length (buf b)
               then (uint (buf b ! p_fw b), b\<lparr>p_fw := p_fw b + 1\<rparr>) else (0, b))"

fun accu_load_loop :: "nat \<Rightarrow> u32 \<Rightarrow> lc3_bits_buffer \<Rightarrow> u32 \<times> lc3_bits_buffer" where
  "accu_load_loop 0 v b = (v, b)"
| "accu_load_loop (Suc nbytes) v b =
     accu_load_loop nbytes
       (drop_bit 8 v OR push_bit (nat (LC3_ACCU_BITS - 8)) (ucast (buf b ! (p_bw b - 1))))
       (b\<lparr>p_bw := p_bw b - 1\<rparr>)"

definition accu_load :: "lc3_bits_accu \<Rightarrow> lc3_bits_buffer \<Rightarrow> lc3_bits_accu \<times> lc3_bits_buffer" where
  "accu_load u b =
     (let nbytes = LC3_MIN (drop_bit 3 (accu_n u)) (int (p_bw b));
          n = accu_n u - 8 * nbytes;
          (v, b') = accu_load_loop (nat nbytes) (accu_v u) b
      in if n \<ge> 8 then
           (u\<lparr>accu_nover := LC3_MIN (accu_nover u + n) LC3_ACCU_BITS,
              accu_v := (if n \<ge> LC3_ACCU_BITS then 0 else drop_bit (nat n) v), accu_n := 0\<rparr>, b')
         else (u\<lparr>accu_v := v, accu_n := n\<rparr>, b'))"

definition lc3_setup_bits :: "lc3_bits_mode \<Rightarrow> u8 list \<Rightarrow> lc3_bits" where
  "lc3_setup_bits md mem =
     (let u = \<lparr>accu_v = 0, accu_n = (if md = LC3_BITS_MODE_READ then LC3_ACCU_BITS else 0),
               accu_nover = 0\<rparr>;
          a = \<lparr>ac_low = 0, ac_range = 0xffffff, ac_cache = -1, ac_carry = 0,
               ac_carry_count = 0, ac_error = False\<rparr>;
          b = \<lparr>buf = mem, p_fw = 0, p_bw = length mem\<rparr>
      in if md = LC3_BITS_MODE_READ then
           (let (b0, b) = ac_get b; (b1, b) = ac_get b; (b2, b) = ac_get b;
                low = word_of_int (push_bit 16 b0);
                low = low OR word_of_int (push_bit 8 b1);
                low = low OR word_of_int b2;
                (u, b) = accu_load u b
            in \<lparr>mode = md, ac = a\<lparr>ac_low := low\<rparr>, accu = u, buffer = b\<rparr>)
         else \<lparr>mode = md, ac = a, accu = u, buffer = b\<rparr>)"

definition lc3_get_bits_generic :: "lc3_bits \<Rightarrow> int \<Rightarrow> u32 \<times> lc3_bits" where
  "lc3_get_bits_generic bits n =
     (let (u, b) = accu_load (accu bits) (buffer bits);
          n1 = LC3_MIN (LC3_ACCU_BITS - accu_n u) n;
          v = drop_bit (nat (accu_n u)) (accu_v u) AND (push_bit (nat n1) 1 - 1);
          u = u\<lparr>accu_n := accu_n u + n1\<rparr>;
          n2 = n - n1
      in if n2 \<noteq> 0 then
           (let (u, b) = accu_load u b;
                v = v OR push_bit (nat n1)
                      (drop_bit (nat (accu_n u)) (accu_v u) AND (push_bit (nat n2) 1 - 1))
            in (v, bits\<lparr>accu := u\<lparr>accu_n := accu_n u + n2\<rparr>, buffer := b\<rparr>))
         else (v, bits\<lparr>accu := u, buffer := b\<rparr>))"

definition lc3_get_bits :: "lc3_bits \<Rightarrow> int \<Rightarrow> u32 \<times> lc3_bits" where
  "lc3_get_bits bits n =
     (let u = accu bits in
      if accu_n u + n \<le> LC3_ACCU_BITS then
        (drop_bit (nat (accu_n u)) (accu_v u) AND (push_bit (nat n) 1 - 1),
         bits\<lparr>accu := u\<lparr>accu_n := accu_n u + n\<rparr>\<rparr>)
      else lc3_get_bits_generic bits n)"

definition lc3_get_bit :: "lc3_bits \<Rightarrow> u32 \<times> lc3_bits" where
  "lc3_get_bit bits = lc3_get_bits bits 1"

definition lc3_ac_read_renorm :: "lc3_bits \<Rightarrow> lc3_bits option" where
  "lc3_ac_read_renorm bits =
     map_option (\<lambda>(a, b). bits\<lparr>ac := a, buffer := b\<rparr>)
       (while_option (\<lambda>(a, b). ac_range a < 0x10000)
          (\<lambda>(a, b). case ac_get b of (byte, b') \<Rightarrow>
             (a\<lparr>ac_low := (push_bit 8 (ac_low a) OR word_of_int byte) AND 0xffffff,
                ac_range := push_bit 8 (ac_range a)\<rparr>, b'))
          (ac bits, buffer bits))"

text \<open>The search of the symbol whose interval holds \<open>low\<close>, as the code unrolls it.\<close>

definition ac_symbol_search :: "lc3_ac_model \<Rightarrow> u32 \<Rightarrow> u32 \<Rightarrow> nat" where
  "ac_symbol_search symbols rng low =
     (let below = (\<lambda>s. low < rng * ucast (sym_low (symbols ! s)));
          s = 16
      in if below s then
           (let s = s div 2;
                s = (if below s then s - 4 else s + 4);
                s = (if below s then s - 2 else s + 2);
                s = (if below s then s - 1 else s + 1)
            in (if below s then s - 1 else s))
         else s)"

definition lc3_get_symbol :: "lc3_bits \<Rightarrow> lc3_ac_model \<Rightarrow> (nat \<times> lc3_bits) option" where
  "lc3_get_symbol bits symbols =
     (let a = ac bits;
          rng = drop_bit 10 (ac_range a) AND 0xffff;
          error = (ac_error a \<or> ac_low a \<ge> push_bit 10 rng);
          low = (if error then 0 else ac_low a);
          s = ac_symbol_search symbols rng low;
          low = low - rng * ucast (sym_low (symbols ! s));
          rng = rng * ucast (sym_range (symbols ! s));
          bits = bits\<lparr>ac := a\<lparr>ac_error := error, ac_low := low, ac_range := rng\<rparr>\<rparr>
      in map_option (\<lambda>bits. (s, bits))
           (if rng < 0x10000 then lc3_ac_read_renorm bits else Some bits))"

end
