(* ===== verification/BitWriter.thy ===== *)
theory BitWriter
  imports Bits
begin

text \<open>
  The writing side of the arithmetic coder against numbers without bounds.

  \<open>ac_wr a b T R k\<close> says that the coder has fixed the interval \<open>[T, T + R)\<close> of numbers of
  \<open>k + 3\<close> bytes: \<open>k\<close> bytes have left the 24-bit window, of which \<open>p_fw\<close> are in the buffer
  and \<open>ac_plen\<close> are pending (the cached byte and the run of \<open>0xff\<close> bytes that a carry would
  turn over). The invariant bounds the carry: it reaches the cached byte at most once, and
  never runs past it.
\<close>

definition ac_plen :: "lc3_bits_ac \<Rightarrow> nat" where
  "ac_plen a = nat (ac_carry_count a) + of_bool (ac_cache a \<ge> 0)"

definition ac_pend :: "lc3_bits_ac \<Rightarrow> int" where
  "ac_pend a = (if ac_cache a \<ge> 0 then ac_cache a * 256 ^ nat (ac_carry_count a) else 0)
     + (256 ^ nat (ac_carry_count a) - 1)"

definition ac_wr :: "lc3_bits_ac \<Rightarrow> lc3_bits_buffer \<Rightarrow> int \<Rightarrow> int \<Rightarrow> nat \<Rightarrow> bool" where
  "ac_wr a b T R k \<longleftrightarrow>
     0 \<le> ac_carry_count a \<and> (ac_carry a = 0 \<or> ac_carry a = 1) \<and>
     - 1 \<le> ac_cache a \<and> ac_cache a \<le> 255 \<and> uint (ac_low a) < 16777216 \<and>
     0 < R \<and> R < 16777216 \<and> k = p_fw b + ac_plen a \<and> p_fw b \<le> length (buf b) \<and>
     T = (be_val (buf b) (p_fw b) * 256 ^ ac_plen a + ac_pend a + ac_carry a) * 16777216
         + uint (ac_low a) \<and>
     ac_carry a * 16777216 + uint (ac_low a) + R \<le> 33554432 \<and>
     T + R \<le> 256 ^ k * 16777215 \<and>
     (0 \<le> ac_cache a \<longrightarrow>
        (ac_pend a + ac_carry a) * 16777216 + uint (ac_low a) + R \<le> 256 ^ ac_plen a * 16777216) \<and>
     (ac_cache a < 0 \<longrightarrow> p_fw b = 0)"

lemma ac_wrD:
  assumes "ac_wr a b T R k"
  shows "0 \<le> ac_carry_count a" and "ac_carry a = 0 \<or> ac_carry a = 1"
    and "- 1 \<le> ac_cache a" and "ac_cache a \<le> 255" and "uint (ac_low a) < 16777216"
    and "0 < R" and "R < 16777216" and "k = p_fw b + ac_plen a" and "p_fw b \<le> length (buf b)"
    and "T = (be_val (buf b) (p_fw b) * 256 ^ ac_plen a + ac_pend a + ac_carry a) * 16777216
         + uint (ac_low a)"
    and "ac_carry a * 16777216 + uint (ac_low a) + R \<le> 33554432"
    and "T + R \<le> 256 ^ k * 16777215"
    and "0 \<le> ac_cache a \<Longrightarrow>
        (ac_pend a + ac_carry a) * 16777216 + uint (ac_low a) + R \<le> 256 ^ ac_plen a * 16777216"
    and "ac_cache a < 0 \<Longrightarrow> p_fw b = 0"
  using assms unfolding ac_wr_def by blast+

section \<open>Putting bytes\<close>

lemma ac_put_frame:
  "p_bw (ac_put b x) = p_bw b" "length (buf (ac_put b x)) = length (buf b)"
  "p_fw b \<le> p_fw (ac_put b x)"
  "p_fw (ac_put b x) = min (Suc (p_fw b)) (max (length (buf b)) (p_fw b))"
  by (auto simp: ac_put_def)

lemma ac_put_run_frame:
  "p_bw (ac_put_run n x b) = p_bw b" "length (buf (ac_put_run n x b)) = length (buf b)"
  "p_fw b \<le> p_fw (ac_put_run n x b)"
  by (induction n arbitrary: b) (auto simp: ac_put_frame intro: order_trans [OF ac_put_frame(3)])

lemma ac_put_run_p_fw:
  "p_fw b \<le> length (buf b) \<Longrightarrow> p_fw (ac_put_run n x b) = min (p_fw b + n) (length (buf b))"
  by (induction n arbitrary: b) (auto simp: ac_put_frame min_def)

lemma ac_put_outside:
  "i < p_fw b \<or> p_fw (ac_put b x) \<le> i \<Longrightarrow> buf (ac_put b x) ! i = buf b ! i"
  by (auto simp: ac_put_def nth_list_update split: if_splits)

lemma ac_put_run_outside:
  "i < p_fw b \<or> p_fw (ac_put_run n x b) \<le> i \<Longrightarrow> buf (ac_put_run n x b) ! i = buf b ! i"
proof (induction n arbitrary: b)
  case (Suc n)
  have "p_fw (ac_put b x) \<le> p_fw (ac_put_run n x (ac_put b x))"
    by (rule ac_put_run_frame(3))
  with Suc.prems have "i < p_fw b \<or> p_fw (ac_put b x) \<le> i"
    and "i < p_fw (ac_put b x) \<or> p_fw (ac_put_run n x (ac_put b x)) \<le> i"
    using ac_put_frame(3) [of b x] by auto
  then show ?case using Suc.IH [of "ac_put b x"] ac_put_outside [of i b x] by simp
qed simp

lemma be_val_ac_put:
  assumes "p_fw b < length (buf b)"
  shows "be_val (buf (ac_put b x)) (Suc (p_fw b)) = 256 * be_val (buf b) (p_fw b) + x mod 256"
    and "p_fw (ac_put b x) = Suc (p_fw b)"
proof -
  have "uint (word_of_int x :: u8) = x mod 256"
    by (simp add: uint_word_of_int)
  then show "be_val (buf (ac_put b x)) (Suc (p_fw b)) = 256 * be_val (buf b) (p_fw b) + x mod 256"
    using assms by (simp add: ac_put_def byte_at_update be_val_update_beyond)
  show "p_fw (ac_put b x) = Suc (p_fw b)"
    using assms by (simp add: ac_put_def)
qed

lemma be_val_ac_put_run:
  assumes "p_fw b + n \<le> length (buf b)" and "x = 0 \<or> x = 255"
  shows "p_fw (ac_put_run n x b) = p_fw b + n \<and>
    be_val (buf (ac_put_run n x b)) (p_fw b + n)
      = be_val (buf b) (p_fw b) * 256 ^ n + (if x = 0 then 0 else 256 ^ n - 1)"
  using assms(1)
proof (induction n arbitrary: b)
  case (Suc n)
  let ?b = "ac_put b x"
  have p: "p_fw ?b = Suc (p_fw b)"
    and v: "be_val (buf ?b) (Suc (p_fw b)) = 256 * be_val (buf b) (p_fw b) + x"
    using Suc.prems assms(2) be_val_ac_put [of b x] by auto
  have "p_fw ?b + n \<le> length (buf ?b)"
    using Suc.prems by (simp add: p ac_put_frame)
  from Suc.IH [OF this]
  have "p_fw (ac_put_run n x ?b) = p_fw b + Suc n"
    and "be_val (buf (ac_put_run n x ?b)) (p_fw b + Suc n)
      = (256 * be_val (buf b) (p_fw b) + x) * 256 ^ n + (if x = 0 then 0 else 256 ^ n - 1)"
    unfolding p v by (simp_all del: be_val.simps)
  then show ?case
    using assms(2) by (auto simp: algebra_simps simp del: be_val.simps)
qed auto

section \<open>Shifting a byte out of the window\<close>

lemma ac_shift_frame:
  assumes "ac_shift (a, b) = (a', b')"
  shows "p_bw b' = p_bw b \<and> length (buf b') = length (buf b) \<and> p_fw b \<le> p_fw b' \<and>
    ac_range a' = ac_range a \<and> ac_error a' = ac_error a \<and>
    (0 \<le> ac_carry_count a \<longrightarrow> 0 \<le> ac_carry_count a')"
proof -
  have "p_fw b \<le> p_fw (ac_put_run n x (ac_put b y))" for n x y
    by (rule order_trans [OF ac_put_frame(3) ac_put_run_frame(3)])
  then show ?thesis
    using assms
    by (auto simp: ac_shift_def Let_def ac_put_run_frame ac_put_frame split: if_splits)
qed

lemma ac_shift_outside:
  assumes "ac_shift (a, b) = (a', b')" and "i < p_fw b \<or> p_fw b' \<le> i"
  shows "buf b' ! i = buf b ! i"
proof -
  have run: "buf (ac_put_run n x b1) ! i = buf b1 ! i"
    if "p_fw b1 \<ge> p_fw b" "i < p_fw b \<or> p_fw (ac_put_run n x b1) \<le> i" for n x b1
    using that by (intro ac_put_run_outside) auto
  have put: "buf (ac_put b y) ! i = buf b ! i"
    if "i < p_fw b \<or> p_fw (ac_put_run n x (ac_put b y)) \<le> i" for n x y
    using that ac_put_run_frame(3) [where n = n and x = x and b = "ac_put b y"]
    by (intro ac_put_outside) auto
  show ?thesis
    using assms ac_put_frame(3) [of b]
    by (auto simp: ac_shift_def Let_def intro: trans [OF run put] run split: if_splits)
qed

lemma window_split: "(256::int) * l = 16777216 * (l div 65536) + l * 256 mod 16777216"
proof -
  have "l * 256 mod 16777216 = l mod 65536 * 256"
    using mod_mult_mult2 [of l 256 65536] by simp
  with div_mult_mod_eq [of l 65536] show ?thesis by linarith
qed

lemma ac_wr_carry0:
  assumes "ac_wr a b T R k" and "ac_cache a < 0"
  shows "ac_carry a = 0 \<and> p_fw b = 0 \<and> ac_plen a = nat (ac_carry_count a)
    \<and> ac_pend a = 256 ^ ac_plen a - 1"
proof -
  let ?p = "256 ^ ac_plen a :: int"
  have eq: "ac_plen a = nat (ac_carry_count a)" "ac_pend a = ?p - 1" "p_fw b = 0"
    using assms by (auto simp: ac_wr_def ac_plen_def ac_pend_def)
  have "T = (be_val (buf b) 0 * ?p + (?p - 1) + ac_carry a) * 16777216 + uint (ac_low a)"
    using ac_wrD(10) [OF assms(1)] unfolding eq(2,3) .
  moreover have "T + R \<le> ?p * 16777215"
    using ac_wrD(8,12) [OF assms(1)] by (simp add: eq(3))
  ultimately have "(?p - 1 + ac_carry a) * 16777216 + uint (ac_low a) + R \<le> ?p * 16777215"
    by simp
  moreover have "0 < R" "0 \<le> uint (ac_low a)" "ac_carry a = 0 \<or> ac_carry a = 1" "1 \<le> ?p"
    using assms by (auto simp: ac_wr_def)
  ultimately have "ac_carry a \<noteq> 1" by (intro notI) simp
  with \<open>ac_carry a = 0 \<or> ac_carry a = 1\<close> eq show ?thesis by simp
qed

text \<open>The bytes put by a shift, as long as they fit in the buffer.\<close>

lemma ac_shift_bytes:
  assumes wr: "ac_wr a b T R k" and space: "p_fw b + ac_plen a \<le> length (buf b)"
  defines "b1 \<equiv> (if ac_cache a \<ge> 0 then ac_put b (ac_cache a + ac_carry a) else b)"
  defines "b2 \<equiv> ac_put_run (nat (ac_carry_count a)) (if ac_carry a \<noteq> 0 then 0 else 255) b1"
  shows "p_fw b2 = k" and "be_val (buf b2) k
    = be_val (buf b) (p_fw b) * 256 ^ ac_plen a + ac_pend a + ac_carry a"
proof -
  let ?m = "nat (ac_carry_count a)" and ?c = "ac_carry a"
  have c01: "?c = 0 \<or> ?c = 1" and k: "k = p_fw b + ac_plen a" and R: "0 < R"
    using wr by (auto simp: ac_wr_def)
  show "p_fw b2 = k" and "be_val (buf b2) k
    = be_val (buf b) (p_fw b) * 256 ^ ac_plen a + ac_pend a + ?c"
  proof (atomize(full), cases "ac_cache a \<ge> 0")
    case True
    then have plen: "ac_plen a = Suc ?m" and pend: "ac_pend a = ac_cache a * 256 ^ ?m + 256 ^ ?m - 1"
      by (auto simp: ac_plen_def ac_pend_def)
    have "(ac_pend a + ?c) * 16777216 + uint (ac_low a) + R \<le> 256 ^ ac_plen a * 16777216"
      using wr True by (auto simp: ac_wr_def)
    moreover have "0 \<le> uint (ac_low a)" by simp
    ultimately have "(ac_pend a + ?c) * 16777216 < 256 ^ ac_plen a * 16777216"
      using R by linarith
    then have lt: "ac_pend a + ?c < 256 * 256 ^ ?m" by (simp add: plen)
    have byte: "(ac_cache a + ?c) mod 256 = ac_cache a + ?c"
    proof (cases "?c = 1")
      case True
      with lt have "(ac_cache a + 1) * 256 ^ ?m < 256 * 256 ^ ?m"
        by (simp add: pend algebra_simps)
      then have "ac_cache a + 1 < 256" by (simp add: mult_less_cancel_right)
      with True \<open>ac_cache a \<ge> 0\<close> show ?thesis by simp
    next
      case False
      with c01 wr \<open>ac_cache a \<ge> 0\<close> show ?thesis by (auto simp: ac_wr_def)
    qed
    have lt: "p_fw b < length (buf b)" using space by (simp add: plen)
    have p1: "p_fw b1 = Suc (p_fw b)"
      and v1: "be_val (buf b1) (Suc (p_fw b)) = 256 * be_val (buf b) (p_fw b) + (ac_cache a + ?c)"
      using be_val_ac_put [OF lt, of "ac_cache a + ?c"] True
      by (simp_all add: b1_def byte del: be_val.simps)
    have "p_fw b1 + ?m \<le> length (buf b1)"
      using space True by (simp add: p1 plen b1_def ac_put_frame)
    from be_val_ac_put_run [OF this, of "if ?c \<noteq> 0 then 0 else 255"] p1 v1
    show "p_fw b2 = k \<and> be_val (buf b2) k
      = be_val (buf b) (p_fw b) * 256 ^ ac_plen a + ac_pend a + ?c"
      using c01 by (auto simp: b2_def k plen pend algebra_simps simp del: be_val.simps)
  next
    case False
    then have neg: "ac_cache a < 0" by simp
    from ac_wr_carry0 [OF wr neg] have z: "?c = 0" "p_fw b = 0" "ac_plen a = ?m"
      "ac_pend a = 256 ^ ?m - 1" by auto
    have "b1 = b" using neg by (simp add: b1_def)
    with be_val_ac_put_run [of b ?m 255] space z
    show "p_fw b2 = k \<and> be_val (buf b2) k
      = be_val (buf b) (p_fw b) * 256 ^ ac_plen a + ac_pend a + ?c"
      by (simp add: b2_def k)
  qed
qed

lemma ac_shift_wr:
  assumes wr: "ac_wr a b T R k" and R: "R < 65536"
    and sh: "ac_shift (a, b) = (a', b')" and fits: "p_fw b' < length (buf b)"
  shows "ac_wr a' b' (256 * T) (256 * R) (Suc k)"
proof -
  let ?l = "uint (ac_low a)" and ?c = "ac_carry a"
  define l' where "l' = ?l * 256 mod 16777216"
  have l': "0 \<le> l'" "l' < 16777216" and sp: "256 * ?l = 16777216 * (?l div 65536) + l'"
    using window_split [of ?l] by (auto simp: l'_def)
  have l8: "?l div 65536 \<le> 255"
    using wr by (simp add: ac_wr_def zdiv_mono1 [of ?l 16777215 65536, simplified])
  have glob: "256 * T + 256 * R \<le> 256 ^ Suc k * 16777215"
    using ac_wrD(12) [OF wr] by simp
  show ?thesis
  proof (cases "ac_low a < 0xff0000 \<or> ?c \<noteq> 0")
    case True
    define b1 where "b1 = (if ac_cache a \<ge> 0 then ac_put b (ac_cache a + ?c) else b)"
    define b2 where "b2 = ac_put_run (nat (ac_carry_count a)) (if ?c \<noteq> 0 then 0 else 255) b1"
    have a': "a' = a\<lparr>ac_carry_count := min (ac_carry_count a) 0,
        ac_cache := uint (drop_bit 16 (ac_low a)), ac_carry := 0,
        ac_low := push_bit 8 (ac_low a) AND 0xffffff\<rparr>" and b': "b' = b2"
      using sh True by (auto simp: ac_shift_def Let_def b1_def b2_def)
    have "p_fw b2 = min (p_fw b1 + nat (ac_carry_count a)) (length (buf b))"
      using ac_wrD(9) [OF wr] by (auto simp: b2_def b1_def ac_put_run_p_fw ac_put_frame)
    then have space: "p_fw b + ac_plen a \<le> length (buf b)"
      using fits b' ac_wrD(9) [OF wr]
      by (auto simp: b1_def ac_put_frame ac_plen_def split: if_splits)
    have p: "p_fw b2 = k" and v: "be_val (buf b2) k
        = be_val (buf b) (p_fw b) * 256 ^ ac_plen a + ac_pend a + ?c"
      using ac_shift_bytes [OF wr space] by (simp_all add: b1_def b2_def)
    have len: "length (buf b2) = length (buf b)"
      by (simp add: b2_def b1_def ac_put_run_frame ac_put_frame)
    have cc: "min (ac_carry_count a) 0 = 0" using wr by (simp add: ac_wr_def)
    have low16: "uint (drop_bit 16 (ac_low a)) = ?l div 65536" by (simp add: uint_simps)
    have T: "T = be_val (buf b2) k * 16777216 + ?l"
      using ac_wrD(10) [OF wr] by (simp only: v)
    have "?l + R \<le> 16777216"
    proof (cases "?c = 0")
      case True
      with \<open>ac_low a < 0xff0000 \<or> ?c \<noteq> 0\<close> have "?l < 0xff0000" by (simp add: word_less_uint)
      with R show ?thesis by simp
    next
      case False
      then have "?c = 1" using wr by (simp add: ac_wr_def)
      then show ?thesis using wr by (simp add: ac_wr_def)
    qed
    then have top: "256 * ?l + 256 * R \<le> 256 * 16777216" by simp
    have low': "uint (ac_low a') = l'" 
    proof -
      have "ac_low a' = push_bit 8 (ac_low a) AND 0xffffff" by (simp add: a')
      then show ?thesis by (simp only: l'_def shift8_24)
    qed
    have f: "ac_carry_count a' = 0" "ac_cache a' = ?l div 65536" "ac_carry a' = 0"
      using cc low16 by (simp_all add: a')
    have "0 \<le> ?l div 65536" by (simp add: pos_imp_zdiv_nonneg_iff)
    with f have plen: "ac_plen a' = 1" and pend: "ac_pend a' = ?l div 65536"
      by (simp_all add: ac_plen_def ac_pend_def)
    have "256 * T = (be_val (buf b2) k * 256 + ?l div 65536) * 16777216 + l'"
      using T sp by simp
    with R l' l8 sp glob top ac_wrD(6,7) [OF wr] ac_wrD(8) [OF wr] space \<open>0 \<le> ?l div 65536\<close>
    show ?thesis
      unfolding ac_wr_def b' p len low' f plen pend by simp
  next
    case False
    then have hi: "0xff0000 \<le> ?l" and c0: "?c = 0"
      by (auto simp: word_less_uint not_less)
    with l8 have l255: "?l div 65536 = 255"
      using zdiv_mono1 [of "0xff0000" ?l 65536] by simp
    have a': "a' = a\<lparr>ac_carry_count := ac_carry_count a + 1,
        ac_low := push_bit 8 (ac_low a) AND 0xffffff\<rparr>" and b': "b' = b"
      using sh False by (auto simp: ac_shift_def Let_def)
    have cc: "0 \<le> ac_carry_count a" using wr by (simp add: ac_wr_def)
    have low': "uint (ac_low a') = l'" 
    proof -
      have "ac_low a' = push_bit 8 (ac_low a) AND 0xffffff" by (simp add: a')
      then show ?thesis by (simp only: l'_def shift8_24)
    qed
    have f: "ac_carry_count a' = ac_carry_count a + 1" "ac_cache a' = ac_cache a"
      "ac_carry a' = 0"
      using c0 by (simp_all add: a')
    have plen: "ac_plen a' = Suc (ac_plen a)" and pend: "ac_pend a' = 256 * ac_pend a + 255"
      using cc by (auto simp: ac_plen_def ac_pend_def f nat_add_distrib algebra_simps)
    have sp: "256 * ?l = 255 * 16777216 + l'" using sp l255 by simp
    have "256 * T = (be_val (buf b) (p_fw b) * 256 ^ Suc (ac_plen a) + (256 * ac_pend a + 255))
        * 16777216 + l'"
      using ac_wrD(10) [OF wr] sp c0 by simp
    moreover have "(256 * ac_pend a + 255) * 16777216 + l' + 256 * R
        \<le> 256 ^ Suc (ac_plen a) * 16777216" if "0 \<le> ac_cache a"
      using ac_wrD(13) [OF wr that] sp c0 by simp
    ultimately show ?thesis
      using R l' glob cc ac_wrD(3,4,6,7,8,9,14) [OF wr]
      unfolding ac_wr_def b' low' f plen pend by simp
  qed
qed

section \<open>Coding a symbol\<close>

text \<open>
  The number of renormalisation steps of a range, and the step of the coder on the
  interval: the sub-interval of the symbol, scaled until the range has 17 bits again.
\<close>

definition renorm_count :: "int \<Rightarrow> nat" where
  "renorm_count R = (if R < 256 then 2 else if R < 65536 then 1 else 0)"

definition ac_code :: "int \<times> int \<times> nat \<Rightarrow> int \<Rightarrow> int \<Rightarrow> int \<times> int \<times> nat" where
  "ac_code st lo rg = (case st of (T, R, k) \<Rightarrow>
     (let r = R div 1024; j = renorm_count (r * rg)
      in ((T + r * lo) * 256 ^ j, r * rg * 256 ^ j, k + j)))"

text \<open>A model splits 1024 into the 17 intervals of its symbols, in order.\<close>

definition ac_model_wf :: "lc3_ac_model \<Rightarrow> bool" where
  "ac_model_wf m \<longleftrightarrow> length m = 17 \<and> sym_low (m ! 0) = 0 \<and>
     (\<forall>i < 16. uint (sym_low (m ! Suc i)) = uint (sym_low (m ! i)) + uint (sym_range (m ! i))) \<and>
     uint (sym_low (m ! 16)) + uint (sym_range (m ! 16)) = 1024"

definition ac_symbol_ok :: "lc3_ac_model \<Rightarrow> nat \<Rightarrow> bool" where
  "ac_symbol_ok m s \<longleftrightarrow> ac_model_wf m \<and> s \<le> 16 \<and> sym_range (m ! s) \<noteq> 0"

lemma ac_model_low_mono:
  "ac_model_wf m \<Longrightarrow> i \<le> j \<Longrightarrow> j \<le> 16 \<Longrightarrow> uint (sym_low (m ! i)) \<le> uint (sym_low (m ! j))"
proof (induction j)
  case (Suc j)
  show ?case
  proof (cases "i = Suc j")
    case False
    with Suc have "uint (sym_low (m ! i)) \<le> uint (sym_low (m ! j))" by simp
    also have "\<dots> \<le> uint (sym_low (m ! Suc j))"
      using Suc.prems by (simp add: ac_model_wf_def)
    finally show ?thesis .
  qed simp
qed simp

lemma ac_model_end:
  assumes "ac_model_wf m" and "s \<le> 16"
  shows "uint (sym_low (m ! s)) + uint (sym_range (m ! s)) \<le> 1024"
proof (cases "s = 16")
  case True
  with assms show ?thesis by (simp add: ac_model_wf_def)
next
  case False
  with assms have "uint (sym_low (m ! s)) + uint (sym_range (m ! s)) = uint (sym_low (m ! Suc s))"
    by (simp add: ac_model_wf_def)
  also have "\<dots> \<le> uint (sym_low (m ! 16))"
    using assms False by (intro ac_model_low_mono) auto
  also have "\<dots> \<le> 1024"
  proof -
    have "uint (sym_low (m ! 16)) + uint (sym_range (m ! 16)) = 1024"
      using assms(1) by (simp add: ac_model_wf_def)
    with uint_bound16(1) [of "sym_range (m ! 16)"] show ?thesis by linarith
  qed
  finally show ?thesis .
qed

lemma renorm_count_range:
  assumes "1 \<le> R" "R < 16777216"
  shows "65536 \<le> R * 256 ^ renorm_count R" "R * 256 ^ renorm_count R < 16777216"
  using assms by (auto simp: renorm_count_def)

text \<open>The renormalisation of the writer takes exactly that number of steps.\<close>

definition ac_wr_step :: "lc3_bits_ac \<times> lc3_bits_buffer \<Rightarrow> lc3_bits_ac \<times> lc3_bits_buffer" where
  "ac_wr_step ab = (case ac_shift ab of (a, b) \<Rightarrow> (a\<lparr>ac_range := push_bit 8 (ac_range a)\<rparr>, b))"

lemma uint_range_shift:
  assumes "uint r < 65536"
  shows "uint (push_bit 8 r :: u32) = uint r * 256"
proof -
  have "uint (push_bit 8 r) = uint r * 2 ^ 8 mod 2 ^ 32" by (rule uint_push_bit32)
  also have "\<dots> = uint r * 2 ^ 8"
    using assms by (intro mod_pos_pos_trivial) auto
  finally show ?thesis by simp
qed

lemma ac_wr_step_range:
  "ac_range (fst (ac_wr_step (a, b))) = push_bit 8 (ac_range a)"
proof -
  obtain a' b' where sh: "ac_shift (a, b) = (a', b')" by (cases "ac_shift (a, b)")
  from ac_shift_frame [OF sh] show ?thesis by (simp add: ac_wr_step_def sh)
qed

lemma while_renorm:
  fixes rg :: "'s \<Rightarrow> u32"
  assumes rg: "\<And>s. rg (step s) = push_bit 8 (rg s)"
    and r: "1 \<le> uint (rg s)" "uint (rg s) < 16777216"
  shows "while_option (\<lambda>s. rg s < 0x10000) step s = Some ((step ^^ renorm_count (uint (rg s))) s)"
proof -
  have c: "rg t < 0x10000 \<longleftrightarrow> uint (rg t) < 65536" for t by (simp add: word_less_uint)
  have s1: "uint (rg (step t)) = uint (rg t) * 256" if "uint (rg t) < 65536" for t
    by (simp add: rg uint_range_shift [OF that])
  consider "uint (rg s) < 256" | "256 \<le> uint (rg s)" "uint (rg s) < 65536" | "65536 \<le> uint (rg s)"
    by linarith
  then show ?thesis
  proof cases
    case 1
    then have "uint (rg (step s)) < 65536" "65536 \<le> uint (rg (step (step s)))"
      using r s1 [of s] s1 [of "step s"] by auto
    with 1 show ?thesis
      by (subst while_option_unfold, subst while_option_unfold, subst while_option_unfold)
        (simp add: c renorm_count_def numeral_2_eq_2)
  next
    case 2
    then have "65536 \<le> uint (rg (step s))" using s1 [of s] by auto
    with 2 show ?thesis
      by (subst while_option_unfold, subst while_option_unfold) (simp add: c renorm_count_def)
  next
    case 3
    then show ?thesis by (subst while_option_unfold) (simp add: c renorm_count_def)
  qed
qed

lemma lc3_ac_write_renorm_eq:
  assumes "1 \<le> uint (ac_range (ac bits))" "uint (ac_range (ac bits)) < 16777216"
  shows "lc3_ac_write_renorm bits = Some (case
      (ac_wr_step ^^ renorm_count (uint (ac_range (ac bits)))) (ac bits, buffer bits) of
      (a, b) \<Rightarrow> bits\<lparr>ac := a, buffer := b\<rparr>)"
proof -
  have "while_option (\<lambda>s. ac_range (fst s) < 0x10000) ac_wr_step (ac bits, buffer bits)
    = Some ((ac_wr_step ^^ renorm_count (uint (ac_range (fst (ac bits, buffer bits)))))
        (ac bits, buffer bits))"
    by (rule while_renorm) (use assms ac_wr_step_range in auto)
  moreover have "(\<lambda>(a :: lc3_bits_ac, b :: lc3_bits_buffer). ac_range a < 0x10000)
      = (\<lambda>s. ac_range (fst s) < 0x10000)" by auto
  ultimately show ?thesis
    by (simp add: lc3_ac_write_renorm_def flip: ac_wr_step_def)
qed

text \<open>What a run of shifts leaves alone, with or without room in the buffer.\<close>

definition ac_frame :: "lc3_bits_ac \<Rightarrow> lc3_bits_buffer \<Rightarrow> lc3_bits_ac \<Rightarrow> lc3_bits_buffer \<Rightarrow> bool" where
  "ac_frame a b a' b' \<longleftrightarrow> p_bw b' = p_bw b \<and> length (buf b') = length (buf b) \<and>
     p_fw b \<le> p_fw b' \<and> ac_error a' = ac_error a \<and>
     (0 \<le> ac_carry_count a \<longrightarrow> 0 \<le> ac_carry_count a') \<and>
     (\<forall>i. i < p_fw b \<or> p_fw b' \<le> i \<longrightarrow> buf b' ! i = buf b ! i)"

lemma ac_frame_refl [simp]: "ac_frame a b a b"
  by (simp add: ac_frame_def)

lemma ac_frame_trans: "ac_frame a b a' b' \<Longrightarrow> ac_frame a' b' a'' b'' \<Longrightarrow> ac_frame a b a'' b''"
  unfolding ac_frame_def by (metis (no_types, lifting) dual_order.trans order_less_le_trans)

lemma ac_shift_ac_frame: "ac_shift (a, b) = (a', b') \<Longrightarrow> ac_frame a b a' b'"
  using ac_shift_frame ac_shift_outside unfolding ac_frame_def by blast

lemma ac_wr_stepE:
  assumes "ac_wr_step (a, b) = (a', b')"
  obtains a2 where "ac_shift (a, b) = (a2, b')" "a' = a2\<lparr>ac_range := push_bit 8 (ac_range a2)\<rparr>"
  using assms by (cases "ac_shift (a, b)") (auto simp: ac_wr_step_def)

lemma ac_wr_step_ac_frame: "ac_wr_step (a, b) = (a', b') \<Longrightarrow> ac_frame a b a' b'"
proof (erule ac_wr_stepE)
  fix a2 assume "ac_shift (a, b) = (a2, b')" and a': "a' = a2\<lparr>ac_range := push_bit 8 (ac_range a2)\<rparr>"
  then have "ac_frame a b a2 b'" by (intro ac_shift_ac_frame)
  then show "ac_frame a b a' b'" by (simp add: ac_frame_def a')
qed

lemma ac_wr_steps_frame: "(ac_wr_step ^^ j) (a, b) = (a', b') \<Longrightarrow> ac_frame a b a' b'"
proof (induction j arbitrary: a' b')
  case (Suc j)
  obtain a1 b1 where 1: "(ac_wr_step ^^ j) (a, b) = (a1, b1)" by (cases "(ac_wr_step ^^ j) (a, b)")
  with Suc.prems have "ac_wr_step (a1, b1) = (a', b')" by simp
  with Suc.IH [OF 1] show ?case by (blast intro: ac_frame_trans ac_wr_step_ac_frame)
qed simp

lemma ac_wr_steps_range:
  "(ac_wr_step ^^ j) (a, b) = (a', b') \<Longrightarrow> uint (ac_range a) * 256 ^ j < 16777216 \<Longrightarrow>
   uint (ac_range a') = uint (ac_range a) * 256 ^ j"
proof (induction j arbitrary: a' b')
  case (Suc j)
  obtain a1 b1 where 1: "(ac_wr_step ^^ j) (a, b) = (a1, b1)" by (cases "(ac_wr_step ^^ j) (a, b)")
  have lt: "uint (ac_range a) * 256 ^ j < 65536" using Suc.prems(2) by simp
  have r1: "uint (ac_range a1) = uint (ac_range a) * 256 ^ j"
    by (rule Suc.IH [OF 1]) (use lt in simp)
  have "ac_range a' = push_bit 8 (ac_range a1)"
    using Suc.prems(1) 1 ac_wr_step_range [of a1 b1] by simp
  moreover have "uint (push_bit 8 (ac_range a1)) = uint (ac_range a1) * 256"
    by (rule uint_range_shift) (use lt r1 in simp)
  ultimately show ?case using r1 by simp
qed simp

lemma ac_wr_range_irrelevant [simp]: "ac_wr (a\<lparr>ac_range := r\<rparr>) b T R k = ac_wr a b T R k"
  by (simp add: ac_wr_def ac_plen_def ac_pend_def)

lemma ac_wr_steps_wr:
  "(ac_wr_step ^^ j) (a, b) = (a', b') \<Longrightarrow> ac_wr a b T R k \<Longrightarrow> R * 256 ^ j < 16777216 \<Longrightarrow>
   p_fw b' < length (buf b) \<Longrightarrow> ac_wr a' b' (T * 256 ^ j) (R * 256 ^ j) (k + j)"
proof (induction j arbitrary: a' b')
  case (Suc j)
  obtain a1 b1 where 1: "(ac_wr_step ^^ j) (a, b) = (a1, b1)" by (cases "(ac_wr_step ^^ j) (a, b)")
  have "ac_wr_step (a1, b1) = (a', b')" using Suc.prems(1) 1 by simp
  then obtain a2 where sh: "ac_shift (a1, b1) = (a2, b')"
    and a': "a' = a2\<lparr>ac_range := push_bit 8 (ac_range a2)\<rparr>"
    by (rule ac_wr_stepE)
  have f: "ac_frame a b a1 b1" "ac_frame a1 b1 a2 b'"
    by (rule ac_wr_steps_frame [OF 1], rule ac_shift_ac_frame [OF sh])
  have lt: "R * 256 ^ j < 65536" using Suc.prems(3) by simp
  have "ac_wr a1 b1 (T * 256 ^ j) (R * 256 ^ j) (k + j)"
    by (rule Suc.IH [OF 1 Suc.prems(2)]) (use lt f Suc.prems(4) in \<open>auto simp: ac_frame_def\<close>)
  from ac_shift_wr [OF this lt sh] Suc.prems(4) f
  have "ac_wr a2 b' (256 * (T * 256 ^ j)) (256 * (R * 256 ^ j)) (Suc (k + j))"
    by (simp add: ac_frame_def)
  then show ?case by (simp add: a' mult.commute mult.left_commute)
qed simp

text \<open>The symbol put, before the renormalisation.\<close>

definition ac_narrow :: "lc3_bits_ac \<Rightarrow> lc3_ac_model \<Rightarrow> nat \<Rightarrow> lc3_bits_ac" where
  "ac_narrow a m s =
     (let rng = drop_bit 10 (ac_range a);
          low = ac_low a + rng * ucast (sym_low (m ! s))
      in a\<lparr>ac_low := low AND 0xffffff, ac_range := rng * ucast (sym_range (m ! s)),
           ac_carry := ac_carry a OR uint (drop_bit 24 low)\<rparr>)"

lemma ac_scaled:
  fixes R :: int
  assumes "65536 \<le> R" "R < 16777216" "0 \<le> x" "x \<le> 1024"
  shows "0 \<le> R div 1024 * x" "R div 1024 * x \<le> R" "64 \<le> R div 1024" "R div 1024 < 16384"
proof -
  have r: "0 \<le> R div 1024" "R div 1024 * 1024 \<le> R" using assms by auto
  then show "0 \<le> R div 1024 * x" using assms by simp
  have "R div 1024 * x \<le> R div 1024 * 1024" using r assms by (intro mult_left_mono) auto
  with r show "R div 1024 * x \<le> R" by linarith
  show "64 \<le> R div 1024" "R div 1024 < 16384" using assms by auto
qed

lemma ac_scaled_uint:
  assumes R: "65536 \<le> uint r" "uint r < 16777216" and x: "uint x \<le> 1024"
  shows "uint (drop_bit 10 r * (ucast (x :: u16) :: u32)) = uint r div 1024 * uint x"
proof -
  have "uint (drop_bit 10 r) * uint (ucast x :: u32) = uint r div 1024 * uint x"
    by (simp add: uint_simps)
  moreover have "uint r div 1024 * uint x < 4294967296"
    using ac_scaled(2) [OF R uint_bound16(1) x] R by linarith
  ultimately show ?thesis using uint_mult32 [of "drop_bit 10 r" "ucast x"] by simp
qed

lemma ac_narrow_range:
  assumes "ac_symbol_ok m s" "65536 \<le> uint (ac_range a)" "uint (ac_range a) < 16777216"
  shows "uint (ac_range (ac_narrow a m s)) = uint (ac_range a) div 1024 * uint (sym_range (m ! s))"
    and "1 \<le> uint (ac_range (ac_narrow a m s))" "uint (ac_range (ac_narrow a m s)) < 16777216"
proof -
  let ?rg = "uint (sym_range (m ! s))"
  have "uint (sym_low (m ! s)) + ?rg \<le> 1024" "?rg \<noteq> 0"
    using assms(1) ac_model_end [of m s] by (auto simp: ac_symbol_ok_def uint_0_iff)
  then have rg: "1 \<le> ?rg" "?rg \<le> 1024"
    using uint_bound16(1) [of "sym_low (m ! s)"] uint_bound16(1) [of "sym_range (m ! s)"] by linarith+
  show eq: "uint (ac_range (ac_narrow a m s)) = uint (ac_range a) div 1024 * ?rg"
    using ac_scaled_uint [OF assms(2,3) rg(2)] by (simp add: ac_narrow_def Let_def)
  have "uint (ac_range a) div 1024 * ?rg \<le> uint (ac_range a)"
    by (rule ac_scaled(2) [OF assms(2,3)]) (use rg in auto)
  then show "uint (ac_range (ac_narrow a m s)) < 16777216" using assms(3) eq by linarith
  have "1 * 1 \<le> uint (ac_range a) div 1024 * ?rg"
    using ac_scaled(3) [OF assms(2,3), of 1] rg by (intro mult_mono) auto
  then show "1 \<le> uint (ac_range (ac_narrow a m s))" using eq by linarith
qed

lemma lc3_put_symbol_eq:
  assumes "ac_symbol_ok m s" "65536 \<le> uint (ac_range (ac bits))" "uint (ac_range (ac bits)) < 16777216"
  defines "a \<equiv> ac_narrow (ac bits) m s"
  shows "lc3_put_symbol bits m s = Some (case
      (ac_wr_step ^^ renorm_count (uint (ac_range a))) (a, buffer bits) of
      (a, b) \<Rightarrow> bits\<lparr>ac := a, buffer := b\<rparr>)"
proof -
  have eq: "lc3_put_symbol bits m s = (if ac_range a < 0x10000
      then lc3_ac_write_renorm (bits\<lparr>ac := a\<rparr>) else Some (bits\<lparr>ac := a\<rparr>))"
    by (simp add: lc3_put_symbol_def a_def ac_narrow_def Let_def)
  have r: "1 \<le> uint (ac_range a)" "uint (ac_range a) < 16777216"
    using ac_narrow_range [OF assms(1-3)] by (simp_all add: a_def)
  show ?thesis
  proof (cases "ac_range a < 0x10000")
    case True
    then show ?thesis
      using lc3_ac_write_renorm_eq [of "bits\<lparr>ac := a\<rparr>"] r by (simp add: eq)
  next
    case False
    then have "renorm_count (uint (ac_range a)) = 0"
      by (simp add: renorm_count_def word_less_uint)
    with False show ?thesis by (simp add: eq)
  qed
qed

lemma ac_narrow_wr:
  assumes ok: "ac_symbol_ok m s" and wr: "ac_wr a b T R k"
    and R: "uint (ac_range a) = R" "65536 \<le> R"
  shows "ac_wr (ac_narrow a m s) b (T + R div 1024 * uint (sym_low (m ! s)))
           (R div 1024 * uint (sym_range (m ! s))) k"
proof -
  let ?lo = "uint (sym_low (m ! s))" and ?rg = "uint (sym_range (m ! s))" and ?a = "ac_narrow a m s"
  define r where "r = R div 1024"
  have R2: "R < 16777216" by (rule ac_wrD(7) [OF wr])
  have sum: "?lo + ?rg \<le> 1024" using ok ac_model_end [of m s] by (simp add: ac_symbol_ok_def)
  have pos: "0 \<le> ?lo" "0 \<le> ?rg" by simp_all
  have "r * (?lo + ?rg) \<le> R" "0 \<le> r * ?lo"
    using ac_scaled(2) [of R "?lo + ?rg"] ac_scaled(1) [of R ?lo] R R2 sum pos by (simp_all add: r_def)
  then have sub: "r * ?lo + r * ?rg \<le> R" and lo0: "0 \<le> r * ?lo" by (simp_all add: distrib_left)
  have "1 \<le> uint (ac_range ?a)" and rg: "uint (ac_range ?a) = r * ?rg"
    using ac_narrow_range [OF ok, of a] R R2 by (simp_all add: r_def)
  then have rg0: "0 < r * ?rg" by simp
  define x where "x = uint (ac_low a) + r * ?lo"
  have x: "0 \<le> x" "ac_carry a * 16777216 + x + r * ?rg \<le> 33554432"
    using ac_wrD(11) [OF wr] sub lo0 by (simp_all add: x_def)
  have "uint (drop_bit 10 (ac_range a) * (ucast (sym_low (m ! s)) :: u32)) = r * ?lo"
    using ac_scaled_uint [of "ac_range a" "sym_low (m ! s)"] R R2 sum pos by (simp add: r_def)
  then have low: "uint (ac_low a + drop_bit 10 (ac_range a) * (ucast (sym_low (m ! s)) :: u32)) = x"
    using uint_add32 [of "ac_low a" "drop_bit 10 (ac_range a) * ucast (sym_low (m ! s))"] x rg0
      ac_wrD(2) [OF wr] by (auto simp: x_def)
  have low': "uint (ac_low ?a) = x mod 16777216"
    by (simp add: ac_narrow_def Let_def and_24 low)
  have c: "ac_carry a = 0 \<or> ac_carry a = 1" by (rule ac_wrD(2) [OF wr])
  have x2: "x < 2 * 16777216" using x rg0 c by auto
  have xd: "x div 16777216 = 0 \<or> x div 16777216 = 1 \<and> ac_carry a = 0"
    using mod_cases_24(2) [OF x(1) x2] x rg0 c by (auto split: if_splits)
  have "ac_carry ?a = ac_carry a OR x div 16777216"
    by (simp add: ac_narrow_def Let_def uint_drop_bit32 low)
  then have carry: "ac_carry ?a = ac_carry a + x div 16777216" using xd c by auto
  have tot: "ac_carry ?a * 16777216 + uint (ac_low ?a) = ac_carry a * 16777216 + x"
    unfolding carry low' distrib_right by (simp only: add.assoc div_mult_mod_eq)
  have same: "ac_carry_count ?a = ac_carry_count a" "ac_cache ?a = ac_cache a"
    "ac_plen ?a = ac_plen a" "ac_pend ?a = ac_pend a"
    by (simp_all add: ac_narrow_def Let_def ac_plen_def ac_pend_def)
  have T: "T + r * ?lo = (be_val (buf b) (p_fw b) * 256 ^ ac_plen ?a + ac_pend ?a + ac_carry ?a)
      * 16777216 + uint (ac_low ?a)"
    using ac_wrD(10) [OF wr] tot unfolding same by (simp add: x_def algebra_simps)
  have glob: "T + r * ?lo + r * ?rg \<le> 256 ^ k * 16777215"
    using ac_wrD(12) [OF wr] sub by linarith
  have pend: "(ac_pend ?a + ac_carry ?a) * 16777216 + uint (ac_low ?a) + r * ?rg
      \<le> 256 ^ ac_plen ?a * 16777216" if "0 \<le> ac_cache a"
    using ac_wrD(13) [OF wr that] tot sub unfolding same by (simp add: x_def algebra_simps)
  have rgR: "r * ?rg < 16777216" using sub lo0 R2 by linarith
  have "ac_carry ?a = 0 \<or> ac_carry ?a = 1" using carry xd c by auto
  moreover have "uint (ac_low ?a) < 16777216" by (simp add: low')
  moreover have "ac_carry ?a * 16777216 + uint (ac_low ?a) + r * ?rg \<le> 33554432"
    using tot x by linarith
  ultimately show ?thesis
    unfolding r_def [symmetric] ac_wr_def same
    using T [unfolded same] glob pend [unfolded same] rgR rg0 ac_wrD(1,3,4,8,9,14) [OF wr]
    by blast
qed

text \<open>
  A symbol put: it always returns, and leaves the coder on the sub-interval unless the
  bytes have run to the end of the buffer.
\<close>

lemma lc3_put_symbol_wr:
  assumes ok: "ac_symbol_ok m s"
    and R: "65536 \<le> uint (ac_range (ac bits))" "uint (ac_range (ac bits)) < 16777216"
  obtains a' b' where "lc3_put_symbol bits m s = Some (bits\<lparr>ac := a', buffer := b'\<rparr>)"
    and "ac_frame (ac bits) (buffer bits) a' b'"
    and "65536 \<le> uint (ac_range a')" "uint (ac_range a') < 16777216"
    and "\<And>T k. ac_wr (ac bits) (buffer bits) T (uint (ac_range (ac bits))) k \<Longrightarrow>
      p_fw b' < length (buf (buffer bits)) \<Longrightarrow>
      (\<exists>T' k'. ac_code (T, uint (ac_range (ac bits)), k) (uint (sym_low (m ! s))) (uint (sym_range (m ! s)))
          = (T', uint (ac_range a'), k') \<and> ac_wr a' b' T' (uint (ac_range a')) k')"
proof -
  let ?a = "ac_narrow (ac bits) m s" and ?R = "uint (ac_range (ac bits))"
  let ?R1 = "uint (ac_range ?a)"
  define j where "j = renorm_count ?R1"
  obtain a' b' where st: "(ac_wr_step ^^ j) (?a, buffer bits) = (a', b')"
    by (cases "(ac_wr_step ^^ j) (?a, buffer bits)")
  have r: "1 \<le> ?R1" "?R1 < 16777216"
    and R1: "?R1 = ?R div 1024 * uint (sym_range (m ! s))"
    using ac_narrow_range [OF ok R] by simp_all
  have put: "lc3_put_symbol bits m s = Some (bits\<lparr>ac := a', buffer := b'\<rparr>)"
    using lc3_put_symbol_eq [OF ok R] st by (simp add: j_def)
  have "ac_frame ?a (buffer bits) a' b'" by (rule ac_wr_steps_frame [OF st])
  then have fr: "ac_frame (ac bits) (buffer bits) a' b'"
    by (simp add: ac_frame_def ac_narrow_def Let_def)
  have rr: "65536 \<le> ?R1 * 256 ^ j" "?R1 * 256 ^ j < 16777216"
    using renorm_count_range [OF r] by (simp_all add: j_def)
  have r': "uint (ac_range a') = ?R1 * 256 ^ j" by (rule ac_wr_steps_range [OF st rr(2)])
  show thesis
  proof (rule that [OF put fr])
    show "65536 \<le> uint (ac_range a')" "uint (ac_range a') < 16777216" using rr r' by simp_all
    fix T k
    assume wr: "ac_wr (ac bits) (buffer bits) T ?R k" and fit: "p_fw b' < length (buf (buffer bits))"
    have "ac_wr ?a (buffer bits) (T + ?R div 1024 * uint (sym_low (m ! s))) ?R1 k"
      using ac_narrow_wr [OF ok wr refl R(1)] by (simp add: R1)
    from ac_wr_steps_wr [OF st this rr(2) fit]
    show "\<exists>T' k'. ac_code (T, ?R, k) (uint (sym_low (m ! s))) (uint (sym_range (m ! s)))
          = (T', uint (ac_range a'), k') \<and> ac_wr a' b' T' (uint (ac_range a')) k'"
      by (simp add: ac_code_def Let_def r' j_def R1)
  qed
qed

end
