(* ===== verification/BitTerm.thy ===== *)
theory BitTerm
  imports BitWriter
begin

text \<open>
  The end of the bitstream: the value that \<open>ac_terminate\<close> writes lies in the interval of the
  coder whatever follows it in the buffer, and \<open>lc3_flush_bits\<close> leaves the arithmetic code
  and the plain bits side by side.
\<close>

unbundle bit_operations_syntax

section \<open>The bits of a range\<close>

lemma ac_range_bits_loop_eq:
  "2 ^ m \<le> uint r \<Longrightarrow> uint r < 2 ^ Suc m \<Longrightarrow> ac_range_bits_loop r n = n + int m + 1"
proof (induction m arbitrary: r n)
  case 0
  then have "uint r = 1" by simp
  then have r: "r = 1" by (metis uint_1_eq word_uint_eqI)
  have "drop_bit 1 (1 :: u32) = 0" by (simp add: drop_bit_Suc)
  then show ?case by (simp add: ac_range_bits_loop.simps [of 1] ac_range_bits_loop.simps [of 0] r)
next
  case (Suc m)
  have d: "uint (drop_bit 1 r) = uint r div 2" using uint_drop_bit32 [of 1 r] by simp
  have "(0::int) < 2 ^ Suc m" by simp
  with Suc.prems(1) have nz: "r \<noteq> 0" using uint_eq_0_iff32 [of r] by auto
  have "2 ^ m \<le> uint (drop_bit 1 r)" "uint (drop_bit 1 r) < 2 ^ Suc m"
    using Suc.prems d by auto
  from Suc.IH [OF this] show ?case by (simp add: ac_range_bits_loop.simps [of r] nz)
qed

definition range_log :: "int \<Rightarrow> nat" where
  "range_log R = (if R < 131072 then 16 else if R < 262144 then 17 else if R < 524288 then 18
     else if R < 1048576 then 19 else if R < 2097152 then 20 else if R < 4194304 then 21
     else if R < 8388608 then 22 else 23)"

lemma range_log:
  assumes "65536 \<le> R" "R < 16777216"
  shows "2 ^ range_log R \<le> R" "R < 2 ^ Suc (range_log R)"
    "16 \<le> range_log R" "range_log R \<le> 23"
  using assms by (auto simp: range_log_def)

lemma ac_get_range_bits_eq:
  assumes "65536 \<le> uint (ac_range a)" "uint (ac_range a) < 16777216"
  shows "ac_get_range_bits a = int (range_log (uint (ac_range a))) + 1"
  using ac_range_bits_loop_eq [OF range_log(1,2) [OF assms]]
  by (simp add: ac_get_range_bits_def)

section \<open>The end value\<close>

lemma uint_mask32: "g \<le> 32 \<Longrightarrow> uint (mask g :: u32) = 2 ^ g - 1"
proof -
  assume "g \<le> 32"
  then have "uint (mask g :: u32) = mask g"
    by (intro bit_eqI) (auto simp: bit_simps bit_mask_iff)
  then show ?thesis by (simp add: mask_eq_exp_minus_1)
qed

lemma uint_and_not_mask: "uint (w AND NOT (mask g) :: u32) = uint w div 2 ^ g * 2 ^ g"
proof -
  have "w AND NOT (mask g) = push_bit g (drop_bit g w)"
    by (rule bit_word_eqI) (auto simp: bit_simps)
  then have "uint (w AND NOT (mask g)) = uint w div 2 ^ g * 2 ^ g mod 2 ^ 32"
    by (simp only: uint_push_bit32 uint_drop_bit32)
  moreover have "uint w div 2 ^ g * 2 ^ g \<le> uint w"
    by (metis div_mult_mod_eq le_add_same_cancel1 pos_mod_sign zero_less_numeral zero_less_power)
  ultimately show ?thesis
    using uint_bound32 [of w] by (simp add: pos_imp_zdiv_nonneg_iff)
qed

text \<open>\<open>round_up g l\<close>: the least multiple of \<open>2 ^ g\<close> that is at least \<open>l\<close>.\<close>

definition round_up :: "nat \<Rightarrow> int \<Rightarrow> int" where
  "round_up g l = (l + (2 ^ g - 1)) div 2 ^ g * 2 ^ g"

lemma round_up_bounds: "l \<le> round_up g l" "round_up g l \<le> l + (2 ^ g - 1)"
proof -
  let ?x = "l + (2 ^ g - 1)"
  have "?x mod 2 ^ g < 2 ^ g" "0 \<le> ?x mod 2 ^ g" by simp_all
  then show "l \<le> round_up g l" "round_up g l \<le> ?x"
    using div_mult_mod_eq [of ?x "2 ^ g"] unfolding round_up_def by linarith+
qed

lemma round_up_dvd [simp]: "2 ^ g dvd round_up g l"
  by (simp add: round_up_def)

lemma dvd_24: "g \<le> 24 \<Longrightarrow> (2::int) ^ g dvd 16777216"
  using le_imp_power_dvd [of g 24 "2::int"] by simp

lemma round_up_mod:
  assumes "g \<le> 24" "0 \<le> l" "l < 16777216"
  shows "(l + (2 ^ g - 1)) mod 16777216 div 2 ^ g * 2 ^ g = round_up g l mod 16777216"
    and "round_up g l < 16777216 \<longleftrightarrow> l + (2 ^ g - 1) < 16777216"
    and "round_up g l mod 16777216
       = (if round_up g l < 16777216 then round_up g l else round_up g l - 16777216)"
proof -
  let ?x = "l + (2 ^ g - 1)"
  have p: "(2::int) ^ g \<le> 2 ^ 24" using assms(1) by (rule power_increasing) simp
  have x: "0 \<le> ?x" "?x < 2 * 16777216" using assms p by auto
  obtain q where q: "(16777216::int) = 2 ^ g * q" using dvd_24 [OF assms(1)] ..
  have lt: "?x div 2 ^ g * 2 ^ g < 16777216 \<longleftrightarrow> ?x < 16777216"
  proof
    assume *: "?x div 2 ^ g * 2 ^ g < 16777216"
    have "?x div 2 ^ g < q" using * by (simp add: q mult.commute)
    then have "?x div 2 ^ g + 1 \<le> q" by simp
    then have "(?x div 2 ^ g + 1) * 2 ^ g \<le> q * 2 ^ g" by (rule mult_right_mono) simp
    then have "?x div 2 ^ g * 2 ^ g + 2 ^ g \<le> 16777216"
      unfolding q distrib_right by (simp only: mult.commute mult_1)
    moreover have "?x mod 2 ^ g < 2 ^ g" by simp
    ultimately show "?x < 16777216"
      using div_mult_mod_eq [of ?x "2 ^ g"] by linarith
  next
    assume "?x < 16777216"
    moreover have "0 \<le> ?x mod 2 ^ g" by simp
    ultimately show "?x div 2 ^ g * 2 ^ g < 16777216"
      using div_mult_mod_eq [of ?x "2 ^ g"] by linarith
  qed
  then show "round_up g l < 16777216 \<longleftrightarrow> ?x < 16777216" by (simp add: round_up_def)
  have up: "0 \<le> round_up g l" "round_up g l < 2 * 16777216"
    using round_up_bounds [where l = l and g = g] assms x by auto
  then show m: "round_up g l mod 16777216
       = (if round_up g l < 16777216 then round_up g l else round_up g l - 16777216)"
    by (rule mod_cases_24)
  have "(?x - 16777216) div 2 ^ g = ?x div 2 ^ g - q"
    unfolding q using div_mult_self2 [of "2 ^ g" ?x "- q"] by simp
  then have "(?x - 16777216) div 2 ^ g * 2 ^ g = (?x div 2 ^ g - q) * 2 ^ g" by (rule arg_cong)
  also have "\<dots> = ?x div 2 ^ g * 2 ^ g - 16777216"
    unfolding q left_diff_distrib by (simp only: mult.commute [of q])
  finally have "(?x - 16777216) div 2 ^ g * 2 ^ g = ?x div 2 ^ g * 2 ^ g - 16777216" .
  then show "?x mod 16777216 div 2 ^ g * 2 ^ g = round_up g l mod 16777216"
    using mod_cases_24(1) [OF x] m lt by (simp add: round_up_def)
qed


lemma round_up_mono_half: "round_up g l + 2 ^ g \<le> l + 2 ^ Suc g - 1"
  using round_up_bounds(2) [where l = l and g = g] by simp

lemma drop_24_zero: "uint (x :: u32) < 33554432 \<Longrightarrow> (drop_bit 24 x \<noteq> 0) = (16777216 \<le> uint x)"
proof -
  assume x: "uint x < 33554432"
  have "uint (drop_bit 24 x) = uint x div 16777216" by (simp add: uint_drop_bit32)
  moreover have "uint x div 16777216 = (if uint x < 16777216 then 0 else 1)"
    by (rule mod_cases_24) (use x in auto)
  ultimately show ?thesis by (simp add: uint_eq_0_iff32)
qed

lemma mask_shift: "g \<le> 24 \<Longrightarrow> drop_bit (24 - g) (0xffffff :: u32) = mask g"
proof -
  assume g: "g \<le> 24"
  have "(0xffffff :: u32) = mask 24" by (simp add: mask_eq_exp_minus_1)
  then have "drop_bit (24 - g) (0xffffff :: u32) = drop_bit (24 - g) (mask 24)" by (rule arg_cong)
  also have "\<dots> = mask g"
    by (rule bit_word_eqI) (use g in \<open>auto simp: bit_simps\<close>)
  finally show ?thesis .
qed

lemma term_val_uint:
  assumes "g \<le> 24" "uint l < 16777216"
  shows "uint (((l + mask g) AND 0xffffff) AND NOT (mask g) :: u32) = round_up g (uint l) mod 16777216"
    and "uint (l + mask g) = uint l + (2 ^ g - 1)"
proof -
  have p: "(2::int) ^ g \<le> 2 ^ 24" using assms(1) by (rule power_increasing) simp
  have m: "uint (mask g :: u32) = 2 ^ g - 1" using assms(1) by (intro uint_mask32) simp
  show s: "uint (l + mask g) = uint l + (2 ^ g - 1)"
    using uint_add32 [of l "mask g"] assms p m by simp
  show "uint (((l + mask g) AND 0xffffff) AND NOT (mask g) :: u32) = round_up g (uint l) mod 16777216"
    unfolding uint_and_not_mask and_24 s
    by (rule round_up_mod) (use assms in auto)
qed

lemma round_up_wrap:
  assumes "g \<le> 24" "0 \<le> l" "l < 16777216"
  shows "round_up g l mod 16777216 < l \<longleftrightarrow> 16777216 \<le> round_up g l"
proof -
  have p: "(2::int) ^ g \<le> 2 ^ 24" using assms(1) by (rule power_increasing) simp
  show ?thesis
    using round_up_mod(3) [OF assms] round_up_bounds [where l = l and g = g] p by auto
qed

lemma round_up_top:
  assumes "g \<le> 24" "round_up g l < 16777216"
  shows "round_up g l + 2 ^ g \<le> 16777216"
proof -
  obtain q where q: "round_up g l = 2 ^ g * q" using round_up_dvd ..
  obtain p where p: "(16777216::int) = 2 ^ g * p" using dvd_24 [OF assms(1)] ..
  have "q < p" using assms(2) unfolding q p by simp
  then have "2 ^ g * (q + 1) \<le> (2 ^ g * p :: int)" by (intro mult_left_mono) auto
  then show ?thesis unfolding q p by (simp add: distrib_left)
qed

text \<open>The end value is the least multiple of a power of two whose block fits in the interval.\<close>

definition ac_end :: "lc3_bits_ac \<Rightarrow> nat \<Rightarrow> lc3_bits_ac" where
  "ac_end a g = (let V = round_up g (uint (ac_low a)) in
     a\<lparr>ac_carry := ac_carry a OR of_bool (16777216 \<le> V), ac_low := word_of_int (V mod 16777216)\<rparr>)"

lemma uint_eqI32: "uint (w :: u32) = x \<Longrightarrow> w = word_of_int x"
  by (metis word_of_int_uint)

lemma ac_terminate_val_eq:
  assumes R: "65536 \<le> uint (ac_range a)" "uint (ac_range a) < 16777216"
    and low: "uint (ac_low a) < 16777216"
  obtains g where "range_log (uint (ac_range a)) \<le> Suc g" "15 \<le> g" "g \<le> 23"
    "round_up g (uint (ac_low a)) + 2 ^ g \<le> uint (ac_low a) + uint (ac_range a)"
    "ac_terminate_val a = (24 - int g, ac_end a g)"
proof -
  let ?l = "uint (ac_low a)" and ?R = "uint (ac_range a)"
  define m where "m = range_log ?R"
  note rl = range_log [OF R, folded m_def]
  have m: "m \<le> 24" using rl by simp
  have nb: "25 - ac_get_range_bits a = 24 - int m" "nat (24 - int m) = 24 - m"
    using ac_get_range_bits_eq [OF R] m by (simp_all add: m_def)
  have hi: "uint (ac_low a + ac_range a) = ?l + ?R"
    using uint_add32 [of "ac_low a" "ac_range a"] R low by simp
  have lm: "?l + (2 ^ m - 1) < 33554432" "?l + ?R < 33554432" "?l + (2 ^ m - 1) < ?l + ?R"
    using rl R low by simp_all
  note val = term_val_uint [OF m low]
  note ov = drop_24_zero [of "ac_low a + mask m", unfolded val, OF lm(1)]
  note oh = drop_24_zero [of "ac_low a + ac_range a", unfolded hi, OF lm(2)]
  have half: "drop_bit 1 (mask m :: u32) = mask (m - 1)"
    by (rule bit_word_eqI) (use rl(3,4) in \<open>auto simp: bit_simps\<close>)
  define v where "v g = ((ac_low a + mask g) AND 0xffffff) AND NOT (mask g)" for g
  have final: "a\<lparr>ac_carry := ac_carry a OR of_bool (v g < ac_low a), ac_low := v g\<rparr> = ac_end a g"
    and final': "uint (v g) = round_up g ?l mod 16777216" if "g \<le> 24" for g
  proof -
    show v: "uint (v g) = round_up g ?l mod 16777216"
      unfolding v_def by (rule term_val_uint(1) [OF that low])
    have "(v g < ac_low a) = (16777216 \<le> round_up g ?l)"
      unfolding word_less_uint v by (rule round_up_wrap [OF that _ low]) simp
    moreover have "v g = word_of_int (round_up g ?l mod 16777216)" by (rule uint_eqI32 [OF v])
    ultimately show "a\<lparr>ac_carry := ac_carry a OR of_bool (v g < ac_low a), ac_low := v g\<rparr> = ac_end a g"
      by (simp only: ac_end_def Let_def)
  qed
  have tv: "ac_terminate_val a =
     (if (16777216 \<le> ?l + (2 ^ m - 1)) = (16777216 \<le> ?l + ?R) then
        (if v m + mask m \<ge> (ac_low a + ac_range a) AND 0xffffff
         then (24 - int m + 1, a\<lparr>ac_carry := ac_carry a OR of_bool (v (m - 1) < ac_low a), ac_low := v (m - 1)\<rparr>)
         else (24 - int m, a\<lparr>ac_carry := ac_carry a OR of_bool (v m < ac_low a), ac_low := v m\<rparr>))
      else (24 - int m, a\<lparr>ac_low := v m\<rparr>))"
    unfolding ac_terminate_val_def Let_def nb mask_shift [OF m] half ov oh v_def [symmetric]
    by (simp only: split: if_split) simp
  have uv: "round_up m ?l < 16777216 \<longleftrightarrow> ?l + (2 ^ m - 1) < 16777216"
    using round_up_mod(2) [OF m _ low] by simp
  have Vm: "uint (v m + mask m) = round_up m ?l mod 16777216 + (2 ^ m - 1)"
  proof -
    have "(2::int) ^ m \<le> 2 ^ 24" using m by (rule power_increasing) simp
    moreover have "uint (mask m :: u32) = 2 ^ m - 1" using m by (intro uint_mask32) simp
    ultimately show ?thesis
      using uint_add32 [of "v m" "mask m"] final' [OF m] pos_mod_bound [of 16777216 "round_up m ?l"] by simp
  qed
  show thesis
  proof (cases "(16777216 \<le> ?l + (2 ^ m - 1)) = (16777216 \<le> ?l + ?R)")
    case True
    have H: "uint ((ac_low a + ac_range a) AND 0xffffff) = (?l + ?R) mod 16777216"
      by (simp only: and_24 hi)
    have HR: "(?l + ?R) mod 16777216 = (if ?l + ?R < 16777216 then ?l + ?R else ?l + ?R - 16777216)"
      by (rule mod_cases_24) (use lm(2) in auto)
    have cmp: "v m + mask m \<ge> (ac_low a + ac_range a) AND 0xffffff
        \<longleftrightarrow> ?l + ?R < round_up m ?l + 2 ^ m"
      unfolding word_le_def Vm H round_up_mod(3) [OF m uint_bound32(1) low] HR
      using True uv by auto
    show thesis
    proof (cases "?l + ?R < round_up m ?l + 2 ^ m")
      case less: True
      have eq: "ac_terminate_val a = (24 - int m + 1, ac_end a (m - 1))"
        using tv True less final [of "m - 1"] m by (simp only: cmp if_True) simp
      moreover have "24 - int m + 1 = 24 - int (m - 1)" using rl(3) by simp
      moreover have "round_up (m - 1) ?l + 2 ^ (m - 1) \<le> ?l + ?R"
        using round_up_mono_half [of "m - 1" ?l] rl(1,3) by simp
      ultimately show thesis using rl(3,4) by (intro that [of "m - 1"]) (auto simp: m_def)
    next
      case fits: False
      have "ac_terminate_val a = (24 - int m, ac_end a m)"
        using tv True fits final [of m] m by (simp only: cmp if_True if_False simp_thms)
      with fits rl(3,4) show thesis by (intro that [of m]) (auto simp: m_def)
    qed
  next
    case False
    then have lt: "?l + (2 ^ m - 1) < 16777216" "16777216 \<le> ?l + ?R" using lm(3) by auto
    then have V: "round_up m ?l < 16777216" using uv by simp
    have "\<not> v m < ac_low a"
      unfolding word_less_uint final' [OF m] using V round_up_wrap [OF m _ low] by simp
    then have "a\<lparr>ac_low := v m\<rparr> = ac_end a m" using final [OF m] by simp
    then have "ac_terminate_val a = (24 - int m, ac_end a m)"
      using tv False by (simp only: if_False)
    moreover have "round_up m ?l + 2 ^ m \<le> ?l + ?R"
      using round_up_top [OF m V] lt(2) by linarith
    ultimately show thesis using rl(3,4) by (intro that [of m]) (auto simp: m_def)
  qed
qed


section \<open>Closing the interval\<close>

lemma ac_wr_sub:
  assumes wr: "ac_wr a b T R k" and d: "0 \<le> d" "0 < R'" "d + R' \<le> R"
    and low: "uint (ac_low a') = (uint (ac_low a) + d) mod 16777216"
    and carry: "ac_carry a' = ac_carry a OR (uint (ac_low a) + d) div 16777216"
    and same: "ac_carry_count a' = ac_carry_count a" "ac_cache a' = ac_cache a"
  shows "ac_wr a' b (T + d) R' k"
proof -
  define x where "x = uint (ac_low a) + d"
  have x: "0 \<le> x" "ac_carry a * 16777216 + x + R' \<le> 33554432"
    using ac_wrD(11) [OF wr] d by (simp_all add: x_def)
  have c: "ac_carry a = 0 \<or> ac_carry a = 1" by (rule ac_wrD(2) [OF wr])
  have x2: "x < 2 * 16777216" using x d c by auto
  have xd: "x div 16777216 = 0 \<or> x div 16777216 = 1 \<and> ac_carry a = 0"
    using mod_cases_24(2) [OF x(1) x2] x d c by (auto split: if_splits)
  then have carry': "ac_carry a' = ac_carry a + x div 16777216"
    using carry c unfolding x_def [symmetric] by auto
  have tot: "ac_carry a' * 16777216 + uint (ac_low a') = ac_carry a * 16777216 + x"
    unfolding carry' low x_def [symmetric] distrib_right by (simp only: add.assoc div_mult_mod_eq)
  have same': "ac_plen a' = ac_plen a" "ac_pend a' = ac_pend a"
    using same by (simp_all add: ac_plen_def ac_pend_def)
  have T: "T + d = (be_val (buf b) (p_fw b) * 256 ^ ac_plen a + ac_pend a + ac_carry a')
      * 16777216 + uint (ac_low a')"
    using ac_wrD(10) [OF wr] tot by (simp add: x_def algebra_simps)
  have glob: "T + d + R' \<le> 256 ^ k * 16777215" using ac_wrD(12) [OF wr] d by linarith
  have pend: "(ac_pend a + ac_carry a') * 16777216 + uint (ac_low a') + R'
      \<le> 256 ^ ac_plen a * 16777216" if "0 \<le> ac_cache a"
    using ac_wrD(13) [OF wr that] tot d by (simp add: x_def algebra_simps)
  have "R' < 16777216" using d ac_wrD(7) [OF wr] by linarith
  moreover have "ac_carry a' = 0 \<or> ac_carry a' = 1" using carry' xd c by auto
  moreover have "uint (ac_low a') < 16777216" by (simp add: low)
  moreover have "ac_carry a' * 16777216 + uint (ac_low a') + R' \<le> 33554432" using tot x by linarith
  ultimately show ?thesis
    unfolding ac_wr_def same same'
    using T glob pend d(2) ac_wrD(1,3,4,8,9,14) [OF wr] by blast
qed

lemma ac_end_wr:
  assumes wr: "ac_wr a b T R k" and g: "g \<le> 24"
    and fit: "round_up g (uint (ac_low a)) + 2 ^ g \<le> uint (ac_low a) + R"
  obtains T' where "T \<le> T'" "T' + 2 ^ g \<le> T + R" "2 ^ g dvd T'" "2 ^ g dvd uint (ac_low (ac_end a g))"
    "ac_wr (ac_end a g) b T' 1 k"
proof -
  let ?l = "uint (ac_low a)"
  define V where "V = round_up g ?l"
  define T' where "T' = T + (V - ?l)"
  have l: "?l < 16777216" "R < 16777216" by (rule ac_wrD(5,7) [OF wr])+
  have V: "?l \<le> V" "V + 2 ^ g \<le> ?l + R" "2 ^ g dvd V"
    using fit round_up_bounds(1) [of ?l g] by (simp_all add: V_def)
  have p: "(1::int) \<le> 2 ^ g" by simp
  have Vm: "0 \<le> V mod 16777216" "V mod 16777216 < 16777216" by simp_all
  have low: "uint (ac_low (ac_end a g)) = V mod 16777216"
    using Vm by (simp add: ac_end_def Let_def V_def uint_word_of_int)
  have V2: "0 \<le> V" "V < 2 * 16777216" using V l p uint_bound32(1) [of "ac_low a"] by linarith+
  have carry: "ac_carry (ac_end a g) = ac_carry a OR V div 16777216"
    using mod_cases_24(2) [OF V2] by (simp add: ac_end_def Let_def V_def)
  have "ac_wr (ac_end a g) b T' 1 k"
    unfolding T'_def
  proof (rule ac_wr_sub [OF wr])
    show "V - ?l + 1 \<le> R" using V(2) p by linarith
    show "uint (ac_low (ac_end a g)) = (?l + (V - ?l)) mod 16777216" by (simp add: low)
    show "ac_carry (ac_end a g) = ac_carry a OR (?l + (V - ?l)) div 16777216" by (simp add: carry)
  qed (use V(1) in \<open>simp_all add: ac_end_def Let_def\<close>)
  moreover have "2 ^ g dvd T'"
  proof -
    have "T' = (be_val (buf b) (p_fw b) * 256 ^ ac_plen a + ac_pend a + ac_carry a) * 16777216 + V"
      unfolding T'_def using ac_wrD(10) [OF wr] by linarith
    then show ?thesis using dvd_24 [OF g] V(3) by simp
  qed
  moreover have "2 ^ g dvd V mod 16777216" using V(3) dvd_24 [OF g] by (simp add: dvd_mod)
  ultimately show thesis using V(1,2) by (intro that) (simp_all add: T'_def low)
qed

lemma ac_shift_p_fw:
  assumes wr: "ac_wr a b T R k" and sh: "ac_shift (a, b) = (a', b')"
  shows "p_fw b' \<le> k"
  using sh ac_wrD(1,8,9) [OF wr]
  by (auto simp: ac_shift_def Let_def ac_put_run_p_fw ac_put_frame ac_plen_def split: if_splits)

text \<open>The last byte: the end of \<open>ac_terminate\<close>, from its last shift on.\<close>

definition ac_finish :: "int \<Rightarrow> lc3_bits_ac \<times> lc3_bits_buffer \<Rightarrow> lc3_bits_ac \<times> lc3_bits_buffer" where
  "ac_finish nbits ab =
     (let (a, b) = ac_shift ab;
          end_val = drop_bit (nat (8 - nbits)) (ac_cache a);
          (a, b, end_val) =
            (if ac_carry_count a \<noteq> 0 then
               (a\<lparr>ac_carry_count := LC3_MIN (ac_carry_count a) 1\<rparr>,
                ac_put_run (nat (ac_carry_count a - 1)) 0xff (ac_put b (ac_cache a)),
                if nbits < 8 then 0 else 0xff)
             else (a, b, end_val))
      in if p_fw b < length (buf b) then
           (let byte = buf b ! p_fw b AND drop_bit (nat nbits) 0xff;
                byte = byte OR word_of_int (push_bit (nat (8 - nbits)) end_val)
            in (a, b\<lparr>buf := (buf b)[p_fw b := byte]\<rparr>))
         else (a, b))"

lemma ac_terminate_finish:
  "ac_terminate a b = (case ac_terminate_val a of (nbits, a1) \<Rightarrow>
     case ac_terminate_loop nbits (a1, b) of (nbits, ab) \<Rightarrow> ac_finish nbits ab)"
  unfolding ac_terminate_def ac_finish_def Let_def by (simp split: prod.split)

text \<open>A shift of a window that holds one byte leaves no number in the window.\<close>

lemma ac_shift_empties:
  assumes wr: "ac_wr a b T R k" and R: "R < 65536" and k: "k < length (buf b)"
    and d: "65536 dvd uint (ac_low a)" and sh: "ac_shift (a, b) = (a', b')"
  shows "T = 65536 * (be_val (buf b') (p_fw b') * 256 ^ ac_plen a' + ac_pend a')"
    and "ac_wr a' b' (256 * T) (256 * R) (Suc k)"
    and "ac_carry_count a' = 0 \<Longrightarrow> 0 \<le> ac_cache a'"
proof -
  show wr': "ac_wr a' b' (256 * T) (256 * R) (Suc k)"
    using ac_shift_p_fw [OF wr sh] k by (intro ac_shift_wr [OF wr R sh]) simp
  have "ac_low a' = push_bit 8 (ac_low a) AND 0xffffff"
    using sh by (auto simp: ac_shift_def Let_def split: if_splits)
  then have "uint (ac_low a') = uint (ac_low a) * 256 mod 16777216" by (simp only: shift8_24)
  moreover obtain c where "uint (ac_low a) = 65536 * c" using d ..
  ultimately have l: "uint (ac_low a') = 0" by simp
  have c: "ac_carry a' = 0" using sh by (auto simp: ac_shift_def Let_def split: if_splits)
  show "T = 65536 * (be_val (buf b') (p_fw b') * 256 ^ ac_plen a' + ac_pend a')"
    using ac_wrD(10) [OF wr'] by (simp add: l c)
  show "0 \<le> ac_cache a'" if "ac_carry_count a' = 0"
    using sh that ac_wrD(1) [OF wr] uint_bound32(1)
    by (auto simp: ac_shift_def Let_def split: if_splits)
qed


lemma uint_word8: "0 \<le> x \<Longrightarrow> x < 256 \<Longrightarrow> uint (word_of_int x :: u8) = x"
  by (simp add: uint_word_of_int)

lemma last_byte_uint:
  fixes x :: u8
  assumes nb: "1 \<le> nb" "nb \<le> (8::int)" and e: "0 \<le> e" "e * 2 ^ nat (8 - nb) < 256"
  shows "uint ((x AND drop_bit (nat nb) 0xff) OR word_of_int (push_bit (nat (8 - nb)) e))
    = uint x mod 2 ^ nat (8 - nb) + e * 2 ^ nat (8 - nb)"
proof -
  define k where "k = nat (8 - nb)"
  have k: "nat nb = 8 - k" "k < 8" using nb by (simp_all add: k_def)
  have "(0xff :: u8) = mask 8" by (simp add: mask_eq_exp_minus_1)
  then have "drop_bit (nat nb) (0xff :: u8) = drop_bit (8 - k) (mask 8)"
    by (simp only: k)
  also have "\<dots> = mask k"
    by (rule bit_word_eqI) (use k in \<open>auto simp: bit_simps\<close>)
  finally have "x AND drop_bit (nat nb) 0xff = take_bit k x" by (simp only: take_bit_eq_mask)
  then have 1: "uint (x AND drop_bit (nat nb) 0xff) = take_bit k (uint x)"
    by (simp only: unsigned_take_bit_eq)
  have "push_bit k e = e * 2 ^ k" by (simp add: push_bit_eq_mult)
  then have 2: "uint (word_of_int (push_bit k e) :: u8) = push_bit k e"
    using e by (intro uint_word8) (simp_all add: k_def)
  have "uint ((x AND drop_bit (nat nb) 0xff) OR word_of_int (push_bit k e))
      = take_bit k (uint x) OR push_bit k e"
    by (simp only: unsigned_or_eq 1 2)
  also have "\<dots> = concat_bit k (uint x) e" by (simp add: concat_bit_def)
  also have "\<dots> = take_bit k (uint x) + push_bit k e" by (rule concat_bit_eq)
  finally show ?thesis by (simp add: take_bit_eq_mod push_bit_eq_mult k_def)
qed

lemma ac_finish_spec:
  assumes wr: "ac_wr a b T R k" and R: "R < 65536" and k: "k < length (buf b)"
    and d: "65536 dvd uint (ac_low a)"
    and nb: "1 \<le> nb" "nb \<le> 8" and dT: "2 ^ nat (24 - nb) dvd T"
    and top: "T + 2 ^ nat (24 - nb) \<le> 256 ^ k * 16777215"
  obtains a' b' where "ac_finish nb (a, b) = (a', b')"
    and "p_bw b' = p_bw b" "length (buf b') = length (buf b)" "p_fw b' = k"
    and "\<And>i. k < i \<Longrightarrow> byte_at (buf b') i = byte_at (buf b) i"
    and "byte_at (buf b') k mod 2 ^ nat (8 - nb) = byte_at (buf b) k mod 2 ^ nat (8 - nb)"
    and "be_val (buf b') (Suc k) * 65536 div 2 ^ nat (24 - nb) * 2 ^ nat (24 - nb) = T"
proof -
  note result = that
  let ?h = "2 ^ nat (8 - nb) :: int"
  have n16: "nat (24 - nb) = nat (8 - nb) + 16" using nb by simp
  have H: "(2::int) ^ nat (24 - nb) = ?h * 65536" by (simp add: n16 power_add)
  have h256: "?h dvd 256"
    using le_imp_power_dvd [of "nat (8 - nb)" 8 "2::int"] nb by simp
  obtain a2 b2 where sh: "ac_shift (a, b) = (a2, b2)" by (cases "ac_shift (a, b)")
  note em = ac_shift_empties [OF wr R k d sh]
  note wr2 = em(2)
  have fr: "p_bw b2 = p_bw b" "length (buf b2) = length (buf b)"
    "\<And>i. p_fw b2 \<le> i \<Longrightarrow> byte_at (buf b2) i = byte_at (buf b) i"
    using ac_shift_ac_frame [OF sh] by (auto simp: ac_frame_def byte_at_def)
  have pk: "Suc k = p_fw b2 + ac_plen a2" by (rule ac_wrD(8) [OF wr2])
  define Q where "Q = be_val (buf b2) (p_fw b2) * 256 ^ ac_plen a2 + ac_pend a2"
  have TQ: "T = 65536 * Q" unfolding Q_def by (rule em(1))
  have dQ: "?h dvd Q"
  proof -
    have "65536 * ?h dvd 65536 * Q" using dT unfolding H TQ by (simp only: mult.commute)
    then show ?thesis by simp
  qed
  have fin: "ac_finish nb (a, b) = (a3, b3\<lparr>buf := (buf b3)[k := byte]\<rparr>) \<and>
      uint byte = byte_at (buf b) k mod ?h + E * ?h"
    if step: "ac_finish nb (a, b) = (if p_fw b3 < length (buf b3) then
         (let byte = buf b3 ! p_fw b3 AND drop_bit (nat nb) 0xff;
              byte = byte OR word_of_int (push_bit (nat (8 - nb)) E)
          in (a3, b3\<lparr>buf := (buf b3)[p_fw b3 := byte]\<rparr>))
       else (a3, b3))"
      and p3: "p_fw b3 = k" "length (buf b3) = length (buf b)" "buf b3 ! k = buf b ! k"
      and byte: "byte = (buf b3 ! k AND drop_bit (nat nb) 0xff)
         OR word_of_int (push_bit (nat (8 - nb)) E)"
      and E: "0 \<le> E" "E * ?h < 256"
    for a3 b3 E byte
  proof
    show "ac_finish nb (a, b) = (a3, b3\<lparr>buf := (buf b3)[k := byte]\<rparr>)"
      using step k by (simp only: p3 byte Let_def if_True)
    show "uint byte = byte_at (buf b) k mod ?h + E * ?h"
      unfolding byte last_byte_uint [OF nb E] using p3 k by (simp add: byte_at_def)
  qed
  have finish: thesis
    if f: "ac_finish nb (a, b) = (a3, b3\<lparr>buf := (buf b3)[k := byte]\<rparr>)"
      and byte: "uint byte = byte_at (buf b) k mod ?h + E * ?h"
      and p3: "p_fw b3 = k" "length (buf b3) = length (buf b)" "p_bw b3 = p_bw b"
      and out: "\<And>i. k < i \<Longrightarrow> byte_at (buf b3) i = byte_at (buf b) i"
      and v: "256 * be_val (buf b3) k + E * ?h = Q" for a3 b3 E byte
  proof (rule result [OF f])
    let ?b = "b3\<lparr>buf := (buf b3)[k := byte]\<rparr>"
    have bk: "byte_at (buf ?b) k = byte_at (buf b) k mod ?h + E * ?h"
      using k p3 byte by (simp add: byte_at_update)
    show "byte_at (buf ?b) k mod ?h = byte_at (buf b) k mod ?h" unfolding bk by simp
    show "byte_at (buf ?b) i = byte_at (buf b) i" if "k < i" for i
      using that out by (simp add: byte_at_update)
    have "be_val (buf ?b) (Suc k) = Q + byte_at (buf b) k mod ?h"
      using v bk by (simp add: be_val_update_beyond)
    then have "be_val (buf ?b) (Suc k) * 65536 = T + (byte_at (buf b) k mod ?h) * 65536"
      by (simp add: TQ)
    moreover obtain q where "T = ?h * 65536 * q" using dT unfolding H ..
    moreover have "(?h * 65536 * q + r mod ?h * 65536) div (?h * 65536) = q" for q r :: int
    proof -
      have "0 \<le> r mod ?h * 65536" "r mod ?h * 65536 < ?h * 65536" by simp_all
      then have "r mod ?h * 65536 div (?h * 65536) = 0" by (rule div_pos_pos_trivial)
      then show ?thesis by (subst div_mult_self4) simp_all
    qed
    ultimately show "be_val (buf ?b) (Suc k) * 65536 div 2 ^ nat (24 - nb) * 2 ^ nat (24 - nb) = T"
      unfolding H by (simp only: mult.commute [of _ "?h * 65536"])
  qed (use p3 in simp_all)
  show thesis
  proof (cases "ac_carry_count a2 = 0")
    case True
    have c: "0 \<le> ac_cache a2" by (rule em(3) [OF True])
    have pl: "ac_plen a2 = 1" "ac_pend a2 = ac_cache a2" using True c by (simp_all add: ac_plen_def ac_pend_def)
    have p2: "p_fw b2 = k" using pk pl by simp
    have QQ: "Q = 256 * be_val (buf b2) k + ac_cache a2" by (simp add: Q_def pl p2)
    have "?h dvd ac_cache a2" using dQ dvd_mult2 [OF h256] unfolding QQ by (simp add: dvd_add_right_iff)
    then obtain E where E: "ac_cache a2 = ?h * E" ..
    have E': "drop_bit (nat (8 - nb)) (ac_cache a2) = E" "0 \<le> E" "E * ?h < 256"
      using c ac_wrD(4) [OF wr2] by (simp_all add: drop_bit_eq_div E mult.commute zero_le_mult_iff)
    have "ac_finish nb (a, b) = (if p_fw b2 < length (buf b2) then
         (let byte = buf b2 ! p_fw b2 AND drop_bit (nat nb) 0xff;
              byte = byte OR word_of_int (push_bit (nat (8 - nb)) E)
          in (a2, b2\<lparr>buf := (buf b2)[p_fw b2 := byte]\<rparr>))
       else (a2, b2))"
      using True E'(1) by (simp add: ac_finish_def sh)
    moreover have "buf b2 ! k = buf b ! k"
      using fr(2) k ac_shift_outside [OF sh, of k] p2 by simp
    ultimately have "ac_finish nb (a, b) = (a2, b2\<lparr>buf := (buf b2)[k := (buf b2 ! k AND drop_bit (nat nb) 0xff)
         OR word_of_int (push_bit (nat (8 - nb)) E)]\<rparr>) \<and> uint ((buf b2 ! k AND drop_bit (nat nb) 0xff)
         OR word_of_int (push_bit (nat (8 - nb)) E)) = byte_at (buf b) k mod ?h + E * ?h"
      by (intro fin) (use p2 fr(2) E' in simp_all)
    then show thesis
      by (elim conjE, elim finish [of a2 b2 _ E]) (use p2 fr QQ E in \<open>simp_all add: mult.commute\<close>)
  next
    case False
    define m where "m = nat (ac_carry_count a2 - 1)"
    have cc: "1 \<le> ac_carry_count a2" using False ac_wrD(1) [OF wr2] by simp
    then have m: "nat (ac_carry_count a2) = Suc m" by (simp add: m_def)
    have c: "0 \<le> ac_cache a2"
    proof (rule ccontr)
      assume "\<not> 0 \<le> ac_cache a2"
      then have neg: "ac_cache a2 < 0" by simp
      note z = ac_wr_carry0 [OF wr2 neg]
      have pl: "ac_plen a2 = Suc k" using pk z by simp
      have "ac_pend a2 = 256 ^ Suc k - 1" using z unfolding pl by blast
      then have "Q = 256 ^ Suc k - 1" using z by (simp add: Q_def)
      then have "T = 65536 * 256 ^ Suc k - 65536" by (simp add: TQ)
      moreover have "(65536::int) \<le> ?h * 65536" by simp
      ultimately have "65536 * 256 ^ Suc k \<le> (256::int) ^ k * 16777215" using top unfolding H by linarith
      then show False by simp
    qed
    have pl: "ac_plen a2 = Suc (Suc m)"
      and pe: "ac_pend a2 = ac_cache a2 * 256 ^ Suc m + (256 ^ Suc m - 1)"
      using c m by (simp_all add: ac_plen_def ac_pend_def)
    have p2: "k = p_fw b2 + Suc m" using pk pl by simp
    have nb8: "nb = 8"
    proof (rule ccontr)
      assume "nb \<noteq> 8"
      then have "(2::int) dvd ?h" using nb by (intro dvd_power) simp
      then have "2 dvd Q" using dQ by (rule dvd_trans)
      moreover have "Q + 1 = 2 * (128 * (256 ^ m * (be_val (buf b2) (p_fw b2) * 256 + ac_cache a2 + 1)))"
        unfolding Q_def pl pe by (simp add: algebra_simps)
      ultimately have "(2::int) dvd 1" by (metis dvd_add_right_iff dvd_triv_left)
      then show False by simp
    qed
    define b3 where "b3 = ac_put_run m 0xff (ac_put b2 (ac_cache a2))"
    have lt2: "p_fw b2 < length (buf b2)" using p2 k fr(2) by simp
    note put = be_val_ac_put [OF lt2, of "ac_cache a2"]
    have "p_fw (ac_put b2 (ac_cache a2)) + m \<le> length (buf (ac_put b2 (ac_cache a2)))"
      using put(2) p2 k fr(2) by (simp add: ac_put_frame)
    from be_val_ac_put_run [OF this, of 255]
    have p3: "p_fw b3 = k" and v3: "be_val (buf b3) k
        = (256 * be_val (buf b2) (p_fw b2) + ac_cache a2 mod 256) * 256 ^ m + (256 ^ m - 1)"
      unfolding b3_def put by (simp_all add: p2 del: be_val.simps)
    have out: "buf b3 ! i = buf b2 ! i" if "k \<le> i" for i
      using that p3 ac_put_run_outside [of i "ac_put b2 (ac_cache a2)" m 255]
        ac_put_outside [of i b2 "ac_cache a2"] put(2) p2 by (simp add: b3_def)
    have l3: "length (buf b3) = length (buf b)" "p_bw b3 = p_bw b"
      using fr by (simp_all add: b3_def ac_put_run_frame ac_put_frame)
    have out': "buf b3 ! i = buf b ! i" if "k \<le> i" for i
      using out [OF that] ac_shift_outside [OF sh, of i] that p2 by simp
    let ?byte = "(buf b3 ! k AND drop_bit (nat nb) 0xff) OR word_of_int (push_bit (nat (8 - nb)) 255)"
    let ?a3 = "a2\<lparr>ac_carry_count := LC3_MIN (ac_carry_count a2) 1\<rparr>"
    have "ac_finish nb (a, b) = (if p_fw b3 < length (buf b3) then
         (let byte = buf b3 ! p_fw b3 AND drop_bit (nat nb) 0xff;
              byte = byte OR word_of_int (push_bit (nat (8 - nb)) 255)
          in (?a3, b3\<lparr>buf := (buf b3)[p_fw b3 := byte]\<rparr>))
       else (?a3, b3))"
      using False nb8 by (simp add: ac_finish_def sh b3_def m_def)
    then have "ac_finish nb (a, b) = (?a3, b3\<lparr>buf := (buf b3)[k := ?byte]\<rparr>)
        \<and> uint ?byte = byte_at (buf b) k mod ?h + 255 * ?h"
      by (rule fin) (use p3 l3 out' nb8 in simp_all)
    moreover have "ac_cache a2 mod 256 = ac_cache a2" using c ac_wrD(4) [OF wr2] by simp
    then have "256 * be_val (buf b3) k + 255 * ?h = Q"
      unfolding v3 Q_def pl pe nb8 by (simp add: algebra_simps)
    ultimately show thesis
      by (elim conjE, elim finish [of ?a3 b3 ?byte 255]) (use p3 l3 out' in \<open>simp_all add: byte_at_def\<close>)
  qed
qed



section \<open>The end of the arithmetic code\<close>

lemma le_val_Suc_mod:
  "h \<le> 8 \<Longrightarrow> le_val xs (Suc w) mod 2 ^ (8 * w + h) = le_val xs w + (rbyte_at xs w mod 2 ^ h) * 256 ^ w"
proof -
  assume h: "h \<le> 8"
  have p: "(2::int) ^ (8 * w + h) = 2 ^ h * 256 ^ w"
    by (simp add: power_add power_mult)
  have "le_val xs (Suc w) = (le_val xs w + (rbyte_at xs w mod 2 ^ h) * 256 ^ w)
      + 2 ^ (8 * w + h) * (rbyte_at xs w div 2 ^ h)"
  proof -
    have "l + x * v = l + x mod q * v + q * v * (x div q)" for l x v q :: int
    proof -
      have "x * v = (x div q * q + x mod q) * v" by (simp only: div_mult_mod_eq)
      then have "x * v = x div q * q * v + x mod q * v" by (simp only: distrib_right)
      moreover have "x div q * q * v = q * v * (x div q)" by (simp only: mult.commute mult.left_commute)
      ultimately show ?thesis by linarith
    qed
    then show ?thesis unfolding p le_val.simps .
  qed
  then have "le_val xs (Suc w) mod 2 ^ (8 * w + h)
      = (le_val xs w + (rbyte_at xs w mod 2 ^ h) * 256 ^ w) mod 2 ^ (8 * w + h)"
    by (simp only: mod_mult_self2)
  also have "\<dots> = le_val xs w + (rbyte_at xs w mod 2 ^ h) * 256 ^ w"
  proof (rule mod_pos_pos_trivial)
    have "rbyte_at xs w mod 2 ^ h + 1 \<le> 2 ^ h" by (simp add: add1_zle_eq)
    then have "(rbyte_at xs w mod 2 ^ h + 1) * 256 ^ w \<le> 2 ^ h * 256 ^ w" by (rule mult_right_mono) simp
    then show "le_val xs w + (rbyte_at xs w mod 2 ^ h) * 256 ^ w < 2 ^ (8 * w + h)"
      using le_val_less [of xs w] unfolding p by (simp only: distrib_right)
  qed simp
  finally show ?thesis .
qed

lemma le_val_keep:
  assumes len: "length ys = length xs" and k: "k < length xs" and h: "h \<le> 8"
    and above: "\<And>i. k < i \<Longrightarrow> byte_at ys i = byte_at xs i"
    and at: "byte_at ys k mod 2 ^ h = byte_at xs k mod 2 ^ h"
    and L: "L \<le> 8 * (length xs - 1 - k) + h"
  shows "le_val ys (length xs) mod 2 ^ L = le_val xs (length xs) mod 2 ^ L"
proof -
  define w where "w = length xs - 1 - k"
  have w: "Suc w \<le> length xs" "length xs - 1 - w = k" using k by (simp_all add: w_def)
  have "le_val ys w = le_val xs w"
  proof (rule le_val_cong)
    fix j assume "j < w"
    then show "rbyte_at ys j = rbyte_at xs j"
      using w len above [of "length xs - 1 - j"] by (simp add: rbyte_at_byte_at w_def)
  qed
  moreover have "rbyte_at ys w mod 2 ^ h = rbyte_at xs w mod 2 ^ h"
    using w at len by (simp add: rbyte_at_byte_at)
  ultimately have e: "le_val ys (Suc w) mod 2 ^ (8 * w + h) = le_val xs (Suc w) mod 2 ^ (8 * w + h)"
    unfolding le_val_Suc_mod [OF h] by simp
  have big: "le_val zs (length xs) mod 2 ^ L = le_val zs (Suc w) mod 2 ^ (8 * w + h) mod 2 ^ L" for zs
  proof -
    have d1: "(2::int) ^ L dvd 2 ^ (8 * w + h)" using L by (intro le_imp_power_dvd) (simp add: w_def)
    have "(2::int) ^ (8 * w + h) dvd 2 ^ (8 * Suc w)" using h by (intro le_imp_power_dvd) simp
    then have d2: "(2::int) ^ L dvd 256 ^ Suc w" using d1 by (simp only: power_mult) (simp add: dvd_trans)
    have "le_val zs (length xs) mod 2 ^ L = le_val zs (length xs) mod 256 ^ Suc w mod 2 ^ L"
      by (rule mod_mod_cancel [OF d2, symmetric])
    also have "\<dots> = le_val zs (Suc w) mod 2 ^ L" by (simp only: le_val_mod [OF w(1)])
    also have "\<dots> = le_val zs (Suc w) mod 2 ^ (8 * w + h) mod 2 ^ L"
      by (rule mod_mod_cancel [OF d1, symmetric])
    finally show ?thesis .
  qed
  show ?thesis unfolding big e ..
qed

lemma ac_terminate_spec:
  assumes wr: "ac_wr a b T R k" and R: "uint (ac_range a) = R" "65536 \<le> R"
    and space: "8 * k + 25 + L \<le> 8 * length (buf b) + range_log R"
  obtains a' b' where "ac_terminate a b = (a', b')"
    and "p_bw b' = p_bw b" "length (buf b') = length (buf b)"
    and "T \<le> be_val (buf b') (k + 3)" "be_val (buf b') (k + 3) < T + R"
    and "le_val (buf b') (length (buf b)) mod 2 ^ L = le_val (buf b) (length (buf b)) mod 2 ^ L"
proof -
  have R2: "R < 16777216" and low: "uint (ac_low a) < 16777216" by (rule ac_wrD(7,5) [OF wr])+
  obtain g where g: "range_log R \<le> Suc g" "15 \<le> g" "g \<le> 23"
    and fit: "round_up g (uint (ac_low a)) + 2 ^ g \<le> uint (ac_low a) + R"
    and val: "ac_terminate_val a = (24 - int g, ac_end a g)"
    using ac_terminate_val_eq [of a] R R2 low by (metis (no_types, lifting))
  have g24: "g \<le> 24" using g by simp
  obtain T' where T': "T \<le> T'" "T' + 2 ^ g \<le> T + R" "2 ^ g dvd T'"
    "2 ^ g dvd uint (ac_low (ac_end a g))" "ac_wr (ac_end a g) b T' 1 k"
    by (rule ac_end_wr [OF wr g24 fit])
  have top: "T' + 2 ^ g \<le> 256 ^ k * 16777215" using T'(2) ac_wrD(12) [OF wr] by linarith
  show thesis
  proof (cases "g = 15")
    case False
    then have g16: "16 \<le> g" using g by simp
    then have loop: "ac_terminate_loop (24 - int g) (ac_end a g, b) = (24 - int g, (ac_end a g, b))"
      by (simp add: ac_terminate_loop.simps)
    have n: "nat (24 - (24 - int g)) = g" "nat (8 - (24 - int g)) = g - 16" using g by simp_all
    have k: "k < length (buf b)" using space g by simp
    have "(65536::int) dvd 2 ^ g" using le_imp_power_dvd [of 16 g "2::int"] g16 by simp
    then have d: "65536 dvd uint (ac_low (ac_end a g))" using T'(4) by (rule dvd_trans)
    obtain a' b' where fin: "ac_finish (24 - int g) (ac_end a g, b) = (a', b')"
      and fr: "p_bw b' = p_bw b" "length (buf b') = length (buf b)" "p_fw b' = k"
      "\<And>i. k < i \<Longrightarrow> byte_at (buf b') i = byte_at (buf b) i"
      "byte_at (buf b') k mod 2 ^ (g - 16) = byte_at (buf b) k mod 2 ^ (g - 16)"
      and v: "be_val (buf b') (Suc k) * 65536 div 2 ^ g * 2 ^ g = T'"
      using ac_finish_spec [OF T'(5) _ k d, of "24 - int g"] T'(3) top g g16 unfolding n by auto
    let ?B = "be_val (buf b') (k + 3)"
    have gp: "(2::int) ^ g = 2 ^ (g - 16) * 65536"
      using g16 power_add [of "2::int" "g - 16" 16] by simp
    have "Suc k + 2 = k + 3" by simp
    then have "?B div 256 ^ 2 = be_val (buf b') (Suc k)"
      using be_val_add [of "buf b'" "Suc k" 2] by (simp only:)
    then have "?B div 2 ^ g = be_val (buf b') (Suc k) * 65536 div 2 ^ g"
      unfolding gp by (simp add: zdiv_zmult2_eq mult.commute [of _ 65536])
    then have "T' = ?B div 2 ^ g * 2 ^ g" using v by simp
    moreover have "0 \<le> ?B mod 2 ^ g" "?B mod 2 ^ g < 2 ^ g" by simp_all
    ultimately have B: "T' \<le> ?B" "?B < T' + 2 ^ g"
      using div_mult_mod_eq [of ?B "2 ^ g"] by linarith+
    show thesis
    proof (rule that [of a' b'])
      show "ac_terminate a b = (a', b')" by (simp add: ac_terminate_finish val loop fin)
      show "T \<le> ?B" "?B < T + R" using B T' by simp_all
      show "le_val (buf b') (length (buf b)) mod 2 ^ L = le_val (buf b) (length (buf b)) mod 2 ^ L"
        by (rule le_val_keep [OF fr(2) k _ fr(4,5)]) (use space g g16 in auto)
    qed (use fr in simp_all)
  next
    case True
    obtain a1 b1 where sh: "ac_shift (ac_end a g, b) = (a1, b1)" by (cases "ac_shift (ac_end a g, b)")
    have loop: "ac_terminate_loop (24 - int g) (ac_end a g, b) = (1, (a1, b1))"
      using sh True by (simp add: ac_terminate_loop.simps [of 9] ac_terminate_loop.simps [of 1])
    have k: "Suc k < length (buf b)" using space g True by simp
    note f1 = ac_shift_ac_frame [OF sh, unfolded ac_frame_def]
    have "p_fw b1 < length (buf b)" using ac_shift_p_fw [OF T'(5) sh] k by simp
    from ac_shift_wr [OF T'(5) _ sh this]
    have wr1: "ac_wr a1 b1 (256 * T') 256 (Suc k)" by simp
    have "ac_low a1 = push_bit 8 (ac_low (ac_end a g)) AND 0xffffff"
      using sh by (auto simp: ac_shift_def Let_def split: if_splits)
    then have "uint (ac_low a1) = uint (ac_low (ac_end a g)) * 256 mod 16777216"
      by (simp only: shift8_24)
    moreover have "65536 dvd uint (ac_low (ac_end a g)) * 256 mod 16777216"
    proof (rule dvd_mod)
      obtain q where "uint (ac_low (ac_end a g)) = 2 ^ g * q" using T'(4) ..
      then show "65536 dvd uint (ac_low (ac_end a g)) * 256" by (simp add: True)
    qed simp
    ultimately have d: "65536 dvd uint (ac_low a1)" by simp
    have d': "2 ^ nat (24 - 1) dvd 256 * T'"
    proof -
      obtain q where "T' = 2 ^ g * q" using T'(3) ..
      then show ?thesis by (simp add: True)
    qed
    have top': "256 * T' + 2 ^ nat (24 - 1) \<le> 256 ^ Suc k * 16777215"
      using top by (simp add: True)
    obtain a' b' where fin: "ac_finish 1 (a1, b1) = (a', b')"
      and fr: "p_bw b' = p_bw b1" "length (buf b') = length (buf b1)" "p_fw b' = Suc k"
      "\<And>i. Suc k < i \<Longrightarrow> byte_at (buf b') i = byte_at (buf b1) i"
      "byte_at (buf b') (Suc k) mod 2 ^ 7 = byte_at (buf b1) (Suc k) mod 2 ^ 7"
      and v: "be_val (buf b') (Suc (Suc k)) * 65536 div 2 ^ 23 * 2 ^ 23 = 256 * T'"
      using ac_finish_spec [OF wr1 _ _ d _ _ d' top'] k f1 by auto
    have out: "byte_at (buf b1) i = byte_at (buf b) i" if "Suc k \<le> i" for i
      using f1 that ac_shift_p_fw [OF T'(5) sh] by (auto simp: byte_at_def)
    let ?B = "be_val (buf b') (k + 3)" and ?C = "be_val (buf b') (Suc (Suc k))"
    have "k + 3 = Suc (Suc (Suc k))" by simp
    then have "?B = 256 * ?C + byte_at (buf b') (Suc (Suc k))" by (simp only: be_val.simps)
    then have BC: "?C * 256 \<le> ?B" "?B < ?C * 256 + 256"
      using byte_at_bounds [of "buf b'" "Suc (Suc k)"] by linarith+
    have "0 \<le> ?C * 65536 mod 2 ^ 23" "?C * 65536 mod 2 ^ 23 < 2 ^ 23" by simp_all
    then have "256 * T' \<le> ?C * 65536" "?C * 65536 < 256 * T' + 2 ^ 23"
      using div_mult_mod_eq [of "?C * 65536" "2 ^ 23"] v by linarith+
    then have "T' \<le> ?C * 256" "?C * 256 < T' + 32768" by simp_all
    moreover obtain q where "T' = 2 ^ g * q" using T'(3) ..
    ultimately have "T' \<le> ?C * 256" "?C < 128 * q + 128" by (simp_all add: True)
    then have B: "T' \<le> ?B" "?B < T' + 2 ^ g"
      using BC \<open>T' = 2 ^ g * q\<close> by (simp_all add: True)
    show thesis
    proof (rule that [of a' b'])
      show "ac_terminate a b = (a', b')" by (simp add: ac_terminate_finish val loop fin)
      show "T \<le> ?B" "?B < T + R" using B T' by simp_all
      have "le_val (buf b') (length (buf b)) mod 2 ^ L = le_val (buf b) (length (buf b)) mod 2 ^ L"
        by (rule le_val_keep [where k = "Suc k" and h = 7]) (use fr f1 k out space g True in auto)
      then show "le_val (buf b') (length (buf b)) mod 2 ^ L = le_val (buf b) (length (buf b)) mod 2 ^ L" .
    qed (use fr f1 in simp_all)
  qed
qed


end
