(* ===== verification/BitPlain.thy ===== *)
theory BitPlain
  imports Bits
begin

unbundle bit_operations_syntax

text \<open>
  The plain bits, written and read from the end of the buffer. \<open>pl_wr u b P L\<close>: the \<open>L\<close>
  bits written so far are the number \<open>P\<close>, the low bytes of it in the buffer and the
  rest in the accumulator.
\<close>

lemma int_div_less:
  fixes P :: int
  assumes "P < x * c" "0 < c"
  shows "P div c < x"
proof (rule ccontr)
  assume "\<not> P div c < x"
  then have "x * c \<le> P div c * c" using assms(2) by (intro mult_right_mono) simp_all
  moreover have "P div c * c \<le> P" using div_mult_mod_eq [of P c] pos_mod_sign [OF assms(2), of P] by linarith
  ultimately show False using assms(1) by linarith
qed

definition pl_wr :: "lc3_bits_accu \<Rightarrow> lc3_bits_buffer \<Rightarrow> int \<Rightarrow> nat \<Rightarrow> bool" where
  "pl_wr u b P L \<longleftrightarrow> accu_nover u = 0 \<and> 0 \<le> accu_n u \<and> accu_n u \<le> 32 \<and> p_bw b \<le> length (buf b) \<and>
     L = 8 * (length (buf b) - p_bw b) + nat (accu_n u) \<and> 0 \<le> P \<and> P < 2 ^ L \<and>
     le_val (buf b) (length (buf b) - p_bw b) = P mod 256 ^ (length (buf b) - p_bw b) \<and>
     uint (accu_v u) = P div 256 ^ (length (buf b) - p_bw b)"

lemma pl_wrD:
  assumes "pl_wr u b P L"
  shows "accu_nover u = 0" "0 \<le> accu_n u" "accu_n u \<le> 32" "p_bw b \<le> length (buf b)"
    and "L = 8 * (length (buf b) - p_bw b) + nat (accu_n u)" "0 \<le> P" "P < 2 ^ L"
    and "le_val (buf b) (length (buf b) - p_bw b) = P mod 256 ^ (length (buf b) - p_bw b)"
    and "uint (accu_v u) = P div 256 ^ (length (buf b) - p_bw b)"
  using assms unfolding pl_wr_def by blast+

lemma le_val_update:
  assumes "p < length xs" and "w = length xs - 1 - p"
  shows "le_val (xs[p := v]) (Suc w) = le_val xs w + uint v * 256 ^ w"
    and "le_val (xs[p := v]) w = le_val xs w"
proof -
  have "p = length xs - 1 - w" "w < length xs" using assms by simp_all
  then have "rbyte_at (xs[p := v]) w = uint v" "j < w \<Longrightarrow> rbyte_at (xs[p := v]) j = rbyte_at xs j" for j
    by (auto simp: rbyte_at_def nth_list_update)
  then show "le_val (xs[p := v]) w = le_val xs w" by (intro le_val_cong) auto
  with \<open>rbyte_at (xs[p := v]) w = uint v\<close>
  show "le_val (xs[p := v]) (Suc w) = le_val xs w + uint v * 256 ^ w" by simp
qed

lemma uint_ucast8: "uint (ucast (v AND 0xff :: u32) :: u8) = uint v mod 256"
proof -
  have "uint (ucast (v AND 0xff :: u32) :: u8) = uint (v AND 0xff) mod 256"
    by (simp add: unsigned_ucast_eq take_bit_eq_mod)
  then show ?thesis by (simp only: and_8) simp
qed

lemma accu_flush_loop_spec:
  assumes "accu_flush_loop n v b = (v', b')" and "n \<le> p_bw b" and "p_bw b \<le> length (buf b)"
  defines "w \<equiv> length (buf b) - p_bw b"
  shows "p_bw b' = p_bw b - n \<and> p_fw b' = p_fw b \<and> length (buf b') = length (buf b) \<and>
    (\<forall>i. i < p_bw b - n \<or> p_bw b \<le> i \<longrightarrow> buf b' ! i = buf b ! i) \<and>
    le_val (buf b') (w + n) = le_val (buf b) w + uint v mod 256 ^ n * 256 ^ w \<and>
    uint v' = uint v div 256 ^ n"
  using assms(1-3) unfolding w_def
proof (induction n arbitrary: v b)
  case (Suc n)
  let ?p = "p_bw b - 1" and ?w = "length (buf b) - p_bw b"
  let ?b = "b\<lparr>p_bw := p_bw b - 1, buf := (buf b)[?p := ucast (v AND 0xff)]\<rparr>"
  have p: "?p < length (buf b)" "?w = length (buf b) - 1 - ?p" using Suc.prems by simp_all
  have loop: "accu_flush_loop n (drop_bit 8 v) ?b = (v', b')" using Suc.prems(1) by simp
  have IH: "p_bw b' = p_bw ?b - n \<and> p_fw b' = p_fw ?b \<and> length (buf b') = length (buf ?b) \<and>
    (\<forall>i. i < p_bw ?b - n \<or> p_bw ?b \<le> i \<longrightarrow> buf b' ! i = buf ?b ! i) \<and>
    le_val (buf b') (length (buf ?b) - p_bw ?b + n) = le_val (buf ?b) (length (buf ?b) - p_bw ?b)
      + uint (drop_bit 8 v) mod 256 ^ n * 256 ^ (length (buf ?b) - p_bw ?b) \<and>
    uint v' = uint (drop_bit 8 v) div 256 ^ n"
    by (rule Suc.IH [OF loop]) (use Suc.prems in simp_all)
  have w: "length (buf ?b) - p_bw ?b = Suc ?w" using Suc.prems by simp
  have d: "uint (drop_bit 8 v) = uint v div 256" by (simp add: uint_drop_bit32)
  have le: "le_val (buf ?b) (Suc ?w) = le_val (buf b) ?w + uint v mod 256 * 256 ^ ?w"
    using le_val_update(1) [OF p, of "ucast (v AND 0xff)"] by (simp only: uint_ucast8) simp
  have m: "uint v mod 256 ^ Suc n = uint v mod 256 + 256 * (uint v div 256 mod 256 ^ n)"
    by (simp add: zmod_zmult2_eq)
  show ?case
  proof (intro conjI)
    show "le_val (buf b') (?w + Suc n) = le_val (buf b) ?w + uint v mod 256 ^ Suc n * 256 ^ ?w"
      using IH unfolding w le d m by (simp add: algebra_simps del: le_val.simps)
    show "uint v' = uint v div 256 ^ Suc n" using IH unfolding d by (simp add: zdiv_zmult2_eq)
    show "\<forall>i. i < p_bw b - Suc n \<or> p_bw b \<le> i \<longrightarrow> buf b' ! i = buf b ! i"
      using IH Suc.prems by (auto simp: nth_list_update)
  qed (use IH in simp_all)
qed auto

lemma pl_flush_number:
  fixes P :: int
  shows "P mod 256 ^ w + P div 256 ^ w mod 256 ^ n * 256 ^ w = P mod 256 ^ (w + n)"
    and "P div 256 ^ w div 256 ^ n = P div 256 ^ (w + n)"
  by (simp_all add: power_add zmod_zmult2_eq zdiv_zmult2_eq)

text \<open>The two sides of the buffer meet: there is no byte left between them.\<close>

definition meets :: "lc3_bits_buffer \<Rightarrow> bool" where
  "meets b \<longleftrightarrow> p_bw b \<le> p_fw b"

text \<open>
  Flushing the accumulator: it stays on the number, or the two sides of the buffer meet.
\<close>

lemma accu_flush_frame:
  assumes fl: "accu_flush u b = (u', b')" and n: "0 \<le> accu_n u" "p_bw b \<le> length (buf b)"
  shows "p_fw b' = p_fw b" "length (buf b') = length (buf b)" "p_bw b' \<le> p_bw b"
    "accu_nover u' = accu_nover u" "0 \<le> accu_n u'" "accu_n u' \<le> accu_n u"
    "\<And>i. i < p_bw b' \<or> p_bw b \<le> i \<Longrightarrow> buf b' ! i = buf b ! i"
    "p_fw b < p_bw b \<Longrightarrow> p_fw b \<le> p_bw b'"
    "p_bw b \<le> p_fw b \<Longrightarrow> b' = b"
    "accu_n u < 8 \<Longrightarrow> accu_n u' = accu_n u"
    "int (p_bw b) - int (p_fw b) < accu_n u div 8 \<Longrightarrow> meets b'"
    "accu_n u div 8 \<le> int (p_bw b) - int (p_fw b) \<Longrightarrow>
       int (p_bw b') = int (p_bw b) - accu_n u div 8"
proof -
  let ?nb = "min (drop_bit 3 (accu_n u)) (max (int (p_bw b) - int (p_fw b)) 0)"
  have d: "drop_bit 3 (accu_n u) = accu_n u div 8" "0 \<le> accu_n u div 8" "8 * (accu_n u div 8) \<le> accu_n u"
    using n by (simp_all add: drop_bit_eq_div pos_imp_zdiv_nonneg_iff)
  obtain v' where lp: "accu_flush_loop (nat ?nb) (accu_v u) b = (v', b')"
    and u': "u' = u\<lparr>accu_v := v', accu_n := (if accu_n u - 8 * ?nb \<ge> 8 then 0 else accu_n u - 8 * ?nb)\<rparr>"
    using fl by (auto simp: accu_flush_def Let_def split: prod.splits)
  have nb: "nat ?nb \<le> p_bw b" by simp
  note sp = accu_flush_loop_spec [OF lp nb n(2)]
  show "p_fw b' = p_fw b" "length (buf b') = length (buf b)" "p_bw b' \<le> p_bw b"
    "\<And>i. i < p_bw b' \<or> p_bw b \<le> i \<Longrightarrow> buf b' ! i = buf b ! i"
    using sp by auto
  show "p_fw b < p_bw b \<Longrightarrow> p_fw b \<le> p_bw b'" using sp by simp
  show "accu_nover u' = accu_nover u" by (simp add: u')
  show "meets b'" if "int (p_bw b) - int (p_fw b) < accu_n u div 8"
  proof -
    have "nat ?nb = p_bw b - p_fw b" using that unfolding d(1) by (auto simp: min_def max_def nat_diff_distrib)
    then show ?thesis using sp by (simp add: meets_def)
  qed
  show "int (p_bw b') = int (p_bw b) - accu_n u div 8"
    if "accu_n u div 8 \<le> int (p_bw b) - int (p_fw b)"
  proof -
    have "?nb = accu_n u div 8" using that unfolding d(1) using d(2) by simp
    then show ?thesis using sp d(2) that by simp
  qed
  show "b' = b" if "p_bw b \<le> p_fw b" using lp that d(1,2) by simp
  have "8 * ?nb \<le> accu_n u" "0 \<le> ?nb" unfolding d(1) using d(2,3) by (auto simp: min_def max_def)
  then show "0 \<le> accu_n u'" "accu_n u' \<le> accu_n u" using n by (auto simp: u' simp del: min_less_iff_conj)
  show "accu_n u' = accu_n u" if "accu_n u < 8"
  proof -
    have "accu_n u div 8 = 0" using that n by (simp add: div_pos_pos_trivial)
    then show ?thesis using that d(1) by (simp add: u')
  qed
qed


text \<open>
  A flush that finds room keeps the number; one that does not brings \<^verbatim>\<open>p_bw\<close> to
  \<^verbatim>\<open>p_fw\<close>. The plain part \<open>pl_wr\<close> is stated for the accumulator while it holds at most
  its 32 bits.
\<close>

lemma accu_flush_wr:
  assumes wr: "pl_wr u b P L" and fl: "accu_flush u b = (u', b')"
    and room: "accu_n u div 8 \<le> int (p_bw b) - int (p_fw b)"
  shows "pl_wr u' b' P L" and "accu_n u' = accu_n u mod 8"
    and "int (p_bw b') = int (p_bw b) - accu_n u div 8"
proof -
  let ?n = "accu_n u" and ?w = "length (buf b) - p_bw b"
  note wd = pl_wrD [OF wr]
  have d: "drop_bit 3 ?n = ?n div 8" "0 \<le> ?n div 8"
    using wd by (simp_all add: drop_bit_eq_div pos_imp_zdiv_nonneg_iff)
  have nb: "min (drop_bit 3 ?n) (max (int (p_bw b) - int (p_fw b)) 0) = ?n div 8"
    using room d by simp
  obtain m where m: "?n div 8 = int m" using d(2) by (metis nonneg_int_cases)
  have dm: "?n = 8 * int m + ?n mod 8" using m div_mult_mod_eq [of ?n 8] by linarith
  have r: "0 \<le> ?n mod 8" "?n mod 8 < 8" by simp_all
  have mb: "m \<le> p_bw b" using room m by simp
  obtain v' where lp: "accu_flush_loop m (accu_v u) b = (v', b')"
    and u': "u' = u\<lparr>accu_v := v', accu_n := (if ?n - 8 * int m \<ge> 8 then 0 else ?n - 8 * int m)\<rparr>"
    using fl by (auto simp: accu_flush_def Let_def nb m split: prod.splits)
  note sp = accu_flush_loop_spec [OF lp mb wd(4)]
  have n': "accu_n u' = ?n mod 8" using dm r by (simp add: u')
  show "accu_n u' = ?n mod 8" by (rule n')
  have w': "length (buf b') - p_bw b' = ?w + m" using sp mb wd(4) by simp
  show "int (p_bw b') = int (p_bw b) - ?n div 8" using sp mb m by simp
  have "nat ?n = 8 * m + nat (?n mod 8)" using dm r by linarith
  then have L: "L = 8 * (?w + m) + nat (?n mod 8)" using wd(5) by simp
  show "pl_wr u' b' P L"
    unfolding pl_wr_def w' n'
  proof (intro conjI)
    show "?n mod 8 \<le> 32" using r by linarith
    show "p_bw b' \<le> length (buf b')" using sp wd(4) by simp
    show "P < 2 ^ L" by (rule wd(7))
    show "L = 8 * (?w + m) + nat (?n mod 8)" by (rule L)
  qed (use sp wd in \<open>simp_all add: u' pl_flush_number\<close>)
qed

text \<open>A value of \<open>n\<close> bits put: it is on top of the number, or the two sides meet.\<close>

lemma uint_or_push:
  assumes "uint (a :: u32) < 2 ^ n" "n \<le> 32"
  shows "uint (a OR push_bit n v) = uint a + (uint v * 2 ^ n) mod 4294967296"
proof -
  have "a AND push_bit n v = 0"
  proof (rule bit_word_eqI)
    fix i assume i32: "i < LENGTH(32)"
    have "i < n" if "bit a i"
    proof (rule ccontr)
      assume "\<not> i < n"
      then have "uint a < 2 ^ i"
        using assms(1) by (meson less_le_trans not_less power_increasing one_le_numeral)
      then have "\<not> bit (uint a) i"
        by (simp add: bit_iff_odd div_pos_pos_trivial)
      then show False using that i32 by (simp add: bit_uint_iff)
    qed
    then show "bit (a AND push_bit n v) i \<longleftrightarrow> bit (0 :: u32) i"
      using i32 by (auto simp: bit_simps)
  qed
  then have e: "a OR push_bit n v = a + push_bit n v" by (simp add: disjunctive_add_eq_or)
  have p: "uint (push_bit n v) = uint v * 2 ^ n mod 4294967296"
    by (simp add: uint_push_bit32)
  have "uint v * 2 ^ n mod 4294967296 \<le> 4294967296 - 2 ^ n"
  proof -
    obtain q where q: "(4294967296::int) = 2 ^ n * q"
      using le_imp_power_dvd [of n 32 "2::int"] assms(2) by (auto elim: dvdE)
    then have "uint v * 2 ^ n mod 4294967296 = 2 ^ n * (uint v mod q)"
      by (simp only: q mult.commute [of "uint v"] mod_mult_mult1)
    moreover have "0 < q" using q by (metis zero_less_mult_pos zero_less_numeral zero_less_power)
    then have "2 ^ n * (uint v mod q) \<le> 2 ^ n * (q - 1)" by (intro mult_left_mono) simp_all
    moreover have "2 ^ n * (q - 1) = 4294967296 - 2 ^ n" by (simp add: q algebra_simps)
    ultimately show ?thesis by linarith
  qed
  with assms(1) have "uint a + uint (push_bit n v) < 4294967296" unfolding p by linarith
  from uint_add32 [OF this] show ?thesis unfolding e p .
qed


lemma lc3_put_bits_frame:
  assumes n: "0 \<le> accu_n (accu bits)" "accu_n (accu bits) \<le> 32" "0 \<le> n" "n \<le> 32"
    and p: "p_bw (buffer bits) \<le> length (buf (buffer bits))"
  obtains u' b' where "lc3_put_bits bits v n = bits\<lparr>accu := u', buffer := b'\<rparr>"
    and "0 \<le> accu_n u'" "accu_n u' \<le> 32" "accu_nover u' = accu_nover (accu bits)"
    and "p_fw b' = p_fw (buffer bits)" "length (buf b') = length (buf (buffer bits))"
    and "p_bw b' \<le> p_bw (buffer bits)"
    and "\<And>i. i < p_bw b' \<Longrightarrow> buf b' ! i = buf (buffer bits) ! i"
    and "meets (buffer bits) \<Longrightarrow> meets b'"
    and "accu_n (accu bits) + n \<le> 8 * (int (p_bw (buffer bits)) - int (p_fw (buffer bits))) \<Longrightarrow>
      \<not> meets (buffer bits) \<Longrightarrow> \<not> meets b'"
proof (cases "accu_n (accu bits) + n \<le> 32")
  case True
  then show thesis
    using n p by (intro that [of "buffer bits" "(accu bits)\<lparr>accu_v := accu_v (accu bits)
      OR push_bit (nat (accu_n (accu bits))) v, accu_n := accu_n (accu bits) + n\<rparr>"])
      (simp_all add: lc3_put_bits_def LC3_ACCU_BITS_def Let_def)
next
  case False
  define n1 where "n1 = LC3_MIN (32 - accu_n (accu bits)) n"
  define u1 where "u1 = (if n1 \<noteq> 0 then (accu bits)\<lparr>accu_v := accu_v (accu bits)
      OR push_bit (nat (accu_n (accu bits))) v, accu_n := 32\<rparr> else accu bits)"
  obtain u2 b2 where fl: "accu_flush u1 (buffer bits) = (u2, b2)" by (cases "accu_flush u1 (buffer bits)")
  have u1: "0 \<le> accu_n u1" "accu_nover u1 = accu_nover (accu bits)" using n by (simp_all add: u1_def)
  note fr = accu_flush_frame [OF fl u1(1) p]
  show thesis
  proof (rule that)
    show "lc3_put_bits bits v n = bits\<lparr>accu := u2\<lparr>accu_v := drop_bit (nat n1) v, accu_n := n - n1\<rparr>, buffer := b2\<rparr>"
      unfolding lc3_put_bits_def lc3_put_bits_generic_def Let_def LC3_ACCU_BITS_def
        n1_def [symmetric] u1_def [symmetric] fl using False by simp
    show "meets b2" if "meets (buffer bits)" using fr(9) that by (simp add: meets_def)
    show "\<not> meets b2"
      if "accu_n (accu bits) + n \<le> 8 * (int (p_bw (buffer bits)) - int (p_fw (buffer bits)))"
    proof -
      have "accu_n u1 = 32" using False n by (auto simp: u1_def n1_def)
      moreover have "4 < int (p_bw (buffer bits)) - int (p_fw (buffer bits))" using that False by simp
      ultimately show ?thesis using fr(1,12) by (simp add: meets_def)
    qed
  qed (use fr n u1 in \<open>simp_all add: n1_def\<close>)
qed

lemma lc3_put_bits_wr:
  assumes wr: "pl_wr (accu bits) (buffer bits) P L"
    and v: "uint v < 2 ^ n" and n: "n \<le> 32"
    and put: "lc3_put_bits bits v (int n) = bits\<lparr>accu := u', buffer := b'\<rparr>"
  shows "meets b' \<or> pl_wr u' b' (P + uint v * 2 ^ L) (L + n)"
proof -
  let ?u = "accu bits" and ?b = "buffer bits"
  define n0 where "n0 = nat (accu_n ?u)"
  define w where "w = length (buf ?b) - p_bw ?b"
  note wd = pl_wrD [OF wr]
  have n0: "accu_n ?u = int n0" "n0 \<le> 32" using wd by (simp_all add: n0_def)
  have L: "L = 8 * w + n0" using wd(5) by (simp add: w_def n0_def)
  have p2: "(2::int) ^ L = 256 ^ w * 2 ^ n0" by (simp add: L power_add power_mult)
  have a: "uint (accu_v ?u) = P div 256 ^ w" using wd(9) by (simp add: w_def)
  have "P < 2 ^ n0 * 256 ^ w" using wd(7) unfolding p2 by (simp only: mult.commute)
  then have a2: "uint (accu_v ?u) < 2 ^ n0" unfolding a by (intro int_div_less) simp_all
  note or = uint_or_push [OF a2 n0(2)]
  have add: "(P + x * 2 ^ L) mod 256 ^ w = P mod 256 ^ w"
    "(P + x * 2 ^ L) div 256 ^ w = uint (accu_v ?u) + x * 2 ^ n0" for x
  proof -
    have e: "x * 2 ^ L = (x * 2 ^ n0) * 256 ^ w" unfolding p2 by (simp only: ac_simps)
    show "(P + x * 2 ^ L) mod 256 ^ w = P mod 256 ^ w" unfolding e by (rule mod_mult_self1)
    show "(P + x * 2 ^ L) div 256 ^ w = uint (accu_v ?u) + x * 2 ^ n0"
      unfolding e a by (simp add: div_mult_self1)
  qed
  have bound: "0 \<le> P + x * 2 ^ L \<and> P + x * 2 ^ L < 2 ^ (L + m)" if "0 \<le> x" "x < 2 ^ m" for x m
  proof
    show "0 \<le> P + x * 2 ^ L" using wd(6) that by simp
    have "(x + 1) * 2 ^ L \<le> 2 ^ m * 2 ^ L" using that by (intro mult_right_mono) simp_all
    then show "P + x * 2 ^ L < 2 ^ (L + m)"
      using wd(7) unfolding power_add distrib_right by (simp add: mult.commute)
  qed
  show ?thesis
  proof (cases "n0 + n \<le> 32")
    case True
    have "uint v * 2 ^ n0 < 2 ^ n * 2 ^ n0" using v by simp
    also have "\<dots> = (2::int) ^ (n0 + n)" by (simp add: power_add)
    also have "\<dots> \<le> 2 ^ 32" using True by (intro power_increasing) simp_all
    finally have sm: "uint v * 2 ^ n0 mod 4294967296 = uint v * 2 ^ n0" by simp
    have "lc3_put_bits bits v (int n) = bits\<lparr>accu := ?u\<lparr>accu_v := accu_v ?u OR push_bit n0 v,
        accu_n := int (n0 + n)\<rparr>\<rparr>"
      using True by (simp add: lc3_put_bits_def LC3_ACCU_BITS_def n0 Let_def)
    then have "u' = ?u\<lparr>accu_v := accu_v ?u OR push_bit n0 v, accu_n := int (n0 + n)\<rparr>" "b' = ?b"
      using put by (metis lc3_bits.select_convs(3,4) lc3_bits.update_convs(3,4) lc3_bits.surjective)+
    then have e: "accu_nover u' = accu_nover ?u" "accu_n u' = int (n0 + n)"
      "accu_v u' = accu_v ?u OR push_bit n0 v" "b' = ?b" by simp_all
    have "pl_wr u' b' (P + uint v * 2 ^ L) (L + n)"
      unfolding pl_wr_def e w_def [symmetric] add or sm
    proof (intro conjI)
      show "le_val (buf ?b) w = P mod 256 ^ w" using wd(8) by (simp only: w_def)
    qed (use wd(1,4) bound [OF _ v] True L in simp_all)
    then show ?thesis ..
  next
    case False
    then have n1: "LC3_MIN (32 - accu_n ?u) (int n) = int (32 - n0)" using n0 by simp
    define u1 where "u1 = (if int (32 - n0) \<noteq> 0 then ?u\<lparr>accu_v := accu_v ?u OR push_bit n0 v,
      accu_n := 32\<rparr> else ?u)"
    obtain u2 b2 where fl: "accu_flush u1 ?b = (u2, b2)" by (cases "accu_flush u1 ?b")
    define r where "r = 32 - n0"
    have r: "n0 + r = 32" "r \<le> n" "n - r \<le> 32" using False n0 n by (simp_all add: r_def)
    have "lc3_put_bits bits v (int n) = bits\<lparr>accu := u2\<lparr>accu_v := drop_bit r v,
        accu_n := int n - int r\<rparr>, buffer := b2\<rparr>"
      using False n1 unfolding lc3_put_bits_def lc3_put_bits_generic_def LC3_ACCU_BITS_def Let_def
        n0(1) n1 [unfolded n0(1)] nat_int u1_def [symmetric] fl
      unfolding r_def [symmetric] by simp
    then have u': "u' = u2\<lparr>accu_v := drop_bit r v, accu_n := int n - int r\<rparr>" and b': "b' = b2"
      using put by (metis lc3_bits.select_convs(3,4) lc3_bits.update_convs(3,4) lc3_bits.surjective)+
    have p32: "(2::int) ^ n0 * 2 ^ r = 4294967296" using r(1) by (simp flip: power_add)
    have sm: "uint v * 2 ^ n0 mod 4294967296 = (uint v mod 2 ^ r) * 2 ^ n0"
      unfolding p32 [symmetric] mult.commute [of "uint v"] mod_mult_mult1 by (rule mult.commute)
    have u1: "accu_n u1 = 32" "accu_nover u1 = 0" "uint (accu_v u1) = uint (accu_v ?u) + (uint v mod 2 ^ r) * 2 ^ n0"
      using n0 wd(1) or sm by (auto simp: u1_def r_def)
    have "0 \<le> uint v mod 2 ^ r" "uint v mod 2 ^ r < 2 ^ r" by simp_all
    note b1 = bound [OF this]
    have wr1: "pl_wr u1 ?b (P + (uint v mod 2 ^ r) * 2 ^ L) (L + r)"
      unfolding pl_wr_def w_def [symmetric] u1 add using wd b1 r(1) L by (simp add: w_def)
    show ?thesis
    proof (cases "accu_n u1 div 8 \<le> int (p_bw ?b) - int (p_fw ?b)")
      case False
      then have "meets b2" using accu_flush_frame(11) [OF fl _ wd(4)] u1(1) by simp
      then show ?thesis by (simp add: b')
    next
      case True
      note fw = accu_flush_wr [OF wr1 fl True]
      note wd2 = pl_wrD [OF fw(1)]
      define w2 where "w2 = length (buf b2) - p_bw b2"
      have n2: "accu_n u2 = 0" using fw(2) u1(1) by simp
      have Lr: "L + r = 8 * w2" using wd2(5) by (simp add: n2 w2_def)
      define P1 where "P1 = P + (uint v mod 2 ^ r) * 2 ^ L"
      have split: "P + uint v * 2 ^ L = P1 + (uint v div 2 ^ r) * 256 ^ w2"
      proof -
        have "(256::int) ^ w2 = 2 ^ r * 2 ^ L"
        proof -
          have "(256::int) ^ w2 = 2 ^ (8 * w2)" by (simp add: power_mult)
          also have "\<dots> = 2 ^ (r + L)" using Lr by (simp only: add.commute)
          finally show ?thesis by (simp only: power_add)
        qed
        then have "(uint v div 2 ^ r) * 256 ^ w2 = (uint v div 2 ^ r * 2 ^ r) * 2 ^ L"
          by (simp only: mult.assoc)
        moreover have "uint v = uint v div 2 ^ r * 2 ^ r + uint v mod 2 ^ r" by (simp only: div_mult_mod_eq)
        then have "uint v * 2 ^ L = (uint v div 2 ^ r * 2 ^ r + uint v mod 2 ^ r) * 2 ^ L" by (rule arg_cong)
        ultimately show ?thesis unfolding P1_def distrib_right by linarith
      qed
      have P1: "0 \<le> P1" "P1 < 256 ^ w2" "le_val (buf b2) w2 = P1"
        using wd2(6,7,8) Lr by (simp_all add: P1_def w2_def power_mult)
      then have dm: "(P + uint v * 2 ^ L) mod 256 ^ w2 = P1"
        "(P + uint v * 2 ^ L) div 256 ^ w2 = uint v div 2 ^ r"
        unfolding split by simp_all
      have "pl_wr u' b' (P + uint v * 2 ^ L) (L + n)"
        unfolding pl_wr_def u' b' w2_def [symmetric] dm
      proof (intro conjI)
        show "L + n = 8 * w2 + nat (accu_n (u2\<lparr>accu_v := drop_bit r v, accu_n := int n - int r\<rparr>))"
          using Lr r by simp
        show "uint (accu_v (u2\<lparr>accu_v := drop_bit r v, accu_n := int n - int r\<rparr>)) = uint v div 2 ^ r"
          by (simp add: uint_drop_bit32)
      qed (use wd2 P1 r bound [OF _ v] in simp_all)
      then show ?thesis ..
    qed
  qed
qed


end
