(* ===== verification/BitEncode.thy ===== *)
theory BitEncode
  imports BitTerm BitPlain
begin

unbundle bit_operations_syntax

text \<open>
  What a component writes is a list of operations on the bitstream: \<open>Bits v n\<close> is
  \<^verbatim>\<open>lc3_put_bits(bits, v, n)\<close>, \<open>Sym m s\<close> is \<^verbatim>\<open>lc3_put_symbol(bits, m, s)\<close>.
\<close>

datatype bit_op = Bits u32 nat | Sym lc3_ac_model nat

fun wr_op :: "bit_op \<Rightarrow> lc3_bits \<Rightarrow> lc3_bits option" where
  "wr_op (Bits v n) bits = Some (lc3_put_bits bits v (int n))"
| "wr_op (Sym m s) bits = lc3_put_symbol bits m s"

fun wr_ops :: "bit_op list \<Rightarrow> lc3_bits \<Rightarrow> lc3_bits option" where
  "wr_ops [] bits = Some bits"
| "wr_ops (x # xs) bits = Option.bind (wr_op x bits) (wr_ops xs)"

lemma wr_ops_append: "wr_ops (xs @ ys) bits = Option.bind (wr_ops xs bits) (wr_ops ys)"
  by (induction xs arbitrary: bits) (auto split: bind_split)

text \<open>An operation the code may ask for: the value fits its width, the symbol has a range.\<close>

fun op_ok :: "bit_op \<Rightarrow> bool" where
  "op_ok (Bits v n) = (n \<le> 31 \<and> uint v < 2 ^ n)"
| "op_ok (Sym m s) = ac_symbol_ok m s"

text \<open>
  The abstract state of the stream: the plain bits are the \<open>L\<close> bits of \<open>P\<close>, the
  arithmetic code is the interval \<open>[T, T + R)\<close> of numbers of \<open>k + 3\<close> bytes.
\<close>

type_synonym enc = "(int \<times> nat) \<times> (int \<times> int \<times> nat)"

fun enc_op :: "bit_op \<Rightarrow> enc \<Rightarrow> enc" where
  "enc_op (Bits v n) ((P, L), c) = ((P + uint v * 2 ^ L, L + n), c)"
| "enc_op (Sym m s) (p, c) = (p, ac_code c (uint (sym_low (m ! s))) (uint (sym_range (m ! s))))"

abbreviation enc_ops :: "bit_op list \<Rightarrow> enc \<Rightarrow> enc" where "enc_ops \<equiv> fold enc_op"

definition enc_init :: enc where "enc_init = ((0, 0), (0, 16777215, 0))"

text \<open>The bits left, from the abstract state.\<close>

fun enc_left :: "nat \<Rightarrow> enc \<Rightarrow> int" where
  "enc_left N ((P, L), (T, R, k)) = 8 * int N - int L - 8 * int k - 25 + int (range_log R)"

text \<open>The state of a writer, always; and while the two sides of the buffer are apart.\<close>

definition wr_wf :: "lc3_bits \<Rightarrow> bool" where
  "wr_wf bits \<longleftrightarrow> mode bits = LC3_BITS_MODE_WRITE \<and>
     0 \<le> accu_n (accu bits) \<and> accu_n (accu bits) \<le> 32 \<and> accu_nover (accu bits) = 0 \<and>
     0 \<le> ac_carry_count (ac bits) \<and>
     65536 \<le> uint (ac_range (ac bits)) \<and> uint (ac_range (ac bits)) < 16777216 \<and>
     p_bw (buffer bits) \<le> length (buf (buffer bits))"

fun wr_good :: "lc3_bits \<Rightarrow> enc \<Rightarrow> bool" where
  "wr_good bits ((P, L), (T, R, k)) \<longleftrightarrow>
     pl_wr (accu bits) (buffer bits) P L \<and> ac_wr (ac bits) (buffer bits) T R k \<and>
     uint (ac_range (ac bits)) = R"

lemma wr_wfD:
  assumes "wr_wf bits"
  shows "mode bits = LC3_BITS_MODE_WRITE" "0 \<le> accu_n (accu bits)" "accu_n (accu bits) \<le> 32"
    "accu_nover (accu bits) = 0" "0 \<le> ac_carry_count (ac bits)"
    "65536 \<le> uint (ac_range (ac bits))" "uint (ac_range (ac bits)) < 16777216"
    "p_bw (buffer bits) \<le> length (buf (buffer bits))"
  using assms unfolding wr_wf_def by blast+

lemma setup_write:
  "wr_wf (lc3_setup_bits LC3_BITS_MODE_WRITE mem)"
  "wr_good (lc3_setup_bits LC3_BITS_MODE_WRITE mem) enc_init"
  "buf (buffer (lc3_setup_bits LC3_BITS_MODE_WRITE mem)) = mem"
  by (simp_all add: lc3_setup_bits_def Let_def wr_wf_def enc_init_def pl_wr_def ac_wr_def
      ac_plen_def ac_pend_def)

text \<open>The plain bits do not move when the arithmetic coder writes below them.\<close>

lemma pl_wr_frame:
  assumes wr: "pl_wr u b P L" and fr: "ac_frame a b a' b'" and lt: "p_fw b' \<le> p_bw b"
  shows "pl_wr u b' P L"
proof -
  have f: "p_bw b' = p_bw b" "length (buf b') = length (buf b)"
    "\<And>i. p_fw b' \<le> i \<Longrightarrow> buf b' ! i = buf b ! i"
    using fr by (auto simp: ac_frame_def)
  have e: "le_val (buf b') (length (buf b) - p_bw b) = le_val (buf b) (length (buf b) - p_bw b)"
  proof (rule le_val_cong)
    fix j assume "j < length (buf b) - p_bw b"
    then have "p_fw b' \<le> length (buf b) - 1 - j" using lt by simp
    then show "rbyte_at (buf b') j = rbyte_at (buf b) j" by (simp add: rbyte_at_def f)
  qed
  from wr show ?thesis unfolding pl_wr_def f(1,2) e .
qed

text \<open>The arithmetic code does not move when plain bits are written above it.\<close>

lemma ac_wr_cong:
  assumes wr: "ac_wr a b T R k" and p: "p_fw b' = p_fw b" "length (buf b') = length (buf b)"
    and same: "\<And>i. i < p_fw b \<Longrightarrow> buf b' ! i = buf b ! i"
  shows "ac_wr a b' T R k"
proof -
  have "be_val (buf b') (p_fw b) = be_val (buf b) (p_fw b)"
    by (rule be_val_cong) (use ac_wrD(9) [OF wr] in \<open>simp add: byte_at_def p same\<close>)
  from wr show ?thesis unfolding ac_wr_def p \<open>be_val (buf b') (p_fw b) = be_val (buf b) (p_fw b)\<close> .
qed

lemma wr_op_Bits:
  assumes wf: "wr_wf bits" and ok: "op_ok (Bits v n)"
  obtains bits' where "wr_op (Bits v n) bits = Some bits'" "wr_wf bits'"
    "length (buf (buffer bits')) = length (buf (buffer bits))"
    "meets (buffer bits) \<Longrightarrow> meets (buffer bits')"
    "\<And>st. wr_good bits st \<Longrightarrow> meets (buffer bits') \<or> wr_good bits' (enc_op (Bits v n) st)"
proof -
  note w = wr_wfD [OF wf]
  have n: "0 \<le> int n" "int n \<le> 32" using ok by simp_all
  obtain u' b' where put: "lc3_put_bits bits v (int n) = bits\<lparr>accu := u', buffer := b'\<rparr>"
    and fr: "0 \<le> accu_n u'" "accu_n u' \<le> 32" "accu_nover u' = accu_nover (accu bits)"
    "p_fw b' = p_fw (buffer bits)" "length (buf b') = length (buf (buffer bits))"
    "p_bw b' \<le> p_bw (buffer bits)" "\<And>i. i < p_bw b' \<Longrightarrow> buf b' ! i = buf (buffer bits) ! i"
    "meets (buffer bits) \<Longrightarrow> meets b'"
    by (rule lc3_put_bits_frame [OF w(2,3) n w(8)]) blast
  show thesis
  proof (rule that)
    show "wr_op (Bits v n) bits = Some (bits\<lparr>accu := u', buffer := b'\<rparr>)" by (simp add: put)
    show "wr_wf (bits\<lparr>accu := u', buffer := b'\<rparr>)" using w fr by (simp add: wr_wf_def)
    fix st assume g: "wr_good bits st"
    obtain P L T R k where st: "st = ((P, L), (T, R, k))" by (cases st) auto
    have ap: "pl_wr (accu bits) (buffer bits) P L" and aw: "ac_wr (ac bits) (buffer bits) T R k"
      and R: "uint (ac_range (ac bits)) = R" using g by (simp_all add: st)
    have "meets b' \<or> pl_wr u' b' (P + uint v * 2 ^ L) (L + n)"
      by (rule lc3_put_bits_wr [OF ap _ _ put]) (use ok in simp_all)
    moreover have "ac_wr (ac bits) b' T R k" if "\<not> meets b'"
      by (rule ac_wr_cong [OF aw fr(4,5)]) (use that fr in \<open>simp add: meets_def\<close>)
    ultimately show "meets (buffer (bits\<lparr>accu := u', buffer := b'\<rparr>)) \<or>
        wr_good (bits\<lparr>accu := u', buffer := b'\<rparr>) (enc_op (Bits v n) st)"
      using R by (auto simp: st)
  qed (use fr in simp_all)
qed

lemma wr_op_Sym:
  assumes wf: "wr_wf bits" and ok: "op_ok (Sym m s)"
  obtains bits' where "wr_op (Sym m s) bits = Some bits'" "wr_wf bits'"
    "length (buf (buffer bits')) = length (buf (buffer bits))"
    "meets (buffer bits) \<Longrightarrow> meets (buffer bits')"
    "\<And>st. wr_good bits st \<Longrightarrow> meets (buffer bits') \<or> wr_good bits' (enc_op (Sym m s) st)"
proof -
  note w = wr_wfD [OF wf]
  have ok': "ac_symbol_ok m s" using ok by simp
  obtain a' b' where put: "lc3_put_symbol bits m s = Some (bits\<lparr>ac := a', buffer := b'\<rparr>)"
    and fr: "ac_frame (ac bits) (buffer bits) a' b'"
    and R: "65536 \<le> uint (ac_range a')" "uint (ac_range a') < 16777216"
    and step: "\<And>T k. ac_wr (ac bits) (buffer bits) T (uint (ac_range (ac bits))) k \<Longrightarrow>
      p_fw b' < length (buf (buffer bits)) \<Longrightarrow>
      (\<exists>T' k'. ac_code (T, uint (ac_range (ac bits)), k) (uint (sym_low (m ! s))) (uint (sym_range (m ! s)))
          = (T', uint (ac_range a'), k') \<and> ac_wr a' b' T' (uint (ac_range a')) k')"
    by (rule lc3_put_symbol_wr [OF ok' w(6,7)]) blast
  have f: "p_bw b' = p_bw (buffer bits)" "length (buf b') = length (buf (buffer bits))"
    "p_fw (buffer bits) \<le> p_fw b'" "0 \<le> ac_carry_count a'"
    using fr w(5) by (auto simp: ac_frame_def)
  show thesis
  proof (rule that)
    show "wr_op (Sym m s) bits = Some (bits\<lparr>ac := a', buffer := b'\<rparr>)" by (simp add: put)
    show "wr_wf (bits\<lparr>ac := a', buffer := b'\<rparr>)" using w f R by (simp add: wr_wf_def)
    show "meets (buffer bits) \<Longrightarrow> meets (buffer (bits\<lparr>ac := a', buffer := b'\<rparr>))"
      using f by (simp add: meets_def)
    fix st assume g: "wr_good bits st"
    obtain P L T R k where st: "st = ((P, L), (T, R, k))" by (cases st) auto
    have ap: "pl_wr (accu bits) (buffer bits) P L" and aw: "ac_wr (ac bits) (buffer bits) T R k"
      and R: "uint (ac_range (ac bits)) = R" using g by (simp_all add: st)
    show "meets (buffer (bits\<lparr>ac := a', buffer := b'\<rparr>)) \<or>
        wr_good (bits\<lparr>ac := a', buffer := b'\<rparr>) (enc_op (Sym m s) st)"
    proof (cases "meets b'")
      case False
      then have lt: "p_fw b' < p_bw (buffer bits)" using f by (simp add: meets_def)
      then have "p_fw b' < length (buf (buffer bits))" using w(8) by simp
      with step [of T k] aw R obtain T' k' where
        "ac_code (T, R, k) (uint (sym_low (m ! s))) (uint (sym_range (m ! s))) = (T', uint (ac_range a'), k')"
        "ac_wr a' b' T' (uint (ac_range a')) k'" by auto
      moreover have "pl_wr (accu bits) b' P L"
        by (rule pl_wr_frame [OF ap fr]) (use lt in simp)
      ultimately show ?thesis by (simp add: st)
    qed simp
  qed (use f in simp_all)
qed

lemma wr_op_step:
  assumes "wr_wf bits" and "op_ok x"
  obtains bits' where "wr_op x bits = Some bits'" "wr_wf bits'"
    "length (buf (buffer bits')) = length (buf (buffer bits))"
    "meets (buffer bits) \<Longrightarrow> meets (buffer bits')"
    "\<And>st. wr_good bits st \<Longrightarrow> meets (buffer bits') \<or> wr_good bits' (enc_op x st)"
  using assms by (cases x) (metis wr_op_Bits, metis wr_op_Sym)

text \<open>Writing never gets stuck, and stays on the abstract state until the sides meet.\<close>

lemma wr_ops_total:
  assumes "wr_wf bits" and "list_all op_ok xs"
  obtains bits' where "wr_ops xs bits = Some bits'" "wr_wf bits'"
    "length (buf (buffer bits')) = length (buf (buffer bits))"
    "meets (buffer bits) \<Longrightarrow> meets (buffer bits')"
    "\<And>st. wr_good bits st \<Longrightarrow> meets (buffer bits') \<or> wr_good bits' (enc_ops xs st)"
  using assms
proof (induction xs arbitrary: bits thesis)
  case (Cons x xs)
  obtain bits1 where 1: "wr_op x bits = Some bits1" "wr_wf bits1"
    "length (buf (buffer bits1)) = length (buf (buffer bits))"
    "meets (buffer bits) \<Longrightarrow> meets (buffer bits1)"
    "\<And>st. wr_good bits st \<Longrightarrow> meets (buffer bits1) \<or> wr_good bits1 (enc_op x st)"
    by (rule wr_op_step [of bits x]) (use Cons.prems in auto)
  obtain bits2 where 2: "wr_ops xs bits1 = Some bits2" "wr_wf bits2"
    "length (buf (buffer bits2)) = length (buf (buffer bits1))"
    "meets (buffer bits1) \<Longrightarrow> meets (buffer bits2)"
    "\<And>st. wr_good bits1 st \<Longrightarrow> meets (buffer bits2) \<or> wr_good bits2 (enc_ops xs st)"
    by (rule Cons.IH [of bits1]) (use Cons.prems 1 in auto)
  show ?case
  proof (rule Cons.prems(1))
    show "wr_ops (x # xs) bits = Some bits2" using 1(1) 2(1) by simp
    show "meets (buffer bits2) \<or> wr_good bits2 (enc_ops (x # xs) st)" if "wr_good bits st" for st
      using 1(5) [OF that]
    proof
      assume "wr_good bits1 (enc_op x st)"
      from 2(5) [OF this] show ?thesis by simp
    qed (use 2(4) in simp)
  qed (use 1 2 in auto)
qed auto

text \<open>The bits left of a writer: those of the abstract state, or none once the sides meet.\<close>

lemma wr_bits_left:
  assumes wf: "wr_wf bits" and g: "wr_good bits st" and "\<not> meets (buffer bits)"
  shows "get_bits_left bits = enc_left (length (buf (buffer bits))) st"
proof -
  obtain P L T R k where st: "st = ((P, L), (T, R, k))" by (cases st) auto
  have ap: "pl_wr (accu bits) (buffer bits) P L" and aw: "ac_wr (ac bits) (buffer bits) T R k"
    and R: "uint (ac_range (ac bits)) = R" using g by (simp_all add: st)
  note w = wr_wfD [OF wf] and p = pl_wrD [OF ap] and a = ac_wrD [OF aw]
  have "ac_get_pending_bits (ac bits) = 25 - int (range_log R) + 8 * int (ac_plen (ac bits))"
    using ac_get_range_bits_eq [OF w(6,7)] a(1) R
    by (simp add: ac_get_pending_bits_def ac_plen_def algebra_simps)
  moreover have "int L = 8 * (int (length (buf (buffer bits))) - int (p_bw (buffer bits))) + accu_n (accu bits)"
    using p by (simp add: of_nat_diff)
  ultimately show ?thesis
    using assms(3) w(1,4) a(8) by (simp add: get_bits_left_def Let_def st meets_def)
qed

lemma wr_bits_left_meets:
  assumes wf: "wr_wf bits" and "meets (buffer bits)"
  shows "get_bits_left bits < 0"
proof -
  note w = wr_wfD [OF wf]
  have "ac_get_range_bits (ac bits) \<le> 24"
    using ac_get_range_bits_eq [OF w(6,7)] range_log(4) [OF w(6,7)] by simp
  then have "2 \<le> ac_get_pending_bits (ac bits)"
    using w(5) by (simp add: ac_get_pending_bits_def)
  then show ?thesis using assms(2) w(1,2,4) by (simp add: get_bits_left_def Let_def meets_def)
qed


section \<open>The end of a stream\<close>

text \<open>
  \<open>dec_ok B st\<close>: the buffer \<open>B\<close> holds the plain bits of the state \<open>st\<close>, and a number of its
  interval.
\<close>

fun dec_ok :: "u8 list \<Rightarrow> enc \<Rightarrow> bool" where
  "dec_ok B ((P, L), (T, R, k)) \<longleftrightarrow> T \<le> be_val B (k + 3) \<and> be_val B (k + 3) < T + R \<and>
     le_val B (length B) mod 2 ^ L = P"

lemma flush_pad_spec:
  assumes "wr_wf bits" "wr_good bits ((P, L), c)" "\<not> meets (buffer bits)" "0 \<le> n"
    and "accu_n (accu bits) + n = 8 * (int (p_bw (buffer bits)) - int (p_fw (buffer bits)))"
  defines "bits' \<equiv> lc3_flush_pad n bits"
  shows "wr_wf bits' \<and> length (buf (buffer bits')) = length (buf (buffer bits)) \<and>
    \<not> meets (buffer bits') \<and>
    accu_n (accu bits') = 8 * (int (p_bw (buffer bits')) - int (p_fw (buffer bits'))) \<and>
    (\<exists>L'. L \<le> L' \<and> wr_good bits' ((P, L'), c))"
  using assms(1-5) unfolding bits'_def
proof (induction n bits arbitrary: L rule: lc3_flush_pad.induct)
  case (1 n bits)
  note w = wr_wfD [OF 1(2)]
  obtain T R k where c: "c = (T, R, k)" by (cases c)
  have ap: "pl_wr (accu bits) (buffer bits) P L" and aw: "ac_wr (ac bits) (buffer bits) T R k"
    and R: "uint (ac_range (ac bits)) = R" using 1(3) by (simp_all add: c)
  show ?case
  proof (cases "n > 0")
    case False
    then have "lc3_flush_pad n bits = bits" by (simp add: lc3_flush_pad.simps [of n])
    with False 1(2-6) show ?thesis by auto
  next
    case True
    define m where "m = nat (min n 32)"
    have m: "LC3_MIN n 32 = int m" "0 \<le> int m" "int m \<le> 32" "m \<le> 32" "int m \<le> n"
      using True by (simp_all add: m_def)
    obtain u' b' where put: "lc3_put_bits bits 0 (int m) = bits\<lparr>accu := u', buffer := b'\<rparr>"
      and fr: "0 \<le> accu_n u'" "accu_n u' \<le> 32" "accu_nover u' = accu_nover (accu bits)"
      "p_fw b' = p_fw (buffer bits)" "length (buf b') = length (buf (buffer bits))"
      "p_bw b' \<le> p_bw (buffer bits)" "\<And>i. i < p_bw b' \<Longrightarrow> buf b' ! i = buf (buffer bits) ! i"
      and room: "accu_n (accu bits) + int m \<le> 8 * (int (p_bw (buffer bits)) - int (p_fw (buffer bits))) \<Longrightarrow>
        \<not> meets (buffer bits) \<Longrightarrow> \<not> meets b'"
      by (rule lc3_put_bits_frame [OF w(2,3) m(2,3) w(8)]) blast
    let ?bits = "bits\<lparr>accu := u', buffer := b'\<rparr>"
    have nm: "\<not> meets b'" using room 1(4,6) m(5) by simp
    have pl: "pl_wr u' b' P (L + m)"
      using lc3_put_bits_wr [OF ap _ m(4) put] nm by simp
    have aw': "ac_wr (ac bits) b' T R k"
      by (rule ac_wr_cong [OF aw fr(4,5)]) (use nm fr(7) in \<open>simp add: meets_def fr(4)\<close>)
    have wf': "wr_wf ?bits" using w fr by (simp add: wr_wf_def)
    have g': "wr_good ?bits ((P, L + m), c)" using pl aw' R by (simp add: c)
    have cons: "accu_n u' - 8 * int (p_bw b') = accu_n (accu bits) + int m - 8 * int (p_bw (buffer bits))"
      using pl_wrD(5) [OF pl] pl_wrD(5) [OF ap] pl_wrD(2,4) [OF pl] pl_wrD(2,4) [OF ap] fr(5)
      by (simp add: of_nat_diff)
    have step: "lc3_flush_pad n bits = lc3_flush_pad (n - 32) ?bits"
      using True put m(1) by (simp add: lc3_flush_pad.simps [of n])
    show ?thesis
    proof (cases "n \<ge> 32")
      case ge: True
      then have m32: "int m = 32" by (simp add: m_def)
      have "accu_n (accu ?bits) + (n - 32) = 8 * (int (p_bw (buffer ?bits)) - int (p_fw (buffer ?bits)))"
        using cons 1(6) m32 fr(4) by simp
      from 1(1) [OF True, unfolded m(1) put, OF wf' g' _ _ this] ge nm fr(5)
      show ?thesis unfolding step by (auto simp del: wr_good.simps dest: add_leD1)
    next
      case False
      then have "int m = n" using True by (simp add: m_def)
      then have "accu_n u' = 8 * (int (p_bw b') - int (p_fw b'))" using cons 1(6) fr(4) by simp
      moreover have "lc3_flush_pad (n - 32) ?bits = ?bits"
        using False by (simp add: lc3_flush_pad.simps [of "n - 32"])
      ultimately show ?thesis
        unfolding step using wf' g' nm fr(5)
        by (auto simp del: wr_good.simps intro: exI [of _ "L + m"])
    qed
  qed
qed

lemma lc3_flush_spec:
  assumes wf: "wr_wf bits" and g: "wr_good bits st" and left: "0 \<le> get_bits_left bits"
  defines "B \<equiv> buf (buffer (lc3_flush_bits bits))"
  shows "length B = length (buf (buffer bits)) \<and> dec_ok B st"
proof -
  obtain P L T R k where st: "st = ((P, L), (T, R, k))" by (cases st) auto
  have ap: "pl_wr (accu bits) (buffer bits) P L" and aw: "ac_wr (ac bits) (buffer bits) T R k"
    and R: "uint (ac_range (ac bits)) = R" using g by (simp_all add: st)
  note w = wr_wfD [OF wf] and p = pl_wrD [OF ap]
  let ?N = "length (buf (buffer bits))"
  have nm: "\<not> meets (buffer bits)" using wr_bits_left_meets [OF wf] left by fastforce
  have space: "8 * int k + 25 + int L \<le> 8 * int ?N + int (range_log R)"
    using wr_bits_left [OF wf g nm] left by (simp add: st)
  define n where "n = 8 * (int (p_bw (buffer bits)) - int (p_fw (buffer bits))) - accu_n (accu bits)"
  have rl: "range_log R \<le> 23" using range_log(4) w(6,7) R by simp
  have n0: "0 \<le> n"
    using space rl p(2,4,5) ac_wrD(8) [OF aw] by (simp add: n_def of_nat_diff)
  define bits1 where "bits1 = lc3_flush_pad n bits"
  have pad: "wr_wf bits1" "length (buf (buffer bits1)) = ?N" "\<not> meets (buffer bits1)"
    "accu_n (accu bits1) = 8 * (int (p_bw (buffer bits1)) - int (p_fw (buffer bits1)))"
    "\<exists>L'. L \<le> L' \<and> wr_good bits1 ((P, L'), (T, R, k))"
    using flush_pad_spec [OF wf g [unfolded st] nm n0] by (simp_all add: n_def bits1_def)
  obtain L' where L': "L \<le> L'" "wr_good bits1 ((P, L'), (T, R, k))" using pad(5) by blast
  obtain u2 b2 where fl: "accu_flush (accu bits1) (buffer bits1) = (u2, b2)"
    by (cases "accu_flush (accu bits1) (buffer bits1)")
  have pl1: "pl_wr (accu bits1) (buffer bits1) P L'" and aw1: "ac_wr (ac bits1) (buffer bits1) T R k"
    and R1: "uint (ac_range (ac bits1)) = R" using L'(2) by simp_all
  note w1 = wr_wfD [OF pad(1)]
  have d8: "accu_n (accu bits1) div 8 = int (p_bw (buffer bits1)) - int (p_fw (buffer bits1))"
    using pad(4) by simp
  note fw = accu_flush_wr [OF pl1 fl, unfolded d8, OF order_refl]
  note fr = accu_flush_frame [OF fl w1(2,8)]
  have pb: "p_bw b2 = p_fw b2" using fw(3) fr(1) by simp
  have aw2: "ac_wr (ac bits1) b2 T R k"
    by (rule ac_wr_cong [OF aw1 fr(1,2)]) (use fr(7) pb fr(1) in simp)
  have "8 * k + 25 + L \<le> 8 * length (buf b2) + range_log R" using space fr(2) pad(2) by simp
  then obtain a3 b3 where tm: "ac_terminate (ac bits1) b2 = (a3, b3)"
    and b3: "length (buf b3) = length (buf b2)" "T \<le> be_val (buf b3) (k + 3)" "be_val (buf b3) (k + 3) < T + R"
    "le_val (buf b3) (length (buf b2)) mod 2 ^ L = le_val (buf b2) (length (buf b2)) mod 2 ^ L"
    using ac_terminate_spec [OF aw2 R1] w1(6) R1 by metis
  have B: "B = buf b3"
    unfolding B_def lc3_flush_bits_def Let_def n_def [symmetric] bits1_def [symmetric] fl
    by (simp add: tm)
  have N: "length (buf b2) = ?N" using fr(2) pad(2) by simp
  define v where "v = length (buf b2) - p_bw b2"
  note p2 = pl_wrD [OF fw(1)]
  have "accu_n u2 = 0" using fw(2) pad(4) by simp
  then have Lv: "L' = 8 * v" using p2(5) by (simp add: v_def)
  have Pv: "le_val (buf b2) v = P"
    using p2(6,7,8) by (simp add: Lv power_mult v_def [symmetric])
  have d: "(2::int) ^ L dvd 256 ^ v"
    using le_imp_power_dvd [of L "8 * v" "2::int"] L'(1) Lv by (simp add: power_mult)
  have "le_val (buf b2) (length (buf b2)) mod 2 ^ L = le_val (buf b2) (length (buf b2)) mod 256 ^ v mod 2 ^ L"
    by (rule mod_mod_cancel [OF d, symmetric])
  also have "\<dots> = P mod 2 ^ L" by (subst le_val_mod) (simp_all add: v_def [symmetric] Pv, simp add: v_def)
  also have "\<dots> = P" using p(6,7) by simp
  finally show ?thesis using b3 N unfolding B by (simp add: st)
qed

end
