(* ===== verification/BitReader.thy ===== *)
theory BitReader
  imports BitEncode
begin

unbundle bit_operations_syntax

text \<open>
  The plain bits read: \<open>rd_pl u b B L\<close> says that \<open>L\<close> bits of the number at the end of
  \<open>B\<close> have been read, and that the accumulator holds the next ones.
\<close>

definition rd_pl :: "lc3_bits_accu \<Rightarrow> lc3_bits_buffer \<Rightarrow> u8 list \<Rightarrow> nat \<Rightarrow> bool" where
  "rd_pl u b B L \<longleftrightarrow> buf b = B \<and> p_bw b \<le> length B \<and> 0 \<le> accu_n u \<and> accu_n u \<le> 32 \<and>
     0 \<le> accu_nover u \<and> (accu_nover u = 0 \<or> p_bw b = 0) \<and> L \<le> 8 * length B \<and>
     int L = 8 * (int (length B) - int (p_bw b)) - 32 + accu_n u + accu_nover u \<and>
     uint (accu_v u) div 2 ^ nat (accu_n u)
       = le_val B (length B) div 2 ^ L mod 2 ^ nat (32 - accu_n u)"

lemma rd_plD:
  assumes "rd_pl u b B L"
  shows "buf b = B" "p_bw b \<le> length B" "0 \<le> accu_n u" "accu_n u \<le> 32" "0 \<le> accu_nover u"
    and "accu_nover u = 0 \<or> p_bw b = 0" "L \<le> 8 * length B"
    and "int L = 8 * (int (length B) - int (p_bw b)) - 32 + accu_n u + accu_nover u"
    and "uint (accu_v u) div 2 ^ nat (accu_n u)
       = le_val B (length B) div 2 ^ L mod 2 ^ nat (32 - accu_n u)"
  using assms unfolding rd_pl_def by - (elim conjE, assumption)+

lemma le_val_window:
  "w + n \<le> m \<Longrightarrow> le_val xs m div 256 ^ w mod 256 ^ n = le_val xs (w + n) div 256 ^ w"
proof -
  assume le: "w + n \<le> m"
  have "le_val xs (w + n) = le_val xs m mod 256 ^ (w + n)" using le_val_mod [OF le] by simp
  also have "\<dots> = 256 ^ w * (le_val xs m div 256 ^ w mod 256 ^ n) + le_val xs m mod 256 ^ w"
    by (simp add: power_add zmod_zmult2_eq)
  finally have e: "le_val xs (w + n) = le_val xs m div 256 ^ w mod 256 ^ n * 256 ^ w + le_val xs m mod 256 ^ w"
    by (simp only: mult.commute)
  show ?thesis unfolding e by simp
qed

lemma le_val_Suc_div:
  "le_val xs (Suc (w + n)) div 256 ^ w = rbyte_at xs w + 256 * (le_val xs (Suc w + n) div 256 ^ Suc w)"
proof -
  have m: "le_val xs (Suc w + n) mod 256 ^ Suc w = le_val xs (Suc w)" by (rule le_val_mod) simp
  have "le_val xs (Suc w + n) = le_val xs (Suc w + n) div 256 ^ Suc w * 256 ^ Suc w + le_val xs (Suc w)"
    unfolding m [symmetric] by (simp only: div_mult_mod_eq)
  also have "\<dots> = (rbyte_at xs w + 256 * (le_val xs (Suc w + n) div 256 ^ Suc w)) * 256 ^ w + le_val xs w"
    by (simp add: algebra_simps)
  finally have "le_val xs (Suc w + n) div 256 ^ w
      = rbyte_at xs w + 256 * (le_val xs (Suc w + n) div 256 ^ Suc w) + le_val xs w div 256 ^ w"
    by (metis add.commute div_mult_self1 power_not_zero zero_neq_numeral)
  then show ?thesis using le_val_less [of xs w] by (simp add: div_pos_pos_trivial)
qed

lemma accu_load_loop_spec:
  assumes "n \<le> 4" "n \<le> p_bw b" "p_bw b \<le> length (buf b)"
  defines "w \<equiv> length (buf b) - p_bw b"
  shows "\<exists>v'. accu_load_loop n v b = (v', b\<lparr>p_bw := p_bw b - n\<rparr>) \<and>
    uint v' = uint v div 256 ^ n + le_val (buf b) (w + n) div 256 ^ w * 2 ^ (32 - 8 * n)"
  using assms(1-3) unfolding w_def
proof (induction n arbitrary: v b)
  case 0
  then show ?case by (simp add: div_pos_pos_trivial le_val_less)
next
  case (Suc n)
  let ?w = "length (buf b) - p_bw b"
  let ?v = "drop_bit 8 v OR push_bit (nat (LC3_ACCU_BITS - 8)) (ucast (buf b ! (p_bw b - 1)))"
  let ?b = "b\<lparr>p_bw := p_bw b - 1\<rparr>"
  define y where "y = rbyte_at (buf b) ?w"
  have y: "uint (buf b ! (p_bw b - 1)) = y" "0 \<le> y" "y < 256"
  proof -
    have "?w < length (buf b)" "length (buf b) - 1 - ?w = p_bw b - 1" using Suc.prems by simp_all
    then show "uint (buf b ! (p_bw b - 1)) = y" unfolding y_def rbyte_at_def by simp
    show "0 \<le> y" "y < 256" by (simp_all only: y_def rbyte_at_bounds)
  qed
  have uc: "uint (ucast (buf b ! (p_bw b - 1)) :: u32) = y"
  proof -
    have "uint (ucast (buf b ! (p_bw b - 1)) :: u32) = uint (buf b ! (p_bw b - 1)) mod 4294967296"
      by (simp add: unsigned_ucast_eq take_bit_eq_mod)
    then show ?thesis using y by simp
  qed
  have d: "uint (drop_bit 8 v) < 2 ^ 24"
    using uint_bound32(2) [of v] by (simp add: uint_drop_bit32)
  have v1: "uint ?v = uint v div 256 + y * 2 ^ 24"
    using uint_or_push [OF d, of "ucast (buf b ! (p_bw b - 1))", unfolded uc] y(2,3)
    by (simp add: LC3_ACCU_BITS_def uint_drop_bit32)
  have n3: "n \<le> 3" using Suc.prems(1) by simp
  have sp: "(2::int) ^ 24 = 2 ^ (24 - 8 * n) * 256 ^ n"
  proof -
    have "(256::int) ^ n = 2 ^ (8 * n)" by (simp add: power_mult)
    then show ?thesis using n3 by (simp flip: power_add)
  qed
  have v2: "uint ?v div 256 ^ n = uint v div 256 ^ Suc n + y * 2 ^ (24 - 8 * n)"
    unfolding v1 sp by (simp add: mult.assoc [symmetric] zdiv_zmult2_eq)
  obtain v' where IH: "accu_load_loop n ?v ?b = (v', ?b\<lparr>p_bw := p_bw ?b - n\<rparr>)"
    "uint v' = uint ?v div 256 ^ n
       + le_val (buf ?b) (length (buf ?b) - p_bw ?b + n) div 256 ^ (length (buf ?b) - p_bw ?b) * 2 ^ (32 - 8 * n)"
  proof -
    have "n \<le> 4" "n \<le> p_bw ?b" "p_bw ?b \<le> length (buf ?b)" using Suc.prems by simp_all
    from Suc.IH [OF this, of ?v] show thesis by (elim exE conjE) (rule that)
  qed
  have w: "length (buf ?b) - p_bw ?b = Suc ?w" using Suc.prems by simp
  have e: "(2::int) ^ (32 - 8 * n) = 256 * 2 ^ (24 - 8 * n)" "32 - 8 * Suc n = 24 - 8 * n"
    using n3 power_add [of "2::int" 8 "24 - 8 * n"] by simp_all
  have "uint v' = uint v div 256 ^ Suc n
      + le_val (buf b) (?w + Suc n) div 256 ^ ?w * 2 ^ (32 - 8 * Suc n)"
    using IH(2) le_val_Suc_div [of "buf b" ?w n] unfolding w v2 e
    by (simp add: y_def distrib_right del: le_val.simps)
  moreover have "accu_load_loop (Suc n) v b = (v', b\<lparr>p_bw := p_bw b - Suc n\<rparr>)"
    using IH(1) by simp
  ultimately show ?case by blast
qed

text \<open>Loading the accumulator reads nothing, and makes room for 25 bits at least.\<close>

lemma accu_load_rd:
  assumes rd: "rd_pl u b B L"
  obtains u' b' where "accu_load u b = (u', b')" "rd_pl u' b' B L"
    "p_fw b' = p_fw b" "accu_n u' < 8" "accu_n u = 32 \<Longrightarrow> accu_n u' = 0"
proof -
  let ?n = "accu_n u" and ?M = "le_val B (length B)"
  note r = rd_plD [OF rd]
  define nb where "nb = nat (min (?n div 8) (int (p_bw b)))"
  have d: "drop_bit 3 ?n = ?n div 8" by (simp add: drop_bit_eq_div)
  have dm: "?n div 8 * 8 + ?n mod 8 = ?n" "0 \<le> ?n mod 8" "?n mod 8 < 8" by simp_all
  have q: "0 \<le> ?n div 8" "?n div 8 \<le> 4" using r(3,4) dm by linarith+
  have nb: "LC3_MIN (drop_bit 3 ?n) (int (p_bw b)) = int nb" "nb \<le> 4" "nb \<le> p_bw b" "8 * int nb \<le> ?n"
    unfolding nb_def d using q dm by (auto simp: min_def)
  define w where "w = length B - p_bw b"
  obtain v where lp: "accu_load_loop nb (accu_v u) b = (v, b\<lparr>p_bw := p_bw b - nb\<rparr>)"
    and v: "uint v = uint (accu_v u) div 256 ^ nb + le_val B (w + nb) div 256 ^ w * 2 ^ (32 - 8 * nb)"
    using accu_load_loop_spec [of nb b "accu_v u"] nb(2,3) r(1,2) by (auto simp: w_def)
  define m where "m = nat (?n - 8 * int nb)"
  have m: "?n - 8 * int nb = int m" "nat ?n = m + 8 * nb" "m \<le> 32" "nat (32 - ?n) + 8 * nb = 32 - m"
    using nb(4) r(3,4) by (simp_all add: m_def)
  have key: "uint v div 2 ^ m = ?M div 2 ^ L mod 2 ^ (32 - m)"
  proof (cases "nb = 0")
    case True
    have "le_val B w div 256 ^ w = 0" using le_val_less [of B w] by (simp add: div_pos_pos_trivial)
    moreover have "nat (32 - int m) = 32 - m" by simp
    ultimately show ?thesis using r(9) v m(1,2) True by simp
  next
    case False
    then have "p_bw b \<noteq> 0" using nb(3) by simp
    then have L: "int L = 8 * int w - 32 + ?n" using r(2,6,8) by (simp add: w_def of_nat_diff)
    define p where "p = nat (32 - ?n)"
    have Lp: "L + p = 8 * w" using L r(4) by (simp add: p_def)
    have mp: "m + p = 32 - 8 * nb" "32 - m = p + 8 * nb" using m nb(2) r(3,4) by (simp_all add: p_def)
    have "(2::int) ^ (32 - 8 * nb) = 2 ^ p * 2 ^ m" using mp(1) by (metis power_add mult.commute)
    then have "uint v = uint (accu_v u) div 256 ^ nb + (le_val B (w + nb) div 256 ^ w * 2 ^ p) * 2 ^ m"
      unfolding v by (simp only: mult.assoc)
    then have "uint v div 2 ^ m = uint (accu_v u) div 256 ^ nb div 2 ^ m + le_val B (w + nb) div 256 ^ w * 2 ^ p"
      by simp
    also have "uint (accu_v u) div 256 ^ nb div 2 ^ m = uint (accu_v u) div 2 ^ nat ?n"
    proof -
      have "(2::int) ^ nat ?n = 256 ^ nb * 2 ^ m" unfolding m(2) by (simp add: power_add power_mult)
      then show ?thesis by (simp add: zdiv_zmult2_eq)
    qed
    also have "\<dots> = ?M div 2 ^ L mod 2 ^ p" using r(9) by (simp only: p_def)
    also have "le_val B (w + nb) div 256 ^ w = ?M div 256 ^ w mod 256 ^ nb"
      by (rule le_val_window [symmetric]) (use nb(3) r(2) in \<open>simp add: w_def\<close>)
    also have "?M div 256 ^ w = ?M div 2 ^ L div 2 ^ p"
    proof -
      have "(256::int) ^ w = 2 ^ (8 * w)" by (simp add: power_mult)
      also have "\<dots> = 2 ^ L * 2 ^ p" by (simp only: Lp [symmetric] power_add)
      finally show ?thesis by (simp add: zdiv_zmult2_eq)
    qed
    finally have "uint v div 2 ^ m = 2 ^ p * (?M div 2 ^ L div 2 ^ p mod 256 ^ nb) + ?M div 2 ^ L mod 2 ^ p"
      by (simp only: add.commute mult.commute)
    also have "\<dots> = ?M div 2 ^ L mod (2 ^ p * 256 ^ nb)" by (simp add: zmod_zmult2_eq)
    also have "(2::int) ^ p * 256 ^ nb = 2 ^ (32 - m)" unfolding mp(2) by (simp add: power_add power_mult)
    finally show ?thesis .
  qed
  have L': "int L = 8 * (int (length B) - int (p_bw b - nb)) - 32 + int m + accu_nover u"
    using r(8) nb(3) m(1) by (simp add: of_nat_diff)
  show thesis
  proof (cases "8 \<le> m")
    case False
    show thesis
    proof (rule that)
      show "accu_load u b = (u\<lparr>accu_v := v, accu_n := int m\<rparr>, b\<lparr>p_bw := p_bw b - nb\<rparr>)"
        using False by (simp add: accu_load_def Let_def nb(1) lp m(1) del: LC3_MIN_min)
      show "rd_pl (u\<lparr>accu_v := v, accu_n := int m\<rparr>) (b\<lparr>p_bw := p_bw b - nb\<rparr>) B L"
      proof -
        have "nat (32 - int m) = 32 - m" by simp
        then show ?thesis unfolding rd_pl_def using r(1-7) L' key m(3) by auto
      qed
      show "accu_n (u\<lparr>accu_v := v, accu_n := int m\<rparr>) = 0" if "accu_n u = 32"
        using that m(1) False by simp presburger
    qed (use False in simp_all)
  next
    case True
    have "\<not> ?n div 8 \<le> int (p_bw b)"
    proof
      assume "?n div 8 \<le> int (p_bw b)"
      then have "int nb = ?n div 8" using q(1) by (simp add: nb_def)
      then show False using True m(1) dm by simp
    qed
    then have p0: "p_bw b - nb = 0" by (simp add: nb_def)
    have nov: "accu_nover u + int m \<le> 32" using L' r(7) unfolding p0 by simp
    have sh: "uint (if int m \<ge> LC3_ACCU_BITS then 0 else drop_bit (nat (int m)) v) = uint v div 2 ^ m"
    proof (cases "m = 32")
      case True
      then show ?thesis using uint_bound32 [of v] by (simp add: LC3_ACCU_BITS_def div_pos_pos_trivial)
    qed (use m(3) in \<open>simp add: LC3_ACCU_BITS_def uint_drop_bit32\<close>)
    have small: "?M div 2 ^ L < 2 ^ (32 - m)"
    proof (rule int_div_less)
      have "le_val B (length B) < 256 ^ length B" by (rule le_val_less)
      also have "(256::int) ^ length B = 2 ^ (8 * length B)" by (simp add: power_mult)
      also have "\<dots> \<le> 2 ^ (32 - m + L)"
        using L' r(5,7) m(3) unfolding p0 by (intro power_increasing) simp_all
      finally show "?M < 2 ^ (32 - m) * 2 ^ L" by (simp only: power_add)
    qed simp
    then have "?M div 2 ^ L < 2 ^ 32"
      by (rule less_le_trans) (intro power_increasing, simp_all)
    moreover have "0 \<le> ?M div 2 ^ L" by (simp add: pos_imp_zdiv_nonneg_iff)
    ultimately have mods: "?M div 2 ^ L mod 2 ^ (32 - m) = ?M div 2 ^ L mod 2 ^ 32"
      using small by simp
    let ?u = "u\<lparr>accu_nover := accu_nover u + int m,
      accu_v := (if int m \<ge> LC3_ACCU_BITS then 0 else drop_bit (nat (int m)) v), accu_n := 0\<rparr>"
    show thesis
    proof (rule that)
      show "accu_load u b = (?u, b\<lparr>p_bw := p_bw b - nb\<rparr>)"
        using True nov unfolding accu_load_def Let_def nb(1) nat_int lp m(1)
        by (simp add: LC3_ACCU_BITS_def min_def)
      show "rd_pl ?u (b\<lparr>p_bw := p_bw b - nb\<rparr>) B L"
        unfolding rd_pl_def
      proof (intro conjI)
        show "uint (accu_v ?u) div 2 ^ nat (accu_n ?u) = ?M div 2 ^ L mod 2 ^ nat (32 - accu_n ?u)"
          using key mods sh by simp
      qed (use r p0 L' in \<open>auto simp: p0\<close>)
    qed simp_all
  qed
qed


lemma uint_and_mask: "uint (x AND (push_bit n 1 - 1) :: u32) = uint x mod 2 ^ n"
proof -
  have "push_bit n 1 - 1 = (mask n :: u32)" by (simp add: mask_eq_exp_minus_1 push_bit_eq_mult)
  then have "x AND (push_bit n 1 - 1) = take_bit n x" by (simp only: take_bit_eq_mask)
  then have "uint (x AND (push_bit n 1 - 1)) = take_bit n (uint x)" by (simp only: unsigned_take_bit_eq)
  then show ?thesis by (simp only: take_bit_eq_mod)
qed

lemma mod_pow_div: "(x::int) mod 2 ^ a div 2 ^ b = x div 2 ^ b mod 2 ^ (a - b)"
  using drop_bit_take_bit [of b a x] by (simp add: drop_bit_eq_div take_bit_eq_mod)

lemma rd_pl_chunk:
  assumes rd: "rd_pl u b B L" and n: "int n \<le> 32 - accu_n u" "L + n \<le> 8 * length B"
  shows "uint (drop_bit (nat (accu_n u)) (accu_v u) AND (push_bit n 1 - 1))
      = le_val B (length B) div 2 ^ L mod 2 ^ n"
    and "rd_pl (u\<lparr>accu_n := accu_n u + int n\<rparr>) b B (L + n)"
proof -
  let ?X = "le_val B (length B) div 2 ^ L"
  note r = rd_plD [OF rd]
  have d: "(2::int) ^ n dvd 2 ^ nat (32 - accu_n u)" using n(1) by (intro le_imp_power_dvd) simp
  show "uint (drop_bit (nat (accu_n u)) (accu_v u) AND (push_bit n 1 - 1)) = ?X mod 2 ^ n"
    unfolding uint_and_mask uint_drop_bit32 r(9) by (rule mod_mod_cancel [OF d])
  have "nat (accu_n u + int n) = nat (accu_n u) + n" using r(3) by (simp add: nat_add_distrib)
  then have "uint (accu_v u) div 2 ^ nat (accu_n u + int n) = ?X mod 2 ^ nat (32 - accu_n u) div 2 ^ n"
    by (simp only: power_add r(9) [symmetric]) (simp add: zdiv_zmult2_eq)
  also have "\<dots> = ?X div 2 ^ n mod 2 ^ (nat (32 - accu_n u) - n)" by (rule mod_pow_div)
  also have "?X div 2 ^ n = le_val B (length B) div 2 ^ (L + n)" by (simp add: power_add zdiv_zmult2_eq)
  also have "nat (32 - accu_n u) - n = nat (32 - (accu_n u + int n))" using n(1) by simp
  finally show "rd_pl (u\<lparr>accu_n := accu_n u + int n\<rparr>) b B (L + n)"
    using r n unfolding rd_pl_def by simp
qed

lemma lc3_get_bits_rd:
  assumes rd: "rd_pl (accu bits) (buffer bits) B L" and n: "n \<le> 31" "L + n \<le> 8 * length B"
  obtains u' b' where "lc3_get_bits bits (int n)
      = (word_of_int (le_val B (length B) div 2 ^ L mod 2 ^ n), bits\<lparr>accu := u', buffer := b'\<rparr>)"
    "rd_pl u' b' B (L + n)" "p_fw b' = p_fw (buffer bits)"
proof (cases "accu_n (accu bits) + int n \<le> 32")
  case True
  then have "int n \<le> 32 - accu_n (accu bits)" by simp
  note ch = rd_pl_chunk [OF rd this n(2)]
  show thesis
  proof (rule that)
    show "lc3_get_bits bits (int n) = (word_of_int (le_val B (length B) div 2 ^ L mod 2 ^ n),
        bits\<lparr>accu := (accu bits)\<lparr>accu_n := accu_n (accu bits) + int n\<rparr>, buffer := buffer bits\<rparr>)"
      using True uint_eqI32 [OF ch(1)] by (simp add: lc3_get_bits_def LC3_ACCU_BITS_def Let_def)
  qed (use ch(2) in simp_all)
next
  case False
  let ?M = "le_val B (length B)"
  obtain u1 b1 where ld: "accu_load (accu bits) (buffer bits) = (u1, b1)"
    and rd1: "rd_pl u1 b1 B L" and f1: "p_fw b1 = p_fw (buffer bits)" "accu_n u1 < 8"
    by (rule accu_load_rd [OF rd]) blast
  note r1 = rd_plD [OF rd1]
  define n1 where "n1 = min (nat (32 - accu_n u1)) n"
  have n1: "LC3_MIN (32 - accu_n u1) (int n) = int n1" "n1 \<le> n" "int n1 \<le> 32 - accu_n u1"
  proof -
    have e: "int n1 = min (32 - accu_n u1) (int n)"
      using r1(4) by (simp add: n1_def of_nat_min)
    then show "LC3_MIN (32 - accu_n u1) (int n) = int n1" "int n1 \<le> 32 - accu_n u1" by simp_all
    show "n1 \<le> n" by (simp add: n1_def)
  qed
  have L1: "L + n1 \<le> 8 * length B" using n n1(2) by simp
  note ch1 = rd_pl_chunk [OF rd1 n1(3) L1]
  let ?u1 = "u1\<lparr>accu_n := accu_n u1 + int n1\<rparr>"
  let ?v1 = "drop_bit (nat (accu_n u1)) (accu_v u1) AND (push_bit n1 1 - 1)"
  have gen: "lc3_get_bits bits (int n) = (let n2 = int n - int n1 in
      if n2 \<noteq> 0 then
           (let (u, b) = accu_load ?u1 b1;
                v = ?v1 OR push_bit n1 (drop_bit (nat (accu_n u)) (accu_v u) AND (push_bit (nat n2) 1 - 1))
            in (v, bits\<lparr>accu := u\<lparr>accu_n := accu_n u + n2\<rparr>, buffer := b\<rparr>))
         else (?v1, bits\<lparr>accu := ?u1, buffer := b1\<rparr>))"
    using False unfolding lc3_get_bits_def lc3_get_bits_generic_def Let_def LC3_ACCU_BITS_def ld
      prod.case n1(1) nat_int by simp
  show thesis
  proof (cases "n1 = n")
    case True
    have "lc3_get_bits bits (int n) = (word_of_int (?M div 2 ^ L mod 2 ^ n),
        bits\<lparr>accu := ?u1, buffer := b1\<rparr>)"
      unfolding gen using True uint_eqI32 [OF ch1(1)] by simp
    then show thesis using ch1(2) f1(1) True by (intro that [of b1 ?u1]) simp_all
  next
    case ne: False
    define n2 where "n2 = n - n1"
    have n2: "int n - int n1 = int n2" "n2 \<noteq> 0" "n1 + n2 = n" using n1(2) ne by (simp_all add: n2_def of_nat_diff)
    have n32: "accu_n ?u1 = 32" using ne r1(3,4) by (simp add: n1_def min_def split: if_splits)
    obtain u2 b2 where ld2: "accu_load ?u1 b1 = (u2, b2)"
      and rd2: "rd_pl u2 b2 B (L + n1)" and f2: "p_fw b2 = p_fw b1" and "accu_n ?u1 = 32 \<Longrightarrow> accu_n u2 = 0"
      by (rule accu_load_rd [OF ch1(2)]) blast
    then have u20: "accu_n u2 = 0" using n32 by blast
    have c2: "int n2 \<le> 32 - accu_n u2" "L + n1 + n2 \<le> 8 * length B"
      using n n2(3) u20 by simp_all
    note ch2 = rd_pl_chunk [OF rd2 c2]
    have lt: "uint ?v1 < 2 ^ n1" unfolding ch1(1) by simp
    have n132: "n1 \<le> 32" using n1(2) n(1) by simp
    let ?v2 = "drop_bit (nat (accu_n u2)) (accu_v u2) AND (push_bit n2 1 - 1)"
    have "uint ?v2 * 2 ^ n1 < 2 ^ n2 * 2 ^ n1" unfolding ch2(1) by simp
    also have "\<dots> = (2::int) ^ n" using n2(3) by (simp flip: power_add add: add.commute)
    also have "\<dots> \<le> 2 ^ 32" using n(1) by (intro power_increasing) simp_all
    finally have sm: "uint ?v2 * 2 ^ n1 mod 4294967296 = uint ?v2 * 2 ^ n1" by simp
    have "uint (?v1 OR push_bit n1 ?v2) = ?M div 2 ^ L mod 2 ^ n1 + (?M div 2 ^ (L + n1) mod 2 ^ n2) * 2 ^ n1"
      unfolding uint_or_push [OF lt n132] sm unfolding ch1(1) ch2(1) ..
    also have "?M div 2 ^ (L + n1) = ?M div 2 ^ L div 2 ^ n1" by (simp add: power_add zdiv_zmult2_eq)
    also have "?M div 2 ^ L mod 2 ^ n1 + (?M div 2 ^ L div 2 ^ n1 mod 2 ^ n2) * 2 ^ n1 = ?M div 2 ^ L mod 2 ^ n"
      by (simp add: n2(3) [symmetric] power_add zmod_zmult2_eq)
    finally have v: "?v1 OR push_bit n1 ?v2 = word_of_int (?M div 2 ^ L mod 2 ^ n)" by (rule uint_eqI32)
    show thesis
    proof (rule that)
      show "lc3_get_bits bits (int n) = (word_of_int (?M div 2 ^ L mod 2 ^ n),
          bits\<lparr>accu := u2\<lparr>accu_n := accu_n u2 + int n2\<rparr>, buffer := b2\<rparr>)"
        unfolding gen Let_def n2(1) ld2 using n2(2) v by simp
      show "rd_pl (u2\<lparr>accu_n := accu_n u2 + int n2\<rparr>) b2 B (L + n)" using ch2(2) n2(3) by (simp add: add.assoc)
    qed (use f1 f2 in simp)
  qed
qed


section \<open>The arithmetic decoder\<close>

text \<open>\<open>ac_low_of m s\<close>: the bound of the symbol \<open>s\<close>; the bound of symbol 17 is 1024.\<close>

definition ac_low_of :: "lc3_ac_model \<Rightarrow> nat \<Rightarrow> int" where
  "ac_low_of m s = (if s \<le> 16 then uint (sym_low (m ! s)) else 1024)"

lemma ac_low_of_Suc:
  "ac_model_wf m \<Longrightarrow> s \<le> 16 \<Longrightarrow>
   ac_low_of m (Suc s) = uint (sym_low (m ! s)) + uint (sym_range (m ! s))"
  by (cases "s = 16") (simp_all add: ac_low_of_def ac_model_wf_def)

lemma ac_low_of_mono: "ac_model_wf m \<Longrightarrow> i \<le> j \<Longrightarrow> ac_low_of m i \<le> ac_low_of m j"
proof -
  assume m: "ac_model_wf m" "i \<le> j"
  have "uint (sym_low (m ! i)) \<le> 1024" if "i \<le> 16"
    using ac_model_end [OF m(1) that] uint_bound16(1) [of "sym_range (m ! i)"] by linarith
  with m ac_model_low_mono [of m i j] show ?thesis by (simp add: ac_low_of_def)
qed

text \<open>The unrolled search finds the last symbol that is not above \<open>low\<close>.\<close>

lemma ac_symbol_search_eq:
  assumes s: "s \<le> 16"
    and below: "\<And>t. t \<le> 16 \<Longrightarrow> (low < rng * ucast (sym_low (symbols ! t))) = (s < t)"
  shows "ac_symbol_search symbols rng low = s"
proof -
  have "s \<in> {0,1,2,3,4,5,6,7,8,9,10,11,12,13,14,15,16}"
    using s unfolding insert_iff empty_iff by arith
  then show ?thesis
    unfolding ac_symbol_search_def Let_def by (elim insertE emptyE) (simp_all add: below)
qed

lemma ac_symbol_search_spec:
  assumes wf: "ac_model_wf m" and r: "uint rng \<le> 16384" and s: "s \<le> 16"
    and lo: "uint rng * ac_low_of m s \<le> uint low" and hi: "uint low < uint rng * ac_low_of m (Suc s)"
  shows "ac_symbol_search m rng low = s"
proof (rule ac_symbol_search_eq [OF s])
  fix t :: nat assume t: "t \<le> 16"
  have "uint (sym_low (m ! t)) \<le> 1024"
    using ac_model_end [OF wf t] uint_bound16(1) [of "sym_range (m ! t)"] by linarith
  then have "uint rng * uint (sym_low (m ! t)) \<le> 16384 * 1024"
    using r by (intro mult_mono) simp_all
  then have p: "uint (rng * (ucast (sym_low (m ! t)) :: u32)) = uint rng * ac_low_of m t"
    using uint_mult32 [of rng "ucast (sym_low (m ! t))"] t by (simp add: uint_ucast16 ac_low_of_def)
  show "(low < rng * ucast (sym_low (m ! t))) = (s < t)"
  proof (cases "s < t")
    case True
    then have "uint rng * ac_low_of m (Suc s) \<le> uint rng * ac_low_of m t"
      by (intro mult_left_mono ac_low_of_mono [OF wf]) simp_all
    with hi True show ?thesis unfolding word_less_uint p by simp
  next
    case False
    then have "uint rng * ac_low_of m t \<le> uint rng * ac_low_of m s"
      by (intro mult_left_mono ac_low_of_mono [OF wf]) simp_all
    with lo False show ?thesis unfolding word_less_uint p by simp
  qed
qed

text \<open>Every value below the scaled range is in the interval of one symbol.\<close>

lemma ac_symbol_exists:
  assumes wf: "ac_model_wf m" and x: "0 \<le> x" "x < r * 1024"
  obtains s where "s \<le> 16" "r * ac_low_of m s \<le> x" "x < r * ac_low_of m (Suc s)"
proof -
  let ?P = "\<lambda>s. x < r * ac_low_of m (Suc s)"
  define s where "s = (LEAST s. ?P s)"
  have "?P 16" using x by (simp add: ac_low_of_def)
  then have s: "?P s" "s \<le> 16" unfolding s_def by (rule LeastI, rule Least_le)
  have "r * ac_low_of m s \<le> x"
  proof (cases s)
    case 0
    then show ?thesis using wf x(1) by (simp add: ac_low_of_def ac_model_wf_def)
  next
    case (Suc t)
    then have "\<not> ?P t" using not_less_Least [of t ?P] by (simp add: s_def)
    then show ?thesis by (simp add: Suc)
  qed
  with s show thesis by (rule that [rotated 2])
qed

definition ac_rd_step :: "lc3_bits_ac \<times> lc3_bits_buffer \<Rightarrow> lc3_bits_ac \<times> lc3_bits_buffer" where
  "ac_rd_step ab = (case ab of (a, b) \<Rightarrow> case ac_get b of (byte, b') \<Rightarrow>
     (a\<lparr>ac_low := (push_bit 8 (ac_low a) OR word_of_int byte) AND 0xffffff,
        ac_range := push_bit 8 (ac_range a)\<rparr>, b'))"

text \<open>\<open>ac_rd a b B T k\<close>: the window is the number read so far, less \<open>T\<close>.\<close>

definition ac_rd :: "lc3_bits_ac \<Rightarrow> lc3_bits_buffer \<Rightarrow> u8 list \<Rightarrow> int \<Rightarrow> nat \<Rightarrow> bool" where
  "ac_rd a b B T k \<longleftrightarrow> buf b = B \<and> p_fw b = min (k + 3) (length B) \<and> \<not> ac_error a \<and>
     ac_cache a = - 1 \<and> ac_carry_count a = 0 \<and> uint (ac_low a) = be_val B (k + 3) - T"

lemma ac_get_spec:
  assumes "buf b = B" "p_fw b = min k (length B)"
  shows "ac_get b = (byte_at B k, b\<lparr>p_fw := min (Suc k) (length B)\<rparr>)"
  using assms by (auto simp: ac_get_def byte_at_def min_def)

lemma uint_shift_byte:
  assumes "uint (l :: u32) < 65536" "0 \<le> x" "x < 256"
  shows "uint ((push_bit 8 l OR word_of_int x) AND 0xffffff) = uint l * 256 + x"
proof -
  have ux: "uint (word_of_int x :: u32) = x" using assms by (simp add: uint_word_of_int)
  then have "uint (word_of_int x :: u32) < 2 ^ 8" using assms by simp
  from uint_or_push [OF this, of l] have "uint (word_of_int x OR push_bit 8 l) = x + uint l * 256"
    using assms ux by simp
  then have "uint (push_bit 8 l OR word_of_int x) = uint l * 256 + x"
    by (simp add: or.commute)
  then show ?thesis using assms by (simp only: and_24) simp
qed

lemma ac_rd_step_spec:
  assumes rd: "ac_rd a b B T k" and l: "uint (ac_low a) < 65536"
    and st: "ac_rd_step (a, b) = (a', b')"
  shows "ac_rd a' b' B (T * 256) (Suc k)" "ac_range a' = push_bit 8 (ac_range a)"
    "p_bw b' = p_bw b"
proof -
  have g: "ac_get b = (byte_at B (k + 3), b\<lparr>p_fw := min (Suc (k + 3)) (length B)\<rparr>)"
    by (rule ac_get_spec) (use rd in \<open>simp_all add: ac_rd_def\<close>)
  have eq: "a' = a\<lparr>ac_low := (push_bit 8 (ac_low a) OR word_of_int (byte_at B (k + 3))) AND 0xffffff,
        ac_range := push_bit 8 (ac_range a)\<rparr>" "b' = b\<lparr>p_fw := min (Suc (k + 3)) (length B)\<rparr>"
    using st by (simp_all add: ac_rd_step_def g)
  show "ac_range a' = push_bit 8 (ac_range a)" "p_bw b' = p_bw b" by (simp_all add: eq)
  have low: "uint (ac_low a') = uint (ac_low a) * 256 + byte_at B (k + 3)"
    unfolding eq using uint_shift_byte [OF l byte_at_bounds] by simp
  have "Suc k + 3 = Suc (k + 3)" by simp
  then have "be_val B (Suc k + 3) = 256 * be_val B (k + 3) + byte_at B (k + 3)" by (simp only: be_val.simps)
  then have "uint (ac_low a') = be_val B (Suc k + 3) - T * 256"
    using low rd by (simp add: ac_rd_def)
  then show "ac_rd a' b' B (T * 256) (Suc k)" using rd by (simp add: ac_rd_def eq)
qed

lemma ac_rd_steps:
  "(ac_rd_step ^^ j) (a, b) = (a', b') \<Longrightarrow> ac_rd a b B T k \<Longrightarrow>
   uint (ac_low a) < uint (ac_range a) \<Longrightarrow> uint (ac_range a) * 256 ^ j < 16777216 \<Longrightarrow>
   ac_rd a' b' B (T * 256 ^ j) (k + j) \<and> uint (ac_range a') = uint (ac_range a) * 256 ^ j \<and>
   uint (ac_low a') < uint (ac_range a') \<and> p_bw b' = p_bw b"
proof (induction j arbitrary: a' b')
  case (Suc j)
  obtain a1 b1 where 1: "(ac_rd_step ^^ j) (a, b) = (a1, b1)" by (cases "(ac_rd_step ^^ j) (a, b)")
  have st: "ac_rd_step (a1, b1) = (a', b')" using Suc.prems(1) 1 by simp
  have lt: "uint (ac_range a) * 256 ^ j < 65536" using Suc.prems(4) by simp
  have IH: "ac_rd a1 b1 B (T * 256 ^ j) (k + j)" "uint (ac_range a1) = uint (ac_range a) * 256 ^ j"
    "uint (ac_low a1) < uint (ac_range a1)" "p_bw b1 = p_bw b"
    using Suc.IH [OF 1 Suc.prems(2,3)] lt by simp_all
  have l: "uint (ac_low a1) < 65536" using IH lt by simp
  note sp = ac_rd_step_spec [OF IH(1) l st]
  have r: "uint (ac_range a') = uint (ac_range a1) * 256"
    unfolding sp(2) by (rule uint_range_shift) (use IH lt in simp)
  have "uint (ac_low a') = uint (ac_low a1) * 256 + byte_at B (k + j + 3)"
  proof -
    have "Suc (k + j) + 3 = Suc (k + j + 3)" by simp
    then have "be_val B (Suc (k + j) + 3) = 256 * be_val B (k + j + 3) + byte_at B (k + j + 3)"
      by (simp only: be_val.simps)
    then show ?thesis using sp(1) IH(1) by (simp add: ac_rd_def)
  qed
  then have "uint (ac_low a') < uint (ac_range a')"
    using IH(3) byte_at_bounds(2) [of B "k + j + 3"] unfolding r by linarith
  with sp r IH show ?case by (simp add: mult.assoc mult.commute mult.left_commute)
qed simp


lemma lc3_ac_read_renorm_eq:
  assumes "1 \<le> uint (ac_range (ac bits))" "uint (ac_range (ac bits)) < 16777216"
  shows "lc3_ac_read_renorm bits = Some (case
      (ac_rd_step ^^ renorm_count (uint (ac_range (ac bits)))) (ac bits, buffer bits) of
      (a, b) \<Rightarrow> bits\<lparr>ac := a, buffer := b\<rparr>)"
proof -
  have rg: "ac_range (fst (ac_rd_step s)) = push_bit 8 (ac_range (fst s))" for s
    by (simp add: ac_rd_step_def split: prod.split)
  have "while_option (\<lambda>s. ac_range (fst s) < 0x10000) ac_rd_step (ac bits, buffer bits)
    = Some ((ac_rd_step ^^ renorm_count (uint (ac_range (fst (ac bits, buffer bits)))))
        (ac bits, buffer bits))"
    by (rule while_renorm) (use assms rg in auto)
  moreover have "(\<lambda>(a :: lc3_bits_ac, b :: lc3_bits_buffer). ac_range a < 0x10000)
      = (\<lambda>s. ac_range (fst s) < 0x10000)" by auto
  moreover have "(\<lambda>(a, b). case ac_get b of (byte, b') \<Rightarrow>
             (a\<lparr>ac_low := (push_bit 8 (ac_low a) OR word_of_int byte) AND 0xffffff,
                ac_range := push_bit 8 (ac_range a)\<rparr>, b')) = ac_rd_step"
    by (auto simp: ac_rd_step_def fun_eq_iff)
  ultimately show ?thesis by (simp add: lc3_ac_read_renorm_def)
qed

text \<open>The symbol got, and the context it leaves before the renormalisation.\<close>

definition ac_take :: "lc3_bits_ac \<Rightarrow> lc3_ac_model \<Rightarrow> nat \<Rightarrow> lc3_bits_ac" where
  "ac_take a m s =
     (let rng = drop_bit 10 (ac_range a) AND 0xffff;
          error = (ac_error a \<or> ac_low a \<ge> push_bit 10 rng)
      in a\<lparr>ac_error := error,
           ac_low := (if error then 0 else ac_low a) - rng * ucast (sym_low (m ! s)),
           ac_range := rng * ucast (sym_range (m ! s))\<rparr>)"

lemma ac_rng_uint:
  assumes "65536 \<le> uint r" "uint r < 16777216"
  shows "uint (drop_bit 10 r AND 0xffff :: u32) = uint r div 1024"
    and "uint (push_bit 10 (drop_bit 10 r AND 0xffff :: u32)) = uint r div 1024 * 1024"
proof -
  have "drop_bit 10 r AND 0xffff = take_bit 16 (drop_bit 10 r)"
    by (simp add: take_bit_eq_mask mask_eq_exp_minus_1)
  then have "uint (drop_bit 10 r AND 0xffff) = take_bit 16 (uint (drop_bit 10 r))"
    by (simp only: unsigned_take_bit_eq)
  then show 1: "uint (drop_bit 10 r AND 0xffff) = uint r div 1024"
    using assms by (simp add: uint_drop_bit32 take_bit_eq_mod)
  show "uint (push_bit 10 (drop_bit 10 r AND 0xffff)) = uint r div 1024 * 1024"
    unfolding uint_push_bit32 1 using assms by simp
qed

lemma lc3_get_symbol_eq:
  assumes wf: "ac_model_wf m"
    and R: "65536 \<le> uint (ac_range (ac bits))" "uint (ac_range (ac bits)) < 16777216"
  defines "r \<equiv> uint (ac_range (ac bits)) div 1024"
  defines "err \<equiv> ac_error (ac bits) \<or> r * 1024 \<le> uint (ac_low (ac bits))"
  defines "x \<equiv> (if err then 0 else uint (ac_low (ac bits)))"
  assumes s: "s \<le> 16" "r * ac_low_of m s \<le> x" "x < r * ac_low_of m (Suc s)"
  defines "a \<equiv> ac_take (ac bits) m s"
  shows "lc3_get_symbol bits m = Some (s, case (ac_rd_step ^^ renorm_count (uint (ac_range a))) (a, buffer bits) of
      (a, b) \<Rightarrow> bits\<lparr>ac := a, buffer := b\<rparr>)"
    and "uint (ac_low a) = x - r * uint (sym_low (m ! s))"
    and "uint (ac_range a) = r * uint (sym_range (m ! s))"
    and "1 \<le> uint (ac_range a)" "uint (ac_range a) < 16777216"
    and "ac_error a = err" "ac_cache a = ac_cache (ac bits)" "ac_carry_count a = ac_carry_count (ac bits)"
    and "ac_symbol_ok m s"
proof -
  let ?a = "ac bits" and ?rng = "drop_bit 10 (ac_range (ac bits)) AND 0xffff"
  note ur = ac_rng_uint [OF R, folded r_def]
  have r: "64 \<le> r" "r < 16384" using ac_scaled(3,4) [OF R, of 0] by (simp_all add: r_def)
  have err: "(ac_error ?a \<or> ac_low ?a \<ge> push_bit 10 ?rng) = err"
    unfolding err_def word_le_def ur ..
  have lo: "ac_low_of m s = uint (sym_low (m ! s))" using s(1) by (simp add: ac_low_of_def)
  note hi = ac_low_of_Suc [OF wf s(1)]
  have e1024: "ac_low_of m (Suc s) \<le> 1024" using ac_model_end [OF wf s(1)] by (simp add: hi)
  have b: "uint (sym_low (m ! s)) \<le> 1024" "uint (sym_range (m ! s)) \<le> 1024"
    using e1024 unfolding hi
    using uint_bound16(1) [of "sym_low (m ! s)"] uint_bound16(1) [of "sym_range (m ! s)"] by linarith+
  have prod: "uint (?rng * (ucast y :: u32)) = r * uint y" if "uint y \<le> 1024" for y :: u16
  proof -
    have "r * uint y \<le> 16384 * 1024" using that r by (intro mult_mono) simp_all
    then show ?thesis using uint_mult32 [of ?rng "ucast y"] unfolding ur uint_ucast16 by simp
  qed
  have lowx: "uint (if err then 0 else ac_low ?a) = x" by (simp add: x_def)
  have srch: "ac_symbol_search m ?rng (if err then 0 else ac_low ?a) = s"
    by (rule ac_symbol_search_spec [OF wf _ s(1)]; unfold ur lowx) (use s r in simp_all)
  show R1: "uint (ac_range a) = r * uint (sym_range (m ! s))"
    using prod [OF b(2)] by (simp add: a_def ac_take_def Let_def)
  have pos: "0 < r * uint (sym_range (m ! s))" using s(2,3) unfolding lo hi distrib_left by simp
  then show R2: "1 \<le> uint (ac_range a)" unfolding R1 by simp
  have "r * uint (sym_range (m ! s)) \<le> r * 1024" using b(2) r by (intro mult_left_mono) simp_all
  then show R3: "uint (ac_range a) < 16777216" unfolding R1 using r by linarith
  show "uint (ac_low a) = x - r * uint (sym_low (m ! s))"
  proof -
    have "uint (?rng * (ucast (sym_low (m ! s)) :: u32)) \<le> uint (if err then 0 else ac_low ?a)"
      unfolding prod [OF b(1)] lowx using s(2) by (simp add: lo)
    from uint_sub32 [OF this] show ?thesis
      unfolding a_def ac_take_def Let_def err prod [OF b(1)] lowx by simp
  qed
  show "ac_error a = err" "ac_cache a = ac_cache ?a" "ac_carry_count a = ac_carry_count ?a"
    unfolding a_def ac_take_def Let_def err by simp_all
  show "ac_symbol_ok m s"
    using wf s(1) pos by (auto simp: ac_symbol_ok_def)
  have step: "lc3_get_symbol bits m = map_option (\<lambda>bits. (s, bits))
      (if ac_range a < 0x10000 then lc3_ac_read_renorm (bits\<lparr>ac := a\<rparr>) else Some (bits\<lparr>ac := a\<rparr>))"
  proof -
    have ar: "a = ?a\<lparr>ac_error := err, ac_low := (if err then 0 else ac_low ?a) - ?rng * ucast (sym_low (m ! s)),
       ac_range := ?rng * ucast (sym_range (m ! s))\<rparr>"
      unfolding a_def ac_take_def Let_def err ..
    show ?thesis unfolding lc3_get_symbol_def Let_def err srch ar by (simp split del: if_split)
  qed
  show "lc3_get_symbol bits m = Some (s, case (ac_rd_step ^^ renorm_count (uint (ac_range a))) (a, buffer bits) of
      (a, b) \<Rightarrow> bits\<lparr>ac := a, buffer := b\<rparr>)"
  proof (cases "ac_range a < 0x10000")
    case True
    then show ?thesis using lc3_ac_read_renorm_eq [of "bits\<lparr>ac := a\<rparr>"] R2 R3 by (simp add: step)
  next
    case False
    then have "renorm_count (uint (ac_range a)) = 0" by (simp add: renorm_count_def word_less_uint)
    with False show ?thesis by (simp add: step)
  qed
qed


text \<open>
  On any input at all, a symbol got is a symbol of the model and the call returns: the range
  stays above 16 bits, so the renormalisation stops.
\<close>

lemma ac_rd_steps_range:
  "(ac_rd_step ^^ j) (a, b) = (a', b') \<Longrightarrow> uint (ac_range a) * 256 ^ j < 16777216 \<Longrightarrow>
   uint (ac_range a') = uint (ac_range a) * 256 ^ j \<and> ac_error a' = ac_error a \<and>
   p_bw b' = p_bw b \<and> buf b' = buf b"
proof (induction j arbitrary: a' b')
  case (Suc j)
  obtain a1 b1 where 1: "(ac_rd_step ^^ j) (a, b) = (a1, b1)" by (cases "(ac_rd_step ^^ j) (a, b)")
  have st: "ac_rd_step (a1, b1) = (a', b')" using Suc.prems(1) 1 by simp
  have lt: "uint (ac_range a) * 256 ^ j < 65536" using Suc.prems(2) by simp
  then have IH: "uint (ac_range a1) = uint (ac_range a) * 256 ^ j" "ac_error a1 = ac_error a"
    "p_bw b1 = p_bw b" "buf b1 = buf b" using Suc.IH [OF 1] by simp_all
  have e: "ac_range a' = push_bit 8 (ac_range a1)" "ac_error a' = ac_error a1" "p_bw b' = p_bw b1" "buf b' = buf b1"
    using st by (auto simp: ac_rd_step_def ac_get_def split: if_splits)
  have "uint (ac_range a') = uint (ac_range a1) * 256"
    unfolding e by (rule uint_range_shift) (use IH lt in simp)
  then show ?case using IH e by simp
qed simp

definition rd_wf :: "lc3_bits \<Rightarrow> bool" where
  "rd_wf bits \<longleftrightarrow> 65536 \<le> uint (ac_range (ac bits)) \<and> uint (ac_range (ac bits)) < 16777216 \<and>
     0 \<le> accu_n (accu bits) \<and> accu_n (accu bits) \<le> 32"

lemma lc3_get_symbol_total:
  assumes wf: "ac_model_wf m" and rd: "rd_wf bits"
  obtains s bits' where "lc3_get_symbol bits m = Some (s, bits')" "ac_symbol_ok m s" "rd_wf bits'"
    "accu bits' = accu bits" "mode bits' = mode bits" "buf (buffer bits') = buf (buffer bits)"
    "ac_error (ac bits) \<Longrightarrow> ac_error (ac bits')"
proof -
  have R: "65536 \<le> uint (ac_range (ac bits))" "uint (ac_range (ac bits)) < 16777216"
    using rd by (simp_all add: rd_wf_def)
  have A: "0 \<le> accu_n (accu bits)" "accu_n (accu bits) \<le> 32" using rd by (simp_all add: rd_wf_def)
  define r where "r = uint (ac_range (ac bits)) div 1024"
  define err where "err = (ac_error (ac bits) \<or> r * 1024 \<le> uint (ac_low (ac bits)))"
  define x where "x = (if err then 0 else uint (ac_low (ac bits)))"
  have r: "64 \<le> r" using ac_scaled(3) [OF R, of 0] by (simp add: r_def)
  have "0 \<le> x" "x < r * 1024" using r by (auto simp: x_def err_def)
  then obtain s where s: "s \<le> 16" "r * ac_low_of m s \<le> x" "x < r * ac_low_of m (Suc s)"
    by (rule ac_symbol_exists [OF wf])
  define a where "a = ac_take (ac bits) m s"
  note eq = lc3_get_symbol_eq [OF wf R s [unfolded x_def err_def r_def], folded a_def, folded r_def err_def x_def]
  obtain a' b' where st: "(ac_rd_step ^^ renorm_count (uint (ac_range a))) (a, buffer bits) = (a', b')"
    by (cases "(ac_rd_step ^^ renorm_count (uint (ac_range a))) (a, buffer bits)")
  note rr = renorm_count_range [OF eq(4,5)]
  note sr = ac_rd_steps_range [OF st rr(2)]
  show thesis
  proof (rule that)
    show "lc3_get_symbol bits m = Some (s, bits\<lparr>ac := a', buffer := b'\<rparr>)" using eq(1) st by simp
    show "rd_wf (bits\<lparr>ac := a', buffer := b'\<rparr>)" using sr rr A by (simp add: rd_wf_def)
    show "ac_symbol_ok m s" by (rule eq(9))
    show "ac_error (ac bits) \<Longrightarrow> ac_error (ac (bits\<lparr>ac := a', buffer := b'\<rparr>))"
      using sr eq(6) by (simp add: err_def)
  qed (use sr in simp_all)
qed

section \<open>Reading back what was written\<close>

fun rd_good :: "u8 list \<Rightarrow> lc3_bits \<Rightarrow> enc \<Rightarrow> bool" where
  "rd_good B bits ((P, L), (T, R, k)) \<longleftrightarrow> mode bits = LC3_BITS_MODE_READ \<and>
     rd_pl (accu bits) (buffer bits) B L \<and> ac_rd (ac bits) (buffer bits) B T k \<and>
     uint (ac_range (ac bits)) = R"

fun st_ok :: "enc \<Rightarrow> bool" where
  "st_ok ((P, L), (T, R, k)) \<longleftrightarrow> 0 \<le> P \<and> P < 2 ^ L \<and> 65536 \<le> R \<and> R < 16777216"

text \<open>A reader returns the value of a plain value, the index of a symbol.\<close>

fun rd_op :: "bit_op \<Rightarrow> lc3_bits \<Rightarrow> (bit_op \<times> lc3_bits) option" where
  "rd_op (Bits v n) bits = (case lc3_get_bits bits (int n) of (v', bits') \<Rightarrow> Some (Bits v' n, bits'))"
| "rd_op (Sym m s) bits = map_option (\<lambda>(s', bits'). (Sym m s', bits')) (lc3_get_symbol bits m)"

lemma enc_op_Sym:
  assumes "ac_symbol_ok m s" "65536 \<le> R" "R < 16777216"
  defines "r \<equiv> R div 1024"
  defines "R1 \<equiv> r * uint (sym_range (m ! s))"
  shows "enc_op (Sym m s) (p, (T, R, k)) = (p, ((T + r * uint (sym_low (m ! s))) * 256 ^ renorm_count R1,
      R1 * 256 ^ renorm_count R1, k + renorm_count R1))"
    and "1 \<le> R1" "R1 < 16777216" "0 \<le> r * uint (sym_low (m ! s))"
    and "r * uint (sym_low (m ! s)) + R1 \<le> r * 1024" "r * 1024 \<le> R"
proof -
  have ok: "ac_model_wf m" "s \<le> 16" "sym_range (m ! s) \<noteq> 0" using assms(1) by (simp_all add: ac_symbol_ok_def)
  have r: "64 \<le> r" "r < 16384" using ac_scaled(3,4) [OF assms(2,3), of 0] by (simp_all add: r_def)
  have "uint (sym_range (m ! s)) \<noteq> 0" using ok(3) by (simp add: uint_0_iff)
  then have g: "1 \<le> uint (sym_range (m ! s))" using uint_bound16(1) [of "sym_range (m ! s)"] by linarith
  have l0: "0 \<le> uint (sym_low (m ! s))" by simp
  have "r * 1 \<le> R1" unfolding R1_def using g r by (intro mult_left_mono) simp_all
  then show "1 \<le> R1" using r by linarith
  show l: "0 \<le> r * uint (sym_low (m ! s))" using l0 r by simp
  have "r * (uint (sym_low (m ! s)) + uint (sym_range (m ! s))) \<le> r * 1024"
    using ac_model_end [OF ok(1,2)] r by (intro mult_left_mono) simp_all
  then show s: "r * uint (sym_low (m ! s)) + R1 \<le> r * 1024" by (simp add: R1_def distrib_left)
  with l r show "R1 < 16777216" by linarith
  show "r * 1024 \<le> R" by (simp add: r_def)
  show "enc_op (Sym m s) (p, (T, R, k)) = (p, ((T + r * uint (sym_low (m ! s))) * 256 ^ renorm_count R1,
      R1 * 256 ^ renorm_count R1, k + renorm_count R1))"
    by (simp add: ac_code_def r_def R1_def Let_def)
qed

lemma st_ok_step:
  assumes ok: "op_ok x" and st: "st_ok st"
  shows "st_ok (enc_op x st)"
proof -
  obtain P L T R k where e: "st = ((P, L), (T, R, k))" by (cases st) auto
  show ?thesis
  proof (cases x)
    case (Bits v n)
    have "(uint v + 1) * 2 ^ L \<le> 2 ^ n * 2 ^ L" using ok Bits by (intro mult_right_mono) simp_all
    then have "P + uint v * 2 ^ L < 2 ^ (L + n)"
      using st e by (simp add: distrib_right power_add mult.commute)
    then show ?thesis using st e Bits by simp
  next
    case (Sym m s)
    have ok': "ac_symbol_ok m s" and R: "65536 \<le> R" "R < 16777216" using ok st e Sym by simp_all
    note sp = enc_op_Sym [OF ok' R]
    from renorm_count_range [OF sp(2,3)] st show ?thesis
      unfolding e Sym sp(1) by simp
  qed
qed

text \<open>What a buffer holds of a state, it holds of every earlier state.\<close>

lemma dec_ok_back:
  assumes ok: "op_ok x" and st: "st_ok st" and d: "dec_ok B (enc_op x st)"
  shows "dec_ok B st"
proof -
  obtain P L T R k where e: "st = ((P, L), (T, R, k))" by (cases st) auto
  show ?thesis
  proof (cases x)
    case (Bits v n)
    have "le_val B (length B) mod 2 ^ L = le_val B (length B) mod 2 ^ (L + n) mod 2 ^ L"
      by (rule mod_mod_cancel [symmetric]) (simp add: power_add)
    also have "\<dots> = (P + uint v * 2 ^ L) mod 2 ^ L" using d by (simp add: e Bits)
    also have "\<dots> = P" using st by (simp add: e)
    finally show ?thesis using d by (simp add: e Bits)
  next
    case (Sym m s)
    have ok': "ac_symbol_ok m s" and R: "65536 \<le> R" "R < 16777216" using ok st e Sym by simp_all
    define r R1 where "r = R div 1024" and "R1 = r * uint (sym_range (m ! s))"
    define j where "j = renorm_count R1"
    note sp = enc_op_Sym [OF ok' R, folded r_def, folded R1_def, folded j_def]
    let ?x = "T + r * uint (sym_low (m ! s))" and ?b = "be_val B (k + 3)"
    have dd: "?x * 256 ^ j \<le> be_val B (k + j + 3)" "be_val B (k + j + 3) < ?x * 256 ^ j + R1 * 256 ^ j"
      and p: "le_val B (length B) mod 2 ^ L = P"
      using d unfolding e Sym sp(1) by simp_all
    have kj: "k + j + 3 = k + 3 + j" by simp
    have b: "be_val B (k + j + 3) div 256 ^ j = ?b" unfolding kj by (rule be_val_add)
    have "be_val B (k + j + 3) < (?x + R1) * 256 ^ j" using dd(2) by (simp only: distrib_right)
    then have 1: "?b < ?x + R1" unfolding b [symmetric] by (rule int_div_less) simp
    have "?x * 256 ^ j div 256 ^ j \<le> ?b" unfolding b [symmetric] using dd(1) by (intro zdiv_mono1) simp_all
    then have 2: "?x \<le> ?b" by simp
    show ?thesis using 1 2 p sp(4-6) by (simp add: e)
  qed
qed

lemma dec_ok_backs:
  "list_all op_ok xs \<Longrightarrow> st_ok st \<Longrightarrow> dec_ok B (enc_ops xs st) \<Longrightarrow> dec_ok B st"
proof (induction xs arbitrary: st)
  case (Cons x xs)
  then have "dec_ok B (enc_op x st)" using st_ok_step [of x st] by simp
  then show ?case using dec_ok_back [of x st B] Cons.prems by simp
qed simp



lemma rd_op_Bits:
  assumes rd: "rd_good B bits st" and st: "st_ok st" and ok: "op_ok (Bits v n)"
    and d: "dec_ok B (enc_op (Bits v n) st)" and L: "snd (fst (enc_op (Bits v n) st)) \<le> 8 * length B"
  obtains bits' where "rd_op (Bits v n) bits = Some (Bits v n, bits')"
    "rd_good B bits' (enc_op (Bits v n) st)"
proof -
  obtain P L T R k where e: "st = ((P, L), (T, R, k))" by (cases st) auto
  have n: "n \<le> 31" "L + n \<le> 8 * length B" using ok L by (simp_all add: e)
  have pl: "rd_pl (accu bits) (buffer bits) B L" and rest: "mode bits = LC3_BITS_MODE_READ"
    "ac_rd (ac bits) (buffer bits) B T k" "uint (ac_range (ac bits)) = R"
    using rd by (simp_all add: e)
  obtain u' b' where g: "lc3_get_bits bits (int n)
      = (word_of_int (le_val B (length B) div 2 ^ L mod 2 ^ n), bits\<lparr>accu := u', buffer := b'\<rparr>)"
    and pl': "rd_pl u' b' B (L + n)" and fw: "p_fw b' = p_fw (buffer bits)"
    by (rule lc3_get_bits_rd [OF pl n])
  have "le_val B (length B) mod 2 ^ (L + n) = P + uint v * 2 ^ L" using d by (simp add: e)
  moreover have "le_val B (length B) div 2 ^ L mod 2 ^ n = le_val B (length B) mod 2 ^ (L + n) div 2 ^ L"
    using mod_pow_div [of "le_val B (length B)" "L + n" L] by simp
  ultimately have "le_val B (length B) div 2 ^ L mod 2 ^ n = uint v"
    using st by (simp add: e div_pos_pos_trivial)
  then have "lc3_get_bits bits (int n) = (v, bits\<lparr>accu := u', buffer := b'\<rparr>)" using g by simp
  moreover have "ac_rd (ac bits) b' B T k"
    using rest(2) rd_plD(1) [OF pl'] fw by (simp add: ac_rd_def)
  ultimately show thesis using pl' rest
    by (intro that [of "bits\<lparr>accu := u', buffer := b'\<rparr>"]) (simp_all add: e)
qed

lemma rd_op_Sym:
  assumes rd: "rd_good B bits st" and st: "st_ok st" and ok: "op_ok (Sym m s)"
    and d: "dec_ok B (enc_op (Sym m s) st)"
  obtains bits' where "rd_op (Sym m s) bits = Some (Sym m s, bits')"
    "rd_good B bits' (enc_op (Sym m s) st)"
proof -
  obtain P L T R k where e: "st = ((P, L), (T, R, k))" by (cases st) auto
  have ok': "ac_symbol_ok m s" "ac_model_wf m" "s \<le> 16" using ok by (simp_all add: ac_symbol_ok_def)
  have pl: "rd_pl (accu bits) (buffer bits) B L" and md: "mode bits = LC3_BITS_MODE_READ"
    and rda: "ac_rd (ac bits) (buffer bits) B T k" and R: "uint (ac_range (ac bits)) = R"
    using rd by (simp_all add: e)
  have Rb: "65536 \<le> R" "R < 16777216" using st by (simp_all add: e)
  define r R1 where "r = R div 1024" and "R1 = r * uint (sym_range (m ! s))"
  define j where "j = renorm_count R1"
  note sp = enc_op_Sym [OF ok'(1) Rb, folded r_def, folded R1_def, folded j_def]
  let ?lo = "r * uint (sym_low (m ! s))"
  let ?x = "T + ?lo" and ?b = "be_val B (k + 3)"
  have dd: "?x * 256 ^ j \<le> be_val B (k + j + 3)" "be_val B (k + j + 3) < ?x * 256 ^ j + R1 * 256 ^ j"
    using d unfolding e sp(1) by simp_all
  have kj: "k + j + 3 = k + 3 + j" by simp
  have b: "be_val B (k + j + 3) div 256 ^ j = ?b" unfolding kj by (rule be_val_add)
  have "be_val B (k + j + 3) < (?x + R1) * 256 ^ j" using dd(2) by (simp only: distrib_right)
  then have 1: "?b < ?x + R1" unfolding b [symmetric] by (rule int_div_less) simp
  have "?x * 256 ^ j div 256 ^ j \<le> ?b" unfolding b [symmetric] using dd(1) by (intro zdiv_mono1) simp_all
  then have 2: "?x \<le> ?b" by simp
  have low: "uint (ac_low (ac bits)) = ?b - T" and ne: "\<not> ac_error (ac bits)" using rda by (simp_all add: ac_rd_def)
  have lt: "?b - T < r * 1024" using 1 sp(5) by linarith
  have err: "(ac_error (ac bits) \<or> r * 1024 \<le> ?b - T) = False" using ne lt by simp
  have Rr: "65536 \<le> uint (ac_range (ac bits))" "uint (ac_range (ac bits)) < 16777216" using R Rb by simp_all
  have los: "ac_low_of m s = uint (sym_low (m ! s))" using ok'(3) by (simp add: ac_low_of_def)
  have hi: "ac_low_of m (Suc s) = uint (sym_low (m ! s)) + uint (sym_range (m ! s))"
    by (rule ac_low_of_Suc [OF ok'(2,3)])
  have s2: "r * ac_low_of m s \<le> ?b - T" using 2 by (simp add: los)
  have s3: "?b - T < r * ac_low_of m (Suc s)"
    using 1 unfolding hi distrib_left R1_def by linarith
  define a where "a = ac_take (ac bits) m s"
  note eq = lc3_get_symbol_eq [OF ok'(2) Rr ok'(3), unfolded R, folded r_def, unfolded low err if_False,
    OF s2 s3, folded a_def]
  have la: "uint (ac_low a) = ?b - ?x" using eq(2) by simp
  have ra: "uint (ac_range a) = R1" using eq(3) by (simp add: R1_def)
  have aa: "ac_rd a (buffer bits) B ?x k"
    using rda la eq(6-8) by (simp add: ac_rd_def)
  obtain a' b' where steps: "(ac_rd_step ^^ j) (a, buffer bits) = (a', b')"
    by (cases "(ac_rd_step ^^ j) (a, buffer bits)")
  have lt2: "uint (ac_low a) < uint (ac_range a)" using 1 la ra by simp
  have rr: "uint (ac_range a) * 256 ^ j < 16777216"
    unfolding ra j_def by (rule renorm_count_range [OF sp(2,3)])
  note fin = ac_rd_steps [OF steps aa lt2 rr]
  have g: "lc3_get_symbol bits m = Some (s, bits\<lparr>ac := a', buffer := b'\<rparr>)"
    using eq(1) steps by (simp add: ra j_def)
  have "p_bw b' = p_bw (buffer bits)" "buf b' = B" using fin by (simp_all add: ac_rd_def)
  then have "rd_pl (accu bits) b' B L" using pl by (simp add: rd_pl_def)
  then show thesis
    using fin md ra g by (intro that [of "bits\<lparr>ac := a', buffer := b'\<rparr>"]) (simp_all add: e sp(1) del: enc_op.simps)
qed

fun rd_ops :: "bit_op list \<Rightarrow> lc3_bits \<Rightarrow> lc3_bits option" where
  "rd_ops [] bits = Some bits"
| "rd_ops (x # xs) bits =
     (case rd_op x bits of None \<Rightarrow> None | Some (y, bits') \<Rightarrow> if y = x then rd_ops xs bits' else None)"

lemma rd_ops_append: "rd_ops (xs @ ys) bits = Option.bind (rd_ops xs bits) (rd_ops ys)"
  by (induction xs arbitrary: bits) (auto split: option.split)

text \<open>Reading an operation back: the call of the code, and its value.\<close>

lemma rd_ops_Bits:
  "rd_ops (Bits v n # xs) bits = Some bits' \<longleftrightarrow>
     (\<exists>bits1. lc3_get_bits bits (int n) = (v, bits1) \<and> rd_ops xs bits1 = Some bits')"
  by (auto split: prod.splits if_splits)

lemma rd_ops_Sym:
  "rd_ops (Sym m s # xs) bits = Some bits' \<longleftrightarrow>
     (\<exists>bits1. lc3_get_symbol bits m = Some (s, bits1) \<and> rd_ops xs bits1 = Some bits')"
  by (auto split: option.splits prod.splits if_splits)

lemma enc_ops_L: "snd (fst st) \<le> snd (fst (enc_ops xs st))"
proof (induction xs arbitrary: st)
  case (Cons x xs)
  have "snd (fst st) \<le> snd (fst (enc_op x st))"
    by (cases x; cases st) auto
  also have "\<dots> \<le> snd (fst (enc_ops xs (enc_op x st)))" by (rule Cons.IH)
  finally show ?case by simp
qed simp

lemma rd_ops_good:
  "list_all op_ok xs \<Longrightarrow> st_ok st \<Longrightarrow> dec_ok B (enc_ops xs st) \<Longrightarrow>
   snd (fst (enc_ops xs st)) \<le> 8 * length B \<Longrightarrow> rd_good B bits st \<Longrightarrow>
   \<exists>bits'. rd_ops xs bits = Some bits' \<and> rd_good B bits' (enc_ops xs st)"
proof (induction xs arbitrary: st bits)
  case (Cons x xs)
  let ?st = "enc_op x st"
  have ok: "op_ok x" "list_all op_ok xs" and st: "st_ok ?st"
    using Cons.prems(1,2) st_ok_step by simp_all
  have d: "dec_ok B ?st" using dec_ok_backs [OF ok(2) st] Cons.prems(3) by simp
  have "snd (fst ?st) \<le> 8 * length B" using enc_ops_L [of ?st xs] Cons.prems(4) by simp
  then obtain bits1 where 1: "rd_op x bits = Some (x, bits1)" "rd_good B bits1 ?st"
    using ok(1) Cons.prems(2,5) d by (cases x) (metis rd_op_Bits, metis rd_op_Sym)
  from Cons.IH [OF ok(2) st _ _ 1(2)] Cons.prems(3,4)
  obtain bits' where "rd_ops xs bits1 = Some bits'" "rd_good B bits' (enc_ops xs ?st)" by auto
  with 1(1) show ?case by (intro exI [of _ bits']) simp
qed simp

lemma uint_word32: "0 \<le> x \<Longrightarrow> x < 4294967296 \<Longrightarrow> uint (word_of_int x :: u32) = x"
  by (simp add: uint_word_of_int)

lemma setup_read: "rd_good B (lc3_setup_bits LC3_BITS_MODE_READ B) enc_init"
proof -
  let ?b0 = "\<lparr>buf = B, p_fw = 0, p_bw = length B\<rparr>"
  let ?x = "byte_at B 0" and ?y = "byte_at B 1" and ?z = "byte_at B 2"
  have g0: "ac_get ?b0 = (?x, ?b0\<lparr>p_fw := min (Suc 0) (length B)\<rparr>)" by (rule ac_get_spec) simp_all
  have g1: "ac_get (?b0\<lparr>p_fw := min (Suc 0) (length B)\<rparr>) = (?y, ?b0\<lparr>p_fw := min 2 (length B)\<rparr>)"
    using ac_get_spec [of "?b0\<lparr>p_fw := min (Suc 0) (length B)\<rparr>" B 1] by (simp add: numeral_2_eq_2)
  have g2: "ac_get (?b0\<lparr>p_fw := min 2 (length B)\<rparr>) = (?z, ?b0\<lparr>p_fw := min 3 (length B)\<rparr>)"
    using ac_get_spec [of "?b0\<lparr>p_fw := min 2 (length B)\<rparr>" B 2] by (simp add: numeral_3_eq_3)
  let ?low = "(word_of_int (push_bit 16 ?x) OR word_of_int (push_bit 8 ?y)) OR word_of_int ?z :: u32"
  let ?u = "\<lparr>accu_v = 0, accu_n = LC3_ACCU_BITS, accu_nover = 0\<rparr>"
  have low: "uint ?low = be_val B 3"
  proof -
    have bz: "0 \<le> ?x" "?x < 256" "0 \<le> ?y" "?y < 256" "0 \<le> ?z" "?z < 256" by simp_all
    have wz: "uint (word_of_int ?z :: u32) = ?z" "uint (word_of_int ?y :: u32) = ?y" "uint (word_of_int ?x :: u32) = ?x"
      using bz by (intro uint_word32; linarith)+
    have py: "word_of_int (push_bit 8 ?y) = push_bit 8 (word_of_int ?y :: u32)"
      and px: "word_of_int (push_bit 16 ?x) = push_bit 16 (word_of_int ?x :: u32)"
      by (simp_all add: push_bit_eq_mult)
    have md: "?y * 256 mod 4294967296 = ?y * 256" "?x * 65536 mod 4294967296 = ?x * 65536"
      using bz by (intro mod_pos_pos_trivial; linarith)+
    have 1: "uint (word_of_int ?z OR push_bit 8 (word_of_int ?y) :: u32) = ?z + ?y * 256"
      using uint_or_push [of "word_of_int ?z" 8 "word_of_int ?y"] wz md by simp
    have "uint ((word_of_int ?z OR push_bit 8 (word_of_int ?y)) OR push_bit 16 (word_of_int ?x) :: u32)
        = ?z + ?y * 256 + ?x * 65536"
    proof -
      have "?z + ?y * 256 < 65536" using bz by linarith
      then show ?thesis
        using uint_or_push [of "word_of_int ?z OR push_bit 8 (word_of_int ?y)" 16 "word_of_int ?x"] wz md 1
        by simp
    qed
    moreover have "?low = (word_of_int ?z OR push_bit 8 (word_of_int ?y)) OR push_bit 16 (word_of_int ?x)"
      unfolding px py by (simp only: or.commute or.left_commute or.assoc)
    moreover have "be_val B 3 = ?z + ?y * 256 + ?x * 65536"
      by (simp add: numeral_3_eq_3 numeral_2_eq_2)
    ultimately show ?thesis by (simp only:)
  qed
  have "rd_pl ?u (?b0\<lparr>p_fw := min 3 (length B)\<rparr>) B 0"
    by (simp add: rd_pl_def LC3_ACCU_BITS_def)
  then obtain u' b' where ld: "accu_load ?u (?b0\<lparr>p_fw := min 3 (length B)\<rparr>) = (u', b')" "rd_pl u' b' B 0"
    "p_fw b' = p_fw (?b0\<lparr>p_fw := min 3 (length B)\<rparr>)"
    by (rule accu_load_rd)
  have "lc3_setup_bits LC3_BITS_MODE_READ B = \<lparr>mode = LC3_BITS_MODE_READ,
      ac = \<lparr>ac_low = ?low, ac_range = 0xffffff, ac_cache = - 1, ac_carry = 0, ac_carry_count = 0, ac_error = False\<rparr>,
      accu = u', buffer = b'\<rparr>"
    unfolding lc3_setup_bits_def Let_def using g0 g1 g2 ld(1) by simp
  then show ?thesis
    using ld(2,3) low rd_plD(1) [OF ld(2)] by (simp add: enc_init_def ac_rd_def)
qed

lemma rd_bits_left:
  assumes g: "rd_good B bits ((P, L), (T, R, k))" and R: "65536 \<le> R" "R < 16777216" and k: "k + 3 \<le> length B"
  shows "get_bits_left bits = enc_left (length B) ((P, L), (T, R, k))"
proof -
  have pl: "rd_pl (accu bits) (buffer bits) B L" and rda: "ac_rd (ac bits) (buffer bits) B T k"
    and md: "mode bits = LC3_BITS_MODE_READ" and r: "uint (ac_range (ac bits)) = R" using g by simp_all
  note p = rd_plD [OF pl]
  have "ac_get_pending_bits (ac bits) = 25 - int (range_log R)"
    using ac_get_range_bits_eq [of "ac bits"] r R rda by (simp add: ac_get_pending_bits_def ac_rd_def)
  moreover have "p_fw (buffer bits) = k + 3" using rda k by (simp add: ac_rd_def)
  ultimately show ?thesis
    using md p(8) by (simp add: get_bits_left_def Let_def LC3_ACCU_BITS_def LC3_AC_BITS_def)
qed



section \<open>Reading plain bits of any input\<close>

lemma accu_load_bounds:
  assumes "accu_load u b = (u', b')" "0 \<le> accu_n u" "accu_n u \<le> 32"
  shows "0 \<le> accu_n u'" "accu_n u' < 8" "buf b' = buf b"
proof -
  have d: "drop_bit 3 (accu_n u) = accu_n u div 8" by (simp add: drop_bit_eq_div)
  have q: "0 \<le> accu_n u div 8" "accu_n u div 8 * 8 \<le> accu_n u" using assms(2) by simp_all
  define nb where "nb = min (accu_n u div 8) (int (p_bw b))"
  have nb: "LC3_MIN (drop_bit 3 (accu_n u)) (int (p_bw b)) = nb" "8 * nb \<le> accu_n u"
    using q by (auto simp: nb_def d min_def)
  obtain v b1 where lp: "accu_load_loop (nat nb) (accu_v u) b = (v, b1)"
    by (cases "accu_load_loop (nat nb) (accu_v u) b")
  have bl: "accu_load_loop n v b = (v', b1) \<Longrightarrow> buf b1 = buf b" for n v v' b b1
    by (induction n arbitrary: v b) auto
  have eq: "accu_load u b = (if accu_n u - 8 * nb \<ge> 8 then
        (u\<lparr>accu_nover := LC3_MIN (accu_nover u + (accu_n u - 8 * nb)) LC3_ACCU_BITS,
           accu_v := (if accu_n u - 8 * nb \<ge> LC3_ACCU_BITS then 0 else drop_bit (nat (accu_n u - 8 * nb)) v),
           accu_n := 0\<rparr>, b1)
      else (u\<lparr>accu_v := v, accu_n := accu_n u - 8 * nb\<rparr>, b1))"
    unfolding accu_load_def Let_def nb(1) lp by simp
  show "0 \<le> accu_n u'" "accu_n u' < 8"
    using assms(1) nb(2) unfolding eq by (auto split: if_splits)
  show "buf b' = buf b" using assms(1) bl [OF lp] unfolding eq by (auto split: if_splits)
qed

lemma lc3_get_bits_wf:
  assumes wf: "rd_wf bits" and n: "0 \<le> n" "n \<le> 25" and g: "lc3_get_bits bits n = (v, bits')"
  shows "rd_wf bits'" "uint v < 2 ^ nat n" "ac bits' = ac bits" "mode bits' = mode bits"
    "buf (buffer bits') = buf (buffer bits)"
proof -
  have A: "0 \<le> accu_n (accu bits)" "accu_n (accu bits) \<le> 32" using wf by (simp_all add: rd_wf_def)
  have main: "0 \<le> accu_n (accu bits') \<and> accu_n (accu bits') \<le> 32 \<and> uint v < 2 ^ nat n \<and> ac bits' = ac bits
      \<and> mode bits' = mode bits \<and> buf (buffer bits') = buf (buffer bits)"
  proof (cases "accu_n (accu bits) + n \<le> 32")
    case True
    then show ?thesis
      using g A n uint_and_mask by (auto simp: lc3_get_bits_def LC3_ACCU_BITS_def Let_def)
  next
    case False
    obtain u1 b1 where ld: "accu_load (accu bits) (buffer bits) = (u1, b1)"
      by (cases "accu_load (accu bits) (buffer bits)")
    note l1 = accu_load_bounds [OF ld A]
    have n1: "LC3_MIN (32 - accu_n u1) n = n" using l1 n by simp
    have "lc3_get_bits bits n = (drop_bit (nat (accu_n u1)) (accu_v u1) AND (push_bit (nat n) 1 - 1),
        bits\<lparr>accu := u1\<lparr>accu_n := accu_n u1 + n\<rparr>, buffer := b1\<rparr>)"
      using False unfolding lc3_get_bits_def lc3_get_bits_generic_def Let_def LC3_ACCU_BITS_def ld prod.case n1
      by simp
    then show ?thesis using g l1 n uint_and_mask by auto
  qed
  then show "rd_wf bits'" using wf by (simp add: rd_wf_def)
  from main show "uint v < 2 ^ nat n" "ac bits' = ac bits" "mode bits' = mode bits"
    "buf (buffer bits') = buf (buffer bits)" by simp_all
qed

lemma setup_read_wf: "rd_wf (lc3_setup_bits LC3_BITS_MODE_READ B)"
proof -
  have "rd_good B (lc3_setup_bits LC3_BITS_MODE_READ B) enc_init" by (rule setup_read)
  then show ?thesis by (simp add: enc_init_def rd_wf_def rd_pl_def)
qed

end
