(* ===== verification/BitChannel.thy ===== *)
theory BitChannel
  imports BitReader
begin

text \<open>
  The bitstream as a channel: what is written on a stream with room is read back, and the
  locale \<open>field_codec\<close>, the contract of one field of the bitstream, that the components
  discharge for their own put and get functions.
\<close>

unbundle bit_operations_syntax

section \<open>Writer and reader together\<close>

text \<open>\<open>written xs mem w\<close>: the operations \<open>xs\<close> written on a fresh stream over \<open>mem\<close>, with room.\<close>

definition written :: "bit_op list \<Rightarrow> u8 list \<Rightarrow> lc3_bits \<Rightarrow> bool" where
  "written xs mem w \<longleftrightarrow>
     wr_ops xs (lc3_setup_bits LC3_BITS_MODE_WRITE mem) = Some w \<and> 0 \<le> get_bits_left w"

abbreviation stream_of :: "lc3_bits \<Rightarrow> u8 list" where
  "stream_of w \<equiv> buf (buffer (lc3_flush_bits w))"

fun plain_bits :: "bit_op list \<Rightarrow> nat" where
  "plain_bits [] = 0"
| "plain_bits (Bits v n # xs) = n + plain_bits xs"
| "plain_bits (Sym m s # xs) = plain_bits xs"

lemma enc_ops_plain: "snd (fst (enc_ops xs st)) = snd (fst st) + plain_bits xs"
proof (induction xs arbitrary: st)
  case (Cons x xs)
  then show ?case by (cases x; cases st) auto
qed simp

lemma st_ok_init: "st_ok enc_init" by (simp add: enc_init_def)

lemma st_ok_ops: "list_all op_ok xs \<Longrightarrow> st_ok st \<Longrightarrow> st_ok (enc_ops xs st)"
  by (induction xs arbitrary: st) (auto simp: st_ok_step)

lemma range_log_mono_scaled:
  assumes "65536 \<le> R" "R < 16777216" "1 \<le> R1" "R1 \<le> R"
  shows "range_log (R1 * 256 ^ renorm_count R1) \<le> range_log R + 8 * renorm_count R1"
proof -
  let ?j = "renorm_count R1" let ?R = "R1 * 256 ^ ?j"
  have b: "65536 \<le> ?R" "?R < 16777216" using renorm_count_range assms by simp_all
  have "(2::int) ^ range_log ?R \<le> ?R" by (rule range_log(1) [OF b])
  also have "\<dots> \<le> R * 256 ^ ?j" using assms(4) by simp
  also have "\<dots> < 2 ^ Suc (range_log R) * 256 ^ ?j"
    using range_log(2) [OF assms(1,2)] by (simp del: power_Suc)
  also have "\<dots> = (2::int) ^ (Suc (range_log R) + 8 * ?j)" by (simp only: power_add power_mult) simp
  finally have "range_log ?R < Suc (range_log R) + 8 * ?j" by (rule power_less_imp_less_exp [rotated]) simp
  then show ?thesis by simp
qed

lemma enc_left_step: "op_ok x \<Longrightarrow> st_ok st \<Longrightarrow> enc_left N (enc_op x st) \<le> enc_left N st"
proof -
  assume ok: "op_ok x" and st: "st_ok st"
  obtain P L T R k where e: "st = ((P, L), (T, R, k))" by (cases st) auto
  show ?thesis
  proof (cases x)
    case (Sym m s)
    have ok': "ac_symbol_ok m s" and R: "65536 \<le> R" "R < 16777216" using ok st e Sym by simp_all
    note sp = enc_op_Sym [OF ok' R]
    have "R div 1024 * uint (sym_range (m ! s)) \<le> R" using sp(4-6) by linarith
    from range_log_mono_scaled [OF R sp(2) this] show ?thesis unfolding e Sym sp(1) by simp
  qed (simp add: e)
qed

lemma enc_left_ops:
  "list_all op_ok xs \<Longrightarrow> st_ok st \<Longrightarrow> enc_left N (enc_ops xs st) \<le> enc_left N st"
proof (induction xs arbitrary: st)
  case (Cons x xs)
  then have "enc_left N (enc_ops xs (enc_op x st)) \<le> enc_left N (enc_op x st)"
    using st_ok_step [of x st] by simp
  also have "\<dots> \<le> enc_left N st" using Cons.prems enc_left_step by simp
  finally show ?case by simp
qed simp

lemma written_good:
  assumes ok: "list_all op_ok xs" and w: "written xs mem w"
  shows "wr_wf w" "length (buf (buffer w)) = length mem" "wr_good w (enc_ops xs enc_init)"
    "\<not> meets (buffer w)" "get_bits_left w = enc_left (length mem) (enc_ops xs enc_init)"
proof -
  let ?s = "lc3_setup_bits LC3_BITS_MODE_WRITE mem"
  obtain w' where t: "wr_ops xs ?s = Some w'" "wr_wf w'" "length (buf (buffer w')) = length (buf (buffer ?s))"
    "\<And>st. wr_good ?s st \<Longrightarrow> meets (buffer w') \<or> wr_good w' (enc_ops xs st)"
    by (rule wr_ops_total [OF setup_write(1) ok]) blast
  then have e: "w' = w" using w by (simp add: written_def)
  show wf: "wr_wf w" and len: "length (buf (buffer w)) = length mem"
    using t e by (simp_all add: setup_write(3))
  show nm: "\<not> meets (buffer w)"
    using wr_bits_left_meets [OF wf] w by (auto simp: written_def)
  then show g: "wr_good w (enc_ops xs enc_init)"
    using t(4) [OF setup_write(2)] e by simp
  show "get_bits_left w = enc_left (length mem) (enc_ops xs enc_init)"
    using wr_bits_left [OF wf g nm] len by simp
qed

lemma written_dec:
  assumes ok: "list_all op_ok xs" and w: "written xs mem w"
  shows "length (stream_of w) = length mem" "dec_ok (stream_of w) (enc_ops xs enc_init)"
    "snd (fst (enc_ops xs enc_init)) \<le> 8 * length (stream_of w)"
proof -
  note g = written_good [OF ok w]
  have "0 \<le> get_bits_left w" using w by (simp add: written_def)
  from lc3_flush_spec [OF g(1,3) this] g(2)
  show len: "length (stream_of w) = length mem" and "dec_ok (stream_of w) (enc_ops xs enc_init)" by simp_all
  obtain P L T R k where e: "enc_ops xs enc_init = ((P, L), (T, R, k))" by (metis prod.exhaust)
  have "range_log R \<le> 23" by (simp add: range_log_def)
  then have "L \<le> 8 * length mem" using g(5) w unfolding e by (simp add: written_def)
  then show "snd (fst (enc_ops xs enc_init)) \<le> 8 * length (stream_of w)" by (simp add: e len)
qed

text \<open>Room at the end is room before: the bits left only go down.\<close>

lemma written_prefix:
  assumes ok: "list_all op_ok (xs @ ys)" and w: "written (xs @ ys) mem w"
    and w1: "wr_ops xs (lc3_setup_bits LC3_BITS_MODE_WRITE mem) = Some w1"
  shows "written xs mem w1"
proof -
  let ?w = "lc3_setup_bits LC3_BITS_MODE_WRITE mem" and ?m = "enc_ops xs enc_init"
  have okx: "list_all op_ok xs" and oky: "list_all op_ok ys" using ok by simp_all
  note wg = written_good [OF ok w]
  have "0 \<le> enc_left (length mem) (enc_ops ys ?m)" using wg(5) w by (simp add: written_def)
  then have lm: "0 \<le> enc_left (length mem) ?m"
    using enc_left_ops [OF oky st_ok_ops [OF okx st_ok_init], of "length mem"] by simp
  obtain w' where t: "wr_ops xs ?w = Some w'" "wr_wf w'"
    "length (buf (buffer w')) = length (buf (buffer ?w))"
    "\<And>st. wr_good ?w st \<Longrightarrow> meets (buffer w') \<or> wr_good w' (enc_ops xs st)"
    by (rule wr_ops_total [OF setup_write(1) okx]) blast
  have w': "w' = w1" using t(1) w1 by simp
  obtain w'' where t2: "wr_ops ys w1 = Some w''" "meets (buffer w1) \<Longrightarrow> meets (buffer w'')"
    by (rule wr_ops_total [OF t(2) [unfolded w'] oky]) blast
  have "w'' = w" using t2(1) w w1 by (simp add: written_def wr_ops_append)
  then have nm: "\<not> meets (buffer w1)" using t2(2) wg(4) by blast
  then have g: "wr_good w1 ?m" using t(4) [OF setup_write(2)] w' by simp
  have "get_bits_left w1 = enc_left (length mem) ?m"
    using wr_bits_left [OF t(2) [unfolded w'] g nm] t(3) w' by (simp add: setup_write(3))
  then show ?thesis using w1 lm by (simp add: written_def)
qed

text \<open>
  The operations of a stream, read in order, give back their values. Between any two of
  them, once 22 plain bits have been written, the reader counts the bits left as the writer did.
\<close>

lemma written_read:
  assumes ok: "list_all op_ok (xs @ ys)" and w: "written (xs @ ys) mem w"
  obtains r1 r2 where "rd_ops xs (lc3_setup_bits LC3_BITS_MODE_READ (stream_of w)) = Some r1"
    and "rd_ops ys r1 = Some r2" and "\<not> ac_error (ac r1)" and "\<not> ac_error (ac r2)"
    and "\<And>w1. 22 \<le> plain_bits xs \<Longrightarrow> wr_ops xs (lc3_setup_bits LC3_BITS_MODE_WRITE mem) = Some w1 \<Longrightarrow>
      get_bits_left r1 = get_bits_left w1 \<and> 0 \<le> get_bits_left w1"
    and "22 \<le> plain_bits (xs @ ys) \<Longrightarrow> get_bits_left r2 = get_bits_left w"
proof -
  let ?B = "stream_of w" let ?s = "lc3_setup_bits LC3_BITS_MODE_READ ?B"
  let ?m = "enc_ops xs enc_init" let ?e = "enc_ops ys ?m"
  note wd = written_dec [OF ok w]
  note wg = written_good [OF ok w]
  have okx: "list_all op_ok xs" and oky: "list_all op_ok ys" using ok by simp_all
  have stm: "st_ok ?m" and ste: "st_ok ?e" using st_ok_ops okx oky st_ok_init by blast+
  have de: "dec_ok ?B ?e" using wd(2) by simp
  have dm: "dec_ok ?B ?m" by (rule dec_ok_backs [OF oky stm de])
  have Le: "snd (fst ?e) \<le> 8 * length ?B" using wd(3) by simp
  then have Lm: "snd (fst ?m) \<le> 8 * length ?B" using enc_ops_L [of ?m ys] by simp
  obtain r1 where r1: "rd_ops xs ?s = Some r1" "rd_good ?B r1 ?m"
    using rd_ops_good [OF okx st_ok_init dm Lm setup_read] by blast
  obtain r2 where r2: "rd_ops ys r1 = Some r2" "rd_good ?B r2 ?e"
    using rd_ops_good [OF oky stm de Le r1(2)] by blast
  have left: "get_bits_left r = enc_left (length mem) st"
    if g: "rd_good ?B r st" and st: "st_ok st" and l: "0 \<le> enc_left (length mem) st"
      and p: "22 \<le> snd (fst st)" for r st
  proof -
    obtain P L T R k where e: "st = ((P, L), (T, R, k))" by (cases st) auto
    have R: "65536 \<le> R" "R < 16777216" using st by (simp_all add: e)
    have "range_log R \<le> 23" by (rule range_log(4) [OF R])
    then have "k + 3 \<le> length ?B" using l p wd(1) by (simp add: e)
    from rd_bits_left [OF g [unfolded e] R this] show ?thesis by (simp add: e wd(1))
  qed
  have le: "0 \<le> enc_left (length mem) ?e" using wg(5) w by (simp add: written_def)
  then have lm: "0 \<le> enc_left (length mem) ?m" using enc_left_ops [OF oky stm, of "length mem"] by simp
  have ne: "\<not> ac_error (ac r)" if "rd_good ?B r st" for r st
    using that by (cases st) (auto simp: ac_rd_def)
  show thesis
  proof (rule that [OF r1(1) r2(1) ne [OF r1(2)] ne [OF r2(2)]])
    show "get_bits_left r2 = get_bits_left w" if "22 \<le> plain_bits (xs @ ys)"
    proof -
      have "22 \<le> snd (fst ?e)" using that enc_ops_plain [of "xs @ ys" enc_init] by simp
      from left [OF r2(2) ste le this] show ?thesis by (simp add: wg(5))
    qed
    fix w1 assume p: "22 \<le> plain_bits xs" and w1: "wr_ops xs (lc3_setup_bits LC3_BITS_MODE_WRITE mem) = Some w1"
    have "22 \<le> snd (fst ?m)" using p enc_ops_plain [of xs enc_init] by simp
    note l = left [OF r1(2) stm lm this]
    have "written xs mem w1" by (rule written_prefix [OF ok w w1])
    from written_good(5) [OF okx this] l this
    show "get_bits_left r1 = get_bits_left w1 \<and> 0 \<le> get_bits_left w1" by (simp add: written_def)
  qed
qed


lemma written_total:
  assumes "list_all op_ok xs"
  shows "\<exists>w. wr_ops xs (lc3_setup_bits LC3_BITS_MODE_WRITE mem) = Some w"
  using wr_ops_total [OF setup_write(1) assms] by metis

section \<open>Loops of puts and gets\<close>

lemma for_each_wr:
  assumes "\<And>x bits. x \<in> set xs \<Longrightarrow> f x bits = wr_ops (g x) bits"
  shows "for_each f xs bits = wr_ops (concat (map g xs)) bits"
  using assms
proof (induction xs arbitrary: bits)
  case (Cons x xs)
  then have "f x bits = wr_ops (g x) bits"
    and "for_each f xs = wr_ops (concat (map g xs))" by auto
  then show ?case by (simp add: wr_ops_append)
qed simp

lemma for_each_rd:
  assumes "\<And>x d bits bits'. x \<in> set xs \<Longrightarrow> rd_ops (g x) bits = Some bits' \<Longrightarrow>
    f x (d, bits) = Some (upd x d, bits')"
    and "rd_ops (concat (map g xs)) bits = Some bits'"
  shows "for_each f xs (d, bits) = Some (fold upd xs d, bits')"
  using assms
proof (induction xs arbitrary: d bits)
  case (Cons x xs)
  obtain bits1 where 1: "rd_ops (g x) bits = Some bits1" "rd_ops (concat (map g xs)) bits1 = Some bits'"
    using Cons.prems(2) by (auto simp: rd_ops_append bind_eq_Some_conv)
  have "f x (d, bits) = Some (upd x d, bits1)" using Cons.prems(1) [OF _ 1(1)] by simp
  moreover have "for_each f xs (upd x d, bits1) = Some (fold upd xs (upd x d), bits')"
    by (rule Cons.IH [OF _ 1(2)]) (use Cons.prems(1) in auto)
  ultimately show ?case by simp
qed simp

section \<open>The models of the tables\<close>

text \<open>A model as the tables give it: the pairs of the bound and the range of each symbol.\<close>

definition ac_model :: "(int \<times> int) list \<Rightarrow> lc3_ac_model" where
  "ac_model xs = map (\<lambda>(l, r). AcSymbol (word_of_int l) (word_of_int r)) xs"

text \<open>The same condition as \<open>ac_model_wf\<close>, on the pairs.\<close>

fun ac_chain :: "int \<Rightarrow> (int \<times> int) list \<Rightarrow> bool" where
  "ac_chain l [] = (l = 1024)"
| "ac_chain l ((lo, r) # xs) = (lo = l \<and> 0 \<le> r \<and> l \<le> 1024 \<and> ac_chain (l + r) xs)"

lemma ac_chain_le: "ac_chain l xs \<Longrightarrow> l \<le> 1024"
  by (cases "(l, xs)" rule: ac_chain.cases) auto

lemma ac_chain_nth:
  "ac_chain l xs \<Longrightarrow> 0 \<le> l \<Longrightarrow> i < length xs \<Longrightarrow>
   l \<le> fst (xs ! i) \<and> 0 \<le> snd (xs ! i) \<and> fst (xs ! i) + snd (xs ! i) \<le> 1024 \<and>
   fst (xs ! i) + snd (xs ! i) = (if Suc i < length xs then fst (xs ! Suc i) else 1024)"
proof (induction xs arbitrary: l i)
  case (Cons x xs)
  obtain lo r where x: "x = (lo, r)" by (cases x)
  have c: "lo = l" "0 \<le> r" "ac_chain (l + r) xs" using Cons.prems(1) by (simp_all add: x)
  show ?case
  proof (cases i)
    case 0
    show ?thesis
      using c ac_chain_le [OF c(3)] by (cases xs) (auto simp: x 0)
  next
    case (Suc j)
    then have "j < length xs" using Cons.prems(3) by simp
    from Cons.IH [OF c(3) _ this] show ?thesis using Cons.prems(2) c(2) by (simp add: Suc)
  qed
qed simp

lemma ac_model_nth:
  assumes "length xs = 17" "ac_chain 0 xs" "i \<le> 16"
  shows "uint (sym_low (ac_model xs ! i)) = fst (xs ! i)"
    and "uint (sym_range (ac_model xs ! i)) = snd (xs ! i)"
proof -
  have i: "i < length xs" using assms by simp
  from ac_chain_nth [OF assms(2) _ i]
  have "0 \<le> fst (xs ! i)" "fst (xs ! i) \<le> 1024" "0 \<le> snd (xs ! i)" "snd (xs ! i) \<le> 1024" by auto
  then show "uint (sym_low (ac_model xs ! i)) = fst (xs ! i)"
    and "uint (sym_range (ac_model xs ! i)) = snd (xs ! i)"
    using i by (simp_all add: ac_model_def case_prod_beta uint_word_of_int)
qed

lemma ac_model_chain:
  assumes "length xs = 17" "ac_chain 0 xs"
  shows "ac_model_wf (ac_model xs)"
proof -
  note nth = ac_model_nth [OF assms]
  have 0: "fst (xs ! 0) = 0" using assms by (cases xs) auto
  have step: "fst (xs ! i) + snd (xs ! i) = (if Suc i < 17 then fst (xs ! Suc i) else 1024)" if "i \<le> 16" for i
    using ac_chain_nth [OF assms(2), of i] assms(1) that by simp
  have "uint (sym_low (ac_model xs ! 0)) = 0" using nth(1) [of 0] 0 by simp
  then have "sym_low (ac_model xs ! 0) = 0" by (simp add: uint_0_iff)
  then show ?thesis
    using assms(1) step nth by (simp add: ac_model_wf_def) (simp add: ac_model_def)
qed

lemma ac_model_ok:
  assumes "length xs = 17" "ac_chain 0 xs" "i \<le> 16" "snd (xs ! i) \<noteq> 0"
  shows "ac_symbol_ok (ac_model xs) i"
  using ac_model_chain [OF assms(1,2)] ac_model_nth(2) [OF assms(1-3)] assms(3,4)
  by (auto simp: ac_symbol_ok_def)

lemma ac_model_all_ok:
  assumes "length xs = 17" "ac_chain 0 xs" "list_all (\<lambda>p. snd p \<noteq> 0) xs"
  shows "\<forall>s \<le> 16. ac_symbol_ok (ac_model xs) s"
  using ac_model_ok [OF assms(1,2)] assms(1,3) by (simp add: list_all_length)

section \<open>The interface of a field of the bitstream\<close>

text \<open>
  A field is put by one function and got by another. What the put does is a list of
  operations, that depends on the value only; the get consumes the same list and returns a
  view of the value. \<open>valid\<close> is the range of values that the encoder produces.
\<close>

locale field_codec =
  fixes put :: "'a \<Rightarrow> lc3_bits \<Rightarrow> lc3_bits option"
    and get :: "lc3_bits \<Rightarrow> ('b \<times> lc3_bits) option"
    and ops :: "'a \<Rightarrow> bit_op list"
    and view :: "'a \<Rightarrow> 'b"
    and valid :: "'a \<Rightarrow> bool"
  assumes put_ops: "valid x \<Longrightarrow> put x bits = wr_ops (ops x) bits"
    and ops_ok: "valid x \<Longrightarrow> list_all op_ok (ops x)"
    and get_ops: "valid x \<Longrightarrow> rd_ops (ops x) bits = Some bits' \<Longrightarrow> get bits = Some (view x, bits')"
begin

lemma put_total:
  assumes "valid x" and "wr_wf bits"
  obtains bits' where "put x bits = Some bits'" "wr_wf bits'"
    "length (buf (buffer bits')) = length (buf (buffer bits))"
  using wr_ops_total [OF assms(2) ops_ok [OF assms(1)]] put_ops [OF assms(1)] by metis

text \<open>Whatever is written before and after it, a field is read back.\<close>

lemma field_roundtrip:
  assumes v: "valid x" and ok: "list_all op_ok xs" "list_all op_ok ys"
    and w: "wr_ops xs (lc3_setup_bits LC3_BITS_MODE_WRITE mem) = Some w0" "put x w0 = Some w1"
      "wr_ops ys w1 = Some w"
    and left: "0 \<le> get_bits_left w"
  shows "\<exists>r0 r1 r. rd_ops xs (lc3_setup_bits LC3_BITS_MODE_READ (stream_of w)) = Some r0 \<and>
    get r0 = Some (view x, r1) \<and> rd_ops ys r1 = Some r"
proof -
  have oks: "list_all op_ok ((xs @ ops x) @ ys)" using ok ops_ok [OF v] by simp
  have "written ((xs @ ops x) @ ys) mem w"
    using w left by (simp add: written_def wr_ops_append put_ops [OF v])
  from written_read [OF oks this] obtain r1 r2
    where "rd_ops (xs @ ops x) (lc3_setup_bits LC3_BITS_MODE_READ (stream_of w)) = Some r1"
      "rd_ops ys r1 = Some r2" by metis
  then show ?thesis
    using get_ops [OF v] by (auto simp: rd_ops_append bind_eq_Some_conv)
qed

lemma field_alone:
  assumes v: "valid x" and w: "put x (lc3_setup_bits LC3_BITS_MODE_WRITE mem) = Some w"
    and left: "0 \<le> get_bits_left w"
  shows "\<exists>r. get (lc3_setup_bits LC3_BITS_MODE_READ (stream_of w)) = Some (view x, r)"
  using field_roundtrip [OF v, of "[]" "[]" mem _ w w] w left by auto

end

text \<open>
  Two fields one after the other, where how the second is coded may depend on what a reader
  has seen of the first: again a field.
\<close>

locale field_seq =
  first: field_codec put1 get1 ops1 view1 valid1
  for put1 :: "'a \<Rightarrow> lc3_bits \<Rightarrow> lc3_bits option" and get1 and ops1 and view1 :: "'a \<Rightarrow> 'b" and valid1 +
  fixes put2 :: "'b \<Rightarrow> 'c \<Rightarrow> lc3_bits \<Rightarrow> lc3_bits option"
    and get2 :: "'b \<Rightarrow> lc3_bits \<Rightarrow> ('d \<times> lc3_bits) option"
    and ops2 :: "'b \<Rightarrow> 'c \<Rightarrow> bit_op list"
    and view2 :: "'b \<Rightarrow> 'c \<Rightarrow> 'd"
    and valid2 :: "'b \<Rightarrow> 'c \<Rightarrow> bool"
  assumes second: "valid1 x \<Longrightarrow>
    field_codec (put2 (view1 x)) (get2 (view1 x)) (ops2 (view1 x)) (view2 (view1 x)) (valid2 (view1 x))"
begin

lemma second_at:
  assumes "valid1 x" "valid2 (view1 x) y"
  shows "put2 (view1 x) y bits = wr_ops (ops2 (view1 x) y) bits"
    and "list_all op_ok (ops2 (view1 x) y)"
    and "rd_ops (ops2 (view1 x) y) bits = Some bits' \<Longrightarrow>
      get2 (view1 x) bits = Some (view2 (view1 x) y, bits')"
  using second [OF assms(1)] assms(2)
  by (simp_all add: field_codec.put_ops field_codec.ops_ok field_codec.get_ops)

end

sublocale field_seq \<subseteq> seq: field_codec
  "\<lambda>(x, y) bits. Option.bind (put1 x bits) (put2 (view1 x) y)"
  "\<lambda>bits. Option.bind (get1 bits) (\<lambda>(b, bits). map_option (\<lambda>(d, bits). ((b, d), bits)) (get2 b bits))"
  "\<lambda>(x, y). ops1 x @ ops2 (view1 x) y"
  "\<lambda>(x, y). (view1 x, view2 (view1 x) y)"
  "\<lambda>(x, y). valid1 x \<and> valid2 (view1 x) y"
proof (unfold_locales, goal_cases)
  case (1 z bits)
  then show ?case
    by (cases z) (simp add: first.put_ops second_at(1) wr_ops_append cong: Option.bind_cong)
next
  case (2 z)
  then show ?case by (cases z) (simp add: first.ops_ok second_at(2))
next
  case (3 z bits bits')
  then show ?case
    by (cases z) (auto simp: rd_ops_append bind_eq_Some_conv first.get_ops second_at(3))
qed


section \<open>Properties\<close>

text \<open>
  C9. Whatever valid sequence of plain values and symbols is put on a stream, if the stream
  has room for it (\<open>get_bits_left\<close> is not negative at the end), the flushed buffer has its
  size, and reading the same sequence from it gives back every value and every symbol, with
  no error raised. At any point past the first 22 plain bits, the reader counts as many bits
  left as the writer did.
\<close>

theorem stream_roundtrip:
  assumes ok: "list_all op_ok (xs @ ys)"
    and w: "wr_ops (xs @ ys) (lc3_setup_bits LC3_BITS_MODE_WRITE mem) = Some w"
    and left: "0 \<le> get_bits_left w"
  shows "length (stream_of w) = length mem \<and>
    (\<exists>r1 r2. rd_ops xs (lc3_setup_bits LC3_BITS_MODE_READ (stream_of w)) = Some r1 \<and>
       rd_ops ys r1 = Some r2 \<and> \<not> ac_error (ac r1) \<and> \<not> ac_error (ac r2) \<and>
       (22 \<le> plain_bits xs \<longrightarrow>
          (\<exists>w1. wr_ops xs (lc3_setup_bits LC3_BITS_MODE_WRITE mem) = Some w1 \<and>
             get_bits_left r1 = get_bits_left w1)))"
proof -
  have wr: "written (xs @ ys) mem w" using w left by (simp add: written_def)
  obtain w1 where w1: "wr_ops xs (lc3_setup_bits LC3_BITS_MODE_WRITE mem) = Some w1"
    using written_total [of xs mem] ok by auto
  obtain r1 r2 where "rd_ops xs (lc3_setup_bits LC3_BITS_MODE_READ (stream_of w)) = Some r1"
    "rd_ops ys r1 = Some r2" "\<not> ac_error (ac r1)" "\<not> ac_error (ac r2)"
    "22 \<le> plain_bits xs \<Longrightarrow> get_bits_left r1 = get_bits_left w1"
    using written_read [OF ok wr] w1 by metis
  then show ?thesis using written_dec(1) [OF ok wr] w1 by blast
qed

definition sample_model :: lc3_ac_model where
  "sample_model = ac_model [(0, 14), (14, 42), (56, 100), (156, 157), (313, 181), (494, 178),
     (672, 167), (839, 185), (1024, 0), (1024, 0), (1024, 0), (1024, 0), (1024, 0), (1024, 0),
     (1024, 0), (1024, 0), (1024, 0)]"

lemma sample_model_ok: "s < 8 \<Longrightarrow> ac_symbol_ok sample_model s"
proof -
  assume "s < 8"
  then have "s \<in> {0, 1, 2, 3, 4, 5, 6, 7}" unfolding insert_iff empty_iff by arith
  then show ?thesis by (elim insertE emptyE) (auto simp: sample_model_def intro!: ac_model_ok)
qed

definition sample_ops :: "bit_op list" where
  "sample_ops = [Bits 5 25, Sym sample_model 3, Bits 1 1, Sym sample_model 7, Sym sample_model 0]"

lemma sample_written:
  obtains w where "wr_ops sample_ops (lc3_setup_bits LC3_BITS_MODE_WRITE (replicate 9 7)) = Some w"
    "0 \<le> get_bits_left w"
proof -
  have "case wr_ops sample_ops (lc3_setup_bits LC3_BITS_MODE_WRITE (replicate 9 7)) of
      Some w \<Rightarrow> 0 \<le> get_bits_left w | None \<Rightarrow> False" by code_simp
  then show thesis by (auto split: option.splits intro: that)
qed

theorem stream_roundtrip_witness:
  "\<exists>w r1. wr_ops sample_ops (lc3_setup_bits LC3_BITS_MODE_WRITE (replicate 9 7)) = Some w \<and>
     rd_ops (take 2 sample_ops) (lc3_setup_bits LC3_BITS_MODE_READ (stream_of w)) = Some r1 \<and>
     length (stream_of w) = 9"
proof -
  obtain w where w: "wr_ops (take 2 sample_ops @ drop 2 sample_ops)
      (lc3_setup_bits LC3_BITS_MODE_WRITE (replicate 9 7)) = Some w" "0 \<le> get_bits_left w"
    using sample_written unfolding append_take_drop_id by blast
  have ok: "list_all op_ok (take 2 sample_ops @ drop 2 sample_ops)"
    by (simp add: sample_ops_def sample_model_ok)
  from stream_roundtrip [OF ok w] w(1) show ?thesis
    unfolding append_take_drop_id length_replicate by blast
qed

text \<open>
  C21. Putting a symbol always returns: on any state of a writer, with a well-formed model and
  a symbol of non-null range, the renormalisation loop stops and the state is again one of a
  writer, the range between 16 and 24 bits.
\<close>

theorem put_symbol_returns:
  assumes "ac_symbol_ok m s" and "wr_wf bits"
  shows "\<exists>bits'. lc3_put_symbol bits m s = Some bits' \<and> wr_wf bits' \<and>
    length (buf (buffer bits')) = length (buf (buffer bits))"
proof -
  have "op_ok (Sym m s)" using assms(1) by simp
  from wr_op_step [OF assms(2) this] show ?thesis by (metis wr_op.simps(2))
qed

theorem put_symbol_returns_witness:
  "\<exists>bits'. lc3_put_symbol (lc3_setup_bits LC3_BITS_MODE_WRITE [0, 0]) sample_model 0 = Some bits'"
  using put_symbol_returns [OF sample_model_ok [of 0] setup_write(1) [of "[0, 0]"]] by auto

text \<open>
  C22. Getting a symbol always returns, on any bytes: the loop stops, the symbol is one of
  the model with a non-null range, and an error once raised stays raised.
\<close>

theorem get_symbol_returns:
  assumes "ac_model_wf m" and "rd_wf bits"
  shows "\<exists>s bits'. lc3_get_symbol bits m = Some (s, bits') \<and> s \<le> 16 \<and> sym_range (m ! s) \<noteq> 0 \<and>
    rd_wf bits' \<and> (ac_error (ac bits) \<longrightarrow> ac_error (ac bits'))"
  using lc3_get_symbol_total [OF assms] unfolding ac_symbol_ok_def by metis

theorem get_symbol_returns_witness:
  "\<exists>s bits'. lc3_get_symbol (lc3_setup_bits LC3_BITS_MODE_READ [255, 255, 255, 255]) sample_model
     = Some (s, bits') \<and> s \<le> 16"
proof -
  have "ac_model_wf sample_model" using sample_model_ok [of 0] by (simp add: ac_symbol_ok_def)
  from get_symbol_returns [OF this setup_read_wf] show ?thesis by blast
qed



end
