(* ===== verification/Tns.thy ===== *)
theory Tns
  imports BitChannel Float32 Common
begin

text \<open>
  Temporal noise shaping, \<^verbatim>\<open>tns.c\<close>, with its tables of \<^verbatim>\<open>tables.c\<close>: the analysis filter,
  the quantisation of its reflection coefficients, the two lattice filters, and the field of
  the bitstream.
\<close>

section \<open>Tables\<close>

definition lc3_tns_order_models :: "lc3_ac_model list" where
  "lc3_tns_order_models =
    [ac_model [(0, 3), (3, 9), (12, 23), (35, 54), (89, 111), (200, 190), (390, 268), (658, 366),
        (1024, 0), (1024, 0), (1024, 0), (1024, 0), (1024, 0), (1024, 0), (1024, 0), (1024, 0),
        (1024, 0)],
     ac_model [(0, 14), (14, 42), (56, 100), (156, 157), (313, 181), (494, 178), (672, 167),
        (839, 185), (1024, 0), (1024, 0), (1024, 0), (1024, 0), (1024, 0), (1024, 0),
        (1024, 0), (1024, 0), (1024, 0)]]"

definition lc3_tns_order_bits :: "int list list" where
  "lc3_tns_order_bits =
    [[17234, 13988, 11216, 8694, 6566, 4977, 3961, 3040],
     [12683, 9437, 6874, 5541, 5121, 5170, 5359, 5056]]"

definition lc3_tns_coeffs_models :: "lc3_ac_model list" where
  "lc3_tns_coeffs_models =
    [ac_model [(0, 1), (1, 5), (6, 15), (21, 31), (52, 54), (106, 86), (192, 97), (289, 120),
        (409, 159), (568, 152), (720, 111), (831, 104), (935, 59), (994, 22), (1016, 6),
        (1022, 1), (1023, 1)],
     ac_model [(0, 1), (1, 1), (2, 1), (3, 1), (4, 13), (17, 43), (60, 94), (154, 139), (293, 173),
        (466, 160), (626, 154), (780, 131), (911, 78), (989, 27), (1016, 6), (1022, 1),
        (1023, 1)],
     ac_model [(0, 1), (1, 1), (2, 1), (3, 1), (4, 9), (13, 43), (56, 106), (162, 199), (361, 217),
        (578, 210), (788, 141), (929, 74), (1003, 17), (1020, 1), (1021, 1), (1022, 1),
        (1023, 1)],
     ac_model [(0, 1), (1, 1), (2, 1), (3, 1), (4, 2), (6, 11), (17, 49), (66, 204), (270, 285),
        (555, 297), (852, 120), (972, 39), (1011, 9), (1020, 1), (1021, 1), (1022, 1), (1023, 1)],
     ac_model [(0, 1), (1, 1), (2, 1), (3, 1), (4, 1), (5, 7), (12, 42), (54, 241), (295, 341),
        (636, 314), (950, 58), (1008, 9), (1017, 3), (1020, 1), (1021, 1), (1022, 1), (1023, 1)],
     ac_model [(0, 1), (1, 1), (2, 1), (3, 1), (4, 1), (5, 1), (6, 13), (19, 205), (224, 366),
        (590, 377), (967, 47), (1014, 5), (1019, 1), (1020, 1), (1021, 1), (1022, 1), (1023, 1)],
     ac_model [(0, 1), (1, 1), (2, 1), (3, 1), (4, 1), (5, 1), (6, 13), (19, 281), (300, 330),
        (630, 371), (1001, 17), (1018, 1), (1019, 1), (1020, 1), (1021, 1), (1022, 1), (1023, 1)],
     ac_model [(0, 1), (1, 1), (2, 1), (3, 1), (4, 1), (5, 1), (6, 5), (11, 297), (308, 1),
        (309, 682), (991, 26), (1017, 2), (1019, 1), (1020, 1), (1021, 1), (1022, 1), (1023, 1)]]"

definition lc3_tns_coeffs_bits :: "int list list" where
  "lc3_tns_coeffs_bits =
    [[20480, 15725, 12479, 10334, 8694, 7320, 6964, 6335, 5504, 5637, 6566, 6758, 8433, 11348,
      15186, 20480, 20480],
     [20480, 20480, 20480, 20480, 12902, 9368, 7057, 5901, 5254, 5485, 5598, 6076, 7608, 10742,
      15186, 20480, 20480],
     [20480, 20480, 20480, 20480, 13988, 9368, 6702, 4841, 4585, 4682, 5859, 7764, 12109,
      20480, 20480, 20480, 20480],
     [20480, 20480, 20480, 20480, 18432, 13396, 8982, 4767, 3779, 3658, 6335, 9656, 13988,
      20480, 20480, 20480, 20480],
     [20480, 20480, 20480, 20480, 20480, 14731, 9437, 4275, 3249, 3493, 8483, 13988, 17234,
      20480, 20480, 20480, 20480],
     [20480, 20480, 20480, 20480, 20480, 20480, 12902, 4753, 3040, 2953, 9105, 15725, 20480,
      20480, 20480, 20480, 20480],
     [20480, 20480, 20480, 20480, 20480, 20480, 12902, 3821, 3346, 3000, 12109, 20480, 20480,
      20480, 20480, 20480, 20480],
     [20480, 20480, 20480, 20480, 20480, 20480, 15725, 3658, 20480, 1201, 10854, 18432, 20480,
      20480, 20480, 20480, 20480]]"

section \<open>Bitstream data\<close>

record lc3_tns_data =
  nfilters :: nat
  lpc_weighting :: bool
  rc_order :: "int list"
  rc :: "int list list"

definition resolve_lpc_weighting :: "lc3_dt \<Rightarrow> int \<Rightarrow> bool" where
  "resolve_lpc_weighting dt nbytes = (nbytes < (if dt = LC3_DT_7M5 then 360 div 8 else 480 div 8))"

definition tns_num_filters :: "lc3_bandwidth \<Rightarrow> nat" where
  "tns_num_filters bw = 1 + of_bool (bw \<ge> LC3_BANDWIDTH_SWB)"

definition lc3_tns_get_nbits :: "lc3_tns_data \<Rightarrow> int" where
  "lc3_tns_get_nbits data =
     foldl (\<lambda>nbits f.
       (let order = rc_order data ! f;
            nbits_2048 = 2048 + (if order > 0
              then lc3_tns_order_bits ! of_bool (lpc_weighting data) ! nat (order - 1) else 0);
            nbits_2048 = foldl (\<lambda>n i. n + lc3_tns_coeffs_bits ! i ! nat (8 + rc data ! f ! i))
              nbits_2048 [0 ..< nat order]
        in nbits + drop_bit 11 (nbits_2048 + push_bit 11 1 - 1)))
       0 [0 ..< nfilters data]"

definition tns_put_filter :: "lc3_tns_data \<Rightarrow> nat \<Rightarrow> lc3_bits \<Rightarrow> lc3_bits option" where
  "tns_put_filter data f bits =
     (let order = rc_order data ! f;
          bits = lc3_put_bits bits (of_bool (order > 0)) 1
      in if order \<le> 0 then Some bits
         else Option.bind (lc3_put_symbol bits (lc3_tns_order_models ! of_bool (lpc_weighting data)) (nat (order - 1)))
           (for_each (\<lambda>i bits. lc3_put_symbol bits (lc3_tns_coeffs_models ! i) (nat (8 + rc data ! f ! i)))
              [0 ..< nat order]))"

definition lc3_tns_put_data :: "lc3_bits \<Rightarrow> lc3_tns_data \<Rightarrow> lc3_bits option" where
  "lc3_tns_put_data bits data = for_each (tns_put_filter data) [0 ..< nfilters data] bits"

text \<open>The get fills the structure of its caller, given as \<open>data\<close>.\<close>

definition tns_get_coeff :: "nat \<Rightarrow> nat \<Rightarrow> lc3_tns_data \<times> lc3_bits \<Rightarrow> (lc3_tns_data \<times> lc3_bits) option" where
  "tns_get_coeff f i st = (case st of (data, bits) \<Rightarrow>
     map_option (\<lambda>(s, bits). (data\<lparr>rc := (rc data)[f := (rc data ! f)[i := int s - 8]]\<rparr>, bits))
       (lc3_get_symbol bits (lc3_tns_coeffs_models ! i)))"

definition tns_get_filter :: "nat \<Rightarrow> lc3_tns_data \<times> lc3_bits \<Rightarrow> (lc3_tns_data \<times> lc3_bits) option" where
  "tns_get_filter f st = (case st of (data, bits) \<Rightarrow>
     (case lc3_get_bit bits of (v, bits) \<Rightarrow>
       (let data = data\<lparr>rc_order := (rc_order data)[f := uint v]\<rparr>
        in if rc_order data ! f = 0 then Some (data, bits)
           else Option.bind (lc3_get_symbol bits (lc3_tns_order_models ! of_bool (lpc_weighting data)))
             (\<lambda>(s, bits).
                let data = data\<lparr>rc_order := (rc_order data)[f := rc_order data ! f + int s]\<rparr>
                in for_each (tns_get_coeff f) [0 ..< nat (rc_order data ! f)] (data, bits)))))"

definition lc3_tns_get_data ::
    "lc3_bits \<Rightarrow> lc3_dt \<Rightarrow> lc3_bandwidth \<Rightarrow> int \<Rightarrow> lc3_tns_data \<Rightarrow> (lc3_tns_data \<times> lc3_bits) option" where
  "lc3_tns_get_data bits dt bw nbytes data =
     (let data = data\<lparr>nfilters := tns_num_filters bw, lpc_weighting := resolve_lpc_weighting dt nbytes\<rparr>
      in for_each tns_get_filter [0 ..< nfilters data] (data, bits))"

section \<open>The tables are models\<close>

lemma tns_order_models_ok:
  assumes "s < 8"
  shows "ac_symbol_ok (lc3_tns_order_models ! of_bool b) s"
proof -
  have "s \<in> {0, 1, 2, 3, 4, 5, 6, 7}" using assms by auto
  then show ?thesis
    by (cases b; elim insertE emptyE) (auto simp: lc3_tns_order_models_def intro!: ac_model_ok)
qed

lemma tns_order_models_range: "ac_symbol_ok (lc3_tns_order_models ! of_bool b) s \<Longrightarrow> s < 8"
proof -
  assume ok: "ac_symbol_ok (lc3_tns_order_models ! of_bool b) s"
  then have "s \<le> 16" "sym_range (lc3_tns_order_models ! of_bool b ! s) \<noteq> 0" by (simp_all add: ac_symbol_ok_def)
  moreover have "s \<in> {8, 9, 10, 11, 12, 13, 14, 15, 16} \<Longrightarrow> sym_range (lc3_tns_order_models ! of_bool b ! s) = 0"
    by (cases b; elim insertE emptyE) (auto simp: lc3_tns_order_models_def ac_model_def)
  moreover have "s < 8 \<or> s \<in> {8, 9, 10, 11, 12, 13, 14, 15, 16}"
    using \<open>s \<le> 16\<close> unfolding insert_iff empty_iff by arith
  ultimately show "s < 8" by blast
qed

lemma tns_coeffs_models_ok: "i < 8 \<Longrightarrow> s \<le> 16 \<Longrightarrow> ac_symbol_ok (lc3_tns_coeffs_models ! i) s"
proof -
  have "list_all (\<lambda>m. \<forall>s \<le> 16. ac_symbol_ok m s) lc3_tns_coeffs_models"
    unfolding lc3_tns_coeffs_models_def list.pred_inject(2)
    by (intro conjI ac_model_all_ok) (simp_all add: list.pred_inject)
  moreover have "length lc3_tns_coeffs_models = 8" by (simp add: lc3_tns_coeffs_models_def)
  ultimately show "i < 8 \<Longrightarrow> s \<le> 16 \<Longrightarrow> ac_symbol_ok (lc3_tns_coeffs_models ! i) s"
    by (simp add: list_all_length)
qed


section \<open>The field of the bitstream\<close>

text \<open>What the analysis gives: orders of at most 8, coefficients of at most 8 in magnitude.\<close>

definition tns_valid :: "lc3_dt \<Rightarrow> lc3_bandwidth \<Rightarrow> int \<Rightarrow> lc3_tns_data \<Rightarrow> bool" where
  "tns_valid dt bw nbytes data \<longleftrightarrow>
     nfilters data = tns_num_filters bw \<and> lpc_weighting data = resolve_lpc_weighting dt nbytes \<and>
     length (rc_order data) = 2 \<and> length (rc data) = 2 \<and>
     (\<forall>f < nfilters data. 0 \<le> rc_order data ! f \<and> rc_order data ! f \<le> 8 \<and> length (rc data ! f) = 8 \<and>
        (\<forall>i < nat (rc_order data ! f). \<bar>rc data ! f ! i\<bar> \<le> 8))"

definition tns_filter_ops :: "lc3_tns_data \<Rightarrow> nat \<Rightarrow> bit_op list" where
  "tns_filter_ops data f =
     Bits (of_bool (rc_order data ! f > 0)) 1 #
       (if rc_order data ! f \<le> 0 then [] else
          Sym (lc3_tns_order_models ! of_bool (lpc_weighting data)) (nat (rc_order data ! f - 1)) #
          concat (map (\<lambda>i. [Sym (lc3_tns_coeffs_models ! i) (nat (8 + rc data ! f ! i))])
            [0 ..< nat (rc_order data ! f)]))"

definition tns_ops :: "lc3_tns_data \<Rightarrow> bit_op list" where
  "tns_ops data = concat (map (tns_filter_ops data) [0 ..< nfilters data])"

text \<open>What a reader fills of its structure \<open>old\<close>, for one filter and for all.\<close>

definition tns_fill_filter :: "lc3_tns_data \<Rightarrow> nat \<Rightarrow> lc3_tns_data \<Rightarrow> lc3_tns_data" where
  "tns_fill_filter data f old =
     fold (\<lambda>i d. d\<lparr>rc := (rc d)[f := (rc d ! f)[i := rc data ! f ! i]]\<rparr>) [0 ..< nat (rc_order data ! f)]
       (old\<lparr>rc_order := (rc_order old)[f := rc_order data ! f]\<rparr>)"

definition tns_fill :: "lc3_tns_data \<Rightarrow> lc3_tns_data \<Rightarrow> lc3_tns_data" where
  "tns_fill old data = fold (tns_fill_filter data) [0 ..< nfilters data]
     (old\<lparr>nfilters := nfilters data, lpc_weighting := lpc_weighting data\<rparr>)"

lemma tns_ops_ok:
  assumes "tns_valid dt bw nbytes data"
  shows "list_all op_ok (tns_ops data)"
proof -
  have "list_all op_ok (tns_filter_ops data f)" if f: "f < nfilters data" for f
  proof -
    have o: "0 \<le> rc_order data ! f" "rc_order data ! f \<le> 8"
      and c: "\<And>i. i < nat (rc_order data ! f) \<Longrightarrow> \<bar>rc data ! f ! i\<bar> \<le> 8"
      using assms f by (auto simp: tns_valid_def)
    have "op_ok (Sym (lc3_tns_coeffs_models ! i) (nat (8 + rc data ! f ! i)))" if "i < nat (rc_order data ! f)" for i
      using c [OF that] that o by (auto intro!: tns_coeffs_models_ok)
    moreover have "op_ok (Sym (lc3_tns_order_models ! of_bool (lpc_weighting data)) (nat (rc_order data ! f - 1)))"
      if "\<not> rc_order data ! f \<le> 0"
      unfolding op_ok.simps by (rule tns_order_models_ok) (use o that in linarith)
    moreover have "op_ok (Bits (of_bool (rc_order data ! f > 0)) 1)" by simp
    ultimately show ?thesis
      unfolding tns_filter_ops_def by (cases "rc_order data ! f \<le> 0") (auto simp: list_all_iff simp del: op_ok.simps)
  qed
  then show ?thesis by (auto simp: tns_ops_def list_all_iff)
qed

lemma tns_put_ops: "lc3_tns_put_data bits data = wr_ops (tns_ops data) bits"
proof -
  have "tns_put_filter data f bits = wr_ops (tns_filter_ops data f) bits" for f bits
    by (simp add: tns_put_filter_def tns_filter_ops_def Let_def for_each_wr [where g = "\<lambda>i.
        [Sym (lc3_tns_coeffs_models ! i) (nat (8 + rc data ! f ! i))]"] fun_eq_iff cong: Option.bind_cong)
  then show ?thesis by (simp add: lc3_tns_put_data_def tns_ops_def for_each_wr)
qed

lemma tns_get_filter_ops:
  assumes v: "tns_valid dt bw nbytes data" and f: "f < nfilters data"
    and old: "lpc_weighting old = lpc_weighting data" "length (rc_order old) = 2"
    and rd: "rd_ops (tns_filter_ops data f) bits = Some bits'"
  shows "tns_get_filter f (old, bits) = Some (tns_fill_filter data f old, bits')"
proof -
  have o: "0 \<le> rc_order data ! f" "rc_order data ! f \<le> 8" and n2: "nfilters data \<le> 2"
    and c: "\<And>i. i < nat (rc_order data ! f) \<Longrightarrow> \<bar>rc data ! f ! i\<bar> \<le> 8"
    using v f by (auto simp: tns_valid_def tns_num_filters_def)
  have f2: "f < length (rc_order old)" using f n2 old by simp
  show ?thesis
  proof (cases "rc_order data ! f \<le> 0")
    case True
    then have "lc3_get_bits bits 1 = (0, bits')"
      using rd by (auto simp: tns_filter_ops_def rd_ops_Bits simp del: rd_ops.simps(2))
    then show ?thesis
      using True o f2 by (simp add: tns_get_filter_def lc3_get_bit_def tns_fill_filter_def Let_def)
  next
    case False
    then obtain b1 b2 where 1: "lc3_get_bits bits 1 = (1, b1)"
      and 2: "lc3_get_symbol b1 (lc3_tns_order_models ! of_bool (lpc_weighting data))
        = Some (nat (rc_order data ! f - 1), b2)"
      and 3: "rd_ops (concat (map (\<lambda>i. [Sym (lc3_tns_coeffs_models ! i) (nat (8 + rc data ! f ! i))])
            [0 ..< nat (rc_order data ! f)])) b2 = Some bits'"
      using rd by (auto simp: tns_filter_ops_def rd_ops_Bits rd_ops_Sym simp del: rd_ops.simps(2))
    have "for_each (tns_get_coeff f) [0 ..< nat (rc_order data ! f)] (d, b2) =
        Some (fold (\<lambda>i d. d\<lparr>rc := (rc d)[f := (rc d ! f)[i := rc data ! f ! i]]\<rparr>) [0 ..< nat (rc_order data ! f)] d, bits')"
      for d
    proof (rule for_each_rd [OF _ 3])
      fix i d bits bits'
      assume "i \<in> set [0 ..< nat (rc_order data ! f)]"
        and r: "rd_ops [Sym (lc3_tns_coeffs_models ! i) (nat (8 + rc data ! f ! i))] bits = Some bits'"
      then have "\<bar>rc data ! f ! i\<bar> \<le> 8" using c by simp
      then have "int (nat (8 + rc data ! f ! i)) - 8 = rc data ! f ! i" by simp
      then show "tns_get_coeff f i (d, bits)
          = Some (d\<lparr>rc := (rc d)[f := (rc d ! f)[i := rc data ! f ! i]]\<rparr>, bits')"
        using r by (auto simp: tns_get_coeff_def rd_ops_Sym simp del: rd_ops.simps(2))
    qed
    moreover have "1 + int (nat (rc_order data ! f - 1)) = rc_order data ! f" using False by simp
    ultimately show ?thesis
      using 1 2 f2 old by (simp add: tns_get_filter_def lc3_get_bit_def tns_fill_filter_def Let_def)
  qed
qed

lemma tns_fill_filter_frame:
  "lpc_weighting (tns_fill_filter data f old) = lpc_weighting old"
  "nfilters (tns_fill_filter data f old) = nfilters old"
  "length (rc_order (tns_fill_filter data f old)) = length (rc_order old)"
proof -
  have "lpc_weighting (fold (\<lambda>i d. d\<lparr>rc := g i d\<rparr>) xs d) = lpc_weighting d \<and>
    nfilters (fold (\<lambda>i d. d\<lparr>rc := g i d\<rparr>) xs d) = nfilters d \<and>
    rc_order (fold (\<lambda>i d. d\<lparr>rc := g i d\<rparr>) xs d) = rc_order d"
    for g :: "nat \<Rightarrow> lc3_tns_data \<Rightarrow> int list list" and xs :: "nat list" and d
    by (induction xs arbitrary: d) auto
  then show "lpc_weighting (tns_fill_filter data f old) = lpc_weighting old"
    "nfilters (tns_fill_filter data f old) = nfilters old"
    "length (rc_order (tns_fill_filter data f old)) = length (rc_order old)"
    by (simp_all add: tns_fill_filter_def)
qed


text \<open>Two filters at most, each with its own model: the field is a codec.\<close>

interpretation tns: field_codec
  "\<lambda>data bits. lc3_tns_put_data bits data"
  "\<lambda>bits. lc3_tns_get_data bits dt bw nbytes old"
  tns_ops "tns_fill old" "\<lambda>data. tns_valid dt bw nbytes data \<and> length (rc_order old) = 2"
  for dt bw nbytes old
proof (unfold_locales, goal_cases)
  case (1 data bits)
  show ?case by (rule tns_put_ops)
next
  case (2 data)
  then show ?case using tns_ops_ok by blast
next
  case (3 data bits bits')
  then have v: "tns_valid dt bw nbytes data" and len: "length (rc_order old) = 2" by simp_all
  have hd: "tns_num_filters bw = nfilters data" "resolve_lpc_weighting dt nbytes = lpc_weighting data"
    using v by (simp_all add: tns_valid_def)
  have "for_each tns_get_filter fs (d, bits) = Some (fold (tns_fill_filter data) fs d, bits')"
    if "\<forall>f \<in> set fs. f < nfilters data" "lpc_weighting d = lpc_weighting data" "length (rc_order d) = 2"
      "rd_ops (concat (map (tns_filter_ops data) fs)) bits = Some bits'" for fs d bits
    using that
  proof (induction fs arbitrary: d bits)
    case (Cons f fs)
    obtain b1 where 1: "rd_ops (tns_filter_ops data f) bits = Some b1"
      "rd_ops (concat (map (tns_filter_ops data) fs)) b1 = Some bits'"
      using Cons.prems(4) by (auto simp: rd_ops_append bind_eq_Some_conv)
    have "f < nfilters data" using Cons.prems(1) by simp
    from tns_get_filter_ops [OF v this Cons.prems(2,3) 1(1)]
    have "tns_get_filter f (d, bits) = Some (tns_fill_filter data f d, b1)" .
    moreover have "for_each tns_get_filter fs (tns_fill_filter data f d, b1)
        = Some (fold (tns_fill_filter data) fs (tns_fill_filter data f d), bits')"
      by (rule Cons.IH [OF _ _ _ 1(2)]) (use Cons.prems in \<open>simp_all add: tns_fill_filter_frame\<close>)
    ultimately show ?case by simp
  qed simp
  from this [of "[0 ..< nfilters data]" _ bits] 3(2) len
  show ?case by (simp add: lc3_tns_get_data_def tns_fill_def tns_ops_def hd)
qed


text \<open>A reader sees the orders and the coefficients that were written.\<close>

lemma tns_fill_filter_nth:
  assumes "f < length (rc_order old)" "f < length (rc old)" "nat (rc_order data ! f) \<le> length (rc old ! f)"
  shows "rc_order (tns_fill_filter data f old) = (rc_order old)[f := rc_order data ! f]"
    and "length (rc (tns_fill_filter data f old)) = length (rc old)"
    and "g \<noteq> f \<Longrightarrow> rc (tns_fill_filter data f old) ! g = rc old ! g"
    and "length (rc (tns_fill_filter data f old) ! f) = length (rc old ! f)"
    and "i < nat (rc_order data ! f) \<Longrightarrow> rc (tns_fill_filter data f old) ! f ! i = rc data ! f ! i"
proof -
  let ?u = "\<lambda>i d. d\<lparr>rc := (rc d)[f := (rc d ! f)[i := rc data ! f ! i]]\<rparr>"
  have "rc_order (fold ?u [0 ..< n] d) = rc_order d \<and> length (rc (fold ?u [0 ..< n] d)) = length (rc d) \<and>
      (g \<noteq> f \<longrightarrow> rc (fold ?u [0 ..< n] d) ! g = rc d ! g) \<and>
      length (rc (fold ?u [0 ..< n] d) ! f) = length (rc d ! f) \<and>
      (\<forall>i < n. rc (fold ?u [0 ..< n] d) ! f ! i = rc data ! f ! i)"
    if "f < length (rc d)" "n \<le> length (rc d ! f)" for n d g
    using that
  proof (induction n)
    case (Suc n)
    then show ?case by (auto simp: nth_list_update less_Suc_eq)
  qed simp
  note all = this [of "old\<lparr>rc_order := (rc_order old)[f := rc_order data ! f]\<rparr>" "nat (rc_order data ! f)" g,
    folded tns_fill_filter_def]
  show "rc_order (tns_fill_filter data f old) = (rc_order old)[f := rc_order data ! f]"
    and "length (rc (tns_fill_filter data f old)) = length (rc old)"
    and "g \<noteq> f \<Longrightarrow> rc (tns_fill_filter data f old) ! g = rc old ! g"
    and "length (rc (tns_fill_filter data f old) ! f) = length (rc old ! f)"
    and "i < nat (rc_order data ! f) \<Longrightarrow> rc (tns_fill_filter data f old) ! f ! i = rc data ! f ! i"
    using all assms by simp_all
qed

definition tns_dims :: "lc3_tns_data \<Rightarrow> bool" where
  "tns_dims d \<longleftrightarrow> length (rc_order d) = 2 \<and> length (rc d) = 2 \<and> length (rc d ! 0) = 8 \<and> length (rc d ! 1) = 8"

lemma tns_fill_same:
  assumes v: "tns_valid dt bw nbytes data" and old: "tns_dims old" and f: "f < nfilters data"
  shows "nfilters (tns_fill old data) = nfilters data"
    and "lpc_weighting (tns_fill old data) = lpc_weighting data"
    and "rc_order (tns_fill old data) ! f = rc_order data ! f"
    and "i < nat (rc_order data ! f) \<Longrightarrow> rc (tns_fill old data) ! f ! i = rc data ! f ! i"
proof -
  have n: "nfilters data = 1 \<or> nfilters data = 2" using v by (simp add: tns_valid_def tns_num_filters_def)
  have o: "nat (rc_order data ! g) \<le> 8" if "g < nfilters data" for g using v that by (auto simp: tns_valid_def)
  let ?o = "old\<lparr>nfilters := nfilters data, lpc_weighting := lpc_weighting data\<rparr>"
  let ?d = "tns_fill_filter data 0 ?o"
  have d0: "0 < length (rc_order ?o)" "0 < length (rc ?o)" "nat (rc_order data ! 0) \<le> length (rc ?o ! 0)"
    using old o [of 0] n by (auto simp: tns_dims_def)
  note t0 = tns_fill_filter_nth [OF d0]
  have d1: "1 < length (rc_order ?d)" "1 < length (rc ?d)" "nat (rc_order data ! 1) \<le> length (rc ?d ! 1)"
    if "nfilters data = 2"
    using old o [of 1] that t0(1,2) t0(3) [of 1] by (auto simp: tns_dims_def)
  show "nfilters (tns_fill old data) = nfilters data"
    "lpc_weighting (tns_fill old data) = lpc_weighting data"
    using n by (auto simp: tns_fill_def tns_fill_filter_frame)
  have fill: "tns_fill old data = (if nfilters data = 1 then ?d else tns_fill_filter data 1 ?d)"
    using n by (auto simp: tns_fill_def)
  show "rc_order (tns_fill old data) ! f = rc_order data ! f"
  proof (cases "nfilters data = 1")
    case True
    then show ?thesis using f t0(1) old by (simp add: fill tns_dims_def)
  next
    case False
    then have n2: "nfilters data = 2" using n by simp
    have "f = 0 \<or> f = 1" using f n2 by auto
    then show ?thesis using False tns_fill_filter_nth(1) [OF d1 [OF n2]] t0(1) old
      by (auto simp: fill tns_dims_def nth_list_update)
  qed
  show "rc (tns_fill old data) ! f ! i = rc data ! f ! i" if i: "i < nat (rc_order data ! f)"
  proof (cases "nfilters data = 1")
    case True
    then show ?thesis using f t0(5) [of i] i by (simp add: fill)
  next
    case False
    then have n2: "nfilters data = 2" using n by simp
    note t1 = tns_fill_filter_nth [OF d1 [OF n2]]
    have "f = 0 \<or> f = 1" using f n2 by auto
    then show ?thesis using False t1(5) [of i] t1(3) [of 0] t0(5) [of i] i by (auto simp: fill)
  qed
qed

section \<open>Reading any input\<close>

text \<open>
  Whatever the bytes are, the get returns, and what it fills is within the tables that
  the synthesis indexes: orders of at most 8, coefficients of at most 8 in magnitude.
\<close>

lemma lc3_tns_get_data_total:
  assumes rd: "rd_wf bits" and old: "tns_dims old"
  obtains data bits' where "lc3_tns_get_data bits dt bw nbytes old = Some (data, bits')"
    "tns_valid dt bw nbytes data" "rd_wf bits'" "mode bits' = mode bits"
    "buf (buffer bits') = buf (buffer bits)" "ac_error (ac bits) \<Longrightarrow> ac_error (ac bits')"
proof -
  let ?n = "tns_num_filters bw"
  have n: "?n \<le> 2" by (simp add: tns_num_filters_def)
  define J where "J = (\<lambda>b. rd_wf b \<and> mode b = mode bits \<and> buf (buffer b) = buf (buffer bits) \<and>
    (ac_error (ac bits) \<longrightarrow> ac_error (ac b)))"
  define D where "D = (\<lambda>(d :: lc3_tns_data). nfilters d = ?n \<and> lpc_weighting d = resolve_lpc_weighting dt nbytes \<and> tns_dims d)"
  define K where "K = (\<lambda>(d :: lc3_tns_data) f. 0 \<le> rc_order d ! f \<and> rc_order d ! f \<le> 8 \<and>
    (\<forall>i < nat (rc_order d ! f). \<bar>rc d ! f ! i\<bar> \<le> 8))"
  have sym: "\<exists>s b'. lc3_get_symbol b m = Some (s, b') \<and> ac_symbol_ok m s \<and> J b'"
    if "J b" "ac_model_wf m" for b m
    using lc3_get_symbol_total [OF that(2), of b] that(1) unfolding J_def by metis
  have coeffs: "\<exists>d' b'. for_each (tns_get_coeff f) [0 ..< k] (d, b) = Some (d', b') \<and> D d' \<and> J b' \<and>
      rc_order d' = rc_order d \<and> (\<forall>g. g \<noteq> f \<longrightarrow> rc d' ! g = rc d ! g) \<and> (\<forall>i < k. \<bar>rc d' ! f ! i\<bar> \<le> 8)"
    if "D d" "J b" "k \<le> 8" "f < 2" for d b k f
    using that
  proof (induction k)
    case (Suc k)
    then obtain d1 b1 where 1: "for_each (tns_get_coeff f) [0 ..< k] (d, b) = Some (d1, b1)"
      "D d1" "J b1" "rc_order d1 = rc_order d" "\<forall>g. g \<noteq> f \<longrightarrow> rc d1 ! g = rc d ! g"
      "\<forall>i < k. \<bar>rc d1 ! f ! i\<bar> \<le> 8" by auto
    have "ac_model_wf (lc3_tns_coeffs_models ! k)"
      using tns_coeffs_models_ok [of k 0] Suc.prems(3) by (simp add: ac_symbol_ok_def)
    from sym [OF 1(3) this] obtain s b2 where 2: "lc3_get_symbol b1 (lc3_tns_coeffs_models ! k) = Some (s, b2)"
      "s \<le> 16" "J b2" by (auto simp: ac_symbol_ok_def)
    let ?d = "d1\<lparr>rc := (rc d1)[f := (rc d1 ! f)[k := int s - 8]]\<rparr>"
    have "tns_get_coeff f k (d1, b1) = Some (?d, b2)" using 2(1) by (simp add: tns_get_coeff_def)
    then have e: "for_each (tns_get_coeff f) [0 ..< Suc k] (d, b) = Some (?d, b2)"
      using 1(1) by (simp add: for_each_append)
    have len: "length (rc d1) = 2" "length (rc d1 ! f) = 8"
    proof -
      have "f = 0 \<or> f = 1" using Suc.prems(4) by auto
      then show "length (rc d1) = 2" "length (rc d1 ! f) = 8" using 1(2) by (auto simp: D_def tns_dims_def)
    qed
    have "D ?d" using 1(2) len Suc.prems(4) by (auto simp: D_def tns_dims_def nth_list_update)
    moreover have "\<forall>i < Suc k. \<bar>rc ?d ! f ! i\<bar> \<le> 8"
      using 1(6) len Suc.prems(3,4) 2(2) by (auto simp: nth_list_update less_Suc_eq)
    ultimately show ?case using e 1(4,5) 2(3) by (intro exI [of _ ?d] exI [of _ b2]) auto
  qed simp
  have filter: "\<exists>d' b'. tns_get_filter f (d, b) = Some (d', b') \<and> D d' \<and> J b' \<and> K d' f \<and>
      (\<forall>g. g \<noteq> f \<longrightarrow> rc d' ! g = rc d ! g \<and> rc_order d' ! g = rc_order d ! g)"
    if "D d" "J b" "f < 2" for d b f
  proof -
    note f2 = that(3)
    have ol: "f < length (rc_order d)" using that by (simp add: D_def tns_dims_def)
    obtain v b1 where 1: "lc3_get_bits b 1 = (v, b1)" by (cases "lc3_get_bits b 1")
    have "rd_wf b" using that(2) by (simp add: J_def)
    note w = lc3_get_bits_wf [OF this _ _ 1]
    have J1: "J b1" using that(2) w by (simp add: J_def)
    have v: "uint v < 2" using w(2) by simp
    let ?d = "d\<lparr>rc_order := (rc_order d)[f := uint v]\<rparr>"
    have D1: "D ?d" using that(1) by (simp add: D_def tns_dims_def)
    show ?thesis
    proof (cases "uint v = 0")
      case True
      then have "tns_get_filter f (d, b) = Some (?d, b1)"
        using 1 ol by (simp add: tns_get_filter_def lc3_get_bit_def Let_def)
      then show ?thesis using D1 J1 True ol by (intro exI [of _ ?d] exI [of _ b1]) (simp add: K_def)
    next
      case False
      then have v1: "uint v = 1" using v uint_bound32(1) [of v] by linarith
      have "ac_model_wf (lc3_tns_order_models ! of_bool (lpc_weighting ?d))"
        using tns_order_models_ok [of 0 "lpc_weighting ?d"] by (simp add: ac_symbol_ok_def)
      from sym [OF J1 this] obtain s b2
        where 2: "lc3_get_symbol b1 (lc3_tns_order_models ! of_bool (lpc_weighting d)) = Some (s, b2)"
          "J b2" and "ac_symbol_ok (lc3_tns_order_models ! of_bool (lpc_weighting d)) s" by auto
      then have s: "s < 8" by (intro tns_order_models_range)
      let ?d2 = "?d\<lparr>rc_order := (rc_order ?d)[f := rc_order ?d ! f + int s]\<rparr>"
      have o2: "rc_order ?d2 ! f = 1 + int s" using ol v1 by simp
      have D2: "D ?d2" using D1 by (simp add: D_def tns_dims_def)
      have s8: "nat (1 + int s) \<le> 8" using s by simp
      obtain d3 b3 where 3: "for_each (tns_get_coeff f) [0 ..< nat (1 + int s)] (?d2, b2) = Some (d3, b3)"
        "D d3" "J b3" "rc_order d3 = rc_order ?d2" "\<forall>g. g \<noteq> f \<longrightarrow> rc d3 ! g = rc ?d2 ! g"
        "\<forall>i < nat (1 + int s). \<bar>rc d3 ! f ! i\<bar> \<le> 8"
        using coeffs [OF D2 2(2) s8 f2] by blast
      have "tns_get_filter f (d, b) = Some (d3, b3)"
        using 1 2(1) 3(1) False ol v1 by (simp add: tns_get_filter_def lc3_get_bit_def Let_def)
      moreover have "K d3 f" using 3(4,6) o2 s unfolding K_def by simp
      ultimately show ?thesis using 3 by (intro exI [of _ d3] exI [of _ b3]) simp
    qed
  qed
  let ?d = "old\<lparr>nfilters := ?n, lpc_weighting := resolve_lpc_weighting dt nbytes\<rparr>"
  have D0: "D ?d" using old by (simp add: D_def tns_dims_def)
  have J0: "J bits" using rd by (simp add: J_def)
  obtain d1 b1 where 1: "tns_get_filter 0 (?d, bits) = Some (d1, b1)" "D d1" "J b1" "K d1 0"
    using filter [OF D0 J0, of 0] by auto
  have "\<exists>data bits'. lc3_tns_get_data bits dt bw nbytes old = Some (data, bits') \<and> D data \<and> J bits' \<and>
      (\<forall>f < ?n. K data f)"
  proof (cases "?n = 1")
    case True
    then show ?thesis using 1 by (simp add: lc3_tns_get_data_def Let_def)
  next
    case False
    then have n2: "?n = 2" by (simp add: tns_num_filters_def split: if_splits)
    obtain d2 b2 where 2: "tns_get_filter 1 (d1, b1) = Some (d2, b2)" "D d2" "J b2" "K d2 1"
      "rc d2 ! 0 = rc d1 ! 0" "rc_order d2 ! 0 = rc_order d1 ! 0"
      using filter [OF 1(2,3), of 1] by auto
    have "K d2 0" using 1(4) 2(5,6) by (simp add: K_def)
    then have "\<forall>f < 2. K d2 f" using 2(4) by (auto simp: less_2_cases_iff)
    then show ?thesis using 1(1) 2 n2 by (simp add: lc3_tns_get_data_def Let_def)
  qed
  then obtain data bits' where r: "lc3_tns_get_data bits dt bw nbytes old = Some (data, bits')" "D data" "J bits'"
      "\<forall>f < ?n. K data f" by blast
  have "length (rc data ! f) = 8" if "f < ?n" for f
    using r(2) that n by (auto simp: D_def tns_dims_def less_2_cases_iff dest: order_less_le_trans)
  then have "tns_valid dt bw nbytes data" using r(2,4) by (auto simp: tns_valid_def D_def K_def tns_dims_def)
  with r show thesis by (intro that [OF r(1)]) (auto simp: J_def)
qed


section \<open>Properties\<close>

text \<open>
  C25. The data of the noise shaping that are put at any place of a stream with room are got
  back by a decoder of the same frame duration, bandwidth and frame size: the number of
  filters, the weighting, and for each filter its order and its coefficients.
\<close>

theorem tns_roundtrip:
  assumes v: "tns_valid dt bw nbytes data" and old: "tns_dims old"
    and ok: "list_all op_ok xs" "list_all op_ok ys"
    and w: "wr_ops xs (lc3_setup_bits LC3_BITS_MODE_WRITE mem) = Some w0"
      "lc3_tns_put_data w0 data = Some w1" "wr_ops ys w1 = Some w"
    and left: "0 \<le> get_bits_left w"
  shows "\<exists>r0 d r1 r. rd_ops xs (lc3_setup_bits LC3_BITS_MODE_READ (stream_of w)) = Some r0 \<and>
    lc3_tns_get_data r0 dt bw nbytes old = Some (d, r1) \<and> rd_ops ys r1 = Some r \<and>
    nfilters d = nfilters data \<and> lpc_weighting d = lpc_weighting data \<and>
    (\<forall>f < nfilters data. rc_order d ! f = rc_order data ! f \<and>
       (\<forall>i < nat (rc_order data ! f). rc d ! f ! i = rc data ! f ! i))"
proof -
  have "tns_valid dt bw nbytes data \<and> length (rc_order old) = 2" using v old by (simp add: tns_dims_def)
  from tns.field_roundtrip [OF this ok w left] obtain r0 r1 r
    where "rd_ops xs (lc3_setup_bits LC3_BITS_MODE_READ (stream_of w)) = Some r0"
      "lc3_tns_get_data r0 dt bw nbytes old = Some (tns_fill old data, r1)" "rd_ops ys r1 = Some r"
    by blast
  moreover have "0 < nfilters data" using v by (simp add: tns_valid_def tns_num_filters_def)
  then have "nfilters (tns_fill old data) = nfilters data \<and>
      lpc_weighting (tns_fill old data) = lpc_weighting data \<and>
      (\<forall>f < nfilters data. rc_order (tns_fill old data) ! f = rc_order data ! f \<and>
        (\<forall>i < nat (rc_order data ! f). rc (tns_fill old data) ! f ! i = rc data ! f ! i))"
    using tns_fill_same [OF v old] by blast
  ultimately show ?thesis by blast
qed

definition sample_tns :: lc3_tns_data where
  "sample_tns = \<lparr>nfilters = 2, lpc_weighting = True, rc_order = [3, 1],
     rc = [[-8, 2, 5, 0, 0, 0, 0, 0], [8, 0, 0, 0, 0, 0, 0, 0]]\<rparr>"

definition zero_tns :: lc3_tns_data where
  "zero_tns = \<lparr>nfilters = 0, lpc_weighting = False, rc_order = [0, 0], rc = [replicate 8 0, replicate 8 0]\<rparr>"

theorem tns_roundtrip_witness:
  "\<exists>w d r. lc3_tns_put_data (lc3_setup_bits LC3_BITS_MODE_WRITE (replicate 16 0)) sample_tns = Some w \<and>
     lc3_tns_get_data (lc3_setup_bits LC3_BITS_MODE_READ (stream_of w)) LC3_DT_10M 4 40 zero_tns = Some (d, r) \<and>
     rc_order d ! 0 = 3 \<and> rc d ! 0 ! 0 = -8"
proof -
  have v: "tns_valid LC3_DT_10M 4 40 sample_tns" by code_simp
  have old: "tns_dims zero_tns" by code_simp
  have "case lc3_tns_put_data (lc3_setup_bits LC3_BITS_MODE_WRITE (replicate 16 0)) sample_tns of
      Some w \<Rightarrow> 0 \<le> get_bits_left w | None \<Rightarrow> False" by code_simp
  then obtain w where w: "lc3_tns_put_data (lc3_setup_bits LC3_BITS_MODE_WRITE (replicate 16 0)) sample_tns = Some w"
    "0 \<le> get_bits_left w" by (auto split: option.splits)
  have nil: "list_all op_ok []" "wr_ops [] bits = Some bits" for bits by simp_all
  have n: "0 < nfilters sample_tns" "(0::nat) < nat (rc_order sample_tns ! 0)"
    "rc_order sample_tns ! 0 = 3" "rc sample_tns ! 0 ! 0 = -8" by (simp_all add: sample_tns_def)
  from tns_roundtrip [OF v old nil(1) nil(1) nil(2) w(1) nil(2) w(2)] w(1) n
  show ?thesis unfolding rd_ops.simps option.inject by metis
qed

text \<open>
  C24. The get of the noise shaping data is safe on any bytes: it returns, and the orders and
  the coefficients it fills stay within the tables that the synthesis indexes with them.
\<close>

theorem tns_get_safe:
  assumes "rd_wf bits" and "tns_dims old"
  shows "\<exists>d bits'. lc3_tns_get_data bits dt bw nbytes old = Some (d, bits') \<and> rd_wf bits' \<and>
    nfilters d \<le> 2 \<and> (\<forall>f < nfilters d. 0 \<le> rc_order d ! f \<and> rc_order d ! f \<le> 8 \<and>
      (\<forall>i < nat (rc_order d ! f). -8 \<le> rc d ! f ! i \<and> rc d ! f ! i \<le> 8))"
proof -
  obtain d bits' where r: "lc3_tns_get_data bits dt bw nbytes old = Some (d, bits')"
    "tns_valid dt bw nbytes d" "rd_wf bits'"
    by (rule lc3_tns_get_data_total [OF assms]) blast
  have "nfilters d \<le> 2" using r(2) by (simp add: tns_valid_def tns_num_filters_def)
  moreover have "\<forall>f < nfilters d. 0 \<le> rc_order d ! f \<and> rc_order d ! f \<le> 8 \<and>
      (\<forall>i < nat (rc_order d ! f). -8 \<le> rc d ! f ! i \<and> rc d ! f ! i \<le> 8)"
  proof -
    have a8: "(\<bar>x\<bar> \<le> 8) = (-8 \<le> x \<and> x \<le> 8)" for x :: int by auto
    show ?thesis using r(2) by (simp add: tns_valid_def a8)
  qed
  ultimately show ?thesis using r(1,3) by blast
qed

theorem tns_get_safe_witness:
  "\<exists>d bits'. lc3_tns_get_data (lc3_setup_bits LC3_BITS_MODE_READ [255, 17, 3, 200]) LC3_DT_10M 4 40 zero_tns
     = Some (d, bits') \<and> nfilters d \<le> 2"
proof -
  have "tns_dims zero_tns" by code_simp
  from tns_get_safe [OF setup_read_wf this] show ?thesis by blast
qed

end
