(* ===== verification/TnsInverse.thy ===== *)
theory TnsInverse
  imports TnsFilter
begin

text \<open>
  Over a ring, where nothing is rounded, the synthesis filter of the temporal noise shaping
  is the inverse of the analysis filter: sample by sample, with the states of the two
  filters in step, and over the whole spectrum, the second filter starting from the states
  that the first one has left.
\<close>

section \<open>One sample\<close>

text \<open>The two signals of the lattice after \<open>k\<close> taps.\<close>

fun lattice :: "'a::comm_ring_1 list \<Rightarrow> 'a list \<Rightarrow> 'a \<Rightarrow> nat \<Rightarrow> 'a \<times> 'a" where
  "lattice s r x 0 = (x, x)"
| "lattice s r x (Suc k) = (case lattice s r x k of (f, b) \<Rightarrow> (f + r ! k * s ! k, r ! k * f + s ! k))"

lemma lattice_cong:
  "(\<And>k. k < n \<Longrightarrow> s ! k = s' ! k \<and> r ! k = r' ! k) \<Longrightarrow> lattice s r x n = lattice s' r' x n"
  by (induction n) auto

lemma lattice_zeros:
  "o1 \<le> n \<Longrightarrow> (\<And>k. o1 \<le> k \<Longrightarrow> k < n \<Longrightarrow> r ! k = 0) \<Longrightarrow> fst (lattice s r x n) = fst (lattice s r x o1)"
proof (induction n)
  case (Suc n)
  then show ?case by (cases "o1 = Suc n") (auto simp: case_prod_unfold)
qed simp

lemma forward_sample_lattice:
  assumes "order \<le> length s"
  shows "\<exists>s'. forward_sample (+) (*) r order (s, x) = (s', fst (lattice s r x order)) \<and> length s' = length s \<and>
    (\<forall>k < length s. s' ! k = (if k < order then snd (lattice s r x k) else s ! k))"
proof -
  have "\<exists>s'. foldl (\<lambda>(s, s1, xi) k. let s0 = s ! k in (s[k := s1], r ! k * xi + s0, xi + r ! k * s0))
      (s, x, x) [0 ..< n] = (s', snd (lattice s r x n), fst (lattice s r x n)) \<and> length s' = length s \<and>
    (\<forall>k < length s. s' ! k = (if k < n then snd (lattice s r x k) else s ! k))" if "n \<le> length s" for n
    using that
  proof (induction n)
    case (Suc n)
    then obtain s' where IH: "foldl (\<lambda>(s, s1, xi) k. let s0 = s ! k in (s[k := s1], r ! k * xi + s0, xi + r ! k * s0))
      (s, x, x) [0 ..< n] = (s', snd (lattice s r x n), fst (lattice s r x n))" "length s' = length s"
      "\<forall>k < length s. s' ! k = (if k < n then snd (lattice s r x k) else s ! k)" by auto
    then show ?case
      using Suc.prems
      by (intro exI [of _ "s'[n := snd (lattice s r x n)]"]) (auto simp: case_prod_unfold nth_list_update less_Suc_eq Let_def)
  qed simp
  from this [OF assms] show ?thesis by (auto simp: forward_sample_def)
qed

lemma inverse_taps:
  assumes "n < length s'" "\<And>k. k < n \<Longrightarrow> s' ! k = s ! k"
  shows "\<exists>s''. foldl (\<lambda>(s, xi) k. let xi = xi - s ! k * r ! k in (s[k + 1 := s ! k + r ! k * xi], xi))
      (s', fst (lattice s r x n)) (rev [0 ..< n]) = (s'', x) \<and> length s'' = length s' \<and>
    (\<forall>k < length s'. s'' ! k = (if 1 \<le> k \<and> k \<le> n then snd (lattice s r x k) else s' ! k))"
  using assms
proof (induction n arbitrary: s')
  case (Suc n)
  define b where "b = snd (lattice s r x (Suc n))"
  have sn: "s' ! n = s ! n" using Suc.prems(2) [of n] by simp
  have st: "fst (lattice s r x (Suc n)) - s' ! n * r ! n = fst (lattice s r x n)"
    by (simp add: case_prod_unfold sn mult.commute)
  have bn: "s' ! n + r ! n * fst (lattice s r x n) = b" by (simp add: b_def case_prod_unfold sn)
  have "\<exists>s''. foldl (\<lambda>(s, xi) k. let xi = xi - s ! k * r ! k in (s[k + 1 := s ! k + r ! k * xi], xi))
      (s'[n + 1 := b], fst (lattice s r x n)) (rev [0 ..< n]) = (s'', x) \<and> length s'' = length (s'[n + 1 := b]) \<and>
    (\<forall>k < length (s'[n + 1 := b]). s'' ! k = (if 1 \<le> k \<and> k \<le> n then snd (lattice s r x k) else s'[n + 1 := b] ! k))"
    by (rule Suc.IH) (use Suc.prems in auto)
  then obtain s'' where IH: "foldl (\<lambda>(s, xi) k. let xi = xi - s ! k * r ! k in (s[k + 1 := s ! k + r ! k * xi], xi))
      (s'[n + 1 := b], fst (lattice s r x n)) (rev [0 ..< n]) = (s'', x)" "length s'' = length s'"
    "\<forall>k < length s'. s'' ! k = (if 1 \<le> k \<and> k \<le> n then snd (lattice s r x k) else s'[n + 1 := b] ! k)" by auto
  have "foldl (\<lambda>(s, xi) k. let xi = xi - s ! k * r ! k in (s[k + 1 := s ! k + r ! k * xi], xi))
      (s', fst (lattice s r x (Suc n))) (rev [0 ..< Suc n]) = (s'', x)"
    using IH(1) st bn by (simp add: Let_def del: lattice.simps)
  then show ?case using IH(2,3) Suc.prems(1) by (auto simp: b_def nth_list_update le_Suc_eq simp del: lattice.simps)
qed simp

text \<open>The inverse of a sample, from states that agree below the order.\<close>

lemma inverse_sample_forward:
  fixes s s' r r' :: "'a::comm_ring_1 list"
  assumes len: "length s = 8" "length s' = 8" and o8: "order \<le> 8"
    and agree: "\<And>k. k < order \<Longrightarrow> s' ! k = s ! k \<and> r' ! k = r ! k" and zero: "\<And>k. order \<le> k \<Longrightarrow> k < 8 \<Longrightarrow> r' ! k = 0"
    and fw: "forward_sample (+) (*) r order (s, x) = (s1, y)"
  obtains s1' where "inverse_sample (+) (-) (*) r' (s', y) = (s1', x)" "length s1 = 8" "length s1' = 8"
    "\<And>k. k < order \<Longrightarrow> s1' ! k = s1 ! k" "\<And>k. order \<le> k \<Longrightarrow> k < 8 \<Longrightarrow> s1 ! k = s ! k"
proof -
  obtain s2 where s2: "forward_sample (+) (*) r order (s, x) = (s2, fst (lattice s r x order))" "length s2 = length s"
    "\<forall>k < length s. s2 ! k = (if k < order then snd (lattice s r x k) else s ! k)"
    using forward_sample_lattice [of order s r x] o8 len by auto
  have e: "s2 = s1" "y = fst (lattice s r x order)" using fw s2(1) by simp_all
  have lt: "lattice s' r' x k = lattice s r x k" if "k \<le> order" for k
    by (rule lattice_cong) (use agree that in auto)
  have "fst (lattice s' r' x 8) = fst (lattice s' r' x order)" by (rule lattice_zeros) (use o8 zero in auto)
  then have y: "y = fst (lattice s' r' x (Suc 7))" using lt [of order] e by simp
  then have y7: "y - s' ! 7 * r' ! 7 = fst (lattice s' r' x 7)" unfolding y lattice.simps by (simp add: case_prod_unfold mult.commute)
  obtain s3 where s3: "foldl (\<lambda>(s, xi) k. let xi = xi - s ! k * r' ! k in (s[k + 1 := s ! k + r' ! k * xi], xi))
      (s', fst (lattice s' r' x 7)) (rev [0 ..< 7]) = (s3, x)" "length s3 = length s'"
    "\<forall>k < length s'. s3 ! k = (if 1 \<le> k \<and> k \<le> 7 then snd (lattice s' r' x k) else s' ! k)"
    using inverse_taps [of 7 s' s' r' x] len by auto
  have rv: "rev [0 ..< 7] = [6, 5, 4, 3, 2, 1, 0 :: nat]" by (simp add: upt_rec)
  have inv: "inverse_sample (+) (-) (*) r' (s', y) = (s3[0 := x], x)"
    using s3(1) by (simp only: inverse_sample_def prod.case y7 Let_def rv)
  show thesis
  proof (rule that [OF inv])
    show "length s1 = 8" "length (s3[0 := x]) = 8" using s2(2) s3(2) len e by simp_all
    show "s3[0 := x] ! k = s1 ! k" if "k < order" for k
      using that s2(3) s3(3) len e lt [of k] o8 s3(2) by (cases "k = 0") auto
    show "s1 ! k = s ! k" if "order \<le> k" "k < 8" for k using that s2(3) len e by simp
  qed
qed

section \<open>One filter\<close>

abbreviation fw_step :: "'a::comm_ring_1 list \<Rightarrow> nat \<Rightarrow> 'a list \<times> 'a list \<Rightarrow> nat \<Rightarrow> 'a list \<times> 'a list" where
  "fw_step r order \<equiv> (\<lambda>(s, x) i. case forward_sample (+) (*) r order (s, x ! i) of (s, xi) \<Rightarrow> (s, x[i := xi]))"

abbreviation iv_step :: "'a::comm_ring_1 list \<Rightarrow> 'a list \<times> 'a list \<Rightarrow> nat \<Rightarrow> 'a list \<times> 'a list" where
  "iv_step r \<equiv> (\<lambda>(s, x) i. case inverse_sample (+) (-) (*) r (s, x ! i) of (s, xi) \<Rightarrow> (s, x[i := xi]))"

lemma fw_frame:
  "foldl (fw_step r order) (s, x) is = (s1, y) \<Longrightarrow> length y = length x \<and> (\<forall>j. j \<notin> set is \<longrightarrow> y ! j = x ! j)"
proof (induction "is" arbitrary: s x)
  case (Cons i "is")
  obtain s2 xi where 1: "forward_sample (+) (*) r order (s, x ! i) = (s2, xi)"
    by (cases "forward_sample (+) (*) r order (s, x ! i)")
  with Cons.prems have "foldl (fw_step r order) (s2, x[i := xi]) is = (s1, y)" by simp
  from Cons.IH [OF this] show ?case by auto
qed simp

lemma filter_inverse:
  fixes s s' r r' :: "'a::comm_ring_1 list"
  assumes "distinct is" "\<And>i. i \<in> set is \<Longrightarrow> i < length z" "length s = 8" "length s' = 8" "order \<le> 8"
    and r: "\<And>k. k < order \<Longrightarrow> r' ! k = r ! k" "\<And>k. order \<le> k \<Longrightarrow> k < 8 \<Longrightarrow> r' ! k = 0"
    and agree: "\<And>k. k < order \<Longrightarrow> s' ! k = s ! k"
    and fw: "foldl (fw_step r order) (s, x) is = (s1, y)"
    and z: "\<And>i. i \<in> set is \<Longrightarrow> z ! i = y ! i"
    and x: "\<And>i. i \<in> set is \<Longrightarrow> i < length x"
  shows "\<exists>s1' w. foldl (iv_step r') (s', z) is = (s1', w) \<and> length w = length z \<and> length s1 = 8 \<and> length s1' = 8 \<and>
    (\<forall>i. w ! i = (if i \<in> set is then x ! i else z ! i)) \<and>
    (\<forall>k < order. s1' ! k = s1 ! k) \<and> (\<forall>k. order \<le> k \<and> k < 8 \<longrightarrow> s1 ! k = s ! k)"
  using assms(1-4) agree fw z x
proof (induction "is" arbitrary: s s' x z)
  case (Cons i "is")
  obtain s2 xi where 1: "forward_sample (+) (*) r order (s, x ! i) = (s2, xi)"
    by (cases "forward_sample (+) (*) r order (s, x ! i)")
  have rest: "foldl (fw_step r order) (s2, x[i := xi]) is = (s1, y)" using Cons.prems(6) 1 by simp
  have yi: "y ! i = xi" using fw_frame [OF rest] Cons.prems(1,8) by auto
  obtain s2' where 2: "inverse_sample (+) (-) (*) r' (s', xi) = (s2', x ! i)" "length s2 = 8" "length s2' = 8"
    "\<And>k. k < order \<Longrightarrow> s2' ! k = s2 ! k" "\<And>k. order \<le> k \<Longrightarrow> k < 8 \<Longrightarrow> s2 ! k = s ! k"
    by (rule inverse_sample_forward [OF Cons.prems(3,4) assms(5) _ r(2) 1])
      (use Cons.prems(5) r(1) in auto)
  have z': "z[i := x ! i] ! j = y ! j" if "j \<in> set is" for j
    using that Cons.prems(1,7) by (cases "j = i") auto
  have "\<exists>s1' w. foldl (iv_step r') (s2', z[i := x ! i]) is = (s1', w) \<and> length w = length (z[i := x ! i]) \<and>
    length s1 = 8 \<and> length s1' = 8 \<and>
    (\<forall>j. w ! j = (if j \<in> set is then x[i := xi] ! j else z[i := x ! i] ! j)) \<and>
    (\<forall>k < order. s1' ! k = s1 ! k) \<and> (\<forall>k. order \<le> k \<and> k < 8 \<longrightarrow> s1 ! k = s2 ! k)"
    by (rule Cons.IH [OF _ _ 2(2,3,4) rest z']) (use Cons.prems in auto)
  then obtain s1' w where IH: "foldl (iv_step r') (s2', z[i := x ! i]) is = (s1', w)" "length w = length z"
    "length s1 = 8" "length s1' = 8" "\<forall>j. w ! j = (if j \<in> set is then x[i := xi] ! j else z[i := x ! i] ! j)"
    "\<forall>k < order. s1' ! k = s1 ! k" "\<forall>k. order \<le> k \<and> k < 8 \<longrightarrow> s1 ! k = s2 ! k" by auto
  have "foldl (iv_step r') (s', z) (i # is) = (s1', w)"
    using IH(1) 2(1) Cons.prems(7) [of i] yi by simp
  moreover have "w ! j = (if j \<in> set (i # is) then x ! j else z ! j)" for j
    using IH(5) Cons.prems(1) Cons.prems(2) [of i] by (cases "j = i") auto
  ultimately show ?case using IH(2-4,6,7) 2(5) by auto
qed auto

section \<open>The spectrum\<close>

lemma clear_states:
  "k < length s \<Longrightarrow> foldl (\<lambda>s k. s[k := c]) s [a ..< b] ! k = (if a \<le> k \<and> k < b then c else s ! k)"
  "length (foldl (\<lambda>s k. s[k := c]) s [a ..< b]) = length s"
proof -
  have "length (foldl (\<lambda>s k. s[k := c]) s is) = length s \<and>
    (k < length s \<longrightarrow> foldl (\<lambda>s k. s[k := c]) s is ! k = (if k \<in> set is then c else s ! k))" for "is" k
    by (induction "is" arbitrary: s) (auto simp: nth_list_update)
  then show "k < length s \<Longrightarrow> foldl (\<lambda>s k. s[k := c]) s [a ..< b] ! k = (if a \<le> k \<and> k < b then c else s ! k)"
    "length (foldl (\<lambda>s k. s[k := c]) s [a ..< b]) = length s" by auto
qed

text \<open>What is asked of the two sets of coefficients of a filter: the same ones below the
  order, none above on the synthesis side.\<close>

definition rcs_match :: "int \<Rightarrow> 'a::comm_ring_1 list \<Rightarrow> 'a list \<Rightarrow> bool" where
  "rcs_match order r r' \<longleftrightarrow> 0 \<le> order \<and> order \<le> 8 \<and> (\<forall>k < nat order. r' ! k = r ! k) \<and>
     (\<forall>k. nat order \<le> k \<and> k < 8 \<longrightarrow> r' ! k = 0)"

abbreviation fw_filter :: "int \<Rightarrow> 'a::comm_ring_1 list \<Rightarrow> nat list \<Rightarrow> 'a list \<times> 'a list \<Rightarrow> 'a list \<times> 'a list" where
  "fw_filter order r is sx \<equiv> (if order = 0 then sx else foldl (fw_step r (nat order)) sx is)"

abbreviation iv_filter :: "int \<Rightarrow> 'a::comm_ring_1 list \<Rightarrow> nat list \<Rightarrow> 'a list \<times> 'a list \<Rightarrow> 'a list \<times> 'a list" where
  "iv_filter order r is sx \<equiv> (if order = 0 then sx else
     case foldl (iv_step r) sx is of (s, x) \<Rightarrow> (foldl (\<lambda>s k. s[k := 0]) s [nat order ..< 8], x))"

lemma one_filter_inverse:
  assumes m: "rcs_match order r r'" and s: "length s = 8" and "distinct is"
    and l: "\<And>i. i \<in> set is \<Longrightarrow> i < length z" "\<And>i. i \<in> set is \<Longrightarrow> i < length x"
    and fw: "fw_filter order r is (s, x) = (s1, y)" and z: "\<And>i. i \<in> set is \<Longrightarrow> z ! i = y ! i"
  obtains s1' w where "iv_filter order r' is (s, z) = (s1', w)" "length w = length z" "length s1 = 8" "length y = length x"
    "\<And>j. j \<notin> set is \<Longrightarrow> y ! j = x ! j" "\<And>j. w ! j = (if j \<in> set is then x ! j else z ! j)"
    "(\<And>k. k < 8 \<Longrightarrow> s ! k = 0) \<Longrightarrow> s1' = s1"
proof (cases "order = 0")
  case True
  then show thesis using fw s z by (intro that [of s z]) auto
next
  case False
  note m' = m [unfolded rcs_match_def]
  have fw': "foldl (fw_step r (nat order)) (s, x) is = (s1, y)" using fw False by simp
  have "\<exists>s1' w. foldl (iv_step r') (s, z) is = (s1', w) \<and> length w = length z \<and> length s1 = 8 \<and> length s1' = 8 \<and>
    (\<forall>i. w ! i = (if i \<in> set is then x ! i else z ! i)) \<and>
    (\<forall>k < nat order. s1' ! k = s1 ! k) \<and> (\<forall>k. nat order \<le> k \<and> k < 8 \<longrightarrow> s1 ! k = s ! k)"
    by (rule filter_inverse [OF assms(3) l(1) s s _ _ _ refl fw' z l(2)]) (use m' in auto)
  then obtain s1' w where 1: "foldl (iv_step r') (s, z) is = (s1', w)" "length w = length z" "length s1 = 8" "length s1' = 8"
    "\<forall>i. w ! i = (if i \<in> set is then x ! i else z ! i)"
    "\<forall>k < nat order. s1' ! k = s1 ! k" "\<forall>k. nat order \<le> k \<and> k < 8 \<longrightarrow> s1 ! k = s ! k" by blast
  define s2 where "s2 = foldl (\<lambda>s k. s[k := 0]) s1' [nat order ..< 8]"
  have "s2 = s1" if "\<And>k. k < 8 \<Longrightarrow> s ! k = 0"
  proof (rule nth_equalityI)
    show "length s2 = length s1" using 1(3,4) by (simp add: s2_def clear_states(2))
    show "s2 ! k = s1 ! k" if "k < length s2" for k
      using that 1 \<open>\<And>k. k < 8 \<Longrightarrow> s ! k = 0\<close> by (auto simp: s2_def clear_states)
  qed
  then show thesis
    using 1 fw_frame [OF fw'] False by (intro that [of s2 w]) (auto simp: s2_def)
qed

lemma tns_range_bounds:
  assumes "f < tns_num_filters bw" "i \<in> set (tns_range dt bw f)" "0 \<le> LC3_NE dt bw"
  shows "i < nat (LC3_NE dt bw)"
proof -
  define n where "n = tns_num_filters bw - 1"
  have n: "n = 0 \<or> n = 1" "int f \<le> int n" using assms(1) by (auto simp: n_def tns_num_filters_def split: if_splits)
  have "int i < drop_bit n (LC3_NE dt bw) * (1 + int f)"
    using assms(2) unfolding n_def tns_range_def Let_def by auto
  also have "\<dots> \<le> drop_bit n (LC3_NE dt bw) * (1 + int n)" using n(2) assms(3) by (intro mult_left_mono) simp_all
  also have "\<dots> \<le> LC3_NE dt bw" using n(1) by (auto simp: drop_bit_eq_div)
  finally show ?thesis by linarith
qed

lemma tns_range_disjoint: "set (tns_range dt bw 0) \<inter> set (tns_range dt bw 1) = {}"
  by (auto simp: tns_range_def Let_def)

lemma inverse_forward_filtering:
  fixes x :: "'a::comm_ring_1 list"
  assumes m: "\<And>f. f < tns_num_filters bw \<Longrightarrow> rcs_match (orders ! f) (rcs ! f) (rcs' ! f)"
    and ne: "0 \<le> LC3_NE dt bw" "nat (LC3_NE dt bw) \<le> length x"
  shows "inverse_filtering (+) (-) (*) 0 dt bw orders rcs' (forward_filtering (+) (*) 0 dt bw orders rcs x) = x"
proof -
  let ?R = "tns_range dt bw" and ?s = "replicate 8 0 :: 'a list"
  have rng: "i < length x" if "f < tns_num_filters bw" "i \<in> set (?R f)" for f i
    using tns_range_bounds [OF that ne(1)] ne(2) by simp
  have dist: "distinct (?R f)" for f by (simp add: tns_range_def Let_def)
  obtain s0 y0 where f0: "fw_filter (orders ! 0) (rcs ! 0) (?R 0) (?s, x) = (s0, y0)"
    by (cases "fw_filter (orders ! 0) (rcs ! 0) (?R 0) (?s, x)")
  have 0: "0 < tns_num_filters bw" by (simp add: tns_num_filters_def)
  show ?thesis
  proof (cases "tns_num_filters bw = 1")
    case True
    obtain s1' w where 1: "iv_filter (orders ! 0) (rcs' ! 0) (?R 0) (?s, y0) = (s1', w)" "length w = length y0"
      "length y0 = length x" "\<And>j. j \<notin> set (?R 0) \<Longrightarrow> y0 ! j = x ! j"
      "\<And>j. w ! j = (if j \<in> set (?R 0) then x ! j else y0 ! j)"
    proof -
      have l: "length y0 = length x" using f0 fw_frame [of "rcs ! 0" "nat (orders ! 0)" ?s x "?R 0" s0 y0] by (auto split: if_splits)
      have r: "i < length y0" "i < length x" if "i \<in> set (?R 0)" for i using rng [OF 0 that] l by simp_all
      show thesis
        by (rule one_filter_inverse [OF m [OF 0] length_replicate dist r f0 refl]) (blast intro: that)+
    qed
    have "w = x" using 1 by (intro nth_equalityI) auto
    moreover have "forward_filtering (+) (*) 0 dt bw orders rcs x = y0"
      using f0 unfolding forward_filtering_def True by simp
    moreover have "inverse_filtering (+) (-) (*) 0 dt bw orders rcs' y0 = w"
      using 1(1) unfolding inverse_filtering_def True by simp
    ultimately show ?thesis by simp
  next
    case False
    then have two: "tns_num_filters bw = 2" by (simp add: tns_num_filters_def)
    then have lt: "0 < tns_num_filters bw" "1 < tns_num_filters bw" by simp_all
    obtain s1 y1 where f1: "fw_filter (orders ! 1) (rcs ! 1) (?R 1) (s0, y0) = (s1, y1)"
      by (cases "fw_filter (orders ! 1) (rcs ! 1) (?R 1) (s0, y0)")
    have len0: "length y0 = length x" "\<And>j. j \<notin> set (?R 0) \<Longrightarrow> y0 ! j = x ! j"
      using f0 fw_frame [of "rcs ! 0" "nat (orders ! 0)" ?s x "?R 0" s0 y0] by (auto split: if_splits)
    have len1: "length y1 = length x" "\<And>j. j \<notin> set (?R 1) \<Longrightarrow> y1 ! j = y0 ! j"
      using f1 len0(1) fw_frame [of "rcs ! 1" "nat (orders ! 1)" s0 y0 "?R 1" s1 y1] by (auto split: if_splits)
    have z0: "y1 ! i = y0 ! i" if "i \<in> set (?R 0)" for i using that tns_range_disjoint len1(2) by blast
    obtain t0 w0 where 1: "iv_filter (orders ! 0) (rcs' ! 0) (?R 0) (?s, y1) = (t0, w0)" "length w0 = length y1" "length s0 = 8"
      "\<And>j. w0 ! j = (if j \<in> set (?R 0) then x ! j else y1 ! j)" "(\<And>k. k < 8 \<Longrightarrow> ?s ! k = 0) \<Longrightarrow> t0 = s0"
      by (rule one_filter_inverse [OF m [OF lt(1)] length_replicate dist _ _ f0 z0])
        (use rng [OF lt(1)] len1(1) in auto)
    have t0: "t0 = s0" by (rule 1(5)) simp
    have z1: "w0 ! i = y1 ! i" if "i \<in> set (?R 1)" for i using that tns_range_disjoint 1(4) by auto
    obtain t1 w1 where 2: "iv_filter (orders ! 1) (rcs' ! 1) (?R 1) (s0, w0) = (t1, w1)" "length w1 = length w0"
      "\<And>j. w1 ! j = (if j \<in> set (?R 1) then y0 ! j else w0 ! j)"
      by (rule one_filter_inverse [OF m [OF lt(2)] 1(3) dist _ _ f1 z1])
        (use rng [OF lt(2)] len0(1) len1(1) 1(2) in auto)
    have "w1 = x"
    proof (rule nth_equalityI)
      show "length w1 = length x" using 2(2) 1(2) len1(1) by simp
      show "w1 ! j = x ! j" for j
        using 2(3) [of j] 1(4) [of j] len0(2) [of j] len1(2) [of j] tns_range_disjoint by (auto split: if_splits)
    qed
    moreover have "forward_filtering (+) (*) 0 dt bw orders rcs x = y1"
      using f0 f1 unfolding forward_filtering_def two upt_small foldl.simps by (simp del: One_nat_def)
    moreover have "inverse_filtering (+) (-) (*) 0 dt bw orders rcs' y1 = w1"
      using 1(1) 2(1) t0 unfolding inverse_filtering_def two upt_small foldl.simps by (simp del: One_nat_def)
    ultimately show ?thesis by simp
  qed
qed

end
