(* ===== verification/SignalProps.thy ===== *)
theory SignalProps
  imports Attdet Energy Plc Fastmath TnsInverse
begin

text \<open>
  Properties of the components of the analysis and of the synthesis that do not touch the
  bitstream: the attack detector, the energies, the fixed point logarithm, the concealment of
  lost frames and the filters of the temporal noise shaping.
\<close>

section \<open>Attack detector\<close>

text \<open>
  C30. The attack detector keeps its invariant from frame to frame, on any samples: its energies
  stay below 40 times 2 to the 25, so that the sum it compares with fits 31 bits, and its
  position is one of a block.
\<close>

theorem attdet_invariant:
  assumes att: "attdet_inv att"
  shows "attdet_inv (snd (lc3_attdet_run dt sr nbytes att x)) \<and>
    (\<forall>n. \<forall>e \<in> set (attdet_energies sr x n). 0 \<le> e \<and> e + drop_bit 4 e < 2 ^ 31)"
proof
  define n where "n = 4 - of_bool (dt = LC3_DT_7M5) - (0 :: nat)"
  define e where "e = attdet_energies sr x n"
  have n: "n \<le> 4" by (simp add: n_def)
  have e: "\<And>i. i < n \<Longrightarrow> 0 \<le> e ! i \<and> e ! i \<le> attdet_max" using attdet_energies_bounds [of sr x n] by (simp add: e_def)
  obtain a p where ap: "foldl (attdet_detect e) (att, 0) [0 ..< n] = (a, p)" by (cases "foldl (attdet_detect e) (att, 0) [0 ..< n]")
  have "attdet_inv a \<and> 0 \<le> p \<and> p \<le> 4" using attdet_detect_loop [OF att e n] ap by simp
  then have "attdet_inv (a\<lparr>p_att := p\<rparr>)" by (simp add: attdet_inv_def)
  then show "attdet_inv (snd (lc3_attdet_run dt sr nbytes att x))"
    using att ap by (simp add: lc3_attdet_run_def Let_def e_def n_def)
  have "0 \<le> v \<and> v + drop_bit 4 v < 2 ^ 31" if "0 \<le> v" "v \<le> attdet_max" for v :: int
    using that by (simp add: attdet_max_def drop_bit_eq_div)
  then show "\<forall>n. \<forall>e \<in> set (attdet_energies sr x n). 0 \<le> e \<and> e + drop_bit 4 e < 2 ^ 31"
    using attdet_energies_bounds [of sr x] by (metis in_set_conv_nth)
qed

theorem attdet_invariant_witness:
  "attdet_inv (snd (lc3_attdet_run LC3_DT_10M LC3_SRATE_48K 120 \<lparr>en1 = 5000, an1 = 9000, p_att = 2\<rparr> (\<lambda>i. 1000 * (i mod 13))))"
proof -
  have i: "attdet_inv \<lparr>en1 = 5000, an1 = 9000, p_att = 2\<rparr>" by (simp add: attdet_inv_def attdet_max_def)
  from attdet_invariant [OF i] show ?thesis by blast
qed

section \<open>Energies\<close>

text \<open>
  C37. \<open>lc3_energy_compute\<close> fills the 64 bands: the square of the coefficient for the first ones,
  the mean of the squares between the limits of the band for the others, 0 for those that the
  sample rate does not have; the limits end with the last coefficient of the frame.
\<close>

theorem energy_bands:
  assumes v: "valid_dt dt" "valid_sr sr"
  shows "length (snd (lc3_energy_compute dt sr x)) = 64 \<and>
    (let lim = lc3_band_lim dt sr; nb = nat (LC3_MIN 64 (LC3_NS dt sr))
     in int (lim ! nb) = LC3_NE dt (sr_int sr) \<and>
       (\<forall>b < 64. snd (lc3_energy_compute dt sr x) ! b =
          (if b < energy_n1 dt sr then f32_mul (x ! b) (x ! b)
           else if b < nb then f32_div (foldl (\<lambda>s i. f32_add s (f32_mul (x ! i) (x ! i)))
                  (f32_mul (x ! (lim ! b)) (x ! (lim ! b))) [lim ! b + 1 ..< lim ! (b + 1)])
                  (f32_of_int (int (lim ! (b + 1)) - int (lim ! b)))
           else f32_0)))"
proof -
  define lim nb n1 where "lim = lc3_band_lim dt sr" and "nb = nat (LC3_MIN 64 (LC3_NS dt sr))" and "n1 = energy_n1 dt sr"
  define h where "h = LC3_MIN (int LC3_NUM_BANDS) (LC3_NS dt sr) - 2 * (2 - dt_int dt)"
  define e0 where "e0 = map (\<lambda>i. f32_mul (x ! i) (x ! i)) [0 ..< n1]"
  define lo where "lo = foldl f32_add f32_0 e0"
  have b: "n1 \<le> nb" "lim ! n1 = n1" "\<And>b. n1 \<le> b \<Longrightarrow> b < nb \<Longrightarrow> lim ! b < lim ! (b + 1)" "int (lim ! nb) = LC3_NE dt (sr_int sr)"
    using band_lim_all [OF v] by (simp_all add: band_lim_ok_def Let_def lim_def nb_def n1_def LC3_NUM_BANDS_def list_all_iff)
  obtain i e lo' hi where r: "foldl (energy_band lim x h) (lim ! n1, e0, lo, f32_0) [n1 ..< nb] = (i, e, lo', hi)"
    by (cases "foldl (energy_band lim x h) (lim ! n1, e0, lo, f32_0) [n1 ..< nb]" rule: prod_cases4)
  have l0: "length e0 = n1" by (simp add: e0_def)
  from energy_band_loop [OF b(3) b(1) order_refl r, unfolded l0]
  have e: "length e = nb" "take n1 e = e0" "\<forall>b. n1 \<le> b \<and> b < nb \<longrightarrow> e ! b =
      f32_div (foldl (\<lambda>s i. f32_add s (f32_mul (x ! i) (x ! i)))
        (f32_mul (x ! (lim ! b)) (x ! (lim ! b))) [lim ! b + 1 ..< lim ! (b + 1)])
        (f32_of_int (int (lim ! (b + 1)) - int (lim ! b)))"
    using b(1) by auto
  have nb: "nb \<le> 64" by (simp add: nb_def)
  have E: "snd (lc3_energy_compute dt sr x) = e @ replicate (64 - nb) f32_0"
    using r e(1) unfolding lc3_energy_compute_def Let_def n1_def [symmetric] lim_def [symmetric] e0_def [symmetric] lo_def [symmetric]
      h_def [symmetric] by (simp add: nb_def LC3_NUM_BANDS_def)
  have low: "e ! b = f32_mul (x ! b) (x ! b)" if "b < n1" for b
  proof -
    have "e ! b = take n1 e ! b" using that by simp
    then show ?thesis using that unfolding e(2) by (simp add: e0_def)
  qed
  show ?thesis
    unfolding Let_def lim_def [symmetric] nb_def [symmetric] n1_def [symmetric] E
    using e(1,3) low nb b(1,4) by (auto simp: nth_append)
qed

theorem energy_bands_witness:
  "snd (lc3_energy_compute LC3_DT_7M5 LC3_SRATE_8K (map f32_of_int [1 .. 60])) ! 3 = f32_mul (f32_of_int 4) (f32_of_int 4)"
proof -
  have v: "valid_dt LC3_DT_7M5" "valid_sr LC3_SRATE_8K" by (simp_all add: valid_dt_def valid_sr_def enum_order)
  have n: "(3::nat) < energy_n1 LC3_DT_7M5 LC3_SRATE_8K" by (simp add: energy_n1_def)
  have x: "map f32_of_int [1 .. 60] ! 3 = f32_of_int 4" by (simp add: upto_rec1)
  from energy_bands [OF v, of "map f32_of_int [1 .. 60]"] n show ?thesis by (simp add: Let_def x del: nth_map)
qed

section \<open>Concealment\<close>

text \<open>
  C36. A concealed frame is the last good spectrum with the signs of a random sequence and one gain.
  The sign of the coefficient \<open>i\<close> is flipped exactly when the bit 15 of the seed \<open>i + 1\<close> steps on is
  set; the gain goes on as it was for the first 4 lost frames, times 0.9 for the next 4, then
  times 0.85; the state keeps the seed after the last coefficient. The sequence of the seeds
  has the greatest period: 65536 seeds in a row are all different, from any start, so that half
  of the signs of a period are flipped.
\<close>

theorem plc_synthesize_spec:
  assumes "0 \<le> seed plc" "seed plc < 65536" and "0 \<le> LC3_NE dt (sr_int sr)"
  shows "let ne = nat (LC3_NE dt (sr_int sr));
             g = f32_mul (alpha plc) (if count plc < 4 then f32_1 else if count plc < 8 then f32_lit 9 (-1) else f32_lit 85 (-2));
             s = (\<lambda>i. (plc_next_seed ^^ i) (seed plc))
         in lc3_plc_synthesize dt sr plc x =
              (plc\<lparr>seed := s ne, alpha := g, count := count plc + 1\<rparr>,
               map (\<lambda>i. f32_mul g (if bit (s (i + 1)) 15 then f32_neg (x ! i) else x ! i)) [0 ..< ne]) \<and>
            s ne \<in> {0 ..< 65536} \<and> inj_on s {..< 2 ^ 16} \<and>
            card {i \<in> {..< 2 ^ 16}. bit (s i) 15} = 2 ^ 15"
proof -
  define s where "s i = (plc_next_seed ^^ i) (seed plc)" for i
  define f where "f = (\<lambda>(s, y) i. let s = plc_next_seed s
             in (s, y @ [f32_mul (plc_decay plc) (if s AND 0x8000 \<noteq> 0 then f32_neg (x ! i) else x ! i)]))"
  have b15: "v AND 0x8000 \<noteq> 0 \<longleftrightarrow> bit v 15" for v :: int
    using bit_iff_and_push_bit_not_eq_0 [of v 15] by simp
  have loop: "foldl f (seed plc, []) [0 ..< n] =
      (s n, map (\<lambda>i. f32_mul (plc_decay plc) (if bit (s (i + 1)) 15 then f32_neg (x ! i) else x ! i)) [0 ..< n])" for n
    by (induction n) (simp_all add: f_def Let_def b15 s_def)
  have r: "s i \<in> {0 ..< 65536}" for i unfolding s_def by (rule plc_seeds_range [OF assms(1,2)])
  have inj: "inj_on s {..< 2 ^ 16}" unfolding s_def by (rule plc_seeds_distinct [OF assms(1,2)])
  have "s ` {..< 2 ^ 16} = {0 ..< 65536}"
    by (rule card_subset_eq) (use r card_image [OF inj] in auto)
  moreover have "s ` {i \<in> {..< 2 ^ 16}. bit (s i) 15} = {v \<in> s ` {..< 2 ^ 16}. bit v 15}" by auto
  moreover have "{v \<in> {0 ..< 65536}. bit v 15} = {32768 ..< 65536 :: int}"
  proof -
    have "bit v 15 \<longleftrightarrow> 32768 \<le> v" if "0 \<le> v" "v < 65536" for v :: int
    proof -
      have "v div 32768 = (if 32768 \<le> v then 1 else 0)"
        using that int_div_pos_eq [of v 32768 1 "v - 32768"] by simp
      then show ?thesis by (simp add: bit_iff_odd)
    qed
    then show ?thesis by auto
  qed
  moreover have "card (s ` {i \<in> {..< 2 ^ 16}. bit (s i) 15}) = card {i \<in> {..< 2 ^ 16}. bit (s i) 15}"
    by (rule card_image) (rule inj_on_subset [OF inj], blast)
  ultimately have "card {i \<in> {..< 2 ^ 16}. bit (s i) 15} = 2 ^ 15" by simp
  then show ?thesis using loop [of "nat (LC3_NE dt (sr_int sr))"] r inj
    unfolding lc3_plc_synthesize_def Let_def f_def [unfolded Let_def, symmetric] s_def [symmetric]
      plc_decay_def [symmetric] by simp
qed

theorem plc_synthesize_spec_witness:
  "\<exists>plc' y. lc3_plc_synthesize LC3_DT_10M LC3_SRATE_8K \<lparr>seed = 24607, count = 4, alpha = f32_1\<rparr> (replicate 80 f32_1) = (plc', y) \<and>
     y ! 0 = f32_mul (f32_mul f32_1 (f32_lit 9 (-1))) f32_1 \<and> y ! 1 = f32_mul (f32_mul f32_1 (f32_lit 9 (-1))) (f32_neg f32_1)"
proof -
  have "\<not> bit (plc_next_seed 24607) 15" "bit (plc_next_seed (plc_next_seed 24607)) 15" by code_simp+
  then show ?thesis
    using plc_synthesize_spec [of "\<lparr>seed = 24607, count = 4, alpha = f32_1\<rparr>" LC3_DT_10M LC3_SRATE_8K "replicate 80 f32_1"]
    by (simp add: LC3_NE_def Let_def enum_order numeral_2_eq_2)
qed

section \<open>Fixed point logarithm\<close>

text \<open>
  C39. The decibels that \<open>fast_db_q16\<close> reads from the bits of a square grow with these bits,
  through every segment of the table and across the exponents, and fit an \<open>int\<close>.
\<close>

theorem db_of_bits_monotone:
  assumes "0 \<le> u" "u \<le> v" "v < 2 ^ 32"
  shows "db_of_bits u \<le> db_of_bits v \<and> - (2 ^ 31) \<le> db_of_bits u \<and> db_of_bits v < 2 ^ 31"
  using db_of_bits_mono [OF assms(1,2)] db_of_bits_bounds [of u] db_of_bits_bounds [of v] assms by auto

theorem db_of_bits_monotone_witness: "db_of_bits 1065353216 \<le> db_of_bits 1073741824"
  using db_of_bits_monotone [of 1065353216 1073741824] by simp

section \<open>Temporal noise shaping\<close>

text \<open>
  C17. The lattice filter of the synthesis is the exact inverse of the one of the analysis: over
  the numbers without rounding, for any reflection coefficients, orders and spectrum, filtering
  the bands of a bandwidth and then filtering back gives the spectrum, when both sides have the
  same coefficients up to the order.
\<close>

theorem tns_filters_inverse:
  fixes x :: "'a::comm_ring_1 list"
  assumes "\<And>f. f < tns_num_filters bw \<Longrightarrow> rcs_match (orders ! f) (rcs ! f) (rcs' ! f)"
    and "0 \<le> LC3_NE dt bw" "nat (LC3_NE dt bw) \<le> length x"
  shows "inverse_filtering (+) (-) (*) 0 dt bw orders rcs' (forward_filtering (+) (*) 0 dt bw orders rcs x) = x"
  by (rule inverse_forward_filtering [OF assms])

theorem tns_filters_inverse_witness:
  "inverse_filtering (+) (-) (*) 0 LC3_DT_10M 0 [3] [[2, -1, 3, 0, 0, 0, 0, 0]]
     (forward_filtering (+) (*) 0 LC3_DT_10M 0 [3] [[2, -1, 3, 7, 7, 7, 7, 7]] (map (\<lambda>i. i * i - 7 * i) [0 .. 79]))
     = map (\<lambda>i. i * i - 7 * i) [0 .. 79]"
proof -
  have m: "rcs_match ([3] ! f) ([[2, -1, 3, 7, 7, 7, 7, 7]] ! f) ([[2, -1, 3, 0, 0, 0, 0, 0 :: int]] ! f)"
    if "f < tns_num_filters 0" for f
  proof -
    have f: "f = 0" using that by (simp add: tns_num_filters_def bandwidth_defs)
    have "k < 3 \<Longrightarrow> k = 0 \<or> k = 1 \<or> k = 2" "3 \<le> k \<Longrightarrow> k < 8 \<Longrightarrow> k = 3 \<or> k = 4 \<or> k = 5 \<or> k = 6 \<or> k = 7" for k :: nat by arith+
    then show ?thesis unfolding f rcs_match_def by fastforce
  qed
  show ?thesis by (rule tns_filters_inverse [OF m]) (simp_all add: LC3_NE_def)
qed

text \<open>
  C33. What the analysis gives can be written: the orders are at most 8 and the quantised
  coefficients between -8 and 8, on any spectrum, which is what the field of the bitstream and
  the tables of the arithmetic coder accept.
\<close>

theorem tns_analysis_valid:
  assumes "length (rc_order data) = 2" "length (rc data) = 2" "\<And>f. f < 2 \<Longrightarrow> length (rc data ! f) = 8"
  shows "tns_valid dt bw nbytes (fst (lc3_tns_analyze dt bw nn nbytes data x))"
  by (rule lc3_tns_analyze_valid [OF assms])

theorem tns_analysis_valid_witness:
  "tns_valid LC3_DT_10M 4 100 (fst (lc3_tns_analyze LC3_DT_10M 4 False 100 zero_tns (map f32_of_int [1 .. 400])))"
proof -
  have "length (rc zero_tns ! f) = 8" if "f < 2" for f
  proof -
    have "f = 0 \<or> f = 1" using that by arith
    then show ?thesis by (auto simp: zero_tns_def)
  qed
  then show ?thesis by (intro tns_analysis_valid) (simp_all add: zero_tns_def)
qed

end
