(* ===== verification/SpecTables.thy ===== *)
theory SpecTables
  imports BitChannel
begin

text \<open>
  The tables of the arithmetic coder of the spectrum, from \<^verbatim>\<open>tables.c\<close>: the contexts
  \<^verbatim>\<open>lc3_spectrum_lookup\<close> select, from the rate, the half of the spectrum and the last two
  pairs, one of the 64 models; \<^verbatim>\<open>lc3_spectrum_bits\<close> are the costs of their symbols, in
  2048th of a bit. The code relies on no check of them: that every index met selects a model,
  and that every symbol has a range, is proved here.
\<close>

section \<open>Tables\<close>

definition lc3_spectrum_lookup_00 :: "nat list list" where
  "lc3_spectrum_lookup_00 =
    [[1, 13, 0, 0], [39, 13, 0, 0], [7, 13, 0, 0], [25, 13, 0, 0], [22, 13, 0, 0],
      [22, 13, 0, 0], [28, 13, 0, 0], [22, 13, 0, 0], [22, 60, 0, 0], [22, 60, 0, 0],
      [22, 60, 0, 0], [28, 60, 0, 0], [28, 60, 0, 0], [28, 60, 13, 0], [34, 60, 13, 0],
      [31, 16, 13, 0], [31, 16, 13, 0], [40, 0, 0, 0], [43, 0, 0, 0], [46, 0, 0, 0],
      [49, 0, 0, 0], [52, 0, 0, 0], [14, 0, 0, 0], [17, 0, 0, 0], [36, 0, 0, 0], [36, 0, 0, 0],
      [36, 0, 0, 0], [38, 0, 0, 0], [0, 0, 0, 0], [57, 0, 0, 0], [38, 13, 0, 0],
      [22, 60, 0, 0], [0, 0, 0, 0], [8, 0, 0, 0], [9, 0, 0, 0], [11, 0, 0, 0], [47, 0, 0, 0],
      [14, 0, 0, 0], [14, 0, 0, 0], [17, 0, 0, 0], [36, 0, 0, 0], [36, 0, 0, 0], [36, 0, 0, 0],
      [38, 0, 0, 0], [59, 0, 0, 0], [59, 0, 0, 0], [38, 13, 0, 0], [22, 60, 0, 0],
      [22, 60, 0, 0], [26, 0, 0, 0], [46, 0, 0, 0], [29, 0, 0, 0], [30, 0, 0, 0],
      [32, 0, 0, 0], [33, 0, 0, 0], [35, 0, 0, 0], [36, 0, 0, 0], [36, 0, 0, 0], [36, 0, 0, 0],
      [38, 0, 0, 0], [0, 13, 0, 0], [59, 13, 0, 0], [23, 13, 0, 0], [22, 60, 0, 0],
      [46, 60, 0, 0], [46, 0, 0, 0], [45, 0, 0, 0], [47, 0, 0, 0], [48, 0, 0, 0],
      [50, 0, 0, 0], [50, 0, 0, 0], [18, 0, 0, 0], [54, 0, 0, 0], [54, 0, 0, 0], [54, 0, 0, 0],
      [38, 0, 0, 0], [59, 13, 0, 0], [59, 13, 0, 0], [59, 13, 0, 0], [22, 60, 0, 0],
      [0, 60, 0, 0], [62, 0, 0, 0], [63, 0, 0, 0], [3, 0, 0, 0], [33, 0, 0, 0], [2, 0, 0, 0],
      [2, 0, 0, 0], [61, 0, 0, 0], [20, 0, 0, 0], [20, 0, 0, 0], [20, 13, 0, 0],
      [21, 13, 0, 0], [59, 13, 0, 0], [59, 13, 0, 0], [39, 13, 0, 0], [28, 60, 0, 0],
      [28, 60, 0, 0], [63, 0, 0, 0], [63, 0, 0, 0], [3, 0, 0, 0], [33, 0, 0, 0], [2, 0, 0, 0],
      [2, 0, 0, 0], [61, 0, 0, 0], [38, 0, 0, 0], [38, 0, 0, 0], [38, 13, 0, 0],
      [21, 13, 0, 0], [59, 13, 0, 0], [59, 13, 0, 0], [39, 13, 0, 0], [28, 60, 0, 0],
      [28, 60, 0, 0], [6, 0, 0, 0], [6, 0, 0, 0], [6, 0, 0, 0], [2, 0, 0, 0], [18, 0, 0, 0],
      [61, 0, 0, 0], [20, 0, 0, 0], [21, 0, 0, 0], [21, 0, 0, 0], [21, 13, 0, 0],
      [59, 13, 0, 0], [39, 13, 0, 0], [39, 13, 0, 0], [7, 13, 0, 0], [34, 60, 13, 0],
      [34, 60, 13, 0], [34, 60, 13, 0], [34, 60, 13, 0], [34, 60, 13, 0], [34, 60, 13, 0],
      [34, 60, 13, 0], [34, 60, 13, 0], [34, 60, 13, 0], [34, 60, 13, 0], [34, 60, 13, 0],
      [34, 60, 13, 0], [34, 60, 13, 0], [34, 60, 13, 0], [34, 60, 13, 0], [34, 60, 13, 0],
      [34, 60, 13, 0], [34, 60, 13, 0], [51, 0, 0, 0], [51, 0, 0, 0], [51, 0, 0, 0],
      [53, 0, 0, 0], [54, 0, 0, 0], [20, 0, 0, 0], [38, 0, 0, 0], [38, 0, 0, 0], [57, 0, 0, 0],
      [39, 13, 0, 0], [39, 13, 0, 0], [39, 13, 0, 0], [7, 13, 0, 0], [24, 13, 0, 0],
      [34, 60, 13, 0], [4, 60, 0, 0], [4, 60, 0, 0], [4, 60, 0, 0], [4, 60, 0, 0],
      [4, 60, 0, 0], [4, 60, 0, 0], [4, 60, 0, 0], [4, 60, 0, 0], [4, 60, 0, 0], [4, 60, 0, 0],
      [4, 60, 0, 0], [4, 60, 0, 0], [4, 60, 0, 0], [4, 60, 0, 0], [4, 60, 0, 0], [4, 60, 0, 0],
      [4, 60, 0, 0], [4, 0, 0, 0], [4, 0, 0, 0], [4, 0, 0, 0], [4, 0, 0, 0], [56, 0, 0, 0],
      [38, 0, 0, 0], [57, 0, 0, 0], [57, 13, 0, 0], [59, 13, 0, 0], [7, 13, 0, 0],
      [7, 13, 0, 0], [7, 13, 0, 0], [42, 13, 0, 0], [42, 13, 0, 0], [34, 60, 13, 0],
      [0, 60, 13, 0], [0, 60, 13, 0], [0, 60, 13, 0], [0, 60, 13, 0], [0, 60, 13, 0],
      [0, 60, 13, 0], [0, 60, 13, 0], [0, 60, 13, 0], [0, 60, 13, 0], [0, 60, 13, 0],
      [0, 60, 13, 0], [0, 60, 13, 0], [0, 60, 13, 0], [0, 60, 13, 0], [0, 60, 13, 0],
      [0, 60, 13, 0], [0, 60, 13, 0], [5, 0, 0, 0], [4, 0, 0, 0], [4, 0, 0, 0], [5, 0, 0, 0],
      [21, 0, 0, 0], [21, 0, 0, 0], [59, 13, 0, 0], [7, 13, 0, 0], [7, 13, 0, 0],
      [7, 13, 0, 0], [7, 13, 0, 0], [25, 13, 0, 0], [25, 13, 0, 0], [25, 13, 0, 0],
      [34, 60, 13, 0], [4, 13, 0, 0], [4, 13, 0, 0], [4, 13, 0, 0], [4, 13, 0, 0],
      [5, 13, 0, 0], [23, 13, 0, 0], [23, 13, 0, 0], [39, 13, 0, 0], [7, 13, 0, 0],
      [7, 13, 0, 0], [7, 13, 0, 0], [42, 13, 0, 0], [25, 13, 0, 0], [25, 13, 0, 0],
      [22, 13, 0, 0], [31, 60, 13, 0], [31, 60, 13, 0], [39, 60, 0, 0], [39, 60, 0, 0],
      [39, 60, 0, 0], [39, 60, 0, 0], [7, 60, 0, 0], [7, 60, 0, 0], [42, 60, 0, 0],
      [0, 60, 0, 0], [25, 60, 0, 0], [22, 60, 0, 0], [22, 60, 0, 0], [22, 60, 0, 0],
      [28, 60, 0, 0], [34, 60, 0, 0], [31, 16, 13, 0]]"

definition lc3_spectrum_lookup_01 :: "nat list list" where
  "lc3_spectrum_lookup_01 =
    [[55, 0, 13, 0], [55, 0, 13, 0], [55, 0, 13, 0], [55, 0, 13, 0], [55, 0, 13, 0],
      [55, 0, 13, 0], [55, 0, 13, 0], [55, 0, 13, 0], [55, 0, 13, 0], [55, 0, 13, 0],
      [55, 0, 13, 0], [55, 0, 13, 0], [55, 0, 13, 0], [55, 0, 13, 0], [55, 0, 13, 0],
      [55, 0, 13, 0], [55, 0, 13, 0], [55, 0, 0, 0], [40, 0, 0, 0], [8, 0, 0, 0], [9, 0, 0, 0],
      [49, 0, 0, 0], [49, 0, 0, 0], [52, 0, 0, 0], [17, 0, 0, 0], [17, 0, 0, 0], [17, 0, 0, 0],
      [4, 13, 0, 0], [0, 13, 0, 0], [20, 13, 0, 0], [17, 0, 0, 0], [60, 13, 60, 13],
      [40, 0, 0, 13], [40, 0, 0, 0], [8, 0, 0, 0], [43, 0, 0, 0], [27, 0, 0, 0], [49, 0, 0, 0],
      [49, 0, 0, 0], [14, 0, 0, 0], [17, 0, 0, 0], [17, 0, 0, 0], [17, 0, 0, 0], [36, 0, 0, 0],
      [42, 13, 0, 0], [42, 13, 0, 0], [17, 0, 0, 0], [57, 60, 13, 0], [57, 0, 13, 0],
      [40, 0, 0, 0], [8, 0, 0, 0], [26, 0, 0, 0], [27, 0, 0, 0], [49, 0, 0, 0], [12, 0, 0, 0],
      [14, 0, 0, 0], [17, 0, 0, 0], [17, 0, 0, 0], [17, 0, 0, 0], [36, 0, 0, 0], [0, 0, 13, 0],
      [38, 0, 13, 0], [36, 13, 0, 0], [1, 60, 0, 0], [8, 60, 0, 0], [8, 0, 0, 0],
      [43, 0, 0, 0], [9, 0, 0, 0], [11, 0, 0, 0], [49, 0, 0, 0], [12, 0, 0, 0], [14, 0, 0, 0],
      [14, 0, 13, 0], [33, 0, 13, 0], [50, 0, 13, 0], [50, 0, 0, 0], [50, 0, 13, 0],
      [61, 0, 13, 0], [36, 13, 0, 0], [39, 60, 0, 0], [8, 60, 0, 0], [8, 0, 0, 0],
      [43, 0, 0, 0], [46, 0, 0, 0], [49, 0, 0, 0], [52, 0, 0, 0], [30, 0, 0, 0], [14, 0, 0, 0],
      [14, 0, 13, 0], [33, 0, 13, 0], [50, 0, 13, 0], [50, 0, 13, 0], [50, 13, 13, 0],
      [50, 13, 0, 0], [18, 13, 13, 0], [25, 60, 13, 0], [8, 60, 13, 13], [8, 0, 0, 13],
      [43, 0, 0, 13], [46, 0, 0, 13], [49, 0, 0, 13], [52, 0, 0, 0], [30, 0, 0, 0],
      [14, 0, 0, 0], [14, 0, 0, 0], [18, 0, 60, 0], [5, 0, 0, 13], [5, 0, 0, 13],
      [5, 0, 0, 13], [61, 13, 0, 13], [18, 13, 13, 0], [23, 13, 60, 0], [43, 13, 0, 13],
      [43, 0, 0, 13], [43, 0, 0, 13], [9, 0, 0, 13], [49, 0, 0, 13], [52, 0, 0, 0],
      [3, 0, 0, 0], [14, 0, 0, 0], [14, 0, 0, 0], [50, 0, 0, 0], [50, 13, 13, 0],
      [50, 13, 13, 0], [50, 13, 13, 0], [61, 0, 0, 0], [17, 13, 13, 0], [24, 60, 13, 0],
      [43, 60, 13, 0], [43, 60, 13, 0], [43, 60, 13, 0], [43, 60, 13, 0], [43, 60, 13, 0],
      [43, 60, 13, 0], [43, 60, 13, 0], [43, 60, 13, 0], [43, 60, 13, 0], [43, 60, 13, 0],
      [43, 60, 13, 0], [43, 60, 13, 0], [43, 60, 13, 0], [43, 60, 13, 0], [43, 60, 13, 0],
      [43, 60, 13, 0], [43, 60, 13, 0], [43, 0, 0, 0], [43, 0, 19, 0], [9, 0, 0, 0],
      [11, 0, 0, 0], [52, 0, 0, 0], [52, 0, 0, 0], [14, 0, 0, 0], [14, 0, 0, 0], [17, 0, 0, 0],
      [61, 13, 0, 0], [61, 13, 0, 0], [61, 13, 0, 0], [54, 0, 0, 0], [17, 0, 13, 13],
      [39, 13, 13, 0], [45, 13, 13, 0], [45, 13, 13, 0], [45, 13, 13, 0], [45, 13, 13, 0],
      [45, 13, 13, 0], [45, 13, 13, 0], [45, 13, 13, 0], [45, 13, 13, 0], [45, 13, 13, 0],
      [45, 13, 13, 0], [45, 13, 13, 0], [45, 13, 13, 0], [45, 13, 13, 0], [45, 13, 13, 0],
      [45, 13, 13, 0], [45, 13, 13, 0], [45, 13, 13, 0], [45, 0, 13, 0], [44, 0, 13, 0],
      [27, 0, 0, 0], [29, 0, 0, 0], [52, 0, 0, 0], [48, 0, 0, 0], [52, 0, 0, 0], [52, 0, 0, 0],
      [17, 0, 0, 0], [17, 0, 0, 0], [17, 0, 19, 0], [17, 0, 13, 0], [2, 0, 13, 0],
      [17, 0, 13, 0], [7, 13, 0, 0], [27, 0, 0, 13], [27, 0, 0, 13], [27, 0, 0, 13],
      [27, 0, 0, 13], [27, 0, 0, 13], [27, 0, 0, 13], [27, 0, 0, 13], [27, 0, 0, 13],
      [27, 0, 0, 13], [27, 0, 0, 13], [27, 0, 0, 13], [27, 0, 0, 13], [27, 0, 0, 13],
      [27, 0, 0, 13], [27, 0, 0, 13], [27, 0, 0, 13], [27, 0, 0, 13], [27, 0, 0, 13],
      [9, 0, 0, 13], [27, 0, 0, 13], [27, 0, 0, 13], [12, 0, 0, 13], [52, 0, 0, 13],
      [14, 0, 0, 13], [14, 0, 0, 13], [58, 0, 0, 13], [41, 0, 0, 13], [41, 0, 0, 13],
      [41, 0, 0, 13], [6, 0, 0, 13], [17, 60, 0, 13], [37, 0, 19, 13], [9, 0, 0, 13],
      [9, 16, 0, 13], [9, 0, 0, 13], [27, 0, 0, 13], [11, 0, 0, 13], [49, 0, 0, 0],
      [12, 0, 0, 0], [52, 0, 0, 0], [14, 0, 0, 0], [14, 0, 0, 0], [14, 0, 0, 0], [50, 0, 0, 0],
      [0, 0, 0, 13], [53, 0, 0, 13], [17, 0, 0, 13], [28, 0, 13, 0], [52, 0, 13, 0],
      [52, 0, 13, 0], [49, 0, 13, 0], [52, 0, 0, 0], [12, 0, 0, 0], [52, 0, 0, 0],
      [30, 0, 0, 0], [14, 0, 0, 0], [14, 0, 0, 0], [17, 0, 0, 0], [2, 0, 0, 0], [2, 0, 0, 0],
      [2, 0, 0, 0], [38, 0, 0, 0], [38, 0, 0, 0], [34, 0, 0, 0]]"

definition lc3_spectrum_lookup_10 :: "nat list list" where
  "lc3_spectrum_lookup_10 =
    [[31, 16, 60, 13], [34, 16, 13, 0], [34, 16, 13, 0], [31, 16, 13, 0], [31, 16, 13, 0],
      [31, 16, 13, 0], [31, 16, 13, 0], [19, 16, 60, 0], [19, 16, 60, 0], [19, 16, 60, 0],
      [19, 16, 60, 0], [19, 16, 60, 0], [19, 16, 60, 0], [19, 16, 60, 0], [31, 16, 60, 13],
      [19, 37, 16, 60], [44, 0, 0, 60], [44, 0, 0, 0], [62, 0, 0, 0], [30, 0, 0, 0],
      [32, 0, 0, 0], [58, 0, 0, 0], [35, 0, 0, 0], [36, 0, 0, 0], [36, 0, 0, 0],
      [38, 13, 0, 0], [0, 13, 0, 0], [59, 13, 0, 0], [7, 13, 0, 0], [7, 13, 0, 0],
      [39, 13, 0, 0], [34, 60, 13, 0], [34, 0, 13, 0], [45, 0, 0, 0], [47, 0, 0, 0],
      [48, 0, 0, 0], [33, 0, 0, 0], [35, 0, 0, 0], [35, 0, 0, 0], [36, 0, 0, 0],
      [38, 13, 0, 0], [38, 13, 0, 0], [38, 13, 0, 0], [59, 13, 0, 0], [7, 13, 0, 0],
      [7, 13, 0, 0], [39, 13, 0, 0], [34, 60, 13, 0], [34, 0, 13, 0], [62, 0, 0, 0],
      [30, 0, 0, 0], [15, 0, 0, 0], [50, 0, 0, 0], [53, 0, 0, 0], [53, 0, 0, 0],
      [54, 13, 0, 0], [21, 13, 0, 0], [21, 13, 0, 0], [21, 13, 0, 0], [59, 13, 0, 0],
      [7, 13, 0, 0], [7, 13, 0, 0], [7, 13, 0, 0], [34, 60, 13, 0], [30, 0, 13, 0],
      [30, 0, 0, 0], [48, 0, 0, 0], [33, 0, 0, 0], [58, 0, 0, 0], [18, 0, 0, 0], [18, 0, 0, 0],
      [56, 13, 0, 0], [23, 13, 0, 0], [23, 13, 0, 0], [23, 13, 0, 0], [59, 13, 0, 0],
      [7, 13, 0, 0], [7, 13, 0, 0], [24, 13, 0, 0], [34, 60, 13, 0], [34, 0, 13, 0],
      [6, 0, 0, 0], [6, 0, 0, 0], [58, 0, 0, 0], [53, 0, 0, 0], [54, 0, 0, 0], [54, 0, 0, 0],
      [21, 13, 0, 0], [59, 13, 0, 0], [59, 13, 0, 0], [59, 13, 0, 0], [39, 13, 0, 0],
      [7, 13, 0, 0], [7, 13, 0, 0], [42, 60, 0, 0], [34, 16, 13, 0], [6, 0, 13, 0],
      [6, 0, 0, 0], [33, 0, 0, 0], [58, 0, 0, 0], [53, 0, 0, 0], [54, 0, 0, 0], [61, 0, 0, 0],
      [21, 13, 0, 0], [59, 13, 0, 0], [59, 13, 0, 0], [59, 13, 0, 0], [39, 13, 0, 0],
      [7, 13, 0, 0], [7, 13, 0, 0], [42, 60, 0, 0], [34, 16, 13, 0], [34, 0, 13, 0],
      [51, 0, 0, 0], [51, 0, 0, 0], [53, 0, 0, 0], [54, 0, 0, 0], [56, 13, 0, 0],
      [56, 13, 0, 0], [57, 13, 0, 0], [39, 13, 0, 0], [39, 13, 0, 0], [39, 13, 0, 0],
      [7, 13, 0, 0], [42, 13, 0, 0], [42, 13, 0, 0], [25, 60, 0, 0], [31, 16, 13, 0],
      [31, 0, 13, 0], [31, 0, 13, 0], [31, 0, 13, 0], [31, 0, 13, 0], [31, 0, 13, 0],
      [31, 0, 13, 0], [31, 0, 13, 0], [31, 0, 13, 0], [31, 0, 13, 0], [31, 0, 13, 0],
      [31, 0, 13, 0], [31, 0, 13, 0], [31, 0, 13, 0], [31, 0, 13, 0], [31, 0, 13, 0],
      [31, 0, 13, 0], [31, 0, 13, 0], [4, 0, 0, 0], [4, 0, 0, 0], [4, 0, 0, 0], [5, 13, 0, 0],
      [23, 13, 0, 0], [23, 13, 0, 0], [39, 13, 0, 0], [7, 13, 0, 0], [7, 13, 0, 0],
      [7, 13, 0, 0], [42, 13, 0, 0], [25, 13, 0, 0], [25, 13, 0, 0], [22, 60, 0, 0],
      [31, 16, 60, 0], [31, 13, 0, 0], [31, 13, 0, 0], [31, 13, 0, 0], [31, 13, 0, 0],
      [31, 13, 0, 0], [31, 13, 0, 0], [31, 13, 0, 0], [31, 13, 0, 0], [31, 13, 0, 0],
      [31, 13, 0, 0], [31, 13, 0, 0], [31, 13, 0, 0], [31, 13, 0, 0], [31, 13, 0, 0],
      [31, 13, 0, 0], [31, 13, 0, 0], [31, 13, 0, 0], [5, 13, 0, 0], [5, 13, 0, 0],
      [5, 13, 0, 0], [5, 13, 0, 0], [57, 13, 0, 0], [57, 13, 0, 0], [39, 13, 0, 0],
      [24, 13, 0, 0], [24, 13, 0, 0], [24, 13, 0, 0], [42, 13, 0, 0], [22, 13, 0, 0],
      [22, 60, 0, 0], [28, 60, 13, 0], [31, 16, 60, 0], [31, 13, 0, 0], [31, 13, 0, 0],
      [31, 13, 0, 0], [31, 13, 0, 0], [31, 13, 0, 0], [31, 13, 0, 0], [31, 13, 0, 0],
      [31, 13, 0, 0], [31, 13, 0, 0], [31, 13, 0, 0], [31, 13, 0, 0], [31, 13, 0, 0],
      [31, 13, 0, 0], [31, 13, 0, 0], [31, 13, 0, 0], [31, 13, 0, 0], [31, 13, 0, 0],
      [41, 13, 0, 0], [41, 13, 0, 0], [41, 13, 0, 0], [41, 13, 0, 0], [39, 13, 0, 0],
      [39, 13, 0, 0], [7, 13, 0, 0], [42, 13, 0, 0], [42, 13, 0, 0], [42, 13, 0, 0],
      [25, 13, 0, 0], [28, 13, 0, 0], [28, 60, 0, 0], [28, 60, 13, 0], [31, 16, 60, 13],
      [31, 13, 0, 0], [41, 13, 0, 0], [41, 13, 0, 0], [41, 13, 0, 0], [41, 13, 0, 0],
      [39, 13, 0, 0], [39, 13, 0, 0], [24, 13, 0, 0], [25, 60, 0, 0], [25, 60, 0, 0],
      [25, 60, 0, 0], [22, 60, 0, 0], [28, 60, 0, 0], [28, 60, 0, 0], [34, 60, 13, 0],
      [31, 16, 60, 13], [31, 60, 13, 13], [10, 60, 13, 0], [10, 60, 13, 0], [10, 60, 13, 0],
      [10, 60, 13, 0], [10, 60, 13, 0], [10, 60, 13, 0], [28, 60, 13, 0], [34, 60, 13, 0],
      [34, 60, 13, 0], [34, 16, 13, 0], [34, 16, 13, 0], [34, 16, 60, 0], [34, 16, 60, 0],
      [31, 16, 60, 0], [19, 37, 16, 13]]"

definition lc3_spectrum_lookup_11 :: "nat list list" where
  "lc3_spectrum_lookup_11 =
    [[8, 0, 16, 0], [8, 0, 16, 0], [8, 0, 16, 0], [8, 0, 16, 0], [8, 0, 16, 0], [8, 0, 16, 0],
      [8, 0, 16, 0], [8, 0, 16, 0], [8, 0, 16, 0], [8, 0, 16, 0], [8, 0, 16, 0], [8, 0, 16, 0],
      [8, 0, 16, 0], [8, 0, 16, 0], [8, 0, 16, 0], [8, 0, 16, 0], [8, 0, 16, 0], [8, 0, 0, 0],
      [9, 0, 0, 0], [11, 0, 0, 0], [47, 0, 0, 0], [32, 0, 0, 0], [50, 0, 0, 0], [18, 0, 0, 0],
      [18, 0, 0, 0], [20, 0, 0, 0], [21, 0, 0, 0], [21, 0, 0, 0], [21, 13, 0, 0],
      [39, 13, 0, 0], [59, 13, 0, 0], [34, 16, 60, 0], [26, 0, 0, 0], [26, 0, 0, 0],
      [27, 0, 0, 0], [29, 0, 0, 0], [30, 0, 0, 0], [33, 0, 0, 0], [50, 0, 0, 0], [18, 0, 0, 0],
      [18, 0, 0, 0], [20, 0, 0, 0], [57, 0, 0, 0], [57, 13, 0, 0], [57, 13, 0, 0],
      [59, 13, 0, 0], [59, 13, 0, 0], [34, 16, 60, 0], [27, 0, 0, 0], [27, 0, 0, 0],
      [11, 0, 0, 0], [12, 0, 0, 0], [48, 0, 0, 0], [50, 0, 0, 0], [58, 0, 0, 0], [61, 0, 0, 0],
      [61, 0, 0, 0], [56, 0, 0, 0], [57, 13, 0, 0], [57, 13, 0, 0], [57, 13, 0, 0],
      [59, 13, 0, 0], [39, 13, 0, 0], [34, 16, 60, 0], [45, 0, 0, 0], [45, 0, 0, 0],
      [12, 0, 0, 0], [30, 0, 0, 0], [32, 0, 0, 0], [2, 0, 0, 0], [2, 0, 0, 0], [61, 0, 0, 0],
      [38, 0, 0, 0], [38, 0, 0, 0], [38, 13, 0, 0], [57, 13, 0, 0], [0, 13, 0, 0],
      [59, 13, 0, 0], [39, 13, 0, 0], [34, 16, 60, 0], [63, 0, 0, 0], [63, 0, 0, 0],
      [3, 0, 0, 0], [32, 0, 0, 0], [58, 0, 0, 0], [18, 0, 0, 0], [18, 0, 0, 0], [20, 0, 0, 0],
      [21, 0, 0, 0], [21, 0, 0, 0], [21, 13, 0, 0], [59, 13, 0, 0], [39, 13, 0, 0],
      [39, 13, 0, 0], [7, 13, 13, 0], [31, 16, 60, 0], [31, 0, 0, 0], [3, 0, 0, 0],
      [3, 0, 0, 0], [33, 0, 0, 0], [58, 0, 0, 0], [18, 0, 0, 0], [18, 0, 0, 0], [20, 0, 0, 0],
      [21, 0, 0, 0], [21, 0, 0, 0], [21, 13, 0, 0], [59, 13, 0, 0], [7, 13, 0, 0],
      [7, 13, 0, 0], [7, 13, 13, 0], [31, 16, 60, 0], [6, 0, 0, 0], [6, 0, 0, 0],
      [51, 0, 0, 0], [51, 0, 0, 0], [53, 0, 0, 0], [54, 0, 0, 0], [54, 0, 0, 0], [38, 0, 0, 0],
      [57, 13, 0, 0], [57, 13, 0, 0], [57, 13, 0, 0], [39, 13, 0, 0], [7, 13, 0, 0],
      [7, 13, 0, 0], [42, 60, 13, 0], [31, 16, 60, 0], [31, 0, 0, 0], [31, 0, 0, 0],
      [31, 0, 0, 0], [31, 0, 0, 0], [31, 0, 0, 0], [31, 0, 0, 0], [31, 0, 0, 0], [31, 0, 0, 0],
      [31, 0, 0, 0], [31, 0, 0, 0], [31, 0, 0, 0], [31, 0, 0, 0], [31, 0, 0, 0], [31, 0, 0, 0],
      [31, 0, 0, 0], [31, 0, 0, 0], [31, 0, 0, 0], [51, 0, 0, 0], [53, 0, 0, 0], [53, 0, 0, 0],
      [54, 0, 0, 0], [56, 0, 0, 0], [56, 0, 0, 0], [57, 13, 0, 0], [59, 13, 0, 0],
      [59, 13, 0, 0], [59, 13, 0, 0], [7, 13, 0, 0], [24, 13, 0, 0], [24, 13, 0, 0],
      [25, 60, 13, 0], [31, 16, 60, 0], [31, 0, 0, 0], [31, 0, 0, 0], [31, 0, 0, 0],
      [31, 0, 0, 0], [31, 0, 0, 0], [31, 0, 0, 0], [31, 0, 0, 0], [31, 0, 0, 0], [31, 0, 0, 0],
      [31, 0, 0, 0], [31, 0, 0, 0], [31, 0, 0, 0], [31, 0, 0, 0], [31, 0, 0, 0], [31, 0, 0, 0],
      [31, 0, 0, 0], [31, 0, 0, 0], [4, 0, 0, 0], [4, 0, 0, 0], [4, 0, 0, 0], [54, 0, 0, 0],
      [21, 13, 0, 0], [21, 0, 0, 0], [57, 13, 0, 0], [39, 13, 0, 0], [39, 13, 0, 0],
      [39, 13, 0, 0], [7, 13, 0, 0], [42, 13, 13, 0], [42, 13, 13, 0], [22, 60, 13, 0],
      [31, 16, 60, 0], [31, 16, 0, 0], [31, 16, 0, 0], [31, 16, 0, 0], [31, 16, 0, 0],
      [31, 16, 0, 0], [31, 16, 0, 0], [31, 16, 0, 0], [31, 16, 0, 0], [31, 16, 0, 0],
      [31, 16, 0, 0], [31, 16, 0, 0], [31, 16, 0, 0], [31, 16, 0, 0], [31, 16, 0, 0],
      [31, 16, 0, 0], [31, 16, 0, 0], [31, 16, 0, 0], [5, 0, 0, 0], [5, 0, 0, 0], [5, 0, 0, 0],
      [5, 13, 0, 0], [23, 13, 0, 0], [23, 13, 0, 0], [59, 13, 0, 0], [7, 13, 0, 0],
      [7, 13, 0, 0], [7, 13, 13, 0], [42, 13, 13, 0], [22, 60, 13, 0], [22, 60, 13, 0],
      [28, 60, 13, 0], [31, 16, 60, 0], [31, 13, 0, 0], [4, 13, 0, 0], [4, 13, 0, 0],
      [4, 13, 0, 0], [5, 13, 0, 0], [23, 13, 0, 0], [23, 13, 0, 0], [39, 13, 13, 0],
      [24, 60, 13, 0], [24, 60, 13, 0], [24, 60, 13, 0], [25, 60, 13, 0], [28, 60, 13, 0],
      [28, 60, 13, 0], [34, 16, 13, 0], [31, 16, 60, 0], [31, 16, 13, 0], [10, 16, 13, 0],
      [10, 16, 13, 0], [10, 16, 13, 0], [10, 16, 13, 0], [10, 16, 60, 0], [10, 16, 60, 0],
      [28, 16, 60, 0], [34, 16, 60, 0], [34, 16, 60, 0], [34, 16, 60, 0], [31, 16, 60, 0],
      [31, 16, 60, 0], [31, 16, 60, 0], [31, 16, 60, 0], [19, 37, 60, 0]]"

definition lc3_spectrum_models_0 :: "lc3_ac_model list" where
  "lc3_spectrum_models_0 =
    [ac_model [(0, 1), (1, 1), (2, 175), (177, 48), (225, 1), (226, 1), (227, 109), (336, 36),
        (372, 171), (543, 109), (652, 47), (699, 20), (719, 49), (768, 36), (804, 20),
        (824, 10), (834, 190)],
     ac_model [(0, 18), (18, 26), (44, 17), (61, 10), (71, 27), (98, 37), (135, 24), (159, 16),
        (175, 22), (197, 32), (229, 22), (251, 14), (265, 17), (282, 26), (308, 20), (328, 13),
        (341, 683)],
     ac_model [(0, 71), (71, 92), (163, 49), (212, 25), (237, 81), (318, 102), (420, 61), (481, 33),
        (514, 42), (556, 57), (613, 39), (652, 23), (675, 22), (697, 30), (727, 22), (749, 15),
        (764, 260)],
     ac_model [(0, 160), (160, 130), (290, 46), (336, 18), (354, 121), (475, 123), (598, 55),
        (653, 24), (677, 45), (722, 55), (777, 31), (808, 15), (823, 19), (842, 24), (866, 15),
        (881, 9), (890, 134)],
     ac_model [(0, 71), (71, 73), (144, 33), (177, 18), (195, 71), (266, 76), (342, 43), (385, 26),
        (411, 34), (445, 44), (489, 30), (519, 20), (539, 20), (559, 27), (586, 21), (607, 15),
        (622, 402)],
     ac_model [(0, 48), (48, 60), (108, 32), (140, 19), (159, 58), (217, 68), (285, 42), (327, 27),
        (354, 31), (385, 42), (427, 30), (457, 21), (478, 19), (497, 27), (524, 21), (545, 16),
        (561, 463)],
     ac_model [(0, 138), (138, 109), (247, 43), (290, 18), (308, 111), (419, 112), (531, 53),
        (584, 25), (609, 46), (655, 55), (710, 32), (742, 17), (759, 21), (780, 27), (807, 18),
        (825, 11), (836, 188)],
     ac_model [(0, 16), (16, 24), (40, 22), (62, 17), (79, 24), (103, 36), (139, 31), (170, 25),
        (195, 20), (215, 30), (245, 25), (270, 20), (290, 15), (305, 22), (327, 19), (346, 16),
        (362, 662)],
     ac_model [(0, 579), (579, 150), (729, 12), (741, 2), (743, 154), (897, 73), (970, 10), (980, 2),
        (982, 14), (996, 11), (1007, 3), (1010, 1), (1011, 3), (1014, 3), (1017, 1), (1018, 1),
        (1019, 5)],
     ac_model [(0, 398), (398, 184), (582, 25), (607, 5), (612, 176), (788, 114), (902, 23), (925, 6),
        (931, 25), (956, 23), (979, 8), (987, 3), (990, 6), (996, 6), (1002, 3), (1005, 2),
        (1007, 17)],
     ac_model [(0, 13), (13, 21), (34, 18), (52, 11), (63, 20), (83, 29), (112, 22), (134, 15),
        (149, 14), (163, 20), (183, 16), (199, 12), (211, 10), (221, 14), (235, 12), (247, 10),
        (257, 767)],
     ac_model [(0, 281), (281, 183), (464, 37), (501, 9), (510, 171), (681, 139), (820, 37),
        (857, 10), (867, 35), (902, 36), (938, 15), (953, 6), (959, 9), (968, 10), (978, 6),
        (984, 3), (987, 37)],
     ac_model [(0, 198), (198, 164), (362, 46), (408, 13), (421, 154), (575, 147), (722, 51),
        (773, 16), (789, 43), (832, 49), (881, 24), (905, 10), (915, 13), (928, 16), (944, 10),
        (954, 5), (959, 65)],
     ac_model [(0, 1), (1, 1), (2, 93), (95, 44), (139, 1), (140, 1), (141, 72), (213, 38), (251, 86),
        (337, 70), (407, 43), (450, 25), (475, 40), (515, 36), (551, 25), (576, 16), (592, 432)],
     ac_model [(0, 133), (133, 141), (274, 64), (338, 28), (366, 117), (483, 122), (605, 59),
        (664, 27), (691, 39), (730, 48), (778, 29), (807, 15), (822, 15), (837, 20), (857, 13),
        (870, 8), (878, 146)],
     ac_model [(0, 128), (128, 125), (253, 49), (302, 18), (320, 123), (443, 134), (577, 59),
        (636, 23), (659, 49), (708, 59), (767, 32), (799, 15), (814, 19), (833, 24), (857, 15),
        (872, 9), (881, 143)]]"

definition lc3_spectrum_models_1 :: "lc3_ac_model list" where
  "lc3_spectrum_models_1 =
    [ac_model [(0, 1), (1, 1), (2, 23), (25, 17), (42, 1), (43, 1), (44, 23), (67, 18), (85, 20),
        (105, 21), (126, 18), (144, 15), (159, 15), (174, 17), (191, 14), (205, 12), (217, 807)],
     ac_model [(0, 70), (70, 96), (166, 63), (229, 38), (267, 89), (356, 112), (468, 65), (533, 36),
        (569, 37), (606, 47), (653, 32), (685, 20), (705, 17), (722, 23), (745, 17), (762, 12),
        (774, 250)],
     ac_model [(0, 55), (55, 75), (130, 45), (175, 25), (200, 68), (268, 90), (358, 58), (416, 33),
        (449, 39), (488, 54), (542, 39), (581, 25), (606, 22), (628, 31), (659, 24), (683, 16),
        (699, 325)],
     ac_model [(0, 1), (1, 2), (3, 2), (5, 2), (7, 2), (9, 2), (11, 2), (13, 2), (15, 2), (17, 2),
        (19, 2), (21, 2), (23, 2), (25, 2), (27, 2), (29, 2), (31, 993)],
     ac_model [(0, 34), (34, 51), (85, 38), (123, 24), (147, 49), (196, 69), (265, 52), (317, 35),
        (352, 34), (386, 47), (433, 37), (470, 27), (497, 21), (518, 31), (549, 25), (574, 19),
        (593, 431)],
     ac_model [(0, 30), (30, 43), (73, 32), (105, 22), (127, 43), (170, 59), (229, 45), (274, 31),
        (305, 30), (335, 42), (377, 34), (411, 25), (436, 19), (455, 28), (483, 23), (506, 18),
        (524, 500)],
     ac_model [(0, 9), (9, 15), (24, 14), (38, 13), (51, 14), (65, 22), (87, 21), (108, 18),
        (126, 13), (139, 20), (159, 18), (177, 16), (193, 11), (204, 17), (221, 15), (236, 14),
        (250, 774)],
     ac_model [(0, 30), (30, 44), (74, 31), (105, 20), (125, 41), (166, 58), (224, 42), (266, 28),
        (294, 28), (322, 39), (361, 30), (391, 22), (413, 18), (431, 26), (457, 21), (478, 16),
        (494, 530)],
     ac_model [(0, 15), (15, 23), (38, 20), (58, 15), (73, 22), (95, 33), (128, 28), (156, 22),
        (178, 18), (196, 26), (222, 23), (245, 18), (263, 13), (276, 20), (296, 18), (314, 15),
        (329, 695)],
     ac_model [(0, 11), (11, 17), (28, 16), (44, 13), (57, 17), (74, 26), (100, 23), (123, 19),
        (142, 15), (157, 22), (179, 20), (199, 17), (216, 12), (228, 18), (246, 16), (262, 14),
        (276, 748)],
     ac_model [(0, 448), (448, 171), (619, 20), (639, 4), (643, 178), (821, 105), (926, 18), (944, 4),
        (948, 23), (971, 20), (991, 7), (998, 2), (1000, 5), (1005, 5), (1010, 2), (1012, 1),
        (1013, 11)],
     ac_model [(0, 332), (332, 188), (520, 29), (549, 6), (555, 186), (741, 133), (874, 29), (903, 7),
        (910, 30), (940, 30), (970, 11), (981, 4), (985, 6), (991, 7), (998, 4), (1002, 2),
        (1004, 20)],
     ac_model [(0, 8), (8, 13), (21, 13), (34, 11), (45, 13), (58, 20), (78, 18), (96, 16), (112, 12),
        (124, 17), (141, 16), (157, 13), (170, 10), (180, 14), (194, 13), (207, 12), (219, 805)],
     ac_model [(0, 239), (239, 176), (415, 42), (457, 11), (468, 163), (631, 145), (776, 44),
        (820, 13), (833, 39), (872, 42), (914, 19), (933, 7), (940, 11), (951, 13), (964, 7),
        (971, 4), (975, 49)],
     ac_model [(0, 165), (165, 145), (310, 49), (359, 16), (375, 138), (513, 139), (652, 55),
        (707, 20), (727, 47), (774, 54), (828, 28), (856, 12), (868, 16), (884, 20), (904, 12),
        (916, 7), (923, 101)],
     ac_model [(0, 3), (3, 5), (8, 5), (13, 5), (18, 5), (23, 7), (30, 7), (37, 7), (44, 4), (48, 7),
        (55, 7), (62, 6), (68, 4), (72, 6), (78, 6), (84, 6), (90, 934)]]"

definition lc3_spectrum_models_2 :: "lc3_ac_model list" where
  "lc3_spectrum_models_2 =
    [ac_model [(0, 115), (115, 122), (237, 52), (289, 22), (311, 111), (422, 125), (547, 61),
        (608, 27), (635, 45), (680, 57), (737, 34), (771, 17), (788, 19), (807, 25), (832, 17),
        (849, 10), (859, 165)],
     ac_model [(0, 107), (107, 114), (221, 51), (272, 21), (293, 106), (399, 122), (521, 61),
        (582, 28), (610, 46), (656, 58), (714, 35), (749, 18), (767, 20), (787, 26), (813, 18),
        (831, 11), (842, 182)],
     ac_model [(0, 6), (6, 10), (16, 10), (26, 9), (35, 10), (45, 15), (60, 15), (75, 14), (89, 9),
        (98, 14), (112, 13), (125, 12), (137, 8), (145, 12), (157, 11), (168, 10), (178, 846)],
     ac_model [(0, 72), (72, 88), (160, 50), (210, 26), (236, 84), (320, 102), (422, 60), (482, 32),
        (514, 41), (555, 53), (608, 36), (644, 21), (665, 20), (685, 27), (712, 20), (732, 13),
        (745, 279)],
     ac_model [(0, 45), (45, 63), (108, 45), (153, 30), (183, 61), (244, 83), (327, 58), (385, 36),
        (421, 34), (455, 47), (502, 34), (536, 23), (559, 19), (578, 27), (605, 21), (626, 15),
        (641, 383)],
     ac_model [(0, 1), (1, 1), (2, 7), (9, 7), (16, 1), (17, 1), (18, 8), (26, 8), (34, 6), (40, 8),
        (48, 7), (55, 7), (62, 6), (68, 7), (75, 7), (82, 6), (88, 936)],
     ac_model [(0, 29), (29, 44), (73, 35), (108, 24), (132, 42), (174, 62), (236, 48), (284, 34),
        (318, 30), (348, 43), (391, 35), (426, 26), (452, 19), (471, 29), (500, 24), (524, 19),
        (543, 481)],
     ac_model [(0, 20), (20, 31), (51, 25), (76, 17), (93, 30), (123, 43), (166, 34), (200, 25),
        (225, 22), (247, 32), (279, 26), (305, 21), (326, 16), (342, 23), (365, 20), (385, 16),
        (401, 623)],
     ac_model [(0, 742), (742, 103), (845, 5), (850, 1), (851, 108), (959, 38), (997, 4), (1001, 1),
        (1002, 7), (1009, 5), (1014, 2), (1016, 1), (1017, 2), (1019, 1), (1020, 1), (1021, 1),
        (1022, 2)],
     ac_model [(0, 42), (42, 52), (94, 27), (121, 16), (137, 49), (186, 58), (244, 36), (280, 23),
        (303, 27), (330, 36), (366, 26), (392, 18), (410, 17), (427, 24), (451, 19), (470, 14),
        (484, 540)],
     ac_model [(0, 13), (13, 20), (33, 18), (51, 15), (66, 19), (85, 29), (114, 26), (140, 21),
        (161, 17), (178, 25), (203, 22), (225, 18), (243, 13), (256, 19), (275, 17), (292, 15),
        (307, 717)],
     ac_model [(0, 501), (501, 169), (670, 19), (689, 4), (693, 155), (848, 88), (936, 16), (952, 4),
        (956, 19), (975, 16), (991, 6), (997, 2), (999, 5), (1004, 4), (1008, 2), (1010, 1),
        (1011, 13)],
     ac_model [(0, 445), (445, 136), (581, 22), (603, 6), (609, 158), (767, 98), (865, 23), (888, 7),
        (895, 31), (926, 28), (954, 10), (964, 4), (968, 9), (977, 9), (986, 5), (991, 2),
        (993, 31)],
     ac_model [(0, 285), (285, 157), (442, 37), (479, 10), (489, 161), (650, 129), (779, 39),
        (818, 12), (830, 40), (870, 42), (912, 18), (930, 7), (937, 12), (949, 14), (963, 8),
        (971, 4), (975, 49)],
     ac_model [(0, 349), (349, 179), (528, 33), (561, 8), (569, 162), (731, 121), (852, 31), (883, 9),
        (892, 31), (923, 30), (953, 12), (965, 5), (970, 8), (978, 9), (987, 5), (992, 2),
        (994, 30)],
     ac_model [(0, 199), (199, 156), (355, 47), (402, 15), (417, 146), (563, 137), (700, 50),
        (750, 17), (767, 44), (811, 49), (860, 24), (884, 10), (894, 15), (909, 17), (926, 10),
        (936, 6), (942, 82)]]"

definition lc3_spectrum_models_3 :: "lc3_ac_model list" where
  "lc3_spectrum_models_3 =
    [ac_model [(0, 141), (141, 134), (275, 50), (325, 18), (343, 128), (471, 135), (606, 58),
        (664, 22), (686, 48), (734, 57), (791, 31), (822, 14), (836, 18), (854, 23), (877, 14),
        (891, 8), (899, 125)],
     ac_model [(0, 243), (243, 194), (437, 56), (493, 17), (510, 139), (649, 126), (775, 45),
        (820, 16), (836, 33), (869, 36), (905, 18), (923, 8), (931, 10), (941, 12), (953, 7),
        (960, 4), (964, 60)],
     ac_model [(0, 91), (91, 106), (197, 51), (248, 23), (271, 99), (370, 117), (487, 63), (550, 30),
        (580, 45), (625, 59), (684, 37), (721, 20), (741, 20), (761, 27), (788, 19), (807, 12),
        (819, 205)],
     ac_model [(0, 107), (107, 94), (201, 41), (242, 20), (262, 92), (354, 97), (451, 52), (503, 28),
        (531, 42), (573, 53), (626, 34), (660, 20), (680, 21), (701, 29), (730, 21), (751, 14),
        (765, 259)],
     ac_model [(0, 168), (168, 171), (339, 68), (407, 25), (432, 121), (553, 123), (676, 55),
        (731, 24), (755, 34), (789, 41), (830, 24), (854, 12), (866, 13), (879, 16), (895, 11),
        (906, 6), (912, 112)],
     ac_model [(0, 67), (67, 80), (147, 44), (191, 23), (214, 76), (290, 94), (384, 57), (441, 31),
        (472, 41), (513, 54), (567, 37), (604, 23), (627, 21), (648, 30), (678, 22), (700, 15),
        (715, 309)],
     ac_model [(0, 46), (46, 63), (109, 39), (148, 23), (171, 58), (229, 78), (307, 52), (359, 32),
        (391, 36), (427, 49), (476, 37), (513, 24), (537, 21), (558, 30), (588, 24), (612, 17),
        (629, 395)],
     ac_model [(0, 848), (848, 70), (918, 2), (920, 1), (921, 75), (996, 16), (1012, 1), (1013, 1),
        (1014, 2), (1016, 1), (1017, 1), (1018, 1), (1019, 1), (1020, 1), (1021, 1), (1022, 1),
        (1023, 1)],
     ac_model [(0, 36), (36, 52), (88, 35), (123, 22), (145, 48), (193, 67), (260, 48), (308, 32),
        (340, 32), (372, 45), (417, 35), (452, 24), (476, 20), (496, 29), (525, 23), (548, 17),
        (565, 459)],
     ac_model [(0, 24), (24, 37), (61, 29), (90, 20), (110, 35), (145, 51), (196, 41), (237, 29),
        (266, 26), (292, 38), (330, 31), (361, 24), (385, 18), (403, 27), (430, 23), (453, 18),
        (471, 553)],
     ac_model [(0, 85), (85, 97), (182, 48), (230, 23), (253, 91), (344, 110), (454, 61), (515, 30),
        (545, 45), (590, 58), (648, 37), (685, 21), (706, 21), (727, 29), (756, 20), (776, 13),
        (789, 235)],
     ac_model [(0, 22), (22, 33), (55, 27), (82, 20), (102, 33), (135, 48), (183, 39), (222, 30),
        (252, 26), (278, 37), (315, 30), (345, 23), (368, 17), (385, 25), (410, 21), (431, 17),
        (448, 576)],
     ac_model [(0, 1), (1, 1), (2, 54), (56, 33), (89, 1), (90, 1), (91, 49), (140, 32), (172, 49),
        (221, 47), (268, 35), (303, 25), (328, 30), (358, 30), (388, 24), (412, 18), (430, 594)],
     ac_model [(0, 45), (45, 64), (109, 43), (152, 25), (177, 62), (239, 81), (320, 56), (376, 35),
        (411, 37), (448, 51), (499, 38), (537, 26), (563, 22), (585, 31), (616, 24), (640, 18),
        (658, 366)],
     ac_model [(0, 247), (247, 148), (395, 38), (433, 12), (445, 154), (599, 130), (729, 42),
        (771, 14), (785, 44), (829, 46), (875, 21), (896, 9), (905, 15), (920, 17), (937, 9),
        (946, 5), (951, 73)],
     ac_model [(0, 231), (231, 136), (367, 41), (408, 15), (423, 134), (557, 119), (676, 47),
        (723, 19), (742, 44), (786, 49), (835, 25), (860, 12), (872, 17), (889, 20), (909, 12),
        (921, 7), (928, 96)]]"

definition lc3_spectrum_bits_0 :: "int list list" where
  "lc3_spectrum_bits_0 =
    [[20480, 20480, 5220, 9042, 20480, 20480, 6619, 9892, 5289, 6619, 9105, 11629, 8982, 9892,
      11629, 13677, 4977],
     [11940, 10854, 12109, 13677, 10742, 9812, 11090, 12288, 11348, 10240, 11348, 12683, 12109,
      10854, 11629, 12902, 1197],
     [7886, 7120, 8982, 10970, 7496, 6815, 8334, 10150, 9437, 8535, 9656, 11216, 11348, 10431,
      11348, 12479, 4051],
     [5485, 6099, 9168, 11940, 6311, 6262, 8640, 11090, 9233, 8640, 10334, 12479, 11781, 11090,
      12479, 13988, 6009],
     [7886, 7804, 10150, 11940, 7886, 7685, 9368, 10854, 10061, 9300, 10431, 11629, 11629,
      10742, 11485, 12479, 2763],
     [9042, 8383, 10240, 11781, 8483, 8013, 9437, 10742, 10334, 9437, 10431, 11485, 11781,
      10742, 11485, 12288, 2346],
     [5922, 6619, 9368, 11940, 6566, 6539, 8750, 10970, 9168, 8640, 10240, 12109, 11485, 10742,
      11940, 13396, 5009],
     [12288, 11090, 11348, 12109, 11090, 9892, 10334, 10970, 11629, 10431, 10970, 11629, 12479,
      11348, 11781, 12288, 1289],
     [1685, 5676, 13138, 18432, 5598, 7804, 13677, 18432, 12683, 13396, 17234, 20480, 17234,
      17234, 20480, 20480, 15725],
     [2793, 5072, 10970, 15725, 5204, 6487, 11216, 15186, 10970, 11216, 14336, 17234, 15186,
      15186, 17234, 18432, 12109],
     [12902, 11485, 11940, 13396, 11629, 10531, 11348, 12479, 12683, 11629, 12288, 13138,
      13677, 12683, 13138, 13677, 854],
     [3821, 5088, 9812, 13988, 5289, 5901, 9812, 13677, 9976, 9892, 12479, 15186, 13988, 13677,
      15186, 17234, 9812],
     [4856, 5412, 9168, 12902, 5598, 5736, 8863, 12288, 9368, 8982, 11090, 13677, 12902, 12288,
      13677, 15725, 8147],
     [20480, 20480, 7088, 9300, 20480, 20480, 7844, 9733, 7320, 7928, 9368, 10970, 9581, 9892,
      10970, 12288, 2550],
     [6031, 5859, 8192, 10635, 6410, 6286, 8433, 10742, 9656, 9042, 10531, 12479, 12479, 11629,
      12902, 14336, 5756],
     [6144, 6215, 8982, 11940, 6262, 6009, 8433, 11216, 8982, 8433, 10240, 12479, 11781, 11090,
      12479, 13988, 5817],
     [20480, 20480, 11216, 12109, 20480, 20480, 11216, 11940, 11629, 11485, 11940, 12479,
      12479, 12109, 12683, 13138, 704],
     [7928, 6994, 8239, 9733, 7218, 6539, 8147, 9892, 9812, 9105, 10240, 11629, 12109, 11216,
      12109, 13138, 4167],
     [8640, 7724, 9233, 10970, 8013, 7185, 8483, 10150, 9656, 8694, 9656, 10970, 11348, 10334,
      11090, 12288, 3391],
     [20480, 18432, 18432, 18432, 18432, 18432, 18432, 18432, 18432, 18432, 18432, 18432,
      18432, 18432, 18432, 18432, 91],
     [10061, 8863, 9733, 11090, 8982, 7970, 8806, 9976, 10061, 9105, 9812, 10742, 11485, 10334,
      10970, 11781, 2557],
     [10431, 9368, 10240, 11348, 9368, 8433, 9233, 10334, 10431, 9437, 10061, 10970, 11781,
      10635, 11216, 11940, 2119],
     [13988, 12479, 12683, 12902, 12683, 11348, 11485, 11940, 12902, 11629, 11940, 12288,
      13396, 12109, 12479, 12683, 828],
     [10431, 9300, 10334, 11629, 9508, 8483, 9437, 10635, 10635, 9656, 10431, 11348, 11940,
      10854, 11485, 12288, 1946],
     [12479, 11216, 11629, 12479, 11348, 10150, 10635, 11348, 11940, 10854, 11216, 11940,
      12902, 11629, 11940, 12479, 1146],
     [13396, 12109, 12288, 12902, 12109, 10854, 11216, 11781, 12479, 11348, 11629, 12109,
      13138, 11940, 12288, 12683, 928],
     [2443, 5289, 11629, 16384, 5170, 6730, 11940, 16384, 11216, 11629, 14731, 18432, 15725,
      15725, 18432, 20480, 13396],
     [3328, 5009, 10531, 15186, 5040, 6031, 10531, 14731, 10431, 10431, 13396, 16384, 15186,
      14731, 16384, 18432, 11629],
     [14336, 12902, 12902, 13396, 12902, 11629, 11940, 12288, 13138, 12109, 12288, 12902,
      13677, 12683, 12902, 13138, 711],
     [4300, 5204, 9437, 13396, 5430, 5776, 9300, 12902, 9656, 9437, 11781, 14731, 13396, 12902,
      14731, 16384, 8982],
     [5394, 5776, 8982, 12288, 5922, 5901, 8640, 11629, 9105, 8694, 10635, 13138, 12288, 11629,
      13138, 14731, 6844],
     [17234, 15725, 15725, 15725, 15725, 14731, 14731, 14731, 16384, 14731, 14731, 15186,
      16384, 15186, 15186, 15186, 272]]"

definition lc3_spectrum_bits_1 :: "int list list" where
  "lc3_spectrum_bits_1 =
    [[6461, 6286, 8806, 11348, 6566, 6215, 8334, 10742, 9233, 8535, 10061, 12109, 11781, 10970,
      12109, 13677, 5394],
     [6674, 6487, 8863, 11485, 6702, 6286, 8334, 10635, 9168, 8483, 9976, 11940, 11629, 10854,
      11940, 13396, 5105],
     [15186, 13677, 13677, 13988, 13677, 12479, 12479, 12683, 13988, 12683, 12902, 13138,
      14336, 13138, 13396, 13677, 565],
     [7844, 7252, 8922, 10854, 7389, 6815, 8383, 10240, 9508, 8750, 9892, 11485, 11629, 10742,
      11629, 12902, 3842],
     [9233, 8239, 9233, 10431, 8334, 7424, 8483, 9892, 10061, 9105, 10061, 11216, 11781, 10742,
      11485, 12479, 2906],
     [20480, 20480, 14731, 14731, 20480, 20480, 14336, 14336, 15186, 14336, 14731, 14731,
      15186, 14731, 14731, 15186, 266],
     [10531, 9300, 9976, 11090, 9437, 8286, 9042, 10061, 10431, 9368, 9976, 10854, 11781,
      10531, 11090, 11781, 2233],
     [11629, 10334, 10970, 12109, 10431, 9368, 10061, 10970, 11348, 10240, 10854, 11485, 12288,
      11216, 11629, 12288, 1469],
     [952, 6787, 15725, 20480, 6646, 9733, 16384, 20480, 14731, 15725, 18432, 20480, 18432,
      20480, 20480, 20480, 18432],
     [9437, 8806, 10742, 12288, 8982, 8483, 9892, 11216, 10742, 9892, 10854, 11940, 12109,
      11090, 11781, 12683, 1891],
     [12902, 11629, 11940, 12479, 11781, 10531, 10854, 11485, 12109, 10970, 11348, 11940,
      12902, 11781, 12109, 12479, 1054],
     [2113, 5323, 11781, 16384, 5579, 7252, 12288, 16384, 11781, 12288, 15186, 18432, 15725,
      16384, 18432, 20480, 12902],
     [2463, 5965, 11348, 15186, 5522, 6934, 11216, 14731, 10334, 10635, 13677, 16384, 13988,
      13988, 15725, 18432, 10334],
     [3779, 5541, 9812, 13677, 5467, 6122, 9656, 13138, 9581, 9437, 11940, 14731, 13138, 12683,
      14336, 16384, 8982],
     [3181, 5154, 10150, 14336, 5448, 6311, 10334, 13988, 10334, 10431, 13138, 15725, 14336,
      13988, 15725, 18432, 10431],
     [4841, 5560, 9105, 12479, 5756, 5944, 8922, 12109, 9300, 8982, 11090, 13677, 12479, 12109,
      13677, 15186, 7460],
     [5859, 6009, 8922, 11940, 6144, 5987, 8483, 11348, 9042, 8535, 10334, 12683, 11940, 11216,
      12683, 14336, 6215],
     [4250, 4916, 8587, 12109, 5901, 6191, 9233, 12288, 10150, 9892, 11940, 14336, 13677,
      13138, 14731, 16384, 8383],
     [7153, 6702, 8863, 11216, 6904, 6410, 8239, 10431, 9233, 8433, 9812, 11629, 11629, 10742,
      11781, 13138, 4753],
     [6674, 7057, 9508, 11629, 7120, 6964, 8806, 10635, 9437, 8750, 10061, 11629, 11485, 10531,
      11485, 12683, 4062],
     [5341, 5289, 8013, 10970, 6311, 6262, 8640, 11090, 10061, 9508, 11090, 13138, 12902,
      12288, 13396, 15186, 6539],
     [8057, 7533, 9300, 11216, 7685, 7057, 8535, 10334, 9508, 8694, 9812, 11216, 11485, 10431,
      11348, 12479, 3541],
     [9168, 8239, 9656, 11216, 8483, 7608, 8806, 10240, 9892, 8982, 9812, 11090, 11485, 10431,
      11090, 12109, 2815],
     [558, 7928, 18432, 20480, 7724, 12288, 20480, 20480, 18432, 20480, 20480, 20480, 20480,
      20480, 20480, 20480, 20480],
     [9892, 8806, 9976, 11348, 9042, 8057, 9042, 10240, 10240, 9233, 9976, 11090, 11629, 10531,
      11216, 12109, 2371],
     [11090, 9812, 10531, 11629, 9976, 8863, 9508, 10531, 10854, 9733, 10334, 11090, 11940,
      10742, 11216, 11940, 1821],
     [7354, 6964, 9042, 11216, 7153, 6592, 8334, 10431, 9233, 8483, 9812, 11485, 11485, 10531,
      11629, 12902, 4349],
     [11348, 10150, 10742, 11629, 10150, 9042, 9656, 10431, 10854, 9812, 10431, 11216, 12109,
      10970, 11485, 12109, 1700],
     [20480, 20480, 8694, 10150, 20480, 20480, 8982, 10240, 8982, 9105, 9976, 10970, 10431,
      10431, 11090, 11940, 1610],
     [9233, 8192, 9368, 10970, 8286, 7496, 8587, 9976, 9812, 8863, 9733, 10854, 11348, 10334,
      11090, 11940, 3040],
     [4202, 5716, 9733, 13138, 5598, 6099, 9437, 12683, 9300, 9168, 11485, 13988, 12479, 12109,
      13988, 15725, 7804],
     [4400, 5965, 9508, 12479, 6009, 6360, 9105, 11781, 9300, 8982, 10970, 13138, 12109, 11629,
      13138, 14731, 6994]]"

definition lc3_spectrum_lookup :: "nat \<Rightarrow> nat \<Rightarrow> nat \<Rightarrow> nat list" where
  "lc3_spectrum_lookup rate hi s =
     (if rate = 0 then (if hi = 0 then lc3_spectrum_lookup_00 else lc3_spectrum_lookup_01)
      else (if hi = 0 then lc3_spectrum_lookup_10 else lc3_spectrum_lookup_11)) ! s"

definition lc3_spectrum_models :: "lc3_ac_model list" where
  "lc3_spectrum_models = lc3_spectrum_models_0 @ lc3_spectrum_models_1 @ lc3_spectrum_models_2 @ lc3_spectrum_models_3"

definition lc3_spectrum_bits :: "int list list" where
  "lc3_spectrum_bits = lc3_spectrum_bits_0 @ lc3_spectrum_bits_1"

section \<open>The tables are well-formed\<close>

lemma spectrum_lookup_wf:
  "list_all (\<lambda>l. length l = 4 \<and> list_all (\<lambda>v. v < 64) l) lc3_spectrum_lookup_00"
  "list_all (\<lambda>l. length l = 4 \<and> list_all (\<lambda>v. v < 64) l) lc3_spectrum_lookup_01"
  "list_all (\<lambda>l. length l = 4 \<and> list_all (\<lambda>v. v < 64) l) lc3_spectrum_lookup_10"
  "list_all (\<lambda>l. length l = 4 \<and> list_all (\<lambda>v. v < 64) l) lc3_spectrum_lookup_11"
  by (simp_all add: lc3_spectrum_lookup_00_def lc3_spectrum_lookup_01_def lc3_spectrum_lookup_10_def
      lc3_spectrum_lookup_11_def)

lemma spectrum_lookup_length:
  "length lc3_spectrum_lookup_00 = 256" "length lc3_spectrum_lookup_01 = 256"
  "length lc3_spectrum_lookup_10 = 256" "length lc3_spectrum_lookup_11 = 256"
  by (simp_all add: lc3_spectrum_lookup_00_def lc3_spectrum_lookup_01_def lc3_spectrum_lookup_10_def
      lc3_spectrum_lookup_11_def)

lemma lc3_spectrum_lookup_bound:
  assumes "st < 256" "k < 4"
  shows "lc3_spectrum_lookup r h st ! k < 64" and "length (lc3_spectrum_lookup r h st) = 4"
  using assms spectrum_lookup_wf
  by (auto simp: lc3_spectrum_lookup_def list_all_length spectrum_lookup_length)

lemma spectrum_models_parts:
  "list_all (\<lambda>m. \<forall>s \<le> 16. ac_symbol_ok m s) lc3_spectrum_models_0"
  "list_all (\<lambda>m. \<forall>s \<le> 16. ac_symbol_ok m s) lc3_spectrum_models_1"
  "list_all (\<lambda>m. \<forall>s \<le> 16. ac_symbol_ok m s) lc3_spectrum_models_2"
  "list_all (\<lambda>m. \<forall>s \<le> 16. ac_symbol_ok m s) lc3_spectrum_models_3"
  unfolding lc3_spectrum_models_0_def lc3_spectrum_models_1_def lc3_spectrum_models_2_def
    lc3_spectrum_models_3_def list.pred_inject(2)
  by (intro conjI ac_model_all_ok; simp add: list.pred_inject)+

lemma lc3_spectrum_models_length: "length lc3_spectrum_models = 64"
  by (simp add: lc3_spectrum_models_def lc3_spectrum_models_0_def lc3_spectrum_models_1_def
      lc3_spectrum_models_2_def lc3_spectrum_models_3_def)

lemma lc3_spectrum_models_ok: "i < 64 \<Longrightarrow> s \<le> 16 \<Longrightarrow> ac_symbol_ok (lc3_spectrum_models ! i) s"
proof -
  have "list_all (\<lambda>m. \<forall>s \<le> 16. ac_symbol_ok m s) lc3_spectrum_models"
    unfolding lc3_spectrum_models_def using spectrum_models_parts by simp
  then show "i < 64 \<Longrightarrow> s \<le> 16 \<Longrightarrow> ac_symbol_ok (lc3_spectrum_models ! i) s"
    by (simp add: list_all_length lc3_spectrum_models_length)
qed

lemma spectrum_bits_wf:
  "length lc3_spectrum_bits = 64"
  "list_all (\<lambda>l. length l = 17 \<and> list_all (\<lambda>v. 0 < v \<and> v \<le> 20480) l) lc3_spectrum_bits"
  by (simp_all add: lc3_spectrum_bits_def lc3_spectrum_bits_0_def lc3_spectrum_bits_1_def)

lemma lc3_spectrum_bits_bound:
  assumes "i < 64" "s \<le> 16"
  shows "0 < lc3_spectrum_bits ! i ! s" "lc3_spectrum_bits ! i ! s \<le> 20480"
  using assms spectrum_bits_wf by (auto simp: list_all_length)

end
