(* ===== verification/SpecCode.thy ===== *)
theory SpecCode
  imports SpecTables Fastmath Common
begin

text \<open>
  The coding of the quantised spectrum, \<^verbatim>\<open>spec.c\<close>: the pairs of coefficients on the
  arithmetic coder, with their escapes and signs, and the side data. A quantised coefficient
  is a \<open>u16\<close>, its bit 0 the sign and the others the absolute value; a decoded one is a
  \<open>f32\<close>.
\<close>

section \<open>Modes\<close>

record lc3_spec_side =
  side_g_idx :: int
  side_nq :: int
  side_lsb_mode :: bool

definition resolve_high_rate :: "lc3_srate \<Rightarrow> int \<Rightarrow> bool" where
  "resolve_high_rate sr nbytes = (nbytes > 20 * (1 + sr_int sr))"

definition get_nbits_nq :: "lc3_dt \<Rightarrow> lc3_srate \<Rightarrow> int" where
  "get_nbits_nq dt sr =
     (let ne = LC3_NE dt (sr_int sr)
      in 4 + of_bool (ne > 32) + of_bool (ne > 64) + of_bool (ne > 128) + of_bool (ne > 256))"

definition get_nbits_ac :: "lc3_dt \<Rightarrow> lc3_srate \<Rightarrow> int \<Rightarrow> int" where
  "get_nbits_ac dt sr nbytes = get_nbits_nq dt sr + 3 + LC3_MIN (cdiv (nbytes - 1) 160) 2"

section \<open>Side data\<close>

definition lc3_spec_put_side :: "lc3_bits \<Rightarrow> lc3_dt \<Rightarrow> lc3_srate \<Rightarrow> lc3_spec_side \<Rightarrow> lc3_bits" where
  "lc3_spec_put_side bits dt sr side =
     (let nbits_nq = get_nbits_nq dt sr;
          bits = lc3_put_bits bits (word_of_int (LC3_MAX (drop_bit 1 (side_nq side)) 1 - 1)) nbits_nq;
          bits = lc3_put_bits bits (of_bool (side_lsb_mode side)) 1
      in lc3_put_bits bits (word_of_int (side_g_idx side)) 8)"

text \<open>The get returns the error code, the side data and the stream.\<close>

definition lc3_spec_get_side :: "lc3_bits \<Rightarrow> lc3_dt \<Rightarrow> lc3_srate \<Rightarrow> int \<times> lc3_spec_side \<times> lc3_bits" where
  "lc3_spec_get_side bits dt sr =
     (let nbits_nq = get_nbits_nq dt sr;
          ne = LC3_NE dt (sr_int sr);
          (v, bits) = lc3_get_bits bits nbits_nq;
          n = uint (push_bit 1 (v + 1));
          (l, bits) = lc3_get_bit bits;
          (g, bits) = lc3_get_bits bits 8;
          side = \<lparr>side_g_idx = uint g, side_nq = n, side_lsb_mode = (l \<noteq> 0)\<rparr>
      in if n > ne then (-1, side\<lparr>side_nq := ne\<rparr>, bits) else (0, side, bits))"

definition put_noise_factor :: "lc3_bits \<Rightarrow> int \<Rightarrow> lc3_bits" where
  "put_noise_factor bits nf = lc3_put_bits bits (word_of_int nf) 3"

definition get_noise_factor :: "lc3_bits \<Rightarrow> int \<times> lc3_bits" where
  "get_noise_factor bits = (case lc3_get_bits bits 3 of (v, bits) \<Rightarrow> (uint v, bits))"

section \<open>The loop on the pairs\<close>

text \<open>
  The two nested loops of the code visit the even positions below \<open>nq\<close>, first with the
  contexts of the lower half of the spectrum (\<open>h = 0\<close>), then with those of the upper half:
  \<open>evens i n\<close> are the values of \<^verbatim>\<open>i\<close> of the inner loop, from the one the loop starts with.
\<close>

definition evens :: "nat \<Rightarrow> int \<Rightarrow> nat list" where
  "evens i n = map (\<lambda>j. i + 2 * j) [0 ..< nat ((n - int i + 1) div 2)]"

definition spec_steps :: "int \<Rightarrow> int \<Rightarrow> (nat \<times> nat) list" where
  "spec_steps nq ne =
     (let lo = evens 0 (LC3_MIN nq (drop_bit 1 (ne + 2)));
          hi = evens (2 * length lo) (LC3_MIN nq (ne + 2))
      in map (Pair 0) lo @ map (Pair 1) hi)"

text \<open>The context of the next pair, a \<^verbatim>\<open>uint8_t\<close>.\<close>

definition spec_next_state :: "int \<Rightarrow> nat \<Rightarrow> int \<Rightarrow> int \<Rightarrow> int" where
  "spec_next_state state k a b =
     (push_bit 4 state + (if k > 1 then 12 + int k else 1 + (a + b) * (int k + 1))) mod 256"

section \<open>Put of the quantised spectrum\<close>

text \<open>The absolute value and the sign of a stored coefficient.\<close>

definition xq_abs :: "u16 list \<Rightarrow> nat \<Rightarrow> int" where
  "xq_abs x i = drop_bit 1 (uint (x ! i))"

abbreviation xq_neg :: "u16 list \<Rightarrow> nat \<Rightarrow> int" where
  "xq_neg x i \<equiv> uint (x ! i) AND 1"

text \<open>
  The escape loop on \<open>m\<close>, that is not negative. It returns \<open>k\<close> and the stream.
\<close>

function put_escape :: "nat list \<Rightarrow> int \<Rightarrow> int \<Rightarrow> int \<Rightarrow> nat \<Rightarrow> lc3_bits \<Rightarrow> (nat \<times> lc3_bits) option" where
  "put_escape lut a b m k bits =
     (if m \<le> 0 then Some (k, bits)
      else let bits = lc3_put_bit bits (drop_bit k a AND 1);
               bits = lc3_put_bit bits (drop_bit k b AND 1)
           in Option.bind (lc3_put_symbol bits (lc3_spectrum_models ! (lut ! min k 3)) 16)
                (put_escape lut a b (drop_bit 1 m) (k + 1)))"
  by pat_completeness auto
termination
  by (relation "measure (\<lambda>(lut, a, b, m, k, bits). nat m)") (auto simp: drop_bit_eq_div)

declare put_escape.simps [simp del]

definition put_pair ::
    "(nat \<Rightarrow> nat list) \<Rightarrow> bool \<Rightarrow> u16 list \<Rightarrow> nat \<Rightarrow> int \<times> lc3_bits \<Rightarrow> (int \<times> lc3_bits) option" where
  "put_pair lut_coeff lsb x i st = (case st of (state, bits) \<Rightarrow>
     (let lut = lut_coeff (nat state);
          a = xq_abs x i; b = xq_abs x (i + 1);
          m = drop_bit 2 (a OR b)
      in Option.bind
          (if m \<noteq> 0
           then Option.bind
             (if lsb then map_option (Pair 1) (lc3_put_symbol bits (lc3_spectrum_models ! (lut ! 0)) 16)
              else Some (0, bits))
             (\<lambda>(k, bits). map_option
               (\<lambda>(k, bits). (drop_bit (of_bool lsb) a, drop_bit (of_bool lsb) b, k - of_bool lsb, min k 3, bits))
               (put_escape lut a b (drop_bit (of_bool lsb) m) k bits))
           else Some (a, b, 0, 0, bits))
          (\<lambda>(a, b, shr, k, bits).
             let bits = (if a \<noteq> 0 then lc3_put_bit bits (xq_neg x i) else bits);
                 bits = (if b \<noteq> 0 then lc3_put_bit bits (xq_neg x (i + 1)) else bits);
                 a = drop_bit shr a; b = drop_bit shr b
             in map_option (Pair (spec_next_state state k a b))
                  (lc3_put_symbol bits (lc3_spectrum_models ! (lut ! k)) (nat (a + 4 * b))))))"

definition put_quantized ::
    "lc3_bits \<Rightarrow> lc3_dt \<Rightarrow> lc3_srate \<Rightarrow> int \<Rightarrow> u16 list \<Rightarrow> int \<Rightarrow> bool \<Rightarrow> lc3_bits option" where
  "put_quantized bits dt sr nbytes x nq lsb =
     (let ne = LC3_NE dt (sr_int sr);
          high_rate = resolve_high_rate sr nbytes
      in map_option snd (for_each (\<lambda>(h, i). put_pair (lc3_spectrum_lookup (of_bool high_rate) h) lsb x i)
           (spec_steps nq ne) (0, bits)))"

section \<open>Get of the quantised spectrum\<close>

text \<open>
  The loop on the escapes: the values of \<open>u\<close>, \<open>v\<close>, \<open>k\<close>, \<open>shl\<close> and the symbol \<open>s\<close> last read,
  that may still be the escape when \<open>shl\<close> has reached its bound.
\<close>

function get_escape :: "nat list \<Rightarrow> int \<Rightarrow> int \<Rightarrow> nat \<Rightarrow> nat \<Rightarrow> nat \<Rightarrow> lc3_bits \<Rightarrow>
    (int \<times> int \<times> nat \<times> nat \<times> nat \<times> lc3_bits) option" where
  "get_escape lut u v k shl s bits =
     (if s \<ge> 16 \<and> shl < 14 then
        (let (p, bits) = lc3_get_bit bits; u = u OR push_bit shl (uint p);
             (q, bits) = lc3_get_bit bits; v = v OR push_bit shl (uint q);
             k = k + of_bool (k < 3)
         in Option.bind (lc3_get_symbol bits (lc3_spectrum_models ! (lut ! k)))
              (\<lambda>(s, bits). get_escape lut u v k (shl + 1) s bits))
      else Some (u, v, k, shl, s, bits))"
  by pat_completeness auto
termination
  by (relation "measure (\<lambda>(lut, u, v, k, shl, s, bits). 14 - shl)") auto

declare get_escape.simps [simp del]

text \<open>The state of the loop: the error code, the seed of the noise, the context, the values
  read and the stream. Once the error code is set the loops are left.\<close>

record spec_reader =
  rd_ret :: int
  rd_seed :: int
  rd_state :: int
  rd_x :: "f32 list"
  rd_bits :: lc3_bits

text \<open>The sign of a value that is not zero, and the value.\<close>

definition get_sign :: "int \<Rightarrow> lc3_bits \<Rightarrow> int \<times> lc3_bits" where
  "get_sign u bits =
     (if u \<noteq> 0 then (case lc3_get_bit bits of (s, bits) \<Rightarrow> (if s \<noteq> 0 then - u else u, bits)) else (u, bits))"

definition get_pair :: "(nat \<Rightarrow> nat list) \<Rightarrow> bool \<Rightarrow> nat \<Rightarrow> spec_reader \<Rightarrow> spec_reader option" where
  "get_pair lut_coeff lsb i r =
     (if rd_ret r < 0 then Some r else
      let lut = lut_coeff (nat (rd_state r)) in
      Option.bind (lc3_get_symbol (rd_bits r) (lc3_spectrum_models ! (lut ! 0)))
        (\<lambda>(s, bits). Option.bind
          (if lsb \<and> s \<ge> 16
           then map_option (\<lambda>(s, bits). (s, 1, 1, bits))
             (lc3_get_symbol bits (lc3_spectrum_models ! (lut ! 1)))
           else Some (s, 0, 0, bits))
          (\<lambda>(s, k, shl, bits). map_option
            (\<lambda>(u, v, k, shl, s, bits).
              if s \<ge> 16 then r\<lparr>rd_ret := -1, rd_bits := bits\<rparr> else
              (let a = int (s mod 4); b = int (s div 4);
                   u = u OR push_bit shl a; v = v OR push_bit shl b;
                   (xu, bits) = get_sign u bits;
                   (xv, bits) = get_sign v bits
               in r\<lparr>rd_x := (rd_x r)[i := f32_of_int xu, i + 1 := f32_of_int xv],
                    rd_seed := (rd_seed r + u * int i + v * (int i + 1)) AND 0xffff,
                    rd_state := spec_next_state (rd_state r) k a b, rd_bits := bits\<rparr>))
            (get_escape lut 0 0 k shl s bits))))"

text \<open>\<open>xq\<close> is the buffer of the caller; the result is the error code, the buffer, the seed and
  the stream.\<close>

definition get_quantized ::
    "lc3_bits \<Rightarrow> lc3_dt \<Rightarrow> lc3_srate \<Rightarrow> int \<Rightarrow> int \<Rightarrow> bool \<Rightarrow> f32 list \<Rightarrow>
     (int \<times> f32 list \<times> int \<times> lc3_bits) option" where
  "get_quantized bits dt sr nbytes nq lsb xq =
     (let ne = LC3_NE dt (sr_int sr);
          high_rate = resolve_high_rate sr nbytes
      in map_option (\<lambda>r. (rd_ret r, rd_x r, rd_seed r, rd_bits r))
           (for_each (\<lambda>(h, i). get_pair (lc3_spectrum_lookup (of_bool high_rate) h) lsb i)
              (spec_steps nq ne)
              \<lparr>rd_ret = 0, rd_seed = 0, rd_state = 0, rd_x = xq, rd_bits = bits\<rparr>))"

section \<open>Residual and low bits\<close>

text \<open>\<open>put_residual\<close> and the others count down \<open>nbits\<close>; they leave their loop at 0.\<close>

definition put_residual :: "lc3_bits \<Rightarrow> int \<Rightarrow> u16 list \<Rightarrow> int \<Rightarrow> f32 list \<Rightarrow> lc3_bits" where
  "put_residual bits nbits x n xf =
     snd (foldl (\<lambda>(nbits, bits) i.
       if nbits > 0 \<and> x ! i \<noteq> 0 then
         (let xq = f32_of_int (if xq_neg x i \<noteq> 0 then - xq_abs x i else xq_abs x i)
          in (nbits - 1, lc3_put_bit bits (of_bool (f32_ge (xf ! i) xq))))
       else (nbits, bits)) (nbits, bits) [0 ..< nat n])"

text \<open>The two moves of a value that is not null, down when the bit is 0.\<close>

definition refine_value :: "bool \<Rightarrow> f32 \<Rightarrow> f32" where
  "refine_value up v =
     (let lo = f32_div (f32_lit 5 0) (f32_of_int 16); hi = f32_div (f32_lit 3 0) (f32_of_int 16)
      in if up then f32_add v (if f32_gt v f32_0 then lo else hi)
         else f32_sub v (if f32_lt v f32_0 then lo else hi))"

definition get_residual :: "lc3_bits \<Rightarrow> int \<Rightarrow> f32 list \<Rightarrow> int \<Rightarrow> f32 list \<times> lc3_bits" where
  "get_residual bits nbits x nq =
     snd (foldl (\<lambda>(nbits, x, bits) i.
       if nbits > 0 \<and> \<not> f32_eq (x ! i) f32_0 then
         (case lc3_get_bit bits of (v, bits) \<Rightarrow> (nbits - 1, x[i := refine_value (v \<noteq> 0) (x ! i)], bits))
       else (nbits, x, bits)) (nbits, x, bits) [0 ..< nat nq])"

text \<open>One bit, when the count allows it: the count goes down in any case.\<close>

definition put_lsb_bit :: "int \<Rightarrow> int \<times> lc3_bits \<Rightarrow> int \<times> lc3_bits" where
  "put_lsb_bit v st = (case st of (nbits, bits) \<Rightarrow>
     (nbits - 1, if nbits > 0 then lc3_put_bit bits v else bits))"

definition put_lsb :: "lc3_bits \<Rightarrow> int \<Rightarrow> u16 list \<Rightarrow> int \<Rightarrow> lc3_bits" where
  "put_lsb bits nbits x n =
     snd (foldl (\<lambda>st i.
       let a = xq_abs x i; b = xq_abs x (i + 1); a_neg = xq_neg x i; b_neg = xq_neg x (i + 1)
       in if fst st \<le> 0 \<or> drop_bit 2 (a OR b) = 0 then st
          else let st = put_lsb_bit (a AND 1) st;
                   st = (if a = 1 then put_lsb_bit a_neg st else st);
                   st = put_lsb_bit (b AND 1) st
               in if b = 1 then put_lsb_bit b_neg st else st)
       (nbits, bits) (evens 0 n))"

text \<open>The low bit of one value: its count, its sign when the value was 0, and the seed.\<close>

definition get_lsb_value :: "nat \<Rightarrow> int \<times> f32 list \<times> int \<times> lc3_bits \<Rightarrow> int \<times> f32 list \<times> int \<times> lc3_bits" where
  "get_lsb_value i st = (case st of (nbits, x, seed, bits) \<Rightarrow>
     if nbits > 0 then
       (case lc3_get_bit bits of (v, bits) \<Rightarrow>
          if v \<noteq> 0 then
            (if \<not> f32_eq (f32_abs (x ! i)) f32_0 then
               (nbits - 1, x[i := f32_add (x ! i) (f32_of_int (if f32_lt (x ! i) f32_0 then -1 else 1))],
                (seed + int i) AND 0xffff, bits)
             else if nbits - 1 > 0 then
               (case lc3_get_bit bits of (s, bits) \<Rightarrow>
                  (nbits - 2, x[i := f32_of_int (if s \<noteq> 0 then -1 else 1)], (seed + int i) AND 0xffff, bits))
             else (nbits - 2, x, seed, bits))
          else (nbits - 1, x, seed, bits))
     else (nbits - 1, x, seed, bits))"

definition get_lsb :: "lc3_bits \<Rightarrow> int \<Rightarrow> f32 list \<Rightarrow> int \<Rightarrow> int \<Rightarrow> f32 list \<times> int \<times> lc3_bits" where
  "get_lsb bits nbits x nq seed =
     snd (foldl (\<lambda>st i.
       case st of (nbits, x, seed, bits) \<Rightarrow>
         if nbits \<le> 0 \<or> f32_lt (f32_fmax (f32_abs (x ! i)) (f32_abs (x ! (i + 1)))) (f32_of_int 4) then st
         else get_lsb_value (i + 1) (get_lsb_value i st))
       (nbits, x, seed, bits) (evens 0 nq))"

end
