(* ===== verification/SpecGain.thy ===== *)
theory SpecGain
  imports SpecCode
begin

text \<open>
  The gain of the spectrum, its quantisation, the count of the bits it takes and the noise
  level: the other half of \<^verbatim>\<open>spec.c\<close>. Signed sums of the code are exact here: an overflow of
  a C \<^verbatim>\<open>int\<close> is undefined. The logarithm of the C library is the argument \<open>log10f\<close>.
\<close>

section \<open>Global gain\<close>

definition resolve_gain_offset :: "lc3_srate \<Rightarrow> int \<Rightarrow> int" where
  "resolve_gain_offset sr nbytes =
     (let g_off = cdiv (nbytes * 8) (10 * (1 + sr_int sr))
      in 105 + 5 * (1 + sr_int sr) + LC3_MIN g_off 115)"

definition k_20_28 :: int where
  "k_20_28 = f32_to_int (f32_add (f32_mul (f32_div (f32_lit 20 0) (f32_of_int 28)) (f32_of_int 65536)) (f32_lit 5 (-1)))"

definition k_2u7 :: int where
  "k_2u7 = f32_to_int (f32_add (f32_mul (f32_lit 27 (-1)) (f32_of_int 65536)) (f32_lit 5 (-1)))"

definition k_1u4 :: int where
  "k_1u4 = f32_to_int (f32_add (f32_mul (f32_lit 14 (-1)) (f32_of_int 65536)) (f32_lit 5 (-1)))"

text \<open>The energy of the 4 coefficients of a block, and the greatest square so far.\<close>

definition gain_block :: "f32 list \<Rightarrow> f32 \<times> int list \<Rightarrow> nat \<Rightarrow> f32 \<times> int list" where
  "gain_block x st i = (case st of (x2_max, e) \<Rightarrow>
     (let x0 = f32_mul (x ! (4 * i)) (x ! (4 * i));
          x1 = f32_mul (x ! (4 * i + 1)) (x ! (4 * i + 1));
          x2 = f32_mul (x ! (4 * i + 2)) (x ! (4 * i + 2));
          x3 = f32_mul (x ! (4 * i + 3)) (x ! (4 * i + 3));
          x2_max = f32_fmax x2_max x0;
          x2_max = f32_fmax x2_max x1;
          x2_max = f32_fmax x2_max x2;
          x2_max = f32_fmax x2_max x3
      in (x2_max, e @ [fast_db_q16 (f32_fmax (f32_add (f32_add (f32_add x0 x1) x2) x3) (f32_lit 1 (-10)))])))"

text \<open>The loop that skips the last blocks below \<open>gn\<close>: \<open>j + 1\<close> is its argument and its result.\<close>

fun gain_skip :: "int list \<Rightarrow> int \<Rightarrow> nat \<Rightarrow> nat" where
  "gain_skip e gn 0 = 0"
| "gain_skip e gn (Suc j) = (if e ! j < gn then gain_skip e gn j else Suc j)"

definition gain_cost :: "int list \<Rightarrow> int \<Rightarrow> nat \<Rightarrow> int" where
  "gain_cost e gn j1 = foldl (\<lambda>v j.
     let e_diff = e ! j - gn
     in v + (if e_diff < 0 then k_2u7
             else if e_diff < push_bit 16 43 then e_diff + push_bit 16 7
             else 2 * e_diff - push_bit 16 36)) 0 (rev [0 ..< j1])"

text \<open>One step of the dichotomy, on \<open>g_int\<close> and \<open>j0 + 1\<close>.\<close>

definition gain_step :: "int list \<Rightarrow> int \<Rightarrow> int \<times> nat \<Rightarrow> int \<Rightarrow> int \<times> nat" where
  "gain_step e nbits st i = (case st of (g_int, j0) \<Rightarrow>
     (let gn = (g_int - i) * k_20_28;
          j1 = gain_skip e gn j0
      in if gain_cost e gn j1 > nbits * k_1u4 then (g_int, j1) else (g_int - i, j0)))"

definition gain_search :: "int list \<Rightarrow> int \<Rightarrow> int \<Rightarrow> nat \<Rightarrow> int" where
  "gain_search e nbits g_int ne =
     fst (foldl (gain_step e nbits) (g_int, ne) [128, 64, 32, 16, 8, 4, 2, 1])"

text \<open>The result is the gain and the flag of the reset of the offset.\<close>

definition estimate_gain ::
    "(f32 \<Rightarrow> f32) \<Rightarrow> lc3_dt \<Rightarrow> lc3_srate \<Rightarrow> f32 list \<Rightarrow> int \<Rightarrow> f32 \<Rightarrow> int \<Rightarrow> int \<times> bool" where
  "estimate_gain log10f dt sr x nbits_budget nbits_off g_off =
     (let ne = nat (drop_bit 2 (LC3_NE dt (sr_int sr)));
          (x2_max, e) = foldl (gain_block x) (f32_0, []) [0 ..< ne];
          nbits = f32_to_int (f32_add (f32_add (f32_of_int nbits_budget) nbits_off) (f32_lit 5 (-1)));
          g_int = gain_search e nbits (255 - g_off) ne;
          g_min = (if f32_eq x2_max f32_0 then - g_off
                   else f32_to_int (f32_ceil (f32_mul (f32_of_int 28) (log10f
                     (f32_div (f32_sqrt x2_max) (f32_sub (f32_of_int 32768) (f32_lit 375 (-3))))))));
          reset_off = (g_int < g_min \<or> f32_eq x2_max f32_0)
      in (if reset_off then g_min else g_int, reset_off))"

definition gain_delta_table :: "lc3_srate \<Rightarrow> int list" where
  "gain_delta_table sr =
     [[80, 500, 850], [230, 1025, 1700], [380, 1550, 2550], [530, 2075, 3400], [680, 2600, 4250]]
       ! nat (sr_int sr)"

definition adjust_delta :: "lc3_srate \<Rightarrow> int \<Rightarrow> int" where
  "adjust_delta sr nbits =
     (let t = gain_delta_table sr;
          (delta, den) =
            (if nbits < t ! 0 then (3 * (nbits + 48), 48)
             else if nbits < t ! 1 then
               (let n0 = 3 * (t ! 0 + 48); rng = t ! 1 - t ! 0
                in (n0 * rng + (nbits - t ! 0) * (t ! 1 - n0), 48 * rng))
             else (LC3_MIN nbits (t ! 2), 48))
      in cdiv (delta + cdiv den 2) den)"

definition adjust_gain :: "lc3_srate \<Rightarrow> int \<Rightarrow> int \<Rightarrow> int \<Rightarrow> int" where
  "adjust_gain sr g_idx nbits nbits_budget =
     (let delta = adjust_delta sr nbits
      in if nbits < nbits_budget - (delta + 2) then - of_bool (g_idx > 0)
         else if nbits > nbits_budget
         then of_bool (g_idx < 255) + of_bool (g_idx < 254 \<and> nbits \<ge> nbits_budget + delta)
         else 0)"

definition iq_table :: "f32 list" where
  "iq_table = map (\<lambda>(d, k). f32_dec d k)
     [(100000000, -8), (108571112, -8), (117876863, -8), (127980221, -8),
      (138949549, -8), (150859071, -8), (163789371, -8), (177827941, -8),
      (193069773, -8), (209617999, -8), (227584593, -8), (247091123, -8),
      (268269580, -8), (291263265, -8), (316227766, -8), (343332002, -8),
      (372759372, -8), (404708995, -8), (439397056, -8), (477058270, -8),
      (517947468, -8), (562341325, -8), (610540230, -8), (662870316, -8),
      (719685673, -8), (781370738, -8), (848342898, -8), (921055318, -8),
      (100000000, -7), (108571112, -7), (117876863, -7), (127980221, -7),
      (138949549, -7), (150859071, -7), (163789371, -7), (177827941, -7),
      (193069773, -7), (209617999, -7), (227584593, -7), (247091123, -7),
      (268269580, -7), (291263265, -7), (316227766, -7), (343332002, -7),
      (372759372, -7), (404708995, -7), (439397056, -7), (477058270, -7),
      (517947468, -7), (562341325, -7), (610540230, -7), (662870316, -7),
      (719685673, -7), (781370738, -7), (848342898, -7), (921055318, -7),
      (100000000, -6), (108571112, -6), (117876863, -6), (127980221, -6),
      (138949549, -6), (150859071, -6), (163789371, -6), (177827941, -6),
      (193069773, -6)]"

definition unquantize_gain :: "int \<Rightarrow> f32" where
  "unquantize_gain g_int =
     (let g = iq_table ! nat (LC3_ABS g_int AND 0x3f);
          g = ((\<lambda>g. f32_mul g (iq_table ! 64)) ^^ nat (drop_bit 6 (LC3_ABS g_int))) g
      in if g_int \<ge> 0 then g else f32_div (f32_of_int 1) g)"

section \<open>Quantisation\<close>

text \<open>The absolute value of a scaled coefficient, at most \<^verbatim>\<open>INT16_MAX\<close>, and what is stored.\<close>

definition quant_abs :: "f32 \<Rightarrow> u16" where
  "quant_abs v = word_of_int (f32_to_int (f32_fmin (f32_add (f32_abs v) (f32_div (f32_lit 6 0) (f32_of_int 16))) (f32_of_int 32767)))"

definition quant_store :: "f32 \<Rightarrow> u16" where
  "quant_store v = push_bit 1 (quant_abs v) + of_bool (quant_abs v > 0 \<and> f32_lt v f32_0)"

definition quantize ::
    "lc3_dt \<Rightarrow> lc3_srate \<Rightarrow> int \<Rightarrow> f32 list \<times> u16 list \<Rightarrow> f32 list \<times> u16 list \<times> int" where
  "quantize dt sr g_int xs = (case xs of (x, xq) \<Rightarrow>
     (let g_inv = f32_div (f32_of_int 1) (unquantize_gain g_int);
          ne = LC3_NE dt (sr_int sr)
      in foldl (\<lambda>(x, xq, nq) i.
           let x = x[i := f32_mul (x ! i) g_inv];
               x = x[i + 1 := f32_mul (x ! (i + 1)) g_inv];
               x0 = quant_abs (x ! i);
               x1 = quant_abs (x ! (i + 1));
               xq = xq[i := quant_store (x ! i), i + 1 := quant_store (x ! (i + 1))]
           in (x, xq, if x0 \<noteq> 0 \<or> x1 \<noteq> 0 then ne else nq - 2))
           (x, xq, ne) (evens 0 ne)))"

definition unquantize :: "lc3_dt \<Rightarrow> lc3_srate \<Rightarrow> int \<Rightarrow> f32 list \<Rightarrow> int \<Rightarrow> f32 list \<times> f32" where
  "unquantize dt sr g_int x nq =
     (let g = unquantize_gain g_int; ne = LC3_NE dt (sr_int sr);
          x = foldl (\<lambda>x i. x[i := f32_mul (x ! i) g]) x [0 ..< nat nq];
          x = foldl (\<lambda>x i. x[i := f32_0]) x [nat nq ..< nat ne]
      in (x, g))"

section \<open>Count of the bits\<close>

text \<open>The escapes of a pair: \<open>k\<close> and the count, in 2048ths of a bit.\<close>

function escape_nbits :: "nat list \<Rightarrow> int \<Rightarrow> nat \<Rightarrow> int \<Rightarrow> nat \<times> int" where
  "escape_nbits lut m k nbits =
     (if m \<le> 0 then (k, nbits)
      else escape_nbits lut (drop_bit 1 m) (k + 1) (nbits + lc3_spectrum_bits ! (lut ! min k 3) ! 16))"
  by pat_completeness auto
termination
  by (relation "measure (\<lambda>(lut, m, k, nbits). nat m)") (auto simp: drop_bit_eq_div)

declare escape_nbits.simps [simp del]

record spec_count =
  ct_nbits :: int
  ct_lsb :: int
  ct_state :: int
  ct_end :: int
  ct_n :: int

definition count_pair :: "(nat \<Rightarrow> nat list) \<Rightarrow> bool \<Rightarrow> u16 list \<Rightarrow> int \<Rightarrow> nat \<Rightarrow> spec_count \<Rightarrow> spec_count" where
  "count_pair lut_coeff lsb_mode x budget i c =
     (if ct_nbits c > budget then c else
      let lut = lut_coeff (nat (ct_state c));
          a = xq_abs x i; b = xq_abs x (i + 1);
          s = of_bool (a > 0) + of_bool (b > 0);
          nbits = ct_nbits c + s * 2048;
          m = drop_bit 2 (a OR b);
          (k, nbits, nbits_lsb) =
            (if m \<noteq> 0 then
               (let (k, nbits, nbits_lsb) =
                  (if lsb_mode
                   then (1, nbits + (lc3_spectrum_bits ! (lut ! 0) ! 16 - 2 * 2048),
                         ct_lsb c + (2 + of_bool (a = 1) + of_bool (b = 1)))
                   else (0, nbits, ct_lsb c));
                    (k, nbits) = escape_nbits lut (drop_bit (of_bool lsb_mode) m) k nbits
                in (k, nbits + int k * (2 * 2048), nbits_lsb))
             else (0, nbits, ct_lsb c));
          a = drop_bit k a; b = drop_bit k b; k = min k 3;
          nbits = nbits + lc3_spectrum_bits ! (lut ! k) ! nat (a + 4 * b);
          c = c\<lparr>ct_nbits := nbits, ct_lsb := nbits_lsb, ct_state := spec_next_state (ct_state c) k a b\<rparr>
      in if s \<noteq> 0 \<and> nbits \<le> budget then c\<lparr>ct_n := int i + 2, ct_end := nbits\<rparr> else c)"

text \<open>The number of bits, the count of coefficients and the mode of the low bits.\<close>

definition compute_nbits ::
    "lc3_dt \<Rightarrow> lc3_srate \<Rightarrow> int \<Rightarrow> u16 list \<Rightarrow> int \<Rightarrow> int \<Rightarrow> int \<times> int \<times> bool" where
  "compute_nbits dt sr nbytes x n nbits_budget =
     (let ne = LC3_NE dt (sr_int sr);
          lsb_mode = (nbytes \<ge> 20 * (3 + sr_int sr));
          high_rate = resolve_high_rate sr nbytes;
          budget = (if nbits_budget \<noteq> 0 then nbits_budget * 2048 else 2 ^ 31 - 1);
          c = foldl (\<lambda>c (h, i). count_pair (lc3_spectrum_lookup (of_bool high_rate) h) lsb_mode x budget i c)
                \<lparr>ct_nbits = 0, ct_lsb = 0, ct_state = 0, ct_end = 0, ct_n = 0\<rparr> (spec_steps n ne);
          nbits_end = (if budget \<ge> 2 ^ 31 - 1 then ct_end c + ct_lsb c * 2048 else ct_end c)
      in (cdiv (nbits_end + 2047) 2048, ct_n c, lsb_mode \<and> ct_end c + ct_lsb c * 2048 > budget))"

section \<open>Noise\<close>

definition noise_stop :: "lc3_dt \<Rightarrow> lc3_bandwidth \<Rightarrow> int" where
  "noise_stop dt bw = (if dt = LC3_DT_7M5 then 60 else 80) * (1 + bw)"

text \<open>The first index of the loops, and the one where the quantised coefficients end.\<close>

definition noise_first :: "lc3_dt \<Rightarrow> nat" where
  "noise_first dt = nat (6 * (3 + dt_int dt) - (2 + dt_int dt))"

definition noise_mid :: "lc3_dt \<Rightarrow> lc3_bandwidth \<Rightarrow> int \<Rightarrow> nat" where
  "noise_mid dt bw nq = max (noise_first dt) (nat (LC3_MIN nq (noise_stop dt bw)))"

text \<open>\<open>z\<close> counts the zeros up to \<open>i\<close>: after more than \<open>2 w\<close> of them, the middle one counts.\<close>

definition noise_sum :: "nat \<Rightarrow> f32 list \<Rightarrow> int \<times> f32 \<times> int \<Rightarrow> nat \<Rightarrow> int \<times> f32 \<times> int" where
  "noise_sum w x st i = (case st of (z, s, n) \<Rightarrow>
     if z > 2 * int w then (z, f32_add s (f32_abs (x ! (i - w))), n + 1) else (z, s, n))"

definition estimate_noise :: "lc3_dt \<Rightarrow> lc3_bandwidth \<Rightarrow> u16 list \<Rightarrow> int \<Rightarrow> f32 list \<Rightarrow> int" where
  "estimate_noise dt bw xq nq x =
     (let bw_stop = noise_stop dt bw; w = nat (2 + dt_int dt); i1 = noise_mid dt bw nq;
          st = foldl (\<lambda>(z, s, n) i. noise_sum w x (if xq ! i \<noteq> 0 then 0 else z + 1, s, n) i)
                 (0, f32_0, 0) [noise_first dt ..< i1];
          (z, s, n) = foldl (\<lambda>(z, s, n) i. noise_sum w x (z + 1, s, n) i)
                 st [i1 ..< nat bw_stop + w];
          nf = (if n \<noteq> 0
                then 8 - f32_to_int (f32_add (f32_div (f32_mul (f32_of_int 16) s) (f32_of_int n)) (f32_lit 5 (-1)))
                else 0)
      in LC3_CLIP nf 0 7)"

definition noise_seed :: "int \<Rightarrow> int" where
  "noise_seed seed = (13849 + seed * 31821) AND 0xffff"

definition noise_put :: "nat \<Rightarrow> f32 \<Rightarrow> int \<times> int \<times> f32 list \<Rightarrow> nat \<Rightarrow> int \<times> int \<times> f32 list" where
  "noise_put w s st i = (case st of (z, nf_seed, x) \<Rightarrow>
     (if z > 2 * int w then
        (let nf_seed = noise_seed nf_seed
         in (z, nf_seed, x[i - w := (if nf_seed AND 0x8000 \<noteq> 0 then f32_neg s else s)]))
      else (z, nf_seed, x)))"

definition fill_noise :: "lc3_dt \<Rightarrow> lc3_bandwidth \<Rightarrow> int \<Rightarrow> int \<Rightarrow> f32 \<Rightarrow> f32 list \<Rightarrow> int \<Rightarrow> f32 list" where
  "fill_noise dt bw nf nf_seed g x nq =
     (let bw_stop = noise_stop dt bw; w = nat (2 + dt_int dt); i1 = noise_mid dt bw nq;
          s = f32_div (f32_mul g (f32_of_int (8 - nf))) (f32_of_int 16);
          st = foldl (\<lambda>(z, nf_seed, x) i.
                 noise_put w s (if \<not> f32_eq (x ! i) f32_0 then 0 else z + 1, nf_seed, x) i)
                 (0, nf_seed, x) [noise_first dt ..< i1];
          (z, nf_seed, x) = foldl (\<lambda>(z, nf_seed, x) i. noise_put w s (z + 1, nf_seed, x) i)
                 st [i1 ..< nat bw_stop + w]
      in x)"

end
