(* ===== verification/Bwdet.thy ===== *)
theory Bwdet
  imports BitChannel Float32 Common
begin

text \<open>
  The bandwidth detector, \<^verbatim>\<open>bwdet.c\<close>: the choice of a bandwidth from the energies of the
  bands, and its field in the bitstream.
\<close>

text \<open>The regions of the table \<^verbatim>\<open>bws_table\<close>: first band, and band after the last one.\<close>

definition bws_table :: "lc3_dt \<Rightarrow> (nat \<times> nat) list list" where
  "bws_table dt =
     (if dt = LC3_DT_7M5 then
        [[(51, 63+1)],
         [(45, 55+1), (58, 63+1)],
         [(42, 51+1), (53, 58+1), (60, 63+1)],
         [(40, 48+1), (51, 55+1), (57, 60+1), (61, 63+1)]]
      else
        [[(53, 63+1)],
         [(47, 56+1), (59, 63+1)],
         [(44, 52+1), (54, 59+1), (60, 63+1)],
         [(41, 49+1), (51, 55+1), (57, 60+1), (61, 63+1)]])"

definition bwdet_l_table :: "lc3_dt \<Rightarrow> nat list" where
  "bwdet_l_table dt = (if dt = LC3_DT_7M5 then [4, 4, 3, 2] else [4, 4, 3, 1])"

definition bwdet_tc :: "f32 list" where
  "bwdet_tc = [f32_dec 3162277660 (-8), f32_dec 19952623150 (-8), f32_of_int 100, f32_of_int 100]"

text \<open>One turn of the first loop: the region of \<open>bw\<close> has energy.\<close>

definition bwdet_region :: "(nat \<times> nat) list \<Rightarrow> f32 list \<Rightarrow> nat \<Rightarrow> int \<Rightarrow> int" where
  "bwdet_region bwr e bw bw0 =
     (let (i, ie) = bwr ! bw;
          n = int ie - int i;
          se = foldl (\<lambda>se i. f32_add se (e ! i)) (e ! i) [i + 1 ..< ie]
      in if f32_ge se (f32_of_int (push_bit (of_bool (int bw = LC3_BANDWIDTH_NB)) 10 * n))
         then int bw + 1 else bw0)"

text \<open>The second loop: a drop of the energy over the distance \<open>l\<close>, up to band \<open>i0 + 1\<close>.\<close>

definition bwdet_drop :: "f32 list \<Rightarrow> f32 \<Rightarrow> nat \<Rightarrow> nat \<Rightarrow> bool" where
  "bwdet_drop e tc i0 l =
     foldl (\<lambda>hold i. if hold then hold else f32_gt (e ! (i - l)) (f32_mul tc (e ! i)))
       False [i0 - l + 1 ..< i0 + 1 + 1]"

definition lc3_bwdet_run :: "lc3_dt \<Rightarrow> lc3_srate \<Rightarrow> f32 list \<Rightarrow> lc3_bandwidth" where
  "lc3_bwdet_run dt sr e =
     (let bw0 = LC3_BANDWIDTH_NB; bwn = sr_int sr
      in if bwn \<le> bw0 then bwn
         else
           (let bwr = bws_table dt ! nat (bwn - 1);
                bw0 = foldl (\<lambda>bw0 bw. bwdet_region bwr e bw bw0) bw0 [nat bw0 ..< nat bwn];
                hold = (bw0 \<ge> bwn);
                hold = (if \<not> hold then
                          bwdet_drop e (bwdet_tc ! nat bw0) (fst (bwr ! nat bw0)) (bwdet_l_table dt ! nat bw0)
                        else hold)
            in if hold then bw0 else bwn))"

definition lc3_bwdet_get_nbits :: "lc3_srate \<Rightarrow> int" where
  "lc3_bwdet_get_nbits sr = of_bool (sr_int sr > 0) + of_bool (sr_int sr > 1) + of_bool (sr_int sr > 3)"

definition lc3_bwdet_put_bw :: "lc3_bits \<Rightarrow> lc3_srate \<Rightarrow> lc3_bandwidth \<Rightarrow> lc3_bits" where
  "lc3_bwdet_put_bw bits sr bw =
     (let nbits_bw = lc3_bwdet_get_nbits sr
      in if nbits_bw > 0 then lc3_put_bits bits (word_of_int bw) nbits_bw else bits)"

text \<open>The get returns the error code, the bandwidth and the stream.\<close>

definition lc3_bwdet_get_bw :: "lc3_bits \<Rightarrow> lc3_srate \<Rightarrow> int \<times> lc3_bandwidth \<times> lc3_bits" where
  "lc3_bwdet_get_bw bits sr =
     (let max_bw = sr_int sr;
          nbits_bw = lc3_bwdet_get_nbits sr;
          (bw, bits) = (if nbits_bw > 0
                        then (case lc3_get_bits bits nbits_bw of (v, bits) \<Rightarrow> (uint v, bits))
                        else (LC3_BANDWIDTH_NB, bits))
      in if bw > max_bw then (-1, max_bw, bits) else (0, bw, bits))"

section \<open>The detector stays within the sample rate\<close>

lemma bwdet_fold_bounds:
  "0 \<le> b \<Longrightarrow> b \<le> int n \<Longrightarrow> (\<And>x. x \<in> set xs \<Longrightarrow> x < n) \<Longrightarrow>
   0 \<le> foldl (\<lambda>bw0 bw. bwdet_region bwr e bw bw0) b xs \<and>
   foldl (\<lambda>bw0 bw. bwdet_region bwr e bw bw0) b xs \<le> int n"
proof (induction xs arbitrary: b)
  case (Cons x xs)
  have "0 \<le> bwdet_region bwr e x b \<and> bwdet_region bwr e x b \<le> int n"
    using Cons.prems(1,2) Cons.prems(3) [of x] by (auto simp: bwdet_region_def Let_def split: prod.split)
  with Cons show ?case by simp
qed simp

lemma lc3_bwdet_run_bounds: "0 \<le> lc3_bwdet_run dt sr e \<and> lc3_bwdet_run dt sr e \<le> sr_int sr"
proof -
  have "0 \<le> sr_int sr" by (cases sr) auto
  then have "0 \<le> foldl (\<lambda>bw0 bw. bwdet_region bwr e bw bw0) 0 [0 ..< nat (sr_int sr)] \<and>
      foldl (\<lambda>bw0 bw. bwdet_region bwr e bw bw0) 0 [0 ..< nat (sr_int sr)] \<le> int (nat (sr_int sr))" for bwr
    by (intro bwdet_fold_bounds) auto
  with \<open>0 \<le> sr_int sr\<close> show ?thesis
    by (auto simp: lc3_bwdet_run_def Let_def LC3_BANDWIDTH_NB_def)
qed

section \<open>The field of the bitstream\<close>

definition bwdet_ops :: "lc3_srate \<Rightarrow> lc3_bandwidth \<Rightarrow> bit_op list" where
  "bwdet_ops sr bw =
     (if lc3_bwdet_get_nbits sr > 0 then [Bits (word_of_int bw) (nat (lc3_bwdet_get_nbits sr))] else [])"

definition bw_valid :: "lc3_srate \<Rightarrow> lc3_bandwidth \<Rightarrow> bool" where
  "bw_valid sr bw \<longleftrightarrow> 0 \<le> bw \<and> bw \<le> sr_int sr \<and> valid_sr sr"

lemma bwdet_nbits: "valid_sr sr \<Longrightarrow> 0 \<le> bw \<Longrightarrow> bw \<le> sr_int sr \<Longrightarrow>
  lc3_bwdet_get_nbits sr \<le> 3 \<and> bw < 2 ^ nat (lc3_bwdet_get_nbits sr) \<and> 0 \<le> lc3_bwdet_get_nbits sr"
  by (elim valid_srE) (auto simp: lc3_bwdet_get_nbits_def)

interpretation bwdet: field_codec
  "\<lambda>bw bits. Some (lc3_bwdet_put_bw bits sr bw)"
  "\<lambda>bits. case lc3_bwdet_get_bw bits sr of (ret, bw, bits) \<Rightarrow> Some ((ret, bw), bits)"
  "bwdet_ops sr" "\<lambda>bw. (0, bw)" "bw_valid sr" for sr
proof (unfold_locales, goal_cases)
  case (1 bw bits)
  then show ?case by (simp add: lc3_bwdet_put_bw_def bwdet_ops_def Let_def)
next
  case (2 bw)
  then have v: "valid_sr sr" "0 \<le> bw" "bw \<le> sr_int sr" by (simp_all add: bw_valid_def)
  note n = bwdet_nbits [OF this]
  have "sr_int sr \<le> 5" by (cases sr) auto
  then have "uint (word_of_int bw :: u32) = bw" using v by (intro uint_word32) simp_all
  then show ?case using n by (simp add: bwdet_ops_def nat_le_iff)
next
  case (3 bw bits bits')
  then have v: "valid_sr sr" "0 \<le> bw" "bw \<le> sr_int sr" by (simp_all add: bw_valid_def)
  have "sr_int sr \<le> 5" by (cases sr) auto
  then have u: "uint (word_of_int bw :: u32) = bw" using v by (intro uint_word32) simp_all
  show ?case
  proof (cases "lc3_bwdet_get_nbits sr > 0")
    case True
    then have "lc3_get_bits bits (lc3_bwdet_get_nbits sr) = (word_of_int bw, bits')"
      using 3(2) by (auto simp: bwdet_ops_def rd_ops_Bits simp del: rd_ops.simps(2))
    then show ?thesis using True u v by (simp add: lc3_bwdet_get_bw_def Let_def)
  next
    case False
    then have "sr_int sr \<le> 0" by (cases sr) (simp_all add: lc3_bwdet_get_nbits_def)
    then have "bw = 0" using v by simp
    then show ?thesis
      using False 3(2) v by (simp add: lc3_bwdet_get_bw_def bwdet_ops_def LC3_BANDWIDTH_NB_def)
  qed
qed


section \<open>Properties\<close>

text \<open>
  C35. The bandwidth that the detector finds is always one of the sample rate, so that it fits
  the bits of its field, and whatever is written before and after it in the frame, a reader
  gets that bandwidth with no error.
\<close>

theorem bwdet_roundtrip:
  assumes sr: "valid_sr sr" and ok: "list_all op_ok xs" "list_all op_ok ys"
    and w0: "wr_ops xs (lc3_setup_bits LC3_BITS_MODE_WRITE mem) = Some w0"
    and w: "wr_ops ys (lc3_bwdet_put_bw w0 sr (lc3_bwdet_run dt sr e)) = Some w"
    and left: "0 \<le> get_bits_left w"
  shows "\<exists>r0 r1 r. rd_ops xs (lc3_setup_bits LC3_BITS_MODE_READ (stream_of w)) = Some r0 \<and>
    lc3_bwdet_get_bw r0 sr = (0, lc3_bwdet_run dt sr e, r1) \<and> rd_ops ys r1 = Some r \<and>
    0 \<le> lc3_bwdet_run dt sr e \<and> lc3_bwdet_run dt sr e \<le> sr_int sr"
proof -
  have v: "bw_valid sr (lc3_bwdet_run dt sr e)" using lc3_bwdet_run_bounds sr by (simp add: bw_valid_def)
  obtain r0 r1 r where r: "rd_ops xs (lc3_setup_bits LC3_BITS_MODE_READ (stream_of w)) = Some r0"
    "(case lc3_bwdet_get_bw r0 sr of (ret, bw, bits) \<Rightarrow> Some ((ret, bw), bits)) = Some ((0, lc3_bwdet_run dt sr e), r1)"
    "rd_ops ys r1 = Some r"
    using bwdet.field_roundtrip [OF v ok w0 refl w left] by blast
  then have "lc3_bwdet_get_bw r0 sr = (0, lc3_bwdet_run dt sr e, r1)"
    by (cases "lc3_bwdet_get_bw r0 sr" rule: prod_cases3) simp
  with r lc3_bwdet_run_bounds [of dt sr e] show ?thesis by blast
qed

theorem bwdet_roundtrip_witness:
  "\<exists>w r1. lc3_bwdet_get_bw (lc3_setup_bits LC3_BITS_MODE_READ (stream_of w)) LC3_SRATE_48K
     = (0, lc3_bwdet_run LC3_DT_10M LC3_SRATE_48K (replicate 64 (f32_of_int 100)), r1)"
proof -
  let ?b = "lc3_bwdet_run LC3_DT_10M LC3_SRATE_48K (replicate 64 (f32_of_int 100))"
  let ?w = "lc3_bwdet_put_bw (lc3_setup_bits LC3_BITS_MODE_WRITE [0, 0, 0, 0, 0, 0]) LC3_SRATE_48K ?b"
  have left: "0 \<le> get_bits_left ?w" by code_simp
  have sr: "valid_sr LC3_SRATE_48K" by (simp add: valid_sr_def enum_order)
  have nil: "list_all op_ok []" "wr_ops [] bits = Some bits" for bits by simp_all
  from bwdet_roundtrip [OF sr nil(1) nil(1) nil(2) nil(2) left]
  show ?thesis by (auto simp only: rd_ops.simps option.inject)
qed

end
