(* ===== verification/SnsTables.thy ===== *)
theory SnsTables
  imports Float32
begin

text \<open>The tables of the spectral noise shaping: the matrix of \<^verbatim>\<open>sns.c\<close>, and the codebooks, the gains
  (each list is as long as its \<^verbatim>\<open>count\<close>) and the offsets of the enumeration of \<^verbatim>\<open>tables.c\<close>.\<close>

definition dct16_m :: "f32 list list" where
  "dct16_m =
     [f32_tab [
       (250000000, -9), (351850934, -9), (346759961, -9), (338329500, -9), (326640741, -9),
       (311806253, -9), (293968901, -9), (273300467, -9), (250000000, -9), (224291897, -9),
       (196423740, -9), (166663915, -9), (135299025, -9), (102631132, -9), (689748448, -10),
       (346542923, -10)],
      f32_tab [
       (250000000, -9), (338329500, -9), (293968901, -9), (224291897, -9), (135299025, -9),
       (346542923, -10), (-689748448, -10), (-166663915, -9), (-250000000, -9),
       (-311806253, -9), (-346759961, -9), (-351850934, -9), (-326640741, -9),
       (-273300467, -9), (-196423740, -9), (-102631132, -9)],
      f32_tab [
       (250000000, -9), (311806253, -9), (196423740, -9), (346542923, -10), (-135299025, -9),
       (-273300467, -9), (-346759961, -9), (-338329500, -9), (-250000000, -9),
       (-102631132, -9), (689748448, -10), (224291897, -9), (326640741, -9), (351850934, -9),
       (293968901, -9), (166663915, -9)],
      f32_tab [
       (250000000, -9), (273300467, -9), (689748448, -10), (-166663915, -9), (-326640741, -9),
       (-338329500, -9), (-196423740, -9), (346542923, -10), (250000000, -9), (351850934, -9),
       (293968901, -9), (102631132, -9), (-135299025, -9), (-311806253, -9), (-346759961, -9),
       (-224291897, -9)],
      f32_tab [
       (250000000, -9), (224291897, -9), (-689748448, -10), (-311806253, -9), (-326640741, -9),
       (-102631132, -9), (196423740, -9), (351850934, -9), (250000000, -9), (-346542923, -10),
       (-293968901, -9), (-338329500, -9), (-135299025, -9), (166663915, -9), (346759961, -9),
       (273300467, -9)],
      f32_tab [
       (250000000, -9), (166663915, -9), (-196423740, -9), (-351850934, -9), (-135299025, -9),
       (224291897, -9), (346759961, -9), (102631132, -9), (-250000000, -9), (-338329500, -9),
       (-689748448, -10), (273300467, -9), (326640741, -9), (346542923, -10), (-293968901, -9),
       (-311806253, -9)],
      f32_tab [
       (250000000, -9), (102631132, -9), (-293968901, -9), (-273300467, -9), (135299025, -9),
       (351850934, -9), (689748448, -10), (-311806253, -9), (-250000000, -9), (166663915, -9),
       (346759961, -9), (346542923, -10), (-326640741, -9), (-224291897, -9), (196423740, -9),
       (338329500, -9)],
      f32_tab [
       (250000000, -9), (346542923, -10), (-346759961, -9), (-102631132, -9), (326640741, -9),
       (166663915, -9), (-293968901, -9), (-224291897, -9), (250000000, -9), (273300467, -9),
       (-196423740, -9), (-311806253, -9), (135299025, -9), (338329500, -9), (-689748448, -10),
       (-351850934, -9)],
      f32_tab [
       (250000000, -9), (-346542923, -10), (-346759961, -9), (102631132, -9), (326640741, -9),
       (-166663915, -9), (-293968901, -9), (224291897, -9), (250000000, -9), (-273300467, -9),
       (-196423740, -9), (311806253, -9), (135299025, -9), (-338329500, -9), (-689748448, -10),
       (351850934, -9)],
      f32_tab [
       (250000000, -9), (-102631132, -9), (-293968901, -9), (273300467, -9), (135299025, -9),
       (-351850934, -9), (689748448, -10), (311806253, -9), (-250000000, -9), (-166663915, -9),
       (346759961, -9), (-346542923, -10), (-326640741, -9), (224291897, -9), (196423740, -9),
       (-338329500, -9)],
      f32_tab [
       (250000000, -9), (-166663915, -9), (-196423740, -9), (351850934, -9), (-135299025, -9),
       (-224291897, -9), (346759961, -9), (-102631132, -9), (-250000000, -9), (338329500, -9),
       (-689748448, -10), (-273300467, -9), (326640741, -9), (-346542923, -10),
       (-293968901, -9), (311806253, -9)],
      f32_tab [
       (250000000, -9), (-224291897, -9), (-689748448, -10), (311806253, -9), (-326640741, -9),
       (102631132, -9), (196423740, -9), (-351850934, -9), (250000000, -9), (346542923, -10),
       (-293968901, -9), (338329500, -9), (-135299025, -9), (-166663915, -9), (346759961, -9),
       (-273300467, -9)],
      f32_tab [
       (250000000, -9), (-273300467, -9), (689748448, -10), (166663915, -9), (-326640741, -9),
       (338329500, -9), (-196423740, -9), (-346542923, -10), (250000000, -9), (-351850934, -9),
       (293968901, -9), (-102631132, -9), (-135299025, -9), (311806253, -9), (-346759961, -9),
       (224291897, -9)],
      f32_tab [
       (250000000, -9), (-311806253, -9), (196423740, -9), (-346542923, -10), (-135299025, -9),
       (273300467, -9), (-346759961, -9), (338329500, -9), (-250000000, -9), (102631132, -9),
       (689748448, -10), (-224291897, -9), (326640741, -9), (-351850934, -9), (293968901, -9),
       (-166663915, -9)],
      f32_tab [
       (250000000, -9), (-338329500, -9), (293968901, -9), (-224291897, -9), (135299025, -9),
       (-346542923, -10), (-689748448, -10), (166663915, -9), (-250000000, -9),
       (311806253, -9), (-346759961, -9), (351850934, -9), (-326640741, -9), (273300467, -9),
       (-196423740, -9), (102631132, -9)],
      f32_tab [
       (250000000, -9), (-351850934, -9), (346759961, -9), (-338329500, -9), (326640741, -9),
       (-311806253, -9), (293968901, -9), (-273300467, -9), (250000000, -9), (-224291897, -9),
       (196423740, -9), (-166663915, -9), (135299025, -9), (-102631132, -9), (689748448, -10),
       (-346542923, -10)]]"

definition lc3_sns_lfcb :: "f32 list list" where
  "lc3_sns_lfcb =
     [f32_tab [
       (226283366, -8), (813311269, -9), (-530193495, -9), (-135664836, -8), (-159952177, -8),
       (-144098768, -8), (-114381648, -8), (-755203768, -9)],
      f32_tab [
       (294516479, -8), (241143318, -8), (960455106, -9), (-443226488, -9), (-122913612, -8),
       (-155590039, -8), (-149688656, -8), (-111689987, -8)],
      f32_tab [
       (-218610707, -8), (-197152136, -8), (-178718620, -8), (-191865896, -8),
       (-179399122, -8), (-135738404, -8), (-705444279, -9), (-478172945, -10)],
      f32_tab [
       (693688237, -9), (955609857, -9), (575230787, -9), (-114603419, -9), (-646050637, -9),
       (-952351370, -9), (-107405247, -8), (-758087707, -9)],
      f32_tab [
       (-129752132, -8), (-740369057, -9), (-345372484, -9), (-313285696, -9),
       (-402977243, -9), (-372020853, -9), (-783414177, -10), (970441304, -10)],
      f32_tab [
       (914652038, -9), (174293043, -8), (190906627, -8), (154408484, -8), (109344961, -8),
       (647479550, -9), (361790752, -10), (-297092807, -9)],
      f32_tab [
       (-251428813, -8), (-289175271, -8), (-200450667, -8), (-750912274, -9), (441202105, -9),
       (120190988, -8), (132742857, -8), (122049081, -8)],
      f32_tab [
       (-922188405, -9), (632495141, -9), (108736431, -8), (608628625, -9), (131174568, -9),
       (-296149158, -9), (-207013517, -9), (134924917, -9)],
      f32_tab [
       (790322288, -9), (628401262, -9), (393117924, -9), (480007711, -9), (447815138, -9),
       (209734215, -9), (656691996, -11), (-861242342, -10)],
      f32_tab [
       (144775580, -8), (272399952, -8), (231083269, -8), (935051270, -9), (-274743911, -9),
       (-902077697, -9), (-940681512, -9), (-633697039, -9)],
      f32_tab [
       (793354526, -9), (143931186, -10), (-567834845, -9), (-654760468, -9), (-479458998, -9),
       (-173894662, -9), (680162706, -10), (295125948, -9)],
      f32_tab [
       (272425347, -8), (295947572, -8), (184953559, -8), (563284922, -9), (139917088, -9),
       (359641093, -9), (689461355, -9), (639790177, -9)],
      f32_tab [
       (-530830198, -9), (-212690683, -9), (576613628, -11), (424871484, -9), (473128952, -9),
       (858894199, -9), (119111161, -8), (996189670, -9)],
      f32_tab [
       (168728411, -8), (243614509, -8), (233019429, -8), (177983778, -8), (144411295, -8),
       (151995177, -8), (147199394, -8), (977682474, -9)],
      f32_tab [
       (-295183273, -8), (-159393497, -8), (-109918773, -9), (388609073, -9), (512932650, -9),
       (628112597, -9), (822621796, -9), (875891425, -9)],
      f32_tab [
       (101878343, -9), (589857324, -9), (619047647, -9), (126731314, -8), (241961048, -8),
       (225174253, -8), (526537031, -9), (-396591513, -9)],
      f32_tab [
       (268254575, -8), (132738011, -8), (130185274, -9), (-338533089, -9), (-368219236, -9),
       (-191689947, -9), (-154782377, -9), (-234207178, -9)],
      f32_tab [
       (482697924, -8), (311947804, -8), (139513671, -8), (250295316, -9), (-393613839, -9),
       (-643458173, -9), (-642570737, -9), (-723193223, -9)],
      f32_tab [
       (878419936, -10), (-569586840, -9), (-114506016, -8), (-166968488, -8),
       (-184534418, -8), (-156468027, -8), (-111746759, -8), (-533981663, -9)],
      f32_tab [
       (139102308, -8), (198146479, -8), (111265796, -8), (-220107509, -9), (-774965612, -9),
       (-594063874, -9), (136937681, -9), (818242891, -9)],
      f32_tab [
       (384585894, -9), (-160588786, -9), (-539366810, -9), (-529309079, -9), (190433547, -9),
       (256062918, -8), (281896398, -8), (656670876, -9)],
      f32_tab [
       (193227399, -8), (301030180, -8), (306543894, -8), (250110161, -8), (193089593, -8),
       (572153811, -9), (-811741794, -9), (-117641811, -8)],
      f32_tab [
       (175080463, -9), (-750522832, -9), (-103943893, -8), (-113577509, -8), (-104197904, -8),
       (-152060099, -10), (207048392, -8), (342948918, -8)],
      f32_tab [
       (-118817020, -8), (366792874, -9), (130957830, -8), (168330687, -8), (125100924, -8),
       (942375752, -9), (826250483, -9), (439952741, -9)],
      f32_tab [
       (253322203, -8), (211274643, -8), (126288412, -8), (761513512, -9), (522117938, -9),
       (118680070, -9), (-452346828, -9), (-700352426, -9)],
      f32_tab [
       (399889837, -8), (407901751, -8), (282285661, -8), (172607213, -8), (647144377, -9),
       (-331148521, -9), (-884042571, -9), (-112697341, -8)],
      f32_tab [
       (507902593, -9), (158838450, -8), (172899024, -8), (100692230, -8), (377121232, -9),
       (476370767, -9), (108754740, -8), (108756266, -8)],
      f32_tab [
       (316856825, -8), (325853458, -8), (242230591, -8), (179446078, -8), (152177911, -8),
       (117196707, -8), (489394597, -9), (-622795716, -10)],
      f32_tab [
       (189414767, -8), (125108695, -8), (590451211, -9), (608358583, -9), (878171010, -9),
       (111912511, -8), (101857662, -8), (620453891, -9)],
      f32_tab [
       (948880605, -9), (213239439, -8), (272345350, -8), (276986077, -8), (254286973, -8),
       (202046264, -8), (830045859, -9), (-275569174, -10)],
      f32_tab [
       (-188026757, -8), (-126431073, -8), (311424977, -9), (183670210, -8), (225634192, -8),
       (204818998, -8), (219526837, -8), (202659614, -8)],
      f32_tab [
       (246375746, -9), (955621773, -9), (152046777, -8), (197647400, -8), (194043867, -8),
       (223375847, -8), (198835978, -8), (127232673, -8)]]"

definition lc3_sns_hfcb :: "f32 list list" where
  "lc3_sns_hfcb =
     [f32_tab [
       (232028419, -9), (-100890271, -8), (-214223503, -8), (-237533814, -8), (-223041933, -8),
       (-217595881, -8), (-229065914, -8), (-253286398, -8)],
      f32_tab [
       (-129503937, -8), (-179929965, -8), (-188703148, -8), (-180991660, -8),
       (-176340038, -8), (-183418428, -8), (-180480981, -8), (-173679545, -8)],
      f32_tab [
       (139285716, -9), (-258185126, -9), (-650804573, -9), (-106815732, -8), (-161928742, -8),
       (-218762566, -8), (-263757587, -8), (-297897750, -8)],
      f32_tab [
       (-316513102, -9), (-477747657, -9), (-551162076, -9), (-484788283, -9),
       (-238388394, -9), (-143024507, -9), (683186674, -10), (883061717, -10)],
      f32_tab [
       (879518405, -9), (298340096, -9), (-915386396, -9), (-220645975, -8), (-274142181, -8),
       (-286139074, -8), (-288841597, -8), (-295182608, -8)],
      f32_tab [
       (-296701922, -9), (-975004919, -9), (-135857500, -8), (-983721106, -9),
       (-652956939, -9), (-989986993, -9), (-161467225, -8), (-240712302, -8)],
      f32_tab [
       (340981100, -9), (268899789, -9), (563335685, -10), (499114047, -10), (-954130727, -10),
       (-760166146, -9), (-232758120, -8), (-377155485, -8)],
      f32_tab [
       (-141229759, -8), (-148522119, -8), (-118603580, -8), (-625001634, -9), (153902497, -9),
       (576386498, -9), (795092604, -9), (596564632, -9)],
      f32_tab [
       (-228839512, -9), (-333719070, -9), (-809321359, -9), (-163587877, -8),
       (-188486397, -8), (-164496691, -8), (-140515778, -8), (-146666471, -8)],
      f32_tab [
       (-107148629, -8), (-141767015, -8), (-154891762, -8), (-145296062, -8),
       (-103182970, -8), (-690642640, -9), (-428843805, -9), (-494960215, -9)],
      f32_tab [
       (-590988511, -9), (-711737759, -10), (345719523, -9), (300549461, -9), (-111865218, -8),
       (-244089151, -8), (-222854732, -8), (-189509228, -8)],
      f32_tab [
       (-848434099, -9), (-583226811, -9), (900423688, -10), (845025008, -9), (106572385, -8),
       (737582999, -9), (256590452, -9), (-491963360, -9)],
      f32_tab [
       (114069146, -8), (964016892, -9), (381461206, -9), (-482849341, -9), (-181632721, -8),
       (-280279513, -8), (-323385725, -8), (-345908714, -8)],
      f32_tab [
       (-376283238, -9), (425675462, -10), (516547697, -9), (251716882, -9), (-216179968, -9),
       (-534074091, -9), (-640786096, -9), (-869745032, -9)],
      f32_tab [
       (665004121, -9), (109790765, -8), (138342667, -8), (134327359, -8), (822978837, -9),
       (215876799, -9), (-404925753, -9), (-107025606, -8)],
      f32_tab [
       (-826265954, -9), (-671181233, -9), (-228495593, -9), (518980853, -9), (136721896, -8),
       (218023038, -8), (253596093, -8), (220121099, -8)],
      f32_tab [
       (141008327, -8), (754441908, -9), (-130550585, -8), (-187133711, -8), (-124008685, -8),
       (-126712925, -8), (-203670813, -8), (-289685162, -8)],
      f32_tab [
       (361386818, -9), (-219991705, -10), (-579368834, -9), (-879427961, -9),
       (-850685023, -9), (-779397050, -9), (-732182927, -9), (-888348515, -9)],
      f32_tab [
       (437469239, -9), (305440420, -9), (-738786566, -11), (-495649855, -9), (-806651271, -9),
       (-122431892, -8), (-170157770, -8), (-224491914, -8)],
      f32_tab [
       (648100319, -9), (682299134, -9), (253247464, -9), (735842144, -10), (314216709, -9),
       (234729881, -9), (144600134, -9), (-682120179, -10)],
      f32_tab [
       (111919833, -8), (123465533, -8), (589170238, -9), (-137192460, -8), (-237095707, -8),
       (-200779783, -8), (-166688540, -8), (-192631846, -8)],
      f32_tab [
       (141847497, -9), (-110660071, -9), (-282824593, -9), (-659813475, -11), (285929280, -9),
       (460445530, -10), (-602596416, -9), (-226568729, -8)],
      f32_tab [
       (504046955, -9), (826982163, -9), (111981236, -8), (117914044, -8), (107987429, -8),
       (697536239, -9), (-912548817, -9), (-357684747, -8)],
      f32_tab [
       (-501076050, -9), (-325678006, -9), (280798195, -10), (262054555, -9), (360590806, -9),
       (635623722, -9), (959012467, -9), (130745157, -8)],
      f32_tab [
       (374970983, -8), (152342612, -8), (-457715662, -9), (-798711008, -9), (-386819329, -9),
       (-375901062, -9), (-657836900, -9), (-128163964, -8)],
      f32_tab [
       (-115258991, -8), (-110800886, -8), (-562615117, -9), (-220562124, -9),
       (-349842880, -9), (-753432770, -9), (-988596593, -9), (-128790472, -8)],
      f32_tab [
       (102827246, -8), (109770519, -8), (768645546, -9), (206081978, -9), (-342805735, -9),
       (-754939405, -9), (-104196178, -8), (-150335653, -8)],
      f32_tab [
       (128831972, -9), (689439395, -9), (112346905, -8), (130934523, -8), (135511965, -8),
       (142311381, -8), (115706449, -8), (406319438, -9)],
      f32_tab [
       (134033030, -8), (138996825, -8), (104467922, -8), (635822746, -9), (-274733756, -9),
       (-154923372, -8), (-244239710, -8), (-302457607, -8)],
      f32_tab [
       (213843105, -8), (424711267, -8), (289734110, -8), (932730658, -9), (-292822250, -9),
       (-810404297, -9), (-788868099, -9), (-935353149, -9)],
      f32_tab [
       (564830487, -9), (159184978, -8), (239771699, -8), (303697344, -8), (266424350, -8),
       (139304485, -8), (403834024, -9), (-656270971, -9)],
      f32_tab [
       (-422460548, -9), (326149625, -9), (139171313, -8), (223146615, -8), (261179442, -8),
       (266540340, -8), (240103554, -8), (175920380, -8)]]"

definition lc3_sns_vq_gains :: "f32 list list" where
  "lc3_sns_vq_gains =
     map (map (\<lambda>v. f32_div (f32_lit v 0) (f32_of_int 4096)))
     [[8915, 12054],
      [6245, 15043, 17861, 21014],
      [7099, 9132, 11253, 14808],
      [4336, 5067, 5895, 8149, 10235, 12825, 16868, 19882]]"

definition lc3_sns_mpvq_offsets :: "int list list" where
  "lc3_sns_mpvq_offsets =
    [[0, 1, 1, 1, 1, 1, 1, 1, 1, 1, 1],
     [0, 1, 3, 5, 7, 9, 11, 13, 15, 17, 19],
     [0, 1, 5, 13, 25, 41, 61, 85, 113, 145, 181],
     [0, 1, 7, 25, 63, 129, 231, 377, 575, 833, 1159],
     [0, 1, 9, 41, 129, 321, 681, 1289, 2241, 3649, 5641],
     [0, 1, 11, 61, 231, 681, 1683, 3653, 7183, 13073, 22363],
     [0, 1, 13, 85, 377, 1289, 3653, 8989, 19825, 40081, 75517],
     [0, 1, 15, 113, 575, 2241, 7183, 19825, 48639, 108545, 224143],
     [0, 1, 17, 145, 833, 3649, 13073, 40081, 108545, 265729, 598417],
     [0, 1, 19, 181, 1159, 5641, 22363, 75517, 224143, 598417, 1462563],
     [0, 1, 21, 221, 1561, 8361, 36365, 134245, 433905, 1256465, 3317445],
     [0, 1, 23, 265, 2047, 11969, 56695, 227305, 795455, 2485825, 7059735],
     [0, 1, 25, 313, 2625, 16641, 85305, 369305, 1392065, 4673345, 14218905],
     [0, 1, 27, 365, 3303, 22569, 124515, 579125, 2340495, 8405905, 27298155],
     [0, 1, 29, 421, 4089, 29961, 177045, 880685, 3800305, 14546705, 50250765],
     [0, 1, 31, 481, 4991, 39041, 246047, 1303777, 5984767, 24331777, 89129247]]"

end
