(* ===== verification/Sns.thy ===== *)
theory Sns
  imports SnsTables Fastmath BitChannel Common
begin

text \<open>
  The spectral noise shaping, \<^verbatim>\<open>sns.c\<close>: the 16 scale factors of a frame from the energies of
  its bands, their vector quantisation, the enumeration of the pulses of the vector, the
  shaping of the spectrum, and the field of the bitstream.
\<close>

record lc3_sns_data =
  sns_lfcb :: int
  sns_hfcb :: int
  sns_shape :: int
  sns_gain :: int
  sns_idx_a :: int
  sns_idx_b :: int
  sns_ls_a :: bool
  sns_ls_b :: bool

section \<open>DCT-16\<close>

definition dct16_forward :: "f32 list \<Rightarrow> f32 list" where
  "dct16_forward x = map (\<lambda>i. foldl (\<lambda>y j. f32_add y (f32_mul (x ! j) (dct16_m ! j ! i))) f32_0 [0 ..< 16]) [0 ..< 16]"

definition dct16_inverse :: "f32 list \<Rightarrow> f32 list" where
  "dct16_inverse x = map (\<lambda>i. foldl (\<lambda>y j. f32_add y (f32_mul (x ! j) (dct16_m ! i ! j))) f32_0 [0 ..< 16]) [0 ..< 16]"

section \<open>Scale factors\<close>

definition ge_table :: "f32 list list" where
  "ge_table =
     [f32_tab [
       (100000000, -8), (105250029, -8), (110775685, -8), (116591440, -8), (122712524, -8),
       (129154967, -8), (135935639, -8), (143072299, -8), (150583635, -8), (158489319, -8),
       (166810054, -8), (175567629, -8), (184784980, -8), (194486244, -8), (204696827, -8),
       (215443469, -8), (226754313, -8), (238658979, -8), (251188643, -8), (264376119, -8),
       (278255940, -8), (292864456, -8), (308239924, -8), (324422608, -8), (341454887, -8),
       (359381366, -8), (378248991, -8), (398107171, -8), (419007911, -8), (441005945, -8),
       (464158883, -8), (488527357, -8), (514175183, -8), (541169527, -8), (569581081, -8),
       (599484250, -8), (630957344, -8), (664082785, -8), (698947321, -8), (735642254, -8),
       (774263683, -8), (814912747, -8), (857695899, -8), (902725178, -8), (950118507, -8),
       (100000000, -7), (105250029, -7), (110775685, -7), (116591440, -7), (122712524, -7),
       (129154967, -7), (135935639, -7), (143072299, -7), (150583635, -7), (158489319, -7),
       (166810054, -7), (175567629, -7), (184784980, -7), (194486244, -7), (204696827, -7),
       (215443469, -7), (226754313, -7), (238658979, -7), (251188643, -7)],
      f32_tab [
       (100000000, -8), (106800043, -8), (114062492, -8), (121818791, -8), (130102522, -8),
       (138949549, -8), (148398179, -8), (158489319, -8), (169266662, -8), (180776868, -8),
       (193069773, -8), (206198601, -8), (220220195, -8), (235195264, -8), (251188643, -8),
       (268269580, -8), (286512027, -8), (305994969, -8), (326802759, -8), (349025488, -8),
       (372759372, -8), (398107171, -8), (425178630, -8), (454090961, -8), (484969343, -8),
       (517947468, -8), (553168120, -8), (590783791, -8), (630957344, -8), (673862717, -8),
       (719685673, -8), (768624610, -8), (820891416, -8), (876712387, -8), (936329209, -8),
       (100000000, -7), (106800043, -7), (114062492, -7), (121818791, -7), (130102522, -7),
       (138949549, -7), (148398179, -7), (158489319, -7), (169266662, -7), (180776868, -7),
       (193069773, -7), (206198601, -7), (220220195, -7), (235195264, -7), (251188643, -7),
       (268269580, -7), (286512027, -7), (305994969, -7), (326802759, -7), (349025488, -7),
       (372759372, -7), (398107171, -7), (425178630, -7), (454090961, -7), (484969343, -7),
       (517947468, -7), (553168120, -7), (590783791, -7), (630957344, -7)],
      f32_tab [
       (100000000, -8), (108372885, -8), (117446822, -8), (127280509, -8), (137937560, -8),
       (149486913, -8), (162003281, -8), (175567629, -8), (190267705, -8), (206198601, -8),
       (223463373, -8), (242173704, -8), (262450630, -8), (284425319, -8), (308239924, -8),
       (334048498, -8), (362017995, -8), (392329345, -8), (425178630, -8), (460778348, -8),
       (499358789, -8), (541169527, -8), (586481029, -8), (635586411, -8), (688803330, -8),
       (746476041, -8), (808977621, -8), (876712387, -8), (950118507, -8), (102967084, -7),
       (111588399, -7), (120931568, -7), (131057029, -7), (142030283, -7), (153922315, -7),
       (166810054, -7), (180776868, -7), (195913107, -7), (212316686, -7), (230093718, -7),
       (249359200, -7), (270237760, -7), (292864456, -7), (317385661, -7), (343959997, -7),
       (372759372, -7), (403970086, -7), (437794036, -7), (474450028, -7), (514175183, -7),
       (557226480, -7), (603882412, -7), (654444792, -7), (709240702, -7), (768624610, -7),
       (832980665, -7), (902725178, -7), (978309319, -7), (106022203, -6), (114899320, -6),
       (124519708, -6), (134945600, -6), (146244440, -6), (158489319, -6)],
      f32_tab [
       (100000000, -8), (109968890, -8), (120931568, -8), (132987103, -8), (146244440, -8),
       (160823388, -8), (176855694, -8), (194486244, -8), (213874364, -8), (235195264, -8),
       (258641621, -8), (284425319, -8), (312779366, -8), (343959997, -8), (378248991, -8),
       (415956216, -8), (457422434, -8), (503022373, -8), (553168120, -8), (608312841, -8),
       (668954879, -8), (735642254, -8), (808977621, -8), (889623710, -8), (978309319, -8),
       (107583590, -7), (118308480, -7), (130102522, -7), (143072299, -7), (157335019, -7),
       (173019574, -7), (190267705, -7), (209235283, -7), (230093718, -7), (253031508, -7),
       (278255940, -7), (305994969, -7), (336499270, -7), (370044512, -7), (406933843, -7),
       (447500630, -7), (492111475, -7), (541169527, -7), (595118121, -7), (654444792, -7),
       (719685673, -7), (791430346, -7), (870327166, -7), (957089124, -7), (105250029, -6),
       (115742288, -6), (127280509, -6), (139968963, -6), (153922315, -6), (169266662, -6),
       (186140669, -6), (204696827, -6), (225102829, -6), (247543082, -6), (272220379, -6),
       (299357729, -6), (329200372, -6), (362017995, -6), (398107171, -6)],
      f32_tab [
       (100000000, -8), (111588399, -8), (124519708, -8), (138949549, -8), (155051578, -8),
       (173019574, -8), (193069773, -8), (215443469, -8), (240409918, -8), (268269580, -8),
       (299357729, -8), (334048498, -8), (372759372, -8), (415956216, -8), (464158883, -8),
       (517947468, -8), (577969288, -8), (644946677, -8), (719685673, -8), (803085722, -8),
       (896150502, -8), (100000000, -7), (111588399, -7), (124519708, -7), (138949549, -7),
       (155051578, -7), (173019574, -7), (193069773, -7), (215443469, -7), (240409918, -7),
       (268269580, -7), (299357729, -7), (334048498, -7), (372759372, -7), (415956216, -7),
       (464158883, -7), (517947468, -7), (577969288, -7), (644946677, -7), (719685673, -7),
       (803085722, -7), (896150502, -7), (100000000, -6), (111588399, -6), (124519708, -6),
       (138949549, -6), (155051578, -6), (173019574, -6), (193069773, -6), (215443469, -6),
       (240409918, -6), (268269580, -6), (299357729, -6), (334048498, -6), (372759372, -6),
       (415956216, -6), (464158883, -6), (517947468, -6), (577969288, -6), (644946677, -6),
       (719685673, -6), (803085722, -6), (896150502, -6), (100000000, -5)]]"

text \<open>The energies, on 64 bands: when the frame has fewer, the first ones are doubled.\<close>

definition sns_pad :: "lc3_dt \<Rightarrow> lc3_srate \<Rightarrow> f32 list \<Rightarrow> f32 list" where
  "sns_pad dt sr eb =
     (let nb = nat (LC3_MIN (int (lc3_band_lim dt sr ! LC3_NUM_BANDS)) (int LC3_NUM_BANDS));
          n2 = LC3_NUM_BANDS - nb
      in concat (map (\<lambda>i2. [eb ! i2, eb ! i2]) [0 ..< n2]) @ map (\<lambda>i. eb ! (n2 + i)) [0 ..< nb - n2])"

text \<open>The three statements of the loop are one step on the two values before the next one.\<close>

definition sns_smooth :: "f32 list \<Rightarrow> f32 list \<Rightarrow> f32 list \<times> f32" where
  "sns_smooth ge e =
     (let (es, s, p0, p1) = foldl (\<lambda>(es, s, p0, p1) i.
            let p2 = e ! (i + 1);
                v = f32_mul (f32_add (f32_add (f32_mul p0 (f32_lit 25 (-2))) (f32_mul p1 (f32_lit 5 (-1))))
                      (f32_mul p2 (f32_lit 25 (-2)))) (ge ! i)
            in (es @ [v], f32_add s v, p1, p2)) ([], f32_0, e ! 0, e ! 0) [0 ..< LC3_NUM_BANDS - 1];
          v = f32_mul (f32_add (f32_mul p0 (f32_lit 25 (-2))) (f32_mul p1 (f32_lit 75 (-2)))) (ge ! (LC3_NUM_BANDS - 1))
      in (es @ [v], f32_add s v))"

text \<open>A weighted mean of six energies in the logarithm.\<close>

definition sns_group :: "f32 list \<Rightarrow> nat \<Rightarrow> nat \<Rightarrow> nat \<Rightarrow> nat \<Rightarrow> nat \<Rightarrow> nat \<Rightarrow> f32" where
  "sns_group e a a' b b' c c' =
     (let t = (\<lambda>i j w. f32_div (f32_mul (f32_add (e ! i) (e ! j)) (f32_of_int w)) (f32_of_int 12))
      in f32_add (f32_add (t a a' 1) (t b b' 2)) (t c c' 3))"

definition sns_scale :: "f32 \<Rightarrow> f32 list \<Rightarrow> f32 \<Rightarrow> f32 list" where
  "sns_scale k scf scf_sum =
     map (\<lambda>v. f32_mul k (f32_sub v (f32_div (f32_mul scf_sum (f32_of_int 1)) (f32_of_int 16)))) scf"

text \<open>The smoothing of the factors around an attack, on the window of 5 factors.\<close>

definition sns_mean :: "f32 \<Rightarrow> int \<Rightarrow> f32" where
  "sns_mean sn n = f32_div (f32_mul sn (f32_of_int 1)) (f32_of_int n)"

definition sns_attack_step ::
    "f32 list \<times> f32 \<times> f32 \<times> f32 \<times> f32 \<times> f32 \<times> f32 \<Rightarrow> nat \<Rightarrow> f32 list \<times> f32 \<times> f32 \<times> f32 \<times> f32 \<times> f32 \<times> f32" where
  "sns_attack_step st i = (case st of (scf, scf_sum, sn, s1, s2, s3, s4) \<Rightarrow>
     (let s0 = s1; s1 = s2; s2 = s3; s3 = s4; s4 = scf ! (i + 2);
          sn = f32_add sn s4;
          scf = scf[i := sns_mean sn 5]
      in (scf, f32_add scf_sum (scf ! i), f32_sub sn s0, s1, s2, s3, s4)))"

definition sns_attack :: "lc3_dt \<Rightarrow> f32 list \<Rightarrow> f32 list" where
  "sns_attack dt scf =
     (let s1 = scf ! 0; s2 = scf ! 1; s3 = scf ! 2; s4 = scf ! 3;
          sn = f32_add s1 s2;
          sn = f32_add sn s3; scf = scf[0 := sns_mean sn 3];
          sn = f32_add sn s4; scf = scf[1 := sns_mean sn 4];
          scf_sum = f32_add (scf ! 0) (scf ! 1);
          (scf, scf_sum, sn, s1, s2, s3, s4) =
            foldl sns_attack_step (scf, scf_sum, sn, s1, s2, s3, s4) [2 ..< 14];
          scf = scf[14 := sns_mean sn 4];
          sn = f32_sub sn s1; scf = scf[15 := sns_mean sn 3];
          scf_sum = f32_add scf_sum (f32_add (scf ! 14) (scf ! 15))
      in sns_scale (if dt = LC3_DT_7M5 then f32_lit 3 (-1) else f32_lit 5 (-1)) scf scf_sum)"

definition compute_scale_factors :: "lc3_dt \<Rightarrow> lc3_srate \<Rightarrow> f32 list \<Rightarrow> bool \<Rightarrow> f32 list" where
  "compute_scale_factors dt sr eb att =
     (let (e, e_sum) = sns_smooth (ge_table ! nat (sr_int sr)) (sns_pad dt sr eb);
          noise_floor = f32_fmax (f32_mul e_sum (f32_div (f32_lit 1 (-4)) (f32_of_int 64))) (FFin False 8388608 (-55));
          e = map (\<lambda>v. f32_mul (fast_log2f (f32_fmax v noise_floor)) (f32_lit 5 (-1))) e;
          scf = [sns_group e 0 4 0 3 1 2] @
                map (\<lambda>i. sns_group e (4 * i - 1) (4 * i + 4) (4 * i) (4 * i + 3) (4 * i + 1) (4 * i + 2)) [1 ..< 15] @
                [sns_group e 59 63 60 63 61 62];
          scf_sum = foldl f32_add (scf ! 0) (tl scf);
          scf = sns_scale (f32_lit 85 (-2)) scf scf_sum
      in if \<not> att then scf else sns_attack dt scf)"

section \<open>Codebooks\<close>

definition resolve_codebooks :: "f32 list \<Rightarrow> nat \<times> nat" where
  "resolve_codebooks scf =
     (let (lf, hf, dlmax, dhmax) = foldl (\<lambda>(lf, hf, dlmax, dhmax) icb.
            let d = (\<lambda>o' cb. foldl (\<lambda>d i. let r = f32_sub (scf ! (o' + i)) (cb ! i) in f32_add d (f32_mul r r)) f32_0 [0 ..< 8]);
                dl = d 0 (lc3_sns_lfcb ! icb);
                dh = d 8 (lc3_sns_hfcb ! icb);
                (lf, dlmax) = (if icb = 0 \<or> f32_lt dl dlmax then (icb, dl) else (lf, dlmax));
                (hf, dhmax) = (if icb = 0 \<or> f32_lt dh dhmax then (icb, dh) else (hf, dhmax))
            in (lf, hf, dlmax, dhmax)) (0, 0, f32_0, f32_0) [0 ..< (32 :: nat)]
      in (lf, hf))"

definition normalize :: "int list \<Rightarrow> f32 list" where
  "normalize c =
     (let c2_sum = foldl (\<lambda>s i. s + c ! i * c ! i) 0 [0 ..< 16];
          c_norm = f32_div (f32_of_int 1) (f32_sqrt (f32_of_int c2_sum))
      in map (\<lambda>i. f32_mul (f32_of_int (c ! i)) c_norm) [0 ..< 16])"

text \<open>The pulses \<open>y\<close>, the correlation and the energy.\<close>

type_synonym pulses = "int list \<times> f32 \<times> f32"

definition pulse_best :: "f32 list \<Rightarrow> nat \<Rightarrow> pulses \<Rightarrow> nat" where
  "pulse_best x n st = (case st of (y, corr, energy) \<Rightarrow>
     (let c2 = (\<lambda>i. f32_mul (f32_add corr (x ! i)) (f32_add corr (x ! i)));
          e = (\<lambda>i. f32_add (f32_add energy (f32_of_int (2 * y ! i))) (f32_of_int 1))
      in snd (snd (foldl (\<lambda>(best_c2, best_e, nbest) i.
            if f32_gt (f32_mul (c2 i) best_e) (f32_mul (e i) best_c2) then (c2 i, e i, i)
            else (best_c2, best_e, nbest)) (c2 0, e 0, 0) [1 ..< n]))))"

definition pulse_step :: "f32 list \<Rightarrow> nat \<Rightarrow> pulses \<Rightarrow> int \<Rightarrow> pulses" where
  "pulse_step x n st k = (case st of (y, corr, energy) \<Rightarrow>
     (let nbest = pulse_best x n st
      in (y[nbest := y ! nbest + 1], f32_add corr (x ! nbest), f32_add energy (f32_of_int (2 * y ! nbest + 1)))))"

definition add_pulse :: "f32 list \<Rightarrow> nat \<Rightarrow> int \<Rightarrow> int \<Rightarrow> pulses \<Rightarrow> pulses" where
  "add_pulse x n start stop st = foldl (pulse_step x n) st [start .. stop - 1]"

text \<open>The four candidates: shape 3 is projected, each of the others starts from the one before.\<close>

definition pulse_project :: "f32 list \<Rightarrow> pulses \<times> int" where
  "pulse_project xm =
     (let xm_sum = foldl f32_add f32_0 xm;
          proj_factor = f32_div (f32_of_int (6 - 1)) (f32_fmax xm_sum (f32_lit 1 (-31)));
          (c, npulses, corr, energy) = foldl (\<lambda>(c, npulses, corr, energy) i.
             let ci = f32_to_int (f32_floor (f32_mul (xm ! i) proj_factor))
             in (c @ [ci], npulses + ci, f32_add corr (f32_mul (f32_of_int ci) (xm ! i)),
                 f32_add energy (f32_of_int (ci * ci)))) ([], 0, f32_0, f32_0) [0 ..< 16]
      in ((c, corr, energy), npulses))"

definition pulse_remove :: "f32 list \<Rightarrow> pulses \<times> int \<Rightarrow> nat \<Rightarrow> pulses \<times> int" where
  "pulse_remove xm st i = (case st of ((c, corr, energy), npulses) \<Rightarrow>
     ((c[i := 0], f32_sub corr (f32_mul (f32_of_int (c ! i)) (xm ! i)),
       f32_sub energy (f32_of_int (c ! i * c ! i))), npulses - c ! i))"

definition pulse_candidates :: "f32 list \<Rightarrow> int list list" where
  "pulse_candidates xm =
     (let (st, npulses) = pulse_project xm;
          st3 = add_pulse xm 16 npulses 6 st;
          st2 = add_pulse xm 16 6 8 st3;
          (st, npulses) = foldl (pulse_remove xm) (st2, 8) [10 ..< 16];
          st1 = add_pulse xm 10 npulses 10 st;
          st0 = add_pulse (drop 10 xm) 6 0 1 (drop 10 (fst st1), snd st1)
      in [take 10 (fst st1) @ fst st0, fst st1, fst st2, fst st3])"

definition pulse_mse :: "f32 list \<Rightarrow> f32 list \<Rightarrow> f32 \<Rightarrow> f32" where
  "pulse_mse x cn g = foldl (\<lambda>mse i. let d = f32_sub (x ! i) (f32_mul g (cn ! i))
     in f32_add mse (f32_mul d d)) f32_0 [0 ..< 16]"

text \<open>The candidates, normalised or not, and the shape and the gain of the least error.\<close>

definition sns_quantize :: "f32 list \<Rightarrow> nat \<Rightarrow> nat \<Rightarrow> int list list \<times> f32 list list \<times> nat \<times> nat" where
  "sns_quantize scf lf hf =
     (let r = map (\<lambda>i. f32_sub (scf ! i) (lc3_sns_lfcb ! lf ! i)) [0 ..< 8] @
              map (\<lambda>i. f32_sub (scf ! (8 + i)) (lc3_sns_hfcb ! hf ! i)) [0 ..< 8];
          x = dct16_forward r;
          c = map (\<lambda>c. map (\<lambda>j. if f32_lt (x ! j) f32_0 then - (c ! j) else c ! j) [0 ..< 16])
                (pulse_candidates (map f32_abs x));
          cn = map normalize c;
          (shape, gain, mse_min) = foldl (\<lambda>(shape, gain, mse_min) ic.
             let (cgain, cmse_min) = foldl (\<lambda>(cgain, cmse_min) ig.
                   let mse = pulse_mse x (cn ! ic) (lc3_sns_vq_gains ! ic ! ig)
                   in if f32_lt mse cmse_min then (ig, mse) else (cgain, cmse_min))
                   (0, FInf False) [0 ..< length (lc3_sns_vq_gains ! ic)]
             in if f32_lt cmse_min mse_min then (ic, cgain, cmse_min) else (shape, gain, mse_min))
             (0, 0, FInf False) [0 ..< (4 :: nat)]
      in (c, cn, shape, gain))"

definition sns_unquantize :: "nat \<Rightarrow> nat \<Rightarrow> f32 list \<Rightarrow> nat \<Rightarrow> nat \<Rightarrow> f32 list" where
  "sns_unquantize lf hf c shape gain =
     (let g = lc3_sns_vq_gains ! shape ! gain; scf = dct16_inverse c
      in map (\<lambda>i. f32_add (lc3_sns_lfcb ! lf ! i) (f32_mul g (scf ! i))) [0 ..< 8] @
         map (\<lambda>i. f32_add (lc3_sns_hfcb ! hf ! (i - 8)) (f32_mul g (scf ! i))) [8 ..< 16])"

section \<open>Enumeration of the pulses\<close>

text \<open>
  The vector is scanned from its end: \<open>c\<close> is what is left of the reversed vector, \<open>i\<close> the
  position and \<open>j\<close> the number of pulses seen. A vector without pulse is read before its first
  element: the result is \<open>None\<close>.
\<close>

fun enum_scan :: "int list \<Rightarrow> nat \<Rightarrow> int \<Rightarrow> int \<times> bool \<Rightarrow> int \<times> bool" where
  "enum_scan [] i j st = st"
| "enum_scan (ci # c) i j (idx, ls) =
     (let (idx, ls) = (if ci \<noteq> 0 then (push_bit 1 idx OR of_bool ls, ci < 0) else (idx, ls))
      in enum_scan c (i + 1) (j + LC3_ABS ci) (idx + lc3_sns_mpvq_offsets ! i ! nat j, ls))"

fun enum_first :: "int list \<Rightarrow> nat \<Rightarrow> (int \<times> bool) option" where
  "enum_first [] i = None"
| "enum_first (ci # c) i =
     (if ci = 0 then enum_first c (i + 1) else Some (enum_scan c (i + 1) (LC3_ABS ci) (0, ci < 0)))"

definition enum_mvpq :: "int list \<Rightarrow> (int \<times> bool) option" where
  "enum_mvpq c = enum_first (rev c) 0"

text \<open>The number of pulses left after the value at the position \<open>i\<close>.\<close>

fun deenum_left :: "nat \<Rightarrow> int \<Rightarrow> nat \<Rightarrow> nat" where
  "deenum_left i idx 0 = 0"
| "deenum_left i idx (Suc k) = (if idx < lc3_sns_mpvq_offsets ! i ! Suc k then deenum_left i idx k else Suc k)"

text \<open>The values at the positions below \<open>n\<close>, from the last one.\<close>

fun deenum_mvpq :: "int \<Rightarrow> bool \<Rightarrow> nat \<Rightarrow> nat \<Rightarrow> int list" where
  "deenum_mvpq idx ls npulses 0 = []"
| "deenum_mvpq idx ls npulses (Suc i) =
     (if idx = 0 then (if ls then - int npulses else int npulses) # replicate i 0
      else let k = deenum_left i idx npulses; ci = int (npulses - k);
               idx = idx - lc3_sns_mpvq_offsets ! i ! k
           in (if ls then - ci else ci) #
              (if ci > 0 then deenum_mvpq (drop_bit 1 idx) (odd idx) k i
               else deenum_mvpq idx ls k i))"

definition enumerate :: "int \<Rightarrow> int list \<Rightarrow> ((int \<times> bool) \<times> (int \<times> bool) option) option" where
  "enumerate shape c =
     Option.bind (enum_mvpq (take (if shape < 2 then 10 else 16) c)) (\<lambda>a.
       if shape = 0 then map_option (\<lambda>b. (a, Some b)) (enum_mvpq (drop 10 c)) else Some (a, None))"

definition deenumerate :: "int \<Rightarrow> int \<Rightarrow> bool \<Rightarrow> int \<Rightarrow> bool \<Rightarrow> int list" where
  "deenumerate shape idx_a ls_a idx_b ls_b =
     (let npulses_a = [10, 10, 8, 6] ! nat shape;
          c = deenum_mvpq idx_a ls_a npulses_a (if shape < 2 then 10 else 16)
      in if shape = 0 then c @ deenum_mvpq idx_b ls_b 1 6
         else if shape = 1 then c @ replicate 6 0 else c)"

section \<open>Shaping\<close>

text \<open>The 64 factors interpolated from the 16 ones, \<open>s\<close> being these with their sign.\<close>

definition sns_interpolate :: "f32 list \<Rightarrow> f32 list" where
  "sns_interpolate s =
     (let at = (\<lambda>s0 s1 k. f32_add s0 (f32_mul (f32_div (f32_of_int k) (f32_of_int 8)) (f32_sub s1 s0)))
      in [s ! 0, s ! 0] @
         concat (map (\<lambda>i. map (at (s ! i) (s ! (i + 1))) [1, 3, 5, 7]) [0 ..< 15]) @
         [f32_add (s ! 15) (f32_mul (f32_lit 125 (-3)) (f32_sub (s ! 15) (s ! 14))),
          f32_add (s ! 15) (f32_mul (f32_lit 375 (-3)) (f32_sub (s ! 15) (s ! 14)))])"

definition spectral_shaping :: "lc3_dt \<Rightarrow> lc3_srate \<Rightarrow> f32 list \<Rightarrow> bool \<Rightarrow> f32 list \<Rightarrow> f32 list \<Rightarrow> f32 list" where
  "spectral_shaping dt sr scf_q invert x y =
     (let scf = sns_interpolate (map (\<lambda>v. if invert then f32_neg v else v) scf_q);
          nb = nat (LC3_MIN (int (lc3_band_lim dt sr ! LC3_NUM_BANDS)) (int LC3_NUM_BANDS));
          n2 = LC3_NUM_BANDS - nb;
          scf = map (\<lambda>i2. f32_mul (f32_lit 5 (-1)) (f32_add (scf ! (2 * i2)) (scf ! (2 * i2 + 1)))) [0 ..< n2] @
                map (\<lambda>i. scf ! (2 * n2 + i)) [0 ..< nb - n2];
          lim = lc3_band_lim dt sr
      in snd (foldl (\<lambda>(i, y) ib.
           let g_sns = fast_exp2f (f32_neg (scf ! ib))
           in (max i (lim ! (ib + 1)), foldl (\<lambda>y i. y[i := f32_mul (x ! i) g_sns]) y [i ..< lim ! (ib + 1)]))
           (0, y) [0 ..< nb]))"

section \<open>Analysis and synthesis\<close>

text \<open>The analysis returns the data and the spectrum. It is \<open>None\<close> if the vector of the
  quantiser has no pulse; \<open>idx_b\<close> and \<open>ls_b\<close> keep their value when there is no second vector.\<close>

definition lc3_sns_analyze ::
    "lc3_dt \<Rightarrow> lc3_srate \<Rightarrow> f32 list \<Rightarrow> bool \<Rightarrow> lc3_sns_data \<Rightarrow> f32 list \<Rightarrow> f32 list \<Rightarrow> (lc3_sns_data \<times> f32 list) option" where
  "lc3_sns_analyze dt sr eb att data x y =
     (let scf = compute_scale_factors dt sr eb att;
          (lf, hf) = resolve_codebooks scf;
          (c, cn, shape, gain) = sns_quantize scf lf hf;
          scf = sns_unquantize lf hf (cn ! shape) shape gain
      in map_option (\<lambda>((idx_a, ls_a), b).
           (data\<lparr>sns_lfcb := int lf, sns_hfcb := int hf, sns_shape := int shape, sns_gain := int gain,
              sns_idx_a := idx_a, sns_ls_a := ls_a,
              sns_idx_b := (case b of Some (idx_b, _) \<Rightarrow> idx_b | None \<Rightarrow> sns_idx_b data),
              sns_ls_b := (case b of Some (_, ls_b) \<Rightarrow> ls_b | None \<Rightarrow> sns_ls_b data)\<rparr>,
            spectral_shaping dt sr scf False x y))
           (enumerate (int shape) (c ! shape)))"

definition lc3_sns_synthesize :: "lc3_dt \<Rightarrow> lc3_srate \<Rightarrow> lc3_sns_data \<Rightarrow> f32 list \<Rightarrow> f32 list \<Rightarrow> f32 list" where
  "lc3_sns_synthesize dt sr data x y =
     (let c = deenumerate (sns_shape data) (sns_idx_a data) (sns_ls_a data) (sns_idx_b data) (sns_ls_b data);
          scf = sns_unquantize (nat (sns_lfcb data)) (nat (sns_hfcb data)) (normalize c)
                  (nat (sns_shape data)) (nat (sns_gain data))
      in spectral_shaping dt sr scf True x y)"

section \<open>The field of the bitstream\<close>

definition lc3_sns_get_nbits :: int where "lc3_sns_get_nbits = 38"

definition lc3_sns_put_data :: "lc3_bits \<Rightarrow> lc3_sns_data \<Rightarrow> lc3_bits" where
  "lc3_sns_put_data bits data =
     (let bits = lc3_put_bits bits (word_of_int (sns_lfcb data)) 5;
          bits = lc3_put_bits bits (word_of_int (sns_hfcb data)) 5;
          shape_msb = drop_bit 1 (sns_shape data);
          bits = lc3_put_bit bits shape_msb;
          submode = sns_shape data AND 1
      in if shape_msb = 0 then
           (let size_a = 2390004;
                mux_high = (if submode = 0 then 2 * (sns_idx_b data + 1) + of_bool (sns_ls_b data)
                            else sns_gain data AND 1);
                mux_code = mux_high * size_a + sns_idx_a data;
                bits = lc3_put_bits bits (word_of_int (drop_bit (nat submode) (sns_gain data))) 1;
                bits = lc3_put_bits bits (of_bool (sns_ls_a data)) 1
            in lc3_put_bits bits (word_of_int mux_code) 25)
         else
           (let size_a = 15158272;
                mux_code = (if submode = 0 then sns_idx_a data
                            else size_a + 2 * sns_idx_a data + (sns_gain data AND 1));
                bits = lc3_put_bits bits (word_of_int (drop_bit (nat submode) (sns_gain data))) 2;
                bits = lc3_put_bits bits (of_bool (sns_ls_a data)) 1
            in lc3_put_bits bits (word_of_int mux_code) 24))"

text \<open>The get returns the error code, the data and the stream.\<close>

definition lc3_sns_get_data :: "lc3_bits \<Rightarrow> int \<times> lc3_sns_data \<times> lc3_bits" where
  "lc3_sns_get_data bits =
     (let (lf, bits) = lc3_get_bits bits 5;
          (hf, bits) = lc3_get_bits bits 5;
          (msb, bits) = lc3_get_bit bits; shape_msb = uint msb;
          (g, bits) = lc3_get_bits bits (1 + shape_msb);
          (l, bits) = lc3_get_bit bits;
          (m, bits) = lc3_get_bits bits (25 - shape_msb); mux_code = uint m;
          data = \<lparr>sns_lfcb = uint lf, sns_hfcb = uint hf, sns_shape = 0, sns_gain = uint g,
                  sns_idx_a = 0, sns_idx_b = 0, sns_ls_a = (l \<noteq> 0), sns_ls_b = False\<rparr>
      in if shape_msb = 0 then
           (let size_a = 2390004
            in if mux_code \<ge> size_a * 14 then (-1, data, bits) else
               (let data = data\<lparr>sns_idx_a := mux_code mod size_a\<rparr>;
                    mux_code = mux_code div size_a;
                    data = data\<lparr>sns_shape := of_bool (mux_code < 2)\<rparr>
                in (0, if sns_shape data = 0
                       then data\<lparr>sns_idx_b := (mux_code - 2) div 2, sns_ls_b := (mux_code - 2) mod 2 \<noteq> 0\<rparr>
                       else data\<lparr>sns_gain := push_bit 1 (sns_gain data) + mux_code mod 2\<rparr>, bits)))
         else
           (let size_a = 15158272
            in if mux_code \<ge> size_a + 1549824 then (-1, data, bits) else
               (let data = data\<lparr>sns_shape := 2 + of_bool (mux_code \<ge> size_a)\<rparr>
                in (0, if sns_shape data = 2 then data\<lparr>sns_idx_a := mux_code\<rparr>
                       else (let mux_code = mux_code - size_a
                             in data\<lparr>sns_idx_a := mux_code div 2,
                                  sns_gain := push_bit 1 (sns_gain data) + mux_code mod 2\<rparr>), bits))))"

end
