(* ===== verification/LtpfTables.thy ===== *)
theory LtpfTables
  imports Float32
begin

text \<open>The tables of the long-term postfilter: the resampling filters of \<^verbatim>\<open>ltpf.c\<close>, in Q15 and by
  phase, and the coefficients of the synthesis filters of \<^verbatim>\<open>tables.c\<close>.\<close>

definition h_8k_12k8_q15 :: "int list" where
  "h_8k_12k8_q15 =
     [
       214, 417, -1052, -4529, 26233, -4529, -1052, 417, 214, 0, 180, 0, -1522, -2427, 24506,
       -5289, 0, 763, 156, -28, 92, -323, -1361, 0, 19741, -3885, 1317, 861, 0, -61, 0, -457,
       -752, 1873, 13068, 0, 2389, 598, -213, -79, -61, -398, 0, 2686, 5997, 5997, 2686, 0,
       -398, -61, -79, -213, 598, 2389, 0, 13068, 1873, -752, -457, 0, -61, 0, 861, 1317,
       -3885, 19741, 0, -1361, -323, 92, -28, 156, 763, 0, -5289, 24506, -2427, -1522, 0, 180]"

definition h_16k_12k8_q15 :: "int list" where
  "h_16k_12k8_q15 =
     [
       -61, 214, -398, 417, 0, -1052, 2686, -4529, 5997, 26233, 5997, -4529, 2686, -1052, 0,
       417, -398, 214, -61, 0, -79, 180, -213, 0, 598, -1522, 2389, -2427, 0, 24506, 13068,
       -5289, 1873, 0, -752, 763, -457, 156, 0, -28, -61, 92, 0, -323, 861, -1361, 1317, 0,
       -3885, 19741, 19741, -3885, 0, 1317, -1361, 861, -323, 0, 92, -61, -28, 0, 156, -457,
       763, -752, 0, 1873, -5289, 13068, 24506, 0, -2427, 2389, -1522, 598, 0, -213, 180, -79]"

definition h_32k_12k8_q15 :: "int list" where
  "h_32k_12k8_q15 =
     [
       -30, -31, 46, 107, 0, -199, -162, 209, 430, 0, -681, -526, 658, 1343, 0, -2264, -1943,
       2999, 9871, 13116, 9871, 2999, -1943, -2264, 0, 1343, 658, -526, -681, 0, 430, 209,
       -162, -199, 0, 107, 46, -31, -30, 0, -14, -39, 0, 90, 78, -106, -229, 0, 382, 299, -376,
       -761, 0, 1194, 937, -1214, -2644, 0, 6534, 12253, 12253, 6534, 0, -2644, -1214, 937,
       1194, 0, -761, -376, 299, 382, 0, -229, -106, 78, 90, 0, -39, -14]"

definition h_24k_12k8_q15 :: "int list" where
  "h_24k_12k8_q15 =
     [
       -50, 19, 143, -93, -290, 278, 485, -658, -701, 1396, 901, -3019, -1042, 10276, 17488,
       10276, -1042, -3019, 901, 1396, -701, -658, 485, 278, -290, -93, 143, 19, -50, 0, -46,
       0, 141, -45, -305, 185, 543, -501, -854, 1153, 1249, -2619, -1908, 8712, 17358, 11772,
       0, -3319, 480, 1593, -504, -796, 399, 367, -261, -142, 138, 40, -52, -5, -41, -17, 133,
       0, -304, 91, 574, -334, -959, 878, 1516, -2143, -2590, 7118, 16971, 13161, 1202, -3495,
       0, 1731, -267, -908, 287, 445, -215, -188, 125, 62, -52, -12, -34, -30, 120, 41, -291,
       0, 577, -164, -1015, 585, 1697, -1618, -3084, 5534, 16337, 14406, 2544, -3526, -523,
       1800, 0, -985, 152, 509, -156, -230, 104, 83, -48, -19, -26, -41, 103, 76, -265, -83,
       554, 0, -1023, 288, 1791, -1070, -3393, 3998, 15474, 15474, 3998, -3393, -1070, 1791,
       288, -1023, 0, 554, -83, -265, 76, 103, -41, -26, -19, -48, 83, 104, -230, -156, 509,
       152, -985, 0, 1800, -523, -3526, 2544, 14406, 16337, 5534, -3084, -1618, 1697, 585,
       -1015, -164, 577, 0, -291, 41, 120, -30, -34, -12, -52, 62, 125, -188, -215, 445, 287,
       -908, -267, 1731, 0, -3495, 1202, 13161, 16971, 7118, -2590, -2143, 1516, 878, -959,
       -334, 574, 91, -304, 0, 133, -17, -41, -5, -52, 40, 138, -142, -261, 367, 399, -796,
       -504, 1593, 480, -3319, 0, 11772, 17358, 8712, -1908, -2619, 1249, 1153, -854, -501,
       543, 185, -305, -45, 141, 0, -46]"

definition h_48k_12k8_q15 :: "int list" where
  "h_48k_12k8_q15 =
     [
       -13, -25, -20, 10, 51, 71, 38, -47, -133, -145, -42, 139, 277, 242, 0, -329, -511, -351,
       144, 698, 895, 450, -535, -1510, -1697, -521, 1999, 5138, 7737, 8744, 7737, 5138, 1999,
       -521, -1697, -1510, -535, 450, 895, 698, 144, -351, -511, -329, 0, 242, 277, 139, -42,
       -145, -133, -47, 38, 71, 51, 10, -20, -25, -13, 0, -9, -23, -24, 0, 41, 71, 52, -23,
       -115, -152, -78, 92, 254, 272, 76, -251, -493, -427, 0, 576, 900, 624, -262, -1309,
       -1763, -954, 1272, 4356, 7203, 8679, 8169, 5886, 2767, 0, -1542, -1660, -809, 240, 848,
       796, 292, -252, -507, -398, -82, 199, 288, 183, 0, -130, -145, -71, 20, 69, 60, 20, -15,
       -26, -17, -3, -6, -20, -26, -8, 31, 67, 62, 0, -94, -152, -108, 45, 223, 287, 143, -167,
       -454, -480, -134, 439, 866, 758, 0, -1071, -1748, -1295, 601, 3559, 6580, 8485, 8485,
       6580, 3559, 601, -1295, -1748, -1071, 0, 758, 866, 439, -134, -480, -454, -167, 143,
       287, 223, 45, -108, -152, -94, 0, 62, 67, 31, -8, -26, -20, -6, -3, -17, -26, -15, 20,
       60, 69, 20, -71, -145, -130, 0, 183, 288, 199, -82, -398, -507, -252, 292, 796, 848,
       240, -809, -1660, -1542, 0, 2767, 5886, 8169, 8679, 7203, 4356, 1272, -954, -1763,
       -1309, -262, 624, 900, 576, 0, -427, -493, -251, 76, 272, 254, 92, -78, -152, -115, -23,
       52, 71, 41, 0, -24, -23, -9]"

definition lc3_ltpf_cnum :: "f32 list list list" where
  "lc3_ltpf_cnum =
     [[f32_tab [
       (602361821, -9), (419760926, -9), (-188342453, -10), (0, 0)],
       f32_tab [
       (599476858, -9), (419760926, -9), (-159492828, -10), (0, 0)],
       f32_tab [
       (596776466, -9), (419760926, -9), (-132488910, -10), (0, 0)],
       f32_tab [
       (594241012, -9), (419760926, -9), (-107134366, -10), (0, 0)]],
      [f32_tab [
       (602361821, -9), (419760926, -9), (-188342453, -10), (0, 0)],
       f32_tab [
       (599476858, -9), (419760926, -9), (-159492828, -10), (0, 0)],
       f32_tab [
       (596776466, -9), (419760926, -9), (-132488910, -10), (0, 0)],
       f32_tab [
       (594241012, -9), (419760926, -9), (-107134366, -10), (0, 0)]],
      [f32_tab [
       (398969559, -9), (514250861, -9), (100438297, -9), (-127889396, -10), (-157228008, -11),
       (0, 0)],
       f32_tab [
       (394863491, -9), (512381921, -9), (104319493, -9), (-109199996, -10), (-134740833, -11),
       (0, 0)],
       f32_tab [
       (390984448, -9), (510605352, -9), (107983252, -9), (-914343107, -11), (-113212462, -11),
       (0, 0)],
       f32_tab [
       (387309389, -9), (508912208, -9), (111451738, -9), (-745028713, -11), (-925551405, -12),
       (0, 0)]],
      [f32_tab [
       (298237945, -9), (465280920, -9), (210599743, -9), (376678038, -10), (-101569616, -10),
       (-253588100, -11), (-318294617, -12), (0, 0)],
       f32_tab [
       (294383415, -9), (461929400, -9), (212946577, -9), (406617500, -10), (-869327230, -11),
       (-217830711, -11), (-274288806, -12), (0, 0)],
       f32_tab [
       (290743921, -9), (458746191, -9), (215145697, -9), (435010477, -10), (-729549535, -11),
       (-183439564, -11), (-231692019, -12), (0, 0)],
       f32_tab [
       (287297585, -9), (455714889, -9), (217212695, -9), (462008888, -10), (-595746380, -11),
       (-150293428, -11), (-190385191, -12), (0, 0)]],
      [f32_tab [
       (198136374, -9), (352449490, -9), (251369527, -9), (142414624, -9), (570473102, -10),
       (929336624, -11), (-722602537, -11), (-317267989, -11), (-112183596, -11),
       (-290295724, -12), (-427081559, -13), (0, 0)],
       f32_tab [
       (195070943, -9), (348466041, -9), (250998846, -9), (144116741, -9), (592894732, -10),
       (110892383, -10), (-619290811, -11), (-272670551, -11), (-966712583, -12),
       (-250810092, -12), (-369993877, -13), (0, 0)],
       f32_tab [
       (192181006, -9), (344694556, -9), (250622009, -9), (145710245, -9), (614113213, -10),
       (127994140, -10), (-520372109, -11), (-229732451, -11), (-816560813, -12),
       (-212385575, -12), (-314127133, -13), (0, 0)],
       f32_tab [
       (189448531, -9), (341113925, -9), (250240688, -9), (147206563, -9), (634247723, -10),
       (144320343, -10), (-425444914, -11), (-188308147, -11), (-670961906, -12),
       (-174936334, -12), (-259386474, -13), (0, 0)]]]"

definition lc3_ltpf_cden :: "f32 list list list" where
  "lc3_ltpf_cden =
     [[f32_tab [
       (209880463, -9), (583527575, -9), (209880463, -9), (0, 0)],
       f32_tab [
       (106999186, -9), (550075002, -9), (335690625, -9), (669885837, -11)],
       f32_tab [
       (396711478, -10), (459220930, -9), (459220930, -9), (396711478, -10)],
       f32_tab [
       (669885837, -11), (335690625, -9), (550075002, -9), (106999186, -9)]],
      [f32_tab [
       (209880463, -9), (583527575, -9), (209880463, -9), (0, 0)],
       f32_tab [
       (106999186, -9), (550075002, -9), (335690625, -9), (669885837, -11)],
       f32_tab [
       (396711478, -10), (459220930, -9), (459220930, -9), (396711478, -10)],
       f32_tab [
       (669885837, -11), (335690625, -9), (550075002, -9), (106999186, -9)]],
      [f32_tab [
       (632223163, -10), (250730961, -9), (371390943, -9), (250730961, -9), (632223163, -10),
       (0, 0)],
       f32_tab [
       (345927217, -10), (198651560, -9), (362641173, -9), (298675055, -9), (101309287, -9),
       (426354371, -11)],
       f32_tab [
       (153574678, -10), (147434488, -9), (337425955, -9), (337425955, -9), (147434488, -9),
       (153574678, -10)],
       f32_tab [
       (426354371, -11), (101309287, -9), (298675055, -9), (362641173, -9), (198651560, -9),
       (345927217, -10)]],
      [f32_tab [
       (290040188, -10), (112985742, -9), (221202403, -9), (272390947, -9), (221202403, -9),
       (112985742, -9), (290040188, -10), (0, 0)],
       f32_tab [
       (170315342, -10), (872250379, -10), (196140776, -9), (268923798, -9), (242499910, -9),
       (140577336, -9), (447487717, -10), (312703024, -11)],
       f32_tab [
       (856367375, -11), (642622294, -10), (168767671, -9), (258744594, -9), (258744594, -9),
       (168767671, -9), (642622294, -10), (856367375, -11)],
       f32_tab [
       (312703024, -11), (447487717, -10), (140577336, -9), (242499910, -9), (268923798, -9),
       (196140776, -9), (872250379, -10), (170315342, -10)]],
      [f32_tab [
       (108235939, -10), (360896922, -10), (767640147, -10), (124153058, -9), (162759644, -9),
       (177677142, -9), (162759644, -9), (124153058, -9), (767640147, -10), (360896922, -10),
       (108235939, -10), (0, 0)],
       f32_tab [
       (704140493, -11), (281970232, -10), (654704494, -10), (112464799, -9), (154841896, -9),
       (176712238, -9), (169150721, -9), (135290158, -9), (885142501, -10), (449935385, -10),
       (155761371, -10), (203972196, -11)],
       f32_tab [
       (414699847, -11), (213575731, -10), (548273558, -10), (100497144, -9), (145606034, -9),
       (173843984, -9), (173843984, -9), (145606034, -9), (100497144, -9), (548273558, -10),
       (213575731, -10), (414699847, -11)],
       f32_tab [
       (203972196, -11), (155761371, -10), (449935385, -10), (885142501, -10), (135290158, -9),
       (169150721, -9), (176712238, -9), (154841896, -9), (112464799, -9), (654704494, -10),
       (281970232, -10), (704140493, -11)]]]"

end
