(* ===== verification/Ltpf.thy ===== *)
theory Ltpf
  imports LtpfTables Fastmath BitChannel Common
begin

text \<open>
  The long-term postfilter, \<^verbatim>\<open>ltpf.c\<close>: the resampling of the input, the detection of the
  pitch and its refinement, the synthesis filter on the ring of the decoder, and the field of
  the bitstream. A vector of the code that is read before its first element is a function from
  the offsets to the samples.
\<close>

section \<open>State\<close>

record lc3_ltpf_hp50_state =
  hp_s1 :: int
  hp_s2 :: int

record lc3_ltpf_analysis =
  an_active :: bool
  an_pitch :: int
  an_nc0 :: f32
  an_nc1 :: f32
  an_hp50 :: lc3_ltpf_hp50_state
  an_x_12k8 :: "int list"
  an_x_6k4 :: "int list"
  an_tc :: int

record lc3_ltpf_synthesis =
  sy_active :: bool
  sy_pitch :: int
  sy_c :: "f32 list"
  sy_x :: "f32 list"

record lc3_ltpf_data =
  ltpf_active :: bool
  ltpf_pitch_index :: int

section \<open>Resampling\<close>

definition filter_hp50 :: "lc3_ltpf_hp50_state \<Rightarrow> int \<Rightarrow> int \<times> lc3_ltpf_hp50_state" where
  "filter_hp50 hp50 xn =
     (let a1 = -2110217691; a2 = 1037111617; b1 = -2110535566; b2 = 1055267782;
          yn = s32 (drop_bit 30 (hp_s1 hp50 + xn * b2))
      in (yn, \<lparr>hp_s1 = hp_s2 hp50 + xn * b1 - yn * a1, hp_s2 = xn * b2 - yn * a2\<rparr>))"

text \<open>The sum \<open>un\<close> of the phase \<open>i mod p\<close>, on \<open>w\<close> samples up to \<open>i / p\<close>.\<close>

definition resample_sum :: "nat \<Rightarrow> nat \<Rightarrow> int list \<Rightarrow> (int \<Rightarrow> int) \<Rightarrow> nat \<Rightarrow> int" where
  "resample_sum p w h x i =
     foldl (\<lambda>un k. un + x (int (i div p) - (int w - 1) + int k) * h ! (i mod p * w + k)) 0 [0 ..< w]"

definition resample_step ::
    "nat \<Rightarrow> nat \<Rightarrow> int list \<Rightarrow> (int \<Rightarrow> int) \<Rightarrow> lc3_ltpf_hp50_state \<times> int list \<Rightarrow> nat \<Rightarrow> lc3_ltpf_hp50_state \<times> int list" where
  "resample_step p w h x st i = (case st of (hp50, y) \<Rightarrow>
     (case filter_hp50 hp50 (resample_sum p w h x i) of (yn, hp50) \<Rightarrow>
        (hp50, y @ [s16 (drop_bit 16 (yn + push_bit 15 1))])))"

definition resample_x64k_12k8 ::
    "nat \<Rightarrow> int list \<Rightarrow> lc3_ltpf_hp50_state \<Rightarrow> (int \<Rightarrow> int) \<Rightarrow> nat \<Rightarrow> lc3_ltpf_hp50_state \<times> int list" where
  "resample_x64k_12k8 p h hp50 x n =
     foldl (resample_step p (2 * (40 div p)) h x) (hp50, []) (map (\<lambda>j. 5 * j) [0 ..< n])"

definition resample_x192k_12k8 ::
    "nat \<Rightarrow> int list \<Rightarrow> lc3_ltpf_hp50_state \<Rightarrow> (int \<Rightarrow> int) \<Rightarrow> nat \<Rightarrow> lc3_ltpf_hp50_state \<times> int list" where
  "resample_x192k_12k8 p h hp50 x n =
     foldl (resample_step p (2 * (120 div p)) h x) (hp50, []) (map (\<lambda>j. 15 * j) [0 ..< n])"

definition resample_8k_12k8 where "resample_8k_12k8 = resample_x64k_12k8 8 h_8k_12k8_q15"
definition resample_16k_12k8 where "resample_16k_12k8 = resample_x64k_12k8 4 h_16k_12k8_q15"
definition resample_32k_12k8 where "resample_32k_12k8 = resample_x64k_12k8 2 h_32k_12k8_q15"
definition resample_24k_12k8 where "resample_24k_12k8 = resample_x192k_12k8 8 h_24k_12k8_q15"
definition resample_48k_12k8 where "resample_48k_12k8 = resample_x192k_12k8 4 h_48k_12k8_q15"

definition resample_12k8 ::
    "lc3_srate \<Rightarrow> lc3_ltpf_hp50_state \<Rightarrow> (int \<Rightarrow> int) \<Rightarrow> nat \<Rightarrow> lc3_ltpf_hp50_state \<times> int list" where
  "resample_12k8 sr =
     [resample_8k_12k8, resample_16k_12k8, resample_24k_12k8, resample_32k_12k8, resample_48k_12k8] ! nat (sr_int sr)"

definition resample_6k4_sum :: "(int \<Rightarrow> int) \<Rightarrow> int \<Rightarrow> int" where
  "resample_6k4_sum x i = x i * 18477 + (x (i - 1) + x (i + 1)) * 15424 + (x (i - 2) + x (i + 2)) * 8105"

definition resample_6k4 :: "(int \<Rightarrow> int) \<Rightarrow> nat \<Rightarrow> int list" where
  "resample_6k4 x n = map (\<lambda>j. s16 (drop_bit 16 (resample_6k4_sum x (2 * int j - 1)))) [0 ..< n]"

section \<open>Analysis\<close>

definition ltpf_dot :: "(int \<Rightarrow> int) \<Rightarrow> (int \<Rightarrow> int) \<Rightarrow> nat \<Rightarrow> f32" where
  "ltpf_dot a b n =
     (let v = foldl (\<lambda>v i. v + a (int i) * b (int i)) 0 [0 ..< 16 * drop_bit 4 n]
      in f32_of_int (s32 (drop_bit 6 (v + push_bit 5 1))))"

definition correlate :: "(int \<Rightarrow> int) \<Rightarrow> (int \<Rightarrow> int) \<Rightarrow> nat \<Rightarrow> nat \<Rightarrow> f32 list" where
  "correlate a b n nc = map (\<lambda>k. ltpf_dot a (\<lambda>i. b (i - int k)) n) [0 ..< nc]"

text \<open>The argument of the maximum, and the maximum.\<close>

definition argmax :: "f32 list \<Rightarrow> nat \<Rightarrow> nat \<times> f32" where
  "argmax x n = foldl (\<lambda>(arg, x_max) i. if f32_lt x_max (x ! i) then (i, x ! i) else (arg, x_max))
     (0, x ! 0) [1 ..< n]"

definition argmax_weighted :: "f32 list \<Rightarrow> nat \<Rightarrow> f32 \<Rightarrow> nat \<times> f32" where
  "argmax_weighted x n w_incr =
     (case foldl (\<lambda>(arg, x_max, xw_max, w) i.
             if f32_lt xw_max (f32_mul (x ! i) w)
             then (i, x ! i, f32_mul (x ! i) w, f32_add w w_incr)
             else (arg, x_max, xw_max, f32_add w w_incr))
           (0, x ! 0, x ! 0, f32_add (f32_of_int 1) w_incr) [1 ..< n] of
       (arg, x_max, _, _) \<Rightarrow> (arg, x_max))"

definition h4_q15 :: "int list list" where
  "h4_q15 = [[6877, 19121, 6877, 0], [3506, 18025, 11000, 220], [1300, 15048, 15048, 1300], [220, 11000, 18025, 3506]]"

text \<open>The loop writes 4 samples at a time, until \<open>n\<close> of them at least are written.\<close>

definition interpolate :: "(int \<Rightarrow> int) \<Rightarrow> nat \<Rightarrow> nat \<Rightarrow> int list" where
  "interpolate x n d =
     (let h = h4_q15 ! d
      in map (\<lambda>j. let i = int j in
           s16 (drop_bit 15 (x (i + 1) * h ! 0 + x i * h ! 1 + x (i - 1) * h ! 2 + x (i - 2) * h ! 3)))
         [0 ..< 4 * ((n + 3) div 4)])"

definition corr_h4 :: "f32 list list" where
  "corr_h4 =
     [f32_tab [(153572770, -10), (-472963246, -10), (835788573, -10), (898638285, -9),
        (835788573, -10), (-472963246, -10), (153572770, -10), (0, 0)],
      f32_tab [(274547165, -11), (459833449, -11), (-754404636, -10), (817488686, -9),
        (330182571, -9), (-105835916, -9), (286823405, -10), (-287456116, -11)],
      f32_tab [(-300125103, -11), (295038503, -10), (-130305021, -9), (603297008, -9),
        (603297008, -9), (-130305021, -9), (295038503, -10), (-300125103, -11)],
      f32_tab [(-287456116, -11), (286823405, -10), (-105835916, -9), (330182571, -9),
        (817488686, -9), (-754404636, -10), (459833449, -11), (274547165, -11)]]"

text \<open>The value at the phase \<open>d\<close> around the position \<open>e\<close> of \<open>x\<close>.\<close>

definition interpolate_corr :: "f32 list \<Rightarrow> nat \<Rightarrow> int \<Rightarrow> f32" where
  "interpolate_corr x e d =
     (let h = corr_h4 ! nat (cmod (4 + d) 4);
          at = (\<lambda>i. x ! nat (int e + i));
          y = (if d < 0 then f32_mul (at (-4)) (h ! 0)
               else if d > 0 then f32_mul (at 4) (h ! 7) else f32_0);
          h = (if d < 0 then drop 1 h else h)
      in f32_add y (foldl (\<lambda>s k. f32_add s (f32_mul (at (int k - 3)) (h ! k)))
           (f32_mul (at (-3)) (h ! 0)) [1 ..< 7]))"

definition norm_corr :: "f32 \<Rightarrow> f32 \<Rightarrow> f32 \<Rightarrow> f32" where
  "norm_corr rm xx yy = (if f32_le rm f32_0 then f32_0 else f32_div rm (f32_sqrt (f32_mul xx yy)))"

text \<open>The result is the presence of a pitch, its lag, and the lag kept for the next frame.\<close>

definition detect_pitch :: "int \<Rightarrow> (int \<Rightarrow> int) \<Rightarrow> nat \<Rightarrow> bool \<times> int \<times> int" where
  "detect_pitch tc x n =
     (let r0 = 17; nr = 98;
          k0 = LC3_MAX 0 (tc - 4);
          nk = LC3_MIN (nr - 1) (tc + 4) - k0 + 1;
          r = correlate x (\<lambda>i. x (i - r0)) n (nat nr);
          (t1, rm1) = argmax_weighted r (nat nr) (f32_div (f32_lit (-5) (-1)) (f32_of_int (nr - 1)));
          (a2, rm2) = argmax (drop (nat k0) r) (nat nk);
          t2 = k0 + int a2;
          lagged = (\<lambda>t i. x (i - (r0 + t)));
          nc1 = norm_corr rm1 (ltpf_dot x x n) (ltpf_dot (lagged (int t1)) (lagged (int t1)) n);
          nc2 = norm_corr rm2 (ltpf_dot x x n) (ltpf_dot (lagged t2) (lagged t2) n);
          t1sel = f32_le nc2 (f32_mul (f32_lit 85 (-2)) nc1);
          tc = (if t1sel then int t1 else t2)
      in (f32_gt (if t1sel then nc1 else nc2) (f32_lit 6 (-1)), r0 + tc, tc))"

text \<open>One turn of the search of the phase, on the maximum and the phase.\<close>

definition refine_phase :: "(int \<Rightarrow> f32) \<Rightarrow> int \<Rightarrow> f32 \<times> int \<Rightarrow> int \<Rightarrow> f32 \<times> int" where
  "refine_phase corr e st i = (case st of (dm, f) \<Rightarrow>
     if e \<ge> 127 \<and> (odd i \<or> e \<ge> 157) then (dm, f)
     else (let (dm, f) = (if f32_gt (corr i) dm then (corr i, i) else (dm, f))
           in if e > 32 \<and> f32_gt (corr (- i)) dm then (corr (- i), - i) else (dm, f)))"

text \<open>The index in the bitstream and the pitch, from the lag \<open>e\<close> and the phase \<open>f\<close>.\<close>

definition pitch_code :: "int \<Rightarrow> int \<Rightarrow> int \<times> int" where
  "pitch_code e f =
     (let e' = e - of_bool (f < 0); f = f + 4 * of_bool (f < 0); e = e'
      in (if e < 127 then 4 * e + f - 128 else if e < 157 then 2 * e + drop_bit 1 f + 126 else e + 283,
          4 * e + f))"

definition refine_pitch :: "(int \<Rightarrow> int) \<Rightarrow> nat \<Rightarrow> int \<Rightarrow> int \<times> int" where
  "refine_pitch x n tc =
     (let r0 = LC3_MAX 32 (2 * tc - 4);
          nr = LC3_MIN 228 (2 * tc + 4) - r0 + 1;
          r = correlate x (\<lambda>i. x (i - (r0 - 4))) n (nat (nr + 8));
          e = r0 + int (fst (argmax (drop 4 r) (nat nr)));
          corr = interpolate_corr r (nat (e - (r0 - 4)));
          (dm, f) = foldl (refine_phase corr e) (corr 0, 0) [1, 2, 3]
      in pitch_code e f)"

text \<open>A vector in a buffer, from its first element.\<close>

definition buf_at :: "'a list \<Rightarrow> int \<Rightarrow> int \<Rightarrow> 'a" where
  "buf_at b base i = b ! nat (base + i)"

definition lc3_ltpf_analyse ::
    "lc3_dt \<Rightarrow> lc3_srate \<Rightarrow> lc3_ltpf_analysis \<Rightarrow> (int \<Rightarrow> int) \<Rightarrow> lc3_ltpf_data \<Rightarrow> bool \<times> lc3_ltpf_analysis \<times> lc3_ltpf_data" where
  "lc3_ltpf_analyse dt sr ltpf x data =
     (let z_12k8 = 384; n_12k8 = (if dt = LC3_DT_7M5 then 96 else 128);
          (hp50, y) = resample_12k8 sr (an_hp50 ltpf) x n_12k8;
          b_12k8 = take (z_12k8 - n_12k8) (drop n_12k8 (an_x_12k8 ltpf)) @ y;
          x_12k8 = buf_at b_12k8 (int (z_12k8 - n_12k8) - (if dt = LC3_DT_7M5 then 44 else 24));
          z_6k4 = 178; n_6k4 = drop_bit 1 n_12k8;
          b_6k4 = take (z_6k4 - n_6k4) (drop n_6k4 (an_x_6k4 ltpf)) @ resample_6k4 x_12k8 n_6k4;
          x_6k4 = buf_at b_6k4 (int (z_6k4 - n_6k4));
          (pitch_present, tc, an_tc') = detect_pitch (an_tc ltpf) x_6k4 n_6k4;
          (pitch, nc, data) =
            (if pitch_present then
               (let (pitch_index, pitch) = refine_pitch x_12k8 n_12k8 tc;
                    u = buf_at (interpolate x_12k8 n_12k8 0) 0;
                    v = buf_at (interpolate (\<lambda>i. x_12k8 (i - drop_bit 2 pitch)) n_12k8 (nat (pitch AND 3))) 0
                in (pitch,
                    f32_div (ltpf_dot u v n_12k8) (f32_sqrt (f32_mul (ltpf_dot u u n_12k8) (ltpf_dot v v n_12k8))),
                    data\<lparr>ltpf_pitch_index := pitch_index\<rparr>))
             else (0, f32_0, data));
          active =
            (if an_active ltpf then
               (let pitch_diff = LC3_MAX pitch (an_pitch ltpf) - LC3_MIN pitch (an_pitch ltpf);
                    nc_diff = f32_sub nc (an_nc0 ltpf)
                in pitch_present \<and>
                   (f32_gt nc (f32_lit 9 (-1)) \<or>
                    (f32_gt nc (f32_lit 84 (-2)) \<and> pitch_diff < 8 \<and> f32_gt nc_diff (f32_lit (-1) (-1)))))
             else
               pitch_present \<and>
               ((dt = LC3_DT_10M \<or> f32_gt (an_nc1 ltpf) (f32_lit 94 (-2))) \<and>
                (f32_gt (an_nc0 ltpf) (f32_lit 94 (-2)) \<and> f32_gt nc (f32_lit 94 (-2)))))
      in (pitch_present,
          \<lparr>an_active = active, an_pitch = pitch, an_nc0 = nc, an_nc1 = an_nc0 ltpf, an_hp50 = hp50,
           an_x_12k8 = b_12k8, an_x_6k4 = b_6k4, an_tc = an_tc'\<rparr>,
          data\<lparr>ltpf_active := active\<rparr>))"

end
