(* ===== verification/LtpfSynth.thy ===== *)
theory LtpfSynth
  imports Ltpf
begin

text \<open>
  The synthesis filter of the long-term postfilter on the ring of the decoder, and its field of
  the bitstream, the second half of \<^verbatim>\<open>ltpf.c\<close>. The ring is a list \<open>xh\<close>, and a frame is a
  position \<open>px\<close> in it; the filter reads the samples of the ring that it has written.
\<close>

section \<open>Synthesis\<close>

record ltpf_filter =
  fl_xh :: "f32 list"
  fl_u :: "f32 list"
  fl_y :: int
  fl_g :: f32

text \<open>The two loops on \<open>k\<close> that add a sample \<open>xi\<close> and a delayed one \<open>yi\<close> to the elements
  \<open>at k\<close> of \<open>u\<close>.\<close>

definition filter_taps :: "f32 list \<Rightarrow> nat \<Rightarrow> (nat \<Rightarrow> nat) \<Rightarrow> nat \<Rightarrow> f32 \<Rightarrow> f32 \<Rightarrow> f32 list \<Rightarrow> f32 list" where
  "filter_taps c w at n yi xi u =
     (let u = foldl (\<lambda>u k. u[at k := f32_sub (u ! at k) (f32_mul yi (c ! k))]) u [0 ..< n]
      in foldl (\<lambda>u k. u[at k := f32_add (u ! at k) (f32_mul xi (c ! (w + k)))]) u [0 ..< n])"

definition ring_next :: "int \<Rightarrow> int \<Rightarrow> int" where
  "ring_next nh y = (if y < nh - 1 then y + 1 else 0)"

definition filter_load :: "int \<Rightarrow> f32 list \<Rightarrow> nat \<Rightarrow> f32 list \<Rightarrow> ltpf_filter \<Rightarrow> nat \<Rightarrow> ltpf_filter" where
  "filter_load nh c w x0 fl j =
     fl\<lparr>fl_u := filter_taps c w (\<lambda>k. j - k) (j + 1) (fl_xh fl ! nat (fl_y fl)) (x0 ! j) ((fl_u fl)[j := f32_0]),
        fl_y := ring_next nh (fl_y fl)\<rparr>"

definition filter_sample :: "int \<Rightarrow> f32 list \<Rightarrow> nat \<Rightarrow> f32 \<Rightarrow> nat \<Rightarrow> ltpf_filter \<Rightarrow> nat \<Rightarrow> ltpf_filter" where
  "filter_sample nh c w g_incr px fl i =
     (let j = i mod w; xi = fl_xh fl ! (px + i);
          u = filter_taps c w (\<lambda>k. (j + (w - 1) - k) mod w) w (fl_xh fl ! nat (fl_y fl)) xi (fl_u fl)
      in fl\<lparr>fl_xh := (fl_xh fl)[px + i := f32_sub xi (f32_mul (fl_g fl) (u ! j))],
            fl_u := u[j := f32_0], fl_y := ring_next nh (fl_y fl), fl_g := f32_add (fl_g fl) g_incr\<rparr>)"

text \<open>\<open>n\<close> samples from \<open>px\<close>: the loops of the code process a multiple of \<open>w\<close> samples.\<close>

definition synthesize_template ::
    "int \<Rightarrow> int \<Rightarrow> f32 list \<Rightarrow> nat \<Rightarrow> nat \<Rightarrow> f32 list \<Rightarrow> nat \<Rightarrow> int \<Rightarrow> f32 list \<Rightarrow> f32 list" where
  "synthesize_template nh lag x0 px n c w fade xh =
     (let g = f32_of_int (of_bool (fade \<le> 0));
          g_incr = f32_div (f32_of_int (of_bool (fade > 0) - of_bool (fade < 0))) (f32_of_int (int n));
          lag = lag + int (w div 2);
          y = (if int px < lag then int px + (nh - lag) else int px - lag);
          fl = foldl (filter_load nh c w x0)
                 \<lparr>fl_xh = xh, fl_u = replicate w f32_0, fl_y = y, fl_g = g\<rparr> [0 ..< w - 1];
          fl = foldl (filter_sample nh c w g_incr px) (fl\<lparr>fl_u := (fl_u fl)[w - 1 := f32_0]\<rparr>)
                 [0 ..< w * ((n + w - 1) div w)]
      in fl_xh fl)"

definition synthesize_width :: "lc3_srate \<Rightarrow> nat" where
  "synthesize_width sr = [4, 4, 6, 8, 12] ! nat (sr_int sr)"

definition ltpf_synthesize :: "lc3_srate \<Rightarrow> int \<Rightarrow> int \<Rightarrow> f32 list \<Rightarrow> nat \<Rightarrow> nat \<Rightarrow> f32 list \<Rightarrow> int \<Rightarrow> f32 list \<Rightarrow> f32 list" where
  "ltpf_synthesize sr nh lag x0 px n c fade xh =
     synthesize_template nh lag x0 px n c (synthesize_width sr) fade xh"

text \<open>The pitch of the index of the bitstream, in quarters of a sample at 12.8 kHz, then at
  the sample rate.\<close>

definition pitch_of_index :: "int \<Rightarrow> int" where
  "pitch_of_index p_idx =
     (if p_idx \<ge> 440 then push_bit 2 (p_idx - 283)
      else if p_idx \<ge> 380 then push_bit 2 (drop_bit 1 p_idx - 63) + push_bit 1 (p_idx AND 1)
      else push_bit 2 (drop_bit 2 p_idx + 32) + (p_idx AND 3))"

definition ltpf_pitch :: "lc3_srate \<Rightarrow> int \<Rightarrow> int" where
  "ltpf_pitch sr p_idx = cdiv (pitch_of_index p_idx * LC3_SRATE_KHZ sr * 10 + 64) 128"

definition ltpf_gain_index :: "lc3_dt \<Rightarrow> lc3_srate \<Rightarrow> int \<Rightarrow> int" where
  "ltpf_gain_index dt sr nbytes =
     (let dt_us = LC3_DT_US dt;
          nbits = cdiv (nbytes * 8 * 10000 + cdiv dt_us 2) dt_us
      in LC3_MAX (cdiv nbits 80) (3 + sr_int sr) - (3 + sr_int sr))"

definition ltpf_coeffs :: "lc3_srate \<Rightarrow> bool \<Rightarrow> int \<Rightarrow> int \<Rightarrow> f32 list" where
  "ltpf_coeffs sr active g_idx pitch =
     (let w = nat (LC3_MAX 4 (cdiv (LC3_SRATE_KHZ sr) 4));
          g = (if active then f32_sub (f32_lit 4 (-1)) (f32_mul (f32_lit 5 (-2)) (f32_of_int g_idx)) else f32_0)
      in map (\<lambda>i. f32_mul g (lc3_ltpf_cden ! nat (sr_int sr) ! nat (pitch AND 3) ! (w - 1 - i))) [0 ..< w] @
         map (\<lambda>i. f32_mul (f32_mul (f32_lit 85 (-2)) g)
               (lc3_ltpf_cnum ! nat (sr_int sr) ! nat (LC3_MIN g_idx 3) ! (w - 1 - i))) [0 ..< w])"

text \<open>The pieces of the ring: \<open>n\<close> samples from \<open>i\<close>.\<close>

definition slice :: "nat \<Rightarrow> nat \<Rightarrow> 'a list \<Rightarrow> 'a list" where
  "slice i n xs = take n (drop i xs)"

text \<open>The frame of \<open>px\<close> in the ring \<open>xh\<close>, filtered in place; no data is no pitch.\<close>

definition lc3_ltpf_synthesize ::
    "lc3_dt \<Rightarrow> lc3_srate \<Rightarrow> int \<Rightarrow> lc3_ltpf_synthesis \<Rightarrow> lc3_ltpf_data option \<Rightarrow> nat \<Rightarrow> f32 list \<Rightarrow>
     lc3_ltpf_synthesis \<times> f32 list" where
  "lc3_ltpf_synthesize dt sr nbytes ltpf data px xh =
     (let nh = LC3_NH dt sr;
          p_idx = (case data of Some d \<Rightarrow> ltpf_pitch_index d | None \<Rightarrow> 0);
          pitch = ltpf_pitch sr p_idx;
          g_idx = ltpf_gain_index dt sr nbytes;
          active = ((case data of Some d \<Rightarrow> ltpf_active d | None \<Rightarrow> False) \<and> g_idx < 4);
          w = nat (LC3_MAX 4 (cdiv (LC3_SRATE_KHZ sr) 4));
          c = ltpf_coeffs sr active g_idx pitch;
          ns = nat (LC3_NS dt sr); nt = ns div nat (3 + dt_int dt);
          x0 = slice (px + nt - (w - 1)) (w - 1) xh;
          old = (\<lambda>fade. ltpf_synthesize sr nh (cdiv (sy_pitch ltpf) 4) (sy_x ltpf) px nt (sy_c ltpf) fade);
          xh =
            (if \<not> sy_active ltpf \<and> active then ltpf_synthesize sr nh (cdiv pitch 4) (sy_x ltpf) px nt c 1 xh
             else if sy_active ltpf \<and> \<not> active then old (-1) xh
             else if sy_active ltpf \<and> active \<and> sy_pitch ltpf = pitch
             then ltpf_synthesize sr nh (cdiv pitch 4) (sy_x ltpf) px nt c 0 xh
             else if sy_active ltpf \<and> active
             then (let xh = old (-1) xh
                   in ltpf_synthesize sr nh (cdiv pitch 4)
                        (slice ((if px \<le> 0 then px + nat nh else px) - (w - 1)) (w - 1) xh) px nt c 1 xh)
             else xh);
          sx = slice (px + ns - (w - 1)) (w - 1) xh @ drop (w - 1) (sy_x ltpf);
          xh = (if active then ltpf_synthesize sr nh (cdiv pitch 4) x0 (px + nt) (ns - nt) c 0 xh else xh)
      in (\<lparr>sy_active = active, sy_pitch = pitch, sy_c = c @ drop (2 * w) (sy_c ltpf), sy_x = sx\<rparr>, xh))"

section \<open>The field of the bitstream\<close>

definition lc3_ltpf_disable :: "lc3_ltpf_data \<Rightarrow> lc3_ltpf_data" where
  "lc3_ltpf_disable data = data\<lparr>ltpf_active := False\<rparr>"

definition lc3_ltpf_get_nbits :: "bool \<Rightarrow> int" where
  "lc3_ltpf_get_nbits pitch = 1 + 10 * of_bool pitch"

definition lc3_ltpf_put_data :: "lc3_bits \<Rightarrow> lc3_ltpf_data \<Rightarrow> lc3_bits" where
  "lc3_ltpf_put_data bits data =
     lc3_put_bits (lc3_put_bit bits (of_bool (ltpf_active data))) (word_of_int (ltpf_pitch_index data)) 9"

definition lc3_ltpf_get_data :: "lc3_bits \<Rightarrow> lc3_ltpf_data \<times> lc3_bits" where
  "lc3_ltpf_get_data bits =
     (let (a, bits) = lc3_get_bit bits; (p, bits) = lc3_get_bits bits 9
      in (\<lparr>ltpf_active = (a \<noteq> 0), ltpf_pitch_index = uint p\<rparr>, bits))"

end
