(* ===== verification/SpecEncode.thy ===== *)
theory SpecEncode
  imports SpecGain Tns Bwdet Sns LtpfSynth
begin

text \<open>The analysis of the spectrum, its encoding and its decoding: the interface of
  \<^verbatim>\<open>spec.c\<close>, over the gain and the quantisation of \<open>SpecGain\<close> and the coding of
  \<open>SpecCode\<close>.\<close>

record lc3_spec_analysis =
  sp_nbits_off :: f32
  sp_nbits_spare :: int

section \<open>Encoding\<close>

definition spec_nbits_budget :: "lc3_dt \<Rightarrow> lc3_srate \<Rightarrow> int \<Rightarrow> bool \<Rightarrow> lc3_tns_data \<Rightarrow> int" where
  "spec_nbits_budget dt sr nbytes pitch tns =
     (let nbits_gain = 8; nbits_nf = 3
      in 8 * nbytes - get_nbits_ac dt sr nbytes - lc3_bwdet_get_nbits sr - lc3_ltpf_get_nbits pitch -
         lc3_sns_get_nbits - lc3_tns_get_nbits tns - nbits_gain - nbits_nf)"

definition spec_nbits_off :: "lc3_spec_analysis \<Rightarrow> f32" where
  "spec_nbits_off spec =
     (let nbits_off = f32_add (sp_nbits_off spec) (f32_of_int (sp_nbits_spare spec));
          nbits_off = f32_fmin (f32_fmax nbits_off (f32_of_int (-40))) (f32_of_int 40)
      in f32_add (f32_mul (f32_lit 8 (-1)) (sp_nbits_off spec)) (f32_mul (f32_lit 2 (-1)) nbits_off))"

text \<open>The result is the state, the scaled coefficients, the quantised ones and the side data;
  \<open>xq\<close> is the buffer of the caller.\<close>

definition lc3_spec_analyze ::
    "(f32 \<Rightarrow> f32) \<Rightarrow> lc3_dt \<Rightarrow> lc3_srate \<Rightarrow> int \<Rightarrow> bool \<Rightarrow> lc3_tns_data \<Rightarrow> lc3_spec_analysis \<Rightarrow>
     f32 list \<Rightarrow> u16 list \<Rightarrow> lc3_spec_analysis \<times> f32 list \<times> u16 list \<times> lc3_spec_side" where
  "lc3_spec_analyze log10f dt sr nbytes pitch tns spec x xq =
     (let nbits_budget = spec_nbits_budget dt sr nbytes pitch tns;
          nbits_off = spec_nbits_off spec;
          g_off = resolve_gain_offset sr nbytes;
          (g_int, reset_off) = estimate_gain log10f dt sr x nbits_budget nbits_off g_off;
          (x, xq, nq) = quantize dt sr g_int (x, xq);
          (nbits, nq, _) = compute_nbits dt sr nbytes xq nq 0;
          spec = \<lparr>sp_nbits_off = (if reset_off then f32_0 else nbits_off),
                  sp_nbits_spare = (if reset_off then 0 else nbits_budget - nbits)\<rparr>;
          g_adj = adjust_gain sr (g_int + g_off) nbits nbits_budget;
          (x, xq, nq) = (if g_adj \<noteq> 0 then quantize dt sr g_adj (x, xq) else (x, xq, nq));
          (nbits, nq, lsb_mode) = compute_nbits dt sr nbytes xq nq nbits_budget
      in (spec, x, xq, \<lparr>side_g_idx = g_int + g_adj + g_off, side_nq = nq, side_lsb_mode = lsb_mode\<rparr>))"

definition lc3_spec_encode ::
    "lc3_bits \<Rightarrow> lc3_dt \<Rightarrow> lc3_srate \<Rightarrow> lc3_bandwidth \<Rightarrow> int \<Rightarrow> u16 list \<Rightarrow> lc3_spec_side \<Rightarrow> f32 list \<Rightarrow>
     lc3_bits option" where
  "lc3_spec_encode bits dt sr bw nbytes xq side x =
     (let lsb_mode = side_lsb_mode side; nq = side_nq side;
          bits = put_noise_factor bits (estimate_noise dt bw xq nq x)
      in map_option (\<lambda>bits.
           let nbits_left = lc3_get_bits_left bits
           in if lsb_mode then put_lsb bits nbits_left xq nq else put_residual bits nbits_left xq nq x)
           (put_quantized bits dt sr nbytes xq nq lsb_mode))"

section \<open>Decoding\<close>

definition lc3_spec_decode ::
    "lc3_bits \<Rightarrow> lc3_dt \<Rightarrow> lc3_srate \<Rightarrow> lc3_bandwidth \<Rightarrow> int \<Rightarrow> lc3_spec_side \<Rightarrow> f32 list \<Rightarrow>
     (int \<times> f32 list \<times> lc3_bits) option" where
  "lc3_spec_decode bits dt sr bw nbytes side x =
     (let lsb_mode = side_lsb_mode side; nq = side_nq side;
          (nf, bits) = get_noise_factor bits
      in map_option (\<lambda>(ret, x, nf_seed, bits).
           if ret < 0 then (ret, x, bits) else
           (let nbits_left = lc3_get_bits_left bits;
                (x, nf_seed, bits) =
                  (if lsb_mode then get_lsb bits nbits_left x nq nf_seed
                   else (case get_residual bits nbits_left x nq of (x, bits) \<Rightarrow> (x, nf_seed, bits)));
                g_int = side_g_idx side - resolve_gain_offset sr nbytes;
                (x, g) = unquantize dt sr g_int x nq;
                x = (if nq > 2 \<or> \<not> f32_eq (x ! 0) f32_0 \<or> \<not> f32_eq (x ! 1) f32_0 \<or> side_g_idx side > 0 \<or> nf < 7
                     then fill_noise dt bw nf nf_seed g x nq else x)
            in (0, x, bits)))
           (get_quantized bits dt sr nbytes nq lsb_mode x))"

end
