(* ===== verification/SideCodec.thy ===== *)
theory SideCodec
  imports SpecEncode
begin

text \<open>
  The fields of the side data of a frame discharge the contract \<open>field_codec\<close>: the long-term
  postfilter, the noise shaping and the quantisation. With those of the bandwidth and of the
  temporal noise shaping, a frame's side data is a sequence of such fields.
\<close>

lemma uint_of_bool_less: "uint (of_bool b :: u32) < 2"
  by (cases b) simp_all

lemma mux_div_mod: "0 \<le> (a :: int) \<Longrightarrow> a < s \<Longrightarrow> (h * s + a) div s = h \<and> (h * s + a) mod s = a"
  by (simp add: div_add1_eq)

lemma div_mod_2: "0 \<le> (c :: int) \<Longrightarrow> c < 2 \<Longrightarrow> (2 * h + c) div 2 = h \<and> (2 * h + c) mod 2 = c"
  using mux_div_mod [of c 2 h] by (simp add: mult.commute)

lemma gain_split: "push_bit 1 (drop_bit 1 g) + (g AND 1) = (g :: int)"
  by (simp add: push_bit_eq_mult drop_bit_eq_div and_one_eq)

section \<open>Long-term postfilter\<close>

definition ltpf_ops :: "lc3_ltpf_data \<Rightarrow> bit_op list" where
  "ltpf_ops d = [Bits (of_bool (ltpf_active d)) 1, Bits (word_of_int (ltpf_pitch_index d)) 9]"

definition ltpf_valid :: "lc3_ltpf_data \<Rightarrow> bool" where
  "ltpf_valid d \<longleftrightarrow> 0 \<le> ltpf_pitch_index d \<and> ltpf_pitch_index d < 512"

interpretation ltpf: field_codec
  "\<lambda>d bits. Some (lc3_ltpf_put_data bits d)" "\<lambda>bits. Some (lc3_ltpf_get_data bits)"
  ltpf_ops "\<lambda>d. d" ltpf_valid
proof (unfold_locales, goal_cases)
  case (1 d bits)
  then show ?case by (simp add: ltpf_ops_def lc3_ltpf_put_data_def lc3_put_bit_def)
next
  case (2 d)
  then show ?case using uint_of_bool_less by (simp add: ltpf_ops_def ltpf_valid_def uint_word32)
next
  case (3 d bits bits')
  then obtain b1 where "lc3_get_bits bits 1 = (of_bool (ltpf_active d), b1)"
      "lc3_get_bits b1 9 = (word_of_int (ltpf_pitch_index d), bits')"
    unfolding ltpf_ops_def rd_ops_Bits by auto
  with 3(1) show ?case by (simp add: lc3_ltpf_get_data_def lc3_get_bit_def ltpf_valid_def uint_word32)
qed

section \<open>Quantisation\<close>

definition spec_side_ops :: "lc3_dt \<Rightarrow> lc3_srate \<Rightarrow> lc3_spec_side \<Rightarrow> bit_op list" where
  "spec_side_ops dt sr side =
     [Bits (word_of_int (LC3_MAX (drop_bit 1 (side_nq side)) 1 - 1)) (nat (get_nbits_nq dt sr)),
      Bits (of_bool (side_lsb_mode side)) 1, Bits (word_of_int (side_g_idx side)) 8]"

definition spec_side_valid :: "lc3_dt \<Rightarrow> lc3_srate \<Rightarrow> lc3_spec_side \<Rightarrow> bool" where
  "spec_side_valid dt sr side \<longleftrightarrow> valid_dt dt \<and> valid_sr sr \<and> even (side_nq side) \<and> 0 \<le> side_nq side \<and>
     side_nq side \<le> LC3_NE dt (sr_int sr) \<and> 0 \<le> side_g_idx side \<and> side_g_idx side < 256"

text \<open>A reader sees two coefficients at least.\<close>

definition spec_side_view :: "lc3_spec_side \<Rightarrow> lc3_spec_side" where
  "spec_side_view side = side\<lparr>side_nq := max 2 (side_nq side)\<rparr>"

lemma nbits_nq_enough:
  assumes "valid_dt dt" "valid_sr sr"
  shows "0 \<le> get_nbits_nq dt sr" "get_nbits_nq dt sr \<le> 8" "LC3_NE dt (sr_int sr) \<le> 2 * 2 ^ nat (get_nbits_nq dt sr)"
    "60 \<le> LC3_NE dt (sr_int sr)" "LC3_NE dt (sr_int sr) \<le> 400"
  using assms by (elim valid_dtE valid_srE; simp add: get_nbits_nq_def LC3_NE_def Let_def)+

interpretation spec_side: field_codec
  "\<lambda>side bits. Some (lc3_spec_put_side bits dt sr side)"
  "\<lambda>bits. case lc3_spec_get_side bits dt sr of (ret, side, bits) \<Rightarrow> Some ((ret, side), bits)"
  "spec_side_ops dt sr" "\<lambda>side. (0, spec_side_view side)" "spec_side_valid dt sr" for dt sr
proof (unfold_locales, goal_cases)
  case (1 side bits)
  then show ?case
    by (simp add: spec_side_ops_def lc3_spec_put_side_def Let_def nbits_nq_enough spec_side_valid_def)
next
  case (2 side)
  then have v: "valid_dt dt" "valid_sr sr" "0 \<le> side_nq side" "side_nq side \<le> LC3_NE dt (sr_int sr)"
    "0 \<le> side_g_idx side" "side_g_idx side < 256" by (simp_all add: spec_side_valid_def)
  note n = nbits_nq_enough [OF v(1,2)]
  define q where "q = LC3_MAX (drop_bit 1 (side_nq side)) 1 - 1"
  have q: "0 \<le> q" "2 * q + 2 \<le> LC3_NE dt (sr_int sr)"
    using v(3,4) n(4) by (auto simp: q_def drop_bit_eq_div max_def)
  then have q2: "q < 2 ^ nat (get_nbits_nq dt sr)" using n(3) by linarith
  have "uint (word_of_int q :: u32) = q" using q n(5) by (intro uint_word32) simp_all
  then show ?case
    unfolding spec_side_ops_def q_def [symmetric]
    using q2 n(1,2) v(5,6) uint_of_bool_less by (simp add: uint_word32 nat_le_iff)
next
  case (3 side bits bits')
  then have v: "valid_dt dt" "valid_sr sr" "even (side_nq side)" "0 \<le> side_nq side" "side_nq side \<le> LC3_NE dt (sr_int sr)"
    "0 \<le> side_g_idx side" "side_g_idx side < 256" by (simp_all add: spec_side_valid_def)
  note n = nbits_nq_enough [OF v(1,2)]
  define q where "q = LC3_MAX (drop_bit 1 (side_nq side)) 1 - 1"
  have q: "0 \<le> q" "2 * q + 2 = max 2 (side_nq side)" "2 * q + 2 \<le> LC3_NE dt (sr_int sr)"
    using v(3-5) n(4) by (auto simp: q_def drop_bit_eq_div max_def elim!: evenE)
  obtain b1 b2 where r: "lc3_get_bits bits (get_nbits_nq dt sr) = (word_of_int q, b1)"
      "lc3_get_bits b1 1 = (of_bool (side_lsb_mode side), b2)"
      "lc3_get_bits b2 8 = (word_of_int (side_g_idx side), bits')"
    using 3(2) n(1) unfolding spec_side_ops_def q_def [symmetric] rd_ops_Bits by auto
  have "push_bit 1 (word_of_int q + 1 :: u32) = word_of_int (2 * q + 2)"
    by (simp add: push_bit_eq_mult)
  moreover have "uint (word_of_int (2 * q + 2) :: u32) = 2 * q + 2"
    using q n(5) by (intro uint_word32) simp_all
  ultimately have "uint (push_bit 1 (word_of_int q + 1 :: u32)) = max 2 (side_nq side)" using q(2) by simp
  then show ?case
    using r q(2,3) v by (simp add: lc3_spec_get_side_def Let_def lc3_get_bit_def spec_side_view_def uint_word32)
qed

section \<open>Noise shaping\<close>

definition sns_size_a :: "int \<Rightarrow> int" where
  "sns_size_a shape = [2390004, 2390004, 15158272, 774912] ! nat shape"

definition sns_gains :: "int \<Rightarrow> int" where
  "sns_gains shape = [2, 4, 4, 8] ! nat shape"

definition sns_valid :: "lc3_sns_data \<Rightarrow> bool" where
  "sns_valid d \<longleftrightarrow> 0 \<le> sns_lfcb d \<and> sns_lfcb d < 32 \<and> 0 \<le> sns_hfcb d \<and> sns_hfcb d < 32 \<and>
     0 \<le> sns_shape d \<and> sns_shape d < 4 \<and> 0 \<le> sns_gain d \<and> sns_gain d < sns_gains (sns_shape d) \<and>
     0 \<le> sns_idx_a d \<and> sns_idx_a d < sns_size_a (sns_shape d) \<and>
     (sns_shape d = 0 \<longrightarrow> 0 \<le> sns_idx_b d \<and> sns_idx_b d < 6)"

text \<open>The second vector is that of the shape 0.\<close>

definition sns_view :: "lc3_sns_data \<Rightarrow> lc3_sns_data" where
  "sns_view d = (if sns_shape d = 0 then d else d\<lparr>sns_idx_b := 0, sns_ls_b := False\<rparr>)"

text \<open>The width of the gain, its high bits, the width of the code of the vectors and this code.\<close>

definition sns_code :: "lc3_sns_data \<Rightarrow> int \<times> int \<times> int \<times> int" where
  "sns_code d =
     [(1, sns_gain d, 25, (2 * (sns_idx_b d + 1) + of_bool (sns_ls_b d)) * 2390004 + sns_idx_a d),
      (1, drop_bit 1 (sns_gain d), 25, (sns_gain d AND 1) * 2390004 + sns_idx_a d),
      (2, sns_gain d, 24, sns_idx_a d),
      (2, drop_bit 1 (sns_gain d), 24, 15158272 + 2 * sns_idx_a d + (sns_gain d AND 1))] ! nat (sns_shape d)"

definition sns_ops :: "lc3_sns_data \<Rightarrow> bit_op list" where
  "sns_ops d = (case sns_code d of (wg, g, wm, mux) \<Rightarrow>
     [Bits (word_of_int (sns_lfcb d)) 5, Bits (word_of_int (sns_hfcb d)) 5,
      Bits (word_of_int (drop_bit 1 (sns_shape d))) 1, Bits (word_of_int g) (nat wg),
      Bits (of_bool (sns_ls_a d)) 1, Bits (word_of_int mux) (nat wm)])"

lemma sns_shape_cases:
  assumes "sns_valid d"
  obtains "sns_shape d = 0" | "sns_shape d = 1" | "sns_shape d = 2" | "sns_shape d = 3"
proof -
  have "0 \<le> sns_shape d" "sns_shape d < 4" using assms by (simp_all add: sns_valid_def)
  then have "sns_shape d = 0 \<or> sns_shape d = 1 \<or> sns_shape d = 2 \<or> sns_shape d = 3" by linarith
  then show thesis using that by blast
qed

lemma sns_put_ops:
  assumes "sns_valid d"
  shows "Some (lc3_sns_put_data bits d) = wr_ops (sns_ops d) bits"
  using assms
  by (cases rule: sns_shape_cases)
     (simp_all add: lc3_sns_put_data_def sns_ops_def sns_code_def Let_def lc3_put_bit_def)

lemma half_bounds: "0 \<le> (g :: int) \<Longrightarrow> g < 2 * n \<Longrightarrow> 0 \<le> drop_bit 1 g \<and> drop_bit 1 g < n"
  by (auto simp: drop_bit_eq_div)

lemma low_bit_bounds: "0 \<le> (g :: int) AND 1" "(g :: int) AND 1 \<le> 1"
  by (simp_all add: and_one_eq)

lemma sns_code_bounds:
  assumes v: "sns_valid d" and c: "sns_code d = (wg, g, wm, mux)"
  shows "wg = 1 + drop_bit 1 (sns_shape d) \<and> wm = 25 - drop_bit 1 (sns_shape d) \<and>
    (drop_bit 1 (sns_shape d) = 0 \<or> drop_bit 1 (sns_shape d) = 1) \<and>
    0 \<le> g \<and> g < 2 ^ nat wg \<and> 0 \<le> mux \<and> mux < 2 ^ nat wm"
proof -
  note low = low_bit_bounds [of "sns_gain d"]
  have ls: "(0::int) \<le> of_bool (sns_ls_b d)" "of_bool (sns_ls_b d) \<le> (1::int)" by simp_all
  have g: "0 \<le> sns_gain d" "sns_gain d < sns_gains (sns_shape d)" "0 \<le> sns_idx_a d"
    "sns_idx_a d < sns_size_a (sns_shape d)" using v by (simp_all add: sns_valid_def)
  show ?thesis using v
  proof (cases rule: sns_shape_cases)
    case 1
    then have "0 \<le> sns_idx_b d" "sns_idx_b d < 6" using v by (simp_all add: sns_valid_def)
    then show ?thesis using c g ls 1 unfolding sns_code_def by (auto simp: sns_gains_def sns_size_a_def)
  next
    case 2
    then have "0 \<le> drop_bit 1 (sns_gain d) \<and> drop_bit 1 (sns_gain d) < 2" using g half_bounds [of "sns_gain d" 2] by (simp add: sns_gains_def)
    moreover have "sns_idx_a d < 2390004" using g 2 by (simp add: sns_size_a_def)
    then have "0 \<le> (sns_gain d AND 1) * 2390004 + sns_idx_a d" "(sns_gain d AND 1) * 2390004 + sns_idx_a d < 33554432"
      using low g(3) by linarith+
    ultimately show ?thesis using c 2 unfolding sns_code_def by auto
  next
    case 3
    then show ?thesis using c g unfolding sns_code_def by (auto simp: sns_gains_def sns_size_a_def drop_bit_eq_div)
  next
    case 4
    then have "0 \<le> drop_bit 1 (sns_gain d) \<and> drop_bit 1 (sns_gain d) < 4" using g half_bounds [of "sns_gain d" 4] by (simp add: sns_gains_def)
    moreover have "sns_idx_a d < 774912" using g 4 by (simp add: sns_size_a_def)
    then have "0 \<le> 15158272 + 2 * sns_idx_a d + (sns_gain d AND 1)" "15158272 + 2 * sns_idx_a d + (sns_gain d AND 1) < 16777216"
      using low g(3) by linarith+
    ultimately show ?thesis using c 4 unfolding sns_code_def by auto
  qed
qed

text \<open>What is written is a word.\<close>

lemma sns_code_words:
  assumes v: "sns_valid d" and c: "sns_code d = (wg, g, wm, mux)"
  shows "uint (word_of_int g :: u32) = g" "uint (word_of_int mux :: u32) = mux"
    "uint (word_of_int (drop_bit 1 (sns_shape d)) :: u32) = drop_bit 1 (sns_shape d)"
    "uint (word_of_int (sns_lfcb d) :: u32) = sns_lfcb d" "uint (word_of_int (sns_hfcb d) :: u32) = sns_hfcb d"
    "0 \<le> wg" "wg \<le> 2" "0 \<le> wm" "wm \<le> 25" "uint (word_of_int (drop_bit 1 (sns_shape d)) :: u32) < 2"
proof -
  note b = sns_code_bounds [OF v c]
  have "0 \<le> sns_shape d" using v by (simp add: sns_valid_def)
  then show w: "0 \<le> wg" "wg \<le> 2" "0 \<le> wm" "wm \<le> 25" using b by auto
  have p: "(2::int) ^ nat wg \<le> 2 ^ 2" "(2::int) ^ nat wm \<le> 2 ^ 25"
    by - (rule power_increasing; use w in simp)+
  have l: "0 \<le> sns_lfcb d" "sns_lfcb d < 32" "0 \<le> sns_hfcb d" "sns_hfcb d < 32" using v by (simp_all add: sns_valid_def)
  have m: "0 \<le> drop_bit 1 (sns_shape d)" "drop_bit 1 (sns_shape d) \<le> 1" using b by linarith+
  have gm: "0 \<le> g" "g < 4" "0 \<le> mux" "mux < 33554432" using b p by auto
  show "uint (word_of_int g :: u32) = g" by (rule uint_word32; use gm in linarith)
  show "uint (word_of_int mux :: u32) = mux" by (rule uint_word32; use gm in linarith)
  show "uint (word_of_int (sns_lfcb d) :: u32) = sns_lfcb d" by (rule uint_word32; use l in simp)
  show "uint (word_of_int (sns_hfcb d) :: u32) = sns_hfcb d" by (rule uint_word32; use l in simp)
  show u: "uint (word_of_int (drop_bit 1 (sns_shape d)) :: u32) = drop_bit 1 (sns_shape d)"
    by (rule uint_word32; use m in linarith)
  show "uint (word_of_int (drop_bit 1 (sns_shape d)) :: u32) < 2" unfolding u using m by linarith
qed

lemma sns_ops_ok:
  assumes v: "sns_valid d"
  shows "list_all op_ok (sns_ops d)"
proof -
  obtain wg g wm mux where c: "sns_code d = (wg, g, wm, mux)" by (cases "sns_code d")
  note b = sns_code_bounds [OF v c] and u = sns_code_words [OF v c]
  have l: "sns_lfcb d < 32" "sns_hfcb d < 32" using v by (simp_all add: sns_valid_def)
  show ?thesis
    unfolding sns_ops_def c prod.case list.pred_inject op_ok.simps u(1,2,4,5)
    using b u(10) l uint_of_bool_less by (elim conjE disjE) (simp_all add: nat_le_iff)
qed

lemma sns_get_ops:
  assumes v: "sns_valid d" and ops: "rd_ops (sns_ops d) bits = Some bits'"
  shows "lc3_sns_get_data bits = (0, sns_view d, bits')"
proof -
  obtain wg g wm mux where c: "sns_code d = (wg, g, wm, mux)" by (cases "sns_code d")
  note b = sns_code_bounds [OF v c] and u = sns_code_words [OF v c]
  have w: "int (nat wg) = 1 + drop_bit 1 (sns_shape d)" "int (nat wm) = 25 - drop_bit 1 (sns_shape d)"
    using b u(6,8) by auto
  obtain b1 b2 b3 b4 b5 where r: "lc3_get_bits bits (int 5) = (word_of_int (sns_lfcb d), b1)"
      "lc3_get_bits b1 (int 5) = (word_of_int (sns_hfcb d), b2)"
      "lc3_get_bits b2 (int 1) = (word_of_int (drop_bit 1 (sns_shape d)), b3)"
      "lc3_get_bits b3 (int (nat wg)) = (word_of_int g, b4)"
      "lc3_get_bits b4 (int 1) = (of_bool (sns_ls_a d), b5)"
      "lc3_get_bits b5 (int (nat wm)) = (word_of_int mux, bits')"
    using ops unfolding sns_ops_def c prod.case rd_ops_Bits rd_ops.simps(1) option.inject by blast
  note r = r [unfolded w of_nat_numeral of_nat_1, folded lc3_get_bit_def]
  have a: "0 \<le> sns_idx_a d" "sns_idx_a d < sns_size_a (sns_shape d)" using v by (simp_all add: sns_valid_def)
  have l: "0 \<le> (of_bool (sns_ls_b d) :: int)" "(of_bool (sns_ls_b d) :: int) < 2" by simp_all
  have c1: "0 \<le> sns_gain d AND 1" "sns_gain d AND 1 < 2" by (simp_all add: and_one_eq)
  note data = lc3_sns_get_data_def r Let_def prod.case u
  from v show ?thesis
  proof (cases rule: sns_shape_cases)
    case 1
    define h where "h = 2 * (sns_idx_b d + 1) + of_bool (sns_ls_b d)"
    have m: "mux = h * 2390004 + sns_idx_a d" "g = sns_gain d" using c 1 by (simp_all add: sns_code_def h_def)
    have a': "sns_idx_a d < 2390004" using a 1 by (simp add: sns_size_a_def)
    have ib: "0 \<le> sns_idx_b d" "sns_idx_b d < 6" using v 1 by (simp_all add: sns_valid_def)
    have h: "2 \<le> h" "h < 14" using ib l by (simp_all add: h_def)
    have mm: "mux div 2390004 = h" "mux mod 2390004 = sns_idx_a d"
      using mux_div_mod [OF a(1) a'] m(1) by simp_all
    have lt: "\<not> mux \<ge> 2390004 * 14" using m(1) a' h by linarith
    have hd: "(h - 2) div 2 = sns_idx_b d" "(h - 2) mod 2 = of_bool (sns_ls_b d)"
      using div_mod_2 [OF l, of "sns_idx_b d"] by (simp_all add: h_def algebra_simps)
    show ?thesis unfolding data using 1 lt h hd mm m(2)
      by (simp add: sns_view_def)
  next
    case 2
    have m: "mux = (sns_gain d AND 1) * 2390004 + sns_idx_a d" "g = drop_bit 1 (sns_gain d)" using c 2 by (simp_all add: sns_code_def)
    have a': "sns_idx_a d < 2390004" using a 2 by (simp add: sns_size_a_def)
    have mm: "mux div 2390004 = sns_gain d AND 1" "mux mod 2390004 = sns_idx_a d"
      using mux_div_mod [OF a(1) a'] m(1) by simp_all
    have lt: "\<not> mux \<ge> 2390004 * 14" using m(1) a' c1 by linarith
    show ?thesis unfolding data using 2 lt mm m(2) c1 gain_split [of "sns_gain d"]
      by (simp add: sns_view_def drop_bit_eq_div)
  next
    case 3
    have m: "mux = sns_idx_a d" "g = sns_gain d" using c 3 by (simp_all add: sns_code_def)
    have "sns_idx_a d < 15158272" using a 3 by (simp add: sns_size_a_def)
    then show ?thesis unfolding data using 3 m by (simp add: sns_view_def drop_bit_eq_div)
  next
    case 4
    have m: "mux = 15158272 + (2 * sns_idx_a d + (sns_gain d AND 1))" "g = drop_bit 1 (sns_gain d)" using c 4 by (simp_all add: sns_code_def)
    have a': "sns_idx_a d < 774912" using a 4 by (simp add: sns_size_a_def)
    have mm: "(mux - 15158272) div 2 = sns_idx_a d" "(mux - 15158272) mod 2 = sns_gain d AND 1"
      using div_mod_2 [OF c1, of "sns_idx_a d"] m(1) by simp_all
    have lt: "\<not> mux \<ge> 15158272 + 1549824" "15158272 \<le> mux" using m(1) a' a(1) c1 by linarith+
    show ?thesis unfolding data using 4 lt mm m(2) gain_split [of "sns_gain d"]
      by (simp add: sns_view_def drop_bit_eq_div)
  qed
qed

interpretation sns: field_codec
  "\<lambda>d bits. Some (lc3_sns_put_data bits d)"
  "\<lambda>bits. case lc3_sns_get_data bits of (ret, d, bits) \<Rightarrow> Some ((ret, d), bits)"
  sns_ops "\<lambda>d. (0, sns_view d)" sns_valid
  by unfold_locales (simp_all add: sns_put_ops sns_ops_ok sns_get_ops)

end
