(* ===== verification/SnsEnum.thy ===== *)
theory SnsEnum
  imports SideCodec
begin

text \<open>
  The enumeration of the pulse vectors, \<open>enum_mvpq\<close> and \<open>deenum_mvpq\<close> of \<^verbatim>\<open>sns.c\<close>: the
  indices below the number of vectors, and the sign of the first pulse, are in bijection with
  the vectors of \<open>n\<close> integers whose absolute values sum to \<open>k\<close>.
\<close>

section \<open>The table\<close>

abbreviation mpvq_off :: "nat \<Rightarrow> nat \<Rightarrow> int" where
  "mpvq_off i k \<equiv> lc3_sns_mpvq_offsets ! i ! k"

text \<open>The number of vectors of \<open>n\<close> values and \<open>k\<close> pulses, up to the sign.\<close>

definition mpvq_size :: "nat \<Rightarrow> nat \<Rightarrow> int" where
  "mpvq_size n k = sum_list (map (\<lambda>i. mpvq_off i k) [0 ..< n])"

lemma mpvq_size_simps: "mpvq_size 0 k = 0" "mpvq_size (Suc n) k = mpvq_size n k + mpvq_off n k"
  by (simp_all add: mpvq_size_def)

lemma mpvq_table:
  "list_all (\<lambda>i. mpvq_off i 0 = 0 \<and> mpvq_off i 1 = 1 \<and>
     list_all (\<lambda>k. mpvq_off i (Suc k) = mpvq_off i k + 2 * mpvq_size i k) [1 ..< 10]) [0 ..< 16]"
  by code_simp

lemma mpvq_off_rec:
  "i < 16 \<Longrightarrow> mpvq_off i 0 = 0" "i < 16 \<Longrightarrow> mpvq_off i (Suc 0) = 1"
  "i < 16 \<Longrightarrow> 1 \<le> k \<Longrightarrow> k < 10 \<Longrightarrow> mpvq_off i (Suc k) = mpvq_off i k + 2 * mpvq_size i k"
  using mpvq_table by (auto simp: list_all_iff)

lemma mpvq_size_nonneg: "n \<le> 16 \<Longrightarrow> k \<le> 10 \<Longrightarrow> 0 \<le> mpvq_size n k"
  and mpvq_off_bounds: "n < 16 \<Longrightarrow> 1 \<le> k \<Longrightarrow> k \<le> 10 \<Longrightarrow> 1 \<le> mpvq_off n k"
proof -
  have "list_all (\<lambda>n. list_all (\<lambda>k. 0 \<le> mpvq_size n k) [0 ..< 11]) [0 ..< 17]"
    "list_all (\<lambda>n. list_all (\<lambda>k. 1 \<le> mpvq_off n k) [1 ..< 11]) [0 ..< 16]" by code_simp+
  then show "n \<le> 16 \<Longrightarrow> k \<le> 10 \<Longrightarrow> 0 \<le> mpvq_size n k"
    "n < 16 \<Longrightarrow> 1 \<le> k \<Longrightarrow> k \<le> 10 \<Longrightarrow> 1 \<le> mpvq_off n k"
    by (auto simp: list_all_iff)
qed

lemma mpvq_off_step: "i < 16 \<Longrightarrow> k < 10 \<Longrightarrow> mpvq_off i k \<le> mpvq_off i (Suc k)"
  using mpvq_off_rec(1,2) [of i] mpvq_off_rec(3) [of i k] mpvq_size_nonneg [of i k] by (cases "k = 0") auto

lemma mpvq_off_mono:
  assumes "i < 16" "k \<le> l" "l \<le> 10"
  shows "mpvq_off i k \<le> mpvq_off i l"
  using assms(2,3)
proof (induction l rule: dec_induct)
  case (step l)
  then show ?case using mpvq_off_step [OF assms(1), of l] by simp
qed simp

lemma mpvq_size_1: "1 \<le> k \<Longrightarrow> k \<le> 10 \<Longrightarrow> mpvq_size 1 k = 1"
proof -
  have "list_all (\<lambda>k. mpvq_off 0 k = 1) [1 ..< 11]" by code_simp
  then show "1 \<le> k \<Longrightarrow> k \<le> 10 \<Longrightarrow> mpvq_size 1 k = 1"
    by (simp add: list_all_iff mpvq_size_def)
qed

section \<open>The index, from the first value\<close>

definition pulses :: "int list \<Rightarrow> nat" where
  "pulses c = sum_list (map (\<lambda>x. nat \<bar>x\<bar>) c)"

lemma pulses_simps [simp]: "pulses [] = 0" "pulses (x # c) = nat \<bar>x\<bar> + pulses c" "pulses (replicate n 0) = 0"
  by (simp_all add: pulses_def sum_list_replicate)

lemma pulses_append: "pulses (b @ c) = pulses b + pulses c" and pulses_rev: "pulses (rev c) = pulses c"
  by (simp_all add: pulses_def rev_map [symmetric])

lemma pulses_0: "pulses c = 0 \<longleftrightarrow> c = replicate (length c) 0"
  by (induction c) auto

definition mpvq_push :: "int \<Rightarrow> nat \<Rightarrow> nat \<Rightarrow> int \<times> bool \<Rightarrow> int \<times> bool" where
  "mpvq_push x i k st = (case st of (idx, ls) \<Rightarrow>
     if x \<noteq> 0 then (2 * idx + of_bool ls + mpvq_off i k, x < 0) else (idx + mpvq_off i k, ls))"

fun mpvq_code :: "int list \<Rightarrow> (int \<times> bool) option" where
  "mpvq_code [] = None"
| "mpvq_code (x # c) = (case mpvq_code c of
     None \<Rightarrow> if x = 0 then None else Some (0, x < 0)
   | Some st \<Rightarrow> Some (mpvq_push x (length c) (pulses c) st))"

lemma mpvq_code_None: "mpvq_code c = None \<longleftrightarrow> pulses c = 0"
  by (induction c) (auto split: option.splits)

lemma push_or: "push_bit 1 (idx :: int) OR of_bool b = 2 * idx + of_bool b"
proof (cases b)
  case True
  have "set_bit 0 (push_bit 1 idx) = push_bit 1 idx OR 1" by (simp add: set_bit_eq_or)
  then show ?thesis using True by (simp add: set_bit_0 push_bit_eq_mult)
qed (simp add: push_bit_eq_mult)

lemma double_or_1: "idx * 2 OR 1 = 2 * (idx :: int) + 1"
  using push_or [of idx True] by (simp add: push_bit_eq_mult)

lemma enum_scan_snoc:
  "enum_scan (c @ [x]) i j st = mpvq_push x (i + length c) (nat (j + int (pulses c))) (enum_scan c i j st)"
proof (induction c arbitrary: i j st)
  case Nil
  then show ?case by (cases st) (auto simp: mpvq_push_def double_or_1)
next
  case (Cons y c)
  have "j + (\<bar>y\<bar> + int (pulses c)) = j + \<bar>y\<bar> + int (pulses c)" by simp
  then show ?case using Cons by (cases st) (simp add: algebra_simps)
qed

lemma enum_first_snoc:
  "enum_first (c @ [x]) i = (case enum_first c i of
     None \<Rightarrow> if x = 0 then None else Some (0, x < 0)
   | Some st \<Rightarrow> Some (mpvq_push x (i + length c) (pulses c) st))"
proof (induction c arbitrary: i)
  case (Cons y c)
  then show ?case by (auto simp: enum_scan_snoc nat_add_distrib split: option.split)
qed simp

lemma enum_mvpq_code: "enum_mvpq c = mpvq_code c"
proof -
  have "enum_first (rev c) 0 = mpvq_code c"
  proof (induction c)
    case (Cons x c)
    then show ?case by (auto simp: enum_first_snoc pulses_rev split: option.split)
  qed simp
  then show ?thesis by (simp add: enum_mvpq_def)
qed

section \<open>The index is below the number of vectors\<close>

lemma mpvq_push_bounds:
  assumes "n < 16" "1 \<le> k" "k + nat \<bar>x\<bar> \<le> 10" "0 \<le> idx" "idx < mpvq_size n k"
    and st: "mpvq_push x n k (idx, ls) = (idx', ls')"
  shows "mpvq_off n k \<le> idx'" "idx' < mpvq_size (Suc n) (k + nat \<bar>x\<bar>)" "x \<noteq> 0 \<Longrightarrow> idx' < mpvq_off n (Suc k)"
proof -
  show 1: "mpvq_off n k \<le> idx'" using assms(4) st by (auto simp: mpvq_push_def split: if_splits)
  show 2: "idx' < mpvq_off n (Suc k)" if x: "x \<noteq> 0"
  proof -
    have "k < 10" using x assms(3) by auto
    then have r: "mpvq_off n (Suc k) = mpvq_off n k + 2 * mpvq_size n k" using mpvq_off_rec(3) assms(1,2) by simp
    have "idx' = 2 * idx + of_bool ls + mpvq_off n k" using st x by (simp add: mpvq_push_def)
    then show ?thesis using assms(5) unfolding r by (cases ls) simp_all
  qed
  show "idx' < mpvq_size (Suc n) (k + nat \<bar>x\<bar>)"
  proof (cases "x = 0")
    case True
    then show ?thesis using assms(5) st by (auto simp: mpvq_push_def mpvq_size_simps)
  next
    case False
    then have "Suc k \<le> k + nat \<bar>x\<bar>" by linarith
    from mpvq_off_mono [OF assms(1) this assms(3)] 2 [OF False] mpvq_size_nonneg [of n "k + nat \<bar>x\<bar>"] assms(1,3)
    show ?thesis by (simp add: mpvq_size_simps)
  qed
qed

lemma mpvq_code_bounds:
  "length c \<le> 16 \<Longrightarrow> pulses c \<le> 10 \<Longrightarrow> mpvq_code c = Some (idx, ls) \<Longrightarrow>
   0 \<le> idx \<and> idx < mpvq_size (length c) (pulses c)"
proof (induction c arbitrary: idx ls)
  case (Cons x c)
  show ?case
  proof (cases "mpvq_code c")
    case None
    then have "pulses c = 0" "x \<noteq> 0" "idx = 0" using Cons.prems(3) mpvq_code_None [of c] by (auto split: if_splits)
    moreover have "1 \<le> mpvq_off (length c) (nat \<bar>x\<bar>)"
      using Cons.prems(1,2) calculation by (intro mpvq_off_bounds) auto
    moreover have "0 \<le> mpvq_size (length c) (nat \<bar>x\<bar>)" using Cons.prems(1,2) calculation by (intro mpvq_size_nonneg) auto
    ultimately show ?thesis by (simp add: mpvq_size_simps)
  next
    case (Some st)
    obtain i l where st: "st = (i, l)" by (cases st)
    have IH: "0 \<le> i" "i < mpvq_size (length c) (pulses c)" using Cons Some st by auto
    have k: "1 \<le> pulses c" using Some mpvq_code_None [of c] by (cases "pulses c") auto
    have p: "mpvq_push x (length c) (pulses c) (i, l) = (idx, ls)" using Cons.prems(3) Some st by simp
    have b: "length c < 16" "pulses c + nat \<bar>x\<bar> \<le> 10" using Cons.prems(1,2) by auto
    from mpvq_push_bounds [OF b(1) k b(2) IH p] mpvq_off_bounds [OF b(1) k] b(2)
    show ?thesis by (simp add: add.commute)
  qed
qed simp

section \<open>The enumeration is a bijection\<close>

lemma deenum_left_eq:
  assumes "i < 16" "k \<le> K" "K \<le> 10" "mpvq_off i k \<le> idx" "k < K \<Longrightarrow> idx < mpvq_off i (Suc k)"
  shows "deenum_left i idx K = k"
  using assms(2,3,5)
proof (induction K)
  case (Suc K)
  show ?case
  proof (cases "k = Suc K")
    case True
    then show ?thesis using assms(4) by simp
  next
    case False
    then have "Suc k \<le> Suc K" using Suc.prems(1) by simp
    from mpvq_off_mono [OF assms(1) this Suc.prems(2)] Suc.prems(3) False Suc.prems(1)
    have "idx < mpvq_off i (Suc K)" by simp
    then show ?thesis using Suc False by simp
  qed
qed simp

lemma deenum_left_bounds:
  assumes "i < 16" "K \<le> 10" "0 \<le> idx"
  shows "deenum_left i idx K \<le> K" "mpvq_off i (deenum_left i idx K) \<le> idx"
    "deenum_left i idx K < K \<Longrightarrow> idx < mpvq_off i (Suc (deenum_left i idx K))"
  using assms(2) mpvq_off_rec(1) [OF assms(1)] assms(3)
  by (induction K) (auto simp: less_Suc_eq_le le_less)

lemma deenum_push:
  assumes "n < 16" "1 \<le> k" "k + nat \<bar>x\<bar> \<le> 10" "0 \<le> idx" "idx < mpvq_size n k"
    and st: "mpvq_push x n k (idx, ls) = (idx', ls')"
  shows "deenum_mvpq idx' ls' (nat \<bar>x\<bar> + k) (Suc n) = x # deenum_mvpq idx ls k n"
proof -
  note b = mpvq_push_bounds [OF assms]
  have "1 \<le> mpvq_off n k" using assms(1-3) by (intro mpvq_off_bounds) auto
  then have nz: "idx' \<noteq> 0" using b(1) by linarith
  have left: "deenum_left n idx' (nat \<bar>x\<bar> + k) = k"
    by (rule deenum_left_eq [OF assms(1) _ _ b(1)]) (use assms(3) b(3) in auto)
  have o: "drop_bit 1 (2 * idx + of_bool ls) = idx" "odd (2 * idx + of_bool ls) = ls" by (cases ls; simp add: drop_bit_eq_div)+
  show ?thesis
  proof (cases "x = 0")
    case True
    then show ?thesis using st nz left by (auto simp: mpvq_push_def)
  next
    case False
    then have "idx' - mpvq_off n k = 2 * idx + of_bool ls" "ls' = (x < 0)" using st by (auto simp: mpvq_push_def)
    then show ?thesis using False nz left o by (simp add: Let_def del: drop_bit_of_Suc_0)
  qed
qed

lemma deenum_code:
  "length c \<le> 16 \<Longrightarrow> pulses c \<le> 10 \<Longrightarrow> mpvq_code c = Some (idx, ls) \<Longrightarrow>
   deenum_mvpq idx ls (pulses c) (length c) = c"
proof (induction c arbitrary: idx ls)
  case (Cons x c)
  show ?case
  proof (cases "mpvq_code c")
    case None
    then have "pulses c = 0" "x \<noteq> 0" "idx = 0" "ls = (x < 0)"
      using Cons.prems(3) mpvq_code_None [of c] by (auto split: if_splits)
    then show ?thesis using pulses_0 [of c] by auto
  next
    case (Some st)
    obtain i l where st: "st = (i, l)" by (cases st)
    have k: "1 \<le> pulses c" using Some mpvq_code_None [of c] by (cases "pulses c") auto
    have b: "length c < 16" "pulses c + nat \<bar>x\<bar> \<le> 10" using Cons.prems(1,2) by auto
    have IH: "deenum_mvpq i l (pulses c) (length c) = c" "0 \<le> i" "i < mpvq_size (length c) (pulses c)"
      using Cons.IH [of i l] mpvq_code_bounds [of c i l] Cons.prems(1,2) Some st by auto
    have p: "mpvq_push x (length c) (pulses c) (i, l) = (idx, ls)" using Cons.prems(3) Some st by simp
    from deenum_push [OF b(1) k b(2) IH(2,3) p] IH(1) show ?thesis by simp
  qed
qed simp

lemma code_deenum:
  "n \<le> 16 \<Longrightarrow> 1 \<le> K \<Longrightarrow> K \<le> 10 \<Longrightarrow> 0 \<le> idx \<Longrightarrow> idx < mpvq_size n K \<Longrightarrow>
   length (deenum_mvpq idx ls K n) = n \<and> pulses (deenum_mvpq idx ls K n) = K \<and>
   mpvq_code (deenum_mvpq idx ls K n) = Some (idx, ls)"
proof (induction n arbitrary: K idx ls)
  case (Suc n)
  show ?case
  proof (cases "idx = 0")
    case True
    have "mpvq_code (replicate n 0) = None" by (simp add: mpvq_code_None)
    then show ?thesis using True Suc.prems(2) by auto
  next
    case False
    then have i1: "1 \<le> idx" using Suc.prems(4) by simp
    have n: "n < 16" "n \<noteq> 0" using Suc.prems(1-3,5) False mpvq_size_1 [of K] i1 by (auto intro!: Nat.gr0I)
    define k where "k = deenum_left n idx K"
    have l: "k \<le> K" "mpvq_off n k \<le> idx" "k < K \<Longrightarrow> idx < mpvq_off n (Suc k)"
      unfolding k_def by (rule deenum_left_bounds [OF n(1) Suc.prems(3,4)]; assumption)+
    have "k \<noteq> 0" using l(3) mpvq_off_rec(2) [OF n(1)] i1 Suc.prems(2) by (cases k) auto
    then have k: "1 \<le> k" "k \<le> 10" using l(1) Suc.prems(3) by simp_all
    let ?r = "idx - mpvq_off n k"
    show ?thesis
    proof (cases "k = K")
      case True
      have "?r < mpvq_size n k" using Suc.prems(5) True by (simp add: mpvq_size_simps)
      from Suc.IH [of k ?r ls, OF _ k _ this] l(2) n(1)
      show ?thesis using False True k_def by (simp add: mpvq_push_def)
    next
      case neq: False
      then have kK: "k < K" "k < 10" using l(1) Suc.prems(3) by simp_all
      have "?r < 2 * mpvq_size n k" using l(3) [OF kK(1)] mpvq_off_rec(3) [OF n(1) k(1) kK(2)] by simp
      then have h: "drop_bit 1 ?r < mpvq_size n k" "0 \<le> drop_bit 1 ?r"
        using l(2) by (simp_all add: drop_bit_eq_div del: drop_bit_of_Suc_0)
      define d where "d = deenum_mvpq (drop_bit 1 ?r) (odd ?r) k n"
      have IH: "length d = n" "pulses d = k" "mpvq_code d = Some (drop_bit 1 ?r, odd ?r)"
        unfolding d_def using Suc.IH [of k "drop_bit 1 ?r" "odd ?r"] h k n(1) by simp_all
      define x where "x = (if ls then - int (K - k) else int (K - k))"
      have x: "nat \<bar>x\<bar> = K - k" "x \<noteq> 0" "x < 0 \<longleftrightarrow> ls" using kK(1) by (auto simp: x_def)
      have e: "deenum_mvpq idx ls K (Suc n) = x # d"
        using False kK(1) by (simp add: x_def d_def k_def [symmetric] Let_def)
      have "2 * drop_bit 1 ?r + of_bool (odd ?r) = ?r" by (simp add: drop_bit_eq_div del: drop_bit_of_Suc_0)
      then show ?thesis unfolding e using IH x kK(1) by (simp add: mpvq_push_def)
    qed
  qed
qed (simp add: mpvq_size_simps)

lemma enum_deenum:
  assumes "length c \<le> 16" "1 \<le> pulses c" "pulses c \<le> 10"
  obtains idx ls where "enum_mvpq c = Some (idx, ls)" "0 \<le> idx" "idx < mpvq_size (length c) (pulses c)"
    "deenum_mvpq idx ls (pulses c) (length c) = c"
proof -
  have "mpvq_code c \<noteq> None" using assms(2) by (simp add: mpvq_code_None)
  then obtain idx ls where "mpvq_code c = Some (idx, ls)" by auto
  then show thesis
    using that [of idx ls] mpvq_code_bounds [OF assms(1,3)] deenum_code [OF assms(1,3)] by (simp add: enum_mvpq_code)
qed

section \<open>The vectors of the noise shaping\<close>

text \<open>The sizes of the code, in the number of pulses of each shape.\<close>

lemma mpvq_sizes: "mpvq_size 10 10 = 2390004" "mpvq_size 16 8 = 15158272" "mpvq_size 16 6 = 774912" "mpvq_size 6 1 = 6"
  by code_simp+

definition shape_pulses :: "int \<Rightarrow> int list \<Rightarrow> bool" where
  "shape_pulses shape c \<longleftrightarrow> length c = 16 \<and>
     (if shape = 0 then pulses (take 10 c) = 10 \<and> pulses (drop 10 c) = 1
      else if shape = 1 then pulses (take 10 c) = 10 \<and> pulses (drop 10 c) = 0
      else if shape = 2 then pulses c = 8 else shape = 3 \<and> pulses c = 6)"

section \<open>Properties\<close>

text \<open>
  C15. The index and the sign that \<open>enum_mvpq\<close> gives to a vector of at most 16 integers with
  1 to 10 pulses: the index is below the number of such vectors, so that it fits its field and
  no sum overflows, and \<open>deenum_mvpq\<close> builds the vector back from them.
\<close>

theorem mpvq_roundtrip:
  assumes "length c \<le> 16" "1 \<le> pulses c" "pulses c \<le> 10"
  shows "\<exists>idx ls. enum_mvpq c = Some (idx, ls) \<and> 0 \<le> idx \<and> idx < mpvq_size (length c) (pulses c) \<and>
    deenum_mvpq idx ls (pulses c) (length c) = c"
  by (rule enum_deenum [OF assms]) blast

theorem mpvq_roundtrip_witness:
  "\<exists>idx ls. enum_mvpq [0, -3, 1, 0, 2] = Some (idx, ls) \<and> deenum_mvpq idx ls 6 5 = [0, -3, 1, 0, 2]"
proof -
  have c: "length [0, -3, 1, 0, 2 :: int] = 5" "pulses [0, -3, 1, 0, 2] = 6" by simp_all
  from mpvq_roundtrip [of "[0, -3, 1, 0, 2]", unfolded c] show ?thesis by (simp only: numeral_le_iff) auto
qed

text \<open>
  C27. Every index of the bitstream below the number of vectors is one of a vector:
  \<open>deenum_mvpq\<close> gives \<open>n\<close> values whose absolute values sum to the number of pulses, and
  \<open>enum_mvpq\<close> gives them this index and this sign back.
\<close>

theorem mpvq_onto:
  assumes "n \<le> 16" "1 \<le> k" "k \<le> 10" "0 \<le> idx" "idx < mpvq_size n k"
  shows "length (deenum_mvpq idx ls k n) = n \<and> pulses (deenum_mvpq idx ls k n) = k \<and>
    enum_mvpq (deenum_mvpq idx ls k n) = Some (idx, ls)"
  using code_deenum [OF assms, of ls] by (simp add: enum_mvpq_code)

theorem mpvq_onto_witness: "enum_mvpq (deenum_mvpq 774911 True 6 16) = Some (774911, True)"
  using mpvq_onto [of 16 6 774911 True] by (simp add: mpvq_sizes)

text \<open>
  C26. For each shape, \<open>enumerate\<close> gives to a vector with the pulses of the shape indices
  below the sizes that the multiplexed code assumes, and \<open>deenumerate\<close> gives the vector back.
\<close>

theorem sns_enumerate_roundtrip:
  assumes "shape_pulses shape c"
  shows "\<exists>idx_a ls_a b. enumerate shape c = Some ((idx_a, ls_a), b) \<and> 0 \<le> idx_a \<and> idx_a < sns_size_a shape \<and>
    (case b of
       Some (idx_b, ls_b) \<Rightarrow> shape = 0 \<and> 0 \<le> idx_b \<and> idx_b < 6 \<and> deenumerate shape idx_a ls_a idx_b ls_b = c
     | None \<Rightarrow> shape \<noteq> 0 \<and> (\<forall>idx_b ls_b. deenumerate shape idx_a ls_a idx_b ls_b = c))"
proof -
  have len: "length c = 16" "length (take 10 c) = 10" "length (drop 10 c) = 6" using assms by (simp_all add: shape_pulses_def)
  have d0: "pulses (drop 10 c) = 0 \<Longrightarrow> drop 10 c = replicate 6 0"
    unfolding pulses_0 [of "drop 10 c"] len .
  consider "shape = 0" "pulses (take 10 c) = 10" "pulses (drop 10 c) = 1"
    | "shape = 1" "pulses (take 10 c) = 10" "drop 10 c = replicate 6 0"
    | "shape = 2" "pulses c = 8" | "shape = 3" "pulses c = 6"
    using assms d0 unfolding shape_pulses_def by presburger
  then show ?thesis
  proof cases
    case 1
    obtain ia la where a: "enum_mvpq (take 10 c) = Some (ia, la)" "0 \<le> ia" "ia < 2390004" "deenum_mvpq ia la 10 10 = take 10 c"
      using enum_deenum [of "take 10 c"] 1 len mpvq_sizes by auto
    obtain ib lb where b: "enum_mvpq (drop 10 c) = Some (ib, lb)" "0 \<le> ib" "ib < 6" "deenum_mvpq ib lb 1 6 = drop 10 c"
      by (rule enum_deenum [of "drop 10 c", unfolded 1(3) len mpvq_sizes]) simp_all
    show ?thesis using 1(1) a b by (simp add: enumerate_def deenumerate_def sns_size_a_def)
  next
    case 2
    obtain ia la where a: "enum_mvpq (take 10 c) = Some (ia, la)" "0 \<le> ia" "ia < 2390004" "deenum_mvpq ia la 10 10 = take 10 c"
      using enum_deenum [of "take 10 c"] 2 len mpvq_sizes by auto
    show ?thesis using 2(1) a append_take_drop_id [of 10 c]
      by (simp add: enumerate_def deenumerate_def sns_size_a_def 2(3) [symmetric])
  next
    case 3
    obtain ia la where a: "enum_mvpq c = Some (ia, la)" "0 \<le> ia" "ia < 15158272" "deenum_mvpq ia la 8 16 = c"
      using enum_deenum [of c] 3 len mpvq_sizes by auto
    show ?thesis using 3(1) a len by (simp add: enumerate_def deenumerate_def sns_size_a_def)
  next
    case 4
    obtain ia la where a: "enum_mvpq c = Some (ia, la)" "0 \<le> ia" "ia < 774912" "deenum_mvpq ia la 6 16 = c"
      using enum_deenum [of c] 4 len mpvq_sizes by auto
    show ?thesis using 4(1) a len by (simp add: enumerate_def deenumerate_def sns_size_a_def)
  qed
qed

theorem sns_enumerate_roundtrip_witness:
  "\<exists>idx_a ls_a b. enumerate 2 [0, 2, 0, 0, -1, 0, 0, 3, 0, 0, 0, 0, 0, 1, 0, -1] = Some ((idx_a, ls_a), b) \<and>
     idx_a < 15158272 \<and> deenumerate 2 idx_a ls_a 0 False = [0, 2, 0, 0, -1, 0, 0, 3, 0, 0, 0, 0, 0, 1, 0, -1]"
proof -
  have "shape_pulses 2 [0, 2, 0, 0, -1, 0, 0, 3, 0, 0, 0, 0, 0, 1, 0, -1]" by code_simp
  from sns_enumerate_roundtrip [OF this] show ?thesis by (auto simp: sns_size_a_def split: option.splits)
qed

end
