(* ===== verification/BitSwap.thy ===== *)
theory BitSwap
  imports BitChannel
begin

text \<open>
  A frame is read from its two ends: the plain bits backward from its end, the arithmetic
  code forward from its start. So, for a reader, a plain value and a symbol that follow each
  other can be read in either order. A component may then put the two in an order and get
  them in the other, as the coder of the spectrum does.
\<close>

section \<open>The two sides of a reader are separate\<close>

lemma accu_load_loop_side:
  "accu_load_loop k v (b\<lparr>p_fw := f\<rparr>) = map_prod id (\<lambda>b. b\<lparr>p_fw := f\<rparr>) (accu_load_loop k v b)"
proof (induction k arbitrary: v b)
  case (Suc k)
  have "b\<lparr>p_fw := f, p_bw := w\<rparr> = b\<lparr>p_bw := w, p_fw := f\<rparr>" for w by simp
  then show ?case by (simp only: accu_load_loop.simps Let_def) (simp add: Suc.IH)
qed simp

lemma accu_load_loop_frame:
  "accu_load_loop k v b = (v', b') \<Longrightarrow> p_fw b' = p_fw b \<and> buf b' = buf b"
proof (induction k arbitrary: v b)
  case (Suc k)
  from Suc.IH Suc.prems show ?case by (fastforce simp: Let_def)
qed simp

lemma accu_load_side:
  "accu_load u (b\<lparr>p_fw := f\<rparr>) = map_prod id (\<lambda>b. b\<lparr>p_fw := f\<rparr>) (accu_load u b)"
  by (simp add: accu_load_def Let_def accu_load_loop_side case_prod_beta)

lemma accu_load_frame:
  assumes "accu_load u b = (u', b')"
  shows "p_fw b' = p_fw b" "buf b' = buf b"
  using assms by (auto simp: accu_load_def Let_def split: prod.splits if_splits dest: accu_load_loop_frame)

lemma lc3_get_bits_side:
  "lc3_get_bits (bits\<lparr>ac := a, buffer := (buffer bits)\<lparr>p_fw := f\<rparr>\<rparr>) n =
     map_prod id (\<lambda>r. r\<lparr>ac := a, buffer := (buffer r)\<lparr>p_fw := f\<rparr>\<rparr>) (lc3_get_bits bits n)"
  by (simp add: lc3_get_bits_def lc3_get_bits_generic_def Let_def accu_load_side case_prod_beta)

lemma lc3_get_bits_frame:
  assumes "lc3_get_bits bits n = (v, bits')"
  shows "bits' = bits\<lparr>accu := accu bits', buffer := (buffer bits)\<lparr>p_bw := p_bw (buffer bits')\<rparr>\<rparr>"
proof -
  have "mode bits' = mode bits \<and> ac bits' = ac bits \<and> p_fw (buffer bits') = p_fw (buffer bits) \<and>
      buf (buffer bits') = buf (buffer bits)"
    using assms
    by (auto simp: lc3_get_bits_def lc3_get_bits_generic_def Let_def accu_load_frame split: prod.splits if_splits)
  then show ?thesis by simp
qed

definition other_side :: "lc3_bits_accu \<Rightarrow> nat \<Rightarrow> lc3_bits \<Rightarrow> lc3_bits" where
  "other_side u w r = r\<lparr>accu := u, buffer := (buffer r)\<lparr>p_bw := w\<rparr>\<rparr>"

lemma lc3_ac_read_renorm_side:
  "lc3_ac_read_renorm (other_side u w bits) = map_option (other_side u w) (lc3_ac_read_renorm bits)"
proof -
  let ?c = "\<lambda>(a, b). case ac_get b of (byte, b') \<Rightarrow>
    (a\<lparr>ac_low := (push_bit 8 (ac_low a) OR word_of_int byte) AND 0xffffff, ac_range := push_bit 8 (ac_range a)\<rparr>, b')"
  let ?b = "\<lambda>(a, b :: lc3_bits_buffer). ac_range a < 0x10000"
  let ?f = "map_prod id (\<lambda>b. b\<lparr>p_bw := w\<rparr>)"
  have "while_option ?b ?c (?f (ac bits, buffer bits)) = map_option ?f (while_option ?b ?c (ac bits, buffer bits))"
    by (rule while_option_commute [symmetric]) (auto simp: ac_get_def split: if_splits)
  note while = this
  have sw: "bits\<lparr>accu := u, ac := a, buffer := c\<rparr> = bits\<lparr>ac := a, accu := u, buffer := c\<rparr>" for a c
    by simp
  from while show ?thesis
    by (simp add: sw lc3_ac_read_renorm_def other_side_def option.map_comp comp_def map_prod_def case_prod_unfold)
qed

lemma lc3_get_symbol_side:
  "lc3_get_symbol (other_side u w bits) m = map_option (map_prod id (other_side u w)) (lc3_get_symbol bits m)"
proof -
  have "other_side u w bits\<lparr>ac := a\<rparr> = other_side u w (bits\<lparr>ac := a\<rparr>)" "ac (other_side u w bits) = ac bits" for a
    by (simp_all add: other_side_def)
  then show ?thesis
    by (simp add: lc3_get_symbol_def Let_def lc3_ac_read_renorm_side option.map_comp comp_def)
qed

lemma lc3_get_symbol_frame:
  assumes "lc3_get_symbol bits m = Some (s, bits')"
  shows "bits' = bits\<lparr>ac := ac bits', buffer := (buffer bits)\<lparr>p_fw := p_fw (buffer bits')\<rparr>\<rparr>"
proof -
  have id: "bits = other_side (accu bits) (p_bw (buffer bits)) bits" by (simp add: other_side_def)
  have "map_option (map_prod id (other_side (accu bits) (p_bw (buffer bits)))) (lc3_get_symbol bits m) = Some (s, bits')"
    using lc3_get_symbol_side [of "accu bits" "p_bw (buffer bits)" bits m] assms by (simp add: id [symmetric])
  then have 1: "other_side (accu bits) (p_bw (buffer bits)) bits' = bits'" using assms by simp
  have ren: "lc3_ac_read_renorm b = Some b' \<Longrightarrow> mode b' = mode b \<and> buf (buffer b') = buf (buffer b)" for b b'
  proof -
    let ?P = "\<lambda>(a :: lc3_bits_ac, c). buf c = buf (buffer b)"
    assume "lc3_ac_read_renorm b = Some b'"
    then obtain a c where w: "while_option (\<lambda>(a, b). ac_range a < 0x10000)
          (\<lambda>(a, b). case ac_get b of (byte, b') \<Rightarrow>
             (a\<lparr>ac_low := (push_bit 8 (ac_low a) OR word_of_int byte) AND 0xffffff,
                ac_range := push_bit 8 (ac_range a)\<rparr>, b')) (ac b, buffer b) = Some (a, c)"
      and e: "b' = b\<lparr>ac := a, buffer := c\<rparr>"
      by (auto simp: lc3_ac_read_renorm_def)
    have "?P (a, c)"
      by (rule while_option_rule [where P = ?P, OF _ w]) (auto simp: ac_get_def split: if_splits)
    with e show ?thesis by simp
  qed
  have 2: "mode bits' = mode bits" "buf (buffer bits') = buf (buffer bits)"
    using assms ren by (auto simp: lc3_get_symbol_def Let_def split: if_splits)
  have "accu bits' = accu bits" "p_bw (buffer bits') = p_bw (buffer bits)"
    using arg_cong [OF 1, of accu] arg_cong [OF 1, of "\<lambda>b. p_bw (buffer b)"] by (simp_all add: other_side_def)
  with 2 show ?thesis by simp
qed

section \<open>Reading in either order\<close>

lemma rd_ops_swap:
  assumes "rd_ops (Bits v n # Sym m s # xs) bits = Some bits'"
  shows "rd_ops (Sym m s # Bits v n # xs) bits = Some bits'"
proof -
  obtain b1 b2 where 1: "lc3_get_bits bits (int n) = (v, b1)" "lc3_get_symbol b1 m = Some (s, b2)" "rd_ops xs b2 = Some bits'"
    using assms unfolding rd_ops_Bits rd_ops_Sym by blast
  have e1: "b1 = other_side (accu b1) (p_bw (buffer b1)) bits"
    using lc3_get_bits_frame [OF 1(1)] by (simp add: other_side_def)
  obtain c where c: "lc3_get_symbol bits m = Some (s, c)" "b2 = other_side (accu b1) (p_bw (buffer b1)) c"
    using 1(2) lc3_get_symbol_side [of "accu b1" "p_bw (buffer b1)" bits m, folded e1] by auto
  have e2: "c = bits\<lparr>ac := ac c, buffer := (buffer bits)\<lparr>p_fw := p_fw (buffer c)\<rparr>\<rparr>"
    by (rule lc3_get_symbol_frame [OF c(1)])
  have "lc3_get_bits c (int n) = (v, b1\<lparr>ac := ac c, buffer := (buffer b1)\<lparr>p_fw := p_fw (buffer c)\<rparr>\<rparr>)"
    using lc3_get_bits_side [where bits = bits and a = "ac c" and f = "p_fw (buffer c)" and n = "int n", folded e2] 1(1)
    by simp
  moreover have "b1\<lparr>ac := ac c, buffer := (buffer b1)\<lparr>p_fw := p_fw (buffer c)\<rparr>\<rparr> = b2"
  proof -
    have "mode b1 = mode bits" "buf (buffer b1) = buf (buffer bits)"
      using arg_cong [OF e1, of mode] arg_cong [OF e1, of "\<lambda>b. buf (buffer b)"] by (simp_all add: other_side_def)
    moreover have "mode c = mode bits" "buf (buffer c) = buf (buffer bits)"
      using arg_cong [OF e2, of mode] arg_cong [OF e2, of "\<lambda>b. buf (buffer b)"] by simp_all
    ultimately show ?thesis by (simp add: c(2) other_side_def)
  qed
  ultimately show ?thesis using c(1) 1(3) unfolding rd_ops_Bits rd_ops_Sym by blast
qed

lemma rd_ops_Sym_late:
  assumes "\<And>x. x \<in> set bs \<Longrightarrow> \<exists>v n. x = Bits v n" and "rd_ops (bs @ Sym m s # xs) bits = Some bits'"
  shows "rd_ops (Sym m s # bs @ xs) bits = Some bits'"
  using assms
proof (induction bs arbitrary: bits)
  case (Cons x bs)
  obtain v n where x: "x = Bits v n" using Cons.prems(1) [of x] by auto
  obtain b1 where 1: "lc3_get_bits bits (int n) = (v, b1)" "rd_ops (bs @ Sym m s # xs) b1 = Some bits'"
    using Cons.prems(2) unfolding x append_Cons rd_ops_Bits by blast
  have "rd_ops (Sym m s # bs @ xs) b1 = Some bits'" by (rule Cons.IH [OF _ 1(2)]) (use Cons.prems(1) in simp)
  then have "rd_ops (Bits v n # Sym m s # bs @ xs) bits = Some bits'" using 1(1) unfolding rd_ops_Bits by blast
  from rd_ops_swap [OF this] show ?case by (simp only: x append_Cons)
qed simp

end
