(* ===== verification/SpecPairs.thy ===== *)
theory SpecPairs
  imports SpecCode BitSwap
begin

text \<open>
  The coder of a pair of coefficients: the operations a put makes on the stream, and what a
  get returns from them. The get reads the escapes, then the signs, in an order that is not
  the one of the put: it relies on the two sides of the stream being separate.
\<close>

section \<open>The operations on the stream\<close>

text \<open>The escapes: their operations, and the number of low bits after them.\<close>

function esc_ops :: "nat list \<Rightarrow> int \<Rightarrow> int \<Rightarrow> int \<Rightarrow> nat \<Rightarrow> bit_op list" where
  "esc_ops lut a b m k =
     (if m \<le> 0 then []
      else [Bits (word_of_int (drop_bit k a AND 1)) 1, Bits (word_of_int (drop_bit k b AND 1)) 1,
            Sym (lc3_spectrum_models ! (lut ! min k 3)) 16] @ esc_ops lut a b (drop_bit 1 m) (k + 1))"
  by pat_completeness auto
termination
  by (relation "measure (\<lambda>(lut, a, b, m, k). nat m)") (auto simp: drop_bit_eq_div)

declare esc_ops.simps [simp del]

function esc_len :: "int \<Rightarrow> nat \<Rightarrow> nat" where
  "esc_len m k = (if m \<le> 0 then k else esc_len (drop_bit 1 m) (k + 1))"
  by pat_completeness auto
termination
  by (relation "measure (\<lambda>(m, k). nat m)") (auto simp: drop_bit_eq_div)

declare esc_len.simps [simp del]

lemma esc_len_bounds:
  "0 \<le> w \<Longrightarrow> w < 2 ^ 15 \<Longrightarrow> m = drop_bit (2 + k) w \<Longrightarrow> k \<le> 13 \<Longrightarrow>
   k \<le> esc_len m k \<and> esc_len m k \<le> 13 \<and> drop_bit (esc_len m k) w < 4"
proof (induction m k rule: esc_len.induct)
  case (1 m k)
  have w: "0 \<le> drop_bit n w" for n using 1(2) by simp
  show ?case
  proof (cases "m \<le> 0")
    case True
    then have "drop_bit (2 + k) w = 0" using w [of "2 + k"] 1(4) by linarith
    then have "drop_bit 2 (drop_bit k w) = 0" by simp
    moreover have "drop_bit 2 (drop_bit k w) = drop_bit k w div 4" by (subst drop_bit_eq_div) simp
    ultimately have "drop_bit k w < 4" using w [of k] by (simp only: zdiv_eq_0_iff) linarith
    then show ?thesis using True 1(5) by (simp add: esc_len.simps [of m])
  next
    case False
    have "k \<noteq> 13"
    proof
      assume "k = 13"
      then have "m = w div 32768" using 1(4) by (simp add: drop_bit_eq_div)
      then show False using False 1(2,3) by simp
    qed
    moreover have "drop_bit 1 m = drop_bit (2 + (k + 1)) w" unfolding 1(4) by (simp add: add.commute)
    ultimately show ?thesis
      using 1(1) [OF False 1(2,3)] 1(5) False by (simp add: esc_len.simps [of m])
  qed
qed

text \<open>A pair: its low bits, the first ones that are not coded when \<open>lsb\<close>.\<close>

definition pair_skip :: "bool \<Rightarrow> int \<Rightarrow> int \<Rightarrow> nat" where
  "pair_skip lsb a b = of_bool (lsb \<and> drop_bit 2 (a OR b) \<noteq> 0)"

definition pair_shift :: "bool \<Rightarrow> int \<Rightarrow> int \<Rightarrow> nat" where
  "pair_shift lsb a b =
     esc_len (drop_bit (2 + pair_skip lsb a b) (a OR b)) (pair_skip lsb a b)"

definition pair_coded :: "bool \<Rightarrow> int \<Rightarrow> int \<Rightarrow> int \<Rightarrow> int" where
  "pair_coded lsb a b c = push_bit (pair_skip lsb a b) (drop_bit (pair_skip lsb a b) c)"

definition sign_ops :: "int \<Rightarrow> int \<Rightarrow> bit_op list" where
  "sign_ops u neg = (if u \<noteq> 0 then [Bits (word_of_int neg) 1] else [])"

definition pair_ops :: "nat list \<Rightarrow> bool \<Rightarrow> int \<Rightarrow> int \<Rightarrow> int \<Rightarrow> int \<Rightarrow> bit_op list" where
  "pair_ops lut lsb a b an bn =
     (let k0 = pair_skip lsb a b; k = pair_shift lsb a b
      in (if k0 = 0 then [] else [Sym (lc3_spectrum_models ! (lut ! 0)) 16]) @
         esc_ops lut a b (drop_bit (2 + k0) (a OR b)) k0 @
         sign_ops (pair_coded lsb a b a) an @ sign_ops (pair_coded lsb a b b) bn @
         [Sym (lc3_spectrum_models ! (lut ! min k 3)) (nat (drop_bit k a + 4 * drop_bit k b))])"

lemma xq_abs_bounds [simp]: "0 \<le> xq_abs x i" "xq_abs x i < 2 ^ 15" "xq_abs x i < 32768"
proof -
  have "uint (x ! i) < 65536" using uint_lt2p [of "x ! i"] by simp
  then show "xq_abs x i < 2 ^ 15" "xq_abs x i < 32768" by (simp_all add: xq_abs_def drop_bit_eq_div)
qed (simp add: xq_abs_def)

lemma pair_bounds:
  assumes a: "0 \<le> a" "a < 2 ^ 15" and b: "0 \<le> b" "b < 2 ^ 15"
  shows "pair_skip lsb a b \<le> pair_shift lsb a b" "pair_shift lsb a b \<le> 13"
    and "0 \<le> drop_bit (pair_shift lsb a b) a" "drop_bit (pair_shift lsb a b) a < 4"
    and "0 \<le> drop_bit (pair_shift lsb a b) b" "drop_bit (pair_shift lsb a b) b < 4"
proof -
  let ?k = "pair_shift lsb a b"
  have w: "0 \<le> a OR b" "a OR b < 2 ^ 15" using assms OR_upper [of a 15 b] by simp_all
  have "pair_skip lsb a b \<le> 13" by (simp add: pair_skip_def)
  from esc_len_bounds [OF w refl this]
  show "pair_skip lsb a b \<le> ?k" "?k \<le> 13" unfolding pair_shift_def by blast+
  have l: "drop_bit ?k a OR drop_bit ?k b < 4"
    using esc_len_bounds [OF w refl \<open>pair_skip lsb a b \<le> 13\<close>] unfolding pair_shift_def by simp
  show n: "0 \<le> drop_bit ?k a" "0 \<le> drop_bit ?k b" using assms by simp_all
  show "drop_bit ?k a < 4" "drop_bit ?k b < 4"
    using l or_greater_eq [OF n(2), of "drop_bit ?k a"] or_greater_eq [OF n(1), of "drop_bit ?k b"]
    by (simp_all add: or.commute)
qed

section \<open>Put\<close>

lemma wr_ops_Nil [simp]: "wr_ops [] = Some"
  by (rule ext) simp

lemma put_escape_ops:
  "put_escape lut a b m k bits = map_option (Pair (esc_len m k)) (wr_ops (esc_ops lut a b m k) bits)"
proof (induction m k arbitrary: bits rule: esc_len.induct)
  case (1 m k)
  show ?case
  proof (cases "m \<le> 0")
    case True
    then show ?thesis by (simp add: put_escape.simps esc_ops.simps esc_len.simps)
  next
    case False
    have ih: "put_escape lut a b (drop_bit 1 m) (k + 1) =
        (\<lambda>bits. map_option (Pair (esc_len (drop_bit 1 m) (k + 1))) (wr_ops (esc_ops lut a b (drop_bit 1 m) (k + 1)) bits))"
      using 1 [OF False] by (intro ext)
    show ?thesis
      unfolding put_escape.simps [of lut a b m] esc_ops.simps [of lut a b m] esc_len.simps [of m] ih
      using False by (simp add: lc3_put_bit_def Let_def map_option_bind comp_def)
  qed
qed

lemma pair_coded_eq_0: "pair_coded lsb a b c = 0 \<longleftrightarrow> drop_bit (pair_skip lsb a b) c = 0"
  by (simp add: pair_coded_def push_bit_eq_mult)

lemma wr_sign_ops:
  "wr_ops (sign_ops u neg @ xs) bits = wr_ops xs (if u \<noteq> 0 then lc3_put_bit bits neg else bits)"
  by (simp add: sign_ops_def lc3_put_bit_def)

lemma put_pair_ops:
  "put_pair lut_coeff lsb x i (state, bits) =
     (let a = xq_abs x i; b = xq_abs x (i + 1); k = pair_shift lsb a b
      in map_option (Pair (spec_next_state state (min k 3) (drop_bit k a) (drop_bit k b)))
           (wr_ops (pair_ops (lut_coeff (nat state)) lsb a b (xq_neg x i) (xq_neg x (i + 1))) bits))"
proof -
  define a b where "a = xq_abs x i" and "b = xq_abs x (i + 1)"
  define an bn where "an = xq_neg x i" and "bn = xq_neg x (i + 1)"
  define k0 k where "k0 = pair_skip lsb a b" and "k = pair_shift lsb a b"
  define lut where "lut = lut_coeff (nat state)"
  note defs = a_def b_def an_def bn_def lut_def
  let ?s = "Sym (lc3_spectrum_models ! (lut ! min k 3)) (nat (drop_bit k a + 4 * drop_bit k b))"
  let ?signs = "\<lambda>bits. let bits = (if drop_bit k0 a \<noteq> 0 then lc3_put_bit bits an else bits)
                in if drop_bit k0 b \<noteq> 0 then lc3_put_bit bits bn else bits"
  define tl where "tl = sign_ops (pair_coded lsb a b a) an @ sign_ops (pair_coded lsb a b b) bn @ [?s]"
  have k: "k0 \<le> k" unfolding k0_def k_def by (rule pair_bounds) (simp_all only: a_def b_def xq_abs_bounds)
  have tail: "wr_ops tl bits = wr_op ?s (?signs bits)" for bits
    unfolding tl_def wr_sign_ops pair_coded_eq_0 k0_def by (simp add: Let_def)
  have ops: "pair_ops lut lsb a b an bn = (if k0 = 0 then [] else [Sym (lc3_spectrum_models ! (lut ! 0)) 16]) @
         esc_ops lut a b (drop_bit (2 + k0) (a OR b)) k0 @ tl"
    by (simp add: pair_ops_def Let_def k_def k0_def tl_def)
  have "put_pair lut_coeff lsb x i (state, bits) =
      map_option (Pair (spec_next_state state (min k 3) (drop_bit k a) (drop_bit k b)))
        (wr_ops (pair_ops lut lsb a b an bn) bits)"
  proof (cases "drop_bit 2 (a OR b) = 0")
    case True
    then have 0: "k0 = 0" "k = 0" by (simp_all add: k0_def k_def pair_skip_def pair_shift_def esc_len.simps)
    have no_esc: "pair_ops lut lsb a b an bn = tl"
      using True unfolding ops 0 by (simp add: esc_ops.simps [where m = 0])
    then show ?thesis
      unfolding put_pair_def prod.case Let_def defs [symmetric] no_esc tail
      using True by (simp add: 0)
  next
    case False
    then have k0: "k0 = of_bool lsb" by (simp add: k0_def pair_skip_def)
    have m: "drop_bit (of_bool lsb) (drop_bit 2 (a OR b)) = drop_bit (2 + k0) (a OR b)"
      by (simp add: k0 add.commute)
    have e: "put_escape lut a b (drop_bit (2 + k0) (a OR b)) k0 =
        (\<lambda>bits. map_option (Pair k) (wr_ops (esc_ops lut a b (drop_bit (2 + k0) (a OR b)) k0) bits))"
      by (intro ext) (simp add: put_escape_ops pair_shift_def k0_def k_def)
    have sh: "drop_bit (k - k0) (drop_bit k0 c) = drop_bit k c" for c :: int using k by simp
    have first: "Option.bind (if lsb then map_option (Pair 1) (lc3_put_symbol bits (lc3_spectrum_models ! (lut ! 0)) 16)
          else Some (0, bits)) (\<lambda>(k, bits). G k bits)
        = Option.bind (wr_ops (if k0 = 0 then [] else [Sym (lc3_spectrum_models ! (lut ! 0)) 16]) bits) (G k0)"
      for G :: "nat \<Rightarrow> lc3_bits \<Rightarrow> 'b option"
      by (cases lsb) (simp_all add: k0 bind_map_option comp_def)
    show ?thesis
      unfolding put_pair_def prod.case Let_def defs [symmetric] first m e ops wr_ops_append
      using False k0 sh
      by (simp add: tail Let_def map_option_bind bind_map_option option.map_comp comp_def del: drop_bit_drop_bit)
  qed
  then show ?thesis by (simp only: Let_def defs k_def)
qed

section \<open>Get\<close>

text \<open>The low bits that the escapes have given, up to \<open>k\<close>, the first \<open>k0\<close> ones left at zero.\<close>

definition low_bits :: "nat \<Rightarrow> nat \<Rightarrow> int \<Rightarrow> int" where
  "low_bits k0 k c = push_bit k0 (drop_bit k0 (take_bit k c))"

lemma bit_low_bits: "bit (low_bits k0 k c) n \<longleftrightarrow> k0 \<le> n \<and> n < k \<and> bit c n"
  by (auto simp: low_bits_def bit_simps possible_bit_def)

lemma low_bits_start: "low_bits k0 k0 c = 0"
  by (rule bit_eqI) (simp add: bit_low_bits)

lemma low_bits_step:
  assumes "k0 \<le> k"
  shows "low_bits k0 (Suc k) c = low_bits k0 k c OR push_bit k (drop_bit k c AND 1)"
proof (rule bit_eqI)
  fix n
  have "bit (push_bit k (drop_bit k c AND 1)) n \<longleftrightarrow> n = k \<and> bit c k"
    by (auto simp: bit_simps possible_bit_def le_less)
  then show "bit (low_bits k0 (Suc k) c) n \<longleftrightarrow> bit (low_bits k0 k c OR push_bit k (drop_bit k c AND 1)) n"
    using assms by (auto simp: bit_low_bits bit_or_iff less_Suc_eq)
qed

lemma low_bits_all:
  assumes "k0 \<le> k"
  shows "low_bits k0 k c OR push_bit k (drop_bit k c) = push_bit k0 (drop_bit k0 c)"
proof (rule bit_eqI)
  fix n
  show "bit (low_bits k0 k c OR push_bit k (drop_bit k c)) n \<longleftrightarrow> bit (push_bit k0 (drop_bit k0 c)) n"
    using assms by (cases "n < k") (auto simp: bit_low_bits bit_simps possible_bit_def not_less)
qed

lemma uint_low_bit: "uint (word_of_int (c AND 1) :: u32) = c AND 1"
  by (rule uint_word32) (simp_all add: and_one_eq)

lemma rd_ops_bit:
  assumes "rd_ops (Bits (word_of_int (c AND 1)) 1 # xs) bits = Some bits'"
  obtains v b1 where "lc3_get_bit bits = (v, b1)" "uint v = c AND 1" "rd_ops xs b1 = Some bits'"
proof -
  from assms obtain b1 where "lc3_get_bits bits (int 1) = (word_of_int (c AND 1), b1)" "rd_ops xs b1 = Some bits'"
    unfolding rd_ops_Bits by blast
  then show thesis by (intro that [of "word_of_int (c AND 1)" b1]) (simp_all add: lc3_get_bit_def uint_low_bit)
qed

lemma get_escape_ops:
  assumes "rd_ops (esc_ops lut a b m k @ sg @ Sym (lc3_spectrum_models ! (lut ! min (esc_len m k) 3)) sE # rest) bits = Some bits'"
    and "\<And>x. x \<in> set sg \<Longrightarrow> \<exists>v n. x = Bits v n" and "sE < 16" and "k0 \<le> k"
    and "m = drop_bit (2 + k) w" "0 \<le> w" "w < 2 ^ 15"
  shows "\<exists>s b1 b2. lc3_get_symbol bits (lc3_spectrum_models ! (lut ! min k 3)) = Some (s, b1) \<and>
     (s \<ge> 16 \<longleftrightarrow> m > 0) \<and>
     get_escape lut (low_bits k0 k a) (low_bits k0 k b) (min k 3) k s b1 =
       Some (low_bits k0 (esc_len m k) a, low_bits k0 (esc_len m k) b, min (esc_len m k) 3, esc_len m k, sE, b2) \<and>
     rd_ops (sg @ rest) b2 = Some bits'"
  using assms(1,4,5)
proof (induction m k arbitrary: bits rule: esc_len.induct)
  case (1 m k)
  note prems = 1(2-4)
  show ?case
  proof (cases "m \<le> 0")
    case True
    have e: "esc_ops lut a b m k = []" "esc_len m k = k"
      using True by (simp_all add: esc_ops.simps esc_len.simps)
    have "rd_ops (sg @ Sym (lc3_spectrum_models ! (lut ! min k 3)) sE # rest) bits = Some bits'"
      using prems(1) by (simp only: e append_Nil)
    from rd_ops_Sym_late [OF assms(2) this]
    obtain b1 where "lc3_get_symbol bits (lc3_spectrum_models ! (lut ! min k 3)) = Some (sE, b1)"
      "rd_ops (sg @ rest) b1 = Some bits'" unfolding rd_ops_Sym by blast
    moreover have "get_escape lut u v (min k 3) k sE b1 = Some (u, v, min k 3, k, sE, b1)" for u v
      using assms(3) by (simp add: get_escape.simps)
    ultimately show ?thesis using True assms(3) by (auto simp: e)
  next
    case False
    let ?M = "lc3_spectrum_models ! (lut ! min k 3)"
    let ?rest = "esc_ops lut a b (drop_bit 1 m) (k + 1) @ sg @
      Sym (lc3_spectrum_models ! (lut ! min (esc_len (drop_bit 1 m) (k + 1)) 3)) sE # rest"
    have e: "esc_len m k = esc_len (drop_bit 1 m) (k + 1)" using False by (simp add: esc_len.simps [of m])
    have "rd_ops ([Bits (word_of_int (drop_bit k a AND 1)) 1, Bits (word_of_int (drop_bit k b AND 1)) 1] @
        Sym ?M 16 # ?rest) bits = Some bits'"
      using prems(1) False by (simp add: esc_ops.simps [of lut a b m] e del: rd_ops.simps)
    from rd_ops_Sym_late [OF _ this] have "rd_ops (Sym ?M 16 # [Bits (word_of_int (drop_bit k a AND 1)) 1,
        Bits (word_of_int (drop_bit k b AND 1)) 1] @ ?rest) bits = Some bits'" by auto
    then obtain b1 where 1: "lc3_get_symbol bits ?M = Some (16, b1)"
      "rd_ops (Bits (word_of_int (drop_bit k a AND 1)) 1 # Bits (word_of_int (drop_bit k b AND 1)) 1 # ?rest) b1 = Some bits'"
      unfolding rd_ops_Sym append_Cons append_Nil by blast
    obtain p b2 where 2: "lc3_get_bit b1 = (p, b2)" "uint p = drop_bit k a AND 1"
      "rd_ops (Bits (word_of_int (drop_bit k b AND 1)) 1 # ?rest) b2 = Some bits'" by (rule rd_ops_bit [OF 1(2)])
    obtain q b3 where 3: "lc3_get_bit b2 = (q, b3)" "uint q = drop_bit k b AND 1" "rd_ops ?rest b3 = Some bits'"
      by (rule rd_ops_bit [OF 2(3)])
    have "drop_bit 1 m = drop_bit (2 + (k + 1)) w" unfolding prems(3) by (simp add: add.commute)
    from "1.IH" [OF False 3(3) _ this] prems(2)
    obtain s b4 b5 where 4: "lc3_get_symbol b3 (lc3_spectrum_models ! (lut ! min (k + 1) 3)) = Some (s, b4)"
      "get_escape lut (low_bits k0 (k + 1) a) (low_bits k0 (k + 1) b) (min (k + 1) 3) (k + 1) s b4 =
        Some (low_bits k0 (esc_len m k) a, low_bits k0 (esc_len m k) b, min (esc_len m k) 3, esc_len m k, sE, b5)"
      "rd_ops (sg @ rest) b5 = Some bits'" unfolding e by auto
    have k13: "k < 14"
    proof (rule ccontr)
      assume "\<not> k < 14"
      then have "2 ^ 15 \<le> (2 :: int) ^ (2 + k)" by (intro power_increasing) simp_all
      then have "w div 2 ^ (2 + k) = 0" using assms(6,7) by simp
      then show False using False prems(3) by (simp add: drop_bit_eq_div)
    qed
    have mn: "min k 3 + of_bool (min k 3 < 3) = min (k + 1) 3" by auto
    have "get_escape lut (low_bits k0 k a) (low_bits k0 k b) (min k 3) k 16 b1 =
        get_escape lut (low_bits k0 (k + 1) a) (low_bits k0 (k + 1) b) (min (k + 1) 3) (k + 1) s b4"
      using k13 prems(2) 2(1,2) 3(1,2) 4(1) mn
      by (subst get_escape.simps) (simp add: low_bits_step)
    then show ?thesis using 1(1) 4(2,3) False by auto
  qed
qed

text \<open>The value a get returns for a coefficient of a pair, and what it adds to the seed.\<close>

definition pair_value :: "bool \<Rightarrow> u16 list \<Rightarrow> nat \<Rightarrow> nat \<Rightarrow> int" where
  "pair_value lsb x i j =
     (let v = pair_coded lsb (xq_abs x i) (xq_abs x (i + 1)) (xq_abs x j)
      in if odd (uint (x ! j)) then - v else v)"

definition get_update :: "bool \<Rightarrow> u16 list \<Rightarrow> nat \<Rightarrow> spec_reader \<Rightarrow> spec_reader" where
  "get_update lsb x i r =
     (let a = xq_abs x i; b = xq_abs x (i + 1); k = pair_shift lsb a b;
          u = pair_coded lsb a b a; v = pair_coded lsb a b b
      in r\<lparr>rd_x := (rd_x r)[i := f32_of_int (pair_value lsb x i i), i + 1 := f32_of_int (pair_value lsb x i (i + 1))],
           rd_seed := (rd_seed r + u * int i + v * (int i + 1)) AND 0xffff,
           rd_state := spec_next_state (rd_state r) (min k 3) (drop_bit k a) (drop_bit k b)\<rparr>)"

lemma get_sign_ops:
  assumes "rd_ops (sign_ops u (c AND 1) @ xs) bits = Some bits'"
  obtains b1 where "get_sign u bits = (if odd c then - u else u, b1)" "rd_ops xs b1 = Some bits'"
proof (cases "u = 0")
  case True
  then show thesis using assms that [of bits] by (simp add: sign_ops_def get_sign_def)
next
  case False
  then have "rd_ops (Bits (word_of_int (c AND 1)) 1 # xs) bits = Some bits'"
    using assms by (simp add: sign_ops_def del: rd_ops.simps)
  then obtain v b1 where "lc3_get_bit bits = (v, b1)" "uint v = c AND 1" "rd_ops xs b1 = Some bits'"
    by (rule rd_ops_bit)
  moreover have "v \<noteq> 0 \<longleftrightarrow> odd c" using \<open>uint v = _\<close> by (auto simp: and_one_eq uint_0_iff [symmetric] odd_iff_mod_2_eq_one)
  ultimately show thesis using that [of b1] False by (simp add: get_sign_def)
qed

lemma pair_symbol:
  fixes a b :: int and lsb :: bool
  assumes a: "0 \<le> a" "a < 2 ^ 15" and b: "0 \<le> b" "b < 2 ^ 15"
  defines "s \<equiv> nat (drop_bit (pair_shift lsb a b) a + 4 * drop_bit (pair_shift lsb a b) b)"
  shows "s < 16" "int (s mod 4) = drop_bit (pair_shift lsb a b) a" "int (s div 4) = drop_bit (pair_shift lsb a b) b"
proof -
  note p = pair_bounds(3-6) [OF assms(1-4), of lsb]
  have s: "int s = drop_bit (pair_shift lsb a b) a + 4 * drop_bit (pair_shift lsb a b) b"
    using p by (simp add: s_def)
  then show "s < 16" using p by linarith
  show "int (s mod 4) = drop_bit (pair_shift lsb a b) a" "int (s div 4) = drop_bit (pair_shift lsb a b) b"
    using p by (simp_all add: zmod_int zdiv_int s)
qed

lemma get_pair_ops:
  assumes r: "rd_ret r = 0" "lut = lut_coeff (nat (rd_state r))"
    and ops: "rd_ops (pair_ops lut lsb (xq_abs x i) (xq_abs x (i + 1)) (xq_neg x i) (xq_neg x (i + 1))) (rd_bits r) = Some bits'"
  shows "get_pair lut_coeff lsb i r = Some (get_update lsb x i r\<lparr>rd_bits := bits'\<rparr>)"
proof -
  define a b where "a = xq_abs x i" and "b = xq_abs x (i + 1)"
  define k0 k where "k0 = pair_skip lsb a b" and "k = pair_shift lsb a b"
  define sE where "sE = nat (drop_bit k a + 4 * drop_bit k b)"
  define m where "m = drop_bit (2 + k0) (a OR b)"
  let ?M = "\<lambda>j. lc3_spectrum_models ! (lut ! j)"
  let ?sg = "sign_ops (pair_coded lsb a b a) (xq_neg x i) @ sign_ops (pair_coded lsb a b b) (xq_neg x (i + 1))"
  have ab: "0 \<le> a" "a < 2 ^ 15" "0 \<le> b" "b < 2 ^ 15" by (simp_all only: a_def b_def xq_abs_bounds)
  note sE = pair_symbol [OF ab, of lsb, folded k_def, folded sE_def]
  have k: "k0 \<le> k" "k \<le> 13" using pair_bounds(1,2) [OF ab, of lsb] by (simp_all add: k0_def k_def)
  have el: "esc_len m k0 = k" by (simp add: m_def k_def k0_def pair_shift_def)
  have w: "0 \<le> a OR b" "a OR b < 2 ^ 15" using ab OR_upper [of a 15 b] by simp_all
  have ops': "rd_ops ((if k0 = 0 then [] else [Sym (?M 0) 16]) @ esc_ops lut a b m k0 @ ?sg @ [Sym (?M (min k 3)) sE])
      (rd_bits r) = Some bits'"
    using ops unfolding pair_ops_def Let_def a_def [symmetric] b_def [symmetric] k0_def [symmetric]
        k_def [symmetric] m_def [symmetric] sE_def [symmetric] by (simp only: append_assoc)
  have sg: "\<exists>v n. y = Bits v n" if "y \<in> set ?sg" for y using that by (auto simp: sign_ops_def split: if_splits)
  have skip: "k0 = 0 \<or> k0 = 1 \<and> lsb" by (simp add: k0_def pair_skip_def)
  have m0: "k0 = 0 \<Longrightarrow> lsb \<Longrightarrow> m = 0" by (simp add: k0_def m_def pair_skip_def split: if_splits)
  obtain bits0 where 0: "k0 = 0 \<Longrightarrow> bits0 = rd_bits r" "k0 \<noteq> 0 \<Longrightarrow> lc3_get_symbol (rd_bits r) (?M 0) = Some (16, bits0)"
    "rd_ops (esc_ops lut a b m k0 @ ?sg @ Sym (?M (min (esc_len m k0) 3)) sE # []) bits0 = Some bits'"
  proof (cases "k0 = 0")
    case True
    then show thesis using that [of "rd_bits r"] ops' el by simp
  next
    case False
    then show thesis using that ops' el unfolding append_Cons append_Nil by (simp only: if_False append_Cons append_Nil rd_ops_Sym) blast
  qed
  obtain s b1 b2 where 1: "lc3_get_symbol bits0 (?M k0) = Some (s, b1)" "s \<ge> 16 \<longleftrightarrow> m > 0"
    "get_escape lut 0 0 k0 k0 s b1 = Some (low_bits k0 k a, low_bits k0 k b, min k 3, k, sE, b2)"
    "rd_ops ?sg b2 = Some bits'"
  proof -
    have "min k0 3 = k0" using skip by auto
    from get_escape_ops [OF 0(3) sg sE(1) order_refl m_def w] show thesis
      unfolding el low_bits_start \<open>min k0 3 = k0\<close> append_Nil2 using that by blast
  qed
  obtain b3 where 3: "get_sign (pair_coded lsb a b a) b2 = (pair_value lsb x i i, b3)"
    "rd_ops (sign_ops (pair_coded lsb a b b) (xq_neg x (i + 1))) b3 = Some bits'"
    by (rule get_sign_ops [OF 1(4)]) (simp add: pair_value_def Let_def a_def b_def)
  have 4: "get_sign (pair_coded lsb a b b) b3 = (pair_value lsb x i (i + 1), bits')"
    by (rule get_sign_ops [of "pair_coded lsb a b b" "uint (x ! (i + 1))" "[]" b3 bits'])
      (use 3(2) in \<open>simp_all add: pair_value_def Let_def a_def b_def\<close>)
  have all: "low_bits k0 k c OR push_bit k (drop_bit k c) = pair_coded lsb a b c" for c
    using low_bits_all [OF k(1)] by (simp add: pair_coded_def k0_def)
  have start: "Option.bind (lc3_get_symbol (rd_bits r) (?M 0))
        (\<lambda>(s, bits). Option.bind
          (if lsb \<and> s \<ge> 16 then map_option (\<lambda>(s, bits). (s, 1, 1, bits)) (lc3_get_symbol bits (?M 1))
           else Some (s, 0, 0, bits)) G) = G (s, k0, k0, b1)" for G :: "nat \<times> nat \<times> nat \<times> lc3_bits \<Rightarrow> 'c option"
  proof (cases "k0 = 0")
    case True
    then have "\<not> (lsb \<and> s \<ge> 16)" using m0 1(2) by auto
    then show ?thesis using True 0(1) 1(1) by auto
  next
    case False
    then show ?thesis using skip 0(2) 1(1) by simp
  qed
  have upd: "get_update lsb x i r\<lparr>rd_bits := bits'\<rparr> =
      r\<lparr>rd_x := (rd_x r)[i := f32_of_int (pair_value lsb x i i), i + 1 := f32_of_int (pair_value lsb x i (i + 1))],
        rd_seed := (rd_seed r + pair_coded lsb a b a * int i + pair_coded lsb a b b * (int i + 1)) AND 0xffff,
        rd_state := spec_next_state (rd_state r) (min k 3) (drop_bit k a) (drop_bit k b), rd_bits := bits'\<rparr>"
    unfolding get_update_def Let_def a_def b_def k_def by simp
  show ?thesis
    unfolding get_pair_def Let_def r(2) [symmetric] start upd
    using r(1) sE by (simp add: 1(3) 3(1) 4 all)
qed

end
