(* ===== verification/SpecStream.thy ===== *)
theory SpecStream
  imports SpecPairs
begin

text \<open>
  The quantised spectrum of a frame as a field of the bitstream: the pairs, then, in the
  bits that are left, the low bits that the pairs have not coded, or the residual bits that
  refine the values. The put and the get count these bits each on its side.
\<close>

section \<open>The pairs\<close>

lemma evens_props:
  "sorted (evens i n)" "distinct (evens i n)" "j \<in> set (evens i n) \<longleftrightarrow> i \<le> j \<and> even (j - i) \<and> int j < n"
proof -
  show "sorted (evens i n)" by (simp add: evens_def sorted_map)
  show "distinct (evens i n)" by (simp add: evens_def distinct_map inj_on_def)
  show "j \<in> set (evens i n) \<longleftrightarrow> i \<le> j \<and> even (j - i) \<and> int j < n"
  proof
    assume "j \<in> set (evens i n)"
    then obtain k where "j = i + 2 * k" "k < nat ((n - int i + 1) div 2)" by (auto simp: evens_def)
    then show "i \<le> j \<and> even (j - i) \<and> int j < n" by auto
  next
    assume a: "i \<le> j \<and> even (j - i) \<and> int j < n"
    then obtain k where k: "j - i = 2 * k" by (elim conjE evenE)
    then have "j = i + 2 * k" "k < nat ((n - int i + 1) div 2)" using a by auto
    then show "j \<in> set (evens i n)" by (auto simp: evens_def)
  qed
qed

lemma evens_append:
  assumes "n \<le> n'"
  shows "evens 0 n @ evens (2 * length (evens 0 n)) n' = evens 0 n'"
proof -
  define l where "l = nat ((n + 1) div 2)"
  define l' where "l' = nat ((n' + 1) div 2)"
  have l: "l \<le> l'" unfolding l_def l'_def using assms by (intro nat_mono zdiv_mono1) simp_all
  have len: "length (evens 0 n) = l" by (simp add: evens_def l_def)
  have d: "nat ((n' - 2 * int l + 1) div 2) = l' - l"
  proof -
    have "n' - 2 * int l + 1 = n' + 1 + (- int l) * 2" by simp
    then have "(n' - 2 * int l + 1) div 2 = (n' + 1) div 2 - int l" by (simp only: div_mult_self1)
    then show ?thesis by (simp add: l'_def nat_diff_distrib')
  qed
  have "[0 ..< l'] = [0 ..< l] @ map (\<lambda>j. l + j) [0 ..< l' - l]"
    using l upt_add_eq_append [of 0 l "l' - l"] map_add_upt [of l "l' - l"] by (simp add: add.commute)
  then show ?thesis
    unfolding len by (simp add: evens_def d l_def [symmetric] l'_def [symmetric] comp_def)
qed

text \<open>The steps of the loop visit every pair once.\<close>

lemma spec_steps_pairs:
  assumes "0 \<le> ne"
  shows "map snd (spec_steps nq ne) = evens 0 (LC3_MIN nq (ne + 2))"
proof -
  have "drop_bit 1 (ne + 2) \<le> ne + 2" using assms by (simp add: drop_bit_eq_div)
  then have "min nq (drop_bit 1 (ne + 2)) \<le> min nq (ne + 2)" by simp
  from evens_append [OF this] show ?thesis by (simp add: spec_steps_def Let_def comp_def)
qed

lemma spec_next_state_bounds [simp]: "0 \<le> spec_next_state st k a b" "spec_next_state st k a b < 256"
  by (simp_all add: spec_next_state_def)

fun quant_ops :: "(nat \<Rightarrow> nat \<Rightarrow> nat list) \<Rightarrow> bool \<Rightarrow> u16 list \<Rightarrow> (nat \<times> nat) list \<Rightarrow> int \<Rightarrow> bit_op list" where
  "quant_ops lk lsb x [] state = []"
| "quant_ops lk lsb x ((h, i) # steps) state =
     (let a = xq_abs x i; b = xq_abs x (i + 1); k = pair_shift lsb a b
      in pair_ops (lk h (nat state)) lsb a b (xq_neg x i) (xq_neg x (i + 1)) @
         quant_ops lk lsb x steps (spec_next_state state (min k 3) (drop_bit k a) (drop_bit k b)))"

lemma for_each_put_pair:
  "map_option snd (for_each (\<lambda>(h, i). put_pair (lk h) lsb x i) steps (state, bits)) =
     wr_ops (quant_ops lk lsb x steps state) bits"
proof (induction steps arbitrary: state bits)
  case (Cons hi steps)
  show ?case
    by (cases hi) (simp add: put_pair_ops Let_def wr_ops_append map_option_bind bind_map_option comp_def Cons.IH)
qed simp

lemma uint_low_bit_less: "uint (word_of_int (c AND 1) :: u32) < 2"
  unfolding uint_low_bit by (simp add: and_one_eq)

lemma esc_ops_ok:
  "(\<And>j. j < 4 \<Longrightarrow> lut ! j < 64) \<Longrightarrow> list_all op_ok (esc_ops lut a b m k)"
proof (induction m k rule: esc_len.induct)
  case (1 m k)
  have "ac_symbol_ok (lc3_spectrum_models ! (lut ! min k 3)) 16"
    by (rule lc3_spectrum_models_ok) (simp_all add: 1(2))
  moreover note uint_low_bit_less
  ultimately show ?case
    using 1 by (cases "m \<le> 0") (simp_all add: esc_ops.simps [of lut a b m])
qed

lemma sign_ops_ok: "list_all op_ok (sign_ops u (c AND 1))"
  using uint_low_bit_less [of c] by (simp add: sign_ops_def)

lemma quant_ops_ok:
  assumes "\<And>h st j. st < 256 \<Longrightarrow> j < 4 \<Longrightarrow> lk h st ! j < 64" "0 \<le> state" "state < 256"
  shows "list_all op_ok (quant_ops lk lsb x steps state)"
  using assms(2,3)
proof (induction steps arbitrary: state)
  case (Cons hi steps)
  obtain h i where hi: "hi = (h, i)" by (cases hi)
  let ?a = "xq_abs x i" and ?b = "xq_abs x (i + 1)"
  have lut: "lk h (nat state) ! j < 64" if "j < 4" for j using assms(1) that Cons.prems by simp
  have ab: "0 \<le> ?a" "?a < 2 ^ 15" "0 \<le> ?b" "?b < 2 ^ 15" by (simp_all only: xq_abs_bounds)
  have "list_all op_ok (pair_ops (lk h (nat state)) lsb ?a ?b (xq_neg x i) (xq_neg x (i + 1)))"
    using esc_ops_ok [OF lut] sign_ops_ok lc3_spectrum_models_ok [OF lut] pair_symbol(1) [OF ab, of lsb]
    unfolding pair_ops_def Let_def list_all_append by simp
  then show ?case
    using Cons.IH unfolding hi quant_ops.simps Let_def list_all_append by simp
qed simp

lemma for_each_get_pair:
  assumes "rd_ret r = 0" "rd_ops (quant_ops lk lsb x steps (rd_state r)) (rd_bits r) = Some bits'"
  shows "for_each (\<lambda>(h, i). get_pair (lk h) lsb i) steps r =
    Some (fold (\<lambda>(h, i). get_update lsb x i) steps r\<lparr>rd_bits := bits'\<rparr>)"
  using assms
proof (induction steps arbitrary: r)
  case (Cons hi steps)
  obtain h i where hi: "hi = (h, i)" by (cases hi)
  let ?r = "get_update lsb x i r"
  obtain b1 where 1: "rd_ops (pair_ops (lk h (nat (rd_state r))) lsb (xq_abs x i) (xq_abs x (i + 1)) (xq_neg x i)
      (xq_neg x (i + 1))) (rd_bits r) = Some b1"
    "rd_ops (quant_ops lk lsb x steps (rd_state ?r)) b1 = Some bits'"
    using Cons.prems(2) unfolding hi quant_ops.simps Let_def rd_ops_append bind_eq_Some_conv
    by (auto simp: get_update_def Let_def)
  have g: "get_pair (lk h) lsb i r = Some (?r\<lparr>rd_bits := b1\<rparr>)" by (rule get_pair_ops [where lut_coeff = "lk h", OF Cons.prems(1) refl 1(1)])
  have frame: "get_update lsb x j (s\<lparr>rd_bits := c\<rparr>) = get_update lsb x j s\<lparr>rd_bits := c\<rparr>" for j s c
    by (simp add: get_update_def Let_def)
  have fold_frame: "fold (\<lambda>(h, i). get_update lsb x i) st (s\<lparr>rd_bits := c\<rparr>) =
      fold (\<lambda>(h, i). get_update lsb x i) st s\<lparr>rd_bits := c\<rparr>" for st s c
    by (induction st arbitrary: s) (auto simp: frame)
  have "rd_ret ?r = 0" using Cons.prems(1) by (simp add: get_update_def Let_def)
  then have "for_each (\<lambda>(h, i). get_pair (lk h) lsb i) steps (?r\<lparr>rd_bits := b1\<rparr>) =
      Some (fold (\<lambda>(h, i). get_update lsb x i) steps (?r\<lparr>rd_bits := b1\<rparr>)\<lparr>rd_bits := bits'\<rparr>)"
    by (intro Cons.IH) (use 1(2) in simp_all)
  then show ?case using g by (simp add: hi fold_frame)
qed simp

lemma and_mask16: "(v :: int) AND 65535 = v mod 65536"
  using take_bit_eq_mask [of 16 v] by (simp add: take_bit_eq_mod mask_eq_exp_minus_1)

text \<open>What the loop has done, from the values of the put: every coefficient is the one of
  its pair, and the seed is the sum of the absolute values times the positions.\<close>

definition coded_value :: "bool \<Rightarrow> u16 list \<Rightarrow> nat \<Rightarrow> int" where
  "coded_value lsb x j = pair_value lsb x (j - j mod 2) j"

definition quant_seed :: "bool \<Rightarrow> u16 list \<Rightarrow> nat \<Rightarrow> int" where
  "quant_seed lsb x n = (\<Sum>j<n. \<bar>coded_value lsb x j\<bar> * int j) mod 65536"

lemma abs_pair_value: "\<bar>pair_value lsb x i j\<bar> = pair_coded lsb (xq_abs x i) (xq_abs x (i + 1)) (xq_abs x j)"
proof -
  have "0 \<le> pair_coded lsb (xq_abs x i) (xq_abs x (i + 1)) (xq_abs x j)"
    unfolding pair_coded_def by (simp only: push_bit_nonnegative_int_iff drop_bit_nonnegative_int_iff) simp
  then show ?thesis by (simp add: pair_value_def Let_def)
qed

lemma get_updates:
  fixes x :: "u16 list" and lsb :: bool
  assumes "rd_ret r = 0" "rd_seed r = 0" "2 * n \<le> length (rd_x r)"
  defines "r' \<equiv> fold (get_update lsb x) (map (\<lambda>j. 2 * j) [0 ..< n]) r"
  shows "rd_ret r' = 0" "rd_seed r' = quant_seed lsb x (2 * n)" "length (rd_x r') = length (rd_x r)"
    "j < 2 * n \<Longrightarrow> rd_x r' ! j = f32_of_int (coded_value lsb x j)"
    "2 * n \<le> j \<Longrightarrow> rd_x r' ! j = rd_x r ! j"
proof -
  have "rd_ret r' = 0 \<and> rd_seed r' = quant_seed lsb x (2 * n) \<and> length (rd_x r') = length (rd_x r) \<and>
    (\<forall>j. rd_x r' ! j = (if j < 2 * n then f32_of_int (coded_value lsb x j) else rd_x r ! j))"
    unfolding r'_def using assms(3)
  proof (induction n)
    case 0
    then show ?case using assms(1,2) by (simp add: quant_seed_def)
  next
    case (Suc n)
    define s where "s = fold (get_update lsb x) (map (\<lambda>j. 2 * j) [0 ..< n]) r"
    have IH: "rd_ret s = 0" "rd_seed s = quant_seed lsb x (2 * n)" "length (rd_x s) = length (rd_x r)"
      "\<And>j. rd_x s ! j = (if j < 2 * n then f32_of_int (coded_value lsb x j) else rd_x r ! j)"
      using Suc unfolding s_def by auto
    have f: "fold (get_update lsb x) (map (\<lambda>j. 2 * j) [0 ..< Suc n]) r = get_update lsb x (2 * n) s"
      by (simp add: s_def)
    have cv: "coded_value lsb x (2 * n) = pair_value lsb x (2 * n) (2 * n)"
      "coded_value lsb x (2 * n + 1) = pair_value lsb x (2 * n) (2 * n + 1)"
      by (simp_all add: coded_value_def)
    have "rd_seed (get_update lsb x (2 * n) s) = (quant_seed lsb x (2 * n) +
        \<bar>coded_value lsb x (2 * n)\<bar> * int (2 * n) + \<bar>coded_value lsb x (2 * n + 1)\<bar> * (int (2 * n) + 1)) mod 65536"
      unfolding cv abs_pair_value
      by (simp add: get_update_def Let_def IH(2) and_mask16)
    also have "\<dots> = quant_seed lsb x (2 * Suc n)"
      unfolding quant_seed_def add.assoc mod_add_left_eq by (simp add: algebra_simps)
    finally show ?case
      using IH Suc.prems cv unfolding f
      by (auto simp: get_update_def Let_def nth_list_update less_Suc_eq numeral_2_eq_2)
  qed
  then show "rd_ret r' = 0" "rd_seed r' = quant_seed lsb x (2 * n)" "length (rd_x r') = length (rd_x r)"
    "j < 2 * n \<Longrightarrow> rd_x r' ! j = f32_of_int (coded_value lsb x j)"
    "2 * n \<le> j \<Longrightarrow> rd_x r' ! j = rd_x r ! j" by auto
qed

end
