(* ===== verification/SpecRefine.thy ===== *)
theory SpecRefine
  imports SpecStream
begin

text \<open>
  The bits that follow the pairs of the spectrum: the low bits in the mode that does not
  code them, and the residual bits in the other.
\<close>

section \<open>Low bits\<close>

abbreviation signed_abs :: "u16 list \<Rightarrow> nat \<Rightarrow> int \<Rightarrow> int" where
  "signed_abs x j c \<equiv> (if odd (uint (x ! j)) then - c else c)"

text \<open>The value of a stored coefficient.\<close>

definition exact_value :: "u16 list \<Rightarrow> nat \<Rightarrow> int" where
  "exact_value x j = signed_abs x j (xq_abs x j)"

definition lsb_value_ops :: "int \<Rightarrow> int \<Rightarrow> int \<Rightarrow> bit_op list" where
  "lsb_value_ops c neg n =
     (if n > 0 then Bits (word_of_int (c AND 1)) 1 #
        (if c = 1 \<and> n > 1 then [Bits (word_of_int neg) 1] else []) else [])"

definition lsb_count :: "int \<Rightarrow> int \<Rightarrow> int" where
  "lsb_count c n = n - 1 - of_bool (c = 1)"

definition escaped :: "u16 list \<Rightarrow> nat \<Rightarrow> bool" where
  "escaped x i \<longleftrightarrow> drop_bit 2 (xq_abs x i OR xq_abs x (i + 1)) \<noteq> 0"

fun lsb_ops :: "u16 list \<Rightarrow> nat list \<Rightarrow> int \<Rightarrow> bit_op list" where
  "lsb_ops x [] n = []"
| "lsb_ops x (i # is) n =
     (if n \<le> 0 \<or> \<not> escaped x i then lsb_ops x is n
      else (let n1 = lsb_count (xq_abs x i) n; n2 = lsb_count (xq_abs x (i + 1)) n1
            in lsb_value_ops (xq_abs x i) (xq_neg x i) n @
               lsb_value_ops (xq_abs x (i + 1)) (xq_neg x (i + 1)) n1 @ lsb_ops x is n2))"

text \<open>What the pairs need, when the count is large enough.\<close>

fun lsb_total :: "u16 list \<Rightarrow> nat list \<Rightarrow> int" where
  "lsb_total x [] = 0"
| "lsb_total x (i # is) = lsb_total x is +
     (if escaped x i then 2 + of_bool (xq_abs x i = 1) + of_bool (xq_abs x (i + 1) = 1) else 0)"

lemma put_lsb_value:
  "wr_ops (lsb_value_ops c neg (fst st) @ xs) (snd st) =
     wr_ops xs (snd (if c = 1 then put_lsb_bit neg (put_lsb_bit (c AND 1) st) else put_lsb_bit (c AND 1) st))"
  "fst (if c = 1 then put_lsb_bit neg (put_lsb_bit (c AND 1) st) else put_lsb_bit (c AND 1) st) = lsb_count c (fst st)"
  by (cases st; auto simp: lsb_value_ops_def put_lsb_bit_def lsb_count_def lc3_put_bit_def)+

lemma put_lsb_ops: "Some (put_lsb bits n x nq) = wr_ops (lsb_ops x (evens 0 nq) n) bits"
proof -
  let ?f = "\<lambda>st i.
       let a = xq_abs x i; b = xq_abs x (i + 1); a_neg = xq_neg x i; b_neg = xq_neg x (i + 1)
       in if fst st \<le> 0 \<or> drop_bit 2 (a OR b) = 0 then st
          else let st = put_lsb_bit (a AND 1) st;
                   st = (if a = 1 then put_lsb_bit a_neg st else st);
                   st = put_lsb_bit (b AND 1) st
               in if b = 1 then put_lsb_bit b_neg st else st"
  define f where "f = ?f"
  have "Some (snd (foldl f (n, bits) is)) = wr_ops (lsb_ops x is n) bits" for "is" n bits
  proof (induction "is" arbitrary: n bits)
    case (Cons i "is")
    define a b where "a = xq_abs x i" and "b = xq_abs x (i + 1)"
    define an bn where "an = xq_neg x i" and "bn = xq_neg x (i + 1)"
    note defs = a_def [symmetric] b_def [symmetric] an_def [symmetric] bn_def [symmetric]
    define st1 where "st1 = (if a = 1 then put_lsb_bit an (put_lsb_bit (a AND 1) (n, bits)) else put_lsb_bit (a AND 1) (n, bits))"
    define st2 where "st2 = (if b = 1 then put_lsb_bit bn (put_lsb_bit (b AND 1) st1) else put_lsb_bit (b AND 1) st1)"
    have 1: "fst st1 = lsb_count a n" "wr_ops (lsb_value_ops a an n @ xs) bits = wr_ops xs (snd st1)" for xs
      unfolding st1_def using put_lsb_value [of a an "(n, bits)"] by simp_all
    have 2: "fst st2 = lsb_count b (lsb_count a n)"
      "wr_ops (lsb_value_ops b bn (lsb_count a n) @ xs) (snd st1) = wr_ops xs (snd st2)" for xs
      unfolding st2_def 1(1) [symmetric] by (rule put_lsb_value)+
    have f: "f (n, bits) i = (if n \<le> 0 \<or> \<not> escaped x i then (n, bits) else st2)"
      unfolding f_def Let_def escaped_def defs fst_conv st2_def st1_def by simp
    show ?case
    proof (cases "n \<le> 0 \<or> \<not> escaped x i")
      case True
      then show ?thesis using Cons [of n bits] by (simp add: f)
    next
      case False
      have "lsb_ops x (i # is) n = lsb_value_ops a an n @ lsb_value_ops b bn (lsb_count a n) @ lsb_ops x is (fst st2)"
        using False unfolding lsb_ops.simps Let_def defs 2(1) by (simp only: if_False)
      then have "wr_ops (lsb_ops x (i # is) n) bits = wr_ops (lsb_ops x is (fst st2)) (snd st2)"
        by (simp only: 1(2) 2(2))
      then show ?thesis using Cons [of "fst st2" "snd st2"] False by (simp add: f)
    qed
  qed simp
  from this [of n bits "evens 0 nq"] show ?thesis by (simp only: put_lsb_def f_def)
qed

text \<open>A get: the value that it leaves, and the count, up to how far it is below 0.\<close>

lemma get_lsb_value_ops:
  assumes c: "0 \<le> c" "c < 2 ^ 15" and u: "u = (if odd s then - (c - c mod 2) else c - c mod 2)"
    and x: "xs ! i = f32_of_int u" "i < length xs" and seed: "0 \<le> seed" "seed < 65536"
    and ops: "rd_ops (lsb_value_ops c (s AND 1) n @ rest) bits = Some bits'"
  obtains n' v b1 where
    "get_lsb_value i (n, xs, seed, bits) = (n', xs[i := f32_of_int v], (seed + (\<bar>v\<bar> - \<bar>u\<bar>) * int i) mod 65536, b1)"
    "rd_ops rest b1 = Some bits'" "v = (if 1 + of_bool (c = 1) \<le> n then if odd s then - c else c else u)"
    "max 0 n' = max 0 (lsb_count c n)"
proof -
  have xu: "xs[i := f32_of_int u] = xs" using x by (metis list_update_id)
  have c24: "\<bar>c\<bar> < 2 ^ 24" "\<bar>u\<bar> < 2 ^ 24" using c by (auto simp: u)
  show thesis
  proof (cases "n > 0")
    case False
    then have "\<not> 1 + of_bool (c = 1) \<le> n" by (simp add: of_bool_def)
    then show thesis
      using False ops xu seed by (intro that [of "n - 1" u bits]) (auto simp: get_lsb_value_def lsb_value_ops_def lsb_count_def)
  next
    case True
    let ?rest = "(if c = 1 \<and> n > 1 then [Bits (word_of_int (s AND 1)) 1] else []) @ rest"
    have "rd_ops (Bits (word_of_int (c AND 1)) 1 # ?rest) bits = Some bits'"
      using ops True by (simp add: lsb_value_ops_def del: rd_ops.simps)
    then obtain v b1 where 1: "lc3_get_bit bits = (v, b1)" "uint v = c AND 1" "rd_ops ?rest b1 = Some bits'"
      by (rule rd_ops_bit)
    have v: "v \<noteq> 0 \<longleftrightarrow> odd c" using 1(2) by (auto simp: and_one_eq uint_0_iff [symmetric] odd_iff_mod_2_eq_one)
    consider "even c" | "odd c" "c \<noteq> 1" | "c = 1" "n > 1" | "c = 1" "n = 1" using True by force
    then show thesis
    proof cases
      assume e: "even c"
      then have "u = (if odd s then - c else c)" "c \<noteq> 1" by (auto simp: u)
      then show thesis
        using True 1 v e xu seed
        by (intro that [of "n - 1" u b1]) (auto simp: get_lsb_value_def lsb_count_def)
    next
      assume e: "odd c" "c \<noteq> 1"
      then have "c \<ge> 3" using c by presburger
      then have u1: "\<bar>u\<bar> = c - 1" "u < 0 \<longleftrightarrow> odd s" "u \<noteq> 0" using e by (auto simp: u odd_iff_mod_2_eq_one)
      define w where "w = (if odd s then - c else c)"
      have w: "\<bar>w\<bar> - \<bar>u\<bar> = 1" using u1 \<open>c \<ge> 3\<close> by (simp add: w_def)
      have d: "(if odd s then - 1 else 1) + u = w"
        using u1 e by (auto simp: w_def u odd_iff_mod_2_eq_one)
      then have "f32_add (f32_of_int u) (f32_of_int (if odd s then - 1 else 1)) = f32_of_int w"
        using f32_add_of_int [of u "if odd s then - 1 else 1"] u1 c \<open>c \<ge> 3\<close> by (auto simp: add.commute w_def)
      then have "get_lsb_value i (n, xs, seed, bits) = (n - 1, xs[i := f32_of_int w], (seed + int i) mod 65536, b1)"
        using True 1 v e x c24 u1 by (simp add: get_lsb_value_def f32_abs_of_int f32_eq_of_int_0 f32_lt_of_int_0 and_mask16)
      then show thesis
        using 1(3) e w True by (intro that [of "n - 1" w b1]) (auto simp: lsb_count_def w_def)
    next
      assume e: "c = 1" "n > 1"
      have "rd_ops (Bits (word_of_int (s AND 1)) 1 # rest) b1 = Some bits'"
        using 1(3) e by (simp del: rd_ops.simps)
      then obtain v2 b2 where 2: "lc3_get_bit b1 = (v2, b2)" "uint v2 = s AND 1" "rd_ops rest b2 = Some bits'"
        by (rule rd_ops_bit)
      have v2: "v2 \<noteq> 0 \<longleftrightarrow> odd s" using 2(2) by (auto simp: and_one_eq uint_0_iff [symmetric] odd_iff_mod_2_eq_one)
      have "u = 0" using e by (simp add: u)
      then have "get_lsb_value i (n, xs, seed, bits) =
          (n - 2, xs[i := f32_of_int (if odd s then - 1 else 1)], (seed + int i) mod 65536, b2)"
        using True 1 2 v v2 e x by (simp add: get_lsb_value_def f32_abs_of_int f32_eq_of_int_0 and_mask16)
      then show thesis
        using 2(3) e \<open>u = 0\<close> by (intro that [of "n - 2" "if odd s then - 1 else 1" b2]) (auto simp: lsb_count_def)
    next
      assume e: "c = 1" "n = 1"
      have "u = 0" using e by (simp add: u)
      then show thesis
        using True 1 v e x xu seed
        by (intro that [of "n - 2" u b1]) (auto simp: get_lsb_value_def f32_abs_of_int f32_eq_of_int_0 lsb_count_def)
    qed
  qed
qed

lemma lsb_count_cong: "max 0 m = max 0 n \<Longrightarrow> max 0 (lsb_count c m) = max 0 (lsb_count c n)"
  by (auto simp: lsb_count_def max_def split: if_splits)

lemma lsb_value_ops_cong: "max 0 m = max 0 n \<Longrightarrow> lsb_value_ops c s m = lsb_value_ops c s n"
  by (auto simp: lsb_value_ops_def max_def split: if_splits)

lemma lsb_ops_cong: "max 0 m = max 0 n \<Longrightarrow> lsb_ops x is m = lsb_ops x is n"
proof (induction "is" arbitrary: m n)
  case (Cons i "is")
  note c = lsb_count_cong [OF Cons.prems]
  have "m \<le> 0 \<longleftrightarrow> n \<le> 0" using Cons.prems by (auto simp: max_def split: if_splits)
  then show ?case
    unfolding lsb_ops.simps Let_def
    by (simp only: Cons.IH [OF Cons.prems] Cons.IH [OF lsb_count_cong [OF c]] lsb_value_ops_cong [OF Cons.prems]
        lsb_value_ops_cong [OF c])
qed simp

lemma seed_update:
  fixes v :: "nat \<Rightarrow> int"
  assumes "i < N"
  shows "(\<Sum>j<N. \<bar>(v(i := a)) j\<bar> * int j) = (\<Sum>j<N. \<bar>v j\<bar> * int j) + (\<bar>a\<bar> - \<bar>v i\<bar>) * int i"
proof -
  have i: "i \<in> {..<N}" "finite {..<N}" using assms by simp_all
  have "(\<Sum>j\<in>{..<N} - {i}. \<bar>(v(i := a)) j\<bar> * int j) = (\<Sum>j\<in>{..<N} - {i}. \<bar>v j\<bar> * int j)"
    by (rule sum.cong) auto
  then show ?thesis by (simp add: sum.remove [OF i(2,1)] algebra_simps)
qed

lemma coded_value_pair:
  assumes "even i" "j = i \<or> j = i + 1"
  shows "coded_value lsb x j = signed_abs x j
    (if lsb \<and> escaped x i then xq_abs x j - xq_abs x j mod 2 else xq_abs x j)"
proof -
  have "j - j mod 2 = i" using assms by (auto elim!: evenE)
  moreover have "push_bit 1 (drop_bit 1 c) = c - c mod 2" for c :: int
    by (simp add: drop_bit_eq_div push_bit_eq_mult minus_mod_eq_div_mult)
  ultimately show ?thesis
    by (simp add: coded_value_def pair_value_def pair_coded_def pair_skip_def escaped_def Let_def of_bool_def)
qed

lemma f32_fmax_of_int:
  assumes "\<bar>m\<bar> < 2 ^ 24" "\<bar>n\<bar> < 2 ^ 24"
  shows "f32_fmax (f32_of_int m) (f32_of_int n) = f32_of_int (max m n)"
proof -
  have "f32_of_int m \<noteq> FNan" by (simp add: f32_of_int_def f32_round_def split: prod.split)
  then show ?thesis using assms by (auto simp: f32_fmax_def f32_lt_of_int max_def)
qed

lemma escaped_iff: "escaped x i \<longleftrightarrow> 4 \<le> max (xq_abs x i) (xq_abs x (i + 1))"
proof -
  have d: "drop_bit 2 c = 0 \<longleftrightarrow> c < 4" if "0 \<le> c" for c :: int
    using that by (simp add: drop_bit_eq_div zdiv_eq_0_iff) linarith
  have "drop_bit 2 (a OR b) = 0 \<longleftrightarrow> a < 4 \<and> b < 4" if "0 \<le> a" "0 \<le> b" for a b :: int
    using that d by (simp add: or_eq_0_iff)
  then show ?thesis unfolding escaped_def by (simp only: xq_abs_bounds) linarith
qed

lemma lsb_skip:
  assumes "even i" "xs ! i = f32_of_int (coded_value True x i)" "xs ! (i + 1) = f32_of_int (coded_value True x (i + 1))"
  shows "f32_lt (f32_fmax (f32_abs (xs ! i)) (f32_abs (xs ! (i + 1)))) (f32_of_int 4) \<longleftrightarrow> \<not> escaped x i"
proof -
  define a b where "a = xq_abs x i" and "b = xq_abs x (i + 1)"
  have ab: "0 \<le> a" "a < 32768" "0 \<le> b" "b < 32768" unfolding a_def b_def by (rule xq_abs_bounds)+
  let ?c = "\<lambda>c. if escaped x i then c - c mod 2 else c"
  have "\<bar>coded_value True x j\<bar> = ?c (xq_abs x j)" if "j = i \<or> j = i + 1" for j
    unfolding coded_value_pair [OF assms(1) that] using zmod_le_nonneg_dividend [of "xq_abs x j" 2] by simp
  then have c: "\<bar>coded_value True x i\<bar> = ?c a" "\<bar>coded_value True x (i + 1)\<bar> = ?c b"
    unfolding a_def b_def by blast+
  have "?c a < 2 ^ 24" "?c b < 2 ^ 24" "0 \<le> ?c a" "0 \<le> ?c b"
    using ab zmod_le_nonneg_dividend [OF ab(1), of 2] zmod_le_nonneg_dividend [OF ab(3), of 2] by auto
  moreover have "max (?c a) (?c b) < 4 \<longleftrightarrow> \<not> escaped x i"
  proof (cases "escaped x i")
    case True
    then have "4 \<le> max a b" unfolding escaped_iff a_def b_def by simp
    moreover have "4 \<le> a - a mod 2 \<longleftrightarrow> 4 \<le> a" "4 \<le> b - b mod 2 \<longleftrightarrow> 4 \<le> b" by presburger+
    ultimately show ?thesis using True by auto
  next
    case False
    then have "max a b < 4" unfolding escaped_iff a_def b_def by (simp only: not_le)
    with False show ?thesis by simp
  qed
  moreover have "f32_lt (f32_of_int (max (?c a) (?c b))) (f32_of_int 4) \<longleftrightarrow> max (?c a) (?c b) < 4"
    by (rule f32_lt_of_int) (use calculation in auto)
  ultimately show ?thesis
    unfolding assms(2,3) using c by (simp only: f32_abs_of_int f32_fmax_of_int abs_of_nonneg)
qed

text \<open>
  The state of the loop: the values \<open>v\<close>, of which the pairs still to visit are as the pairs
  of the stream have given them, and the seed, always the one of these values.
\<close>

definition seed_of :: "nat \<Rightarrow> (nat \<Rightarrow> int) \<Rightarrow> int" where
  "seed_of N v = (\<Sum>j<N. \<bar>v j\<bar> * int j) mod 65536"

definition values_are :: "nat \<Rightarrow> (nat \<Rightarrow> int) \<Rightarrow> f32 list \<Rightarrow> bool" where
  "values_are N v xs \<longleftrightarrow> N \<le> length xs \<and> (\<forall>j<N. xs ! j = f32_of_int (v j))"

lemma values_are_update:
  "values_are N v xs \<Longrightarrow> i < N \<Longrightarrow> values_are N (v(i := a)) (xs[i := f32_of_int a])"
  by (auto simp: values_are_def nth_list_update)

lemma seed_of_update:
  assumes "i < N"
  shows "(seed_of N v + (\<bar>a\<bar> - \<bar>v i\<bar>) * int i) mod 65536 = seed_of N (v(i := a))"
  unfolding seed_of_def seed_update [OF assms] by (simp add: mod_add_left_eq)

lemma seed_of_bounds: "0 \<le> seed_of N v" "seed_of N v < 65536"
  by (simp_all add: seed_of_def)

text \<open>
  The values after the low bits, when \<open>n\<close> bits are left: the ones of a pair that the stream has
  without its low bits get theirs as long as the count allows, a sign included where the
  low bit makes the first difference from zero.
\<close>

definition lsb_got :: "u16 list \<Rightarrow> nat \<Rightarrow> int \<Rightarrow> (nat \<Rightarrow> int) \<Rightarrow> nat \<Rightarrow> int" where
  "lsb_got x j n v = (if 1 + of_bool (xq_abs x j = 1) \<le> n then v(j := exact_value x j) else v)"

fun lsb_values :: "u16 list \<Rightarrow> nat list \<Rightarrow> int \<Rightarrow> (nat \<Rightarrow> int) \<Rightarrow> nat \<Rightarrow> int" where
  "lsb_values x [] n v = v"
| "lsb_values x (i # is) n v =
     (if n \<le> 0 \<or> \<not> escaped x i then lsb_values x is n v
      else (let n1 = lsb_count (xq_abs x i) n; n2 = lsb_count (xq_abs x (i + 1)) n1
            in lsb_values x is n2 (lsb_got x (i + 1) n1 (lsb_got x i n v))))"

lemma get_lsb_step:
  assumes vs: "values_are N v xs" and j: "j < N" and vj: "v j = signed_abs x j (xq_abs x j - xq_abs x j mod 2)"
    and ops: "rd_ops (lsb_value_ops (xq_abs x j) (xq_neg x j) n @ rest) bits = Some bits'" and n: "max 0 m = max 0 n"
  obtains n' xs' b1 where "get_lsb_value j (m, xs, seed_of N v, bits) = (n', xs', seed_of N (lsb_got x j n v), b1)"
    "rd_ops rest b1 = Some bits'" "max 0 n' = max 0 (lsb_count (xq_abs x j) n)"
    "values_are N (lsb_got x j n v) xs'" "length xs' = length xs" "\<And>k. k \<noteq> j \<Longrightarrow> xs' ! k = xs ! k"
proof -
  have x: "xs ! j = f32_of_int (v j)" "j < length xs" using vs j by (simp_all add: values_are_def)
  have ops': "rd_ops (lsb_value_ops (xq_abs x j) (uint (x ! j) AND 1) m @ rest) bits = Some bits'"
    using ops lsb_value_ops_cong [OF n] by simp
  obtain n' u b1 where 1: "get_lsb_value j (m, xs, seed_of N v, bits) =
      (n', xs[j := f32_of_int u], (seed_of N v + (\<bar>u\<bar> - \<bar>v j\<bar>) * int j) mod 65536, b1)"
    "rd_ops rest b1 = Some bits'" "u = (if 1 + of_bool (xq_abs x j = 1) \<le> m then exact_value x j else v j)"
    "max 0 n' = max 0 (lsb_count (xq_abs x j) m)"
    unfolding exact_value_def
    by (rule get_lsb_value_ops [OF xq_abs_bounds(1,2) vj x seed_of_bounds ops']) blast
  have "1 + of_bool (xq_abs x j = 1) \<le> m \<longleftrightarrow> 1 + of_bool (xq_abs x j = 1) \<le> n"
    using n by (cases "xq_abs x j = 1") (auto simp: max_def split: if_splits)
  then have u: "v(j := u) = lsb_got x j n v" using 1(3) by (auto simp: lsb_got_def)
  show thesis
  proof (rule that [OF 1(1) [unfolded seed_of_update [OF j] u] 1(2)])
    show "max 0 n' = max 0 (lsb_count (xq_abs x j) n)" using 1(4) lsb_count_cong [OF n] by simp
    show "values_are N (lsb_got x j n v) (xs[j := f32_of_int u])" unfolding u [symmetric] by (rule values_are_update [OF vs j])
  qed simp_all
qed

lemma lsb_got_other: "k \<noteq> j \<Longrightarrow> lsb_got x j n v k = v k"
  by (simp add: lsb_got_def)

lemma lsb_total_nonneg: "0 \<le> lsb_total x is"
  by (induction "is") auto

text \<open>With bits enough for all of them, all values are exact.\<close>

lemma lsb_values_other: "(\<And>i. i \<in> set is \<Longrightarrow> j \<noteq> i \<and> j \<noteq> i + 1) \<Longrightarrow> lsb_values x is n v j = v j"
  by (induction "is" arbitrary: n v) (simp_all add: Let_def lsb_got_other)

lemma lsb_values_exact:
  assumes "lsb_total x is \<le> n" "distinct is" "\<And>i. i \<in> set is \<Longrightarrow> even i"
    and "\<And>i j. i \<in> set is \<Longrightarrow> j = i \<or> j = i + 1 \<Longrightarrow> v j = coded_value True x j"
    and "i \<in> set is" "j = i \<or> j = i + 1"
  shows "lsb_values x is n v j = exact_value x j"
  using assms
proof (induction "is" arbitrary: n v)
  case (Cons h "is")
  have h: "even h" "even i" using Cons.prems(3,5) by auto
  have sep: "k \<noteq> h \<and> k \<noteq> h + 1 \<and> k + 1 \<noteq> h" if "k \<in> set is" for k
    using that Cons.prems(2) Cons.prems(3) [of k] h(1) by auto
  define p q :: int where "p = of_bool (xq_abs x h = 1)" and "q = of_bool (xq_abs x (h + 1) = 1)"
  have pq: "0 \<le> lsb_total x is" "0 \<le> p" "0 \<le> q" by (simp_all add: lsb_total_nonneg p_def q_def)
  have total: "lsb_total x (h # is) = lsb_total x is + (if escaped x h then 2 + p + q else 0)" by (simp add: p_def q_def)
  show ?case
  proof (cases "escaped x h")
    case False
    have e: "lsb_values x (h # is) n v = lsb_values x is n v" using False by simp
    show ?thesis
    proof (cases "i = h")
      case True
      have "lsb_values x is n v j = v j" by (rule lsb_values_other) (use sep True Cons.prems(6) in auto)
      moreover have "v j = exact_value x j"
        using Cons.prems(4) [of h j] Cons.prems(6) False True
        by (simp add: coded_value_pair [OF h(1)] exact_value_def)
      ultimately show ?thesis unfolding e by simp
    next
      case i: False
      show ?thesis unfolding e by (rule Cons.IH) (use Cons.prems total False i in auto)
    qed
  next
    case True
    define n1 n2 where "n1 = lsb_count (xq_abs x h) n" and "n2 = lsb_count (xq_abs x (h + 1)) n1"
    have n: "1 + p \<le> n" "1 + q \<le> n1" "lsb_total x is \<le> n2" "0 < n"
      using Cons.prems(1) pq True unfolding total n1_def n2_def lsb_count_def p_def [symmetric] q_def [symmetric] by simp_all
    define v' where "v' = v(h := exact_value x h, h + 1 := exact_value x (h + 1))"
    have "lsb_got x (h + 1) n1 (lsb_got x h n v) = v'" using n(1,2) by (simp add: lsb_got_def v'_def p_def q_def)
    then have e: "lsb_values x (h # is) n v = lsb_values x is n2 v'"
      using True n(4) unfolding lsb_values.simps Let_def n1_def [symmetric] n2_def [symmetric] by simp
    show ?thesis
    proof (cases "i = h")
      case i: True
      have "lsb_values x is n2 v' j = v' j" by (rule lsb_values_other) (use sep i Cons.prems(6) in auto)
      then show ?thesis using Cons.prems(6) i unfolding e by (auto simp: v'_def)
    next
      case i: False
      have "v' k = coded_value True x k" if "l \<in> set is" "k = l \<or> k = l + 1" for l k
        using sep [OF that(1)] that Cons.prems(4) [of l k] by (auto simp: v'_def)
      then show ?thesis unfolding e by (intro Cons.IH [OF n(3)]) (use Cons.prems i in auto)
    qed
  qed
qed simp

lemma get_lsb_loop:
  assumes "values_are N v xs" "distinct is" "\<And>i. i \<in> set is \<Longrightarrow> even i \<and> i + 1 < N"
    and "\<And>i. i \<in> set is \<Longrightarrow> v i = coded_value True x i \<and> v (i + 1) = coded_value True x (i + 1)"
    and "rd_ops (lsb_ops x is n) bits = Some bits'" "max 0 m = max 0 n"
  defines "f \<equiv> \<lambda>st i. case st of (nbits, x, seed, bits) \<Rightarrow>
         if nbits \<le> 0 \<or> f32_lt (f32_fmax (f32_abs (x ! i)) (f32_abs (x ! (i + 1)))) (f32_of_int 4) then st
         else get_lsb_value (i + 1) (get_lsb_value i st)"
  shows "\<exists>xs'. snd (foldl f (m, xs, seed_of N v, bits) is) = (xs', seed_of N (lsb_values x is n v), bits') \<and>
    values_are N (lsb_values x is n v) xs' \<and> length xs' = length xs \<and> (\<forall>j \<ge> N. xs' ! j = xs ! j)"
  using assms(1-6)
proof (induction "is" arbitrary: n m v xs bits)
  case (Cons i "is")
  note vs = Cons.prems(1)
  have i: "even i" "i + 1 < N" "i < N" using Cons.prems(3) [of i] by simp_all
  have vi: "v i = coded_value True x i" "v (i + 1) = coded_value True x (i + 1)" using Cons.prems(4) [of i] by simp_all
  have xi: "xs ! i = f32_of_int (coded_value True x i)" "xs ! (i + 1) = f32_of_int (coded_value True x (i + 1))"
    using vs i vi by (auto simp: values_are_def)
  have sep: "j \<noteq> i \<and> j \<noteq> i + 1 \<and> i \<noteq> j + 1" if "j \<in> set is" for j
    using that Cons.prems(2) Cons.prems(3) [of j] i(1) by auto
  have m: "m \<le> 0 \<longleftrightarrow> n \<le> 0" using Cons.prems(6) by (auto simp: max_def split: if_splits)
  have is_props: "distinct is" "\<And>j. j \<in> set is \<Longrightarrow> even j \<and> j + 1 < N"
    using Cons.prems(2,3) by simp_all
  show ?case
  proof (cases "n \<le> 0 \<or> \<not> escaped x i")
    case True
    have f: "f (m, xs, seed_of N v, bits) i = (m, xs, seed_of N v, bits)"
      using True m lsb_skip [OF i(1) xi] by (auto simp: f_def)
    have "rd_ops (lsb_ops x is n) bits = Some bits'" using Cons.prems(5) True by (auto simp del: rd_ops.simps)
    from Cons.IH [OF vs is_props _ this Cons.prems(6)] Cons.prems(4) True show ?thesis by (simp add: f)
  next
    case False
    then have n: "0 < n" and e: "escaped x i" by simp_all
    define n1 n2 where "n1 = lsb_count (xq_abs x i) n" and "n2 = lsb_count (xq_abs x (i + 1)) n1"
    have cv: "v i = signed_abs x i (xq_abs x i - xq_abs x i mod 2)"
      "v (i + 1) = signed_abs x (i + 1) (xq_abs x (i + 1) - xq_abs x (i + 1) mod 2)"
      using vi e by (simp_all add: coded_value_pair [OF i(1)])
    have ops: "rd_ops (lsb_value_ops (xq_abs x i) (xq_neg x i) n @ lsb_value_ops (xq_abs x (i + 1)) (xq_neg x (i + 1)) n1 @
        lsb_ops x is n2) bits = Some bits'"
      using Cons.prems(5) False by (simp add: Let_def n1_def n2_def del: rd_ops.simps)
    define v1 where "v1 = lsb_got x i n v"
    obtain m1 xs1 b1 where 1: "get_lsb_value i (m, xs, seed_of N v, bits) = (m1, xs1, seed_of N v1, b1)"
      "rd_ops (lsb_value_ops (xq_abs x (i + 1)) (xq_neg x (i + 1)) n1 @ lsb_ops x is n2) b1 = Some bits'"
      "max 0 m1 = max 0 n1" "values_are N v1 xs1" "length xs1 = length xs" "\<And>k. k \<noteq> i \<Longrightarrow> xs1 ! k = xs ! k"
      unfolding n1_def v1_def by (rule get_lsb_step [OF vs i(3) cv(1) ops [unfolded n1_def] Cons.prems(6)]) blast
    have cv1: "v1 (i + 1) = signed_abs x (i + 1) (xq_abs x (i + 1) - xq_abs x (i + 1) mod 2)"
      using cv(2) by (simp add: v1_def lsb_got_other)
    define v2 where "v2 = lsb_got x (i + 1) n1 v1"
    obtain m2 xs2 b2 where 2: "get_lsb_value (i + 1) (m1, xs1, seed_of N v1, b1) = (m2, xs2, seed_of N v2, b2)"
      "rd_ops (lsb_ops x is n2) b2 = Some bits'" "max 0 m2 = max 0 n2" "values_are N v2 xs2" "length xs2 = length xs1"
      "\<And>k. k \<noteq> i + 1 \<Longrightarrow> xs2 ! k = xs1 ! k"
      unfolding n2_def v2_def by (rule get_lsb_step [OF 1(4) i(2) cv1 1(2,3) [unfolded n2_def]]) blast
    have f: "f (m, xs, seed_of N v, bits) i = (m2, xs2, seed_of N v2, b2)"
      using n e m lsb_skip [OF i(1) xi] 1(1) 2(1) by (auto simp: f_def)
    have "v2 j = coded_value True x j \<and> v2 (j + 1) = coded_value True x (j + 1)" if "j \<in> set is" for j
      using sep [OF that] Cons.prems(4) [of j] that by (auto simp: v2_def v1_def lsb_got_other)
    from Cons.IH [OF 2(4) is_props this 2(2,3)] obtain xs' where
      "snd (foldl f (m2, xs2, seed_of N v2, b2) is) = (xs', seed_of N (lsb_values x is n2 v2), bits')"
      "values_are N (lsb_values x is n2 v2) xs'" "length xs' = length xs2" "\<forall>j \<ge> N. xs' ! j = xs2 ! j" by blast
    moreover have "lsb_values x (i # is) n v = lsb_values x is n2 v2"
      using False by (simp add: Let_def n1_def n2_def v1_def v2_def)
    moreover have "xs2 ! j = xs ! j" if "N \<le> j" for j using 1(6) [of j] 2(6) [of j] that i(2) by simp
    ultimately show ?thesis using 1(5) 2(5) by (simp add: f)
  qed
qed simp

lemma get_lsb_ops:
  assumes vs: "values_are (2 * N) (coded_value True x) xs"
    and ops: "rd_ops (lsb_ops x (evens 0 (2 * int N)) n) bits = Some bits'"
  defines "v \<equiv> lsb_values x (evens 0 (2 * int N)) n (coded_value True x)"
  shows "\<exists>xs'. get_lsb bits n xs (2 * int N) (seed_of (2 * N) (coded_value True x)) =
      (xs', seed_of (2 * N) v, bits') \<and> values_are (2 * N) v xs' \<and> length xs' = length xs \<and>
    (\<forall>j \<ge> 2 * N. xs' ! j = xs ! j)"
    and "lsb_total x (evens 0 (2 * int N)) \<le> n \<Longrightarrow> j < 2 * N \<Longrightarrow> v j = exact_value x j"
proof -
  have ev: "i \<in> set (evens 0 (2 * int N)) \<longleftrightarrow> even i \<and> i + 1 < 2 * N" for i
    by (auto simp: evens_props elim!: evenE)
  show "\<exists>xs'. get_lsb bits n xs (2 * int N) (seed_of (2 * N) (coded_value True x)) =
      (xs', seed_of (2 * N) v, bits') \<and> values_are (2 * N) v xs' \<and> length xs' = length xs \<and>
    (\<forall>j \<ge> 2 * N. xs' ! j = xs ! j)"
    using get_lsb_loop [OF vs evens_props(2) _ _ ops refl] ev unfolding get_lsb_def v_def by blast
  assume a: "lsb_total x (evens 0 (2 * int N)) \<le> n" "j < 2 * N"
  define i where "i = 2 * (j div 2)"
  have "j div 2 < N" using a(2) by (simp add: less_mult_imp_div_less mult.commute)
  then have "i \<in> set (evens 0 (2 * int N))" "j = i \<or> j = i + 1" unfolding ev i_def by auto
  then show "v j = exact_value x j"
    unfolding v_def by (intro lsb_values_exact [OF a(1) evens_props(2)]) (use ev in auto)
qed

section \<open>Residual bits\<close>

text \<open>The number of coefficients before \<open>j\<close> that are not null: each has taken one bit.\<close>

definition rank_of :: "u16 list \<Rightarrow> nat \<Rightarrow> int" where
  "rank_of x j = int (length (filter (\<lambda>i. x ! i \<noteq> 0) [0 ..< j]))"

lemma rank_of_simps: "rank_of x 0 = 0" "rank_of x (Suc j) = rank_of x j + of_bool (x ! j \<noteq> 0)" "0 \<le> rank_of x j"
  by (simp_all add: rank_of_def)

definition residual_bit :: "u16 list \<Rightarrow> f32 list \<Rightarrow> nat \<Rightarrow> bool" where
  "residual_bit x xf j = f32_ge (xf ! j) (f32_of_int (exact_value x j))"

definition residual_ops :: "u16 list \<Rightarrow> f32 list \<Rightarrow> nat \<Rightarrow> int \<Rightarrow> bit_op list" where
  "residual_ops x xf N n = concat (map (\<lambda>j. if x ! j \<noteq> 0 \<and> rank_of x j < n
     then [Bits (word_of_int (of_bool (residual_bit x xf j))) 1] else []) [0 ..< N])"

lemma residual_ops_Suc:
  "residual_ops x xf (Suc N) n = residual_ops x xf N n @ (if x ! N \<noteq> 0 \<and> rank_of x N < n
     then [Bits (word_of_int (of_bool (residual_bit x xf N))) 1] else [])"
  by (simp add: residual_ops_def)

lemma put_residual_ops:
  assumes "0 \<le> n"
  shows "Some (put_residual bits n x (int N) xf) = wr_ops (residual_ops x xf N n) bits"
proof -
  define f where "f = (\<lambda>(nbits, bits) i.
       if nbits > 0 \<and> x ! i \<noteq> 0 then
         (let xq = f32_of_int (if xq_neg x i \<noteq> 0 then - xq_abs x i else xq_abs x i)
          in (nbits - 1, lc3_put_bit bits (of_bool (f32_ge (xf ! i) xq))))
       else (nbits, bits) :: int \<times> lc3_bits)"
  have ex: "(if xq_neg x i \<noteq> 0 then - xq_abs x i else xq_abs x i) = exact_value x i" for i
    by (simp add: exact_value_def and_one_eq odd_iff_mod_2_eq_one)
  have "\<exists>b. wr_ops (residual_ops x xf N n) bits = Some b \<and> foldl f (n, bits) [0 ..< N] = (n - min n (rank_of x N), b)"
  proof (induction N)
    case 0
    then show ?case using assms by (simp add: residual_ops_def rank_of_simps)
  next
    case (Suc N)
    then obtain b where b: "wr_ops (residual_ops x xf N n) bits = Some b"
      "foldl f (n, bits) [0 ..< N] = (n - min n (rank_of x N), b)" by blast
    then show ?case
      using assms rank_of_simps(3) [of x N]
      by (auto simp: residual_ops_Suc wr_ops_append f_def ex residual_bit_def lc3_put_bit_def rank_of_simps)
  qed
  then show ?thesis unfolding put_residual_def f_def [symmetric] by (auto simp: f_def)
qed

text \<open>Where the bits have come, they have refined the value; elsewhere it is the exact one.\<close>

definition refined_value :: "u16 list \<Rightarrow> f32 list \<Rightarrow> int \<Rightarrow> nat \<Rightarrow> f32" where
  "refined_value x xf n j =
     (let v = f32_of_int (exact_value x j)
      in if x ! j \<noteq> 0 \<and> rank_of x j < n then refine_value (residual_bit x xf j) v else v)"

lemma exact_value_bounds: "\<bar>exact_value x j\<bar> < 2 ^ 24"
proof -
  have "\<bar>exact_value x j\<bar> = xq_abs x j" by (simp add: exact_value_def)
  also have "\<dots> < 32768" by simp
  finally show ?thesis by simp
qed

lemma exact_value_eq_0: "x ! j \<noteq> 1 \<Longrightarrow> exact_value x j = 0 \<longleftrightarrow> x ! j = 0"
proof -
  assume "x ! j \<noteq> 1"
  then have "uint (x ! j) \<noteq> 1" using word_uint_eq_iff [of "x ! j" 1] by simp
  moreover have "0 \<le> uint (x ! j)" by simp
  ultimately have "drop_bit 1 (uint (x ! j)) = 0 \<longleftrightarrow> uint (x ! j) = 0"
    unfolding drop_bit_eq_div power_one_right by presburger
  then show ?thesis by (simp add: exact_value_def xq_abs_def uint_0_iff)
qed

lemma get_residual_ops:
  assumes n: "0 \<le> n" and ok: "\<And>j. j < N \<Longrightarrow> x ! j \<noteq> 1"
    and vs: "values_are N (exact_value x) xs" and ops: "rd_ops (residual_ops x xf N n) bits = Some bits'"
  shows "\<exists>xs'. get_residual bits n xs (int N) = (xs', bits') \<and> length xs' = length xs \<and>
    (\<forall>j<N. xs' ! j = refined_value x xf n j) \<and> (\<forall>j \<ge> N. xs' ! j = xs ! j)"
proof -
  define f where "f = (\<lambda>(nbits, x, bits) i.
       if nbits > 0 \<and> \<not> f32_eq (x ! i) f32_0 then
         (case lc3_get_bit bits of (v, bits) \<Rightarrow> (nbits - 1, x[i := refine_value (v \<noteq> 0) (x ! i)], bits))
       else (nbits, x, bits) :: int \<times> f32 list \<times> lc3_bits)"
  have "\<exists>xs'. foldl f (n, xs, bits) [0 ..< K] = (n - min n (rank_of x K), xs', b) \<and> length xs' = length xs \<and>
    (\<forall>j<K. xs' ! j = refined_value x xf n j) \<and> (\<forall>j \<ge> K. xs' ! j = xs ! j)"
    if "K \<le> N" "rd_ops (residual_ops x xf K n) bits = Some b" for K b
    using that
  proof (induction K arbitrary: b)
    case 0
    then show ?case using n by (simp add: residual_ops_def rank_of_simps)
  next
    case (Suc K)
    obtain b1 where b1: "rd_ops (residual_ops x xf K n) bits = Some b1"
      "rd_ops (if x ! K \<noteq> 0 \<and> rank_of x K < n then [Bits (word_of_int (of_bool (residual_bit x xf K))) 1] else []) b1 = Some b"
      using Suc.prems(2) unfolding residual_ops_Suc rd_ops_append bind_eq_Some_conv by blast
    obtain xs' where IH: "foldl f (n, xs, bits) [0 ..< K] = (n - min n (rank_of x K), xs', b1)" "length xs' = length xs"
      "\<forall>j<K. xs' ! j = refined_value x xf n j" "\<forall>j \<ge> K. xs' ! j = xs ! j"
      using Suc.IH [OF _ b1(1)] Suc.prems(1) by auto
    have K: "K < length xs" "xs' ! K = f32_of_int (exact_value x K)" using vs Suc.prems(1) IH(4) by (auto simp: values_are_def)
    have z: "f32_eq (xs' ! K) f32_0 \<longleftrightarrow> x ! K = 0"
      using f32_eq_of_int_0 [OF exact_value_bounds, of x K] exact_value_eq_0 [OF ok, of K] Suc.prems(1) K(2) by simp
    have step: "foldl f (n, xs, bits) [0 ..< Suc K] = (if n - min n (rank_of x K) > 0 \<and> x ! K \<noteq> 0
        then (case lc3_get_bit b1 of (v, bits) \<Rightarrow> (n - min n (rank_of x K) - 1, xs'[K := refine_value (v \<noteq> 0) (xs' ! K)], bits))
        else (n - min n (rank_of x K), xs', b1))"
      using IH(1) z unfolding upt_Suc_append [OF le0] foldl_append by (simp add: f_def)
    show ?case
    proof (cases "x ! K \<noteq> 0 \<and> rank_of x K < n")
      case True
      have bool: "of_bool p = of_bool p AND (1 :: int)" for p by (cases p) simp_all
      from b1(2) True have "rd_ops [Bits (word_of_int (of_bool (residual_bit x xf K) AND 1)) 1] b1 = Some b"
        unfolding bool [symmetric] by simp
      then obtain v b2 where v: "lc3_get_bit b1 = (v, b2)" "uint v = of_bool (residual_bit x xf K) AND 1" "rd_ops [] b2 = Some b"
        by (rule rd_ops_bit)
      have "v \<noteq> 0 \<longleftrightarrow> residual_bit x xf K" using v(2) by (cases "residual_bit x xf K") (auto simp: uint_0_iff [symmetric])
      then have "foldl f (n, xs, bits) [0 ..< Suc K] =
          (n - min n (rank_of x (Suc K)), xs'[K := refine_value (residual_bit x xf K) (f32_of_int (exact_value x K))], b)"
        using True v(1,3) K(2) unfolding step by (simp add: rank_of_simps)
      then show ?thesis
        using True IH(2-4) K(1) by (auto simp: refined_value_def Let_def less_Suc_eq nth_list_update)
    next
      case False
      then have "foldl f (n, xs, bits) [0 ..< Suc K] = (n - min n (rank_of x (Suc K)), xs', b)"
        using b1(2) n unfolding step by (auto simp: rank_of_simps min_def)
      moreover have "refined_value x xf n K = f32_of_int (exact_value x K)" using False by (auto simp: refined_value_def Let_def)
      ultimately show ?thesis using IH(2-4) K(2) by (auto simp: less_Suc_eq)
    qed
  qed
  from this [OF order_refl ops] show ?thesis unfolding get_residual_def f_def [symmetric] by auto
qed

end
