(* ===== verification/FftTables.thy ===== *)
theory FftTables
  imports Float32
begin

text \<open>The twiddle factors of the FFT, of \<^verbatim>\<open>tables.c\<close>. A complex number is the pair of its parts.
  The imaginary part of the first factors is a negative zero.\<close>

type_synonym complex32 = "f32 \<times> f32"

definition cpx_tab :: "((int \<times> int) \<times> (int \<times> int)) list \<Rightarrow> complex32 list" where
  "cpx_tab t = map (\<lambda>((d, k), (d', k')). (f32_dec d k, f32_dec d' k')) t"

definition fft_twiddles_15 :: "nat \<times> (complex32 \<times> complex32) list" where
  "fft_twiddles_15 =
     (5, zip
      ((f32_1, f32_neg f32_0) # cpx_tab [
       ((91354546, -8), (-40673664, -8)), ((66913061, -8), (-74314483, -8)),
       ((30901699, -8), (-95105652, -8)), ((-10452846, -8), (-99452190, -8)),
       ((-50000000, -8), (-86602540, -8)), ((-80901699, -8), (-58778525, -8)),
       ((-97814760, -8), (-20791169, -8)), ((-97814760, -8), (20791169, -8)),
       ((-80901699, -8), (58778525, -8)), ((-50000000, -8), (86602540, -8)),
       ((-10452846, -8), (99452190, -8)), ((30901699, -8), (95105652, -8)),
       ((66913061, -8), (74314483, -8)), ((91354546, -8), (40673664, -8))])
      ((f32_1, f32_neg f32_0) # cpx_tab [
       ((66913061, -8), (-74314483, -8)), ((-10452846, -8), (-99452190, -8)),
       ((-80901699, -8), (-58778525, -8)), ((-97814760, -8), (20791169, -8)),
       ((-50000000, -8), (86602540, -8)), ((30901699, -8), (95105652, -8)),
       ((91354546, -8), (40673664, -8)), ((91354546, -8), (-40673664, -8)),
       ((30901699, -8), (-95105652, -8)), ((-50000000, -8), (-86602540, -8)),
       ((-97814760, -8), (-20791169, -8)), ((-80901699, -8), (58778525, -8)),
       ((-10452846, -8), (99452190, -8)), ((66913061, -8), (74314483, -8))]))"

definition fft_twiddles_45 :: "nat \<times> (complex32 \<times> complex32) list" where
  "fft_twiddles_45 =
     (15, zip
      ((f32_1, f32_neg f32_0) # cpx_tab [
       ((99026807, -8), (-13917310, -8)), ((96126170, -8), (-27563736, -8)),
       ((91354546, -8), (-40673664, -8)), ((84804810, -8), (-52991926, -8)),
       ((76604444, -8), (-64278761, -8)), ((66913061, -8), (-74314483, -8)),
       ((55919290, -8), (-82903757, -8)), ((43837115, -8), (-89879405, -8)),
       ((30901699, -8), (-95105652, -8)), ((17364818, -8), (-98480775, -8)),
       ((34899497, -9), (-99939083, -8)), ((-10452846, -8), (-99452190, -8)),
       ((-24192190, -8), (-97029573, -8)), ((-37460659, -8), (-92718385, -8)),
       ((-50000000, -8), (-86602540, -8)), ((-61566148, -8), (-78801075, -8)),
       ((-71933980, -8), (-69465837, -8)), ((-80901699, -8), (-58778525, -8)),
       ((-88294759, -8), (-46947156, -8)), ((-93969262, -8), (-34202014, -8)),
       ((-97814760, -8), (-20791169, -8)), ((-99756405, -8), (-69756474, -9)),
       ((-99756405, -8), (69756474, -9)), ((-97814760, -8), (20791169, -8)),
       ((-93969262, -8), (34202014, -8)), ((-88294759, -8), (46947156, -8)),
       ((-80901699, -8), (58778525, -8)), ((-71933980, -8), (69465837, -8)),
       ((-61566148, -8), (78801075, -8)), ((-50000000, -8), (86602540, -8)),
       ((-37460659, -8), (92718385, -8)), ((-24192190, -8), (97029573, -8)),
       ((-10452846, -8), (99452190, -8)), ((34899497, -9), (99939083, -8)),
       ((17364818, -8), (98480775, -8)), ((30901699, -8), (95105652, -8)),
       ((43837115, -8), (89879405, -8)), ((55919290, -8), (82903757, -8)),
       ((66913061, -8), (74314483, -8)), ((76604444, -8), (64278761, -8)),
       ((84804810, -8), (52991926, -8)), ((91354546, -8), (40673664, -8)),
       ((96126170, -8), (27563736, -8)), ((99026807, -8), (13917310, -8))])
      ((f32_1, f32_neg f32_0) # cpx_tab [
       ((96126170, -8), (-27563736, -8)), ((84804810, -8), (-52991926, -8)),
       ((66913061, -8), (-74314483, -8)), ((43837115, -8), (-89879405, -8)),
       ((17364818, -8), (-98480775, -8)), ((-10452846, -8), (-99452190, -8)),
       ((-37460659, -8), (-92718385, -8)), ((-61566148, -8), (-78801075, -8)),
       ((-80901699, -8), (-58778525, -8)), ((-93969262, -8), (-34202014, -8)),
       ((-99756405, -8), (-69756474, -9)), ((-97814760, -8), (20791169, -8)),
       ((-88294759, -8), (46947156, -8)), ((-71933980, -8), (69465837, -8)),
       ((-50000000, -8), (86602540, -8)), ((-24192190, -8), (97029573, -8)),
       ((34899497, -9), (99939083, -8)), ((30901699, -8), (95105652, -8)),
       ((55919290, -8), (82903757, -8)), ((76604444, -8), (64278761, -8)),
       ((91354546, -8), (40673664, -8)), ((99026807, -8), (13917310, -8)),
       ((99026807, -8), (-13917310, -8)), ((91354546, -8), (-40673664, -8)),
       ((76604444, -8), (-64278761, -8)), ((55919290, -8), (-82903757, -8)),
       ((30901699, -8), (-95105652, -8)), ((34899497, -9), (-99939083, -8)),
       ((-24192190, -8), (-97029573, -8)), ((-50000000, -8), (-86602540, -8)),
       ((-71933980, -8), (-69465837, -8)), ((-88294759, -8), (-46947156, -8)),
       ((-97814760, -8), (-20791169, -8)), ((-99756405, -8), (69756474, -9)),
       ((-93969262, -8), (34202014, -8)), ((-80901699, -8), (58778525, -8)),
       ((-61566148, -8), (78801075, -8)), ((-37460659, -8), (92718385, -8)),
       ((-10452846, -8), (99452190, -8)), ((17364818, -8), (98480775, -8)),
       ((43837115, -8), (89879405, -8)), ((66913061, -8), (74314483, -8)),
       ((84804810, -8), (52991926, -8)), ((96126170, -8), (27563736, -8))]))"

definition lc3_fft_twiddles_bf3 :: "(nat \<times> (complex32 \<times> complex32) list) list" where
  "lc3_fft_twiddles_bf3 =
     [fft_twiddles_15, fft_twiddles_45]"

definition fft_twiddles_10 :: "nat \<times> complex32 list" where
  "fft_twiddles_10 =
     (5, (f32_1, f32_neg f32_0) # cpx_tab [
       ((80901699, -8), (-58778525, -8)), ((30901699, -8), (-95105652, -8)),
       ((-30901699, -8), (-95105652, -8)), ((-80901699, -8), (-58778525, -8))])"

definition fft_twiddles_20 :: "nat \<times> complex32 list" where
  "fft_twiddles_20 =
     (10, (f32_1, f32_neg f32_0) # cpx_tab [
       ((95105652, -8), (-30901699, -8)), ((80901699, -8), (-58778525, -8)),
       ((58778525, -8), (-80901699, -8)), ((30901699, -8), (-95105652, -8)),
       ((61232340, -24), (-10000000, -7)), ((-30901699, -8), (-95105652, -8)),
       ((-58778525, -8), (-80901699, -8)), ((-80901699, -8), (-58778525, -8)),
       ((-95105652, -8), (-30901699, -8))])"

definition fft_twiddles_30 :: "nat \<times> complex32 list" where
  "fft_twiddles_30 =
     (15, (f32_1, f32_neg f32_0) # cpx_tab [
       ((97814760, -8), (-20791169, -8)), ((91354546, -8), (-40673664, -8)),
       ((80901699, -8), (-58778525, -8)), ((66913061, -8), (-74314483, -8)),
       ((50000000, -8), (-86602540, -8)), ((30901699, -8), (-95105652, -8)),
       ((10452846, -8), (-99452190, -8)), ((-10452846, -8), (-99452190, -8)),
       ((-30901699, -8), (-95105652, -8)), ((-50000000, -8), (-86602540, -8)),
       ((-66913061, -8), (-74314483, -8)), ((-80901699, -8), (-58778525, -8)),
       ((-91354546, -8), (-40673664, -8)), ((-97814760, -8), (-20791169, -8))])"

definition fft_twiddles_40 :: "nat \<times> complex32 list" where
  "fft_twiddles_40 =
     (20, (f32_1, f32_neg f32_0) # cpx_tab [
       ((98768834, -8), (-15643447, -8)), ((95105652, -8), (-30901699, -8)),
       ((89100652, -8), (-45399050, -8)), ((80901699, -8), (-58778525, -8)),
       ((70710678, -8), (-70710678, -8)), ((58778525, -8), (-80901699, -8)),
       ((45399050, -8), (-89100652, -8)), ((30901699, -8), (-95105652, -8)),
       ((15643447, -8), (-98768834, -8)), ((61232340, -24), (-10000000, -7)),
       ((-15643447, -8), (-98768834, -8)), ((-30901699, -8), (-95105652, -8)),
       ((-45399050, -8), (-89100652, -8)), ((-58778525, -8), (-80901699, -8)),
       ((-70710678, -8), (-70710678, -8)), ((-80901699, -8), (-58778525, -8)),
       ((-89100652, -8), (-45399050, -8)), ((-95105652, -8), (-30901699, -8)),
       ((-98768834, -8), (-15643447, -8))])"

definition fft_twiddles_60 :: "nat \<times> complex32 list" where
  "fft_twiddles_60 =
     (30, (f32_1, f32_neg f32_0) # cpx_tab [
       ((99452190, -8), (-10452846, -8)), ((97814760, -8), (-20791169, -8)),
       ((95105652, -8), (-30901699, -8)), ((91354546, -8), (-40673664, -8)),
       ((86602540, -8), (-50000000, -8)), ((80901699, -8), (-58778525, -8)),
       ((74314483, -8), (-66913061, -8)), ((66913061, -8), (-74314483, -8)),
       ((58778525, -8), (-80901699, -8)), ((50000000, -8), (-86602540, -8)),
       ((40673664, -8), (-91354546, -8)), ((30901699, -8), (-95105652, -8)),
       ((20791169, -8), (-97814760, -8)), ((10452846, -8), (-99452190, -8)),
       ((28327694, -23), (-10000000, -7)), ((-10452846, -8), (-99452190, -8)),
       ((-20791169, -8), (-97814760, -8)), ((-30901699, -8), (-95105652, -8)),
       ((-40673664, -8), (-91354546, -8)), ((-50000000, -8), (-86602540, -8)),
       ((-58778525, -8), (-80901699, -8)), ((-66913061, -8), (-74314483, -8)),
       ((-74314483, -8), (-66913061, -8)), ((-80901699, -8), (-58778525, -8)),
       ((-86602540, -8), (-50000000, -8)), ((-91354546, -8), (-40673664, -8)),
       ((-95105652, -8), (-30901699, -8)), ((-97814760, -8), (-20791169, -8)),
       ((-99452190, -8), (-10452846, -8))])"

definition fft_twiddles_80 :: "nat \<times> complex32 list" where
  "fft_twiddles_80 =
     (40, (f32_1, f32_neg f32_0) # cpx_tab [
       ((99691733, -8), (-78459096, -9)), ((98768834, -8), (-15643447, -8)),
       ((97236992, -8), (-23344536, -8)), ((95105652, -8), (-30901699, -8)),
       ((92387953, -8), (-38268343, -8)), ((89100652, -8), (-45399050, -8)),
       ((85264016, -8), (-52249856, -8)), ((80901699, -8), (-58778525, -8)),
       ((76040597, -8), (-64944805, -8)), ((70710678, -8), (-70710678, -8)),
       ((64944805, -8), (-76040597, -8)), ((58778525, -8), (-80901699, -8)),
       ((52249856, -8), (-85264016, -8)), ((45399050, -8), (-89100652, -8)),
       ((38268343, -8), (-92387953, -8)), ((30901699, -8), (-95105652, -8)),
       ((23344536, -8), (-97236992, -8)), ((15643447, -8), (-98768834, -8)),
       ((78459096, -9), (-99691733, -8)), ((61232340, -24), (-10000000, -7)),
       ((-78459096, -9), (-99691733, -8)), ((-15643447, -8), (-98768834, -8)),
       ((-23344536, -8), (-97236992, -8)), ((-30901699, -8), (-95105652, -8)),
       ((-38268343, -8), (-92387953, -8)), ((-45399050, -8), (-89100652, -8)),
       ((-52249856, -8), (-85264016, -8)), ((-58778525, -8), (-80901699, -8)),
       ((-64944805, -8), (-76040597, -8)), ((-70710678, -8), (-70710678, -8)),
       ((-76040597, -8), (-64944805, -8)), ((-80901699, -8), (-58778525, -8)),
       ((-85264016, -8), (-52249856, -8)), ((-89100652, -8), (-45399050, -8)),
       ((-92387953, -8), (-38268343, -8)), ((-95105652, -8), (-30901699, -8)),
       ((-97236992, -8), (-23344536, -8)), ((-98768834, -8), (-15643447, -8)),
       ((-99691733, -8), (-78459096, -9))])"

definition fft_twiddles_90 :: "nat \<times> complex32 list" where
  "fft_twiddles_90 =
     (45, (f32_1, f32_neg f32_0) # cpx_tab [
       ((99756405, -8), (-69756474, -9)), ((99026807, -8), (-13917310, -8)),
       ((97814760, -8), (-20791169, -8)), ((96126170, -8), (-27563736, -8)),
       ((93969262, -8), (-34202014, -8)), ((91354546, -8), (-40673664, -8)),
       ((88294759, -8), (-46947156, -8)), ((84804810, -8), (-52991926, -8)),
       ((80901699, -8), (-58778525, -8)), ((76604444, -8), (-64278761, -8)),
       ((71933980, -8), (-69465837, -8)), ((66913061, -8), (-74314483, -8)),
       ((61566148, -8), (-78801075, -8)), ((55919290, -8), (-82903757, -8)),
       ((50000000, -8), (-86602540, -8)), ((43837115, -8), (-89879405, -8)),
       ((37460659, -8), (-92718385, -8)), ((30901699, -8), (-95105652, -8)),
       ((24192190, -8), (-97029573, -8)), ((17364818, -8), (-98480775, -8)),
       ((10452846, -8), (-99452190, -8)), ((34899497, -9), (-99939083, -8)),
       ((-34899497, -9), (-99939083, -8)), ((-10452846, -8), (-99452190, -8)),
       ((-17364818, -8), (-98480775, -8)), ((-24192190, -8), (-97029573, -8)),
       ((-30901699, -8), (-95105652, -8)), ((-37460659, -8), (-92718385, -8)),
       ((-43837115, -8), (-89879405, -8)), ((-50000000, -8), (-86602540, -8)),
       ((-55919290, -8), (-82903757, -8)), ((-61566148, -8), (-78801075, -8)),
       ((-66913061, -8), (-74314483, -8)), ((-71933980, -8), (-69465837, -8)),
       ((-76604444, -8), (-64278761, -8)), ((-80901699, -8), (-58778525, -8)),
       ((-84804810, -8), (-52991926, -8)), ((-88294759, -8), (-46947156, -8)),
       ((-91354546, -8), (-40673664, -8)), ((-93969262, -8), (-34202014, -8)),
       ((-96126170, -8), (-27563736, -8)), ((-97814760, -8), (-20791169, -8)),
       ((-99026807, -8), (-13917310, -8)), ((-99756405, -8), (-69756474, -9))])"

definition fft_twiddles_120 :: "nat \<times> complex32 list" where
  "fft_twiddles_120 =
     (60, (f32_1, f32_neg f32_0) # cpx_tab [
       ((99862953, -8), (-52335956, -9)), ((99452190, -8), (-10452846, -8)),
       ((98768834, -8), (-15643447, -8)), ((97814760, -8), (-20791169, -8)),
       ((96592583, -8), (-25881905, -8)), ((95105652, -8), (-30901699, -8)),
       ((93358043, -8), (-35836795, -8)), ((91354546, -8), (-40673664, -8)),
       ((89100652, -8), (-45399050, -8)), ((86602540, -8), (-50000000, -8)),
       ((83867057, -8), (-54463904, -8)), ((80901699, -8), (-58778525, -8)),
       ((77714596, -8), (-62932039, -8)), ((74314483, -8), (-66913061, -8)),
       ((70710678, -8), (-70710678, -8)), ((66913061, -8), (-74314483, -8)),
       ((62932039, -8), (-77714596, -8)), ((58778525, -8), (-80901699, -8)),
       ((54463904, -8), (-83867057, -8)), ((50000000, -8), (-86602540, -8)),
       ((45399050, -8), (-89100652, -8)), ((40673664, -8), (-91354546, -8)),
       ((35836795, -8), (-93358043, -8)), ((30901699, -8), (-95105652, -8)),
       ((25881905, -8), (-96592583, -8)), ((20791169, -8), (-97814760, -8)),
       ((15643447, -8), (-98768834, -8)), ((10452846, -8), (-99452190, -8)),
       ((52335956, -9), (-99862953, -8)), ((28327694, -23), (-10000000, -7)),
       ((-52335956, -9), (-99862953, -8)), ((-10452846, -8), (-99452190, -8)),
       ((-15643447, -8), (-98768834, -8)), ((-20791169, -8), (-97814760, -8)),
       ((-25881905, -8), (-96592583, -8)), ((-30901699, -8), (-95105652, -8)),
       ((-35836795, -8), (-93358043, -8)), ((-40673664, -8), (-91354546, -8)),
       ((-45399050, -8), (-89100652, -8)), ((-50000000, -8), (-86602540, -8)),
       ((-54463904, -8), (-83867057, -8)), ((-58778525, -8), (-80901699, -8)),
       ((-62932039, -8), (-77714596, -8)), ((-66913061, -8), (-74314483, -8)),
       ((-70710678, -8), (-70710678, -8)), ((-74314483, -8), (-66913061, -8)),
       ((-77714596, -8), (-62932039, -8)), ((-80901699, -8), (-58778525, -8)),
       ((-83867057, -8), (-54463904, -8)), ((-86602540, -8), (-50000000, -8)),
       ((-89100652, -8), (-45399050, -8)), ((-91354546, -8), (-40673664, -8)),
       ((-93358043, -8), (-35836795, -8)), ((-95105652, -8), (-30901699, -8)),
       ((-96592583, -8), (-25881905, -8)), ((-97814760, -8), (-20791169, -8)),
       ((-98768834, -8), (-15643447, -8)), ((-99452190, -8), (-10452846, -8)),
       ((-99862953, -8), (-52335956, -9))])"

definition fft_twiddles_160 :: "nat \<times> complex32 list" where
  "fft_twiddles_160 =
     (80, (f32_1, f32_neg f32_0) # cpx_tab [
       ((99922904, -8), (-39259816, -9)), ((99691733, -8), (-78459096, -9)),
       ((99306846, -8), (-11753740, -8)), ((98768834, -8), (-15643447, -8)),
       ((98078528, -8), (-19509032, -8)), ((97236992, -8), (-23344536, -8)),
       ((96245524, -8), (-27144045, -8)), ((95105652, -8), (-30901699, -8)),
       ((93819134, -8), (-34611706, -8)), ((92387953, -8), (-38268343, -8)),
       ((90814317, -8), (-41865974, -8)), ((89100652, -8), (-45399050, -8)),
       ((87249601, -8), (-48862124, -8)), ((85264016, -8), (-52249856, -8)),
       ((83146961, -8), (-55557023, -8)), ((80901699, -8), (-58778525, -8)),
       ((78531693, -8), (-61909395, -8)), ((76040597, -8), (-64944805, -8)),
       ((73432251, -8), (-67880075, -8)), ((70710678, -8), (-70710678, -8)),
       ((67880075, -8), (-73432251, -8)), ((64944805, -8), (-76040597, -8)),
       ((61909395, -8), (-78531693, -8)), ((58778525, -8), (-80901699, -8)),
       ((55557023, -8), (-83146961, -8)), ((52249856, -8), (-85264016, -8)),
       ((48862124, -8), (-87249601, -8)), ((45399050, -8), (-89100652, -8)),
       ((41865974, -8), (-90814317, -8)), ((38268343, -8), (-92387953, -8)),
       ((34611706, -8), (-93819134, -8)), ((30901699, -8), (-95105652, -8)),
       ((27144045, -8), (-96245524, -8)), ((23344536, -8), (-97236992, -8)),
       ((19509032, -8), (-98078528, -8)), ((15643447, -8), (-98768834, -8)),
       ((11753740, -8), (-99306846, -8)), ((78459096, -9), (-99691733, -8)),
       ((39259816, -9), (-99922904, -8)), ((61232340, -24), (-10000000, -7)),
       ((-39259816, -9), (-99922904, -8)), ((-78459096, -9), (-99691733, -8)),
       ((-11753740, -8), (-99306846, -8)), ((-15643447, -8), (-98768834, -8)),
       ((-19509032, -8), (-98078528, -8)), ((-23344536, -8), (-97236992, -8)),
       ((-27144045, -8), (-96245524, -8)), ((-30901699, -8), (-95105652, -8)),
       ((-34611706, -8), (-93819134, -8)), ((-38268343, -8), (-92387953, -8)),
       ((-41865974, -8), (-90814317, -8)), ((-45399050, -8), (-89100652, -8)),
       ((-48862124, -8), (-87249601, -8)), ((-52249856, -8), (-85264016, -8)),
       ((-55557023, -8), (-83146961, -8)), ((-58778525, -8), (-80901699, -8)),
       ((-61909395, -8), (-78531693, -8)), ((-64944805, -8), (-76040597, -8)),
       ((-67880075, -8), (-73432251, -8)), ((-70710678, -8), (-70710678, -8)),
       ((-73432251, -8), (-67880075, -8)), ((-76040597, -8), (-64944805, -8)),
       ((-78531693, -8), (-61909395, -8)), ((-80901699, -8), (-58778525, -8)),
       ((-83146961, -8), (-55557023, -8)), ((-85264016, -8), (-52249856, -8)),
       ((-87249601, -8), (-48862124, -8)), ((-89100652, -8), (-45399050, -8)),
       ((-90814317, -8), (-41865974, -8)), ((-92387953, -8), (-38268343, -8)),
       ((-93819134, -8), (-34611706, -8)), ((-95105652, -8), (-30901699, -8)),
       ((-96245524, -8), (-27144045, -8)), ((-97236992, -8), (-23344536, -8)),
       ((-98078528, -8), (-19509032, -8)), ((-98768834, -8), (-15643447, -8)),
       ((-99306846, -8), (-11753740, -8)), ((-99691733, -8), (-78459096, -9)),
       ((-99922904, -8), (-39259816, -9))])"

definition fft_twiddles_180 :: "nat \<times> complex32 list" where
  "fft_twiddles_180 =
     (90, (f32_1, f32_neg f32_0) # cpx_tab [
       ((99939083, -8), (-34899497, -9)), ((99756405, -8), (-69756474, -9)),
       ((99452190, -8), (-10452846, -8)), ((99026807, -8), (-13917310, -8)),
       ((98480775, -8), (-17364818, -8)), ((97814760, -8), (-20791169, -8)),
       ((97029573, -8), (-24192190, -8)), ((96126170, -8), (-27563736, -8)),
       ((95105652, -8), (-30901699, -8)), ((93969262, -8), (-34202014, -8)),
       ((92718385, -8), (-37460659, -8)), ((91354546, -8), (-40673664, -8)),
       ((89879405, -8), (-43837115, -8)), ((88294759, -8), (-46947156, -8)),
       ((86602540, -8), (-50000000, -8)), ((84804810, -8), (-52991926, -8)),
       ((82903757, -8), (-55919290, -8)), ((80901699, -8), (-58778525, -8)),
       ((78801075, -8), (-61566148, -8)), ((76604444, -8), (-64278761, -8)),
       ((74314483, -8), (-66913061, -8)), ((71933980, -8), (-69465837, -8)),
       ((69465837, -8), (-71933980, -8)), ((66913061, -8), (-74314483, -8)),
       ((64278761, -8), (-76604444, -8)), ((61566148, -8), (-78801075, -8)),
       ((58778525, -8), (-80901699, -8)), ((55919290, -8), (-82903757, -8)),
       ((52991926, -8), (-84804810, -8)), ((50000000, -8), (-86602540, -8)),
       ((46947156, -8), (-88294759, -8)), ((43837115, -8), (-89879405, -8)),
       ((40673664, -8), (-91354546, -8)), ((37460659, -8), (-92718385, -8)),
       ((34202014, -8), (-93969262, -8)), ((30901699, -8), (-95105652, -8)),
       ((27563736, -8), (-96126170, -8)), ((24192190, -8), (-97029573, -8)),
       ((20791169, -8), (-97814760, -8)), ((17364818, -8), (-98480775, -8)),
       ((13917310, -8), (-99026807, -8)), ((10452846, -8), (-99452190, -8)),
       ((69756474, -9), (-99756405, -8)), ((34899497, -9), (-99939083, -8)),
       ((61232340, -24), (-10000000, -7)), ((-34899497, -9), (-99939083, -8)),
       ((-69756474, -9), (-99756405, -8)), ((-10452846, -8), (-99452190, -8)),
       ((-13917310, -8), (-99026807, -8)), ((-17364818, -8), (-98480775, -8)),
       ((-20791169, -8), (-97814760, -8)), ((-24192190, -8), (-97029573, -8)),
       ((-27563736, -8), (-96126170, -8)), ((-30901699, -8), (-95105652, -8)),
       ((-34202014, -8), (-93969262, -8)), ((-37460659, -8), (-92718385, -8)),
       ((-40673664, -8), (-91354546, -8)), ((-43837115, -8), (-89879405, -8)),
       ((-46947156, -8), (-88294759, -8)), ((-50000000, -8), (-86602540, -8)),
       ((-52991926, -8), (-84804810, -8)), ((-55919290, -8), (-82903757, -8)),
       ((-58778525, -8), (-80901699, -8)), ((-61566148, -8), (-78801075, -8)),
       ((-64278761, -8), (-76604444, -8)), ((-66913061, -8), (-74314483, -8)),
       ((-69465837, -8), (-71933980, -8)), ((-71933980, -8), (-69465837, -8)),
       ((-74314483, -8), (-66913061, -8)), ((-76604444, -8), (-64278761, -8)),
       ((-78801075, -8), (-61566148, -8)), ((-80901699, -8), (-58778525, -8)),
       ((-82903757, -8), (-55919290, -8)), ((-84804810, -8), (-52991926, -8)),
       ((-86602540, -8), (-50000000, -8)), ((-88294759, -8), (-46947156, -8)),
       ((-89879405, -8), (-43837115, -8)), ((-91354546, -8), (-40673664, -8)),
       ((-92718385, -8), (-37460659, -8)), ((-93969262, -8), (-34202014, -8)),
       ((-95105652, -8), (-30901699, -8)), ((-96126170, -8), (-27563736, -8)),
       ((-97029573, -8), (-24192190, -8)), ((-97814760, -8), (-20791169, -8)),
       ((-98480775, -8), (-17364818, -8)), ((-99026807, -8), (-13917310, -8)),
       ((-99452190, -8), (-10452846, -8)), ((-99756405, -8), (-69756474, -9)),
       ((-99939083, -8), (-34899497, -9))])"

definition fft_twiddles_240 :: "nat \<times> complex32 list" where
  "fft_twiddles_240 =
     (120, (f32_1, f32_neg f32_0) # cpx_tab [
       ((99965732, -8), (-26176948, -9)), ((99862953, -8), (-52335956, -9)),
       ((99691733, -8), (-78459096, -9)), ((99452190, -8), (-10452846, -8)),
       ((99144486, -8), (-13052619, -8)), ((98768834, -8), (-15643447, -8)),
       ((98325491, -8), (-18223553, -8)), ((97814760, -8), (-20791169, -8)),
       ((97236992, -8), (-23344536, -8)), ((96592583, -8), (-25881905, -8)),
       ((95881973, -8), (-28401534, -8)), ((95105652, -8), (-30901699, -8)),
       ((94264149, -8), (-33380686, -8)), ((93358043, -8), (-35836795, -8)),
       ((92387953, -8), (-38268343, -8)), ((91354546, -8), (-40673664, -8)),
       ((90258528, -8), (-43051110, -8)), ((89100652, -8), (-45399050, -8)),
       ((87881711, -8), (-47715876, -8)), ((86602540, -8), (-50000000, -8)),
       ((85264016, -8), (-52249856, -8)), ((83867057, -8), (-54463904, -8)),
       ((82412619, -8), (-56640624, -8)), ((80901699, -8), (-58778525, -8)),
       ((79335334, -8), (-60876143, -8)), ((77714596, -8), (-62932039, -8)),
       ((76040597, -8), (-64944805, -8)), ((74314483, -8), (-66913061, -8)),
       ((72537437, -8), (-68835458, -8)), ((70710678, -8), (-70710678, -8)),
       ((68835458, -8), (-72537437, -8)), ((66913061, -8), (-74314483, -8)),
       ((64944805, -8), (-76040597, -8)), ((62932039, -8), (-77714596, -8)),
       ((60876143, -8), (-79335334, -8)), ((58778525, -8), (-80901699, -8)),
       ((56640624, -8), (-82412619, -8)), ((54463904, -8), (-83867057, -8)),
       ((52249856, -8), (-85264016, -8)), ((50000000, -8), (-86602540, -8)),
       ((47715876, -8), (-87881711, -8)), ((45399050, -8), (-89100652, -8)),
       ((43051110, -8), (-90258528, -8)), ((40673664, -8), (-91354546, -8)),
       ((38268343, -8), (-92387953, -8)), ((35836795, -8), (-93358043, -8)),
       ((33380686, -8), (-94264149, -8)), ((30901699, -8), (-95105652, -8)),
       ((28401534, -8), (-95881973, -8)), ((25881905, -8), (-96592583, -8)),
       ((23344536, -8), (-97236992, -8)), ((20791169, -8), (-97814760, -8)),
       ((18223553, -8), (-98325491, -8)), ((15643447, -8), (-98768834, -8)),
       ((13052619, -8), (-99144486, -8)), ((10452846, -8), (-99452190, -8)),
       ((78459096, -9), (-99691733, -8)), ((52335956, -9), (-99862953, -8)),
       ((26176948, -9), (-99965732, -8)), ((28327694, -23), (-10000000, -7)),
       ((-26176948, -9), (-99965732, -8)), ((-52335956, -9), (-99862953, -8)),
       ((-78459096, -9), (-99691733, -8)), ((-10452846, -8), (-99452190, -8)),
       ((-13052619, -8), (-99144486, -8)), ((-15643447, -8), (-98768834, -8)),
       ((-18223553, -8), (-98325491, -8)), ((-20791169, -8), (-97814760, -8)),
       ((-23344536, -8), (-97236992, -8)), ((-25881905, -8), (-96592583, -8)),
       ((-28401534, -8), (-95881973, -8)), ((-30901699, -8), (-95105652, -8)),
       ((-33380686, -8), (-94264149, -8)), ((-35836795, -8), (-93358043, -8)),
       ((-38268343, -8), (-92387953, -8)), ((-40673664, -8), (-91354546, -8)),
       ((-43051110, -8), (-90258528, -8)), ((-45399050, -8), (-89100652, -8)),
       ((-47715876, -8), (-87881711, -8)), ((-50000000, -8), (-86602540, -8)),
       ((-52249856, -8), (-85264016, -8)), ((-54463904, -8), (-83867057, -8)),
       ((-56640624, -8), (-82412619, -8)), ((-58778525, -8), (-80901699, -8)),
       ((-60876143, -8), (-79335334, -8)), ((-62932039, -8), (-77714596, -8)),
       ((-64944805, -8), (-76040597, -8)), ((-66913061, -8), (-74314483, -8)),
       ((-68835458, -8), (-72537437, -8)), ((-70710678, -8), (-70710678, -8)),
       ((-72537437, -8), (-68835458, -8)), ((-74314483, -8), (-66913061, -8)),
       ((-76040597, -8), (-64944805, -8)), ((-77714596, -8), (-62932039, -8)),
       ((-79335334, -8), (-60876143, -8)), ((-80901699, -8), (-58778525, -8)),
       ((-82412619, -8), (-56640624, -8)), ((-83867057, -8), (-54463904, -8)),
       ((-85264016, -8), (-52249856, -8)), ((-86602540, -8), (-50000000, -8)),
       ((-87881711, -8), (-47715876, -8)), ((-89100652, -8), (-45399050, -8)),
       ((-90258528, -8), (-43051110, -8)), ((-91354546, -8), (-40673664, -8)),
       ((-92387953, -8), (-38268343, -8)), ((-93358043, -8), (-35836795, -8)),
       ((-94264149, -8), (-33380686, -8)), ((-95105652, -8), (-30901699, -8)),
       ((-95881973, -8), (-28401534, -8)), ((-96592583, -8), (-25881905, -8)),
       ((-97236992, -8), (-23344536, -8)), ((-97814760, -8), (-20791169, -8)),
       ((-98325491, -8), (-18223553, -8)), ((-98768834, -8), (-15643447, -8)),
       ((-99144486, -8), (-13052619, -8)), ((-99452190, -8), (-10452846, -8)),
       ((-99691733, -8), (-78459096, -9)), ((-99862953, -8), (-52335956, -9)),
       ((-99965732, -8), (-26176948, -9))])"

definition lc3_fft_twiddles_bf2 :: "(nat \<times> complex32 list) list list" where
  "lc3_fft_twiddles_bf2 =
     [[fft_twiddles_10, fft_twiddles_30, fft_twiddles_90],
      [fft_twiddles_20, fft_twiddles_60, fft_twiddles_180],
      [fft_twiddles_40, fft_twiddles_120],
      [fft_twiddles_80, fft_twiddles_240],
      [fft_twiddles_160]]"

end
