(* ===== verification/MdctTables.thy ===== *)
theory MdctTables
  imports FftTables Common
begin

text \<open>The rotations and the windows of the MDCT, of \<^verbatim>\<open>tables.c\<close>.\<close>

definition mdct_rot_120 :: "nat \<times> complex32 list" where
  "mdct_rot_120 =
     (30, cpx_tab [
       ((99997858, -8), (65449380, -10)), ((99826561, -8), (58870804, -9)),
       ((99381646, -8), (11103531, -8)), ((98664333, -8), (16289547, -8)),
       ((97676588, -8), (21430915, -8)), ((96421118, -8), (26513543, -8)),
       ((94901365, -8), (31523498, -8)), ((93121493, -8), (36447050, -8)),
       ((91086382, -8), (41270703, -8)), ((88801610, -8), (45981236, -8)),
       ((86273439, -8), (50565737, -8)), ((83508798, -8), (55011642, -8)),
       ((80515265, -8), (59306763, -8)), ((77301045, -8), (63439328, -8)),
       ((73874949, -8), (67398011, -8)), ((70246367, -8), (71171961, -8)),
       ((66425244, -8), (74750833, -8)), ((62422054, -8), (78124818, -8)),
       ((58247770, -8), (81284668, -8)), ((53913832, -8), (84221723, -8)),
       ((49432121, -8), (86927932, -8)), ((44814919, -8), (89395878, -8)),
       ((40074883, -8), (91618796, -8)), ((35225005, -8), (93590593, -8)),
       ((30278577, -8), (95305864, -8)), ((25249158, -8), (96759909, -8)),
       ((20150532, -8), (97948742, -8)), ((14996676, -8), (98869104, -8)),
       ((98017140, -9), (99518473, -8)), ((45798867, -9), (99895068, -8))])"

definition mdct_rot_160 :: "nat \<times> complex32 list" where
  "mdct_rot_160 =
     (40, cpx_tab [
       ((99998795, -8), (49087188, -10)), ((99902428, -8), (44164277, -9)),
       ((99652019, -8), (83351737, -9)), ((99247953, -8), (12241068, -8)),
       ((98690855, -8), (16128086, -8)), ((97981582, -8), (19990237, -8)),
       ((97121229, -8), (23821564, -8)), ((96111122, -8), (27616160, -8)),
       ((94952818, -8), (31368174, -8)), ((93648104, -8), (35071820, -8)),
       ((92198992, -8), (38721389, -8)), ((90607715, -8), (42311251, -8)),
       ((88876728, -8), (45835873, -8)), ((87008699, -8), (49289819, -8)),
       ((85006509, -8), (52667764, -8)), ((82873246, -8), (55964499, -8)),
       ((80612197, -8), (59174941, -8)), ((78226851, -8), (62294139, -8)),
       ((75720885, -8), (65317284, -8)), ((73098162, -8), (68239715, -8)),
       ((70362727, -8), (71056925, -8)), ((67518798, -8), (73764570, -8)),
       ((64570760, -8), (76358476, -8)), ((61523159, -8), (78834643, -8)),
       ((58380693, -8), (81189252, -8)), ((55148209, -8), (83418673, -8)),
       ((51830690, -8), (85519469, -8)), ((48433252, -8), (87488400, -8)),
       ((44961133, -8), (89322430, -8)), ((41419687, -8), (91018732, -8)),
       ((37814376, -8), (92574689, -8)), ((34150757, -8), (93987902, -8)),
       ((30434480, -8), (95256194, -8)), ((26671276, -8), (96377607, -8)),
       ((22866946, -8), (97350412, -8)), ((19027357, -8), (98173111, -8)),
       ((15158430, -8), (98844433, -8)), ((11266129, -8), (99363345, -8)),
       ((73564564, -9), (99729046, -8)), ((34354408, -9), (99940971, -8))])"

definition mdct_rot_240 :: "nat \<times> complex32 list" where
  "mdct_rot_240 =
     (60, cpx_tab [
       ((99999465, -8), (32724865, -10)), ((99956631, -8), (29448173, -9)),
       ((99845292, -8), (55603678, -9)), ((99665524, -8), (81721074, -9)),
       ((99417450, -8), (10778246, -8)), ((99101241, -8), (13376998, -8)),
       ((98717112, -8), (15966582, -8)), ((98265328, -8), (18545224, -8)),
       ((97746197, -8), (21111155, -8)), ((97160077, -8), (23662618, -8)),
       ((96507367, -8), (26197864, -8)), ((95788516, -8), (28715155, -8)),
       ((95004017, -8), (31212766, -8)), ((94154407, -8), (33688985, -8)),
       ((93240267, -8), (36142116, -8)), ((92262226, -8), (38570477, -8)),
       ((91220953, -8), (40972403, -8)), ((90117161, -8), (43346249, -8)),
       ((88951608, -8), (45690388, -8)), ((87725091, -8), (48003212, -8)),
       ((86438452, -8), (50283138, -8)), ((85092573, -8), (52528602, -8)),
       ((83688375, -8), (54738066, -8)), ((82226822, -8), (56910015, -8)),
       ((80708914, -8), (59042960, -8)), ((79135693, -8), (61135441, -8)),
       ((77508236, -8), (63186022, -8)), ((75827658, -8), (65193299, -8)),
       ((74095113, -8), (67155895, -8)), ((72311786, -8), (69072467, -8)),
       ((70478900, -8), (70941699, -8)), ((68597711, -8), (72762312, -8)),
       ((66669509, -8), (74533057, -8)), ((64695615, -8), (76252720, -8)),
       ((62677382, -8), (77920124, -8)), ((60616193, -8), (79534126, -8)),
       ((58513461, -8), (81093618, -8)), ((56370626, -8), (82597533, -8)),
       ((54189158, -8), (84044840, -8)), ((51970551, -8), (85434547, -8)),
       ((49716327, -8), (86765701, -8)), ((47428029, -8), (88037390, -8)),
       ((45107226, -8), (89248743, -8)), ((42755509, -8), (90398929, -8)),
       ((40374490, -8), (91487161, -8)), ((37965800, -8), (92512691, -8)),
       ((35531090, -8), (93474818, -8)), ((33072029, -8), (94372882, -8)),
       ((30590302, -8), (95206268, -8)), ((28087610, -8), (95974404, -8)),
       ((25565668, -8), (96676764, -8)), ((23026205, -8), (97312866, -8)),
       ((20470960, -8), (97882275, -8)), ((17901686, -8), (98384601, -8)),
       ((15320143, -8), (98819498, -8)), ((12728100, -8), (99186670, -8)),
       ((10127334, -8), (99485864, -8)), ((75196277, -9), (99716875, -8)),
       ((49067674, -9), (99879546, -8)), ((22905443, -9), (99973764, -8))])"

definition mdct_rot_320 :: "nat \<times> complex32 list" where
  "mdct_rot_320 =
     (80, cpx_tab [
       ((99999699, -8), (24543668, -10)), ((99975604, -8), (22087527, -9)),
       ((99912967, -8), (41712172, -9)), ((99811811, -8), (61320736, -9)),
       ((99672176, -8), (80905660, -9)), ((99494116, -8), (10045939, -8)),
       ((99277699, -8), (11997440, -8)), ((99023008, -8), (13944315, -8)),
       ((98730142, -8), (15885814, -8)), ((98399213, -8), (17821189, -8)),
       ((98030350, -8), (19749694, -8)), ((97623695, -8), (21670585, -8)),
       ((97179403, -8), (23583121, -8)), ((96697647, -8), (25486566, -8)),
       ((96178612, -8), (27380185, -8)), ((95622499, -8), (29263249, -8)),
       ((95029521, -8), (31135031, -8)), ((94399908, -8), (32994809, -8)),
       ((93733901, -8), (34841868, -8)), ((93031759, -8), (36675495, -8)),
       ((92293750, -8), (38494982, -8)), ((91520161, -8), (40299629, -8)),
       ((90711289, -8), (42088739, -8)), ((89867447, -8), (43861624, -8)),
       ((88988958, -8), (45617599, -8)), ((88076163, -8), (47355988, -8)),
       ((87129412, -8), (49076120, -8)), ((86149072, -8), (50777332, -8)),
       ((85135519, -8), (52458968, -8)), ((84089145, -8), (54120381, -8)),
       ((83010353, -8), (55760929, -8)), ((81899560, -8), (57379980, -8)),
       ((80757192, -8), (58976911, -8)), ((79583690, -8), (60551104, -8)),
       ((78379508, -8), (62101954, -8)), ((77145109, -8), (63628862, -8)),
       ((75880969, -8), (65131241, -8)), ((74587576, -8), (66608510, -8)),
       ((73265427, -8), (68060100, -8)), ((71915033, -8), (69485451, -8)),
       ((70536915, -8), (70884015, -8)), ((69131604, -8), (72255252, -8)),
       ((67699640, -8), (73598632, -8)), ((66241578, -8), (74913639, -8)),
       ((64757978, -8), (76199766, -8)), ((63249412, -8), (77456516, -8)),
       ((61716463, -8), (78683405, -8)), ((60159721, -8), (79879960, -8)),
       ((58579786, -8), (81045720, -8)), ((56977267, -8), (82180235, -8)),
       ((55352783, -8), (83283068, -8)), ((53706959, -8), (84353794, -8)),
       ((52040430, -8), (85392000, -8)), ((50353838, -8), (86397286, -8)),
       ((48647834, -8), (87369263, -8)), ((46923076, -8), (88307559, -8)),
       ((45180228, -8), (89211810, -8)), ((43419961, -8), (90081668, -8)),
       ((41642956, -8), (90916798, -8)), ((39849896, -8), (91716878, -8)),
       ((38041474, -8), (92481600, -8)), ((36218386, -8), (93210667, -8)),
       ((34381335, -8), (93903801, -8)), ((32531029, -8), (94560733, -8)),
       ((30668182, -8), (95181209, -8)), ((28793512, -8), (95764992, -8)),
       ((26907741, -8), (96311855, -8)), ((25011597, -8), (96821588, -8)),
       ((23105811, -8), (97293995, -8)), ((21191117, -8), (97728893, -8)),
       ((19268253, -8), (98126115, -8)), ((17337961, -8), (98485507, -8)),
       ((15400984, -8), (98806931, -8)), ((13458071, -8), (99090264, -8)),
       ((11509969, -8), (99335395, -8)), ((95574297, -9), (99542230, -8)),
       ((76012059, -9), (99710690, -8)), ((56420516, -9), (99840709, -8)),
       ((36807223, -9), (99932238, -8)), ((17179740, -9), (99985242, -8))])"

definition mdct_rot_360 :: "nat \<times> complex32 list" where
  "mdct_rot_360 =
     (90, cpx_tab [
       ((99999762, -8), (21816598, -10)), ((99980724, -8), (19633692, -9)),
       ((99931231, -8), (37079744, -9)), ((99851298, -8), (54514502, -9)),
       ((99740949, -8), (71932653, -9)), ((99600218, -8), (89328893, -9)),
       ((99429148, -8), (10669792, -8)), ((99227791, -8), (12403445, -8)),
       ((98996208, -8), (14133320, -8)), ((98734470, -8), (15858889, -8)),
       ((98442657, -8), (17579628, -8)), ((98120857, -8), (19295012, -8)),
       ((97769168, -8), (21004518, -8)), ((97387698, -8), (22707626, -8)),
       ((96976563, -8), (24403818, -8)), ((96535887, -8), (26092575, -8)),
       ((96065806, -8), (27773385, -8)), ((95566462, -8), (29445734, -8)),
       ((95038008, -8), (31109114, -8)), ((94480605, -8), (32763018, -8)),
       ((93894421, -8), (34406942, -8)), ((93279637, -8), (36040385, -8)),
       ((92636438, -8), (37662850, -8)), ((91965022, -8), (39273843, -8)),
       ((91265592, -8), (40872872, -8)), ((90538362, -8), (42459451, -8)),
       ((89783553, -8), (44033097, -8)), ((89001395, -8), (45593329, -8)),
       ((88192126, -8), (47139674, -8)), ((87355994, -8), (48671659, -8)),
       ((86493251, -8), (50188818, -8)), ((85604162, -8), (51690690, -8)),
       ((84688997, -8), (53176816, -8)), ((83748035, -8), (54646743, -8)),
       ((82781563, -8), (56100025, -8)), ((81789875, -8), (57536218, -8)),
       ((80773272, -8), (58954885, -8)), ((79732065, -8), (60355594, -8)),
       ((78666571, -8), (61737918, -8)), ((77577115, -8), (63101436, -8)),
       ((76464028, -8), (64445733, -8)), ((75327649, -8), (65770399, -8)),
       ((74168324, -8), (67075030, -8)), ((72986407, -8), (68359230, -8)),
       ((71782258, -8), (69622607, -8)), ((70556243, -8), (70864776, -8)),
       ((69308736, -8), (72085360, -8)), ((68040117, -8), (73283985, -8)),
       ((66750772, -8), (74460287, -8)), ((65441095, -8), (75613908, -8)),
       ((64111483, -8), (76744496, -8)), ((62762343, -8), (77851708, -8)),
       ((61394084, -8), (78935204, -8)), ((60007124, -8), (79994657, -8)),
       ((58601885, -8), (81029742, -8)), ((57178796, -8), (82040144, -8)),
       ((55738289, -8), (83025557, -8)), ((54280804, -8), (83985679, -8)),
       ((52806785, -8), (84920218, -8)), ((51316680, -8), (85828890, -8)),
       ((49810944, -8), (86711417, -8)), ((48290034, -8), (87567532, -8)),
       ((46754415, -8), (88396972, -8)), ((45204555, -8), (89199486, -8)),
       ((43640924, -8), (89974828, -8)), ((42064000, -8), (90722764, -8)),
       ((40474263, -8), (91443064, -8)), ((38872197, -8), (92135511, -8)),
       ((37258290, -8), (92799891, -8)), ((35633034, -8), (93436004, -8)),
       ((33996924, -8), (94043656, -8)), ((32350458, -8), (94622660, -8)),
       ((30694138, -8), (95172842, -8)), ((29028468, -8), (95694034, -8)),
       ((27353955, -8), (96186076, -8)), ((25671111, -8), (96648818, -8)),
       ((23980446, -8), (97082121, -8)), ((22282477, -8), (97485851, -8)),
       ((20577721, -8), (97859887, -8)), ((18866696, -8), (98204113, -8)),
       ((17149925, -8), (98518425, -8)), ((15427929, -8), (98802728, -8)),
       ((13701234, -8), (99056934, -8)), ((11970366, -8), (99280967, -8)),
       ((10235851, -8), (99474757, -8)), ((84982177, -9), (99638247, -8)),
       ((67579962, -9), (99771386, -8)), ((50157162, -9), (99874134, -8)),
       ((32719083, -9), (99946459, -8)), ((15271037, -9), (99988339, -8))])"

definition mdct_rot_480 :: "nat \<times> complex32 list" where
  "mdct_rot_480 =
     (120, cpx_tab [
       ((99999866, -8), (16362454, -10)), ((99989157, -8), (14725683, -9)),
       ((99961315, -8), (27812598, -9)), ((99916346, -8), (40894747, -9)),
       ((99854256, -8), (53969889, -9)), ((99775057, -8), (67035784, -9)),
       ((99678762, -8), (80090192, -9)), ((99565388, -8), (93130877, -9)),
       ((99434953, -8), (10615561, -8)), ((99287481, -8), (11916214, -8)),
       ((99122996, -8), (13214826, -8)), ((98941527, -8), (14511174, -8)),
       ((98743105, -8), (15805036, -8)), ((98527764, -8), (17096189, -8)),
       ((98295541, -8), (18384413, -8)), ((98046475, -8), (19669487, -8)),
       ((97780610, -8), (20951190, -8)), ((97497990, -8), (22229304, -8)),
       ((97198664, -8), (23503609, -8)), ((96882685, -8), (24773886, -8)),
       ((96550104, -8), (26039919, -8)), ((96200980, -8), (27301490, -8)),
       ((95835373, -8), (28558383, -8)), ((95453345, -8), (29810383, -8)),
       ((95054962, -8), (31057274, -8)), ((94640291, -8), (32298845, -8)),
       ((94209404, -8), (33534881, -8)), ((93762375, -8), (34765171, -8)),
       ((93299280, -8), (35989504, -8)), ((92820199, -8), (37207670, -8)),
       ((92325213, -8), (38419461, -8)), ((91814408, -8), (39624670, -8)),
       ((91287871, -8), (40823088, -8)), ((90745693, -8), (42014512, -8)),
       ((90187965, -8), (43198737, -8)), ((89614785, -8), (44375560, -8)),
       ((89026249, -8), (45544780, -8)), ((88422459, -8), (46706195, -8)),
       ((87803519, -8), (47859608, -8)), ((87169533, -8), (49004821, -8)),
       ((86520612, -8), (50141636, -8)), ((85856866, -8), (51269860, -8)),
       ((85178409, -8), (52389299, -8)), ((84485357, -8), (53499762, -8)),
       ((83777828, -8), (54601058, -8)), ((83055945, -8), (55692998, -8)),
       ((82319831, -8), (56775395, -8)), ((81569611, -8), (57848064, -8)),
       ((80805415, -8), (58910822, -8)), ((80027373, -8), (59963485, -8)),
       ((79235620, -8), (61005873, -8)), ((78430289, -8), (62037809, -8)),
       ((77611520, -8), (63059115, -8)), ((76779452, -8), (64069616, -8)),
       ((75934229, -8), (65069139, -8)), ((75075995, -8), (66057513, -8)),
       ((74204897, -8), (67034568, -8)), ((73321084, -8), (68000137, -8)),
       ((72424708, -8), (68954054, -8)), ((71515923, -8), (69896157, -8)),
       ((70594883, -8), (70826283, -8)), ((69661748, -8), (71744274, -8)),
       ((68716676, -8), (72649972, -8)), ((67759830, -8), (73543221, -8)),
       ((66791374, -8), (74423869, -8)), ((65811474, -8), (75291765, -8)),
       ((64820297, -8), (76146760, -8)), ((63818013, -8), (76988708, -8)),
       ((62804795, -8), (77817464, -8)), ((61780815, -8), (78632887, -8)),
       ((60746249, -8), (79434836, -8)), ((59701275, -8), (80223175, -8)),
       ((58646072, -8), (80997767, -8)), ((57580819, -8), (81758481, -8)),
       ((56505701, -8), (82505187, -8)), ((55420900, -8), (83237755, -8)),
       ((54326604, -8), (83956061, -8)), ((53222998, -8), (84659981, -8)),
       ((52110274, -8), (85349396, -8)), ((50988620, -8), (86024186, -8)),
       ((49858230, -8), (86684237, -8)), ((48719297, -8), (87329434, -8)),
       ((47572016, -8), (87959669, -8)), ((46416584, -8), (88574831, -8)),
       ((45253199, -8), (89174817, -8)), ((44082059, -8), (89759523, -8)),
       ((42903367, -8), (90328850, -8)), ((41717323, -8), (90882699, -8)),
       ((40524131, -8), (91420976, -8)), ((39323996, -8), (91943588, -8)),
       ((38117123, -8), (92450446, -8)), ((36903718, -8), (92941463, -8)),
       ((35683990, -8), (93416555, -8)), ((34458148, -8), (93875641, -8)),
       ((33226402, -8), (94318642, -8)), ((31988962, -8), (94745482, -8)),
       ((30746042, -8), (95156087, -8)), ((29497853, -8), (95550388, -8)),
       ((28244610, -8), (95928317, -8)), ((26986527, -8), (96289809, -8)),
       ((25723821, -8), (96634802, -8)), ((24456706, -8), (96963238, -8)),
       ((23185402, -8), (97275059, -8)), ((21910124, -8), (97570213, -8)),
       ((20631092, -8), (97848649, -8)), ((19348526, -8), (98110318, -8)),
       ((18062644, -8), (98355177, -8)), ((16773667, -8), (98583184, -8)),
       ((15481816, -8), (98794298, -8)), ((14187312, -8), (98988485, -8)),
       ((12890377, -8), (99165711, -8)), ((11591234, -8), (99325945, -8)),
       ((10290104, -8), (99469160, -8)), ((89872115, -9), (99595331, -8)),
       ((76827789, -9), (99704438, -8)), ((63770300, -9), (99796460, -8)),
       ((50701883, -9), (99871383, -8)), ((37624779, -9), (99929194, -8)),
       ((24541229, -9), (99969882, -8)), ((11453473, -9), (99993441, -8))])"

definition mdct_rot_640 :: "nat \<times> complex32 list" where
  "mdct_rot_640 =
     (160, cpx_tab [
       ((99999925, -8), (12271843, -10)), ((99993901, -8), (11044437, -9)),
       ((99978239, -8), (20860625, -9)), ((99952942, -8), (30674803, -9)),
       ((99918010, -8), (40486024, -9)), ((99873449, -8), (50293344, -9)),
       ((99819261, -8), (60095815, -9)), ((99755453, -8), (69892495, -9)),
       ((99682030, -8), (79682438, -9)), ((99598999, -8), (89464701, -9)),
       ((99506369, -8), (99238342, -9)), ((99404148, -8), (10900242, -8)),
       ((99292347, -8), (11875599, -8)), ((99170975, -8), (12849811, -8)),
       ((99040046, -8), (13822785, -8)), ((98899570, -8), (14794427, -8)),
       ((98749562, -8), (15764642, -8)), ((98590037, -8), (16733339, -8)),
       ((98421009, -8), (17700422, -8)), ((98242496, -8), (18665800, -8)),
       ((98054513, -8), (19629378, -8)), ((97857080, -8), (20591064, -8)),
       ((97650215, -8), (21550766, -8)), ((97433938, -8), (22508391, -8)),
       ((97208271, -8), (23463847, -8)), ((96973234, -8), (24417040, -8)),
       ((96728851, -8), (25367881, -8)), ((96475145, -8), (26316276, -8)),
       ((96212140, -8), (27262136, -8)), ((95939863, -8), (28205367, -8)),
       ((95658338, -8), (29145880, -8)), ((95367594, -8), (30083584, -8)),
       ((95067658, -8), (31018388, -8)), ((94758559, -8), (31950203, -8)),
       ((94440327, -8), (32878938, -8)), ((94112993, -8), (33804505, -8)),
       ((93776588, -8), (34726813, -8)), ((93431145, -8), (35645774, -8)),
       ((93076696, -8), (36561300, -8)), ((92713277, -8), (37473302, -8)),
       ((92340921, -8), (38381691, -8)), ((91959666, -8), (39286382, -8)),
       ((91569547, -8), (40187286, -8)), ((91170603, -8), (41084317, -8)),
       ((90762872, -8), (41977388, -8)), ((90346392, -8), (42866413, -8)),
       ((89921205, -8), (43751307, -8)), ((89487351, -8), (44631984, -8)),
       ((89044872, -8), (45508359, -8)), ((88593811, -8), (46380348, -8)),
       ((88134211, -8), (47247866, -8)), ((87666116, -8), (48110831, -8)),
       ((87189572, -8), (48969159, -8)), ((86704625, -8), (49822767, -8)),
       ((86211320, -8), (50671573, -8)), ((85709707, -8), (51515495, -8)),
       ((85199832, -8), (52354452, -8)), ((84681746, -8), (53188363, -8)),
       ((84155498, -8), (54017147, -8)), ((83621139, -8), (54840726, -8)),
       ((83078720, -8), (55659018, -8)), ((82528294, -8), (56471946, -8)),
       ((81969914, -8), (57279431, -8)), ((81403633, -8), (58081396, -8)),
       ((80829506, -8), (58877762, -8)), ((80247589, -8), (59668454, -8)),
       ((79657938, -8), (60453395, -8)), ((79060609, -8), (61232509, -8)),
       ((78455660, -8), (62005721, -8)), ((77843149, -8), (62772957, -8)),
       ((77223135, -8), (63534143, -8)), ((76595679, -8), (64289206, -8)),
       ((75960840, -8), (65038072, -8)), ((75318680, -8), (65780669, -8)),
       ((74669260, -8), (66516927, -8)), ((74012644, -8), (67246773, -8)),
       ((73348894, -8), (67970138, -8)), ((72678075, -8), (68686952, -8)),
       ((72000251, -8), (69397146, -8)), ((71315487, -8), (70100651, -8)),
       ((70623850, -8), (70797400, -8)), ((69925406, -8), (71487325, -8)),
       ((69220222, -8), (72170360, -8)), ((68508367, -8), (72846439, -8)),
       ((67789909, -8), (73515497, -8)), ((67064917, -8), (74177469, -8)),
       ((66333461, -8), (74832292, -8)), ((65595612, -8), (75479903, -8)),
       ((64851440, -8), (76120239, -8)), ((64101018, -8), (76753238, -8)),
       ((63344418, -8), (77378839, -8)), ((62581713, -8), (77996982, -8)),
       ((61812975, -8), (78607608, -8)), ((61038281, -8), (79210658, -8)),
       ((60257703, -8), (79806073, -8)), ((59471317, -8), (80393796, -8)),
       ((58679200, -8), (80973771, -8)), ((57881426, -8), (81545941, -8)),
       ((57078075, -8), (82110251, -8)), ((56269221, -8), (82666648, -8)),
       ((55454945, -8), (83215077, -8)), ((54635323, -8), (83755486, -8)),
       ((53810436, -8), (84287822, -8)), ((52980362, -8), (84812034, -8)),
       ((52145182, -8), (85328072, -8)), ((51304977, -8), (85835886, -8)),
       ((50459826, -8), (86335427, -8)), ((49609812, -8), (86826647, -8)),
       ((48755016, -8), (87309498, -8)), ((47895521, -8), (87783934, -8)),
       ((47031410, -8), (88249909, -8)), ((46162766, -8), (88707379, -8)),
       ((45289673, -8), (89156298, -8)), ((44412214, -8), (89596625, -8)),
       ((43530476, -8), (90028316, -8)), ((42644541, -8), (90451330, -8)),
       ((41754496, -8), (90865626, -8)), ((40860427, -8), (91271165, -8)),
       ((39962420, -8), (91667906, -8)), ((39060561, -8), (92055812, -8)),
       ((38154937, -8), (92434846, -8)), ((37245636, -8), (92804971, -8)),
       ((36332745, -8), (93166151, -8)), ((35416353, -8), (93518351, -8)),
       ((34496546, -8), (93861538, -8)), ((33573415, -8), (94195678, -8)),
       ((32647048, -8), (94520740, -8)), ((31717535, -8), (94836691, -8)),
       ((30784964, -8), (95143502, -8)), ((29849426, -8), (95441143, -8)),
       ((28911012, -8), (95729585, -8)), ((27969810, -8), (96008800, -8)),
       ((27025914, -8), (96278762, -8)), ((26079412, -8), (96539444, -8)),
       ((25130396, -8), (96790822, -8)), ((24178959, -8), (97032870, -8)),
       ((23225191, -8), (97265567, -8)), ((22269185, -8), (97488889, -8)),
       ((21311032, -8), (97702814, -8)), ((20350825, -8), (97907323, -8)),
       ((19388657, -8), (98102395, -8)), ((18424620, -8), (98288012, -8)),
       ((17458807, -8), (98464156, -8)), ((16491312, -8), (98630810, -8)),
       ((15522227, -8), (98787957, -8)), ((14551646, -8), (98935583, -8)),
       ((13579663, -8), (99073673, -8)), ((12606370, -8), (99202215, -8)),
       ((11631863, -8), (99321195, -8)), ((10656235, -8), (99430602, -8)),
       ((96795791, -9), (99530426, -8)), ((87019907, -9), (99620657, -8)),
       ((77235635, -9), (99701287, -8)), ((67443920, -9), (99772307, -8)),
       ((57645703, -9), (99833710, -8)), ((47841931, -9), (99885492, -8)),
       ((38033548, -9), (99927646, -8)), ((28221499, -9), (99960169, -8)),
       ((18406730, -9), (99983058, -8)), ((85901868, -10), (99996310, -8))])"

definition mdct_rot_720 :: "nat \<times> complex32 list" where
  "mdct_rot_720 =
     (180, cpx_tab [
       ((99999941, -8), (10908306, -10)), ((99995181, -8), (98173193, -10)),
       ((99982806, -8), (18543060, -9)), ((99962818, -8), (27267389, -9)),
       ((99935216, -8), (35989642, -9)), ((99900005, -8), (44709154, -9)),
       ((99857185, -8), (53425261, -9)), ((99806761, -8), (62137299, -9)),
       ((99748736, -8), (70844606, -9)), ((99683116, -8), (79546517, -9)),
       ((99609903, -8), (88242371, -9)), ((99529105, -8), (96931504, -9)),
       ((99440728, -8), (10561326, -8)), ((99344778, -8), (11428696, -8)),
       ((99241262, -8), (12295197, -8)), ((99130189, -8), (13160761, -8)),
       ((99011567, -8), (14025323, -8)), ((98885404, -8), (14888817, -8)),
       ((98751711, -8), (15751177, -8)), ((98610498, -8), (16612338, -8)),
       ((98461775, -8), (17472233, -8)), ((98305553, -8), (18330798, -8)),
       ((98141846, -8), (19187967, -8)), ((97970664, -8), (20043675, -8)),
       ((97792022, -8), (20897856, -8)), ((97605933, -8), (21750446, -8)),
       ((97412410, -8), (22601379, -8)), ((97211469, -8), (23450592, -8)),
       ((97003125, -8), (24298018, -8)), ((96787394, -8), (25143594, -8)),
       ((96564292, -8), (25987255, -8)), ((96333837, -8), (26828937, -8)),
       ((96096045, -8), (27668577, -8)), ((95850935, -8), (28506109, -8)),
       ((95598526, -8), (29341470, -8)), ((95338836, -8), (30174596, -8)),
       ((95071887, -8), (31005425, -8)), ((94797697, -8), (31833893, -8)),
       ((94516287, -8), (32659936, -8)), ((94227680, -8), (33483492, -8)),
       ((93931898, -8), (34304499, -8)), ((93628962, -8), (35122892, -8)),
       ((93318895, -8), (35938611, -8)), ((93001722, -8), (36751594, -8)),
       ((92677467, -8), (37561777, -8)), ((92346154, -8), (38369100, -8)),
       ((92007808, -8), (39173501, -8)), ((91662456, -8), (39974919, -8)),
       ((91310123, -8), (40773292, -8)), ((90950837, -8), (41568561, -8)),
       ((90584624, -8), (42360664, -8)), ((90211513, -8), (43149541, -8)),
       ((89831532, -8), (43935132, -8)), ((89444710, -8), (44717377, -8)),
       ((89051077, -8), (45496217, -8)), ((88650662, -8), (46271592, -8)),
       ((88243495, -8), (47043443, -8)), ((87829609, -8), (47811712, -8)),
       ((87409034, -8), (48576339, -8)), ((86981803, -8), (49337268, -8)),
       ((86547947, -8), (50094439, -8)), ((86107501, -8), (50847795, -8)),
       ((85660497, -8), (51597279, -8)), ((85206970, -8), (52342834, -8)),
       ((84746954, -8), (53084403, -8)), ((84280484, -8), (53821929, -8)),
       ((83807596, -8), (54555356, -8)), ((83328326, -8), (55284629, -8)),
       ((82842709, -8), (56009691, -8)), ((82350785, -8), (56730488, -8)),
       ((81852588, -8), (57446965, -8)), ((81348159, -8), (58159067, -8)),
       ((80837534, -8), (58866740, -8)), ((80320753, -8), (59569930, -8)),
       ((79797856, -8), (60268584, -8)), ((79268881, -8), (60962648, -8)),
       ((78733870, -8), (61652070, -8)), ((78192863, -8), (62336796, -8)),
       ((77645902, -8), (63016775, -8)), ((77093027, -8), (63691955, -8)),
       ((76534281, -8), (64362285, -8)), ((75969708, -8), (65027714, -8)),
       ((75399348, -8), (65688190, -8)), ((74823247, -8), (66343664, -8)),
       ((74241448, -8), (66994085, -8)), ((73653994, -8), (67639405, -8)),
       ((73060932, -8), (68279574, -8)), ((72462306, -8), (68914543, -8)),
       ((71858162, -8), (69544264, -8)), ((71248545, -8), (70168688, -8)),
       ((70633503, -8), (70787769, -8)), ((70013081, -8), (71401460, -8)),
       ((69387328, -8), (72009713, -8)), ((68756291, -8), (72612482, -8)),
       ((68120017, -8), (73209721, -8)), ((67478556, -8), (73801385, -8)),
       ((66831956, -8), (74387429, -8)), ((66180267, -8), (74967808, -8)),
       ((65523538, -8), (75542478, -8)), ((64861819, -8), (76111395, -8)),
       ((64195160, -8), (76674516, -8)), ((63523613, -8), (77231798, -8)),
       ((62847228, -8), (77783198, -8)), ((62166057, -8), (78328675, -8)),
       ((61480152, -8), (78868187, -8)), ((60789565, -8), (79401692, -8)),
       ((60094349, -8), (79929151, -8)), ((59394556, -8), (80450523, -8)),
       ((58690240, -8), (80965769, -8)), ((57981455, -8), (81474848, -8)),
       ((57268254, -8), (81977723, -8)), ((56550692, -8), (82474355, -8)),
       ((55828823, -8), (82964706, -8)), ((55102703, -8), (83448740, -8)),
       ((54372386, -8), (83926418, -8)), ((53637929, -8), (84397705, -8)),
       ((52899387, -8), (84862564, -8)), ((52156817, -8), (85320961, -8)),
       ((51410274, -8), (85772861, -8)), ((50659817, -8), (86218229, -8)),
       ((49905502, -8), (86657030, -8)), ((49147386, -8), (87089233, -8)),
       ((48385527, -8), (87514803, -8)), ((47619984, -8), (87933709, -8)),
       ((46850814, -8), (88345918, -8)), ((46078076, -8), (88751399, -8)),
       ((45301829, -8), (89150122, -8)), ((44522133, -8), (89542056, -8)),
       ((43739045, -8), (89927170, -8)), ((42952627, -8), (90305436, -8)),
       ((42162938, -8), (90676825, -8)), ((41370038, -8), (91041309, -8)),
       ((40573988, -8), (91398859, -8)), ((39774847, -8), (91749450, -8)),
       ((38972678, -8), (92093053, -8)), ((38167541, -8), (92429643, -8)),
       ((37359497, -8), (92759194, -8)), ((36548608, -8), (93081681, -8)),
       ((35734936, -8), (93397079, -8)), ((34918542, -8), (93705365, -8)),
       ((34099489, -8), (94006515, -8)), ((33277840, -8), (94300506, -8)),
       ((32453656, -8), (94587315, -8)), ((31627001, -8), (94866922, -8)),
       ((30797937, -8), (95139304, -8)), ((29966528, -8), (95404440, -8)),
       ((29132836, -8), (95662311, -8)), ((28296927, -8), (95912898, -8)),
       ((27458862, -8), (96156180, -8)), ((26618706, -8), (96392139, -8)),
       ((25776523, -8), (96620758, -8)), ((24932377, -8), (96842019, -8)),
       ((24086332, -8), (97055904, -8)), ((23238453, -8), (97262399, -8)),
       ((22388805, -8), (97461487, -8)), ((21537451, -8), (97653153, -8)),
       ((20684457, -8), (97837382, -8)), ((19829888, -8), (98014160, -8)),
       ((18973809, -8), (98183474, -8)), ((18116285, -8), (98345311, -8)),
       ((17257382, -8), (98499659, -8)), ((16397164, -8), (98646505, -8)),
       ((15535697, -8), (98785840, -8)), ((14673047, -8), (98917651, -8)),
       ((13809280, -8), (99041929, -8)), ((12944462, -8), (99158665, -8)),
       ((12078657, -8), (99267850, -8)), ((11211933, -8), (99369475, -8)),
       ((10344355, -8), (99463533, -8)), ((94759887, -9), (99550016, -8)),
       ((86069011, -9), (99628918, -8)), ((77371581, -9), (99700233, -8)),
       ((68668259, -9), (99763955, -8)), ((59959707, -9), (99820080, -8)),
       ((51246589, -9), (99868603, -8)), ((42529569, -9), (99909521, -8)),
       ((33809310, -9), (99942830, -8)), ((25086476, -9), (99968528, -8)),
       ((16361732, -9), (99986614, -8)), ((76357413, -10), (99997085, -8))])"

definition mdct_rot_960 :: "nat \<times> complex32 list" where
  "mdct_rot_960 =
     (240, cpx_tab [
       ((99999967, -8), (81812300, -11)), ((99997289, -8), (73630412, -10)),
       ((99990328, -8), (13907644, -9)), ((99979084, -8), (20451651, -9)),
       ((99963557, -8), (26994782, -9)), ((99943748, -8), (33536757, -9)),
       ((99919658, -8), (40077295, -9)), ((99891288, -8), (46616116, -9)),
       ((99858638, -8), (53152941, -9)), ((99821711, -8), (59687488, -9)),
       ((99780508, -8), (66219479, -9)), ((99735031, -8), (72748633, -9)),
       ((99685281, -8), (79274670, -9)), ((99631261, -8), (85797312, -9)),
       ((99572973, -8), (92316279, -9)), ((99510420, -8), (98831291, -9)),
       ((99443605, -8), (10534207, -8)), ((99372529, -8), (11184834, -8)),
       ((99297196, -8), (11834981, -8)), ((99217610, -8), (12484622, -8)),
       ((99133774, -8), (13133727, -8)), ((99045692, -8), (13782270, -8)),
       ((98953366, -8), (14430223, -8)), ((98856802, -8), (15077558, -8)),
       ((98756003, -8), (15724246, -8)), ((98650973, -8), (16370261, -8)),
       ((98541718, -8), (17015575, -8)), ((98428242, -8), (17660160, -8)),
       ((98310549, -8), (18303989, -8)), ((98188645, -8), (18947033, -8)),
       ((98062534, -8), (19589266, -8)), ((97932224, -8), (20230660, -8)),
       ((97797718, -8), (20871187, -8)), ((97659022, -8), (21510820, -8)),
       ((97516144, -8), (22149531, -8)), ((97369088, -8), (22787294, -8)),
       ((97217861, -8), (23424080, -8)), ((97062469, -8), (24059864, -8)),
       ((96902920, -8), (24694616, -8)), ((96739220, -8), (25328311, -8)),
       ((96571376, -8), (25960920, -8)), ((96399395, -8), (26592418, -8)),
       ((96223284, -8), (27222777, -8)), ((96043052, -8), (27851969, -8)),
       ((95858705, -8), (28479968, -8)), ((95670253, -8), (29106748, -8)),
       ((95477702, -8), (29732280, -8)), ((95281061, -8), (30356539, -8)),
       ((95080338, -8), (30979497, -8)), ((94875543, -8), (31601129, -8)),
       ((94666684, -8), (32221406, -8)), ((94453769, -8), (32840304, -8)),
       ((94236808, -8), (33457794, -8)), ((94015810, -8), (34073852, -8)),
       ((93790786, -8), (34688450, -8)), ((93561743, -8), (35301562, -8)),
       ((93328693, -8), (35913161, -8)), ((93091644, -8), (36523223, -8)),
       ((92850608, -8), (37131719, -8)), ((92605595, -8), (37738626, -8)),
       ((92356614, -8), (38343915, -8)), ((92103677, -8), (38947562, -8)),
       ((91846795, -8), (39549541, -8)), ((91585979, -8), (40149825, -8)),
       ((91321239, -8), (40748390, -8)), ((91052587, -8), (41345209, -8)),
       ((90780035, -8), (41940257, -8)), ((90503595, -8), (42533508, -8)),
       ((90223277, -8), (43124938, -8)), ((89939095, -8), (43714520, -8)),
       ((89651059, -8), (44302229, -8)), ((89359184, -8), (44888041, -8)),
       ((89063481, -8), (45471930, -8)), ((88763962, -8), (46053871, -8)),
       ((88460641, -8), (46633839, -8)), ((88153531, -8), (47211810, -8)),
       ((87842644, -8), (47787758, -8)), ((87527995, -8), (48361659, -8)),
       ((87209596, -8), (48933489, -8)), ((86887462, -8), (49503222, -8)),
       ((86561605, -8), (50070835, -8)), ((86232041, -8), (50636303, -8)),
       ((85898782, -8), (51199602, -8)), ((85561844, -8), (51760707, -8)),
       ((85221241, -8), (52319595, -8)), ((84876987, -8), (52876243, -8)),
       ((84529098, -8), (53430625, -8)), ((84177587, -8), (53982718, -8)),
       ((83822471, -8), (54532499, -8)), ((83463763, -8), (55079944, -8)),
       ((83101481, -8), (55625029, -8)), ((82735639, -8), (56167732, -8)),
       ((82366252, -8), (56708028, -8)), ((81993338, -8), (57245896, -8)),
       ((81616911, -8), (57781311, -8)), ((81236987, -8), (58314251, -8)),
       ((80853584, -8), (58844693, -8)), ((80466718, -8), (59372614, -8)),
       ((80076404, -8), (59897992, -8)), ((79682660, -8), (60420805, -8)),
       ((79285503, -8), (60941029, -8)), ((78884950, -8), (61458642, -8)),
       ((78481017, -8), (61973623, -8)), ((78073723, -8), (62485949, -8)),
       ((77663084, -8), (62995598, -8)), ((77249118, -8), (63502549, -8)),
       ((76831844, -8), (64006780, -8)), ((76411277, -8), (64508268, -8)),
       ((75987438, -8), (65006994, -8)), ((75560344, -8), (65502934, -8)),
       ((75130013, -8), (65996069, -8)), ((74696464, -8), (66486377, -8)),
       ((74259715, -8), (66973837, -8)), ((73819784, -8), (67458427, -8)),
       ((73376692, -8), (67940128, -8)), ((72930457, -8), (68418919, -8)),
       ((72481097, -8), (68894779, -8)), ((72028632, -8), (69367688, -8)),
       ((71573083, -8), (69837625, -8)), ((71114467, -8), (70304571, -8)),
       ((70652804, -8), (70768504, -8)), ((70188116, -8), (71229407, -8)),
       ((69720420, -8), (71687258, -8)), ((69249738, -8), (72142039, -8)),
       ((68776090, -8), (72593729, -8)), ((68299495, -8), (73042309, -8)),
       ((67819975, -8), (73487761, -8)), ((67337550, -8), (73930064, -8)),
       ((66852240, -8), (74369201, -8)), ((66364066, -8), (74805152, -8)),
       ((65873050, -8), (75237898, -8)), ((65379211, -8), (75667422, -8)),
       ((64882573, -8), (76093704, -8)), ((64383154, -8), (76516727, -8)),
       ((63880978, -8), (76936471, -8)), ((63376065, -8), (77352921, -8)),
       ((62868438, -8), (77766056, -8)), ((62358117, -8), (78175861, -8)),
       ((61845126, -8), (78582316, -8)), ((61329485, -8), (78985406, -8)),
       ((60811216, -8), (79385112, -8)), ((60290343, -8), (79781417, -8)),
       ((59766888, -8), (80174305, -8)), ((59240872, -8), (80563758, -8)),
       ((58712318, -8), (80949760, -8)), ((58181249, -8), (81332295, -8)),
       ((57647688, -8), (81711346, -8)), ((57111658, -8), (82086896, -8)),
       ((56573181, -8), (82458930, -8)), ((56032281, -8), (82827432, -8)),
       ((55488980, -8), (83192386, -8)), ((54943303, -8), (83553776, -8)),
       ((54395272, -8), (83911587, -8)), ((53844911, -8), (84265803, -8)),
       ((53292243, -8), (84616410, -8)), ((52737292, -8), (84963392, -8)),
       ((52180083, -8), (85306735, -8)), ((51620638, -8), (85646423, -8)),
       ((51058981, -8), (85982442, -8)), ((50495138, -8), (86314779, -8)),
       ((49929132, -8), (86643418, -8)), ((49360987, -8), (86968345, -8)),
       ((48790727, -8), (87289547, -8)), ((48218377, -8), (87607009, -8)),
       ((47643962, -8), (87920719, -8)), ((47067506, -8), (88230663, -8)),
       ((46489034, -8), (88536827, -8)), ((45908570, -8), (88839199, -8)),
       ((45326139, -8), (89137765, -8)), ((44741768, -8), (89432512, -8)),
       ((44155479, -8), (89723429, -8)), ((43567299, -8), (90010502, -8)),
       ((42977253, -8), (90293719, -8)), ((42385365, -8), (90573069, -8)),
       ((41791662, -8), (90848539, -8)), ((41196169, -8), (91120117, -8)),
       ((40598911, -8), (91387791, -8)), ((39999914, -8), (91651551, -8)),
       ((39399204, -8), (91911385, -8)), ((38796806, -8), (92167282, -8)),
       ((38192746, -8), (92419231, -8)), ((37587050, -8), (92667220, -8)),
       ((36979743, -8), (92911240, -8)), ((36370853, -8), (93151280, -8)),
       ((35760405, -8), (93387330, -8)), ((35148424, -8), (93619380, -8)),
       ((34534939, -8), (93847419, -8)), ((33919973, -8), (94071438, -8)),
       ((33303555, -8), (94291427, -8)), ((32685710, -8), (94507377, -8)),
       ((32066465, -8), (94719279, -8)), ((31445847, -8), (94927123, -8)),
       ((30823881, -8), (95130901, -8)), ((30200595, -8), (95330604, -8)),
       ((29576015, -8), (95526223, -8)), ((28950169, -8), (95717750, -8)),
       ((28323082, -8), (95905177, -8)), ((27694782, -8), (96088496, -8)),
       ((27065295, -8), (96267699, -8)), ((26434649, -8), (96442777, -8)),
       ((25802871, -8), (96613725, -8)), ((25169988, -8), (96780534, -8)),
       ((24536026, -8), (96943197, -8)), ((23901013, -8), (97101707, -8)),
       ((23264977, -8), (97256058, -8)), ((22627944, -8), (97406243, -8)),
       ((21989941, -8), (97552255, -8)), ((21350997, -8), (97694089, -8)),
       ((20711138, -8), (97831737, -8)), ((20070391, -8), (97965195, -8)),
       ((19428785, -8), (98094456, -8)), ((18786347, -8), (98219515, -8)),
       ((18143104, -8), (98340367, -8)), ((17499084, -8), (98457006, -8)),
       ((16854314, -8), (98569428, -8)), ((16208822, -8), (98677627, -8)),
       ((15562636, -8), (98781599, -8)), ((14915783, -8), (98881340, -8)),
       ((14268292, -8), (98976845, -8)), ((13620189, -8), (99068110, -8)),
       ((12971502, -8), (99155132, -8)), ((12322260, -8), (99237906, -8)),
       ((11672491, -8), (99316428, -8)), ((11022221, -8), (99390697, -8)),
       ((10371479, -8), (99460708, -8)), ((97202924, -9), (99526458, -8)),
       ((90686897, -9), (99587945, -8)), ((84166986, -9), (99645166, -8)),
       ((77643468, -9), (99698119, -8)), ((71116625, -9), (99746801, -8)),
       ((64586736, -9), (99791210, -8)), ((58054080, -9), (99831344, -8)),
       ((51518937, -9), (99867202, -8)), ((44981587, -9), (99898782, -8)),
       ((38442310, -9), (99926082, -8)), ((31901387, -9), (99949102, -8)),
       ((25359097, -9), (99967841, -8)), ((18815721, -9), (99982297, -8)),
       ((12271538, -9), (99992470, -8)), ((57268303, -10), (99998360, -8))])"

definition lc3_mdct_rot :: "lc3_dt \<Rightarrow> lc3_srate \<Rightarrow> nat \<times> complex32 list" where
  "lc3_mdct_rot dt sr =
     (if dt = LC3_DT_7M5 then [mdct_rot_120, mdct_rot_240, mdct_rot_360, mdct_rot_480, mdct_rot_720]
      else [mdct_rot_160, mdct_rot_320, mdct_rot_480, mdct_rot_640, mdct_rot_960]) ! nat (sr_int sr)"

definition mdct_win_10m_80 :: "f32 list" where
  "mdct_win_10m_80 =
     f32_tab [
       (-707854671, -12), (-209819773, -11), (-452519808, -11), (-823397633, -11),
       (-133771310, -10), (-199972156, -10), (-280090946, -10), (-372150208, -10),
       (-473176826, -10), (-579465483, -10), (-686760675, -10), (-790464744, -10),
       (-885970547, -10), (-968830362, -10), (-103496124, -9), (-108076646, -9),
       (-110324226, -9), (-109980985, -9), (-106817214, -9), (-100619042, -9),
       (-911645251, -10), (-782061748, -10), (-614668812, -10), (-406336286, -10),
       (-153632952, -10), (147015507, -10), (498973651, -10), (905036926, -10),
       (136691102, -9), (188468639, -9), (245645680, -9), (307778908, -9), (374164237, -9),
       (443811480, -9), (515473546, -9), (587666172, -9), (658761977, -9), (727057670, -9),
       (790875299, -9), (848664336, -9), (899132024, -9), (941334815, -9), (974763483, -9),
       (999411473, -9), (101576037, -8), (102473616, -8), (102763429, -8), (102599149, -8),
       (102142721, -8), (101543986, -8), (100936693, -8), (100350816, -8), (998889821, -9),
       (995313390, -9), (992594392, -9), (990577196, -9), (989137162, -9), (988179075, -9),
       (987624927, -9), (987405628, -9), (987452485, -9), (987695113, -9), (988064062, -9),
       (988492687, -9), (988923003, -9), (989307497, -9), (989614633, -9), (989831927, -9),
       (989969310, -9), (990060335, -9), (990157502, -9), (990325529, -9), (990630379, -9),
       (991129889, -9), (991866549, -9), (992861973, -9), (994115607, -9), (995603378, -9),
       (997279311, -9), (999078484, -9), (100092237, -8), (100272811, -8), (100441604, -8),
       (100591922, -8), (100718935, -8), (100820015, -8), (100894949, -8), (100945824, -8),
       (100976898, -8), (100994034, -8), (101003945, -8), (101013232, -8), (101027252, -8),
       (101049435, -8), (101080807, -8), (101120107, -8), (101164127, -8), (101208013, -8),
       (101245818, -8), (101270696, -8), (101275501, -8), (101253013, -8), (101196233, -8),
       (101098214, -8), (100951244, -8), (100746086, -8), (100470868, -8), (100111141, -8),
       (996504102, -9), (990720000, -9), (982376587, -9), (970882175, -9), (954673298, -9),
       (932155386, -9), (901800368, -9), (862398408, -9), (813281737, -9), (754455197, -9),
       (686658072, -9), (611348804, -9), (530618165, -9), (447130985, -9), (363911468, -9),
       (284164703, -9), (211020945, -9), (147228797, -9), (948266535, -10), (548243661, -10),
       (270146141, -10), (999674359, -11)]"

definition mdct_win_10m_160 :: "f32 list" where
  "mdct_win_10m_160 =
     f32_tab [
       (-461989875, -12), (-974716672, -12), (-166447310, -11), (-259710692, -11),
       (-380628516, -11), (-532460872, -11), (-717588528, -11), (-938248086, -11),
       (-119527030, -10), (-148952816, -10), (-182066640, -10), (-218757093, -10),
       (-258847194, -10), (-302086274, -10), (-348159779, -10), (-396706799, -10),
       (-447269805, -10), (-499422586, -10), (-552633479, -10), (-606371724, -10),
       (-660096152, -10), (-713196627, -10), (-765117823, -10), (-815296401, -10),
       (-863113754, -10), (-908041129, -10), (-949537776, -10), (-987073651, -10),
       (-102020268, -9), (-104843883, -9), (-107138231, -9), (-108869014, -9),
       (-109996966, -9), (-110489847, -9), (-110322584, -9), (-109462175, -9),
       (-107883429, -9), (-105561251, -9), (-102465016, -9), (-985701457, -10),
       (-938468492, -10), (-882630999, -10), (-817879272, -10), (-743878560, -10),
       (-660218980, -10), (-566565564, -10), (-462445689, -10), (-347458578, -10),
       (-221158161, -10), (-831042570, -11), (671769764, -11), (230064206, -10),
       (406010646, -10), (595323909, -10), (798335419, -10), (101523314, -9), (124617139, -9),
       (149115252, -9), (175006740, -9), (202269985, -9), (230865538, -9), (260736512, -9),
       (291814469, -9), (324009570, -9), (357217518, -9), (391314689, -9), (426157164, -9),
       (461592545, -9), (497447159, -9), (533532682, -9), (569654673, -9), (605608382, -9),
       (641183084, -9), (676165350, -9), (710340055, -9), (743494372, -9), (775428189, -9),
       (805943723, -9), (834858937, -9), (862010834, -9), (887259971, -9), (910486312, -9),
       (931596250, -9), (950522086, -9), (967236671, -9), (981739750, -9), (994055718, -9),
       (100424751, -8), (101240743, -8), (101865099, -8), (102311884, -8), (102597245, -8),
       (102739752, -8), (102758583, -8), (102673867, -8), (102506178, -8), (102275651, -8),
       (102000914, -8), (101699650, -8), (101391595, -8), (101104487, -8), (100777386, -8),
       (100484875, -8), (100224501, -8), (999939317, -9), (997905542, -9), (996120338, -9),
       (994559753, -9), (993203161, -9), (992029727, -9), (991023065, -9), (990166895, -9),
       (989448837, -9), (988855636, -9), (988377852, -9), (988005163, -9), (987729546, -9),
       (987541274, -9), (987432981, -9), (987394992, -9), (987419705, -9), (987497321, -9),
       (987620124, -9), (987778192, -9), (987963798, -9), (988167801, -9), (988383520, -9),
       (988602222, -9), (988818277, -9), (989024798, -9), (989217866, -9), (989392368, -9),
       (989546334, -9), (989677201, -9), (989785920, -9), (989872536, -9), (989941079, -9),
       (989994556, -9), (990039402, -9), (990081472, -9), (990129379, -9), (990190227, -9),
       (990273445, -9), (990386228, -9), (990537983, -9), (990734883, -9), (990984259, -9),
       (991290512, -9), (991658694, -9), (992090615, -9), (992588721, -9), (993151653, -9),
       (993779087, -9), (994466818, -9), (995211663, -9), (996006862, -9), (996846133, -9),
       (997720337, -9), (998621352, -9), (999538258, -9), (100046196, -8), (100138055, -8),
       (100228487, -8), (100316385, -8), (100400915, -8), (100481138, -8), (100556397, -8),
       (100625986, -8), (100689557, -8), (100746662, -8), (100797244, -8), (100841147, -8),
       (100878601, -8), (100909776, -8), (100935176, -8), (100955240, -8), (100970709, -8),
       (100982209, -8), (100990696, -8), (100996902, -8), (101001789, -8), (101006081, -8),
       (101010656, -8), (101016113, -8), (101023108, -8), (101031948, -8), (101043047, -8),
       (101056410, -8), (101072136, -8), (101089966, -8), (101109699, -8), (101130817, -8),
       (101152919, -8), (101175301, -8), (101197388, -8), (101218284, -8), (101237303, -8),
       (101253506, -8), (101266098, -8), (101274058, -8), (101276592, -8), (101272696, -8),
       (101261590, -8), (101242289, -8), (101214046, -8), (101175881, -8), (101126996, -8),
       (101066368, -8), (100993075, -8), (100905825, -8), (100803431, -8), (100684335, -8),
       (100547001, -8), (100389477, -8), (100209885, -8), (100006069, -8), (997760020, -9),
       (995174643, -9), (992286108, -9), (989075787, -9), (984736245, -9), (979861353, -9),
       (974137862, -9), (967333198, -9), (959253976, -9), (949698408, -9), (938463416, -9),
       (925356797, -9), (910198679, -9), (892833832, -9), (873143784, -9), (851042044, -9),
       (826483991, -9), (799468149, -9), (770043128, -9), (738302860, -9), (704381434, -9),
       (668461648, -9), (630775533, -9), (591579959, -9), (551170316, -9), (509891542, -9),
       (468101711, -9), (426177297, -9), (384517234, -9), (343522867, -9), (303600465, -9),
       (265143468, -9), (228528397, -9), (194102191, -9), (162173542, -9), (133001524, -9),
       (106784043, -9), (836505724, -10), (636518811, -10), (467653841, -10), (328807275, -10),
       (218305756, -10), (133638143, -10), (675812489, -11)]"

definition mdct_win_10m_240 :: "f32 list" where
  "mdct_win_10m_240 =
     f32_tab [
       (-361349642, -12), (-707854671, -12), (-107444364, -11), (-153347854, -11),
       (-209819773, -11), (-277842087, -11), (-358412992, -11), (-452519808, -11),
       (-560932724, -11), (-684323454, -11), (-823397633, -11), (-978531476, -11),
       (-114988030, -10), (-133771310, -10), (-154218168, -10), (-176297991, -10),
       (-199972156, -10), (-225208056, -10), (-251940630, -10), (-280090946, -10),
       (-309576509, -10), (-340299627, -10), (-372150208, -10), (-405005325, -10),
       (-438721922, -10), (-473176826, -10), (-508232534, -10), (-543716664, -10),
       (-579465483, -10), (-615342620, -10), (-651170816, -10), (-686760675, -10),
       (-721944781, -10), (-756569598, -10), (-790464744, -10), (-823444256, -10),
       (-855332458, -10), (-885970547, -10), (-915209110, -10), (-942884745, -10),
       (-968830362, -10), (-992912326, -10), (-101500847, -9), (-103496124, -9),
       (-105263700, -9), (-106793998, -9), (-108076646, -9), (-109099730, -9),
       (-109852449, -9), (-110324226, -9), (-110508462, -9), (-110397741, -9),
       (-109980985, -9), (-109249277, -9), (-108197423, -9), (-106817214, -9),
       (-105099580, -9), (-103036011, -9), (-100619042, -9), (-978412002, -10),
       (-946930422, -10), (-911645251, -10), (-872464453, -10), (-829304391, -10),
       (-782061748, -10), (-730614243, -10), (-674846818, -10), (-614668812, -10),
       (-549949726, -10), (-480544442, -10), (-406336286, -10), (-327204559, -10),
       (-243012258, -10), (-153632952, -10), (-589143427, -11), (412659586, -11),
       (147015507, -10), (258473819, -10), (375765277, -10), (498973651, -10),
       (628203403, -10), (763539773, -10), (905036926, -10), (105274712, -9), (120670347, -9),
       (136691102, -9), (153334389, -9), (170595471, -9), (188468639, -9), (206944996, -9),
       (226009300, -9), (245645680, -9), (265834602, -9), (286554381, -9), (307778908, -9),
       (329476944, -9), (351617148, -9), (374164237, -9), (397073959, -9), (420304305, -9),
       (443811480, -9), (467544229, -9), (491449863, -9), (515473546, -9), (539555764, -9),
       (563639982, -9), (587666172, -9), (611569531, -9), (635289059, -9), (658761977, -9),
       (681923097, -9), (704709282, -9), (727057670, -9), (748906896, -9), (770199019, -9),
       (790875299, -9), (810878869, -9), (830157914, -9), (848664336, -9), (866354816, -9),
       (883189685, -9), (899132024, -9), (914154056, -9), (928228255, -9), (941334815, -9),
       (953461939, -9), (964604825, -9), (974763483, -9), (983943539, -9), (992152910, -9),
       (999411473, -9), (100574608, -8), (101118397, -8), (101576037, -8), (101951507, -8),
       (102249094, -8), (102473616, -8), (102630410, -8), (102725098, -8), (102763429, -8),
       (102751106, -8), (102694280, -8), (102599149, -8), (102471615, -8), (102317598, -8),
       (102142721, -8), (101952157, -8), (101751012, -8), (101543986, -8), (101346092, -8),
       (101165490, -8), (100936693, -8), (100726318, -8), (100531319, -8), (100350816, -8),
       (100184079, -8), (100030393, -8), (998889821, -9), (997591528, -9), (996401528, -9),
       (995313390, -9), (994320108, -9), (993415896, -9), (992594392, -9), (991851028, -9),
       (991179799, -9), (990577196, -9), (990038105, -9), (989559439, -9), (989137162, -9),
       (988768437, -9), (988449792, -9), (988179075, -9), (987952836, -9), (987769137, -9),
       (987624927, -9), (987517995, -9), (987445813, -9), (987405628, -9), (987395112, -9),
       (987411537, -9), (987452485, -9), (987514989, -9), (987596889, -9), (987695113, -9),
       (987807582, -9), (987931200, -9), (988064062, -9), (988203257, -9), (988347108, -9),
       (988492687, -9), (988638659, -9), (988782558, -9), (988923003, -9), (989058172, -9),
       (989186767, -9), (989307497, -9), (989419640, -9), (989522076, -9), (989614633, -9),
       (989697035, -9), (989769260, -9), (989831927, -9), (989885257, -9), (989930764, -9),
       (989969310, -9), (990002569, -9), (990032156, -9), (990060335, -9), (990088981, -9),
       (990120659, -9), (990157502, -9), (990202395, -9), (990257541, -9), (990325529, -9),
       (990408791, -9), (990509649, -9), (990630379, -9), (990772711, -9), (990938744, -9),
       (991129889, -9), (991347632, -9), (991592856, -9), (991866549, -9), (992169132, -9),
       (992501085, -9), (992861973, -9), (993251918, -9), (993670021, -9), (994115607, -9),
       (994587315, -9), (995083740, -9), (995603378, -9), (996143992, -9), (996703453, -9),
       (997279311, -9), (997869086, -9), (998469709, -9), (999078484, -9), (999691901, -9),
       (100030819, -8), (100092237, -8), (100153264, -8), (100213546, -8), (100272811, -8),
       (100330745, -8), (100387093, -8), (100441604, -8), (100494055, -8), (100544214, -8),
       (100591922, -8), (100637030, -8), (100679393, -8), (100718935, -8), (100755557, -8),
       (100789267, -8), (100820015, -8), (100847842, -8), (100872788, -8), (100894949, -8),
       (100914411, -8), (100931322, -8), (100945824, -8), (100958128, -8), (100968409, -8),
       (100976898, -8), (100983831, -8), (100989455, -8), (100994034, -8), (100997792, -8),
       (101001023, -8), (101003945, -8), (101006820, -8), (101009839, -8), (101013232, -8),
       (101017166, -8), (101021810, -8), (101027252, -8), (101033649, -8), (101041022, -8),
       (101049435, -8), (101058887, -8), (101069350, -8), (101080807, -8), (101093144, -8),
       (101106288, -8), (101120107, -8), (101134470, -8), (101149190, -8), (101164127, -8),
       (101179028, -8), (101193757, -8), (101208013, -8), (101221624, -8), (101234291, -8),
       (101245818, -8), (101255888, -8), (101264286, -8), (101270696, -8), (101274895, -8),
       (101276580, -8), (101275501, -8), (101271380, -8), (101263978, -8), (101253013, -8),
       (101238231, -8), (101219407, -8), (101196233, -8), (101168517, -8), (101135914, -8),
       (101098214, -8), (101055072, -8), (101006213, -8), (100951244, -8), (100889869, -8),
       (100821592, -8), (100746086, -8), (100662774, -8), (100571234, -8), (100470868, -8),
       (100361147, -8), (100241429, -8), (100111141, -8), (999696165, -9), (998162595, -9),
       (996504102, -9), (994714888, -9), (992789191, -9), (990720000, -9), (988479371, -9),
       (985534766, -9), (982376587, -9), (978974733, -9), (975162381, -9), (970882175, -9),
       (966080552, -9), (960697640, -9), (954673298, -9), (947947935, -9), (940460905, -9),
       (932155386, -9), (922977548, -9), (912874535, -9), (901800368, -9), (889716328, -9),
       (876590897, -9), (862398408, -9), (847120080, -9), (830747973, -9), (813281737, -9),
       (794729145, -9), (775110884, -9), (754455197, -9), (732796355, -9), (710179084, -9),
       (686658072, -9), (662296243, -9), (637168412, -9), (611348804, -9), (584920660, -9),
       (557974743, -9), (530618165, -9), (502952396, -9), (475086883, -9), (447130985, -9),
       (419204992, -9), (391425291, -9), (363911468, -9), (336783777, -9), (310162784, -9),
       (284164703, -9), (258903371, -9), (234488060, -9), (211020945, -9), (188599764, -9),
       (167310081, -9), (147228797, -9), (128422307, -9), (110942255, -9), (948266535, -10),
       (800991437, -10), (667676585, -10), (548243661, -10), (442458885, -10),
       (349936100, -10), (270146141, -10), (202437018, -10), (146079676, -10),
       (999674359, -11), (530523510, -11)]"

definition mdct_win_10m_320 :: "f32 list" where
  "mdct_win_10m_320 =
     f32_tab [
       (-302115349, -12), (-586773749, -12), (-836650400, -12), (-112663536, -11),
       (-147049294, -11), (-187347339, -11), (-233929236, -11), (-287200807, -11),
       (-347625639, -11), (-415596382, -11), (-491456379, -11), (-575517250, -11),
       (-668062338, -11), (-769381692, -11), (-879676075, -11), (-999050307, -11),
       (-112757412, -10), (-126533415, -10), (-141243899, -10), (-156888962, -10),
       (-173451209, -10), (-190909737, -10), (-209254671, -10), (-228468479, -10),
       (-248520772, -10), (-269374670, -10), (-290995249, -10), (-313350463, -10),
       (-336396073, -10), (-360082097, -10), (-384360174, -10), (-409174603, -10),
       (-434465489, -10), (-460178672, -10), (-486259851, -10), (-512647420, -10),
       (-539264475, -10), (-566038431, -10), (-592911675, -10), (-619826820, -10),
       (-646702555, -10), (-673454222, -10), (-700009902, -10), (-726305701, -10),
       (-752278496, -10), (-777852594, -10), (-802948025, -10), (-827492454, -10),
       (-851412546, -10), (-874637912, -10), (-897106934, -10), (-918756408, -10),
       (-939517698, -10), (-959313774, -10), (-978084326, -10), (-995785130, -10),
       (-101236117, -9), (-102774104, -9), (-104186122, -9), (-105468025, -9),
       (-106616088, -9), (-107625538, -9), (-108491230, -9), (-109208742, -9),
       (-109773615, -9), (-110180886, -9), (-110427188, -9), (-110510836, -9),
       (-110428147, -9), (-110173922, -9), (-109743736, -9), (-109135313, -9),
       (-108346734, -9), (-107373994, -9), (-106213016, -9), (-104860615, -9),
       (-103313240, -9), (-101567316, -9), (-996200551, -10), (-974680323, -10),
       (-951072362, -10), (-925330338, -10), (-897412522, -10), (-867287769, -10),
       (-834921384, -10), (-800263990, -10), (-763267954, -10), (-723880616, -10),
       (-682057680, -10), (-637761143, -10), (-590938600, -10), (-541531632, -10),
       (-489481272, -10), (-434734711, -10), (-377246130, -10), (-316958761, -10),
       (-253817983, -10), (-187768910, -10), (-118746138, -10), (-466909925, -11),
       (284409675, -11), (106697612, -10), (188135595, -10), (272815601, -10),
       (360781047, -10), (452070276, -10), (546723880, -10), (644786605, -10),
       (746286220, -10), (851249057, -10), (959698399, -10), (107165078, -9), (118711585, -9),
       (130610107, -9), (142859645, -9), (155458473, -9), (168404161, -9), (181694789, -9),
       (195327388, -9), (209296321, -9), (223594564, -9), (238216022, -9), (253152972, -9),
       (268396157, -9), (283936139, -9), (299762426, -9), (315861908, -9), (332221055, -9),
       (348826468, -9), (365664038, -9), (382715297, -9), (399961186, -9), (417384327, -9),
       (434966962, -9), (452687640, -9), (470524201, -9), (488453925, -9), (506454555, -9),
       (524500675, -9), (542567437, -9), (560631204, -9), (578667265, -9), (596647704, -9),
       (614545890, -9), (632336194, -9), (649992632, -9), (667487403, -9), (684793267, -9),
       (701883546, -9), (718732254, -9), (735312821, -9), (751600199, -9), (767569925, -9),
       (783197457, -9), (798458386, -9), (813329535, -9), (827789227, -9), (841817856, -9),
       (855396130, -9), (868506898, -9), (881133444, -9), (893259678, -9), (904874884, -9),
       (915965761, -9), (926521530, -9), (936533999, -9), (945997703, -9), (954908841, -9),
       (963265812, -9), (971068890, -9), (978320416, -9), (985022676, -9), (991179208, -9),
       (996798994, -9), (100189402, -8), (100647434, -8), (101055206, -8), (101414254, -8),
       (101726259, -8), (101992884, -8), (102215987, -8), (102397632, -8), (102540073, -8),
       (102645534, -8), (102716451, -8), (102755273, -8), (102764446, -8), (102746325, -8),
       (102703590, -8), (102638907, -8), (102554820, -8), (102453713, -8), (102338080, -8),
       (102210370, -8), (102072836, -8), (101927533, -8), (101776518, -8), (101621736, -8),
       (101466531, -8), (101324907, -8), (101194801, -8), (101018909, -8), (100855796, -8),
       (100701129, -8), (100554876, -8), (100416842, -8), (100286727, -8), (100164177, -8),
       (100048907, -8), (999406080, -9), (998389887, -9), (997437085, -9), (996544484, -9),
       (995709855, -9), (994930241, -9), (994202405, -9), (993524160, -9), (992893043, -9),
       (992306810, -9), (991763378, -9), (991259764, -9), (990795450, -9), (990367789, -9),
       (989975161, -9), (989616034, -9), (989289016, -9), (988992851, -9), (988726033, -9),
       (988486872, -9), (988275104, -9), (988089217, -9), (987927711, -9), (987789826, -9),
       (987674344, -9), (987580750, -9), (987507202, -9), (987452945, -9), (987416974, -9),
       (987398469, -9), (987395830, -9), (987408003, -9), (987434340, -9), (987473624, -9),
       (987524314, -9), (987585620, -9), (987656379, -9), (987735892, -9), (987822558, -9),
       (987915097, -9), (988013273, -9), (988115695, -9), (988221131, -9), (988328903, -9),
       (988437831, -9), (988547679, -9), (988656841, -9), (988764587, -9), (988870854, -9),
       (988974432, -9), (989074727, -9), (989171004, -9), (989263102, -9), (989350722, -9),
       (989433065, -9), (989509692, -9), (989581081, -9), (989646747, -9), (989706737, -9),
       (989760693, -9), (989809448, -9), (989853013, -9), (989891471, -9), (989925419, -9),
       (989955420, -9), (989982449, -9), (990006512, -9), (990028481, -9), (990049748, -9),
       (990070956, -9), (990092836, -9), (990116392, -9), (990142748, -9), (990173428, -9),
       (990208733, -9), (990249864, -9), (990298369, -9), (990354850, -9), (990420508, -9),
       (990495930, -9), (990582515, -9), (990681257, -9), (990792209, -9), (990916546, -9),
       (991055074, -9), (991208461, -9), (991376861, -9), (991560583, -9), (991760421, -9),
       (991976718, -9), (992209110, -9), (992457914, -9), (992723123, -9), (993004954, -9),
       (993302728, -9), (993616108, -9), (993945371, -9), (994289515, -9), (994648168, -9),
       (995020303, -9), (995405817, -9), (995803871, -9), (996213027, -9), (996632469, -9),
       (997061531, -9), (997499058, -9), (997943743, -9), (998394057, -9), (998849312, -9),
       (999308343, -9), (999768922, -9), (100023113, -8), (100069214, -8), (100115201, -8),
       (100160853, -8), (100206049, -8), (100250721, -8), (100294713, -8), (100337891, -8),
       (100380137, -8), (100421381, -8), (100461539, -8), (100500462, -8), (100538063, -8),
       (100574328, -8), (100609151, -8), (100642491, -8), (100674243, -8), (100704432, -8),
       (100733022, -8), (100759940, -8), (100785206, -8), (100808818, -8), (100830803, -8),
       (100851125, -8), (100869814, -8), (100886952, -8), (100902566, -8), (100916672, -8),
       (100929336, -8), (100940640, -8), (100950702, -8), (100959526, -8), (100967215, -8),
       (100973908, -8), (100979668, -8), (100984614, -8), (100988808, -8), (100992409, -8),
       (100995538, -8), (100998227, -8), (101000630, -8), (101002862, -8), (101005025, -8),
       (101007195, -8), (101009437, -8), (101011892, -8), (101014650, -8), (101017711, -8),
       (101021176, -8), (101025100, -8), (101029547, -8), (101034523, -8), (101040032, -8),
       (101046156, -8), (101052862, -8), (101060152, -8), (101067979, -8), (101076391, -8),
       (101085343, -8), (101094755, -8), (101104595, -8), (101114849, -8), (101125440, -8),
       (101136308, -8), (101147330, -8), (101158500, -8), (101169742, -8), (101180892, -8),
       (101191926, -8), (101202724, -8), (101213215, -8), (101223273, -8), (101232756, -8),
       (101241638, -8), (101249789, -8), (101257043, -8), (101263330, -8), (101268528, -8),
       (101272556, -8), (101275258, -8), (101276506, -8), (101276236, -8), (101274338, -8),
       (101270648, -8), (101265084, -8), (101257543, -8), (101247947, -8), (101236111, -8),
       (101221981, -8), (101205436, -8), (101186400, -8), (101164722, -8), (101140252, -8),
       (101112965, -8), (101082695, -8), (101049292, -8), (101012635, -8), (100972589, -8),
       (100929006, -8), (100881730, -8), (100830503, -8), (100775283, -8), (100715783, -8),
       (100651805, -8), (100583140, -8), (100509559, -8), (100430863, -8), (100346750, -8),
       (100256950, -8), (100161271, -8), (100059427, -8), (999511170, -9), (998360922, -9),
       (997140929, -9), (995848886, -9), (994481854, -9), (993037528, -9), (991514656, -9),
       (989913680, -9), (988193062, -9), (985942259, -9), (983566790, -9), (981142303, -9),
       (978521444, -9), (975663604, -9), (972545344, -9), (969145663, -9), (965440618, -9),
       (961404362, -9), (957011307, -9), (952236767, -9), (947054884, -9), (941440374, -9),
       (935369161, -9), (928819009, -9), (921766289, -9), (914189628, -9), (906069468, -9),
       (897389168, -9), (888133200, -9), (878289389, -9), (867846957, -9), (856797064, -9),
       (845133465, -9), (832854281, -9), (819959478, -9), (806451101, -9), (792334648, -9),
       (777620449, -9), (762320618, -9), (746448649, -9), (730020573, -9), (713056738, -9),
       (695580544, -9), (677617323, -9), (659195531, -9), (640348643, -9), (621107220, -9),
       (601504928, -9), (581578761, -9), (561367451, -9), (540918863, -9), (520273683, -9),
       (499478073, -9), (478577418, -9), (457617260, -9), (436649021, -9), (415722146, -9),
       (394885659, -9), (374190319, -9), (353686890, -9), (333426002, -9), (313458647, -9),
       (293833790, -9), (274599264, -9), (255803064, -9), (237490219, -9), (219703603, -9),
       (202485542, -9), (185874992, -9), (169906780, -9), (154613227, -9), (140023821, -9),
       (126163740, -9), (113053443, -9), (100708497, -9), (891402439, -10), (783561210, -10),
       (683582123, -10), (591421154, -10), (506989301, -10), (430171776, -10),
       (360802073, -10), (298631634, -10), (243372266, -10), (194767524, -10),
       (152571017, -10), (116378749, -10), (843308778, -11), (444966900, -11)]"

definition mdct_win_10m_480 :: "f32 list" where
  "mdct_win_10m_480 =
     f32_tab [
       (-235303215, -12), (-461989875, -12), (-626293154, -12), (-792918043, -12),
       (-974716672, -12), (-118025689, -11), (-140920904, -11), (-166447310, -11),
       (-194659161, -11), (-225708173, -11), (-259710692, -11), (-296760762, -11),
       (-337045488, -11), (-380628516, -11), (-427687377, -11), (-478246990, -11),
       (-532460872, -11), (-590340381, -11), (-652041973, -11), (-717588528, -11),
       (-787142282, -11), (-860658604, -11), (-938248086, -11), (-101982718, -10),
       (-110552055, -10), (-119527030, -10), (-128920591, -10), (-138726348, -10),
       (-148952816, -10), (-159585662, -10), (-170628856, -10), (-182066640, -10),
       (-193906598, -10), (-206135542, -10), (-218757093, -10), (-231752632, -10),
       (-245122745, -10), (-258847194, -10), (-272926374, -10), (-287339090, -10),
       (-302086274, -10), (-317144037, -10), (-332509886, -10), (-348159779, -10),
       (-364089241, -10), (-380274232, -10), (-396706799, -10), (-413357542, -10),
       (-430220337, -10), (-447269805, -10), (-464502229, -10), (-481889149, -10),
       (-499422586, -10), (-517069080, -10), (-534816204, -10), (-552633479, -10),
       (-570512315, -10), (-588427175, -10), (-606371724, -10), (-624310403, -10),
       (-642230355, -10), (-660096152, -10), (-677896227, -10), (-695599687, -10),
       (-713196627, -10), (-730658127, -10), (-747975891, -10), (-765117823, -10),
       (-782071142, -10), (-798801069, -10), (-815296401, -10), (-831523735, -10),
       (-847472895, -10), (-863113754, -10), (-878437445, -10), (-893416436, -10),
       (-908041129, -10), (-922279576, -10), (-936123287, -10), (-949537776, -10),
       (-962515531, -10), (-975028462, -10), (-987073651, -10), (-998627129, -10),
       (-100968022, -9), (-102020268, -9), (-103018380, -9), (-103959636, -9),
       (-104843883, -9), (-105668684, -9), (-106434282, -9), (-107138231, -9),
       (-107779996, -9), (-108357063, -9), (-108869014, -9), (-109313559, -9),
       (-109690356, -9), (-109996966, -9), (-110233226, -9), (-110397281, -9),
       (-110489847, -9), (-110508642, -9), (-110453743, -9), (-110322584, -9),
       (-110114583, -9), (-109827693, -9), (-109462175, -9), (-109016396, -9),
       (-108490885, -9), (-107883429, -9), (-107193718, -9), (-106419636, -9),
       (-105561251, -9), (-104616281, -9), (-103584904, -9), (-102465016, -9),
       (-101256900, -9), (-999586457, -10), (-985701457, -10), (-970891114, -10),
       (-955154582, -10), (-938468492, -10), (-920830006, -10), (-902217102, -10),
       (-882630999, -10), (-862049382, -10), (-840474215, -10), (-817879272, -10),
       (-794262503, -10), (-769598078, -10), (-743878560, -10), (-717079700, -10),
       (-689199478, -10), (-660218980, -10), (-630134942, -10), (-598919191, -10),
       (-566565564, -10), (-533040616, -10), (-498342724, -10), (-462445689, -10),
       (-425345569, -10), (-387019577, -10), (-347458578, -10), (-306634152, -10),
       (-264542508, -10), (-221158161, -10), (-176474054, -10), (-130458136, -10),
       (-831042570, -11), (-343826866, -11), (157031548, -11), (671769764, -11),
       (120047702, -10), (174339832, -10), (230064206, -10), (287248142, -10),
       (345889635, -10), (406010646, -10), (467610292, -10), (530713391, -10),
       (595323909, -10), (661464781, -10), (729129318, -10), (798335419, -10),
       (869080741, -10), (941381377, -10), (101523314, -9), (109065152, -9), (116762655, -9),
       (124617139, -9), (132627295, -9), (140793819, -9), (149115252, -9), (157592141, -9),
       (166222480, -9), (175006740, -9), (183943194, -9), (193031818, -9), (202269985, -9),
       (211656743, -9), (221188852, -9), (230865538, -9), (240683799, -9), (250642064, -9),
       (260736512, -9), (270965907, -9), (281325902, -9), (291814469, -9), (302427028, -9),
       (313160350, -9), (324009570, -9), (334971959, -9), (346042294, -9), (357217518, -9),
       (368491565, -9), (379859512, -9), (391314689, -9), (402853287, -9), (414468833, -9),
       (426157164, -9), (437911390, -9), (449725632, -9), (461592545, -9), (473506703, -9),
       (485460018, -9), (497447159, -9), (509459723, -9), (521490984, -9), (533532682, -9),
       (545578981, -9), (557621716, -9), (569654673, -9), (581668558, -9), (593656062, -9),
       (605608382, -9), (617519206, -9), (629379661, -9), (641183084, -9), (652920354, -9),
       (664584079, -9), (676165350, -9), (687657395, -9), (699051154, -9), (710340055, -9),
       (721514933, -9), (732569177, -9), (743494372, -9), (754284633, -9), (764931365, -9),
       (775428189, -9), (785767017, -9), (795941465, -9), (805943723, -9), (815768707, -9),
       (825408622, -9), (834858937, -9), (844112583, -9), (853165119, -9), (862010834, -9),
       (870645634, -9), (879063156, -9), (887259971, -9), (895231329, -9), (902975168, -9),
       (910486312, -9), (917762555, -9), (924799743, -9), (931596250, -9), (938149486, -9),
       (944458839, -9), (950522086, -9), (956340292, -9), (961911452, -9), (967236671, -9),
       (972315664, -9), (977150119, -9), (981739750, -9), (986086587, -9), (990190638, -9),
       (994055718, -9), (997684240, -9), (100108096, -8), (100424751, -8), (100718858, -8),
       (100990665, -8), (101240743, -8), (101469470, -8), (101677466, -8), (101865099, -8),
       (102033046, -8), (102181733, -8), (102311884, -8), (102424026, -8), (102518972, -8),
       (102597245, -8), (102659694, -8), (102706918, -8), (102739752, -8), (102758790, -8),
       (102764895, -8), (102758583, -8), (102740852, -8), (102712299, -8), (102673867, -8),
       (102626166, -8), (102570100, -8), (102506178, -8), (102435398, -8), (102358239, -8),
       (102275651, -8), (102188060, -8), (102096387, -8), (102000914, -8), (101902729, -8),
       (101801944, -8), (101699650, -8), (101595743, -8), (101492344, -8), (101391595, -8),
       (101304757, -8), (101221613, -8), (101104487, -8), (100991459, -8), (100882489, -8),
       (100777386, -8), (100676170, -8), (100578665, -8), (100484875, -8), (100394608, -8),
       (100307885, -8), (100224501, -8), (100144473, -8), (100067619, -8), (999939317, -9),
       (999232085, -9), (998554813, -9), (997905542, -9), (997284268, -9), (996689095, -9),
       (996120338, -9), (995576126, -9), (995056572, -9), (994559753, -9), (994086038, -9),
       (993633779, -9), (993203161, -9), (992792187, -9), (992401518, -9), (992029727, -9),
       (991676778, -9), (991340877, -9), (991023065, -9), (990721643, -9), (990436680, -9),
       (990166895, -9), (989913101, -9), (989673564, -9), (989448837, -9), (989237484, -9),
       (989040193, -9), (988855636, -9), (988684347, -9), (988524761, -9), (988377852, -9),
       (988242327, -9), (988118564, -9), (988005163, -9), (987903202, -9), (987811174, -9),
       (987729546, -9), (987657198, -9), (987594984, -9), (987541274, -9), (987496906, -9),
       (987460625, -9), (987432981, -9), (987412641, -9), (987400475, -9), (987394992, -9),
       (987396916, -9), (987404906, -9), (987419705, -9), (987439972, -9), (987466328, -9),
       (987497321, -9), (987533893, -9), (987574654, -9), (987620124, -9), (987668980, -9),
       (987722156, -9), (987778192, -9), (987837649, -9), (987899199, -9), (987963798, -9),
       (988030030, -9), (988098468, -9), (988167801, -9), (988239030, -9), (988310769, -9),
       (988383520, -9), (988456016, -9), (988529420, -9), (988602222, -9), (988674940, -9),
       (988746626, -9), (988818277, -9), (988888248, -9), (988957438, -9), (989024798, -9),
       (989091125, -9), (989155170, -9), (989217866, -9), (989277956, -9), (989336519, -9),
       (989392368, -9), (989446283, -9), (989497212, -9), (989546334, -9), (989592362, -9),
       (989636265, -9), (989677201, -9), (989716220, -9), (989752029, -9), (989785920, -9),
       (989817027, -9), (989846207, -9), (989872536, -9), (989897514, -9), (989920005, -9),
       (989941079, -9), (989960061, -9), (989978226, -9), (989994556, -9), (990010350, -9),
       (990024832, -9), (990039402, -9), (990053211, -9), (990067475, -9), (990081472, -9),
       (990096693, -9), (990112245, -9), (990129379, -9), (990147465, -9), (990168060, -9),
       (990190227, -9), (990215190, -9), (990242442, -9), (990273445, -9), (990307127, -9),
       (990344891, -9), (990386228, -9), (990432448, -9), (990482565, -9), (990537983, -9),
       (990598060, -9), (990664037, -9), (990734883, -9), (990812038, -9), (990894786, -9),
       (990984259, -9), (991079525, -9), (991181924, -9), (991290512, -9), (991406471, -9),
       (991528801, -9), (991658694, -9), (991795272, -9), (991939622, -9), (992090615, -9),
       (992249503, -9), (992415240, -9), (992588721, -9), (992768871, -9), (992956911, -9),
       (993151653, -9), (993353924, -9), (993562689, -9), (993779087, -9), (994001643, -9),
       (994231202, -9), (994466818, -9), (994709344, -9), (994957285, -9), (995211663, -9),
       (995471264, -9), (995736795, -9), (996006862, -9), (996282303, -9), (996561799, -9),
       (996846133, -9), (997133827, -9), (997425669, -9), (997720337, -9), (998018509, -9),
       (998318587, -9), (998621352, -9), (998925543, -9), (999231731, -9), (999538258, -9),
       (999846116, -9), (100015391, -8), (100046196, -8), (100076886, -8), (100107561, -8),
       (100138055, -8), (100168424, -8), (100198543, -8), (100228487, -8), (100258098, -8),
       (100287441, -8), (100316385, -8), (100345006, -8), (100373157, -8), (100400915, -8),
       (100428146, -8), (100454934, -8), (100481138, -8), (100506827, -8), (100531880, -8),
       (100556397, -8), (100580227, -8), (100603455, -8), (100625986, -8), (100647902, -8),
       (100669054, -8), (100689557, -8), (100709305, -8), (100728380, -8), (100746662, -8),
       (100764273, -8), (100781104, -8), (100797244, -8), (100812588, -8), (100827260, -8),
       (100841147, -8), (100854357, -8), (100866802, -8), (100878601, -8), (100889653, -8),
       (100900077, -8), (100909776, -8), (100918888, -8), (100927316, -8), (100935176, -8),
       (100942394, -8), (100949118, -8), (100955240, -8), (100960889, -8), (100965997, -8),
       (100970709, -8), (100974924, -8), (100978774, -8), (100982209, -8), (100985371, -8),
       (100988150, -8), (100990696, -8), (100992957, -8), (100995057, -8), (100996902, -8),
       (100998650, -8), (101000236, -8), (101001789, -8), (101003217, -8), (101004672, -8),
       (101006081, -8), (101007567, -8), (101009045, -8), (101010656, -8), (101012323, -8),
       (101014176, -8), (101016113, -8), (101018264, -8), (101020559, -8), (101023108, -8),
       (101025795, -8), (101028773, -8), (101031948, -8), (101035408, -8), (101039064, -8),
       (101043047, -8), (101047227, -8), (101051710, -8), (101056410, -8), (101061427, -8),
       (101066629, -8), (101072136, -8), (101077842, -8), (101083825, -8), (101089966, -8),
       (101096373, -8), (101102919, -8), (101109699, -8), (101116586, -8), (101123661, -8),
       (101130817, -8), (101138145, -8), (101145479, -8), (101152919, -8), (101160368, -8),
       (101167880, -8), (101175301, -8), (101182748, -8), (101190094, -8), (101197388, -8),
       (101204489, -8), (101211499, -8), (101218284, -8), (101224902, -8), (101231210, -8),
       (101237303, -8), (101243046, -8), (101248497, -8), (101253506, -8), (101258168, -8),
       (101262347, -8), (101266098, -8), (101269276, -8), (101271979, -8), (101274058, -8),
       (101275575, -8), (101276395, -8), (101276592, -8), (101276030, -8), (101274782, -8),
       (101272696, -8), (101269861, -8), (101266140, -8), (101261590, -8), (101256083, -8),
       (101249705, -8), (101242289, -8), (101233923, -8), (101224492, -8), (101214046, -8),
       (101202430, -8), (101189756, -8), (101175881, -8), (101160845, -8), (101144516, -8),
       (101126996, -8), (101108126, -8), (101087961, -8), (101066368, -8), (101043418, -8),
       (101018968, -8), (100993075, -8), (100965566, -8), (100936525, -8), (100905825, -8),
       (100873476, -8), (100839308, -8), (100803431, -8), (100765666, -8), (100726014, -8),
       (100684335, -8), (100640701, -8), (100594915, -8), (100547001, -8), (100496799, -8),
       (100444353, -8), (100389477, -8), (100332190, -8), (100272313, -8), (100209885, -8),
       (100144728, -8), (100076851, -8), (100006069, -8), (999324268, -9), (998557350, -9),
       (997760020, -9), (996930604, -9), (996069427, -9), (995174643, -9), (994246644, -9),
       (993283713, -9), (992286108, -9), (991252309, -9), (990182742, -9), (989075787, -9),
       (987931302, -9), (986355322, -9), (984736245, -9), (983175095, -9), (981558334, -9),
       (979861353, -9), (978061749, -9), (976157432, -9), (974137862, -9), (971999011, -9),
       (969732741, -9), (967333198, -9), (964791512, -9), (962101150, -9), (959253976, -9),
       (956242718, -9), (953060091, -9), (949698408, -9), (946149812, -9), (942407161, -9),
       (938463416, -9), (934311297, -9), (929944987, -9), (925356797, -9), (920540463, -9),
       (915489628, -9), (910198679, -9), (904662060, -9), (898875519, -9), (892833832, -9),
       (886533719, -9), (879971272, -9), (873143784, -9), (866047653, -9), (858681252, -9),
       (851042044, -9), (843129723, -9), (834943514, -9), (826483991, -9), (817750537, -9),
       (808744982, -9), (799468149, -9), (789923516, -9), (780113773, -9), (770043128, -9),
       (759714574, -9), (749133097, -9), (738302860, -9), (727229876, -9), (715920192, -9),
       (704381434, -9), (692619693, -9), (680643883, -9), (668461648, -9), (656083014, -9),
       (643517927, -9), (630775533, -9), (617864165, -9), (604795463, -9), (591579959, -9),
       (578228937, -9), (564753589, -9), (551170316, -9), (537490509, -9), (523726350, -9),
       (509891542, -9), (496000807, -9), (482066294, -9), (468101711, -9), (454121700, -9),
       (440142182, -9), (426177297, -9), (412241789, -9), (398349961, -9), (384517234, -9),
       (370758372, -9), (357088679, -9), (343522867, -9), (330076376, -9), (316764033, -9),
       (303600465, -9), (290599616, -9), (277775850, -9), (265143468, -9), (252716188, -9),
       (240506985, -9), (228528397, -9), (216793343, -9), (205313990, -9), (194102191, -9),
       (183168087, -9), (172522195, -9), (162173542, -9), (152132068, -9), (142405280, -9),
       (133001524, -9), (123926066, -9), (115185830, -9), (106784043, -9), (987263751, -10),
       (910137900, -10), (836505724, -10), (766350831, -10), (699703341, -10),
       (636518811, -10), (576817602, -10), (520524422, -10), (467653841, -10),
       (418095054, -10), (371864025, -10), (328807275, -10), (288954850, -10),
       (252098057, -10), (218305756, -10), (187289619, -10), (159212782, -10),
       (133638143, -10), (110855888, -10), (894347419, -11), (675812489, -11), (350443813, -11)]"

definition mdct_win_7m5_60 :: "f32 list" where
  "mdct_win_7m5_60 =
     f32_tab [
       (295060859, -11), (717541132, -11), (137695374, -10), (230953556, -10),
       (354036230, -10), (508289304, -10), (694696293, -10), (913884278, -10), (116604575, -9),
       (145073546, -9), (176711174, -9), (211342953, -9), (248768614, -9), (288701102, -9),
       (330823871, -9), (374814544, -9), (420308013, -9), (466904918, -9), (514185341, -9),
       (561710041, -9), (609026346, -9), (655671016, -9), (701218384, -9), (745240679, -9),
       (787369206, -9), (827223833, -9), (864513675, -9), (898977415, -9), (930407518, -9),
       (958599937, -9), (983447719, -9), (100488283, -8), (102285381, -8), (103740495, -8),
       (104859791, -8), (105656184, -8), (106149371, -8), (106362578, -8), (106325973, -8),
       (106074505, -8), (105643590, -8), (105069500, -8), (104392435, -8), (103647725, -8),
       (102872867, -8), (102106486, -8), (101400658, -8), (100727455, -8), (100172250, -8),
       (997309592, -9), (993985158, -9), (991683335, -9), (990325325, -9), (989822613, -9),
       (990074734, -9), (990975314, -9), (992412851, -9), (994273149, -9), (996439157, -9),
       (998791616, -9), (100120985, -8), (100357357, -8), (100575984, -8), (100764515, -8),
       (100910687, -8), (101002476, -8), (101028203, -8), (100976919, -8), (100838641, -8),
       (100605124, -8), (100269767, -8), (998280464, -9), (992777987, -9), (986186892, -9),
       (977634164, -9), (967447270, -9), (955129725, -9), (940389877, -9), (922959280, -9),
       (902607350, -9), (879202689, -9), (852641750, -9), (822881272, -9), (789971715, -9),
       (754030328, -9), (715255742, -9), (673936911, -9), (630414716, -9), (585078858, -9),
       (538398518, -9), (490833753, -9), (442885823, -9), (395091024, -9), (348004343, -9),
       (302196710, -9), (258227431, -9), (216641416, -9), (177922122, -9), (142480547, -9),
       (110652194, -9), (826995967, -10), (588334516, -10), (392030848, -10), (238629107, -10),
       (126976223, -10), (535665361, -11)]"

definition mdct_win_7m5_120 :: "f32 list" where
  "mdct_win_7m5_120 =
     f32_tab [
       (220824874, -11), (381014420, -11), (591552473, -11), (858361457, -11),
       (118759723, -10), (158335301, -10), (204918652, -10), (258883593, -10),
       (320415894, -10), (389616721, -10), (466742169, -10), (551849337, -10),
       (645038384, -10), (746411071, -10), (856000162, -10), (973846703, -10), (109993603, -9),
       (123419277, -9), (137655457, -9), (152690437, -9), (168513363, -9), (185093105, -9),
       (202410419, -9), (220450365, -9), (239167941, -9), (258526168, -9), (278498539, -9),
       (299038432, -9), (320104862, -9), (341658622, -9), (363660034, -9), (386062695, -9),
       (408815272, -9), (431871046, -9), (455176988, -9), (478676593, -9), (502324813, -9),
       (526060916, -9), (549831283, -9), (573576883, -9), (597241338, -9), (620770242, -9),
       (644099662, -9), (667176382, -9), (689958854, -9), (712379980, -9), (734396372, -9),
       (755966688, -9), (777036981, -9), (797558114, -9), (817490856, -9), (836796950, -9),
       (855447310, -9), (873400798, -9), (890635719, -9), (907128770, -9), (922848784, -9),
       (937763323, -9), (951860206, -9), (965130600, -9), (977556541, -9), (989126209, -9),
       (999846919, -9), (100970073, -8), (101868229, -8), (102681455, -8), (103408981, -8),
       (104051196, -8), (104610837, -8), (105088565, -8), (105486289, -8), (105807221, -8),
       (106053414, -8), (106227662, -8), (106333815, -8), (106375557, -8), (106356632, -8),
       (106282156, -8), (106155996, -8), (105981709, -8), (105765876, -8), (105512006, -8),
       (105223985, -8), (104908779, -8), (104569860, -8), (104210831, -8), (103838099, -8),
       (103455276, -8), (103067200, -8), (102679167, -8), (102295558, -8), (101920733, -8),
       (101587289, -8), (101221017, -8), (100884559, -8), (100577851, -8), (100300262, -8),
       (100051460, -8), (998309229, -9), (996378601, -9), (994718132, -9), (993316216, -9),
       (992166957, -9), (991258603, -9), (990581104, -9), (990123118, -9), (989873712, -9),
       (989818707, -9), (989946800, -9), (990243175, -9), (990695564, -9), (991288540, -9),
       (992009469, -9), (992842693, -9), (993775067, -9), (994790398, -9), (995875534, -9),
       (997014367, -9), (998192871, -9), (999394506, -9), (100060586, -8), (100181040, -8),
       (100299457, -8), (100414155, -8), (100523688, -8), (100626393, -8), (100720890, -8),
       (100805489, -8), (100878802, -8), (100939182, -8), (100985296, -8), (101015529, -8),
       (101028602, -8), (101022988, -8), (100997541, -8), (100950846, -8), (100881848, -8),
       (100789488, -8), (100672876, -8), (100530991, -8), (100363456, -8), (100169363, -8),
       (999485663, -9), (997006370, -9), (994254687, -9), (991231967, -9), (987937115, -9),
       (984375125, -9), (979890963, -9), (975269879, -9), (970180498, -9), (964580027, -9),
       (958425534, -9), (951684014, -9), (944320232, -9), (936290624, -9), (927580507, -9),
       (918153414, -9), (907976524, -9), (897050058, -9), (885351360, -9), (872857927, -9),
       (859579819, -9), (845502615, -9), (830619943, -9), (814946648, -9), (798489378, -9),
       (781262450, -9), (763291769, -9), (744590843, -9), (725199287, -9), (705153668, -9),
       (684490545, -9), (663245210, -9), (641477162, -9), (619235334, -9), (596559133, -9),
       (573519989, -9), (550173851, -9), (526568538, -9), (502781159, -9), (478860889, -9),
       (454877894, -9), (430898123, -9), (406993964, -9), (383234031, -9), (359680098, -9),
       (336408100, -9), (313496418, -9), (291010565, -9), (269019585, -9), (247584348, -9),
       (226788433, -9), (206677771, -9), (187310343, -9), (168739644, -9), (151012382, -9),
       (134171842, -9), (118254662, -9), (103290734, -9), (893117360, -10), (763429787, -10),
       (644077291, -10), (535243715, -10), (437084453, -10), (349667099, -10),
       (272984629, -10), (206895808, -10), (151125125, -10), (105228754, -10),
       (685547314, -11), (402351119, -11)]"

definition mdct_win_7m5_180 :: "f32 list" where
  "mdct_win_7m5_180 =
     f32_tab [
       (197084908, -11), (295060859, -11), (412447721, -11), (552688664, -11),
       (717541132, -11), (908757730, -11), (112819105, -10), (137695374, -10),
       (165600266, -10), (196650895, -10), (230953556, -10), (268612894, -10),
       (309632560, -10), (354036230, -10), (401915610, -10), (453331403, -10),
       (508289304, -10), (566815448, -10), (628935304, -10), (694696293, -10),
       (764106314, -10), (837160016, -10), (913884278, -10), (994294008, -10), (107834725, -9),
       (116604575, -9), (125736503, -9), (135226811, -9), (145073546, -9), (155273819, -9),
       (165822194, -9), (176711174, -9), (187928776, -9), (199473180, -9), (211342953, -9),
       (223524554, -9), (236003100, -9), (248768614, -9), (261813811, -9), (275129161, -9),
       (288701102, -9), (302514034, -9), (316558805, -9), (330823871, -9), (345295567, -9),
       (359963992, -9), (374814544, -9), (389831817, -9), (405001010, -9), (420308013, -9),
       (435739515, -9), (451277817, -9), (466904918, -9), (482609041, -9), (498375466, -9),
       (514185341, -9), (530021478, -9), (545869352, -9), (561710041, -9), (577528151, -9),
       (593304696, -9), (609026346, -9), (624674189, -9), (640227555, -9), (655671016, -9),
       (670995935, -9), (686184559, -9), (701218384, -9), (716078449, -9), (730756084, -9),
       (745240679, -9), (759515122, -9), (773561955, -9), (787369206, -9), (800923138, -9),
       (814211386, -9), (827223833, -9), (839952374, -9), (852386102, -9), (864513675, -9),
       (876324079, -9), (887814288, -9), (898977415, -9), (909803319, -9), (920284312, -9),
       (930407518, -9), (940169652, -9), (949567795, -9), (958599937, -9), (967260260, -9),
       (975545166, -9), (983447719, -9), (990971957, -9), (998119269, -9), (100488283, -8),
       (101125773, -8), (101724436, -8), (102285381, -8), (102808734, -8), (103293706, -8),
       (103740495, -8), (104150164, -8), (104523236, -8), (104859791, -8), (105160340, -8),
       (105425505, -8), (105656184, -8), (105853400, -8), (106017414, -8), (106149371, -8),
       (106249943, -8), (106320577, -8), (106362578, -8), (106376487, -8), (106363778, -8),
       (106325973, -8), (106264695, -8), (106180496, -8), (106074505, -8), (105948492, -8),
       (105804533, -8), (105643590, -8), (105466218, -8), (105274047, -8), (105069500, -8),
       (104853894, -8), (104627898, -8), (104392435, -8), (104149540, -8), (103901003, -8),
       (103647725, -8), (103390793, -8), (103131989, -8), (102872867, -8), (102614832, -8),
       (102358988, -8), (102106486, -8), (101856262, -8), (101655770, -8), (101400658, -8),
       (101162953, -8), (100938590, -8), (100727455, -8), (100529616, -8), (100344526, -8),
       (100172250, -8), (100012792, -8), (998657533, -9), (997309592, -9), (996083571, -9),
       (994976569, -9), (993985158, -9), (993107530, -9), (992341305, -9), (991683335, -9),
       (991130070, -9), (990678325, -9), (990325325, -9), (990067562, -9), (989901282, -9),
       (989822613, -9), (989827845, -9), (989913241, -9), (990074734, -9), (990308256, -9),
       (990609852, -9), (990975314, -9), (991400330, -9), (991880966, -9), (992412851, -9),
       (992991779, -9), (993613381, -9), (994273149, -9), (994966958, -9), (995690370, -9),
       (996439157, -9), (997208572, -9), (997994275, -9), (998791616, -9), (999596062, -9),
       (100040410, -8), (100120985, -8), (100200976, -8), (100279924, -8), (100357357, -8),
       (100432828, -8), (100505850, -8), (100575984, -8), (100642767, -8), (100705768, -8),
       (100764515, -8), (100818549, -8), (100867427, -8), (100910687, -8), (100947916, -8),
       (100978659, -8), (101002476, -8), (101018954, -8), (101027669, -8), (101028203, -8),
       (101020174, -8), (101003208, -8), (100976919, -8), (100940939, -8), (100894931, -8),
       (100838641, -8), (100771780, -8), (100694031, -8), (100605124, -8), (100504879, -8),
       (100393183, -8), (100269767, -8), (100134427, -8), (999872092, -9), (998280464, -9),
       (996566569, -9), (994731737, -9), (992777987, -9), (990701374, -9), (988504165, -9),
       (986186892, -9), (983711989, -9), (980584643, -9), (977634164, -9), (974455033, -9),
       (971062916, -9), (967447270, -9), (963593926, -9), (959491398, -9), (955129725, -9),
       (950501326, -9), (945592810, -9), (940389877, -9), (934886760, -9), (929080559, -9),
       (922959280, -9), (916509579, -9), (909724456, -9), (902607350, -9), (895155084, -9),
       (887356154, -9), (879202689, -9), (870699698, -9), (861847424, -9), (852641750, -9),
       (843077833, -9), (833154905, -9), (822881272, -9), (812257597, -9), (801285439, -9),
       (789971715, -9), (778318177, -9), (766337710, -9), (754030328, -9), (741407991, -9),
       (728477501, -9), (715255742, -9), (701751739, -9), (687975632, -9), (673936911, -9),
       (659652573, -9), (645139489, -9), (630414716, -9), (615483622, -9), (600365852, -9),
       (585078858, -9), (569649536, -9), (554084810, -9), (538398518, -9), (522614738, -9),
       (506756805, -9), (490833753, -9), (474866033, -9), (458876566, -9), (442885823, -9),
       (426906539, -9), (410970973, -9), (395091024, -9), (379291327, -9), (363587417, -9),
       (348004343, -9), (332563201, -9), (317287485, -9), (302196710, -9), (287309403, -9),
       (272643992, -9), (258227431, -9), (244072856, -9), (230208977, -9), (216641416, -9),
       (203398481, -9), (190486162, -9), (177922122, -9), (165726674, -9), (153906397, -9),
       (142480547, -9), (131453980, -9), (120841778, -9), (110652194, -9), (100891734, -9),
       (915718851, -10), (826995967, -10), (742815529, -10), (663242382, -10),
       (588334516, -10), (518140676, -10), (452698346, -10), (392030848, -10),
       (336144159, -10), (285023308, -10), (238629107, -10), (196894227, -10),
       (159720527, -10), (126976223, -10), (984937739, -11), (740724463, -11),
       (535665361, -11), (383226552, -11)]"

definition mdct_win_7m5_240 :: "f32 list" where
  "mdct_win_7m5_240 =
     f32_tab [
       (184833037, -11), (256481839, -11), (336762118, -11), (428736617, -11),
       (533830143, -11), (652679223, -11), (786112587, -11), (934628179, -11),
       (109916868, -10), (128011172, -10), (147805911, -10), (169307043, -10),
       (192592307, -10), (217696937, -10), (244685983, -10), (273556543, -10),
       (304319230, -10), (336980464, -10), (371583577, -10), (408148180, -10),
       (446708068, -10), (487262995, -10), (529820633, -10), (574382470, -10),
       (620968580, -10), (669609767, -10), (720298364, -10), (773039146, -10),
       (827825574, -10), (884682102, -10), (943607566, -10), (100460272, -9), (106763824, -9),
       (113273679, -9), (119986420, -9), (126903521, -9), (134020853, -9), (141339557, -9),
       (148857211, -9), (156573685, -9), (164484622, -9), (172589077, -9), (180879090, -9),
       (189354320, -9), (198012244, -9), (206854141, -9), (215875319, -9), (225068672, -9),
       (234427407, -9), (243948314, -9), (253627993, -9), (263464061, -9), (273450494, -9),
       (283582189, -9), (293853469, -9), (304257373, -9), (314790914, -9), (325449123, -9),
       (336227410, -9), (347118760, -9), (358120177, -9), (369224663, -9), (380427793, -9),
       (391720023, -9), (403097022, -9), (414551955, -9), (426081719, -9), (437676318, -9),
       (449330196, -9), (461034855, -9), (472786043, -9), (484576777, -9), (496401707, -9),
       (508252458, -9), (520122078, -9), (532002077, -9), (543888090, -9), (555771601, -9),
       (567645739, -9), (579502786, -9), (591335035, -9), (603138367, -9), (614904172, -9),
       (626623941, -9), (638288834, -9), (649893375, -9), (661432360, -9), (672902514, -9),
       (684293750, -9), (695600460, -9), (706811784, -9), (717923425, -9), (728931386, -9),
       (739832773, -9), (750618982, -9), (761284053, -9), (771818919, -9), (782220992, -9),
       (792481330, -9), (802599448, -9), (812565230, -9), (822377129, -9), (832030518, -9),
       (841523208, -9), (850848313, -9), (860002412, -9), (868979881, -9), (877778347, -9),
       (886395904, -9), (894829421, -9), (903077626, -9), (911132652, -9), (918993585, -9),
       (926652937, -9), (934111420, -9), (941364344, -9), (948412967, -9), (955255630, -9),
       (961892013, -9), (968316363, -9), (974530156, -9), (980528338, -9), (986313928, -9),
       (991886049, -9), (997246345, -9), (100239190, -8), (100731946, -8), (101202707, -8),
       (101651654, -8), (102079430, -8), (102486082, -8), (102871471, -8), (103235170, -8),
       (103577375, -8), (103898432, -8), (104198786, -8), (104478564, -8), (104737818, -8),
       (104976743, -8), (105195405, -8), (105394290, -8), (105573463, -8), (105734177, -8),
       (105875726, -8), (105998674, -8), (106103672, -8), (106190651, -8), (106260369, -8),
       (106313289, -8), (106350237, -8), (106370981, -8), (106376322, -8), (106366765, -8),
       (106343012, -8), (106305656, -8), (106255421, -8), (106192235, -8), (106116702, -8),
       (106029469, -8), (105931469, -8), (105823465, -8), (105705891, -8), (105578948, -8),
       (105442979, -8), (105298793, -8), (105147505, -8), (104989930, -8), (104826213, -8),
       (104656691, -8), (104481699, -8), (104302125, -8), (104118768, -8), (103932339, -8),
       (103743168, -8), (103551757, -8), (103358511, -8), (103164371, -8), (102969955, -8),
       (102775944, -8), (102582719, -8), (102390791, -8), (102200805, -8), (102013910, -8),
       (101826310, -8), (101687901, -8), (101492195, -8), (101309662, -8), (101134205, -8),
       (100965912, -8), (100805036, -8), (100651754, -8), (100505799, -8), (100366956, -8),
       (100235327, -8), (100110981, -8), (999937523, -9), (998834524, -9), (997800606, -9),
       (996835756, -9), (995938881, -9), (995108459, -9), (994343411, -9), (993642921, -9),
       (993005832, -9), (992430984, -9), (991917493, -9), (991463898, -9), (991068214, -9),
       (990729218, -9), (990446225, -9), (990217819, -9), (990041963, -9), (989917085, -9),
       (989841975, -9), (989815048, -9), (989834329, -9), (989898211, -9), (990005403, -9),
       (990154189, -9), (990342427, -9), (990568459, -9), (990830953, -9), (991128038, -9),
       (991457566, -9), (991817881, -9), (992207559, -9), (992624757, -9), (993067358, -9),
       (993533398, -9), (994021410, -9), (994529685, -9), (995055964, -9), (995598351, -9),
       (996155580, -9), (996725627, -9), (997306092, -9), (997895214, -9), (998491441, -9),
       (999092890, -9), (999697063, -9), (100030303, -8), (100090793, -8), (100151084, -8),
       (100210923, -8), (100270118, -8), (100328513, -8), (100385926, -8), (100442111, -8),
       (100496860, -8), (100550040, -8), (100601455, -8), (100650869, -8), (100698104, -8),
       (100743004, -8), (100785364, -8), (100824962, -8), (100861604, -8), (100895138, -8),
       (100925390, -8), (100952134, -8), (100975175, -8), (100994371, -8), (101009550, -8),
       (101020488, -8), (101027007, -8), (101028975, -8), (101026227, -8), (101018562, -8),
       (101005820, -8), (100987882, -8), (100964593, -8), (100935753, -8), (100901228, -8),
       (100860959, -8), (100814837, -8), (100762674, -8), (100704343, -8), (100639775, -8),
       (100568877, -8), (100491559, -8), (100407768, -8), (100317429, -8), (100220424, -8),
       (100116684, -8), (100006248, -8), (998891422, -9), (997652252, -9), (996343856, -9),
       (994967462, -9), (993524663, -9), (992013927, -9), (990433283, -9), (988785147, -9),
       (987072681, -9), (985297443, -9), (983401161, -9), (980949418, -9), (978782729, -9),
       (976468238, -9), (974042850, -9), (971498848, -9), (968829968, -9), (966030974, -9),
       (963095104, -9), (960018198, -9), (956795738, -9), (953426267, -9), (949903482, -9),
       (946222115, -9), (942375820, -9), (938361702, -9), (934177798, -9), (929823124, -9),
       (925292320, -9), (920580120, -9), (915679793, -9), (910590604, -9), (905315030, -9),
       (899852756, -9), (894199497, -9), (888350152, -9), (882301631, -9), (876054874, -9),
       (869612385, -9), (862972799, -9), (856135198, -9), (849098179, -9), (841857024, -9),
       (834414055, -9), (826774617, -9), (818939244, -9), (810904891, -9), (802675318, -9),
       (794253751, -9), (785641662, -9), (776838609, -9), (767853193, -9), (758685181, -9),
       (749330658, -9), (739809171, -9), (730109944, -9), (720247781, -9), (710224161, -9),
       (700044326, -9), (689711890, -9), (679231154, -9), (668608179, -9), (657850997, -9),
       (646965718, -9), (635959617, -9), (624840336, -9), (613603503, -9), (602265091, -9),
       (590829083, -9), (579309408, -9), (567711124, -9), (556037416, -9), (544293664, -9),
       (532489768, -9), (520636084, -9), (508743273, -9), (496811166, -9), (484849881, -9),
       (472868107, -9), (460875918, -9), (448881081, -9), (436891039, -9), (424912022, -9),
       (412960603, -9), (401035896, -9), (389157867, -9), (377322199, -9), (365543767, -9),
       (353832356, -9), (342196115, -9), (330644820, -9), (319187559, -9), (307833309, -9),
       (296588182, -9), (285463717, -9), (274462409, -9), (263609584, -9), (252883101, -9),
       (242323489, -9), (231925746, -9), (221690837, -9), (211638058, -9), (201766920, -9),
       (192082236, -9), (182589160, -9), (173305997, -9), (164229200, -9), (155362654, -9),
       (146717079, -9), (138299391, -9), (130105078, -9), (122145310, -9), (114423458, -9),
       (106941076, -9), (997025893, -10), (927124283, -10), (859737427, -10), (794893311, -10),
       (732616579, -10), (672934102, -10), (615874081, -10), (561458003, -10),
       (509700747, -10), (460617047, -10), (414220117, -10), (370514189, -10),
       (329494666, -10), (291153327, -10), (255476401, -10), (222437711, -10),
       (192000659, -10), (164122205, -10), (138747611, -10), (115806353, -10),
       (952213664, -11), (769137380, -11), (607207833, -11), (462581217, -11), (360685164, -11)]"

definition mdct_win_7m5_360 :: "f32 list" where
  "mdct_win_7m5_360 =
     f32_tab [
       (172152668, -11), (220824874, -11), (268901752, -11), (322613342, -11),
       (381014420, -11), (445371932, -11), (515369240, -11), (591552473, -11),
       (673869158, -11), (762861841, -11), (858361457, -11), (960938437, -11),
       (107060753, -10), (118759723, -10), (131190130, -10), (144390108, -10),
       (158335301, -10), (173063081, -10), (188584711, -10), (204918652, -10),
       (222061476, -10), (240057166, -10), (258883593, -10), (278552326, -10),
       (299059145, -10), (320415894, -10), (342610013, -10), (365680973, -10),
       (389616721, -10), (414435824, -10), (440140796, -10), (466742169, -10),
       (494214625, -10), (522588489, -10), (551849337, -10), (582005143, -10),
       (613059845, -10), (645038384, -10), (677913923, -10), (711707833, -10),
       (746411071, -10), (782028053, -10), (818549521, -10), (856000162, -10),
       (894357617, -10), (933642589, -10), (973846703, -10), (101496718, -9), (105698760, -9),
       (109993603, -9), (114378287, -9), (118853508, -9), (123419277, -9), (128075997, -9),
       (132820581, -9), (137655457, -9), (142578648, -9), (147590522, -9), (152690437, -9),
       (157878853, -9), (163152529, -9), (168513363, -9), (173957969, -9), (179484737, -9),
       (185093105, -9), (190784835, -9), (196556497, -9), (202410419, -9), (208345433, -9),
       (214359825, -9), (220450365, -9), (226617296, -9), (232856279, -9), (239167941, -9),
       (245550642, -9), (252003951, -9), (258526168, -9), (265118408, -9), (271775911, -9),
       (278498539, -9), (285284606, -9), (292132459, -9), (299038432, -9), (306004256, -9),
       (313026529, -9), (320104862, -9), (327237324, -9), (334423210, -9), (341658622, -9),
       (348944976, -9), (356279252, -9), (363660034, -9), (371085146, -9), (378554327, -9),
       (386062695, -9), (393610554, -9), (401195225, -9), (408815272, -9), (416468460, -9),
       (424155411, -9), (431871046, -9), (439614744, -9), (447384019, -9), (455176988, -9),
       (462990138, -9), (470824619, -9), (478676593, -9), (486545433, -9), (494428714, -9),
       (502324813, -9), (510229471, -9), (518142927, -9), (526060916, -9), (533982818, -9),
       (541906817, -9), (549831283, -9), (557751234, -9), (565667636, -9), (573576883, -9),
       (581476666, -9), (589364661, -9), (597241338, -9), (605102013, -9), (612946170, -9),
       (620770242, -9), (628572094, -9), (636348526, -9), (644099662, -9), (651820973, -9),
       (659513822, -9), (667176382, -9), (674806795, -9), (682400711, -9), (689958854, -9),
       (697475722, -9), (704950145, -9), (712379980, -9), (719765434, -9), (727103833, -9),
       (734396372, -9), (741638561, -9), (748829639, -9), (755966688, -9), (763049259, -9),
       (770072273, -9), (777036981, -9), (783941108, -9), (790781257, -9), (797558114, -9),
       (804271381, -9), (810914901, -9), (817490856, -9), (823997094, -9), (830432785, -9),
       (836796950, -9), (843089298, -9), (849305847, -9), (855447310, -9), (861511037, -9),
       (867496281, -9), (873400798, -9), (879227518, -9), (884972438, -9), (890635719, -9),
       (896217173, -9), (901716414, -9), (907128770, -9), (912456578, -9), (917697261, -9),
       (922848784, -9), (927909917, -9), (932882596, -9), (937763323, -9), (942553356, -9),
       (947252428, -9), (951860206, -9), (956376060, -9), (960800602, -9), (965130600, -9),
       (969366689, -9), (973508812, -9), (977556541, -9), (981507226, -9), (985364580, -9),
       (989126209, -9), (992794201, -9), (996367545, -9), (999846919, -9), (100322812, -8),
       (100651341, -8), (100970073, -8), (101279029, -8), (101578293, -8), (101868229, -8),
       (102148657, -8), (102419772, -8), (102681455, -8), (102933598, -8), (103176043, -8),
       (103408981, -8), (103632326, -8), (103846361, -8), (104051196, -8), (104246831, -8),
       (104433331, -8), (104610837, -8), (104779018, -8), (104938334, -8), (105088565, -8),
       (105229923, -8), (105362522, -8), (105486289, -8), (105601521, -8), (105708746, -8),
       (105807221, -8), (105897524, -8), (105979447, -8), (106053414, -8), (106119412, -8),
       (106177366, -8), (106227662, -8), (106270324, -8), (106305569, -8), (106333815, -8),
       (106354800, -8), (106368607, -8), (106375557, -8), (106375743, -8), (106369358, -8),
       (106356632, -8), (106337707, -8), (106312782, -8), (106282156, -8), (106245782, -8),
       (106203634, -8), (106155996, -8), (106102951, -8), (106044797, -8), (105981709, -8),
       (105914163, -8), (105842136, -8), (105765876, -8), (105685377, -8), (105600761, -8),
       (105512006, -8), (105419505, -8), (105323346, -8), (105223985, -8), (105121668, -8),
       (105016637, -8), (104908779, -8), (104798366, -8), (104685334, -8), (104569860, -8),
       (104452056, -8), (104332348, -8), (104210831, -8), (104087907, -8), (103963603, -8),
       (103838099, -8), (103711403, -8), (103583813, -8), (103455276, -8), (103326200, -8),
       (103196750, -8), (103067200, -8), (102937564, -8), (102808244, -8), (102679167, -8),
       (102550635, -8), (102422655, -8), (102295558, -8), (102169299, -8), (102044475, -8),
       (101920733, -8), (101799992, -8), (101716022, -8), (101587289, -8), (101461783, -8),
       (101339738, -8), (101221017, -8), (101105652, -8), (100993444, -8), (100884559, -8),
       (100778956, -8), (100676790, -8), (100577851, -8), (100482173, -8), (100389592, -8),
       (100300262, -8), (100214091, -8), (100131213, -8), (100051460, -8), (999748988, -9),
       (999013486, -9), (998309229, -9), (997634934, -9), (996991885, -9), (996378601, -9),
       (995795982, -9), (995242217, -9), (994718132, -9), (994222122, -9), (993755313, -9),
       (993316216, -9), (992905809, -9), (992522422, -9), (992166957, -9), (991837704, -9),
       (991535508, -9), (991258603, -9), (991007878, -9), (990781723, -9), (990581104, -9),
       (990404336, -9), (990252267, -9), (990123118, -9), (990017726, -9), (989934325, -9),
       (989873712, -9), (989834110, -9), (989816359, -9), (989818707, -9), (989841998, -9),
       (989884438, -9), (989946800, -9), (990027287, -9), (990126680, -9), (990243175, -9),
       (990377594, -9), (990528134, -9), (990695564, -9), (990878043, -9), (991076302, -9),
       (991288540, -9), (991515602, -9), (991755666, -9), (992009469, -9), (992275155, -9),
       (992553486, -9), (992842693, -9), (993143533, -9), (993454080, -9), (993775067, -9),
       (994104689, -9), (994443742, -9), (994790398, -9), (995145361, -9), (995506800, -9),
       (995875534, -9), (996249681, -9), (996629919, -9), (997014367, -9), (997403799, -9),
       (997796404, -9), (998192871, -9), (998591286, -9), (998992436, -9), (999394506, -9),
       (999798247, -9), (100020179, -8), (100060586, -8), (100100858, -8), (100141070, -8),
       (100181040, -8), (100220846, -8), (100260296, -8), (100299457, -8), (100338148, -8),
       (100376444, -8), (100414155, -8), (100451348, -8), (100487832, -8), (100523688, -8),
       (100558730, -8), (100593027, -8), (100626393, -8), (100658905, -8), (100690380, -8),
       (100720890, -8), (100750238, -8), (100778498, -8), (100805489, -8), (100831287, -8),
       (100855700, -8), (100878802, -8), (100900405, -8), (100920593, -8), (100939182, -8),
       (100956244, -8), (100971590, -8), (100985296, -8), (100997177, -8), (101007317, -8),
       (101015529, -8), (101021893, -8), (101026225, -8), (101028602, -8), (101028842, -8),
       (101027030, -8), (101022988, -8), (101016802, -8), (101008292, -8), (100997541, -8),
       (100984369, -8), (100968863, -8), (100950846, -8), (100930404, -8), (100907371, -8),
       (100881848, -8), (100853675, -8), (100822947, -8), (100789488, -8), (100753391, -8),
       (100714488, -8), (100672876, -8), (100628393, -8), (100581146, -8), (100530991, -8),
       (100478053, -8), (100422177, -8), (100363456, -8), (100301719, -8), (100237067, -8),
       (100169363, -8), (100098749, -8), (100025108, -8), (999485663, -9), (998689592, -9),
       (997863666, -9), (997006370, -9), (996119199, -9), (995201404, -9), (994254687, -9),
       (993277595, -9), (992270651, -9), (991231967, -9), (990163286, -9), (989064394, -9),
       (987937115, -9), (986779736, -9), (985592773, -9), (984375125, -9), (983129288, -9),
       (981348463, -9), (979890963, -9), (978400459, -9), (976860435, -9), (975269879, -9),
       (973627353, -9), (971931341, -9), (970180498, -9), (968372652, -9), (966506952, -9),
       (964580027, -9), (962592318, -9), (960540986, -9), (958425534, -9), (956244393, -9),
       (953998416, -9), (951684014, -9), (949301185, -9), (946846884, -9), (944320232, -9),
       (941718404, -9), (939042580, -9), (936290624, -9), (933464050, -9), (930560854, -9),
       (927580507, -9), (924519592, -9), (921378471, -9), (918153414, -9), (914844696, -9),
       (911451652, -9), (907976524, -9), (904417545, -9), (900776308, -9), (897050058, -9),
       (893238398, -9), (889338681, -9), (885351360, -9), (881274023, -9), (877109638, -9),
       (872857927, -9), (868519505, -9), (864092796, -9), (859579819, -9), (854976007, -9),
       (850285220, -9), (845502615, -9), (840630470, -9), (835667925, -9), (830619943, -9),
       (825482007, -9), (820258909, -9), (814946648, -9), (809546696, -9), (804059978, -9),
       (798489378, -9), (792831417, -9), (787090668, -9), (781262450, -9), (775353947, -9),
       (769363613, -9), (763291769, -9), (757139016, -9), (750901711, -9), (744590843, -9),
       (738205136, -9), (731738075, -9), (725199287, -9), (718588225, -9), (711905687, -9),
       (705153668, -9), (698332634, -9), (691444101, -9), (684490545, -9), (677470119, -9),
       (670388375, -9), (663245210, -9), (656045780, -9), (648788627, -9), (641477162, -9),
       (634114323, -9), (626702000, -9), (619235334, -9), (611720596, -9), (604161612, -9),
       (596559133, -9), (588914401, -9), (581234783, -9), (573519989, -9), (565770616, -9),
       (557988067, -9), (550173851, -9), (542330194, -9), (534460798, -9), (526568538, -9),
       (518656324, -9), (510728813, -9), (502781159, -9), (494819491, -9), (486845139, -9),
       (478860889, -9), (470869928, -9), (462875144, -9), (454877894, -9), (446882512, -9),
       (438889325, -9), (430898123, -9), (422918322, -9), (414950878, -9), (406993964, -9),
       (399052648, -9), (391134614, -9), (383234031, -9), (375354653, -9), (367502060, -9),
       (359680098, -9), (351887312, -9), (344130166, -9), (336408100, -9), (328728966, -9),
       (321090505, -9), (313496418, -9), (305951565, -9), (298454319, -9), (291010565, -9),
       (283621109, -9), (276285415, -9), (269019585, -9), (261812445, -9), (254659232, -9),
       (247584348, -9), (240578694, -9), (233647009, -9), (226788433, -9), (220001992, -9),
       (213301325, -9), (206677771, -9), (200140409, -9), (193683630, -9), (187310343, -9),
       (181027384, -9), (174839476, -9), (168739644, -9), (162737273, -9), (156825277, -9),
       (151012382, -9), (145298230, -9), (139687469, -9), (134171842, -9), (128762544, -9),
       (123455562, -9), (118254662, -9), (113159677, -9), (108171439, -9), (103290734, -9),
       (985202978, -10), (938600023, -10), (893117360, -10), (848752103, -10),
       (805523737, -10), (763429787, -10), (722489246, -10), (682699120, -10),
       (644077291, -10), (606620003, -10), (570343711, -10), (535243715, -10),
       (501334690, -10), (468610790, -10), (437084453, -10), (406748365, -10),
       (377612269, -10), (349667099, -10), (322919275, -10), (297357669, -10),
       (272984629, -10), (249787186, -10), (227762542, -10), (206895808, -10),
       (187178169, -10), (168593418, -10), (151125125, -10), (134757094, -10),
       (119462709, -10), (105228754, -10), (920130941, -11), (798124316, -11),
       (685547314, -11), (582657334, -11), (487838525, -11), (402351119, -11), (315418663, -11)]"

definition lc3_mdct_win :: "lc3_dt \<Rightarrow> lc3_srate \<Rightarrow> f32 list" where
  "lc3_mdct_win dt sr =
     (if dt = LC3_DT_7M5 then [mdct_win_7m5_60, mdct_win_7m5_120, mdct_win_7m5_180, mdct_win_7m5_240, mdct_win_7m5_360]
      else [mdct_win_10m_80, mdct_win_10m_160, mdct_win_10m_240, mdct_win_10m_320, mdct_win_10m_480])
       ! nat (sr_int sr)"

end
