(* ===== verification/Mdct.thy ===== *)
theory Mdct
  imports MdctTables Fastmath
begin

text \<open>
  The modified discrete cosine transform, \<^verbatim>\<open>mdct.c\<close>: the FFT, the rotations and the windows.
  The pointers of the loops advance together: each loop is given on the count \<open>t\<close> of its
  steps. The passes that the code runs in place read, at each step, the elements they write.
\<close>

section \<open>FFT\<close>

definition madd :: "f32 \<Rightarrow> f32 \<Rightarrow> f32 \<Rightarrow> f32" where "madd s a b = f32_add s (f32_mul a b)"
definition msub :: "f32 \<Rightarrow> f32 \<Rightarrow> f32 \<Rightarrow> f32" where "msub s a b = f32_sub s (f32_mul a b)"

definition cadd :: "complex32 \<Rightarrow> complex32 \<Rightarrow> complex32" where
  "cadd a b = (f32_add (fst a) (fst b), f32_add (snd a) (snd b))"

definition csub :: "complex32 \<Rightarrow> complex32 \<Rightarrow> complex32" where
  "csub a b = (f32_sub (fst a) (fst b), f32_sub (snd a) (snd b))"

definition fft5_cos1 :: f32 where "fft5_cos1 = f32_dec 3090169944 (-10)"
definition fft5_cos2 :: f32 where "fft5_cos2 = f32_dec (-8090169944) (-10)"
definition fft5_sin1 :: f32 where "fft5_sin1 = f32_dec (-9510565163) (-10)"
definition fft5_sin2 :: f32 where "fft5_sin2 = f32_dec (-5877852523) (-10)"

text \<open>The transform of the five points \<open>a\<close>.\<close>

definition fft5_points :: "complex32 \<Rightarrow> complex32 \<Rightarrow> complex32 \<Rightarrow> complex32 \<Rightarrow> complex32 \<Rightarrow> complex32 list" where
  "fft5_points a0 a1 a2 a3 a4 =
     (let (c1, c2, s1, s2) = (fft5_cos1, fft5_cos2, fft5_sin1, fft5_sin2);
          (x_re, x_im) = a0;
          (s14_re, s14_im) = cadd a1 a4; (d14_re, d14_im) = csub a1 a4;
          (s23_re, s23_im) = cadd a2 a3; (d23_re, d23_im) = csub a2 a3
      in [(f32_add (f32_add x_re s14_re) s23_re, f32_add (f32_add x_im s14_im) s23_im),
          (msub (madd (msub (madd x_re s14_re c1) d14_im s1) s23_re c2) d23_im s2,
           madd (madd (madd (madd x_im s14_im c1) d14_re s1) s23_im c2) d23_re s2),
          (madd (madd (msub (madd x_re s14_re c2) d14_im s2) s23_re c1) d23_im s1,
           msub (madd (madd (madd x_im s14_im c2) d14_re s2) s23_im c1) d23_re s1),
          (msub (madd (madd (madd x_re s14_re c2) d14_im s2) s23_re c1) d23_im s1,
           madd (madd (msub (madd x_im s14_im c2) d14_re s2) s23_im c1) d23_re s1),
          (madd (madd (madd (madd x_re s14_re c1) d14_im s1) s23_re c2) d23_im s2,
           msub (madd (msub (madd x_im s14_im c1) d14_re s1) s23_im c2) d23_re s2)])"

definition fft_5 :: "complex32 list \<Rightarrow> nat \<Rightarrow> complex32 list" where
  "fft_5 x n = concat (map (\<lambda>i. fft5_points (x ! i) (x ! (i + 1 * n)) (x ! (i + 2 * n)) (x ! (i + 3 * n)) (x ! (i + 4 * n)))
     [0 ..< n])"

definition bf3_point :: "complex32 \<Rightarrow> complex32 \<Rightarrow> complex32 \<Rightarrow> complex32 \<times> complex32 \<Rightarrow> complex32" where
  "bf3_point x0 x1 x2 w =
     (let (w0, w1) = w
      in (msub (madd (msub (madd (fst x0) (fst x1) (fst w0)) (snd x1) (snd w0)) (fst x2) (fst w1)) (snd x2) (snd w1),
          madd (madd (madd (madd (snd x0) (snd x1) (fst w0)) (fst x1) (snd w0)) (snd x2) (fst w1)) (fst x2) (snd w1)))"

definition fft_bf3 :: "nat \<times> (complex32 \<times> complex32) list \<Rightarrow> complex32 list \<Rightarrow> nat \<Rightarrow> complex32 list" where
  "fft_bf3 twiddles x n =
     (let (n3, w) = twiddles
      in concat (map (\<lambda>i. concat (map (\<lambda>p.
           map (\<lambda>j. let k = i * n3 + j in bf3_point (x ! k) (x ! (k + n * n3)) (x ! (k + 2 * (n * n3))) (w ! (p * n3 + j)))
             [0 ..< n3]) [0 ..< 3])) [0 ..< n]))"

definition fft_bf2 :: "nat \<times> complex32 list \<Rightarrow> complex32 list \<Rightarrow> nat \<Rightarrow> complex32 list" where
  "fft_bf2 twiddles x n =
     (let (n2, w) = twiddles;
          at = (\<lambda>i j. (x ! (i * n2 + j), x ! (i * n2 + j + n * n2)))
      in concat (map (\<lambda>i.
           map (\<lambda>j. let (x0, x1) = at i j
             in (msub (madd (fst x0) (fst x1) (fst (w ! j))) (snd x1) (snd (w ! j)),
                 madd (madd (snd x0) (snd x1) (fst (w ! j))) (fst x1) (snd (w ! j)))) [0 ..< n2] @
           map (\<lambda>j. let (x0, x1) = at i j
             in (madd (msub (fst x0) (fst x1) (fst (w ! j))) (snd x1) (snd (w ! j)),
                 msub (msub (snd x0) (snd x1) (fst (w ! j))) (fst x1) (snd (w ! j)))) [0 ..< n2])
           [0 ..< n]))"

text \<open>The two loops: on the factors 3 until \<open>n\<close> is a power of 2, then on the factors 2.\<close>

lemma and_pred_0: "(0 :: nat) AND (0 - 1) = 0"
  by simp

function fft_loop3 :: "nat \<Rightarrow> nat \<Rightarrow> complex32 list \<Rightarrow> nat \<times> nat \<times> complex32 list" where
  "fft_loop3 i3 n y =
     (if n AND (n - 1) = 0 then (i3, n, y)
      else fft_loop3 (i3 + 1) (n div 3) (fft_bf3 (lc3_fft_twiddles_bf3 ! i3) y (n div 3)))"
  by pat_completeness auto
termination
  by (relation "measure (\<lambda>(i3, n, y). n)") (auto simp: and_pred_0 intro!: div_less_dividend gr0I)

function fft_loop2 :: "nat \<Rightarrow> nat \<Rightarrow> nat \<Rightarrow> complex32 list \<Rightarrow> complex32 list" where
  "fft_loop2 i2 i3 n y =
     (if n > 1 then fft_loop2 (i2 + 1) i3 (drop_bit 1 n) (fft_bf2 (lc3_fft_twiddles_bf2 ! i2 ! i3) y (drop_bit 1 n))
      else y)"
  by pat_completeness auto
termination
  by (relation "measure (\<lambda>(i2, i3, n, y). n)") (auto simp: drop_bit_eq_div)

declare fft_loop3.simps [simp del] fft_loop2.simps [simp del]

definition fft :: "complex32 list \<Rightarrow> nat \<Rightarrow> complex32 list" where
  "fft x n =
     (let n = n div 5; (i3, n, y) = fft_loop3 0 n (fft_5 x n)
      in fft_loop2 0 i3 n y)"

section \<open>MDCT\<close>

text \<open>A step of the window: the sample \<open>x\<close> below the middle is still that of the frame in the
  first loop, and a delayed one in the second.\<close>

definition mdct_window ::
    "lc3_dt \<Rightarrow> lc3_srate \<Rightarrow> f32 list \<Rightarrow> f32 list \<Rightarrow> f32 list \<Rightarrow> f32 list \<times> f32 list" where
  "mdct_window dt sr x d y =
     (let ns = nat (LC3_NS dt sr); nd = nat (LC3_ND dt sr); w = lc3_mdct_win dt sr;
          (d, y) = foldl (\<lambda>(d, y) t.
             let y = y[ns div 2 - 1 - t := f32_sub (f32_mul (d ! t) (w ! t)) (f32_mul (x ! (ns - nd - 1 - t)) (w ! (ns - 1 - t)))];
                 d = d[t := x ! (ns - nd + t)];
                 y = y[ns div 2 + t := f32_mul (d ! t) (w ! (ns + t))]
             in (d, y)) (d, y) [0 ..< ns - nd];
          (d, y) = foldl (\<lambda>(d, y) t.
             let s = t - (ns - nd);
                 y = y[ns div 2 - 1 - t := f32_sub (f32_mul (d ! t) (w ! t)) (f32_mul (d ! (nd - 1 - s)) (w ! (ns - 1 - t)))];
                 d = d[t := x ! (ns - nd + t)];
                 d = d[nd - 1 - s := x ! (ns - 1 - s)];
                 y = y[ns div 2 + t := f32_add (f32_mul (d ! t) (w ! (ns + t))) (f32_mul (d ! (nd - 1 - s)) (w ! (ns + nd - 1 - s)))]
             in (d, y)) (d, y) [ns - nd ..< ns div 2]
      in (d, y))"

definition mdct_pre_fft :: "nat \<times> complex32 list \<Rightarrow> f32 list \<Rightarrow> complex32 list" where
  "mdct_pre_fft rot x =
     (let (n4, w) = rot
      in map (\<lambda>i.
           let x0 = x ! (2 * i); x1 = x ! (2 * n4 - 1 - 2 * i); uw = w ! i
           in (f32_add (f32_mul (f32_neg x1) (fst uw)) (f32_mul x0 (snd uw)),
               f32_add (f32_mul x0 (fst uw)) (f32_mul x1 (snd uw)))) [0 ..< n4 div 2] @
         rev (map (\<lambda>i.
           let x0 = x ! (2 * i + 1); x1 = x ! (2 * n4 - 2 - 2 * i); vw = w ! (n4 - 1 - i)
           in (f32_add (f32_mul (f32_neg x1) (snd vw)) (f32_mul x0 (fst vw)),
               f32_sub (f32_mul (f32_neg x0) (snd vw)) (f32_mul x1 (fst vw)))) [0 ..< n4 div 2]))"

definition mdct_post_fft :: "nat \<times> complex32 list \<Rightarrow> complex32 list \<Rightarrow> f32 \<Rightarrow> f32 list" where
  "mdct_post_fft rot x scale =
     (let (n4, w) = rot; n8 = drop_bit 1 n4
      in foldl (\<lambda>y i.
           let (x0_re, x0_im) = x ! (n8 + i); (w0_re, w0_im) = w ! (n8 + i);
               (x1_re, x1_im) = x ! (n8 - 1 - i); (w1_re, w1_im) = w ! (n8 - 1 - i);
               u0 = f32_mul (madd (f32_mul x0_im w0_im) x0_re w0_re) scale;
               u1 = f32_mul (msub (f32_mul x1_re w1_im) x1_im w1_re) scale;
               v0 = f32_mul (msub (f32_mul x0_re w0_im) x0_im w0_re) scale;
               v1 = f32_mul (madd (f32_mul x1_im w1_im) x1_re w1_re) scale
           in y[n4 + 2 * i := u0, n4 + 2 * i + 1 := u1, n4 - 1 - 2 * i := v0, n4 - 2 - 2 * i := v1])
         (replicate (2 * n4) f32_0) [0 ..< n4 div 2])"

definition imdct_pre_fft :: "nat \<times> complex32 list \<Rightarrow> f32 list \<Rightarrow> complex32 list" where
  "imdct_pre_fft rot x =
     (let (n4, w) = rot
      in map (\<lambda>i.
           let u0 = x ! (2 * i); u1 = x ! (2 * n4 - 1 - 2 * i); uw = w ! i
           in (msub (f32_mul (f32_neg u0) (fst uw)) u1 (snd uw),
               madd (f32_mul (f32_neg u1) (fst uw)) u0 (snd uw))) [0 ..< n4 div 2] @
         rev (map (\<lambda>i.
           let v0 = x ! (2 * i + 1); v1 = x ! (2 * n4 - 2 - 2 * i); vw = w ! (n4 - 1 - i)
           in (msub (f32_mul (f32_neg v1) (fst vw)) v0 (snd vw),
               madd (f32_mul (f32_neg v0) (fst vw)) v1 (snd vw))) [0 ..< n4 div 2]))"

definition imdct_post_fft :: "nat \<times> complex32 list \<Rightarrow> complex32 list \<Rightarrow> f32 \<Rightarrow> f32 list" where
  "imdct_post_fft rot x scale =
     (let (n4, w) = rot
      in foldl (\<lambda>y i.
           let (uz_re, uz_im) = x ! i; (vz_re, vz_im) = x ! (n4 - 1 - i);
               (uw_re, uw_im) = w ! i; (vw_re, vw_im) = w ! (n4 - 1 - i)
           in y[2 * i := f32_mul (msub (f32_mul uz_re uw_im) uz_im uw_re) scale,
                2 * n4 - 1 - 2 * i := f32_mul (madd (f32_mul uz_re uw_re) uz_im uw_im) scale,
                2 * n4 - 2 - 2 * i := f32_mul (msub (f32_mul vz_re vw_im) vz_im vw_re) scale,
                2 * i + 1 := f32_mul (madd (f32_mul vz_re vw_re) vz_im vw_im) scale])
         (replicate (2 * n4) f32_0) [0 ..< n4 div 2])"

definition imdct_window ::
    "lc3_dt \<Rightarrow> lc3_srate \<Rightarrow> f32 list \<Rightarrow> f32 list \<Rightarrow> f32 list \<Rightarrow> f32 list \<times> f32 list" where
  "imdct_window dt sr x d y =
     (let n4 = nat (drop_bit 1 (LC3_NS dt sr)); nd = nat (LC3_ND dt sr); w = lc3_mdct_win dt sr;
          y = foldl (\<lambda>y t. y[nd - n4 - 1 - t := msub (d ! (nd - n4 - 1 - t)) (x ! t) (w ! (3 * n4 + t)),
                             nd - n4 + t := madd (d ! (nd - n4 + t)) (x ! t) (w ! (3 * n4 - 1 - t))])
                y [0 ..< nd - n4];
          y = foldl (\<lambda>y t. y[nd - n4 + t := madd (d ! (nd - n4 + t)) (x ! t) (w ! (3 * n4 - 1 - t))])
                y [nd - n4 ..< n4];
          (d, y) = foldl (\<lambda>(d, y) t.
                (d[nd - 1 - (t - n4) := f32_mul (x ! t) (w ! (t - n4))],
                 y[nd - n4 + t := f32_mul (x ! t) (w ! (3 * n4 - 1 - t))]))
                (d, y) [n4 ..< 3 * n4 - nd];
          d = foldl (\<lambda>d t. d[t - (3 * n4 - nd) := f32_mul (x ! t) (w ! (3 * n4 - 1 - t)),
                             nd - 1 - (t - n4) := f32_mul (x ! t) (w ! (t - n4))])
                d [3 * n4 - nd ..< 2 * n4]
      in (d, y))"

text \<open>The results are the delayed samples and the output.\<close>

definition lc3_mdct_forward ::
    "lc3_dt \<Rightarrow> lc3_srate \<Rightarrow> lc3_srate \<Rightarrow> f32 list \<Rightarrow> f32 list \<Rightarrow> f32 list \<times> f32 list" where
  "lc3_mdct_forward dt sr sr_dst x d =
     (let rot = lc3_mdct_rot dt sr; nf = LC3_NS dt sr_dst; ns = LC3_NS dt sr;
          (d, f) = mdct_window dt sr x d (replicate (nat ns) f32_0);
          z = fft (mdct_pre_fft rot f) (nat (cdiv ns 2));
          y = mdct_post_fft rot z (f32_sqrt (f32_div (f32_mul (f32_lit 2 0) (f32_of_int nf)) (f32_of_int (ns * ns))))
      in (d, y))"

definition lc3_mdct_inverse ::
    "lc3_dt \<Rightarrow> lc3_srate \<Rightarrow> lc3_srate \<Rightarrow> f32 list \<Rightarrow> f32 list \<Rightarrow> f32 list \<times> f32 list" where
  "lc3_mdct_inverse dt sr sr_src x d =
     (let rot = lc3_mdct_rot dt sr; nf = LC3_NS dt sr_src; ns = LC3_NS dt sr;
          z = fft (imdct_pre_fft rot x) (nat (cdiv ns 2));
          f = imdct_post_fft rot z (f32_sqrt (f32_div (f32_lit 2 0) (f32_of_int nf)))
      in imdct_window dt sr f d (replicate (nat ns) f32_0))"

end
