(* ===== verification/Encoder.thy ===== *)
theory Encoder
  imports CodecParams Attdet Energy Mdct TnsFilter SpecEncode
begin

text \<open>
  The encoder, \<^verbatim>\<open>lc3.c\<close>. Its memory is split in the buffers that its pointers delimit: \<open>xt\<close>
  the time samples with their \<open>nt\<close> samples of history before them, \<open>xs\<close> the samples then the
  spectrum, \<open>xd\<close> the delayed samples of the MDCT. The code asks for the history of
  \<^verbatim>\<open>LC3_NT(sr_pcm)\<close> samples; the macro gives the one of the variable \<^verbatim>\<open>sr\<close> that is in scope, the
  rate of the stream, and so does the model.
\<close>

record lc3_encoder =
  enc_dt :: lc3_dt
  enc_sr :: lc3_srate
  enc_sr_pcm :: lc3_srate
  enc_attdet :: lc3_attdet_analysis
  enc_ltpf :: lc3_ltpf_analysis
  enc_spec :: lc3_spec_analysis
  enc_xt :: "int list"
  enc_xs :: "f32 list"
  enc_xd :: "f32 list"

record side_data =
  sd_bw :: lc3_bandwidth
  sd_pitch_present :: bool
  sd_ltpf :: lc3_ltpf_data
  sd_sns :: lc3_sns_data
  sd_tns :: lc3_tns_data
  sd_spec :: lc3_spec_side

definition lc3_setup_encoder :: "int \<Rightarrow> int \<Rightarrow> int \<Rightarrow> bool \<Rightarrow> lc3_encoder option" where
  "lc3_setup_encoder dt_us sr_hz sr_pcm_hz mem =
     (let sr_pcm_hz = (if sr_pcm_hz \<le> 0 then sr_hz else sr_pcm_hz);
          dt = resolve_dt dt_us; sr = resolve_sr sr_hz; sr_pcm = resolve_sr sr_pcm_hz
      in if dt \<ge> LC3_NUM_DT \<or> sr_pcm \<ge> LC3_NUM_SRATE \<or> sr > sr_pcm \<or> \<not> mem then None
         else (let ns = nat (LC3_NS dt sr_pcm); nt = nat (LC3_NT sr); nd = nat (LC3_ND dt sr_pcm)
               in Some \<lparr>enc_dt = dt, enc_sr = sr, enc_sr_pcm = sr_pcm,
                    enc_attdet = \<lparr>en1 = 0, an1 = 0, p_att = 0\<rparr>,
                    enc_ltpf = \<lparr>an_active = False, an_pitch = 0, an_nc0 = f32_0, an_nc1 = f32_0,
                      an_hp50 = \<lparr>hp_s1 = 0, hp_s2 = 0\<rparr>, an_x_12k8 = replicate 384 0, an_x_6k4 = replicate 178 0,
                      an_tc = 0\<rparr>,
                    enc_spec = \<lparr>sp_nbits_off = f32_0, sp_nbits_spare = 0\<rparr>,
                    enc_xt = replicate (nt + ns) 0, enc_xs = replicate ns f32_0, enc_xd = replicate nd f32_0\<rparr>))"

section \<open>Input of the samples\<close>

text \<open>The sample of an integer and of a float buffer, at its index.\<close>

fun load_sample :: "lc3_pcm \<Rightarrow> nat \<Rightarrow> int \<times> f32" where
  "load_sample (LC3_PCM_FORMAT_S16 pcm) k = (pcm ! k, f32_of_int (pcm ! k))"
| "load_sample (LC3_PCM_FORMAT_S24 pcm) k = (s16 (drop_bit 8 (pcm ! k)), f32_ldexp (f32_of_int (pcm ! k)) (-8))"
| "load_sample (LC3_PCM_FORMAT_S24_3LE pcm) k =
     (let v = push_bit 8 (ucast (pcm ! (3 * k)) :: u32) OR push_bit 16 (ucast (pcm ! (3 * k + 1))) OR
              push_bit 24 (ucast (pcm ! (3 * k + 2)));
          v = sint v
      in (s16 (drop_bit 16 v), f32_ldexp (f32_of_int v) (-16)))"
| "load_sample (LC3_PCM_FORMAT_FLOAT pcm) k =
     (let xs = f32_ldexp (pcm ! k) 15 in (LC3_SAT16 (f32_to_int xs), xs))"

definition load :: "lc3_encoder \<Rightarrow> lc3_pcm \<Rightarrow> nat \<Rightarrow> lc3_encoder" where
  "load e pcm stride =
     (let ns = nat (LC3_NS (enc_dt e) (enc_sr_pcm e)); nt = nat (LC3_NT (enc_sr e));
          v = map (\<lambda>i. load_sample pcm (i * stride)) [0 ..< ns]
      in e\<lparr>enc_xt := take nt (enc_xt e) @ map fst v, enc_xs := map snd v\<rparr>)"

section \<open>Analysis\<close>

text \<open>The number of samples before the frame that the resampling of the postfilter reads.\<close>

definition ltpf_history :: "lc3_srate \<Rightarrow> int" where
  "ltpf_history sr_pcm = [9, 19, 29, 39, 59] ! nat (sr_int sr_pcm)"

text \<open>\<open>side\<close> is the side data before the frame, whose fields that do not apply stay as they
  are; \<open>xq\<close> is the buffer of the caller. The analysis is \<open>None\<close> where it reads before the memory of the
  encoder, and where the quantiser has no pulse to enumerate.\<close>

definition analyze ::
    "(f32 \<Rightarrow> f32) \<Rightarrow> lc3_encoder \<Rightarrow> int \<Rightarrow> side_data \<Rightarrow> u16 list \<Rightarrow> (lc3_encoder \<times> side_data \<times> u16 list) option" where
  "analyze log10f encoder nbytes side xq =
     (let dt = enc_dt encoder; sr = enc_sr encoder; sr_pcm = enc_sr_pcm encoder;
          ns = nat (LC3_NS dt sr_pcm); nt = nat (LC3_NT sr);
          xt = buf_at (enc_xt encoder) (int nt);
          (att, attdet) = lc3_attdet_run dt sr_pcm nbytes (enc_attdet encoder) xt;
          (pitch_present, ltpf, ltpf_data) = lc3_ltpf_analyse dt sr_pcm (enc_ltpf encoder) xt (sd_ltpf side);
          xt = slice ns nt (enc_xt encoder) @ drop nt (enc_xt encoder);
          (xd, xf) = lc3_mdct_forward dt sr_pcm sr (enc_xs encoder) (enc_xd encoder);
          (nn_flag, e) = lc3_energy_compute dt sr xf;
          ltpf_data = (if nn_flag then lc3_ltpf_disable ltpf_data else ltpf_data);
          bw = lc3_bwdet_run dt sr e
      in if int nt < ltpf_history sr_pcm then None else map_option (\<lambda>(sns, xf).
           (let (tns, xf) = lc3_tns_analyze dt bw nn_flag nbytes (sd_tns side) xf;
                (spec, xf, xq, spec_side) =
                  lc3_spec_analyze log10f dt sr nbytes pitch_present tns (enc_spec encoder) xf xq
            in (encoder\<lparr>enc_attdet := attdet, enc_ltpf := ltpf, enc_spec := spec,
                  enc_xt := xt, enc_xs := xf, enc_xd := xd\<rparr>,
                \<lparr>sd_bw = bw, sd_pitch_present = pitch_present, sd_ltpf = ltpf_data, sd_sns = sns,
                 sd_tns = tns, sd_spec = spec_side\<rparr>, xq)))
           (lc3_sns_analyze dt sr e att (sd_sns side) xf xf))"

section \<open>Bitstream\<close>

text \<open>The side data, up to the spectrum.\<close>

definition encode_side :: "lc3_dt \<Rightarrow> lc3_srate \<Rightarrow> side_data \<Rightarrow> lc3_bits \<Rightarrow> lc3_bits option" where
  "encode_side dt sr side bits =
     (let bits = lc3_bwdet_put_bw bits sr (sd_bw side);
          bits = lc3_spec_put_side bits dt sr (sd_spec side)
      in map_option (\<lambda>bits.
           let bits = lc3_put_bit bits (of_bool (sd_pitch_present side));
               bits = lc3_sns_put_data bits (sd_sns side)
           in if sd_pitch_present side then lc3_ltpf_put_data bits (sd_ltpf side) else bits)
           (lc3_tns_put_data bits (sd_tns side)))"

definition encode :: "lc3_encoder \<Rightarrow> side_data \<Rightarrow> u16 list \<Rightarrow> u8 list \<Rightarrow> u8 list option" where
  "encode encoder side xq out =
     (let dt = enc_dt encoder; sr = enc_sr encoder
      in map_option (\<lambda>bits. buf (buffer (lc3_flush_bits bits)))
           (Option.bind (encode_side dt sr side (lc3_setup_bits LC3_BITS_MODE_WRITE out)) (\<lambda>bits.
             lc3_spec_encode bits dt sr (sd_bw side) (int (length out)) xq (sd_spec side) (enc_xs encoder))))"

text \<open>
  A frame: the output buffer \<open>out\<close> is the one of the caller, of \<open>nbytes\<close> bytes. The code
  leaves \<^verbatim>\<open>side\<close> and \<^verbatim>\<open>xq\<close> as the stack has them: \<open>side0\<close> and \<open>xq0\<close> are their contents.
\<close>

definition lc3_encode ::
    "(f32 \<Rightarrow> f32) \<Rightarrow> side_data \<Rightarrow> u16 list \<Rightarrow> lc3_encoder option \<Rightarrow> lc3_pcm \<Rightarrow> nat \<Rightarrow> int \<Rightarrow> u8 list \<Rightarrow>
     (int \<times> lc3_encoder option \<times> u8 list) option" where
  "lc3_encode log10f side0 xq0 enc pcm stride nbytes out =
     (case enc of
        None \<Rightarrow> Some (-1, enc, out)
      | Some e \<Rightarrow>
          if nbytes < LC3_MIN_FRAME_BYTES \<or> nbytes > LC3_MAX_FRAME_BYTES then Some (-1, enc, out)
          else Option.bind (analyze log10f (load e pcm stride) nbytes side0 xq0) (\<lambda>(e, side, xq).
            map_option (\<lambda>out'. (0, Some e, out' @ drop (nat nbytes) out))
              (encode e side xq (take (nat nbytes) out))))"

end
