(* ===== verification/Decoder.thy ===== *)
theory Decoder
  imports Encoder Plc
begin

text \<open>
  The decoder, \<^verbatim>\<open>lc3.c\<close>: \<open>xh\<close> is the ring of the last frames, in which the frame is at the
  position \<open>px\<close>, \<open>xd\<close> the delayed samples of the MDCT and \<open>xg\<close> the spectrum of the last good
  frame. The pointer \<^verbatim>\<open>xs\<close> of the code is \<open>xh + px\<close>.
\<close>

record lc3_decoder =
  dec_dt :: lc3_dt
  dec_sr :: lc3_srate
  dec_sr_pcm :: lc3_srate
  dec_ltpf :: lc3_ltpf_synthesis
  dec_plc :: lc3_plc_state
  dec_xh :: "f32 list"
  dec_px :: nat
  dec_xd :: "f32 list"
  dec_xg :: "f32 list"

definition dec_ns :: "lc3_decoder \<Rightarrow> nat" where
  "dec_ns d = nat (LC3_NS (dec_dt d) (dec_sr_pcm d))"

definition dec_xs :: "lc3_decoder \<Rightarrow> f32 list" where
  "dec_xs d = slice (dec_px d) (dec_ns d) (dec_xh d)"

definition put_at :: "nat \<Rightarrow> 'a list \<Rightarrow> 'a list \<Rightarrow> 'a list" where
  "put_at i ys xs = take i xs @ ys @ drop (i + length ys) xs"

definition lc3_setup_decoder :: "int \<Rightarrow> int \<Rightarrow> int \<Rightarrow> bool \<Rightarrow> lc3_decoder option" where
  "lc3_setup_decoder dt_us sr_hz sr_pcm_hz mem =
     (let sr_pcm_hz = (if sr_pcm_hz \<le> 0 then sr_hz else sr_pcm_hz);
          dt = resolve_dt dt_us; sr = resolve_sr sr_hz; sr_pcm = resolve_sr sr_pcm_hz
      in if dt \<ge> LC3_NUM_DT \<or> sr_pcm \<ge> LC3_NUM_SRATE \<or> sr > sr_pcm \<or> \<not> mem then None
         else (let nh = nat (LC3_NH dt sr_pcm); ns = nat (LC3_NS dt sr_pcm); nd = nat (LC3_ND dt sr_pcm)
               in Some \<lparr>dec_dt = dt, dec_sr = sr, dec_sr_pcm = sr_pcm,
                    dec_ltpf = \<lparr>sy_active = False, sy_pitch = 0, sy_c = replicate 24 f32_0, sy_x = replicate 12 f32_0\<rparr>,
                    dec_plc = lc3_plc_reset \<lparr>seed = 0, count = 0, alpha = f32_0\<rparr>,
                    dec_xh = replicate nh f32_0, dec_px = nh - ns,
                    dec_xd = replicate nd f32_0, dec_xg = replicate ns f32_0\<rparr>))"

section \<open>Output of the samples\<close>

text \<open>Rounding to the nearest, halves away from 0.\<close>

definition round_away :: "bool \<Rightarrow> f32 \<Rightarrow> int" where
  "round_away pos v = (if pos then f32_to_int (f32_add v (f32_lit 5 (-1))) else f32_to_int (f32_sub v (f32_lit 5 (-1))))"

fun store_sample :: "f32 \<Rightarrow> nat \<Rightarrow> lc3_pcm \<Rightarrow> lc3_pcm" where
  "store_sample xs k (LC3_PCM_FORMAT_S16 pcm) =
     LC3_PCM_FORMAT_S16 (pcm[k := LC3_SAT16 (round_away (f32_ge xs f32_0) xs)])"
| "store_sample xs k (LC3_PCM_FORMAT_S24 pcm) =
     LC3_PCM_FORMAT_S24 (pcm[k := LC3_SAT24 (round_away (f32_ge xs f32_0) (f32_ldexp xs 8))])"
| "store_sample xs k (LC3_PCM_FORMAT_S24_3LE pcm) =
     (let s = LC3_SAT24 (round_away (f32_ge xs f32_0) (f32_ldexp xs 8))
      in LC3_PCM_FORMAT_S24_3LE (pcm[3 * k := word_of_int (drop_bit 0 s AND 0xff),
           3 * k + 1 := word_of_int (drop_bit 8 s AND 0xff), 3 * k + 2 := word_of_int (drop_bit 16 s AND 0xff)]))"
| "store_sample xs k (LC3_PCM_FORMAT_FLOAT pcm) =
     LC3_PCM_FORMAT_FLOAT (pcm[k := f32_fmin (f32_fmax (f32_ldexp xs (-15)) (f32_lit (-1) 0)) (f32_lit 1 0)])"

definition store :: "lc3_decoder \<Rightarrow> lc3_pcm \<Rightarrow> nat \<Rightarrow> lc3_pcm" where
  "store d pcm stride = foldl (\<lambda>pcm i. store_sample (dec_xs d ! i) (i * stride) pcm) pcm [0 ..< dec_ns d]"

section \<open>Bitstream\<close>

text \<open>The get of the side data returns the error code, the data and the stream; the data is
  complete when the code is 0.\<close>

definition decode_side ::
    "lc3_dt \<Rightarrow> lc3_srate \<Rightarrow> int \<Rightarrow> side_data \<Rightarrow> lc3_bits \<Rightarrow> (int \<times> side_data \<times> lc3_bits) option" where
  "decode_side dt sr nbytes side bits =
     (let (ret, bw, bits) = lc3_bwdet_get_bw bits sr; side = side\<lparr>sd_bw := bw\<rparr>
      in if ret < 0 then Some (ret, side, bits) else
      (let (ret, spec, bits) = lc3_spec_get_side bits dt sr; side = side\<lparr>sd_spec := spec\<rparr>
       in if ret < 0 then Some (ret, side, bits) else
       map_option (\<lambda>(tns, bits).
         let side = side\<lparr>sd_tns := tns\<rparr>;
             (p, bits) = lc3_get_bit bits; side = side\<lparr>sd_pitch_present := (p \<noteq> 0)\<rparr>;
             (ret, sns, bits) = lc3_sns_get_data bits; side = side\<lparr>sd_sns := sns\<rparr>
         in if ret < 0 then (ret, side, bits) else
         if sd_pitch_present side
         then (case lc3_ltpf_get_data bits of (ltpf, bits) \<Rightarrow> (0, side\<lparr>sd_ltpf := ltpf\<rparr>, bits))
         else (0, side, bits))
         (lc3_tns_get_data bits dt bw nbytes (sd_tns side))))"

text \<open>The frame is decoded in place in the ring.\<close>

definition decode ::
    "lc3_decoder \<Rightarrow> u8 list \<Rightarrow> side_data \<Rightarrow> (int \<times> lc3_decoder \<times> side_data) option" where
  "decode decoder data side =
     (let dt = dec_dt decoder; sr = dec_sr decoder; nbytes = int (length data);
          xf = dec_xs decoder; ns = nat (LC3_NS dt sr); ne = nat (LC3_NE dt (sr_int sr))
      in Option.bind (decode_side dt sr nbytes side (lc3_setup_bits LC3_BITS_MODE_READ data)) (\<lambda>(ret, side, bits).
           if ret < 0 then Some (ret, decoder, side) else
           map_option (\<lambda>(ret, xf, bits).
             if ret < 0 then (ret, decoder\<lparr>dec_xh := put_at (dec_px decoder) xf (dec_xh decoder)\<rparr>, side) else
             (let xf = put_at ne (replicate (ns - ne) f32_0) xf
              in (lc3_check_bits bits, decoder\<lparr>dec_xh := put_at (dec_px decoder) xf (dec_xh decoder)\<rparr>, side)))
             (lc3_spec_decode bits dt sr (sd_bw side) nbytes (sd_spec side) xf)))"

section \<open>Synthesis\<close>

text \<open>No side data is a frame that is concealed.\<close>

definition synthesize :: "lc3_decoder \<Rightarrow> side_data option \<Rightarrow> int \<Rightarrow> lc3_decoder" where
  "synthesize decoder side nbytes =
     (let dt = dec_dt decoder; sr = dec_sr decoder; sr_pcm = dec_sr_pcm decoder;
          ns = nat (LC3_NS dt sr_pcm); ne = nat (LC3_NE dt (sr_int sr)); px = dec_px decoder;
          (plc, xg, xd, xs) =
            (case side of
               Some side \<Rightarrow>
                 (let plc = lc3_plc_suspend (dec_plc decoder);
                      xf = lc3_tns_synthesize dt (sd_bw side) (sd_tns side) (dec_xs decoder);
                      xg = lc3_sns_synthesize dt sr (sd_sns side) xf (dec_xg decoder);
                      (xd, xs) = lc3_mdct_inverse dt sr_pcm sr xg (dec_xd decoder)
                  in (plc, xg, xd, xs))
             | None \<Rightarrow>
                 (let (plc, xf) = lc3_plc_synthesize dt sr (dec_plc decoder) (dec_xg decoder);
                      xf = xf @ replicate (ns - ne) f32_0;
                      (xd, xs) = lc3_mdct_inverse dt sr_pcm sr xf (dec_xd decoder)
                  in (plc, dec_xg decoder, xd, xs)));
          (ltpf, xh) = lc3_ltpf_synthesize dt sr_pcm nbytes (dec_ltpf decoder)
            (case side of Some side \<Rightarrow> if sd_pitch_present side then Some (sd_ltpf side) else None | None \<Rightarrow> None)
            px (put_at px xs (dec_xh decoder))
      in decoder\<lparr>dec_plc := plc, dec_xg := xg, dec_xd := xd, dec_ltpf := ltpf, dec_xh := xh\<rparr>)"

text \<open>The position of the next frame in the ring.\<close>

definition complete :: "lc3_decoder \<Rightarrow> lc3_decoder" where
  "complete decoder =
     (let nh = LC3_NH (dec_dt decoder) (dec_sr_pcm decoder); ns = LC3_NS (dec_dt decoder) (dec_sr_pcm decoder)
      in decoder\<lparr>dec_px := (if int (dec_px decoder) < nh - ns then dec_px decoder + nat ns else 0)\<rparr>)"

text \<open>A frame; no input is a lost frame. \<open>side0\<close> is what the stack holds for \<^verbatim>\<open>side\<close>.\<close>

definition lc3_decode ::
    "side_data \<Rightarrow> lc3_decoder option \<Rightarrow> u8 list option \<Rightarrow> int \<Rightarrow> lc3_pcm \<Rightarrow> nat \<Rightarrow>
     (int \<times> lc3_decoder option \<times> lc3_pcm) option" where
  "lc3_decode side0 dec input nbytes pcm stride =
     (case dec of
        None \<Rightarrow> Some (-1, dec, pcm)
      | Some d \<Rightarrow>
          if input \<noteq> None \<and> (nbytes < LC3_MIN_FRAME_BYTES \<or> nbytes > LC3_MAX_FRAME_BYTES)
          then Some (-1, dec, pcm)
          else map_option (\<lambda>(ret, d, side).
            let d = synthesize d (if ret then None else Some side) nbytes
            in (of_bool ret, Some (complete d), store d pcm stride))
            (case input of
               None \<Rightarrow> Some (True, d, side0)
             | Some b \<Rightarrow> map_option (\<lambda>(ret, d, side). (ret < 0, d, side)) (decode d (take (nat nbytes) b) side0)))"

end
