(* ===== verification/FrameSide.thy ===== *)
theory FrameSide
  imports Decoder SideCodec
begin

text \<open>
  The side data of a frame, as \<open>encode_side\<close> writes it and \<open>decode_side\<close> reads it: the fields
  one after the other are again a \<open>field_codec\<close>.
\<close>

definition side_ops :: "lc3_dt \<Rightarrow> lc3_srate \<Rightarrow> side_data \<Rightarrow> bit_op list" where
  "side_ops dt sr side =
     bwdet_ops sr (sd_bw side) @ spec_side_ops dt sr (sd_spec side) @ tns_ops (sd_tns side) @
     Bits (of_bool (sd_pitch_present side)) 1 # sns_ops (sd_sns side) @
     (if sd_pitch_present side then ltpf_ops (sd_ltpf side) else [])"

text \<open>The side data that the analysis gives.\<close>

definition side_valid :: "lc3_dt \<Rightarrow> lc3_srate \<Rightarrow> int \<Rightarrow> side_data \<Rightarrow> bool" where
  "side_valid dt sr nbytes side \<longleftrightarrow>
     bw_valid sr (sd_bw side) \<and> spec_side_valid dt sr (sd_spec side) \<and>
     tns_valid dt (sd_bw side) nbytes (sd_tns side) \<and> sns_valid (sd_sns side) \<and>
     (sd_pitch_present side \<longrightarrow> ltpf_valid (sd_ltpf side))"

text \<open>What a reader fills of its structure \<open>old\<close>.\<close>

definition side_view :: "side_data \<Rightarrow> side_data \<Rightarrow> side_data" where
  "side_view old side =
     \<lparr>sd_bw = sd_bw side, sd_pitch_present = sd_pitch_present side,
      sd_ltpf = (if sd_pitch_present side then sd_ltpf side else sd_ltpf old),
      sd_sns = sns_view (sd_sns side), sd_tns = tns_fill (sd_tns old) (sd_tns side),
      sd_spec = spec_side_view (sd_spec side)\<rparr>"

lemma bwdet_get:
  "bw_valid sr bw \<Longrightarrow> rd_ops (bwdet_ops sr bw) bits = Some bits' \<Longrightarrow> lc3_bwdet_get_bw bits sr = (0, bw, bits')"
  using bwdet.get_ops [of sr bw bits bits'] by (auto split: prod.splits)

lemma spec_side_get:
  "spec_side_valid dt sr side \<Longrightarrow> rd_ops (spec_side_ops dt sr side) bits = Some bits' \<Longrightarrow>
   lc3_spec_get_side bits dt sr = (0, spec_side_view side, bits')"
  using spec_side.get_ops [of dt sr side bits bits'] by (auto split: prod.splits)

lemma ltpf_get:
  "ltpf_valid d \<Longrightarrow> rd_ops (ltpf_ops d) bits = Some bits' \<Longrightarrow> lc3_ltpf_get_data bits = (d, bits')"
  using ltpf.get_ops by simp

text \<open>
  The first two fields are always there, one after the other; the filters follow, coded as the
  bandwidth asks.
\<close>

interpretation side_head: field_seq
  "\<lambda>bw bits. Some (lc3_bwdet_put_bw bits sr bw)"
  "\<lambda>bits. case lc3_bwdet_get_bw bits sr of (ret, bw, bits) \<Rightarrow> Some ((ret, bw), bits)"
  "bwdet_ops sr" "\<lambda>bw. (0, bw)" "bw_valid sr"
  "\<lambda>_ side bits. Some (lc3_spec_put_side bits dt sr side)"
  "\<lambda>_ bits. case lc3_spec_get_side bits dt sr of (ret, side, bits) \<Rightarrow> Some ((ret, side), bits)"
  "\<lambda>_. spec_side_ops dt sr" "\<lambda>_ side. (0, spec_side_view side)" "\<lambda>_. spec_side_valid dt sr" for dt sr
  by (unfold_locales) (use spec_side.put_ops spec_side.ops_ok spec_side.get_ops in blast)+

interpretation side_filters: field_seq
  "\<lambda>(bw, side) bits. Option.bind (Some (lc3_bwdet_put_bw bits sr bw)) (\<lambda>bits. Some (lc3_spec_put_side bits dt sr side))"
  "\<lambda>bits. Option.bind (case lc3_bwdet_get_bw bits sr of (ret, bw, bits) \<Rightarrow> Some ((ret, bw), bits))
     (\<lambda>(b, bits). map_option (\<lambda>(d, bits). ((b, d), bits))
        (case lc3_spec_get_side bits dt sr of (ret, side, bits) \<Rightarrow> Some ((ret, side), bits)))"
  "\<lambda>(bw, side). bwdet_ops sr bw @ spec_side_ops dt sr side" "\<lambda>(bw, side). ((0, bw), (0, spec_side_view side))"
  "\<lambda>(bw, side). bw_valid sr bw \<and> spec_side_valid dt sr side"
  "\<lambda>_ data bits. lc3_tns_put_data bits data" "\<lambda>((_, bw), _) bits. lc3_tns_get_data bits dt bw nbytes old"
  "\<lambda>_. tns_ops" "\<lambda>_. tns_fill old"
  "\<lambda>((_, bw), _) data. tns_valid dt bw nbytes data \<and> length (rc_order old) = 2" for dt sr nbytes old
  by (intro field_seq.intro field_seq_axioms.intro side_head.seq.field_codec_axioms)
    (auto intro: tns.field_codec_axioms)

lemma side_put_ops:
  assumes v: "side_valid dt sr nbytes side"
  shows "encode_side dt sr side bits = wr_ops (side_ops dt sr side) bits"
proof -
  have v: "bw_valid sr (sd_bw side)" "spec_side_valid dt sr (sd_spec side)" "sns_valid (sd_sns side)"
    "sd_pitch_present side \<Longrightarrow> ltpf_valid (sd_ltpf side)" using assms by (simp_all add: side_valid_def)
  note put = bwdet.put_ops [OF v(1), symmetric] spec_side.put_ops [OF v(2), symmetric] sns.put_ops [OF v(3), symmetric]
    ltpf.put_ops [OF v(4), symmetric] tns_put_ops [symmetric]
  show ?thesis
    by (cases "sd_pitch_present side")
      (simp_all add: encode_side_def side_ops_def wr_ops_append put Let_def lc3_put_bit_def map_option_bind
        bind_map_option comp_def map_conv_bind_option cong: Option.bind_cong)
qed

lemma side_get_ops:
  assumes v: "side_valid dt sr nbytes side" and old: "length (rc_order (sd_tns old)) = 2"
    and ops: "rd_ops (side_ops dt sr side) bits = Some bits'"
  shows "decode_side dt sr nbytes old bits = Some (0, side_view old side, bits')"
proof -
  have v: "bw_valid sr (sd_bw side)" "spec_side_valid dt sr (sd_spec side)" "sns_valid (sd_sns side)"
    "tns_valid dt (sd_bw side) nbytes (sd_tns side)" "sd_pitch_present side \<Longrightarrow> ltpf_valid (sd_ltpf side)"
    using assms(1) by (simp_all add: side_valid_def)
  obtain b1 b2 b3 b4 b5 where r: "rd_ops (bwdet_ops sr (sd_bw side)) bits = Some b1"
      "rd_ops (spec_side_ops dt sr (sd_spec side)) b1 = Some b2" "rd_ops (tns_ops (sd_tns side)) b2 = Some b3"
      "lc3_get_bits b3 (int 1) = (of_bool (sd_pitch_present side), b4)" "rd_ops (sns_ops (sd_sns side)) b4 = Some b5"
      "rd_ops (if sd_pitch_present side then ltpf_ops (sd_ltpf side) else []) b5 = Some bits'"
    using ops unfolding side_ops_def rd_ops_append bind_eq_Some_conv rd_ops_Bits by blast
  note g = bwdet_get [OF v(1) r(1)] spec_side_get [OF v(2) r(2)] r(4) [unfolded of_nat_1, folded lc3_get_bit_def]
    sns_get_ops [OF v(3) r(5)]
  have t: "lc3_tns_get_data b2 dt (sd_bw side) nbytes (sd_tns old) = Some (tns_fill (sd_tns old) (sd_tns side), b3)"
    by (rule tns.get_ops [OF _ r(3)]) (use v(4) old in simp)
  show ?thesis
  proof (cases "sd_pitch_present side")
    case True
    with r(6) v(5) have "lc3_ltpf_get_data b5 = (sd_ltpf side, bits')" by (intro ltpf_get) simp_all
    with True show ?thesis by (simp add: decode_side_def g t side_view_def)
  next
    case False
    with r(6) show ?thesis by (simp add: decode_side_def g t side_view_def)
  qed
qed

lemma side_ops_ok:
  assumes "side_valid dt sr nbytes side"
  shows "list_all op_ok (side_ops dt sr side)"
proof -
  have v: "bw_valid sr (sd_bw side)" "spec_side_valid dt sr (sd_spec side)" "sns_valid (sd_sns side)"
    "tns_valid dt (sd_bw side) nbytes (sd_tns side)" "sd_pitch_present side \<Longrightarrow> ltpf_valid (sd_ltpf side)"
    using assms by (simp_all add: side_valid_def)
  have "list_all op_ok (bwdet_ops sr (sd_bw side) @ spec_side_ops dt sr (sd_spec side))"
    using side_head.seq.ops_ok [of sr dt "(sd_bw side, sd_spec side)"] v(1,2) by simp
  note ok = this tns_ops_ok [OF v(4)] sns.ops_ok [OF v(3)]
    ltpf.ops_ok [OF v(5)]
  show ?thesis using ok uint_of_bool_less by (simp add: side_ops_def)
qed

interpretation frame_side: field_codec
  "encode_side dt sr"
  "\<lambda>bits. map_option (\<lambda>(ret, side, bits). ((ret, side), bits)) (decode_side dt sr nbytes old bits)"
  "side_ops dt sr" "\<lambda>side. (0, side_view old side)"
  "\<lambda>side. side_valid dt sr nbytes side \<and> length (rc_order (sd_tns old)) = 2" for dt sr nbytes old
  by unfold_locales (use side_put_ops side_ops_ok side_get_ops in \<open>auto simp del: rd_ops.simps\<close>)

text \<open>The side data has plain bits enough for the counts of the bits left to agree.\<close>

lemma side_ops_plain: "sns_valid (sd_sns side) \<Longrightarrow> 37 \<le> plain_bits (side_ops dt sr side)"
proof -
  assume v: "sns_valid (sd_sns side)"
  obtain wg g wm mux where c: "sns_code (sd_sns side) = (wg, g, wm, mux)" by (cases "sns_code (sd_sns side)")
  have p: "plain_bits (xs @ ys) = plain_bits xs + plain_bits ys" for xs ys
    by (induction xs rule: plain_bits.induct) simp_all
  have "int (plain_bits (sns_ops (sd_sns side))) = 38 - 1 + 1 - 1 + 1"
    using sns_code_bounds [OF v c] sns_code_words(6,8) [OF v c] by (simp add: sns_ops_def c)
  then show ?thesis by (simp add: side_ops_def p)
qed

end
