(* ===== verification/SpecRoundtrip.thy ===== *)
theory SpecRoundtrip
  imports SpecRefine FrameSide
begin

text \<open>
  The spectrum of a frame, as \<open>lc3_spec_encode\<close> writes it and \<open>lc3_spec_decode\<close> reads it: the
  noise level, the pairs, then the low bits or the residual bits in what is left of the frame.
\<close>

section \<open>The operations of the encoder\<close>

abbreviation spec_lookup :: "lc3_srate \<Rightarrow> int \<Rightarrow> nat \<Rightarrow> nat \<Rightarrow> nat list" where
  "spec_lookup sr nbytes \<equiv> lc3_spectrum_lookup (of_bool (resolve_high_rate sr nbytes))"

abbreviation pairs_of :: "lc3_dt \<Rightarrow> lc3_srate \<Rightarrow> int \<Rightarrow> (nat \<times> nat) list" where
  "pairs_of dt sr nq \<equiv> spec_steps nq (LC3_NE dt (sr_int sr))"

definition spec_pre_ops :: "lc3_dt \<Rightarrow> lc3_srate \<Rightarrow> int \<Rightarrow> int \<Rightarrow> lc3_spec_side \<Rightarrow> u16 list \<Rightarrow> bit_op list" where
  "spec_pre_ops dt sr nbytes nf side xq =
     Bits (word_of_int nf) 3 # quant_ops (spec_lookup sr nbytes) (side_lsb_mode side) xq (pairs_of dt sr (side_nq side)) 0"

definition spec_tail_ops :: "lc3_spec_side \<Rightarrow> u16 list \<Rightarrow> f32 list \<Rightarrow> int \<Rightarrow> bit_op list" where
  "spec_tail_ops side xq x n =
     (if side_lsb_mode side then lsb_ops xq (evens 0 (side_nq side)) n
      else residual_ops xq x (nat (side_nq side)) n)"

text \<open>The coefficients that the quantiser gives: no zero has a sign.\<close>

definition spec_coefs_valid :: "lc3_dt \<Rightarrow> lc3_srate \<Rightarrow> lc3_spec_side \<Rightarrow> u16 list \<Rightarrow> bool" where
  "spec_coefs_valid dt sr side xq \<longleftrightarrow>
     valid_dt dt \<and> valid_sr sr \<and> even (side_nq side) \<and> 2 \<le> side_nq side \<and> side_nq side \<le> LC3_NE dt (sr_int sr) \<and>
     (\<forall>j < nat (side_nq side). xq ! j \<noteq> 1)"

lemma estimate_noise_bounds: "0 \<le> estimate_noise dt bw xq nq x" "estimate_noise dt bw xq nq x \<le> 7"
  by (simp_all only: estimate_noise_def Let_def case_prod_beta LC3_CLIP_def) simp_all

lemma spec_encode_ops:
  "lc3_spec_encode bits dt sr bw nbytes xq side x =
     Option.bind (wr_ops (spec_pre_ops dt sr nbytes (estimate_noise dt bw xq (side_nq side) x) side xq) bits)
       (\<lambda>bits. wr_ops (spec_tail_ops side xq x (lc3_get_bits_left bits)) bits)" if "0 \<le> side_nq side"
proof -
  have n: "side_nq side = int (nat (side_nq side))" using that by simp
  have tail: "wr_ops (spec_tail_ops side xq x (lc3_get_bits_left b)) b =
      Some (if side_lsb_mode side then put_lsb b (lc3_get_bits_left b) xq (side_nq side)
            else put_residual b (lc3_get_bits_left b) xq (side_nq side) x)" for b
  proof (cases "side_lsb_mode side")
    case True
    then show ?thesis by (simp add: spec_tail_ops_def put_lsb_ops)
  next
    case False
    have "Some (put_residual b (lc3_get_bits_left b) xq (int (nat (side_nq side))) x) =
        wr_ops (residual_ops xq x (nat (side_nq side)) (lc3_get_bits_left b)) b"
      by (rule put_residual_ops) (simp add: lc3_get_bits_left_def)
    then show ?thesis using False n by (simp add: spec_tail_ops_def)
  qed
  show ?thesis
    unfolding tail lc3_spec_encode_def Let_def put_quantized_def for_each_put_pair spec_pre_ops_def
    by (simp add: put_noise_factor_def map_conv_bind_option comp_def)
qed

lemma lsb_value_ops_ok: "list_all op_ok (lsb_value_ops c (s AND 1) n)"
  using uint_low_bit_less by (simp add: lsb_value_ops_def)

lemma lsb_ops_ok: "list_all op_ok (lsb_ops x is n)"
proof (induction "is" arbitrary: n)
  case (Cons i "is")
  then show ?case by (simp add: Let_def lsb_value_ops_ok)
qed simp

lemma residual_ops_ok: "list_all op_ok (residual_ops x xf N n)"
proof (induction N)
  case (Suc N)
  have "uint (of_bool (residual_bit x xf N) :: u32) < 2" by (rule uint_of_bool_less)
  with Suc show ?case by (simp add: residual_ops_Suc)
qed (simp add: residual_ops_def)

lemma spec_ops_ok:
  assumes "0 \<le> nf" "nf \<le> 7"
  shows "list_all op_ok (spec_pre_ops dt sr nbytes nf side xq)" "list_all op_ok (spec_tail_ops side xq x n)"
proof -
  have "list_all op_ok (quant_ops (spec_lookup sr nbytes) (side_lsb_mode side) xq steps 0)" for steps
    by (rule quant_ops_ok) (simp_all add: lc3_spectrum_lookup_bound)
  then show "list_all op_ok (spec_pre_ops dt sr nbytes nf side xq)"
    using assms by (simp add: spec_pre_ops_def uint_word32)
  show "list_all op_ok (spec_tail_ops side xq x n)"
    by (simp add: spec_tail_ops_def lsb_ops_ok residual_ops_ok)
qed

section \<open>What the decoder renders\<close>

text \<open>The end of the decoding, from the values and the seed of the noise.\<close>

definition spec_render ::
    "lc3_dt \<Rightarrow> lc3_srate \<Rightarrow> lc3_bandwidth \<Rightarrow> int \<Rightarrow> lc3_spec_side \<Rightarrow> int \<Rightarrow> int \<Rightarrow> f32 list \<Rightarrow> f32 list" where
  "spec_render dt sr bw nbytes side nf nf_seed x =
     (let (x, g) = unquantize dt sr (side_g_idx side - resolve_gain_offset sr nbytes) x (side_nq side)
      in if side_nq side > 2 \<or> \<not> f32_eq (x ! 0) f32_0 \<or> \<not> f32_eq (x ! 1) f32_0 \<or> side_g_idx side > 0 \<or> nf < 7
         then fill_noise dt bw nf nf_seed g x (side_nq side) else x)"

text \<open>
  The values of the \<open>nq\<close> coefficients when \<open>n\<close> bits follow the pairs: in the mode of the low
  bits those of the pairs with the low bits that \<open>n\<close> bits can hold, and all exact when \<open>n\<close> is
  large enough; otherwise each is exact, then refined by its residual bit when there is one.
  The seed is the one of these integers.
\<close>

definition spec_values :: "lc3_spec_side \<Rightarrow> u16 list \<Rightarrow> f32 list \<Rightarrow> int \<Rightarrow> f32 list \<Rightarrow> int \<Rightarrow> bool" where
  "spec_values side xq x n vals nf_seed \<longleftrightarrow>
     (let N = nat (side_nq side); v = lsb_values xq (evens 0 (side_nq side)) n (coded_value True xq)
      in if side_lsb_mode side
         then values_are N v vals \<and> nf_seed = seed_of N v \<and>
           (lsb_total xq (evens 0 (side_nq side)) \<le> n \<longrightarrow> (\<forall>j<N. v j = exact_value xq j))
         else nf_seed = seed_of N (exact_value xq) \<and> (\<forall>j<N. vals ! j = refined_value xq x n j))"

lemma evens_double: "evens 0 (2 * int N) = map (\<lambda>j. 2 * j) [0 ..< N]"
proof -
  have "nat ((2 * int N + 1) div 2) = N" by simp
  then show ?thesis by (simp add: evens_def)
qed

lemma coded_value_exact: "coded_value False xq j = exact_value xq j"
  by (simp add: coded_value_def pair_value_def pair_coded_def pair_skip_def exact_value_def Let_def)

lemma get_quantized_ops:
  assumes v: "spec_coefs_valid dt sr side xq" and len: "nat (side_nq side) \<le> length x0"
    and ops: "rd_ops (quant_ops (spec_lookup sr nbytes) (side_lsb_mode side) xq (pairs_of dt sr (side_nq side)) 0) bits = Some b1"
  obtains xs where "get_quantized bits dt sr nbytes (side_nq side) (side_lsb_mode side) x0 =
      Some (0, xs, quant_seed (side_lsb_mode side) xq (nat (side_nq side)), b1)"
    "length xs = length x0" "values_are (nat (side_nq side)) (coded_value (side_lsb_mode side) xq) xs"
proof -
  define N where "N = nat (side_nq side) div 2"
  have nq: "even (side_nq side)" "2 \<le> side_nq side" "side_nq side \<le> LC3_NE dt (sr_int sr)" "valid_dt dt" "valid_sr sr"
    using v by (simp_all add: spec_coefs_valid_def)
  have N: "nat (side_nq side) = 2 * N" "side_nq side = 2 * int N"
    using nq(1,2) by (auto simp: N_def nat_mult_distrib elim!: evenE)
  have "map snd (pairs_of dt sr (side_nq side)) = evens 0 (side_nq side)"
    using nq(3) nbits_nq_enough(4) [OF nq(4,5)] by (subst spec_steps_pairs) (simp_all add: min_absorb1)
  then have steps: "map snd (pairs_of dt sr (side_nq side)) = map (\<lambda>j. 2 * j) [0 ..< N]"
    by (simp only: N(2) evens_double)
  let ?r = "\<lparr>rd_ret = 0, rd_seed = 0, rd_state = 0, rd_x = x0, rd_bits = bits\<rparr>"
  let ?r' = "fold (get_update (side_lsb_mode side) xq) (map (\<lambda>j. 2 * j) [0 ..< N]) ?r"
  have fold: "fold (\<lambda>(h, i). get_update (side_lsb_mode side) xq i) hs r =
      fold (get_update (side_lsb_mode side) xq) (map snd hs) r" for hs :: "(nat \<times> nat) list" and r
    by (induction hs arbitrary: r) auto
  have "for_each (\<lambda>(h, i). get_pair (spec_lookup sr nbytes h) (side_lsb_mode side) i) (pairs_of dt sr (side_nq side)) ?r =
      Some (?r'\<lparr>rd_bits := b1\<rparr>)"
    unfolding steps [symmetric] fold [symmetric] by (rule for_each_get_pair) (use ops in simp_all)
  then have "get_quantized bits dt sr nbytes (side_nq side) (side_lsb_mode side) x0 =
      Some (rd_ret ?r', rd_x ?r', rd_seed ?r', b1)"
    by (simp add: get_quantized_def Let_def)
  moreover note get_updates [where r = ?r and n = N and lsb = "side_lsb_mode side" and x = xq]
  ultimately show thesis
    using that [of "rd_x ?r'"] len unfolding N(1) values_are_def by auto
qed

lemma spec_decode_ops:
  assumes v: "spec_coefs_valid dt sr side xq" and len: "nat (side_nq side) \<le> length x0" and nf: "0 \<le> nf" "nf \<le> 7"
    and pre: "rd_ops (spec_pre_ops dt sr nbytes nf side xq) bits = Some b1"
    and tail: "rd_ops (spec_tail_ops side xq x (lc3_get_bits_left b1)) b1 = Some b2"
  shows "\<exists>vals nf_seed. length vals = length x0 \<and> spec_values side xq x (lc3_get_bits_left b1) vals nf_seed \<and>
    lc3_spec_decode bits dt sr bw nbytes side x0 = Some (0, spec_render dt sr bw nbytes side nf nf_seed vals, b2)"
proof -
  define N n where "N = nat (side_nq side)" and "n = lc3_get_bits_left b1"
  have nq: "even (side_nq side)" "2 \<le> side_nq side" and neg0: "\<And>j. j < N \<Longrightarrow> xq ! j \<noteq> 1"
    using v by (simp_all add: spec_coefs_valid_def N_def)
  have N: "side_nq side = int N" "even N" using nq by (simp_all add: N_def even_nat_iff)
  have n: "0 \<le> n" by (simp add: n_def lc3_get_bits_left_def)
  obtain b0 where noise: "get_noise_factor bits = (nf, b0)"
    and q: "rd_ops (quant_ops (spec_lookup sr nbytes) (side_lsb_mode side) xq (pairs_of dt sr (side_nq side)) 0) b0 = Some b1"
    using pre nf unfolding spec_pre_ops_def rd_ops_Bits by (auto simp: get_noise_factor_def uint_word32)
  obtain xs where xs: "get_quantized b0 dt sr nbytes (side_nq side) (side_lsb_mode side) x0 =
      Some (0, xs, quant_seed (side_lsb_mode side) xq N, b1)"
    "length xs = length x0" "values_are N (coded_value (side_lsb_mode side) xq) xs"
    using get_quantized_ops [OF v len q] unfolding N_def by blast
  have seed: "quant_seed l xq N = seed_of N (coded_value l xq)" for l by (simp add: quant_seed_def seed_of_def)
  obtain vals nf_seed where t: "(if side_lsb_mode side then get_lsb b1 n xs (side_nq side) (quant_seed (side_lsb_mode side) xq N)
        else (case get_residual b1 n xs (side_nq side) of (x, bits) \<Rightarrow> (x, quant_seed (side_lsb_mode side) xq N, bits))) =
      (vals, nf_seed, b2)" "length vals = length x0" "spec_values side xq x n vals nf_seed"
  proof (cases "side_lsb_mode side")
    case True
    have "rd_ops (lsb_ops xq (evens 0 (side_nq side)) n) b1 = Some b2"
      using tail True by (simp add: spec_tail_ops_def n_def)
    moreover obtain M where M: "N = 2 * M" using N(2) by (elim evenE)
    moreover have "side_nq side = 2 * int M" using N(1) M by simp
    moreover define v where "v = lsb_values xq (evens 0 (side_nq side)) n (coded_value True xq)"
    ultimately obtain xs' where l: "get_lsb b1 n xs (side_nq side) (seed_of N (coded_value True xq)) = (xs', seed_of N v, b2)"
      "values_are N v xs'" "length xs' = length xs"
      and ex: "lsb_total xq (evens 0 (side_nq side)) \<le> n \<longrightarrow> (\<forall>j<N. v j = exact_value xq j)"
      using get_lsb_ops [of M xq xs n b1 b2] xs(3) True by auto
    then show thesis using that [of xs' "seed_of N v"] xs(2) True
      by (auto simp: spec_values_def Let_def N_def [symmetric] seed v_def [symmetric])
  next
    case False
    have r: "rd_ops (residual_ops xq x N n) b1 = Some b2"
      using tail False by (simp add: spec_tail_ops_def n_def N_def)
    have "values_are N (exact_value xq) xs" using xs(3) False by (simp add: values_are_def coded_value_exact)
    from get_residual_ops [OF n neg0 this r]
    obtain xs' where l: "get_residual b1 n xs (int N) = (xs', b2)" "length xs' = length xs"
      "\<forall>j<N. xs' ! j = refined_value xq x n j" by blast
    then show thesis using that [of xs' "quant_seed False xq N"] xs(2) False
      by (simp add: spec_values_def Let_def N_def [symmetric] seed N(1) seed_of_def coded_value_exact)
  qed
  then have "lc3_spec_decode bits dt sr bw nbytes side x0 = Some (0, spec_render dt sr bw nbytes side nf nf_seed vals, b2)"
    unfolding lc3_spec_decode_def Let_def noise prod.case xs(1) option.map n_def [symmetric] less_irrefl if_False t(1)
      spec_render_def by (simp split: prod.split)
  then show ?thesis using t unfolding n_def by blast
qed

section \<open>The spectrum in its frame\<close>

lemma plain_bits_append: "plain_bits (xs @ ys) = plain_bits xs + plain_bits ys"
  by (induction xs rule: plain_bits.induct) simp_all

text \<open>The stream of the encoder when the pairs are written: what is left of it then is for the low
  bits or the residual ones.\<close>

definition spec_coded ::
    "lc3_bits \<Rightarrow> lc3_dt \<Rightarrow> lc3_srate \<Rightarrow> lc3_bandwidth \<Rightarrow> int \<Rightarrow> u16 list \<Rightarrow> lc3_spec_side \<Rightarrow> f32 list \<Rightarrow> lc3_bits option" where
  "spec_coded bits dt sr bw nbytes xq side x =
     put_quantized (put_noise_factor bits (estimate_noise dt bw xq (side_nq side) x)) dt sr nbytes xq (side_nq side) (side_lsb_mode side)"

lemma spec_coded_ops:
  "spec_coded bits dt sr bw nbytes xq side x =
     wr_ops (spec_pre_ops dt sr nbytes (estimate_noise dt bw xq (side_nq side) x) side xq) bits"
  unfolding spec_coded_def put_quantized_def Let_def for_each_put_pair spec_pre_ops_def by (simp add: put_noise_factor_def)

text \<open>
  After operations that have written 19 plain bits at least, the spectrum is read back: the
  two sides count the same bits for what follows the pairs.
\<close>

lemma spec_read_back:
  assumes v: "spec_coefs_valid dt sr side xq" and ok: "list_all op_ok xs" and p: "19 \<le> plain_bits xs"
    and w0: "wr_ops xs (lc3_setup_bits LC3_BITS_MODE_WRITE mem) = Some w0"
    and w: "lc3_spec_encode w0 dt sr bw nbytes xq side x = Some w" and left: "0 \<le> get_bits_left w"
    and len: "nat (side_nq side) \<le> length x0"
  obtains r0 r w1 vals nf_seed where "rd_ops xs (lc3_setup_bits LC3_BITS_MODE_READ (stream_of w)) = Some r0"
    "spec_coded w0 dt sr bw nbytes xq side x = Some w1"
    "lc3_spec_decode r0 dt sr bw nbytes side x0 =
      Some (0, spec_render dt sr bw nbytes side (estimate_noise dt bw xq (side_nq side) x) nf_seed vals, r)"
    "length vals = length x0" "spec_values side xq x (lc3_get_bits_left w1) vals nf_seed" "lc3_check_bits r = 0"
    "length (stream_of w) = length mem"
proof -
  define nf where "nf = estimate_noise dt bw xq (side_nq side) x"
  have nf: "0 \<le> nf" "nf \<le> 7" by (simp_all add: nf_def estimate_noise_bounds)
  let ?pre = "spec_pre_ops dt sr nbytes nf side xq"
  have nq: "0 \<le> side_nq side" using v by (simp add: spec_coefs_valid_def)
  obtain w1 where w1: "wr_ops ?pre w0 = Some w1"
    "wr_ops (spec_tail_ops side xq x (lc3_get_bits_left w1)) w1 = Some w"
    using w unfolding spec_encode_ops [OF nq] nf_def bind_eq_Some_conv by blast
  let ?tail = "spec_tail_ops side xq x (lc3_get_bits_left w1)"
  have oks: "list_all op_ok ((xs @ ?pre) @ ?tail)" using ok spec_ops_ok [OF nf] by simp
  have pre: "wr_ops (xs @ ?pre) (lc3_setup_bits LC3_BITS_MODE_WRITE mem) = Some w1"
    using w0 w1(1) by (simp add: wr_ops_append)
  have wr: "written ((xs @ ?pre) @ ?tail) mem w"
    using pre w1(2) left by (simp only: written_def wr_ops_append [of "xs @ ?pre"] bind.bind_lunit simp_thms)
  have p22: "22 \<le> plain_bits (xs @ ?pre)" using p by (simp add: plain_bits_append spec_pre_ops_def)
  then have p22': "22 \<le> plain_bits ((xs @ ?pre) @ ?tail)" by (simp only: plain_bits_append [of "xs @ ?pre"])
  obtain r1 r2 where r: "rd_ops (xs @ ?pre) (lc3_setup_bits LC3_BITS_MODE_READ (stream_of w)) = Some r1"
    "rd_ops ?tail r1 = Some r2" "\<not> ac_error (ac r2)" "get_bits_left r1 = get_bits_left w1" "get_bits_left r2 = get_bits_left w"
    using written_read [OF oks wr] p22 p22' pre by metis
  obtain r0 where r0: "rd_ops xs (lc3_setup_bits LC3_BITS_MODE_READ (stream_of w)) = Some r0" "rd_ops ?pre r0 = Some r1"
    using r(1) by (auto simp: rd_ops_append bind_eq_Some_conv)
  have "lc3_get_bits_left r1 = lc3_get_bits_left w1" using r(4) by (simp add: lc3_get_bits_left_def)
  then have "rd_ops (spec_tail_ops side xq x (lc3_get_bits_left r1)) r1 = Some r2" using r(2) by simp
  from spec_decode_ops [OF v len nf r0(2) this] obtain vals nf_seed where
    "length vals = length x0" "spec_values side xq x (lc3_get_bits_left r1) vals nf_seed"
    "lc3_spec_decode r0 dt sr bw nbytes side x0 = Some (0, spec_render dt sr bw nbytes side nf nf_seed vals, r2)" by blast
  moreover have "lc3_check_bits r2 = 0" using r(3,5) left by (simp add: lc3_check_bits_def)
  moreover have "spec_coded w0 dt sr bw nbytes xq side x = Some w1" using w1(1) by (simp add: spec_coded_ops nf_def)
  moreover have "lc3_get_bits_left r1 = lc3_get_bits_left w1" using r(4) by (simp add: lc3_get_bits_left_def)
  ultimately show thesis using that r0(1) written_dec(1) [OF oks wr] unfolding nf_def by metis
qed

text \<open>A frame that its buffer is large enough for, before the flush.\<close>

definition frame_bits :: "lc3_encoder \<Rightarrow> side_data \<Rightarrow> u16 list \<Rightarrow> u8 list \<Rightarrow> lc3_bits option" where
  "frame_bits encoder side xq out =
     Option.bind (encode_side (enc_dt encoder) (enc_sr encoder) side (lc3_setup_bits LC3_BITS_MODE_WRITE out)) (\<lambda>bits.
       lc3_spec_encode bits (enc_dt encoder) (enc_sr encoder) (sd_bw side) (int (length out)) xq (sd_spec side) (enc_xs encoder))"

definition frame_fits :: "lc3_encoder \<Rightarrow> side_data \<Rightarrow> u16 list \<Rightarrow> u8 list \<Rightarrow> bool" where
  "frame_fits encoder side xq out \<longleftrightarrow>
     (case frame_bits encoder side xq out of Some w \<Rightarrow> 0 \<le> get_bits_left w | None \<Rightarrow> False)"

lemma encode_frame_bits: "encode encoder side xq out = map_option (\<lambda>w. stream_of w) (frame_bits encoder side xq out)"
  by (simp add: encode_def frame_bits_def Let_def)

end
