(* ===== verification/DecodeTotal.thy ===== *)
theory DecodeTotal
  imports SpecRoundtrip
begin

text \<open>
  The decoder on any input: every loop that reads the stream returns, whatever the bytes are,
  and the buffers keep their sizes. These are the facts that the invariant of the decoder rests
  on.
\<close>

section \<open>Loops\<close>

lemma foldl_invariant:
  "I s \<Longrightarrow> (\<And>x s. x \<in> set xs \<Longrightarrow> I s \<Longrightarrow> I (f s x)) \<Longrightarrow> I (foldl f s xs)"
  by (induction xs arbitrary: s) auto

lemma length_foldl:
  "(\<And>y i. i \<in> set xs \<Longrightarrow> length (f y i) = length y) \<Longrightarrow> length (foldl f y xs) = length y"
  by (rule foldl_invariant) auto

section \<open>The pairs\<close>

lemma lc3_get_bit_wf: "rd_wf bits \<Longrightarrow> lc3_get_bit bits = (v, bits') \<Longrightarrow> rd_wf bits'"
  using lc3_get_bits_wf(1) [of bits 1 v bits'] by (simp add: lc3_get_bit_def)

lemma get_sign_wf: "rd_wf bits \<Longrightarrow> get_sign u bits = (v, bits') \<Longrightarrow> rd_wf bits'"
  by (auto simp: get_sign_def lc3_get_bit_wf split: if_splits prod.splits)

lemma spectrum_symbol:
  assumes "m < 64" "rd_wf bits"
  obtains s bits' where "lc3_get_symbol bits (lc3_spectrum_models ! m) = Some (s, bits')" "rd_wf bits'"
proof -
  have "ac_model_wf (lc3_spectrum_models ! m)" using lc3_spectrum_models_ok [OF assms(1), of 0] by (simp add: ac_symbol_ok_def)
  from lc3_get_symbol_total [OF this assms(2)] that show thesis by blast
qed

lemma get_escape_total:
  assumes "\<And>j. j < 4 \<Longrightarrow> lut ! j < 64" "rd_wf bits" "k \<le> 3"
  shows "\<exists>u' v' k' shl' s' bits'. get_escape lut u v k shl s bits = Some (u', v', k', shl', s', bits') \<and>
    rd_wf bits' \<and> k' \<le> 3"
  using assms
proof (induction lut u v k shl s bits rule: get_escape.induct)
  case (1 lut u v k shl s bits)
  show ?case
  proof (cases "s \<ge> 16 \<and> shl < 14")
    case True
    obtain p b1 where p: "lc3_get_bit bits = (p, b1)" by (cases "lc3_get_bit bits")
    obtain q b2 where q: "lc3_get_bit b1 = (q, b2)" by (cases "lc3_get_bit b1")
    have wf: "rd_wf b2" using lc3_get_bit_wf p q "1.prems"(2) by blast
    have k: "k + of_bool (k < 3) \<le> 3" using "1.prems"(3) by auto
    then have "lut ! (k + of_bool (k < 3)) < 64" by (intro "1.prems"(1)) simp
    then obtain s' b3 where s': "lc3_get_symbol b2 (lc3_spectrum_models ! (lut ! (k + of_bool (k < 3)))) = Some (s', b3)" "rd_wf b3"
      using spectrum_symbol [OF _ wf] by blast
    from "1.IH" [OF True refl p [symmetric] refl refl q [symmetric] refl refl s'(1) refl "1.prems"(1) s'(2) k]
    show ?thesis using True p q s'(1) by (subst get_escape.simps) simp
  next
    case False
    then show ?thesis using "1.prems" by (subst get_escape.simps) auto
  qed
qed

definition reader_ok :: "nat \<Rightarrow> spec_reader \<Rightarrow> bool" where
  "reader_ok n r \<longleftrightarrow> rd_wf (rd_bits r) \<and> 0 \<le> rd_state r \<and> rd_state r < 256 \<and> length (rd_x r) = n \<and>
     (rd_ret r = 0 \<or> rd_ret r = -1) \<and> 0 \<le> rd_seed r \<and> rd_seed r < 65536"

lemma get_pair_total:
  assumes lut: "\<And>st j. st < 256 \<Longrightarrow> j < 4 \<Longrightarrow> lut_coeff st ! j < 64" and r: "reader_ok n r"
  shows "\<exists>r'. get_pair lut_coeff lsb i r = Some r' \<and> reader_ok n r'"
proof (cases "rd_ret r < 0")
  case True
  then show ?thesis using r by (simp add: get_pair_def)
next
  case False
  define lut where "lut = lut_coeff (nat (rd_state r))"
  have l: "lut ! j < 64" if "j < 4" for j
    using lut [of "nat (rd_state r)" j] that r by (simp add: lut_def reader_ok_def nat_less_iff)
  have wf: "rd_wf (rd_bits r)" using r by (simp add: reader_ok_def)
  obtain s b1 where 1: "lc3_get_symbol (rd_bits r) (lc3_spectrum_models ! (lut ! 0)) = Some (s, b1)" "rd_wf b1"
    by (rule spectrum_symbol [OF l [of 0] wf]) (simp, blast)
  obtain s2 and k shl :: nat and b2 where 2: "(if lsb \<and> s \<ge> 16
      then map_option (\<lambda>(s, bits). (s, 1, 1, bits)) (lc3_get_symbol b1 (lc3_spectrum_models ! (lut ! 1)))
      else Some (s, 0, 0, b1)) = Some (s2, k, shl, b2)" "rd_wf b2" "k \<le> 1"
  proof (cases "lsb \<and> s \<ge> 16")
    case True
    obtain s' b' where "lc3_get_symbol b1 (lc3_spectrum_models ! (lut ! 1)) = Some (s', b')" "rd_wf b'"
      by (rule spectrum_symbol [OF l [of 1] 1(2)]) (simp, blast)
    with True show thesis by (intro that [of s' 1 1 b']) simp_all
  next
    case False
    with 1(2) show thesis by (intro that [of s 0 0 b1]) simp_all
  qed
  obtain u v k' shl' s3 b3 where 3: "get_escape lut 0 0 k shl s2 b2 = Some (u, v, k', shl', s3, b3)" "rd_wf b3"
  proof -
    have "k \<le> 3" using 2(3) by simp
    from get_escape_total [OF l 2(2) this] that show thesis by blast
  qed
  define a b where "a = int (s3 mod 4)" and "b = int (s3 div 4)"
  obtain xu b4 where 4: "get_sign (u OR push_bit shl' a) b3 = (xu, b4)" by (cases "get_sign (u OR push_bit shl' a) b3")
  obtain xv b5 where 5: "get_sign (v OR push_bit shl' b) b4 = (xv, b5)" by (cases "get_sign (v OR push_bit shl' b) b4")
  have wf5: "rd_wf b5" using get_sign_wf 4 5 3(2) by blast
  show ?thesis
  proof (cases "s3 \<ge> 16")
    case True
    then show ?thesis
      using False 1(1) 2(1) 3 r unfolding get_pair_def lut_def [symmetric] Let_def by (simp add: reader_ok_def)
  next
    case 6: False
    then show ?thesis
      using False 1(1) 2(1) 3(1) 4 5 wf5 r unfolding get_pair_def lut_def [symmetric] Let_def a_def b_def
      by (simp add: reader_ok_def and_mask16)
  qed
qed

lemma get_quantized_total:
  assumes "rd_wf bits"
  obtains ret xs sd bits' where "get_quantized bits dt sr nbytes nq lsb x0 = Some (ret, xs, sd, bits')"
    "rd_wf bits'" "length xs = length x0" "ret = 0 \<or> ret = -1"
proof -
  let ?r = "\<lparr>rd_ret = 0, rd_seed = 0, rd_state = 0, rd_x = x0, rd_bits = bits\<rparr>"
  let ?lk = "\<lambda>h. lc3_spectrum_lookup (of_bool (resolve_high_rate sr nbytes)) h"
  have "reader_ok (length x0) ?r" using assms by (simp add: reader_ok_def)
  then obtain r where "for_each (\<lambda>(h, i). get_pair (?lk h) lsb i) (spec_steps nq (LC3_NE dt (sr_int sr))) ?r = Some r"
    "reader_ok (length x0) r"
    by (rule for_each_invariant [where I = "reader_ok (length x0)", rotated])
      (use get_pair_total lc3_spectrum_lookup_bound(1) in \<open>auto split: prod.split\<close>)
  then show thesis using that by (simp add: get_quantized_def Let_def reader_ok_def)
qed

section \<open>The sizes of the buffers\<close>

lemma length_get_lsb: "get_lsb bits n x nq sd = (x', sd', bits') \<Longrightarrow> length x' = length x"
proof -
  have step: "length (fst (snd (get_lsb_value i st))) = length (fst (snd st))" for i st
    by (cases st) (simp add: get_lsb_value_def split: prod.split)
  let ?I = "\<lambda>st :: int \<times> f32 list \<times> int \<times> lc3_bits. length (fst (snd st)) = length x"
  have "?I (foldl (\<lambda>st i. case st of (nbits, x, sd, bits) \<Rightarrow>
      if nbits \<le> 0 \<or> f32_lt (f32_fmax (f32_abs (x ! i)) (f32_abs (x ! (i + 1)))) (f32_of_int 4) then st
      else get_lsb_value (i + 1) (get_lsb_value i st)) (n, x, sd, bits) (evens 0 nq))"
    by (rule foldl_invariant) (auto simp: step split: prod.split)
  moreover assume "get_lsb bits n x nq sd = (x', sd', bits')"
  ultimately show ?thesis unfolding get_lsb_def by (metis fst_conv)
qed

lemma length_get_residual: "get_residual bits n x nq = (x', bits') \<Longrightarrow> length x' = length x"
proof -
  let ?I = "\<lambda>st :: int \<times> f32 list \<times> lc3_bits. length (fst (snd st)) = length x"
  have "?I (foldl (\<lambda>(nbits, x, bits) i.
       if nbits > 0 \<and> \<not> f32_eq (x ! i) f32_0 then
         (case lc3_get_bit bits of (v, bits) \<Rightarrow> (nbits - 1, x[i := refine_value (v \<noteq> 0) (x ! i)], bits))
       else (nbits, x, bits)) (n, x, bits) [0 ..< nat nq])"
    by (rule foldl_invariant) (auto split: prod.split)
  moreover assume "get_residual bits n x nq = (x', bits')"
  ultimately show ?thesis unfolding get_residual_def by (metis fst_conv)
qed

lemma length_unquantize: "length (fst (unquantize dt sr g x nq)) = length x"
  unfolding unquantize_def Let_def fst_conv by (simp add: length_foldl)

lemma length_fill_noise: "length (fill_noise dt bw nf sd g x nq) = length x"
proof -
  have put: "length (snd (snd (noise_put w s st i))) = length (snd (snd st))" for w s st i
    by (cases st) (simp add: noise_put_def Let_def)
  let ?I = "\<lambda>st :: int \<times> int \<times> f32 list. length (snd (snd st)) = length x"
  have "?I (foldl (\<lambda>(z, nf_seed, x) i. noise_put w s (z + 1, nf_seed, x) i)
      (foldl (\<lambda>(z, nf_seed, x) i. noise_put w s (if \<not> f32_eq (x ! i) f32_0 then 0 else z + 1, nf_seed, x) i)
        (0, sd, x) is) js)" for w s "is" js
    by (intro foldl_invariant [where I = ?I]) (auto simp: put)
  then show ?thesis unfolding fill_noise_def Let_def by (simp add: case_prod_beta)
qed

lemma lc3_spec_decode_total:
  assumes "rd_wf bits"
  obtains ret xs bits' where "lc3_spec_decode bits dt sr bw nbytes side x = Some (ret, xs, bits')"
    "length xs = length x" "ret = 0 \<or> ret = -1"
proof -
  obtain nf b0 where nf: "get_noise_factor bits = (nf, b0)" by (cases "get_noise_factor bits")
  have wf: "rd_wf b0"
    using nf assms lc3_get_bits_wf(1) [OF assms, of 3] by (auto simp: get_noise_factor_def split: prod.splits)
  obtain ret xs sd b1 where q: "get_quantized b0 dt sr nbytes (side_nq side) (side_lsb_mode side) x = Some (ret, xs, sd, b1)"
    "length xs = length x" "ret = 0 \<or> ret = -1" using get_quantized_total [OF wf] by metis
  let ?t = "if side_lsb_mode side then get_lsb b1 (lc3_get_bits_left b1) xs (side_nq side) sd
      else (case get_residual b1 (lc3_get_bits_left b1) xs (side_nq side) of (x, bits) \<Rightarrow> (x, sd, bits))"
  obtain xs2 sd2 b2 where t: "?t = (xs2, sd2, b2)" by (cases ?t rule: prod_cases3)
  have l2: "length xs2 = length x"
    using t q(2) length_get_lsb length_get_residual by (auto split: if_splits prod.splits)
  show thesis
  proof (cases "ret < 0")
    case True
    then show thesis using that q nf by (simp add: lc3_spec_decode_def)
  next
    case False
    let ?u = "unquantize dt sr (side_g_idx side - resolve_gain_offset sr nbytes) xs2 (side_nq side)"
    obtain x3 g where u: "?u = (x3, g)" by (cases ?u)
    have "length x3 = length x" using length_unquantize [of dt sr _ xs2] u l2 by (metis fst_conv)
    then show thesis
      using that False q(3)
      unfolding lc3_spec_decode_def Let_def nf prod.case q(1) option.map if_not_P [OF False] t u
      by (simp add: length_fill_noise)
  qed
qed

lemma length_put_at: "i + length ys \<le> length xs \<Longrightarrow> length (put_at i ys xs) = length xs"
  by (simp add: put_at_def)

section \<open>The side data\<close>

lemma bwdet_get_total:
  assumes "valid_sr sr" "rd_wf bits" "lc3_bwdet_get_bw bits sr = (ret, bw, bits')"
  shows "rd_wf bits'" "ret = 0 \<or> ret = -1" "bw_valid sr bw"
proof -
  have n: "0 \<le> lc3_bwdet_get_nbits sr" "lc3_bwdet_get_nbits sr \<le> 3"
    using bwdet_nbits [OF assms(1), of 0] by (simp_all add: lc3_bwdet_get_nbits_def)
  have "0 \<le> sr_int sr" by (cases sr) simp_all
  moreover obtain v b where g: "lc3_get_bits bits (lc3_bwdet_get_nbits sr) = (v, b)" by (cases "lc3_get_bits bits (lc3_bwdet_get_nbits sr)")
  moreover have "rd_wf b" using lc3_get_bits_wf(1) [OF assms(2) n(1) _ g] n(2) by simp
  ultimately show "rd_wf bits'" "ret = 0 \<or> ret = -1" "bw_valid sr bw"
    using assms by (auto simp: lc3_bwdet_get_bw_def bw_valid_def LC3_BANDWIDTH_NB_def Let_def split: if_splits)
qed

lemma spec_side_get_total:
  assumes v: "valid_dt dt" "valid_sr sr" and wf: "rd_wf bits" and g: "lc3_spec_get_side bits dt sr = (ret, side, bits')"
  shows "rd_wf bits'" "ret = 0 \<or> ret = -1" "ret = 0 \<Longrightarrow> spec_side_valid dt sr side"
proof -
  note n = nbits_nq_enough [OF v]
  obtain v b1 where 1: "lc3_get_bits bits (get_nbits_nq dt sr) = (v, b1)" by (cases "lc3_get_bits bits (get_nbits_nq dt sr)")
  obtain l b2 where 2: "lc3_get_bit b1 = (l, b2)" by (cases "lc3_get_bit b1")
  obtain gi b3 where 3: "lc3_get_bits b2 8 = (gi, b3)" by (cases "lc3_get_bits b2 8")
  have w1: "rd_wf b1" "uint v < 2 ^ nat (get_nbits_nq dt sr)" using lc3_get_bits_wf(1,2) [OF wf n(1) _ 1] n(2) by simp_all
  have w2: "rd_wf b2" by (rule lc3_get_bit_wf [OF w1(1) 2])
  have w3: "rd_wf b3" "uint gi < 256" using lc3_get_bits_wf(1,2) [OF w2 _ _ 3] by simp_all
  define m where "m = uint (push_bit 1 (v + 1) :: u32)"
  have "(2::int) ^ nat (get_nbits_nq dt sr) \<le> 2 ^ 8" using n by (intro power_increasing) (simp_all add: nat_le_iff)
  then have "uint v < 256" using w1(2) by simp
  then have "uint (v + 1) = uint v + 1" by (subst uint_add32) simp_all
  then have m: "m = 2 * (uint v + 1)" using \<open>uint v < 256\<close>
    unfolding m_def uint_push_bit32 by simp
  have s: "lc3_spec_get_side bits dt sr = (if m > LC3_NE dt (sr_int sr)
      then (-1, \<lparr>side_g_idx = uint gi, side_nq = LC3_NE dt (sr_int sr), side_lsb_mode = l \<noteq> 0\<rparr>, b3)
      else (0, \<lparr>side_g_idx = uint gi, side_nq = m, side_lsb_mode = l \<noteq> 0\<rparr>, b3))"
    unfolding lc3_spec_get_side_def Let_def 1 prod.case 2 3 m_def by simp
  show "rd_wf bits'" "ret = 0 \<or> ret = -1" "ret = 0 \<Longrightarrow> spec_side_valid dt sr side"
    using g w3 m v unfolding s by (auto simp: spec_side_valid_def split: if_splits)
qed

lemma sns_get_total:
  assumes wf: "rd_wf bits" and g: "lc3_sns_get_data bits = (ret, d, bits')"
  shows "rd_wf bits'" "ret = 0 \<or> ret = -1" "ret = 0 \<Longrightarrow> sns_valid d"
proof -
  obtain lf b1 where 1: "lc3_get_bits bits 5 = (lf, b1)" by (cases "lc3_get_bits bits 5")
  obtain hf b2 where 2: "lc3_get_bits b1 5 = (hf, b2)" by (cases "lc3_get_bits b1 5")
  obtain s b3 where 3: "lc3_get_bits b2 1 = (s, b3)" by (cases "lc3_get_bits b2 1")
  obtain gn b4 where 4: "lc3_get_bits b3 (1 + uint s) = (gn, b4)" by (cases "lc3_get_bits b3 (1 + uint s)")
  obtain l b5 where 5: "lc3_get_bits b4 1 = (l, b5)" by (cases "lc3_get_bits b4 1")
  obtain m b6 where 6: "lc3_get_bits b5 (25 - uint s) = (m, b6)" by (cases "lc3_get_bits b5 (25 - uint s)")
  have w1: "rd_wf b1" "uint lf < 32" using lc3_get_bits_wf(1,2) [OF wf _ _ 1] by simp_all
  have w2: "rd_wf b2" "uint hf < 32" using lc3_get_bits_wf(1,2) [OF w1(1) _ _ 2] by simp_all
  have w3: "rd_wf b3" "uint s < 2" using lc3_get_bits_wf(1,2) [OF w2(1) _ _ 3] by simp_all
  have s: "uint s = 0 \<or> uint s = 1" using w3(2) uint_bound32(1) [of s] by linarith
  have w4: "rd_wf b4" "uint gn < 2 ^ nat (1 + uint s)" using lc3_get_bits_wf(1,2) [OF w3(1) _ _ 4] s by auto
  have w5: "rd_wf b5" using lc3_get_bits_wf(1) [OF w4(1) _ _ 5] by simp
  have w6: "rd_wf b6" using lc3_get_bits_wf(1) [OF w5 _ _ 6] s by auto
  note data = 1 2 3 4 5 6
  from g w6 show "rd_wf bits'" "ret = 0 \<or> ret = -1"
    unfolding lc3_sns_get_data_def lc3_get_bit_def Let_def data prod.case by (auto split: if_splits)
  define q where "q = uint m"
  define r where "r = \<lparr>sns_lfcb = uint lf, sns_hfcb = uint hf, sns_shape = 0, sns_gain = uint gn,
    sns_idx_a = 0, sns_idx_b = 0, sns_ls_a = (l \<noteq> 0), sns_ls_b = False\<rparr>"
  define h t where "h = q div 2390004" and "t = q mod 2390004"
  have q: "0 \<le> q" "0 \<le> uint gn" by (simp_all add: q_def)
  have lh: "0 \<le> uint lf" "uint lf < 32" "0 \<le> uint hf" "uint hf < 32" using w1 w2 by simp_all
  note get = g [unfolded lc3_sns_get_data_def lc3_get_bit_def Let_def data prod.case, folded q_def, folded r_def h_def t_def]
  have g2: "0 \<le> x mod 2" "x mod 2 < 2" for x :: int by simp_all
  show "sns_valid d" if z: "ret = 0"
    using s
  proof
    assume s0: "uint s = 0"
    then have gn: "uint gn < 2" using w4(2) by simp
    have lt: "q < 33460056" using get s0 z by (auto split: if_splits)
    then have dv: "0 \<le> h" "h < 14" using q(1) unfolding h_def by (simp_all only: div_less_iff_less_mult pos_imp_zdiv_nonneg_iff zero_less_numeral)
    have t: "0 \<le> t" "t < 2390004" by (simp_all add: t_def)
    show ?thesis
    proof (cases "h < 2")
      case True
      then have d: "d = r\<lparr>sns_idx_a := t, sns_shape := 1, sns_gain := push_bit 1 (uint gn) + h mod 2\<rparr>"
        using get s0 lt by (simp add: r_def)
      have "2 * uint gn + h mod 2 < 4" "0 \<le> 2 * uint gn + h mod 2"
        using g2 [of "h"] gn q(2) by linarith+
      then show ?thesis using lh t unfolding d r_def sns_valid_def
        by (simp add: sns_gains_def sns_size_a_def push_bit_eq_mult mult.commute)
    next
      case False
      then have d: "d = r\<lparr>sns_idx_a := t, sns_shape := 0, sns_idx_b := (h - 2) div 2,
          sns_ls_b := (h - 2) mod 2 \<noteq> 0\<rparr>"
        using get s0 lt by (simp add: r_def)
      have "(h - 2) div 2 < 6" "0 \<le> (h - 2) div 2" using dv False by linarith+
      then show ?thesis using lh gn q(2) t unfolding d r_def sns_valid_def by (simp add: sns_gains_def sns_size_a_def)
    qed
  next
    assume s1: "uint s = 1"
    then have gn: "uint gn < 4" using w4(2) by simp
    have lt: "q < 16708096" using get s1 z by (auto split: if_splits)
    show ?thesis
    proof (cases "q < 15158272")
      case True
      then have d: "d = r\<lparr>sns_shape := 2, sns_idx_a := q\<rparr>" using get s1 by (simp add: r_def)
      show ?thesis using lh gn q True unfolding d r_def sns_valid_def by (simp add: sns_gains_def sns_size_a_def)
    next
      case False
      then have d: "d = r\<lparr>sns_shape := 3, sns_idx_a := (q - 15158272) div 2,
          sns_gain := push_bit 1 (uint gn) + (q - 15158272) mod 2\<rparr>" using get s1 lt by (simp add: r_def)
      have "(q - 15158272) div 2 < 774912" "0 \<le> (q - 15158272) div 2" using lt False by linarith+
      moreover have "2 * uint gn + (q - 15158272) mod 2 < 8" "0 \<le> 2 * uint gn + (q - 15158272) mod 2"
        using g2 [of "q - 15158272"] gn q(2) by linarith+
      ultimately show ?thesis using lh unfolding d r_def sns_valid_def
        by (simp add: sns_gains_def sns_size_a_def push_bit_eq_mult mult.commute)
    qed
  qed
qed

end
