(* ===== verification/GainBound.thy ===== *)
theory GainBound
  imports SpecGain FloatOrder
begin

text \<open>
  The least gain that \<^verbatim>\<open>estimate_gain\<close> of \<^verbatim>\<open>spec.c\<close> lets through, bounded from the size of the
  coefficients: the range of the square root, of the division and of the rounding up, the
  greatest square of the spectrum, and the logarithm of the C library within its accuracy.
\<close>

section \<open>The numbers a rounding gives\<close>

lemma round_mant_range:
  assumes m: "0 \<le> m" and p: "0 < p" and r: "round_mant p emin m e st = (q, e')"
  shows "0 \<le> q" "q < 2 ^ nat p" "emin \<le> e'"
proof -
  have "q < 2 ^ nat p \<and> emin \<le> e'"
  proof (cases "m = 0")
    case True
    then show ?thesis using r by (auto simp: round_mant_def)
  next
    case False
    define E where "E = max (e + bit_length m - p) emin"
    define d where "d = E - e"
    have ml: "m < 2 ^ nat (bit_length m)" using m by (rule bit_length_less)
    show ?thesis
    proof (cases "d \<le> 0")
      case True
      then have q: "q = m * 2 ^ nat (- d)" "e' = E" using r False
        unfolding round_mant_def Let_def E_def [symmetric] d_def [symmetric] by simp_all
      have "q < 2 ^ nat (bit_length m) * 2 ^ nat (- d)" using ml q by simp
      also have "\<dots> = 2 ^ (nat (bit_length m) + nat (- d))" by (simp add: power_add)
      also have "\<dots> \<le> 2 ^ nat p" using True bit_length_nonneg [of m]
        by (intro power_increasing) (simp_all add: nat_add_distrib [symmetric] d_def E_def)
      finally show ?thesis using q by (simp add: E_def)
    next
      case d: False
      have "(2::int) ^ nat (bit_length m) \<le> 2 ^ (nat p + nat d)"
        using d p by (intro power_increasing) (simp_all add: d_def E_def)
      then have "m < 2 ^ nat p * 2 ^ nat d" using ml by (simp add: power_add)
      then have up: "m div 2 ^ nat d < 2 ^ nat p" 
        by (smt (verit) minus_mod_eq_div_mult mult_less_cancel_right pos_mod_sign zero_less_power)
      have "(2::int) ^ nat (p - 1) < 2 ^ nat p" using p by (intro power_strict_increasing) simp_all
      then show ?thesis using r False d up unfolding round_mant_def Let_def E_def [symmetric] d_def [symmetric]
        by (auto simp: E_def split: if_splits)
    qed
  qed
  then show "0 \<le> q" "q < 2 ^ nat p" "emin \<le> e'" using round_mant_nonneg [OF m, of p emin e st] r by simp_all
qed

lemma bound_powi: "-149 \<le> j \<Longrightarrow> j < 104 \<Longrightarrow> 0 \<le> k \<Longrightarrow> k \<le> 2 ^ 24 \<Longrightarrow> f32.bound (real_of_int k * 2 powi j)"
proof -
  assume j: "-149 \<le> j" "j < 104" and k: "0 \<le> k" "k \<le> 2 ^ 24"
  have "real_of_int k * 2 powi j \<le> 2 ^ 24 * 2 powi 103"
    using k j of_int_le_iff [of k "2 ^ 24", where 'a = real] by (intro mult_mono power_int_increasing) simp_all
  also have "\<dots> < 2 powi 128" by (simp add: power_int_def)
  finally show ?thesis using j k by (auto simp: f32.bound_def on_grid_def abs_mult)
qed

lemma bound_pow2 [simp]: "-149 \<le> j \<Longrightarrow> j < 104 \<Longrightarrow> f32.bound (2 powi j)"
  using bound_powi [of j 1] by simp

text \<open>The values that a square of a coefficient can have.\<close>

definition f32_sq :: "real \<Rightarrow> f32 \<Rightarrow> bool" where
  "f32_sq b x \<longleftrightarrow> (\<exists>m e. x = FFin False m e \<and> 0 \<le> m \<and> m < 2 ^ 24 \<and> -149 \<le> e \<and> f32_val x \<le> b)"

lemma f32_sq_fin: "f32_sq b x \<Longrightarrow> f32_fin x"
  by (auto simp: f32_sq_def)

lemma f32_mul_sq:
  assumes x: "f32_in (- b) b x" and b: "f32.bound (b * b)"
  shows "f32_sq (b * b) (f32_mul x x)"
proof -
  have f: "f32_fin x" and le: "\<bar>f32_val x\<bar> \<le> b" using x by (auto simp: f32_in_def)
  have "f32_val x * f32_val x \<le> b * b" using le abs_ge_zero order.trans mult_mono [OF le le] by (simp add: abs_mult [symmetric])
  then have r: "f32_in 0 (b * b) (f32_mul x x)" using f b by (intro f32.mul_in) simp_all
  obtain s m e where x1: "x = FFin s m e" "0 \<le> m" by (rule f32_fin_cases [OF f])
  obtain q e' where q: "round_mant 24 (-149) (m * m) (e + e) False = (q, e')" by fastforce
  have "f32_mul x x = FFin False q e'" using r q by (auto simp: x1 f32_round_def f32_in_def split: if_splits)
  then show ?thesis using round_mant_range [OF _ _ q] x1 r by (auto simp: f32_sq_def f32_in_def)
qed

lemma f32_fmax_sq: "f32_sq b x \<Longrightarrow> f32_sq b y \<Longrightarrow> f32_sq b (f32_fmax x y)"
  by (auto simp: f32_fmax_def)

lemma gain_block_sq:
  assumes x: "list_all (f32_in (- b) b) x" and b: "f32.bound (b * b)" and i: "4 * i + 3 < length x" and m: "f32_sq (b * b) (fst st)"
  shows "f32_sq (b * b) (fst (gain_block x st i))"
  using assms f32_mul_sq [OF _ b] unfolding gain_block_def Let_def
  by (auto simp: list_all_length intro!: f32_fmax_sq split: prod.split)

lemma gain_blocks_sq:
  assumes x: "list_all (f32_in (- b) b) x" and b: "f32.bound (b * b)" and n: "4 * n \<le> length x"
  shows "f32_sq (b * b) (fst (foldl (gain_block x) (f32_0, []) [0 ..< n]))"
  using n
proof (induction n)
  case 0
  have "0 \<le> b * b" by simp
  then show ?case by (simp add: f32_sq_def signed_def del: zero_le_square)
next
  case (Suc n)
  then show ?case using gain_block_sq [OF x b] by simp
qed

section \<open>The square root and the division\<close>

lemma f32_sqrt_in:
  assumes x: "f32_sq (b * b) x" "0 < f32_val x" and b: "f32.bound b" "0 \<le> b"
  shows "f32_in (2 powi (-76)) b (f32_sqrt x)"
proof -
  obtain m e where x1: "x = FFin False m e" "0 \<le> m" "m < 2 ^ 24" "-149 \<le> e" and le: "f32_val x \<le> b * b"
    using x(1) by (auto simp: f32_sq_def)
  have m: "0 < m" using x(2) x1 by (simp add: signed_def zero_less_mult_iff)
  have bl: "bit_length m \<le> 24" using bit_length_le [of m 24] x1 by simp
  define k where "k = (if even (e - (60 - bit_length m)) then 60 - bit_length m else 60 - bit_length m + 1)"
  define v where "v = m * 2 ^ nat k"
  define E where "E = (e - k) div 2"
  define r where "r = isqrt v"
  have k: "36 \<le> k" "even (e - k)" using bl by (simp_all add: k_def)
  have e: "e = 2 * E + k" using k by (simp add: E_def)
  have s: "f32_sqrt x = f32_round False r E (r * r \<noteq> v)"
    unfolding x1(1) f32_sqrt.simps Let_def k_def [symmetric] v_def [symmetric] E_def [symmetric] r_def [symmetric] using m by simp
  have p: "(2::real) powi E * 2 powi E = 2 powi (2 * E)" by (simp add: power_int_add [symmetric])
  have val: "f32_val x = real_of_int v * (2 powi E * 2 powi E)"
    using powi_split [of k "2 * E"] k by (simp add: x1(1) signed_def v_def p e)
  have v: "1 \<le> v" using m by (simp add: v_def int_one_le_iff_zero_less)
  have r: "0 \<le> r" "r * r \<le> v" "v < (r + 1) * (r + 1)" using isqrt_bounds [of v] v by (simp_all add: r_def)
  have r1: "1 \<le> r"
  proof (rule ccontr)
    assume "\<not> 1 \<le> r"
    then have "r = 0" using r(1) by simp
    then show False using r(3) v by simp
  qed
  have up: "real_of_int r * 2 powi E \<le> b"
  proof (rule power2_le_imp_le)
    have "(real_of_int r * 2 powi E)\<^sup>2 = real_of_int (r * r) * (2 powi E * 2 powi E)" by (simp add: power2_eq_square)
    also have "\<dots> \<le> f32_val x" unfolding val using r(2) by (intro mult_right_mono) (simp_all del: of_int_mult)
    finally show "(real_of_int r * 2 powi E)\<^sup>2 \<le> b\<^sup>2" using le by (simp add: power2_eq_square)
  qed (rule b)
  have lo: "2 powi (-76) \<le> real_of_int r * 2 powi E"
  proof (rule power2_le_imp_le)
    have "(2::real) powi (-149) \<le> 2 powi e" using x1 by (intro power_int_increasing) simp_all
    also have "\<dots> \<le> f32_val x" using m x1 by (simp add: signed_def)
    also have "\<dots> \<le> real_of_int (4 * (r * r)) * (2 powi E * 2 powi E)" unfolding val
    proof (rule mult_right_mono)
      have "(r + 1) * (r + 1) \<le> (2 * r) * (2 * r)" using r1 by (intro mult_mono) simp_all
      then have "v \<le> 4 * (r * r)" using r(3) by simp
      then show "real_of_int v \<le> real_of_int (4 * (r * r))" by (simp only: of_int_le_iff)
    qed simp
    also have "\<dots> = 4 * (real_of_int r * 2 powi E)\<^sup>2" by (simp add: power2_eq_square)
    finally have "(2::real) powi (-149) / 4 \<le> (real_of_int r * 2 powi E)\<^sup>2" by simp
    moreover have "((2::real) powi (-76))\<^sup>2 \<le> 2 powi (-149) / 4" by (simp add: power_int_def power2_eq_square power_one_over)
    ultimately show "((2::real) powi (-76))\<^sup>2 \<le> (real_of_int r * 2 powi E)\<^sup>2" by simp
  next
    show "0 \<le> real_of_int r * (2::real) powi E" using r by simp
  qed
  show ?thesis unfolding s by (rule f32.rnd_in [OF r(1) bound_pow2 _ b(1)]) (use up lo in \<open>simp_all add: signed_def\<close>)
qed

lemma f32_div_in:
  assumes x: "f32_fin x" "0 < f32_val x" and y: "f32_fin y" "f32_val y = d" "0 < d" "y = FFin False m2 e2" "m2 \<le> 2 ^ 50"
    and a: "f32.bound a" "2 * a * d \<le> f32_val x" and b: "f32.bound b" "f32_val x \<le> b * d"
  shows "f32_in a b (f32_div x y)"
proof -
  obtain s1 m1 e1 where x1: "x = FFin s1 m1 e1" "0 \<le> m1" by (rule f32_fin_cases [OF x(1)])
  have m1: "0 < m1" "\<not> s1" using x x1 by (auto simp: signed_def zero_less_mult_iff mult_less_0_iff dest: order.asym split: if_splits)
  have m2: "0 < m2" "d = real_of_int m2 * 2 powi e2" using y by (auto simp: signed_def zero_less_mult_iff)
  define q where "q = m1 * 2 ^ 50 div m2"
  define E where "E = e1 - e2 - 50"
  have s: "f32_div x y = f32_round False q E (m1 * 2 ^ 50 mod m2 \<noteq> 0)"
    using m1 m2 by (simp add: x1 y(4) q_def E_def)
  have "(2::real) powi e1 = 2 powi (E + e2 + 50)" by (simp add: E_def)
  also have "\<dots> = 2 powi (E + e2) * 2 ^ 50" by (subst powi_split) simp_all
  also have "\<dots> = 2 powi E * 2 powi e2 * 2 ^ 50" by (simp add: power_int_add)
  finally have e1: "(2::real) powi e1 = 2 powi E * 2 powi e2 * 2 ^ 50" .
  have val: "f32_val x = real_of_int (m1 * 2 ^ 50) * (2 powi E * 2 powi e2)" using m1 by (simp add: x1(1) signed_def e1)
  have d: "0 < 2 powi E * (2::real) powi e2" by simp
  have q1: "q * m2 \<le> m1 * 2 ^ 50" "m1 * 2 ^ 50 < (q + 1) * m2"
    unfolding q_def using pos_mod_sign [OF m2(1), of "m1 * 2 ^ 50"] pos_mod_bound [OF m2(1), of "m1 * 2 ^ 50"]
      div_mult_mod_eq [of "m1 * 2 ^ 50" m2] by (simp_all only: distrib_right)
  have "1 * 2 ^ 50 \<le> m1 * 2 ^ 50" using m1 by (intro mult_right_mono) simp_all
  then have "1 * m2 \<le> m1 * 2 ^ 50" using y(5) by simp
  then have "1 \<le> q" unfolding q_def using m2(1) by (simp add: pos_imp_zdiv_pos_iff int_one_le_iff_zero_less)
  then have "(q + 1) * m2 \<le> (2 * q) * m2" using m2(1) by (intro mult_right_mono) simp_all
  then have "m1 * 2 ^ 50 \<le> (2 * q) * m2" using q1(2) by linarith
  then have q2: "m1 * 2 ^ 50 \<le> 2 * (q * m2)" by (simp only: mult.assoc)
  have qd: "real_of_int (q * m2) * (2 powi E * 2 powi e2) = (real_of_int q * 2 powi E) * d" by (simp add: m2(2))
  have "(real_of_int q * 2 powi E) * d \<le> b * d"
    using mult_right_mono [of "real_of_int (q * m2)" "real_of_int (m1 * 2 ^ 50)" "2 powi E * 2 powi e2"] q1(1) b(2) d
    unfolding qd [symmetric] val of_int_le_iff by linarith
  then have up: "real_of_int q * 2 powi E \<le> b" using y(3) by simp
  have "f32_val x \<le> real_of_int (2 * (q * m2)) * (2 powi E * 2 powi e2)" unfolding val
    by (rule mult_right_mono) (use q2 d in \<open>simp_all only: of_int_le_iff order.strict_implies_order\<close>)
  also have "\<dots> = 2 * (real_of_int (q * m2) * (2 powi E * 2 powi e2))" by simp
  also have "\<dots> = 2 * (real_of_int q * 2 powi E) * d" unfolding qd by simp
  finally have "f32_val x \<le> 2 * (real_of_int q * 2 powi E) * d" .
  then have "2 * a * d \<le> 2 * (real_of_int q * 2 powi E) * d" using a(2) by simp
  then have lo: "a \<le> real_of_int q * 2 powi E" using y(3) by simp
  show ?thesis unfolding s by (rule f32.rnd_in) (use \<open>1 \<le> q\<close> up lo a b in \<open>simp_all add: signed_def\<close>)
qed

section \<open>The least gain\<close>

lemma f32_to_int_ceil_le:
  assumes z: "f32_fin z" "f32_val z \<le> real_of_int n" and n: "0 \<le> n" "n \<le> 2 ^ 24"
  shows "f32_to_int (f32_ceil z) \<le> n"
proof -
  obtain s m e where z1: "z = FFin s m e" "0 \<le> m" by (rule f32_fin_cases [OF z(1)])
  define v where "v = signed (\<not> s) m div 2 ^ nat (- e)"
  show ?thesis
  proof (cases "0 \<le> e")
    case True
    then have "f32_val z = real_of_int (signed s (m * 2 ^ nat e))" using powi_split [of e 0] by (simp add: z1 signed_def)
    then show ?thesis using z(2) True by (simp add: z1 f32_ceil_def)
  next
    case e: False
    then have c: "f32_ceil z = (if v = 0 then FFin s 0 (-149) else f32_neg (f32_of_int v))"
      by (simp add: z1 f32_ceil_def v_def)
    consider "v = 0" | "0 < v" | "v < 0" by linarith
    then show ?thesis
    proof cases
      case 1
      then show ?thesis using n by (simp add: c signed_def)
    next
      case 2
      obtain q e' where r: "round_mant 24 (-149) v 0 False = (q, e')" by fastforce
      have q: "0 \<le> q" using round_mant_range [OF _ _ r] 2 by simp
      have "f32_to_int (f32_neg (f32_of_int v)) \<le> 0" using q 2
        by (simp add: f32_of_int_def f32_round_def r signed_def pos_imp_zdiv_nonneg_iff)
      then show ?thesis using 2 n by (simp add: c)
    next
      case 3
      have p: "(2::real) powi e = 1 / 2 ^ nat (- e)" using e by (simp add: power_int_def power_one_over)
      have "real_of_int (signed s m) \<le> real_of_int (n * 2 ^ nat (- e))"
        using z(2) by (simp add: z1 p divide_le_eq)
      then have "(- n) * 2 ^ nat (- e) \<le> signed (\<not> s) m" by (simp only: of_int_le_iff) (simp add: signed_def split: if_splits)
      then have v: "- n \<le> v" unfolding v_def using zdiv_mono1 [of "(- n) * 2 ^ nat (- e)" _ "2 ^ nat (- e)"]
        by (metis nonzero_mult_div_cancel_right power_not_zero zero_less_numeral zero_less_power zero_neq_numeral)
      have i: "f32_in (real_of_int (- n)) 0 (f32_of_int v)"
        using n v 3 by (intro f32_of_int_in f32.bound_int) simp_all
      have f: "f32_fin (f32_neg (f32_of_int v))" "0 \<le> f32_val (f32_neg (f32_of_int v))" "f32_val (f32_neg (f32_of_int v)) \<le> real_of_int n"
        using i by (simp_all add: f32_in_def)
      show ?thesis using 3 f32_to_int_val [OF f(1,2)] f(3) by (simp add: c floor_le_iff)
    qed
  qed
qed

lemma log10_power_le: "0 < x \<Longrightarrow> x ^ m \<le> 10 ^ n \<Longrightarrow> real m * log 10 x \<le> real n"
proof -
  assume x: "0 < x" "x ^ m \<le> 10 ^ n"
  then have "log 10 (x ^ m) \<le> log 10 (10 ^ n)" by (subst log_le_cancel_iff) simp_all
  then show ?thesis using x log_pow_cancel [of 10 n] by (simp add: log_nat_power)
qed

lemma log10_2: "log 10 2 \<le> 9 / 28"
  using log10_power_le [of 2 28 9] by simp

lemma log10_near_1: "log 10 (65537 / 65536) \<le> 1 / 50"
proof -
  have "50 * log 10 (51 / 50) \<le> 1" using log10_power_le [of "51 / 50" 50 1] by (simp add: power_divide)
  moreover have "log 10 (65537 / 65536) \<le> log 10 (51 / 50)" by (subst log_le_cancel_iff) simp_all
  ultimately show ?thesis by linarith
qed

text \<open>The accuracy the C library gives its logarithm, much coarser than the documented one.\<close>

definition log10f_ok :: "(f32 \<Rightarrow> f32) \<Rightarrow> bool" where
  "log10f_ok f \<longleftrightarrow> (\<forall>y. f32_fin y \<longrightarrow> 0 < f32_val y \<longrightarrow> f32_fin (f y) \<and> \<bar>f32_val (f y) - log 10 (f32_val y)\<bar> \<le> 1 / 100)"

lemma peak_const: "f32_sub (f32_of_int 32768) (f32_lit 375 (-3)) = FFin False 16777024 (-9)"
  by code_simp

lemma least_gain:
  assumes l: "log10f_ok log10f" and k: "0 \<le> k" "k < 48"
    and m: "f32_sq (2 powi (15 + k) * 2 powi (15 + k)) m" "\<not> f32_eq m f32_0"
  shows "f32_to_int (f32_ceil (f32_mul (f32_of_int 28) (log10f
    (f32_div (f32_sqrt m) (f32_sub (f32_of_int 32768) (f32_lit 375 (-3))))))) \<le> 9 * k + 1"
proof -
  let ?y = "f32_div (f32_sqrt m) (f32_sub (f32_of_int 32768) (f32_lit 375 (-3)))"
  let ?b = "real_of_int 65537 * 2 powi (k - 16)"
  have z: "f32_fin f32_0" "f32_val f32_0 = 0" by (simp_all add: signed_def)
  have "0 \<le> f32_val m" "f32_val m \<noteq> 0" using m f32_eq_val [OF f32_sq_fin [OF m(1)] z(1)] z(2) by (auto simp: f32_sq_def signed_def)
  then have s: "f32_in (2 powi (-76)) (2 powi (15 + k)) (f32_sqrt m)" using m(1) k by (intro f32_sqrt_in) simp_all
  have s0: "0 < f32_val (f32_sqrt m)" using s powi_pos [of "-76"] unfolding f32_in_def by linarith
  have c: "f32_val (FFin False 16777024 (-9)) = 16777024 / 512" by (simp add: signed_def power_int_def power_one_over)
  have "(2::real) powi (15 + k) \<le> ?b * (16777024 / 512)"
    using powi_split [of 31 "k - 16"] by (simp add: mult.commute)
  then have up': "f32_val (f32_sqrt m) \<le> ?b * (16777024 / 512)" using s unfolding f32_in_def by linarith
  have "2 * 2 powi (-100) * (16777024 / 512) \<le> (2::real) powi (-76)" by (simp add: power_int_def power_one_over)
  then have lo': "2 * 2 powi (-100) * (16777024 / 512) \<le> f32_val (f32_sqrt m)" using s unfolding f32_in_def by linarith
  have "f32.bound ?b" using k by (intro bound_powi) simp_all
  then have y: "f32_in (2 powi (-100)) ?b ?y"
    unfolding peak_const
    using f32_div_in [OF f32_in_fin [OF s] s0 _ c _ refl _ bound_pow2 lo' _ up'] by simp
  have y0: "0 < f32_val ?y" using y powi_pos [of "-100"] unfolding f32_in_def by linarith
  define l where "l = f32_val (log10f ?y)"
  have lg: "f32_fin (log10f ?y)" "\<bar>l - log 10 (f32_val ?y)\<bar> \<le> 1 / 100"
    using l f32_in_fin [OF y] y0 unfolding log10f_ok_def l_def by blast+
  have "log 10 (f32_val ?y) \<le> log 10 ?b" using y y0 by (subst log_le_cancel_iff) (simp_all add: f32_in_def)
  also have "?b = 65537 / 65536 * 2 ^ nat k" using powi_split [of k "-16"] k by (simp add: power_int_def power_one_over)
  also have "log 10 \<dots> = log 10 (65537 / 65536) + real (nat k) * log 10 2" by (subst log_mult) (simp_all add: log_nat_power)
  also have "\<dots> \<le> 1 / 50 + real (nat k) * (9 / 28)" using log10_near_1 log10_2 by (intro add_mono mult_left_mono) simp_all
  finally have lu: "log 10 (f32_val ?y) \<le> 1 / 50 + real_of_int k * 9 / 28" using k by simp
  have "real 100 * log 10 (1 / 2) = log 10 (2 powi (-100))"
    using log_nat_power [of "1 / 2" 10 100] by (simp add: power_int_def)
  also have "\<dots> \<le> log 10 (f32_val ?y)" using y y0 by (subst log_le_cancel_iff) (simp_all only: f32_in_def powi_pos)
  finally have ll: "-33 \<le> log 10 (f32_val ?y)" using log10_2 by (simp add: log_divide)
  have v28: "f32_in 28 28 (f32_of_int 28)" using f32_of_int_in [of 28 28 28] f32.bound_int [of 28] by simp
  have n: "f32.bound (real_of_int (9 * k + 1))" "f32.bound (real_of_int (-1000))" using k by (intro f32.bound_int; simp)+
  have e28: "f32_fin (f32_of_int 28)" "f32_val (f32_of_int 28) = 28" using v28 by (auto simp: f32_in_def)
  have b28: "-1000 \<le> 28 * l" "28 * l \<le> 9 * real_of_int k + 1" using lg(2) lu ll unfolding abs_le_iff by linarith+
  have "f32_in (real_of_int (-1000)) (real_of_int (9 * k + 1)) (f32_mul (f32_of_int 28) (log10f ?y))"
    using b28 by (intro f32.mul_in e28 lg(1) n) (simp_all add: e28 l_def [symmetric])
  then show ?thesis using k by (intro f32_to_int_ceil_le) (simp_all add: f32_in_def)
qed

end
