(* ===== verification/SpecProps.thy ===== *)
theory SpecProps
  imports DecodeTotal GainBound
begin

text \<open>
  The analysis of the spectrum: the gain, the quantised coefficients and their count. What it
  gives is what the encoding of the frame takes.
\<close>

section \<open>Quantised values\<close>

lemma f32_to_int_bound:
  assumes "0 \<le> m" "\<not> f32_lt (f32_of_int 32767) (FFin False m e)"
  shows "0 \<le> f32_to_int (FFin False m e)" "f32_to_int (FFin False m e) \<le> 32767"
proof -
  have c: "f32_of_int 32767 = FFin False 16776704 (-9)" by code_simp
  define E where "E = min (-9) e"
  have le: "m * 2 ^ nat (e - E) \<le> 16776704 * 2 ^ nat (-9 - E)"
    using assms(2) by (simp add: c Let_def signed_def E_def not_less)
  show "0 \<le> f32_to_int (FFin False m e)" using assms(1) by (simp add: signed_def pos_imp_zdiv_nonneg_iff)
  have p: "(16776704 :: int) = 32767 * 2 ^ 9" by simp
  show "f32_to_int (FFin False m e) \<le> 32767"
  proof (cases "e \<ge> 0")
    case True
    then have "nat (e - E) = nat e + 9" "nat (-9 - E) = 0" by (simp_all add: E_def)
    then have "m * 2 ^ nat e * 2 ^ 9 \<le> 32767 * 2 ^ 9" using le unfolding p by (simp only: power_add power_0 mult_1_right mult.assoc)
    then show ?thesis using True by (simp add: signed_def)
  next
    case False
    define k where "k = nat (- e)"
    have "m \<le> 32767 * 2 ^ k"
    proof (cases "e \<ge> -9")
      case True
      then have "nat (e - E) + k = 9" "nat (-9 - E) = 0" using False by (simp_all add: E_def k_def)
      then have "m * 2 ^ nat (e - E) \<le> 32767 * 2 ^ k * 2 ^ nat (e - E)"
        using le unfolding p by (simp add: power_add [symmetric] mult.assoc add.commute flip: power_add)
      then show ?thesis by simp
    next
      case small: False
      then have "nat (e - E) = 0" "9 + nat (-9 - E) = k" by (simp_all add: E_def k_def)
      then show ?thesis using le unfolding p by (metis mult.assoc mult_1_right power_0 power_add)
    qed
    then have "m div 2 ^ k \<le> 32767 * 2 ^ k div 2 ^ k" by (rule zdiv_mono1) simp
    then show ?thesis using False by (simp add: signed_def k_def)
  qed
qed

lemma quant_abs_bound:
  assumes "f32_wf v"
  shows "uint (quant_abs v) \<le> 32767"
proof -
  define c where "c = f32_div (f32_lit 6 0) (f32_of_int 16)"
  have cc: "c = FFin False 12582912 (-25)" unfolding c_def by code_simp
  define y where "y = f32_add (f32_abs v) c"
  define z where "z = f32_fmin y (f32_of_int 32767)"
  have k: "f32_to_int (f32_of_int 32767) = 32767" by code_simp
  have "0 \<le> f32_to_int z \<and> f32_to_int z \<le> 32767"
  proof (cases "z = f32_of_int 32767")
    case True
    then show ?thesis using k by simp
  next
    case False
    then have z: "z = y" "y \<noteq> FNan" "\<not> f32_lt (f32_of_int 32767) y" by (auto simp: z_def f32_fmin_def split: if_splits)
    have "f32_of_int 32767 = FFin False 16776704 (-9)" by code_simp
    then have i: "y \<noteq> FInf False" using z(3) by auto
    show ?thesis
    proof (cases v)
      case (FFin s m e)
      define V where "V = m * 2 ^ nat (e - min e (-25)) + 12582912 * 2 ^ nat (-25 - min e (-25))"
      have "0 \<le> V" using assms FFin by (simp add: V_def)
      moreover have "0 < (12582912 :: int) * 2 ^ nat (-25 - min e (-25))" by simp
      moreover have "0 \<le> m * 2 ^ nat (e - min e (-25))" using assms FFin by simp
      ultimately have V: "0 < V" unfolding V_def by linarith
      have "y = f32_round False V (min e (-25)) False"
        using V FFin by (simp add: y_def cc Let_def signed_def V_def)
      then obtain q e' where q: "y = FFin False q e'" "0 \<le> q"
        using f32_round_finite [of V False "min e (-25)" False] i V by (metis less_imp_le)
      then show ?thesis using f32_to_int_bound [OF q(2)] z by metis
    qed (use z i in \<open>simp_all add: y_def cc\<close>)
  qed
  then show ?thesis
    by (simp add: quant_abs_def z_def y_def c_def uint_word_of_int)
qed

lemma quant_store_props:
  assumes "f32_wf v"
  shows "quant_store v = 0 \<longleftrightarrow> quant_abs v = 0" "quant_store v \<noteq> 1"
proof -
  define q where "q = quant_abs v"
  define b :: "16 word" where "b = of_bool (q > 0 \<and> f32_lt v f32_0)"
  have q: "uint q \<le> 32767" unfolding q_def by (rule quant_abs_bound [OF assms])
  have p: "uint (push_bit 1 q) = 2 * uint q"
    using q by (simp add: push_bit_eq_mult uint_word_ariths)
  have b: "uint b = of_bool (q > 0 \<and> f32_lt v f32_0)" by (simp add: b_def)
  have s: "uint (quant_store v) = 2 * uint q + of_bool (q > 0 \<and> f32_lt v f32_0)"
  proof -
    have "uint (push_bit 1 q + b) = uint (push_bit 1 q) + uint b"
      using p b q by (subst uint_add_lem [THEN iffD1]) (auto simp: of_bool_def)
    then show ?thesis unfolding p b by (simp add: quant_store_def q_def [symmetric] b_def)
  qed
  have g: "q > 0 \<longleftrightarrow> 0 < uint q" by (simp add: word_less_def)
  have z: "w = 0 \<longleftrightarrow> uint w = 0" "w = 1 \<longleftrightarrow> uint w = 1" for w :: "16 word"
    by (simp_all add: word_uint_eq_iff)
  have "0 \<le> uint q" by simp
  then show "quant_store v = 0 \<longleftrightarrow> quant_abs v = 0" "quant_store v \<noteq> 1"
    unfolding z s q_def [symmetric] g by (auto simp: of_bool_def split: if_splits; presburger)+
qed

section \<open>The gain\<close>

lemma iq_table_wf: "i < 65 \<Longrightarrow> f32_wf (iq_table ! i)"
  using f32_dec_wf by (simp add: iq_table_def nth_Cons' del: f32_dec_def)

lemma unquantize_gain_wf: "f32_wf (unquantize_gain g)"
proof -
  have "0 \<le> LC3_ABS g AND 0x3f" "LC3_ABS g AND 0x3f \<le> 0x3f" by (simp_all add: AND_upper2 LC3_ABS_def)
  then have "f32_wf (iq_table ! nat (LC3_ABS g AND 0x3f))" by (intro iq_table_wf) linarith
  then have "f32_wf (((\<lambda>g. f32_mul g (iq_table ! 64)) ^^ k) (iq_table ! nat (LC3_ABS g AND 0x3f)))" for k
    by (induction k) (simp_all add: f32_mul_wf iq_table_wf)
  then show ?thesis unfolding unquantize_gain_def Let_def
    by (split if_split) (blast intro: f32_div_wf f32_of_int_wf)
qed

lemma gain_search_bounds: "g - 255 \<le> gain_search e nbits g ne" "gain_search e nbits g ne \<le> g"
proof -
  have step: "fst st - i \<le> fst (gain_step e nbits st i) \<and> fst (gain_step e nbits st i) \<le> fst st" if "0 \<le> i" for st i
    using that by (cases st) (simp add: gain_step_def Let_def)
  have "fst st - sum_list xs \<le> fst (foldl (gain_step e nbits) st xs) \<and> fst (foldl (gain_step e nbits) st xs) \<le> fst st"
    if "list_all ((\<le>) 0) xs" for st xs
    using that
  proof (induction xs arbitrary: st)
    case (Cons i xs)
    have "fst (gain_step e nbits st i) - sum_list xs \<le> fst (foldl (gain_step e nbits) (gain_step e nbits st i) xs)"
      "fst (foldl (gain_step e nbits) (gain_step e nbits st i) xs) \<le> fst (gain_step e nbits st i)"
      using Cons by simp_all
    moreover have "0 \<le> i" using Cons.prems by simp
    ultimately show ?case using step [of i st] by simp
  qed simp
  from this [of "[128, 64, 32, 16, 8, 4, 2, 1]" "(g, ne)"]
  show "g - 255 \<le> gain_search e nbits g ne" "gain_search e nbits g ne \<le> g" by (simp_all add: gain_search_def)
qed

lemma estimate_gain_lower: "- g_off \<le> fst (estimate_gain log10f dt sr x nb no g_off)"
proof -
  have low: "- g_off \<le> gain_search e n (255 - g_off) ne" for e n ne
    using gain_search_bounds(1) [of "255 - g_off" e n ne] by simp
  show ?thesis
  proof (cases "foldl (gain_block x) (f32_0, []) [0 ..< nat (drop_bit 2 (LC3_NE dt (sr_int sr)))]")
    case (Pair m e)
    define gs where "gs = gain_search e (f32_to_int (f32_add (f32_add (f32_of_int nb) no) (f32_lit 5 (-1)))) (255 - g_off)
      (nat (drop_bit 2 (LC3_NE dt (sr_int sr))))"
    define gm where "gm = (if f32_eq m f32_0 then - g_off else f32_to_int (f32_ceil (f32_mul (f32_of_int 28)
      (log10f (f32_div (f32_sqrt m) (f32_sub (f32_of_int 32768) (f32_lit 375 (-3))))))))"
    have "fst (estimate_gain log10f dt sr x nb no g_off) = (if gs < gm \<or> f32_eq m f32_0 then gm else gs)"
      by (simp only: estimate_gain_def Let_def Pair prod.case gs_def gm_def fst_conv)
    moreover have "- g_off \<le> gs" unfolding gs_def by (rule low)
    moreover have "f32_eq m f32_0 \<Longrightarrow> gm = - g_off" by (simp add: gm_def)
    ultimately show ?thesis by (simp split: if_splits)
  qed
qed

lemma resolve_gain_offset_nonneg: "0 \<le> nbytes \<Longrightarrow> 0 \<le> resolve_gain_offset sr nbytes"
  by (cases sr) (auto simp: resolve_gain_offset_def Let_def cdiv_nonneg min_def pos_imp_zdiv_nonneg_iff)

lemma estimate_gain_upper:
  assumes l: "log10f_ok log10f" and k: "0 \<le> k" "9 * k + 1 \<le> 255 - g_off" "0 \<le> g_off"
    and x: "list_all (f32_in (- (2 powi (15 + k))) (2 powi (15 + k))) x" and len: "LC3_NE dt (sr_int sr) \<le> int (length x)"
  shows "fst (estimate_gain log10f dt sr x nb no g_off) \<le> 255 - g_off"
proof (cases "foldl (gain_block x) (f32_0, []) [0 ..< nat (drop_bit 2 (LC3_NE dt (sr_int sr)))]")
  case (Pair m e)
  have n: "4 * nat (drop_bit 2 (LC3_NE dt (sr_int sr))) \<le> length x" using len by (simp add: drop_bit_eq_div)
  have "f32.bound (2 powi ((15 + k) + (15 + k)))" using k by (intro bound_pow2) simp_all
  then have "f32.bound (2 powi (15 + k) * 2 powi (15 + k))" by (subst power_int_add [symmetric]) simp_all
  then have "f32_sq (2 powi (15 + k) * 2 powi (15 + k)) m"
    using gain_blocks_sq [OF x _ n] unfolding Pair fst_conv by blast
  then have "\<not> f32_eq m f32_0 \<Longrightarrow> f32_to_int (f32_ceil (f32_mul (f32_of_int 28) (log10f
      (f32_div (f32_sqrt m) (f32_sub (f32_of_int 32768) (f32_lit 375 (-3))))))) \<le> 255 - g_off"
    using least_gain [OF l k(1), of m] k by fastforce
  then show ?thesis
    unfolding estimate_gain_def Let_def Pair prod.case fst_conv using gain_search_bounds(2) by (simp split: if_split)
qed

lemma adjust_gain_bounds:
  assumes "0 \<le> g" "g \<le> 255"
  shows "0 \<le> g + adjust_gain sr g nbits budget" "g + adjust_gain sr g nbits budget \<le> 255"
  using assms by (simp_all add: adjust_gain_def Let_def of_bool_def)

section \<open>The quantised spectrum\<close>

text \<open>
  The count after \<open>k\<close> pairs: \<open>ne\<close> less two for each of the \<open>t\<close> pairs of zeros that come last.
\<close>

definition quant_done :: "int \<Rightarrow> nat \<Rightarrow> f32 list \<times> u16 list \<times> int \<Rightarrow> bool" where
  "quant_done ne k st = (case st of (x, xq, nq) \<Rightarrow>
     int (length x) \<ge> ne \<and> int (length xq) \<ge> ne \<and> list_all f32_wf x \<and> (\<forall>j < 2 * k. xq ! j \<noteq> 1) \<and>
     (\<exists>t \<le> k. nq = ne - 2 * int t \<and> (\<forall>j. 2 * (k - t) \<le> j \<longrightarrow> j < 2 * k \<longrightarrow> xq ! j = 0) \<and>
       (t < k \<longrightarrow> xq ! (2 * (k - t - 1)) \<noteq> 0 \<or> xq ! (2 * (k - t - 1) + 1) \<noteq> 0)))"

lemma quantize_spec:
  assumes ne: "LC3_NE dt (sr_int sr) = 2 * int N" and len: "2 * N \<le> length x" "2 * N \<le> length xq"
    and wf: "list_all f32_wf x"
  shows "quant_done (2 * int N) N (quantize dt sr g (x, xq))"
proof -
  define gi where "gi = f32_div (f32_of_int 1) (unquantize_gain g)"
  have gi: "f32_wf gi" by (simp add: gi_def f32_div_wf unquantize_gain_wf)
  define f where "f = (\<lambda>(x, xq, nq) i.
           let x = x[i := f32_mul (x ! i) gi];
               x = x[i + 1 := f32_mul (x ! (i + 1)) gi];
               x0 = quant_abs (x ! i);
               x1 = quant_abs (x ! (i + 1));
               xq = xq[i := quant_store (x ! i), i + 1 := quant_store (x ! (i + 1))]
           in (x, xq, if x0 \<noteq> 0 \<or> x1 \<noteq> 0 then 2 * int N else nq - 2))"
  have step: "quant_done (2 * int N) (Suc k) (f st (2 * k))" if q: "quant_done (2 * int N) k st" and k: "k < N" for st k
  proof -
    obtain x xq nq where st: "st = (x, xq, nq)" by (cases st rule: prod_cases3)
    obtain t where t: "t \<le> k" "nq = 2 * int N - 2 * int t" "\<And>j. 2 * (k - t) \<le> j \<Longrightarrow> j < 2 * k \<Longrightarrow> xq ! j = 0"
      "t < k \<Longrightarrow> xq ! (2 * (k - t - 1)) \<noteq> 0 \<or> xq ! (2 * (k - t - 1) + 1) \<noteq> 0"
      and l: "2 * N \<le> length x" "2 * N \<le> length xq" "list_all f32_wf x" and one: "\<And>j. j < 2 * k \<Longrightarrow> xq ! j \<noteq> 1"
      using q by (auto simp: quant_done_def st)
    define a b where "a = f32_mul (x ! (2 * k)) gi" and "b = f32_mul (x ! (2 * k + 1)) gi"
    have i: "2 * k < length x" "2 * k + 1 < length x" "2 * k < length xq" "2 * k + 1 < length xq" using k l by linarith+
    have ab: "f32_wf a" "f32_wf b" using l(3) i gi by (simp_all add: a_def b_def f32_mul_wf list_all_length)
    note sa = quant_store_props [OF ab(1)] quant_store_props [OF ab(2)]
    define y where "y = xq[2 * k := quant_store a, 2 * k + 1 := quant_store b]"
    define nq' where "nq' = (if quant_abs a \<noteq> 0 \<or> quant_abs b \<noteq> 0 then 2 * int N else nq - 2)"
    have e: "f st (2 * k) = (x[2 * k := a, 2 * k + 1 := b], y, nq')"
      using i by (simp add: f_def st Let_def a_def b_def y_def nq'_def)
    have y: "y ! (2 * k) = quant_store a" "y ! (2 * k + 1) = quant_store b" "\<And>j. j < 2 * k \<Longrightarrow> y ! j = xq ! j"
      using i by (simp_all add: y_def)
    have y1: "y ! j \<noteq> 1" if "j < 2 * Suc k" for j
      using that y sa one by (cases "j < 2 * k") (auto simp: less_Suc_eq)
    have wf: "list_all f32_wf (x[2 * k := a, 2 * k + 1 := b])"
      using l(3) ab i by (auto simp: list_all_length nth_list_update)
    define t' where "t' = (if quant_abs a \<noteq> 0 \<or> quant_abs b \<noteq> 0 then 0 else Suc t)"
    have fin: "t' \<le> Suc k \<and> nq' = 2 * int N - 2 * int t' \<and>
       (\<forall>j. 2 * (Suc k - t') \<le> j \<longrightarrow> j < 2 * Suc k \<longrightarrow> y ! j = 0) \<and>
       (t' < Suc k \<longrightarrow> y ! (2 * (Suc k - t' - 1)) \<noteq> 0 \<or> y ! (2 * (Suc k - t' - 1) + 1) \<noteq> 0)"
    proof (cases "quant_abs a \<noteq> 0 \<or> quant_abs b \<noteq> 0")
      case True
      then show ?thesis using y sa by (simp add: t'_def nq'_def)
    next
      case False
      have "y ! j = 0" if "2 * (k - t) \<le> j" "j < 2 * Suc k" for j
        using that y sa t(3) False by (cases "j < 2 * k") (auto simp: less_Suc_eq)
      then show ?thesis using False y t by (auto simp: t'_def nq'_def)
    qed
    have "2 * int N \<le> int (length (x[2 * k := a, 2 * k + 1 := b]))" "2 * int N \<le> int (length y)"
      using l by (simp_all add: y_def)
    then show ?thesis unfolding e quant_done_def prod.case using fin wf y1 by blast
  qed
  have "quant_done (2 * int N) k (foldl f (x, xq, 2 * int N) (map (\<lambda>j. 2 * j) [0 ..< k]))" if "k \<le> N" for k
    using that
  proof (induction k)
    case 0
    then show ?case using len wf by (simp add: quant_done_def)
  qed (use step in simp)
  moreover have "quantize dt sr g (x, xq) = foldl f (x, xq, 2 * int N) (evens 0 (2 * int N))"
    by (simp only: quantize_def prod.case ne Let_def f_def gi_def)
  ultimately show ?thesis by (simp only: evens_double)
qed

section \<open>The count of the bits\<close>

lemma count_pair_end:
  "(ct_n (count_pair l m x b i c) = ct_n c \<and> ct_end (count_pair l m x b i c) = ct_end c) \<or>
   (ct_n (count_pair l m x b i c) = int i + 2 \<and> ct_end (count_pair l m x b i c) \<le> b)"
  by (cases "ct_nbits c > b") (simp_all only: count_pair_def Let_def if_True if_False split: prod.split, auto split: prod.split)

lemma compute_nbits_spec:
  assumes n: "0 \<le> n" "even n" and ne: "0 \<le> ne" "LC3_NE dt (sr_int sr) = ne"
    and c: "compute_nbits dt sr nbytes xq n nb = (nbits, nq, lsb)"
  shows "0 \<le> nq \<and> nq \<le> n \<and> even nq" "0 < nb \<Longrightarrow> nb < 2 ^ 20 - 1 \<Longrightarrow> nbits \<le> nb"
proof -
  define hr where "hr = (of_bool (resolve_high_rate sr nbytes) :: nat)"
  define budget where "budget = (if nb \<noteq> 0 then nb * 2048 else 2 ^ 31 - 1)"
  define f where "f = (\<lambda>c (h, i). count_pair (lc3_spectrum_lookup hr h) (nbytes \<ge> 20 * (3 + sr_int sr)) xq budget i c)"
  define ct where "ct = foldl f \<lparr>ct_nbits = 0, ct_lsb = 0, ct_state = 0, ct_end = 0, ct_n = 0\<rparr> (spec_steps n ne)"
  have r: "nbits = cdiv ((if budget \<ge> 2 ^ 31 - 1 then ct_end ct + ct_lsb ct * 2048 else ct_end ct) + 2047) 2048" "nq = ct_n ct"
    using c unfolding compute_nbits_def Let_def ne(2) ct_def f_def budget_def hr_def by auto
  let ?I = "\<lambda>c. 0 \<le> ct_n c \<and> ct_n c \<le> n \<and> even (ct_n c) \<and> (ct_end c = 0 \<or> ct_end c \<le> budget)"
  have "?I (f st (h, i))" if i: "even i" "int i < n" and I: "?I st" for st h i
  proof -
    have "int i + 2 \<le> n" using i n by (elim evenE) presburger
    with I i show ?thesis
      using count_pair_end [of "lc3_spectrum_lookup hr h" "nbytes \<ge> 20 * (3 + sr_int sr)" xq budget i st]
      unfolding f_def prod.case by auto
  qed
  moreover have "even i \<and> int i < n" if "(h, i) \<in> set (spec_steps n ne)" for h i
  proof -
    have "i \<in> set (map snd (spec_steps n ne))" using that by force
    then show ?thesis by (simp add: spec_steps_pairs [OF ne(1)] evens_props(3))
  qed
  ultimately have step: "?I (f st hi)" if "hi \<in> set (spec_steps n ne)" "?I st" for st hi
    using that by (cases hi) blast
  have "?I \<lparr>ct_nbits = 0, ct_lsb = 0, ct_state = 0, ct_end = 0, ct_n = 0\<rparr>" using n(1) by simp
  then have I: "?I ct" unfolding ct_def by (rule foldl_invariant [where I = ?I]) (rule step)
  then show "0 \<le> nq \<and> nq \<le> n \<and> even nq" by (simp add: r(2))
  assume nb: "0 < nb" "nb < 2 ^ 20 - 1"
  then have b: "budget = nb * 2048" "budget < 2 ^ 31 - 1" by (simp_all add: budget_def)
  define e where "e = ct_end ct"
  have e: "e \<le> nb * 2048" using I b nb(1) by (auto simp: e_def)
  have ne: "nbits = cdiv (e + 2047) 2048" unfolding r(1) e_def using b(2) by simp
  show "nbits \<le> nb"
  proof (cases "0 \<le> e + 2047")
    case True
    then have "nbits = (e + 2047) div 2048" unfolding ne by (simp add: cdiv_def sgn_if)
    moreover have "(e + 2047) div 2048 \<le> (nb * 2048 + 2047) div 2048" using e by (intro zdiv_mono1) simp_all
    moreover have "(nb * 2048 + 2047) div 2048 = nb" by (simp add: div_add1_eq)
    ultimately show ?thesis by simp
  next
    case False
    have "nbits \<le> 0" unfolding ne using False by (simp add: cdiv_def sgn_if pos_imp_zdiv_nonneg_iff)
    then show ?thesis using nb by simp
  qed
qed

section \<open>Properties\<close>

lemma ne_pairs:
  assumes "valid_dt dt" "valid_sr sr"
  obtains N where "LC3_NE dt (sr_int sr) = 2 * int N"
  using assms by (elim valid_dtE valid_srE; simp add: LC3_NE_def)

text \<open>
  C20. The count of the bits of a spectrum keeps an even number of its coefficients, and never
  more bits than the budget it is given: where they would not fit, the last pairs are dropped.
\<close>

theorem compute_nbits_budget:
  assumes v: "valid_dt dt" "valid_sr sr" and n: "0 \<le> n" "even n" and b: "0 < budget" "budget < 2 ^ 20 - 1"
    and c: "compute_nbits dt sr nbytes xq n budget = (nbits, nq, lsb)"
  shows "nbits \<le> budget \<and> 0 \<le> nq \<and> nq \<le> n \<and> even nq"
proof -
  have ne: "0 \<le> LC3_NE dt (sr_int sr)" using nbits_nq_enough(4) [OF v] by linarith
  show ?thesis using compute_nbits_spec [OF n ne refl c] b by simp
qed

theorem compute_nbits_budget_witness:
  "\<exists>nbits nq lsb. compute_nbits LC3_DT_10M LC3_SRATE_16K 40 (replicate 160 5) 160 100 = (nbits, nq, lsb) \<and> nbits \<le> 100"
proof -
  obtain nbits nq lsb where c: "compute_nbits LC3_DT_10M LC3_SRATE_16K 40 (replicate 160 5) 160 100 = (nbits, nq, lsb)"
    by (rule prod_cases3)
  show ?thesis using compute_nbits_budget [OF _ _ _ _ _ _ c] c by (simp add: valid_dt_def valid_sr_def enum_order)
qed

text \<open>
  C31. \<open>quantize\<close> counts the coefficients up to the last pair that is not null: those after it are
  zero, one of the last two is not, and no zero is stored with a sign.
\<close>

theorem quantize_count:
  assumes v: "valid_dt dt" "valid_sr sr"
    and len: "LC3_NE dt (sr_int sr) \<le> int (length x)" "LC3_NE dt (sr_int sr) \<le> int (length xq)"
    and x: "list_all f32_wf x" and q: "quantize dt sr g (x, xq) = (x', xq', nq)"
  shows "0 \<le> nq \<and> even nq \<and> nq \<le> LC3_NE dt (sr_int sr) \<and>
    (\<forall>j < nat (LC3_NE dt (sr_int sr)). xq' ! j \<noteq> 1 \<and> (nq \<le> int j \<longrightarrow> xq' ! j = 0)) \<and>
    (0 < nq \<longrightarrow> xq' ! nat (nq - 2) \<noteq> 0 \<or> xq' ! nat (nq - 1) \<noteq> 0)"
proof -
  obtain N where ne: "LC3_NE dt (sr_int sr) = 2 * int N" by (rule ne_pairs [OF v])
  have "quant_done (2 * int N) N (x', xq', nq)" using quantize_spec [OF ne _ _ x, of xq g] len ne q by simp
  then obtain t where t: "t \<le> N" "nq = 2 * int N - 2 * int t" "\<And>j. 2 * (N - t) \<le> j \<Longrightarrow> j < 2 * N \<Longrightarrow> xq' ! j = 0"
      "t < N \<Longrightarrow> xq' ! (2 * (N - t - 1)) \<noteq> 0 \<or> xq' ! (2 * (N - t - 1) + 1) \<noteq> 0"
    and one: "\<And>j. j < 2 * N \<Longrightarrow> xq' ! j \<noteq> 1"
    by (auto simp: quant_done_def)
  have nq: "nq = int (2 * (N - t))" using t(1,2) by (simp add: of_nat_diff)
  then have "0 < nq \<Longrightarrow> nat (nq - 2) = 2 * (N - t - 1) \<and> nat (nq - 1) = 2 * (N - t - 1) + 1 \<and> t < N" by auto
  moreover have "xq' ! j = 0" if "nq \<le> int j" "j < 2 * N" for j using t(3) that nq by simp
  moreover have "even nq" "0 \<le> nq" "nq \<le> 2 * int N" using nq t(1) by simp_all
  ultimately show ?thesis using t(4) one by (auto simp: ne)
qed

theorem quantize_count_witness:
  "\<exists>x' xq' nq. quantize LC3_DT_10M LC3_SRATE_8K 0 (map (\<lambda>i. f32_of_int (40 - int i)) [0 ..< 80], replicate 80 1) = (x', xq', nq) \<and>
     even nq \<and> nq \<le> 80 \<and> (0 < nq \<longrightarrow> xq' ! nat (nq - 2) \<noteq> 0 \<or> xq' ! nat (nq - 1) \<noteq> 0)"
proof -
  obtain x' xq' nq where q: "quantize LC3_DT_10M LC3_SRATE_8K 0 (map (\<lambda>i. f32_of_int (40 - int i)) [0 ..< 80], replicate 80 1) = (x', xq', nq)"
    by (rule prod_cases3)
  have "list_all f32_wf (map (\<lambda>i. f32_of_int (40 - int i)) [0 ..< 80])" by (simp add: list_all_length)
  from quantize_count [OF _ _ _ _ this q] q show ?thesis
    by (simp add: valid_dt_def valid_sr_def enum_order LC3_NE_def)
qed

text \<open>
  The side data after two gains of any origin: the quantisation at the first, the one at the second
  when it is not zero, and the counts.
\<close>

lemma analysis_counts:
  assumes v: "valid_dt dt" "valid_sr sr"
    and len: "LC3_NE dt (sr_int sr) \<le> int (length x)" "LC3_NE dt (sr_int sr) \<le> int (length xq)"
    and x: "list_all f32_wf x"
    and q1: "quantize dt sr g (x, xq) = (x1, xq1, n1)"
    and c1: "compute_nbits dt sr nbytes xq1 n1 0 = (b1, m1, l1)"
    and q2: "(if ga \<noteq> 0 then quantize dt sr ga (x1, xq1) else (x1, xq1, m1)) = (x2, xq2, n2)"
    and c2: "compute_nbits dt sr nbytes xq2 n2 nb = (b2, m2, l2)"
  shows "0 \<le> m2 \<and> m2 \<le> LC3_NE dt (sr_int sr) \<and> even m2 \<and> LC3_NE dt (sr_int sr) \<le> int (length xq2) \<and>
    (\<forall>j < nat (LC3_NE dt (sr_int sr)). xq2 ! j \<noteq> 1)"
proof -
  obtain N where ne: "LC3_NE dt (sr_int sr) = 2 * int N" by (rule ne_pairs [OF v])
  have Q1: "quant_done (2 * int N) N (x1, xq1, n1)"
    using quantize_spec [OF ne _ _ x, of xq g] len ne q1 by simp
  have ok: "0 \<le> n \<and> n \<le> 2 * int N \<and> even n \<and> 2 * int N \<le> int (length y) \<and> (\<forall>j < 2 * N. y ! j \<noteq> 1)"
    if "quant_done (2 * int N) N (z, y, n)" for z y n
    using that by (auto simp: quant_done_def)
  have M1: "0 \<le> m1 \<and> m1 \<le> n1 \<and> even m1"
    using compute_nbits_spec(1) [of n1 "2 * int N", OF _ _ _ ne c1] ok [OF Q1] by simp
  have Q2: "0 \<le> n2 \<and> n2 \<le> 2 * int N \<and> even n2 \<and> 2 * int N \<le> int (length xq2) \<and> (\<forall>j < 2 * N. xq2 ! j \<noteq> 1)"
  proof (cases "ga = 0")
    case True
    then show ?thesis using q2 ok [OF Q1] M1 by auto
  next
    case False
    have "2 * N \<le> length x1" "2 * N \<le> length xq1" "list_all f32_wf x1" using Q1 by (simp_all add: quant_done_def)
    from quantize_spec [OF ne this, of ga] show ?thesis using q2 False ok by simp
  qed
  have "0 \<le> m2 \<and> m2 \<le> n2 \<and> even m2"
    using compute_nbits_spec(1) [of n2 "2 * int N", OF _ _ _ ne c2] Q2 by simp
  then show ?thesis using Q2 ne by simp
qed

text \<open>
  C11. What the analysis gives can be encoded: the gain index is a byte, the number of
  coefficients is even and none of them is the negative zero \<open>1\<close>, that has no code. The
  coefficients are of magnitude \<open>2 ^ (15 + k)\<close> at most, where the headroom of the gain index over
  the offset of the frame allows \<open>k\<close> (\<open>k = 2\<close> for every frame of 20 to 400 bytes, 14 for the smallest), and the
  logarithm of the C library is accurate to a hundredth.
\<close>

theorem spec_analyze_valid:
  assumes v: "valid_dt dt" "valid_sr sr" and nb0: "0 \<le> nbytes"
    and len: "LC3_NE dt (sr_int sr) \<le> int (length x)" "LC3_NE dt (sr_int sr) \<le> int (length xq)"
    and log: "log10f_ok log10f"
    and k: "0 \<le> k" "9 * k + 1 \<le> 255 - resolve_gain_offset sr nbytes"
    and x: "list_all (f32_in (- (2 powi (15 + k))) (2 powi (15 + k))) x"
    and r: "lc3_spec_analyze log10f dt sr nbytes pitch tns spec x xq = (spec', x', xq', side)"
  shows "spec_side_valid dt sr side \<and> (2 \<le> side_nq side \<longrightarrow> spec_coefs_valid dt sr side xq') \<and>
    LC3_NE dt (sr_int sr) \<le> int (length xq')"
proof -
  define off where "off = resolve_gain_offset sr nbytes"
  define nb where "nb = spec_nbits_budget dt sr nbytes pitch tns"
  obtain g rs where g: "estimate_gain log10f dt sr x nb (spec_nbits_off spec) off = (g, rs)" by fastforce
  have "0 \<le> off" using resolve_gain_offset_nonneg [OF nb0] by (simp add: off_def)
  then have gain: "fst (estimate_gain log10f dt sr x nb (spec_nbits_off spec) off) \<le> 255 - off"
    using k by (intro estimate_gain_upper [OF log k(1) _ _ x len(1)]) (simp_all add: off_def)
  have wf: "list_all f32_wf x" using x by (auto simp: list_all_iff intro: f32_in_wf)
  obtain x1 xq1 n1 where q1: "quantize dt sr g (x, xq) = (x1, xq1, n1)" by (rule prod_cases3)
  obtain b1 m1 l1 where c1: "compute_nbits dt sr nbytes xq1 n1 0 = (b1, m1, l1)" by (rule prod_cases3)
  define ga where "ga = adjust_gain sr (g + off) b1 nb"
  obtain x2 xq2 n2 where q2: "(if ga \<noteq> 0 then quantize dt sr ga (x1, xq1) else (x1, xq1, m1)) = (x2, xq2, n2)" by (rule prod_cases3)
  obtain b2 m2 l2 where c2: "compute_nbits dt sr nbytes xq2 n2 nb = (b2, m2, l2)" by (rule prod_cases3)
  have side: "side = \<lparr>side_g_idx = g + ga + off, side_nq = m2, side_lsb_mode = l2\<rparr>" and "xq' = xq2"
    using r unfolding lc3_spec_analyze_def Let_def off_def [symmetric] nb_def [symmetric] g prod.case q1 c1
      ga_def [symmetric] q2 c2 by simp_all
  have g01: "0 \<le> g + off" "g + off \<le> 255"
    using gain g estimate_gain_lower [of off log10f dt sr x nb "spec_nbits_off spec"] by (simp_all add: off_def nb_def)
  note M2 = analysis_counts [OF v len wf q1 c1 q2 c2]
  have "0 \<le> g + ga + off \<and> g + ga + off < 256"
    using adjust_gain_bounds [OF g01, of sr b1 nb] by (simp add: ga_def)
  then have "spec_side_valid dt sr side" using M2 v by (simp add: spec_side_valid_def side)
  moreover have "spec_coefs_valid dt sr side xq'" if "2 \<le> side_nq side"
    using that M2 v \<open>xq' = xq2\<close> by (auto simp: spec_coefs_valid_def side)
  ultimately show ?thesis using M2 \<open>xq' = xq2\<close> by simp
qed

text \<open>The logarithm, rounded down to a multiple of \<open>1 / 1024\<close>.\<close>

definition log10f_1024 :: "f32 \<Rightarrow> f32" where
  "log10f_1024 y = (let i = \<lfloor>1024 * log 10 (f32_val y)\<rfloor> in FFin (i < 0) \<bar>i\<bar> (-10))"

lemma signed_int: "signed (i < 0) \<bar>i\<bar> = i"
  by (simp add: signed_def)

lemma log10f_1024_ok: "log10f_ok log10f_1024"
proof -
  have "\<bar>real_of_int \<lfloor>1024 * v\<rfloor> / 1024 - v\<bar> \<le> 1 / 100" for v :: real by linarith
  moreover have "f32_val (log10f_1024 y) = real_of_int \<lfloor>1024 * log 10 (f32_val y)\<rfloor> / 1024" for y
    unfolding log10f_1024_def Let_def f32_val.simps signed_int by (simp add: power_int_def power_one_over)
  moreover have "f32_fin (log10f_1024 y)" for y by (simp add: log10f_1024_def Let_def)
  ultimately show ?thesis by (simp only: log10f_ok_def) blast
qed

theorem spec_analyze_valid_witness:
  "\<exists>spec' x' xq' side. lc3_spec_analyze log10f_1024 LC3_DT_10M LC3_SRATE_16K 40 False
       \<lparr>nfilters = 1, lpc_weighting = False, rc_order = [0, 0], rc = [[], []]\<rparr>
       \<lparr>sp_nbits_off = f32_0, sp_nbits_spare = 0\<rparr> (map (\<lambda>i. f32_of_int (400 * int i)) [0 ..< 160]) (replicate 160 1)
     = (spec', x', xq', side) \<and> spec_side_valid LC3_DT_10M LC3_SRATE_16K side"
    (is "\<exists>spec' x' xq' side. lc3_spec_analyze ?log ?dt ?sr 40 False ?tns ?sp ?x ?xq = _ \<and> _")
proof -
  obtain spec' x' xq' side where r: "lc3_spec_analyze ?log ?dt ?sr 40 False ?tns ?sp ?x ?xq = (spec', x', xq', side)"
    by (rule prod_cases4)
  have off: "resolve_gain_offset ?sr 40 = 131" by code_simp
  have "f32_in (real_of_int (-65536)) (real_of_int 65536) (f32_of_int (400 * int i))" if "i < 160" for i
    using that by (intro f32_of_int_in f32.bound_int) simp_all
  then have "list_all (f32_in (- (2 powi (15 + 1))) (2 powi (15 + 1))) ?x" by (simp add: list_all_length)
  then show ?thesis using spec_analyze_valid [OF _ _ _ _ _ log10f_1024_ok _ _ _ r, of 1] r off
    by (simp add: valid_dt_def valid_sr_def enum_order LC3_NE_def)
qed

end
