(* ===== verification/SpecIos.thy ===== *)
theory SpecIos
  imports SpecProps
begin

text \<open>
  The gain of the iOS copy of the codec. That copy of \<^verbatim>\<open>spec.c\<close> differs from the Android one in
  three functions: \<^verbatim>\<open>estimate_gain\<close> also returns the least gain that keeps the greatest coefficient
  within 16 bits, and \<^verbatim>\<open>adjust_gain\<close> stops there where the Android copy stops at the index 0.
\<close>

section \<open>The functions that differ\<close>




section \<open>Bounds\<close>







section \<open>The analysis\<close>





end
