(* ===== verification/LtpfProps.thy ===== *)
theory LtpfProps
  imports DecodeTotal
begin

text \<open>
  The long-term postfilter: the pitch that the encoder codes is the one that the decoder
  reconstructs, and the synthesis filter stays in the ring of the decoder.
\<close>

section \<open>The maximum of the correlations\<close>

lemma argmax_less: "1 \<le> n \<Longrightarrow> fst (argmax x n) < n"
proof -
  assume n: "1 \<le> n"
  have "fst (foldl (\<lambda>(arg, x_max) i. if f32_lt x_max (x ! i) then (i, x ! i) else (arg, x_max)) (0, x ! 0) [1 ..< n]) < n"
    by (rule foldl_invariant [where I = "\<lambda>st. fst st < n"]) (use n in auto)
  then show ?thesis by (simp add: argmax_def)
qed

lemma argmax_weighted_less: "1 \<le> n \<Longrightarrow> fst (argmax_weighted x n w_incr) < n"
proof -
  assume n: "1 \<le> n"
  have "fst (foldl (\<lambda>(arg, x_max, xw_max, w) i.
             if f32_lt xw_max (f32_mul (x ! i) w)
             then (i, x ! i, f32_mul (x ! i) w, f32_add w w_incr)
             else (arg, x_max, xw_max, f32_add w w_incr))
           (0, x ! 0, x ! 0, f32_add (f32_of_int 1) w_incr) [1 ..< n]) < n"
    by (rule foldl_invariant [where I = "\<lambda>st. fst st < n"]) (use n in auto)
  then show ?thesis by (simp add: argmax_weighted_def case_prod_beta)
qed

text \<open>The lag kept for the next frame is one of the table of correlations.\<close>

lemma detect_pitch_bounds:
  assumes "0 \<le> tc" "tc \<le> 97" and d: "detect_pitch tc x n = (present, t, tc')"
  shows "0 \<le> tc'" "tc' \<le> 97" "t = 17 + tc'"
proof -
  define r where "r = correlate x (\<lambda>i. x (i - 17)) n 98"
  define k0 where "k0 = max 0 (tc - 4)"
  define nk where "nk = min 97 (tc + 4) - k0 + 1"
  have nk: "1 \<le> nk" "k0 + nk \<le> 98" "0 \<le> k0" using assms(1,2) by (auto simp: k0_def nk_def)
  have 1: "fst (argmax_weighted r 98 w) < 98" for w by (rule argmax_weighted_less) simp
  have "fst (argmax (drop (nat k0) r) (nat nk)) < nat nk" by (rule argmax_less) (use nk in simp)
  then have 2: "k0 + int (fst (argmax (drop (nat k0) r) (nat nk))) \<le> 97" using nk by linarith
  obtain t1 rm1 where a1: "argmax_weighted r 98 (f32_div (f32_lit (-5) (-1)) (f32_of_int 97)) = (t1, rm1)" by (meson surj_pair)
  obtain a2 rm2 where a2: "argmax (drop (nat k0) r) (nat nk) = (a2, rm2)" by (meson surj_pair)
  have b: "t1 < 98" "k0 + int a2 \<le> 97" using 1 [of "f32_div (f32_lit (-5) (-1)) (f32_of_int 97)"] 2 a1 a2 by simp_all
  have "tc' = int t1 \<or> tc' = k0 + int a2" "t = 17 + tc'"
    using d a1 a2 unfolding r_def k0_def nk_def by (auto simp: detect_pitch_def Let_def split: if_splits)
  then show "0 \<le> tc'" "tc' \<le> 97" "t = 17 + tc'" using b nk by auto
qed

section \<open>The index of the pitch\<close>

text \<open>The phases that the search can give to a lag.\<close>

definition phase_ok :: "int \<Rightarrow> int \<Rightarrow> bool" where
  "phase_ok e f \<longleftrightarrow> f = 0 \<or> (\<bar>f\<bar> \<le> 3 \<and> e < 157 \<and> (e \<ge> 127 \<longrightarrow> even f) \<and> (f < 0 \<longrightarrow> e > 32))"

lemma refine_phase_ok: "phase_ok e (snd (foldl (refine_phase corr e) (v, 0) [1, 2, 3]))"
proof (rule foldl_invariant [where I = "\<lambda>st. phase_ok e (snd st)"])
  show "phase_ok e (snd (v, 0))" by (simp add: phase_ok_def)
  fix i :: int and st :: "f32 \<times> int"
  assume i: "i \<in> set [1, 2, 3]" and st: "phase_ok e (snd st)"
  obtain dm f where s: "st = (dm, f)" by (cases st)
  show "phase_ok e (snd (refine_phase corr e st i))"
  proof (cases "e \<ge> 127 \<and> (odd i \<or> e \<ge> 157)")
    case True
    then show ?thesis using st s by (simp add: refine_phase_def)
  next
    case False
    then have "phase_ok e i" "e > 32 \<Longrightarrow> phase_ok e (- i)" using i by (auto simp: phase_ok_def)
    then show ?thesis using False st s by (simp add: refine_phase_def Let_def)
  qed
qed

lemma pitch_of_index_eq:
  "pitch_of_index idx = (if idx \<ge> 440 then 4 * (idx - 283)
     else if idx \<ge> 380 then 4 * (idx div 2 - 63) + 2 * (idx mod 2) else idx + 128)"
proof -
  have a: "idx AND 3 = idx mod 4" using take_bit_eq_mask [of 2 idx] by (simp add: take_bit_eq_mod mask_eq_exp_minus_1)
  have b: "push_bit 2 (drop_bit 2 idx + 32) + idx mod 4 = idx + 128"
    by (simp add: push_bit_eq_mult drop_bit_eq_div algebra_simps)
  show ?thesis unfolding pitch_of_index_def a b by (simp add: push_bit_eq_mult drop_bit_eq_div and_one_eq)
qed

lemma pitch_code_index:
  assumes "32 \<le> e" "e \<le> 228" "phase_ok e f" "pitch_code e f = (idx, pitch)"
  shows "0 \<le> idx" "idx < 512" "pitch_of_index idx = pitch"
proof -
  define e' f' where "e' = e - of_bool (f < 0)" and "f' = f + 4 * of_bool (f < 0)"
  have r: "0 \<le> f'" "f' \<le> 3" "4 * e + f = 4 * e' + f'" "e' \<ge> 157 \<Longrightarrow> f' = 0" "e' \<ge> 127 \<Longrightarrow> even f'" "32 \<le> e'" "e' \<le> 228"
    using assms(1-3) by (auto simp: phase_ok_def e'_def f'_def of_bool_def split: if_splits)
  have c: "idx = (if e' < 127 then 4 * e' + f' - 128 else if e' < 157 then 2 * e' + f' div 2 + 126 else e' + 283)"
    "pitch = 4 * e' + f'"
    using assms(4) by (auto simp: pitch_code_def Let_def drop_bit_eq_div e'_def f'_def split: if_splits)
  note p = pitch_of_index_eq [of idx]
  show "0 \<le> idx" "idx < 512" using c r by (auto split: if_splits)
  consider "e' < 127" | "127 \<le> e'" "e' < 157" | "157 \<le> e'" by linarith
  then show "pitch_of_index idx = pitch"
  proof cases
    case 1
    then show ?thesis using c r p by simp
  next
    case 2
    then obtain h where h: "f' = 2 * h" using r(5) by (auto elim!: evenE)
    then have "0 \<le> h" "h < 2" "idx = 2 * (e' + 63) + h" using 2 c r(1,2) by auto
    with div_mod_2 [of h "e' + 63"] have "idx div 2 = e' + 63" "idx mod 2 = h" by simp_all
    then show ?thesis using 2 c r p h by simp
  next
    case 3
    then show ?thesis using c r p by simp
  qed
qed

lemma refine_pitch_index:
  assumes "17 \<le> tc" "tc \<le> 114" "refine_pitch x n tc = (idx, pitch)"
  shows "0 \<le> idx" "idx < 512" "pitch_of_index idx = pitch"
proof -
  define r0 where "r0 = max 32 (2 * tc - 4)"
  define nr where "nr = min 228 (2 * tc + 4) - r0 + 1"
  define r where "r = correlate x (\<lambda>i. x (i - (r0 - 4))) n (nat (nr + 8))"
  define e where "e = r0 + int (fst (argmax (drop 4 r) (nat nr)))"
  have nr: "1 \<le> nr" "r0 + nr \<le> 229" "32 \<le> r0" using assms(1,2) by (auto simp: r0_def nr_def)
  have "fst (argmax (drop 4 r) (nat nr)) < nat nr" by (rule argmax_less) (use nr in simp)
  then have e: "32 \<le> e" "e \<le> 228" using nr by (auto simp: e_def)
  define corr where "corr = interpolate_corr r (nat (e - (r0 - 4)))"
  have rp: "refine_pitch x n tc = pitch_code e (snd (foldl (refine_phase corr e) (corr 0, 0) [1, 2, 3]))"
    by (simp only: refine_pitch_def Let_def LC3_MAX_max LC3_MIN_min r0_def [symmetric] nr_def [symmetric]
        r_def [symmetric] e_def [symmetric] corr_def [symmetric] case_prod_beta)
  note pc = pitch_code_index [OF e refine_phase_ok assms(3) [unfolded rp]]
  show "0 \<le> idx" "idx < 512" "pitch_of_index idx = pitch" by (rule pc)+
qed

section \<open>The ring\<close>

lemma pitch_of_index_bounds: "0 \<le> idx \<Longrightarrow> idx < 512 \<Longrightarrow> 128 \<le> pitch_of_index idx \<and> pitch_of_index idx \<le> 912"
  unfolding pitch_of_index_eq by (auto; presburger)

text \<open>The lag of the synthesis with its window is one of the ring, for any index of a stream.\<close>

definition lag_ok :: "lc3_dt \<Rightarrow> lc3_srate \<Rightarrow> int \<Rightarrow> bool" where
  "lag_ok dt sr pitch \<longleftrightarrow> 0 \<le> pitch \<and> cdiv pitch 4 + int (synthesize_width sr div 2) < LC3_NH dt sr"

lemma ltpf_pitch_bounds:
  assumes v: "valid_dt dt" "valid_sr sr" and i: "0 \<le> idx" "idx < 512"
  shows "lag_ok dt sr (ltpf_pitch sr idx)" "0 < cdiv (ltpf_pitch sr idx) 4"
proof -
  define p where "p = pitch_of_index idx"
  have p: "128 \<le> p" "p \<le> 912" using pitch_of_index_bounds [OF i] by (simp_all add: p_def)
  have k: "8 \<le> LC3_SRATE_KHZ sr" "LC3_SRATE_KHZ sr \<le> 48" using v(2) by (elim valid_srE; simp add: LC3_SRATE_KHZ_def)+
  define a where "a = p * LC3_SRATE_KHZ sr * 10 + 64"
  have "128 * 8 \<le> p * LC3_SRATE_KHZ sr" "p * LC3_SRATE_KHZ sr \<le> 912 * LC3_SRATE_KHZ sr"
    using p k by (intro mult_mono; simp)+
  then have a: "10304 \<le> a" "a \<le> 9120 * LC3_SRATE_KHZ sr + 64" unfolding a_def by linarith+
  have q: "ltpf_pitch sr idx = a div 128" using a(1) by (simp add: ltpf_pitch_def p_def [symmetric] a_def cdiv_nonneg)
  have q4: "cdiv (ltpf_pitch sr idx) 4 = a div 512" unfolding q using a(1) by (simp add: cdiv_nonneg zdiv_zmult2_eq [symmetric])
  have "a div 512 \<le> (9120 * LC3_SRATE_KHZ sr + 64) div 512" using a(2) by (rule zdiv_mono1) simp
  moreover have "0 \<le> ltpf_pitch sr idx" unfolding q using a(1) by simp
  ultimately show "lag_ok dt sr (ltpf_pitch sr idx)"
    using v unfolding lag_ok_def q4
    by (elim valid_dtE valid_srE; simp add: LC3_NH_def LC3_NS_def LC3_SRATE_KHZ_def synthesize_width_def)
  show "0 < cdiv (ltpf_pitch sr idx) 4" unfolding q4 using a(1) by linarith
qed

lemma ring_next_bounds: "0 \<le> y \<Longrightarrow> y < nh \<Longrightarrow> 0 \<le> ring_next nh y \<and> ring_next nh y < nh"
  by (simp add: ring_next_def)

definition ring_start :: "int \<Rightarrow> int \<Rightarrow> nat \<Rightarrow> int" where
  "ring_start nh lag px = (if int px < lag then int px + (nh - lag) else int px - lag)"

lemma ring_start_bounds: "0 < lag \<Longrightarrow> lag \<le> nh \<Longrightarrow> int px < nh \<Longrightarrow> 0 \<le> ring_start nh lag px \<and> ring_start nh lag px < nh"
  by (simp add: ring_start_def)

text \<open>The filter keeps its reader in the ring, and the ring its size.\<close>

definition filter_ok :: "nat \<Rightarrow> ltpf_filter \<Rightarrow> bool" where
  "filter_ok n fl \<longleftrightarrow> length (fl_xh fl) = n \<and> 0 \<le> fl_y fl \<and> fl_y fl < int n"

lemma filter_steps_ok:
  assumes "filter_ok n fl"
  shows "filter_ok n (filter_load (int n) c w x0 fl j)" "filter_ok n (filter_sample (int n) c w g px fl i)"
  using assms ring_next_bounds [of "fl_y fl" "int n"]
  by (simp_all add: filter_ok_def filter_load_def filter_sample_def Let_def)

lemma filter_loops_ok:
  assumes "filter_ok n fl"
  shows "filter_ok n (foldl (filter_load (int n) c w x0) fl js)" "filter_ok n (foldl (filter_sample (int n) c w g px) fl is)"
  using assms by (auto intro!: foldl_invariant filter_steps_ok)

lemma length_ltpf_synthesize:
  assumes "length xh = n" "nh = int n" "lag + int (synthesize_width sr div 2) \<le> nh" "0 < lag + int (synthesize_width sr div 2)"
    "int px < nh"
  shows "length (ltpf_synthesize sr nh lag x0 px m c fade xh) = n"
proof -
  let ?w = "synthesize_width sr" and ?lag = "lag + int (synthesize_width sr div 2)"
  let ?y = "ring_start nh ?lag px"
  have "0 \<le> ?y \<and> ?y < nh" by (rule ring_start_bounds) (use assms in auto)
  then have ok: "filter_ok n \<lparr>fl_xh = xh, fl_u = u, fl_y = ?y, fl_g = g\<rparr>" for u g
    using assms(1,2) by (simp add: filter_ok_def)
  define fl where "fl = foldl (filter_load nh c ?w x0)
      \<lparr>fl_xh = xh, fl_u = replicate ?w f32_0, fl_y = ?y, fl_g = f32_of_int (of_bool (fade \<le> 0))\<rparr> [0 ..< ?w - 1]"
  have "filter_ok n fl" unfolding fl_def assms(2) by (rule filter_loops_ok) (use ok in \<open>simp add: assms(2)\<close>)
  then have "filter_ok n (fl\<lparr>fl_u := u\<rparr>)" for u by (simp add: filter_ok_def)
  from filter_loops_ok(2) [OF this]
  have "length (fl_xh (foldl (filter_sample nh c ?w g px) (fl\<lparr>fl_u := u\<rparr>) is)) = n" for g u "is"
    unfolding assms(2) by (simp add: filter_ok_def)
  then show ?thesis
    unfolding ltpf_synthesize_def synthesize_template_def Let_def ring_start_def [symmetric] fl_def [symmetric] .
qed

definition ltpf_state_ok :: "lc3_dt \<Rightarrow> lc3_srate \<Rightarrow> lc3_ltpf_synthesis \<Rightarrow> bool" where
  "ltpf_state_ok dt sr s \<longleftrightarrow> length (sy_c s) = 24 \<and> length (sy_x s) = 12 \<and> lag_ok dt sr (sy_pitch s)"

lemma synthesize_width_bounds:
  assumes "valid_sr sr"
  shows "4 \<le> synthesize_width sr" "synthesize_width sr \<le> 12" "nat (LC3_MAX 4 (cdiv (LC3_SRATE_KHZ sr) 4)) = synthesize_width sr"
  using assms by (elim valid_srE; simp add: synthesize_width_def LC3_SRATE_KHZ_def cdiv_def)+

lemma ltpf_synthesize_ok:
  assumes v: "valid_dt dt" "valid_sr sr" and s: "ltpf_state_ok dt sr s"
    and d: "\<And>x. data = Some x \<Longrightarrow> ltpf_valid x"
    and xh: "length xh = nat (LC3_NH dt sr)" and px: "px + nat (LC3_NS dt sr) \<le> length xh"
    and r: "lc3_ltpf_synthesize dt sr nbytes s data px xh = (s', xh')"
  shows "ltpf_state_ok dt sr s'" "length xh' = length xh"
proof -
  define idx where "idx = (case data of Some d \<Rightarrow> ltpf_pitch_index d | None \<Rightarrow> 0)"
  define w where "w = nat (LC3_MAX 4 (cdiv (LC3_SRATE_KHZ sr) 4))"
  define pitch where "pitch = ltpf_pitch sr idx"
  define ns nt nh where "ns = nat (LC3_NS dt sr)" and "nt = nat (LC3_NS dt sr) div nat (3 + dt_int dt)" and "nh = LC3_NH dt sr"
  define active where "active = ((case data of Some d \<Rightarrow> ltpf_active d | None \<Rightarrow> False) \<and> ltpf_gain_index dt sr nbytes < 4)"
  define c where "c = ltpf_coeffs sr active (ltpf_gain_index dt sr nbytes) pitch"
  have idx: "0 \<le> idx" "idx < 512" using d by (auto simp: idx_def ltpf_valid_def split: option.split)
  have p: "lag_ok dt sr pitch" unfolding pitch_def by (rule ltpf_pitch_bounds(1) [OF v idx])
  have w: "w = synthesize_width sr" "4 \<le> w" "w \<le> 12" using synthesize_width_bounds [OF v(2)] by (simp_all add: w_def)
  have g: "w \<le> ns" "nt < ns" "ns \<le> length xh" "nh = int (length xh)"
    using v xh by (elim valid_dtE valid_srE; simp add: w(1) ns_def nt_def nh_def LC3_NS_def LC3_NH_def synthesize_width_def)+
  have lag: "lag_ok dt sr q \<Longrightarrow> 0 \<le> cdiv q 4 \<and> cdiv q 4 + int (synthesize_width sr div 2) \<le> nh" for q
    by (auto simp: lag_ok_def nh_def cdiv_nonneg)
  have len: "length (ltpf_synthesize sr nh (cdiv q 4) x0 i m cc fade xx) = length xh"
    if "lag_ok dt sr q" "length xx = length xh" "int i < nh" for q x0 i m cc fade xx
    by (rule length_ltpf_synthesize [OF that(2) g(4)]) (use lag [OF that(1)] w that(3) in auto)
  have i: "int px < nh" "int (px + nt) < nh" using px g ns_def by auto
  define old where "old = (\<lambda>fade. ltpf_synthesize sr nh (cdiv (sy_pitch s) 4) (sy_x s) px nt (sy_c s) fade)"
  define xh1 where "xh1 =
            (if \<not> sy_active s \<and> active then ltpf_synthesize sr nh (cdiv pitch 4) (sy_x s) px nt c 1 xh
             else if sy_active s \<and> \<not> active then old (-1) xh
             else if sy_active s \<and> active \<and> sy_pitch s = pitch
             then ltpf_synthesize sr nh (cdiv pitch 4) (sy_x s) px nt c 0 xh
             else if sy_active s \<and> active
             then (let xh = old (-1) xh
                   in ltpf_synthesize sr nh (cdiv pitch 4)
                        (slice ((if px \<le> 0 then px + nat nh else px) - (w - 1)) (w - 1) xh) px nt c 1 xh)
             else xh)"
  have o: "lag_ok dt sr (sy_pitch s)" using s by (simp add: ltpf_state_ok_def)
  have old: "length (old f xx) = length xh" if "length xx = length xh" for f xx
    unfolding old_def by (rule len [OF o that i(1)])
  have l1: "length xh1 = length xh" unfolding xh1_def Let_def by (simp add: len [OF p] old i(1))
  have e: "lc3_ltpf_synthesize dt sr nbytes s data px xh =
      (\<lparr>sy_active = active, sy_pitch = pitch, sy_c = c @ drop (2 * w) (sy_c s),
        sy_x = slice (px + ns - (w - 1)) (w - 1) xh1 @ drop (w - 1) (sy_x s)\<rparr>,
       if active then ltpf_synthesize sr nh (cdiv pitch 4) (slice (px + nt - (w - 1)) (w - 1) xh) (px + nt) (ns - nt) c 0 xh1
       else xh1)"
    unfolding lc3_ltpf_synthesize_def Let_def idx_def [symmetric] pitch_def [symmetric] w_def [symmetric] nh_def [symmetric]
      ns_def [symmetric] nt_def [unfolded ns_def [symmetric], symmetric] active_def [symmetric] c_def [symmetric]
      old_def [symmetric] xh1_def [unfolded Let_def, symmetric] ..
  have lc: "length c = 2 * w" by (simp add: c_def ltpf_coeffs_def w_def Let_def)
  have "length (slice (px + ns - (w - 1)) (w - 1) xh1) = w - 1"
    using px g w l1 by (simp add: slice_def ns_def)
  then show "ltpf_state_ok dt sr s'"
    using r lc w s p unfolding e by (auto simp: ltpf_state_ok_def)
  show "length xh' = length xh" using r l1 len [OF p l1 i(2)] unfolding e by auto
qed

section \<open>Properties\<close>

text \<open>
  C16. The encoder and the decoder have the same pitch: when the analysis finds one, its index
  fits the 9 bits of the field, and the decoder reconstructs from it exactly the pitch that the
  encoder keeps. The lag kept for the next frame stays one of the table of correlations.
\<close>

theorem ltpf_pitch_agrees:
  assumes "0 \<le> an_tc ltpf" "an_tc ltpf \<le> 97" and a: "lc3_ltpf_analyse dt sr ltpf x data = (present, ltpf', data')"
  shows "0 \<le> an_tc ltpf' \<and> an_tc ltpf' \<le> 97 \<and>
    (present \<longrightarrow> 0 \<le> ltpf_pitch_index data' \<and> ltpf_pitch_index data' < 512 \<and>
       pitch_of_index (ltpf_pitch_index data') = an_pitch ltpf')"
proof -
  define n where "n = (if dt = LC3_DT_7M5 then 96 else (128 :: nat))"
  obtain hp50 y where y: "resample_12k8 sr (an_hp50 ltpf) x n = (hp50, y)" by (cases "resample_12k8 sr (an_hp50 ltpf) x n")
  define x12 where "x12 = buf_at (take (384 - n) (drop n (an_x_12k8 ltpf)) @ y)
    (int (384 - n) - (if dt = LC3_DT_7M5 then 44 else 24))"
  define x64 where "x64 = buf_at (take (178 - drop_bit 1 n) (drop (drop_bit 1 n) (an_x_6k4 ltpf)) @ resample_6k4 x12 (drop_bit 1 n))
    (int (178 - drop_bit 1 n))"
  obtain pp tc tc' where d: "detect_pitch (an_tc ltpf) x64 (drop_bit 1 n) = (pp, tc, tc')"
    by (cases "detect_pitch (an_tc ltpf) x64 (drop_bit 1 n)" rule: prod_cases3)
  note b = detect_pitch_bounds [OF assms(1,2) d]
  obtain idx pitch where r: "refine_pitch x12 n tc = (idx, pitch)" by (cases "refine_pitch x12 n tc")
  have i: "0 \<le> idx" "idx < 512" "pitch_of_index idx = pitch"
    by (rule refine_pitch_index [OF _ _ r]; use b in simp)+
  have "present = pp \<and> an_tc ltpf' = tc' \<and> (pp \<longrightarrow> an_pitch ltpf' = pitch \<and> ltpf_pitch_index data' = idx)"
    using a [unfolded lc3_ltpf_analyse_def Let_def, folded n_def, unfolded y prod.case, folded x12_def, folded x64_def,
        unfolded d prod.case r]
    by (cases pp) auto
  then show ?thesis using b i by auto
qed

theorem ltpf_pitch_agrees_witness:
  "\<exists>present ltpf' data'. lc3_ltpf_analyse LC3_DT_10M LC3_SRATE_16K
      \<lparr>an_active = False, an_pitch = 0, an_nc0 = f32_0, an_nc1 = f32_0, an_hp50 = \<lparr>hp_s1 = 0, hp_s2 = 0\<rparr>,
       an_x_12k8 = replicate 384 0, an_x_6k4 = replicate 178 0, an_tc = 33\<rparr> (\<lambda>i. i mod 7)
      \<lparr>ltpf_active = False, ltpf_pitch_index = 0\<rparr> = (present, ltpf', data') \<and> an_tc ltpf' \<le> 97"
proof -
  let ?l = "\<lparr>an_active = False, an_pitch = 0, an_nc0 = f32_0, an_nc1 = f32_0, an_hp50 = \<lparr>hp_s1 = 0, hp_s2 = 0\<rparr>,
       an_x_12k8 = replicate 384 0, an_x_6k4 = replicate 178 0, an_tc = 33\<rparr>"
  obtain p l d where a: "lc3_ltpf_analyse LC3_DT_10M LC3_SRATE_16K ?l (\<lambda>i. i mod 7) \<lparr>ltpf_active = False, ltpf_pitch_index = 0\<rparr> = (p, l, d)"
    by (rule prod_cases3)
  have "0 \<le> an_tc ?l" "an_tc ?l \<le> 97" by simp_all
  from ltpf_pitch_agrees [OF this a] a show ?thesis by blast
qed

text \<open>
  C28. The synthesis filter never leaves the ring of the decoder: from any index of a stream,
  its reader starts behind the frame by a positive lag, at a position of the ring, and stays in
  it after any number of steps of its two loops, while the ring keeps its size.
\<close>

theorem ltpf_ring_safe:
  assumes v: "valid_dt dt" "valid_sr sr" and idx: "0 \<le> idx" "idx < 512"
    and n: "int n = LC3_NH dt sr" and xh: "length xh = n" "px < n"
  defines "lag \<equiv> cdiv (ltpf_pitch sr idx) 4"
  shows "0 < lag \<and> filter_ok n (foldl (filter_sample (int n) c w g_incr px)
     (foldl (filter_load (int n) c w x0)
        \<lparr>fl_xh = xh, fl_u = u, fl_y = ring_start (int n) (lag + int (synthesize_width sr div 2)) px, fl_g = g\<rparr>
        [0 ..< i]) [0 ..< j])"
proof -
  note b = ltpf_pitch_bounds [OF v idx]
  have "0 \<le> ring_start (int n) (lag + int (synthesize_width sr div 2)) px \<and>
      ring_start (int n) (lag + int (synthesize_width sr div 2)) px < int n"
    by (rule ring_start_bounds) (use b n xh in \<open>auto simp: lag_def lag_ok_def\<close>)
  then have "filter_ok n \<lparr>fl_xh = xh, fl_u = u, fl_y = ring_start (int n) (lag + int (synthesize_width sr div 2)) px, fl_g = g\<rparr>"
    using xh by (simp add: filter_ok_def)
  from filter_loops_ok(2) [OF filter_loops_ok(1) [OF this]] b(2) show ?thesis by (simp add: lag_def)
qed

theorem ltpf_ring_safe_witness:
  "filter_ok 1440 (foldl (filter_sample 1440 (replicate 24 f32_0) 12 f32_0 960)
     (foldl (filter_load 1440 (replicate 24 f32_0) 12 (replicate 12 f32_0))
        \<lparr>fl_xh = replicate 1440 f32_0, fl_u = replicate 12 f32_0,
         fl_y = ring_start 1440 (cdiv (ltpf_pitch LC3_SRATE_48K 511) 4 + 6) 960, fl_g = f32_0\<rparr> [0 ..< 11]) [0 ..< 480])"
proof -
  have v: "valid_dt LC3_DT_10M" "valid_sr LC3_SRATE_48K" by (simp_all add: valid_dt_def valid_sr_def enum_order)
  have n: "int 1440 = LC3_NH LC3_DT_10M LC3_SRATE_48K" by (simp add: LC3_NH_def LC3_NS_def)
  have w: "synthesize_width LC3_SRATE_48K div 2 = 6" by (simp add: synthesize_width_def)
  from ltpf_ring_safe [OF v _ _ n, of 511 "replicate 1440 f32_0" 960 "replicate 24 f32_0" 12 f32_0 "replicate 12 f32_0"
      "replicate 12 f32_0" f32_0 11 480, unfolded w]
  show ?thesis by simp
qed

end
