(* ===== verification/Frame.thy ===== *)
theory Frame
  imports SpecRoundtrip
begin

text \<open>
  A whole frame: \<open>encode\<close> and \<open>decode\<close> of \<^verbatim>\<open>lc3.c\<close> agree on the bitstream, for any side data
  and coefficients that the analysis can give and that the frame has room for.
\<close>

section \<open>The fields of the frame\<close>

text \<open>
  C14. The side data of a frame (bandwidth, quantisation, temporal noise shaping, noise
  shaping, long-term postfilter) that \<open>encode_side\<close> writes is the one that \<open>decode_side\<close>
  reads, with no error, whatever follows it in the frame: what the reader does not receive
  keeps the values that its structure had.
\<close>

theorem side_roundtrip:
  assumes side: "side_valid dt sr (int (length mem)) side" and old: "length (rc_order (sd_tns old)) = 2"
    and ok: "list_all op_ok ys"
    and w1: "encode_side dt sr side (lc3_setup_bits LC3_BITS_MODE_WRITE mem) = Some w1"
    and w: "wr_ops ys w1 = Some w" and left: "0 \<le> get_bits_left w"
  shows "\<exists>r1 r. decode_side dt sr (int (length mem)) old (lc3_setup_bits LC3_BITS_MODE_READ (stream_of w)) =
      Some (0, side_view old side, r1) \<and> rd_ops ys r1 = Some r"
proof -
  have nil: "list_all op_ok []" "wr_ops [] bits = Some bits" for bits by simp_all
  obtain r0 r1 r where r: "rd_ops [] (lc3_setup_bits LC3_BITS_MODE_READ (stream_of w)) = Some r0"
    "map_option (\<lambda>(ret, side, bits). ((ret, side), bits)) (decode_side dt sr (int (length mem)) old r0) =
      Some ((0, side_view old side), r1)" "rd_ops ys r1 = Some r"
    using frame_side.field_roundtrip [where old = old, OF _ nil(1) ok nil(2) w1 w left] side old by blast
  then show ?thesis by (auto simp del: rd_ops.simps(2))
qed

text \<open>
  C10. The coefficients of a frame are read back: after any operations that have put 19 plain
  bits at least (the side data puts 37), \<open>lc3_spec_decode\<close> returns without error the
  rendering, by the gain and the noise level of the encoder, of values that are the
  encoder's integers. What follows the pairs is read for the bits that the encoder had left
  after them, no more and no less. In the mode of the low bits the values that these bits reach
  are exact, all of them when the bits suffice, and the others lack their low bit; in the
  other mode each is exact, and the non-null ones that the bits reach are refined by their
  residual bit.
\<close>

theorem spec_roundtrip:
  assumes "spec_coefs_valid dt sr side xq" and "list_all op_ok xs" and "19 \<le> plain_bits xs"
    and "wr_ops xs (lc3_setup_bits LC3_BITS_MODE_WRITE mem) = Some w0"
    and "lc3_spec_encode w0 dt sr bw nbytes xq side x = Some w" and "0 \<le> get_bits_left w"
    and "nat (side_nq side) \<le> length x0"
  shows "\<exists>r0 r w1 vals nf_seed. rd_ops xs (lc3_setup_bits LC3_BITS_MODE_READ (stream_of w)) = Some r0 \<and>
    spec_coded w0 dt sr bw nbytes xq side x = Some w1 \<and>
    lc3_spec_decode r0 dt sr bw nbytes side x0 =
      Some (0, spec_render dt sr bw nbytes side (estimate_noise dt bw xq (side_nq side) x) nf_seed vals, r) \<and>
    length vals = length x0 \<and> spec_values side xq x (lc3_get_bits_left w1) vals nf_seed \<and> lc3_check_bits r = 0"
  by (rule spec_read_back [OF assms]) blast

section \<open>The frame\<close>

lemma spec_side_view_id: "2 \<le> side_nq side \<Longrightarrow> spec_side_view side = side"
  by (simp add: spec_side_view_def)

lemma side_view_fields: "sd_bw (side_view old side) = sd_bw side" "sd_spec (side_view old side) = spec_side_view (sd_spec side)"
  by (simp_all add: side_view_def)

text \<open>
  C1. Encoding then decoding a frame: the bytes that \<open>encode\<close> returns fill the buffer, and
  \<open>decode\<close>, on a decoder of the same parameters, returns 0 and the side data of the encoder,
  and leaves in its ring the spectrum rendered from the coefficients of the encoder, with the
  low or residual bits that the encoder had room for, null above the bandwidth of the codec.
\<close>

theorem frame_roundtrip:
  assumes par: "dec_dt d = enc_dt e" "dec_sr d = enc_sr e"
    and side: "side_valid (enc_dt e) (enc_sr e) (int (length out)) side"
    and coefs: "spec_coefs_valid (enc_dt e) (enc_sr e) (sd_spec side) xq"
    and fits: "frame_fits e side xq out"
    and old: "length (rc_order (sd_tns old)) = 2" and len: "nat (side_nq (sd_spec side)) \<le> length (dec_xs d)"
  shows "\<exists>data w0 w1 vals nf_seed. encode e side xq out = Some data \<and> length data = length out \<and>
    encode_side (enc_dt e) (enc_sr e) side (lc3_setup_bits LC3_BITS_MODE_WRITE out) = Some w0 \<and>
    spec_coded w0 (enc_dt e) (enc_sr e) (sd_bw side) (int (length out)) xq (sd_spec side) (enc_xs e) = Some w1 \<and>
    length vals = length (dec_xs d) \<and> spec_values (sd_spec side) xq (enc_xs e) (lc3_get_bits_left w1) vals nf_seed \<and>
    decode d data old = Some (0,
      (let xf = spec_render (enc_dt e) (enc_sr e) (sd_bw side) (int (length out)) (sd_spec side)
             (estimate_noise (enc_dt e) (sd_bw side) xq (side_nq (sd_spec side)) (enc_xs e)) nf_seed vals;
           ns = nat (LC3_NS (enc_dt e) (enc_sr e)); ne = nat (LC3_NE (enc_dt e) (sr_int (enc_sr e)))
       in d\<lparr>dec_xh := put_at (dec_px d) (put_at ne (replicate (ns - ne) f32_0) xf) (dec_xh d)\<rparr>),
      side_view old side)"
proof -
  let ?dt = "enc_dt e" and ?sr = "enc_sr e" and ?n = "int (length out)"
  let ?W = "lc3_setup_bits LC3_BITS_MODE_WRITE out"
  obtain w0 w where w: "encode_side ?dt ?sr side ?W = Some w0"
    "lc3_spec_encode w0 ?dt ?sr (sd_bw side) ?n xq (sd_spec side) (enc_xs e) = Some w"
    "frame_bits e side xq out = Some w" "0 \<le> get_bits_left w"
    using fits by (auto simp: frame_fits_def frame_bits_def bind_eq_Some_conv split: option.splits)
  have ops: "wr_ops (side_ops ?dt ?sr side) ?W = Some w0" using w(1) by (simp add: side_put_ops [OF side])
  have p: "19 \<le> plain_bits (side_ops ?dt ?sr side)"
    using side_ops_plain [of side ?dt ?sr] side by (simp add: side_valid_def)
  obtain r0 r w1 vals nf_seed where r: "rd_ops (side_ops ?dt ?sr side) (lc3_setup_bits LC3_BITS_MODE_READ (stream_of w)) = Some r0"
    "lc3_spec_decode r0 ?dt ?sr (sd_bw side) ?n (sd_spec side) (dec_xs d) =
      Some (0, spec_render ?dt ?sr (sd_bw side) ?n (sd_spec side)
        (estimate_noise ?dt (sd_bw side) xq (side_nq (sd_spec side)) (enc_xs e)) nf_seed vals, r)"
    "length vals = length (dec_xs d)" "spec_values (sd_spec side) xq (enc_xs e) (lc3_get_bits_left w1) vals nf_seed"
    "lc3_check_bits r = 0" "length (stream_of w) = length out"
    "spec_coded w0 ?dt ?sr (sd_bw side) ?n xq (sd_spec side) (enc_xs e) = Some w1"
    by (rule spec_read_back [OF coefs side_ops_ok [OF side] p ops w(2,4) len]) blast
  have s: "decode_side ?dt ?sr ?n old (lc3_setup_bits LC3_BITS_MODE_READ (stream_of w)) = Some (0, side_view old side, r0)"
    by (rule side_get_ops [OF side old r(1)])
  have "2 \<le> side_nq (sd_spec side)" using coefs by (simp add: spec_coefs_valid_def)
  then have view: "sd_spec (side_view old side) = sd_spec side" by (simp add: side_view_fields spec_side_view_id)
  have "encode e side xq out = Some (stream_of w)" by (simp add: encode_frame_bits w(3))
  moreover have "decode d (stream_of w) old = Some (0,
      (let xf = spec_render ?dt ?sr (sd_bw side) ?n (sd_spec side)
             (estimate_noise ?dt (sd_bw side) xq (side_nq (sd_spec side)) (enc_xs e)) nf_seed vals;
           ns = nat (LC3_NS ?dt ?sr); ne = nat (LC3_NE ?dt (sr_int ?sr))
       in d\<lparr>dec_xh := put_at (dec_px d) (put_at ne (replicate (ns - ne) f32_0) xf) (dec_xh d)\<rparr>), side_view old side)"
    unfolding decode_def Let_def par r(6) s bind.bind_lunit prod.case less_irrefl if_False view side_view_fields(1) r(2)
      option.map r(5) by simp
  ultimately show ?thesis using r(3,4,6,7) w(1) by blast
qed

section \<open>A sample frame\<close>

text \<open>A frame of 7.5 ms at 8 kHz, on 40 bytes, with two coefficients.\<close>

definition sample_side :: side_data where
  "sample_side = \<lparr>sd_bw = 0, sd_pitch_present = True,
     sd_ltpf = \<lparr>ltpf_active = True, ltpf_pitch_index = 300\<rparr>,
     sd_sns = \<lparr>sns_lfcb = 3, sns_hfcb = 17, sns_shape = 0, sns_gain = 1, sns_idx_a = 1234567, sns_idx_b = 4,
               sns_ls_a = True, sns_ls_b = False\<rparr>,
     sd_tns = \<lparr>nfilters = 1, lpc_weighting = True, rc_order = [0, 0], rc = [replicate 8 0, replicate 8 0]\<rparr>,
     sd_spec = \<lparr>side_g_idx = 120, side_nq = 2, side_lsb_mode = False\<rparr>\<rparr>"

definition empty_side :: side_data where
  "empty_side = \<lparr>sd_bw = 0, sd_pitch_present = False, sd_ltpf = \<lparr>ltpf_active = False, ltpf_pitch_index = 0\<rparr>,
     sd_sns = \<lparr>sns_lfcb = 0, sns_hfcb = 0, sns_shape = 0, sns_gain = 0, sns_idx_a = 0, sns_idx_b = 0,
               sns_ls_a = False, sns_ls_b = False\<rparr>,
     sd_tns = \<lparr>nfilters = 0, lpc_weighting = False, rc_order = [0, 0], rc = [replicate 8 0, replicate 8 0]\<rparr>,
     sd_spec = \<lparr>side_g_idx = 0, side_nq = 0, side_lsb_mode = False\<rparr>\<rparr>"

definition sample_xq :: "u16 list" where
  "sample_xq = [7, 2] @ replicate 58 0"

definition sample_encoder :: lc3_encoder where
  "sample_encoder = (case lc3_setup_encoder 7500 8000 0 True of Some e \<Rightarrow> e)"

definition sample_decoder :: lc3_decoder where
  "sample_decoder = (case lc3_setup_decoder 7500 8000 0 True of Some d \<Rightarrow> d)"

text \<open>Its operations, up to the residual bits.\<close>

definition sample_frame_ops :: "bit_op list" where
  "sample_frame_ops = [Bits 0 5, Bits 0 1, Bits 120 8, Bits 0 1, Bits 1 1, Bits 3 5, Bits 17 5, Bits 0 1, Bits 1 1,
     Bits 1 1, Bits 25134607 25, Bits 1 1, Bits 300 9, Bits 7 3, Bits 1 1, Bits 0 1,
     Sym (ac_model [(0, 3), (3, 5), (8, 5), (13, 5), (18, 5), (23, 7), (30, 7), (37, 7), (44, 4), (48, 7),
       (55, 7), (62, 6), (68, 4), (72, 6), (78, 6), (84, 6), (90, 934)]) 7]"

lemma sample_encoder_fields:
  "enc_dt sample_encoder = LC3_DT_7M5" "enc_sr sample_encoder = LC3_SRATE_8K" "enc_xs sample_encoder = replicate 60 f32_0"
  by code_simp+

lemma sample_decoder_fields:
  "dec_dt sample_decoder = LC3_DT_7M5" "dec_sr sample_decoder = LC3_SRATE_8K" "length (dec_xs sample_decoder) = 60"
  by code_simp+

lemma sample_noise: "estimate_noise LC3_DT_7M5 0 sample_xq 2 (replicate 60 f32_0) = 7"
  by code_simp

lemma sample_side_ops: "side_ops LC3_DT_7M5 LC3_SRATE_8K sample_side = take 13 sample_frame_ops"
  by code_simp

lemma sample_pairs: "pairs_of LC3_DT_7M5 LC3_SRATE_8K 2 = [(0, 0)]"
  by code_simp

lemma sample_lookup: "lc3_spectrum_lookup (Suc 0) 0 0 = [31, 16, 60, 13]"
  by (simp add: lc3_spectrum_lookup_def lc3_spectrum_lookup_10_def)

lemma sample_model_31: "lc3_spectrum_models ! 31 = ac_model [(0, 3), (3, 5), (8, 5), (13, 5), (18, 5), (23, 7), (30, 7),
   (37, 7), (44, 4), (48, 7), (55, 7), (62, 6), (68, 4), (72, 6), (78, 6), (84, 6), (90, 934)]"
  by (simp add: lc3_spectrum_models_def lc3_spectrum_models_0_def lc3_spectrum_models_1_def nth_append)

lemma sample_rate: "resolve_high_rate LC3_SRATE_8K 40"
  by code_simp

lemma sample_pre_ops:
  "spec_pre_ops LC3_DT_7M5 LC3_SRATE_8K 40 7 (sd_spec sample_side) sample_xq = drop 13 sample_frame_ops"
proof -
  have x: "xq_abs sample_xq 0 = 3" "xq_abs sample_xq (0 + 1) = 1" "xq_neg sample_xq 0 = 1" "xq_neg sample_xq (0 + 1) = 0"
    by code_simp+
  have k: "pair_skip False 3 1 = 0" "pair_shift False 3 1 = 0" "pair_coded False 3 1 3 = 3" "pair_coded False 3 1 1 = 1"
    "drop_bit (2 + 0) (3 OR 1) = (0 :: int)"
    by code_simp+
  have s: "side_lsb_mode (sd_spec sample_side) = False" "side_nq (sd_spec sample_side) = 2" by (simp_all add: sample_side_def)
  have p: "pair_ops [31, 16, 60, 13] False 3 1 1 0 = [Bits 1 1, Bits 0 1, Sym (lc3_spectrum_models ! 31) 7]"
    unfolding pair_ops_def Let_def k sign_ops_def by (simp add: esc_ops.simps)
  have "quant_ops (spec_lookup LC3_SRATE_8K 40) False sample_xq [(0, 0)] 0 = [Bits 1 1, Bits 0 1, Sym (lc3_spectrum_models ! 31) 7]"
    unfolding quant_ops.simps Let_def x by (simp add: sample_rate sample_lookup p)
  then show ?thesis
    unfolding spec_pre_ops_def s sample_pairs sample_model_31 by (simp add: sample_frame_ops_def)
qed

lemma sample_valid:
  "side_valid LC3_DT_7M5 LC3_SRATE_8K 40 sample_side"
  "spec_coefs_valid LC3_DT_7M5 LC3_SRATE_8K (sd_spec sample_side) sample_xq"
  "length (rc_order (sd_tns empty_side)) = 2"
  by code_simp+

lemma sample_frame_fits: "frame_fits sample_encoder sample_side sample_xq (replicate 40 0)"
proof -
  let ?W = "lc3_setup_bits LC3_BITS_MODE_WRITE (replicate 40 0)"
  have nq: "0 \<le> side_nq (sd_spec sample_side)" by (simp add: sample_side_def)
  have f: "sd_bw sample_side = 0" "side_nq (sd_spec sample_side) = 2" by (simp_all add: sample_side_def)
  have "frame_bits sample_encoder sample_side sample_xq (replicate 40 0) =
      Option.bind (wr_ops (take 13 sample_frame_ops @ drop 13 sample_frame_ops) ?W)
        (\<lambda>b. wr_ops (spec_tail_ops (sd_spec sample_side) sample_xq (replicate 60 f32_0) (lc3_get_bits_left b)) b)"
    unfolding frame_bits_def sample_encoder_fields side_put_ops [OF sample_valid(1)] sample_side_ops length_replicate of_nat_numeral
      spec_encode_ops [OF nq] f sample_noise sample_pre_ops wr_ops_append bind_assoc ..
  moreover have "spec_tail_ops (sd_spec sample_side) sample_xq (replicate 60 f32_0) 242 = [Bits 1 1, Bits 0 1]" by code_simp
  moreover have "case Option.bind (wr_ops sample_frame_ops ?W) (\<lambda>b. if lc3_get_bits_left b = 242 then wr_ops [Bits 1 1, Bits 0 1] b else None) of
      Some w \<Rightarrow> 0 \<le> get_bits_left w | None \<Rightarrow> False" by code_simp
  ultimately show ?thesis
    by (auto simp: frame_fits_def bind_eq_Some_conv split: option.splits if_splits)
qed

theorem frame_roundtrip_witness:
  "\<exists>data d. encode sample_encoder sample_side sample_xq (replicate 40 0) = Some data \<and> length data = 40 \<and>
     decode sample_decoder data empty_side = Some (0, d, side_view empty_side sample_side)"
proof -
  note f = sample_encoder_fields sample_decoder_fields
  have par: "dec_dt sample_decoder = enc_dt sample_encoder" "dec_sr sample_decoder = enc_sr sample_encoder" by (simp_all add: f)
  have len: "nat (side_nq (sd_spec sample_side)) \<le> length (dec_xs sample_decoder)" by (simp add: f sample_side_def)
  have v: "side_valid (enc_dt sample_encoder) (enc_sr sample_encoder) (int (length (replicate 40 (0 :: u8)))) sample_side"
    "spec_coefs_valid (enc_dt sample_encoder) (enc_sr sample_encoder) (sd_spec sample_side) sample_xq"
    unfolding f using sample_valid by simp_all
  from frame_roundtrip [OF par v sample_frame_fits sample_valid(3) len]
  show ?thesis by (auto simp: Let_def)
qed

theorem side_roundtrip_witness:
  "\<exists>w r. encode_side LC3_DT_7M5 LC3_SRATE_8K sample_side (lc3_setup_bits LC3_BITS_MODE_WRITE (replicate 40 0)) = Some w \<and>
     decode_side LC3_DT_7M5 LC3_SRATE_8K 40 empty_side (lc3_setup_bits LC3_BITS_MODE_READ (stream_of w)) =
       Some (0, side_view empty_side sample_side, r)"
proof -
  let ?W = "lc3_setup_bits LC3_BITS_MODE_WRITE (replicate 40 0)"
  have "case wr_ops (take 13 sample_frame_ops) ?W of Some w \<Rightarrow> 0 \<le> get_bits_left w | None \<Rightarrow> False" by code_simp
  then obtain w where w: "wr_ops (take 13 sample_frame_ops) ?W = Some w" "0 \<le> get_bits_left w"
    by (auto split: option.splits)
  have e: "encode_side LC3_DT_7M5 LC3_SRATE_8K sample_side ?W = Some w"
    using w(1) side_put_ops [OF sample_valid(1)] by (simp add: sample_side_ops)
  have nil: "list_all op_ok []" "wr_ops [] bits = Some bits" for bits by simp_all
  have v: "side_valid LC3_DT_7M5 LC3_SRATE_8K (int (length (replicate 40 (0 :: u8)))) sample_side"
    using sample_valid(1) by simp
  from side_roundtrip [OF v sample_valid(3) nil(1) e nil(2) w(2)] e show ?thesis by auto
qed

theorem spec_roundtrip_witness:
  "\<exists>w r0 x r. rd_ops (take 13 sample_frame_ops) (lc3_setup_bits LC3_BITS_MODE_READ (stream_of w)) = Some r0 \<and>
     lc3_spec_decode r0 LC3_DT_7M5 LC3_SRATE_8K 0 40 (sd_spec sample_side) (replicate 60 f32_0) = Some (0, x, r)"
proof -
  let ?W = "lc3_setup_bits LC3_BITS_MODE_WRITE (replicate 40 0)"
  let ?x = "replicate 60 f32_0"
  obtain w where w: "frame_bits sample_encoder sample_side sample_xq (replicate 40 0) = Some w" "0 \<le> get_bits_left w"
    using sample_frame_fits by (auto simp: frame_fits_def split: option.splits)
  obtain w0 where w0: "encode_side LC3_DT_7M5 LC3_SRATE_8K sample_side ?W = Some w0"
    "lc3_spec_encode w0 LC3_DT_7M5 LC3_SRATE_8K 0 40 sample_xq (sd_spec sample_side) ?x = Some w"
    using w(1) by (auto simp: frame_bits_def sample_encoder_fields bind_eq_Some_conv sample_side_def)
  have ops: "wr_ops (take 13 sample_frame_ops) ?W = Some w0"
    using w0(1) side_put_ops [OF sample_valid(1)] by (simp add: sample_side_ops)
  have ok: "list_all op_ok (take 13 sample_frame_ops)" "19 \<le> plain_bits (take 13 sample_frame_ops)"
    "nat (side_nq (sd_spec sample_side)) \<le> length ?x" by code_simp+
  from spec_roundtrip [OF sample_valid(2) ok(1,2) ops w0(2) w(2) ok(3)] show ?thesis by blast
qed

end
