(* ===== verification/DecoderState.thy ===== *)
theory DecoderState
  imports LtpfProps Frame
begin

text \<open>
  The invariant of the decoder: the sizes of its buffers, the position of the frame in the
  ring, and the lag of the postfilter, which stays in the ring. Every call keeps it, and
  returns, whatever the bytes of the frame are.
\<close>

section \<open>The side data\<close>

lemma decode_side_total:
  assumes v: "valid_dt dt" "valid_sr sr" and wf: "rd_wf bits" and old: "tns_dims (sd_tns old)"
  obtains ret side bits' where "decode_side dt sr nbytes old bits = Some (ret, side, bits')"
    "rd_wf bits'" "ret = 0 \<or> ret = -1" "ret = 0 \<Longrightarrow> side_valid dt sr nbytes side"
proof -
  obtain ret1 bw b1 where 1: "lc3_bwdet_get_bw bits sr = (ret1, bw, b1)" by (cases "lc3_bwdet_get_bw bits sr" rule: prod_cases3)
  note w1 = bwdet_get_total [OF v(2) wf 1]
  obtain ret2 spec b2 where 2: "lc3_spec_get_side b1 dt sr = (ret2, spec, b2)" by (cases "lc3_spec_get_side b1 dt sr" rule: prod_cases3)
  note w2 = spec_side_get_total [OF v w1(1) 2]
  obtain tns b3 where 3: "lc3_tns_get_data b2 dt bw nbytes (sd_tns old) = Some (tns, b3)"
    "tns_valid dt bw nbytes tns" "rd_wf b3"
    by (rule lc3_tns_get_data_total [OF w2(1) old]) blast
  obtain p b4 where 4: "lc3_get_bit b3 = (p, b4)" by (cases "lc3_get_bit b3")
  have w4: "rd_wf b4" by (rule lc3_get_bit_wf [OF 3(3) 4])
  obtain ret5 sns b5 where 5: "lc3_sns_get_data b4 = (ret5, sns, b5)" by (cases "lc3_sns_get_data b4" rule: prod_cases3)
  note w5 = sns_get_total [OF w4 5]
  obtain a b6 where 6: "lc3_get_bit b5 = (a, b6)" by (cases "lc3_get_bit b5")
  have w6: "rd_wf b6" by (rule lc3_get_bit_wf [OF w5(1) 6])
  obtain i b7 where 7: "lc3_get_bits b6 9 = (i, b7)" by (cases "lc3_get_bits b6 9")
  have w7: "rd_wf b7" "uint i < 512" using lc3_get_bits_wf(1,2) [OF w6 _ _ 7] by simp_all
  have l: "lc3_ltpf_get_data b5 = (\<lparr>ltpf_active = (a \<noteq> 0), ltpf_pitch_index = uint i\<rparr>, b7)"
    by (simp add: lc3_ltpf_get_data_def 6 7)
  note get = decode_side_def 1 2 3(1) 4 5 l
  show thesis
  proof (cases "ret1 < 0")
    case True
    then have "decode_side dt sr nbytes old bits = Some (ret1, old\<lparr>sd_bw := bw\<rparr>, b1)" by (simp add: get)
    from that [OF this w1(1,2)] True show thesis by auto
  next
    case r1: False
    show thesis
    proof (cases "ret2 < 0")
      case True
      then have "decode_side dt sr nbytes old bits = Some (ret2, old\<lparr>sd_bw := bw, sd_spec := spec\<rparr>, b2)"
        using r1 by (simp add: get)
      from that [OF this w2(1,2)] True show thesis by auto
    next
      case r2: False
      let ?side = "old\<lparr>sd_bw := bw, sd_spec := spec, sd_tns := tns, sd_pitch_present := p \<noteq> 0, sd_sns := sns\<rparr>"
      show thesis
      proof (cases "ret5 < 0")
        case True
        then have "decode_side dt sr nbytes old bits = Some (ret5, ?side, b5)" using r1 r2 by (simp add: get)
        from that [OF this w5(1,2)] True show thesis by auto
      next
        case False
        then have v: "sns_valid sns" "spec_side_valid dt sr spec" using w5(2,3) w2(2,3) r2 by auto
        show thesis
        proof (cases "p = 0")
          case True
          then have "decode_side dt sr nbytes old bits = Some (0, ?side, b5)" using r1 r2 False by (simp add: get)
          from that [OF this w5(1)] True v w1(3) 3(2) show thesis by (simp add: side_valid_def)
        next
          case p: False
          then have "decode_side dt sr nbytes old bits =
              Some (0, ?side\<lparr>sd_ltpf := \<lparr>ltpf_active = (a \<noteq> 0), ltpf_pitch_index = uint i\<rparr>\<rparr>, b7)"
            using r1 r2 False by (simp add: get)
          from that [OF this w7(1)] w7(2) v w1(3) 3(2) show thesis by (simp add: side_valid_def ltpf_valid_def)
        qed
      qed
    qed
  qed
qed

section \<open>The sizes of the buffers\<close>

lemma length_sns_synthesize: "length (lc3_sns_synthesize dt sr d x y) = length y"
proof -
  let ?I = "\<lambda>st :: nat \<times> f32 list. length (snd st) = length y"
  have "?I (foldl (\<lambda>(i, y) ib. (h i ib, foldl (\<lambda>y i. y[i := g ib i]) y (js i ib))) (0, y) is)" for h g js "is"
    by (rule foldl_invariant) (auto simp: length_foldl)
  then show ?thesis
    unfolding lc3_sns_synthesize_def spectral_shaping_def Let_def by simp
qed

lemma length_mdct_inverse:
  assumes "lc3_mdct_inverse dt sr sr_src x d = (d', y)"
  shows "length d' = length d" "length y = nat (LC3_NS dt sr)"
proof -
  let ?I = "\<lambda>st :: f32 list \<times> f32 list. length (fst st) = length d \<and> length (snd st) = nat (LC3_NS dt sr)"
  have two: "length d2 = length d \<and> length y2 = length y0"
    if "foldl (\<lambda>(d, y) t. (d[f t := u t], y[g t := w t])) (d, y0) is = (d2, y2)"
    for f g :: "nat \<Rightarrow> nat" and u w :: "nat \<Rightarrow> f32" and y0 "is" d2 y2
  proof -
    let ?J = "\<lambda>st :: f32 list \<times> f32 list. length (fst st) = length d \<and> length (snd st) = length y0"
    have "?J (foldl (\<lambda>(d, y) t. (d[f t := u t], y[g t := w t])) (d, y0) is)"
      by (rule foldl_invariant [where I = ?J]) auto
    then show ?thesis unfolding that by simp
  qed
  have "?I (imdct_window dt sr f d (replicate (nat (LC3_NS dt sr)) f32_0))" for f
    unfolding imdct_window_def Let_def by (auto simp: length_foldl split: prod.split dest!: two)
  then show "length d' = length d" "length y = nat (LC3_NS dt sr)"
    using assms unfolding lc3_mdct_inverse_def Let_def by (metis fst_conv, metis snd_conv)
qed

lemma length_mdct_inverse_both:
  "lc3_mdct_inverse dt sr sr_src x d = (d', y) \<Longrightarrow> length d' = length d \<and> length y = nat (LC3_NS dt sr)"
  using length_mdct_inverse by blast

section \<open>The invariant\<close>

definition decoder_ok :: "lc3_decoder \<Rightarrow> bool" where
  "decoder_ok d \<longleftrightarrow>
     valid_dt (dec_dt d) \<and> valid_sr (dec_sr d) \<and> valid_sr (dec_sr_pcm d) \<and> dec_sr d \<le> dec_sr_pcm d \<and>
     length (dec_xh d) = nat (LC3_NH (dec_dt d) (dec_sr_pcm d)) \<and>
     dec_px d mod dec_ns d = 0 \<and> dec_px d + dec_ns d \<le> length (dec_xh d) \<and>
     length (dec_xd d) = nat (LC3_ND (dec_dt d) (dec_sr_pcm d)) \<and> length (dec_xg d) = dec_ns d \<and>
     ltpf_state_ok (dec_dt d) (dec_sr_pcm d) (dec_ltpf d)"

lemma LC3_NS_mono: "valid_sr sr' \<Longrightarrow> sr \<le> sr' \<Longrightarrow> LC3_NS dt sr \<le> LC3_NS dt sr'"
  by (elim valid_srE; cases sr; cases dt; simp add: LC3_NS_def enum_order)

lemma geometry:
  assumes "valid_dt dt" "valid_sr sr"
  shows "0 < LC3_NS dt sr" "LC3_NS dt sr < LC3_NH dt sr" "LC3_NH dt sr = (4 - dt_int dt) * LC3_NS dt sr"
    "0 < LC3_NE dt (sr_int sr)" "LC3_NE dt (sr_int sr) \<le> LC3_NS dt sr"
  using assms by (elim valid_dtE valid_srE; simp add: LC3_NS_def LC3_NH_def LC3_NE_def)+

lemma complete_ok: "decoder_ok d \<Longrightarrow> decoder_ok (complete d)"
proof -
  assume ok: "decoder_ok d"
  then have v: "valid_dt (dec_dt d)" "valid_sr (dec_sr_pcm d)" by (simp_all add: decoder_ok_def)
  note g = geometry [OF v]
  define ns nh where "ns = dec_ns d" and "nh = nat (LC3_NH (dec_dt d) (dec_sr_pcm d))"
  have n: "int ns = LC3_NS (dec_dt d) (dec_sr_pcm d)" "int nh = LC3_NH (dec_dt d) (dec_sr_pcm d)" "ns < nh" "0 < ns"
    using g by (auto simp: ns_def nh_def dec_ns_def)
  define m where "m = nat (4 - dt_int (dec_dt d))"
  have m: "nh = m * ns" using g(3) n v(1) by (auto simp: m_def nat_mult_distrib elim!: valid_dtE simp flip: of_nat_eq_iff)
  have px: "dec_px d mod ns = 0" "dec_px d + ns \<le> nh" using ok by (simp_all add: decoder_ok_def ns_def nh_def)
  show ?thesis
  proof (cases "int (dec_px d) < LC3_NH (dec_dt d) (dec_sr_pcm d) - LC3_NS (dec_dt d) (dec_sr_pcm d)")
    case True
    then have "dec_px d < nh - ns" using n by linarith
    obtain q where q: "dec_px d = q * ns" using px(1) by (metis mod_0_imp_dvd dvdE mult.commute)
    have "q * ns < (m - 1) * ns" using \<open>dec_px d < nh - ns\<close> unfolding q m by (simp add: diff_mult_distrib)
    then have "q + 1 \<le> m - 1" by simp
    then have "(q + 1) * ns \<le> (m - 1) * ns" by (rule mult_right_mono) simp
    then have "dec_px d + ns + ns \<le> nh" using n(3) unfolding q m by (simp add: algebra_simps diff_mult_distrib)
    then show ?thesis
      using True ok px n(1) by (simp add: complete_def Let_def decoder_ok_def dec_ns_def ns_def nh_def)
  next
    case False
    then show ?thesis
      using ok n(3) by (simp add: complete_def Let_def decoder_ok_def dec_ns_def ns_def nh_def)
  qed
qed

lemma length_dec_xs: "decoder_ok d \<Longrightarrow> length (dec_xs d) = dec_ns d"
  by (auto simp: decoder_ok_def dec_xs_def slice_def min_def)

lemma decode_total:
  assumes ok: "decoder_ok d" and old: "tns_dims (sd_tns old)"
  obtains ret xh side where "decode d data old = Some (ret, d\<lparr>dec_xh := xh\<rparr>, side)" "ret = 0 \<or> ret = -1"
    "length xh = length (dec_xh d)" "ret = 0 \<Longrightarrow> side_valid (dec_dt d) (dec_sr d) (int (length data)) side"
proof -
  have v: "valid_dt (dec_dt d)" "valid_sr (dec_sr d)" "valid_sr (dec_sr_pcm d)" "dec_sr d \<le> dec_sr_pcm d"
    and px: "dec_px d + dec_ns d \<le> length (dec_xh d)" using ok by (simp_all add: decoder_ok_def)
  obtain ret1 side bits where 1: "decode_side (dec_dt d) (dec_sr d) (int (length data)) old
      (lc3_setup_bits LC3_BITS_MODE_READ data) = Some (ret1, side, bits)" "rd_wf bits" "ret1 = 0 \<or> ret1 = -1"
    "ret1 = 0 \<Longrightarrow> side_valid (dec_dt d) (dec_sr d) (int (length data)) side"
    by (rule decode_side_total [OF v(1,2) setup_read_wf old]) blast
  obtain ret2 xf bits2 where 2: "lc3_spec_decode bits (dec_dt d) (dec_sr d) (sd_bw side) (int (length data)) (sd_spec side)
      (dec_xs d) = Some (ret2, xf, bits2)" "length xf = length (dec_xs d)" "ret2 = 0 \<or> ret2 = -1"
    by (rule lc3_spec_decode_total [OF 1(2)]) blast
  note get = decode_def Let_def 1(1) 2(1) bind.bind_lunit prod.case option.map
  show thesis
  proof (cases "ret1 < 0")
    case True
    then show thesis using that [of ret1 "dec_xh d" side] 1(3) unfolding get by auto
  next
    case r1: False
    have xf: "length xf = dec_ns d" using 2(2) length_dec_xs [OF ok] by simp
    show thesis
    proof (cases "ret2 < 0")
      case True
      then show thesis
        using that [of ret2 "put_at (dec_px d) xf (dec_xh d)" side] r1 2(3) px xf unfolding get by (auto simp: length_put_at)
    next
      case False
      define ne ns where "ne = nat (LC3_NE (dec_dt d) (sr_int (dec_sr d)))" and "ns = nat (LC3_NS (dec_dt d) (dec_sr d))"
      have "ns \<le> dec_ns d" unfolding ns_def dec_ns_def using LC3_NS_mono [OF v(3,4)] by (rule nat_mono)
      moreover have "ne \<le> ns" unfolding ne_def ns_def using geometry(5) [OF v(1,2)] by (rule nat_mono)
      ultimately have "length (put_at ne (replicate (ns - ne) f32_0) xf) = dec_ns d" using xf by (simp add: length_put_at)
      moreover have "lc3_check_bits bits2 = 0 \<or> lc3_check_bits bits2 = -1" by (simp add: lc3_check_bits_def)
      ultimately show thesis
        using that [of "lc3_check_bits bits2" "put_at (dec_px d) (put_at ne (replicate (ns - ne) f32_0) xf) (dec_xh d)" side]
          r1 False 1(3,4) px unfolding get ne_def [symmetric] ns_def [symmetric]
        by (auto simp: length_put_at)
    qed
  qed
qed

lemma synthesize_ok:
  assumes ok: "decoder_ok d" and side: "\<And>s. side = Some s \<Longrightarrow> sd_pitch_present s \<Longrightarrow> ltpf_valid (sd_ltpf s)"
  shows "decoder_ok (synthesize d side nbytes)"
proof -
  let ?dt = "dec_dt d" and ?sr = "dec_sr d" and ?pcm = "dec_sr_pcm d"
  have v: "valid_dt ?dt" "valid_sr ?pcm" and px: "dec_px d + dec_ns d \<le> length (dec_xh d)"
    and xh: "length (dec_xh d) = nat (LC3_NH ?dt ?pcm)" and xd: "length (dec_xd d) = nat (LC3_ND ?dt ?pcm)"
    and xg: "length (dec_xg d) = dec_ns d" and lt: "ltpf_state_ok ?dt ?pcm (dec_ltpf d)"
    using ok by (simp_all add: decoder_ok_def)
  define st where "st =
            (case side of
               Some side \<Rightarrow>
                 (let plc = lc3_plc_suspend (dec_plc d);
                      xf = lc3_tns_synthesize ?dt (sd_bw side) (sd_tns side) (dec_xs d);
                      xg = lc3_sns_synthesize ?dt ?sr (sd_sns side) xf (dec_xg d);
                      (xd, xs) = lc3_mdct_inverse ?dt ?pcm ?sr xg (dec_xd d)
                  in (plc, xg, xd, xs))
             | None \<Rightarrow>
                 (let (plc, xf) = lc3_plc_synthesize ?dt ?sr (dec_plc d) (dec_xg d);
                      xf = xf @ replicate (nat (LC3_NS ?dt ?pcm) - nat (LC3_NE ?dt (sr_int ?sr))) f32_0;
                      (xd, xs) = lc3_mdct_inverse ?dt ?pcm ?sr xf (dec_xd d)
                  in (plc, dec_xg d, xd, xs)))"
  obtain plc xg' xd' xs where e: "st = (plc, xg', xd', xs)" by (cases st rule: prod_cases4)
  have l: "length xg' = dec_ns d" "length xd' = nat (LC3_ND ?dt ?pcm)" "length xs = dec_ns d"
    using e xd xg unfolding st_def Let_def
    by (auto simp: dec_ns_def length_sns_synthesize dest!: length_mdct_inverse_both split: option.splits prod.splits)
  define data where "data = (case side of Some side \<Rightarrow> if sd_pitch_present side then Some (sd_ltpf side) else None | None \<Rightarrow> None)"
  obtain ltpf xh' where f: "lc3_ltpf_synthesize ?dt ?pcm nbytes (dec_ltpf d) data (dec_px d) (put_at (dec_px d) xs (dec_xh d)) = (ltpf, xh')"
    by (cases "lc3_ltpf_synthesize ?dt ?pcm nbytes (dec_ltpf d) data (dec_px d) (put_at (dec_px d) xs (dec_xh d))")
  have dv: "data = Some x \<Longrightarrow> ltpf_valid x" for x using side by (auto simp: data_def split: option.splits if_splits)
  have xl: "length (put_at (dec_px d) xs (dec_xh d)) = nat (LC3_NH ?dt ?pcm)" using px l(3) xh by (simp add: length_put_at)
  have "ltpf_state_ok ?dt ?pcm ltpf" "length xh' = nat (LC3_NH ?dt ?pcm)"
    using ltpf_synthesize_ok [OF v lt dv xl _ f] px xl xh by (simp_all add: dec_ns_def)
  moreover have "synthesize d side nbytes = d\<lparr>dec_plc := plc, dec_xg := xg', dec_xd := xd', dec_ltpf := ltpf, dec_xh := xh'\<rparr>"
    unfolding synthesize_def Let_def st_def [unfolded Let_def, symmetric] e prod.case data_def [symmetric] f ..
  ultimately show ?thesis
    using ok l by (simp add: decoder_ok_def dec_ns_def)
qed

text \<open>The initial state.\<close>

lemma resolve_valid: "\<not> resolve_dt us \<ge> LC3_NUM_DT \<longleftrightarrow> us = 7500 \<or> us = 10000"
  "\<not> resolve_sr hz \<ge> LC3_NUM_SRATE \<longleftrightarrow> hz \<in> {8000, 16000, 24000, 32000, 48000}"
  by (simp_all add: resolve_dt_def resolve_sr_def enum_order)

lemma resolve_valid_enum: "valid_dt (resolve_dt us) \<longleftrightarrow> us = 7500 \<or> us = 10000"
  "valid_sr (resolve_sr hz) \<longleftrightarrow> hz \<in> {8000, 16000, 24000, 32000, 48000}"
  using resolve_valid(1) [of us] resolve_valid(2) [of hz] by (auto simp: valid_dt_def valid_sr_def not_le)

lemma plain_lag_ok: "valid_dt dt \<Longrightarrow> valid_sr sr \<Longrightarrow> lag_ok dt sr 0"
  by (elim valid_dtE valid_srE; simp add: lag_ok_def cdiv_def synthesize_width_def LC3_NH_def LC3_NS_def)

lemma setup_decoder_ok:
  assumes "lc3_setup_decoder dt_us sr_hz sr_pcm_hz mem = Some d"
  shows "decoder_ok d" "dec_dt d = resolve_dt dt_us" "dec_sr d = resolve_sr sr_hz"
    "dec_sr_pcm d = resolve_sr (if sr_pcm_hz \<le> 0 then sr_hz else sr_pcm_hz)"
proof -
  define pcm where "pcm = (if sr_pcm_hz \<le> 0 then sr_hz else sr_pcm_hz)"
  define dt sr sp where "dt = resolve_dt dt_us" and "sr = resolve_sr sr_hz" and "sp = resolve_sr pcm"
  have c: "valid_dt dt" "valid_sr sp" "sr \<le> sp" and
    d: "d = \<lparr>dec_dt = dt, dec_sr = sr, dec_sr_pcm = sp,
          dec_ltpf = \<lparr>sy_active = False, sy_pitch = 0, sy_c = replicate 24 f32_0, sy_x = replicate 12 f32_0\<rparr>,
          dec_plc = lc3_plc_reset \<lparr>seed = 0, count = 0, alpha = f32_0\<rparr>,
          dec_xh = replicate (nat (LC3_NH dt sp)) f32_0, dec_px = nat (LC3_NH dt sp) - nat (LC3_NS dt sp),
          dec_xd = replicate (nat (LC3_ND dt sp)) f32_0, dec_xg = replicate (nat (LC3_NS dt sp)) f32_0\<rparr>"
    using assms unfolding lc3_setup_decoder_def Let_def pcm_def [symmetric] dt_def [symmetric] sr_def [symmetric] sp_def [symmetric]
    by (auto simp: valid_dt_def valid_sr_def not_le not_less split: if_splits)
  have "valid_sr sr" using c(2,3) unfolding valid_sr_def by (rule le_less_trans [rotated])
  moreover have "(nat (LC3_NH dt sp) - nat (LC3_NS dt sp)) mod nat (LC3_NS dt sp) = 0"
    "nat (LC3_NS dt sp) \<le> nat (LC3_NH dt sp)"
    using c(1,2) by (elim valid_dtE valid_srE; simp add: LC3_NS_def LC3_NH_def)+
  ultimately show "decoder_ok d" using c plain_lag_ok [OF c(1,2)]
    by (simp add: d decoder_ok_def dec_ns_def ltpf_state_ok_def)
  show "dec_dt d = resolve_dt dt_us" "dec_sr d = resolve_sr sr_hz" "dec_sr_pcm d = resolve_sr (if sr_pcm_hz \<le> 0 then sr_hz else sr_pcm_hz)"
    by (simp_all add: d dt_def sr_def sp_def pcm_def)
qed

lemma lc3_decode_total:
  assumes ok: "decoder_ok d" and side: "tns_dims (sd_tns side0)" and False: "\<not> (input \<noteq> None \<and> (nbytes < 20 \<or> nbytes > 400))"
  shows "\<exists>ret d' pcm'. lc3_decode side0 (Some d) input nbytes pcm stride = Some (ret, Some d', pcm') \<and> decoder_ok d' \<and>
    (ret = 0 \<or> ret = 1) \<and> (input = None \<longrightarrow> ret = 1)"
proof -
  obtain ret d1 side where 1: "(case input of None \<Rightarrow> Some (True, d, side0)
      | Some b \<Rightarrow> map_option (\<lambda>(ret, d, side). (ret < 0, d, side)) (decode d (take (nat nbytes) b) side0)) = Some (ret, d1, side)"
    "decoder_ok d1" "\<not> ret \<Longrightarrow> sd_pitch_present side \<Longrightarrow> ltpf_valid (sd_ltpf side)" "input = None \<Longrightarrow> ret"
  proof (cases input)
    case None
    then show thesis using that [of True d side0] ok by simp
  next
    case (Some b)
    obtain r xh s where r: "decode d (take (nat nbytes) b) side0 = Some (r, d\<lparr>dec_xh := xh\<rparr>, s)" "r = 0 \<or> r = -1"
      "length xh = length (dec_xh d)" "r = 0 \<Longrightarrow> side_valid (dec_dt d) (dec_sr d) (int (length (take (nat nbytes) b))) s"
      by (rule decode_total [OF ok side]) blast
    have "decoder_ok (d\<lparr>dec_xh := xh\<rparr>)" using ok r(3) by (simp add: decoder_ok_def dec_ns_def)
    then show thesis using that [of "r < 0" "d\<lparr>dec_xh := xh\<rparr>" s] Some r by (auto simp: side_valid_def)
  qed
  define d2 where "d2 = complete (synthesize d1 (if ret then None else Some side) nbytes)"
  have "decoder_ok d2" unfolding d2_def
    by (intro complete_ok synthesize_ok 1(2)) (use 1(3) in \<open>auto split: if_splits\<close>)
  moreover have "lc3_decode side0 (Some d) input nbytes pcm stride =
      Some (of_bool ret, Some d2, store (synthesize d1 (if ret then None else Some side) nbytes) pcm stride)"
    using False unfolding lc3_decode_def option.case limit_defs
    by (simp only: 1(1) if_False option.map prod.case Let_def d2_def)
  ultimately show ?thesis using False 1(4) by auto
qed

section \<open>Properties\<close>

text \<open>
  C2. A decoder keeps its invariant, and a call always returns, whatever the bytes of the frame
  are: 0 or 1 (the frame is concealed), -1 when the size of the input is out of the range of
  a frame and nothing is changed. Without input the result is 1.
\<close>

theorem lc3_decode_safe:
  assumes ok: "decoder_ok d" and side: "tns_dims (sd_tns side0)"
  shows "\<exists>ret d' pcm'. lc3_decode side0 (Some d) input nbytes pcm stride = Some (ret, Some d', pcm') \<and> decoder_ok d' \<and>
    (if input \<noteq> None \<and> (nbytes < 20 \<or> nbytes > 400) then ret = -1 \<and> d' = d \<and> pcm' = pcm else ret = 0 \<or> ret = 1) \<and>
    (input = None \<longrightarrow> ret = 1)"
proof (cases "input \<noteq> None \<and> (nbytes < 20 \<or> nbytes > 400)")
  case True
  then show ?thesis using ok by (simp add: lc3_decode_def limit_defs)
next
  case False
  from lc3_decode_total [OF ok side this, of pcm stride] False show ?thesis by auto
qed

theorem lc3_decode_safe_witness:
  "\<exists>d ret d' pcm'. lc3_setup_decoder 10000 48000 0 True = Some d \<and>
     lc3_decode empty_side (Some d) (Some (replicate 40 255)) 40 (LC3_PCM_FORMAT_S16 (replicate 480 0)) 1 =
       Some (ret, Some d', pcm') \<and> decoder_ok d'"
proof -
  have "lc3_setup_decoder 10000 48000 0 True \<noteq> None"
    by (simp add: lc3_setup_decoder_def resolve_dt_def resolve_sr_def enum_order Let_def)
  then obtain d where d: "lc3_setup_decoder 10000 48000 0 True = Some d" by blast
  have t: "tns_dims (sd_tns empty_side)" by (simp add: empty_side_def tns_dims_def)
  from lc3_decode_safe [OF setup_decoder_ok(1) [OF d] t, of "Some (replicate 40 255)" 40] d show ?thesis by blast
qed

text \<open>
  C29. A decoder is set up exactly when it has memory, a frame duration and two sample rates of
  the codec, and the PCM rate is not below the one of the stream; it satisfies the invariant,
  and its three buffers have together the size that the macro of the header reserves.
\<close>

theorem lc3_setup_decoder_spec:
  defines "pcm sr_hz sr_pcm_hz \<equiv> if sr_pcm_hz \<le> 0 then sr_hz else (sr_pcm_hz :: int)"
  shows "case lc3_setup_decoder dt_us sr_hz sr_pcm_hz mem of
    None \<Rightarrow> \<not> (mem \<and> (dt_us = 7500 \<or> dt_us = 10000) \<and> pcm sr_hz sr_pcm_hz \<in> {8000, 16000, 24000, 32000, 48000} \<and>
      resolve_sr sr_hz \<le> resolve_sr (pcm sr_hz sr_pcm_hz))
  | Some d \<Rightarrow> mem \<and> (dt_us = 7500 \<or> dt_us = 10000) \<and> pcm sr_hz sr_pcm_hz \<in> {8000, 16000, 24000, 32000, 48000} \<and>
      resolve_sr sr_hz \<le> resolve_sr (pcm sr_hz sr_pcm_hz) \<and> decoder_ok d \<and>
      int (length (dec_xh d) + length (dec_xd d) + length (dec_xg d)) = LC3_DECODER_BUFFER_COUNT dt_us (pcm sr_hz sr_pcm_hz)"
proof -
  let ?p = "pcm sr_hz sr_pcm_hz"
  have cond: "lc3_setup_decoder dt_us sr_hz sr_pcm_hz mem \<noteq> None \<longleftrightarrow>
      mem \<and> (dt_us = 7500 \<or> dt_us = 10000) \<and> ?p \<in> {8000, 16000, 24000, 32000, 48000} \<and> resolve_sr sr_hz \<le> resolve_sr ?p"
    unfolding lc3_setup_decoder_def Let_def pcm_def [symmetric] resolve_valid [symmetric] by (auto simp: not_le)
  have size: "int (length (dec_xh d) + length (dec_xd d) + length (dec_xg d)) = LC3_DECODER_BUFFER_COUNT dt_us ?p"
    if d: "lc3_setup_decoder dt_us sr_hz sr_pcm_hz mem = Some d" for d
  proof -
    note ok = setup_decoder_ok [OF d, folded pcm_def]
    have c: "dt_us = 7500 \<or> dt_us = 10000" "?p = 8000 \<or> ?p = 16000 \<or> ?p = 24000 \<or> ?p = 32000 \<or> ?p = 48000"
      using cond d by auto
    have l: "length (dec_xh d) = nat (LC3_NH (resolve_dt dt_us) (resolve_sr ?p))"
      "length (dec_xd d) = nat (LC3_ND (resolve_dt dt_us) (resolve_sr ?p))"
      "length (dec_xg d) = nat (LC3_NS (resolve_dt dt_us) (resolve_sr ?p))"
      using ok by (simp_all add: decoder_ok_def dec_ns_def)
    show ?thesis unfolding l using c
      by (elim disjE; simp add: resolve_dt_def resolve_sr_def LC3_NH_def LC3_ND_def LC3_NS_def
          LC3_DECODER_BUFFER_COUNT_def PRIV_NH_def PRIV_ND_def PRIV_NS_def cdiv_def)
  qed
  show ?thesis
  proof (cases "lc3_setup_decoder dt_us sr_hz sr_pcm_hz mem")
    case None
    then show ?thesis using cond by simp
  next
    case (Some d)
    then show ?thesis using cond size [OF Some] setup_decoder_ok(1) [OF Some] by auto
  qed
qed

lemma complete_px:
  assumes "decoder_ok d"
  shows "dec_px (complete d) = (dec_px d + dec_ns d) mod length (dec_xh d)"
    "dec_ns (complete d) = dec_ns d" "dec_xh (complete d) = dec_xh d"
proof -
  have v: "valid_dt (dec_dt d)" "valid_sr (dec_sr_pcm d)" using assms by (simp_all add: decoder_ok_def)
  define ns nh where "ns = dec_ns d" and "nh = length (dec_xh d)"
  have n: "int ns = LC3_NS (dec_dt d) (dec_sr_pcm d)" "int nh = LC3_NH (dec_dt d) (dec_sr_pcm d)" "ns < nh"
    using geometry(1,2) [OF v] assms by (auto simp: ns_def nh_def dec_ns_def decoder_ok_def)
  have px: "dec_px d + ns \<le> nh" using assms by (simp add: decoder_ok_def ns_def nh_def)
  have e: "dec_px (complete d) = (if dec_px d < nh - ns then dec_px d + ns else 0)"
    using n px by (auto simp: complete_def Let_def n(1,2) [symmetric])
  show "dec_px (complete d) = (dec_px d + dec_ns d) mod length (dec_xh d)"
    unfolding e ns_def [symmetric] nh_def [symmetric] using px n(3)
    by (cases "dec_px d < nh - ns") (auto simp: le_less less_diff_conv)
  show "dec_ns (complete d) = dec_ns d" "dec_xh (complete d) = dec_xh d" by (simp_all add: complete_def dec_ns_def Let_def)
qed

text \<open>
  C34. The frames go round the ring: after \<open>k\<close> frames the position has advanced by \<open>k\<close> frames
  modulo the ring, so that within any 4 (7.5 ms) or 3 (10 ms) frames every place of the
  ring is used again.
\<close>

theorem ring_rotation:
  assumes "decoder_ok d"
  shows "dec_px ((complete ^^ k) d) = (dec_px d + k * dec_ns d) mod length (dec_xh d) \<and>
    (\<forall>p. p mod dec_ns d = 0 \<longrightarrow> p < length (dec_xh d) \<longrightarrow>
      (\<exists>k < nat (4 - dt_int (dec_dt d)). dec_px ((complete ^^ k) d) = p))"
proof -
  have it: "decoder_ok ((complete ^^ k) d) \<and> dec_ns ((complete ^^ k) d) = dec_ns d \<and> dec_xh ((complete ^^ k) d) = dec_xh d \<and>
      dec_px ((complete ^^ k) d) = (dec_px d + k * dec_ns d) mod length (dec_xh d)" for k
  proof (induction k)
    case 0
    have "dec_px d < length (dec_xh d)"
      using assms geometry(1) [of "dec_dt d" "dec_sr_pcm d"] by (auto simp: decoder_ok_def dec_ns_def)
    then show ?case using assms by simp
  next
    case (Suc k)
    then show ?case
      using complete_ok complete_px [of "(complete ^^ k) d"] by (simp add: mod_add_left_eq mod_add_right_eq algebra_simps)
  qed
  define ns nh m where "ns = dec_ns d" and "nh = length (dec_xh d)" and "m = nat (4 - dt_int (dec_dt d))"
  have v: "valid_dt (dec_dt d)" "valid_sr (dec_sr_pcm d)" using assms by (simp_all add: decoder_ok_def)
  have ns: "0 < ns" using geometry(1) [OF v] by (simp add: ns_def dec_ns_def)
  have nh: "nh = m * ns" using geometry(3) [OF v] v(1) assms
    by (auto simp: nh_def m_def ns_def dec_ns_def decoder_ok_def nat_mult_distrib elim!: valid_dtE)
  obtain q where q: "dec_px d = q * ns" using assms unfolding decoder_ok_def ns_def by (metis mod_0_imp_dvd dvdE mult.commute)
  have "\<exists>k < m. dec_px ((complete ^^ k) d) = p" if p: "p mod ns = 0" "p < nh" for p
  proof -
    obtain r where r: "p = r * ns" using p(1) by (metis mod_0_imp_dvd dvdE mult.commute)
    have rm: "r < m" using p(2) ns unfolding r nh by simp
    define k where "k = (r + m - q mod m) mod m"
    have "q mod m < m" using rm by simp
    then have "q mod m + (r + m - q mod m) = r + m" by simp
    moreover have "(q + k) mod m = (q mod m + (r + m - q mod m)) mod m" unfolding k_def by (simp only: mod_add_eq mod_add_left_eq mod_add_right_eq)
    ultimately have "(q + k) mod m = r" using rm by simp
    then have "(q * ns + k * ns) mod (m * ns) = r * ns" by (metis add_mult_distrib mod_mult_mult2)
    then have "dec_px ((complete ^^ k) d) = p" using it [of k] unfolding q nh_def [symmetric] ns_def [symmetric] nh r by simp
    moreover have "k < m" using rm by (simp add: k_def)
    ultimately show ?thesis by blast
  qed
  then show ?thesis using it unfolding ns_def nh_def m_def by blast
qed

theorem ring_rotation_witness: "\<exists>d. lc3_setup_decoder 10000 16000 0 True = Some d \<and> dec_px ((complete ^^ 3) d) = dec_px d"
proof -
  have "lc3_setup_decoder 10000 16000 0 True \<noteq> None"
    by (simp add: lc3_setup_decoder_def resolve_dt_def resolve_sr_def enum_order Let_def)
  then obtain d where d: "lc3_setup_decoder 10000 16000 0 True = Some d" by blast
  note ok = setup_decoder_ok [OF d]
  have l: "length (dec_xh d) = 480" "dec_ns d = 160" "dec_px d + 160 \<le> 480"
    using ok by (auto simp: decoder_ok_def dec_ns_def resolve_dt_def resolve_sr_def LC3_NH_def LC3_NS_def)
  from ring_rotation [OF ok(1), of 3] l have "dec_px ((complete ^^ 3) d) = (dec_px d + 480) mod 480" by simp
  then show ?thesis using d l(3) by auto
qed

end
