(* ===== verification/Wrappers.thy ===== *)
theory Wrappers
  imports DecoderState
begin

text \<open>
  The callers of the decoder in the application: the JNI function of \<^verbatim>\<open>liblc3.cpp\<close> on Android
  and the class of \<^verbatim>\<open>PcmConverter.m\<close> on iOS. Both cut a payload in frames of 20 bytes, of 10 ms at
  16 kHz, and give the samples back as bytes. What decodes a frame is an argument of the
  definitions, as each platform has its copy of the codec; the properties are those of the
  decoder of \<^verbatim>\<open>lc3.c\<close>.
\<close>

type_synonym 's frame_decoder = "'s \<Rightarrow> u8 list \<Rightarrow> int list \<Rightarrow> (int \<times> 's \<times> int list) option"

text \<open>The call of \<open>lc3_decode\<close> that both make, on a buffer of 16-bit samples.\<close>

definition lc3_frame :: "side_data \<Rightarrow> lc3_decoder frame_decoder" where
  "lc3_frame side0 d input fb =
     map_option (\<lambda>(status, d', pcm). (status, the d', case pcm of LC3_PCM_FORMAT_S16 b \<Rightarrow> b | _ \<Rightarrow> fb))
       (lc3_decode side0 (Some d) (Some input) 20 (LC3_PCM_FORMAT_S16 fb) 1)"

definition kFrameDurationUs :: int where "kFrameDurationUs = 10000"
definition kSampleRateHz :: int where "kSampleRateHz = 16000"
definition kEncodedFrameBytes :: nat where "kEncodedFrameBytes = 20"

lemmas wrapper_constants = kFrameDurationUs_def kSampleRateHz_def kEncodedFrameBytes_def

text \<open>A sample in memory, on the little-endian targets of the application.\<close>

definition s16_bytes :: "int list \<Rightarrow> u8 list" where
  "s16_bytes fb = concat (map (\<lambda>v. [word_of_int v, word_of_int (drop_bit 8 v)]) fb)"

lemma length_s16_bytes [simp]: "length (s16_bytes fb) = 2 * length fb"
  by (induction fb) (simp_all add: s16_bytes_def)

section \<open>Android\<close>

text \<open>What the virtual machine and the allocator answer, and the sizes of the platform:
  \<open>jni_empty\<close> says whether \<^verbatim>\<open>NewByteArray(0)\<close> gives an array, \<open>jni_new_array\<close> the same for the
  array of the samples.\<close>

record jni_env =
  jni_empty :: bool
  jni_elements :: bool
  jni_memory :: bool
  jni_new_array :: bool
  jni_exception :: bool
  jni_size_max :: nat
  jni_sizeof_decoder :: int

datatype jni_result = JNull | JBytes "u8 list"

definition emptyByteArray :: "jni_env \<Rightarrow> jni_result" where
  "emptyByteArray env = (if jni_empty env then JBytes [] else JNull)"

text \<open>The flag \<^verbatim>\<open>released\<close> of the function, with the number of times that
  \<^verbatim>\<open>ReleaseByteArrayElements\<close> is called.\<close>

definition releaseInput :: "bool \<times> nat \<Rightarrow> bool \<times> nat" where
  "releaseInput st = (case st of (released, n) \<Rightarrow> if \<not> released then (True, n + 1) else (released, n))"

text \<open>The loop on the frames; \<open>Some None\<close> is the early return on a negative status.\<close>

fun jni_frames ::
    "'s frame_decoder \<Rightarrow> u8 list \<Rightarrow> nat \<Rightarrow> nat \<Rightarrow> 's \<Rightarrow> int list \<Rightarrow> u8 list \<Rightarrow> u8 list option option" where
  "jni_frames dec encoded frame 0 st fb decoded = Some (Some decoded)"
| "jni_frames dec encoded frame (Suc n) st fb decoded =
     Option.bind (dec st (take kEncodedFrameBytes (drop (frame * kEncodedFrameBytes) encoded)) fb)
       (\<lambda>(status, st, fb).
          if status < 0 then Some None
          else jni_frames dec encoded (frame + 1) n st (replicate (length fb) 0)
                 (put_at (frame * (2 * length fb)) (s16_bytes fb) decoded))"

text \<open>The result, with the flag and the number of the releases.\<close>

definition decodeLC3 ::
    "(lc3_decoder frame_decoder) \<Rightarrow> jni_env \<Rightarrow> u8 list option \<Rightarrow> (jni_result \<times> bool \<times> nat) option" where
  "decodeLC3 dec env lc3Data =
     (let released = (False, 0) in
      case lc3Data of None \<Rightarrow> Some (emptyByteArray env, released) | Some encodedBytes \<Rightarrow>
      (let encodedLength = length encodedBytes
       in if encodedLength = 0 \<or> encodedLength > 4096 \<or> encodedLength mod kEncodedFrameBytes \<noteq> 0
          then Some (emptyByteArray env, released)
          else
            (let decoderSize = lc3_decoder_size (jni_sizeof_decoder env) kFrameDurationUs kSampleRateHz;
                 samplesPerFrame = lc3_frame_samples kFrameDurationUs kSampleRateHz
             in if decoderSize = 0 \<or> samplesPerFrame \<le> 0 then Some (emptyByteArray env, released)
                else
                  (let frameCount = encodedLength div kEncodedFrameBytes;
                       decodedFrameBytes = nat samplesPerFrame * 2;
                       decodedLength = frameCount * decodedFrameBytes
                   in if frameCount > jni_size_max env div decodedFrameBytes then Some (emptyByteArray env, released)
                      else if decodedLength > 2 ^ 31 - 1 then Some (emptyByteArray env, released)
                      else if \<not> jni_elements env then Some (emptyByteArray env, released)
                      else if \<not> jni_memory env then Some (emptyByteArray env, releaseInput released)
                      else
                        (case lc3_setup_decoder kFrameDurationUs kSampleRateHz 0 True of
                           None \<Rightarrow> Some (emptyByteArray env, releaseInput released)
                         | Some decoder \<Rightarrow>
                             map_option (\<lambda>decoded.
                               (case decoded of
                                  None \<Rightarrow> (emptyByteArray env, releaseInput released)
                                | Some decoded \<Rightarrow>
                                    (let released = releaseInput released
                                     in if \<not> jni_new_array env then (JNull, released)
                                        else if jni_exception env then (JNull, released)
                                        else (JBytes decoded, released))))
                               (jni_frames dec encodedBytes 0 frameCount decoder
                                  (replicate (nat samplesPerFrame) 0) (replicate decodedLength 0)))))))"

section \<open>iOS\<close>

record pcm_converter =
  pc_decoder :: "lc3_decoder option"
  pc_frameBuffer :: "int list option"
  pc_samplesPerFrame :: int

definition tearDownDecoder :: pcm_converter where
  "tearDownDecoder = \<lparr>pc_decoder = None, pc_frameBuffer = None, pc_samplesPerFrame = 0\<rparr>"

text \<open>\<open>mem\<close> and \<open>mem'\<close> tell whether the two allocations succeed.\<close>

definition pcm_reset :: "int \<Rightarrow> bool \<Rightarrow> bool \<Rightarrow> pcm_converter" where
  "pcm_reset sizeof_decoder mem mem' =
     (let decoderSize = lc3_decoder_size sizeof_decoder kFrameDurationUs kSampleRateHz;
          samplesPerFrame = lc3_frame_samples kFrameDurationUs kSampleRateHz
      in if decoderSize = 0 \<or> samplesPerFrame \<le> 0 then tearDownDecoder
         else if \<not> mem \<or> \<not> mem' then tearDownDecoder
         else (case lc3_setup_decoder kFrameDurationUs kSampleRateHz 0 True of
             None \<Rightarrow> tearDownDecoder
           | Some decoder \<Rightarrow>
               \<lparr>pc_decoder = Some decoder, pc_frameBuffer = Some (replicate (nat samplesPerFrame) 0),
                pc_samplesPerFrame = samplesPerFrame\<rparr>))"

text \<open>The loop of \<^verbatim>\<open>decode:\<close>, that leaves no data when a status is negative.\<close>

fun pcm_frames ::
    "'s frame_decoder \<Rightarrow> u8 list \<Rightarrow> nat \<Rightarrow> nat \<Rightarrow> 's \<Rightarrow> int list \<Rightarrow> u8 list \<Rightarrow> ('s \<times> int list \<times> u8 list) option" where
  "pcm_frames dec encoded frame 0 st fb pcmData = Some (st, fb, pcmData)"
| "pcm_frames dec encoded frame (Suc n) st fb pcmData =
     Option.bind (dec st (take kEncodedFrameBytes (drop (frame * kEncodedFrameBytes) encoded)) fb)
       (\<lambda>(status, st, fb).
          if status < 0 then Some (st, replicate (length fb) 0, [])
          else pcm_frames dec encoded (frame + 1) n st (replicate (length fb) 0) (pcmData @ s16_bytes fb))"

definition pcm_decode ::
    "lc3_decoder frame_decoder \<Rightarrow> nat \<Rightarrow> pcm_converter \<Rightarrow> u8 list \<Rightarrow> (pcm_converter \<times> u8 list) option" where
  "pcm_decode dec nsuinteger_max pc lc3Data =
     (if length lc3Data = 0 \<or> length lc3Data > 4000 \<or> length lc3Data mod kEncodedFrameBytes \<noteq> 0 \<or>
         pc_decoder pc = None \<or> pc_frameBuffer pc = None \<or> pc_samplesPerFrame pc \<le> 0
      then Some (pc, [])
      else
        (let frameCount = length lc3Data div kEncodedFrameBytes;
             decodedFrameBytes = nat (pc_samplesPerFrame pc) * 2
         in if frameCount > nsuinteger_max div decodedFrameBytes then Some (pc, [])
            else map_option (\<lambda>(st, fb, pcmData). (pc\<lparr>pc_decoder := Some st, pc_frameBuffer := Some fb\<rparr>, pcmData))
                   (pcm_frames dec lc3Data 0 frameCount (the (pc_decoder pc)) (the (pc_frameBuffer pc)) [])))"

section \<open>The interface of the frames\<close>

text \<open>
  Both loops rely on a decoder of frames that always answers without a negative status and
  fills the buffer it is given. What they give is then the samples of the frames one after
  the other: the reference is the list of the frames.
\<close>

fun stream_pcm :: "'s frame_decoder \<Rightarrow> nat \<Rightarrow> 's \<Rightarrow> u8 list list \<Rightarrow> ('s \<times> u8 list) option" where
  "stream_pcm dec ns st [] = Some (st, [])"
| "stream_pcm dec ns st (c # cs) =
     Option.bind (dec st c (replicate ns 0)) (\<lambda>(status, st, fb).
       map_option (\<lambda>(st, bs). (st, s16_bytes fb @ bs)) (stream_pcm dec ns st cs))"

definition frame_chunks :: "u8 list \<Rightarrow> u8 list list" where
  "frame_chunks x = map (\<lambda>i. take 20 (drop (i * 20) x)) [0 ..< length x div 20]"

lemma stream_pcm_append: "stream_pcm dec ns st (xs @ ys) =
    Option.bind (stream_pcm dec ns st xs) (\<lambda>(st, bs). map_option (\<lambda>(st', bs'). (st', bs @ bs')) (stream_pcm dec ns st ys))"
proof (induction xs arbitrary: st)
  case Nil
  show ?case by (simp add: option.map_id)
next
  case (Cons c cs)
  show ?case
  proof (cases "dec st c (replicate ns 0)")
    case (Some r)
    obtain status st1 fb where "r = (status, st1, fb)" by (rule prod_cases3)
    with Some show ?thesis
      by (cases "stream_pcm dec ns st1 cs")
        (auto simp: Cons option.map_comp comp_def case_prod_beta)
  qed simp
qed

lemma frame_chunks_append:
  assumes "length x mod 20 = 0"
  shows "frame_chunks (x @ y) = frame_chunks x @ frame_chunks y"
proof -
  obtain n where n: "length x = n * 20" using assms by (metis dvd_def mod_0_imp_dvd mult.commute)
  have "frame_chunks (x @ y) = map (\<lambda>i. take 20 (drop (i * 20) (x @ y))) ([0 ..< n] @ [n ..< n + length y div 20])"
    unfolding frame_chunks_def n length_append upt_add_eq_append [OF le0, symmetric] by (simp add: add.commute)
  moreover have "map (\<lambda>i. take 20 (drop (i * 20) (x @ y))) [0 ..< n] = frame_chunks x"
    by (simp add: frame_chunks_def n)
  moreover have "map (\<lambda>i. take 20 (drop (i * 20) (x @ y))) [n ..< n + length y div 20] = frame_chunks y"
    unfolding frame_chunks_def
    by (rule nth_equalityI) (simp_all add: n nth_upt diff_mult_distrib2 add_mult_distrib)
  ultimately show ?thesis by simp
qed

locale frame_codec =
  fixes dec :: "'s frame_decoder" and inv :: "'s \<Rightarrow> bool" and ns :: nat
  assumes frame: "inv st \<Longrightarrow> length input = 20 \<Longrightarrow> length fb = ns \<Longrightarrow>
    \<exists>status st' fb'. dec st input fb = Some (status, st', fb') \<and> inv st' \<and> 0 \<le> status \<and> length fb' = ns"
begin

lemma stream_total:
  assumes "inv st" "list_all (\<lambda>c. length c = 20) cs"
  obtains st' bs where "stream_pcm dec ns st cs = Some (st', bs)" "inv st'" "length bs = length cs * (2 * ns)"
proof -
  have "\<exists>st' bs. stream_pcm dec ns st cs = Some (st', bs) \<and> inv st' \<and> length bs = length cs * (2 * ns)"
    using assms
  proof (induction cs arbitrary: st)
    case (Cons c cs)
    then obtain status st' fb where "dec st c (replicate ns 0) = Some (status, st', fb)" "inv st'" "length fb = ns"
      using frame [of st c "replicate ns 0"] by auto
    with Cons.IH [of st'] Cons.prems show ?case by auto
  qed simp
  then show thesis using that by blast
qed

lemma jni_frames_stream:
  assumes "inv st" "(frame + n) * 20 \<le> length encoded" "length decoded = (frame + n) * (2 * ns)"
    "stream_pcm dec ns st (map (\<lambda>i. take 20 (drop (i * 20) encoded)) [frame ..< frame + n]) = Some (st', bs)"
  shows "jni_frames dec encoded frame n st (replicate ns 0) decoded = Some (Some (take (frame * (2 * ns)) decoded @ bs))"
  using assms
proof (induction n arbitrary: frame st decoded bs)
  case (Suc n)
  define c where "c = take 20 (drop (frame * 20) encoded)"
  have c: "length c = 20" using Suc.prems(2) by (simp add: c_def)
  obtain status st1 fb where d: "dec st c (replicate ns 0) = Some (status, st1, fb)" "inv st1" "0 \<le> status" "length fb = ns"
    using frame [OF Suc.prems(1) c, of "replicate ns 0"] by auto
  define decoded1 where "decoded1 = put_at (frame * (2 * ns)) (s16_bytes fb) decoded"
  have len: "frame * (2 * ns) + 2 * ns \<le> length decoded" using Suc.prems(3) by (simp add: algebra_simps)
  have "[frame ..< frame + Suc n] = frame # [Suc frame ..< Suc frame + n]" by (simp add: upt_rec)
  then obtain bs1 where bs: "stream_pcm dec ns st1 (map (\<lambda>i. take 20 (drop (i * 20) encoded)) [Suc frame ..< Suc frame + n]) = Some (st', bs1)"
      "bs = s16_bytes fb @ bs1"
    using Suc.prems(4) by (auto simp: c_def [symmetric] d(1))
  have "length decoded1 = (Suc frame + n) * (2 * ns)" using len Suc.prems(3) d(4) by (simp add: decoded1_def put_at_def)
  from Suc.IH [OF d(2) _ this bs(1)] Suc.prems(2)
  have "jni_frames dec encoded (Suc frame) n st1 (replicate ns 0) decoded1 = Some (Some (take (Suc frame * (2 * ns)) decoded1 @ bs1))"
    by simp
  moreover have "take (Suc frame * (2 * ns)) decoded1 = take (frame * (2 * ns)) decoded @ s16_bytes fb"
    using len d(4) by (simp add: decoded1_def put_at_def min_def)
  ultimately show ?case using d by (simp add: c_def [symmetric] kEncodedFrameBytes_def bs(2) decoded1_def)
qed simp

lemma pcm_frames_stream:
  assumes "inv st" "(frame + n) * 20 \<le> length encoded"
    "stream_pcm dec ns st (map (\<lambda>i. take 20 (drop (i * 20) encoded)) [frame ..< frame + n]) = Some (st', bs)"
  shows "pcm_frames dec encoded frame n st (replicate ns 0) pcmData = Some (st', replicate ns 0, pcmData @ bs)"
  using assms
proof (induction n arbitrary: frame st pcmData bs)
  case (Suc n)
  define c where "c = take 20 (drop (frame * 20) encoded)"
  have c: "length c = 20" using Suc.prems(2) by (simp add: c_def)
  obtain status st1 fb where d: "dec st c (replicate ns 0) = Some (status, st1, fb)" "inv st1" "0 \<le> status" "length fb = ns"
    using frame [OF Suc.prems(1) c, of "replicate ns 0"] by auto
  have "[frame ..< frame + Suc n] = frame # [Suc frame ..< Suc frame + n]" by (simp add: upt_rec)
  then obtain bs1 where bs: "stream_pcm dec ns st1 (map (\<lambda>i. take 20 (drop (i * 20) encoded)) [Suc frame ..< Suc frame + n]) = Some (st', bs1)"
      "bs = s16_bytes fb @ bs1"
    using Suc.prems(3) by (auto simp: c_def [symmetric] d(1))
  from Suc.IH [OF d(2) _ bs(1)] Suc.prems(2) d show ?case
    by (simp add: c_def [symmetric] kEncodedFrameBytes_def bs(2))
qed simp

end

section \<open>The decoder of the codec\<close>

lemma store_sample_s16: "\<exists>pcm'. store_sample xs k (LC3_PCM_FORMAT_S16 pcm) = LC3_PCM_FORMAT_S16 pcm' \<and> length pcm' = length pcm"
  by simp

lemma store_s16: "\<exists>pcm'. store d (LC3_PCM_FORMAT_S16 pcm) stride = LC3_PCM_FORMAT_S16 pcm' \<and> length pcm' = length pcm"
  unfolding store_def by (rule foldl_invariant) (auto simp: store_sample_s16)

lemma lc3_decode_pcm:
  assumes "lc3_decode side0 (Some d) input nbytes pcm stride = Some (ret, d', pcm')"
  shows "pcm' = pcm \<or> (\<exists>d1. pcm' = store d1 pcm stride)"
  using assms by (auto simp: lc3_decode_def Let_def split: if_splits option.splits prod.splits)

interpretation lc3: frame_codec "lc3_frame side0" "\<lambda>d. decoder_ok d \<and> tns_dims (sd_tns side0)" ns for side0 ns
proof (unfold_locales, goal_cases)
  case (1 d input fb)
  obtain ret d' pcm' where r: "lc3_decode side0 (Some d) (Some input) 20 (LC3_PCM_FORMAT_S16 fb) 1 = Some (ret, Some d', pcm')"
      "decoder_ok d'" "ret = 0 \<or> ret = 1"
    using lc3_decode_total [of d side0 "Some input" 20 "LC3_PCM_FORMAT_S16 fb" 1] 1(1) by auto
  moreover obtain b where "pcm' = LC3_PCM_FORMAT_S16 b" "length b = ns"
    using lc3_decode_pcm [OF r(1)] store_s16 1(3) by metis
  ultimately show ?case using 1(1) by (auto simp: lc3_frame_def)
qed

lemma lc3_frames_16k: "lc3_frame_samples kFrameDurationUs kSampleRateHz = 160"
  by (simp add: lc3_frame_samples_def wrapper_constants resolve_dt_def resolve_sr_def enum_order LC3_NS_def Let_def)

lemma decoder_size_16k: "0 \<le> sz \<Longrightarrow> lc3_decoder_size sz kFrameDurationUs kSampleRateHz \<noteq> 0"
  by (simp add: lc3_decoder_size_def wrapper_constants resolve_dt_def resolve_sr_def enum_order
      LC3_DECODER_BUFFER_COUNT_def PRIV_NH_def PRIV_ND_def PRIV_NS_def cdiv_def)

lemma setup_16k:
  obtains d where "lc3_setup_decoder kFrameDurationUs kSampleRateHz 0 True = Some d" "decoder_ok d"
proof -
  have "lc3_setup_decoder kFrameDurationUs kSampleRateHz 0 True \<noteq> None"
    by (simp add: lc3_setup_decoder_def resolve_dt_def resolve_sr_def enum_order Let_def wrapper_constants)
  then show thesis using that setup_decoder_ok(1) by blast
qed

lemma frame_chunks_length: "length (frame_chunks x) = length x div 20" "list_all (\<lambda>c. length c = 20) (frame_chunks x)"
proof -
  show "length (frame_chunks x) = length x div 20" by (simp add: frame_chunks_def)
  have "i * 20 + 20 \<le> length x" if "i < length x div 20" for i
    using that div_times_less_eq_dividend [of "length x" 20] by linarith
  then show "list_all (\<lambda>c. length c = 20) (frame_chunks x)" by (fastforce simp: frame_chunks_def list_all_iff)
qed

lemma chunks_total:
  assumes d: "decoder_ok d" "tns_dims (sd_tns side0)" and x: "length x = n * 20"
  obtains st bs where "stream_pcm (lc3_frame side0) 160 d (frame_chunks x) = Some (st, bs)" "decoder_ok st" "length bs = n * 320"
    "jni_frames (lc3_frame side0) x 0 n d (replicate 160 0) (replicate (n * 320) 0) = Some (Some bs)"
    "pcm_frames (lc3_frame side0) x 0 n d (replicate 160 0) [] = Some (st, replicate 160 0, bs)"
proof -
  have inv: "decoder_ok d \<and> tns_dims (sd_tns side0)" using d by simp
  have c: "frame_chunks x = map (\<lambda>i. take 20 (drop (i * 20) x)) [0 ..< 0 + n]" by (simp add: frame_chunks_def x)
  obtain st bs where s: "stream_pcm (lc3_frame side0) 160 d (frame_chunks x) = Some (st, bs)"
      "decoder_ok st \<and> tns_dims (sd_tns side0)" "length bs = length (frame_chunks x) * (2 * 160)"
    by (rule lc3.stream_total [OF inv frame_chunks_length(2)]) blast
  have "jni_frames (lc3_frame side0) x 0 n d (replicate 160 0) (replicate (n * 320) 0) =
      Some (Some (take (0 * (2 * 160)) (replicate (n * 320) 0) @ bs))"
    by (rule lc3.jni_frames_stream [OF inv _ _ s(1) [unfolded c]]) (simp_all add: x)
  moreover have "pcm_frames (lc3_frame side0) x 0 n d (replicate 160 0) [] = Some (st, replicate 160 0, [] @ bs)"
    by (rule lc3.pcm_frames_stream [OF inv _ s(1) [unfolded c]]) (simp add: x)
  ultimately show thesis using that s frame_chunks_length(1) [of x] x by simp
qed

section \<open>Properties\<close>

text \<open>
  C5. On Android a payload is decoded or refused as a whole. A payload of up to 4096 bytes that is
  a number of frames gives the 16-bit samples of its frames in order, 320 bytes each, from a
  decoder newly set up: no frame is refused, whatever its bytes. The array of the virtual
  machine is released once exactly when it was taken, on the failures of its allocations too;
  a failure gives the empty array, or null when the virtual machine does not make one either.
\<close>

theorem decodeLC3_frames:
  assumes side: "tns_dims (sd_tns side0)" and sz: "0 \<le> jni_sizeof_decoder env"
    and ok: "0 < length x" "length x \<le> 4096" "length x mod 20 = 0" "length x div 20 \<le> jni_size_max env div 320"
  shows "\<exists>d st bs. lc3_setup_decoder 10000 16000 0 True = Some d \<and>
    stream_pcm (lc3_frame side0) 160 d (frame_chunks x) = Some (st, bs) \<and> length bs = 16 * length x \<and>
    decodeLC3 (lc3_frame side0) env (Some x) = Some (
      if \<not> jni_elements env then (emptyByteArray env, False, 0)
      else if \<not> jni_memory env then (emptyByteArray env, True, 1)
      else if \<not> jni_new_array env \<or> jni_exception env then (JNull, True, 1) else (JBytes bs, True, 1))"
proof -
  obtain d where d: "lc3_setup_decoder kFrameDurationUs kSampleRateHz 0 True = Some d" "decoder_ok d" by (rule setup_16k)
  define n where "n = length x div 20"
  have n: "length x = n * 20" using ok(3) div_mult_mod_eq [of "length x" 20] by (simp add: n_def)
  obtain st bs where s: "stream_pcm (lc3_frame side0) 160 d (frame_chunks x) = Some (st, bs)" "length bs = n * 320"
      "jni_frames (lc3_frame side0) x 0 n d (replicate 160 0) (replicate (n * 320) 0) = Some (Some bs)"
    by (rule chunks_total [OF d(2) side n]) blast
  then have "decodeLC3 (lc3_frame side0) env (Some x) = Some (
      if \<not> jni_elements env then (emptyByteArray env, False, 0)
      else if \<not> jni_memory env then (emptyByteArray env, True, 1)
      else if \<not> jni_new_array env \<or> jni_exception env then (JNull, True, 1) else (JBytes bs, True, 1))"
    using ok n decoder_size_16k [OF sz] by (simp add: decodeLC3_def Let_def lc3_frames_16k d(1) kEncodedFrameBytes_def releaseInput_def)
  then show ?thesis using s d(1) n by (auto simp: wrapper_constants)
qed

theorem decodeLC3_frames_witness:
  "\<exists>bs. decodeLC3 (lc3_frame empty_side) \<lparr>jni_empty = True, jni_elements = True, jni_memory = True, jni_new_array = True, jni_exception = False,
       jni_size_max = 4294967295, jni_sizeof_decoder = 200\<rparr> (Some (replicate 40 255)) = Some (JBytes bs, True, 1) \<and> length bs = 640"
proof -
  have "tns_dims (sd_tns empty_side)" by (simp add: empty_side_def tns_dims_def)
  from decodeLC3_frames [OF this, of "\<lparr>jni_empty = True, jni_elements = True, jni_memory = True, jni_new_array = True, jni_exception = False,
       jni_size_max = 4294967295, jni_sizeof_decoder = 200\<rparr>" "replicate 40 255"] show ?thesis by auto
qed

text \<open>The state of the converter: a decoder and its silent buffer, or nothing.\<close>

definition pcm_ok :: "side_data \<Rightarrow> pcm_converter \<Rightarrow> bool" where
  "pcm_ok side0 pc \<longleftrightarrow> pc = tearDownDecoder \<or>
     (\<exists>d. pc = \<lparr>pc_decoder = Some d, pc_frameBuffer = Some (replicate 160 0), pc_samplesPerFrame = 160\<rparr> \<and>
        decoder_ok d \<and> tns_dims (sd_tns side0))"

lemma pcm_decode_stream:
  assumes "decoder_ok d" "tns_dims (sd_tns side0)" "0 < length x" "length x \<le> 4000" "length x mod 20 = 0" "200 \<le> m div 320"
  obtains st bs where "stream_pcm (lc3_frame side0) 160 d (frame_chunks x) = Some (st, bs)" "decoder_ok st" "length bs = 16 * length x"
    "pcm_decode (lc3_frame side0) m \<lparr>pc_decoder = Some d, pc_frameBuffer = Some (replicate 160 0), pc_samplesPerFrame = 160\<rparr> x =
       Some (\<lparr>pc_decoder = Some st, pc_frameBuffer = Some (replicate 160 0), pc_samplesPerFrame = 160\<rparr>, bs)"
proof -
  define n where "n = length x div 20"
  have n: "length x = n * 20" using assms(5) div_mult_mod_eq [of "length x" 20] by (simp add: n_def)
  have nm: "\<not> n > m div 320" "0 < n" using assms(3,4,6) n by simp_all
  obtain st bs where s: "stream_pcm (lc3_frame side0) 160 d (frame_chunks x) = Some (st, bs)" "decoder_ok st" "length bs = n * 320"
      "pcm_frames (lc3_frame side0) x 0 n d (replicate 160 0) [] = Some (st, replicate 160 0, bs)"
    by (rule chunks_total [OF assms(1,2) n]) blast
  then have "pcm_decode (lc3_frame side0) m \<lparr>pc_decoder = Some d, pc_frameBuffer = Some (replicate 160 0), pc_samplesPerFrame = 160\<rparr> x =
       Some (\<lparr>pc_decoder = Some st, pc_frameBuffer = Some (replicate 160 0), pc_samplesPerFrame = 160\<rparr>, bs)"
    using assms(4) n nm by (simp add: pcm_decode_def Let_def kEncodedFrameBytes_def)
  then show thesis using that s n by simp
qed

lemma pcm_reset_ok: "tns_dims (sd_tns side0) \<Longrightarrow> pcm_ok side0 (pcm_reset sz mem mem')"
proof -
  assume t: "tns_dims (sd_tns side0)"
  obtain d where d: "lc3_setup_decoder kFrameDurationUs kSampleRateHz 0 True = Some d" "decoder_ok d" by (rule setup_16k)
  show ?thesis using t d by (simp add: pcm_ok_def pcm_reset_def Let_def lc3_frames_16k)
qed

text \<open>
  C8. On iOS the converter keeps its decoder from a payload to the next: its state stays valid, a
  payload gives 16 bytes of samples for each of its bytes or nothing at all, and to decode two
  payloads is to decode them as one.
\<close>

theorem pcm_decode_append:
  assumes ok: "pcm_ok side0 pc" and x: "0 < length x" "length x mod 20 = 0" and y: "0 < length y" "length y mod 20 = 0"
    and xy: "length x + length y \<le> 4000" and m: "200 \<le> m div 320"
  shows "\<exists>pc1 bs1 pc2 bs2. pcm_decode (lc3_frame side0) m pc x = Some (pc1, bs1) \<and>
    pcm_decode (lc3_frame side0) m pc1 y = Some (pc2, bs2) \<and>
    pcm_decode (lc3_frame side0) m pc (x @ y) = Some (pc2, bs1 @ bs2) \<and> pcm_ok side0 pc1 \<and> pcm_ok side0 pc2 \<and>
    (pc_decoder pc \<noteq> None \<longrightarrow> length bs1 = 16 * length x \<and> length bs2 = 16 * length y)"
proof (cases "pc = tearDownDecoder")
  case True
  then show ?thesis using ok by (simp add: pcm_decode_def tearDownDecoder_def)
next
  case False
  let ?pc = "\<lambda>d. \<lparr>pc_decoder = Some d, pc_frameBuffer = Some (replicate 160 0), pc_samplesPerFrame = 160\<rparr>"
  obtain d where d: "pc = ?pc d" "decoder_ok d" "tns_dims (sd_tns side0)" using ok False by (auto simp: pcm_ok_def)
  have mods: "length x \<le> 4000" "length y \<le> 4000" "0 < length (x @ y)" "length (x @ y) \<le> 4000" "length (x @ y) mod 20 = 0"
    using x y xy by (simp_all add: mod_eq_0_iff_dvd)
  obtain st1 bs1 where 1: "stream_pcm (lc3_frame side0) 160 d (frame_chunks x) = Some (st1, bs1)" "decoder_ok st1"
      "length bs1 = 16 * length x" "pcm_decode (lc3_frame side0) m (?pc d) x = Some (?pc st1, bs1)"
    by (rule pcm_decode_stream [OF d(2,3) x(1) mods(1) x(2) m])
  obtain st2 bs2 where 2: "stream_pcm (lc3_frame side0) 160 st1 (frame_chunks y) = Some (st2, bs2)" "decoder_ok st2"
      "length bs2 = 16 * length y" "pcm_decode (lc3_frame side0) m (?pc st1) y = Some (?pc st2, bs2)"
    by (rule pcm_decode_stream [OF 1(2) d(3) y(1) mods(2) y(2) m])
  obtain st bs where 3: "stream_pcm (lc3_frame side0) 160 d (frame_chunks (x @ y)) = Some (st, bs)"
      "pcm_decode (lc3_frame side0) m (?pc d) (x @ y) = Some (?pc st, bs)"
    by (rule pcm_decode_stream [OF d(2,3) mods(3-5) m])
  have "st = st2" "bs = bs1 @ bs2"
    using 3(1) by (simp_all add: frame_chunks_append [OF x(2)] stream_pcm_append 1(1) 2(1))
  then show ?thesis using 1 2 3 d by (auto simp: pcm_ok_def)
qed

theorem pcm_decode_append_witness:
  "\<exists>pc1 bs1 pc2 bs2. pcm_decode (lc3_frame empty_side) 4294967295 (pcm_reset 200 True True) (replicate 20 1) = Some (pc1, bs1) \<and>
    pcm_decode (lc3_frame empty_side) 4294967295 pc1 (replicate 40 2) = Some (pc2, bs2) \<and>
    pcm_decode (lc3_frame empty_side) 4294967295 (pcm_reset 200 True True) (replicate 20 1 @ replicate 40 2) = Some (pc2, bs1 @ bs2)"
proof -
  have "tns_dims (sd_tns empty_side)" by (simp add: empty_side_def tns_dims_def)
  from pcm_decode_append [OF pcm_reset_ok [OF this], of "replicate 20 1" "replicate 40 2" 4294967295 200 True True]
  show ?thesis by auto
qed

end
