(* ===== verification/Spec2Isabelle.thy ===== *)
theory Spec2Isabelle
  imports KissPlan ParamProps RnnApp RnnReader SignalProps SnsEnum SpecIos Wrappers
begin

text \<open>
  A verification library of the audio code in C of the application: the LC3 codec that carries
  the voice between the glasses and the telephone, the removal of noise, and the functions of the
  Android and iOS applications that call them. Paths below are under
  \<^verbatim>\<open>src/android/app/src/main/cpp/\<close> where they do not start with \<^verbatim>\<open>src/\<close>.

  \<^bold>\<open>The program.\<close> The glasses send payloads of LC3 frames. On Android
  \<^verbatim>\<open>liblc3.cpp\<close>, called by the Kotlin code, sets up a decoder and decodes a payload frame by
  frame; on iOS \<^verbatim>\<open>src/ios/Runner/PcmConverter.m\<close> keeps a decoder between payloads. The samples may
  then go through \<^verbatim>\<open>rnNoise\<close> of \<^verbatim>\<open>liblc3.cpp\<close>, the front of \<^verbatim>\<open>rnnoise/\<close>. A frame of
  LC3 is read from both ends: the arithmetic code forward from its start, the plain bits backward
  from its end (\<^verbatim>\<open>liblc3/bits.h\<close>, \<^verbatim>\<open>bits.c\<close>). The decoder (\<^verbatim>\<open>lc3.c\<close>) reads
  the side data (bandwidth, gain, noise shaping, scale factors, pitch) and the coefficients, then renders
  them: noise shaping (\<^verbatim>\<open>tns.c\<close>), scale factors (\<^verbatim>\<open>sns.c\<close>), inverse transform
  (\<^verbatim>\<open>mdct.c\<close>), long-term postfilter (\<^verbatim>\<open>ltpf.c\<close>) in a ring of past samples. A bad frame is replaced by
  \<^verbatim>\<open>plc.c\<close>. The encoder does the same steps in the other order, with the detectors
  \<^verbatim>\<open>attdet.c\<close>, \<^verbatim>\<open>bwdet.c\<close> and \<^verbatim>\<open>energy.c\<close>.
\<close>

text \<open>
  \<^bold>\<open>Theories and sources.\<close>
  \<^item> \<open>Prelude\<close>: the integer idioms of C (truncating division, shifts, clipping), lists and words.
    \<open>Float32\<close>, \<open>FloatWf\<close>, \<open>FloatOrder\<close>, \<open>Float64\<close>: the types \<^verbatim>\<open>float\<close> and
    \<^verbatim>\<open>double\<close> as IEEE 754 formats with rounding to nearest even, computable. Sums and
    products are rounded one by one: a compiler that contracts them into fused operations is not modelled.
  \<^item> \<open>Common\<close>: \<^verbatim>\<open>common.h\<close>, \<^verbatim>\<open>lc3.h\<close>, \<^verbatim>\<open>lc3_private.h\<close>. \<open>Fastmath\<close>: \<^verbatim>\<open>fastmath.h\<close>.
  \<^item> \<open>Bits\<close>: \<^verbatim>\<open>bits.h\<close> and \<^verbatim>\<open>bits.c\<close>, on words of 32 bits and the bytes of the buffer.
    \<open>BitWriter\<close>, \<open>BitTerm\<close>, \<open>BitPlain\<close>, \<open>BitEncode\<close>, \<open>BitReader\<close>, \<open>BitChannel\<close>,
    \<open>BitSwap\<close> show that what is written with room left is read back.
  \<^item> \<open>Bwdet\<close>: \<^verbatim>\<open>bwdet.c\<close>. \<open>Tns\<close>, \<open>TnsFilter\<close>, \<open>TnsInverse\<close>: \<^verbatim>\<open>tns.c\<close>. \<open>Energy\<close>, \<open>Attdet\<close>, \<open>Plc\<close>: the
    files of these names. \<open>SignalProps\<close> holds their properties.
  \<^item> \<open>SpecTables\<close>, \<open>SpecCode\<close>, \<open>SpecGain\<close>, \<open>SpecEncode\<close>: \<^verbatim>\<open>spec.c\<close>. \<open>SpecPairs\<close>,
    \<open>SpecStream\<close>, \<open>SpecRefine\<close>, \<open>SpecRoundtrip\<close>: its coding and decoding agree. \<open>GainBound\<close>,
    \<open>SpecProps\<close>: what its analysis gives. \<open>SpecIos\<close>: the functions that differ in \<^verbatim>\<open>src/ios/Runner/lc3/spec.c\<close>.
  \<^item> \<open>SnsTables\<close>, \<open>Sns\<close>, \<open>SnsEnum\<close>: \<^verbatim>\<open>sns.c\<close> and the enumeration of its pulse vectors.
  \<^item> \<open>LtpfTables\<close>, \<open>Ltpf\<close>, \<open>LtpfSynth\<close>, \<open>LtpfProps\<close>: \<^verbatim>\<open>ltpf.c\<close>. \<open>FftTables\<close>,
    \<open>MdctTables\<close>, \<open>Mdct\<close>: \<^verbatim>\<open>mdct.c\<close> and its part of \<^verbatim>\<open>tables.c\<close>.
  \<^item> \<open>CodecParams\<close>, \<open>ParamProps\<close>, \<open>Encoder\<close>, \<open>Decoder\<close>: \<^verbatim>\<open>lc3.c\<close>. \<open>SideCodec\<close>,
    \<open>FrameSide\<close>, \<open>Frame\<close>: a whole frame is read as it was written. \<open>DecodeTotal\<close>,
    \<open>DecoderState\<close>: the invariant of the decoder, on any bytes.
  \<^item> \<open>Wrappers\<close>: \<^verbatim>\<open>decodeLC3\<close> of \<^verbatim>\<open>liblc3.cpp\<close>, and \<^verbatim>\<open>PcmConverter.m\<close>.
  \<^item> \<open>RnnArrays\<close>, \<open>RnnNet\<close>, \<open>RnnProps\<close>: \<^verbatim>\<open>rnn.c\<close>. \<open>RnnReader\<close>: \<^verbatim>\<open>rnn_reader.c\<close>.
    \<open>CeltLpc\<close>, \<open>Pitch\<close>, \<open>PitchProps\<close>: \<^verbatim>\<open>celt_lpc.c\<close>, \<^verbatim>\<open>pitch.c\<close> and \<^verbatim>\<open>pitch.h\<close>.
    \<open>KissFft\<close>: \<^verbatim>\<open>kiss_fft.c\<close>, with every access checked; \<open>KissProps\<close>, \<open>KissTable\<close>: its stages as
    functions, that the code computes; \<open>KissDft\<close>, \<open>KissPlan\<close>: over exact numbers. \<open>Denoise\<close>,
    \<open>DenoiseProps\<close>: \<^verbatim>\<open>denoise.c\<close>. \<open>RnnHeap\<close>: its allocations, a heap of blocks. \<open>RnnApp\<close>: the
    functions of \<^verbatim>\<open>liblc3.cpp\<close> for the denoiser.

  \<^bold>\<open>State and operations.\<close> A structure of C is a record with a prefix on its fields
  (\<open>dec_xh\<close> is \<^verbatim>\<open>xh\<close> of \<^verbatim>\<open>struct lc3_decoder\<close>); an operation takes it and
  returns it updated. A pointer into a buffer is the buffer, a list, and an index; a read or a write
  outside it is \<open>None\<close> where an index may leave its buffer, and the theorems show that it does not.
  A function of C with a code of error returns that code as a value. \<^verbatim>\<open>int\<close> is an unbounded \<open>int\<close>, as
  an overflow of it is undefined; the unsigned types are words, which wrap. What C leaves
  uninitialised (the side data before a frame, the quantised coefficients) is an argument.

  \<^bold>\<open>Termination.\<close> The renormalisation loops of the arithmetic coder do not end on a null range: they are
  \<open>while_option\<close>, \<open>None\<close> when they go on for ever. \<open>put_symbol_returns\<close> and \<open>get_symbol_returns\<close>
  show that they end, and \<open>lc3_decode_safe\<close> that a decoder in its invariant
  returns on any bytes. The other loops are structural or have a measure. The recursion of the planner
  of the Fourier transform ends at the ninth radix because the code has then left its array of
  8, which it does not check: the model gives \<open>None\<close>. No definition takes fuel.
\<close>

text \<open>
  \<^bold>\<open>Interfaces.\<close>
  \<^item> \<open>field_codec\<close> (\<open>BitChannel\<close>): one field of the bitstream, that writes a list of operations
    and reads them back; \<open>field_seq\<close> composes two, and a \<open>sublocale\<close> makes the sequence a field.
    \<open>bwdet\<close>, \<open>tns\<close>, \<open>ltpf\<close>, \<open>sns\<close>, \<open>spec_side\<close>, \<open>side_head\<close>, \<open>side_filters\<close> and \<open>frame_side\<close>
    interpret them; \<open>side_roundtrip\<close> and \<open>frame_roundtrip\<close> rest on these.
  \<^item> \<open>float_format\<close> (\<open>FloatOrder\<close>): a binary format whose rounding is monotone; interpreted as
    \<open>f32\<close> and \<open>f64\<close>, for the bounds of the activation functions, the gains and the filters.
  \<^item> \<open>frame_codec\<close> (\<open>Wrappers\<close>): a decoder of frames that keeps an invariant and gives frames
    of a known size; the loops of the two applications are clients of it, interpreted with the decoder of \<^verbatim>\<open>lc3.c\<close>.

  \<^bold>\<open>What the lemmas show.\<close>
  \<^item> Round trips: the stream of symbols and bits, each field, the side data, the spectrum (two
    coefficients at least, since the field of their count starts at two), a frame; the pulse vectors,
    their enumeration being onto as well; the files of models.
  \<^item> Safety on any input: the decoder, its postfilter in the ring, the reading of a damaged frame, the
    payloads of the applications, the denoiser on any frame; a session of it gives back to the heap
    the four blocks it has taken.
  \<^item> What the encoder chooses fits what it writes: the budget of bits, the count of coefficients, the
    range of the gain and of the filters; and where the gain of the iOS copy does not fit.
  \<^item> The Fourier transform of the denoiser, over exact numbers, is the discrete Fourier transform for
    every length up to 32768 that its planner accepts with 7 factors at most: above, the table of 16-bit
    positions wraps, and with 8 factors the transform, with 9 the planner, writes outside an array
    (\<open>fft_impl_overrun\<close>, \<open>kf_factor_overrun\<close>). Over floats it is the same code on the same indices. The unrolled correlation gives the floats of the plain one.
  \<^item> The sizes, bitrates and delays of a stream; the logarithms in fixed point; the detectors.

  \<^bold>\<open>Arguments of the model.\<close> \<^verbatim>\<open>log10f\<close>, \<^verbatim>\<open>log10\<close>, \<^verbatim>\<open>sin\<close> and
  \<^verbatim>\<open>cos\<close> of the mathematical library; the answers of the allocators and of the virtual
  machine; the sizes of structures; the weights of the network, on which the theorems only ask that the
  arrays have the lengths of the layers. A hypothesis on one of them says that its results are floats,
  that the logarithm is accurate to a hundredth, that the allocator answers with unused blocks, or,
  for the iOS copy, that a gain of the logarithm has an index of 8 bits; the witnesses meet them.

  \<^bold>\<open>A macro of the source.\<close> \<^verbatim>\<open>LC3_NT\<close> of \<^verbatim>\<open>common.h\<close> ignores its
  parameter and reads a variable \<^verbatim>\<open>sr\<close>: the model takes the rate of the stream, as the
  compiled code does. For a stream of a lower rate than its samples the history of the encoder is then
  too short for the postfilter, and the model of \<open>analyze\<close> gives \<open>None\<close>.

  \<^bold>\<open>Not modelled.\<close> The intrinsics of \<^verbatim>\<open>ltpf_arm.h\<close>, \<^verbatim>\<open>ltpf_neon.h\<close> and
  \<^verbatim>\<open>mdct_neon.h\<close>, replacements of functions modelled from their C text. The rest of the iOS copy of
  the codec, the text of the Android one but for the layout of its structures, fixed sizes of local
  arrays, and \<^verbatim>\<open>mdct.c\<close>, which has its scale in the tables of rotations and scales again when the rates differ. The
  87000 weights of \<^verbatim>\<open>rnn_data.c\<close>, data without code. The branches \<^verbatim>\<open>FIXED_POINT\<close> and the program under
  \<^verbatim>\<open>TRAINING\<close>, not built here. The deallocation of transforms and of models, and the
  sanitizer harnesses. The rest of the repository is in other languages (Dart, Kotlin, Swift, Python).
\<close>

end
